(* ===== verification/Prelude.thy ===== *)
theory Prelude imports Complex_Main "HOL-Library.List_Lexorder" "HOL-Library.Char_ord"
begin

section \<open>Shared vocabulary of the development\<close>

text \<open>
  What every component uses: results that may be a thrown error, the sequencing of such
  results, the "first violation wins" combinator of the guards, and generic facts on lists.
  The collections \<open>guard_simps\<close> (bodies of guards), \<open>status_simps\<close> (status predicates)
  and \<open>num_simps\<close> (order and exactness of JavaScript numbers) are filled by the component
  theories and are what \<open>simp add:\<close> and \<open>auto simp:\<close> carry in their proofs.
\<close>

named_theorems guard_simps "bodies of guard functions"
named_theorems status_simps "bodies of status predicates"
named_theorems num_simps "order and exactness facts of JavaScript numbers"

subsection \<open>Thrown errors as values\<close>

text \<open>\<open>throw e\<close> in the code is \<open>Inl e\<close>, a normal return is \<open>Inr v\<close>. A call in the
  middle of a body is sequenced with \<open>and_then\<close>; a bare assertion with \<open>guarded\<close>.\<close>

type_synonym ('e, 'a) result = "'e + 'a"

fun and_then :: "('e, 'a) result \<Rightarrow> ('a \<Rightarrow> ('e, 'b) result) \<Rightarrow> ('e, 'b) result" where
  "and_then (Inl e) f = Inl e"
| "and_then (Inr a) f = f a"

definition throw_if :: "bool \<Rightarrow> 'e \<Rightarrow> ('e, unit) result" where
  "throw_if b e = (if b then Inl e else Inr ())"

definition is_ok :: "('e, 'a) result \<Rightarrow> bool" where
  "is_ok r = (case r of Inl _ \<Rightarrow> False | Inr _ \<Rightarrow> True)"

lemma is_ok_simps [simp]: "is_ok (Inr a)" "\<not> is_ok (Inl e)"
  by (simp_all add: is_ok_def)

lemma is_ok_iff: "is_ok r \<longleftrightarrow> (\<exists>a. r = Inr a)"
  by (cases r) auto

lemma and_then_Inr_iff: "and_then r f = Inr b \<longleftrightarrow> (\<exists>a. r = Inr a \<and> f a = Inr b)"
  by (cases r) auto

lemma and_then_Inl_iff: "and_then r f = Inl e \<longleftrightarrow> r = Inl e \<or> (\<exists>a. r = Inr a \<and> f a = Inl e)"
  by (cases r) auto

lemma throw_if_simps [simp]:
  "throw_if b e = Inr u \<longleftrightarrow> \<not> b"
  "throw_if b e = Inl e' \<longleftrightarrow> b \<and> e' = e"
  "is_ok (throw_if b e) \<longleftrightarrow> \<not> b"
  by (auto simp: throw_if_def)

text \<open>A \<open>for\<close> loop that throws out of its body on the first failing element.\<close>

fun each_ok :: "('a \<Rightarrow> ('e, unit) result) \<Rightarrow> 'a list \<Rightarrow> ('e, unit) result" where
  "each_ok f [] = Inr ()"
| "each_ok f (x # xs) = and_then (f x) (\<lambda>_. each_ok f xs)"

lemma each_ok_iff: "is_ok (each_ok f xs) \<longleftrightarrow> (\<forall>x \<in> set xs. is_ok (f x))"
proof (induction xs)
  case Nil
  then show ?case by simp
next
  case (Cons x xs)
  then show ?case by (cases "f x") simp_all
qed

text \<open>\<open>xs.filter(p)\<close> and \<open>xs.map(f)\<close> whose callback may throw.\<close>

fun filter_res :: "('a \<Rightarrow> ('e, bool) result) \<Rightarrow> 'a list \<Rightarrow> ('e, 'a list) result" where
  "filter_res p [] = Inr []"
| "filter_res p (x # xs) = and_then (p x) (\<lambda>b. and_then (filter_res p xs) (\<lambda>ys. Inr (if b then x # ys else ys)))"

lemma filter_res_total: "(\<And>x. x \<in> set xs \<Longrightarrow> p x = Inr (q x)) \<Longrightarrow> filter_res p xs = Inr (filter q xs)"
  by (induction xs) auto

lemma filter_res_subset: "filter_res p xs = Inr ys \<Longrightarrow> ys = filter (\<lambda>x. p x = Inr True) xs"
proof (induction xs arbitrary: ys)
  case Nil
  then show ?case by simp
next
  case (Cons x xs)
  then show ?case by (cases "p x") (auto simp: and_then_Inr_iff)
qed

text \<open>What the language itself throws, and what \<open>throw new Error(m)\<close> of the code throws.\<close>

datatype js_exn = RangeError | TypeError | Thrown string

subsection \<open>Sorting\<close>

text \<open>\<open>Array.prototype.sort\<close> is stable; for a consistent comparator its result is the one of
  stable insertion.\<close>

fun js_insert :: "('a \<Rightarrow> 'a \<Rightarrow> int) \<Rightarrow> 'a \<Rightarrow> 'a list \<Rightarrow> 'a list" where
  "js_insert cmp x [] = [x]"
| "js_insert cmp x (y # ys) = (if cmp x y \<le> 0 then x # y # ys else y # js_insert cmp x ys)"

definition js_sort :: "('a \<Rightarrow> 'a \<Rightarrow> int) \<Rightarrow> 'a list \<Rightarrow> 'a list" where
  "js_sort cmp xs = foldr (js_insert cmp) xs []"

text \<open>The contract of a comparator: it orders by a key of a linear order. Then \<open>sort\<close> is
  the library's stable \<open>sort_key\<close>.\<close>

locale comparator =
  fixes cmp :: "'a \<Rightarrow> 'a \<Rightarrow> int"
    and key :: "'a \<Rightarrow> 'k::linorder"
  assumes cmp_le: "cmp a b \<le> 0 \<longleftrightarrow> key a \<le> key b"
begin

lemma js_insert_insort: "js_insert cmp x ys = insort_key key x ys"
  by (induction ys) (simp_all add: cmp_le)

lemma js_sort_sort_key: "js_sort cmp xs = sort_key key xs"
  by (induction xs) (simp_all add: js_sort_def sort_key_def js_insert_insort)

lemma js_sort_sorted: "sorted (map key (js_sort cmp xs))"
  by (simp add: js_sort_sort_key)

lemma js_sort_set: "set (js_sort cmp xs) = set xs"
  by (simp add: js_sort_sort_key)

lemma js_sort_length: "length (js_sort cmp xs) = length xs"
  by (simp add: js_sort_sort_key)

lemma js_sort_stable: "filter (\<lambda>x. key x = k) (js_sort cmp xs) = filter (\<lambda>x. key x = k) xs"
  by (simp add: js_sort_sort_key sort_key_stable)

end

subsection \<open>Optional values\<close>

text \<open>\<open>a ?? b\<close> of the code on a nullable value.\<close>

definition coalesce :: "'a option \<Rightarrow> 'a \<Rightarrow> 'a" where
  "coalesce x d = (case x of None \<Rightarrow> d | Some v \<Rightarrow> v)"

lemma coalesce_simps [simp]: "coalesce None d = d" "coalesce (Some v) d = v"
  by (simp_all add: coalesce_def)

text \<open>First value of a list of nullable checks.\<close>

fun first_some :: "'a option list \<Rightarrow> 'a option" where
  "first_some [] = None"
| "first_some (None # xs) = first_some xs"
| "first_some (Some v # xs) = Some v"

lemma first_some_None_iff: "first_some xs = None \<longleftrightarrow> (\<forall>x \<in> set xs. x = None)"
  by (induction xs rule: first_some.induct) auto

lemma first_some_in: "first_some xs = Some v \<Longrightarrow> Some v \<in> set xs"
  by (induction xs rule: first_some.induct) auto

lemma first_some_append:
  "first_some (xs @ ys) = (case first_some xs of None \<Rightarrow> first_some ys | Some v \<Rightarrow> Some v)"
  by (induction xs rule: first_some.induct) auto

subsection \<open>Transition systems\<close>

text \<open>An invariant of the steps holds in every reachable state; a preorder that every step
  respects relates every state to the ones reachable from it.\<close>

locale step_invariant =
  fixes step :: "'s \<Rightarrow> 's \<Rightarrow> bool" and inv :: "'s \<Rightarrow> bool"
  assumes step_inv: "inv s \<Longrightarrow> step s s' \<Longrightarrow> inv s'"
begin

lemma reach_inv: "step\<^sup>*\<^sup>* s s' \<Longrightarrow> inv s \<Longrightarrow> inv s'"
  by (induction rule: rtranclp_induct) (auto intro: step_inv)

end

locale step_preorder = step_invariant step inv
  for step :: "'s \<Rightarrow> 's \<Rightarrow> bool" and inv :: "'s \<Rightarrow> bool" +
  fixes ord :: "'s \<Rightarrow> 's \<Rightarrow> bool"
  assumes ord_refl: "ord s s"
    and ord_trans: "ord s t \<Longrightarrow> ord t u \<Longrightarrow> ord s u"
    and step_ord: "inv s \<Longrightarrow> step s s' \<Longrightarrow> ord s s'"
begin

lemma reach_ord: "step\<^sup>*\<^sup>* s s' \<Longrightarrow> inv s \<Longrightarrow> ord s s'"
proof (induction rule: rtranclp_induct)
  case base
  show ?case by (rule ord_refl)
next
  case (step t u)
  then show ?case by (meson ord_trans reach_inv step_ord)
qed

end

end
