(* ===== verification/JsNumber.thy ===== *)
theory JsNumber imports Prelude "HOL-Library.Log_Nat"
begin

section \<open>JavaScript numbers: IEEE-754 doubles, executable\<close>

text \<open>
  A JavaScript number is an IEEE-754 binary64 value. A finite number is kept as the rational
  it denotes; an operation computes the exact rational result and rounds it to the nearest
  double, ties to even, with gradual underflow and overflow to infinity. The two zeros are
  identified: the modelled code never divides by a zero or inspects its sign.
\<close>

datatype jnum = NaN | PInf | NInf | Fin rat

subsection \<open>Rounding a rational to the nearest double\<close>

definition pow2 :: "int \<Rightarrow> rat" where
  "pow2 k = (if k \<ge> 0 then 2 ^ nat k else 1 / 2 ^ nat (- k))"

text \<open>Position of the leading binary digit.\<close>

definition ilog2 :: "rat \<Rightarrow> int" where
  "ilog2 x = (case quotient_of \<bar>x\<bar> of (p, q) \<Rightarrow>
     let k = bitlen p - bitlen q in if pow2 k \<le> \<bar>x\<bar> then k else k - 1)"

text \<open>Weight of the last digit of a double near \<open>x\<close>: 53 significant bits, at least \<open>2^-1074\<close>.\<close>

definition ulp_exp :: "rat \<Rightarrow> int" where
  "ulp_exp x = max (ilog2 x - 52) (-1074)"

text \<open>Nearest integer, ties to even.\<close>

definition rne :: "rat \<Rightarrow> int" where
  "rne x = (let f = \<lfloor>x\<rfloor>; d = x - of_int f in
     if d < 1/2 then f else if d > 1/2 then f + 1 else if even f then f else f + 1)"

definition dbl :: "rat \<Rightarrow> rat" where
  "dbl x = (if x = 0 then 0 else of_int (rne (x / pow2 (ulp_exp x))) * pow2 (ulp_exp x))"

definition js_round_rat :: "rat \<Rightarrow> jnum" where
  "js_round_rat x = (let y = dbl x in
     if y \<ge> 2 ^ 1024 then PInf else if y \<le> - (2 ^ 1024) then NInf else Fin y)"

text \<open>The overflow test costs a large power; an evaluation takes it only for a large result.\<close>

lemma js_round_rat_code [code]:
  "js_round_rat x = (let y = dbl x in
     if \<bar>y\<bar> < 1267650600228229401496703205376 then Fin y
     else if y \<ge> 2 ^ 1024 then PInf else if y \<le> - (2 ^ 1024) then NInf else Fin y)"
proof -
  have "(1267650600228229401496703205376::rat) = 2 ^ 100" by simp
  also have "\<dots> < 2 ^ 1024" by (intro power_strict_increasing) simp_all
  finally show ?thesis by (auto simp del: power_numeral_even power_numeral_odd simp: js_round_rat_def Let_def abs_if not_less)
qed

subsection \<open>Powers of two and the leading digit\<close>

lemma pow2_pos [simp]: "0 < pow2 k"
  by (simp add: pow2_def)

lemma pow2_nonzero [simp]: "pow2 k \<noteq> 0"
  using pow2_pos [of k] by linarith

lemma abs_pow2 [simp]: "\<bar>pow2 k\<bar> = pow2 k"
  by (simp add: less_imp_le)

lemma pow2_0 [simp]: "pow2 0 = 1"
  by (simp add: pow2_def)

lemma pow2_nat: "0 \<le> k \<Longrightarrow> pow2 k = 2 ^ nat k"
  by (simp add: pow2_def)

lemma pow2_powi: "pow2 k = power_int 2 k"
  by (simp add: pow2_def power_int_def field_simps)

lemma pow2_add: "pow2 (a + b) = pow2 a * pow2 b"
  by (simp add: pow2_powi power_int_add)

lemma pow2_diff: "pow2 (a - b) = pow2 a / pow2 b"
  by (simp add: pow2_powi power_int_diff)

lemma pow2_Suc: "pow2 (k + 1) = 2 * pow2 k"
  by (simp add: pow2_powi power_int_add)

lemma pow2_mono: "a \<le> b \<Longrightarrow> pow2 a \<le> pow2 b"
  by (simp add: pow2_powi power_int_increasing)

lemma pow2_less_iff: "pow2 a < pow2 b \<longleftrightarrow> a < b"
  by (metis linorder_not_le nle_le order_less_irrefl pow2_mono pow2_powi power_int_strict_increasing
      one_less_numeral_iff semiring_norm(76))

lemma pow2_int: "0 \<le> k \<Longrightarrow> pow2 k = of_int (2 ^ nat k)"
  by (simp add: pow2_def)

lemma ilog2_bounds:
  assumes "x \<noteq> 0"
  shows "pow2 (ilog2 x) \<le> \<bar>x\<bar> \<and> \<bar>x\<bar> < pow2 (ilog2 x + 1)"
proof -
  obtain p q where pq: "quotient_of \<bar>x\<bar> = (p, q)" by fastforce
  have q: "q > 0" using pq by (rule quotient_of_denom_pos)
  have x: "\<bar>x\<bar> = of_int p / of_int q" using pq by (rule quotient_of_div)
  have p: "p > 0" using x q assms by (metis abs_eq_0 abs_ge_zero divide_less_0_iff linorder_neqE_linordered_idom
      div_0 less_le_not_le of_int_0 of_int_0_less_iff of_int_less_0_iff)
  let ?a = "bitlen p" and ?b = "bitlen q"
  have a1: "1 \<le> ?a" and b1: "1 \<le> ?b" using p q by (auto simp: bitlen_ge_iff_power)
  have P: "pow2 (?a - 1) \<le> of_int p \<and> of_int p < pow2 ?a"
    using bitlen_bounds [OF p] a1 by (simp add: pow2_int del: of_int_power)
  have Q: "pow2 (?b - 1) \<le> of_int q \<and> of_int q < pow2 ?b"
    using bitlen_bounds [OF q] b1 by (simp add: pow2_int del: of_int_power)
  have qpos: "(0::rat) < of_int q" using q by simp
  have up: "\<bar>x\<bar> < pow2 (?a - ?b + 1)"
  proof -
    have "\<bar>x\<bar> < pow2 ?a / of_int q" using P qpos x by (simp add: divide_strict_right_mono)
    also have "\<dots> \<le> pow2 ?a / pow2 (?b - 1)" using Q by (intro frac_le) (auto intro: less_imp_le)
    also have "\<dots> = pow2 (?a - ?b + 1)" by (simp add: pow2_powi power_int_diff power_int_add)
    finally show ?thesis .
  qed
  have lo: "pow2 (?a - ?b - 1) \<le> \<bar>x\<bar>"
  proof -
    have "pow2 (?a - ?b - 1) = pow2 (?a - 1) / pow2 ?b" by (simp add: pow2_powi power_int_diff)
    also have "\<dots> \<le> pow2 (?a - 1) / of_int q" using Q qpos by (intro frac_le) (auto intro: less_imp_le)
    also have "\<dots> \<le> \<bar>x\<bar>" using P qpos x by (simp add: divide_right_mono)
    finally show ?thesis .
  qed
  show ?thesis using up lo by (auto simp: ilog2_def pq Let_def)
qed

lemma ilog2_unique:
  assumes "pow2 k \<le> \<bar>x\<bar>" and "\<bar>x\<bar> < pow2 (k + 1)"
  shows "ilog2 x = k"
proof -
  have "x \<noteq> 0" using assms(1) by (metis abs_zero not_less pow2_pos)
  from ilog2_bounds [OF this] assms have "pow2 k < pow2 (ilog2 x + 1)" "pow2 (ilog2 x) < pow2 (k + 1)"
    by linarith+
  then show ?thesis by (simp add: pow2_less_iff)
qed

lemma ilog2_mono: "x \<noteq> 0 \<Longrightarrow> \<bar>x\<bar> \<le> \<bar>y\<bar> \<Longrightarrow> ilog2 x \<le> ilog2 y"
proof -
  assume a: "x \<noteq> 0" "\<bar>x\<bar> \<le> \<bar>y\<bar>"
  then have "y \<noteq> 0" by auto
  with ilog2_bounds [OF a(1)] ilog2_bounds [of y] a(2) have "pow2 (ilog2 x) < pow2 (ilog2 y + 1)"
    by linarith
  then show ?thesis by (simp add: pow2_less_iff)
qed

lemma ilog2_minus [simp]: "ilog2 (- x) = ilog2 x"
  by (simp add: ilog2_def)

lemma ulp_exp_minus [simp]: "ulp_exp (- x) = ulp_exp x"
  by (simp add: ulp_exp_def)

subsection \<open>Rounding to an integer, ties to even\<close>

lemma rne_of_int [simp]: "rne (of_int n) = n"
  by (simp add: rne_def)

lemma rne_numeral [simp]: "rne (numeral k) = numeral k" "rne 0 = 0" "rne 1 = 1"
  using rne_of_int [of "numeral k"] rne_of_int [of 0] rne_of_int [of 1] by simp_all

lemma rne_diff: "\<bar>of_int (rne x) - x\<bar> \<le> 1/2"
  unfolding rne_def Let_def
  by (auto simp: abs_if not_less) (use of_int_floor_le [of x] in linarith)+

lemma rne_mono:
  assumes "x \<le> y" shows "rne x \<le> rne y"
proof (cases "\<lfloor>x\<rfloor> = \<lfloor>y\<rfloor>")
  case True
  with assms show ?thesis by (auto simp: rne_def Let_def)
next
  case False
  with assms have "\<lfloor>x\<rfloor> + 1 \<le> \<lfloor>y\<rfloor>" using floor_mono [OF assms] by linarith
  then show ?thesis by (auto simp: rne_def Let_def)
qed

lemma rne_minus [simp]: "rne (- x) = - rne x"
proof (cases "x = of_int \<lfloor>x\<rfloor>")
  case True
  then show ?thesis by (metis of_int_minus rne_of_int)
next
  case False
  then have f: "\<lfloor>- x\<rfloor> = - \<lfloor>x\<rfloor> - 1" by linarith
  have "even (- \<lfloor>x\<rfloor> - 1) \<longleftrightarrow> odd \<lfloor>x\<rfloor>" by presburger
  with f show ?thesis by (auto simp: rne_def Let_def)
qed

lemma rne_nonneg: "0 \<le> x \<Longrightarrow> 0 \<le> rne x"
  using rne_mono [of 0 x] rne_of_int [of 0] by simp

subsection \<open>Representable values\<close>

text \<open>\<open>is_dbl x\<close>: \<open>x\<close> is a double, up to the overflow threshold.\<close>

definition is_dbl :: "rat \<Rightarrow> bool" where
  "is_dbl x \<longleftrightarrow> (\<exists>m e. x = of_int m * pow2 e \<and> \<bar>m\<bar> \<le> 2 ^ 53 \<and> -1074 \<le> e)"

lemma is_dbl_0 [simp]: "is_dbl 0"
  unfolding is_dbl_def by (rule exI [of _ 0], rule exI [of _ 0]) simp

lemma is_dbl_int: "\<bar>n\<bar> \<le> 2 ^ 53 \<Longrightarrow> is_dbl (of_int n)"
  unfolding is_dbl_def by (rule exI [of _ n], rule exI [of _ 0]) simp

lemma is_dbl_minus: "is_dbl x \<Longrightarrow> is_dbl (- x)"
  unfolding is_dbl_def by (metis abs_minus_cancel mult_minus_left of_int_minus)

lemma is_dbl_half_int: "\<bar>n\<bar> \<le> 2 ^ 53 \<Longrightarrow> is_dbl (of_int n / 2)"
  unfolding is_dbl_def by (rule exI [of _ n], rule exI [of _ "-1"]) (simp add: pow2_def)

lemma dbl_0 [simp]: "dbl 0 = 0"
  by (simp add: dbl_def)

lemma dbl_minus: "dbl (- x) = - dbl x"
  by (simp add: dbl_def)

text \<open>A double is its own rounding: its quotient by the last digit's weight is an integer.\<close>

lemma dbl_id:
  assumes "is_dbl x" shows "dbl x = x"
proof (cases "x = 0")
  case True
  then show ?thesis by simp
next
  case False
  from assms obtain m e where x: "x = of_int m * pow2 e" and m: "\<bar>m\<bar> \<le> 2 ^ 53" and e: "-1074 \<le> e"
    unfolding is_dbl_def by blast
  have m0: "m \<noteq> 0" using False x by auto
  have le: "\<exists>j. x / pow2 (ulp_exp x) = of_int j"
  proof (cases "ulp_exp x \<le> e")
    case True
    have "x / pow2 (ulp_exp x) = of_int m * pow2 (e - ulp_exp x)" by (simp add: x pow2_diff)
    also have "\<dots> = of_int (m * 2 ^ nat (e - ulp_exp x))" using True by (simp add: pow2_int)
    finally show ?thesis by blast
  next
    case False
    with e have il: "e < ilog2 x - 52" by (simp add: ulp_exp_def)
    have "pow2 (ilog2 x) \<le> \<bar>x\<bar>" using ilog2_bounds \<open>x \<noteq> 0\<close> by blast
    also have "\<bar>x\<bar> = of_int \<bar>m\<bar> * pow2 e" by (simp add: x abs_mult)
    also have "\<dots> \<le> of_int (2 ^ 53) * pow2 e" using m by (intro mult_right_mono) (auto simp flip: of_int_le_iff intro: less_imp_le)
    also have "\<dots> = pow2 (e + 53)" by (simp add: pow2_add pow2_nat)
    finally have "ilog2 x \<le> e + 53" using pow2_less_iff [of "e + 53" "ilog2 x"] by linarith
    with il have eq: "ilog2 x = e + 53" by simp
    have "of_int \<bar>m\<bar> * pow2 e \<ge> pow2 (e + 53)" using ilog2_bounds [OF \<open>x \<noteq> 0\<close>] eq by (simp add: x abs_mult)
    then have "of_int \<bar>m\<bar> \<ge> (2 ^ 53 :: rat)" by (simp add: pow2_add pow2_nat)
    then have "\<bar>m\<bar> \<ge> 2 ^ 53" by (metis of_int_le_iff of_int_numeral of_int_power)
    with m have am: "\<bar>m\<bar> = 2 ^ 53" by simp
    have u: "ulp_exp x = e + 1" using eq e by (simp add: ulp_exp_def)
    have "x / pow2 (e + 1) = of_int m / 2" by (simp add: x pow2_Suc)
    then have "x / pow2 (ulp_exp x) = of_int m / 2" by (simp only: u)
    also have "\<dots> = of_int (m div 2)"
    proof -
      from am have "m = 2 ^ 53 \<or> m = - (2 ^ 53)" by linarith
      then show ?thesis by auto
    qed
    finally show ?thesis by blast
  qed
  then obtain j where j: "x / pow2 (ulp_exp x) = of_int j" by blast
  then have "dbl x = x / pow2 (ulp_exp x) * pow2 (ulp_exp x)" using False by (simp only: dbl_def rne_of_int if_False)
  then show ?thesis by simp
qed

lemma dbl_is_dbl [simp]: "is_dbl (dbl x)"
proof (cases "x = 0")
  case True
  then show ?thesis by simp
next
  case False
  let ?u = "ulp_exp x" and ?r = "rne (x / pow2 (ulp_exp x))"
  have "\<bar>x\<bar> < pow2 (?u + 53)"
  proof -
    have "\<bar>x\<bar> < pow2 (ilog2 x + 1)" using ilog2_bounds [OF False] by blast
    also have "\<dots> \<le> pow2 (?u + 53)" by (rule pow2_mono) (simp add: ulp_exp_def)
    finally show ?thesis .
  qed
  then have b: "\<bar>x / pow2 ?u\<bar> \<le> of_int (2 ^ 53)" by (simp add: pow2_add pow2_nat field_simps)
  have "?r \<le> 2 ^ 53" "- (2 ^ 53) \<le> ?r"
    using b rne_mono [of "x / pow2 ?u" "of_int (2 ^ 53)"] rne_mono [of "of_int (- (2 ^ 53))" "x / pow2 ?u"]
    by (simp_all only: rne_of_int abs_le_iff of_int_minus) auto
  then have "\<bar>?r\<bar> \<le> 2 ^ 53" by linarith
  moreover have "-1074 \<le> ?u" by (simp add: ulp_exp_def)
  ultimately show ?thesis using False unfolding is_dbl_def dbl_def by auto
qed

lemma dbl_dbl [simp]: "dbl (dbl x) = dbl x"
  by (rule dbl_id) simp

lemma is_dbl_iff: "is_dbl x \<longleftrightarrow> dbl x = x"
  by (metis dbl_id dbl_is_dbl)

lemma dbl_nonneg: "0 \<le> x \<Longrightarrow> 0 \<le> dbl x"
  by (simp add: dbl_def rne_nonneg less_imp_le)

lemma is_dbl_pow2: "-1074 \<le> k \<Longrightarrow> is_dbl (pow2 k)"
  unfolding is_dbl_def by (rule exI [of _ 1], rule exI [of _ k]) simp

lemma dbl_mono_pos:
  assumes "0 < x" and "x \<le> y" shows "dbl x \<le> dbl y"
proof (cases "ulp_exp x = ulp_exp y")
  case True
  have "x / pow2 (ulp_exp y) \<le> y / pow2 (ulp_exp y)" using assms(2) by (simp add: divide_right_mono less_imp_le)
  with assms True show ?thesis by (simp add: dbl_def rne_mono mult_right_mono less_imp_le)
next
  case False
  have "ilog2 x \<le> ilog2 y" using assms by (intro ilog2_mono) auto
  with False have lt: "ilog2 x < ilog2 y" and ge: "-1074 \<le> ilog2 y - 52"
    by (auto simp: ulp_exp_def max_def split: if_splits)
  let ?c = "pow2 (ilog2 y)"
  have c: "is_dbl ?c" using ge by (intro is_dbl_pow2) simp
  have "x \<le> ?c"
  proof -
    have "x < pow2 (ilog2 x + 1)" using ilog2_bounds [of x] assms by auto
    also have "\<dots> \<le> ?c" using lt by (intro pow2_mono) simp
    finally show ?thesis by simp
  qed
  moreover have "?c \<le> y" using ilog2_bounds [of y] assms by auto
  ultimately have xc: "x \<le> ?c" "?c \<le> y" by auto
  have cy: "?c \<le> dbl y"
  proof -
    have "ulp_exp y = ilog2 y - 52" using ge by (simp add: ulp_exp_def)
    then have "?c = 2 ^ 52 * pow2 (ulp_exp y)" by (simp add: pow2_diff pow2_nat)
    with xc(2) have "of_int (2 ^ 52) \<le> y / pow2 (ulp_exp y)" by (simp add: pos_le_divide_eq)
    then have "2 ^ 52 \<le> rne (y / pow2 (ulp_exp y))" using rne_mono rne_of_int by metis
    then have le: "of_int (2 ^ 52) * pow2 (ulp_exp y) \<le> of_int (rne (y / pow2 (ulp_exp y))) * pow2 (ulp_exp y)"
      by (intro mult_right_mono) (auto simp flip: of_int_le_iff intro: less_imp_le)
    have "?c = of_int (2 ^ 52) * pow2 (ulp_exp y)"
      using \<open>?c = 2 ^ 52 * pow2 (ulp_exp y)\<close> by simp
    also note le
    also have "of_int (rne (y / pow2 (ulp_exp y))) * pow2 (ulp_exp y) = dbl y" using assms by (simp add: dbl_def)
    finally show ?thesis .
  qed
  have "dbl x \<le> ?c"
  proof -
    have u: "ulp_exp x \<le> ilog2 y" using lt ge by (simp add: ulp_exp_def)
    have "x / pow2 (ulp_exp x) \<le> of_int (2 ^ nat (ilog2 y - ulp_exp x))"
      using xc(1) u by (simp add: pow2_int [symmetric] pow2_diff divide_right_mono less_imp_le del: of_int_power)
    then have "rne (x / pow2 (ulp_exp x)) \<le> 2 ^ nat (ilog2 y - ulp_exp x)" using rne_mono rne_of_int by metis
    then have "of_int (rne (x / pow2 (ulp_exp x))) * pow2 (ulp_exp x) \<le> of_int (2 ^ nat (ilog2 y - ulp_exp x)) * pow2 (ulp_exp x)"
      by (intro mult_right_mono) (auto simp flip: of_int_le_iff intro: less_imp_le)
    also have "\<dots> = ?c" using u by (simp add: pow2_int [symmetric] pow2_diff del: of_int_power)
    finally show ?thesis using assms by (simp add: dbl_def)
  qed
  with cy show ?thesis by simp
qed

lemma dbl_mono: "x \<le> y \<Longrightarrow> dbl x \<le> dbl y"
proof -
  assume le: "x \<le> y"
  consider "0 < x" | "x \<le> 0" "0 \<le> y" | "y < 0" by linarith
  then show ?thesis
  proof cases
    case 1 then show ?thesis using le by (rule dbl_mono_pos)
  next
    case 2
    then have "0 \<le> dbl (- x)" "0 \<le> dbl y" by (auto intro: dbl_nonneg)
    then show ?thesis by (simp add: dbl_minus)
  next
    case 3
    then have "dbl (- y) \<le> dbl (- x)" using le by (intro dbl_mono_pos) auto
    then show ?thesis by (simp add: dbl_minus)
  qed
qed

subsection \<open>The operations of the language\<close>

text \<open>Arithmetic on finite operands rounds the exact result; the remaining cases are the
  table of the standard for infinities and NaN.\<close>

fun sgn_inf :: "bool \<Rightarrow> jnum" where
  "sgn_inf True = PInf"
| "sgn_inf False = NInf"

fun jneg :: "jnum \<Rightarrow> jnum" where
  "jneg NaN = NaN"
| "jneg PInf = NInf"
| "jneg NInf = PInf"
| "jneg (Fin a) = Fin (- a)"

fun jadd :: "jnum \<Rightarrow> jnum \<Rightarrow> jnum" where
  "jadd (Fin a) (Fin b) = js_round_rat (a + b)"
| "jadd NaN y = NaN"
| "jadd x NaN = NaN"
| "jadd PInf NInf = NaN"
| "jadd NInf PInf = NaN"
| "jadd PInf y = PInf"
| "jadd NInf y = NInf"
| "jadd x PInf = PInf"
| "jadd x NInf = NInf"

definition jsub :: "jnum \<Rightarrow> jnum \<Rightarrow> jnum" where
  "jsub x y = jadd x (jneg y)"

fun jmul :: "jnum \<Rightarrow> jnum \<Rightarrow> jnum" where
  "jmul (Fin a) (Fin b) = js_round_rat (a * b)"
| "jmul NaN y = NaN"
| "jmul x NaN = NaN"
| "jmul PInf (Fin b) = (if b = 0 then NaN else sgn_inf (b > 0))"
| "jmul NInf (Fin b) = (if b = 0 then NaN else sgn_inf (b < 0))"
| "jmul (Fin a) PInf = (if a = 0 then NaN else sgn_inf (a > 0))"
| "jmul (Fin a) NInf = (if a = 0 then NaN else sgn_inf (a < 0))"
| "jmul PInf PInf = PInf"
| "jmul NInf NInf = PInf"
| "jmul PInf NInf = NInf"
| "jmul NInf PInf = NInf"

fun jdiv :: "jnum \<Rightarrow> jnum \<Rightarrow> jnum" where
  "jdiv (Fin a) (Fin b) =
     (if b = 0 then (if a = 0 then NaN else sgn_inf (a > 0)) else js_round_rat (a / b))"
| "jdiv NaN y = NaN"
| "jdiv x NaN = NaN"
| "jdiv (Fin a) PInf = Fin 0"
| "jdiv (Fin a) NInf = Fin 0"
| "jdiv PInf (Fin b) = sgn_inf (b \<ge> 0)"
| "jdiv NInf (Fin b) = sgn_inf (b < 0)"
| "jdiv x y = NaN"

text \<open>The relational operators are all false on NaN.\<close>

fun jlt :: "jnum \<Rightarrow> jnum \<Rightarrow> bool" where
  "jlt (Fin a) (Fin b) = (a < b)"
| "jlt NInf (Fin b) = True"
| "jlt NInf PInf = True"
| "jlt (Fin a) PInf = True"
| "jlt x y = False"

fun jeq :: "jnum \<Rightarrow> jnum \<Rightarrow> bool" where
  "jeq NaN y = False"
| "jeq x y = (x = y)"

definition jle :: "jnum \<Rightarrow> jnum \<Rightarrow> bool" where
  "jle x y \<longleftrightarrow> jlt x y \<or> jeq x y"

definition is_finite :: "jnum \<Rightarrow> bool" where
  "is_finite x \<longleftrightarrow> (case x of Fin _ \<Rightarrow> True | _ \<Rightarrow> False)"

definition jmin :: "jnum \<Rightarrow> jnum \<Rightarrow> jnum" where
  "jmin x y = (if x = NaN \<or> y = NaN then NaN else if jlt y x then y else x)"

definition jmax :: "jnum \<Rightarrow> jnum \<Rightarrow> jnum" where
  "jmax x y = (if x = NaN \<or> y = NaN then NaN else if jlt x y then y else x)"

text \<open>\<open>Math.abs\<close>, \<open>Math.floor\<close> and \<open>Math.round\<close> (half goes up).\<close>

fun jabs :: "jnum \<Rightarrow> jnum" where
  "jabs (Fin a) = Fin \<bar>a\<bar>"
| "jabs NInf = PInf"
| "jabs x = x"

fun jfloor :: "jnum \<Rightarrow> jnum" where
  "jfloor (Fin a) = Fin (of_int \<lfloor>a\<rfloor>)"
| "jfloor x = x"

fun jround :: "jnum \<Rightarrow> jnum" where
  "jround (Fin a) = Fin (of_int \<lfloor>a + 1/2\<rfloor>)"
| "jround x = x"

text \<open>A decimal literal denotes the nearest double; \<open>Number.EPSILON\<close> is \<open>2^-52\<close>.\<close>

definition lit :: "rat \<Rightarrow> jnum" where
  "lit q = js_round_rat q"

definition js_epsilon :: jnum where
  "js_epsilon = Fin (1 / 2 ^ 52)"

text \<open>Falsy numbers are zero and NaN; \<open>x || d\<close> on a number.\<close>

definition truthy_num :: "jnum \<Rightarrow> bool" where
  "truthy_num x \<longleftrightarrow> x \<noteq> NaN \<and> x \<noteq> Fin 0"

definition num_or :: "jnum \<Rightarrow> jnum \<Rightarrow> jnum" where
  "num_or x d = (if truthy_num x then x else d)"

text \<open>A value of the language: a finite number is a double below the overflow threshold.\<close>

fun wf_num :: "jnum \<Rightarrow> bool" where
  "wf_num (Fin a) = (is_dbl a \<and> \<bar>a\<bar> < 2 ^ 1024)"
| "wf_num _ = True"

text \<open>The rational a finite number denotes.\<close>

fun num_val :: "jnum \<Rightarrow> rat" where
  "num_val (Fin a) = a"
| "num_val _ = 0"

subsection \<open>Facts on the operations\<close>

lemma is_finite_iff: "is_finite x \<longleftrightarrow> (\<exists>a. x = Fin a)"
  by (cases x) (simp_all add: is_finite_def)

lemma is_finite_simps [simp]: "is_finite (Fin a)" "\<not> is_finite NaN" "\<not> is_finite PInf" "\<not> is_finite NInf"
  by (simp_all add: is_finite_def)

lemma jle_simps [simp]:
  "jle (Fin a) (Fin b) \<longleftrightarrow> a \<le> b" "\<not> jle NaN y" "\<not> jle x NaN"
  "jle NInf (Fin b)" "\<not> jle (Fin a) NInf" "jle (Fin a) PInf" "\<not> jle PInf (Fin b)"
  "jle PInf PInf" "jle NInf NInf" "jle NInf PInf" "\<not> jle PInf NInf"
  by (cases x; cases y; auto simp: jle_def)+

lemma jlt_not_le: "x \<noteq> NaN \<Longrightarrow> y \<noteq> NaN \<Longrightarrow> jlt x y \<longleftrightarrow> \<not> jle y x"
  by (cases x; cases y) auto

lemma jlt_irrefl [simp]: "\<not> jlt x x"
  by (cases x) auto

lemma jlt_NaN [simp]: "\<not> jlt NaN y" "\<not> jlt x NaN"
  by (cases x; simp)+

lemma jlt_imp_jle: "jlt x y \<Longrightarrow> jle x y"
  by (simp add: jle_def)

lemma jle_refl: "x \<noteq> NaN \<Longrightarrow> jle x x"
  by (cases x) auto

lemma jle_trans [trans]: "jle x y \<Longrightarrow> jle y z \<Longrightarrow> jle x z"
  by (cases x; cases y; cases z) auto

lemma jlt_trans [trans]: "jlt x y \<Longrightarrow> jlt y z \<Longrightarrow> jlt x z"
  by (cases x; cases y; cases z) auto

lemma jlt_le_trans [trans]: "jlt x y \<Longrightarrow> jle y z \<Longrightarrow> jlt x z"
  by (cases x; cases y; cases z) auto

lemma jle_lt_trans [trans]: "jle x y \<Longrightarrow> jlt y z \<Longrightarrow> jlt x z"
  by (cases x; cases y; cases z) auto

lemma jle_antisym: "jle x y \<Longrightarrow> jle y x \<Longrightarrow> x = y"
  by (cases x; cases y) auto

lemma jeq_iff [simp]: "jeq x y \<longleftrightarrow> x = y \<and> x \<noteq> NaN"
  by (cases x) auto

lemma jmin_le: "jmin x y = z \<Longrightarrow> z \<noteq> NaN \<Longrightarrow> jle z x \<and> jle z y"
  by (cases x; cases y) (auto simp: jmin_def split: if_splits)

lemma jmin_Fin [simp]: "jmin (Fin a) (Fin b) = Fin (min a b)"
  by (simp add: jmin_def min_def)

lemma jmax_Fin [simp]: "jmax (Fin a) (Fin b) = Fin (max a b)"
  by (simp add: jmax_def max_def)

lemma jmax_ge: "jmax x y = z \<Longrightarrow> z \<noteq> NaN \<Longrightarrow> jle x z \<and> jle y z"
  by (cases x; cases y) (auto simp: jmax_def split: if_splits)

lemma js_round_rat_cases:
  obtains "js_round_rat x = PInf" "0 < x" | "js_round_rat x = NInf" "x < 0"
    | "js_round_rat x = Fin (dbl x)" "\<bar>dbl x\<bar> < 2 ^ 1024"
proof -
  have big: "(0::rat) < 2 ^ 1024" by simp
  consider "dbl x \<ge> 2 ^ 1024" | "dbl x \<le> - (2 ^ 1024)" | "\<bar>dbl x\<bar> < 2 ^ 1024" by linarith
  then show ?thesis
  proof cases
    case 1
    then have "0 < dbl x" using big by linarith
    then have "0 < x" using dbl_mono [of x 0] by (metis dbl_0 linorder_not_le)
    with 1 that(1) show ?thesis by (simp add: js_round_rat_def Let_def)
  next
    case 2
    then have "dbl x < 0" using big by linarith
    then have "x < 0" using dbl_nonneg [of x] by linarith
    moreover have "\<not> dbl x \<ge> 2 ^ 1024" using 2 big by linarith
    ultimately show ?thesis using 2 that(2) by (simp add: js_round_rat_def Let_def)
  next
    case 3
    then have "\<not> dbl x \<ge> 2 ^ 1024" "\<not> dbl x \<le> - (2 ^ 1024)" by linarith+
    with 3 that(3) show ?thesis by (simp add: js_round_rat_def Let_def)
  qed
qed

lemma js_round_rat_small: "\<bar>x\<bar> < 2 ^ 1023 \<Longrightarrow> js_round_rat x = Fin (dbl x)"
proof -
  assume a: "\<bar>x\<bar> < 2 ^ 1023"
  have c: "dbl (2 ^ 1023) = 2 ^ 1023"
    using is_dbl_pow2 [of 1023] dbl_id by (simp add: pow2_nat)
  have "dbl x \<le> 2 ^ 1023" using dbl_mono [of x "2 ^ 1023"] a c by linarith
  moreover have "- (2 ^ 1023) \<le> dbl x" using dbl_mono [of "- (2 ^ 1023)" x] a c dbl_minus [of "2 ^ 1023"] by linarith
  moreover have "(2::rat) ^ 1023 < 2 ^ 1024" by simp
  ultimately show ?thesis by (simp add: js_round_rat_def Let_def)
qed

lemma js_round_rat_id: "is_dbl x \<Longrightarrow> \<bar>x\<bar> < 2 ^ 1024 \<Longrightarrow> js_round_rat x = Fin x"
  by (auto simp: js_round_rat_def Let_def dbl_id)

lemma js_round_rat_nonNaN [simp]: "js_round_rat x \<noteq> NaN"
  by (simp add: js_round_rat_def Let_def)

lemma js_round_rat_mono: "x \<le> y \<Longrightarrow> jle (js_round_rat x) (js_round_rat y)"
proof -
  assume "x \<le> y"
  then have "dbl x \<le> dbl y" by (rule dbl_mono)
  moreover have "(0::rat) < 2 ^ 1024" by simp
  ultimately show ?thesis by (auto simp: js_round_rat_def Let_def)
qed

lemma wf_num_round [simp]: "wf_num (js_round_rat x)"
  by (rule js_round_rat_cases [of x]) auto

lemma wf_num_lit [simp]: "wf_num (lit x)"
  by (simp add: lit_def)

lemma wf_num_add [simp]: "wf_num x \<Longrightarrow> wf_num y \<Longrightarrow> wf_num (jadd x y)"
  by (cases x; cases y) auto

lemma wf_num_neg [simp]: "wf_num x \<Longrightarrow> wf_num (jneg x)"
  by (cases x) (auto simp: is_dbl_minus)

lemma wf_num_sub [simp]: "wf_num x \<Longrightarrow> wf_num y \<Longrightarrow> wf_num (jsub x y)"
  by (simp add: jsub_def)

lemma wf_num_min [simp]: "wf_num x \<Longrightarrow> wf_num y \<Longrightarrow> wf_num (jmin x y)"
  by (simp add: jmin_def)

lemma wf_num_max [simp]: "wf_num x \<Longrightarrow> wf_num y \<Longrightarrow> wf_num (jmax x y)"
  by (simp add: jmax_def)

lemma jadd_0 [num_simps]: "wf_num x \<Longrightarrow> jadd x (Fin 0) = x" "wf_num x \<Longrightarrow> jadd (Fin 0) x = x"
  by (cases x; simp add: js_round_rat_id)+

lemma jsub_self [num_simps]: "jsub (Fin a) (Fin a) = Fin 0"
  by (simp add: jsub_def js_round_rat_id)

lemma jsub_0 [num_simps]: "wf_num x \<Longrightarrow> jsub x (Fin 0) = x"
  by (simp add: jsub_def jadd_0)

lemma jsub_nonneg [num_simps]: "jle (Fin b) (Fin a) \<Longrightarrow> jle (Fin 0) (jsub (Fin a) (Fin b))"
  using js_round_rat_mono [of 0 "a - b"] by (simp add: jsub_def js_round_rat_id)

lemma jsub_le: "wf_num (Fin a) \<Longrightarrow> 0 \<le> b \<Longrightarrow> jle (jsub (Fin a) (Fin b)) (Fin a)"
  using js_round_rat_mono [of "a - b" a] by (simp add: jsub_def js_round_rat_id)

lemma jsub_range:
  assumes "wf_num (Fin a)" "0 \<le> b" "b \<le> a"
  shows "\<exists>s. jsub (Fin a) (Fin b) = Fin s \<and> 0 \<le> s \<and> s \<le> a \<and> wf_num (Fin s)"
proof -
  have "jle (Fin 0) (jsub (Fin a) (Fin b))" "jle (jsub (Fin a) (Fin b)) (Fin a)"
    using assms by (auto intro: jsub_nonneg jsub_le)
  moreover have "wf_num (jsub (Fin a) (Fin b))" by (simp add: jsub_def)
  ultimately show ?thesis by (cases "jsub (Fin a) (Fin b)") auto
qed

lemma jadd_nonneg: "0 \<le> a \<Longrightarrow> 0 \<le> b \<Longrightarrow> jle (Fin 0) (jadd (Fin a) (Fin b))"
  using js_round_rat_mono [of 0 "a + b"] by (simp add: js_round_rat_id)

lemma jmul_nonneg: "0 \<le> a \<Longrightarrow> 0 \<le> b \<Longrightarrow> jle (Fin 0) (jmul (Fin a) (Fin b))"
  using js_round_rat_mono [of 0 "a * b"] by (simp add: js_round_rat_id)

text \<open>Integers up to \<open>2^53\<close> are exact.\<close>

definition safe_int :: "rat \<Rightarrow> bool" where
  "safe_int a \<longleftrightarrow> a \<in> \<int> \<and> \<bar>a\<bar> \<le> 2 ^ 53"

lemma safe_int_wf: "safe_int a \<Longrightarrow> wf_num (Fin a)"
proof -
  assume "safe_int a"
  then obtain n where n: "a = of_int n" "\<bar>n\<bar> \<le> 2 ^ 53"
    by (auto simp: safe_int_def elim!: Ints_cases simp flip: of_int_abs)
  have "\<bar>a\<bar> \<le> 2 ^ 53" using \<open>safe_int a\<close> by (simp add: safe_int_def)
  moreover have "(2::rat) ^ 53 < 2 ^ 1024" by simp
  ultimately show ?thesis using n is_dbl_int by auto
qed

lemma js_round_rat_safe: "safe_int a \<Longrightarrow> js_round_rat a = Fin a"
  using safe_int_wf by (auto intro: js_round_rat_id)

lemma jadd_safe [num_simps]: "safe_int (a + b) \<Longrightarrow> jadd (Fin a) (Fin b) = Fin (a + b)"
  by (simp add: js_round_rat_safe)

lemma jsub_safe [num_simps]: "safe_int (a - b) \<Longrightarrow> jsub (Fin a) (Fin b) = Fin (a - b)"
  by (simp add: jsub_def js_round_rat_safe)

lemma jmul_safe [num_simps]: "safe_int (a * b) \<Longrightarrow> jmul (Fin a) (Fin b) = Fin (a * b)"
  by (simp add: js_round_rat_safe)

lemma safe_int_between: "a \<in> \<int> \<Longrightarrow> 0 \<le> a \<Longrightarrow> a \<le> b \<Longrightarrow> safe_int b \<Longrightarrow> safe_int a"
  by (auto simp: safe_int_def)

text \<open>Gradual underflow: the difference of two different doubles is not zero.\<close>

lemma is_dbl_multiple: "is_dbl x \<Longrightarrow> \<exists>n. x = of_int n * pow2 (-1074)"
proof -
  assume "is_dbl x"
  then obtain m e where x: "x = of_int m * pow2 e" and e: "-1074 \<le> e" unfolding is_dbl_def by blast
  have "pow2 e = of_int (2 ^ nat (e + 1074)) * pow2 (-1074)"
    using e pow2_add [of "e + 1074" "-1074"] by (simp add: pow2_nat)
  with x have "x = of_int (m * 2 ^ nat (e + 1074)) * pow2 (-1074)" by simp
  then show ?thesis by blast
qed

lemma jsub_pos [num_simps]:
  assumes "wf_num (Fin a)" "wf_num (Fin b)" "b < a"
  shows "jlt (Fin 0) (jsub (Fin a) (Fin b))"
proof -
  from assms obtain m n where m: "a = of_int m * pow2 (-1074)" and n: "b = of_int n * pow2 (-1074)"
    by (metis is_dbl_multiple wf_num.simps(1))
  have "n < m" using assms(3) unfolding m n by (simp add: mult_less_cancel_right_pos)
  then have "of_int 1 \<le> (of_int (m - n) :: rat)" by (simp only: of_int_le_iff)
  then have "1 * pow2 (-1074) \<le> of_int (m - n) * pow2 (-1074)" by (intro mult_right_mono) (auto intro: less_imp_le)
  then have "pow2 (-1074) \<le> a - b" by (simp add: m n left_diff_distrib)
  then have le: "jle (js_round_rat (pow2 (-1074))) (js_round_rat (a - b))" by (rule js_round_rat_mono)
  have d: "is_dbl (pow2 (-1074))" by (rule is_dbl_pow2) simp
  have "pow2 (-1074) \<le> pow2 0" by (rule pow2_mono) simp
  then have s: "\<bar>pow2 (-1074)\<bar> < 2 ^ 1024" by (simp add: order.strict_trans1 [of _ 1])
  from le show ?thesis unfolding js_round_rat_id [OF d s]
    by (cases "js_round_rat (a - b)") (auto simp: jsub_def intro: less_le_trans [OF pow2_pos])
qed

declare wf_num.simps(1) [simp del]

end
