(* ===== verification/JsString.thy ===== *)
theory JsString imports JsNumber "HOL-Library.Sublist"
begin

section \<open>JavaScript strings\<close>

text \<open>
  Strings are lists of characters and are compared by code unit, which the lexicographic
  order of the library gives. The model covers the ASCII range: that is what the codes,
  keys, roles and ISO dates of the program are made of, and where \<open>toUpperCase\<close> and
  \<open>toLowerCase\<close> act letter by letter.
\<close>

definition is_space :: "char \<Rightarrow> bool" where
  "is_space c \<longleftrightarrow> c \<in> {CHR 0x09, CHR 0x0A, CHR 0x0B, CHR 0x0C, CHR 0x0D, CHR 0x20}"

definition js_trim :: "string \<Rightarrow> string" where
  "js_trim s = rev (dropWhile is_space (rev (dropWhile is_space s)))"

definition upper_char :: "char \<Rightarrow> char" where
  "upper_char c = (if CHR ''a'' \<le> c \<and> c \<le> CHR ''z'' then char_of (of_char c - (32::nat)) else c)"

definition lower_char :: "char \<Rightarrow> char" where
  "lower_char c = (if CHR ''A'' \<le> c \<and> c \<le> CHR ''Z'' then char_of (of_char c + (32::nat)) else c)"

definition js_upper :: "string \<Rightarrow> string" where
  "js_upper s = map upper_char s"

definition js_lower :: "string \<Rightarrow> string" where
  "js_lower s = map lower_char s"

text \<open>\<open>s.split(c)\<close> for a one-character separator, and \<open>h.includes(n)\<close>.\<close>

fun js_split :: "char \<Rightarrow> string \<Rightarrow> string list" where
  "js_split c [] = [[]]"
| "js_split c (x # xs) =
     (if x = c then [] # js_split c xs
      else case js_split c xs of [] \<Rightarrow> [[x]] | w # ws \<Rightarrow> (x # w) # ws)"

fun js_includes :: "string \<Rightarrow> string \<Rightarrow> bool" where
  "js_includes [] n \<longleftrightarrow> n = []"
| "js_includes (x # xs) n \<longleftrightarrow> prefix n (x # xs) \<or> js_includes xs n"

definition js_starts_with :: "string \<Rightarrow> string \<Rightarrow> bool" where
  "js_starts_with s p \<longleftrightarrow> prefix p s"

definition js_ends_with :: "string \<Rightarrow> string \<Rightarrow> bool" where
  "js_ends_with s p \<longleftrightarrow> suffix p s"

text \<open>A nullable string is falsy when it is missing or empty; \<open>s || d\<close> on such a value.\<close>

definition truthy_str :: "string option \<Rightarrow> bool" where
  "truthy_str s \<longleftrightarrow> s \<noteq> None \<and> s \<noteq> Some []"

definition str_or :: "string option \<Rightarrow> string \<Rightarrow> string" where
  "str_or s d = (case s of None \<Rightarrow> d | Some t \<Rightarrow> if t = [] then d else t)"

lemma truthy_str_simps [simp]:
  "\<not> truthy_str None" "truthy_str (Some s) \<longleftrightarrow> s \<noteq> []"
  by (simp_all add: truthy_str_def)

lemma str_or_simps [simp]: "str_or None d = d" "str_or (Some s) d = (if s = [] then d else s)"
  by (simp_all add: str_or_def)

subsection \<open>Digits and the conversion \<open>Number(s)\<close>\<close>

definition is_digit :: "char \<Rightarrow> bool" where
  "is_digit c \<longleftrightarrow> CHR ''0'' \<le> c \<and> c \<le> CHR ''9''"

definition digit_val :: "char \<Rightarrow> int" where
  "digit_val c = int (of_char c) - 48"

definition digit_char :: "int \<Rightarrow> char" where
  "digit_char d = char_of (nat (d + 48))"

definition digits_val :: "string \<Rightarrow> int" where
  "digits_val s = foldl (\<lambda>n c. 10 * n + digit_val c) 0 s"

text \<open>Value of a letter or digit in bases up to 16; \<open>None\<close> for any other character.\<close>

definition hex_val :: "char \<Rightarrow> int option" where
  "hex_val c = (if is_digit c then Some (digit_val c)
     else if CHR ''a'' \<le> c \<and> c \<le> CHR ''f'' then Some (int (of_char c) - 87)
     else if CHR ''A'' \<le> c \<and> c \<le> CHR ''F'' then Some (int (of_char c) - 55) else None)"

fun base_val :: "int \<Rightarrow> int \<Rightarrow> string \<Rightarrow> int option" where
  "base_val b n [] = Some n"
| "base_val b n (c # cs) =
     (case hex_val c of None \<Rightarrow> None | Some d \<Rightarrow> if d < b then base_val b (b * n + d) cs else None)"

definition scale10 :: "int \<Rightarrow> int \<Rightarrow> rat" where
  "scale10 n e = (if e \<ge> 0 then of_int n * 10 ^ nat e else of_int n / 10 ^ nat (- e))"

text \<open>Exponent part of a decimal literal: \<open>None\<close> when malformed.\<close>

fun exponent_of :: "string \<Rightarrow> int option" where
  "exponent_of [] = Some 0"
| "exponent_of (c # cs) =
     (if c = CHR ''e'' \<or> c = CHR ''E'' then
        (let neg = (cs \<noteq> [] \<and> hd cs = CHR ''-'');
             ds = (if cs \<noteq> [] \<and> (hd cs = CHR ''-'' \<or> hd cs = CHR ''+'') then tl cs else cs)
         in if ds \<noteq> [] \<and> list_all is_digit ds
            then Some (if neg then - digits_val ds else digits_val ds) else None)
      else None)"

definition unsigned_decimal :: "string \<Rightarrow> rat option" where
  "unsigned_decimal s =
     (let i = takeWhile is_digit s; r = dropWhile is_digit s;
          dot = (r \<noteq> [] \<and> hd r = CHR ''.'');
          f = (if dot then takeWhile is_digit (tl r) else []);
          r2 = (if dot then dropWhile is_digit (tl r) else r)
      in if i = [] \<and> f = [] then None
         else map_option (\<lambda>e. scale10 (digits_val (i @ f)) (e - int (length f))) (exponent_of r2))"

text \<open>\<open>Number(s)\<close> on a string: blanks are trimmed, the empty string is zero, prefixed
  literals have no sign, anything else that is not a decimal literal is NaN.\<close>

definition js_number :: "string \<Rightarrow> jnum" where
  "js_number s0 =
     (let s = js_trim s0;
          neg = (s \<noteq> [] \<and> hd s = CHR ''-'');
          u = (if s \<noteq> [] \<and> (hd s = CHR ''-'' \<or> hd s = CHR ''+'') then tl s else s)
      in if s = [] then Fin 0
         else if u = ''Infinity'' then (if neg then NInf else PInf)
         else if length s > 2 \<and> hd s = CHR ''0'' \<and> lower_char (s ! 1) \<in> {CHR ''x'', CHR ''o'', CHR ''b''} then
           (case base_val (if lower_char (s ! 1) = CHR ''x'' then 16
                           else if lower_char (s ! 1) = CHR ''o'' then 8 else 2) 0 (drop 2 s) of
              None \<Rightarrow> NaN | Some n \<Rightarrow> js_round_rat (of_int n))
         else (case unsigned_decimal u of
                 None \<Rightarrow> NaN | Some q \<Rightarrow> js_round_rat (if neg then - q else q)))"

text \<open>A number printed with a fixed count of digits, as \<open>padStart\<close> does for one in range.\<close>

fun pad_digits :: "nat \<Rightarrow> int \<Rightarrow> string" where
  "pad_digits 0 n = []"
| "pad_digits (Suc k) n = pad_digits k (n div 10) @ [digit_char (n mod 10)]"

text \<open>\<open>String(n)\<close> on an integer number below \<open>10^21\<close>, and \<open>padStart(2, '0')\<close> of it.\<close>

fun show_nat :: "nat \<Rightarrow> string" where
  "show_nat n = (if n < 10 then [digit_char (int n)] else show_nat (n div 10) @ [digit_char (int (n mod 10))])"

declare show_nat.simps [simp del]

definition show_int :: "int \<Rightarrow> string" where
  "show_int n = (if n < 0 then CHR ''-'' # show_nat (nat (- n)) else show_nat (nat n))"

definition pad_start_2 :: "string \<Rightarrow> string" where
  "pad_start_2 s = replicate (2 - length s) (CHR ''0'') @ s"

subsection \<open>Facts\<close>

lemma upper_char_idem [simp]: "upper_char (upper_char c) = upper_char c"
proof (cases "CHR ''a'' \<le> c \<and> c \<le> CHR ''z''")
  case True
  then have "97 \<le> (of_char c :: nat)" "(of_char c :: nat) \<le> 122" by (simp_all add: less_eq_char_def)
  then have "\<not> (97 \<le> (of_char c - 32 :: nat))" by linarith
  then show ?thesis using \<open>97 \<le> of_char c\<close> by (simp add: upper_char_def less_eq_char_def)
next
  case False
  then have "upper_char c = c" by (auto simp: upper_char_def)
  then show ?thesis by (simp only:)
qed

lemma js_upper_idem [simp]: "js_upper (js_upper s) = js_upper s"
  by (simp add: js_upper_def)

lemma js_upper_Nil_iff [simp]: "js_upper s = [] \<longleftrightarrow> s = []"
  by (simp add: js_upper_def)

lemma dropWhile_snoc_not: "\<not> P a \<Longrightarrow> dropWhile P (xs @ [a]) = dropWhile P xs @ [a]"
  by (induction xs) auto

lemma dropWhile_rev_dropWhile:
  "dropWhile P (rev (dropWhile P (rev (dropWhile P s)))) = rev (dropWhile P (rev (dropWhile P s)))"
proof (cases "dropWhile P s")
  case Nil
  show ?thesis unfolding Nil by simp
next
  case (Cons a l)
  then have "\<not> P a" by (metis dropWhile_eq_Cons_conv)
  with Cons show ?thesis by (simp add: dropWhile_snoc_not)
qed

lemma js_trim_idem [simp]: "js_trim (js_trim s) = js_trim s"
  by (simp add: js_trim_def dropWhile_rev_dropWhile dropWhile_idem)

lemma dropWhile_none: "(\<And>c. c \<in> set s \<Longrightarrow> \<not> P c) \<Longrightarrow> dropWhile P s = s"
  by (cases s) auto

lemma js_trim_no_space: "(\<And>c. c \<in> set s \<Longrightarrow> \<not> is_space c) \<Longrightarrow> js_trim s = s"
proof -
  assume a: "\<And>c. c \<in> set s \<Longrightarrow> \<not> is_space c"
  then have "dropWhile is_space s = s" by (rule dropWhile_none)
  moreover have "dropWhile is_space (rev s) = rev s" using a by (intro dropWhile_none) auto
  ultimately show ?thesis by (simp add: js_trim_def)
qed

lemma js_split_no_sep: "c \<notin> set s \<Longrightarrow> js_split c s = [s]"
  by (induction s) auto

lemma js_split_append: "c \<notin> set s \<Longrightarrow> js_split c (s @ c # t) = s # js_split c t"
  by (induction s) auto

lemma digit_char_code [simp]: "0 \<le> d \<Longrightarrow> d < 10 \<Longrightarrow> of_char (digit_char d) = (nat (d + 48) :: nat)"
  by (simp add: digit_char_def mod_less)

lemma digit_val_char [simp]: "0 \<le> d \<Longrightarrow> d < 10 \<Longrightarrow> digit_val (digit_char d) = d"
  by (simp add: digit_val_def)

lemma is_digit_char [simp]: "0 \<le> d \<Longrightarrow> d < 10 \<Longrightarrow> is_digit (digit_char d)"
  by (simp add: is_digit_def less_eq_char_def) linarith

lemma is_digit_not_space: "is_digit c \<Longrightarrow> \<not> is_space c"
  by (auto simp: is_digit_def is_space_def)

lemma digit_char_less: "0 \<le> a \<Longrightarrow> a < 10 \<Longrightarrow> 0 \<le> b \<Longrightarrow> b < 10 \<Longrightarrow> digit_char a < digit_char b \<longleftrightarrow> a < b"
  by (simp add: less_char_def)

lemma digit_char_eq: "0 \<le> a \<Longrightarrow> a < 10 \<Longrightarrow> 0 \<le> b \<Longrightarrow> b < 10 \<Longrightarrow> digit_char a = digit_char b \<longleftrightarrow> a = b"
  by (metis digit_val_char)

lemma length_pad_digits [simp]: "length (pad_digits k n) = k"
  by (induction k arbitrary: n) auto

lemma pad_digits_digits: "c \<in> set (pad_digits k n) \<Longrightarrow> is_digit c"
  by (induction k arbitrary: n) auto

lemma digits_val_snoc: "digits_val (s @ [c]) = 10 * digits_val s + digit_val c"
  by (simp add: digits_val_def)

lemma digits_val_pad: "0 \<le> n \<Longrightarrow> n < 10 ^ k \<Longrightarrow> digits_val (pad_digits k n) = n"
proof (induction k arbitrary: n)
  case 0
  then show ?case by (simp add: digits_val_def)
next
  case (Suc k)
  then have "n div 10 < 10 ^ k" by (simp add: div_less_iff_less_mult mult.commute)
  with Suc show ?case by (simp add: digits_val_snoc)
qed

lemma append_less_iff:
  "length xs = length ys \<Longrightarrow> (xs @ us < ys @ vs) \<longleftrightarrow> xs < ys \<or> xs = ys \<and> us < (vs :: 'a::linorder list)"
  by (induction xs ys rule: list_induct2) auto

lemma digit_lex_less:
  "0 \<le> r \<Longrightarrow> r < 10 \<Longrightarrow> 0 \<le> s \<Longrightarrow> s < (10::int) \<Longrightarrow>
    (q < p \<or> q = p \<and> r < s) \<longleftrightarrow> 10 * q + r < 10 * p + s"
  by arith

lemma pad_digits_less:
  "0 \<le> a \<Longrightarrow> a < 10 ^ k \<Longrightarrow> 0 \<le> b \<Longrightarrow> b < 10 ^ k \<Longrightarrow> pad_digits k a < pad_digits k b \<longleftrightarrow> a < b"
proof (induction k arbitrary: a b)
  case 0
  then show ?case by simp
next
  case (Suc k)
  have k: "a div 10 < 10 ^ k" "b div 10 < 10 ^ k"
    using Suc.prems by (simp_all add: div_less_iff_less_mult mult.commute)
  have eq: "pad_digits k (a div 10) = pad_digits k (b div 10) \<longleftrightarrow> a div 10 = b div 10"
    using digits_val_pad k Suc.prems by (metis pos_imp_zdiv_nonneg_iff zero_less_numeral)
  have "pad_digits (Suc k) a < pad_digits (Suc k) b \<longleftrightarrow>
      a div 10 < b div 10 \<or> a div 10 = b div 10 \<and> a mod 10 < b mod 10"
    using Suc.prems k by (simp add: append_less_iff Suc.IH eq digit_char_less)
  also have "\<dots> \<longleftrightarrow> a < b"
    using digit_lex_less [of "a mod 10" "b mod 10" "a div 10" "b div 10"] by (simp add: mult_div_mod_eq)
  finally show ?case .
qed

lemma pad_digits_inj:
  "0 \<le> a \<Longrightarrow> a < 10 ^ k \<Longrightarrow> 0 \<le> b \<Longrightarrow> b < 10 ^ k \<Longrightarrow> pad_digits k a = pad_digits k b \<longleftrightarrow> a = b"
  by (metis digits_val_pad)

lemma js_number_digits:
  assumes "s \<noteq> []" "\<And>c. c \<in> set s \<Longrightarrow> is_digit c"
  shows "js_number s = js_round_rat (of_int (digits_val s))"
proof -
  have t: "js_trim s = s" using assms(2) is_digit_not_space by (intro js_trim_no_space) blast
  have h: "is_digit (hd s)" using assms by auto
  then have nh: "hd s \<noteq> CHR ''-''" "hd s \<noteq> CHR ''+''" by (auto simp: is_digit_def)
  have nI: "s \<noteq> ''Infinity''" using h by (auto simp: is_digit_def)
  have all: "takeWhile is_digit s = s" "dropWhile is_digit s = []"
    using assms(2) by (auto simp: takeWhile_eq_all_conv dropWhile_eq_Nil_conv)
  have x: "\<not> (length s > 2 \<and> hd s = CHR ''0'' \<and> lower_char (s ! 1) \<in> {CHR ''x'', CHR ''o'', CHR ''b''})"
  proof
    assume a: "length s > 2 \<and> hd s = CHR ''0'' \<and> lower_char (s ! 1) \<in> {CHR ''x'', CHR ''o'', CHR ''b''}"
    then have "is_digit (s ! 1)" using assms(2) by simp
    then have "lower_char (s ! 1) = s ! 1" "s ! 1 \<notin> {CHR ''x'', CHR ''o'', CHR ''b''}"
      by (auto simp: is_digit_def lower_char_def less_eq_char_def)
    with a show False by simp
  qed
  have u: "unsigned_decimal s = Some (of_int (digits_val s))"
    using assms(1) by (simp add: unsigned_decimal_def all Let_def scale10_def)
  show ?thesis
    unfolding js_number_def t Let_def if_not_P [OF x]
    using assms(1) nh nI by (simp add: u)
qed

lemma js_number_pad:
  assumes "0 < k" "0 \<le> n" "n < 10 ^ k" "n \<le> 2 ^ 53"
  shows "js_number (pad_digits k n) = Fin (of_int n)"
proof -
  have "pad_digits k n \<noteq> []" using assms(1) by (metis length_pad_digits list.size(3) not_less_zero)
  then have "js_number (pad_digits k n) = js_round_rat (of_int n)"
    using js_number_digits [OF _ pad_digits_digits] assms by (simp add: digits_val_pad)
  also have "\<dots> = Fin (of_int n)"
    by (rule js_round_rat_safe) (use assms in \<open>simp add: safe_int_def flip: of_int_abs of_int_le_iff\<close>)
  finally show ?thesis .
qed

end
