(* ===== verification/JsDate.thy ===== *)
theory JsDate imports JsString
begin

section \<open>JavaScript dates: the UTC calendar\<close>

text \<open>
  \<open>Date.UTC\<close>, \<open>setUTCDate\<close> and \<open>toISOString\<close> of the language over the proleptic
  Gregorian calendar. A time value is a count of milliseconds, \<open>None\<close> when it is the
  invalid date. Calendar strings have the form \<open>YYYY-MM-DD\<close>.
\<close>

subsection \<open>Days of the calendar\<close>

definition day_from_year :: "int \<Rightarrow> int" where
  "day_from_year y = 365 * (y - 1970) + (y - 1969) div 4 - (y - 1901) div 100 + (y - 1601) div 400"

definition is_leap :: "int \<Rightarrow> bool" where
  "is_leap y \<longleftrightarrow> y mod 4 = 0 \<and> (y mod 100 \<noteq> 0 \<or> y mod 400 = 0)"

text \<open>Days of the year before month \<open>m\<close>, counted from 0.\<close>

definition days_before_month :: "bool \<Rightarrow> int \<Rightarrow> int" where
  "days_before_month leap m =
     (if m \<le> 0 then 0 else if m = 1 then 31 else
      (if leap then 1 else 0) +
      (if m = 2 then 59 else if m = 3 then 90 else if m = 4 then 120 else if m = 5 then 151
       else if m = 6 then 181 else if m = 7 then 212 else if m = 8 then 243
       else if m = 9 then 273 else if m = 10 then 304 else if m = 11 then 334 else 365))"

definition month_length :: "bool \<Rightarrow> int \<Rightarrow> int" where
  "month_length leap m = days_before_month leap (m + 1) - days_before_month leap m"

text \<open>\<open>MakeDay\<close>: months out of range carry into the year, days out of range into the month.\<close>

definition make_day :: "int \<Rightarrow> int \<Rightarrow> int \<Rightarrow> int" where
  "make_day y m d =
     (let y' = y + m div 12; m' = m mod 12
      in day_from_year y' + days_before_month (is_leap y') m' + d - 1)"

definition ms_per_day :: int where
  "ms_per_day = 86400000"

definition time_clip :: "int \<Rightarrow> int option" where
  "time_clip t = (if \<bar>t\<bar> \<le> 8640000000000000 then Some t else None)"

text \<open>A number argument of a date function is truncated; NaN and the infinities make the
  date invalid.\<close>

fun js_to_int :: "jnum \<Rightarrow> int option" where
  "js_to_int (Fin a) = Some (if a \<ge> 0 then \<lfloor>a\<rfloor> else \<lceil>a\<rceil>)"
| "js_to_int _ = None"

text \<open>\<open>Date.UTC(y, m, d)\<close>: years 0 to 99 mean 1900 to 1999.\<close>

definition date_utc :: "jnum \<Rightarrow> jnum \<Rightarrow> jnum \<Rightarrow> int option" where
  "date_utc jy jm jd =
     (case (js_to_int jy, js_to_int jm, js_to_int jd) of
        (Some y, Some m, Some d) \<Rightarrow>
          time_clip (make_day (if 0 \<le> y \<and> y \<le> 99 then 1900 + y else y) m d * ms_per_day)
      | _ \<Rightarrow> None)"

subsection \<open>Fields of a time value\<close>

definition year_of_day :: "int \<Rightarrow> int" where
  "year_of_day d =
     (let y = 1970 + (400 * d) div 146097
      in if day_from_year (y + 1) \<le> d then y + 1 else if d < day_from_year y then y - 1 else y)"

definition month_of_yday :: "bool \<Rightarrow> int \<Rightarrow> int" where
  "month_of_yday leap yd = int (length (filter (\<lambda>m. days_before_month leap m \<le> yd) [1, 2, 3, 4, 5, 6, 7, 8, 9, 10, 11]))"

definition civil_of_day :: "int \<Rightarrow> int \<times> int \<times> int" where
  "civil_of_day d =
     (let y = year_of_day d; yd = d - day_from_year y; m = month_of_yday (is_leap y) yd
      in (y, m, yd - days_before_month (is_leap y) m + 1))"

text \<open>The date part of \<open>toISOString\<close>: four digits for years 0 to 9999, else a sign and six.\<close>

definition iso_year :: "int \<Rightarrow> string" where
  "iso_year y = (if 0 \<le> y \<and> y \<le> 9999 then pad_digits 4 y
     else if y < 0 then CHR ''-'' # pad_digits 6 (- y) else CHR ''+'' # pad_digits 6 y)"

definition iso_date_part :: "int \<Rightarrow> string" where
  "iso_date_part t =
     (case civil_of_day (t div ms_per_day) of
        (y, m, d) \<Rightarrow> iso_year y @ ''-'' @ pad_digits 2 (m + 1) @ ''-'' @ pad_digits 2 d)"

text \<open>\<open>setUTCDate(getUTCDate() + n)\<close> on a valid time value keeps the time within the day.\<close>

definition add_utc_date :: "int \<Rightarrow> jnum \<Rightarrow> int option" where
  "add_utc_date t n =
     (case civil_of_day (t div ms_per_day) of
        (y, m, d) \<Rightarrow>
          (case js_to_int (jadd (Fin (of_int d)) n) of
             None \<Rightarrow> None
           | Some d' \<Rightarrow> time_clip (make_day y m d' * ms_per_day + t mod ms_per_day)))"

subsection \<open>Calendar strings\<close>

text \<open>\<open>const [y, m, d] = s.split('-').map(Number)\<close>: a missing part is \<open>undefined\<close>, which
  every use turns into NaN. Both callers pass \<open>m - 1\<close> to \<open>Date.UTC\<close>.\<close>

definition nth_or_nan :: "jnum list \<Rightarrow> nat \<Rightarrow> jnum" where
  "nth_or_nan xs i = (if i < length xs then xs ! i else NaN)"

definition utc_of_string :: "string \<Rightarrow> int option" where
  "utc_of_string s =
     (let p = map js_number (js_split CHR ''-'' s)
      in date_utc (nth_or_nan p 0) (jsub (nth_or_nan p 1) (Fin 1)) (nth_or_nan p 2))"

text \<open>\<open>(a - b) / 86_400_000\<close> on two time values.\<close>

definition day_quotient :: "int option \<Rightarrow> int option \<Rightarrow> jnum" where
  "day_quotient a b =
     (case (a, b) of
        (Some x, Some y) \<Rightarrow> jdiv (jsub (Fin (of_int x)) (Fin (of_int y))) (Fin 86400000)
      | _ \<Rightarrow> NaN)"

subsection \<open>ISO dates\<close>

definition iso_date :: "int \<Rightarrow> int \<Rightarrow> int \<Rightarrow> string" where
  "iso_date y m d = pad_digits 4 y @ ''-'' @ pad_digits 2 m @ ''-'' @ pad_digits 2 d"

text \<open>A real calendar date of the years 100 to 9999 (earlier years fall into the two-digit
  rule of \<open>Date.UTC\<close>).\<close>

definition valid_ymd :: "int \<Rightarrow> int \<Rightarrow> int \<Rightarrow> bool" where
  "valid_ymd y m d \<longleftrightarrow> 100 \<le> y \<and> y \<le> 9999 \<and> 1 \<le> m \<and> m \<le> 12 \<and> 1 \<le> d \<and> d \<le> month_length (is_leap y) (m - 1)"

definition is_iso :: "string \<Rightarrow> bool" where
  "is_iso s \<longleftrightarrow> (\<exists>y m d. valid_ymd y m d \<and> s = iso_date y m d)"

definition ymd_day :: "int \<Rightarrow> int \<Rightarrow> int \<Rightarrow> int" where
  "ymd_day y m d = make_day y (m - 1) d"

text \<open>Day number of a calendar string.\<close>

definition day_of_string :: "string \<Rightarrow> int" where
  "day_of_string s = (case utc_of_string s of None \<Rightarrow> 0 | Some t \<Rightarrow> t div ms_per_day)"

subsection \<open>The calendar is right\<close>

lemma div_lower_upper: "0 < n \<Longrightarrow> n * (x div n) \<le> x \<and> x < n * (x div n) + (n::int)"
  by (metis mult_div_mod_eq add.commute le_add_same_cancel1 add_strict_left_mono pos_mod_sign pos_mod_bound)

lemma div_plus1: "0 < n \<Longrightarrow> (x + 1) div n = x div n + (if (x + 1) mod n = 0 then 1 else (0::int))"
proof -
  assume n: "0 < n"
  have x: "x = n * (x div n) + x mod n" by simp
  have r: "0 \<le> x mod n" "x mod n < n" using n by auto
  show ?thesis
  proof (cases "x mod n = n - 1")
    case True
    with x have "x + 1 = n * (x div n) + n" by linarith
    then have "x + 1 = n * (x div n + 1) + 0" by (simp add: distrib_left)
    then show ?thesis using n by (metis add.right_neutral mod_mult_self1_is_0 nonzero_mult_div_cancel_left less_irrefl)
  next
    case False
    with r have 1: "x mod n + 1 < n" by linarith
    have 2: "x + 1 = n * (x div n) + (x mod n + 1)" using x by linarith
    from 1 r have "(x + 1) div n = x div n" "(x + 1) mod n = x mod n + 1"
      using int_div_pos_eq [OF 2] int_mod_pos_eq [OF 2] by auto
    with r show ?thesis by simp
  qed
qed

lemma month_cases:
  fixes m :: int
  assumes "0 \<le> m" "m \<le> 11"
  shows "m = 0 \<or> m = 1 \<or> m = 2 \<or> m = 3 \<or> m = 4 \<or> m = 5 \<or> m = 6 \<or> m = 7 \<or> m = 8 \<or> m = 9 \<or> m = 10 \<or> m = 11"
  using assms by presburger

lemma month_length_bounds: "0 \<le> m \<Longrightarrow> m \<le> 11 \<Longrightarrow> 28 \<le> month_length b m \<and> month_length b m \<le> 31"
  by (drule (1) month_cases) (elim disjE; simp add: month_length_def days_before_month_def)

lemma days_before_month_Suc: "0 \<le> m \<Longrightarrow> m \<le> 11 \<Longrightarrow> days_before_month b m \<le> days_before_month b (m + 1)"
  using month_length_bounds [of m b] by (simp add: month_length_def)

lemma days_before_month_mono:
  assumes "0 \<le> m" "m \<le> m'" "m' \<le> 12" shows "days_before_month b m \<le> days_before_month b m'"
  using assms(2,3)
proof (induction m' rule: int_ge_induct)
  case base
  then show ?case by simp
next
  case (step i)
  then show ?case using days_before_month_Suc [of i b] assms(1) by simp
qed

lemma days_before_month_ge: "0 \<le> days_before_month b m"
  by (simp add: days_before_month_def)

lemma day_from_year_Suc: "day_from_year (y + 1) = day_from_year y + (if is_leap y then 366 else 365)"
proof -
  have 4: "(y - 1968) div 4 = (y - 1969) div 4 + (if y mod 4 = 0 then 1 else 0)"
    using div_plus1 [of 4 "y - 1969"] mod_mult_self1 [of y "-492" 4] by simp
  have 100: "(y - 1900) div 100 = (y - 1901) div 100 + (if y mod 100 = 0 then 1 else 0)"
    using div_plus1 [of 100 "y - 1901"] mod_mult_self1 [of y "-19" 100] by simp
  have 400: "(y - 1600) div 400 = (y - 1601) div 400 + (if y mod 400 = 0 then 1 else 0)"
    using div_plus1 [of 400 "y - 1601"] mod_mult_self1 [of y "-4" 400] by simp
  have imp: "y mod 400 = 0 \<Longrightarrow> y mod 100 = 0" "y mod 100 = 0 \<Longrightarrow> y mod 4 = 0"
    using mod_mod_cancel [of 100 400 y] mod_mod_cancel [of 4 100 y] by simp_all
  have "day_from_year (y + 1) =
      365 * (y - 1970) + 365 + (y - 1968) div 4 - (y - 1900) div 100 + (y - 1600) div 400"
    by (simp add: day_from_year_def)
  also have "\<dots> = day_from_year y + 365 + (if y mod 4 = 0 then 1 else 0)
      - (if y mod 100 = 0 then 1 else 0) + (if y mod 400 = 0 then 1 else 0)"
    unfolding 4 100 400 day_from_year_def by simp
  also have "\<dots> = day_from_year y + (if is_leap y then 366 else 365)"
    using imp by (cases "y mod 4 = 0"; cases "y mod 100 = 0"; cases "y mod 400 = 0") (simp_all add: is_leap_def)
  finally show ?thesis .
qed

lemma day_from_year_mono: "y \<le> z \<Longrightarrow> day_from_year y \<le> day_from_year z"
proof (induction z rule: int_ge_induct)
  case base
  then show ?case by simp
next
  case (step i)
  then show ?case by (simp add: day_from_year_Suc)
qed

lemma day_from_year_strict: "y < z \<Longrightarrow> day_from_year y + 365 \<le> day_from_year z"
  using day_from_year_Suc [of y] day_from_year_mono [of "y + 1" z] by (auto split: if_splits)

lemma day_from_year_approx:
  "400 * day_from_year y \<le> 146097 * (y - 1970) + 600" "146097 * (y - 1970) - 600 \<le> 400 * day_from_year y"
proof -
  have "4 * ((y - 1969) div 4) \<le> y - 1969" "y - 1969 < 4 * ((y - 1969) div 4) + 4"
    "100 * ((y - 1901) div 100) \<le> y - 1901" "y - 1901 < 100 * ((y - 1901) div 100) + 100"
    "400 * ((y - 1601) div 400) \<le> y - 1601" "y - 1601 < 400 * ((y - 1601) div 400) + 400"
    by (simp_all only: div_lower_upper zero_less_numeral)
  then show "400 * day_from_year y \<le> 146097 * (y - 1970) + 600" "146097 * (y - 1970) - 600 \<le> 400 * day_from_year y"
    unfolding day_from_year_def by (simp_all add: algebra_simps)
qed

lemma year_of_day_bounds: "day_from_year (year_of_day d) \<le> d \<and> d < day_from_year (year_of_day d + 1)"
proof -
  define k where "k = (400 * d) div 146097"
  have k: "146097 * k \<le> 400 * d" "400 * d < 146097 * (k + 1)"
    unfolding k_def using div_lower_upper [of 146097 "400 * d"] by (simp_all add: algebra_simps)
  have "day_from_year (1970 + k - 1) \<le> d" using day_from_year_approx [of "1970 + k - 1"] k by (simp add: algebra_simps)
  moreover have "d < day_from_year (1970 + k + 2)" using day_from_year_approx [of "1970 + k + 2"] k by (simp add: algebra_simps)
  ultimately show ?thesis
    by (auto simp: year_of_day_def Let_def k_def [symmetric] add.assoc)
qed

lemma year_of_day_unique:
  assumes "day_from_year y \<le> d" "d < day_from_year (y + 1)" shows "year_of_day d = y"
proof (rule ccontr)
  assume "year_of_day d \<noteq> y"
  then consider "year_of_day d + 1 \<le> y" | "y + 1 \<le> year_of_day d" by linarith
  then show False
    using assms year_of_day_bounds [of d] day_from_year_mono [of "year_of_day d + 1" y]
      day_from_year_mono [of "y + 1" "year_of_day d"] by cases linarith+
qed

lemma month_of_yday_eq:
  assumes "0 \<le> m" "m \<le> 11" "0 \<le> k" "k < month_length b m"
  shows "month_of_yday b (days_before_month b m + k) = m"
  using month_cases [OF assms(1,2)] assms(3,4)
  by (elim disjE; cases b; simp add: month_of_yday_def month_length_def days_before_month_def)

lemma yday_in_year:
  assumes "0 \<le> m" "m \<le> 11" "1 \<le> d" "d \<le> month_length b m"
  shows "0 \<le> days_before_month b m + d - 1 \<and> days_before_month b m + d - 1 < (if b then 366 else 365)"
proof -
  have "days_before_month b m + d \<le> days_before_month b (m + 1)" using assms by (simp add: month_length_def)
  also have "\<dots> \<le> days_before_month b 12" using assms by (intro days_before_month_mono) auto
  also have "\<dots> = (if b then 366 else 365)" by (simp add: days_before_month_def)
  finally show ?thesis using days_before_month_ge [of b m] assms by linarith
qed

text \<open>Reading the fields of a day inverts building it.\<close>

lemma make_day_in_range:
  "0 \<le> m \<Longrightarrow> m \<le> 11 \<Longrightarrow> make_day y m d = day_from_year y + days_before_month (is_leap y) m + d - 1"
  by (simp add: make_day_def Let_def div_pos_pos_trivial mod_pos_pos_trivial)

lemma civil_of_make_day:
  assumes "0 \<le> m" "m \<le> 11" "1 \<le> d" "d \<le> month_length (is_leap y) m"
  shows "civil_of_day (make_day y m d) = (y, m, d)"
proof -
  have mk: "make_day y m d = day_from_year y + days_before_month (is_leap y) m + d - 1"
    using assms by (intro make_day_in_range)
  have "year_of_day (make_day y m d) = y"
    using yday_in_year [OF assms] by (intro year_of_day_unique) (auto simp: mk day_from_year_Suc)
  moreover have "month_of_yday (is_leap y) (days_before_month (is_leap y) m + (d - 1)) = m"
    using assms by (intro month_of_yday_eq) auto
  ultimately show ?thesis by (simp add: civil_of_day_def Let_def mk add_diff_eq)
qed

lemma between_steps:
  fixes f :: "int \<Rightarrow> int"
  assumes "f 0 \<le> x" "x < f (int n)"
  shows "\<exists>m. 0 \<le> m \<and> m < int n \<and> f m \<le> x \<and> x < f (m + 1)"
  using assms
proof (induction n)
  case 0
  then show ?case by simp
next
  case (Suc n)
  show ?case
  proof (cases "x < f (int n)")
    case True
    with Suc.IH [OF Suc.prems(1) True] show ?thesis by force
  next
    case False
    with Suc.prems show ?thesis by (intro exI [of _ "int n"]) (simp add: add.commute)
  qed
qed

text \<open>Every day number has calendar fields that build it again.\<close>

lemma civil_of_day_valid:
  obtains y m d where "civil_of_day x = (y, m, d)" "0 \<le> m" "m \<le> 11" "1 \<le> d"
    "d \<le> month_length (is_leap y) m" "make_day y m d = x"
proof -
  define y where "y = year_of_day x"
  define yd where "yd = x - day_from_year y"
  have yd: "0 \<le> yd" "yd < (if is_leap y then 366 else 365)"
    using year_of_day_bounds [of x] by (auto simp: yd_def y_def day_from_year_Suc)
  have "days_before_month (is_leap y) 0 \<le> yd" "yd < days_before_month (is_leap y) (int 12)"
    using yd by (auto simp: days_before_month_def)
  from between_steps [OF this] obtain m where "0 \<le> m" "m < int 12"
      "days_before_month (is_leap y) m \<le> yd" "yd < days_before_month (is_leap y) (m + 1)" by blast
  then have m: "0 \<le> m" "m \<le> 11" "days_before_month (is_leap y) m \<le> yd"
      "yd < days_before_month (is_leap y) (m + 1)" by auto
  define d where "d = yd - days_before_month (is_leap y) m + 1"
  have d: "1 \<le> d" "d \<le> month_length (is_leap y) m" using m by (auto simp: d_def month_length_def)
  have mk: "make_day y m d = x" using m by (simp add: make_day_in_range d_def yd_def)
  with civil_of_make_day [OF m(1,2) d] that m d show ?thesis by metis
qed

subsection \<open>Calendar strings denote their day\<close>

lemma ymd_day_range:
  assumes "valid_ymd y m d" shows "-700000 \<le> ymd_day y m d \<and> ymd_day y m d \<le> 3000000"
proof -
  have v: "100 \<le> y" "y \<le> 9999" "0 \<le> m - 1" "m - 1 \<le> 11" "1 \<le> d" "d \<le> month_length (is_leap y) (m - 1)"
    using assms by (auto simp: valid_ymd_def)
  have "day_from_year 100 \<le> day_from_year y" "day_from_year y \<le> day_from_year 9999"
    using v by (auto intro: day_from_year_mono)
  moreover have "day_from_year 100 = -683003" "day_from_year 9999 = 2932532" by (simp_all add: day_from_year_def)
  moreover have "0 \<le> days_before_month (is_leap y) (m - 1) + d - 1"
    "days_before_month (is_leap y) (m - 1) + d - 1 < (if is_leap y then 366 else 365)"
    using yday_in_year [OF v(3-6)] by auto
  ultimately show ?thesis
    using make_day_in_range [OF v(3,4), of y d] by (simp add: ymd_day_def split: if_splits)
qed

lemma valid_ymd_digits:
  "valid_ymd y m d \<Longrightarrow> 0 \<le> y \<and> y < 10 ^ 4 \<and> 0 \<le> m \<and> m < 10 ^ 2 \<and> 0 \<le> d \<and> d < 10 ^ 2"
  using month_length_bounds [of "m - 1" "is_leap y"] by (auto simp: valid_ymd_def)

lemma length_iso_date [simp]: "length (iso_date y m d) = 10"
  by (simp add: iso_date_def)

lemma iso_date_chars: "c \<in> set (iso_date y m d) \<Longrightarrow> is_digit c \<or> c = CHR ''-''"
  by (auto simp: iso_date_def dest: pad_digits_digits)

lemma js_trim_iso [simp]: "js_trim (iso_date y m d) = iso_date y m d"
proof (rule js_trim_no_space)
  fix c assume "c \<in> set (iso_date y m d)"
  then have "is_digit c \<or> c = CHR ''-''" by (rule iso_date_chars)
  then show "\<not> is_space c" by (auto simp: is_digit_not_space) (simp add: is_space_def)
qed

lemma iso_date_not_Nil [simp]: "iso_date y m d \<noteq> []"
  by (simp add: iso_date_def)

lemma no_dash: "CHR ''-'' \<notin> set (pad_digits k n)"
  by (auto dest: pad_digits_digits simp: is_digit_def)

lemma split_iso: "js_split CHR ''-'' (iso_date y m d) = [pad_digits 4 y, pad_digits 2 m, pad_digits 2 d]"
  by (simp add: iso_date_def js_split_append js_split_no_sep no_dash)

lemma js_to_int_of_int [simp]: "js_to_int (Fin (of_int n)) = Some n"
  by simp

lemma utc_of_iso:
  assumes "valid_ymd y m d" shows "utc_of_string (iso_date y m d) = Some (ymd_day y m d * ms_per_day)"
proof -
  note v = valid_ymd_digits [OF assms]
  have num: "js_number (pad_digits 4 y) = Fin (of_int y)" "js_number (pad_digits 2 m) = Fin (of_int m)"
    "js_number (pad_digits 2 d) = Fin (of_int d)"
    using v by (intro js_number_pad; simp)+
  have m: "jsub (Fin (of_int m)) (Fin 1) = Fin (of_int (m - 1))"
  proof -
    have "\<bar>m - 1\<bar> \<le> 2 ^ 53" using v by (simp add: abs_le_iff)
    then have "\<bar>of_int (m - 1)\<bar> \<le> (2 ^ 53 :: rat)" by (metis of_int_abs of_int_le_iff of_int_numeral of_int_power)
    then show ?thesis by (subst jsub_safe) (simp_all add: safe_int_def)
  qed
  have y: "\<not> (0 \<le> y \<and> y \<le> 99)" using assms by (simp add: valid_ymd_def)
  have "\<bar>ymd_day y m d * ms_per_day\<bar> \<le> 8640000000000000"
    using ymd_day_range [OF assms] by (simp add: ms_per_day_def abs_le_iff)
  then show ?thesis
    unfolding utc_of_string_def split_iso
    by (simp add: num m nth_or_nan_def date_utc_def y ymd_day_def time_clip_def del: js_to_int.simps of_int_diff)
qed

lemma day_of_iso: "valid_ymd y m d \<Longrightarrow> day_of_string (iso_date y m d) = ymd_day y m d"
  by (simp add: day_of_string_def utc_of_iso ms_per_day_def)

lemma iso_date_part_day:
  "valid_ymd y m d \<Longrightarrow> iso_date_part (ymd_day y m d * ms_per_day) = iso_date y m d"
  unfolding valid_ymd_def ymd_day_def iso_date_part_def
  by (simp add: ms_per_day_def civil_of_make_day iso_year_def iso_date_def)

text \<open>The order of the strings is the order of the days.\<close>

lemma ymd_day_less:
  assumes "valid_ymd y m d" "valid_ymd y' m' d'"
  shows "ymd_day y m d < ymd_day y' m' d' \<longleftrightarrow> y < y' \<or> y = y' \<and> (m < m' \<or> m = m' \<and> d < d')"
proof -
  have v: "0 \<le> m - 1" "m - 1 \<le> 11" "1 \<le> d" "d \<le> month_length (is_leap y) (m - 1)"
    "0 \<le> m' - 1" "m' - 1 \<le> 11" "1 \<le> d'" "d' \<le> month_length (is_leap y') (m' - 1)"
    using assms by (auto simp: valid_ymd_def)
  have e: "ymd_day y m d = day_from_year y + days_before_month (is_leap y) (m - 1) + d - 1"
    "ymd_day y' m' d' = day_from_year y' + days_before_month (is_leap y') (m' - 1) + d' - 1"
    using v make_day_in_range by (auto simp: ymd_day_def)
  note r = yday_in_year [OF v(1-4)] yday_in_year [OF v(5-8)]
  consider "y < y'" | "y' < y" | "y = y'" by linarith
  then show ?thesis
  proof cases
    case 1
    then have "day_from_year (y + 1) \<le> day_from_year y'" by (intro day_from_year_mono) simp
    then show ?thesis using 1 r by (simp add: e day_from_year_Suc split: if_splits)
  next
    case 2
    then have "day_from_year (y' + 1) \<le> day_from_year y" by (intro day_from_year_mono) simp
    then show ?thesis using 2 r by (simp add: e day_from_year_Suc split: if_splits)
  next
    case 3
    consider "m < m'" | "m' < m" | "m = m'" by linarith
    then show ?thesis
    proof cases
      case 1
      then have "days_before_month (is_leap y) (m - 1 + 1) \<le> days_before_month (is_leap y) (m' - 1)"
        using v by (intro days_before_month_mono) auto
      then show ?thesis unfolding e using 1 3 v by (simp add: month_length_def)
    next
      case 2
      then have "days_before_month (is_leap y) (m' - 1 + 1) \<le> days_before_month (is_leap y) (m - 1)"
        using v by (intro days_before_month_mono) auto
      then show ?thesis unfolding e using 2 3 v by (simp add: month_length_def)
    next
      case eq: 3
      then show ?thesis unfolding e using 3 by simp
    qed
  qed
qed

lemma iso_date_less:
  assumes "valid_ymd y m d" "valid_ymd y' m' d'"
  shows "iso_date y m d < iso_date y' m' d' \<longleftrightarrow> ymd_day y m d < ymd_day y' m' d'"
proof -
  note v = valid_ymd_digits [OF assms(1)] valid_ymd_digits [OF assms(2)]
  show ?thesis
    using v unfolding iso_date_def ymd_day_less [OF assms]
    by (simp add: append_less_iff pad_digits_less pad_digits_inj)
qed

lemma is_iso_less: "is_iso s \<Longrightarrow> is_iso t \<Longrightarrow> s < t \<longleftrightarrow> day_of_string s < day_of_string t"
  by (auto simp: is_iso_def day_of_iso iso_date_less)

lemma is_iso_inj: "is_iso s \<Longrightarrow> is_iso t \<Longrightarrow> s = t \<longleftrightarrow> day_of_string s = day_of_string t"
  by (metis is_iso_less linorder_neq_iff)

lemma is_iso_le: "is_iso s \<Longrightarrow> is_iso t \<Longrightarrow> s \<le> t \<longleftrightarrow> day_of_string s \<le> day_of_string t"
  by (metis is_iso_less linorder_not_le)

lemma is_iso_facts: "is_iso s \<Longrightarrow> length s = 10 \<and> js_trim s = s \<and> take 10 s = s \<and> s \<noteq> []"
  by (auto simp: is_iso_def)

lemma is_iso_day_range: "is_iso s \<Longrightarrow> -700000 \<le> day_of_string s \<and> day_of_string s \<le> 3000000"
  using ymd_day_range by (auto simp: is_iso_def day_of_iso)

lemma utc_of_is_iso: "is_iso s \<Longrightarrow> utc_of_string s = Some (day_of_string s * ms_per_day)"
  by (auto simp: is_iso_def day_of_iso utc_of_iso)

text \<open>A day of the covered range, printed, is a calendar string of that day.\<close>

lemma iso_of_day:
  assumes "day_from_year 100 \<le> x" "x < day_from_year 10000"
  shows "is_iso (iso_date_part (x * ms_per_day)) \<and> day_of_string (iso_date_part (x * ms_per_day)) = x"
proof -
  obtain y m d where c: "civil_of_day x = (y, m, d)" "0 \<le> m" "m \<le> 11" "1 \<le> d"
    "d \<le> month_length (is_leap y) m" "make_day y m d = x" by (rule civil_of_day_valid)
  have x: "day_from_year y \<le> x" "x < day_from_year (y + 1)"
    using yday_in_year [OF c(2-5)] c(6) by (auto simp: make_day_in_range [OF c(2,3)] day_from_year_Suc split: if_splits)
  have "100 \<le> y" using assms(1) x(2) day_from_year_mono [of "y + 1" 100] by linarith
  moreover have "y \<le> 9999" using assms(2) x(1) day_from_year_mono [of 10000 y] by linarith
  ultimately have v: "valid_ymd y (m + 1) d" using c by (simp add: valid_ymd_def)
  have "x = ymd_day y (m + 1) d" using c by (simp add: ymd_day_def)
  with v show ?thesis by (auto simp: is_iso_def iso_date_part_day day_of_iso)
qed

subsection \<open>Differences and shifts in whole days\<close>

lemma is_dbl_ms: "\<bar>n\<bar> \<le> 2 ^ 36 \<Longrightarrow> is_dbl (of_int (n * ms_per_day))"
  unfolding is_dbl_def
  by (rule exI [of _ "n * 84375"], rule exI [of _ 10]) (auto simp: ms_per_day_def pow2_nat abs_mult)

lemma day_quotient_days:
  assumes "\<bar>a - b\<bar> \<le> 2 ^ 36"
  shows "day_quotient (Some (a * ms_per_day)) (Some (b * ms_per_day)) = Fin (of_int (a - b))"
proof -
  have r: "of_int (a * ms_per_day) - of_int (b * ms_per_day) = (of_int ((a - b) * ms_per_day) :: rat)"
    by (simp add: left_diff_distrib)
  have b: "\<bar>of_int ((a - b) * ms_per_day)\<bar> < (2 ^ 1024 :: rat)"
  proof -
    have "\<bar>(a - b) * ms_per_day\<bar> \<le> 2 ^ 36 * 86400000"
      using assms by (simp add: abs_mult ms_per_day_def)
    then have "\<bar>of_int ((a - b) * ms_per_day)\<bar> \<le> (of_int (2 ^ 36 * 86400000) :: rat)"
      by (simp only: of_int_le_iff flip: of_int_abs)
    also have "\<dots> < 2 ^ 1024" by simp
    finally show ?thesis .
  qed
  have sub: "jsub (Fin (of_int (a * ms_per_day))) (Fin (of_int (b * ms_per_day))) = Fin (of_int ((a - b) * ms_per_day))"
    unfolding jsub_def jneg.simps jadd.simps diff_conv_add_uminus [symmetric] r
    using assms b by (intro js_round_rat_id is_dbl_ms) auto
  have q: "of_int (k * ms_per_day) / 86400000 = (of_int k :: rat)" for k
    by (simp add: ms_per_day_def)
  have "jdiv (Fin (of_int ((a - b) * ms_per_day))) (Fin 86400000) = js_round_rat (of_int (a - b))"
    using q [of "a - b"] by (simp del: of_int_diff of_int_mult)
  also have "\<dots> = Fin (of_int (a - b))"
    using assms by (intro js_round_rat_safe) (simp add: safe_int_def flip: of_int_abs of_int_diff of_int_le_iff)
  finally show ?thesis by (simp add: day_quotient_def sub del: of_int_diff of_int_mult)
qed

lemma jround_int [num_simps]: "jround (Fin (of_int n)) = Fin (of_int n)"
  by simp linarith

lemma jfloor_int [num_simps]: "jfloor (Fin (of_int n)) = Fin (of_int n)"
  by simp

lemma day_quotient_iso:
  assumes "is_iso s" "is_iso t"
  shows "day_quotient (utc_of_string s) (utc_of_string t) = Fin (of_int (day_of_string s - day_of_string t))"
  using is_iso_day_range [OF assms(1)] is_iso_day_range [OF assms(2)]
  by (simp add: utc_of_is_iso assms day_quotient_days abs_le_iff del: of_int_diff)

lemma add_utc_date_days:
  assumes "is_iso s" "\<bar>n\<bar> \<le> 10000000"
  shows "add_utc_date (day_of_string s * ms_per_day) (Fin (of_int n)) = Some ((day_of_string s + n) * ms_per_day)"
proof -
  obtain y m d where v: "valid_ymd y m d" and s: "s = iso_date y m d" using assms(1) by (auto simp: is_iso_def)
  have c: "civil_of_day (ymd_day y m d) = (y, m - 1, d)"
    using v by (simp add: ymd_day_def valid_ymd_def civil_of_make_day)
  have "jadd (Fin (of_int d)) (Fin (of_int n)) = Fin (of_int (d + n))"
  proof -
    have "\<bar>d + n\<bar> \<le> 2 ^ 53" using valid_ymd_digits [OF v] assms(2) by (simp add: abs_le_iff)
    then have "\<bar>of_int (d + n)\<bar> \<le> (2 ^ 53 :: rat)" by (metis of_int_abs of_int_le_iff of_int_numeral of_int_power)
    then show ?thesis by (subst jadd_safe) (simp_all add: safe_int_def)
  qed
  moreover have "make_day y (m - 1) (d + n) = ymd_day y m d + n" by (simp add: make_day_def ymd_day_def Let_def)
  moreover have "\<bar>(ymd_day y m d + n) * ms_per_day\<bar> \<le> 8640000000000000"
    using ymd_day_range [OF v] assms(2) by (simp add: ms_per_day_def abs_le_iff)
  ultimately show ?thesis
    unfolding s day_of_iso [OF v] add_utc_date_def
    by (simp add: ms_per_day_def c time_clip_def del: js_to_int.simps of_int_add jadd.simps)
qed

lemma is_isoI: "valid_ymd y m d \<Longrightarrow> s = iso_date y m d \<Longrightarrow> is_iso s"
  by (auto simp: is_iso_def)

end
