(* ===== verification/LotRules.thy ===== *)
theory LotRules imports JsDate
begin

section \<open>Inventory lots: types, policy, date rules, status, exposure, receipt validation\<close>

text \<open>
  Models \<open>shared/inventory-lot\<close>: \<open>lotTypes.ts\<close>, \<open>lotPolicy.ts\<close>, \<open>lotRules.ts\<close>,
  \<open>lotStatus.ts\<close>, \<open>lotCalculator.ts\<close> and \<open>lotValidation.ts\<close>. A nullable field is an
  option; the rules work on \<open>YYYY-MM-DD\<close> strings and fall back to the language's \<open>NaN\<close>
  and \<open>RangeError\<close> on malformed ones, as the code does.
\<close>

subsection \<open>Types (\<open>lotTypes.ts\<close>)\<close>

datatype LotStoredStatus =
  LOT_ACTIVE | LOT_DEPLETED | LOT_EXPIRED | LOT_QUARANTINED | LOT_RECALLED | LOT_DISPOSED
  | LOT_ARCHIVED | LOT_BLOCKED

datatype LotDisplayStatus = Stored LotStoredStatus | EXPIRING

definition LOT_STORED_STATUSES :: "LotStoredStatus list" where
  "LOT_STORED_STATUSES =
     [LOT_ACTIVE, LOT_DEPLETED, LOT_EXPIRED, LOT_QUARANTINED, LOT_RECALLED, LOT_DISPOSED,
      LOT_ARCHIVED, LOT_BLOCKED]"

datatype LotSourceType =
  SRC_GOODS_RECEIPT | SRC_OPENING_BALANCE | SRC_ADJUSTMENT | SRC_PRODUCTION
  | SRC_CUSTOMER_RETURN | SRC_SUPPLIER_RETURN | SRC_SPLIT | SRC_MERGE

type_synonym LotDate = string

record LotGenealogy =
  parentLotId :: "string option"
  sourceType :: LotSourceType
  goodsReceiptId :: "string option"
  goodsReceiptItemId :: "string option"

record LotAttributes =
  expiryDate :: "LotDate option"
  manufacturingDate :: "LotDate option"
  receivedDate :: LotDate

record InventoryLot =
  lot_id :: string
  productId :: string
  lotNumber :: string
  attributes :: LotAttributes
  lot_quantity :: jnum
  remainingQuantity :: jnum
  costPrice :: jnum
  lot_status :: LotStoredStatus
  genealogy :: LotGenealogy
  isBonus :: bool

record ProductLotPolicy =
  trackExpiry :: bool
  minDaysBeforeExpirySale :: "jnum option"

datatype LotRiskTier = RISK_CRITICAL | RISK_WARNING | RISK_NORMAL | RISK_NONE

datatype SelectionPolicy = FEFO | FIFO | LIFO | MANUAL

record LotExposure =
  exp_lotId :: string
  exp_productId :: string
  exp_lotNumber :: string
  exp_expiryDate :: "LotDate option"
  exp_remainingQuantity :: jnum
  exp_costPrice :: jnum
  exp_exposedValue :: jnum
  exp_daysRemaining :: "jnum option"
  exp_riskTier :: LotRiskTier
  exp_displayStatus :: LotDisplayStatus

subsection \<open>Policy (\<open>lotPolicy.ts\<close>)\<close>

record LotPolicyThresholds =
  expiringSoonDays :: jnum
  criticalDays :: jnum
  perishableSelectionPolicy :: SelectionPolicy
  nonPerishableSelectionPolicy :: SelectionPolicy

definition DEFAULT_LOT_POLICY :: LotPolicyThresholds where
  "DEFAULT_LOT_POLICY =
     \<lparr>expiringSoonDays = Fin 30, criticalDays = Fin 7,
      perishableSelectionPolicy = FEFO, nonPerishableSelectionPolicy = FIFO\<rparr>"

definition resolveDefaultSelectionPolicy :: "bool \<Rightarrow> LotPolicyThresholds \<Rightarrow> SelectionPolicy" where
  "resolveDefaultSelectionPolicy track policy =
     (if track then perishableSelectionPolicy policy else nonPerishableSelectionPolicy policy)"

definition resolveRiskTier :: "jnum option \<Rightarrow> LotPolicyThresholds \<Rightarrow> LotRiskTier" where
  "resolveRiskTier daysRemaining policy =
     (case daysRemaining of
        None \<Rightarrow> RISK_NONE
      | Some d \<Rightarrow>
          if jle d (Fin 0) then RISK_CRITICAL
          else if jle d (criticalDays policy) then RISK_CRITICAL
          else if jle d (expiringSoonDays policy) then RISK_WARNING
          else RISK_NORMAL)"

subsection \<open>Date rules (\<open>lotRules.ts\<close>)\<close>

text \<open>The argument of \<open>normalizeLotDate\<close>: a string, or a \<open>Date\<close> given by the year, month
  (from 0) and day that its local getters return.\<close>

datatype date_value = StrDate string | LocalDate int int int

fun normalizeLotDate_value :: "date_value option \<Rightarrow> LotDate option" where
  "normalizeLotDate_value None = None"
| "normalizeLotDate_value (Some (StrDate s)) = (if s = [] then None else Some (take 10 (js_trim s)))"
| "normalizeLotDate_value (Some (LocalDate y m d)) =
     Some (show_int y @ ''-'' @ pad_start_2 (show_int (m + 1)) @ ''-'' @ pad_start_2 (show_int d))"

definition normalizeLotDate :: "string option \<Rightarrow> LotDate option" where
  "normalizeLotDate v = normalizeLotDate_value (map_option StrDate v)"

definition requiresExpiryOnReceipt :: "ProductLotPolicy \<Rightarrow> jnum \<Rightarrow> bool" where
  "requiresExpiryOnReceipt policy receivedQuantity \<longleftrightarrow> trackExpiry policy \<and> jlt (Fin 0) receivedQuantity"

definition receiptExpirySatisfied :: "ProductLotPolicy \<Rightarrow> jnum \<Rightarrow> LotDate option \<Rightarrow> bool" where
  "receiptExpirySatisfied policy receivedQuantity expiry \<longleftrightarrow>
     (if \<not> requiresExpiryOnReceipt policy receivedQuantity then True
      else (case normalizeLotDate expiry of None \<Rightarrow> False | Some n \<Rightarrow> length n > 0))"

definition isExpiryNotPast :: "LotDate \<Rightarrow> LotDate \<Rightarrow> bool" where
  "isExpiryNotPast expiry businessDate \<longleftrightarrow> expiry \<ge> businessDate"

definition isExpiryAfterManufacturing :: "LotDate \<Rightarrow> LotDate \<Rightarrow> bool" where
  "isExpiryAfterManufacturing expiry mfg \<longleftrightarrow> expiry > mfg"

definition isExpiryOnOrAfterReceived :: "LotDate \<Rightarrow> LotDate \<Rightarrow> bool" where
  "isExpiryOnOrAfterReceived expiry received \<longleftrightarrow> expiry \<ge> received"

definition validateLotDateAttributes :: "LotAttributes \<Rightarrow> LotDate \<Rightarrow> bool \<Rightarrow> string option" where
  "validateLotDateAttributes attrs businessDate allowPastExpiry =
     (let expiry = normalizeLotDate (expiryDate attrs);
          mfg = normalizeLotDate (manufacturingDate attrs);
          received = normalizeLotDate (Some (receivedDate attrs))
      in if \<not> truthy_str received then Some ''Received date is required''
         else if truthy_str expiry then
           (if \<not> allowPastExpiry \<and> \<not> isExpiryNotPast (the expiry) businessDate
            then Some (''Expiry date '' @ the expiry @ '' cannot be in the past'')
            else if truthy_str mfg \<and> \<not> isExpiryAfterManufacturing (the expiry) (the mfg)
            then Some ''Expiry date must be after manufacturing date''
            else if \<not> isExpiryOnOrAfterReceived (the expiry) (the received)
            then Some ''Expiry date must be on or after received date''
            else None)
         else None)"

definition NON_SELECTABLE_LOT_STATUSES :: "LotStoredStatus set" where
  "NON_SELECTABLE_LOT_STATUSES =
     {LOT_DEPLETED, LOT_EXPIRED, LOT_QUARANTINED, LOT_RECALLED, LOT_DISPOSED, LOT_ARCHIVED, LOT_BLOCKED}"

definition isLotStatusSelectable :: "LotStoredStatus \<Rightarrow> bool" where
  "isLotStatusSelectable status \<longleftrightarrow> status = LOT_ACTIVE"

definition addCalendarDays :: "LotDate \<Rightarrow> jnum \<Rightarrow> (js_exn, LotDate) result" where
  "addCalendarDays date days =
     (case utc_of_string date of
        None \<Rightarrow> Inl RangeError
      | Some t \<Rightarrow> (case add_utc_date t days of
                     None \<Rightarrow> Inl RangeError
                   | Some t' \<Rightarrow> Inr (take 10 (iso_date_part t'))))"

definition isLotEligibleForSale :: "LotDate option \<Rightarrow> LotDate \<Rightarrow> jnum \<Rightarrow> (js_exn, bool) result" where
  "isLotEligibleForSale expiry0 businessDate minDays =
     (let expiry = normalizeLotDate expiry0
      in if \<not> truthy_str expiry then Inr True
         else if the expiry \<le> businessDate then Inr False
         else if jle minDays (Fin 0) then Inr True
         else and_then (addCalendarDays businessDate minDays)
                (\<lambda>minSellDate. Inr (the expiry > minSellDate)))"

definition canMergeLots :: "LotDate option \<Rightarrow> LotDate option \<Rightarrow> bool" where
  "canMergeLots expiryA expiryB \<longleftrightarrow> normalizeLotDate expiryA = normalizeLotDate expiryB"

record AttributeCorrectionInput =
  aci_remainingQuantity :: jnum
  aci_currentExpiryDate :: "LotDate option"
  aci_newExpiryDate :: LotDate
  aci_reason :: "string option"
  aci_businessDate :: LotDate

definition validateAttributeCorrectionInput :: "AttributeCorrectionInput \<Rightarrow> string option" where
  "validateAttributeCorrectionInput inp =
     (if jle (aci_remainingQuantity inp) (Fin 0)
      then Some ''Cannot correct lot attributes when remaining quantity is zero''
      else if (case aci_reason inp of None \<Rightarrow> [] | Some r \<Rightarrow> js_trim r) = []
      then Some ''A reason is required when correcting lot attributes''
      else let newExpiry = normalizeLotDate (Some (aci_newExpiryDate inp))
           in if \<not> truthy_str newExpiry then Some ''New expiry date is required''
              else if normalizeLotDate (aci_currentExpiryDate inp) = newExpiry
              then Some ''New expiry date is the same as the current expiry date''
              else if \<not> isExpiryNotPast (the newExpiry) (aci_businessDate inp)
              then Some (''New expiry date '' @ the newExpiry @ '' is in the past'')
              else None)"

definition getDaysRemaining :: "LotDate option \<Rightarrow> LotDate \<Rightarrow> jnum option" where
  "getDaysRemaining expiry0 businessDate =
     (let expiry = normalizeLotDate expiry0
      in if \<not> truthy_str expiry then None
         else Some (jround (day_quotient (utc_of_string (the expiry)) (utc_of_string businessDate))))"

subsection \<open>Display status (\<open>lotStatus.ts\<close>)\<close>

definition resolveLotDisplayStatus ::
  "LotStoredStatus \<Rightarrow> LotDate option \<Rightarrow> LotDate \<Rightarrow> LotPolicyThresholds \<Rightarrow> LotDisplayStatus" where
  "resolveLotDisplayStatus storedStatus expiry0 businessDate policy =
     (if storedStatus \<noteq> LOT_ACTIVE then Stored storedStatus
      else let expiry = normalizeLotDate expiry0
           in if \<not> truthy_str expiry then Stored LOT_ACTIVE
              else let days = getDaysRemaining expiry businessDate
                   in if days \<noteq> None \<and> jle (the days) (Fin 0) then Stored LOT_EXPIRED
                      else if days \<noteq> None \<and> jle (the days) (expiringSoonDays policy) then EXPIRING
                      else Stored LOT_ACTIVE)"

definition isLotExpired :: "LotStoredStatus \<Rightarrow> LotDate option \<Rightarrow> LotDate \<Rightarrow> bool" where
  "isLotExpired storedStatus expiry0 businessDate \<longleftrightarrow>
     resolveLotDisplayStatus storedStatus expiry0 businessDate DEFAULT_LOT_POLICY = Stored LOT_EXPIRED
     \<or> storedStatus = LOT_EXPIRED"

definition isLotExpiringSoon :: "LotStoredStatus \<Rightarrow> LotDate option \<Rightarrow> LotDate \<Rightarrow> LotPolicyThresholds \<Rightarrow> bool" where
  "isLotExpiringSoon storedStatus expiry0 businessDate policy \<longleftrightarrow>
     resolveLotDisplayStatus storedStatus expiry0 businessDate policy = EXPIRING"

subsection \<open>Exposure (\<open>lotCalculator.ts\<close>)\<close>

definition getRiskTier :: "LotDate option \<Rightarrow> LotDate \<Rightarrow> LotPolicyThresholds \<Rightarrow> LotRiskTier" where
  "getRiskTier expiry0 businessDate policy = resolveRiskTier (getDaysRemaining expiry0 businessDate) policy"

definition getShelfLifePercent :: "LotDate option \<Rightarrow> LotDate option \<Rightarrow> LotDate \<Rightarrow> jnum option" where
  "getShelfLifePercent mfg0 expiry0 businessDate =
     (let mfg = normalizeLotDate mfg0; expiry = normalizeLotDate expiry0
      in if \<not> truthy_str mfg \<or> \<not> truthy_str expiry then None
         else case getDaysRemaining expiry (the mfg) of
           None \<Rightarrow> None
         | Some shelf \<Rightarrow>
             if jle shelf (Fin 0) then None
             else case getDaysRemaining expiry businessDate of
               None \<Rightarrow> None
             | Some remaining \<Rightarrow>
                 Some (jmin (Fin 100) (jmax (Fin 0)
                   (jmul (jdiv (jsub shelf remaining) shelf) (Fin 100)))))"

definition computeExposedValue :: "jnum \<Rightarrow> jnum \<Rightarrow> jnum" where
  "computeExposedValue qty cost = jdiv (jround (jmul (jmul qty cost) (Fin 100))) (Fin 100)"

definition buildLotExposure :: "InventoryLot \<Rightarrow> LotDate \<Rightarrow> LotPolicyThresholds \<Rightarrow> LotExposure" where
  "buildLotExposure lot businessDate policy =
     (let expiry = normalizeLotDate (expiryDate (attributes lot));
          days = getDaysRemaining expiry businessDate
      in \<lparr>exp_lotId = lot_id lot,
          exp_productId = productId lot,
          exp_lotNumber = lotNumber lot,
          exp_expiryDate = expiry,
          exp_remainingQuantity = remainingQuantity lot,
          exp_costPrice = costPrice lot,
          exp_exposedValue = computeExposedValue (remainingQuantity lot) (costPrice lot),
          exp_daysRemaining = days,
          exp_riskTier = resolveRiskTier days policy,
          exp_displayStatus = resolveLotDisplayStatus (lot_status lot) expiry businessDate policy\<rparr>)"

subsection \<open>Receipt validation (\<open>lotValidation.ts\<close>)\<close>

record LotValidationResult =
  lv_valid :: bool
  lv_error :: "string option"
  lv_code :: "string option"
  lv_rule :: "string option"

definition lotValidationFailure :: "string \<Rightarrow> string \<Rightarrow> string \<Rightarrow> LotValidationResult" where
  "lotValidationFailure err code rule =
     \<lparr>lv_valid = False, lv_error = Some err, lv_code = Some code, lv_rule = Some rule\<rparr>"

definition lotValidationOk :: LotValidationResult where
  "lotValidationOk = \<lparr>lv_valid = True, lv_error = None, lv_code = None, lv_rule = None\<rparr>"

definition validateReceiptLot ::
  "ProductLotPolicy \<Rightarrow> jnum \<Rightarrow> LotAttributes \<Rightarrow> string \<Rightarrow> LotValidationResult" where
  "validateReceiptLot policy receivedQuantity attrs businessDate =
     (if \<not> receiptExpirySatisfied policy receivedQuantity (expiryDate attrs)
      then lotValidationFailure ''Expiry date is required for products with expiry tracking enabled''
             ''MISSING_EXPIRY_DATE'' ''BR-INV-011''
      else if jlt (Fin 0) receivedQuantity \<and> trackExpiry policy \<and> truthy_str (expiryDate attrs)
      then (case validateLotDateAttributes attrs businessDate False of
              Some dateError \<Rightarrow>
                if dateError \<noteq> [] then lotValidationFailure dateError ''INVALID_EXPIRY_DATE'' ''BR-INV-003''
                else lotValidationOk
            | None \<Rightarrow> lotValidationOk)
      else lotValidationOk)"

definition validateLotAttributeCorrection :: "AttributeCorrectionInput \<Rightarrow> LotValidationResult" where
  "validateLotAttributeCorrection inp =
     (case validateAttributeCorrectionInput inp of
        Some err \<Rightarrow>
          if err \<noteq> [] then lotValidationFailure err ''INVALID_LOT_ATTRIBUTE_CORRECTION'' ''BR-LOT-002''
          else lotValidationOk
      | None \<Rightarrow> lotValidationOk)"

subsection \<open>The rules on calendar dates\<close>

lemma normalizeLotDate_simps [simp]:
  "normalizeLotDate None = None"
  "normalizeLotDate (Some s) = (if s = [] then None else Some (take 10 (js_trim s)))"
  by (simp_all add: normalizeLotDate_def)

lemma normalizeLotDate_iso: "is_iso s \<Longrightarrow> normalizeLotDate (Some s) = Some s"
  using is_iso_facts by auto

lemma addCalendarDays_days:
  assumes "is_iso s" "\<bar>n\<bar> \<le> 10000000"
    and "day_from_year 100 \<le> day_of_string s + n" "day_of_string s + n < day_from_year 10000"
  shows "\<exists>r. addCalendarDays s (Fin (of_int n)) = Inr r \<and> is_iso r \<and> day_of_string r = day_of_string s + n"
proof -
  let ?r = "iso_date_part ((day_of_string s + n) * ms_per_day)"
  have r: "is_iso ?r" "day_of_string ?r = day_of_string s + n"
    using iso_of_day [OF assms(3,4)] by blast+
  have "addCalendarDays s (Fin (of_int n)) = Inr (take 10 ?r)"
    using assms(1,2) by (simp add: addCalendarDays_def utc_of_is_iso add_utc_date_days)
  with r is_iso_facts [OF r(1)] show ?thesis by auto
qed

lemma getDaysRemaining_iso:
  assumes "is_iso e" "is_iso b"
  shows "getDaysRemaining (Some e) b = Some (Fin (of_int (day_of_string e - day_of_string b)))"
  unfolding getDaysRemaining_def normalizeLotDate_iso [OF assms(1)]
  using is_iso_facts [OF assms(1)]
  by (simp add: day_quotient_iso assms jround_int del: of_int_diff jround.simps)

lemma eligible_no_buffer:
  assumes "is_iso e" "is_iso b" "jle minDays (Fin 0)"
  shows "isLotEligibleForSale (Some e) b minDays = Inr (day_of_string b < day_of_string e)"
  unfolding isLotEligibleForSale_def normalizeLotDate_iso [OF assms(1)]
  using is_iso_facts [OF assms(1)] is_iso_less [OF assms(2,1)] assms(3)
  by (auto simp: not_le simp flip: linorder_not_less)

lemma eligible_buffer:
  assumes "is_iso e" "is_iso b" "0 < n" "n \<le> 10000" "day_of_string b + n < day_from_year 10000"
  shows "isLotEligibleForSale (Some e) b (Fin (of_int n)) = Inr (day_of_string b + n < day_of_string e)"
proof -
  have "day_from_year 100 \<le> day_of_string b"
  proof -
    obtain y m d where v: "valid_ymd y m d" "b = iso_date y m d" using assms(2) by (auto simp: is_iso_def)
    have "day_from_year 100 \<le> day_from_year y" using v by (intro day_from_year_mono) (simp add: valid_ymd_def)
    moreover have "day_from_year y \<le> ymd_day y m d"
      using v(1) days_before_month_ge [of "is_leap y" "m - 1"] by (simp add: ymd_day_def valid_ymd_def make_day_in_range)
    ultimately show ?thesis using v by (simp add: day_of_iso)
  qed
  then obtain r where r: "addCalendarDays b (Fin (of_int n)) = Inr r" "is_iso r"
      "day_of_string r = day_of_string b + n"
    using addCalendarDays_days [OF assms(2), of n] assms(3-5) by auto
  show ?thesis
    unfolding isLotEligibleForSale_def normalizeLotDate_iso [OF assms(1)]
    using is_iso_facts [OF assms(1)] is_iso_le [OF assms(1,2)] is_iso_less [OF r(2) assms(1)] r assms(3)
    by (simp add: Let_def)
qed

lemma eligible_no_expiry [simp]: "isLotEligibleForSale None b n = Inr True"
  by (simp add: isLotEligibleForSale_def)

subsection \<open>Properties\<close>

text \<open>Shifting a calendar date by a whole number of days with \<open>addCalendarDays\<close> and then
  asking \<open>getDaysRemaining\<close> for the distance gives that number back, across month ends and
  leap years, for every date of the years 100 to 9999 whose shift stays in those years.\<close>

theorem addCalendarDays_getDaysRemaining:
  assumes "is_iso s" "\<bar>n\<bar> \<le> 10000000"
    and "day_from_year 100 \<le> day_of_string s + n" "day_of_string s + n < day_from_year 10000"
  shows "\<exists>r. addCalendarDays s (Fin (of_int n)) = Inr r \<and> is_iso r
    \<and> getDaysRemaining (Some r) s = Some (Fin (of_int n))"
proof -
  obtain r where r: "addCalendarDays s (Fin (of_int n)) = Inr r" "is_iso r" "day_of_string r = day_of_string s + n"
    using addCalendarDays_days [OF assms] by blast
  with getDaysRemaining_iso [OF r(2) assms(1)] show ?thesis by auto
qed

theorem addCalendarDays_getDaysRemaining_witness:
  "\<exists>r. addCalendarDays ''2024-02-28'' (Fin 2) = Inr r \<and> is_iso r \<and> getDaysRemaining (Some r) ''2024-02-28'' = Some (Fin 2)"
proof -
  have i: "is_iso ''2024-02-28''" by (rule is_isoI [of 2024 2 28]; code_simp)
  have d: "day_from_year 100 \<le> day_of_string ''2024-02-28'' + 2" "day_of_string ''2024-02-28'' + 2 < day_from_year 10000"
    by code_simp+
  show ?thesis using addCalendarDays_getDaysRemaining [OF i _ d] by simp
qed

text \<open>The display status and the sale rule agree on the calendar: an active lot with an
  expiry date is displayed as expired exactly on the days on which it is not eligible for sale
  with no sell buffer, whatever the policy thresholds are.\<close>

theorem expired_status_iff_not_eligible:
  assumes "is_iso e" "is_iso b"
  shows "resolveLotDisplayStatus LOT_ACTIVE (Some e) b policy = Stored LOT_EXPIRED
    \<longleftrightarrow> isLotEligibleForSale (Some e) b (Fin 0) = Inr False"
proof -
  have n: "normalizeLotDate (Some e) = Some e" "e \<noteq> []" using assms(1) is_iso_facts normalizeLotDate_iso by auto
  have "resolveLotDisplayStatus LOT_ACTIVE (Some e) b policy = Stored LOT_EXPIRED
      \<longleftrightarrow> jle (Fin (of_int (day_of_string e - day_of_string b))) (Fin 0)"
    unfolding resolveLotDisplayStatus_def n(1) Let_def getDaysRemaining_iso [OF assms] using n(2) by simp
  also have "\<dots> \<longleftrightarrow> day_of_string e \<le> day_of_string b" by simp
  also have "\<dots> \<longleftrightarrow> isLotEligibleForSale (Some e) b (Fin 0) = Inr False"
    by (auto simp: eligible_no_buffer assms)
  finally show ?thesis .
qed

theorem expired_status_iff_not_eligible_witness:
  "resolveLotDisplayStatus LOT_ACTIVE (Some ''2026-03-01'') ''2026-03-01'' DEFAULT_LOT_POLICY = Stored LOT_EXPIRED
    \<longleftrightarrow> isLotEligibleForSale (Some ''2026-03-01'') ''2026-03-01'' (Fin 0) = Inr False"
proof -
  have i: "is_iso ''2026-03-01''" by (rule is_isoI [of 2026 3 1]; code_simp)
  show ?thesis by (rule expired_status_iff_not_eligible [OF i i])
qed

end
