(* ===== verification/LotSelection.thy ===== *)
theory LotSelection imports LotRules "HOL-Library.Product_Lexorder" "HOL-Library.Multiset"
begin

section \<open>Lot selection: FEFO and FIFO allocation\<close>

text \<open>
  Models \<open>lotSelection.ts\<close>, \<open>fefoEngine.ts\<close> and \<open>fifoEngine.ts\<close> of
  \<open>shared/inventory-lot\<close>. The collation behind \<open>localeCompare\<close> is a parameter: the
  function \<open>ck\<close> that maps a lot number to its sort key, by whose order the collation
  compares.
\<close>

record SelectableLot =
  sl_lotId :: string
  sl_lotNumber :: string
  sl_productId :: string
  sl_remainingQuantity :: jnum
  sl_costPrice :: jnum
  sl_expiryDate :: "LotDate option"
  sl_receivedDate :: "LotDate option"
  sl_storeLocationId :: "string option"
  sl_productLotId :: "string option"

record LotSelectionRequest =
  rq_policy :: SelectionPolicy
  rq_lots :: "SelectableLot list"
  rq_quantity :: jnum
  rq_businessDate :: LotDate
  rq_minDays :: "jnum option"
  rq_specificLotId :: "string option"

record LotSelectionLayer =
  ly_lotId :: string
  ly_lotNumber :: string
  ly_quantity :: jnum
  ly_costPrice :: jnum
  ly_expiryDate :: "LotDate option"

record LotSelectionResult =
  rs_policy :: SelectionPolicy
  rs_layers :: "LotSelectionLayer list"
  rs_totalAllocated :: jnum
  rs_totalCost :: jnum
  rs_shortfall :: jnum

definition emptySelectionResult :: "SelectionPolicy \<Rightarrow> jnum \<Rightarrow> LotSelectionResult" where
  "emptySelectionResult policy requestedQuantity =
     \<lparr>rs_policy = policy, rs_layers = [], rs_totalAllocated = Fin 0, rs_totalCost = Fin 0,
      rs_shortfall = jmax (Fin 0) requestedQuantity\<rparr>"

subsection \<open>Sorting (\<open>fefoEngine.ts\<close>, \<open>fifoEngine.ts\<close>)\<close>

type_synonym collation = "string \<Rightarrow> int list"

definition localeCompare :: "collation \<Rightarrow> string \<Rightarrow> string \<Rightarrow> int" where
  "localeCompare ck a b = (if ck a < ck b then -1 else if ck b < ck a then 1 else 0)"

definition compareFefo :: "collation \<Rightarrow> SelectableLot \<Rightarrow> SelectableLot \<Rightarrow> int" where
  "compareFefo ck a b =
     (let expA = coalesce (sl_expiryDate a) ''9999-12-31'';
          expB = coalesce (sl_expiryDate b) ''9999-12-31''
      in if expA \<noteq> expB then (if expA < expB then -1 else 1)
         else let recA = coalesce (sl_receivedDate a) ''9999-12-31'';
                  recB = coalesce (sl_receivedDate b) ''9999-12-31''
              in if recA \<noteq> recB then (if recA < recB then -1 else 1)
                 else localeCompare ck (sl_lotNumber a) (sl_lotNumber b))"

definition sortLotsFefo :: "collation \<Rightarrow> SelectableLot list \<Rightarrow> SelectableLot list" where
  "sortLotsFefo ck lots = js_sort (compareFefo ck) lots"

definition compareFifo :: "collation \<Rightarrow> SelectableLot \<Rightarrow> SelectableLot \<Rightarrow> int" where
  "compareFifo ck a b =
     (let recA = coalesce (sl_receivedDate a) ''9999-12-31'';
          recB = coalesce (sl_receivedDate b) ''9999-12-31''
      in if recA \<noteq> recB then (if recA < recB then -1 else 1)
         else localeCompare ck (sl_lotNumber a) (sl_lotNumber b))"

definition sortLotsFifo :: "collation \<Rightarrow> SelectableLot list \<Rightarrow> SelectableLot list" where
  "sortLotsFifo ck lots = js_sort (compareFifo ck) lots"

definition filterLotsEligibleForSelection ::
  "SelectableLot list \<Rightarrow> LotDate \<Rightarrow> jnum \<Rightarrow> (js_exn, SelectableLot list) result" where
  "filterLotsEligibleForSelection lots businessDate minDays =
     filter_res (\<lambda>lot. if jlt (Fin 0) (sl_remainingQuantity lot)
                       then isLotEligibleForSale (sl_expiryDate lot) businessDate minDays
                       else Inr False) lots"

subsection \<open>Allocation\<close>

text \<open>The loop of \<open>allocateFromSortedLots\<close>: layers so far are returned in order, with the
  running cost and the quantity still to be served.\<close>

fun allocate_loop ::
  "jnum \<Rightarrow> jnum \<Rightarrow> SelectableLot list \<Rightarrow> LotSelectionLayer list \<times> jnum \<times> jnum" where
  "allocate_loop remaining cost [] = ([], cost, remaining)"
| "allocate_loop remaining cost (lot # lots) =
     (if jle remaining (Fin 0) then ([], cost, remaining)
      else let t = jmin remaining (sl_remainingQuantity lot)
           in if jle t (Fin 0) then allocate_loop remaining cost lots
              else case allocate_loop (jsub remaining t)
                          (jadd cost (jmul t (sl_costPrice lot))) lots of
                (ls, c, r) \<Rightarrow>
                  (\<lparr>ly_lotId = sl_lotId lot, ly_lotNumber = sl_lotNumber lot, ly_quantity = t,
                    ly_costPrice = sl_costPrice lot, ly_expiryDate = sl_expiryDate lot\<rparr> # ls, c, r))"

definition allocateFromSortedLots :: "SelectionPolicy \<Rightarrow> SelectableLot list \<Rightarrow> jnum \<Rightarrow> LotSelectionResult" where
  "allocateFromSortedLots policy sortedLots quantity =
     (case allocate_loop quantity (Fin 0) sortedLots of
        (layers, totalCost, remaining) \<Rightarrow>
          \<lparr>rs_policy = policy,
           rs_layers = layers,
           rs_totalAllocated = jsub quantity (jmax (Fin 0) remaining),
           rs_totalCost = jdiv (jround (jmul totalCost (Fin 100))) (Fin 100),
           rs_shortfall = jmax (Fin 0) remaining\<rparr>)"

text \<open>\<open>FefoSelectionPolicy.select\<close> and \<open>FifoSelectionPolicy.select\<close>.\<close>

definition fefo_select :: "collation \<Rightarrow> LotSelectionRequest \<Rightarrow> (js_exn, LotSelectionResult) result" where
  "fefo_select ck rq =
     (if truthy_str (rq_specificLotId rq) then
        (case find (\<lambda>l. sl_lotId l = the (rq_specificLotId rq)) (rq_lots rq) of
           None \<Rightarrow> Inr (emptySelectionResult FEFO (rq_quantity rq))
         | Some lot \<Rightarrow> Inr (allocateFromSortedLots FEFO [lot] (rq_quantity rq)))
      else
        and_then (filterLotsEligibleForSelection (rq_lots rq) (rq_businessDate rq) (coalesce (rq_minDays rq) (Fin 0)))
          (\<lambda>eligible. Inr (allocateFromSortedLots FEFO (sortLotsFefo ck eligible) (rq_quantity rq))))"

definition fifo_select :: "collation \<Rightarrow> LotSelectionRequest \<Rightarrow> (js_exn, LotSelectionResult) result" where
  "fifo_select ck rq =
     (if truthy_str (rq_specificLotId rq) then
        (case find (\<lambda>l. sl_lotId l = the (rq_specificLotId rq)) (rq_lots rq) of
           None \<Rightarrow> Inr (emptySelectionResult FIFO (rq_quantity rq))
         | Some lot \<Rightarrow> Inr (allocateFromSortedLots FIFO [lot] (rq_quantity rq)))
      else
        and_then (filterLotsEligibleForSelection (rq_lots rq) (rq_businessDate rq) (coalesce (rq_minDays rq) (Fin 0)))
          (\<lambda>eligible. Inr (allocateFromSortedLots FIFO (sortLotsFifo ck eligible) (rq_quantity rq))))"

subsection \<open>The comparators order by a key\<close>

definition fefo_key :: "collation \<Rightarrow> SelectableLot \<Rightarrow> string \<times> string \<times> int list" where
  "fefo_key ck l = (coalesce (sl_expiryDate l) ''9999-12-31'', coalesce (sl_receivedDate l) ''9999-12-31'', ck (sl_lotNumber l))"

definition fifo_key :: "collation \<Rightarrow> SelectableLot \<Rightarrow> string \<times> int list" where
  "fifo_key ck l = (coalesce (sl_receivedDate l) ''9999-12-31'', ck (sl_lotNumber l))"

lemma localeCompare_le: "localeCompare ck a b \<le> 0 \<longleftrightarrow> ck a \<le> ck b"
  by (auto simp: localeCompare_def not_less)

interpretation fefo: comparator "compareFefo ck" "fefo_key ck" for ck
  by unfold_locales (auto simp: compareFefo_def fefo_key_def Let_def localeCompare_le less_eq_prod_def)

interpretation fifo: comparator "compareFifo ck" "fifo_key ck" for ck
  by unfold_locales (auto simp: compareFifo_def fifo_key_def Let_def localeCompare_le less_eq_prod_def)

lemma sortLotsFefo_set [simp]: "set (sortLotsFefo ck lots) = set lots"
  by (simp add: sortLotsFefo_def fefo.js_sort_set)

lemma sortLotsFifo_set [simp]: "set (sortLotsFifo ck lots) = set lots"
  by (simp add: sortLotsFifo_def fifo.js_sort_set)

lemma sortLotsFefo_sorted: "sorted (map (fefo_key ck) (sortLotsFefo ck lots))"
  by (simp add: sortLotsFefo_def fefo.js_sort_sorted)

lemma sortLotsFifo_sorted: "sorted (map (fifo_key ck) (sortLotsFifo ck lots))"
  by (simp add: sortLotsFifo_def fifo.js_sort_sorted)

subsection \<open>The allocation loop\<close>

text \<open>A layer takes from one lot, not more than it holds.\<close>

definition layer_of :: "LotSelectionLayer \<Rightarrow> SelectableLot \<Rightarrow> bool" where
  "layer_of ly lot \<longleftrightarrow>
     ly_lotId ly = sl_lotId lot \<and> ly_lotNumber ly = sl_lotNumber lot \<and> ly_costPrice ly = sl_costPrice lot
     \<and> ly_expiryDate ly = sl_expiryDate lot \<and> jle (ly_quantity ly) (sl_remainingQuantity lot)
     \<and> \<not> jle (ly_quantity ly) (Fin 0)"

lemma jmin_nonNaN: "x \<noteq> NaN \<Longrightarrow> y \<noteq> NaN \<Longrightarrow> jmin x y \<noteq> NaN"
  by (simp add: jmin_def)

lemma allocate_loop_Fin:
  assumes "sl_remainingQuantity lot = Fin b"
  shows "allocate_loop (Fin a) c (lot # lots) =
    (if a \<le> 0 then ([], c, Fin a)
     else if b \<le> 0 then allocate_loop (Fin a) c lots
     else case allocate_loop (jsub (Fin a) (Fin (min a b))) (jadd c (jmul (Fin (min a b)) (sl_costPrice lot))) lots of
       (ls, c', r) \<Rightarrow>
         (\<lparr>ly_lotId = sl_lotId lot, ly_lotNumber = sl_lotNumber lot, ly_quantity = Fin (min a b),
           ly_costPrice = sl_costPrice lot, ly_expiryDate = sl_expiryDate lot\<rparr> # ls, c', r))"
  by (simp add: assms Let_def min_le_iff_disj)

declare allocate_loop.simps(2) [simp del]

lemma allocate_loop_done: "a \<le> 0 \<Longrightarrow> allocate_loop (Fin a) c lots = ([], c, Fin a)"
proof (cases lots)
  case (Cons l ls)
  assume "a \<le> 0"
  then show ?thesis unfolding Cons allocate_loop.simps(2) by simp
qed simp

definition has_stock :: "SelectableLot \<Rightarrow> bool" where
  "has_stock l \<longleftrightarrow> jlt (Fin 0) (sl_remainingQuantity l)"

text \<open>What greedy means: the layers are those of the first lots that hold stock, one each and
  in order; every layer but the last empties its lot; nothing is left unserved unless every
  lot was emptied.\<close>

definition greedy :: "LotSelectionLayer list \<Rightarrow> SelectableLot list \<Rightarrow> jnum \<Rightarrow> bool" where
  "greedy ls lots r \<longleftrightarrow>
     (let us = take (length ls) (filter has_stock lots)
      in list_all2 layer_of ls us
         \<and> map ly_quantity (butlast ls) = map sl_remainingQuantity (butlast us)
         \<and> (jlt (Fin 0) r \<longrightarrow> us = filter has_stock lots \<and> map ly_quantity ls = map sl_remainingQuantity us))"

lemma greedy_skip: "\<not> has_stock lot \<Longrightarrow> greedy ls (lot # lots) r \<longleftrightarrow> greedy ls lots r"
  by (simp add: greedy_def)

lemma greedy_Cons:
  "has_stock lot \<Longrightarrow> greedy ls lots r \<Longrightarrow> layer_of ly lot \<Longrightarrow>
    (ls \<noteq> [] \<or> jlt (Fin 0) r \<Longrightarrow> ly_quantity ly = sl_remainingQuantity lot) \<Longrightarrow> greedy (ly # ls) (lot # lots) r"
  unfolding greedy_def Let_def
  by (cases ls; cases "filter has_stock lots") auto

lemma allocate_loop_greedy:
  assumes "allocate_loop (Fin a) c lots = (ls, c', r)" "wf_num (Fin a)"
    and "\<forall>l \<in> set lots. is_finite (sl_remainingQuantity l)"
  shows "greedy ls lots r \<and> (\<exists>s. r = Fin s \<and> s \<le> a \<and> (0 \<le> a \<longrightarrow> 0 \<le> s))"
  using assms
proof (induction lots arbitrary: a c ls)
  case Nil
  then show ?case by (auto simp: greedy_def)
next
  case (Cons lot lots)
  obtain b where b: "sl_remainingQuantity lot = Fin b" using Cons.prems by (auto simp: is_finite_iff)
  consider "a \<le> 0" | "0 < a" "b \<le> 0" | "0 < a" "0 < b" by linarith
  then show ?case
  proof cases
    case 1
    with Cons.prems b show ?thesis by (auto simp: allocate_loop_Fin greedy_def)
  next
    case 2
    then have "\<not> has_stock lot" by (simp add: has_stock_def b)
    moreover have "greedy ls lots r \<and> (\<exists>s. r = Fin s \<and> s \<le> a \<and> (0 \<le> a \<longrightarrow> 0 \<le> s))"
      using 2 Cons.prems by (intro Cons.IH [of _ c]) (simp_all add: allocate_loop_Fin [OF b])
    ultimately show ?thesis by (simp add: greedy_skip)
  next
    case 3
    then have hs: "has_stock lot" by (simp add: has_stock_def b)
    obtain s where s: "jsub (Fin a) (Fin (min a b)) = Fin s" "0 \<le> s" "s \<le> a" "wf_num (Fin s)"
      using jsub_range [OF Cons.prems(2), of "min a b"] 3 by auto
    let ?ly = "\<lparr>ly_lotId = sl_lotId lot, ly_lotNumber = sl_lotNumber lot, ly_quantity = Fin (min a b),
           ly_costPrice = sl_costPrice lot, ly_expiryDate = sl_expiryDate lot\<rparr>"
    obtain ls1 where rec: "allocate_loop (Fin s) (jadd c (jmul (Fin (min a b)) (sl_costPrice lot))) lots = (ls1, c', r)"
      and ls: "ls = ?ly # ls1"
      using Cons.prems(1) 3 by (auto simp: allocate_loop_Fin [OF b] s(1) split: prod.splits)
    from Cons.IH [OF rec s(4)] Cons.prems(3)
    have IH: "greedy ls1 lots r" "\<exists>v. r = Fin v \<and> v \<le> s \<and> 0 \<le> v" using s(2) by auto
    have ly: "layer_of ?ly lot" using 3 by (simp add: layer_of_def b)
    have full: "ly_quantity ?ly = sl_remainingQuantity lot" if "ls1 \<noteq> [] \<or> jlt (Fin 0) r"
    proof (rule ccontr)
      assume "ly_quantity ?ly \<noteq> sl_remainingQuantity lot"
      then have "min a b = a" by (auto simp: b min_def split: if_splits)
      then have "s = 0" using s(1) by (simp add: jsub_self)
      with rec that show False by (auto simp: allocate_loop_done)
    qed
    have "greedy ls (lot # lots) r" unfolding ls using hs IH(1) ly full by (rule greedy_Cons)
    with IH(2) s show ?thesis by auto
  qed
qed

text \<open>On whole quantities nothing is rounded: the layers serve all that the lots can give.\<close>

definition lot_stock :: "SelectableLot \<Rightarrow> rat" where
  "lot_stock l = max 0 (num_val (sl_remainingQuantity l))"

definition layers_total :: "LotSelectionLayer list \<Rightarrow> rat" where
  "layers_total ls = sum_list (map (num_val \<circ> ly_quantity) ls)"

lemma lot_stock_sum_nonneg: "0 \<le> sum_list (map lot_stock lots)"
  by (rule sum_list_nonneg) (auto simp: lot_stock_def)

lemma lot_stock_sum_Ints:
  "\<forall>l \<in> set ms. \<exists>b. sl_remainingQuantity l = Fin b \<and> b \<in> \<int> \<Longrightarrow> sum_list (map lot_stock ms) \<in> \<int>"
proof (induction ms)
  case Nil
  then show ?case by simp
next
  case (Cons m ms)
  then obtain b where "sl_remainingQuantity m = Fin b" "b \<in> \<int>" by auto
  then have "lot_stock m \<in> \<int>" by (simp add: lot_stock_def max_def)
  moreover have "sum_list (map lot_stock ms) \<in> \<int>" using Cons by simp
  ultimately show ?case by simp
qed

lemma allocate_loop_exact:
  assumes "allocate_loop (Fin a) c lots = (ls, c', r)" "safe_int a" "0 \<le> a"
    and "\<forall>l \<in> set lots. \<exists>b. sl_remainingQuantity l = Fin b \<and> b \<in> \<int>"
  shows "layers_total ls = min a (sum_list (map lot_stock lots)) \<and> r = Fin (a - layers_total ls)"
  using assms
proof (induction lots arbitrary: a c ls)
  case Nil
  then show ?case by (simp add: layers_total_def)
next
  case (Cons lot lots)
  obtain b where b: "sl_remainingQuantity lot = Fin b" "b \<in> \<int>" using Cons.prems by auto
  have nn: "0 \<le> sum_list (map lot_stock lots)" by (rule lot_stock_sum_nonneg)
  consider "a = 0" | "0 < a" "b \<le> 0" | "0 < a" "0 < b" using Cons.prems(3) by linarith
  then show ?case
  proof cases
    case 1
    then have "ls = [] \<and> r = Fin 0" using Cons.prems(1) allocate_loop_done [of a c "lot # lots"] by simp
    moreover have "0 \<le> sum_list (map lot_stock (lot # lots))" by (rule lot_stock_sum_nonneg)
    ultimately show ?thesis using 1 by (simp add: layers_total_def)
  next
    case 2
    have rec: "allocate_loop (Fin a) c lots = (ls, c', r)"
      using Cons.prems 2 by (simp add: allocate_loop_Fin [OF b(1)])
    have "lot_stock lot = 0" using 2 b by (simp add: lot_stock_def)
    moreover have "layers_total ls = min a (sum_list (map lot_stock lots)) \<and> r = Fin (a - layers_total ls)"
      using Cons.prems by (intro Cons.IH [OF rec]) auto
    ultimately show ?thesis by simp
  next
    case 3
    have ai: "a \<in> \<int>" using Cons.prems(2) by (simp add: safe_int_def)
    have mi: "min a b \<in> \<int>" using ai b(2) by (simp add: min_def)
    have si: "safe_int (a - min a b)"
    proof (rule safe_int_between)
      show "a - min a b \<in> \<int>" using ai mi by (rule Ints_diff)
      show "0 \<le> a - min a b" by simp
      show "a - min a b \<le> a" using 3 by simp
    qed (rule Cons.prems(2))
    then have s: "jsub (Fin a) (Fin (min a b)) = Fin (a - min a b)" by (rule jsub_safe)
    obtain ls1 where rec: "allocate_loop (Fin (a - min a b)) (jadd c (jmul (Fin (min a b)) (sl_costPrice lot))) lots = (ls1, c', r)"
      and ls: "layers_total ls = min a b + layers_total ls1"
      using Cons.prems(1) 3 by (auto simp: allocate_loop_Fin [OF b(1)] s layers_total_def split: prod.splits)
    have IH: "layers_total ls1 = min (a - min a b) (sum_list (map lot_stock lots)) \<and> r = Fin (a - min a b - layers_total ls1)"
      using Cons.prems(4) by (intro Cons.IH [OF rec si]) auto
    have lot: "sum_list (map lot_stock (lot # lots)) = b + sum_list (map lot_stock lots)"
      using 3 b by (simp add: lot_stock_def)
    have "layers_total ls = min a (b + sum_list (map lot_stock lots))"
      unfolding ls using IH nn 3 by (simp add: min_def)
    moreover have "r = Fin (a - layers_total ls)" unfolding ls using IH by (simp add: diff_diff_eq)
    ultimately show ?thesis unfolding lot by simp
  qed
qed

subsection \<open>The contract of a selection policy\<close>

text \<open>Both engines filter the eligible lots, order them and allocate; they differ in the
  policy's name and its order.\<close>

definition select_with ::
  "SelectionPolicy \<Rightarrow> (SelectableLot list \<Rightarrow> SelectableLot list) \<Rightarrow> LotSelectionRequest
    \<Rightarrow> (js_exn, LotSelectionResult) result" where
  "select_with policy sortf rq =
     (if truthy_str (rq_specificLotId rq) then
        (case find (\<lambda>l. sl_lotId l = the (rq_specificLotId rq)) (rq_lots rq) of
           None \<Rightarrow> Inr (emptySelectionResult policy (rq_quantity rq))
         | Some lot \<Rightarrow> Inr (allocateFromSortedLots policy [lot] (rq_quantity rq)))
      else
        and_then (filterLotsEligibleForSelection (rq_lots rq) (rq_businessDate rq) (coalesce (rq_minDays rq) (Fin 0)))
          (\<lambda>eligible. Inr (allocateFromSortedLots policy (sortf eligible) (rq_quantity rq))))"

definition eligible_lot :: "LotSelectionRequest \<Rightarrow> SelectableLot \<Rightarrow> bool" where
  "eligible_lot rq l \<longleftrightarrow> l \<in> set (rq_lots rq) \<and> has_stock l
     \<and> isLotEligibleForSale (sl_expiryDate l) (rq_businessDate rq) (coalesce (rq_minDays rq) (Fin 0)) = Inr True"

lemma filterLots_filter:
  assumes "filterLotsEligibleForSelection (rq_lots rq) (rq_businessDate rq) (coalesce (rq_minDays rq) (Fin 0)) = Inr es"
  shows "es = filter (eligible_lot rq) (rq_lots rq)"
proof -
  have "es = filter (\<lambda>l. (if jlt (Fin 0) (sl_remainingQuantity l)
      then isLotEligibleForSale (sl_expiryDate l) (rq_businessDate rq) (coalesce (rq_minDays rq) (Fin 0)) else Inr False) = Inr True)
      (rq_lots rq)"
    using assms unfolding filterLotsEligibleForSelection_def by (rule filter_res_subset)
  also have "\<dots> = filter (eligible_lot rq) (rq_lots rq)"
    by (rule filter_cong) (simp_all add: eligible_lot_def has_stock_def)
  finally show ?thesis .
qed

lemma filterLots_set:
  "filterLotsEligibleForSelection (rq_lots rq) (rq_businessDate rq) (coalesce (rq_minDays rq) (Fin 0)) = Inr es \<Longrightarrow> set es = {l. eligible_lot rq l}"
  by (auto simp: eligible_lot_def dest!: filterLots_filter)

locale lot_selector =
  fixes select :: "LotSelectionRequest \<Rightarrow> (js_exn, LotSelectionResult) result"
    and policy :: SelectionPolicy
    and sortf :: "SelectableLot list \<Rightarrow> SelectableLot list"
    and key :: "SelectableLot \<Rightarrow> 'k::linorder"
  assumes select_eq: "select rq = select_with policy sortf rq"
    and sortf_mset: "mset (sortf ls) = mset ls"
    and sortf_sorted: "sorted (map key (sortf ls))"
    and sortf_stable: "filter (\<lambda>l. key l = k) (sortf ls) = filter (\<lambda>l. key l = k) ls"
begin

lemma sortf_set: "set (sortf ls) = set ls"
  using sortf_mset by (rule mset_eq_setD)

lemma select_allocates:
  assumes "select rq = Inr res" "\<not> truthy_str (rq_specificLotId rq)"
  obtains es where "filterLotsEligibleForSelection (rq_lots rq) (rq_businessDate rq) (coalesce (rq_minDays rq) (Fin 0)) = Inr es"
    "res = allocateFromSortedLots policy (sortf es) (rq_quantity rq)"
  using assms by (auto simp: select_eq select_with_def and_then_Inr_iff)

lemma select_greedy:
  assumes "select rq = Inr res" "\<not> truthy_str (rq_specificLotId rq)"
    and "rq_quantity rq = Fin a" "wf_num (Fin a)"
    and "\<forall>l \<in> set (rq_lots rq). is_finite (sl_remainingQuantity l)"
  shows "\<exists>ls. mset ls = mset (filter (eligible_lot rq) (rq_lots rq)) \<and> sorted (map key ls)
    \<and> (\<forall>k. filter (\<lambda>l. key l = k) ls = filter (\<lambda>l. key l = k \<and> eligible_lot rq l) (rq_lots rq))
    \<and> greedy (rs_layers res) ls (rs_shortfall res)
    \<and> (safe_int a \<and> 0 \<le> a \<and> (\<forall>l \<in> set (rq_lots rq). num_val (sl_remainingQuantity l) \<in> \<int>) \<longrightarrow>
         layers_total (rs_layers res) = min a (sum_list (map lot_stock ls))
       \<and> rs_totalAllocated res = Fin (layers_total (rs_layers res)) \<and> rs_shortfall res = Fin (a - layers_total (rs_layers res)))"
proof -
  from assms(1,2) obtain es where es: "filterLotsEligibleForSelection (rq_lots rq) (rq_businessDate rq) (coalesce (rq_minDays rq) (Fin 0)) = Inr es"
    and res: "res = allocateFromSortedLots policy (sortf es) (rq_quantity rq)" by (rule select_allocates)
  obtain ls c r where run: "allocate_loop (Fin a) (Fin 0) (sortf es) = (ls, c, r)" by (metis prod_cases3)
  have set: "set (sortf es) = {l. eligible_lot rq l}" using filterLots_set [OF es] by (simp add: sortf_set)
  have fin: "\<forall>l \<in> set (sortf es). is_finite (sl_remainingQuantity l)" using assms(5) by (auto simp: set eligible_lot_def)
  from allocate_loop_greedy [OF run assms(4) fin]
  have g: "greedy ls (sortf es) r" and r: "\<exists>s. r = Fin s" by auto
  have "jlt (Fin 0) (jmax (Fin 0) r) \<longleftrightarrow> jlt (Fin 0) r" using r by auto
  with g have "greedy ls (sortf es) (jmax (Fin 0) r)" by (simp add: greedy_def)
  moreover have "layers_total ls = min a (sum_list (map lot_stock (sortf es)))
      \<and> rs_totalAllocated res = Fin (layers_total ls) \<and> rs_shortfall res = Fin (a - layers_total ls)"
    if w: "safe_int a" "0 \<le> a" "\<forall>l \<in> set (rq_lots rq). num_val (sl_remainingQuantity l) \<in> \<int>"
  proof -
    have int: "\<forall>l \<in> set (sortf es). \<exists>b. sl_remainingQuantity l = Fin b \<and> b \<in> \<int>"
      using fin w(3) by (force simp: set eligible_lot_def is_finite_iff)
    note e = allocate_loop_exact [OF run w(1,2) int]
    have b: "0 \<le> layers_total ls" "layers_total ls \<le> a" using e w(2) lot_stock_sum_nonneg [of "sortf es"] by auto
    have "layers_total ls \<in> \<int>" using e w(1) lot_stock_sum_Ints [OF int] by (simp add: min_def safe_int_def)
    then have "safe_int (layers_total ls)" using b w(1) by (rule safe_int_between)
    then have "jsub (Fin a) (Fin (a - layers_total ls)) = Fin (layers_total ls)" by (subst jsub_safe) simp_all
    then show ?thesis using e b run by (simp add: res allocateFromSortedLots_def assms(3))
  qed
  moreover have "filter (\<lambda>l. key l = k) (sortf es) = filter (\<lambda>l. key l = k \<and> eligible_lot rq l) (rq_lots rq)" for k
    unfolding sortf_stable filterLots_filter [OF es] filter_filter by (rule filter_cong) auto
  moreover have "rs_layers res = ls" "rs_shortfall res = jmax (Fin 0) r" using run by (simp_all add: res allocateFromSortedLots_def assms(3))
  ultimately show ?thesis
    using sortf_sorted [of es] sortf_mset [of es] filterLots_filter [OF es] by (intro exI [of _ "sortf es"]) simp
qed

lemma select_exact:
  assumes "select rq = Inr res" "\<not> truthy_str (rq_specificLotId rq)"
    and "rq_quantity rq = Fin a" "safe_int a" "0 \<le> a"
    and "\<forall>l \<in> set (rq_lots rq). \<exists>b. sl_remainingQuantity l = Fin b \<and> b \<in> \<int>"
  shows "\<exists>t. layers_total (rs_layers res) = t \<and> rs_totalAllocated res = Fin t \<and> rs_shortfall res = Fin (a - t) \<and> 0 \<le> t \<and> t \<le> a"
proof -
  from assms(1,2) obtain es where es: "filterLotsEligibleForSelection (rq_lots rq) (rq_businessDate rq) (coalesce (rq_minDays rq) (Fin 0)) = Inr es"
    and res: "res = allocateFromSortedLots policy (sortf es) (rq_quantity rq)" by (rule select_allocates)
  obtain ls c r where run: "allocate_loop (Fin a) (Fin 0) (sortf es) = (ls, c, r)" by (metis prod_cases3)
  have set: "set (sortf es) = {l. eligible_lot rq l}" using filterLots_set [OF es] by (simp add: sortf_set)
  have int: "\<forall>l \<in> set (sortf es). \<exists>b. sl_remainingQuantity l = Fin b \<and> b \<in> \<int>" using assms(6) by (auto simp: set eligible_lot_def)
  from allocate_loop_exact [OF run assms(4,5) int]
  have t: "layers_total ls = min a (sum_list (map lot_stock (sortf es)))" and r: "r = Fin (a - layers_total ls)" by auto
  have b: "0 \<le> layers_total ls" "layers_total ls \<le> a" using t assms(5) lot_stock_sum_nonneg [of "sortf es"] by auto
  have ti: "layers_total ls \<in> \<int>"
    unfolding t using assms(4) lot_stock_sum_Ints [OF int] by (simp add: min_def safe_int_def)
  have "safe_int (layers_total ls)" by (rule safe_int_between [OF ti b assms(4)])
  then have "jsub (Fin a) (Fin (a - layers_total ls)) = Fin (layers_total ls)" by (subst jsub_safe) simp_all
  then show ?thesis using run b by (simp add: res allocateFromSortedLots_def assms(3) r)
qed

text \<open>Every layer comes from a lot that may be sold.\<close>

lemma select_eligible:
  assumes "select rq = Inr res" "\<not> truthy_str (rq_specificLotId rq)"
    and "rq_quantity rq = Fin a" "wf_num (Fin a)"
    and "\<forall>l \<in> set (rq_lots rq). is_finite (sl_remainingQuantity l)"
    and "ly \<in> set (rs_layers res)"
  shows "\<exists>l. eligible_lot rq l \<and> layer_of ly l"
proof -
  obtain ls where m: "mset ls = mset (filter (eligible_lot rq) (rq_lots rq))" and g: "greedy (rs_layers res) ls (rs_shortfall res)"
    using select_greedy [OF assms(1-5)] by blast
  have ls: "set ls \<subseteq> {l. eligible_lot rq l}" using mset_eq_setD [OF m] by auto
  from g have "list_all2 layer_of (rs_layers res) (take (length (rs_layers res)) (filter has_stock ls))"
    by (simp add: greedy_def Let_def)
  with assms(6) obtain l where "l \<in> set (take (length (rs_layers res)) (filter has_stock ls))" "layer_of ly l"
    by (metis in_set_conv_nth list_all2_conv_all_nth)
  then have "l \<in> set ls" by (auto dest: in_set_takeD)
  then have "eligible_lot rq l" using ls by blast
  then show ?thesis using \<open>layer_of ly l\<close> by blast
qed

end

interpretation fefo_sel: lot_selector "fefo_select ck" FEFO "sortLotsFefo ck" "fefo_key ck" for ck
  by unfold_locales
    (simp_all add: fefo_select_def select_with_def sortLotsFefo_sorted sortLotsFefo_def fefo.js_sort_sort_key sort_key_stable)

interpretation fifo_sel: lot_selector "fifo_select ck" FIFO "sortLotsFifo ck" "fifo_key ck" for ck
  by unfold_locales
    (simp_all add: fifo_select_def select_with_def sortLotsFifo_sorted sortLotsFifo_def fifo.js_sort_sort_key sort_key_stable)

subsection \<open>Properties\<close>

text \<open>C35. A FEFO selection without a named lot serves the request along the FEFO order: the eligible lots of the request,
  each once, are arranged by expiry, then receipt, then lot number, lots equal in these as they stand in the
  request; the layers are those of the first lots of this arrangement, one each and in order, none takes more than
  its lot holds, every layer but the last empties its lot, and if a shortfall remains then every eligible lot was
  emptied. For whole quantities up to \<open>2^53\<close> the layers add up to the smaller of the requested quantity and
  what the eligible lots hold; that is the allocation reported, and the shortfall is the rest of the request.\<close>

theorem fefo_select_discipline:
  assumes "fefo_select ck rq = Inr res" "\<not> truthy_str (rq_specificLotId rq)"
    and "rq_quantity rq = Fin a" "wf_num (Fin a)"
    and "\<forall>l \<in> set (rq_lots rq). is_finite (sl_remainingQuantity l)"
  shows "\<exists>ls. mset ls = mset (filter (eligible_lot rq) (rq_lots rq)) \<and> sorted (map (fefo_key ck) ls)
    \<and> (\<forall>k. filter (\<lambda>l. fefo_key ck l = k) ls = filter (\<lambda>l. fefo_key ck l = k \<and> eligible_lot rq l) (rq_lots rq))
    \<and> greedy (rs_layers res) ls (rs_shortfall res)
    \<and> (safe_int a \<and> 0 \<le> a \<and> (\<forall>l \<in> set (rq_lots rq). num_val (sl_remainingQuantity l) \<in> \<int>) \<longrightarrow>
         layers_total (rs_layers res) = min a (sum_list (map lot_stock ls))
       \<and> rs_totalAllocated res = Fin (layers_total (rs_layers res)) \<and> rs_shortfall res = Fin (a - layers_total (rs_layers res)))"
  using assms by (rule fefo_sel.select_greedy)

text \<open>Two lots of one product: the later-received one expires first and is used first.\<close>

definition sample_lot :: "string \<Rightarrow> rat \<Rightarrow> string \<Rightarrow> SelectableLot" where
  "sample_lot i q e =
     \<lparr>sl_lotId = i, sl_lotNumber = i, sl_productId = ''p1'', sl_remainingQuantity = Fin q,
      sl_costPrice = Fin 100, sl_expiryDate = Some e, sl_receivedDate = Some ''2026-01-01'',
      sl_storeLocationId = None, sl_productLotId = None\<rparr>"

definition sample_request :: LotSelectionRequest where
  "sample_request =
     \<lparr>rq_policy = FEFO,
      rq_lots = [sample_lot ''A'' 5 ''2026-12-01'', sample_lot ''B'' 3 ''2026-11-01'', sample_lot ''C'' 9 ''2026-02-01''],
      rq_quantity = Fin 6, rq_businessDate = ''2026-06-01'', rq_minDays = None, rq_specificLotId = None\<rparr>"

definition sample_result :: LotSelectionResult where
  "sample_result =
     \<lparr>rs_policy = FEFO,
      rs_layers =
        [\<lparr>ly_lotId = ''B'', ly_lotNumber = ''B'', ly_quantity = Fin 3, ly_costPrice = Fin 100, ly_expiryDate = Some ''2026-11-01''\<rparr>,
         \<lparr>ly_lotId = ''A'', ly_lotNumber = ''A'', ly_quantity = Fin 3, ly_costPrice = Fin 100, ly_expiryDate = Some ''2026-12-01''\<rparr>],
      rs_totalAllocated = Fin 6, rs_totalCost = Fin 600, rs_shortfall = Fin 0\<rparr>"

lemma sample_select: "fefo_select (\<lambda>s. map of_char s) sample_request = Inr sample_result"
  by code_simp

lemma sample_request_facts:
  "\<not> truthy_str (rq_specificLotId sample_request)" "rq_quantity sample_request = Fin 6" "safe_int 6"
  "\<forall>l \<in> set (rq_lots sample_request). \<exists>b. sl_remainingQuantity l = Fin b \<and> b \<in> \<int>"
  by (simp_all add: sample_request_def sample_lot_def safe_int_def)

theorem fefo_select_discipline_witness:
  "\<exists>ls. mset ls = mset (filter (eligible_lot sample_request) (rq_lots sample_request)) \<and> sorted (map (fefo_key (\<lambda>s. map of_char s)) ls)
    \<and> greedy (rs_layers sample_result) ls (rs_shortfall sample_result)
    \<and> layers_total (rs_layers sample_result) = min 6 (sum_list (map lot_stock ls))"
proof -
  have w: "wf_num (Fin 6)" by (rule safe_int_wf [OF sample_request_facts(3)])
  have f: "\<forall>l \<in> set (rq_lots sample_request). is_finite (sl_remainingQuantity l)"
    "\<forall>l \<in> set (rq_lots sample_request). num_val (sl_remainingQuantity l) \<in> \<int>"
    by (simp_all add: sample_request_def sample_lot_def)
  show ?thesis using fefo_select_discipline [OF sample_select sample_request_facts(1,2) w f(1)] f(2) sample_request_facts(3) by auto
qed

text \<open>On whole quantities up to \<open>2^53\<close> a FEFO selection loses nothing to rounding: the
  layers add up to the reported allocation, and allocation and shortfall add up to the
  request.\<close>

theorem fefo_select_exact:
  assumes "fefo_select ck rq = Inr res" "\<not> truthy_str (rq_specificLotId rq)"
    and "rq_quantity rq = Fin a" "safe_int a" "0 \<le> a"
    and "\<forall>l \<in> set (rq_lots rq). \<exists>b. sl_remainingQuantity l = Fin b \<and> b \<in> \<int>"
  shows "\<exists>t. layers_total (rs_layers res) = t \<and> rs_totalAllocated res = Fin t
    \<and> rs_shortfall res = Fin (a - t) \<and> 0 \<le> t \<and> t \<le> a"
  using assms by (rule fefo_sel.select_exact)

theorem fefo_select_exact_witness:
  "\<exists>t. layers_total (rs_layers sample_result) = t \<and> rs_totalAllocated sample_result = Fin t
    \<and> rs_shortfall sample_result = Fin (6 - t) \<and> 0 \<le> t \<and> t \<le> 6"
  by (rule fefo_select_exact [OF sample_select]) (use sample_request_facts in auto)

text \<open>Neither engine sells from a lot that has reached its expiry date: a layer of a FIFO
  selection with no named lot and no sell buffer comes from a lot of the request that holds
  stock and whose expiry day, when it has one, is after the business day.\<close>

theorem fifo_select_unexpired:
  assumes "fifo_select ck rq = Inr res" "\<not> truthy_str (rq_specificLotId rq)"
    and "rq_quantity rq = Fin a" "wf_num (Fin a)"
    and "\<forall>l \<in> set (rq_lots rq). is_finite (sl_remainingQuantity l)"
    and "\<forall>l \<in> set (rq_lots rq). \<forall>e. sl_expiryDate l = Some e \<longrightarrow> is_iso e"
    and "is_iso (rq_businessDate rq)" "rq_minDays rq = None" "ly \<in> set (rs_layers res)"
  shows "\<exists>l \<in> set (rq_lots rq). layer_of ly l \<and> has_stock l
    \<and> (\<forall>e. sl_expiryDate l = Some e \<longrightarrow> day_of_string (rq_businessDate rq) < day_of_string e)"
proof -
  obtain l where l: "eligible_lot rq l" "layer_of ly l"
    using fifo_sel.select_eligible [OF assms(1-5,9)] by blast
  then have "day_of_string (rq_businessDate rq) < day_of_string e" if "sl_expiryDate l = Some e" for e
    using that assms(6-8) by (auto simp: eligible_lot_def eligible_no_buffer)
  with l show ?thesis by (auto simp: eligible_lot_def)
qed

lemma sample_select_fifo: "\<exists>res. fifo_select (\<lambda>s. map of_char s) sample_request = Inr res \<and> ly_lotId (hd (rs_layers res)) = ''A'' \<and> rs_layers res \<noteq> []"
  by (rule exI [of _ "case fifo_select (\<lambda>s. map of_char s) sample_request of Inr r \<Rightarrow> r"]) code_simp

theorem fifo_select_unexpired_witness:
  "\<exists>ly. ly_lotId ly = ''A'' \<and> (\<exists>l \<in> set (rq_lots sample_request). layer_of ly l \<and> has_stock l
    \<and> (\<forall>e. sl_expiryDate l = Some e \<longrightarrow> day_of_string (rq_businessDate sample_request) < day_of_string e))"
proof -
  obtain res where res: "fifo_select (\<lambda>s. map of_char s) sample_request = Inr res" "ly_lotId (hd (rs_layers res)) = ''A''" "rs_layers res \<noteq> []"
    using sample_select_fifo by blast
  have iso: "is_iso ''2026-12-01''" "is_iso ''2026-11-01''" "is_iso ''2026-02-01''" "is_iso ''2026-06-01''"
    by (rule is_isoI [of 2026 12 1], code_simp, code_simp, rule is_isoI [of 2026 11 1], code_simp, code_simp,
        rule is_isoI [of 2026 2 1], code_simp, code_simp, rule is_isoI [of 2026 6 1], code_simp, code_simp)
  have "\<exists>l \<in> set (rq_lots sample_request). layer_of (hd (rs_layers res)) l \<and> has_stock l
    \<and> (\<forall>e. sl_expiryDate l = Some e \<longrightarrow> day_of_string (rq_businessDate sample_request) < day_of_string e)"
  proof (rule fifo_select_unexpired [OF res(1)])
    show "wf_num (Fin 6)" by (rule safe_int_wf [OF sample_request_facts(3)])
  qed (use iso res sample_request_facts in \<open>auto simp: sample_request_def sample_lot_def\<close>)
  with res(2) show ?thesis by blast
qed

end
