(* ===== verification/Authorization.thy ===== *)
theory Authorization imports JsDate
begin

section \<open>Authorization policies\<close>

text \<open>
  \<open>shared/authorization\<close>: the legacy role fallback, the seed grants of the system roles, the
  permission decision with its chain of policies, and the sale, discount, document and return
  policies that are decided on a permission set. A permission set of the code is a HOL set of
  keys; an iterable of keys is a list. A nullable role name is a string option.
\<close>

subsection \<open>Types (\<open>types.ts\<close>)\<close>

record AuthorizationSubject =
  su_id :: string
  su_legacyRole :: "string option"

datatype ScopeType = SCOPE_global | SCOPE_organization | SCOPE_branch | SCOPE_warehouse

record AuthorizationScope =
  sc_scopeType :: "ScopeType option"
  sc_scopeId :: "string option"

text \<open>Of \<open>facts\<close> the policies read these four, each cast to the type given here; nothing reads
  the open-ended \<open>resource\<close>.\<close>

record PolicyFacts =
  fa_storeId :: "string option"
  fa_sourceStoreId :: "string option"
  fa_destinationStoreId :: "string option"
  fa_allowedStoreIds :: "string list option"

record PolicyContext =
  pc_scope :: "AuthorizationScope option"
  pc_facts :: "PolicyFacts option"

record AuthorizeInput =
  in_permission :: string
  in_scope :: "AuthorizationScope option"
  in_context :: "PolicyContext option"

datatype DeniedReasonCode = NOT_AUTHENTICATED | PERMISSION_DENIED | POLICY_DENIED | INVALID_PERMISSION

record AuthorizationResult =
  ar_allowed :: bool
  ar_permission :: string
  ar_reason :: "DeniedReasonCode option"
  ar_message :: "string option"

definition granted :: "string \<Rightarrow> AuthorizationResult" where
  "granted k = \<lparr>ar_allowed = True, ar_permission = k, ar_reason = None, ar_message = None\<rparr>"

definition denied :: "string \<Rightarrow> DeniedReasonCode \<Rightarrow> string \<Rightarrow> AuthorizationResult" where
  "denied k r m = \<lparr>ar_allowed = False, ar_permission = k, ar_reason = Some r, ar_message = Some m\<rparr>"

lemma granted_denied_simps [simp]:
  "ar_allowed (granted k)" "\<not> ar_allowed (denied k r m)" "ar_permission (granted k) = k"
  "ar_permission (denied k r m) = k" "ar_reason (denied k r m) = Some r"
  by (simp_all add: granted_def denied_def)

subsection \<open>Legacy role fallback (\<open>legacyRoleFallback.ts\<close>)\<close>

definition LEGACY_MANAGER_MODULES :: "string list" where
  "LEGACY_MANAGER_MODULES =
   [''sales'', ''inventory'', ''purchasing'', ''customers'', ''suppliers'', ''reports'', ''pos'',
   ''accounting'', ''banking'', ''delivery'', ''settings'', ''hr'', ''expenses'', ''quotations'',
   ''crm'', ''orders'', ''restaurant'', ''distribution'', ''targets'']"

definition LEGACY_CASHIER_PERMISSIONS :: "string list" where
  "LEGACY_CASHIER_PERMISSIONS =
   [''pos.read'', ''pos.create'', ''sales.read'', ''sales.create'', ''customers.read'',
   ''customers.create'', ''inventory.read'', ''suppliers.read'', ''delivery.read'',
   ''settings.read'', ''quotations.read'', ''quotations.create'', ''orders.read'',
   ''orders.create'', ''orders.pay'', ''orders.cancel'', ''restaurant.read'', ''restaurant.order'',
   ''restaurant.kitchen'', ''restaurant.pay'', ''restaurant.edit_others'', ''sales.reprint'',
   ''distribution.read'', ''distribution.create'', ''targets.read'']"

definition LEGACY_STAFF_EXTRA_PERMISSIONS :: "string list" where
  "LEGACY_STAFF_EXTRA_PERMISSIONS =
   [''orders.create'', ''pos.create'', ''restaurant.order'', ''restaurant.read'']"

text \<open>The first segment of a dotted key.\<close>

definition key_module :: "string \<Rightarrow> string" where
  "key_module k = hd (js_split CHR ''.'' k)"

definition LEGACY_ROLE_PERMISSIONS :: "(string \<times> (string \<Rightarrow> bool)) list" where
  "LEGACY_ROLE_PERMISSIONS =
     [(''ADMIN'', \<lambda>k. True),
      (''MANAGER'', \<lambda>k. k \<noteq> ''restaurant.pay'' \<and> k \<noteq> ''sales.gift'' \<and> key_module k \<in> set LEGACY_MANAGER_MODULES),
      (''CASHIER'', \<lambda>k. k \<in> set LEGACY_CASHIER_PERMISSIONS),
      (''STAFF'', \<lambda>k. js_ends_with k ''.read'' \<or> k \<in> set LEGACY_STAFF_EXTRA_PERMISSIONS)]"

text \<open>The upper-case role is the property name of the table; no inherited property of an object
  has an upper-case name, so the lookup is the one in the list.\<close>

definition legacyRoleGrantsPermission :: "string option \<Rightarrow> string \<Rightarrow> bool" where
  "legacyRoleGrantsPermission role k =
     (case role of None \<Rightarrow> False
      | Some r \<Rightarrow> if r = [] then False
                 else case map_of LEGACY_ROLE_PERMISSIONS (js_upper r) of
                        Some checker \<Rightarrow> checker k | None \<Rightarrow> False)"

definition isKnownLegacyRole :: "string option \<Rightarrow> bool" where
  "isKnownLegacyRole role =
     (case role of None \<Rightarrow> False
      | Some r \<Rightarrow> if r = [] then False else map_of LEGACY_ROLE_PERMISSIONS (js_upper r) \<noteq> None)"

subsection \<open>Permission evaluation (\<open>permissionEvaluation.ts\<close>)\<close>

definition hasPermissionInSet :: "string set \<Rightarrow> string \<Rightarrow> bool" where
  "hasPermissionInSet ps k \<longleftrightarrow> k \<in> ps"

definition evaluatePermission :: "AuthorizationSubject \<Rightarrow> string \<Rightarrow> string set \<Rightarrow> bool \<Rightarrow> AuthorizationResult" where
  "evaluatePermission subject k ps useLegacyFallback =
     (if hasPermissionInSet ps k then granted k
      else if map_option js_upper (su_legacyRole subject) = Some ''ADMIN'' then granted k
      else if useLegacyFallback \<and> legacyRoleGrantsPermission (su_legacyRole subject) k then granted k
      else denied k PERMISSION_DENIED (''Missing permission: '' @ k))"

type_synonym PolicyEvaluator = "AuthorizationSubject \<Rightarrow> AuthorizeInput \<Rightarrow> AuthorizationResult option"

text \<open>The loop over the evaluators: the first refusal is the answer.\<close>

fun run_policies ::
  "AuthorizationSubject \<Rightarrow> AuthorizeInput \<Rightarrow> AuthorizationResult \<Rightarrow> PolicyEvaluator list \<Rightarrow> AuthorizationResult" where
  "run_policies s i r [] = r"
| "run_policies s i r (e # es) =
     (case e s i of
        Some d \<Rightarrow> if \<not> ar_allowed d then d else run_policies s i r es
      | None \<Rightarrow> run_policies s i r es)"

definition authorizeFromContext ::
  "AuthorizationSubject \<Rightarrow> AuthorizeInput \<Rightarrow> string set \<Rightarrow> PolicyEvaluator list \<Rightarrow> bool \<Rightarrow> AuthorizationResult" where
  "authorizeFromContext subject i ps evaluators useLegacyFallback =
     (let permResult = evaluatePermission subject (in_permission i) ps useLegacyFallback
      in if \<not> ar_allowed permResult then permResult
         else if in_context i = None \<and> evaluators = [] then permResult
         else run_policies subject i permResult evaluators)"

definition formatDeniedReason :: "AuthorizationResult \<Rightarrow> string" where
  "formatDeniedReason r =
     (if ar_allowed r then []
      else case ar_reason r of
        Some NOT_AUTHENTICATED \<Rightarrow> ''Authentication required''
      | Some POLICY_DENIED \<Rightarrow> coalesce (ar_message r) ''Policy denied this action''
      | Some INVALID_PERMISSION \<Rightarrow> coalesce (ar_message r) ''Invalid permission key''
      | _ \<Rightarrow> coalesce (ar_message r) (''Missing permission: '' @ ar_permission r))"

text \<open>\<open>input.context?.facts?.f\<close>\<close>

definition input_fact :: "(PolicyFacts \<Rightarrow> 'a option) \<Rightarrow> AuthorizeInput \<Rightarrow> 'a option" where
  "input_fact f i = Option.bind (in_context i) (\<lambda>c. Option.bind (pc_facts c) f)"

definition evaluateStoreAccessPolicy :: PolicyEvaluator where
  "evaluateStoreAccessPolicy subject i =
     (let storeId = input_fact fa_storeId i; allowedStoreIds = input_fact fa_allowedStoreIds i
      in case allowedStoreIds of
           None \<Rightarrow> None
         | Some ids \<Rightarrow>
             if \<not> truthy_str storeId then None
             else if the storeId \<notin> set ids
             then Some (denied (in_permission i) POLICY_DENIED ''No access to the requested store'')
             else None)"

definition evaluateTransferStorePolicy :: PolicyEvaluator where
  "evaluateTransferStorePolicy subject i =
     (let sourceStoreId = input_fact fa_sourceStoreId i; destStoreId = input_fact fa_destinationStoreId i
      in case input_fact fa_allowedStoreIds i of
           None \<Rightarrow> None
         | Some ids \<Rightarrow>
             if truthy_str sourceStoreId \<and> the sourceStoreId \<notin> set ids
             then Some (denied (in_permission i) POLICY_DENIED ''No access to source store'')
             else if truthy_str destStoreId \<and> the destStoreId \<notin> set ids
             then Some (denied (in_permission i) POLICY_DENIED ''No access to destination store'')
             else None)"

definition DEFAULT_POLICY_EVALUATORS :: "PolicyEvaluator list" where
  "DEFAULT_POLICY_EVALUATORS = [evaluateStoreAccessPolicy, evaluateTransferStorePolicy]"

subsection \<open>Discount limits (\<open>discountPolicy.ts\<close>)\<close>

definition DISCOUNT_LIMIT_TIERS :: "(string \<times> rat) list" where
  "DISCOUNT_LIMIT_TIERS =
     [(''sales.approve'', 100), (''pos.approve'', 50), (''pos.create'', 10), (''sales.create'', 10)]"

definition DEFAULT_DISCOUNT_LIMIT_PERCENT :: rat where
  "DEFAULT_DISCOUNT_LIMIT_PERCENT = 5"

fun max_tier :: "(string \<Rightarrow> bool) \<Rightarrow> rat \<Rightarrow> (string \<times> rat) list \<Rightarrow> rat" where
  "max_tier has m [] = m"
| "max_tier has m ((k, p) # ts) = max_tier has (if has k then max m p else m) ts"

definition resolveDiscountLimitPercent :: "(string \<Rightarrow> bool) \<Rightarrow> rat" where
  "resolveDiscountLimitPercent has =
     (let m = max_tier has 0 DISCOUNT_LIMIT_TIERS in if m > 0 then m else DEFAULT_DISCOUNT_LIMIT_PERCENT)"

definition isDiscountWithinLimit :: "jnum \<Rightarrow> rat \<Rightarrow> bool" where
  "isDiscountWithinLimit d m = jle d (Fin m)"

subsection \<open>Sales (\<open>salesPolicy.ts\<close>)\<close>

definition SALE_FINANCIAL_FIELDS :: "string list" where
  "SALE_FINANCIAL_FIELDS = [''totalCost'', ''profit'', ''profitMargin'', ''totalProfit'']"

definition FINANCIAL_VIEW_PERMISSIONS :: "string list" where
  "FINANCIAL_VIEW_PERMISSIONS = [''reports.financial_view'', ''sales.approve'', ''accounting.read'']"

definition canViewSaleFinancials :: "string list \<Rightarrow> string option \<Rightarrow> bool" where
  "canViewSaleFinancials ps legacyRole =
     (if \<exists>p \<in> set FINANCIAL_VIEW_PERMISSIONS. p \<in> set ps then True
      else if ps = [] \<and> truthy_str legacyRole
      then (let r = js_upper (the legacyRole) in r = ''ADMIN'' \<or> r = ''MANAGER'')
      else False)"

text \<open>An object is the list of its own properties.\<close>

definition sanitizeSaleFinancialFields ::
  "(string \<times> 'v) list \<Rightarrow> string list \<Rightarrow> string option \<Rightarrow> (string \<times> 'v) list" where
  "sanitizeSaleFinancialFields data ps legacyRole =
     (if canViewSaleFinancials ps legacyRole then data
      else filter (\<lambda>(f, v). f \<notin> set SALE_FINANCIAL_FIELDS) data)"

definition shouldRestrictSalesToOwnUser :: "string list \<Rightarrow> string option \<Rightarrow> bool" where
  "shouldRestrictSalesToOwnUser ps legacyRole =
     (if ''sales.read'' \<in> set ps then False
      else if ps \<noteq> [] then ''sales.create'' \<in> set ps \<or> ''pos.create'' \<in> set ps \<or> ''sales.reprint'' \<in> set ps
      else map_option js_upper legacyRole = Some ''CASHIER'')"

definition shouldLockSalesToBusinessDay :: "string list \<Rightarrow> string option \<Rightarrow> bool" where
  "shouldLockSalesToBusinessDay ps legacyRole =
     (if js_upper (str_or legacyRole []) = ''CASHIER'' then True
      else ''sales.read'' \<in> set ps \<and> (''pos.create'' \<in> set ps \<or> ''sales.create'' \<in> set ps)
        \<and> ''restaurant.pay'' \<in> set ps \<and> ''accounting.read'' \<notin> set ps \<and> ''sales.approve'' \<notin> set ps
        \<and> ''admin.update'' \<notin> set ps)"

definition canIssueGiftSale :: "string list \<Rightarrow> string option \<Rightarrow> bool" where
  "canIssueGiftSale ps legacyRole =
     (if js_upper (str_or legacyRole []) = ''ADMIN'' then True
      else ''sales.gift'' \<in> set ps \<and> ''admin.update'' \<in> set ps)"

datatype RefundType = RT_REFUND | RT_EXCHANGE

definition canProcessRefundType :: "RefundType \<Rightarrow> string list \<Rightarrow> string option \<Rightarrow> bool" where
  "canProcessRefundType t ps legacyRole =
     (if ps \<noteq> [] then
        (if t = RT_EXCHANGE then ''sales.exchange'' \<in> set ps \<or> ''sales.refund'' \<in> set ps
         else ''sales.refund'' \<in> set ps)
      else if t = RT_EXCHANGE then
        legacyRoleGrantsPermission legacyRole ''sales.exchange'' \<or> legacyRoleGrantsPermission legacyRole ''sales.refund''
      else legacyRoleGrantsPermission legacyRole ''sales.refund'')"

subsection \<open>Returns of aged sales (\<open>agedSaleReturnPolicy.ts\<close>)\<close>

definition AGED_SALE_RETURN_DAYS :: jnum where
  "AGED_SALE_RETURN_DAYS = Fin 30"

definition isAbsoluteAdminRole :: "string option \<Rightarrow> bool" where
  "isAbsoluteAdminRole role = (let r = js_upper (str_or role []) in r = ''ADMIN'' \<or> r = ''SUPER_ADMIN'')"

definition calendarDaysBetween :: "string \<Rightarrow> string \<Rightarrow> jnum" where
  "calendarDaysBetween saleDate asOfDate =
     jfloor (day_quotient (utc_of_string (take 10 asOfDate)) (utc_of_string (take 10 saleDate)))"

definition isAgedSaleReturn :: "string \<Rightarrow> string \<Rightarrow> jnum \<Rightarrow> bool" where
  "isAgedSaleReturn saleDate asOfDate limitDays = jlt limitDays (calendarDaysBetween saleDate asOfDate)"

record AgedSaleReturnDecision =
  ad_allowed :: bool
  ad_ageDays :: jnum
  ad_requiresAdmin :: bool

definition canProcessAgedSaleReturn ::
  "string \<Rightarrow> string \<Rightarrow> string option \<Rightarrow> jnum option \<Rightarrow> AgedSaleReturnDecision" where
  "canProcessAgedSaleReturn saleDate asOfDate actorRole limitDays =
     (let ageDays = calendarDaysBetween saleDate asOfDate;
          limit = coalesce limitDays AGED_SALE_RETURN_DAYS;
          requiresAdmin = jlt limit ageDays
      in if \<not> requiresAdmin then \<lparr>ad_allowed = True, ad_ageDays = ageDays, ad_requiresAdmin = False\<rparr>
         else \<lparr>ad_allowed = isAbsoluteAdminRole actorRole, ad_ageDays = ageDays, ad_requiresAdmin = True\<rparr>)"

subsection \<open>Seed grants of the system roles (\<open>systemRoleGrants.ts\<close>)\<close>

definition SYSTEM_MANAGER_MODULES :: "string list" where
  "SYSTEM_MANAGER_MODULES = LEGACY_MANAGER_MODULES"

definition SYSTEM_ACCOUNTANT_MODULES :: "string list" where
  "SYSTEM_ACCOUNTANT_MODULES =
   [''accounting'', ''banking'', ''reports'', ''expenses'', ''orders'']"

definition SYSTEM_ACCOUNTANT_EXTRA_KEYS :: "string list" where
  "SYSTEM_ACCOUNTANT_EXTRA_KEYS =
   [''pos.read'', ''pos.create'', ''pos.void'', ''sales.read'', ''sales.create'', ''sales.update'',
   ''sales.void'', ''sales.refund'', ''sales.approve'', ''sales.tax_override'',
   ''sales.tax_restatement'', ''sales.export'', ''purchasing.read'', ''purchasing.create'',
   ''customers.read'', ''customers.create'', ''customers.export'', ''customers.update'',
   ''customers.adjust'', ''suppliers.read'', ''suppliers.create'', ''suppliers.update'',
   ''corrections.read'', ''corrections.execute'', ''inventory.read'', ''settings.read'',
   ''quotations.read'', ''distribution.read'', ''restaurant.read'', ''restaurant.order'',
   ''restaurant.kitchen'', ''restaurant.pay'']"

definition SYSTEM_CASHIER_PERMISSION_KEYS :: "string list" where
  "SYSTEM_CASHIER_PERMISSION_KEYS =
   [''pos.read'', ''pos.create'', ''sales.read'', ''sales.create'', ''customers.read'',
   ''customers.create'', ''inventory.read'', ''delivery.read'', ''settings.read'',
   ''quotations.read'', ''quotations.create'', ''orders.read'', ''orders.pay'', ''orders.cancel'',
   ''restaurant.read'', ''restaurant.order'', ''restaurant.kitchen'', ''restaurant.pay'',
   ''restaurant.edit_others'', ''reports.sales_view'', ''expenses.read'', ''expenses.create'',
   ''targets.read'']"

definition SYSTEM_WAITER_PERMISSION_KEYS :: "string list" where
  "SYSTEM_WAITER_PERMISSION_KEYS =
   [''restaurant.read'', ''restaurant.order'', ''customers.read'', ''customers.create'']"

record CatalogPermission =
  cp_key :: string
  cp_module :: string
  cp_action :: "string option"

definition isSystemManagerPermission :: "CatalogPermission \<Rightarrow> bool" where
  "isSystemManagerPermission p =
     (if cp_key p = ''restaurant.pay'' then False
      else if cp_key p = ''sales.gift'' then False
      else cp_module p \<in> set SYSTEM_MANAGER_MODULES)"

definition isSystemAccountantPermission :: "CatalogPermission \<Rightarrow> bool" where
  "isSystemAccountantPermission p \<longleftrightarrow>
     cp_module p \<in> set SYSTEM_ACCOUNTANT_MODULES \<or> cp_key p \<in> set SYSTEM_ACCOUNTANT_EXTRA_KEYS"

definition isSystemCashierPermission :: "CatalogPermission \<Rightarrow> bool" where
  "isSystemCashierPermission p \<longleftrightarrow> cp_key p \<in> set SYSTEM_CASHIER_PERMISSION_KEYS"

definition isSystemWaiterPermission :: "CatalogPermission \<Rightarrow> bool" where
  "isSystemWaiterPermission p \<longleftrightarrow> cp_key p \<in> set SYSTEM_WAITER_PERMISSION_KEYS"

subsection \<open>Tax restatement (\<open>saleTaxRestatementRbac.ts\<close>)\<close>

definition SALES_TAX_RESTATEMENT_PERMISSION :: string where
  "SALES_TAX_RESTATEMENT_PERMISSION = ''sales.tax_restatement''"

definition SALES_TAX_RESTATEMENT_DEFAULT_ROLES :: "string list" where
  "SALES_TAX_RESTATEMENT_DEFAULT_ROLES =
   [''super administrator'', ''administrator'', ''manager'', ''accountant'']"

definition SALES_TAX_RESTATEMENT_DENIED_DEFAULT_ROLES :: "string list" where
  "SALES_TAX_RESTATEMENT_DENIED_DEFAULT_ROLES =
   [''cashier'', ''waiter'', ''auditor'', ''warehouse clerk'', ''sales representative'', ''hr
   manager'']"

definition PERM :: CatalogPermission where
  "PERM = \<lparr>cp_key = SALES_TAX_RESTATEMENT_PERMISSION, cp_module = ''sales'', cp_action = Some ''update''\<rparr>"

definition isTaxRestatementDefaultRole :: "string option \<Rightarrow> bool" where
  "isTaxRestatementDefaultRole roleName =
     (if \<not> truthy_str roleName then False
      else js_lower (js_trim (the roleName)) \<in> set SALES_TAX_RESTATEMENT_DEFAULT_ROLES)"

record TaxRestatementSeedProfile =
  tp_manager :: bool
  tp_accountant :: bool
  tp_cashier :: bool
  tp_waiter :: bool

definition evaluateTaxRestatementSeedProfile :: TaxRestatementSeedProfile where
  "evaluateTaxRestatementSeedProfile =
     \<lparr>tp_manager = isSystemManagerPermission PERM, tp_accountant = isSystemAccountantPermission PERM,
      tp_cashier = isSystemCashierPermission PERM, tp_waiter = isSystemWaiterPermission PERM\<rparr>"

definition legacyUserRoleGrantsTaxRestatement :: "string option \<Rightarrow> bool" where
  "legacyUserRoleGrantsTaxRestatement role =
     (if \<not> truthy_str role then False
      else let r = js_upper (js_trim (the role)) in r = ''ADMIN'' \<or> r = ''MANAGER'')"

subsection \<open>Administrator roles and stock adjustment (\<open>rbacAdminRole.ts\<close>, \<open>inventoryAdjustPermissions.ts\<close>)\<close>

definition SYSTEM_ADMIN_RBAC_ROLE_NAMES :: "string list" where
  "SYSTEM_ADMIN_RBAC_ROLE_NAMES =
   [''super administrator'', ''administrator'', ''admin'']"

definition isSystemAdminRbacRoleName :: "string option \<Rightarrow> bool" where
  "isSystemAdminRbacRoleName roleName =
     (if \<not> truthy_str roleName then False
      else let name = js_lower (js_trim (the roleName))
           in name \<in> set SYSTEM_ADMIN_RBAC_ROLE_NAMES \<or> js_includes name ''administrator'')"

definition rbacRoleNameMapsToLegacyAdmin :: "string option \<Rightarrow> bool" where
  "rbacRoleNameMapsToLegacyAdmin n = isSystemAdminRbacRoleName n"

definition INVENTORY_STOCK_ADJUST_PERMISSIONS :: "string list" where
  "INVENTORY_STOCK_ADJUST_PERMISSIONS =
   [''inventory.adjust'', ''inventory.approve'']"

definition isInventoryStockAdjustPermission :: "string \<Rightarrow> bool" where
  "isInventoryStockAdjustPermission k \<longleftrightarrow> k \<in> set INVENTORY_STOCK_ADJUST_PERMISSIONS"

subsection \<open>Documents (\<open>documentPolicy.ts\<close>)\<close>

text \<open>The tables are plain objects, so a lookup also finds the properties every object inherits;
  what it returns for those names is not a list of permissions (\<open>None\<close>).\<close>

definition object_properties :: "string list" where
  "object_properties =
     [''constructor'', ''__proto__'', ''__defineGetter__'', ''__defineSetter__'', ''__lookupGetter__'',
      ''__lookupSetter__'', ''hasOwnProperty'', ''isPrototypeOf'', ''propertyIsEnumerable'',
      ''toLocaleString'', ''toString'', ''valueOf'']"

definition table_get :: "(string \<times> string list) list \<Rightarrow> string list \<Rightarrow> string \<Rightarrow> string list option" where
  "table_get t d k =
     (case map_of t k of Some v \<Rightarrow> Some v | None \<Rightarrow> if k \<in> set object_properties then None else Some d)"

definition DOCUMENT_TYPE_PERMISSIONS :: "(string \<times> string list) list" where
  "DOCUMENT_TYPE_PERMISSIONS =
   [(''INVOICE'', [''sales.read'', ''customers.read'']), (''RECEIPT'', [''sales.read'',
   ''pos.read'']), (''QUOTATION'', [''quotations.read'']), (''PURCHASE_ORDER'',
   [''purchasing.read'']), (''GOODS_RECEIPT'', [''purchasing.read'']), (''STORE_ISSUE'',
   [''kitchen.production.read'', ''inventory.read'', ''inventory.adjust'']), (''DELIVERY_NOTE'',
   [''delivery.read'']), (''CREDIT_NOTE'', [''customers.read'', ''sales.read'']),
   (''CUSTOMER_STATEMENT'', [''customers.read'', ''reports.customers_view'']),
   (''SUPPLIER_STATEMENT'', [''suppliers.read'', ''reports.read'']), (''SUPPLIER_INVOICE'',
   [''suppliers.read'', ''purchasing.read'']), (''PAYMENT_VOUCHER'', [''banking.read'',
   ''suppliers.read'']), (''PROFIT_LOSS'', [''reports.financial_view'', ''accounting.read'']),
   (''BALANCE_SHEET'', [''reports.financial_view'', ''accounting.read'']), (''TRIAL_BALANCE'',
   [''reports.financial_view'', ''accounting.read'']), (''CASH_FLOW'', [''reports.financial_view'',
   ''accounting.read'']), (''GENERAL_LEDGER'', [''accounting.read'']), (''AGED_RECEIVABLES'',
   [''reports.customers_view'', ''accounting.read'']), (''AGED_PAYABLES'', [''suppliers.read'',
   ''accounting.read''])]"

definition ENTITY_FLOW_PERMISSIONS :: "(string \<times> string list) list" where
  "ENTITY_FLOW_PERMISSIONS =
   [(''QUOTATION'', [''quotations.read'']), (''SALE'', [''sales.read'']), (''DELIVERY_ORDER'',
   [''delivery.read'']), (''DELIVERY_NOTE'', [''delivery.read'']), (''INVOICE'',
   [''customers.read'', ''sales.read'']), (''PAYMENT'', [''customers.read'', ''banking.read'']),
   (''CREDIT_NOTE'', [''customers.read'']), (''DEBIT_NOTE'', [''customers.read'']),
   (''PURCHASE_ORDER'', [''purchasing.read'']), (''GOODS_RECEIPT'', [''purchasing.read'']),
   (''RETURN_GRN'', [''purchasing.read'']), (''SUPPLIER_INVOICE'', [''suppliers.read'']),
   (''SUPPLIER_PAYMENT'', [''suppliers.read''])]"

definition DEFAULT_DOCUMENT_PERMISSIONS :: "string list" where
  "DEFAULT_DOCUMENT_PERMISSIONS = [''reports.read'']"

definition permissionsForDocumentType :: "string \<Rightarrow> string list option" where
  "permissionsForDocumentType t = table_get DOCUMENT_TYPE_PERMISSIONS DEFAULT_DOCUMENT_PERMISSIONS t"

definition permissionsForEntityFlow :: "string \<Rightarrow> string list option" where
  "permissionsForEntityFlow t = table_get ENTITY_FLOW_PERMISSIONS DEFAULT_DOCUMENT_PERMISSIONS t"

subsection \<open>Facts\<close>

lemma evaluatePermission_allowed [simp]:
  "ar_allowed (evaluatePermission s k ps leg) \<longleftrightarrow>
     k \<in> ps \<or> map_option js_upper (su_legacyRole s) = Some ''ADMIN'' \<or> leg \<and> legacyRoleGrantsPermission (su_legacyRole s) k"
  by (auto simp: evaluatePermission_def hasPermissionInSet_def)

lemma run_policies_allowed:
  "ar_allowed (run_policies s i r es) \<longleftrightarrow>
     ar_allowed r \<and> (\<forall>e \<in> set es. \<forall>d. e s i = Some d \<longrightarrow> ar_allowed d) \<or>
     \<not> ar_allowed r \<and> (\<forall>e \<in> set es. \<forall>d. e s i = Some d \<longrightarrow> ar_allowed d) \<and> ar_allowed r"
  by (induction s i r es rule: run_policies.induct) (auto split: option.splits)

lemma authorize_allowed:
  "ar_allowed (authorizeFromContext s i ps es leg) \<longleftrightarrow>
     ar_allowed (evaluatePermission s (in_permission i) ps leg) \<and>
     (\<forall>e \<in> set es. \<forall>d. e s i = Some d \<longrightarrow> ar_allowed d)"
  by (auto simp: authorizeFromContext_def Let_def run_policies_allowed)

lemma store_policy_refuses:
  "(\<exists>d. evaluateStoreAccessPolicy s i = Some d \<and> \<not> ar_allowed d) \<longleftrightarrow>
     (\<exists>ids x. input_fact fa_allowedStoreIds i = Some ids \<and> input_fact fa_storeId i = Some x \<and> x \<noteq> [] \<and> x \<notin> set ids)"
  by (cases "input_fact fa_storeId i") (auto simp: evaluateStoreAccessPolicy_def Let_def split: option.splits)

lemma transfer_policy_refuses:
  "(\<exists>d. evaluateTransferStorePolicy s i = Some d \<and> \<not> ar_allowed d) \<longleftrightarrow>
     (\<exists>ids x. input_fact fa_allowedStoreIds i = Some ids \<and>
        (input_fact fa_sourceStoreId i = Some x \<or> input_fact fa_destinationStoreId i = Some x) \<and> x \<noteq> [] \<and> x \<notin> set ids)"
  by (cases "input_fact fa_sourceStoreId i"; cases "input_fact fa_destinationStoreId i")
    (auto simp: evaluateTransferStorePolicy_def Let_def split: option.splits)

lemma policies_pass:
  "(\<forall>e \<in> set DEFAULT_POLICY_EVALUATORS. \<forall>d. e s i = Some d \<longrightarrow> ar_allowed d) \<longleftrightarrow>
     \<not> (\<exists>d. evaluateStoreAccessPolicy s i = Some d \<and> \<not> ar_allowed d) \<and>
     \<not> (\<exists>d. evaluateTransferStorePolicy s i = Some d \<and> \<not> ar_allowed d)"
  by (auto simp: DEFAULT_POLICY_EVALUATORS_def)

lemma legacy_manager: "legacyRoleGrantsPermission (Some ''MANAGER'') k \<longleftrightarrow>
    k \<noteq> ''restaurant.pay'' \<and> k \<noteq> ''sales.gift'' \<and> key_module k \<in> set LEGACY_MANAGER_MODULES"
proof -
  have "js_upper ''MANAGER'' = ''MANAGER''" by code_simp
  then show ?thesis by (simp add: legacyRoleGrantsPermission_def LEGACY_ROLE_PERMISSIONS_def)
qed

lemma legacy_role_lookup:
  "legacyRoleGrantsPermission role k \<longleftrightarrow>
     (\<exists>r. role = Some r \<and> (js_upper r = ''ADMIN''
        \<or> js_upper r = ''MANAGER'' \<and> k \<noteq> ''restaurant.pay'' \<and> k \<noteq> ''sales.gift'' \<and> key_module k \<in> set LEGACY_MANAGER_MODULES
        \<or> js_upper r = ''CASHIER'' \<and> k \<in> set LEGACY_CASHIER_PERMISSIONS
        \<or> js_upper r = ''STAFF'' \<and> (js_ends_with k ''.read'' \<or> k \<in> set LEGACY_STAFF_EXTRA_PERMISSIONS)))"
proof (cases role)
  case None
  then show ?thesis by (simp add: legacyRoleGrantsPermission_def)
next
  case (Some r)
  then show ?thesis
    by (cases "r = []") (auto simp: legacyRoleGrantsPermission_def LEGACY_ROLE_PERMISSIONS_def js_upper_def)
qed

lemma max_tier_mono: "(\<And>k. has k \<Longrightarrow> has' k) \<Longrightarrow> m \<le> m' \<Longrightarrow> max_tier has m ts \<le> max_tier has' m' ts"
proof (induction has m ts arbitrary: m' rule: max_tier.induct)
  case (2 has m k p ts)
  have "(if has k then max m p else m) \<le> (if has' k then max m' p else m')"
    using "2.prems"(1) [of k] "2.prems"(2) by (cases "has k") (auto simp: max_def)
  then show ?case using "2.IH" [OF "2.prems"(1)] by simp
qed simp

lemma max_tier_values: "max_tier has m ts \<in> insert m (snd ` set ts)"
proof (induction has m ts rule: max_tier.induct)
  case (2 has m k p ts)
  have "max m p = m \<or> max m p = p" by (auto simp: max_def)
  with "2.IH" show ?case by (cases "has k") auto
qed simp

lemma take_10_iso: "is_iso s \<Longrightarrow> take 10 s = s"
  by (auto simp: is_iso_def)

lemma calendarDaysBetween_iso:
  assumes "is_iso s" "is_iso d"
  shows "calendarDaysBetween s d = Fin (of_int (day_of_string d - day_of_string s))"
  by (simp add: calendarDaysBetween_def take_10_iso assms day_quotient_iso del: of_int_diff)

subsection \<open>Properties\<close>

text \<open>With the default policies, authorization is exactly: the permission is held, or the
  legacy role is ADMIN, or the legacy fallback is on and the legacy role grants it; and when the
  request carries a list of allowed stores, the store, the source and the destination it names
  (if any) are all in that list. No administrator bypasses the store lists.\<close>

theorem authorize_default_policies:
  "ar_allowed (authorizeFromContext s i ps DEFAULT_POLICY_EVALUATORS leg) \<longleftrightarrow>
     (in_permission i \<in> ps \<or> map_option js_upper (su_legacyRole s) = Some ''ADMIN''
        \<or> leg \<and> legacyRoleGrantsPermission (su_legacyRole s) (in_permission i)) \<and>
     \<not> (\<exists>ids x. input_fact fa_allowedStoreIds i = Some ids \<and> x \<noteq> [] \<and> x \<notin> set ids \<and>
         (input_fact fa_storeId i = Some x \<or> input_fact fa_sourceStoreId i = Some x
          \<or> input_fact fa_destinationStoreId i = Some x))"
  unfolding authorize_allowed policies_pass store_policy_refuses transfer_policy_refuses evaluatePermission_allowed
  by blast

text \<open>Granting more permissions never lowers the discount a user may give, and the limit
  is one of 5, 10, 50 and 100 percent.\<close>

theorem discount_limit_monotone:
  assumes "\<forall>k. has k \<longrightarrow> has' k"
  shows "resolveDiscountLimitPercent has \<le> resolveDiscountLimitPercent has'
    \<and> resolveDiscountLimitPercent has \<in> {5, 10, 50, 100}"
proof
  let ?m = "max_tier has 0 DISCOUNT_LIMIT_TIERS" and ?m' = "max_tier has' 0 DISCOUNT_LIMIT_TIERS"
  have mm: "?m \<le> ?m'" using assms by (intro max_tier_mono) auto
  have v: "?m \<in> {0, 100, 50, 10}" "?m' \<in> {0, 100, 50, 10}"
    using max_tier_values [of has 0 DISCOUNT_LIMIT_TIERS] max_tier_values [of has' 0 DISCOUNT_LIMIT_TIERS]
    by (simp_all add: DISCOUNT_LIMIT_TIERS_def)
  show "resolveDiscountLimitPercent has \<le> resolveDiscountLimitPercent has'"
    using mm v by (auto simp: resolveDiscountLimitPercent_def DEFAULT_DISCOUNT_LIMIT_PERCENT_def)
  show "resolveDiscountLimitPercent has \<in> {5, 10, 50, 100}"
    using v(1) by (auto simp: resolveDiscountLimitPercent_def DEFAULT_DISCOUNT_LIMIT_PERCENT_def)
qed

theorem discount_limit_monotone_witness:
  "resolveDiscountLimitPercent (\<lambda>k. k = ''pos.create'') \<le> resolveDiscountLimitPercent (\<lambda>k. k \<in> {''pos.create'', ''pos.approve''})
    \<and> resolveDiscountLimitPercent (\<lambda>k. k = ''pos.create'') \<in> {5, 10, 50, 100}"
  by (rule discount_limit_monotone) simp

text \<open>A return is open to everybody up to and including the thirtieth calendar day after
  the sale, and from the thirty-first day on to the absolute administrators only, who are
  exactly the roles ADMIN and SUPER_ADMIN in any letter case.\<close>

theorem aged_return_rule:
  assumes "is_iso s" "is_iso d"
  shows "ad_allowed (canProcessAgedSaleReturn s d role None) \<longleftrightarrow>
    day_of_string d \<le> day_of_string s + 30 \<or>
    (\<exists>r. role = Some r \<and> (js_upper r = ''ADMIN'' \<or> js_upper r = ''SUPER_ADMIN''))"
  by (cases role) (auto simp: canProcessAgedSaleReturn_def Let_def AGED_SALE_RETURN_DAYS_def
      calendarDaysBetween_iso [OF assms] isAbsoluteAdminRole_def js_upper_def)

theorem aged_return_rule_witness:
  "ad_allowed (canProcessAgedSaleReturn ''2026-01-15'' ''2026-02-15'' (Some ''manager'') None) \<longleftrightarrow>
    day_of_string ''2026-02-15'' \<le> day_of_string ''2026-01-15'' + 30 \<or>
    (\<exists>r. Some ''manager'' = Some r \<and> (js_upper r = ''ADMIN'' \<or> js_upper r = ''SUPER_ADMIN''))"
proof -
  have "is_iso ''2026-01-15''" by (rule is_isoI [of 2026 1 15]; code_simp)
  moreover have "is_iso ''2026-02-15''" by (rule is_isoI [of 2026 2 15]; code_simp)
  ultimately show ?thesis by (rule aged_return_rule)
qed

text \<open>A viewer without a financial permission (and without the legacy fallback of an empty
  permission set) gets no cost or margin field of a sale and every other field unchanged; any
  other viewer gets the record as it is.\<close>

theorem sanitize_hides_financials:
  "map_of (sanitizeSaleFinancialFields data ps role) f =
     (if f \<in> {''totalCost'', ''profit'', ''profitMargin'', ''totalProfit''}
        \<and> set ps \<inter> {''reports.financial_view'', ''sales.approve'', ''accounting.read''} = {}
        \<and> (ps \<noteq> [] \<or> (\<nexists>r. role = Some r \<and> (js_upper r = ''ADMIN'' \<or> js_upper r = ''MANAGER'')))
      then None else map_of data f)"
proof -
  have v: "canViewSaleFinancials ps role \<longleftrightarrow>
      set ps \<inter> {''reports.financial_view'', ''sales.approve'', ''accounting.read''} \<noteq> {}
      \<or> ps = [] \<and> (\<exists>r. role = Some r \<and> (js_upper r = ''ADMIN'' \<or> js_upper r = ''MANAGER''))"
    by (cases role) (auto simp: canViewSaleFinancials_def FINANCIAL_VIEW_PERMISSIONS_def Let_def js_upper_def)
  have m: "map_of (filter (\<lambda>(f, v). f \<notin> X) data) f = (if f \<in> X then None else map_of data f)" for X
    by (induction data) auto
  have S: "set SALE_FINANCIAL_FIELDS = {''totalCost'', ''profit'', ''profitMargin'', ''totalProfit''}"
    by (simp add: SALE_FINANCIAL_FIELDS_def)
  show ?thesis
  proof (cases "canViewSaleFinancials ps role")
    case True
    then show ?thesis using v by (simp only: sanitizeSaleFinancialFields_def if_True) (metis (lifting))
  next
    case False
    then show ?thesis using v by (simp only: sanitizeSaleFinancialFields_def if_False m S) (metis (lifting))
  qed
qed

theorem sanitize_hides_financials_witness:
  "map_of (sanitizeSaleFinancialFields [(''totalCost'', 5), (''total'', 7::nat)] [''sales.read''] (Some ''ADMIN'')) ''totalCost'' = None
  \<and> map_of (sanitizeSaleFinancialFields [(''totalCost'', 5), (''total'', 7::nat)] [''sales.read''] (Some ''ADMIN'')) ''total'' = Some 7"
  unfolding sanitize_hides_financials by simp

text \<open>The three places that say who may restate tax agree: the legacy permission table and
  the legacy rule of the restatement policy accept the same role names (written without outer
  blanks), and the seed grants give the permission to manager and accountant and not to cashier
  and waiter.\<close>

theorem tax_restatement_agreement:
  assumes "js_trim r = r"
  shows "(legacyRoleGrantsPermission (Some r) SALES_TAX_RESTATEMENT_PERMISSION \<longleftrightarrow> legacyUserRoleGrantsTaxRestatement (Some r))
    \<and> evaluateTaxRestatementSeedProfile = \<lparr>tp_manager = True, tp_accountant = True, tp_cashier = False, tp_waiter = False\<rparr>"
proof
  let ?k = SALES_TAX_RESTATEMENT_PERMISSION
  have k: "?k \<noteq> ''restaurant.pay''" "?k \<noteq> ''sales.gift''" "key_module ?k \<in> set LEGACY_MANAGER_MODULES"
      "?k \<notin> set LEGACY_CASHIER_PERMISSIONS" "\<not> js_ends_with ?k ''.read''" "?k \<notin> set LEGACY_STAFF_EXTRA_PERMISSIONS"
    by code_simp+
  show "legacyRoleGrantsPermission (Some r) ?k \<longleftrightarrow> legacyUserRoleGrantsTaxRestatement (Some r)"
    using k assms by (auto simp: legacy_role_lookup legacyUserRoleGrantsTaxRestatement_def Let_def js_upper_def)
  show "evaluateTaxRestatementSeedProfile = \<lparr>tp_manager = True, tp_accountant = True, tp_cashier = False, tp_waiter = False\<rparr>"
    by code_simp
qed

theorem tax_restatement_agreement_witness:
  "(legacyRoleGrantsPermission (Some ''Cashier'') SALES_TAX_RESTATEMENT_PERMISSION \<longleftrightarrow> legacyUserRoleGrantsTaxRestatement (Some ''Cashier''))
    \<and> evaluateTaxRestatementSeedProfile = \<lparr>tp_manager = True, tp_accountant = True, tp_cashier = False, tp_waiter = False\<rparr>"
  by (rule tax_restatement_agreement) code_simp

end
