(* ===== verification/RbacCatalog.thy ===== *)
theory RbacCatalog imports Authorization
begin

section \<open>The permission catalog and the seeded roles\<close>

text \<open>
  \<open>SamplePOS.Server/src/rbac/permissions.ts\<close> and the grants of \<open>rbac/seed.ts\<close>. The
  descriptions of the permissions are display texts and are left out, and so is the DDL of the
  seed; \<open>SEED_ROLES\<close> is the list of roles the seed inserts, each with the filter that
  chooses its keys from the catalog.
\<close>

record Permission =
  pm_key :: string
  pm_module :: string
  pm_action :: string

definition perm :: "string \<Rightarrow> string \<Rightarrow> string \<Rightarrow> Permission" where
  "perm k m a = \<lparr>pm_key = k, pm_module = m, pm_action = a\<rparr>"

definition PERMISSIONS :: "(string \<times> Permission) list" where
  "PERMISSIONS =
     [(''SALES_READ'', perm ''sales.read'' ''sales'' ''read''),
      (''SALES_CREATE'', perm ''sales.create'' ''sales'' ''create''),
      (''SALES_UPDATE'', perm ''sales.update'' ''sales'' ''update''),
      (''SALES_DELETE'', perm ''sales.delete'' ''sales'' ''delete''),
      (''SALES_VOID'', perm ''sales.void'' ''sales'' ''void''),
      (''SALES_REFUND'', perm ''sales.refund'' ''sales'' ''refund''),
      (''SALES_EXCHANGE'', perm ''sales.exchange'' ''sales'' ''exchange''),
      (''SALES_EXPORT'', perm ''sales.export'' ''sales'' ''export''),
      (''SALES_APPROVE'', perm ''sales.approve'' ''sales'' ''approve''),
      (''SALES_GIFT'', perm ''sales.gift'' ''sales'' ''gift''),
      (''SALES_TAX_OVERRIDE'', perm ''sales.tax_override'' ''sales'' ''tax_override''),
      (''SALES_REPRINT'', perm ''sales.reprint'' ''sales'' ''reprint''),
      (''SALES_REASSIGN_CUSTOMER'', perm ''sales.reassign_customer'' ''sales'' ''update''),
      (''SALES_TAX_RESTATEMENT'', perm ''sales.tax_restatement'' ''sales'' ''update''),
      (''INVENTORY_READ'', perm ''inventory.read'' ''inventory'' ''read''),
      (''INVENTORY_CREATE'', perm ''inventory.create'' ''inventory'' ''create''),
      (''INVENTORY_UPDATE'', perm ''inventory.update'' ''inventory'' ''update''),
      (''INVENTORY_DELETE'', perm ''inventory.delete'' ''inventory'' ''delete''),
      (''INVENTORY_IMPORT'', perm ''inventory.import'' ''inventory'' ''import''),
      (''INVENTORY_EXPORT'', perm ''inventory.export'' ''inventory'' ''export''),
      (''INVENTORY_APPROVE'', perm ''inventory.approve'' ''inventory'' ''approve''),
      (''INVENTORY_BATCH_EXPIRY_EDIT'', perm ''inventory.batch_expiry_edit'' ''inventory'' ''update''),
      (''POS_READ'', perm ''pos.read'' ''pos'' ''read''),
      (''POS_CREATE'', perm ''pos.create'' ''pos'' ''create''),
      (''POS_VOID'', perm ''pos.void'' ''pos'' ''void''),
      (''POS_APPROVE'', perm ''pos.approve'' ''pos'' ''approve''),
      (''ORDERS_READ'', perm ''orders.read'' ''orders'' ''read''),
      (''ORDERS_CREATE'', perm ''orders.create'' ''orders'' ''create''),
      (''ORDERS_PAY'', perm ''orders.pay'' ''orders'' ''pay''),
      (''ORDERS_CANCEL'', perm ''orders.cancel'' ''orders'' ''cancel''),
      (''RESTAURANT_READ'', perm ''restaurant.read'' ''restaurant'' ''read''),
      (''RESTAURANT_ORDER'', perm ''restaurant.order'' ''restaurant'' ''create''),
      (''RESTAURANT_KITCHEN'', perm ''restaurant.kitchen'' ''restaurant'' ''update''),
      (''RESTAURANT_PAY'', perm ''restaurant.pay'' ''restaurant'' ''pay''),
      (''RESTAURANT_EDIT_OTHERS'', perm ''restaurant.edit_others'' ''restaurant'' ''update''),
      (''RESTAURANT_MANAGE'', perm ''restaurant.manage'' ''restaurant'' ''manage''),
      (''PURCHASING_READ'', perm ''purchasing.read'' ''purchasing'' ''read''),
      (''PURCHASING_CREATE'', perm ''purchasing.create'' ''purchasing'' ''create''),
      (''PURCHASING_UPDATE'', perm ''purchasing.update'' ''purchasing'' ''update''),
      (''PURCHASING_DELETE'', perm ''purchasing.delete'' ''purchasing'' ''delete''),
      (''PURCHASING_APPROVE'', perm ''purchasing.approve'' ''purchasing'' ''approve''),
      (''PURCHASING_POST'', perm ''purchasing.post'' ''purchasing'' ''post''),
      (''PURCHASING_CANCEL_BILL'', perm ''purchasing.cancel_bill'' ''purchasing'' ''cancel''),
      (''CUSTOMERS_READ'', perm ''customers.read'' ''customers'' ''read''),
      (''CUSTOMERS_CREATE'', perm ''customers.create'' ''customers'' ''create''),
      (''CUSTOMERS_UPDATE'', perm ''customers.update'' ''customers'' ''update''),
      (''CUSTOMERS_DELETE'', perm ''customers.delete'' ''customers'' ''delete''),
      (''CUSTOMERS_EXPORT'', perm ''customers.export'' ''customers'' ''export''),
      (''CUSTOMERS_ADJUST'', perm ''customers.adjust'' ''customers'' ''adjust''),
      (''SUPPLIERS_READ'', perm ''suppliers.read'' ''suppliers'' ''read''),
      (''SUPPLIERS_CREATE'', perm ''suppliers.create'' ''suppliers'' ''create''),
      (''SUPPLIERS_UPDATE'', perm ''suppliers.update'' ''suppliers'' ''update''),
      (''SUPPLIERS_DELETE'', perm ''suppliers.delete'' ''suppliers'' ''delete''),
      (''ACCOUNTING_READ'', perm ''accounting.read'' ''accounting'' ''read''),
      (''ACCOUNTING_CREATE'', perm ''accounting.create'' ''accounting'' ''create''),
      (''ACCOUNTING_UPDATE'', perm ''accounting.update'' ''accounting'' ''update''),
      (''ACCOUNTING_DELETE'', perm ''accounting.delete'' ''accounting'' ''delete''),
      (''ACCOUNTING_POST'', perm ''accounting.post'' ''accounting'' ''post''),
      (''ACCOUNTING_APPROVE'', perm ''accounting.approve'' ''accounting'' ''approve''),
      (''ACCOUNTING_VOID'', perm ''accounting.void'' ''accounting'' ''void''),
      (''ACCOUNTING_EXPORT'', perm ''accounting.export'' ''accounting'' ''export''),
      (''ACCOUNTING_PERIOD_MANAGE'', perm ''accounting.period_manage'' ''accounting'' ''period_manage''),
      (''ACCOUNTING_RECONCILE'', perm ''accounting.reconcile'' ''accounting'' ''reconcile''),
      (''ACCOUNTING_CHART_MANAGE'', perm ''accounting.chart_manage'' ''accounting'' ''chart_manage''),
      (''ACCOUNTING_MANAGE'', perm ''accounting.manage'' ''accounting'' ''manage''),
      (''ACCOUNTING_OPENING_BALANCE'', perm ''accounting.opening_balance'' ''accounting'' ''post''),
      (''OWNERSHIP_READ'', perm ''ownership.read'' ''ownership'' ''read''),
      (''OWNERSHIP_MANAGE'', perm ''ownership.manage'' ''ownership'' ''manage''),
      (''OWNERSHIP_ISSUE'', perm ''ownership.issue'' ''ownership'' ''issue''),
      (''OWNERSHIP_TRANSFER'', perm ''ownership.transfer'' ''ownership'' ''transfer''),
      (''OWNERSHIP_DIVIDEND_APPROVE'', perm ''ownership.dividend_approve'' ''ownership'' ''dividend_approve''),
      (''REPORTS_READ'', perm ''reports.read'' ''reports'' ''read''),
      (''REPORTS_CREATE'', perm ''reports.create'' ''reports'' ''create''),
      (''REPORTS_EXPORT'', perm ''reports.export'' ''reports'' ''export''),
      (''REPORTS_SALES_VIEW'', perm ''reports.sales_view'' ''reports'' ''sales_view''),
      (''REPORTS_INVENTORY_VIEW'', perm ''reports.inventory_view'' ''reports'' ''inventory_view''),
      (''REPORTS_FINANCIAL_VIEW'', perm ''reports.financial_view'' ''reports'' ''financial_view''),
      (''REPORTS_PURCHASING_VIEW'', perm ''reports.purchasing_view'' ''reports'' ''purchasing_view''),
      (''REPORTS_CUSTOMERS_VIEW'', perm ''reports.customers_view'' ''reports'' ''customers_view''),
      (''REPORTS_BANKING_VIEW'', perm ''reports.banking_view'' ''reports'' ''banking_view''),
      (''REPORTS_HR_VIEW'', perm ''reports.hr_view'' ''reports'' ''hr_view''),
      (''ADMIN_READ'', perm ''admin.read'' ''admin'' ''read''),
      (''ADMIN_CREATE'', perm ''admin.create'' ''admin'' ''create''),
      (''ADMIN_UPDATE'', perm ''admin.update'' ''admin'' ''update''),
      (''ADMIN_DELETE'', perm ''admin.delete'' ''admin'' ''delete''),
      (''SYSTEM_READ'', perm ''system.read'' ''system'' ''read''),
      (''SYSTEM_UPDATE'', perm ''system.update'' ''system'' ''update''),
      (''SYSTEM_AUDIT_READ'', perm ''system.audit_read'' ''system'' ''read''),
      (''SYSTEM_USERS_READ'', perm ''system.users_read'' ''system'' ''read''),
      (''SYSTEM_USERS_CREATE'', perm ''system.users_create'' ''system'' ''create''),
      (''SYSTEM_USERS_UPDATE'', perm ''system.users_update'' ''system'' ''update''),
      (''SYSTEM_USERS_DELETE'', perm ''system.users_delete'' ''system'' ''delete''),
      (''SYSTEM_ROLES_READ'', perm ''system.roles_read'' ''system'' ''read''),
      (''SYSTEM_ROLES_CREATE'', perm ''system.roles_create'' ''system'' ''create''),
      (''SYSTEM_ROLES_UPDATE'', perm ''system.roles_update'' ''system'' ''update''),
      (''SYSTEM_ROLES_DELETE'', perm ''system.roles_delete'' ''system'' ''delete''),
      (''SYSTEM_PERMISSIONS_READ'', perm ''system.permissions_read'' ''system'' ''read''),
      (''BANKING_READ'', perm ''banking.read'' ''banking'' ''read''),
      (''BANKING_CREATE'', perm ''banking.create'' ''banking'' ''create''),
      (''BANKING_UPDATE'', perm ''banking.update'' ''banking'' ''update''),
      (''BANKING_DELETE'', perm ''banking.delete'' ''banking'' ''delete''),
      (''BANKING_RECONCILE'', perm ''banking.reconcile'' ''banking'' ''reconcile''),
      (''BANKING_IMPORT'', perm ''banking.import'' ''banking'' ''import''),
      (''BANKING_EXPORT'', perm ''banking.export'' ''banking'' ''export''),
      (''DELIVERY_READ'', perm ''delivery.read'' ''delivery'' ''read''),
      (''DELIVERY_CREATE'', perm ''delivery.create'' ''delivery'' ''create''),
      (''DELIVERY_UPDATE'', perm ''delivery.update'' ''delivery'' ''update''),
      (''DELIVERY_DELETE'', perm ''delivery.delete'' ''delivery'' ''delete''),
      (''SETTINGS_READ'', perm ''settings.read'' ''settings'' ''read''),
      (''SETTINGS_UPDATE'', perm ''settings.update'' ''settings'' ''update''),
      (''CRM_READ'', perm ''crm.read'' ''crm'' ''read''),
      (''CRM_CREATE'', perm ''crm.create'' ''crm'' ''create''),
      (''CRM_UPDATE'', perm ''crm.update'' ''crm'' ''update''),
      (''CRM_DELETE'', perm ''crm.delete'' ''crm'' ''delete''),
      (''CRM_MANAGE'', perm ''crm.manage'' ''crm'' ''manage''),
      (''HR_READ'', perm ''hr.read'' ''hr'' ''read''),
      (''HR_CREATE'', perm ''hr.create'' ''hr'' ''create''),
      (''HR_UPDATE'', perm ''hr.update'' ''hr'' ''update''),
      (''HR_DELETE'', perm ''hr.delete'' ''hr'' ''delete''),
      (''HR_PAYROLL_PROCESS'', perm ''hr.payroll_process'' ''hr'' ''payroll_process''),
      (''HR_PAYROLL_POST'', perm ''hr.payroll_post'' ''hr'' ''payroll_post''),
      (''HR_PAYROLL_PAY'', perm ''hr.payroll_pay'' ''hr'' ''payroll_pay''),
      (''HR_ADVANCE'', perm ''hr.advance'' ''hr'' ''advance''),
      (''INVENTORY_STOCKCOUNT'', perm ''inventory.manage'' ''inventory'' ''manage''),
      (''INVENTORY_ADJUST'', perm ''inventory.adjust'' ''inventory'' ''adjust''),
      (''KITCHEN_PRODUCTION_READ'', perm ''kitchen.production.read'' ''kitchen'' ''read''),
      (''KITCHEN_PRODUCTION_CREATE'', perm ''kitchen.production.create'' ''kitchen'' ''create''),
      (''KITCHEN_PRODUCTION_POST'', perm ''kitchen.production.post'' ''kitchen'' ''post''),
      (''KITCHEN_PRODUCTION_REVERSE'', perm ''kitchen.production.reverse'' ''kitchen'' ''void''),
      (''INVENTORY_TRANSFER_REQUEST'', perm ''inventory.transfer.request'' ''inventory'' ''create''),
      (''INVENTORY_TRANSFER_APPROVE'', perm ''inventory.transfer.approve'' ''inventory'' ''approve''),
      (''INVENTORY_TRANSFER_DISPATCH'', perm ''inventory.transfer.dispatch'' ''inventory'' ''post''),
      (''INVENTORY_TRANSFER_RECEIVE'', perm ''inventory.transfer.receive'' ''inventory'' ''post''),
      (''INVENTORY_TRANSFER_DIRECT'', perm ''inventory.transfer.direct'' ''inventory'' ''execute''),
      (''INVENTORY_TRANSFER_OVERRIDE'', perm ''inventory.transfer.override'' ''inventory'' ''manage''),
      (''TARGETS_READ'', perm ''targets.read'' ''targets'' ''read''),
      (''TARGETS_MANAGE'', perm ''targets.manage'' ''targets'' ''manage''),
      (''TARGETS_APPROVE'', perm ''targets.approve'' ''targets'' ''approve''),
      (''EXPENSES_READ'', perm ''expenses.read'' ''expenses'' ''read''),
      (''EXPENSES_CREATE'', perm ''expenses.create'' ''expenses'' ''create''),
      (''EXPENSES_UPDATE'', perm ''expenses.update'' ''expenses'' ''update''),
      (''EXPENSES_DELETE'', perm ''expenses.delete'' ''expenses'' ''delete''),
      (''EXPENSES_APPROVE'', perm ''expenses.approve'' ''expenses'' ''approve''),
      (''EXPENSES_EXPORT'', perm ''expenses.export'' ''expenses'' ''export''),
      (''DISTRIBUTION_READ'', perm ''distribution.read'' ''distribution'' ''read''),
      (''DISTRIBUTION_CREATE'', perm ''distribution.create'' ''distribution'' ''create''),
      (''DISTRIBUTION_UPDATE'', perm ''distribution.update'' ''distribution'' ''update''),
      (''DISTRIBUTION_DELETE'', perm ''distribution.delete'' ''distribution'' ''delete''),
      (''DISTRIBUTION_APPROVE'', perm ''distribution.approve'' ''distribution'' ''approve''),
      (''QUOTATIONS_READ'', perm ''quotations.read'' ''quotations'' ''read''),
      (''QUOTATIONS_CREATE'', perm ''quotations.create'' ''quotations'' ''create''),
      (''QUOTATIONS_UPDATE'', perm ''quotations.update'' ''quotations'' ''update''),
      (''QUOTATIONS_DELETE'', perm ''quotations.delete'' ''quotations'' ''delete''),
      (''CORRECTIONS_READ'', perm ''corrections.read'' ''corrections'' ''read''),
      (''CORRECTIONS_EXECUTE'', perm ''corrections.execute'' ''corrections'' ''execute'')]"

definition PERMISSION_KEYS :: "string list" where
  "PERMISSION_KEYS = map (pm_key \<circ> snd) PERMISSIONS"

definition isValidPermissionKey :: "string \<Rightarrow> bool" where
  "isValidPermissionKey k \<longleftrightarrow> k \<in> set PERMISSION_KEYS"

definition getAllPermissions :: "Permission list" where
  "getAllPermissions = map snd PERMISSIONS"

definition getPermission :: "string \<Rightarrow> Permission option" where
  "getPermission k = find (\<lambda>q. pm_key q = k) getAllPermissions"

definition getPermissionsByModule :: "string \<Rightarrow> Permission list" where
  "getPermissionsByModule m = filter (\<lambda>q. pm_module q = m) getAllPermissions"

subsection \<open>Seeded roles (\<open>rbac/seed.ts\<close>)\<close>

definition as_catalog :: "Permission \<Rightarrow> CatalogPermission" where
  "as_catalog q = \<lparr>cp_key = pm_key q, cp_module = pm_module q, cp_action = Some (pm_action q)\<rparr>"

definition warehouse_grant :: "Permission \<Rightarrow> bool" where
  "warehouse_grant q \<longleftrightarrow>
     pm_module q \<in> {''inventory'', ''delivery''} \<and>
       pm_key q \<notin> {''inventory.transfer.direct'', ''inventory.transfer.override'',
         ''inventory.transfer.approve'', ''inventory.transfer.dispatch''}
     \<or> pm_key q \<in> {''purchasing.read'', ''purchasing.post'', ''suppliers.read'', ''settings.read'', ''reports.read''}"

definition sales_rep_grant :: "Permission \<Rightarrow> bool" where
  "sales_rep_grant q \<longleftrightarrow>
     pm_key q \<notin> {''sales.tax_restatement'', ''sales.tax_override'', ''sales.reassign_customer''} \<and>
     (pm_module q \<in> {''sales'', ''customers'', ''crm'', ''reports'', ''quotations''}
      \<or> pm_key q \<in> {''pos.read'', ''pos.create'', ''inventory.read'', ''delivery.read'', ''settings.read''})"

definition hr_grant :: "Permission \<Rightarrow> bool" where
  "hr_grant q \<longleftrightarrow> pm_module q \<in> {''hr'', ''reports''} \<or> pm_key q \<in> {''settings.read'', ''accounting.read''}"

definition SEED_ROLES :: "(string \<times> (Permission \<Rightarrow> bool)) list" where
  "SEED_ROLES =
     [(''Super Administrator'', \<lambda>q. True),
      (''Administrator'', \<lambda>q. True),
      (''Manager'', isSystemManagerPermission \<circ> as_catalog),
      (''Cashier'', isSystemCashierPermission \<circ> as_catalog),
      (''Waiter'', isSystemWaiterPermission \<circ> as_catalog),
      (''Auditor'', \<lambda>q. pm_action q = ''read''),
      (''Accountant'', isSystemAccountantPermission \<circ> as_catalog),
      (''Warehouse Clerk'', warehouse_grant),
      (''Sales Representative'', sales_rep_grant),
      (''HR Manager'', hr_grant)]"

text \<open>The keys the seed grants to a role.\<close>

definition seed_grants :: "(Permission \<Rightarrow> bool) \<Rightarrow> string list" where
  "seed_grants f = map pm_key (filter f getAllPermissions)"

text \<open>The seeded roles that hold a key.\<close>

definition seed_holders :: "string \<Rightarrow> string list" where
  "seed_holders k = map fst (filter (\<lambda>(n, f). k \<in> set (seed_grants f)) SEED_ROLES)"

subsection \<open>Facts\<close>

lemma catalog_modules: "\<forall>q \<in> set getAllPermissions. key_module (pm_key q) = pm_module q"
  by code_simp

lemma PERMISSION_KEYS_eq: "PERMISSION_KEYS = map pm_key getAllPermissions"
  by (simp add: PERMISSION_KEYS_def getAllPermissions_def)

lemma seed_grants_valid: "k \<in> set (seed_grants f) \<Longrightarrow> isValidPermissionKey k"
  by (auto simp: seed_grants_def isValidPermissionKey_def PERMISSION_KEYS_eq)

text \<open>A key names one permission of the catalog, so a role holds the key when its filter accepts it.\<close>

lemma seed_grants_unique:
  assumes "filter (\<lambda>q. pm_key q = k) getAllPermissions = [q0]"
  shows "k \<in> set (seed_grants f) \<longleftrightarrow> f q0"
proof -
  have "{q \<in> set getAllPermissions. pm_key q = k} = {q0}"
    using assms by (metis set_filter list.set(1) list.set(2))
  then show ?thesis by (auto simp: seed_grants_def)
qed

lemma seed_holders_unique:
  assumes "filter (\<lambda>q. pm_key q = k) getAllPermissions = [q0]"
  shows "seed_holders k = map fst (filter (\<lambda>(n, f). f q0) SEED_ROLES)"
  by (simp add: seed_holders_def seed_grants_unique [OF assms])

lemma catalog_entries:
  "filter (\<lambda>q. pm_key q = ''restaurant.pay'') getAllPermissions = [perm ''restaurant.pay'' ''restaurant'' ''pay'']"
  "filter (\<lambda>q. pm_key q = ''sales.tax_restatement'') getAllPermissions = [perm ''sales.tax_restatement'' ''sales'' ''update'']"
  "filter (\<lambda>q. pm_key q = ''sales.gift'') getAllPermissions = [perm ''sales.gift'' ''sales'' ''gift'']"
  "filter (\<lambda>q. pm_key q = ''admin.update'') getAllPermissions = [perm ''admin.update'' ''admin'' ''update'']"
  by code_simp+

lemma seed_gift_issuer:
  "canIssueGiftSale (seed_grants f) None \<longleftrightarrow>
     f (perm ''sales.gift'' ''sales'' ''gift'') \<and> f (perm ''admin.update'' ''admin'' ''update'')"
  by (simp add: canIssueGiftSale_def js_upper_def seed_grants_unique [OF catalog_entries(3)]
      seed_grants_unique [OF catalog_entries(4)])

subsection \<open>Properties\<close>

text \<open>On the whole catalog the two definitions of a manager agree: the seed gives the
  Manager role a permission exactly when the legacy MANAGER role grants its key; and every key
  of the catalog carries its module as first segment, which is what the two rest on.\<close>

theorem manager_grants_agree:
  assumes "q \<in> set getAllPermissions"
  shows "isSystemManagerPermission (as_catalog q) \<longleftrightarrow> legacyRoleGrantsPermission (Some ''MANAGER'') (pm_key q)"
  using assms catalog_modules
  by (simp add: isSystemManagerPermission_def as_catalog_def SYSTEM_MANAGER_MODULES_def legacy_manager)

theorem manager_grants_agree_witness:
  "isSystemManagerPermission (as_catalog (perm ''sales.gift'' ''sales'' ''gift''))
    \<longleftrightarrow> legacyRoleGrantsPermission (Some ''MANAGER'') (pm_key (perm ''sales.gift'' ''sales'' ''gift''))"
  by (rule manager_grants_agree) code_simp

text \<open>Separation of duties in the seed: taking restaurant payment is granted to the two
  administrator roles, the cashier and the accountant only; restating tax to the administrators,
  the manager and the accountant only; and of all seeded key sets only those of the two
  administrator roles may issue a gift sale.\<close>

theorem seed_separation_of_duties:
  "seed_holders ''restaurant.pay'' = [''Super Administrator'', ''Administrator'', ''Cashier'', ''Accountant'']
   \<and> seed_holders SALES_TAX_RESTATEMENT_PERMISSION = [''Super Administrator'', ''Administrator'', ''Manager'', ''Accountant'']
   \<and> map fst (filter (\<lambda>(n, f). canIssueGiftSale (seed_grants f) None) SEED_ROLES) = [''Super Administrator'', ''Administrator'']"
  unfolding seed_holders_unique [OF catalog_entries(1)] SALES_TAX_RESTATEMENT_PERMISSION_def
    seed_holders_unique [OF catalog_entries(2)] seed_gift_issuer
  by (intro conjI; code_simp)

text \<open>The gift key itself, which the manager profile excludes as a duty of the administrator, is
  also in the seeded profile of the sales representative.\<close>

lemma seed_gift_holders:
  "seed_holders ''sales.gift'' = [''Super Administrator'', ''Administrator'', ''Sales Representative'']"
  unfolding seed_holders_unique [OF catalog_entries(3)] by code_simp

end
