(* ===== verification/RbacStore.thy ===== *)
theory RbacStore imports RbacCatalog
begin

section \<open>The RBAC tables and their repository\<close>

text \<open>
  \<open>SamplePOS.Server/src/rbac/types.ts\<close> and \<open>rbac/repository.ts\<close>. The four tables are lists
  of rows in insertion order; each query of the repository is a definition on them, with the
  constraints of the schema (unique role name, primary keys, the unique assignment index, the
  reference to the role) as errors. Identifiers come from the database: \<open>gen\<close> is its
  generator, \<open>db_seq\<close> the number of identifiers drawn. \<open>db_now\<close> is \<open>NOW()\<close> of the current
  transaction, in milliseconds. The \<open>ORDER BY\<close> of the listings is not modelled: rows come in
  table order.
\<close>

subsection \<open>Rows\<close>

record Role =
  ro_id :: string
  ro_name :: string
  ro_description :: string
  ro_version :: int
  ro_isSystemRole :: bool
  ro_isActive :: bool
  ro_createdAt :: int
  ro_updatedAt :: int
  ro_createdBy :: string
  ro_updatedBy :: string

record RolePermission =
  rp_roleId :: string
  rp_permissionKey :: string
  rp_grantedAt :: int
  rp_grantedBy :: string

record UserRole =
  ur_id :: string
  ur_userId :: string
  ur_roleId :: string
  ur_scopeType :: "string option"
  ur_scopeId :: "string option"
  ur_assignedAt :: int
  ur_assignedBy :: string
  ur_expiresAt :: "int option"
  ur_isActive :: bool

datatype RbacAuditAction =
  role_created | role_updated | role_deleted | role_permissions_updated
  | user_role_assigned | user_role_removed | user_role_expired | permission_denied | permission_granted

text \<open>Values of the JSON states of an audit record.\<close>

datatype json = JNull | JStr string | JNum int | JBool bool | JStrs "string list"

type_synonym json_object = "(string \<times> json) list"

definition opt_str :: "string option \<Rightarrow> json" where
  "opt_str s = (case s of None \<Rightarrow> JNull | Some t \<Rightarrow> JStr t)"

definition opt_num :: "int option \<Rightarrow> json" where
  "opt_num s = (case s of None \<Rightarrow> JNull | Some t \<Rightarrow> JNum t)"

record RbacAuditLog =
  al_id :: string
  al_actorUserId :: string
  al_targetUserId :: "string option"
  al_targetRoleId :: "string option"
  al_action :: RbacAuditAction
  al_previousState :: "json_object option"
  al_newState :: "json_object option"
  al_ipAddress :: "string option"
  al_userAgent :: "string option"
  al_timestamp :: int

record EffectivePermission =
  ep_permissionKey :: string
  ep_roleId :: string
  ep_roleName :: string
  ep_scopeType :: "string option"
  ep_scopeId :: "string option"

record RbacDb =
  db_roles :: "Role list"
  db_rolePermissions :: "RolePermission list"
  db_userRoles :: "UserRole list"
  db_auditLogs :: "RbacAuditLog list"
  db_seq :: nat
  db_now :: int

datatype rbac_error =
  RbacError string string int
| UniqueViolation
| ForeignKeyViolation
| DatabaseError

subsection \<open>Roles\<close>

definition repo_createRole ::
  "(nat \<Rightarrow> string) \<Rightarrow> string \<Rightarrow> string \<Rightarrow> string \<Rightarrow> RbacDb \<Rightarrow> (rbac_error, Role \<times> RbacDb) result" where
  "repo_createRole gen name description createdBy db =
     (if \<exists>r \<in> set (db_roles db). ro_name r = name then Inl UniqueViolation
      else let role = \<lparr>ro_id = gen (db_seq db), ro_name = name, ro_description = description, ro_version = 1,
                       ro_isSystemRole = False, ro_isActive = True, ro_createdAt = db_now db,
                       ro_updatedAt = db_now db, ro_createdBy = createdBy, ro_updatedBy = createdBy\<rparr>
           in Inr (role, db\<lparr>db_roles := db_roles db @ [role], db_seq := Suc (db_seq db)\<rparr>))"

text \<open>\<open>UPDATE rbac_roles SET .. WHERE id = .. AND ..\<close>: every matching row is updated.\<close>

definition update_roles :: "(Role \<Rightarrow> bool) \<Rightarrow> (Role \<Rightarrow> Role) \<Rightarrow> RbacDb \<Rightarrow> RbacDb" where
  "update_roles P f db = db\<lparr>db_roles := map (\<lambda>r. if P r then f r else r) (db_roles db)\<rparr>"

definition repo_updateRole ::
  "string \<Rightarrow> string option \<Rightarrow> string option \<Rightarrow> string \<Rightarrow> RbacDb \<Rightarrow> (rbac_error, Role option \<times> RbacDb) result" where
  "repo_updateRole roleId name description updatedBy db =
     (let P = (\<lambda>r. ro_id r = roleId \<and> ro_isActive r \<and> \<not> ro_isSystemRole r);
          f = (\<lambda>r. r\<lparr>ro_version := ro_version r + 1, ro_updatedBy := updatedBy, ro_updatedAt := db_now db,
                      ro_name := coalesce name (ro_name r), ro_description := coalesce description (ro_description r)\<rparr>)
      in case find P (db_roles db) of
           None \<Rightarrow> Inr (None, db)
         | Some r \<Rightarrow>
             if \<exists>q \<in> set (db_roles db). ro_id q \<noteq> roleId \<and> name = Some (ro_name q) then Inl UniqueViolation
             else Inr (Some (f r), update_roles P f db))"

definition repo_touchSystemRole :: "string \<Rightarrow> string \<Rightarrow> RbacDb \<Rightarrow> Role option \<times> RbacDb" where
  "repo_touchSystemRole roleId updatedBy db =
     (let P = (\<lambda>r. ro_id r = roleId \<and> ro_isActive r \<and> ro_isSystemRole r);
          f = (\<lambda>r. r\<lparr>ro_version := ro_version r + 1, ro_updatedBy := updatedBy, ro_updatedAt := db_now db\<rparr>)
      in (map_option f (find P (db_roles db)), update_roles P f db))"

definition repo_softDeleteRole :: "string \<Rightarrow> string \<Rightarrow> RbacDb \<Rightarrow> bool \<times> RbacDb" where
  "repo_softDeleteRole roleId deletedBy db =
     (let P = (\<lambda>r. ro_id r = roleId \<and> ro_isActive r \<and> \<not> ro_isSystemRole r);
          f = (\<lambda>r. r\<lparr>ro_isActive := False, ro_updatedBy := deletedBy, ro_updatedAt := db_now db,
                      ro_version := ro_version r + 1\<rparr>)
      in (find P (db_roles db) \<noteq> None, update_roles P f db))"

definition repo_getRoleById :: "string \<Rightarrow> RbacDb \<Rightarrow> Role option" where
  "repo_getRoleById roleId db = find (\<lambda>r. ro_id r = roleId) (db_roles db)"

definition repo_getRoleByName :: "string \<Rightarrow> RbacDb \<Rightarrow> Role option" where
  "repo_getRoleByName name db = find (\<lambda>r. js_lower (ro_name r) = js_lower name \<and> ro_isActive r) (db_roles db)"

definition repo_getAllActiveRoles :: "RbacDb \<Rightarrow> (Role \<times> nat) list" where
  "repo_getAllActiveRoles db =
     map (\<lambda>r. (r, length (filter (\<lambda>q. rp_roleId q = ro_id r) (db_rolePermissions db))))
       (filter ro_isActive (db_roles db))"

subsection \<open>Permissions of a role\<close>

definition insert_rolePermission :: "string \<Rightarrow> string \<Rightarrow> string \<Rightarrow> RbacDb \<Rightarrow> (rbac_error, RbacDb) result" where
  "insert_rolePermission grantedBy roleId k db =
     (if \<exists>q \<in> set (db_rolePermissions db). rp_roleId q = roleId \<and> rp_permissionKey q = k then Inr db
      else if \<forall>r \<in> set (db_roles db). ro_id r \<noteq> roleId then Inl ForeignKeyViolation
      else Inr (db\<lparr>db_rolePermissions := db_rolePermissions db @
             [\<lparr>rp_roleId = roleId, rp_permissionKey = k, rp_grantedAt = db_now db, rp_grantedBy = grantedBy\<rparr>]\<rparr>))"

fun insert_rolePermissions :: "string \<Rightarrow> string \<Rightarrow> string list \<Rightarrow> RbacDb \<Rightarrow> (rbac_error, RbacDb) result" where
  "insert_rolePermissions by roleId [] db = Inr db"
| "insert_rolePermissions by roleId (k # ks) db =
     and_then (insert_rolePermission by roleId k db) (insert_rolePermissions by roleId ks)"

definition repo_setRolePermissions :: "string \<Rightarrow> string list \<Rightarrow> string \<Rightarrow> RbacDb \<Rightarrow> (rbac_error, RbacDb) result" where
  "repo_setRolePermissions roleId permissionKeys grantedBy db =
     insert_rolePermissions grantedBy roleId permissionKeys
       (db\<lparr>db_rolePermissions := filter (\<lambda>q. rp_roleId q \<noteq> roleId) (db_rolePermissions db)\<rparr>)"

definition repo_getRolePermissions :: "string \<Rightarrow> RbacDb \<Rightarrow> string list" where
  "repo_getRolePermissions roleId db =
     map rp_permissionKey (filter (\<lambda>q. rp_roleId q = roleId) (db_rolePermissions db))"

subsection \<open>Roles of a user\<close>

definition zero_uuid :: string where
  "zero_uuid = ''00000000-0000-0000-0000-000000000000''"

text \<open>The key of the unique index on assignments.\<close>

definition assignment_key :: "UserRole \<Rightarrow> string \<times> string \<times> string \<times> string" where
  "assignment_key u = (ur_userId u, ur_roleId u, coalesce (ur_scopeType u) [], coalesce (ur_scopeId u) zero_uuid)"

definition repo_assignUserRole ::
  "(nat \<Rightarrow> string) \<Rightarrow> string \<Rightarrow> string \<Rightarrow> string option \<Rightarrow> string option \<Rightarrow> string \<Rightarrow> int option \<Rightarrow> RbacDb
     \<Rightarrow> (rbac_error, UserRole \<times> RbacDb) result" where
  "repo_assignUserRole gen userId roleId scopeType scopeId assignedBy expiresAt db =
     (let row = \<lparr>ur_id = gen (db_seq db), ur_userId = userId, ur_roleId = roleId, ur_scopeType = scopeType,
                 ur_scopeId = scopeId, ur_assignedAt = db_now db, ur_assignedBy = assignedBy,
                 ur_expiresAt = expiresAt, ur_isActive = True\<rparr>;
          same = (\<lambda>u. assignment_key u = assignment_key row);
          f = (\<lambda>u. u\<lparr>ur_isActive := True, ur_assignedAt := db_now db, ur_assignedBy := assignedBy,
                      ur_expiresAt := expiresAt\<rparr>)
      in case find same (db_userRoles db) of
           Some u \<Rightarrow> Inr (f u, db\<lparr>db_userRoles := map (\<lambda>u. if same u then f u else u) (db_userRoles db)\<rparr>)
         | None \<Rightarrow>
             if \<forall>r \<in> set (db_roles db). ro_id r \<noteq> roleId then Inl ForeignKeyViolation
             else Inr (row, db\<lparr>db_userRoles := db_userRoles db @ [row], db_seq := Suc (db_seq db)\<rparr>))"

definition repo_removeUserRole ::
  "string \<Rightarrow> string \<Rightarrow> string option \<Rightarrow> string option \<Rightarrow> RbacDb \<Rightarrow> bool \<times> RbacDb" where
  "repo_removeUserRole userId roleId scopeType scopeId db =
     (let P = (\<lambda>u. ur_userId u = userId \<and> ur_roleId u = roleId \<and> ur_scopeType u = scopeType
                \<and> ur_scopeId u = scopeId \<and> ur_isActive u)
      in (find P (db_userRoles db) \<noteq> None,
          db\<lparr>db_userRoles := map (\<lambda>u. if P u then u\<lparr>ur_isActive := False\<rparr> else u) (db_userRoles db)\<rparr>))"

text \<open>The conditions shared by the three queries on assignments.\<close>

definition live_assignment :: "RbacDb \<Rightarrow> string \<Rightarrow> UserRole \<Rightarrow> bool" where
  "live_assignment db userId u \<longleftrightarrow> ur_userId u = userId \<and> ur_isActive u
     \<and> (case ur_expiresAt u of None \<Rightarrow> True | Some t \<Rightarrow> t > db_now db)"

definition active_roles_of :: "RbacDb \<Rightarrow> UserRole \<Rightarrow> Role list" where
  "active_roles_of db u = filter (\<lambda>r. ro_id r = ur_roleId u \<and> ro_isActive r) (db_roles db)"

definition repo_getUserRoles :: "string \<Rightarrow> RbacDb \<Rightarrow> (UserRole \<times> string) list" where
  "repo_getUserRoles userId db =
     concat (map (\<lambda>u. map (\<lambda>r. (u, ro_name r)) (active_roles_of db u))
       (filter (live_assignment db userId) (db_userRoles db)))"

definition repo_getUserEffectivePermissions :: "string \<Rightarrow> RbacDb \<Rightarrow> EffectivePermission list" where
  "repo_getUserEffectivePermissions userId db =
     remdups (concat (map (\<lambda>u. concat (map (\<lambda>r.
         map (\<lambda>q. \<lparr>ep_permissionKey = rp_permissionKey q, ep_roleId = ro_id r, ep_roleName = ro_name r,
                  ep_scopeType = ur_scopeType u, ep_scopeId = ur_scopeId u\<rparr>)
           (filter (\<lambda>q. rp_roleId q = ro_id r) (db_rolePermissions db)))
         (active_roles_of db u)))
       (filter (live_assignment db userId) (db_userRoles db))))"

text \<open>\<open>x || null\<close> on a nullable string.\<close>

definition or_null :: "string option \<Rightarrow> string option" where
  "or_null s = (if truthy_str s then s else None)"

text \<open>SQL equality is never true on null.\<close>

definition sql_eq :: "'a option \<Rightarrow> 'a option \<Rightarrow> bool" where
  "sql_eq x y \<longleftrightarrow> x \<noteq> None \<and> x = y"

definition scope_matches :: "string option \<Rightarrow> string option \<Rightarrow> UserRole \<Rightarrow> bool" where
  "scope_matches scopeType scopeId u \<longleftrightarrow>
     ur_scopeType u = None \<or>
     sql_eq (ur_scopeType u) (or_null scopeType) \<and> (sql_eq (ur_scopeId u) (or_null scopeId) \<or> ur_scopeId u = None)"

definition repo_userHasPermission :: "string \<Rightarrow> string \<Rightarrow> string option \<Rightarrow> string option \<Rightarrow> RbacDb \<Rightarrow> bool" where
  "repo_userHasPermission userId k scopeType scopeId db \<longleftrightarrow>
     (\<exists>u \<in> set (db_userRoles db). live_assignment db userId u \<and> scope_matches scopeType scopeId u \<and>
        (\<exists>r \<in> set (active_roles_of db u).
           \<exists>q \<in> set (db_rolePermissions db). rp_roleId q = ro_id r \<and> rp_permissionKey q = k))"

definition repo_checkRoleInUse :: "string \<Rightarrow> RbacDb \<Rightarrow> bool" where
  "repo_checkRoleInUse roleId db \<longleftrightarrow> (\<exists>u \<in> set (db_userRoles db). ur_roleId u = roleId \<and> ur_isActive u)"

subsection \<open>Audit log\<close>

record AuditData =
  ad_actorUserId :: string
  ad_targetUserId :: "string option"
  ad_targetRoleId :: "string option"
  ad_action :: RbacAuditAction
  ad_previousState :: "json_object option"
  ad_newState :: "json_object option"
  ad_ipAddress :: "string option"
  ad_userAgent :: "string option"

definition repo_createAuditLog :: "(nat \<Rightarrow> string) \<Rightarrow> AuditData \<Rightarrow> RbacDb \<Rightarrow> RbacDb" where
  "repo_createAuditLog gen d db =
     db\<lparr>db_auditLogs := db_auditLogs db @
          [\<lparr>al_id = gen (db_seq db), al_actorUserId = ad_actorUserId d,
            al_targetUserId = or_null (ad_targetUserId d), al_targetRoleId = or_null (ad_targetRoleId d),
            al_action = ad_action d, al_previousState = ad_previousState d, al_newState = ad_newState d,
            al_ipAddress = or_null (ad_ipAddress d), al_userAgent = or_null (ad_userAgent d),
            al_timestamp = db_now db\<rparr>],
        db_seq := Suc (db_seq db)\<rparr>"

end
