(* ===== verification/RbacService.thy ===== *)
theory RbacService imports RbacStore
begin

section \<open>The RBAC service\<close>

text \<open>
  \<open>SamplePOS.Server/src/rbac/service.ts\<close>: the checks before each change of a role or an
  assignment, the transaction around it, the audit record in it, and the permission cache of the
  service object. \<open>RbacState\<close> is the database and that cache. A thrown error is \<open>Inl\<close>; inside
  a transaction it rolls the database back. The notification that \<open>assignRoleToUser\<close> publishes
  after its commit is outside the model. Reads before a transaction and its body see the same
  database: no other session interleaves within one operation.
\<close>

record RbacState =
  rs_db :: RbacDb
  rs_cache :: "(string \<times> string list \<times> int) list"

definition transaction ::
  "(RbacDb \<Rightarrow> (rbac_error, 'a \<times> RbacDb) result) \<Rightarrow> RbacState \<Rightarrow> (rbac_error, 'a) result \<times> RbacState" where
  "transaction body s =
     (case body (rs_db s) of
        Inl e \<Rightarrow> (Inl e, s)
      | Inr (a, db) \<Rightarrow> (Inr a, s\<lparr>rs_db := db\<rparr>))"

definition invalidatePermissionCache :: "RbacState \<Rightarrow> RbacState" where
  "invalidatePermissionCache s = s\<lparr>rs_cache := []\<rparr>"

definition invalidateUserPermissionCache :: "string \<Rightarrow> RbacState \<Rightarrow> RbacState" where
  "invalidateUserPermissionCache userId s =
     s\<lparr>rs_cache := filter (\<lambda>(k, _). \<not> js_starts_with k (userId @ '':'')) (rs_cache s)\<rparr>"

text \<open>What follows the commit in the \<open>try\<close> block.\<close>

definition after_commit ::
  "(RbacState \<Rightarrow> RbacState) \<Rightarrow> (rbac_error, 'a) result \<times> RbacState \<Rightarrow> (rbac_error, 'a) result \<times> RbacState" where
  "after_commit f o1 = (case o1 of (Inl e, s) \<Rightarrow> (Inl e, s) | (Inr a, s) \<Rightarrow> (Inr a, f s))"

subsection \<open>Changing roles\<close>

record CreateRoleInput =
  cr_name :: string
  cr_description :: string
  cr_permissionKeys :: "string list"

record UpdateRoleInput =
  up_name :: "string option"
  up_description :: "string option"
  up_permissionKeys :: "string list option"

definition invalid_key_error :: "string \<Rightarrow> rbac_error" where
  "invalid_key_error k = RbacError (''Invalid permission key: '' @ k) ''INVALID_PERMISSION'' 400"

definition duplicate_role_error :: "string \<Rightarrow> rbac_error" where
  "duplicate_role_error n = RbacError (''Role with name '' @ [CHR 0x22] @ n @ [CHR 0x22] @ '' already exists'') ''DUPLICATE_ROLE'' 409"

definition role_audit :: "string \<Rightarrow> string \<Rightarrow> RbacAuditAction \<Rightarrow> json_object option \<Rightarrow> json_object option
    \<Rightarrow> string option \<Rightarrow> string option \<Rightarrow> AuditData" where
  "role_audit actor roleId act prev new ip ua =
     \<lparr>ad_actorUserId = actor, ad_targetUserId = None, ad_targetRoleId = Some roleId, ad_action = act,
      ad_previousState = prev, ad_newState = new, ad_ipAddress = ip, ad_userAgent = ua\<rparr>"

definition svc_createRole ::
  "(nat \<Rightarrow> string) \<Rightarrow> CreateRoleInput \<Rightarrow> string \<Rightarrow> string option \<Rightarrow> string option \<Rightarrow> RbacState
     \<Rightarrow> (rbac_error, Role) result \<times> RbacState" where
  "svc_createRole gen i actor ip ua s =
     (case find (\<lambda>k. \<not> isValidPermissionKey k) (cr_permissionKeys i) of
        Some k \<Rightarrow> (Inl (invalid_key_error k), s)
      | None \<Rightarrow>
          if repo_getRoleByName (cr_name i) (rs_db s) \<noteq> None then (Inl (duplicate_role_error (cr_name i)), s)
          else transaction (\<lambda>db.
            and_then (repo_createRole gen (cr_name i) (cr_description i) actor db) (\<lambda>(role, db).
            and_then (repo_setRolePermissions (ro_id role) (cr_permissionKeys i) actor db) (\<lambda>db.
            Inr (role, repo_createAuditLog gen (role_audit actor (ro_id role) role_created None
              (Some [(''name'', JStr (ro_name role)), (''description'', JStr (ro_description role)),
                     (''permissions'', JStrs (cr_permissionKeys i))]) ip ua) db)))) s)"

text \<open>The guards of \<open>updateRole\<close>, in order; \<open>None\<close> when all pass.\<close>

definition system_role_guard :: "Role \<Rightarrow> UpdateRoleInput \<Rightarrow> rbac_error option" where
  "system_role_guard r i =
     (if \<not> ro_isSystemRole r then None
      else if truthy_str (up_name i) \<and> up_name i \<noteq> Some (ro_name r)
        then Some (RbacError ''System role names cannot be changed'' ''SYSTEM_ROLE_NAME_IMMUTABLE'' 403)
      else if truthy_str (up_description i) \<and> up_description i \<noteq> Some (ro_description r)
        then Some (RbacError ''System role descriptions cannot be changed'' ''SYSTEM_ROLE_DESC_IMMUTABLE'' 403)
      else if up_permissionKeys i = None \<or> up_permissionKeys i = Some []
        then Some (RbacError ''System roles require at least one permission'' ''SYSTEM_ROLE_EMPTY_PERMS'' 400)
      else None)"

definition rename_guard :: "Role \<Rightarrow> string \<Rightarrow> UpdateRoleInput \<Rightarrow> RbacDb \<Rightarrow> rbac_error option" where
  "rename_guard r roleId i db =
     (if \<not> ro_isSystemRole r \<and> truthy_str (up_name i) \<and> up_name i \<noteq> Some (ro_name r)
      then (case repo_getRoleByName (the (up_name i)) db of
              None \<Rightarrow> None
            | Some d \<Rightarrow> if ro_id d \<noteq> roleId then Some (duplicate_role_error (the (up_name i))) else None)
      else None)"

definition keys_guard :: "UpdateRoleInput \<Rightarrow> rbac_error option" where
  "keys_guard i =
     (case up_permissionKeys i of
        None \<Rightarrow> None
      | Some ks \<Rightarrow> map_option invalid_key_error (find (\<lambda>k. \<not> isValidPermissionKey k) ks))"

definition permissions_audit :: "string \<Rightarrow> string \<Rightarrow> string list \<Rightarrow> string list \<Rightarrow> string option \<Rightarrow> string option \<Rightarrow> AuditData" where
  "permissions_audit actor roleId prev new ip ua =
     role_audit actor roleId role_permissions_updated
       (Some [(''permissions'', JStrs prev)]) (Some [(''permissions'', JStrs new)]) ip ua"

definition name_state :: "Role \<Rightarrow> json_object" where
  "name_state r = [(''name'', JStr (ro_name r)), (''description'', JStr (ro_description r)), (''version'', JNum (ro_version r))]"

definition update_system_role ::
  "(nat \<Rightarrow> string) \<Rightarrow> string \<Rightarrow> UpdateRoleInput \<Rightarrow> string \<Rightarrow> string option \<Rightarrow> string option \<Rightarrow> string list
     \<Rightarrow> RbacDb \<Rightarrow> (rbac_error, Role \<times> RbacDb) result" where
  "update_system_role gen roleId i actor ip ua prev db =
     (let ks = the (up_permissionKeys i) in
      and_then (repo_setRolePermissions roleId ks actor db) (\<lambda>db.
        case repo_touchSystemRole roleId actor db of
          (None, _) \<Rightarrow> Inl (RbacError ''Failed to update system role'' ''UPDATE_FAILED'' 500)
        | (Some r, db) \<Rightarrow> Inr (r, repo_createAuditLog gen (permissions_audit actor roleId prev ks ip ua) db)))"

definition update_custom_role ::
  "(nat \<Rightarrow> string) \<Rightarrow> string \<Rightarrow> UpdateRoleInput \<Rightarrow> string \<Rightarrow> string option \<Rightarrow> string option \<Rightarrow> Role \<Rightarrow> string list
     \<Rightarrow> RbacDb \<Rightarrow> (rbac_error, Role \<times> RbacDb) result" where
  "update_custom_role gen roleId i actor ip ua existing prev db =
     and_then (repo_updateRole roleId (up_name i) (up_description i) actor db) (\<lambda>(u, db).
       case u of
         None \<Rightarrow> Inl (RbacError ''Failed to update role'' ''UPDATE_FAILED'' 500)
       | Some r \<Rightarrow>
           and_then
             (case up_permissionKeys i of
                None \<Rightarrow> Inr db
              | Some ks \<Rightarrow> and_then (repo_setRolePermissions roleId ks actor db) (\<lambda>db.
                  Inr (repo_createAuditLog gen (permissions_audit actor roleId prev ks ip ua) db)))
             (\<lambda>db. Inr (r, repo_createAuditLog gen
                (role_audit actor roleId role_updated (Some (name_state existing)) (Some (name_state r)) ip ua) db)))"

definition svc_updateRole ::
  "(nat \<Rightarrow> string) \<Rightarrow> string \<Rightarrow> UpdateRoleInput \<Rightarrow> string \<Rightarrow> string option \<Rightarrow> string option \<Rightarrow> RbacState
     \<Rightarrow> (rbac_error, Role) result \<times> RbacState" where
  "svc_updateRole gen roleId i actor ip ua s =
     (case repo_getRoleById roleId (rs_db s) of
        None \<Rightarrow> (Inl (RbacError ''Role not found'' ''ROLE_NOT_FOUND'' 404), s)
      | Some existing \<Rightarrow>
          case first_some [system_role_guard existing i, rename_guard existing roleId i (rs_db s), keys_guard i] of
            Some e \<Rightarrow> (Inl e, s)
          | None \<Rightarrow>
              let prev = repo_getRolePermissions roleId (rs_db s) in
              after_commit invalidatePermissionCache
                (transaction (if ro_isSystemRole existing then update_system_role gen roleId i actor ip ua prev
                              else update_custom_role gen roleId i actor ip ua existing prev) s))"

definition svc_deleteRole ::
  "(nat \<Rightarrow> string) \<Rightarrow> string \<Rightarrow> string \<Rightarrow> string option \<Rightarrow> string option \<Rightarrow> RbacState
     \<Rightarrow> (rbac_error, unit) result \<times> RbacState" where
  "svc_deleteRole gen roleId actor ip ua s =
     (case repo_getRoleById roleId (rs_db s) of
        None \<Rightarrow> (Inl (RbacError ''Role not found'' ''ROLE_NOT_FOUND'' 404), s)
      | Some role \<Rightarrow>
          if ro_isSystemRole role then (Inl (RbacError ''System roles cannot be deleted'' ''SYSTEM_ROLE_IMMUTABLE'' 403), s)
          else if repo_checkRoleInUse roleId (rs_db s)
            then (Inl (RbacError ''Role is currently assigned to users and cannot be deleted'' ''ROLE_IN_USE'' 409), s)
          else after_commit invalidatePermissionCache
            (transaction (\<lambda>db.
               case repo_softDeleteRole roleId actor db of
                 (False, _) \<Rightarrow> Inl (RbacError ''Failed to delete role'' ''DELETE_FAILED'' 500)
               | (True, db) \<Rightarrow> Inr ((), repo_createAuditLog gen (role_audit actor roleId role_deleted
                   (Some [(''name'', JStr (ro_name role)), (''isActive'', JBool True)])
                   (Some [(''name'', JStr (ro_name role)), (''isActive'', JBool False)]) ip ua) db)) s))"

definition svc_getRole :: "string \<Rightarrow> RbacState \<Rightarrow> (rbac_error, Role \<times> string list) result" where
  "svc_getRole roleId s =
     (case repo_getRoleById roleId (rs_db s) of
        Some r \<Rightarrow> if ro_isActive r then Inr (r, repo_getRolePermissions roleId (rs_db s))
                  else Inl (RbacError ''Role not found'' ''ROLE_NOT_FOUND'' 404)
      | None \<Rightarrow> Inl (RbacError ''Role not found'' ''ROLE_NOT_FOUND'' 404))"

subsection \<open>Assigning roles\<close>

record AssignUserRoleInput =
  as_userId :: string
  as_roleId :: string
  as_scopeType :: "string option"
  as_scopeId :: "string option"
  as_expiresAt :: "int option"

definition svc_assignRoleToUser ::
  "(nat \<Rightarrow> string) \<Rightarrow> AssignUserRoleInput \<Rightarrow> string \<Rightarrow> string option \<Rightarrow> string option \<Rightarrow> RbacState
     \<Rightarrow> (rbac_error, UserRole) result \<times> RbacState" where
  "svc_assignRoleToUser gen i actor ip ua s =
     (case repo_getRoleById (as_roleId i) (rs_db s) of
        None \<Rightarrow> (Inl (RbacError ''Role not found'' ''ROLE_NOT_FOUND'' 404), s)
      | Some role \<Rightarrow>
          if \<not> ro_isActive role then (Inl (RbacError ''Role not found'' ''ROLE_NOT_FOUND'' 404), s)
          else after_commit (invalidateUserPermissionCache (as_userId i))
            (transaction (\<lambda>db.
               and_then (repo_assignUserRole gen (as_userId i) (as_roleId i) (or_null (as_scopeType i))
                   (or_null (as_scopeId i)) actor (as_expiresAt i) db) (\<lambda>(ur, db).
               Inr (ur, repo_createAuditLog gen
                 \<lparr>ad_actorUserId = actor, ad_targetUserId = Some (as_userId i), ad_targetRoleId = Some (as_roleId i),
                  ad_action = user_role_assigned, ad_previousState = None,
                  ad_newState = Some [(''roleId'', JStr (as_roleId i)), (''roleName'', JStr (ro_name role)),
                    (''scopeType'', opt_str (as_scopeType i)), (''scopeId'', opt_str (as_scopeId i)),
                    (''expiresAt'', opt_num (as_expiresAt i))],
                  ad_ipAddress = ip, ad_userAgent = ua\<rparr> db))) s))"

definition svc_removeRoleFromUser ::
  "(nat \<Rightarrow> string) \<Rightarrow> string \<Rightarrow> string \<Rightarrow> string option \<Rightarrow> string option \<Rightarrow> string \<Rightarrow> string option \<Rightarrow> string option
     \<Rightarrow> RbacState \<Rightarrow> (rbac_error, unit) result \<times> RbacState" where
  "svc_removeRoleFromUser gen userId roleId scopeType scopeId actor ip ua s =
     (let role = repo_getRoleById roleId (rs_db s) in
      after_commit (invalidateUserPermissionCache userId)
        (transaction (\<lambda>db.
           case repo_removeUserRole userId roleId (or_null scopeType) (or_null scopeId) db of
             (False, _) \<Rightarrow> Inl (RbacError ''User role assignment not found'' ''USER_ROLE_NOT_FOUND'' 404)
           | (True, db) \<Rightarrow> Inr ((), repo_createAuditLog gen
               \<lparr>ad_actorUserId = actor, ad_targetUserId = Some userId, ad_targetRoleId = Some roleId,
                ad_action = user_role_removed,
                ad_previousState = Some [(''roleId'', JStr roleId), (''roleName'', opt_str (map_option ro_name role)),
                  (''scopeType'', opt_str scopeType), (''scopeId'', opt_str scopeId)],
                ad_newState = None, ad_ipAddress = ip, ad_userAgent = ua\<rparr> db)) s))"

subsection \<open>Asking for permissions\<close>

definition cache_key :: "string \<Rightarrow> string option \<Rightarrow> string option \<Rightarrow> string" where
  "cache_key userId scopeType scopeId = userId @ '':'' @ str_or scopeType ''global'' @ '':'' @ str_or scopeId ''all''"

definition svc_checkPermission :: "string \<Rightarrow> string \<Rightarrow> string option \<Rightarrow> string option \<Rightarrow> RbacState \<Rightarrow> bool" where
  "svc_checkPermission userId k scopeType scopeId s =
     (if \<not> isValidPermissionKey k then False
      else case map_of (rs_cache s) (cache_key userId scopeType scopeId) of
             Some (perms, expiry) \<Rightarrow>
               if expiry > db_now (rs_db s) then k \<in> set perms
               else repo_userHasPermission userId k scopeType scopeId (rs_db s)
           | None \<Rightarrow> repo_userHasPermission userId k scopeType scopeId (rs_db s))"

text \<open>The permission set of \<open>buildAuthorizationContext\<close>; its second field groups the same rows by key.\<close>

definition svc_context_permissions :: "string \<Rightarrow> RbacState \<Rightarrow> string set" where
  "svc_context_permissions userId s =
     set (map ep_permissionKey (repo_getUserEffectivePermissions userId (rs_db s)))"

definition svc_context_scoped :: "string \<Rightarrow> RbacState \<Rightarrow> string \<Rightarrow> EffectivePermission list" where
  "svc_context_scoped userId s k =
     filter (\<lambda>e. ep_permissionKey e = k) (repo_getUserEffectivePermissions userId (rs_db s))"

definition svc_logPermissionDenied ::
  "(nat \<Rightarrow> string) \<Rightarrow> string \<Rightarrow> string \<Rightarrow> string option \<Rightarrow> string option \<Rightarrow> RbacState \<Rightarrow> RbacState" where
  "svc_logPermissionDenied gen userId k ip ua s =
     snd (transaction (\<lambda>db. Inr ((), repo_createAuditLog gen
       \<lparr>ad_actorUserId = userId, ad_targetUserId = Some userId, ad_targetRoleId = None, ad_action = permission_denied,
        ad_previousState = None, ad_newState = Some [(''permissionKey'', JStr k), (''denied'', JBool True)],
        ad_ipAddress = ip, ad_userAgent = ua\<rparr> db)) s)"

subsection \<open>The service as a transition system\<close>

text \<open>One step is one call of a mutating operation, or the passing of time.\<close>

inductive rbac_step :: "(nat \<Rightarrow> string) \<Rightarrow> RbacState \<Rightarrow> RbacState \<Rightarrow> bool" for gen where
  step_create: "rbac_step gen s (snd (svc_createRole gen i actor ip ua s))"
| step_update: "rbac_step gen s (snd (svc_updateRole gen roleId j actor ip ua s))"
| step_delete: "rbac_step gen s (snd (svc_deleteRole gen roleId actor ip ua s))"
| step_assign: "rbac_step gen s (snd (svc_assignRoleToUser gen a actor ip ua s))"
| step_remove: "rbac_step gen s (snd (svc_removeRoleFromUser gen userId roleId st si actor ip ua s))"
| step_denied: "rbac_step gen s (svc_logPermissionDenied gen userId k ip ua s)"
| step_time: "db_now (rs_db s) \<le> t \<Longrightarrow> rbac_step gen s (s\<lparr>rs_db := (rs_db s)\<lparr>db_now := t\<rparr>\<rparr>)"

definition rbac_reach :: "(nat \<Rightarrow> string) \<Rightarrow> RbacState \<Rightarrow> RbacState \<Rightarrow> bool" where
  "rbac_reach gen s0 s \<longleftrightarrow> (rbac_step gen)\<^sup>*\<^sup>* s0 s"

subsection \<open>Frames of the repository operations\<close>

definition grant_key :: "RolePermission \<Rightarrow> string \<times> string" where
  "grant_key q = (rp_roleId q, rp_permissionKey q)"

definition grants :: "RbacDb \<Rightarrow> (string \<times> string) set" where
  "grants db = grant_key ` set (db_rolePermissions db)"

definition role_ids :: "RbacDb \<Rightarrow> string set" where
  "role_ids db = ro_id ` set (db_roles db)"

lemma insert_rolePermission_spec:
  assumes "insert_rolePermission by rid k db = Inr db'"
  shows "\<exists>P. db' = db\<lparr>db_rolePermissions := P\<rparr> \<and> grants db' = insert (rid, k) (grants db)
    \<and> (distinct (map grant_key (db_rolePermissions db)) \<longrightarrow> distinct (map grant_key P))
    \<and> ((rid, k) \<in> grants db \<or> rid \<in> role_ids db)"
proof (cases "\<exists>q \<in> set (db_rolePermissions db). rp_roleId q = rid \<and> rp_permissionKey q = k")
  case True
  then have "db' = db" "(rid, k) \<in> grants db" using assms
    by (auto simp: insert_rolePermission_def grants_def grant_key_def)
  then show ?thesis by (intro exI [of _ "db_rolePermissions db"]) (auto simp: insert_absorb)
next
  case False
  let ?q = "\<lparr>rp_roleId = rid, rp_permissionKey = k, rp_grantedAt = db_now db, rp_grantedBy = by\<rparr>"
  from False assms have "rid \<in> role_ids db" "db' = db\<lparr>db_rolePermissions := db_rolePermissions db @ [?q]\<rparr>"
    by (auto simp: insert_rolePermission_def role_ids_def split: if_splits)
  with False show ?thesis
    by (intro exI [of _ "db_rolePermissions db @ [?q]"]) (auto simp: grants_def grant_key_def)
qed

lemma insert_rolePermissions_spec:
  "insert_rolePermissions by rid ks db = Inr db' \<Longrightarrow>
     \<exists>P. db' = db\<lparr>db_rolePermissions := P\<rparr> \<and> grants db' = grants db \<union> {rid} \<times> set ks
       \<and> (distinct (map grant_key (db_rolePermissions db)) \<longrightarrow> distinct (map grant_key P))
       \<and> (ks = [] \<or> rid \<in> role_ids db \<or> {rid} \<times> set ks \<subseteq> grants db)"
proof (induction ks arbitrary: db)
  case Nil
  then show ?case by (auto intro!: exI [of _ "db_rolePermissions db"])
next
  case (Cons k ks)
  then obtain db1 where 1: "insert_rolePermission by rid k db = Inr db1"
    and 2: "insert_rolePermissions by rid ks db1 = Inr db'" by (auto simp: and_then_Inr_iff)
  from insert_rolePermission_spec [OF 1] obtain P1 where P1: "db1 = db\<lparr>db_rolePermissions := P1\<rparr>"
      "grants db1 = insert (rid, k) (grants db)"
      "distinct (map grant_key (db_rolePermissions db)) \<longrightarrow> distinct (map grant_key P1)"
      "(rid, k) \<in> grants db \<or> rid \<in> role_ids db" by blast
  from Cons.IH [OF 2] obtain P where P: "db' = db1\<lparr>db_rolePermissions := P\<rparr>"
      "grants db' = grants db1 \<union> {rid} \<times> set ks"
      "distinct (map grant_key (db_rolePermissions db1)) \<longrightarrow> distinct (map grant_key P)"
      "ks = [] \<or> rid \<in> role_ids db1 \<or> {rid} \<times> set ks \<subseteq> grants db1" by blast
  show ?case using P1 P by (intro exI [of _ P]) (auto simp: role_ids_def)
qed

lemma image_filter: "f ` {q \<in> A. P (f q)} = {g \<in> f ` A. P g}"
  by blast

lemma setRolePermissions_spec:
  assumes "repo_setRolePermissions rid ks by db = Inr db'"
  shows "\<exists>P. db' = db\<lparr>db_rolePermissions := P\<rparr> \<and> grants db' = {g \<in> grants db. fst g \<noteq> rid} \<union> {rid} \<times> set ks
    \<and> (distinct (map grant_key (db_rolePermissions db)) \<longrightarrow> distinct (map grant_key P))
    \<and> (ks = [] \<or> rid \<in> role_ids db)"
proof -
  let ?db = "db\<lparr>db_rolePermissions := filter (\<lambda>q. rp_roleId q \<noteq> rid) (db_rolePermissions db)\<rparr>"
  have "grants ?db = grant_key ` {q \<in> set (db_rolePermissions db). fst (grant_key q) \<noteq> rid}"
    by (simp add: grants_def grant_key_def)
  also have "\<dots> = {g \<in> grants db. fst g \<noteq> rid}" unfolding grants_def by (rule image_filter)
  finally have g: "grants ?db = {g \<in> grants db. fst g \<noteq> rid}" .
  obtain P where P: "db' = ?db\<lparr>db_rolePermissions := P\<rparr>" "grants db' = grants ?db \<union> {rid} \<times> set ks"
      "distinct (map grant_key (db_rolePermissions ?db)) \<longrightarrow> distinct (map grant_key P)"
      "ks = [] \<or> rid \<in> role_ids ?db \<or> {rid} \<times> set ks \<subseteq> grants ?db"
    using insert_rolePermissions_spec [OF assms [unfolded repo_setRolePermissions_def]] by blast
  have "db' = db\<lparr>db_rolePermissions := P\<rparr>" using P(1) by simp
  moreover have "distinct (map grant_key (db_rolePermissions db)) \<longrightarrow> distinct (map grant_key P)"
    using P(3) by (simp add: distinct_map_filter)
  moreover have "ks = [] \<or> rid \<in> role_ids db" using P(4) unfolding g by (cases ks) (auto simp: role_ids_def)
  ultimately show ?thesis using P(2) unfolding g by blast
qed

lemma insert_rolePermissions_total: "rid \<in> role_ids db \<Longrightarrow> \<exists>db'. insert_rolePermissions by rid ks db = Inr db'"
proof (induction ks arbitrary: db)
  case (Cons k ks)
  have "\<exists>db1. insert_rolePermission by rid k db = Inr db1"
    using Cons.prems by (auto simp: insert_rolePermission_def role_ids_def)
  then obtain db1 where 1: "insert_rolePermission by rid k db = Inr db1" by blast
  then have "rid \<in> role_ids db1" using insert_rolePermission_spec [OF 1] Cons.prems by (auto simp: role_ids_def)
  from Cons.IH [OF this] 1 show ?case by auto
qed simp

lemma setRolePermissions_total: "rid \<in> role_ids db \<Longrightarrow> \<exists>db'. repo_setRolePermissions rid ks by db = Inr db'"
  unfolding repo_setRolePermissions_def by (rule insert_rolePermissions_total) (simp add: role_ids_def)

lemma update_roles_simps [simp]:
  "db_rolePermissions (update_roles P f db) = db_rolePermissions db"
  "db_userRoles (update_roles P f db) = db_userRoles db"
  "db_auditLogs (update_roles P f db) = db_auditLogs db"
  "db_seq (update_roles P f db) = db_seq db"
  "db_now (update_roles P f db) = db_now db"
  "db_roles (update_roles P f db) = map (\<lambda>r. if P r then f r else r) (db_roles db)"
  by (simp_all add: update_roles_def)

lemma createAuditLog_simps [simp]:
  "db_roles (repo_createAuditLog gen d db) = db_roles db"
  "db_rolePermissions (repo_createAuditLog gen d db) = db_rolePermissions db"
  "db_userRoles (repo_createAuditLog gen d db) = db_userRoles db"
  "db_now (repo_createAuditLog gen d db) = db_now db"
  "db_seq (repo_createAuditLog gen d db) = Suc (db_seq db)"
  "\<exists>l. db_auditLogs (repo_createAuditLog gen d db) = db_auditLogs db @ [l] \<and> al_actorUserId l = ad_actorUserId d \<and> al_action l = ad_action d"
  by (simp_all add: repo_createAuditLog_def)

lemma map_update_same: "(\<And>r. g (f r) = g r) \<Longrightarrow> map g (map (\<lambda>r. if P r then f r else r) rs) = map g rs"
  by (induction rs) auto

subsection \<open>Well-formed databases\<close>

text \<open>The constraints of the schema, and what the service adds to them: every stored permission
  key is one of the catalog.\<close>

definition wf_db :: "(nat \<Rightarrow> string) \<Rightarrow> RbacDb \<Rightarrow> bool" where
  "wf_db gen db \<longleftrightarrow>
     distinct (map ro_id (db_roles db)) \<and> distinct (map ro_name (db_roles db))
     \<and> role_ids db \<subseteq> gen ` {..<db_seq db}
     \<and> distinct (map grant_key (db_rolePermissions db))
     \<and> (\<forall>(r, k) \<in> grants db. isValidPermissionKey k \<and> r \<in> role_ids db)
     \<and> distinct (map assignment_key (db_userRoles db))
     \<and> ur_roleId ` set (db_userRoles db) \<subseteq> role_ids db"

lemma wf_audit [simp]: "wf_db gen db \<Longrightarrow> wf_db gen (repo_createAuditLog gen d db)"
  by (auto simp: wf_db_def grants_def role_ids_def less_Suc_eq)

lemma wf_setRolePermissions:
  assumes "wf_db gen db" "repo_setRolePermissions rid ks by db = Inr db'" "\<forall>k \<in> set ks. isValidPermissionKey k"
  shows "wf_db gen db'"
proof -
  from setRolePermissions_spec [OF assms(2)] obtain P where P: "db' = db\<lparr>db_rolePermissions := P\<rparr>"
      "grants db' = {g \<in> grants db. fst g \<noteq> rid} \<union> {rid} \<times> set ks"
      "distinct (map grant_key (db_rolePermissions db)) \<longrightarrow> distinct (map grant_key P)"
      "ks = [] \<or> rid \<in> role_ids db" by blast
  have r: "role_ids db' = role_ids db" by (simp add: role_ids_def P(1))
  have "\<forall>(r, k) \<in> grants db'. isValidPermissionKey k \<and> r \<in> role_ids db'"
    using assms(1,3) P(2,4) unfolding r wf_db_def by (auto split: prod.splits)
  then show ?thesis using assms(1) P r by (simp add: wf_db_def)
qed

lemma wf_createRole:
  assumes "wf_db gen db" "inj gen" "repo_createRole gen n d a db = Inr (r, db')"
  shows "wf_db gen db'"
proof -
  have f: "gen (db_seq db) \<notin> role_ids db"
  proof
    assume "gen (db_seq db) \<in> role_ids db"
    then obtain n where "n < db_seq db" "gen (db_seq db) = gen n" using assms(1) by (auto simp: wf_db_def)
    with assms(2) show False by (auto dest: injD)
  qed
  from assms(3) have new: "\<forall>q \<in> set (db_roles db). ro_name q \<noteq> n" "ro_id r = gen (db_seq db)" "ro_name r = n"
      "db' = db\<lparr>db_roles := db_roles db @ [r], db_seq := Suc (db_seq db)\<rparr>"
    by (auto simp: repo_createRole_def Let_def split: if_splits)
  then have ids: "role_ids db' = insert (gen (db_seq db)) (role_ids db)" "grants db' = grants db"
      "db_roles db' = db_roles db @ [r]" "db_seq db' = Suc (db_seq db)"
      "db_rolePermissions db' = db_rolePermissions db" "db_userRoles db' = db_userRoles db"
    by (auto simp: role_ids_def grants_def)
  have "gen (db_seq db) \<notin> ro_id ` set (db_roles db)" using f by (simp add: role_ids_def)
  moreover have "n \<notin> ro_name ` set (db_roles db)" using new(1) by auto
  ultimately show ?thesis
    using assms(1) unfolding wf_db_def ids by (auto simp: new(2,3) less_Suc_eq lessThan_Suc)
qed

lemma role_ids_update [simp]: "(\<And>r. ro_id (f r) = ro_id r) \<Longrightarrow> role_ids (update_roles P f db) = role_ids db"
proof -
  assume "\<And>r. ro_id (f r) = ro_id r"
  then have "map ro_id (db_roles (update_roles P f db)) = map ro_id (db_roles db)"
    unfolding update_roles_simps by (rule map_update_same)
  then have "set (map ro_id (db_roles (update_roles P f db))) = set (map ro_id (db_roles db))" by (rule arg_cong)
  then show ?thesis unfolding role_ids_def set_map .
qed

lemma wf_update_roles:
  assumes "wf_db gen db" "\<And>r. ro_id (f r) = ro_id r"
    and "distinct (map ro_name (db_roles (update_roles P f db)))"
  shows "wf_db gen (update_roles P f db)"
  using assms unfolding wf_db_def
  by (simp add: grants_def map_update_same del: map_map)

lemma wf_touch: "wf_db gen db \<Longrightarrow> wf_db gen (snd (repo_touchSystemRole rid a db))"
  unfolding repo_touchSystemRole_def Let_def snd_conv
  by (rule wf_update_roles) (simp_all add: wf_db_def map_update_same del: map_map)

lemma wf_softDelete: "wf_db gen db \<Longrightarrow> wf_db gen (snd (repo_softDeleteRole rid a db))"
  unfolding repo_softDeleteRole_def Let_def snd_conv
  by (rule wf_update_roles) (simp_all add: wf_db_def map_update_same del: map_map)

lemma wf_updateRole:
  assumes "wf_db gen db" "repo_updateRole rid n d a db = Inr (u, db')"
  shows "wf_db gen db'"
proof (cases "find (\<lambda>r. ro_id r = rid \<and> ro_isActive r \<and> \<not> ro_isSystemRole r) (db_roles db)")
  case None
  then show ?thesis using assms by (simp add: repo_updateRole_def)
next
  case (Some r0)
  let ?P = "\<lambda>r. ro_id r = rid \<and> ro_isActive r \<and> \<not> ro_isSystemRole r"
  let ?f = "\<lambda>r. r\<lparr>ro_version := ro_version r + 1, ro_updatedBy := a, ro_updatedAt := db_now db,
                      ro_name := coalesce n (ro_name r), ro_description := coalesce d (ro_description r)\<rparr>"
  from Some assms(2) have db': "db' = update_roles ?P ?f db"
    and free: "\<forall>q \<in> set (db_roles db). ro_id q \<noteq> rid \<longrightarrow> n \<noteq> Some (ro_name q)"
    by (auto simp: repo_updateRole_def Let_def split: if_splits)
  have ids: "distinct (db_roles db)" "inj_on ro_id (set (db_roles db))" "inj_on ro_name (set (db_roles db))"
    using assms(1) by (auto simp: wf_db_def distinct_map)
  have "inj_on (\<lambda>r. ro_name (if ?P r then ?f r else r)) (set (db_roles db))"
  proof (rule inj_onI)
    fix r q assume rq: "r \<in> set (db_roles db)" "q \<in> set (db_roles db)"
      and e: "ro_name (if ?P r then ?f r else r) = ro_name (if ?P q then ?f q else q)"
    show "r = q"
    proof (rule ccontr)
      assume "r \<noteq> q"
      then have "ro_id r \<noteq> ro_id q" "ro_name r \<noteq> ro_name q" using ids(2,3) rq by (auto dest: inj_onD)
      with e free rq show False by (cases n) (auto split: if_splits)
    qed
  qed
  then have "distinct (map ro_name (db_roles (update_roles ?P ?f db)))"
    using ids(1) by (simp add: distinct_map comp_def)
  then show ?thesis unfolding db' using assms(1) by (intro wf_update_roles) auto
qed

lemma wf_assign:
  assumes "wf_db gen db" "repo_assignUserRole gen uid rid st si a e db = Inr (u, db')"
  shows "wf_db gen db'"
proof -
  let ?row = "\<lparr>ur_id = gen (db_seq db), ur_userId = uid, ur_roleId = rid, ur_scopeType = st,
               ur_scopeId = si, ur_assignedAt = db_now db, ur_assignedBy = a, ur_expiresAt = e, ur_isActive = True\<rparr>"
  let ?f = "\<lambda>u. u\<lparr>ur_isActive := True, ur_assignedAt := db_now db, ur_assignedBy := a, ur_expiresAt := e\<rparr>"
  let ?same = "\<lambda>u. assignment_key u = assignment_key ?row"
  show ?thesis
  proof (cases "find ?same (db_userRoles db)")
    case None
    then have n: "\<forall>u \<in> set (db_userRoles db). \<not> ?same u" by (simp add: find_None_iff)
    from None assms(2) have "rid \<in> role_ids db"
      "db' = db\<lparr>db_userRoles := db_userRoles db @ [?row], db_seq := Suc (db_seq db)\<rparr>"
      by (auto simp: repo_assignUserRole_def Let_def role_ids_def split: if_splits)
    then show ?thesis using assms(1) n by (auto simp: wf_db_def role_ids_def grants_def less_Suc_eq)
  next
    case (Some u0)
    then have db': "db' = db\<lparr>db_userRoles := map (\<lambda>u. if ?same u then ?f u else u) (db_userRoles db)\<rparr>"
      using assms(2) by (auto simp: repo_assignUserRole_def Let_def)
    have k: "assignment_key (?f u) = assignment_key u" for u by (simp add: assignment_key_def)
    then have "map assignment_key (db_userRoles db') = map assignment_key (db_userRoles db)"
      unfolding db' by (simp add: map_update_same del: map_map)
    moreover have "map ur_roleId (db_userRoles db') = map ur_roleId (db_userRoles db)"
      unfolding db' by (simp add: map_update_same del: map_map)
    then have "ur_roleId ` set (db_userRoles db') = ur_roleId ` set (db_userRoles db)"
      by (metis set_map)
    moreover have "db_roles db' = db_roles db" "db_rolePermissions db' = db_rolePermissions db" "db_seq db' = db_seq db"
      by (simp_all add: db')
    ultimately show ?thesis using assms(1) by (simp add: wf_db_def role_ids_def grants_def)
  qed
qed

lemma wf_remove: "wf_db gen db \<Longrightarrow> wf_db gen (snd (repo_removeUserRole uid rid st si db))"
proof -
  assume a: "wf_db gen db"
  let ?db = "snd (repo_removeUserRole uid rid st si db)"
  have "map assignment_key (db_userRoles ?db) = map assignment_key (db_userRoles db)"
    unfolding repo_removeUserRole_def Let_def by (simp add: map_update_same assignment_key_def del: map_map)
  moreover have "map ur_roleId (db_userRoles ?db) = map ur_roleId (db_userRoles db)"
    unfolding repo_removeUserRole_def Let_def by (simp add: map_update_same del: map_map)
  then have "ur_roleId ` set (db_userRoles ?db) = ur_roleId ` set (db_userRoles db)"
    by (metis set_map)
  moreover have "db_roles ?db = db_roles db" "db_rolePermissions ?db = db_rolePermissions db" "db_seq ?db = db_seq db"
    by (simp_all add: repo_removeUserRole_def Let_def)
  ultimately show ?thesis using a by (simp add: wf_db_def role_ids_def grants_def)
qed

subsection \<open>Outcomes of the operations\<close>

lemma transaction_Inl [simp]: "transaction b s = (Inl e, s') \<longleftrightarrow> b (rs_db s) = Inl e \<and> s' = s"
  by (auto simp: transaction_def split: sum.splits prod.splits)

lemma transaction_Inr [simp]:
  "transaction b s = (Inr a, s') \<longleftrightarrow> (\<exists>db. b (rs_db s) = Inr (a, db) \<and> s' = s\<lparr>rs_db := db\<rparr>)"
  by (auto simp: transaction_def split: sum.splits prod.splits)

lemma after_commit_Inl [simp]: "after_commit f x = (Inl e, s') \<longleftrightarrow> x = (Inl e, s')"
  by (cases x) (auto simp: after_commit_def split: sum.splits)

lemma after_commit_Inr [simp]: "after_commit f x = (Inr a, s') \<longleftrightarrow> (\<exists>t. x = (Inr a, t) \<and> s' = f t)"
  by (cases x) (auto simp: after_commit_def split: sum.splits)

lemma invalidate_simps [simp]:
  "rs_db (invalidatePermissionCache s) = rs_db s" "rs_cache (invalidatePermissionCache s) = []"
  "rs_db (invalidateUserPermissionCache u s) = rs_db s"
  "rs_cache s = [] \<Longrightarrow> rs_cache (invalidateUserPermissionCache u s) = []"
  by (simp_all add: invalidatePermissionCache_def invalidateUserPermissionCache_def)

lemma createRole_ok:
  assumes "svc_createRole gen i actor ip ua s = (Inr r, s')"
  obtains db1 db2 d where "repo_createRole gen (cr_name i) (cr_description i) actor (rs_db s) = Inr (r, db1)"
    and "repo_setRolePermissions (ro_id r) (cr_permissionKeys i) actor db1 = Inr db2"
    and "\<forall>k \<in> set (cr_permissionKeys i). isValidPermissionKey k"
    and "s' = s\<lparr>rs_db := repo_createAuditLog gen d db2\<rparr>" and "ad_actorUserId d = actor"
  using assms
  by (auto simp: svc_createRole_def and_then_Inr_iff role_audit_def find_None_iff split: option.splits if_splits prod.splits)

lemma updateRole_ok:
  assumes "svc_updateRole gen rid i actor ip ua s = (Inr r, s')"
  obtains existing where "repo_getRoleById rid (rs_db s) = Some existing"
    and "system_role_guard existing i = None" "rename_guard existing rid i (rs_db s) = None" "keys_guard i = None"
    and "rs_cache s' = []"
    and "(if ro_isSystemRole existing then update_system_role gen rid i actor ip ua (repo_getRolePermissions rid (rs_db s)) (rs_db s)
          else update_custom_role gen rid i actor ip ua existing (repo_getRolePermissions rid (rs_db s)) (rs_db s)) = Inr (r, rs_db s')"
proof -
  from assms obtain existing where e: "repo_getRoleById rid (rs_db s) = Some existing"
    by (auto simp: svc_updateRole_def split: option.splits)
  with assms have "first_some [system_role_guard existing i, rename_guard existing rid i (rs_db s), keys_guard i] = None"
    by (auto simp: svc_updateRole_def split: option.splits)
  then have g: "system_role_guard existing i = None" "rename_guard existing rid i (rs_db s) = None" "keys_guard i = None"
    by (simp_all add: first_some_None_iff)
  show thesis
    by (rule that [OF e g]) (use assms e g in \<open>auto simp: svc_updateRole_def Let_def split: if_splits\<close>)
qed

lemma deleteRole_ok:
  assumes "svc_deleteRole gen rid actor ip ua s = (Inr u, s')"
  obtains role d where "repo_getRoleById rid (rs_db s) = Some role" "\<not> ro_isSystemRole role"
    and "\<not> repo_checkRoleInUse rid (rs_db s)" "rs_cache s' = []"
    and "fst (repo_softDeleteRole rid actor (rs_db s))"
    and "rs_db s' = repo_createAuditLog gen d (snd (repo_softDeleteRole rid actor (rs_db s)))" "ad_actorUserId d = actor"
  using assms
  by (auto simp: svc_deleteRole_def role_audit_def split: option.splits if_splits prod.splits bool.splits)

lemma assignRole_ok:
  assumes "svc_assignRoleToUser gen i actor ip ua s = (Inr u, s')"
  obtains role db1 d where "repo_getRoleById (as_roleId i) (rs_db s) = Some role" "ro_isActive role"
    and "repo_assignUserRole gen (as_userId i) (as_roleId i) (or_null (as_scopeType i)) (or_null (as_scopeId i))
           actor (as_expiresAt i) (rs_db s) = Inr (u, db1)"
    and "s' = invalidateUserPermissionCache (as_userId i) (s\<lparr>rs_db := repo_createAuditLog gen d db1\<rparr>)"
    and "ad_actorUserId d = actor"
  using assms
  by (auto simp: svc_assignRoleToUser_def and_then_Inr_iff split: option.splits if_splits prod.splits)

lemma removeRole_ok:
  assumes "svc_removeRoleFromUser gen uid rid st si actor ip ua s = (Inr u, s')"
  obtains d where "fst (repo_removeUserRole uid rid (or_null st) (or_null si) (rs_db s))"
    and "s' = invalidateUserPermissionCache uid (s\<lparr>rs_db :=
           repo_createAuditLog gen d (snd (repo_removeUserRole uid rid (or_null st) (or_null si) (rs_db s)))\<rparr>)"
    and "ad_actorUserId d = actor"
  using assms
  by (auto simp: svc_removeRoleFromUser_def Let_def split: prod.splits bool.splits)

lemma update_system_role_ok:
  assumes "update_system_role gen rid i actor ip ua prev db = Inr (r, db')"
  obtains db1 d where "repo_setRolePermissions rid (the (up_permissionKeys i)) actor db = Inr db1"
    and "db' = repo_createAuditLog gen d (snd (repo_touchSystemRole rid actor db1))" "ad_actorUserId d = actor"
    and "fst (repo_touchSystemRole rid actor db1) = Some r"
proof -
  from assms obtain db1 where 1: "repo_setRolePermissions rid (the (up_permissionKeys i)) actor db = Inr db1"
    by (auto simp: update_system_role_def Let_def and_then_Inr_iff)
  obtain t db2 where t: "repo_touchSystemRole rid actor db1 = (t, db2)" by (cases "repo_touchSystemRole rid actor db1")
  show thesis
    by (rule that [OF 1, of "permissions_audit actor rid prev (the (up_permissionKeys i)) ip ua"])
      (use assms 1 t in \<open>auto simp: update_system_role_def Let_def permissions_audit_def role_audit_def split: option.splits\<close>)
qed

lemma update_custom_role_ok:
  assumes "update_custom_role gen rid i actor ip ua existing prev db = Inr (r, db')"
  obtains db1 db2 d where "repo_updateRole rid (up_name i) (up_description i) actor db = Inr (Some r, db1)"
    and "up_permissionKeys i = None \<and> db2 = db1 \<or> (\<exists>ks d db3. up_permissionKeys i = Some ks
          \<and> repo_setRolePermissions rid ks actor db1 = Inr db3 \<and> db2 = repo_createAuditLog gen d db3 \<and> ad_actorUserId d = actor)"
    and "db' = repo_createAuditLog gen d db2" "ad_actorUserId d = actor"
proof -
  let ?d = "role_audit actor rid role_updated (Some (name_state existing)) (Some (name_state r)) ip ua"
  from assms obtain db1 where 1: "repo_updateRole rid (up_name i) (up_description i) actor db = Inr (Some r, db1)"
    by (auto simp: update_custom_role_def and_then_Inr_iff split: option.splits prod.splits)
  have d: "ad_actorUserId ?d = actor" by (simp add: role_audit_def)
  show thesis
  proof (cases "up_permissionKeys i")
    case None
    with assms 1 have "db' = repo_createAuditLog gen ?d db1" by (simp add: update_custom_role_def)
    with None show thesis by (intro that [OF 1 _ _ d, of db1]) auto
  next
    case (Some ks)
    with assms 1 obtain db3 where 3: "repo_setRolePermissions rid ks actor db1 = Inr db3"
      and "db' = repo_createAuditLog gen ?d (repo_createAuditLog gen (permissions_audit actor rid prev ks ip ua) db3)"
      by (auto simp: update_custom_role_def and_then_Inr_iff)
    moreover have "ad_actorUserId (permissions_audit actor rid prev ks ip ua) = actor"
      by (simp add: permissions_audit_def role_audit_def)
    ultimately show thesis using Some by (intro that [OF 1 _ _ d]) auto
  qed
qed

text \<open>A call that throws leaves the state as it was.\<close>

lemma service_errors_keep_state:
  "fst (svc_createRole gen i actor ip ua s) = Inl e \<Longrightarrow> snd (svc_createRole gen i actor ip ua s) = s"
  "fst (svc_updateRole gen rid j actor ip ua s) = Inl e \<Longrightarrow> snd (svc_updateRole gen rid j actor ip ua s) = s"
  "fst (svc_deleteRole gen rid actor ip ua s) = Inl e \<Longrightarrow> snd (svc_deleteRole gen rid actor ip ua s) = s"
  "fst (svc_assignRoleToUser gen a actor ip ua s) = Inl e \<Longrightarrow> snd (svc_assignRoleToUser gen a actor ip ua s) = s"
  "fst (svc_removeRoleFromUser gen uid rid st si actor ip ua s) = Inl e \<Longrightarrow> snd (svc_removeRoleFromUser gen uid rid st si actor ip ua s) = s"
  by (auto simp: svc_createRole_def svc_updateRole_def svc_deleteRole_def svc_assignRoleToUser_def
      svc_removeRoleFromUser_def Let_def transaction_def after_commit_def
      split: option.splits if_splits prod.splits sum.splits)

subsection \<open>What every step respects\<close>

text \<open>The contract of a preorder on databases that each change made by the service respects;
  then every step does.\<close>

locale db_preorder =
  fixes gen :: "nat \<Rightarrow> string" and Q :: "RbacDb \<Rightarrow> RbacDb \<Rightarrow> bool"
  assumes Q_refl: "Q db db"
    and Q_trans: "Q db db' \<Longrightarrow> Q db' db'' \<Longrightarrow> Q db db''"
    and Q_audit: "Q db (repo_createAuditLog gen d db)"
    and Q_time: "db_now db \<le> t \<Longrightarrow> Q db (db\<lparr>db_now := t\<rparr>)"
    and Q_create: "repo_createRole gen n e a db = Inr (r, db') \<Longrightarrow> \<forall>k \<in> set ks. isValidPermissionKey k
      \<Longrightarrow> repo_setRolePermissions (ro_id r) ks a db' = Inr db'' \<Longrightarrow> Q db db''"
    and Q_update: "repo_updateRole rid x y a db = Inr (Some r, db') \<Longrightarrow> Q db db'"
    and Q_update_keys: "repo_updateRole rid x y a db = Inr (Some r, db') \<Longrightarrow> \<forall>k \<in> set ks. isValidPermissionKey k
      \<Longrightarrow> repo_setRolePermissions rid ks a db' = Inr db'' \<Longrightarrow> Q db db''"
    and Q_system: "repo_setRolePermissions rid ks a db = Inr db' \<Longrightarrow> \<forall>k \<in> set ks. isValidPermissionKey k \<Longrightarrow> ks \<noteq> []
      \<Longrightarrow> Q db (snd (repo_touchSystemRole rid a db'))"
    and Q_delete: "\<not> repo_checkRoleInUse rid db \<Longrightarrow> Q db (snd (repo_softDeleteRole rid a db))"
    and Q_assign: "repo_assignUserRole gen uid rid st si a ex db = Inr (u, db') \<Longrightarrow> Q db db'"
    and Q_remove: "Q db (snd (repo_removeUserRole uid rid st si db))"
begin

lemma create_Q: "svc_createRole gen i actor ip ua s = (Inr r, s') \<Longrightarrow> Q (rs_db s) (rs_db s')"
  by (erule createRole_ok) (auto intro: Q_trans [OF Q_create Q_audit])

lemma update_Q:
  assumes "svc_updateRole gen rid i actor ip ua s = (Inr r, s')"
  shows "Q (rs_db s) (rs_db s')"
  using assms
proof (rule updateRole_ok)
  fix ex
  let ?prev = "repo_getRolePermissions rid (rs_db s)"
  assume ex: "system_role_guard ex i = None" "keys_guard i = None"
    and run: "(if ro_isSystemRole ex then update_system_role gen rid i actor ip ua ?prev (rs_db s)
          else update_custom_role gen rid i actor ip ua ex ?prev (rs_db s)) = Inr (r, rs_db s')"
  have valid: "\<forall>k \<in> set ks. isValidPermissionKey k" if "up_permissionKeys i = Some ks" for ks
    using ex(2) that by (auto simp: keys_guard_def find_None_iff)
  show ?thesis
  proof (cases "ro_isSystemRole ex")
    case True
    then obtain k ks where ks: "up_permissionKeys i = Some (k # ks)"
      using ex(1) by (cases "up_permissionKeys i") (auto simp: system_role_guard_def neq_Nil_conv split: if_splits)
    from True run have "update_system_role gen rid i actor ip ua ?prev (rs_db s) = Inr (r, rs_db s')" by simp
    then show ?thesis
    proof (rule update_system_role_ok)
      fix db1 d
      assume "repo_setRolePermissions rid (the (up_permissionKeys i)) actor (rs_db s) = Inr db1"
        and db: "rs_db s' = repo_createAuditLog gen d (snd (repo_touchSystemRole rid actor db1))"
      then have "repo_setRolePermissions rid (k # ks) actor (rs_db s) = Inr db1" using ks by simp
      from Q_system [OF this valid [OF ks]] show ?thesis unfolding db by (intro Q_trans [OF _ Q_audit]) simp
    qed
  next
    case False
    with run have "update_custom_role gen rid i actor ip ua ex ?prev (rs_db s) = Inr (r, rs_db s')" by simp
    then show ?thesis
    proof (rule update_custom_role_ok)
      fix db1 db2 d
      assume 1: "repo_updateRole rid (up_name i) (up_description i) actor (rs_db s) = Inr (Some r, db1)"
        and 2: "up_permissionKeys i = None \<and> db2 = db1 \<or> (\<exists>ks d db3. up_permissionKeys i = Some ks
          \<and> repo_setRolePermissions rid ks actor db1 = Inr db3 \<and> db2 = repo_createAuditLog gen d db3 \<and> ad_actorUserId d = actor)"
        and 3: "rs_db s' = repo_createAuditLog gen d db2"
      from 2 have "Q (rs_db s) db2"
        using Q_update [OF 1] Q_trans [OF Q_update_keys [OF 1] Q_audit] valid by auto
      then show ?thesis unfolding 3 by (rule Q_trans) (rule Q_audit)
    qed
  qed
qed

lemma delete_Q: "svc_deleteRole gen rid actor ip ua s = (Inr u, s') \<Longrightarrow> Q (rs_db s) (rs_db s')"
  by (erule deleteRole_ok) (auto intro: Q_trans [OF Q_delete Q_audit])

lemma assign_Q: "svc_assignRoleToUser gen i actor ip ua s = (Inr u, s') \<Longrightarrow> Q (rs_db s) (rs_db s')"
  by (erule assignRole_ok) (auto intro: Q_trans [OF Q_assign Q_audit])

lemma remove_Q: "svc_removeRoleFromUser gen uid rid st si actor ip ua s = (Inr u, s') \<Longrightarrow> Q (rs_db s) (rs_db s')"
  by (erule removeRole_ok) (auto intro: Q_trans [OF Q_remove Q_audit])

lemma outcome_Q:
  assumes "\<And>a s'. f = (Inr a, s') \<Longrightarrow> Q (rs_db s) (rs_db s')" "\<And>e. fst f = Inl e \<Longrightarrow> snd f = s"
  shows "Q (rs_db s) (rs_db (snd f))"
  using assms by (cases f; cases "fst f") (auto simp: Q_refl)

lemma step_Q: "rbac_step gen s s' \<Longrightarrow> Q (rs_db s) (rs_db s')"
proof (induction rule: rbac_step.induct)
  case (step_denied s userId k ip ua)
  then show ?case by (simp add: svc_logPermissionDenied_def transaction_def Q_audit)
next
  case (step_time s t)
  then show ?case by (simp add: Q_time)
next
  case step_create
  show ?case by (rule outcome_Q) (auto intro: create_Q dest: service_errors_keep_state)
next
  case step_update
  show ?case by (rule outcome_Q) (auto intro: update_Q dest: service_errors_keep_state)
next
  case step_delete
  show ?case by (rule outcome_Q) (auto intro: delete_Q dest: service_errors_keep_state)
next
  case step_assign
  show ?case by (rule outcome_Q) (auto intro: assign_Q dest: service_errors_keep_state)
next
  case step_remove
  show ?case by (rule outcome_Q) (auto intro: remove_Q dest: service_errors_keep_state)
qed

end

lemma step_cache: "rbac_step gen s s' \<Longrightarrow> rs_cache s = [] \<Longrightarrow> rs_cache s' = []"
proof (induction rule: rbac_step.induct)
  case (step_create s i actor ip ua)
  then show ?case by (auto simp: svc_createRole_def transaction_def split: option.splits if_splits sum.splits prod.splits)
next
  case (step_update s rid i actor ip ua)
  then show ?case
    by (auto simp: svc_updateRole_def after_commit_def transaction_def Let_def split: option.splits if_splits sum.splits prod.splits)
next
  case (step_delete s rid actor ip ua)
  then show ?case
    by (auto simp: svc_deleteRole_def after_commit_def transaction_def split: option.splits if_splits sum.splits prod.splits)
next
  case (step_assign s i actor ip ua)
  then show ?case
    by (auto simp: svc_assignRoleToUser_def after_commit_def transaction_def split: option.splits if_splits sum.splits prod.splits)
next
  case (step_remove s uid rid st si actor ip ua)
  then show ?case
    by (auto simp: svc_removeRoleFromUser_def after_commit_def transaction_def Let_def split: if_splits sum.splits prod.splits)
qed (auto simp: svc_logPermissionDenied_def transaction_def)

subsection \<open>Well-formedness, protected roles and the audit trail\<close>

definition wf_kept :: "(nat \<Rightarrow> string) \<Rightarrow> RbacDb \<Rightarrow> RbacDb \<Rightarrow> bool" where
  "wf_kept gen db db' \<longleftrightarrow> (inj gen \<and> wf_db gen db \<longrightarrow> wf_db gen db')"

interpretation wf_pre: db_preorder gen "wf_kept gen" for gen
proof
  show "wf_kept gen db (snd (repo_touchSystemRole rid a db'))"
    if "repo_setRolePermissions rid ks a db = Inr db'" "\<forall>k \<in> set ks. isValidPermissionKey k" for rid ks a db db'
    using that by (auto simp: wf_kept_def intro: wf_touch wf_setRolePermissions)
  show "wf_kept gen db (db\<lparr>db_now := t\<rparr>)" for db t
    by (auto simp: wf_kept_def wf_db_def role_ids_def grants_def)
qed (auto simp: wf_kept_def intro: wf_audit wf_createRole wf_updateRole wf_setRolePermissions wf_softDelete wf_assign wf_remove)

text \<open>A system role keeps its identity, name, description and activity, and does not lose its
  last permission.\<close>

definition same_role :: "Role \<Rightarrow> Role \<Rightarrow> bool" where
  "same_role r r' \<longleftrightarrow> ro_id r' = ro_id r \<and> ro_name r' = ro_name r \<and> ro_description r' = ro_description r
     \<and> ro_isSystemRole r' = ro_isSystemRole r \<and> ro_isActive r' = ro_isActive r"

definition has_grant :: "RbacDb \<Rightarrow> string \<Rightarrow> bool" where
  "has_grant db rid \<longleftrightarrow> (\<exists>k. (rid, k) \<in> grants db)"

definition system_kept :: "RbacDb \<Rightarrow> RbacDb \<Rightarrow> bool" where
  "system_kept db db' \<longleftrightarrow>
     (\<forall>r \<in> set (db_roles db). ro_isSystemRole r \<longrightarrow>
        (\<exists>r' \<in> set (db_roles db'). same_role r r') \<and> (has_grant db (ro_id r) \<longrightarrow> has_grant db' (ro_id r)))"

definition system_pre :: "(nat \<Rightarrow> string) \<Rightarrow> RbacDb \<Rightarrow> RbacDb \<Rightarrow> bool" where
  "system_pre gen db db' \<longleftrightarrow> (inj gen \<and> wf_db gen db \<longrightarrow> wf_db gen db' \<and> system_kept db db')"

lemma same_role_refl [simp]: "same_role r r"
  by (simp add: same_role_def)

lemma system_kept_same: "db_roles db' = db_roles db \<Longrightarrow> grants db' = grants db \<Longrightarrow> system_kept db db'"
  by (auto simp: system_kept_def has_grant_def intro!: bexI)

lemma system_kept_trans:
  assumes "system_kept db db'" "system_kept db' db''"
  shows "system_kept db db''"
  unfolding system_kept_def
proof (intro ballI impI)
  fix r assume r: "r \<in> set (db_roles db)" "ro_isSystemRole r"
  then obtain r' where r': "r' \<in> set (db_roles db')" "same_role r r'" "has_grant db (ro_id r) \<longrightarrow> has_grant db' (ro_id r)"
    using assms(1) unfolding system_kept_def by blast
  then have e: "ro_isSystemRole r'" "ro_id r' = ro_id r" using r(2) by (auto simp: same_role_def)
  then obtain r'' where "r'' \<in> set (db_roles db'')" "same_role r' r''" "has_grant db' (ro_id r) \<longrightarrow> has_grant db'' (ro_id r)"
    using assms(2) r'(1) unfolding system_kept_def by force
  then show "(\<exists>r' \<in> set (db_roles db''). same_role r r') \<and> (has_grant db (ro_id r) \<longrightarrow> has_grant db'' (ro_id r))"
    using r'(2,3) by (auto simp: same_role_def intro!: bexI [of _ r''])
qed

lemma system_kept_update:
  assumes "\<And>r. ro_isSystemRole r \<Longrightarrow> P r \<Longrightarrow> same_role r (f r)"
  shows "system_kept db (update_roles P f db)"
proof -
  have "\<exists>r' \<in> set (db_roles (update_roles P f db)). same_role r r'"
    if r: "r \<in> set (db_roles db)" "ro_isSystemRole r" for r
    using assms [OF r(2)] r(1) by (cases "P r") (auto intro!: bexI)
  then show ?thesis by (auto simp: system_kept_def has_grant_def grants_def)
qed

lemma system_kept_setPermissions:
  assumes "repo_setRolePermissions rid ks a db = Inr db'"
    and "ks \<noteq> [] \<or> (\<forall>r \<in> set (db_roles db). ro_id r = rid \<longrightarrow> \<not> ro_isSystemRole r)"
  shows "system_kept db db'"
proof -
  from setRolePermissions_spec [OF assms(1)] have "db_roles db' = db_roles db"
    "grants db' = {g \<in> grants db. fst g \<noteq> rid} \<union> {rid} \<times> set ks" by auto
  then show ?thesis using assms(2)
    by (cases ks) (auto simp: system_kept_def has_grant_def intro!: bexI)
qed

lemma updateRole_some:
  assumes "repo_updateRole rid n d a db = Inr (Some r, db')" "wf_db gen db"
  shows "system_kept db db' \<and> (\<forall>q \<in> set (db_roles db'). ro_id q = rid \<longrightarrow> \<not> ro_isSystemRole q)"
proof -
  let ?P = "\<lambda>r. ro_id r = rid \<and> ro_isActive r \<and> \<not> ro_isSystemRole r"
  let ?f = "\<lambda>r. r\<lparr>ro_version := ro_version r + 1, ro_updatedBy := a, ro_updatedAt := db_now db,
                      ro_name := coalesce n (ro_name r), ro_description := coalesce d (ro_description r)\<rparr>"
  from assms(1) obtain r0 where r0: "find ?P (db_roles db) = Some r0" and db': "db' = update_roles ?P ?f db"
    by (auto simp: repo_updateRole_def Let_def split: option.splits if_splits)
  have kept: "system_kept db db'" unfolding db' by (rule system_kept_update) simp
  have custom: "\<not> ro_isSystemRole q" if "q \<in> set (db_roles db)" "ro_id q = rid" for q
  proof -
    have "r0 \<in> set (db_roles db)" "?P r0" using r0 by (auto simp: find_Some_iff)
    moreover have "inj_on ro_id (set (db_roles db))" using assms(2) by (simp add: wf_db_def distinct_map)
    ultimately have "q = r0" using that by (auto dest: inj_onD)
    then show ?thesis using \<open>?P r0\<close> by simp
  qed
  have "\<not> ro_isSystemRole q" if q: "q \<in> set (db_roles db')" "ro_id q = rid" for q
  proof -
    from q(1) obtain x where x: "x \<in> set (db_roles db)" "q = (if ?P x then ?f x else x)"
      unfolding db' update_roles_simps set_map by (rule imageE)
    then have "ro_id x = rid" "ro_isSystemRole q = ro_isSystemRole x" using q(2) by (simp_all split: if_splits)
    with custom [OF x(1)] show ?thesis by simp
  qed
  with kept show ?thesis by blast
qed

interpretation system: db_preorder gen "system_pre gen" for gen
proof
  fix n e a db r db' ks db''
  assume c: "repo_createRole gen n e a db = Inr (r, db')" "\<forall>k \<in> set ks. isValidPermissionKey k"
    "repo_setRolePermissions (ro_id r) ks a db' = Inr db''"
  show "system_pre gen db db''"
    unfolding system_pre_def
  proof (intro impI, elim conjE)
    assume g: "inj gen" "wf_db gen db"
    have wf: "wf_db gen db'" using wf_createRole [OF g(2,1) c(1)] .
    from c(1) have d: "db_roles db' = db_roles db @ [r]" "\<not> ro_isSystemRole r" "grants db' = grants db"
      by (auto simp: repo_createRole_def Let_def grants_def split: if_splits)
    have "system_kept db db'" using d by (auto simp: system_kept_def has_grant_def intro!: bexI)
    moreover have "\<not> ro_isSystemRole q" if "q \<in> set (db_roles db')" "ro_id q = ro_id r" for q
      using that d wf by (auto simp: wf_db_def distinct_map) (metis imageI)
    then have "system_kept db' db''" by (intro system_kept_setPermissions [OF c(3)]) auto
    ultimately show "wf_db gen db'' \<and> system_kept db db''"
      using wf_setRolePermissions [OF wf c(3,2)] by (auto intro: system_kept_trans)
  qed
next
  fix rid x y a db r db' ks db''
  assume u: "repo_updateRole rid x y a db = Inr (Some r, db')"
  then show "system_pre gen db db'"
    using wf_updateRole [OF _ u] updateRole_some [OF u] by (auto simp: system_pre_def)
  assume k: "\<forall>k \<in> set ks. isValidPermissionKey k" "repo_setRolePermissions rid ks a db' = Inr db''"
  show "system_pre gen db db''"
    unfolding system_pre_def
  proof (intro impI, elim conjE)
    assume g: "inj gen" "wf_db gen db"
    have "system_kept db' db''" using updateRole_some [OF u g(2)] by (intro system_kept_setPermissions [OF k(2)]) auto
    then show "wf_db gen db'' \<and> system_kept db db''"
      using updateRole_some [OF u g(2)] wf_setRolePermissions [OF wf_updateRole [OF g(2) u] k(2,1)]
      by (auto intro: system_kept_trans)
  qed
next
  fix rid ks a db db'
  assume k: "repo_setRolePermissions rid ks a db = Inr db'" "\<forall>k \<in> set ks. isValidPermissionKey k" "ks \<noteq> []"
  have "system_kept db' (snd (repo_touchSystemRole rid a db'))"
    unfolding repo_touchSystemRole_def Let_def snd_conv by (rule system_kept_update) (simp add: same_role_def)
  then show "system_pre gen db (snd (repo_touchSystemRole rid a db'))"
    using system_kept_setPermissions [OF k(1)] k(3) wf_touch [OF wf_setRolePermissions [OF _ k(1,2)]]
    by (auto simp: system_pre_def intro: system_kept_trans)
next
  fix rid a db
  show "system_pre gen db (snd (repo_softDeleteRole rid a db))"
    using wf_softDelete unfolding system_pre_def
    by (auto simp: repo_softDeleteRole_def Let_def intro!: system_kept_update)
next
  fix uid rid st si a ex db u db'
  assume q: "repo_assignUserRole gen uid rid st si a ex db = Inr (u, db')"
  then have "db_roles db' = db_roles db" "grants db' = grants db"
    by (auto simp: repo_assignUserRole_def Let_def grants_def split: option.splits if_splits)
  then show "system_pre gen db db'" using wf_assign [OF _ q] by (simp add: system_pre_def system_kept_same)
next
  fix uid rid st si db
  show "system_pre gen db (snd (repo_removeUserRole uid rid st si db))"
    using wf_remove by (auto simp: system_pre_def repo_removeUserRole_def Let_def grants_def intro!: system_kept_same)
next
  fix db :: RbacDb and t assume "db_now db \<le> t"
  then show "system_pre gen db (db\<lparr>db_now := t\<rparr>)"
    using wf_pre.Q_time [of db t gen] by (auto simp: system_pre_def wf_kept_def grants_def intro!: system_kept_same)
next
  show "system_pre gen db db" for db by (simp add: system_pre_def system_kept_same)
  show "system_pre gen db db''" if "system_pre gen db db'" "system_pre gen db' db''" for db db' db''
    using that by (auto simp: system_pre_def intro: system_kept_trans)
  show "system_pre gen db (repo_createAuditLog gen d db)" for db d
    using wf_audit by (auto simp: system_pre_def grants_def intro!: system_kept_same)
qed

definition audit_kept :: "RbacDb \<Rightarrow> RbacDb \<Rightarrow> bool" where
  "audit_kept db db' \<longleftrightarrow> prefix (db_auditLogs db) (db_auditLogs db') \<and> db_now db \<le> db_now db'"

lemma setRolePermissions_audit:
  "repo_setRolePermissions rid ks a db = Inr db' \<Longrightarrow> db_auditLogs db' = db_auditLogs db \<and> db_now db' = db_now db"
  by (drule setRolePermissions_spec) auto

lemma updateRole_audit:
  "repo_updateRole rid x y a db = Inr (u, db') \<Longrightarrow> db_auditLogs db' = db_auditLogs db \<and> db_now db' = db_now db"
  by (auto simp: repo_updateRole_def Let_def split: option.splits if_splits)

lemma createRole_audit:
  "repo_createRole gen n e a db = Inr (r, db') \<Longrightarrow> db_auditLogs db' = db_auditLogs db \<and> db_now db' = db_now db"
  by (auto simp: repo_createRole_def Let_def split: if_splits)

interpretation audit: db_preorder gen audit_kept for gen
  by unfold_locales
    (auto simp: audit_kept_def repo_createAuditLog_def repo_touchSystemRole_def repo_softDeleteRole_def
      repo_removeUserRole_def repo_assignUserRole_def Let_def split: option.splits if_splits
      dest!: setRolePermissions_audit updateRole_audit createRole_audit)

subsection \<open>Reachable states\<close>

definition rbac_inv :: "(nat \<Rightarrow> string) \<Rightarrow> RbacState \<Rightarrow> bool" where
  "rbac_inv gen s \<longleftrightarrow> inj gen \<and> wf_db gen (rs_db s) \<and> rs_cache s = []"

interpretation rbac: step_preorder "rbac_step gen" "rbac_inv gen"
  "\<lambda>s s'. audit_kept (rs_db s) (rs_db s')" for gen
proof
  show "rbac_inv gen s'" if "rbac_inv gen s" "rbac_step gen s s'" for s s'
    using that wf_pre.step_Q [OF that(2)] step_cache [OF that(2)] by (auto simp: rbac_inv_def wf_kept_def)
  show "audit_kept (rs_db s) (rs_db s')" if "rbac_inv gen s" "rbac_step gen s s'" for s s'
    using audit.step_Q [OF that(2)] .
  show "audit_kept (rs_db s) (rs_db s)" for s by (rule audit.Q_refl)
  show "audit_kept (rs_db s) (rs_db u)" if "audit_kept (rs_db s) (rs_db t)" "audit_kept (rs_db t) (rs_db u)" for s t u
    using that by (rule audit.Q_trans)
qed

interpretation rbac_system: step_preorder "rbac_step gen" "rbac_inv gen"
  "\<lambda>s s'. system_pre gen (rs_db s) (rs_db s')" for gen
proof
  show "system_pre gen (rs_db s) (rs_db s')" if "rbac_inv gen s" "rbac_step gen s s'" for s s'
    using system.step_Q [OF that(2)] .
  show "system_pre gen (rs_db s) (rs_db s)" for s by (rule system.Q_refl)
  show "system_pre gen (rs_db s) (rs_db u)" if "system_pre gen (rs_db s) (rs_db t)" "system_pre gen (rs_db t) (rs_db u)" for s t u
    using that by (rule system.Q_trans)
qed

subsection \<open>What the permission query answers\<close>

lemma checkPermission_no_cache:
  "rs_cache s = [] \<Longrightarrow> svc_checkPermission u k st si s \<longleftrightarrow> isValidPermissionKey k \<and> repo_userHasPermission u k st si (rs_db s)"
  by (simp add: svc_checkPermission_def)

lemma grants_iff: "(x, k) \<in> grants db \<longleftrightarrow> (\<exists>q \<in> set (db_rolePermissions db). rp_roleId q = x \<and> rp_permissionKey q = k)"
  by (auto simp: grants_def grant_key_def)

lemma userHasPermission_grants:
  "repo_userHasPermission uid k st si db \<longleftrightarrow>
     (\<exists>u \<in> set (db_userRoles db). live_assignment db uid u \<and> scope_matches st si u \<and> (ur_roleId u, k) \<in> grants db
        \<and> (\<exists>r \<in> set (db_roles db). ro_id r = ur_roleId u \<and> ro_isActive r))"
  unfolding repo_userHasPermission_def grants_iff active_roles_of_def by auto

lemma live_cong: "db_now db' = db_now db \<Longrightarrow> live_assignment db' uid u = live_assignment db uid u"
  by (simp add: live_assignment_def split: option.split)

lemma userHasPermission_audit [simp]:
  "repo_userHasPermission uid k st si (repo_createAuditLog gen d db) = repo_userHasPermission uid k st si db"
  unfolding userHasPermission_grants grants_iff by (simp add: live_cong [of "repo_createAuditLog gen d db" db])

lemma userHasPermission_remove:
  assumes "repo_userHasPermission uid k st' si' (snd (repo_removeUserRole uid rid st si db))"
  shows "\<exists>u \<in> set (db_userRoles db). live_assignment db uid u \<and> (ur_roleId u, ur_scopeType u, ur_scopeId u) \<noteq> (rid, st, si)
    \<and> scope_matches st' si' u \<and> (ur_roleId u, k) \<in> grants db"
proof -
  let ?P = "\<lambda>u. ur_userId u = uid \<and> ur_roleId u = rid \<and> ur_scopeType u = st \<and> ur_scopeId u = si \<and> ur_isActive u"
  let ?db = "snd (repo_removeUserRole uid rid st si db)"
  have db: "?db = db\<lparr>db_userRoles := map (\<lambda>u. if ?P u then u\<lparr>ur_isActive := False\<rparr> else u) (db_userRoles db)\<rparr>"
    by (simp add: repo_removeUserRole_def Let_def)
  have live: "live_assignment ?db uid u = live_assignment db uid u" for u by (rule live_cong) (simp add: db)
  have grants: "grants ?db = grants db" by (simp add: db grants_def)
  from assms obtain v where v: "v \<in> set (db_userRoles ?db)" "live_assignment ?db uid v" "scope_matches st' si' v"
      "(ur_roleId v, k) \<in> grants ?db" unfolding userHasPermission_grants by blast
  from v(1) obtain u where u: "u \<in> set (db_userRoles db)" "v = (if ?P u then u\<lparr>ur_isActive := False\<rparr> else u)"
    unfolding db by auto
  have "v = u" "\<not> ?P u" using u(2) v(2) by (auto simp: live_assignment_def split: if_splits)
  then show ?thesis using u(1) v(2-4) unfolding live grants
    by (intro bexI [of _ u]) (auto simp: live_assignment_def)
qed

lemma userHasPermission_softDelete:
  assumes "\<not> repo_checkRoleInUse rid db"
  shows "repo_userHasPermission uid k st si (snd (repo_softDeleteRole rid a db)) = repo_userHasPermission uid k st si db"
proof -
  let ?db = "snd (repo_softDeleteRole rid a db)"
  have same: "(\<exists>r \<in> set (db_roles ?db). ro_id r = x \<and> ro_isActive r) \<longleftrightarrow> (\<exists>r \<in> set (db_roles db). ro_id r = x \<and> ro_isActive r)"
    if "x \<noteq> rid" for x
    using that by (auto simp: repo_softDeleteRole_def Let_def)
  have live: "live_assignment ?db uid u = live_assignment db uid u" for u
    by (rule live_cong) (simp add: repo_softDeleteRole_def Let_def)
  have "ur_roleId u \<noteq> rid" if "u \<in> set (db_userRoles db)" "live_assignment db uid u" for u
    using that assms by (auto simp: repo_checkRoleInUse_def live_assignment_def)
  then have "live_assignment db uid u \<and> Z \<and> Y \<and> (\<exists>r \<in> set (db_roles ?db). ro_id r = ur_roleId u \<and> ro_isActive r) \<longleftrightarrow>
      live_assignment db uid u \<and> Z \<and> Y \<and> (\<exists>r \<in> set (db_roles db). ro_id r = ur_roleId u \<and> ro_isActive r)"
    if "u \<in> set (db_userRoles db)" for u Y Z
    using that same by blast
  moreover have "db_userRoles ?db = db_userRoles db" "grants ?db = grants db"
    by (simp_all add: repo_softDeleteRole_def Let_def grants_def)
  ultimately show ?thesis unfolding userHasPermission_grants live by (simp cong: bex_cong)
qed

subsection \<open>Properties\<close>

text \<open>C36. Whatever sequence of service calls and waiting leads from a well-formed database to
  a state, the tables stay well-formed there: role identifiers and names are unique, no
  permission is stored twice, every stored permission names an existing role and a key of the
  catalog, and every assignment is unique for its user, role and scope and names an existing
  role.\<close>

theorem rbac_tables_well_formed:
  assumes "inj gen" "wf_db gen (rs_db s0)" "rs_cache s0 = []" "rbac_reach gen s0 s"
  shows "wf_db gen (rs_db s)"
  using rbac.reach_inv [of gen s0 s] assms by (auto simp: rbac_reach_def rbac_inv_def)

text \<open>System roles are protected: along any sequence of service calls a system role keeps
  its identifier, name, description and activity, and while it has a permission at the start it
  never ends up with none.\<close>

theorem system_roles_protected:
  assumes "inj gen" "wf_db gen (rs_db s0)" "rs_cache s0 = []" "rbac_reach gen s0 s"
    and "r \<in> set (db_roles (rs_db s0))" "ro_isSystemRole r"
  shows "(\<exists>r' \<in> set (db_roles (rs_db s)). ro_id r' = ro_id r \<and> ro_name r' = ro_name r
      \<and> ro_description r' = ro_description r \<and> ro_isSystemRole r' \<and> ro_isActive r' = ro_isActive r)
    \<and> (repo_getRolePermissions (ro_id r) (rs_db s0) \<noteq> [] \<longrightarrow> repo_getRolePermissions (ro_id r) (rs_db s) \<noteq> [])"
proof -
  have "system_pre gen (rs_db s0) (rs_db s)"
    using rbac_system.reach_ord [of gen s0 s] assms(1-4) by (auto simp: rbac_reach_def rbac_inv_def)
  then have k: "system_kept (rs_db s0) (rs_db s)" using assms(1,2) by (simp add: system_pre_def)
  have g: "repo_getRolePermissions rid db \<noteq> [] \<longleftrightarrow> has_grant db rid" for rid db
    by (auto simp: repo_getRolePermissions_def has_grant_def grants_def grant_key_def filter_empty_conv)
  show ?thesis using k assms(5,6) unfolding g by (auto simp: system_kept_def same_role_def)
qed

text \<open>The audit log is append-only: no operation removes or changes an entry, whatever the
  sequence of calls.\<close>

theorem audit_log_append_only:
  assumes "inj gen" "wf_db gen (rs_db s0)" "rs_cache s0 = []" "rbac_reach gen s0 s"
  shows "prefix (db_auditLogs (rs_db s0)) (db_auditLogs (rs_db s))"
  using rbac.reach_ord [of gen s0 s] assms by (auto simp: rbac_reach_def rbac_inv_def audit_kept_def)

text \<open>C37. Revocation takes effect at once: after \<open>removeRoleFromUser\<close> succeeds, a permission
  the user still has, in any scope, comes from an assignment other than the removed one that was
  live before.\<close>

theorem revocation_is_immediate:
  assumes "svc_removeRoleFromUser gen uid rid st si actor ip ua s = (Inr (), s')" "rs_cache s = []"
    and "svc_checkPermission uid k st' si' s'"
  shows "\<exists>u \<in> set (db_userRoles (rs_db s)). live_assignment (rs_db s) uid u
    \<and> (ur_roleId u, ur_scopeType u, ur_scopeId u) \<noteq> (rid, or_null st, or_null si)
    \<and> scope_matches st' si' u \<and> k \<in> set (repo_getRolePermissions (ur_roleId u) (rs_db s))"
  using assms(1)
proof (rule removeRole_ok)
  fix d
  assume s': "s' = invalidateUserPermissionCache uid (s\<lparr>rs_db :=
      repo_createAuditLog gen d (snd (repo_removeUserRole uid rid (or_null st) (or_null si) (rs_db s)))\<rparr>)"
  have p: "k \<in> set (repo_getRolePermissions x db) \<longleftrightarrow> (x, k) \<in> grants db" for x db
    by (auto simp: repo_getRolePermissions_def grants_def grant_key_def)
  from s' assms(2) have "rs_cache s' = []" by simp
  with assms(3) s' have "repo_userHasPermission uid k st' si' (snd (repo_removeUserRole uid rid (or_null st) (or_null si) (rs_db s)))"
    by (simp add: checkPermission_no_cache)
  from userHasPermission_remove [OF this] show ?thesis unfolding p .
qed

text \<open>Deleting a role takes nothing from anybody: \<open>deleteRole\<close> succeeds only on a custom
  role without an active assignment, and then every permission answer is the same before and
  after.\<close>

theorem deleteRole_keeps_permissions:
  assumes "svc_deleteRole gen rid actor ip ua s = (Inr (), s')" "rs_cache s = []"
  shows "svc_checkPermission uid k st si s' = svc_checkPermission uid k st si s
    \<and> (\<exists>r. repo_getRoleById rid (rs_db s) = Some r \<and> \<not> ro_isSystemRole r)
    \<and> \<not> repo_checkRoleInUse rid (rs_db s)"
  using assms(1)
proof (rule deleteRole_ok)
  fix role d
  assume r: "repo_getRoleById rid (rs_db s) = Some role" "\<not> ro_isSystemRole role" "\<not> repo_checkRoleInUse rid (rs_db s)"
    and s': "rs_cache s' = []" "rs_db s' = repo_createAuditLog gen d (snd (repo_softDeleteRole rid actor (rs_db s)))"
  from userHasPermission_softDelete [OF r(3)] show ?thesis
    using r s' assms(2) by (simp add: checkPermission_no_cache)
qed

text \<open>The name of a deleted role is lost for good: once \<open>deleteRole\<close> has succeeded on a
  role, \<open>createRole\<close> with its name throws, whatever the other inputs are. The lookup by name
  skips the inactive row, but the unique constraint of the table does not.\<close>

theorem deleted_role_name_is_taken:
  assumes "svc_deleteRole gen rid actor ip ua s = (Inr (), s')" "repo_getRoleById rid (rs_db s) = Some r"
    and "cr_name i = ro_name r"
  shows "\<exists>e. fst (svc_createRole gen i actor' ip' ua' s') = Inl e"
  using assms(1)
proof (rule deleteRole_ok)
  fix role d
  assume s': "rs_db s' = repo_createAuditLog gen d (snd (repo_softDeleteRole rid actor (rs_db s)))"
  have "r \<in> set (db_roles (rs_db s))" using assms(2) by (auto simp: repo_getRoleById_def find_Some_iff)
  moreover have "map ro_name (db_roles (rs_db s')) = map ro_name (db_roles (rs_db s))"
    unfolding s' by (simp add: repo_softDeleteRole_def Let_def map_update_same del: map_map)
  ultimately have "ro_name r \<in> set (map ro_name (db_roles (rs_db s')))" by simp
  then have t: "\<exists>q \<in> set (db_roles (rs_db s')). ro_name q = ro_name r" by auto
  show ?thesis
  proof (cases "svc_createRole gen i actor' ip' ua' s'")
    case (Pair a t')
    show ?thesis
    proof (cases a)
      case (Inr q)
      with Pair obtain db1 where "repo_createRole gen (cr_name i) (cr_description i) actor' (rs_db s') = Inr (q, db1)"
        by (metis createRole_ok)
      with t assms(3) show ?thesis by (simp add: repo_createRole_def)
    qed (use Pair in simp)
  qed
qed

subsection \<open>A concrete instance\<close>

text \<open>A system role, a custom role and an unused custom role; one user holds the first two.\<close>

definition sample_gen :: "nat \<Rightarrow> string" where
  "sample_gen n = replicate (Suc n) (CHR ''x'')"

definition sample_role :: "string \<Rightarrow> string \<Rightarrow> bool \<Rightarrow> Role" where
  "sample_role i n sys =
     \<lparr>ro_id = i, ro_name = n, ro_description = ''d'', ro_version = 1, ro_isSystemRole = sys, ro_isActive = True,
      ro_createdAt = 0, ro_updatedAt = 0, ro_createdBy = ''a'', ro_updatedBy = ''a''\<rparr>"

definition sample_assignment :: "string \<Rightarrow> string \<Rightarrow> UserRole" where
  "sample_assignment i r =
     \<lparr>ur_id = i, ur_userId = ''u1'', ur_roleId = r, ur_scopeType = None, ur_scopeId = None, ur_assignedAt = 0,
      ur_assignedBy = ''a'', ur_expiresAt = None, ur_isActive = True\<rparr>"

definition sample_state :: RbacState where
  "sample_state =
     \<lparr>rs_db =
        \<lparr>db_roles = [sample_role ''x'' ''Manager'' True, sample_role ''xx'' ''Clerk'' False, sample_role ''xxx'' ''Temp'' False],
         db_rolePermissions = map (\<lambda>r. \<lparr>rp_roleId = r, rp_permissionKey = ''pos.read'', rp_grantedAt = 0, rp_grantedBy = ''a''\<rparr>)
           [''x'', ''xx''],
         db_userRoles = [sample_assignment ''a1'' ''x'', sample_assignment ''a2'' ''xx''],
         db_auditLogs = [], db_seq = 3, db_now = 0\<rparr>,
      rs_cache = []\<rparr>"

definition sample_create :: "string \<Rightarrow> CreateRoleInput" where
  "sample_create n = \<lparr>cr_name = n, cr_description = ''d'', cr_permissionKeys = [''pos.read'']\<rparr>"

lemma inj_sample_gen: "inj sample_gen"
  by (rule injI) (metis length_replicate nat.inject sample_gen_def)

lemma sample_wf: "wf_db sample_gen (rs_db sample_state)"
proof -
  have "isValidPermissionKey ''pos.read''" by code_simp
  moreover have "''x'' = sample_gen 0" "''xx'' = sample_gen 1" "''xxx'' = sample_gen 2"
    by (simp_all add: sample_gen_def numeral_2_eq_2)
  then have "{''x'', ''xx'', ''xxx''} \<subseteq> sample_gen ` {..<3}" by (auto simp: image_iff intro: bexI)
  ultimately show ?thesis
    by (simp add: wf_db_def sample_state_def sample_role_def role_ids_def grants_def grant_key_def
        sample_assignment_def assignment_key_def)
qed

lemma sample_cache: "rs_cache sample_state = []"
  by (simp add: sample_state_def)

lemma sample_reach: "rbac_reach sample_gen sample_state (snd (svc_createRole sample_gen (sample_create ''Night'') ''a'' None None sample_state))"
  unfolding rbac_reach_def by (rule r_into_rtranclp, rule step_create)

theorem rbac_tables_well_formed_witness:
  "wf_db sample_gen (rs_db (snd (svc_createRole sample_gen (sample_create ''Night'') ''a'' None None sample_state)))"
  by (rule rbac_tables_well_formed [OF inj_sample_gen sample_wf sample_cache sample_reach])

theorem system_roles_protected_witness:
  "\<exists>r' \<in> set (db_roles (rs_db (snd (svc_createRole sample_gen (sample_create ''Night'') ''a'' None None sample_state)))).
     ro_name r' = ''Manager'' \<and> ro_isSystemRole r'"
proof -
  have "sample_role ''x'' ''Manager'' True \<in> set (db_roles (rs_db sample_state))"
    "ro_isSystemRole (sample_role ''x'' ''Manager'' True)" by (simp_all add: sample_state_def sample_role_def)
  from system_roles_protected [OF inj_sample_gen sample_wf sample_cache sample_reach this]
  show ?thesis by (auto simp: sample_role_def)
qed

theorem audit_log_append_only_witness:
  "prefix (db_auditLogs (rs_db sample_state))
     (db_auditLogs (rs_db (snd (svc_createRole sample_gen (sample_create ''Night'') ''a'' None None sample_state))))"
  by (rule audit_log_append_only [OF inj_sample_gen sample_wf sample_cache sample_reach])

lemma sample_remove:
  "fst (svc_removeRoleFromUser sample_gen ''u1'' ''x'' None None ''a'' None None sample_state) = Inr ()"
  "svc_checkPermission ''u1'' ''pos.read'' None None
     (snd (svc_removeRoleFromUser sample_gen ''u1'' ''x'' None None ''a'' None None sample_state))"
  by code_simp+

theorem revocation_is_immediate_witness:
  "\<exists>u \<in> set (db_userRoles (rs_db sample_state)). live_assignment (rs_db sample_state) ''u1'' u \<and> ur_roleId u \<noteq> ''x''
    \<and> ''pos.read'' \<in> set (repo_getRolePermissions (ur_roleId u) (rs_db sample_state))"
proof -
  have "svc_removeRoleFromUser sample_gen ''u1'' ''x'' None None ''a'' None None sample_state =
      (Inr (), snd (svc_removeRoleFromUser sample_gen ''u1'' ''x'' None None ''a'' None None sample_state))"
    using sample_remove(1) by (simp add: prod_eq_iff)
  from revocation_is_immediate [OF this sample_cache sample_remove(2)]
  show ?thesis by (auto simp: sample_state_def sample_assignment_def or_null_def)
qed

lemma sample_delete: "fst (svc_deleteRole sample_gen ''xxx'' ''a'' None None sample_state) = Inr ()"
  by code_simp

lemma sample_delete_pair: "svc_deleteRole sample_gen ''xxx'' ''a'' None None sample_state =
    (Inr (), snd (svc_deleteRole sample_gen ''xxx'' ''a'' None None sample_state))"
  using sample_delete by (simp add: prod_eq_iff)

theorem deleteRole_keeps_permissions_witness:
  "svc_checkPermission ''u1'' ''pos.read'' None None (snd (svc_deleteRole sample_gen ''xxx'' ''a'' None None sample_state))
    = svc_checkPermission ''u1'' ''pos.read'' None None sample_state"
  using deleteRole_keeps_permissions [OF sample_delete_pair sample_cache] by blast

theorem deleted_role_name_is_taken_witness:
  "\<exists>e. fst (svc_createRole sample_gen (sample_create ''Temp'') ''a'' None None
     (snd (svc_deleteRole sample_gen ''xxx'' ''a'' None None sample_state))) = Inl e"
proof -
  have "repo_getRoleById ''xxx'' (rs_db sample_state) = Some (sample_role ''xxx'' ''Temp'' False)"
    by (simp add: repo_getRoleById_def sample_state_def sample_role_def)
  then show ?thesis by (rule deleted_role_name_is_taken [OF sample_delete_pair]) (simp add: sample_create_def sample_role_def)
qed

end
