(* ===== verification/RbacAccess.thy ===== *)
theory RbacAccess imports RbacService
begin

section \<open>Access decisions: the authorization service and the request guards\<close>

text \<open>
  \<open>SamplePOS.Server/src/authorization/authorizationService.ts\<close>, \<open>serviceAuth.ts\<close> and
  \<open>rbac/middleware.ts\<close>. The decisions read the RBAC state; a guard also answers with the state
  after the denial it may log. \<open>HttpNext\<close> is the call of \<open>next()\<close>, \<open>HttpReject\<close> a response
  with its status. The table of users is a parameter of \<open>serviceAuth\<close>; so is, for a guard, the
  message of an exception that the database threw, if it threw one.
\<close>

subsection \<open>Authorization service\<close>

fun scope_name :: "ScopeType \<Rightarrow> string" where
  "scope_name SCOPE_global = ''global''"
| "scope_name SCOPE_organization = ''organization''"
| "scope_name SCOPE_branch = ''branch''"
| "scope_name SCOPE_warehouse = ''warehouse''"

record HttpUser =
  hu_id :: string
  hu_role :: "string option"

definition subjectFromUser :: "HttpUser option \<Rightarrow> AuthorizationSubject option" where
  "subjectFromUser u =
     (case u of None \<Rightarrow> None
      | Some v \<Rightarrow> if hu_id v = [] then None else Some \<lparr>su_id = hu_id v, su_legacyRole = hu_role v\<rparr>)"

definition hasRbacAssignments :: "RbacState \<Rightarrow> string \<Rightarrow> bool" where
  "hasRbacAssignments s userId \<longleftrightarrow> length (repo_getUserRoles userId (rs_db s)) > 0"

definition azs_evaluatePermission ::
  "RbacState \<Rightarrow> AuthorizationSubject \<Rightarrow> string \<Rightarrow> string option \<Rightarrow> string option \<Rightarrow> AuthorizationResult" where
  "azs_evaluatePermission s subject k scopeType scopeId =
     (if \<not> isValidPermissionKey k then denied k INVALID_PERMISSION (''Unknown permission key: '' @ k)
      else if map_option js_upper (su_legacyRole subject) = Some ''ADMIN'' then granted k
      else if svc_checkPermission (su_id subject) k scopeType scopeId s then granted k
      else if \<not> hasRbacAssignments s (su_id subject) \<and> legacyRoleGrantsPermission (su_legacyRole subject) k then granted k
      else denied k PERMISSION_DENIED (''Missing permission: '' @ k))"

definition azs_hasPermission :: "RbacState \<Rightarrow> AuthorizationSubject \<Rightarrow> string \<Rightarrow> string option \<Rightarrow> string option \<Rightarrow> bool" where
  "azs_hasPermission s subject k scopeType scopeId = ar_allowed (azs_evaluatePermission s subject k scopeType scopeId)"

definition input_scopeType :: "AuthorizeInput \<Rightarrow> string option" where
  "input_scopeType i = Option.bind (in_scope i) (\<lambda>c. map_option scope_name (sc_scopeType c))"

definition input_scopeId :: "AuthorizeInput \<Rightarrow> string option" where
  "input_scopeId i = Option.bind (in_scope i) sc_scopeId"

definition azs_authorizeResult ::
  "PolicyEvaluator list \<Rightarrow> RbacState \<Rightarrow> AuthorizationSubject \<Rightarrow> AuthorizeInput \<Rightarrow> AuthorizationResult" where
  "azs_authorizeResult evaluators s subject i =
     (let permResult = azs_evaluatePermission s subject (in_permission i) (input_scopeType i) (input_scopeId i)
      in if \<not> ar_allowed permResult then permResult
         else authorizeFromContext subject i (svc_context_permissions (su_id subject) s) evaluators
                (\<not> hasRbacAssignments s (su_id subject)))"

record AuthorizationDeniedError =
  de_result :: AuthorizationResult
  de_statusCode :: int
  de_message :: string

definition azs_authorize ::
  "PolicyEvaluator list \<Rightarrow> RbacState \<Rightarrow> AuthorizationSubject \<Rightarrow> AuthorizeInput
     \<Rightarrow> (AuthorizationDeniedError, AuthorizationResult) result" where
  "azs_authorize evaluators s subject i =
     (let r = azs_authorizeResult evaluators s subject i
      in if \<not> ar_allowed r then Inl \<lparr>de_result = r, de_statusCode = 403, de_message = formatDeniedReason r\<rparr> else Inr r)"

definition azs_evaluatePolicy ::
  "PolicyEvaluator list \<Rightarrow> AuthorizationSubject \<Rightarrow> AuthorizeInput \<Rightarrow> string set \<Rightarrow> AuthorizationResult" where
  "azs_evaluatePolicy evaluators subject i ps = authorizeFromContext subject i ps evaluators False"

subsection \<open>Checks of the service layer\<close>

definition resolveLegacyRole :: "(string \<Rightarrow> string option) \<Rightarrow> string \<Rightarrow> string option \<Rightarrow> string option" where
  "resolveLegacyRole users userId legacyRole = (if truthy_str legacyRole then legacyRole else users userId)"

definition userHasPermission ::
  "(string \<Rightarrow> string option) \<Rightarrow> RbacState \<Rightarrow> string \<Rightarrow> string \<Rightarrow> string option \<Rightarrow> bool" where
  "userHasPermission users s userId k legacyRole =
     azs_hasPermission s \<lparr>su_id = userId, su_legacyRole = resolveLegacyRole users userId legacyRole\<rparr> k None None"

datatype business_error = BusinessError string string

definition assertUserPermission ::
  "(string \<Rightarrow> string option) \<Rightarrow> RbacState \<Rightarrow> string \<Rightarrow> string \<Rightarrow> string option \<Rightarrow> string option \<Rightarrow> string option
     \<Rightarrow> (business_error, unit) result" where
  "assertUserPermission users s userId k legacyRole errorCode message =
     (if \<not> userHasPermission users s userId k legacyRole
      then Inl (BusinessError (coalesce message (''Missing permission: '' @ k)) (coalesce errorCode ''ERR_PERMISSION_DENIED''))
      else Inr ())"

definition assertUserPermissionOrThrow ::
  "(string \<Rightarrow> string option) \<Rightarrow> RbacState \<Rightarrow> string \<Rightarrow> string \<Rightarrow> string option \<Rightarrow> (business_error, unit) result" where
  "assertUserPermissionOrThrow users s userId k legacyRole =
     (case azs_authorize DEFAULT_POLICY_EVALUATORS s
             \<lparr>su_id = userId, su_legacyRole = resolveLegacyRole users userId legacyRole\<rparr>
             \<lparr>in_permission = k, in_scope = None, in_context = None\<rparr> of
        Inl e \<Rightarrow> Inl (BusinessError (formatDeniedReason (de_result e)) ''ERR_PERMISSION_DENIED'')
      | Inr _ \<Rightarrow> Inr ())"

subsection \<open>Request guards\<close>

record RequirePermissionOptions =
  ro_scopeType :: "ScopeType option"
  ro_scopeIdParam :: "string option"
  ro_scopeIdBody :: "string option"
  ro_scopeIdQuery :: "string option"

record HttpRequest =
  hr_user :: "HttpUser option"
  hr_params :: "(string \<times> string) list"
  hr_body :: "(string \<times> string) list"
  hr_query :: "(string \<times> string) list"
  hr_ip :: "string option"
  hr_userAgent :: "string option"

datatype http = HttpNext | HttpReject int

definition request_field :: "string option \<Rightarrow> (string \<times> string) list \<Rightarrow> string option" where
  "request_field name kvs = (if truthy_str name then or_null (map_of kvs (the name)) else None)"

definition guard_scopeId :: "RequirePermissionOptions option \<Rightarrow> HttpRequest \<Rightarrow> string option" where
  "guard_scopeId options req =
     (case options of None \<Rightarrow> None
      | Some opts \<Rightarrow> first_some [request_field (ro_scopeIdParam opts) (hr_params req),
          request_field (ro_scopeIdBody opts) (hr_body req), request_field (ro_scopeIdQuery opts) (hr_query req)])"

definition guard_scopeType :: "RequirePermissionOptions option \<Rightarrow> string option" where
  "guard_scopeType options = Option.bind options (\<lambda>opts. map_option scope_name (ro_scopeType opts))"

datatype fallback_mode = MODE_any | MODE_all

definition legacyFallbackAllowed :: "RbacState \<Rightarrow> string \<Rightarrow> string option \<Rightarrow> string list \<Rightarrow> fallback_mode \<Rightarrow> bool" where
  "legacyFallbackAllowed s userId role ks mode =
     (if map_option js_upper role = Some ''ADMIN'' then True
      else if length (repo_getUserRoles userId (rs_db s)) > 0 then False
      else if mode = MODE_all then list_all (legacyRoleGrantsPermission role) ks
      else list_ex (legacyRoleGrantsPermission role) ks)"

text \<open>The user id and role of an authenticated request.\<close>

definition request_user :: "HttpRequest \<Rightarrow> HttpUser option" where
  "request_user req = (case hr_user req of None \<Rightarrow> None | Some u \<Rightarrow> if hu_id u = [] then None else Some u)"

definition requirePermission ::
  "(nat \<Rightarrow> string) \<Rightarrow> string \<Rightarrow> RequirePermissionOptions option \<Rightarrow> string option \<Rightarrow> HttpRequest \<Rightarrow> RbacState option
     \<Rightarrow> http \<times> RbacState option" where
  "requirePermission gen k options failure req service =
     (case request_user req of
        None \<Rightarrow> (HttpReject 401, service)
      | Some u \<Rightarrow>
         (case service of
            None \<Rightarrow> (if legacyRoleGrantsPermission (hu_role u) k then HttpNext else HttpReject 403, service)
          | Some s \<Rightarrow>
             (case failure of
                Some m \<Rightarrow>
                  (if (js_includes m ''does not exist'' \<or> js_includes m ''relation'') \<and> legacyRoleGrantsPermission (hu_role u) k
                   then HttpNext else HttpReject 500, service)
              | None \<Rightarrow>
                  if svc_checkPermission (hu_id u) k (guard_scopeType options) (guard_scopeId options req) s
                  then (HttpNext, service)
                  else if legacyFallbackAllowed s (hu_id u) (hu_role u) [k] MODE_any then (HttpNext, service)
                  else (HttpReject 403, Some (svc_logPermissionDenied gen (hu_id u) k (hr_ip req) (hr_userAgent req) s)))))"

text \<open>\<open>keys.join(',')\<close>\<close>

fun join_keys :: "string list \<Rightarrow> string" where
  "join_keys [] = []"
| "join_keys [k] = k"
| "join_keys (k # ks) = k @ '','' @ join_keys ks"

definition requireAnyPermission ::
  "(nat \<Rightarrow> string) \<Rightarrow> string list \<Rightarrow> RequirePermissionOptions option \<Rightarrow> string option \<Rightarrow> HttpRequest \<Rightarrow> RbacState option
     \<Rightarrow> http \<times> RbacState option" where
  "requireAnyPermission gen ks options failure req service =
     (case request_user req of
        None \<Rightarrow> (HttpReject 401, service)
      | Some u \<Rightarrow>
         (case service of
            None \<Rightarrow> (if list_ex (legacyRoleGrantsPermission (hu_role u)) ks then HttpNext else HttpReject 403, service)
          | Some s \<Rightarrow>
             (case failure of
                Some m \<Rightarrow>
                  (if js_includes m ''does not exist'' \<and> list_ex (legacyRoleGrantsPermission (hu_role u)) ks
                   then HttpNext else HttpReject 500, service)
              | None \<Rightarrow>
                  if list_ex (\<lambda>k. svc_checkPermission (hu_id u) k (guard_scopeType options) (guard_scopeId options req) s) ks
                  then (HttpNext, service)
                  else if legacyFallbackAllowed s (hu_id u) (hu_role u) ks MODE_any then (HttpNext, service)
                  else (HttpReject 403, Some (svc_logPermissionDenied gen (hu_id u) (join_keys ks) (hr_ip req) (hr_userAgent req) s)))))"

text \<open>The loop of \<open>requireAllPermissions\<close>: the first missing key decides.\<close>

definition requireAllPermissions ::
  "(nat \<Rightarrow> string) \<Rightarrow> string list \<Rightarrow> RequirePermissionOptions option \<Rightarrow> string option \<Rightarrow> HttpRequest \<Rightarrow> RbacState option
     \<Rightarrow> http \<times> RbacState option" where
  "requireAllPermissions gen ks options failure req service =
     (case request_user req of
        None \<Rightarrow> (HttpReject 401, service)
      | Some u \<Rightarrow>
         (case service of
            None \<Rightarrow> (if list_all (legacyRoleGrantsPermission (hu_role u)) ks then HttpNext else HttpReject 403, service)
          | Some s \<Rightarrow>
             (case failure of
                Some m \<Rightarrow>
                  (if js_includes m ''does not exist'' \<and> list_all (legacyRoleGrantsPermission (hu_role u)) ks
                   then HttpNext else HttpReject 500, service)
              | None \<Rightarrow>
                 (case find (\<lambda>k. \<not> svc_checkPermission (hu_id u) k (guard_scopeType options) (guard_scopeId options req) s) ks of
                    None \<Rightarrow> (HttpNext, service)
                  | Some k \<Rightarrow>
                      if legacyFallbackAllowed s (hu_id u) (hu_role u) ks MODE_all then (HttpNext, service)
                      else (HttpReject 403, Some (svc_logPermissionDenied gen (hu_id u) k (hr_ip req) (hr_userAgent req) s))))))"

subsection \<open>The contract between the two layers\<close>

text \<open>What the decisions rely on in their source of permissions: a permission it confirms for
  some scope is in the user's permission set, and a user without assignments has none.\<close>

locale permission_provider =
  fixes check :: "string \<Rightarrow> string \<Rightarrow> string option \<Rightarrow> string option \<Rightarrow> bool"
    and context_set :: "string \<Rightarrow> string set"
    and assigned :: "string \<Rightarrow> bool"
  assumes check_in_context: "check u k st si \<Longrightarrow> k \<in> context_set u"
    and unassigned_empty: "\<not> assigned u \<Longrightarrow> context_set u = {}"
begin

text \<open>The decision on one key, and the same decision taken again on the permission set.\<close>

definition decides :: "AuthorizationSubject \<Rightarrow> string \<Rightarrow> string option \<Rightarrow> string option \<Rightarrow> bool" where
  "decides s k st si \<longleftrightarrow> map_option js_upper (su_legacyRole s) = Some ''ADMIN'' \<or> check (su_id s) k st si
     \<or> \<not> assigned (su_id s) \<and> legacyRoleGrantsPermission (su_legacyRole s) k"

lemma decides_again:
  "decides s k st si \<Longrightarrow> ar_allowed (evaluatePermission s k (context_set (su_id s)) (\<not> assigned (su_id s)))"
  by (auto simp: decides_def dest: check_in_context)

lemma check_unassigned: "\<not> assigned u \<Longrightarrow> \<not> check u k st si"
  using check_in_context unassigned_empty by blast

lemma all_decided:
  "(\<forall>k \<in> set ks. decides s k st si) \<longleftrightarrow>
     (\<forall>k \<in> set ks. check (su_id s) k st si) \<or> map_option js_upper (su_legacyRole s) = Some ''ADMIN''
     \<or> \<not> assigned (su_id s) \<and> (\<forall>k \<in> set ks. legacyRoleGrantsPermission (su_legacyRole s) k)"
  by (cases "assigned (su_id s)") (auto simp: decides_def check_unassigned)

lemma some_decided:
  "ks \<noteq> [] \<Longrightarrow> (\<exists>k \<in> set ks. decides s k st si) \<longleftrightarrow>
     (\<exists>k \<in> set ks. check (su_id s) k st si) \<or> map_option js_upper (su_legacyRole s) = Some ''ADMIN''
     \<or> \<not> assigned (su_id s) \<and> (\<exists>k \<in> set ks. legacyRoleGrantsPermission (su_legacyRole s) k)"
  by (cases ks) (auto simp: decides_def)

end

lemma context_set_iff:
  "k \<in> svc_context_permissions uid s \<longleftrightarrow>
     (\<exists>u \<in> set (db_userRoles (rs_db s)). live_assignment (rs_db s) uid u \<and> (ur_roleId u, k) \<in> grants (rs_db s)
        \<and> (\<exists>r \<in> set (db_roles (rs_db s)). ro_id r = ur_roleId u \<and> ro_isActive r))"
proof -
  have "k \<in> svc_context_permissions uid s \<longleftrightarrow>
      (\<exists>u \<in> set (db_userRoles (rs_db s)). live_assignment (rs_db s) uid u \<and> (\<exists>r \<in> set (active_roles_of (rs_db s) u).
        \<exists>q \<in> set (db_rolePermissions (rs_db s)). rp_roleId q = ro_id r \<and> rp_permissionKey q = k))"
    by (auto simp: svc_context_permissions_def repo_getUserEffectivePermissions_def image_Union image_image)
  also have "\<dots> \<longleftrightarrow> (\<exists>u \<in> set (db_userRoles (rs_db s)). live_assignment (rs_db s) uid u
      \<and> (ur_roleId u, k) \<in> grants (rs_db s) \<and> (\<exists>r \<in> set (db_roles (rs_db s)). ro_id r = ur_roleId u \<and> ro_isActive r))"
    unfolding grants_iff active_roles_of_def by auto
  finally show ?thesis .
qed

lemma hasRbacAssignments_iff:
  "hasRbacAssignments s uid \<longleftrightarrow>
     (\<exists>u \<in> set (db_userRoles (rs_db s)). live_assignment (rs_db s) uid u
        \<and> (\<exists>r \<in> set (db_roles (rs_db s)). ro_id r = ur_roleId u \<and> ro_isActive r))"
  by (auto simp: hasRbacAssignments_def repo_getUserRoles_def active_roles_of_def filter_empty_conv)

interpretation provider: permission_provider
  "\<lambda>u k st si. repo_userHasPermission u k st si (rs_db s)" "\<lambda>u. svc_context_permissions u s" "hasRbacAssignments s" for s
proof
  show "k \<in> svc_context_permissions u s" if "repo_userHasPermission u k st si (rs_db s)" for u k st si
    using that unfolding userHasPermission_grants context_set_iff by blast
  show "svc_context_permissions u s = {}" if "\<not> hasRbacAssignments s u" for u
    using that unfolding hasRbacAssignments_iff by (auto simp: context_set_iff)
qed

subsection \<open>Decisions in terms of the contract\<close>

lemma evaluatePermission_decides:
  "rs_cache s = [] \<Longrightarrow> ar_allowed (azs_evaluatePermission s subject k st si) \<longleftrightarrow>
     isValidPermissionKey k \<and> provider.decides s subject k st si"
  by (auto simp: azs_evaluatePermission_def provider.decides_def checkPermission_no_cache)

lemma find_SomeD: "find P xs = Some x \<Longrightarrow> x \<in> set xs \<and> P x"
  by (auto simp: find_Some_iff)

lemma request_guard_simps:
  "request_user req = Some u \<Longrightarrow> rs_cache s = [] \<Longrightarrow>
     fst (requirePermission gen k opts None req (Some s)) = HttpNext \<longleftrightarrow>
       isValidPermissionKey k \<and> repo_userHasPermission (hu_id u) k (guard_scopeType opts) (guard_scopeId opts req) (rs_db s)
       \<or> map_option js_upper (hu_role u) = Some ''ADMIN''
       \<or> \<not> hasRbacAssignments s (hu_id u) \<and> legacyRoleGrantsPermission (hu_role u) k"
  "request_user req = Some u \<Longrightarrow> rs_cache s = [] \<Longrightarrow>
     fst (requireAnyPermission gen ks opts None req (Some s)) = HttpNext \<longleftrightarrow>
       (\<exists>k \<in> set ks. isValidPermissionKey k \<and> repo_userHasPermission (hu_id u) k (guard_scopeType opts) (guard_scopeId opts req) (rs_db s))
       \<or> map_option js_upper (hu_role u) = Some ''ADMIN''
       \<or> \<not> hasRbacAssignments s (hu_id u) \<and> (\<exists>k \<in> set ks. legacyRoleGrantsPermission (hu_role u) k)"
  "request_user req = Some u \<Longrightarrow> rs_cache s = [] \<Longrightarrow>
     fst (requireAllPermissions gen ks opts None req (Some s)) = HttpNext \<longleftrightarrow>
       (\<forall>k \<in> set ks. isValidPermissionKey k \<and> repo_userHasPermission (hu_id u) k (guard_scopeType opts) (guard_scopeId opts req) (rs_db s))
       \<or> map_option js_upper (hu_role u) = Some ''ADMIN''
       \<or> \<not> hasRbacAssignments s (hu_id u) \<and> (\<forall>k \<in> set ks. legacyRoleGrantsPermission (hu_role u) k)"
  by (auto simp: requirePermission_def requireAnyPermission_def requireAllPermissions_def checkPermission_no_cache
      legacyFallbackAllowed_def hasRbacAssignments_def list_ex_iff list_all_iff find_None_iff
      split: option.splits if_splits dest!: find_SomeD)

subsection \<open>Properties\<close>

text \<open>The authorization service says yes to a request exactly when the key is in the catalog,
  the requested scope is granted (by an assignment, by the ADMIN role, or, for a user with no
  live assignment, by the legacy role) and every policy that applies allows it. The second
  permission check it makes, on the unscoped permission set, never changes the answer.\<close>

theorem authorize_decomposed:
  assumes "rs_cache s = []"
  shows "ar_allowed (azs_authorizeResult es s subject i) \<longleftrightarrow>
     isValidPermissionKey (in_permission i)
     \<and> (map_option js_upper (su_legacyRole subject) = Some ''ADMIN''
        \<or> repo_userHasPermission (su_id subject) (in_permission i) (input_scopeType i) (input_scopeId i) (rs_db s)
        \<or> \<not> hasRbacAssignments s (su_id subject) \<and> legacyRoleGrantsPermission (su_legacyRole subject) (in_permission i))
     \<and> (\<forall>e \<in> set es. \<forall>d. e subject i = Some d \<longrightarrow> ar_allowed d)"
proof -
  let ?e = "azs_evaluatePermission s subject (in_permission i) (input_scopeType i) (input_scopeId i)"
  have "ar_allowed (azs_authorizeResult es s subject i) \<longleftrightarrow> ar_allowed ?e \<and>
      (\<forall>e \<in> set es. \<forall>d. e subject i = Some d \<longrightarrow> ar_allowed d)"
    using provider.decides_again [of s subject]
    by (auto simp: azs_authorizeResult_def Let_def authorize_allowed evaluatePermission_decides [OF assms]
        simp del: evaluatePermission_allowed)
  then show ?thesis unfolding evaluatePermission_decides [OF assms] provider.decides_def by simp
qed

theorem authorize_decomposed_witness:
  "ar_allowed (azs_authorizeResult DEFAULT_POLICY_EVALUATORS sample_state \<lparr>su_id = ''u1'', su_legacyRole = None\<rparr>
      \<lparr>in_permission = ''pos.read'', in_scope = None, in_context = None\<rparr>)"
proof -
  have "isValidPermissionKey ''pos.read'' \<and> repo_userHasPermission ''u1'' ''pos.read'' None None (rs_db sample_state)" by code_simp
  moreover have "\<forall>e \<in> set DEFAULT_POLICY_EVALUATORS. \<forall>d. e \<lparr>su_id = ''u1'', su_legacyRole = None\<rparr>
      \<lparr>in_permission = ''pos.read'', in_scope = None, in_context = None\<rparr> = Some d \<longrightarrow> ar_allowed d"
    by (simp add: DEFAULT_POLICY_EVALUATORS_def evaluateStoreAccessPolicy_def evaluateTransferStorePolicy_def input_fact_def)
  ultimately show ?thesis
    by (subst authorize_decomposed [OF sample_cache]) (simp add: input_scopeType_def input_scopeId_def)
qed

text \<open>The request guard and the authorization service take the same decision on every key of
  the catalog, for every user, scope and state reached without a database failure; on a key
  outside the catalog the service always refuses, while the guard lets an ADMIN and, for users
  without assignments, a legacy role through.\<close>

theorem guard_matches_service:
  assumes "rs_cache s = []" "request_user req = Some u"
  shows "fst (requirePermission gen k opts None req (Some s)) = HttpNext \<longleftrightarrow>
      (if isValidPermissionKey k
       then azs_hasPermission s \<lparr>su_id = hu_id u, su_legacyRole = hu_role u\<rparr> k (guard_scopeType opts) (guard_scopeId opts req)
       else map_option js_upper (hu_role u) = Some ''ADMIN''
         \<or> \<not> hasRbacAssignments s (hu_id u) \<and> legacyRoleGrantsPermission (hu_role u) k)"
  by (auto simp: request_guard_simps [OF assms(2,1)] azs_hasPermission_def evaluatePermission_decides [OF assms(1)]
      provider.decides_def)

text \<open>A manager without assignments, asking for a key that a route uses and the catalog lacks.\<close>

definition sample_request_of :: "string \<Rightarrow> string \<Rightarrow> HttpRequest" where
  "sample_request_of i r =
     \<lparr>hr_user = Some \<lparr>hu_id = i, hu_role = Some r\<rparr>, hr_params = [], hr_body = [], hr_query = [],
      hr_ip = None, hr_userAgent = None\<rparr>"

lemma sample_request_user: "request_user (sample_request_of ''u9'' ''MANAGER'') = Some \<lparr>hu_id = ''u9'', hu_role = Some ''MANAGER''\<rparr>"
  by (simp add: request_user_def sample_request_of_def)

theorem guard_matches_service_witness:
  "fst (requirePermission sample_gen ''suppliers.view'' None None (sample_request_of ''u9'' ''MANAGER'') (Some sample_state)) = HttpNext
    \<and> \<not> azs_hasPermission sample_state \<lparr>su_id = ''u9'', su_legacyRole = Some ''MANAGER''\<rparr> ''suppliers.view'' None None"
proof
  have v: "\<not> isValidPermissionKey ''suppliers.view''" by code_simp
  have "\<not> hasRbacAssignments sample_state ''u9'' \<and> legacyRoleGrantsPermission (Some ''MANAGER'') ''suppliers.view''"
    by code_simp
  then show "fst (requirePermission sample_gen ''suppliers.view'' None None (sample_request_of ''u9'' ''MANAGER'') (Some sample_state)) = HttpNext"
    by (subst guard_matches_service [OF sample_cache sample_request_user]) (simp add: v)
  show "\<not> azs_hasPermission sample_state \<lparr>su_id = ''u9'', su_legacyRole = Some ''MANAGER''\<rparr> ''suppliers.view'' None None"
    using v by (simp add: azs_hasPermission_def azs_evaluatePermission_def)
qed

text \<open>The guards on several keys are the conjunction and the disjunction of the guard on one:
  \<open>requireAllPermissions\<close> lets a request pass exactly when \<open>requirePermission\<close> lets it pass for
  each key, and \<open>requireAnyPermission\<close>, on a non-empty list, exactly when it does for some key.\<close>

theorem guards_compose:
  assumes "rs_cache s = []" "request_user req = Some u" "\<forall>k \<in> set ks. isValidPermissionKey k"
  shows "(fst (requireAllPermissions gen ks opts None req (Some s)) = HttpNext \<longleftrightarrow>
      (\<forall>k \<in> set ks. fst (requirePermission gen k opts None req (Some s)) = HttpNext))
    \<and> (ks \<noteq> [] \<longrightarrow> (fst (requireAnyPermission gen ks opts None req (Some s)) = HttpNext \<longleftrightarrow>
      (\<exists>k \<in> set ks. fst (requirePermission gen k opts None req (Some s)) = HttpNext)))"
proof -
  let ?su = "\<lparr>su_id = hu_id u, su_legacyRole = hu_role u\<rparr>"
  have one: "fst (requirePermission gen k opts None req (Some s)) = HttpNext \<longleftrightarrow>
      provider.decides s ?su k (guard_scopeType opts) (guard_scopeId opts req)" if "k \<in> set ks" for k
    using assms(3) that by (auto simp: request_guard_simps [OF assms(2,1)] provider.decides_def)
  show ?thesis
    using provider.all_decided [of ks s ?su "guard_scopeType opts" "guard_scopeId opts req"]
      provider.some_decided [of ks s ?su "guard_scopeType opts" "guard_scopeId opts req"] assms(3)
    by (simp add: request_guard_simps(2,3) [OF assms(2,1)] one)
qed

theorem guards_compose_witness:
  "fst (requireAllPermissions sample_gen [''pos.read'', ''sales.gift''] None None (sample_request_of ''u9'' ''MANAGER'') (Some sample_state)) = HttpNext
    \<longleftrightarrow> (\<forall>k \<in> {''pos.read'', ''sales.gift''}.
          fst (requirePermission sample_gen k None None (sample_request_of ''u9'' ''MANAGER'') (Some sample_state)) = HttpNext)"
proof -
  have "\<forall>k \<in> set [''pos.read'', ''sales.gift'']. isValidPermissionKey k" by code_simp
  from guards_compose [OF sample_cache sample_request_user this] show ?thesis by simp
qed

text \<open>A user whose assignments have all been removed, have expired or name deactivated roles
  is decided by the legacy role again: with a legacy role outside the table (or none), every
  permission check of the service layer throws for that user.\<close>

theorem unassigned_user_falls_back:
  assumes "rs_cache s = []" "\<not> hasRbacAssignments s uid" "resolveLegacyRole users uid role = r"
  shows "assertUserPermission users s uid k role None None =
    (if isValidPermissionKey k \<and> legacyRoleGrantsPermission r k then Inr ()
     else Inl (BusinessError (''Missing permission: '' @ k) ''ERR_PERMISSION_DENIED''))"
proof -
  have "map_option js_upper r = Some ''ADMIN'' \<Longrightarrow> legacyRoleGrantsPermission r k" for k
    by (auto simp: legacy_role_lookup)
  then have "userHasPermission users s uid k role \<longleftrightarrow> isValidPermissionKey k \<and> legacyRoleGrantsPermission r k"
    using provider.check_unassigned [OF assms(2)] assms(2)
    by (auto simp: userHasPermission_def azs_hasPermission_def evaluatePermission_decides [OF assms(1)]
        provider.decides_def assms(3))
  then show ?thesis by (simp add: assertUserPermission_def)
qed

theorem unassigned_user_falls_back_witness:
  "assertUserPermission (\<lambda>u. Some ''CASHIER'') sample_state ''u9'' ''pos.read'' None None None =
    (if isValidPermissionKey ''pos.read'' \<and> legacyRoleGrantsPermission (Some ''CASHIER'') ''pos.read'' then Inr ()
     else Inl (BusinessError (''Missing permission: '' @ ''pos.read'') ''ERR_PERMISSION_DENIED''))"
proof (rule unassigned_user_falls_back [OF sample_cache])
  show "\<not> hasRbacAssignments sample_state ''u9''" by code_simp
qed (simp add: resolveLegacyRole_def)

end
