(* ===== verification/RbacSeed.thy ===== *)
theory RbacSeed imports RbacService
begin

section \<open>Seeding the roles\<close>

text \<open>
  \<open>seedRbacTables\<close> (\<open>SamplePOS.Server/src/rbac/seed.ts\<close>): after the statements that create the tables,
  each system role is inserted under its name, or gets its description refreshed when a role of that name exists,
  and is then given the keys of its filter that it does not have yet. What the database answers to the
  CREATE statements is a parameter; an error rolls everything back. (PostgreSQL answers with a syntax error, since
  the UNIQUE constraint of \<open>rbac_user_roles\<close> names expressions.) The lemmas are about the insertions. Strings are
  ASCII here, so the dash in the waiter's description is written as two hyphens.
\<close>

definition system_user_id :: string where
  "system_user_id = ''00000000-0000-0000-0000-000000000001''"

definition SEED_DESCRIPTIONS :: "(string \<times> string) list" where
  "SEED_DESCRIPTIONS =
     [(''Super Administrator'', ''Full system access - all permissions''),
      (''Administrator'', ''Administrative access - user and role management''),
      (''Manager'', ''Operational management - sales, inventory, purchasing, accounting''),
      (''Cashier'', ''Point of sale operations''),
      (''Waiter'', ''Restaurant floor service -- open checks, KOT, and bill (no kitchen config or payment)''),
      (''Auditor'', ''Read-only access for auditing purposes''),
      (''Accountant'', ''Financial operations - accounting, banking, and reporting''),
      (''Warehouse Clerk'', ''Inventory and warehouse operations - receiving, stock counts, deliveries''),
      (''Sales Representative'', ''Sales operations - sales, customers, CRM, and quotations''),
      (''HR Manager'', ''Human resources and payroll management'')]"

text \<open>\<open>INSERT INTO rbac_roles .. ON CONFLICT (name) DO UPDATE SET description .. RETURNING id\<close>\<close>

definition upsert_system_role :: "(nat \<Rightarrow> string) \<Rightarrow> string \<Rightarrow> string \<Rightarrow> RbacDb \<Rightarrow> string \<times> RbacDb" where
  "upsert_system_role gen name description db =
     (case find (\<lambda>r. ro_name r = name) (db_roles db) of
        Some r \<Rightarrow> (ro_id r, update_roles (\<lambda>r. ro_name r = name) (\<lambda>r. r\<lparr>ro_description := description\<rparr>) db)
      | None \<Rightarrow>
          (gen (db_seq db),
           db\<lparr>db_roles := db_roles db @
                [\<lparr>ro_id = gen (db_seq db), ro_name = name, ro_description = description, ro_version = 1,
                  ro_isSystemRole = True, ro_isActive = True, ro_createdAt = db_now db, ro_updatedAt = db_now db,
                  ro_createdBy = system_user_id, ro_updatedBy = system_user_id\<rparr>],
              db_seq := Suc (db_seq db)\<rparr>))"

definition seed_role ::
  "(nat \<Rightarrow> string) \<Rightarrow> string \<Rightarrow> (Permission \<Rightarrow> bool) \<Rightarrow> RbacDb \<Rightarrow> (rbac_error, RbacDb) result" where
  "seed_role gen name f db =
     (case upsert_system_role gen name (the (map_of SEED_DESCRIPTIONS name)) db of
        (roleId, db1) \<Rightarrow> insert_rolePermissions system_user_id roleId (seed_grants f) db1)"

fun seed_roles ::
  "(nat \<Rightarrow> string) \<Rightarrow> (string \<times> (Permission \<Rightarrow> bool)) list \<Rightarrow> RbacDb \<Rightarrow> (rbac_error, RbacDb) result" where
  "seed_roles gen [] db = Inr db"
| "seed_roles gen ((n, f) # rs) db = and_then (seed_role gen n f db) (seed_roles gen rs)"

definition seedRbacTables :: "(rbac_error, unit) result \<Rightarrow> (nat \<Rightarrow> string) \<Rightarrow> RbacDb \<Rightarrow> (rbac_error, RbacDb) result" where
  "seedRbacTables created gen db = and_then created (\<lambda>_. seed_roles gen SEED_ROLES db)"

subsection \<open>Facts\<close>

text \<open>A role of that name holds the keys.\<close>

definition seeded_with :: "RbacDb \<Rightarrow> string \<Rightarrow> string list \<Rightarrow> bool" where
  "seeded_with db name ks \<longleftrightarrow> (\<exists>r \<in> set (db_roles db). ro_name r = name \<and> (\<forall>k \<in> set ks. (ro_id r, k) \<in> grants db))"

text \<open>Roles keep identifier and name, grants are only added.\<close>

definition additive :: "RbacDb \<Rightarrow> RbacDb \<Rightarrow> bool" where
  "additive db db' \<longleftrightarrow> grants db \<subseteq> grants db'
     \<and> (\<forall>r \<in> set (db_roles db). \<exists>r' \<in> set (db_roles db'). ro_id r' = ro_id r \<and> ro_name r' = ro_name r)
     \<and> db_userRoles db' = db_userRoles db"

lemma additive_trans: "additive a b \<Longrightarrow> additive b c \<Longrightarrow> additive a c"
  unfolding additive_def by (metis (no_types, lifting) subset_trans)

lemma seeded_with_additive: "seeded_with db n ks \<Longrightarrow> additive db db' \<Longrightarrow> seeded_with db' n ks"
  unfolding seeded_with_def additive_def by (metis subsetD)

lemma upsert_spec:
  assumes "upsert_system_role gen n d db = (rid, db')" "wf_db gen db" "inj gen"
  shows "wf_db gen db' \<and> additive db db' \<and> grants db' = grants db \<and> (\<exists>r \<in> set (db_roles db'). ro_id r = rid \<and> ro_name r = n)"
proof (cases "find (\<lambda>r. ro_name r = n) (db_roles db)")
  case None
  then have free: "\<not> (\<exists>r \<in> set (db_roles db). ro_name r = n)" by (simp add: find_None_iff)
  let ?r = "\<lparr>ro_id = gen (db_seq db), ro_name = n, ro_description = d, ro_version = 1, ro_isSystemRole = True,
    ro_isActive = True, ro_createdAt = db_now db, ro_updatedAt = db_now db, ro_createdBy = system_user_id, ro_updatedBy = system_user_id\<rparr>"
  from None assms(1) have e: "rid = gen (db_seq db)" "db_roles db' = db_roles db @ [?r]" "db_seq db' = Suc (db_seq db)"
      "db_rolePermissions db' = db_rolePermissions db" "db_userRoles db' = db_userRoles db"
    by (auto simp: upsert_system_role_def)
  have fresh: "gen (db_seq db) \<notin> ro_id ` set (db_roles db)"
  proof
    assume "gen (db_seq db) \<in> ro_id ` set (db_roles db)"
    then have "gen (db_seq db) \<in> gen ` {..<db_seq db}" using assms(2) by (auto simp: wf_db_def role_ids_def)
    then show False using assms(3) by (auto dest: injD)
  qed
  have ids: "role_ids db' = insert (gen (db_seq db)) (role_ids db)" "grants db' = grants db"
    by (auto simp: role_ids_def grants_def e)
  moreover have "n \<notin> ro_name ` set (db_roles db)" using free by auto
  ultimately have "wf_db gen db'"
    using assms(2) fresh unfolding wf_db_def ids by (auto simp: e less_Suc_eq lessThan_Suc)
  then show ?thesis using ids by (auto simp: additive_def e)
next
  case (Some r)
  let ?P = "\<lambda>r. ro_name r = n" and ?f = "\<lambda>r. r\<lparr>ro_description := d\<rparr>"
  from Some assms(1) have e: "rid = ro_id r" "db' = update_roles ?P ?f db"
    by (auto simp: upsert_system_role_def)
  have r: "r \<in> set (db_roles db)" "ro_name r = n" using Some by (auto simp: find_Some_iff)
  have "wf_db gen db'" unfolding e(2) using assms(2)
    by (intro wf_update_roles) (simp_all add: wf_db_def map_update_same del: map_map)
  moreover have kept: "\<exists>q' \<in> set (db_roles db'). ro_id q' = ro_id q \<and> ro_name q' = ro_name q" if "q \<in> set (db_roles db)" for q
  proof
    show "(if ?P q then ?f q else q) \<in> set (db_roles db')"
      unfolding e(2) update_roles_simps set_map using that by (rule imageI)
  qed simp
  moreover have "grants db' = grants db" "db_userRoles db' = db_userRoles db" by (simp_all add: e(2) grants_def)
  ultimately show ?thesis using r e(1) by (auto simp: additive_def)
qed

lemma seed_role_spec:
  assumes "wf_db gen db" "inj gen"
  shows "\<exists>db'. seed_role gen n f db = Inr db' \<and> wf_db gen db' \<and> additive db db' \<and> seeded_with db' n (seed_grants f)"
proof -
  obtain rid db1 where u: "upsert_system_role gen n (the (map_of SEED_DESCRIPTIONS n)) db = (rid, db1)"
    by (cases "upsert_system_role gen n (the (map_of SEED_DESCRIPTIONS n)) db")
  from upsert_spec [OF u assms] obtain r where 1: "wf_db gen db1" "additive db db1" "grants db1 = grants db"
      "r \<in> set (db_roles db1)" "ro_id r = rid" "ro_name r = n" by blast
  then have rid: "rid \<in> role_ids db1" by (auto simp: role_ids_def)
  from insert_rolePermissions_total [OF this] obtain db2 where
      2: "insert_rolePermissions system_user_id rid (seed_grants f) db1 = Inr db2" by blast
  from insert_rolePermissions_spec [OF 2] obtain P where P: "db2 = db1\<lparr>db_rolePermissions := P\<rparr>"
      "grants db2 = grants db1 \<union> {rid} \<times> set (seed_grants f)"
      "distinct (map grant_key (db_rolePermissions db1)) \<longrightarrow> distinct (map grant_key P)" by blast
  have "role_ids db2 = role_ids db1" by (simp add: role_ids_def P(1))
  moreover have "\<forall>(r, k) \<in> grants db2. isValidPermissionKey k \<and> r \<in> role_ids db2"
    using 1(1) rid unfolding P(2) calculation wf_db_def by (auto dest: seed_grants_valid)
  ultimately have "wf_db gen db2" using 1(1) P by (simp add: wf_db_def)
  moreover have "additive db db2" using 1(2) P by (auto simp: additive_def)
  moreover have "seeded_with db2 n (seed_grants f)" using 1(4-6) P by (auto simp: seeded_with_def)
  ultimately show ?thesis using u 2 by (auto simp: seed_role_def)
qed

lemma seed_roles_spec:
  "wf_db gen db \<Longrightarrow> inj gen \<Longrightarrow> \<exists>db'. seed_roles gen rs db = Inr db' \<and> wf_db gen db' \<and> (rs \<noteq> [] \<longrightarrow> additive db db')
     \<and> (\<forall>(n, f) \<in> set rs. seeded_with db' n (seed_grants f))"
proof (induction rs arbitrary: db)
  case (Cons x rs)
  obtain n f where x: "x = (n, f)" by (cases x)
  from seed_role_spec [OF Cons.prems] obtain db1 where 1: "seed_role gen n f db = Inr db1" "wf_db gen db1"
      "additive db db1" "seeded_with db1 n (seed_grants f)" by blast
  from Cons.IH [OF 1(2) Cons.prems(2)] obtain db2 where 2: "seed_roles gen rs db1 = Inr db2" "wf_db gen db2"
      "rs \<noteq> [] \<longrightarrow> additive db1 db2" "\<forall>(n, f) \<in> set rs. seeded_with db2 n (seed_grants f)" by blast
  have "additive db db2 \<and> seeded_with db2 n (seed_grants f)"
    using 1 2 by (cases rs) (auto intro: additive_trans seeded_with_additive)
  then show ?case using 1 2 by (auto simp: x)
qed simp

end
