(* ===== verification/Money.thy ===== *)
theory Money imports JsDate
begin

section \<open>Money: doubles rounded to cents\<close>

text \<open>
  The financial modules keep money in JavaScript numbers and round to cents with
  \<open>Math.round((n + Number.EPSILON) * 100) / 100\<close>. Every such result is the double nearest to a
  whole number of cents, \<open>cents k\<close>. On amounts up to \<open>2^46\<close> cents the rounded operations
  compute exactly on the numbers of cents: rounding is idempotent, rounded sums and differences
  add and subtract cents, and comparisons compare cents.
\<close>

definition roundMoney :: "jnum \<Rightarrow> jnum" where
  "roundMoney n = jdiv (jround (jmul (jadd n js_epsilon) (Fin 100))) (Fin 100)"

definition cents :: "int \<Rightarrow> rat" where
  "cents k = dbl (of_int k / 100)"

definition max_cents :: int where
  "max_cents = 2 ^ 46"

text \<open>A double that stands for a whole number of cents in range.\<close>

definition is_money :: "jnum \<Rightarrow> bool" where
  "is_money x \<longleftrightarrow> (\<exists>k. \<bar>k\<bar> \<le> max_cents \<and> x = Fin (cents k))"

subsection \<open>Error of one rounding\<close>

lemma dbl_err: "\<bar>dbl x - x\<bar> \<le> \<bar>x\<bar> / 2 ^ 53 + 1 / 2 ^ 80"
proof (cases "x = 0")
  case False
  let ?e = "ulp_exp x"
  have d: "dbl x - x = (of_int (rne (x / pow2 ?e)) - x / pow2 ?e) * pow2 ?e"
    using False by (simp add: dbl_def field_simps)
  have "\<bar>dbl x - x\<bar> \<le> 1 / 2 * pow2 ?e"
    unfolding d abs_mult abs_pow2 by (rule mult_right_mono [OF rne_diff]) (simp add: less_imp_le)
  moreover have "1 / 2 * pow2 ?e \<le> \<bar>x\<bar> / 2 ^ 53 + 1 / 2 ^ 80"
  proof (cases "ilog2 x - 52 \<ge> -1074")
    case True
    then have e: "?e = ilog2 x - 52" by (simp add: ulp_exp_def)
    have "pow2 ?e = pow2 (ilog2 x) / 2 ^ 52" unfolding e by (simp add: pow2_diff pow2_nat)
    also have "\<dots> \<le> \<bar>x\<bar> / 2 ^ 52" using ilog2_bounds [OF False] by (intro divide_right_mono) auto
    finally show ?thesis by simp
  next
    case False
    then have "?e \<le> -79" by (simp add: ulp_exp_def)
    then have "pow2 ?e \<le> pow2 (-79)" by (rule pow2_mono)
    also have "pow2 (-79) = 2 / 2 ^ 80" by (simp add: pow2_def)
    finally show ?thesis by simp
  qed
  ultimately show ?thesis by linarith
qed simp

lemma dbl_small: "\<bar>x\<bar> \<le> 2 ^ 60 \<Longrightarrow> js_round_rat x = Fin (dbl x)"
proof -
  assume "\<bar>x\<bar> \<le> 2 ^ 60"
  also have "(2 ^ 60 :: rat) < 2 ^ 1023" by (intro power_strict_increasing) simp_all
  finally show ?thesis by (rule js_round_rat_small)
qed


text \<open>The bound in the form the proofs below use: two numbers differ by little when one is the
  rounding of the other.\<close>

lemma dbl_between:
  assumes "\<bar>x\<bar> \<le> B"
  shows "x - (B / 2 ^ 53 + 1 / 2 ^ 80) \<le> dbl x" "dbl x \<le> x + (B / 2 ^ 53 + 1 / 2 ^ 80)"
proof -
  have "\<bar>x\<bar> / 2 ^ 53 \<le> B / 2 ^ 53" using assms by (intro divide_right_mono) simp_all
  then show "x - (B / 2 ^ 53 + 1 / 2 ^ 80) \<le> dbl x" "dbl x \<le> x + (B / 2 ^ 53 + 1 / 2 ^ 80)"
    using dbl_err [of x] unfolding abs_le_iff by linarith+
qed

subsection \<open>Numbers of cents\<close>

lemma cents_err:
  assumes "\<bar>k\<bar> \<le> 2 ^ 47"
  shows "\<bar>100 * cents k - of_int k\<bar> \<le> 1 / 60"
proof -
  have "\<bar>of_int k\<bar> \<le> (2 ^ 47 :: rat)" using assms by (metis of_int_abs of_int_le_iff of_int_numeral of_int_power)
  then have "\<bar>of_int k / 100\<bar> \<le> (2 ^ 47 / 100 :: rat)" by simp
  from dbl_between [OF this] show ?thesis unfolding cents_def abs_le_iff by (simp add: field_simps)
qed

lemma cents_range:
  assumes "\<bar>k\<bar> \<le> 2 ^ 47"
  shows "\<bar>cents k\<bar> \<le> 2 ^ 41"
proof -
  have "\<bar>of_int k\<bar> \<le> (2 ^ 47 :: rat)" using assms by (metis of_int_abs of_int_le_iff of_int_numeral of_int_power)
  with cents_err [OF assms] show ?thesis unfolding abs_le_iff by (simp add: field_simps)
qed

lemma cents_0 [simp]: "cents 0 = 0"
  by (simp add: cents_def)

lemma cents_minus: "cents (- k) = - cents k"
  using dbl_minus [of "of_int k / 100"] by (simp add: cents_def)

lemma cents_wf: "\<bar>k\<bar> \<le> 2 ^ 47 \<Longrightarrow> wf_num (Fin (cents k))"
proof -
  assume "\<bar>k\<bar> \<le> 2 ^ 47"
  from cents_range [OF this] have "\<bar>cents k\<bar> \<le> 2 ^ 41" .
  also have "(2 ^ 41 :: rat) < 2 ^ 1024" by (intro power_strict_increasing) simp_all
  finally show ?thesis by (simp add: wf_num.simps cents_def)
qed

lemma cents_less_iff:
  assumes "\<bar>a\<bar> \<le> 2 ^ 47" "\<bar>b\<bar> \<le> 2 ^ 47"
  shows "cents a < cents b \<longleftrightarrow> a < b"
proof
  assume "a < b"
  then have "of_int a + 1 \<le> (of_int b :: rat)" by (metis of_int_1 of_int_add of_int_le_iff zless_imp_add1_zle)
  with cents_err [OF assms(1)] cents_err [OF assms(2)] show "cents a < cents b" unfolding abs_le_iff by linarith
next
  assume l: "cents a < cents b"
  show "a < b"
  proof (rule ccontr)
    assume "\<not> a < b"
    then have "cents b \<le> cents a" unfolding cents_def by (intro dbl_mono divide_right_mono) simp_all
    with l show False by simp
  qed
qed

lemma cents_le_iff: "\<bar>a\<bar> \<le> 2 ^ 47 \<Longrightarrow> \<bar>b\<bar> \<le> 2 ^ 47 \<Longrightarrow> cents a \<le> cents b \<longleftrightarrow> a \<le> b"
  by (metis cents_less_iff linorder_not_less)

lemma cents_eq_iff: "\<bar>a\<bar> \<le> 2 ^ 47 \<Longrightarrow> \<bar>b\<bar> \<le> 2 ^ 47 \<Longrightarrow> cents a = cents b \<longleftrightarrow> a = b"
  by (metis cents_less_iff linorder_less_linear order_less_irrefl)

lemma cents_sign [simp]:
  "\<bar>a\<bar> \<le> 2 ^ 47 \<Longrightarrow> cents a \<le> 0 \<longleftrightarrow> a \<le> 0" "\<bar>a\<bar> \<le> 2 ^ 47 \<Longrightarrow> 0 < cents a \<longleftrightarrow> 0 < a"
  "\<bar>a\<bar> \<le> 2 ^ 47 \<Longrightarrow> cents a < 0 \<longleftrightarrow> a < 0" "\<bar>a\<bar> \<le> 2 ^ 47 \<Longrightarrow> 0 \<le> cents a \<longleftrightarrow> 0 \<le> a"
  "\<bar>a\<bar> \<le> 2 ^ 47 \<Longrightarrow> cents a = 0 \<longleftrightarrow> a = 0"
  using cents_le_iff [of a 0] cents_less_iff [of 0 a] cents_less_iff [of a 0] cents_le_iff [of 0 a] cents_eq_iff [of a 0]
  by simp_all

text \<open>The literals of the code that are whole cents.\<close>

lemma lit_cents: "\<bar>k\<bar> \<le> 2 ^ 47 \<Longrightarrow> lit (of_int k / 100) = Fin (cents k)"
proof -
  assume "\<bar>k\<bar> \<le> 2 ^ 47"
  then have "\<bar>of_int k\<bar> \<le> (2 ^ 47 :: rat)" by (metis of_int_abs of_int_le_iff of_int_numeral of_int_power)
  then have "\<bar>of_int k / 100\<bar> \<le> (2 ^ 60 :: rat)" by simp
  from dbl_small [OF this] show ?thesis by (simp add: lit_def cents_def)
qed

subsection \<open>Rounding to cents\<close>

text \<open>A number within an eighth of a cent of a whole number of cents rounds to it.\<close>

lemma roundMoney_near:
  assumes "\<bar>100 * x - of_int k\<bar> \<le> 1 / 8" "\<bar>k\<bar> \<le> 2 ^ 47"
  shows "roundMoney (Fin x) = Fin (cents k)"
proof -
  have k: "\<bar>of_int k\<bar> \<le> (2 ^ 47 :: rat)" using assms(2) by (metis of_int_abs of_int_le_iff of_int_numeral of_int_power)
  define s where "s = dbl (x + 1 / 2 ^ 52)"
  have x: "\<bar>x + 1 / 2 ^ 52\<bar> \<le> 2 ^ 41" using assms(1) k unfolding abs_le_iff by (simp add: field_simps)
  have 1: "jadd (Fin x) js_epsilon = Fin s"
    using dbl_small [of "x + 1 / 2 ^ 52"] x by (simp add: js_epsilon_def s_def)
  have s: "\<bar>s - x\<bar> \<le> 1 / 2000" using dbl_between [OF x] unfolding s_def abs_le_iff by (simp add: field_simps)
  define t where "t = dbl (s * 100)"
  have s100: "\<bar>s * 100\<bar> \<le> 2 ^ 48" using assms(1) k s unfolding abs_le_iff by (simp add: field_simps)
  have 2: "jmul (Fin s) (Fin 100) = Fin t"
    using dbl_small [of "s * 100"] s100 by (simp add: t_def)
  have t: "\<bar>t - s * 100\<bar> \<le> 1 / 16" using dbl_between [OF s100] unfolding t_def abs_le_iff by (simp add: field_simps)
  have "\<bar>t - of_int k\<bar> < 1 / 2" using assms(1) s t unfolding abs_less_iff abs_le_iff by linarith
  then have "of_int k \<le> t + 1 / 2" "t + 1 / 2 < of_int k + 1" unfolding abs_less_iff by linarith+
  then have "\<lfloor>t + 1 / 2\<rfloor> = k" by (simp add: floor_eq_iff)
  then have 3: "jround (Fin t) = Fin (of_int k)" by simp
  have "\<bar>of_int k / 100\<bar> \<le> (2 ^ 60 :: rat)" using k by simp
  from dbl_small [OF this] have "jdiv (Fin (of_int k)) (Fin 100) = Fin (cents k)" by (simp add: cents_def)
  then show ?thesis by (simp only: roundMoney_def 1 2 3)
qed

lemma roundMoney_cents [simp]: "\<bar>k\<bar> \<le> 2 ^ 47 \<Longrightarrow> roundMoney (Fin (cents k)) = Fin (cents k)"
  using cents_err [of k] by (intro roundMoney_near) linarith+

lemma cents_add_near:
  assumes "\<bar>a\<bar> \<le> 2 ^ 46" "\<bar>b\<bar> \<le> 2 ^ 46"
  shows "\<exists>x. jadd (Fin (cents a)) (Fin (cents b)) = Fin x \<and> \<bar>100 * x - of_int (a + b)\<bar> \<le> 1 / 15"
proof -
  have c: "\<bar>cents a + cents b\<bar> \<le> 2 ^ 42" using cents_range [of a] cents_range [of b] assms unfolding abs_le_iff by simp
  have 1: "jadd (Fin (cents a)) (Fin (cents b)) = Fin (dbl (cents a + cents b))"
    using dbl_small [of "cents a + cents b"] c by simp
  have ab: "\<bar>of_int a\<bar> \<le> (2 ^ 46 :: rat)" "\<bar>of_int b\<bar> \<le> (2 ^ 46 :: rat)"
    using assms by (metis of_int_abs of_int_le_iff of_int_numeral of_int_power)+
  have e: "\<bar>100 * cents a - of_int a\<bar> \<le> 1 / 60" "\<bar>100 * cents b - of_int b\<bar> \<le> 1 / 60"
    using cents_err [of a] cents_err [of b] assms by simp_all
  then have "\<bar>cents a + cents b\<bar> \<le> (2 ^ 47 + 1) / 100" using ab unfolding abs_le_iff by simp
  from dbl_between [OF this] have "\<bar>100 * dbl (cents a + cents b) - of_int (a + b)\<bar> \<le> 1 / 15"
    using e unfolding abs_le_iff by simp
  with 1 show ?thesis by blast
qed

lemma cents_add:
  assumes "\<bar>a\<bar> \<le> 2 ^ 46" "\<bar>b\<bar> \<le> 2 ^ 46"
  shows "roundMoney (jadd (Fin (cents a)) (Fin (cents b))) = Fin (cents (a + b))"
proof -
  obtain x where x: "jadd (Fin (cents a)) (Fin (cents b)) = Fin x" "\<bar>100 * x - of_int (a + b)\<bar> \<le> 1 / 15"
    using cents_add_near [OF assms] by blast
  have "\<bar>a + b\<bar> \<le> 2 ^ 47" using assms by simp
  then have "roundMoney (Fin x) = Fin (cents (a + b))" using x(2) by (intro roundMoney_near) linarith+
  with x(1) show ?thesis by simp
qed

lemma cents_sub_near:
  assumes "\<bar>a\<bar> \<le> 2 ^ 46" "\<bar>b\<bar> \<le> 2 ^ 46"
  shows "\<exists>x. jsub (Fin (cents a)) (Fin (cents b)) = Fin x \<and> \<bar>100 * x - of_int (a - b)\<bar> \<le> 1 / 15"
  using cents_add_near [of a "- b"] assms by (simp add: jsub_def cents_minus)

lemma cents_sub:
  assumes "\<bar>a\<bar> \<le> 2 ^ 46" "\<bar>b\<bar> \<le> 2 ^ 46"
  shows "roundMoney (jsub (Fin (cents a)) (Fin (cents b))) = Fin (cents (a - b))"
  using cents_add [of a "- b"] assms by (simp add: jsub_def cents_minus)

text \<open>An unrounded sum of two numbers that are close to whole cents.\<close>

lemma near_add:
  assumes "\<bar>100 * x - of_int a\<bar> \<le> e" "\<bar>100 * y - of_int b\<bar> \<le> f" "\<bar>a\<bar> \<le> 2 ^ 46" "\<bar>b\<bar> \<le> 2 ^ 46" "e \<le> 1" "f \<le> 1"
  shows "\<exists>z. jadd (Fin x) (Fin y) = Fin z \<and> \<bar>100 * z - of_int (a + b)\<bar> \<le> e + f + 1 / 60"
proof -
  have ab: "\<bar>of_int a\<bar> \<le> (2 ^ 46 :: rat)" "\<bar>of_int b\<bar> \<le> (2 ^ 46 :: rat)"
    using assms(3,4) by (metis of_int_abs of_int_le_iff of_int_numeral of_int_power)+
  with assms have c: "\<bar>x + y\<bar> \<le> (2 ^ 47 + 2) / 100" unfolding abs_le_iff by simp
  then have "\<bar>x + y\<bar> \<le> 2 ^ 60" unfolding abs_le_iff by simp
  then have 1: "jadd (Fin x) (Fin y) = Fin (dbl (x + y))" using dbl_small [of "x + y"] by simp
  have "\<bar>100 * dbl (x + y) - of_int (a + b)\<bar> \<le> e + f + 1 / 60"
    using dbl_between [OF c] assms(1,2) unfolding abs_le_iff by simp
  with 1 show ?thesis by blast
qed

lemma cents_add_sub:
  assumes "\<bar>t\<bar> \<le> 2 ^ 46" "\<bar>a\<bar> \<le> 2 ^ 45" "\<bar>b\<bar> \<le> 2 ^ 45"
  shows "roundMoney (jadd (Fin (cents t)) (jsub (Fin (cents a)) (Fin (cents b)))) = Fin (cents (t + (a - b)))"
    and "roundMoney (jsub (Fin (cents t)) (jsub (Fin (cents a)) (Fin (cents b)))) = Fin (cents (t - (a - b)))"
proof -
  obtain x where x: "jsub (Fin (cents a)) (Fin (cents b)) = Fin x" "\<bar>100 * x - of_int (a - b)\<bar> \<le> 1 / 15"
    using cents_sub_near [of a b] assms by auto
  have m: "\<bar>100 * - x - of_int (- (a - b))\<bar> \<le> 1 / 15" using x(2) unfolding abs_le_iff by simp
  have t: "\<bar>100 * cents t - of_int t\<bar> \<le> 1 / 60" by (rule cents_err) (use assms in simp)
  have ab: "\<bar>a - b\<bar> \<le> 2 ^ 46" "\<bar>- (a - b)\<bar> \<le> 2 ^ 46" "\<bar>t + (a - b)\<bar> \<le> 2 ^ 47" "\<bar>t + - (a - b)\<bar> \<le> 2 ^ 47"
    using assms unfolding abs_le_iff by simp_all
  obtain y where y: "jadd (Fin (cents t)) (Fin x) = Fin y" "\<bar>100 * y - of_int (t + (a - b))\<bar> \<le> 1 / 60 + 1 / 15 + 1 / 60"
    using near_add [OF t x(2) assms(1) ab(1)] by auto
  obtain z where z: "jadd (Fin (cents t)) (Fin (- x)) = Fin z" "\<bar>100 * z - of_int (t + - (a - b))\<bar> \<le> 1 / 60 + 1 / 15 + 1 / 60"
    using near_add [OF t m assms(1) ab(2)] by auto
  have "roundMoney (Fin y) = Fin (cents (t + (a - b)))" using y(2) ab(3) by (intro roundMoney_near) linarith+
  then show "roundMoney (jadd (Fin (cents t)) (jsub (Fin (cents a)) (Fin (cents b)))) = Fin (cents (t + (a - b)))"
    unfolding x(1) y(1) .
  have "roundMoney (Fin z) = Fin (cents (t + - (a - b)))" using z(2) ab(4) by (intro roundMoney_near) linarith+
  moreover have "jsub (Fin (cents t)) (Fin x) = Fin z" using z(1) unfolding jsub_def by simp
  ultimately show "roundMoney (jsub (Fin (cents t)) (jsub (Fin (cents a)) (Fin (cents b)))) = Fin (cents (t - (a - b)))"
    unfolding x(1) by (simp add: algebra_simps)
qed

text \<open>The rounded running total of a list of amounts in cents.\<close>

lemma cents_running_total:
  assumes "\<forall>k \<in> set ks. \<bar>k\<bar> \<le> B" "\<bar>t\<bar> + int (length ks) * B \<le> 2 ^ 46"
  shows "foldl (\<lambda>s k. roundMoney (jadd s (Fin (cents k)))) (Fin (cents t)) ks = Fin (cents (t + sum_list ks))"
  using assms
proof (induction ks arbitrary: t)
  case (Cons k ks)
  have B: "0 \<le> B" "\<bar>k\<bar> \<le> B" using Cons.prems(1) by auto
  have "0 \<le> int (length ks) * B" using B(1) by simp
  then have "\<bar>t\<bar> \<le> 2 ^ 46" "\<bar>k\<bar> \<le> 2 ^ 46" "\<bar>t + k\<bar> + int (length ks) * B \<le> 2 ^ 46"
    using Cons.prems(2) B by (simp_all add: distrib_right, linarith+)
  then have "roundMoney (jadd (Fin (cents t)) (Fin (cents k))) = Fin (cents (t + k))"
      "\<bar>t + k\<bar> + int (length ks) * B \<le> 2 ^ 46" by (simp_all add: cents_add del: jadd.simps)
  with Cons.IH [of "t + k"] Cons.prems(1) show ?case by (simp add: add.assoc del: jadd.simps)
qed simp

text \<open>Comparing the difference of two amounts with a tolerance of 9 or more tenths of a cent and
  at most one cent.\<close>

lemma cents_differ:
  assumes "\<bar>a\<bar> \<le> 2 ^ 46" "\<bar>b\<bar> \<le> 2 ^ 46"
  shows "jlt (Fin e) (jabs (jsub (Fin (cents a)) (Fin (cents b)))) \<Longrightarrow> 0 \<le> e \<Longrightarrow> a \<noteq> b"
    and "e \<le> 93 / 10000 \<Longrightarrow> a \<noteq> b \<Longrightarrow> jlt (Fin e) (jabs (jsub (Fin (cents a)) (Fin (cents b))))"
    and "e \<le> 193 / 10000 \<Longrightarrow> 2 \<le> \<bar>a - b\<bar> \<Longrightarrow> jlt (Fin e) (jabs (jsub (Fin (cents a)) (Fin (cents b))))"
proof -
  obtain x where x: "jsub (Fin (cents a)) (Fin (cents b)) = Fin x" "\<bar>100 * x - of_int (a - b)\<bar> \<le> 1 / 15"
    using cents_sub_near [OF assms] by blast
  show "jlt (Fin e) (jabs (jsub (Fin (cents a)) (Fin (cents b)))) \<Longrightarrow> 0 \<le> e \<Longrightarrow> a \<noteq> b"
    by (auto simp: jsub_self)
  show "jlt (Fin e) (jabs (jsub (Fin (cents a)) (Fin (cents b))))" if "e \<le> 93 / 10000" "a \<noteq> b"
  proof -
    have "1 \<le> \<bar>a - b\<bar>" using that(2) by simp
    then have "1 \<le> \<bar>of_int (a - b) :: rat\<bar>" by (metis of_int_1 of_int_abs of_int_le_iff)
    with x(2) that(1) have "e < \<bar>x\<bar>" unfolding abs_le_iff by (cases "of_int (a - b) \<ge> (0::rat)") (simp_all add: abs_if field_simps split: if_splits)
    then show ?thesis by (simp add: x(1))
  qed
  show "jlt (Fin e) (jabs (jsub (Fin (cents a)) (Fin (cents b))))" if "e \<le> 193 / 10000" "2 \<le> \<bar>a - b\<bar>"
  proof -
    have "2 \<le> \<bar>of_int (a - b) :: rat\<bar>" using that(2) by (metis of_int_abs of_int_le_iff of_int_numeral)
    with x(2) that(1) have "e < \<bar>x\<bar>" unfolding abs_le_iff by (cases "of_int (a - b) \<ge> (0::rat)") (simp_all add: abs_if field_simps split: if_splits)
    then show ?thesis by (simp add: x(1))
  qed
qed

end
