(* ===== verification/JournalAccuracy.thy ===== *)
theory JournalAccuracy imports Money "HOL-Library.Multiset"
begin

section \<open>Journal accuracy engine\<close>

text \<open>
  \<open>shared/financial-accuracy/journalAccuracy.ts\<close>: the checks a journal passes before it counts
  as right. An error is kept as its code; the messages, which format amounts, are left out, and so
  are \<open>formatJournal\<close> and \<open>keyOf\<close>, which only print.
\<close>

subsection \<open>Data\<close>

datatype JournalSide = SIDE_debit | SIDE_credit

record ExpectedJournalLine =
  ejl_accountCode :: string
  ejl_side :: JournalSide
  ejl_amount :: jnum
  ejl_label :: string

record ActualJournalLine =
  ajl_accountCode :: string
  ajl_debitAmount :: "jnum option"
  ajl_creditAmount :: "jnum option"

record MatchOptions =
  mo_exact :: "bool option"
  mo_epsilon :: "jnum option"

datatype JournalAccuracyError =
    JA_NO_ACCOUNT | JA_DUAL_SIDED | JA_ZERO_LINE | JA_NO_LINES | JA_UNBALANCED | JA_ZERO
  | JA_EMPTY_EXPECTED | JA_LINE_COUNT | JA_BAD_EXPECTED | JA_MISSING_LINE | JA_EXTRA_LINE
  | JA_FORBIDDEN_ACCOUNT | JA_BAD_AMOUNT | JA_SAME_ACCOUNT | JA_PNL_IMPACT

definition lineDebit :: "ActualJournalLine \<Rightarrow> jnum" where
  "lineDebit l = roundMoney (coalesce (ajl_debitAmount l) (Fin 0))"

definition lineCredit :: "ActualJournalLine \<Rightarrow> jnum" where
  "lineCredit l = roundMoney (coalesce (ajl_creditAmount l) (Fin 0))"

text \<open>Default tolerance of the engine.\<close>

definition ja_epsilon :: jnum where
  "ja_epsilon = lit (1 / 100)"

subsection \<open>Balance\<close>

definition assertOneSidedLine :: "jnum \<Rightarrow> ActualJournalLine \<Rightarrow> (JournalAccuracyError, unit) result" where
  "assertOneSidedLine epsilon line = (let d = lineDebit line; c = lineCredit line in
     and_then (throw_if (js_trim (ajl_accountCode line) = []) JA_NO_ACCOUNT) (\<lambda>_.
     and_then (throw_if (jlt epsilon d \<and> jlt epsilon c) JA_DUAL_SIDED) (\<lambda>_.
     throw_if (jle d epsilon \<and> jle c epsilon) JA_ZERO_LINE)))"

definition assertOneSidedLines :: "ActualJournalLine list \<Rightarrow> jnum \<Rightarrow> (JournalAccuracyError, unit) result" where
  "assertOneSidedLines lines epsilon = each_ok (assertOneSidedLine epsilon) lines"

definition running_total :: "(ActualJournalLine \<Rightarrow> jnum) \<Rightarrow> ActualJournalLine list \<Rightarrow> jnum" where
  "running_total f lines = foldl (\<lambda>t l. roundMoney (jadd t (f l))) (Fin 0) lines"

definition assertJournalBalanced ::
  "ActualJournalLine list \<Rightarrow> jnum \<Rightarrow> (JournalAccuracyError, jnum \<times> jnum) result" where
  "assertJournalBalanced lines epsilon =
     and_then (assertOneSidedLines lines epsilon) (\<lambda>_.
     let totalDebits = running_total lineDebit lines; totalCredits = running_total lineCredit lines in
     and_then (throw_if (lines = []) JA_NO_LINES) (\<lambda>_.
     and_then (throw_if (jlt epsilon (jabs (jsub totalDebits totalCredits))) JA_UNBALANCED) (\<lambda>_.
     and_then (throw_if (jle totalDebits (Fin 0)) JA_ZERO) (\<lambda>_.
     Inr (totalDebits, totalCredits)))))"

subsection \<open>Matching a journal with its specification\<close>

definition line_fits :: "jnum \<Rightarrow> ExpectedJournalLine \<Rightarrow> ActualJournalLine \<Rightarrow> bool" where
  "line_fits epsilon e a \<longleftrightarrow> ajl_accountCode a = ejl_accountCode e \<and>
     (let amount = roundMoney (ejl_amount e); d = lineDebit a; c = lineCredit a in
      case ejl_side e of
        SIDE_debit \<Rightarrow> jle (jabs (jsub d amount)) epsilon \<and> jle c epsilon
      | SIDE_credit \<Rightarrow> jle (jabs (jsub c amount)) epsilon \<and> jle d epsilon)"

text \<open>\<open>xs.findIndex(p)\<close>, the positions counted from \<open>i\<close>.\<close>

fun find_index :: "(nat \<Rightarrow> 'a \<Rightarrow> bool) \<Rightarrow> nat \<Rightarrow> 'a list \<Rightarrow> nat option" where
  "find_index p i [] = None"
| "find_index p i (x # xs) = (if p i x then Some i else find_index p (Suc i) xs)"

text \<open>The loop over the expected lines; \<open>used\<close> is the set of positions already taken.\<close>

fun match_lines ::
  "jnum \<Rightarrow> ActualJournalLine list \<Rightarrow> nat set \<Rightarrow> ExpectedJournalLine list \<Rightarrow> (JournalAccuracyError, nat set) result" where
  "match_lines epsilon actual used [] = Inr used"
| "match_lines epsilon actual used (e # es) =
     (if \<not> jlt (Fin 0) (roundMoney (ejl_amount e)) then Inl JA_BAD_EXPECTED
      else case find_index (\<lambda>i a. i \<notin> used \<and> line_fits epsilon e a) 0 actual of
             None \<Rightarrow> Inl JA_MISSING_LINE
           | Some i \<Rightarrow> match_lines epsilon actual (insert i used) es)"

definition assertJournalMatchesExpected ::
  "ActualJournalLine list \<Rightarrow> ExpectedJournalLine list \<Rightarrow> MatchOptions \<Rightarrow> (JournalAccuracyError, unit) result" where
  "assertJournalMatchesExpected actual expected options =
     (let epsilon = coalesce (mo_epsilon options) ja_epsilon; exact = (mo_exact options \<noteq> Some False) in
      and_then (throw_if (expected = []) JA_EMPTY_EXPECTED) (\<lambda>_.
      and_then (assertJournalBalanced actual epsilon) (\<lambda>_.
      and_then (throw_if (exact \<and> length actual \<noteq> length expected) JA_LINE_COUNT) (\<lambda>_.
      and_then (match_lines epsilon actual {} expected) (\<lambda>used.
      throw_if (exact \<and> (\<exists>i \<in> set [0..<length actual]. i \<notin> used)) JA_EXTRA_LINE)))))"

definition assertForbiddenAccounts :: "ActualJournalLine list \<Rightarrow> string list \<Rightarrow> (JournalAccuracyError, unit) result" where
  "assertForbiddenAccounts lines forbidden =
     each_ok (\<lambda>code. throw_if (\<exists>l \<in> set lines. ajl_accountCode l = code) JA_FORBIDDEN_ACCOUNT) forbidden"

definition twoLineJournal ::
  "string \<Rightarrow> string \<Rightarrow> jnum \<Rightarrow> (JournalAccuracyError, ActualJournalLine list) result" where
  "twoLineJournal debitAccount creditAccount amount = (let a = roundMoney amount in
     and_then (throw_if (\<not> jlt (Fin 0) a) JA_BAD_AMOUNT) (\<lambda>_.
     and_then (throw_if (js_trim debitAccount = [] \<or> js_trim creditAccount = []) JA_NO_ACCOUNT) (\<lambda>_.
     and_then (throw_if (debitAccount = creditAccount) JA_SAME_ACCOUNT) (\<lambda>_.
     Inr [\<lparr>ajl_accountCode = debitAccount, ajl_debitAmount = Some a, ajl_creditAmount = Some (Fin 0)\<rparr>,
          \<lparr>ajl_accountCode = creditAccount, ajl_debitAmount = Some (Fin 0), ajl_creditAmount = Some a\<rparr>]))))"

subsection \<open>Effect on the result of the period\<close>

definition net_step :: "jnum \<Rightarrow> ActualJournalLine \<Rightarrow> jnum" where
  "net_step impact line = (let code = ajl_accountCode line; d = lineDebit line; c = lineCredit line in
     if js_starts_with code ''4'' then roundMoney (jadd impact (jsub c d))
     else if js_starts_with code ''5'' \<or> js_starts_with code ''6'' \<or> js_starts_with code ''7''
       then roundMoney (jsub impact (jsub d c))
     else impact)"

definition netIncomeImpactFromJournal :: "ActualJournalLine list \<Rightarrow> jnum" where
  "netIncomeImpactFromJournal lines = foldl net_step (Fin 0) lines"

record PnlDeltaExpectation =
  pde_netIncomeDelta :: jnum
  pde_label :: string

definition assertPnlImpact ::
  "ActualJournalLine list \<Rightarrow> PnlDeltaExpectation \<Rightarrow> jnum \<Rightarrow> (JournalAccuracyError, unit) result" where
  "assertPnlImpact lines expected epsilon =
     throw_if (jlt epsilon (jabs (jsub (netIncomeImpactFromJournal lines) (pde_netIncomeDelta expected)))) JA_PNL_IMPACT"

subsection \<open>Journals in cents\<close>

text \<open>A line given as account, debit and credit in cents.\<close>

definition cents_line :: "string \<times> int \<times> int \<Rightarrow> ActualJournalLine" where
  "cents_line x = (case x of (a, d, c) \<Rightarrow>
     \<lparr>ajl_accountCode = a, ajl_debitAmount = Some (Fin (cents d)), ajl_creditAmount = Some (Fin (cents c))\<rparr>)"

definition cents_journal :: "(string \<times> int \<times> int) list \<Rightarrow> ActualJournalLine list" where
  "cents_journal xs = map cents_line xs"

definition debits :: "(string \<times> int \<times> int) list \<Rightarrow> int" where
  "debits xs = sum_list (map (\<lambda>(a, d, c). d) xs)"

definition credits :: "(string \<times> int \<times> int) list \<Rightarrow> int" where
  "credits xs = sum_list (map (\<lambda>(a, d, c). c) xs)"

text \<open>Every amount is at most \<open>B\<close> cents and the whole journal stays within \<open>2^45\<close> cents.\<close>

definition bounded_by :: "int \<Rightarrow> (string \<times> int \<times> int) list \<Rightarrow> bool" where
  "bounded_by B xs \<longleftrightarrow> (\<forall>(a, d, c) \<in> set xs. \<bar>d\<bar> \<le> B \<and> \<bar>c\<bar> \<le> B) \<and> 0 \<le> B \<and> B \<le> 2 ^ 45 \<and> int (length xs) * B \<le> 2 ^ 45"

text \<open>What the engine accepts as a one-sided line: exactly one side above one cent.\<close>

definition one_sided :: "string \<times> int \<times> int \<Rightarrow> bool" where
  "one_sided x = (case x of (a, d, c) \<Rightarrow> js_trim a \<noteq> [] \<and> (1 < d) \<noteq> (1 < c))"

lemma ja_epsilon_cents: "ja_epsilon = Fin (cents 1)"
  using lit_cents [of 1] by (simp add: ja_epsilon_def)

lemma cents_line_sides:
  "\<bar>d\<bar> \<le> 2 ^ 47 \<Longrightarrow> lineDebit (cents_line (a, d, c)) = Fin (cents d)"
  "\<bar>c\<bar> \<le> 2 ^ 47 \<Longrightarrow> lineCredit (cents_line (a, d, c)) = Fin (cents c)"
  "ajl_accountCode (cents_line (a, d, c)) = a"
  by (simp_all add: lineDebit_def lineCredit_def cents_line_def)

lemma cents_cmp:
  assumes "\<bar>d\<bar> \<le> 2 ^ 47"
  shows "jlt (Fin (cents 1)) (Fin (cents d)) \<longleftrightarrow> 1 < d" "jle (Fin (cents d)) (Fin (cents 1)) \<longleftrightarrow> d \<le> 1"
  using assms cents_less_iff [of 1 d] cents_le_iff [of d 1] by simp_all

lemma bounded_line:
  assumes "bounded_by B xs" "(a, d, c) \<in> set xs"
  shows "\<bar>d\<bar> \<le> 2 ^ 45" "\<bar>c\<bar> \<le> 2 ^ 45" "\<bar>d\<bar> \<le> B" "\<bar>c\<bar> \<le> B"
  using assms unfolding bounded_by_def by fastforce+

lemma one_sided_ok:
  assumes "\<bar>d\<bar> \<le> 2 ^ 47" "\<bar>c\<bar> \<le> 2 ^ 47"
  shows "is_ok (assertOneSidedLine ja_epsilon (cents_line (a, d, c))) \<longleftrightarrow> one_sided (a, d, c)"
  unfolding assertOneSidedLine_def Let_def cents_line_sides(1) [OF assms(1)] cents_line_sides(2) [OF assms(2)]
    cents_line_sides(3) ja_epsilon_cents cents_cmp [OF assms(1)] cents_cmp [OF assms(2)] one_sided_def
  by (auto simp: throw_if_def not_less)

lemma one_sided_lines_ok:
  "bounded_by B xs \<Longrightarrow> is_ok (assertOneSidedLines (cents_journal xs) ja_epsilon) \<longleftrightarrow> (\<forall>x \<in> set xs. one_sided x)"
  unfolding assertOneSidedLines_def each_ok_iff cents_journal_def set_map ball_simps(9)
  by (rule ball_cong [OF refl]) (auto dest: bounded_line(1,2) intro!: one_sided_ok)

lemma sum_bound: "\<forall>x \<in> set xs. \<bar>f x\<bar> \<le> B \<Longrightarrow> \<bar>sum_list (map f xs)\<bar> \<le> int (length xs) * B"
  by (induction xs) (auto simp: algebra_simps)

lemma bounded_totals:
  assumes "bounded_by B xs"
  shows "\<bar>debits xs\<bar> \<le> 2 ^ 45" "\<bar>credits xs\<bar> \<le> 2 ^ 45"
proof -
  have "\<bar>debits xs\<bar> \<le> int (length xs) * B" "\<bar>credits xs\<bar> \<le> int (length xs) * B"
    unfolding debits_def credits_def by (rule sum_bound, use assms in \<open>auto simp: bounded_by_def\<close>)+
  moreover have "int (length xs) * B \<le> 2 ^ 45" using assms by (simp only: bounded_by_def)
  ultimately show "\<bar>debits xs\<bar> \<le> 2 ^ 45" "\<bar>credits xs\<bar> \<le> 2 ^ 45" by linarith+
qed

lemma running_total_cents:
  assumes "\<forall>x \<in> set xs. f (cents_line x) = Fin (cents (g x)) \<and> \<bar>g x\<bar> \<le> B" "int (length xs) * B \<le> 2 ^ 46"
  shows "running_total f (cents_journal xs) = Fin (cents (sum_list (map g xs)))"
proof -
  have "running_total f (cents_journal xs) =
      foldl (\<lambda>t k. roundMoney (jadd t (Fin (cents k)))) (Fin (cents 0)) (map g xs)"
    unfolding running_total_def cents_journal_def foldl_map cents_0 by (rule foldl_cong) (use assms(1) in auto)
  also have "\<dots> = Fin (cents (0 + sum_list (map g xs)))"
    by (rule cents_running_total [of _ B]) (use assms in auto)
  finally show ?thesis by simp
qed

lemma journal_totals:
  assumes "bounded_by B xs"
  shows "running_total lineDebit (cents_journal xs) = Fin (cents (debits xs))"
    "running_total lineCredit (cents_journal xs) = Fin (cents (credits xs))"
proof -
  have l: "\<forall>x \<in> set xs. lineDebit (cents_line x) = Fin (cents (case x of (a, d, c) \<Rightarrow> d)) \<and> \<bar>case x of (a, d, c) \<Rightarrow> d\<bar> \<le> B"
    "\<forall>x \<in> set xs. lineCredit (cents_line x) = Fin (cents (case x of (a, d, c) \<Rightarrow> c)) \<and> \<bar>case x of (a, d, c) \<Rightarrow> c\<bar> \<le> B"
    using bounded_line [OF assms] by (fastforce simp: cents_line_sides)+
  have "int (length xs) * B \<le> 2 ^ 45" using assms by (simp only: bounded_by_def)
  then have "int (length xs) * B \<le> 2 ^ 46" by simp
  from running_total_cents [OF l(1) this] running_total_cents [OF l(2) this]
  show "running_total lineDebit (cents_journal xs) = Fin (cents (debits xs))"
    "running_total lineCredit (cents_journal xs) = Fin (cents (credits xs))"
    by (simp_all add: debits_def credits_def)
qed

subsection \<open>Acceptance of a journal in cents\<close>

lemma balanced_value:
  assumes "bounded_by B xs"
  shows "assertJournalBalanced (cents_journal xs) ja_epsilon =
    and_then (assertOneSidedLines (cents_journal xs) ja_epsilon) (\<lambda>_.
      if xs = [] then Inl JA_NO_LINES
      else if jlt (Fin (cents 1)) (jabs (jsub (Fin (cents (debits xs))) (Fin (cents (credits xs))))) then Inl JA_UNBALANCED
      else if debits xs \<le> 0 then Inl JA_ZERO
      else Inr (Fin (cents (debits xs)), Fin (cents (credits xs))))"
proof -
  have z: "jle (Fin (cents (debits xs))) (Fin 0) \<longleftrightarrow> debits xs \<le> 0" using bounded_totals [OF assms] by simp
  have e: "cents_journal xs = [] \<longleftrightarrow> xs = []" by (simp add: cents_journal_def)
  show ?thesis
    unfolding assertJournalBalanced_def journal_totals [OF assms] Let_def z e
    by (simp add: throw_if_def ja_epsilon_cents del: jlt.simps)
qed

lemma balanced_iff:
  assumes "bounded_by B xs"
  shows "assertJournalBalanced (cents_journal xs) ja_epsilon = Inr r \<longleftrightarrow>
    (\<forall>x \<in> set xs. one_sided x) \<and> xs \<noteq> [] \<and> r = (Fin (cents (debits xs)), Fin (cents (credits xs)))
    \<and> \<not> jlt (Fin (cents 1)) (jabs (jsub (Fin (cents (debits xs))) (Fin (cents (credits xs))))) \<and> 0 < debits xs"
proof -
  have o: "assertOneSidedLines (cents_journal xs) ja_epsilon = Inr u \<longleftrightarrow> (\<forall>x \<in> set xs. one_sided x)" for u
    using one_sided_lines_ok [OF assms] by (simp add: is_ok_iff)
  show ?thesis
    unfolding balanced_value [OF assms] and_then_Inr_iff o by (auto simp del: jlt.simps)
qed

text \<open>The tolerance of one cent in terms of cents: equal totals pass, totals two cents apart do
  not; what happens to totals one cent apart is decided by the rounding of the subtraction.\<close>

lemma tolerance_cents:
  assumes "\<bar>a\<bar> \<le> 2 ^ 46" "\<bar>b\<bar> \<le> 2 ^ 46"
  shows "a = b \<Longrightarrow> \<not> jlt (Fin (cents 1)) (jabs (jsub (Fin (cents a)) (Fin (cents b))))"
    and "\<not> jlt (Fin (cents 1)) (jabs (jsub (Fin (cents a)) (Fin (cents b)))) \<Longrightarrow> \<bar>a - b\<bar> \<le> 1"
proof -
  show "\<not> jlt (Fin (cents 1)) (jabs (jsub (Fin (cents a)) (Fin (cents b))))" if "a = b"
    using that cents_differ(1) [OF assms, of "cents 1"] by auto
  have "cents 1 \<le> 193 / 10000" using cents_err [of 1] unfolding abs_le_iff by simp
  then show "\<bar>a - b\<bar> \<le> 1" if "\<not> jlt (Fin (cents 1)) (jabs (jsub (Fin (cents a)) (Fin (cents b))))"
    using that cents_differ(3) [OF assms, of "cents 1"] by linarith
qed

subsection \<open>Matching\<close>

lemma find_index_Some:
  "find_index p i xs = Some j \<Longrightarrow> i \<le> j \<and> j < i + length xs \<and> p j (xs ! (j - i))"
proof (induction xs arbitrary: i)
  case (Cons x xs)
  show ?case
  proof (cases "p i x")
    case False
    with Cons.prems have "find_index p (Suc i) xs = Some j" by simp
    from Cons.IH [OF this] show ?thesis by (auto simp: nth_Cons' Suc_le_eq)
  qed (use Cons.prems in auto)
qed simp

text \<open>A successful loop assigns to the expected lines distinct positions of fitting lines.\<close>

lemma match_lines_spec:
  "match_lines eps actual used es = Inr used' \<Longrightarrow>
    \<exists>ps. length ps = length es \<and> distinct ps \<and> set ps \<inter> used = {} \<and> used' = used \<union> set ps
      \<and> list_all2 (\<lambda>e i. i < length actual \<and> line_fits eps e (actual ! i)) es ps"
proof (induction es arbitrary: used)
  case (Cons e es)
  from Cons.prems obtain i where i: "find_index (\<lambda>i a. i \<notin> used \<and> line_fits eps e a) 0 actual = Some i"
      "match_lines eps actual (insert i used) es = Inr used'"
    by (auto split: if_splits option.splits)
  from find_index_Some [OF i(1)] have h: "i < length actual" "i \<notin> used" "line_fits eps e (actual ! i)" by auto
  from Cons.IH [OF i(2)] obtain ps where "length ps = length es" "distinct ps" "set ps \<inter> insert i used = {}"
      "used' = insert i used \<union> set ps" "list_all2 (\<lambda>e i. i < length actual \<and> line_fits eps e (actual ! i)) es ps"
    by blast
  with h show ?case by (intro exI [of _ "i # ps"]) auto
qed simp

lemma match_lines_positive:
  "match_lines eps actual used es = Inr used' \<Longrightarrow> e \<in> set es \<Longrightarrow> jlt (Fin 0) (roundMoney (ejl_amount e))"
proof (induction es arbitrary: used)
  case (Cons x es)
  then show ?case by (auto split: if_splits option.splits)
qed simp

lemma mset_nth_perm: "distinct ps \<Longrightarrow> set ps = {..<length xs} \<Longrightarrow> mset (map (nth xs) ps) = mset xs"
  by (metis atLeast0LessThan map_nth mset_map mset_set_set mset_upt atLeastLessThan_upt set_eq_iff_mset_eq_distinct distinct_upt)

subsection \<open>Properties\<close>

text \<open>A journal given in cents passes the balance check with the totals of its debits and credits,
  computed without any rounding loss, when every line has exactly one side above one cent and the
  two totals agree and are positive. Conversely a journal that passes has only such lines, its
  reported totals are the exact ones, and they are at most one cent apart.\<close>

theorem journal_balance_in_cents:
  assumes "bounded_by B xs"
  shows "((\<forall>x \<in> set xs. one_sided x) \<and> 0 < debits xs \<and> debits xs = credits xs \<longrightarrow>
      assertJournalBalanced (cents_journal xs) ja_epsilon = Inr (Fin (cents (debits xs)), Fin (cents (credits xs))))
    \<and> (\<forall>r. assertJournalBalanced (cents_journal xs) ja_epsilon = Inr r \<longrightarrow>
      (\<forall>x \<in> set xs. one_sided x) \<and> 0 < debits xs \<and> \<bar>debits xs - credits xs\<bar> \<le> 1
      \<and> r = (Fin (cents (debits xs)), Fin (cents (credits xs))))"
proof -
  have b: "\<bar>debits xs\<bar> \<le> 2 ^ 46" "\<bar>credits xs\<bar> \<le> 2 ^ 46" using bounded_totals [OF assms] by simp_all
  have "0 < debits xs \<Longrightarrow> xs \<noteq> []" by (auto simp: debits_def)
  then show ?thesis unfolding balanced_iff [OF assms] using tolerance_cents [OF b] by blast
qed

theorem journal_balance_in_cents_witness:
  "assertJournalBalanced (cents_journal [(''1010'', 10010, 0), (''4000'', 0, 10000), (''2300'', 0, 10)]) ja_epsilon
    = Inr (Fin (cents 10010), Fin (cents 10010))"
proof -
  let ?xs = "[(''1010'', 10010, 0), (''4000'', 0, 10000), (''2300'', 0, 10)] :: (string \<times> int \<times> int) list"
  have b: "bounded_by 10010 ?xs" by (simp add: bounded_by_def)
  have "(\<forall>x \<in> set ?xs. one_sided x) \<and> 0 < debits ?xs \<and> debits ?xs = credits ?xs" by code_simp
  with journal_balance_in_cents [OF b] have
    "assertJournalBalanced (cents_journal ?xs) ja_epsilon = Inr (Fin (cents (debits ?xs)), Fin (cents (credits ?xs)))"
    by blast
  moreover have "debits ?xs = 10010" "credits ?xs = 10010" by (simp_all add: debits_def credits_def)
  ultimately show ?thesis by (simp only:)
qed

text \<open>One cent of imbalance is let through or refused by the rounding error of the subtraction, not
  by a rule: 0.03 against 0.02 passes the check, 1.01 against 1.00 fails it. And a line of one cent
  is refused as empty.\<close>

theorem one_cent_imbalance:
  "assertJournalBalanced (cents_journal [(''1010'', 3, 0), (''4000'', 0, 2)]) ja_epsilon = Inr (Fin (cents 3), Fin (cents 2))
  \<and> assertJournalBalanced (cents_journal [(''1010'', 101, 0), (''4000'', 0, 100)]) ja_epsilon = Inl JA_UNBALANCED
  \<and> assertJournalBalanced (cents_journal [(''1010'', 1, 0), (''4000'', 0, 1)]) ja_epsilon = Inl JA_ZERO_LINE"
proof (intro conjI)
  have noise: "\<not> jlt (Fin (cents 1)) (jabs (jsub (Fin (cents 3)) (Fin (cents 2))))"
    "jlt (Fin (cents 1)) (jabs (jsub (Fin (cents 101)) (Fin (cents 100))))" by code_simp+
  have sums: "debits [(a, d, 0), (b, 0, c)] = d" "credits [(a, d, 0), (b, 0, c)] = c" for a b d c
    by (simp_all add: debits_def credits_def)
  have bounds: "bounded_by 101 [(''1010'', 3, 0), (''4000'', 0, 2)]" "bounded_by 101 [(''1010'', 101, 0), (''4000'', 0, 100)]"
    by (simp_all add: bounded_by_def)
  have sides: "\<forall>x \<in> set [(''1010'', 3, 0), (''4000'', 0, 2)]. one_sided x"
    "\<forall>x \<in> set [(''1010'', 101, 0), (''4000'', 0, 100)]. one_sided x" by code_simp+
  then have ones: "assertOneSidedLines (cents_journal [(''1010'', 101, 0), (''4000'', 0, 100)]) ja_epsilon = Inr ()"
    using one_sided_lines_ok [OF bounds(2)] by (simp add: is_ok_iff)
  show "assertJournalBalanced (cents_journal [(''1010'', 3, 0), (''4000'', 0, 2)]) ja_epsilon = Inr (Fin (cents 3), Fin (cents 2))"
    unfolding balanced_iff [OF bounds(1)] sums using sides(1) noise(1) by simp
  show "assertJournalBalanced (cents_journal [(''1010'', 101, 0), (''4000'', 0, 100)]) ja_epsilon = Inl JA_UNBALANCED"
    unfolding balanced_value [OF bounds(2)] sums ones using noise(2) by simp
  have "assertOneSidedLines (cents_journal [(''1010'', 1, 0), (''4000'', 0, 1)]) ja_epsilon = Inl JA_ZERO_LINE" by code_simp
  then show "assertJournalBalanced (cents_journal [(''1010'', 1, 0), (''4000'', 0, 1)]) ja_epsilon = Inl JA_ZERO_LINE"
    by (simp add: assertJournalBalanced_def)
qed

text \<open>C38. A journal that matches its specification exactly is, up to the order of the lines, a line by
  line realisation of it: same accounts with the same multiplicities, each line on the expected
  side with the expected amount up to the tolerance, nothing left over.\<close>

theorem journal_match_is_perfect:
  assumes "assertJournalMatchesExpected actual expected opts = Inr ()" "mo_exact opts \<noteq> Some False"
  shows "(\<exists>ys. mset ys = mset actual
      \<and> list_all2 (\<lambda>e a. jlt (Fin 0) (roundMoney (ejl_amount e)) \<and> line_fits (coalesce (mo_epsilon opts) ja_epsilon) e a) expected ys)
    \<and> image_mset ajl_accountCode (mset actual) = image_mset ejl_accountCode (mset expected)"
proof -
  let ?eps = "coalesce (mo_epsilon opts) ja_epsilon"
  from assms obtain used where m: "match_lines ?eps actual {} expected = Inr used" and
      l: "length actual = length expected" and u: "\<forall>i < length actual. i \<in> used"
    by (auto simp: assertJournalMatchesExpected_def Let_def and_then_Inr_iff)
  from match_lines_spec [OF m] obtain ps where ps: "length ps = length expected" "distinct ps" "used = set ps"
      "list_all2 (\<lambda>e i. i < length actual \<and> line_fits ?eps e (actual ! i)) expected ps" by auto
  have "set ps = {..<length actual}" using ps(4) u unfolding ps(3) by (auto simp: list_all2_conv_all_nth in_set_conv_nth)
  then have perm: "mset (map (nth actual) ps) = mset actual" by (rule mset_nth_perm [OF ps(2)])
  have fit: "list_all2 (\<lambda>e a. jlt (Fin 0) (roundMoney (ejl_amount e)) \<and> line_fits ?eps e a) expected (map (nth actual) ps)"
    using ps(4) match_lines_positive [OF m] by (auto simp: list_all2_conv_all_nth)
  then have "map ajl_accountCode (map (nth actual) ps) = map ejl_accountCode expected"
    by (auto simp: list_all2_conv_all_nth line_fits_def intro!: nth_equalityI)
  then have "image_mset ajl_accountCode (mset actual) = image_mset ejl_accountCode (mset expected)"
    by (metis perm mset_map)
  with perm fit show ?thesis by blast
qed

definition two_line_spec :: "string \<Rightarrow> string \<Rightarrow> jnum \<Rightarrow> ExpectedJournalLine list" where
  "two_line_spec d c amount =
     [\<lparr>ejl_accountCode = d, ejl_side = SIDE_debit, ejl_amount = amount, ejl_label = ''debit''\<rparr>,
      \<lparr>ejl_accountCode = c, ejl_side = SIDE_credit, ejl_amount = amount, ejl_label = ''credit''\<rparr>]"

definition default_match :: MatchOptions where
  "default_match = \<lparr>mo_exact = None, mo_epsilon = None\<rparr>"

lemma cents_line_fits:
  assumes "\<bar>k\<bar> \<le> 2 ^ 45" "\<bar>d\<bar> \<le> 2 ^ 45" "\<bar>c\<bar> \<le> 2 ^ 45"
  shows "d = k \<Longrightarrow> c \<le> 1 \<Longrightarrow>
      line_fits ja_epsilon \<lparr>ejl_accountCode = a, ejl_side = SIDE_debit, ejl_amount = Fin (cents k), ejl_label = l\<rparr> (cents_line (a, d, c))"
    and "c = k \<Longrightarrow> d \<le> 1 \<Longrightarrow>
      line_fits ja_epsilon \<lparr>ejl_accountCode = a, ejl_side = SIDE_credit, ejl_amount = Fin (cents k), ejl_label = l\<rparr> (cents_line (a, d, c))"
proof -
  have k: "roundMoney (Fin (cents k)) = Fin (cents k)" using assms by simp
  have s: "lineDebit (cents_line (a, d, c)) = Fin (cents d)" "lineCredit (cents_line (a, d, c)) = Fin (cents c)"
    using assms by (simp_all add: cents_line_sides)
  have "0 \<le> cents 1" by simp
  then have z: "jle (jabs (jsub (Fin (cents k)) (Fin (cents k)))) (Fin (cents 1))" by (simp add: jsub_self)
  have l: "x \<le> 1 \<Longrightarrow> \<bar>x\<bar> \<le> 2 ^ 45 \<Longrightarrow> jle (Fin (cents x)) (Fin (cents 1))" for x using cents_cmp(2) [of x] by simp
  show "d = k \<Longrightarrow> c \<le> 1 \<Longrightarrow>
      line_fits ja_epsilon \<lparr>ejl_accountCode = a, ejl_side = SIDE_debit, ejl_amount = Fin (cents k), ejl_label = l\<rparr> (cents_line (a, d, c))"
    using z l [of c] assms(3) s by (simp add: line_fits_def Let_def k ja_epsilon_cents cents_line_sides(3) del: jle_simps)
  show "c = k \<Longrightarrow> d \<le> 1 \<Longrightarrow>
      line_fits ja_epsilon \<lparr>ejl_accountCode = a, ejl_side = SIDE_credit, ejl_amount = Fin (cents k), ejl_label = l\<rparr> (cents_line (a, d, c))"
    using z l [of d] assms(2) s by (simp add: line_fits_def Let_def k ja_epsilon_cents cents_line_sides(3) del: jle_simps)
qed

lemma twoLineJournal_cents:
  assumes "0 < k" "k \<le> 2 ^ 45" "js_trim d \<noteq> []" "js_trim c \<noteq> []" "d \<noteq> c"
  shows "twoLineJournal d c (Fin (cents k)) = Inr (cents_journal [(d, k, 0), (c, 0, k)])"
proof -
  have "roundMoney (Fin (cents k)) = Fin (cents k)" "jlt (Fin 0) (Fin (cents k))" using assms by simp_all
  with assms show ?thesis by (simp add: twoLineJournal_def Let_def throw_if_def cents_journal_def cents_line_def del: jlt.simps)
qed

lemma two_line_checks:
  assumes "2 \<le> k" "k \<le> 2 ^ 44" "js_trim d \<noteq> []" "js_trim c \<noteq> []" "d \<noteq> c"
  shows "assertJournalBalanced (cents_journal [(d, k, 0), (c, 0, k)]) ja_epsilon = Inr (Fin (cents k), Fin (cents k))"
    and "assertJournalMatchesExpected (cents_journal [(d, k, 0), (c, 0, k)]) (two_line_spec d c (Fin (cents k))) default_match = Inr ()"
proof -
  let ?xs = "[(d, k, 0), (c, 0, k)]"
  let ?e1 = "\<lparr>ejl_accountCode = d, ejl_side = SIDE_debit, ejl_amount = Fin (cents k), ejl_label = ''debit''\<rparr>"
  let ?e2 = "\<lparr>ejl_accountCode = c, ejl_side = SIDE_credit, ejl_amount = Fin (cents k), ejl_label = ''credit''\<rparr>"
  have b: "bounded_by k ?xs" using assms(1,2) by (simp add: bounded_by_def)
  have k: "\<bar>k\<bar> \<le> 2 ^ 45" "\<bar>0\<bar> \<le> (2 ^ 45 :: int)" using assms(1,2) by simp_all
  have sums: "debits ?xs = k" "credits ?xs = k" by (simp_all add: debits_def credits_def)
  show bal: "assertJournalBalanced (cents_journal ?xs) ja_epsilon = Inr (Fin (cents k), Fin (cents k))"
    unfolding balanced_iff [OF b] sums using assms tolerance_cents(1) [of k k] k by (auto simp: one_sided_def)
  have f: "line_fits ja_epsilon ?e1 (cents_line (d, k, 0))" "line_fits ja_epsilon ?e2 (cents_line (c, 0, k))"
    by (rule cents_line_fits [OF k(1) k(1) k(2)] cents_line_fits [OF k(1) k(2) k(1)]; simp)+
  have p: "roundMoney (Fin (cents k)) = Fin (cents k)" "jlt (Fin 0) (Fin (cents k))" using assms(1,2) by simp_all
  from f p have "match_lines ja_epsilon (cents_journal ?xs) {} [?e1, ?e2] = Inr {0, 1}"
    by (simp add: cents_journal_def insert_commute del: jlt.simps)
  with bal show "assertJournalMatchesExpected (cents_journal ?xs) (two_line_spec d c (Fin (cents k))) default_match = Inr ()"
    by (simp add: assertJournalMatchesExpected_def two_line_spec_def default_match_def throw_if_def cents_journal_def upt_rec del: jlt.simps)
qed

text \<open>A two-line journal built for an amount in cents carries that amount on both sides and
  satisfies its own specification, except for a single cent: that journal is built without an
  error and then refused as a journal of empty lines.\<close>

theorem two_line_journal_accepted:
  assumes "0 < k" "k \<le> 2 ^ 44" "js_trim d \<noteq> []" "js_trim c \<noteq> []" "d \<noteq> c"
  shows "\<exists>ls. twoLineJournal d c (Fin (cents k)) = Inr ls
    \<and> (2 \<le> k \<longrightarrow> assertJournalBalanced ls ja_epsilon = Inr (Fin (cents k), Fin (cents k))
         \<and> assertJournalMatchesExpected ls (two_line_spec d c (Fin (cents k))) default_match = Inr ())
    \<and> (k = 1 \<longrightarrow> assertJournalBalanced ls ja_epsilon = Inl JA_ZERO_LINE)"
proof (intro exI conjI impI)
  let ?xs = "[(d, k, 0), (c, 0, k)]"
  show "twoLineJournal d c (Fin (cents k)) = Inr (cents_journal ?xs)" using assms by (intro twoLineJournal_cents) simp_all
  show "assertJournalBalanced (cents_journal ?xs) ja_epsilon = Inl JA_ZERO_LINE" if "k = 1"
  proof -
    have "assertOneSidedLine ja_epsilon (cents_line (d, 1, 0)) = Inl JA_ZERO_LINE"
      using assms(3) cents_less_iff [of 0 1]
      by (simp add: assertOneSidedLine_def Let_def cents_line_sides ja_epsilon_cents cents_cmp throw_if_def)
    then show ?thesis by (simp add: that assertJournalBalanced_def assertOneSidedLines_def cents_journal_def)
  qed
qed (use assms two_line_checks in auto)

theorem two_line_journal_accepted_witness:
  "\<exists>ls. twoLineJournal ''5210'' ''1200'' (Fin (cents 2599)) = Inr ls
    \<and> assertJournalMatchesExpected ls (two_line_spec ''5210'' ''1200'' (Fin (cents 2599))) default_match = Inr ()"
proof -
  have "js_trim ''5210'' \<noteq> []" "js_trim ''1200'' \<noteq> []" by code_simp+
  with two_line_journal_accepted [of 2599 "''5210''" "''1200''"] show ?thesis by auto
qed

theorem journal_match_is_perfect_witness:
  "\<exists>ls. (\<exists>ys. mset ys = mset ls
      \<and> list_all2 (\<lambda>e a. jlt (Fin 0) (roundMoney (ejl_amount e)) \<and> line_fits ja_epsilon e a)
          (two_line_spec ''5210'' ''1200'' (Fin (cents 2599))) ys)
    \<and> image_mset ajl_accountCode (mset ls) = {#''5210'', ''1200''#}"
proof -
  have "js_trim ''5210'' \<noteq> []" "js_trim ''1200'' \<noteq> []" by code_simp+
  from journal_match_is_perfect [OF two_line_checks(2) [OF _ _ this, of 2599]] show ?thesis
    by (auto simp: default_match_def two_line_spec_def)
qed

subsection \<open>Net income\<close>

text \<open>Accounts of the income statement, by the first digit of the code.\<close>

definition pnl_account :: "string \<Rightarrow> bool" where
  "pnl_account code \<longleftrightarrow> code \<noteq> [] \<and> hd code \<in> {CHR ''4'', CHR ''5'', CHR ''6'', CHR ''7''}"

definition pnl_net :: "(string \<times> int \<times> int) list \<Rightarrow> int" where
  "pnl_net xs = sum_list (map (\<lambda>(a, d, c). if pnl_account a then c - d else 0) xs)"

lemma net_step_cents:
  assumes "\<bar>t\<bar> \<le> 2 ^ 46" "\<bar>d\<bar> \<le> 2 ^ 45" "\<bar>c\<bar> \<le> 2 ^ 45"
  shows "net_step (Fin (cents t)) (cents_line (a, d, c)) = Fin (cents (t + (if pnl_account a then c - d else 0)))"
proof -
  have s: "lineDebit (cents_line (a, d, c)) = Fin (cents d)" "lineCredit (cents_line (a, d, c)) = Fin (cents c)"
    using assms by (simp_all add: cents_line_sides)
  have "pnl_account a \<longleftrightarrow> js_starts_with a ''4'' \<or> js_starts_with a ''5'' \<or> js_starts_with a ''6'' \<or> js_starts_with a ''7''"
    by (cases a) (auto simp: pnl_account_def js_starts_with_def)
  with s cents_add_sub(1) [OF assms(1,3,2)] cents_add_sub(2) [OF assms] show ?thesis
    by (auto simp: net_step_def Let_def cents_line_sides algebra_simps)
qed

lemma net_steps_cents:
  assumes "\<forall>(a, d, c) \<in> set xs. \<bar>d\<bar> \<le> B \<and> \<bar>c\<bar> \<le> B" "B \<le> 2 ^ 45" "\<bar>t\<bar> + 2 * int (length xs) * B \<le> 2 ^ 46"
  shows "foldl net_step (Fin (cents t)) (cents_journal xs) = Fin (cents (t + pnl_net xs))"
  using assms
proof (induction xs arbitrary: t)
  case (Cons x xs)
  obtain a d c where x: "x = (a, d, c)" by (cases x)
  let ?n = "if pnl_account a then c - d else 0"
  have d: "\<bar>d\<bar> \<le> B" "\<bar>c\<bar> \<le> B" using Cons.prems(1) x by auto
  have B: "0 \<le> int (length xs) * B" using d by (intro mult_nonneg_nonneg) linarith+
  define M where "M = int (length xs) * B"
  have M: "2 * int (length xs) * B = 2 * M" "\<bar>t\<bar> + 2 * B + 2 * M \<le> 2 ^ 46" "0 \<le> M" "0 \<le> B"
    using Cons.prems(3) B d by (simp_all add: M_def algebra_simps)
  have "\<bar>?n\<bar> \<le> 2 * B" using d by (simp add: abs_if split: if_splits)
  then have "\<bar>t\<bar> \<le> 2 ^ 46" "\<bar>t + ?n\<bar> + 2 * M \<le> 2 ^ 46" using M(2-4) by linarith+
  then have t: "\<bar>t\<bar> \<le> 2 ^ 46" "\<bar>t + ?n\<bar> + 2 * int (length xs) * B \<le> 2 ^ 46" unfolding M(1) .
  have "net_step (Fin (cents t)) (cents_line x) = Fin (cents (t + ?n))"
    unfolding x by (rule net_step_cents) (use d t Cons.prems(2) in linarith)+
  with Cons.IH [OF _ Cons.prems(2) t(2)] Cons.prems(1) show ?case
    by (simp add: cents_journal_def pnl_net_def x add.assoc)
qed (simp add: cents_journal_def pnl_net_def)

text \<open>The reported effect of a journal on the net income is the exact sum of its credits less its
  debits on income-statement accounts (4 to 7). For a balanced journal this is what the
  balance-sheet accounts of the journal are debited in excess, so a posting that touches no
  income-statement account reports zero.\<close>

theorem net_income_is_exact:
  assumes "bounded_by B xs"
  shows "netIncomeImpactFromJournal (cents_journal xs) = Fin (cents (pnl_net xs))
    \<and> (debits xs = credits xs \<longrightarrow>
        pnl_net xs = debits (filter (\<lambda>x. \<not> pnl_account (fst x)) xs) - credits (filter (\<lambda>x. \<not> pnl_account (fst x)) xs))"
proof -
  have "int (length xs) * B \<le> 2 ^ 45" using assms by (simp only: bounded_by_def)
  then have "\<bar>0\<bar> + 2 * int (length xs) * B \<le> 2 ^ 46" by (simp add: mult.commute)
  with net_steps_cents [of xs B 0] assms have "foldl net_step (Fin (cents 0)) (cents_journal xs) = Fin (cents (pnl_net xs))"
    by (simp add: bounded_by_def)
  moreover have "pnl_net xs = credits xs - debits xs + debits (filter (\<lambda>x. \<not> pnl_account (fst x)) xs)
      - credits (filter (\<lambda>x. \<not> pnl_account (fst x)) xs)"
    by (induction xs) (auto simp: pnl_net_def debits_def credits_def)
  ultimately show ?thesis by (simp add: netIncomeImpactFromJournal_def)
qed

theorem net_income_is_exact_witness:
  "netIncomeImpactFromJournal (cents_journal [(''5210'', 2599, 0), (''1200'', 0, 2599)]) = Fin (cents (- 2599))"
  using net_income_is_exact [of 2599 "[(''5210'', 2599, 0), (''1200'', 0, 2599)]"]
  by (simp add: bounded_by_def pnl_net_def pnl_account_def)

end
