(* ===== verification/PostingGovernance.thy ===== *)
theory PostingGovernance imports JsNumber JsString
begin

section \<open>Posting governance\<close>

text \<open>
  \<open>SamplePOS.Server/src/services/postingGovernanceService.ts\<close> and the journal validators of
  \<open>modules/accounting-governance\<close>: which posting source may touch which account. Every rule is a
  hard block; an error is kept as its code, its message and context are left out. The environment
  variables that select the mode of the receivables check are an argument.
\<close>

subsection \<open>Data\<close>

datatype PostingSource =
    PS_SALES_INVOICE | PS_SALES_REFUND | PS_PAYMENT_RECEIPT | PS_TILL_RECEIPT | PS_PAYMENT_DEPOSIT
  | PS_DEPOSIT_APPLICATION | PS_PURCHASE_BILL | PS_SUPPLIER_PAYMENT | PS_INVENTORY_MOVE
  | PS_OPENING_BALANCE_WIZARD | PS_MANUAL_JOURNAL | PS_SYSTEM_CORRECTION | PS_PAYROLL
  | PS_EXPENSE_PAYMENT | PS_ASSET_DEPRECIATION | PS_PERIOD_CLOSE | PS_FX_REVALUATION | PS_CUTOVER_OB
  | PS_CUTOVER_CORRECTION | PS_WHT_REMITTANCE | PS_WHT_RECEIVABLE_RECOVERY | PS_VAT_REMITTANCE
  | PS_TREASURY_DEPOSIT | PS_TREASURY_TRANSFER | PS_TREASURY_PETTY_CASH | PS_TREASURY_REVERSAL
  | PS_AR_WRITEOFF | PS_AR_WRITEOFF_REVERSAL | PS_BANK_MANUAL | PS_CASH_VARIANCE | PS_OWNERSHIP_EQUITY

datatype NormalBalance = NB_DEBIT | NB_CREDIT

record GovernanceAccount =
  ga_id :: string
  ga_accountCode :: string
  ga_normalBalance :: NormalBalance
  ga_allowManualPosting :: bool
  ga_allowedSources :: "PostingSource list"
  ga_systemAccountTag :: "string option"

record JournalLine =
  jl_accountCode :: string
  jl_description :: string
  jl_debitAmount :: jnum
  jl_creditAmount :: jnum
  jl_entityType :: "string option"
  jl_entityId :: "string option"

record GovernanceJournalRequest =
  gr_source :: PostingSource
  gr_lines :: "JournalLine list"
  gr_accounts :: "GovernanceAccount list"
  gr_idempotencyKey :: "string option"

datatype GovCode =
    GOV_RULE_A_NORMAL_BALANCE | GOV_RULE_B_SOURCE_NOT_ALLOWED | GOV_RULE_C_NO_MANUAL_POSTING
  | GOV_RULE_D_CASH_CREDIT | GOV_RULE_E_RECEIPT_STRUCTURE | GOV_RULE_E_TILL_RECEIPT_STRUCTURE
  | GOV_RULE_E_DEPOSIT_APPLICATION_STRUCTURE | GOV_RULE_E_DEPOSIT_STRUCTURE | GOV_RULE_F_COGS_RESTRICTED
  | GOV_RULE_G_OBE_RESTRICTED | GOV_RULE_H_INVENTORY_STRICT | GOV_RULE_H_INVENTORY_HEAL_ONLY
  | GOV_RULE_I_AP_RETURN_GRN | GOV_RULE_I_AP_GOODS_RECEIPT | GOV_RULE_I_AP_DRIFT_HEAL_DISABLED
  | GOV_RULE_I_AP_CORRECTION_ENTITY | GOV_RULE_I_AR_DRIFT_HEAL_DISABLED | GOV_RULE_I_AR_CORRECTION_ENTITY
  | GOV_RULE_I_AR_ENTITY_REQUIRED

abbreviation positive :: "jnum \<Rightarrow> bool" where
  "positive x \<equiv> jlt (Fin 0) x"

subsection \<open>Keys of the inventory drift heal\<close>

text \<open>The text after the prefix is \<open>dddd-dd-dd\<close>.\<close>

definition date_shape :: "string \<Rightarrow> bool" where
  "date_shape s \<longleftrightarrow> (case s of
     [a, b, c, d, e, f, g, h, i, j] \<Rightarrow>
       list_all is_digit [a, b, c, d, f, g, i, j] \<and> e = CHR ''-'' \<and> h = CHR ''-''
   | _ \<Rightarrow> False)"

definition matches_prefix_date :: "string \<Rightarrow> string \<Rightarrow> bool" where
  "matches_prefix_date p s \<longleftrightarrow> js_starts_with s p \<and> date_shape (drop (length p) s)"

definition INVENTORY_DRIFT_HEAL_KEY_PATTERNS :: "string list" where
  "INVENTORY_DRIFT_HEAL_KEY_PATTERNS = [''INV-GL-DRIFT-HEAL-'', ''inventory-gl-drift-fix-'']"

definition isApprovedInventoryDriftHealKey :: "string option \<Rightarrow> bool" where
  "isApprovedInventoryDriftHealKey key \<longleftrightarrow> truthy_str key \<and>
     list_ex (\<lambda>p. matches_prefix_date p (the key)) INVENTORY_DRIFT_HEAL_KEY_PATTERNS"

subsection \<open>The rules\<close>

definition findAccount :: "GovernanceAccount list \<Rightarrow> string \<Rightarrow> GovernanceAccount option" where
  "findAccount accounts code = find (\<lambda>a. ga_accountCode a = code) accounts"

definition tag_of :: "GovernanceAccount list \<Rightarrow> JournalLine \<Rightarrow> string option" where
  "tag_of accounts l = Option.bind (findAccount accounts (jl_accountCode l)) ga_systemAccountTag"

definition isPaymentSource :: "PostingSource \<Rightarrow> bool" where
  "isPaymentSource s \<longleftrightarrow> s \<in> {PS_PAYMENT_RECEIPT, PS_TILL_RECEIPT, PS_PAYMENT_DEPOSIT, PS_DEPOSIT_APPLICATION,
     PS_TREASURY_DEPOSIT, PS_TREASURY_TRANSFER, PS_TREASURY_PETTY_CASH, PS_BANK_MANUAL}"

text \<open>Rules A, B and C, the body of the first loop.\<close>

definition gov_line_rules :: "PostingSource \<Rightarrow> GovernanceAccount list \<Rightarrow> JournalLine \<Rightarrow> (GovCode, unit) result" where
  "gov_line_rules source accounts line =
     (case findAccount accounts (jl_accountCode line) of
        None \<Rightarrow> Inr ()
      | Some account \<Rightarrow>
         (let isDebit = positive (jl_debitAmount line); isCredit = positive (jl_creditAmount line);
              isCutoverSource = (source = PS_CUTOVER_CORRECTION \<or> source = PS_CUTOVER_OB);
              isCashTaggedCreditLine = (ga_systemAccountTag account = Some ''CASH'' \<and> isCredit);
              deferToRuleC = (\<not> ga_allowManualPosting account \<and> source = PS_MANUAL_JOURNAL)
          in
          and_then (throw_if (source = PS_MANUAL_JOURNAL \<and> ga_systemAccountTag account \<noteq> None
              \<and> (ga_normalBalance account = NB_DEBIT \<and> isCredit \<and> \<not> isDebit
                 \<or> ga_normalBalance account = NB_CREDIT \<and> isDebit \<and> \<not> isCredit)) GOV_RULE_A_NORMAL_BALANCE) (\<lambda>_.
          and_then (throw_if (\<not> isPaymentSource source \<and> \<not> isCutoverSource \<and> \<not> isCashTaggedCreditLine \<and> \<not> deferToRuleC
              \<and> ga_allowedSources account \<noteq> [] \<and> source \<notin> set (ga_allowedSources account)) GOV_RULE_B_SOURCE_NOT_ALLOWED) (\<lambda>_.
          throw_if (deferToRuleC \<and> \<not> (ga_systemAccountTag account = Some ''CASH'' \<and> isDebit \<and> \<not> isCredit))
            GOV_RULE_C_NO_MANUAL_POSTING))))"

definition CASH_CREDIT_SOURCES :: "PostingSource list" where
  "CASH_CREDIT_SOURCES = [PS_PAYMENT_DEPOSIT, PS_SUPPLIER_PAYMENT, PS_EXPENSE_PAYMENT, PS_SALES_REFUND,
     PS_SYSTEM_CORRECTION, PS_CUTOVER_CORRECTION, PS_WHT_REMITTANCE, PS_VAT_REMITTANCE, PS_TREASURY_DEPOSIT,
     PS_TREASURY_TRANSFER, PS_TREASURY_PETTY_CASH, PS_TREASURY_REVERSAL, PS_BANK_MANUAL, PS_CASH_VARIANCE,
     PS_OWNERSHIP_EQUITY]"

definition gov_rule_D :: "PostingSource \<Rightarrow> GovernanceAccount list \<Rightarrow> JournalLine \<Rightarrow> (GovCode, unit) result" where
  "gov_rule_D source accounts line =
     throw_if (positive (jl_creditAmount line) \<and> tag_of accounts line = Some ''CASH''
       \<and> source \<notin> set CASH_CREDIT_SOURCES) GOV_RULE_D_CASH_CREDIT"

text \<open>Rule E. \<open>some_debit\<close> and \<open>some_credit\<close> are the searches \<open>lines.some(..)\<close> on one side whose
  account is known and satisfies \<open>P\<close>.\<close>

definition some_debit :: "GovernanceAccount list \<Rightarrow> JournalLine list \<Rightarrow> (GovernanceAccount \<Rightarrow> bool) \<Rightarrow> bool" where
  "some_debit accounts lines P \<longleftrightarrow> list_ex (\<lambda>l. positive (jl_debitAmount l) \<and>
     (case findAccount accounts (jl_accountCode l) of None \<Rightarrow> False | Some a \<Rightarrow> P a)) lines"

definition some_credit :: "GovernanceAccount list \<Rightarrow> JournalLine list \<Rightarrow> (GovernanceAccount \<Rightarrow> bool) \<Rightarrow> bool" where
  "some_credit accounts lines P \<longleftrightarrow> list_ex (\<lambda>l. positive (jl_creditAmount l) \<and>
     (case findAccount accounts (jl_accountCode l) of None \<Rightarrow> False | Some a \<Rightarrow> P a)) lines"

definition tagged :: "string \<Rightarrow> GovernanceAccount \<Rightarrow> bool" where
  "tagged t a \<longleftrightarrow> ga_systemAccountTag a = Some t"

definition is_customer_deposits :: "GovernanceAccount \<Rightarrow> bool" where
  "is_customer_deposits a \<longleftrightarrow> tagged ''CUSTOMER_DEPOSITS'' a \<or> ga_accountCode a = ''2200''"

definition is_liquidity_destination :: "GovernanceAccount \<Rightarrow> bool" where
  "is_liquidity_destination a \<longleftrightarrow> tagged ''CASH'' a \<or> tagged ''BANK'' a \<or> tagged ''MOBILE_MONEY'' a
     \<or> tagged ''PETTY_CASH'' a \<or> tagged ''CARD_CLEARING'' a \<or> ga_accountCode a = ''1010'' \<or> ga_accountCode a = ''1030''"

definition gov_rule_E :: "PostingSource \<Rightarrow> GovernanceAccount list \<Rightarrow> JournalLine list \<Rightarrow> (GovCode, unit) result" where
  "gov_rule_E source accounts lines =
     and_then (throw_if (source = PS_PAYMENT_RECEIPT \<and>
        (\<not> some_debit accounts lines (tagged ''UNDEPOSITED_FUNDS'')
         \<or> \<not> some_credit accounts lines (tagged ''ACCOUNTS_RECEIVABLE'')
           \<and> \<not> some_credit accounts lines is_customer_deposits)) GOV_RULE_E_RECEIPT_STRUCTURE) (\<lambda>_.
     and_then (throw_if (source = PS_TILL_RECEIPT \<and>
        (\<not> some_debit accounts lines (\<lambda>a. ga_accountCode a = ''1010'' \<and> tagged ''CASH'' a)
         \<or> \<not> some_credit accounts lines (tagged ''ACCOUNTS_RECEIVABLE'')
         \<or> some_debit accounts lines (tagged ''UNDEPOSITED_FUNDS''))) GOV_RULE_E_TILL_RECEIPT_STRUCTURE) (\<lambda>_.
     and_then (throw_if (source = PS_DEPOSIT_APPLICATION \<and>
        (\<not> some_debit accounts lines is_customer_deposits
         \<or> \<not> some_credit accounts lines (tagged ''ACCOUNTS_RECEIVABLE''))) GOV_RULE_E_DEPOSIT_APPLICATION_STRUCTURE) (\<lambda>_.
     throw_if ((source = PS_PAYMENT_DEPOSIT \<or> source = PS_TREASURY_DEPOSIT) \<and>
        (\<not> some_debit accounts lines is_liquidity_destination
         \<or> \<not> some_credit accounts lines (\<lambda>a. tagged ''UNDEPOSITED_FUNDS'' a \<or> ga_accountCode a = ''1015'')))
       GOV_RULE_E_DEPOSIT_STRUCTURE)))"

definition moves :: "JournalLine \<Rightarrow> bool" where
  "moves l \<longleftrightarrow> positive (jl_debitAmount l) \<or> positive (jl_creditAmount l)"

definition gov_rule_F :: "PostingSource \<Rightarrow> GovernanceAccount list \<Rightarrow> JournalLine \<Rightarrow> (GovCode, unit) result" where
  "gov_rule_F source accounts line =
     throw_if (moves line \<and> tag_of accounts line = Some ''COGS''
       \<and> source \<notin> {PS_INVENTORY_MOVE, PS_SALES_INVOICE, PS_SALES_REFUND, PS_SYSTEM_CORRECTION}) GOV_RULE_F_COGS_RESTRICTED"

definition gov_rule_G :: "PostingSource \<Rightarrow> GovernanceAccount list \<Rightarrow> JournalLine \<Rightarrow> (GovCode, unit) result" where
  "gov_rule_G source accounts line =
     throw_if (moves line \<and> tag_of accounts line = Some ''OPENING_BALANCE_EQUITY''
       \<and> source \<notin> {PS_OPENING_BALANCE_WIZARD, PS_CUTOVER_OB, PS_CUTOVER_CORRECTION, PS_SYSTEM_CORRECTION})
       GOV_RULE_G_OBE_RESTRICTED"

definition INVENTORY_ALLOWED_SOURCES :: "PostingSource list" where
  "INVENTORY_ALLOWED_SOURCES = [PS_INVENTORY_MOVE, PS_SYSTEM_CORRECTION, PS_OPENING_BALANCE_WIZARD]"

definition gov_rule_H ::
  "PostingSource \<Rightarrow> GovernanceAccount list \<Rightarrow> string option \<Rightarrow> JournalLine \<Rightarrow> (GovCode, unit) result" where
  "gov_rule_H source accounts key line =
     (if moves line \<and> tag_of accounts line = Some ''INVENTORY'' then
        and_then (throw_if (source \<notin> set INVENTORY_ALLOWED_SOURCES) GOV_RULE_H_INVENTORY_STRICT) (\<lambda>_.
        throw_if (source = PS_SYSTEM_CORRECTION \<and> \<not> isApprovedInventoryDriftHealKey key) GOV_RULE_H_INVENTORY_HEAL_ONLY)
      else Inr ())"

definition gov_validate :: "GovernanceJournalRequest \<Rightarrow> (GovCode, unit) result" where
  "gov_validate rq = (let source = gr_source rq; lines = gr_lines rq; accounts = gr_accounts rq in
     and_then (each_ok (gov_line_rules source accounts) lines) (\<lambda>_.
     and_then (each_ok (gov_rule_D source accounts) lines) (\<lambda>_.
     and_then (gov_rule_E source accounts lines) (\<lambda>_.
     and_then (each_ok (gov_rule_F source accounts) lines) (\<lambda>_.
     and_then (each_ok (gov_rule_G source accounts) lines) (\<lambda>_.
     each_ok (gov_rule_H source accounts (gr_idempotencyKey rq)) lines))))))"

subsection \<open>Journal validators\<close>

record GovernanceJournalContext =
  gc_referenceType :: string
  gc_source :: PostingSource
  gc_idempotencyKey :: string
  gc_lines :: "JournalLine list"

definition gov_min_amount :: jnum where
  "gov_min_amount = lit (9 / 1000)"

definition touches_account :: "string \<Rightarrow> JournalLine \<Rightarrow> bool" where
  "touches_account code l \<longleftrightarrow> jl_accountCode l = code
     \<and> (jlt gov_min_amount (jl_debitAmount l) \<or> jlt gov_min_amount (jl_creditAmount l))"

definition AP_ACCOUNT_CODE :: string where "AP_ACCOUNT_CODE = ''2100''"
definition AR_ACCOUNT_CODE :: string where "AR_ACCOUNT_CODE = ''1200''"

definition hasEntity :: "string \<Rightarrow> JournalLine \<Rightarrow> bool" where
  "hasEntity kind l \<longleftrightarrow> map_option js_lower (jl_entityType l) = Some kind
     \<and> (case jl_entityId l of None \<Rightarrow> False | Some i \<Rightarrow> js_trim i \<noteq> [])"

definition is_correction :: "string \<Rightarrow> bool" where
  "is_correction t \<longleftrightarrow> t = ''CORRECTION'' \<or> t = ''SYSTEM_CORRECTION''"

definition validateApJournalPosting :: "GovernanceJournalContext \<Rightarrow> (GovCode, unit) result" where
  "validateApJournalPosting ctx =
     and_then (throw_if (gc_referenceType ctx = ''RETURN_GRN'' \<and> list_ex (touches_account AP_ACCOUNT_CODE) (gc_lines ctx))
        GOV_RULE_I_AP_RETURN_GRN) (\<lambda>_.
     and_then (throw_if (gc_referenceType ctx = ''GOODS_RECEIPT'' \<and>
        list_ex (\<lambda>l. jl_accountCode l = AP_ACCOUNT_CODE \<and> jlt gov_min_amount (jl_creditAmount l)) (gc_lines ctx))
        GOV_RULE_I_AP_GOODS_RECEIPT) (\<lambda>_.
     and_then (throw_if (js_starts_with (gc_idempotencyKey ctx) ''AP-DRIFT-HEAL-'') GOV_RULE_I_AP_DRIFT_HEAL_DISABLED) (\<lambda>_.
     throw_if (is_correction (gc_referenceType ctx) \<and>
        list_ex (\<lambda>l. touches_account AP_ACCOUNT_CODE l \<and> \<not> hasEntity ''supplier'' l) (gc_lines ctx))
        GOV_RULE_I_AP_CORRECTION_ENTITY)))"

datatype ArGovernanceMode = AR_off | AR_warn | AR_enforce

definition getArGovernanceMode :: "(string \<Rightarrow> string option) \<Rightarrow> ArGovernanceMode" where
  "getArGovernanceMode env =
     (let explicit = map_option (\<lambda>s. js_lower (js_trim s)) (env ''AR_GOVERNANCE_MODE'') in
      if explicit = Some ''warn'' then AR_warn
      else if explicit = Some ''enforce'' then AR_enforce
      else if explicit = Some ''off'' then AR_off
      else if env ''AR_GOVERNANCE_ENFORCE'' = Some ''true'' \<or> env ''ACCOUNTING_JOURNAL_GOVERNANCE_ENFORCE'' = Some ''true''
        then AR_enforce else AR_off)"

definition validateArJournalPostingAlways :: "GovernanceJournalContext \<Rightarrow> (GovCode, unit) result" where
  "validateArJournalPostingAlways ctx =
     throw_if (js_starts_with (gc_idempotencyKey ctx) ''AR-DRIFT-HEAL-'') GOV_RULE_I_AR_DRIFT_HEAL_DISABLED"

definition ar_line_error :: "GovernanceJournalContext \<Rightarrow> GovCode" where
  "ar_line_error ctx =
     (if is_correction (gc_referenceType ctx) \<and> gc_idempotencyKey ctx \<noteq> []
         \<and> \<not> js_starts_with (gc_idempotencyKey ctx) ''AR-DRIFT-HEAL-''
      then GOV_RULE_I_AR_CORRECTION_ENTITY else GOV_RULE_I_AR_ENTITY_REQUIRED)"

definition validateArJournalPostingEntity :: "GovernanceJournalContext \<Rightarrow> (GovCode, unit) result" where
  "validateArJournalPostingEntity ctx =
     (if gc_source ctx = PS_CUTOVER_OB \<or> gc_source ctx = PS_OPENING_BALANCE_WIZARD then Inr ()
      else each_ok (\<lambda>l. throw_if (touches_account AR_ACCOUNT_CODE l \<and> \<not> hasEntity ''customer'' l) (ar_line_error ctx))
             (gc_lines ctx))"

definition validateArJournalPosting :: "ArGovernanceMode \<Rightarrow> GovernanceJournalContext \<Rightarrow> (GovCode, unit) result" where
  "validateArJournalPosting mode ctx =
     and_then (validateArJournalPostingAlways ctx) (\<lambda>_.
     case mode of AR_off \<Rightarrow> Inr ()
       | AR_warn \<Rightarrow> Inr ()
       | AR_enforce \<Rightarrow> validateArJournalPostingEntity ctx)"

text \<open>The validators of inventory, cash and bank journals are empty in the code.\<close>

definition validateJournal :: "ArGovernanceMode \<Rightarrow> GovernanceJournalContext \<Rightarrow> (GovCode, unit) result" where
  "validateJournal mode ctx = and_then (validateApJournalPosting ctx) (\<lambda>_. validateArJournalPosting mode ctx)"

end
