(* ===== verification/Decimals.thy ===== *)
theory Decimals imports Money
begin

section \<open>Decimal text of a number, NUMERIC columns and the Decimal library\<close>

text \<open>
  Where the server keeps money exactly, a JavaScript number is first written as text: the driver
  sends it to a NUMERIC column that way, and \<open>new Decimal(number)\<close> reads the same text. The text
  of a number (\<open>Number.prototype.toString\<close>) is its shortest decimal that reads back as the same
  double. Decimal.js itself is not part of the repository; it is a parameter, and what the code
  relies on is stated as \<open>decimal_exact\<close>.
\<close>

subsection \<open>Shortest decimal\<close>

definition pow10 :: "int \<Rightarrow> rat" where
  "pow10 k = (if 0 \<le> k then 10 ^ nat k else 1 / 10 ^ nat (- k))"

text \<open>The nearest number with \<open>p\<close> decimals.\<close>

definition dec_candidate :: "rat \<Rightarrow> int \<Rightarrow> rat" where
  "dec_candidate x p = of_int (rne (x * pow10 p)) / pow10 p"

text \<open>More and more decimals until the double is hit; every double has at most 1074 decimals.\<close>

fun dec_search :: "nat \<Rightarrow> int \<Rightarrow> rat \<Rightarrow> rat" where
  "dec_search 0 p x = x"
| "dec_search (Suc n) p x =
     (let c = dec_candidate x p in if dbl c = x then c else dec_search n (p + 1) x)"

fun num_digits :: "nat \<Rightarrow> nat" where
  "num_digits n = (if n = 0 then 0 else Suc (num_digits (n div 10)))"

definition js_decimal :: "rat \<Rightarrow> rat" where
  "js_decimal x = (if x = 0 then 0 else dec_search 1400 (- int (num_digits (nat \<lfloor>\<bar>x\<bar>\<rfloor>))) x)"

declare num_digits.simps [simp del]

lemma pow10_pos [simp]: "0 < pow10 k"
  by (simp add: pow10_def)

lemma pow10_neg: "p \<le> 0 \<Longrightarrow> pow10 p = 1 / 10 ^ nat (- p)"
  by (cases "p = 0") (simp_all add: pow10_def)

lemma dec_candidate_cents:
  assumes "p \<le> 2"
  shows "\<exists>j. dec_candidate x p = of_int j / 100"
proof -
  let ?m = "rne (x * pow10 p)"
  have "1 / pow10 p = of_int (10 ^ nat (2 - p)) / 100"
  proof (cases "0 \<le> p")
    case True
    with assms have "p = 0 \<or> p = 1 \<or> p = 2" by linarith
    then show ?thesis by (auto simp: pow10_def)
  next
    case False
    then have "nat (2 - p) = nat (- p) + 2" by simp
    then show ?thesis using False by (simp add: pow10_def power_add)
  qed
  then have "of_int ?m / pow10 p = of_int (?m * 10 ^ nat (2 - p)) / 100"
    by (metis (no_types, lifting) of_int_mult times_divide_eq_right mult.right_neutral)
  then show ?thesis unfolding dec_candidate_def by blast
qed

lemma cents_inj_left:
  assumes "\<bar>k\<bar> \<le> 2 ^ 46" "dbl (of_int j / 100) = cents k"
  shows "j = k"
proof -
  have j: "cents j = cents k" using assms(2) by (simp add: cents_def)
  have "\<bar>j\<bar> \<le> 2 ^ 47"
  proof (rule ccontr)
    assume "\<not> \<bar>j\<bar> \<le> 2 ^ 47"
    then consider "2 ^ 47 \<le> j" | "j \<le> - (2 ^ 47)" by linarith
    then show False
    proof cases
      case 1
      then have "cents (2 ^ 47) \<le> cents j" unfolding cents_def by (intro dbl_mono divide_right_mono) (simp_all del: of_int_power)
      moreover have "cents k < cents (2 ^ 47)" using assms(1) cents_less_iff [of k "2 ^ 47"] by simp
      ultimately show False using j by simp
    next
      case 2
      then have "cents j \<le> cents (- (2 ^ 47))" unfolding cents_def by (intro dbl_mono divide_right_mono) (simp_all del: of_int_power of_int_minus)
      moreover have "cents (- (2 ^ 47)) < cents k" using assms(1) cents_less_iff [of "- (2 ^ 47)" k] by simp
      ultimately show False using j by simp
    qed
  qed
  then show ?thesis using cents_eq_iff [of j k] j assms(1) by simp
qed

lemma rne_near: "\<bar>x - of_int k\<bar> < 1 / 2 \<Longrightarrow> rne x = k"
proof -
  assume a: "\<bar>x - of_int k\<bar> < 1 / 2"
  have "\<bar>of_int (rne x) - x\<bar> \<le> 1 / 2" by (rule rne_diff)
  with a have "\<bar>of_int (rne x - k)\<bar> < (1 :: rat)" unfolding abs_less_iff abs_le_iff by simp
  then show ?thesis by (metis of_int_abs of_int_less_1_iff zabs_less_one_iff eq_iff_diff_eq_0)
qed

lemma dec_search_cents:
  assumes "\<bar>k\<bar> \<le> 2 ^ 46"
  shows "p \<le> 2 \<Longrightarrow> 2 - p < int n \<Longrightarrow> dec_search n p (cents k) = of_int k / 100"
proof (induction n arbitrary: p)
  case (Suc n)
  obtain j where j: "dec_candidate (cents k) p = of_int j / 100" using dec_candidate_cents [OF Suc.prems(1)] by blast
  show ?case
  proof (cases "dbl (dec_candidate (cents k) p) = cents k")
    case True
    then have "j = k" using cents_inj_left [OF assms] j by simp
    with j show ?thesis using True by (simp only: dec_search.simps Let_def refl if_True)
  next
    case False
    have "p \<noteq> 2"
    proof
      assume p: "p = 2"
      have "\<bar>100 * cents k - of_int k\<bar> < 1 / 2" using cents_err [of k] assms by simp
      then have "rne (cents k * pow10 p) = k" by (intro rne_near) (simp add: p pow10_def mult.commute)
      then have "dec_candidate (cents k) p = of_int k / 100" by (simp add: dec_candidate_def p pow10_def)
      then show False using False by (metis cents_def)
    qed
    with Suc False show ?thesis by (simp add: Let_def)
  qed
qed simp

lemma num_digits_bound: "n < 10 ^ d \<Longrightarrow> num_digits n \<le> d"
proof (induction d arbitrary: n)
  case 0
  then show ?case by (simp add: num_digits.simps)
next
  case (Suc d)
  from Suc.prems have "n div 10 < 10 ^ d" by (simp add: less_mult_imp_div_less mult.commute)
  from Suc.IH [OF this] show ?case by (simp add: num_digits.simps)
qed

lemma js_decimal_cents [simp]:
  assumes "\<bar>k\<bar> \<le> 2 ^ 46"
  shows "js_decimal (cents k) = of_int k / 100"
proof (cases "k = 0")
  case False
  then have "cents k \<noteq> 0" using assms by simp
  have "\<bar>cents k\<bar> \<le> 2 ^ 41" using cents_range [of k] assms by simp
  then have "nat \<lfloor>\<bar>cents k\<bar>\<rfloor> < 10 ^ 13" by (simp add: nat_less_iff floor_less_iff)
  then have "num_digits (nat \<lfloor>\<bar>cents k\<bar>\<rfloor>) \<le> 13" by (rule num_digits_bound)
  then have "dec_search 1400 (- int (num_digits (nat \<lfloor>\<bar>cents k\<bar>\<rfloor>))) (cents k) = of_int k / 100"
    by (intro dec_search_cents [OF assms]) simp_all
  with \<open>cents k \<noteq> 0\<close> show ?thesis by (simp add: js_decimal_def)
qed (simp add: js_decimal_def)

subsection \<open>NUMERIC columns\<close>

text \<open>A NUMERIC column of scale \<open>s\<close> rounds half away from zero.\<close>

definition pg_round :: "nat \<Rightarrow> rat \<Rightarrow> rat" where
  "pg_round s q = (let r = of_int \<lfloor>\<bar>q\<bar> * 10 ^ s + 1 / 2\<rfloor> / 10 ^ s in if q < 0 then - r else r)"

lemma pg_round_exact:
  assumes "q * 10 ^ s = of_int m"
  shows "pg_round s q = q"
proof -
  have q: "q = of_int m / 10 ^ s" using assms by (simp add: field_simps)
  have a: "\<bar>q\<bar> * 10 ^ s = of_int \<bar>m\<bar>" by (simp add: q)
  have "\<lfloor>of_int \<bar>m\<bar> + 1 / 2 :: rat\<rfloor> = \<bar>m\<bar>" by (simp add: floor_eq_iff del: of_int_abs)
  then have "of_int \<lfloor>\<bar>q\<bar> * 10 ^ s + 1 / 2\<rfloor> / 10 ^ s = \<bar>q\<bar>" unfolding a by (simp add: q)
  then show ?thesis by (auto simp: pg_round_def Let_def)
qed

lemma pg_round_cents: "2 \<le> s \<Longrightarrow> pg_round s (of_int k / 100) = of_int k / 100"
proof -
  assume "2 \<le> s"
  then obtain n where "s = n + 2" by (metis add.commute le_Suc_ex)
  then have "of_int k / 100 * 10 ^ s = (of_int (k * 10 ^ n) :: rat)" by (simp add: power_add)
  then show ?thesis by (rule pg_round_exact)
qed

subsection \<open>The Decimal library\<close>

datatype Rounding = ROUND_UP | ROUND_DOWN | ROUND_HALF_UP | ROUND_HALF_EVEN

record 'd decimal_lib =
  dl_of_num :: "jnum \<Rightarrow> 'd"
  dl_of_str :: "string \<Rightarrow> 'd option"
  dl_of_db :: "rat \<Rightarrow> 'd"
  dl_plus :: "'d \<Rightarrow> 'd \<Rightarrow> 'd"
  dl_minus :: "'d \<Rightarrow> 'd \<Rightarrow> 'd"
  dl_times :: "'d \<Rightarrow> 'd \<Rightarrow> 'd"
  dl_div :: "'d \<Rightarrow> 'd \<Rightarrow> 'd"
  dl_abs :: "'d \<Rightarrow> 'd"
  dl_lt :: "'d \<Rightarrow> 'd \<Rightarrow> bool"
  dl_isZero :: "'d \<Rightarrow> bool"
  dl_toNumber :: "'d \<Rightarrow> jnum"
  dl_toDP :: "nat \<Rightarrow> Rounding \<Rightarrow> 'd \<Rightarrow> 'd"
  dl_toFixed :: "nat \<Rightarrow> 'd \<Rightarrow> rat"

text \<open>At most 20 significant digits, the precision the code configures.\<close>

definition sig20 :: "rat \<Rightarrow> bool" where
  "sig20 q \<longleftrightarrow> (\<exists>m n. \<bar>m\<bar> < 10 ^ 20 \<and> q = of_int m / 10 ^ n)"

text \<open>Documented behaviour: a Decimal has an exact value; a number is read through its text, a
  NUMERIC through its digits; sums and differences of at most 20 significant digits are exact;
  comparisons compare values; \<open>toNumber\<close> is the nearest double; \<open>toDecimalPlaces\<close> and \<open>toFixed\<close>
  round to the given number of decimals, half away from zero. The value of a \<open>toFixed\<close> text stands
  for the text.\<close>

definition decimal_exact :: "'d decimal_lib \<Rightarrow> ('d \<Rightarrow> rat) \<Rightarrow> bool" where
  "decimal_exact D v \<longleftrightarrow>
     (\<forall>x. v (dl_of_num D (Fin x)) = js_decimal x)
   \<and> (\<forall>q. sig20 q \<longrightarrow> v (dl_of_db D q) = q)
   \<and> (\<forall>a b. sig20 (v a + v b) \<longrightarrow> v (dl_plus D a b) = v a + v b)
   \<and> (\<forall>a b. sig20 (v a - v b) \<longrightarrow> v (dl_minus D a b) = v a - v b)
   \<and> (\<forall>a. v (dl_abs D a) = \<bar>v a\<bar>)
   \<and> (\<forall>a b. dl_lt D a b \<longleftrightarrow> v a < v b)
   \<and> (\<forall>a. dl_isZero D a \<longleftrightarrow> v a = 0)
   \<and> (\<forall>a. dl_toNumber D a = js_round_rat (v a))
   \<and> (\<forall>n a. v (dl_toDP D n ROUND_HALF_UP a) = pg_round n (v a))
   \<and> (\<forall>n a. dl_toFixed D n a = pg_round n (v a))"

lemma decimal_exactD:
  assumes "decimal_exact D v"
  shows dec_num: "v (dl_of_num D (Fin x)) = js_decimal x"
    and dec_db: "sig20 q \<Longrightarrow> v (dl_of_db D q) = q"
    and dec_plus: "sig20 (v a + v b) \<Longrightarrow> v (dl_plus D a b) = v a + v b"
    and dec_minus: "sig20 (v a - v b) \<Longrightarrow> v (dl_minus D a b) = v a - v b"
    and dec_abs: "v (dl_abs D a) = \<bar>v a\<bar>"
    and dec_lt: "dl_lt D a b \<longleftrightarrow> v a < v b"
    and dec_isZero: "dl_isZero D a \<longleftrightarrow> v a = 0"
    and dec_toNumber: "dl_toNumber D a = js_round_rat (v a)"
    and dec_toDP: "v (dl_toDP D n ROUND_HALF_UP a) = pg_round n (v a)"
    and dec_toFixed: "dl_toFixed D n a = pg_round n (v a)"
  using assms by (simp_all add: decimal_exact_def)

text \<open>Sums of cents are at most 20 digits long.\<close>

lemma sig20_cents: "\<bar>k\<bar> \<le> 2 ^ 62 \<Longrightarrow> sig20 (of_int k / 100)"
  unfolding sig20_def by (intro exI [of _ k] exI [of _ 2]) simp

lemma js_round_rat_cents: "\<bar>k\<bar> \<le> 2 ^ 47 \<Longrightarrow> js_round_rat (of_int k / 100) = Fin (cents k)"
proof -
  assume k: "\<bar>k\<bar> \<le> 2 ^ 47"
  then have "\<bar>of_int k\<bar> \<le> (2 ^ 47 :: rat)" by (metis of_int_abs of_int_le_iff of_int_numeral of_int_power)
  then show ?thesis using dbl_small [of "of_int k / 100"] by (simp add: cents_def)
qed

text \<open>An exact instance.\<close>

definition round_dp :: "nat \<Rightarrow> Rounding \<Rightarrow> rat \<Rightarrow> rat" where
  "round_dp n r q =
     (let a = \<bar>q\<bar> * 10 ^ n;
          m = (case r of ROUND_UP \<Rightarrow> \<lceil>a\<rceil> | ROUND_DOWN \<Rightarrow> \<lfloor>a\<rfloor> | ROUND_HALF_UP \<Rightarrow> \<lfloor>a + 1 / 2\<rfloor> | ROUND_HALF_EVEN \<Rightarrow> rne a)
      in (if q < 0 then - (of_int m / 10 ^ n) else of_int m / 10 ^ n))"

definition rat_decimal :: "rat decimal_lib" where
  "rat_decimal = \<lparr>dl_of_num = (\<lambda>x. case x of Fin a \<Rightarrow> js_decimal a | _ \<Rightarrow> 0),
     dl_of_str = (\<lambda>s. case js_number s of Fin a \<Rightarrow> Some (js_decimal a) | _ \<Rightarrow> None),
     dl_of_db = (\<lambda>q. q), dl_plus = (+), dl_minus = (-), dl_times = (*), dl_div = (/), dl_abs = abs,
     dl_lt = (<), dl_isZero = (\<lambda>a. a = 0), dl_toNumber = js_round_rat, dl_toDP = round_dp, dl_toFixed = pg_round\<rparr>"

lemma rat_decimal_exact: "decimal_exact rat_decimal (\<lambda>a. a)"
  by (simp add: decimal_exact_def rat_decimal_def round_dp_def pg_round_def Let_def)

subsection \<open>The Money utility\<close>

text \<open>\<open>SamplePOS.Server/src/utils/money.ts\<close>: what its arithmetic accepts. A column read from the
  database arrives as text and is \<open>MI_db\<close> with the value of the text.\<close>

datatype 'd money_in = MI_null | MI_str string | MI_num jnum | MI_dec 'd | MI_db rat

definition money_zero :: "'d decimal_lib \<Rightarrow> 'd" where
  "money_zero D = dl_of_num D (Fin 0)"

definition numeric_char :: "char \<Rightarrow> bool" where
  "numeric_char c \<longleftrightarrow> is_digit c \<or> c = CHR ''.'' \<or> c = CHR ''-''"

fun money_parse :: "'d decimal_lib \<Rightarrow> 'd money_in \<Rightarrow> 'd" where
  "money_parse D MI_null = money_zero D"
| "money_parse D (MI_dec d) = d"
| "money_parse D (MI_db q) = dl_of_db D q"
| "money_parse D (MI_num x) = (if is_finite x then dl_of_num D x else money_zero D)"
| "money_parse D (MI_str s) =
     (let cleaned = js_trim (filter numeric_char s) in
      if s = [] \<or> cleaned = [] \<or> cleaned = ''-'' then money_zero D
      else coalesce (dl_of_str D cleaned) (money_zero D))"

definition money_add :: "'d decimal_lib \<Rightarrow> 'd money_in list \<Rightarrow> 'd" where
  "money_add D vs = foldl (\<lambda>r v. dl_plus D r (money_parse D v)) (money_zero D) vs"

definition money_subtract :: "'d decimal_lib \<Rightarrow> 'd money_in \<Rightarrow> 'd money_in list \<Rightarrow> 'd" where
  "money_subtract D m vs = foldl (\<lambda>r v. dl_minus D r (money_parse D v)) (money_parse D m) vs"

definition money_multiply :: "'d decimal_lib \<Rightarrow> 'd money_in \<Rightarrow> 'd money_in \<Rightarrow> 'd" where
  "money_multiply D a b = dl_times D (money_parse D a) (money_parse D b)"

definition money_divide :: "'d decimal_lib \<Rightarrow> 'd money_in \<Rightarrow> 'd money_in \<Rightarrow> 'd" where
  "money_divide D a b = (let d = money_parse D b in
     if dl_isZero D d then money_zero D else dl_div D (money_parse D a) d)"

definition money_percentage :: "'d decimal_lib \<Rightarrow> 'd money_in \<Rightarrow> 'd money_in \<Rightarrow> 'd" where
  "money_percentage D a b = dl_div D (dl_times D (money_parse D a) (money_parse D b)) (dl_of_num D (Fin 100))"

definition money_round :: "'d decimal_lib \<Rightarrow> 'd money_in \<Rightarrow> nat \<Rightarrow> 'd" where
  "money_round D a places = dl_toDP D places ROUND_HALF_UP (money_parse D a)"

definition money_abs :: "'d decimal_lib \<Rightarrow> 'd money_in \<Rightarrow> 'd" where
  "money_abs D a = dl_abs D (money_parse D a)"

end
