(* ===== verification/Ledger.thy ===== *)
theory Ledger imports PostingGovernance Decimals
begin

section \<open>The general ledger\<close>

text \<open>
  \<open>SamplePOS.Server/src/services/accountingCore.ts\<close> on the tables it writes: accounts with their
  cached balance, ledger transactions and entries, financial periods, period balances, the outbox
  of projection events and the audit log. A method runs in one database transaction: it returns the
  new tables or an error and then leaves the tables as they were.

  Money columns are NUMERIC(18,6), kept as rationals; a number is sent to them as its decimal text.
  Dates are ISO strings. The account cache refresh of \<open>afterJournalEntryGovernance\<close> and the period
  rebuild of \<open>glPeriodRebuildService.ts\<close> are included. The supplier open-item sync that follows a
  journal on account 2100 works on tables of the supplier module; here only its call is recorded.
  The environment switches of the legacy period writes and of the read-only shadow check are unset.
\<close>

subsection \<open>Tables\<close>

datatype TransactionStatus = TX_DRAFT | TX_POSTED | TX_REVERSED
datatype PeriodStatus = PERIOD_OPEN | PERIOD_CLOSED | PERIOD_LOCKED
datatype EntryType = ENTRY_DEBIT | ENTRY_CREDIT

record Account =
  ac_id :: string
  ac_code :: string
  ac_normalBalance :: NormalBalance
  ac_isActive :: bool
  ac_allowManualPosting :: "bool option"
  ac_allowedSources :: "PostingSource list option"
  ac_systemAccountTag :: "string option"
  ac_currentBalance :: rat

record LedgerTransaction =
  lt_id :: string
  lt_number :: string
  lt_date :: string
  lt_referenceType :: string
  lt_referenceId :: string
  lt_referenceNumber :: string
  lt_description :: string
  lt_totalDebit :: rat
  lt_totalCredit :: rat
  lt_status :: TransactionStatus
  lt_reversesId :: "string option"
  lt_reversedById :: "string option"
  lt_isReversed :: bool
  lt_idempotencyKey :: "string option"
  lt_postingSource :: "PostingSource option"
  lt_createdBy :: string

record LedgerEntry =
  le_id :: string
  le_transactionId :: string
  le_accountId :: string
  le_entryType :: EntryType
  le_amount :: rat
  le_debit :: rat
  le_credit :: rat
  le_description :: string
  le_lineNumber :: nat
  le_entityType :: "string option"
  le_entityId :: "string option"
  le_entryDate :: string

record FinancialPeriod =
  fp_id :: string
  fp_year :: int
  fp_month :: int
  fp_start :: string
  fp_end :: string
  fp_status :: PeriodStatus

record PeriodBalance =
  pb_accountId :: string
  pb_year :: int
  pb_month :: int
  pb_debit :: rat
  pb_credit :: rat
  pb_running :: rat

record ProjectionEvent =
  pe_accountId :: string
  pe_year :: int
  pe_month :: int
  pe_transactionId :: string
  pe_idempotencyKey :: string

record LedgerAudit =
  la_action :: string
  la_entityId :: string
  la_userId :: string

record LedgerDb =
  ld_accounts :: "Account list"
  ld_transactions :: "LedgerTransaction list"
  ld_entries :: "LedgerEntry list"
  ld_periods :: "FinancialPeriod list"
  ld_periodBalances :: "PeriodBalance list"
  ld_events :: "ProjectionEvent list"
  ld_audit :: "LedgerAudit list"
  ld_supplierSyncs :: "string list"
  ld_seq :: nat

datatype LedgerError =
    DOUBLE_ENTRY_VIOLATION | INVALID_LINE_AMOUNTS | GOVERNANCE GovCode | IDEMPOTENCY_CONFLICT
  | PERIOD_NOT_OPEN | ACCOUNT_NOT_FOUND | HEADER_ENTRY_MISMATCH | TRANSACTION_NOT_FOUND
  | ALREADY_REVERSED | INVALID_STATUS | PERIOD_NOT_FOUND | ALREADY_LOCKED | BAD_DATE
  | DB_UNIQUE_VIOLATION | DB_NUMERIC_OVERFLOW | DB_VALUE_TOO_LONG

record JournalEntryRequest =
  je_entryDate :: string
  je_description :: string
  je_referenceType :: string
  je_referenceId :: string
  je_referenceNumber :: string
  je_lines :: "JournalLine list"
  je_userId :: string
  je_idempotencyKey :: string
  je_source :: "PostingSource option"

record JournalEntryResult =
  jr_transactionId :: string
  jr_transactionNumber :: string
  jr_status :: TransactionStatus
  jr_totalDebits :: jnum
  jr_totalCredits :: jnum

record ReversalRequest =
  rv_originalTransactionId :: string
  rv_reversalDate :: string
  rv_reason :: string
  rv_userId :: string
  rv_idempotencyKey :: string

subsection \<open>Columns\<close>

text \<open>A number sent to a NUMERIC(18,6) column. A NaN can be stored; the check after writing then
  refuses the journal, so its value does not matter.\<close>

definition numeric_18_6 :: "rat \<Rightarrow> (LedgerError, rat) result" where
  "numeric_18_6 q = (let r = pg_round 6 q in if 10 ^ 12 \<le> \<bar>r\<bar> then Inl DB_NUMERIC_OVERFLOW else Inr r)"

definition num_column :: "jnum \<Rightarrow> (LedgerError, rat) result" where
  "num_column x = (case x of Fin a \<Rightarrow> numeric_18_6 (js_decimal a) | NaN \<Rightarrow> Inr 0 | _ \<Rightarrow> Inl DB_NUMERIC_OVERFLOW)"

definition fiscal_year :: "string \<Rightarrow> int" where
  "fiscal_year d = digits_val (take 4 d)"

definition fiscal_month :: "string \<Rightarrow> int" where
  "fiscal_month d = digits_val (take 2 (drop 5 d))"

text \<open>\<open>fiscalPartsFromIsoDate\<close>\<close>

definition fiscalPartsFromIsoDate :: "string \<Rightarrow> (LedgerError, int \<times> int) result" where
  "fiscalPartsFromIsoDate d =
     (if \<not> date_shape d then Inl BAD_DATE
      else let m = fiscal_month d in if m < 1 \<or> 12 < m then Inl BAD_DATE else Inr (fiscal_year d, m))"

text \<open>Transaction numbers \<open>TXN-000001\<close>.\<close>

definition txn_number :: "nat \<Rightarrow> string" where
  "txn_number n = (let s = show_nat n in ''TXN-'' @ replicate (6 - length s) CHR ''0'' @ s)"

definition txn_number_value :: "string \<Rightarrow> nat option" where
  "txn_number_value s = (let r = drop 4 s in
     if take 4 s = ''TXN-'' \<and> r \<noteq> [] \<and> list_all is_digit r then Some (nat (digits_val r)) else None)"

definition next_txn_number :: "LedgerDb \<Rightarrow> nat" where
  "next_txn_number db =
     Suc (fold max (map (\<lambda>t. case txn_number_value (lt_number t) of None \<Rightarrow> 0 | Some n \<Rightarrow> n) (ld_transactions db)) 0)"

text \<open>Distinct elements in the order of a JavaScript \<open>Set\<close>.\<close>

definition js_set :: "'a list \<Rightarrow> 'a list" where
  "js_set xs = rev (remdups (rev xs))"

subsection \<open>Queries\<close>

definition find_txn :: "string \<Rightarrow> LedgerDb \<Rightarrow> LedgerTransaction option" where
  "find_txn i db = find (\<lambda>t. lt_id t = i) (ld_transactions db)"

text \<open>Entries joined with their transaction.\<close>

definition joined :: "(LedgerTransaction \<Rightarrow> bool) \<Rightarrow> LedgerDb \<Rightarrow> LedgerEntry list" where
  "joined P db = filter (\<lambda>e. case find_txn (le_transactionId e) db of None \<Rightarrow> False | Some t \<Rightarrow> P t) (ld_entries db)"

definition posted :: "LedgerTransaction \<Rightarrow> bool" where
  "posted t \<longleftrightarrow> lt_status t = TX_POSTED"

definition reversal_ids :: "LedgerDb \<Rightarrow> string list" where
  "reversal_ids db = map the (filter (\<lambda>r. r \<noteq> None) (map lt_reversedById (ld_transactions db)))"

text \<open>\<open>LEDGER_NET_ACTIVE_SQL\<close> and \<open>ACTIVE_GL_REFERENCE_PREDICATE_BARE\<close>\<close>

definition net_active :: "LedgerDb \<Rightarrow> LedgerTransaction \<Rightarrow> bool" where
  "net_active db t \<longleftrightarrow> posted t \<and> \<not> lt_isReversed t \<and> lt_id t \<notin> set (reversal_ids db)"

definition period_of :: "LedgerDb \<Rightarrow> string \<Rightarrow> FinancialPeriod option" where
  "period_of db d = find (\<lambda>p. fp_start p \<le> d \<and> d \<le> fp_end p) (ld_periods db)"

definition isPeriodOpen :: "LedgerDb \<Rightarrow> string \<Rightarrow> bool" where
  "isPeriodOpen db d = (case period_of db d of None \<Rightarrow> True | Some p \<Rightarrow> fp_status p = PERIOD_OPEN)"

definition getPeriodStatus :: "LedgerDb \<Rightarrow> string \<Rightarrow> PeriodStatus option" where
  "getPeriodStatus db d = map_option fp_status (period_of db d)"

definition checkIdempotencyKey :: "LedgerDb \<Rightarrow> string \<Rightarrow> string option" where
  "checkIdempotencyKey db key = map_option lt_id
     (find (\<lambda>t. lt_idempotencyKey t = Some key \<and> \<not> lt_isReversed t \<and> posted t) (ld_transactions db))"

definition getTransaction :: "'d decimal_lib \<Rightarrow> string \<Rightarrow> LedgerDb \<Rightarrow> JournalEntryResult option" where
  "getTransaction D i db = map_option (\<lambda>t.
     \<lparr>jr_transactionId = lt_id t, jr_transactionNumber = lt_number t, jr_status = lt_status t,
      jr_totalDebits = dl_toNumber D (money_parse D (MI_db (lt_totalDebit t))),
      jr_totalCredits = dl_toNumber D (money_parse D (MI_db (lt_totalCredit t)))\<rparr>) (find_txn i db)"

definition fetchGovernanceAccounts :: "LedgerDb \<Rightarrow> string list \<Rightarrow> GovernanceAccount list" where
  "fetchGovernanceAccounts db codes = map (\<lambda>a.
     \<lparr>ga_id = ac_id a, ga_accountCode = ac_code a, ga_normalBalance = ac_normalBalance a,
      ga_allowManualPosting = coalesce (ac_allowManualPosting a) True,
      ga_allowedSources = coalesce (ac_allowedSources a) [],
      ga_systemAccountTag = ac_systemAccountTag a\<rparr>)
     (filter (\<lambda>a. ac_code a \<in> set codes) (ld_accounts db))"

subsection \<open>Double entry\<close>

record DoubleEntryCheck =
  de_isValid :: bool
  de_totalDebits :: jnum
  de_totalCredits :: jnum
  de_difference :: jnum

definition validateDoubleEntry :: "'d decimal_lib \<Rightarrow> JournalLine list \<Rightarrow> DoubleEntryCheck" where
  "validateDoubleEntry D lines =
     (let totalDebits = foldl (\<lambda>t l. money_add D [MI_dec t, MI_num (jl_debitAmount l)]) (money_zero D) lines;
          totalCredits = foldl (\<lambda>t l. money_add D [MI_dec t, MI_num (jl_creditAmount l)]) (money_zero D) lines;
          difference = money_abs D (MI_dec (money_subtract D (MI_dec totalDebits) [MI_dec totalCredits]))
      in \<lparr>de_isValid = dl_lt D difference (dl_of_num D (lit (1 / 1000))),
          de_totalDebits = dl_toNumber D totalDebits,
          de_totalCredits = dl_toNumber D totalCredits,
          de_difference = dl_toNumber D difference\<rparr>)"

definition validateLineAmounts :: "JournalLine \<Rightarrow> bool" where
  "validateLineAmounts l \<longleftrightarrow> positive (jl_debitAmount l) \<noteq> positive (jl_creditAmount l)"

definition assertWrittenJournalMatchesHeader :: "string \<Rightarrow> LedgerDb \<Rightarrow> (LedgerError, unit) result" where
  "assertWrittenJournalMatchesHeader i db =
     (let es = filter (\<lambda>e. le_transactionId e = i) (ld_entries db)
      in case find_txn i db of
           None \<Rightarrow> Inl HEADER_ENTRY_MISMATCH
         | Some t \<Rightarrow> throw_if (es = []
             \<or> pg_round 2 (lt_totalDebit t) \<noteq> pg_round 2 (sum_list (map le_debit es))
             \<or> pg_round 2 (lt_totalCredit t) \<noteq> pg_round 2 (sum_list (map le_credit es))
             \<or> (\<exists>e \<in> set es. le_amount e \<noteq> le_debit e + le_credit e)) HEADER_ENTRY_MISMATCH)"

subsection \<open>Writing entries\<close>

definition update_account :: "string \<Rightarrow> (Account \<Rightarrow> Account) \<Rightarrow> LedgerDb \<Rightarrow> LedgerDb" where
  "update_account i f db = db\<lparr>ld_accounts := map (\<lambda>a. if ac_id a = i then f a else a) (ld_accounts db)\<rparr>"

definition balance_change :: "'d decimal_lib \<Rightarrow> NormalBalance \<Rightarrow> JournalLine \<Rightarrow> jnum" where
  "balance_change D nb l = dl_toNumber D (case nb of
      NB_DEBIT \<Rightarrow> money_subtract D (MI_num (jl_debitAmount l)) [MI_num (jl_creditAmount l)]
    | NB_CREDIT \<Rightarrow> money_subtract D (MI_num (jl_creditAmount l)) [MI_num (jl_debitAmount l)])"

text \<open>One entry of a journal and the update of the cached balance of its account.\<close>

definition write_entry ::
  "'d decimal_lib \<Rightarrow> (nat \<Rightarrow> string) \<Rightarrow> Account \<Rightarrow> string \<Rightarrow> string \<Rightarrow> nat \<Rightarrow> JournalLine
     \<Rightarrow> string option \<Rightarrow> string option \<Rightarrow> LedgerDb \<Rightarrow> (LedgerError, LedgerDb) result" where
  "write_entry D gen a tid d n l etype eid db =
     (let isDebit = positive (jl_debitAmount l) in
      and_then (num_column (if isDebit then jl_debitAmount l else jl_creditAmount l)) (\<lambda>amount.
      and_then (num_column (jl_debitAmount l)) (\<lambda>debit.
      and_then (num_column (jl_creditAmount l)) (\<lambda>credit.
      and_then (case balance_change D (ac_normalBalance a) l of
                  Fin c \<Rightarrow> numeric_18_6 (ac_currentBalance a + js_decimal c)
                | _ \<Rightarrow> Inl DB_NUMERIC_OVERFLOW) (\<lambda>balance.
      Inr (update_account (ac_id a) (\<lambda>a. a\<lparr>ac_currentBalance := balance\<rparr>)
        (db\<lparr>ld_entries := ld_entries db @
              [\<lparr>le_id = gen (ld_seq db), le_transactionId = tid, le_accountId = ac_id a,
                le_entryType = (if isDebit then ENTRY_DEBIT else ENTRY_CREDIT), le_amount = amount,
                le_debit = debit, le_credit = credit, le_description = jl_description l, le_lineNumber = n,
                le_entityType = etype, le_entityId = eid, le_entryDate = d\<rparr>],
            ld_seq := Suc (ld_seq db)\<rparr>)))))))"

definition or_null :: "string option \<Rightarrow> string option" where
  "or_null s = (if truthy_str s then s else None)"

definition writeProjectionEvent :: "ProjectionEvent \<Rightarrow> LedgerDb \<Rightarrow> LedgerDb" where
  "writeProjectionEvent ev db =
     (if \<exists>x \<in> set (ld_events db). pe_accountId x = pe_accountId ev \<and> pe_year x = pe_year ev
         \<and> pe_month x = pe_month ev \<and> pe_transactionId x = pe_transactionId ev
      then db else db\<lparr>ld_events := ld_events db @ [ev]\<rparr>)"

text \<open>The loop over the lines of a new journal. With a caller's transaction (\<open>tx\<close>) the periods to
  rebuild are collected, otherwise an event is written per line.\<close>

fun write_lines ::
  "'d decimal_lib \<Rightarrow> (nat \<Rightarrow> string) \<Rightarrow> bool \<Rightarrow> JournalEntryRequest \<Rightarrow> string \<Rightarrow> nat \<Rightarrow> JournalLine list
     \<Rightarrow> LedgerDb \<Rightarrow> (LedgerError, string list \<times> LedgerDb) result" where
  "write_lines D gen tx rq tid n [] db = Inr ([], db)"
| "write_lines D gen tx rq tid n (l # ls) db =
     (case find (\<lambda>a. ac_code a = jl_accountCode l \<and> ac_isActive a) (ld_accounts db) of
        None \<Rightarrow> Inl ACCOUNT_NOT_FOUND
      | Some a \<Rightarrow>
          and_then (write_entry D gen a tid (je_entryDate rq) n l (or_null (jl_entityType l)) (or_null (jl_entityId l)) db) (\<lambda>db.
          let db = (if tx then db else writeProjectionEvent
                \<lparr>pe_accountId = ac_id a, pe_year = fiscal_year (je_entryDate rq), pe_month = fiscal_month (je_entryDate rq),
                 pe_transactionId = tid, pe_idempotencyKey = je_idempotencyKey rq\<rparr> db)
          in and_then (write_lines D gen tx rq tid (Suc n) ls db) (\<lambda>(ids, db). Inr (ac_id a # ids, db))))"

subsection \<open>Caches\<close>

text \<open>\<open>rebuildSingleAccountPeriodOnClient\<close>\<close>

definition period_frozen :: "LedgerDb \<Rightarrow> int \<Rightarrow> int \<Rightarrow> bool" where
  "period_frozen db y m \<longleftrightarrow> (\<exists>p \<in> set (ld_periods db). fp_year p = y \<and> fp_month p = m
     \<and> (fp_status p = PERIOD_CLOSED \<or> fp_status p = PERIOD_LOCKED))"

definition rebuildSingleAccountPeriod :: "'d decimal_lib \<Rightarrow> string \<Rightarrow> int \<Rightarrow> int \<Rightarrow> LedgerDb \<Rightarrow> LedgerDb" where
  "rebuildSingleAccountPeriod D acct y m db =
     (if period_frozen db y m then db
      else let es = filter (\<lambda>e. le_accountId e = acct)
                      (joined (\<lambda>t. net_active db t \<and> fiscal_year (lt_date t) = y \<and> fiscal_month (lt_date t) = m) db);
               d = dl_of_db D (sum_list (map le_debit es));
               c = dl_of_db D (sum_list (map le_credit es));
               others = filter (\<lambda>b. \<not> (pb_accountId b = acct \<and> pb_year b = y \<and> pb_month b = m)) (ld_periodBalances db)
           in if dl_isZero D d \<and> dl_isZero D c then db\<lparr>ld_periodBalances := others\<rparr>
              else db\<lparr>ld_periodBalances := others @
                [\<lparr>pb_accountId = acct, pb_year = y, pb_month = m, pb_debit = dl_toFixed D 2 d, pb_credit = dl_toFixed D 2 c,
                  pb_running = dl_toFixed D 2 d - dl_toFixed D 2 c\<rparr>]\<rparr>)"

definition rebuild_all :: "'d decimal_lib \<Rightarrow> (string \<times> int \<times> int) list \<Rightarrow> LedgerDb \<Rightarrow> LedgerDb" where
  "rebuild_all D keys db = fold (\<lambda>(acct, y, m). rebuildSingleAccountPeriod D acct y m) (js_set keys) db"

text \<open>The balance of an account over the entries of transactions in status POSTED.\<close>

definition signed :: "NormalBalance \<Rightarrow> LedgerEntry list \<Rightarrow> rat" where
  "signed nb es = (case nb of NB_DEBIT \<Rightarrow> sum_list (map le_debit es) - sum_list (map le_credit es)
                            | NB_CREDIT \<Rightarrow> sum_list (map le_credit es) - sum_list (map le_debit es))"

definition posted_balance :: "LedgerDb \<Rightarrow> Account \<Rightarrow> rat" where
  "posted_balance db a = signed (ac_normalBalance a) (filter (\<lambda>e. le_accountId e = ac_id a) (joined posted db))"

definition rebaseAccountCachesFromPostedLedger :: "string list \<Rightarrow> LedgerDb \<Rightarrow> LedgerDb" where
  "rebaseAccountCachesFromPostedLedger codes db =
     db\<lparr>ld_accounts := map (\<lambda>a. let b = posted_balance db a in
          if ac_code a \<in> set codes \<and> 1 / 100 < \<bar>ac_currentBalance a - b\<bar> then a\<lparr>ac_currentBalance := b\<rparr> else a)
        (ld_accounts db)\<rparr>"

text \<open>Supplier entities on account 2100 whose open-item cache is synchronised.\<close>

definition supplier_ids :: "(string \<times> string option \<times> string option) list \<Rightarrow> string list" where
  "supplier_ids ls = js_set (map (\<lambda>(c, t, i). the i)
     (filter (\<lambda>(c, t, i). c = AP_ACCOUNT_CODE \<and> truthy_str t \<and> truthy_str i \<and> js_lower (the t) = ''supplier'') ls))"

definition afterJournalEntryGovernance ::
  "(string \<times> string option \<times> string option) list \<Rightarrow> LedgerDb \<Rightarrow> LedgerDb" where
  "afterJournalEntryGovernance ls db =
     (let codes = js_set (filter (\<lambda>c. c \<noteq> []) (map fst ls));
          db = rebaseAccountCachesFromPostedLedger codes db
      in db\<lparr>ld_supplierSyncs := ld_supplierSyncs db @ supplier_ids ls\<rparr>)"

definition line_entities :: "JournalLine list \<Rightarrow> (string \<times> string option \<times> string option) list" where
  "line_entities ls = map (\<lambda>l. (jl_accountCode l, jl_entityType l, jl_entityId l)) ls"

subsection \<open>Posting\<close>

text \<open>The idempotency key is a VARCHAR(255).\<close>

definition key_fits :: "string option \<Rightarrow> bool" where
  "key_fits k \<longleftrightarrow> (case k of None \<Rightarrow> True | Some s \<Rightarrow> length s \<le> 255)"

definition insert_transaction :: "LedgerTransaction \<Rightarrow> LedgerDb \<Rightarrow> (LedgerError, LedgerDb) result" where
  "insert_transaction t db =
     (if \<not> key_fits (lt_idempotencyKey t) then Inl DB_VALUE_TOO_LONG
      else if \<exists>x \<in> set (ld_transactions db). lt_number x = lt_number t
           \<or> lt_idempotencyKey t \<noteq> None \<and> lt_idempotencyKey x = lt_idempotencyKey t
      then Inl DB_UNIQUE_VIOLATION
      else Inr (db\<lparr>ld_transactions := ld_transactions db @ [t]\<rparr>))"

definition lift_gov :: "(GovCode, unit) result \<Rightarrow> (LedgerError, unit) result" where
  "lift_gov r = (case r of Inl e \<Rightarrow> Inl (GOVERNANCE e) | Inr u \<Rightarrow> Inr u)"

definition governance_check ::
  "ArGovernanceMode \<Rightarrow> JournalEntryRequest \<Rightarrow> LedgerDb \<Rightarrow> (LedgerError, unit) result" where
  "governance_check mode rq db =
     (let source = coalesce (je_source rq) PS_MANUAL_JOURNAL in
      and_then (lift_gov (gov_validate
        \<lparr>gr_source = source, gr_lines = je_lines rq,
         gr_accounts = fetchGovernanceAccounts db (js_set (map jl_accountCode (je_lines rq))),
         gr_idempotencyKey = Some (je_idempotencyKey rq)\<rparr>)) (\<lambda>_.
      lift_gov (validateJournal mode
        \<lparr>gc_referenceType = je_referenceType rq, gc_source = source,
         gc_idempotencyKey = je_idempotencyKey rq, gc_lines = je_lines rq\<rparr>)))"

text \<open>An active transaction for the business reference, if the pool can see it. \<open>cdb\<close> are the
  committed tables, which is what \<open>getTransaction\<close> reads even inside a caller's transaction.\<close>

definition existing_by_reference ::
  "'d decimal_lib \<Rightarrow> (LedgerTransaction \<Rightarrow> bool) \<Rightarrow> LedgerDb \<Rightarrow> LedgerDb \<Rightarrow> JournalEntryResult option" where
  "existing_by_reference D P cdb db =
     (case find (\<lambda>t. P t \<and> net_active db t) (ld_transactions db) of
        None \<Rightarrow> None | Some t \<Rightarrow> getTransaction D (lt_id t) cdb)"

definition existing_posting ::
  "'d decimal_lib \<Rightarrow> JournalEntryRequest \<Rightarrow> LedgerDb \<Rightarrow> LedgerDb \<Rightarrow> JournalEntryResult option" where
  "existing_posting D rq cdb db = first_some
     [if je_referenceType rq \<noteq> [] \<and> je_referenceId rq \<noteq> [] then existing_by_reference D
        (\<lambda>t. lt_referenceType t = je_referenceType rq \<and> lt_referenceId t = je_referenceId rq) cdb db else None,
      if je_referenceType rq \<noteq> [] \<and> je_referenceNumber rq \<noteq> [] then existing_by_reference D
        (\<lambda>t. lt_referenceType t = je_referenceType rq \<and> lt_referenceNumber t = je_referenceNumber rq) cdb db else None]"

definition new_transaction ::
  "JournalEntryRequest \<Rightarrow> string \<Rightarrow> string \<Rightarrow> rat \<Rightarrow> rat \<Rightarrow> LedgerTransaction" where
  "new_transaction rq tid number debit credit =
     \<lparr>lt_id = tid, lt_number = number, lt_date = je_entryDate rq, lt_referenceType = je_referenceType rq,
      lt_referenceId = je_referenceId rq, lt_referenceNumber = je_referenceNumber rq, lt_description = je_description rq,
      lt_totalDebit = debit, lt_totalCredit = credit, lt_status = TX_POSTED, lt_reversesId = None, lt_reversedById = None,
      lt_isReversed = False, lt_idempotencyKey = Some (je_idempotencyKey rq),
      lt_postingSource = Some (coalesce (je_source rq) PS_MANUAL_JOURNAL), lt_createdBy = je_userId rq\<rparr>"

definition has_NaN :: "JournalLine list \<Rightarrow> bool" where
  "has_NaN ls \<longleftrightarrow> list_ex (\<lambda>l. jl_debitAmount l = NaN \<or> jl_creditAmount l = NaN) ls"

text \<open>Steps 4 to 10: write the journal into an open period.\<close>

definition post_journal ::
  "'d decimal_lib \<Rightarrow> (nat \<Rightarrow> string) \<Rightarrow> bool \<Rightarrow> JournalEntryRequest \<Rightarrow> LedgerDb
     \<Rightarrow> (LedgerError, JournalEntryResult \<times> LedgerDb) result" where
  "post_journal D gen tx rq db =
     (let v = validateDoubleEntry D (je_lines rq); tid = gen (ld_seq db); number = txn_number (next_txn_number db) in
      and_then (throw_if (\<not> isPeriodOpen db (je_entryDate rq)) PERIOD_NOT_OPEN) (\<lambda>_.
      and_then (num_column (de_totalDebits v)) (\<lambda>debit.
      and_then (num_column (de_totalCredits v)) (\<lambda>credit.
      and_then (insert_transaction (new_transaction rq tid number debit credit) (db\<lparr>ld_seq := Suc (ld_seq db)\<rparr>)) (\<lambda>db.
      and_then (write_lines D gen tx rq tid 1 (je_lines rq) db) (\<lambda>(ids, db).
      and_then (throw_if (has_NaN (je_lines rq)) HEADER_ENTRY_MISMATCH) (\<lambda>_.
      and_then (assertWrittenJournalMatchesHeader tid db) (\<lambda>_.
      let db = db\<lparr>ld_audit := ld_audit db @ [\<lparr>la_action = ''CREATE'', la_entityId = tid, la_userId = je_userId rq\<rparr>]\<rparr>;
          db = (if tx then rebuild_all D (map (\<lambda>i. (i, fiscal_year (je_entryDate rq), fiscal_month (je_entryDate rq))) ids) db else db);
          db = afterJournalEntryGovernance (line_entities (je_lines rq)) db
      in Inr (\<lparr>jr_transactionId = tid, jr_transactionNumber = number, jr_status = TX_POSTED,
               jr_totalDebits = de_totalDebits v, jr_totalCredits = de_totalCredits v\<rparr>, db)))))))))"

definition createJournalEntry ::
  "'d decimal_lib \<Rightarrow> (nat \<Rightarrow> string) \<Rightarrow> ArGovernanceMode \<Rightarrow> bool \<Rightarrow> LedgerDb \<Rightarrow> JournalEntryRequest \<Rightarrow> LedgerDb
     \<Rightarrow> (LedgerError, JournalEntryResult \<times> LedgerDb) result" where
  "createJournalEntry D gen mode tx cdb rq db =
     and_then (throw_if (\<not> de_isValid (validateDoubleEntry D (je_lines rq))) DOUBLE_ENTRY_VIOLATION) (\<lambda>_.
     and_then (each_ok (\<lambda>l. throw_if (\<not> validateLineAmounts l) INVALID_LINE_AMOUNTS) (je_lines rq)) (\<lambda>_.
     and_then (governance_check mode rq db) (\<lambda>_.
     case checkIdempotencyKey db (je_idempotencyKey rq) of
       Some i \<Rightarrow> (case getTransaction D i cdb of
          Some r \<Rightarrow> Inr (r, db) | None \<Rightarrow> Inl IDEMPOTENCY_CONFLICT)
     | None \<Rightarrow> (case existing_posting D rq cdb db of
          Some r \<Rightarrow> Inr (r, db)
        | None \<Rightarrow> post_journal D gen tx rq db))))"

subsection \<open>Reversal\<close>

definition reversed_line :: "'d decimal_lib \<Rightarrow> LedgerDb \<Rightarrow> LedgerEntry \<Rightarrow> JournalLine" where
  "reversed_line D db e =
     \<lparr>jl_accountCode = (case find (\<lambda>a. ac_id a = le_accountId e) (ld_accounts db) of None \<Rightarrow> [] | Some a \<Rightarrow> ac_code a),
      jl_description = ''REVERSAL: '' @ le_description e,
      jl_debitAmount = dl_toNumber D (money_parse D (MI_db (le_credit e))),
      jl_creditAmount = dl_toNumber D (money_parse D (MI_db (le_debit e))),
      jl_entityType = map_option js_lower (le_entityType e), jl_entityId = le_entityId e\<rparr>"

text \<open>The entries of a transaction in the order of their lines, joined with their accounts.\<close>

definition entries_of :: "string \<Rightarrow> LedgerDb \<Rightarrow> LedgerEntry list" where
  "entries_of i db = sort_key le_lineNumber (filter (\<lambda>e. le_transactionId e = i
     \<and> le_accountId e \<in> ac_id ` set (ld_accounts db)) (ld_entries db))"

text \<open>The loop over the reversed lines; each keeps the entity of the original entry.\<close>

fun write_reversal_lines ::
  "'d decimal_lib \<Rightarrow> (nat \<Rightarrow> string) \<Rightarrow> string \<Rightarrow> string \<Rightarrow> nat \<Rightarrow> (JournalLine \<times> LedgerEntry) list
     \<Rightarrow> LedgerDb \<Rightarrow> (LedgerError, string list \<times> LedgerDb) result" where
  "write_reversal_lines D gen tid d n [] db = Inr ([], db)"
| "write_reversal_lines D gen tid d n ((l, e) # ls) db =
     (case find (\<lambda>a. ac_code a = jl_accountCode l) (ld_accounts db) of
        None \<Rightarrow> Inl ACCOUNT_NOT_FOUND
      | Some a \<Rightarrow>
          and_then (write_entry D gen a tid d n l
              (first_some [le_entityType e, jl_entityType l]) (first_some [le_entityId e, jl_entityId l]) db) (\<lambda>db.
          and_then (write_reversal_lines D gen tid d (Suc n) ls db) (\<lambda>(ids, db). Inr (ac_id a # ids, db))))"

definition reversal_transaction ::
  "ReversalRequest \<Rightarrow> LedgerTransaction \<Rightarrow> string \<Rightarrow> string \<Rightarrow> rat \<Rightarrow> rat \<Rightarrow> LedgerTransaction" where
  "reversal_transaction rq t tid number debit credit =
     \<lparr>lt_id = tid, lt_number = number, lt_date = rv_reversalDate rq, lt_referenceType = ''REVERSAL'',
      lt_referenceId = lt_referenceId t, lt_referenceNumber = ''REV-'' @ lt_referenceNumber t,
      lt_description = ''REVERSAL of '' @ lt_number t @ '': '' @ rv_reason rq,
      lt_totalDebit = debit, lt_totalCredit = credit, lt_status = TX_POSTED,
      lt_reversesId = Some (rv_originalTransactionId rq), lt_reversedById = None,
      lt_isReversed = False, lt_idempotencyKey = Some (rv_idempotencyKey rq),
      lt_postingSource = None, lt_createdBy = rv_userId rq\<rparr>"

text \<open>The original is marked and gives up its idempotency key; the longer key must fit its column.\<close>

definition released_key :: "string \<Rightarrow> string option \<Rightarrow> string option" where
  "released_key r key = (case key of Some k \<Rightarrow> Some (if k \<noteq> [] then k @ ''::REVERSED::'' @ r else k) | None \<Rightarrow> None)"

definition mark_reversed :: "string \<Rightarrow> string \<Rightarrow> LedgerDb \<Rightarrow> (LedgerError, LedgerDb) result" where
  "mark_reversed i r db =
     (let ts = map (\<lambda>t. if lt_id t = i then
          t\<lparr>lt_status := TX_REVERSED, lt_reversedById := Some r, lt_isReversed := True,
            lt_idempotencyKey := released_key r (lt_idempotencyKey t)\<rparr> else t) (ld_transactions db) in
      and_then (throw_if (\<exists>t \<in> set ts. lt_id t = i \<and> \<not> key_fits (lt_idempotencyKey t)) DB_VALUE_TOO_LONG) (\<lambda>_.
      Inr (db\<lparr>ld_transactions := ts\<rparr>)))"

definition reverse_posted ::
  "'d decimal_lib \<Rightarrow> (nat \<Rightarrow> string) \<Rightarrow> bool \<Rightarrow> ReversalRequest \<Rightarrow> LedgerTransaction \<Rightarrow> LedgerDb
     \<Rightarrow> (LedgerError, JournalEntryResult \<times> LedgerDb) result" where
  "reverse_posted D gen tx rq t db =
     (let es = entries_of (lt_id t) db; ls = map (reversed_line D db) es; v = validateDoubleEntry D ls;
          tid = gen (ld_seq db); number = txn_number (next_txn_number db); d = rv_reversalDate rq in
      and_then (num_column (de_totalDebits v)) (\<lambda>debit.
      and_then (num_column (de_totalCredits v)) (\<lambda>credit.
      and_then (insert_transaction (reversal_transaction rq t tid number debit credit) (db\<lparr>ld_seq := Suc (ld_seq db)\<rparr>)) (\<lambda>db.
      and_then (write_reversal_lines D gen tid d 1 (zip ls es) db) (\<lambda>(ids, db).
      and_then (assertWrittenJournalMatchesHeader tid db) (\<lambda>_.
      and_then (mark_reversed (lt_id t) tid db) (\<lambda>db.
      let db = (if tx then rebuild_all D (concat (map (\<lambda>i. [(i, fiscal_year d, fiscal_month d),
                   (i, fiscal_year (take 10 (lt_date t)), fiscal_month (take 10 (lt_date t)))]) ids)) db else db);
          db = db\<lparr>ld_audit := ld_audit db @ [\<lparr>la_action = ''VOID'', la_entityId = tid, la_userId = rv_userId rq\<rparr>]\<rparr>;
          db = afterJournalEntryGovernance (line_entities ls) db
      in Inr (\<lparr>jr_transactionId = tid, jr_transactionNumber = number, jr_status = TX_POSTED,
               jr_totalDebits = de_totalDebits v, jr_totalCredits = de_totalCredits v\<rparr>, db))))))))"

definition reverseTransaction ::
  "'d decimal_lib \<Rightarrow> (nat \<Rightarrow> string) \<Rightarrow> bool \<Rightarrow> LedgerDb \<Rightarrow> ReversalRequest \<Rightarrow> LedgerDb
     \<Rightarrow> (LedgerError, JournalEntryResult \<times> LedgerDb) result" where
  "reverseTransaction D gen tx cdb rq db =
     (case checkIdempotencyKey db (rv_idempotencyKey rq) of
        Some i \<Rightarrow> (case getTransaction D i cdb of
           Some r \<Rightarrow> Inr (r, db) | None \<Rightarrow> Inl IDEMPOTENCY_CONFLICT)
      | None \<Rightarrow>
         (case find_txn (rv_originalTransactionId rq) db of
            None \<Rightarrow> Inl TRANSACTION_NOT_FOUND
          | Some t \<Rightarrow>
             and_then (fiscalPartsFromIsoDate (take 10 (lt_date t))) (\<lambda>_.
             and_then (fiscalPartsFromIsoDate (rv_reversalDate rq)) (\<lambda>_.
             and_then (throw_if (lt_status t = TX_REVERSED) ALREADY_REVERSED) (\<lambda>_.
             and_then (throw_if (lt_status t = TX_DRAFT) INVALID_STATUS) (\<lambda>_.
             and_then (throw_if (\<not> isPeriodOpen db (rv_reversalDate rq)) PERIOD_NOT_OPEN) (\<lambda>_.
             reverse_posted D gen tx rq t db)))))))"

subsection \<open>Periods and reports\<close>

definition lockPeriod :: "string \<Rightarrow> string \<Rightarrow> LedgerDb \<Rightarrow> (LedgerError, LedgerDb) result" where
  "lockPeriod pid user db =
     (case find (\<lambda>p. fp_id p = pid) (ld_periods db) of
        None \<Rightarrow> Inl PERIOD_NOT_FOUND
      | Some p \<Rightarrow> if fp_status p = PERIOD_LOCKED then Inl ALREADY_LOCKED
          else Inr (db\<lparr>ld_periods := map (\<lambda>q. if fp_id q = pid then q\<lparr>fp_status := PERIOD_LOCKED\<rparr> else q) (ld_periods db),
                       ld_audit := ld_audit db @ [\<lparr>la_action = ''UPDATE'', la_entityId = pid, la_userId = user\<rparr>]\<rparr>))"

record AccountBalance =
  ab_accountId :: string
  ab_accountCode :: string
  ab_normalBalance :: NormalBalance
  ab_debitTotal :: jnum
  ab_creditTotal :: jnum
  ab_balance :: jnum

definition availableFromPostedTotals :: "jnum \<Rightarrow> jnum \<Rightarrow> NormalBalance \<Rightarrow> jnum" where
  "availableFromPostedTotals d c nb = (case nb of NB_DEBIT \<Rightarrow> roundMoney (jsub d c) | NB_CREDIT \<Rightarrow> roundMoney (jsub c d))"

definition postedLedgerBalance :: "string option \<Rightarrow> string \<Rightarrow> LedgerDb \<Rightarrow> LedgerEntry list" where
  "postedLedgerBalance asOf acct db = filter (\<lambda>e. le_accountId e = acct)
     (joined (\<lambda>t. net_active db t \<and> (case asOf of None \<Rightarrow> True | Some d \<Rightarrow> take 10 (lt_date t) \<le> d)) db)"

definition getAccountBalance :: "'d decimal_lib \<Rightarrow> string \<Rightarrow> string option \<Rightarrow> LedgerDb \<Rightarrow> AccountBalance option" where
  "getAccountBalance D code asOf db = map_option (\<lambda>a.
     let es = postedLedgerBalance (if truthy_str asOf then asOf else None) (ac_id a) db;
         d = dl_toNumber D (money_parse D (MI_db (sum_list (map le_debit es))));
         c = dl_toNumber D (money_parse D (MI_db (sum_list (map le_credit es))))
     in \<lparr>ab_accountId = ac_id a, ab_accountCode = ac_code a, ab_normalBalance = ac_normalBalance a,
         ab_debitTotal = d, ab_creditTotal = c, ab_balance = availableFromPostedTotals d c (ac_normalBalance a)\<rparr>)
     (find (\<lambda>a. ac_code a = code) (ld_accounts db))"

definition validateTrialBalance :: "'d decimal_lib \<Rightarrow> string \<Rightarrow> LedgerDb \<Rightarrow> DoubleEntryCheck" where
  "validateTrialBalance D asOf db =
     (let es = joined (\<lambda>t. posted t \<and> take 10 (lt_date t) \<le> asOf) db;
          totalDebits = money_parse D (MI_db (sum_list (map le_debit es)));
          totalCredits = money_parse D (MI_db (sum_list (map le_credit es)));
          difference = money_abs D (MI_dec (money_subtract D (MI_dec totalDebits) [MI_dec totalCredits]))
      in \<lparr>de_isValid = dl_lt D difference (dl_of_num D (lit (1 / 1000))),
          de_totalDebits = dl_toNumber D totalDebits, de_totalCredits = dl_toNumber D totalCredits,
          de_difference = dl_toNumber D difference\<rparr>)"

end
