(* ===== verification/LedgerBase.thy ===== *)
theory LedgerBase imports Ledger
begin

section \<open>What writing a journal does to the tables\<close>

text \<open>
  Facts on the building blocks of the ledger: every loop that writes entries appends them and adds
  their amounts to the cached balances of their accounts, and changes nothing else that the ledger
  properties look at.
\<close>

subsection \<open>Accounts\<close>

text \<open>Two account tables that differ in cached balances only.\<close>

definition account_key :: "Account \<Rightarrow> string \<times> string \<times> NormalBalance \<times> bool \<times> bool option \<times> PostingSource list option \<times> string option" where
  "account_key a = (ac_id a, ac_code a, ac_normalBalance a, ac_isActive a, ac_allowManualPosting a, ac_allowedSources a,
     ac_systemAccountTag a)"

definition same_accounts :: "LedgerDb \<Rightarrow> LedgerDb \<Rightarrow> bool" where
  "same_accounts db db' \<longleftrightarrow> map account_key (ld_accounts db') = map account_key (ld_accounts db)"

lemma account_key_update [simp]: "account_key (a\<lparr>ac_currentBalance := b\<rparr>) = account_key a"
  by (simp add: account_key_def)

lemma same_accounts_refl [simp]: "same_accounts db db"
  by (simp add: same_accounts_def)

lemma same_accounts_trans: "same_accounts a b \<Longrightarrow> same_accounts b c \<Longrightarrow> same_accounts a c"
  by (simp add: same_accounts_def)

lemma same_accounts_ids: "same_accounts db db' \<Longrightarrow> map ac_id (ld_accounts db') = map ac_id (ld_accounts db)"
proof -
  assume "same_accounts db db'"
  then have "map fst (map account_key (ld_accounts db')) = map fst (map account_key (ld_accounts db))"
    by (simp only: same_accounts_def)
  then show ?thesis by (simp add: account_key_def comp_def)
qed

lemma same_accounts_codes: "same_accounts db db' \<Longrightarrow> map ac_code (ld_accounts db') = map ac_code (ld_accounts db)"
proof -
  assume "same_accounts db db'"
  then have "map (fst \<circ> snd) (map account_key (ld_accounts db')) = map (fst \<circ> snd) (map account_key (ld_accounts db))"
    by (simp only: same_accounts_def)
  then show ?thesis by (simp add: account_key_def comp_def)
qed

lemma find_same_key:
  assumes "map k xs = map k ys" "\<And>x y. k x = k y \<Longrightarrow> P x = P y"
  shows "map_option k (find P xs) = map_option k (find P ys)"
  using assms(1)
proof (induction xs arbitrary: ys)
  case (Cons x xs)
  then obtain y ys' where y: "ys = y # ys'" "k x = k y" "map k xs = map k ys'" by (cases ys) auto
  then show ?case using Cons.IH [OF y(3)] assms(2) [OF y(2)] by simp
qed simp

subsection \<open>Transactions by identifier\<close>

lemma find_txn_Some: "find_txn i db = Some t \<Longrightarrow> t \<in> set (ld_transactions db) \<and> lt_id t = i"
  by (auto simp: find_txn_def find_Some_iff)

lemma find_key_unique: "distinct (map f xs) \<Longrightarrow> x \<in> set xs \<Longrightarrow> find (\<lambda>y. f y = f x) xs = Some x"
  by (induction xs) (auto simp: rev_image_eqI)

lemma find_txn_unique:
  "distinct (map lt_id (ld_transactions db)) \<Longrightarrow> t \<in> set (ld_transactions db) \<Longrightarrow> find_txn (lt_id t) db = Some t"
  unfolding find_txn_def by (rule find_key_unique)

lemma find_txn_None_iff: "find_txn i db = None \<longleftrightarrow> i \<notin> lt_id ` set (ld_transactions db)"
  by (auto simp: find_txn_def find_None_iff)

lemma find_txn_cong: "ld_transactions db' = ld_transactions db \<Longrightarrow> find_txn i db' = find_txn i db"
  by (simp add: find_txn_def)

lemma find_append: "find P (xs @ ys) = (case find P xs of None \<Rightarrow> find P ys | Some x \<Rightarrow> Some x)"
  by (induction xs) auto

lemma joined_cong: "ld_transactions db' = ld_transactions db \<Longrightarrow> ld_entries db' = ld_entries db \<Longrightarrow> joined P db' = joined P db"
  by (simp add: joined_def find_txn_def)

subsection \<open>Signed sums\<close>

lemma signed_append: "signed nb (xs @ ys) = signed nb xs + signed nb ys"
  by (cases nb) (simp_all add: signed_def)

lemma signed_Nil [simp]: "signed nb [] = 0"
  by (cases nb) (simp_all add: signed_def)

subsection \<open>Written entries\<close>

text \<open>\<open>es\<close> was appended and added to the balances.\<close>

definition written :: "LedgerEntry list \<Rightarrow> LedgerDb \<Rightarrow> LedgerDb \<Rightarrow> bool" where
  "written es db db' \<longleftrightarrow> ld_entries db' = ld_entries db @ es
     \<and> same_accounts db db'
     \<and> (\<forall>i. i \<notin> le_accountId ` set es \<longrightarrow>
          filter (\<lambda>a. ac_id a = i) (ld_accounts db') = filter (\<lambda>a. ac_id a = i) (ld_accounts db))
     \<and> ld_transactions db' = ld_transactions db \<and> ld_periods db' = ld_periods db
     \<and> ld_periodBalances db' = ld_periodBalances db \<and> ld_audit db' = ld_audit db
     \<and> ld_supplierSyncs db' = ld_supplierSyncs db \<and> ld_seq db \<le> ld_seq db'"

lemma written_Nil [simp]: "written [] db db"
  by (simp add: written_def)

lemma written_trans: "written xs a b \<Longrightarrow> written ys b c \<Longrightarrow> written (xs @ ys) a c"
  unfolding written_def by (intro conjI allI impI) (simp_all add: image_Un same_accounts_trans [of a b c])

lemma filter_map_other: "(\<And>x. P (f x) = P x) \<Longrightarrow> (\<And>x. P x \<Longrightarrow> f x = x) \<Longrightarrow> filter P (map f xs) = filter P xs"
  by (induction xs) auto

text \<open>The accounts a code can refer to, and the entry a line becomes.\<close>

definition codes :: "LedgerDb \<Rightarrow> (string \<times> string) set" where
  "codes db = (\<lambda>a. (ac_id a, ac_code a)) ` set (ld_accounts db)"

lemma codes_same: "same_accounts db db' \<Longrightarrow> codes db' = codes db"
proof -
  assume "same_accounts db db'"
  then have "(\<lambda>k. (fst k, fst (snd k))) ` set (map account_key (ld_accounts db')) = (\<lambda>k. (fst k, fst (snd k))) ` set (map account_key (ld_accounts db))"
    by (simp only: same_accounts_def)
  then show ?thesis by (simp add: codes_def account_key_def image_image)
qed

definition entry_of_line :: "(string \<times> string) set \<Rightarrow> string \<Rightarrow> string \<Rightarrow> JournalLine \<Rightarrow> LedgerEntry \<Rightarrow> bool" where
  "entry_of_line C tid d l e \<longleftrightarrow> le_transactionId e = tid \<and> le_entryDate e = d
     \<and> (le_accountId e, jl_accountCode l) \<in> C
     \<and> num_column (jl_debitAmount l) = Inr (le_debit e) \<and> num_column (jl_creditAmount l) = Inr (le_credit e)
     \<and> num_column (if positive (jl_debitAmount l) then jl_debitAmount l else jl_creditAmount l) = Inr (le_amount e)"

lemma write_entry_written:
  assumes "write_entry D gen a tid d n l et ei db = Inr db'" "(ac_id a, jl_accountCode l) \<in> codes db"
  shows "\<exists>e. written [e] db db' \<and> entry_of_line (codes db) tid d l e \<and> le_accountId e = ac_id a \<and> le_lineNumber e = n"
proof -
  from assms(1) obtain amount debit credit balance where
    c: "num_column (if positive (jl_debitAmount l) then jl_debitAmount l else jl_creditAmount l) = Inr amount"
       "num_column (jl_debitAmount l) = Inr debit" "num_column (jl_creditAmount l) = Inr credit" and
    db': "db' = update_account (ac_id a) (\<lambda>a. a\<lparr>ac_currentBalance := balance\<rparr>)
        (db\<lparr>ld_entries := ld_entries db @
              [\<lparr>le_id = gen (ld_seq db), le_transactionId = tid, le_accountId = ac_id a,
                le_entryType = (if positive (jl_debitAmount l) then ENTRY_DEBIT else ENTRY_CREDIT), le_amount = amount,
                le_debit = debit, le_credit = credit, le_description = jl_description l, le_lineNumber = n,
                le_entityType = et, le_entityId = ei, le_entryDate = d\<rparr>],
            ld_seq := Suc (ld_seq db)\<rparr>)"
    unfolding write_entry_def Let_def and_then_Inr_iff by blast
  let ?e = "\<lparr>le_id = gen (ld_seq db), le_transactionId = tid, le_accountId = ac_id a,
                le_entryType = (if positive (jl_debitAmount l) then ENTRY_DEBIT else ENTRY_CREDIT), le_amount = amount,
                le_debit = debit, le_credit = credit, le_description = jl_description l, le_lineNumber = n,
                le_entityType = et, le_entityId = ei, le_entryDate = d\<rparr>"
  have "written [?e] db db'"
    unfolding written_def db' update_account_def
    by (auto simp: same_accounts_def comp_def if_distrib [of account_key] intro!: filter_map_other)
  then show ?thesis using c assms(2) by (intro exI [of _ ?e]) (simp add: entry_of_line_def)
qed

lemma writeProjectionEvent_written: "written es a b \<Longrightarrow> written es a (writeProjectionEvent ev b)"
  by (auto simp: written_def writeProjectionEvent_def same_accounts_def)

lemma written_lines_Cons:
  assumes "written [e] db db1" "entry_of_line (codes db) tid d l e" "le_lineNumber e = n"
    and "written es db1 db'" "list_all2 (entry_of_line (codes db1) tid d) ls es" "map le_lineNumber es = [Suc n..<Suc n + length ls]"
  shows "written (e # es) db db'" "list_all2 (entry_of_line (codes db) tid d) (l # ls) (e # es)"
    "map le_lineNumber (e # es) = [n..<n + length (l # ls)]"
proof -
  show "written (e # es) db db'" using written_trans [OF assms(1,4)] by simp
  show "list_all2 (entry_of_line (codes db) tid d) (l # ls) (e # es)"
    using assms(1,2,5) codes_same [of db db1] by (simp add: written_def)
  have "[n..<n + length (l # ls)] = n # [Suc n..<n + length (l # ls)]" by (rule upt_conv_Cons) simp
  then show "map le_lineNumber (e # es) = [n..<n + length (l # ls)]" using assms(3,6) by simp
qed

lemma write_lines_written:
  "write_lines D gen tx rq tid n ls db = Inr (ids, db') \<Longrightarrow>
    \<exists>es. written es db db' \<and> list_all2 (entry_of_line (codes db) tid (je_entryDate rq)) ls es
      \<and> map le_accountId es = ids \<and> map le_lineNumber es = [n..<n + length ls]"
proof (induction ls arbitrary: n db ids)
  case (Cons l ls)
  from Cons.prems obtain a where a: "find (\<lambda>a. ac_code a = jl_accountCode l \<and> ac_isActive a) (ld_accounts db) = Some a"
    by (auto split: option.splits)
  then have c: "(ac_id a, jl_accountCode l) \<in> codes db" by (auto simp: find_Some_iff codes_def image_iff intro!: nth_mem)
  let ?ev = "\<lparr>pe_accountId = ac_id a, pe_year = fiscal_year (je_entryDate rq), pe_month = fiscal_month (je_entryDate rq),
     pe_transactionId = tid, pe_idempotencyKey = je_idempotencyKey rq\<rparr>"
  from Cons.prems a obtain db1 ids' where
    1: "write_entry D gen a tid (je_entryDate rq) n l (or_null (jl_entityType l)) (or_null (jl_entityId l)) db = Inr db1"
       "write_lines D gen tx rq tid (Suc n) ls (if tx then db1 else writeProjectionEvent ?ev db1) = Inr (ids', db')"
       "ids = ac_id a # ids'"
    by (auto simp: and_then_Inr_iff Let_def)
  from write_entry_written [OF 1(1) c] obtain e where e: "written [e] db db1" "entry_of_line (codes db) tid (je_entryDate rq) l e"
      "le_accountId e = ac_id a" "le_lineNumber e = n" by blast
  have w: "written [e] db (if tx then db1 else writeProjectionEvent ?ev db1)" using e(1) writeProjectionEvent_written by simp
  from Cons.IH [OF 1(2)] e 1(3) written_lines_Cons [OF w e(2,4)] show ?case by (metis list.simps(9))
qed simp

lemma write_reversal_lines_written:
  "write_reversal_lines D gen tid d n ls db = Inr (ids, db') \<Longrightarrow>
    \<exists>es. written es db db' \<and> list_all2 (entry_of_line (codes db) tid d) (map fst ls) es
      \<and> map le_accountId es = ids \<and> map le_lineNumber es = [n..<n + length ls]"
proof (induction ls arbitrary: n db ids)
  case (Cons p ls)
  obtain l o' where p: "p = (l, o')" by (cases p)
  from Cons.prems p obtain a where a: "find (\<lambda>a. ac_code a = jl_accountCode l) (ld_accounts db) = Some a"
    by (auto split: option.splits)
  then have c: "(ac_id a, jl_accountCode l) \<in> codes db" by (auto simp: find_Some_iff codes_def image_iff intro!: nth_mem)
  from Cons.prems a p obtain db1 ids' where
    1: "write_entry D gen a tid d n l (first_some [le_entityType o', jl_entityType l]) (first_some [le_entityId o', jl_entityId l]) db = Inr db1"
       "write_reversal_lines D gen tid d (Suc n) ls db1 = Inr (ids', db')" "ids = ac_id a # ids'"
    by (auto simp: and_then_Inr_iff Let_def)
  from write_entry_written [OF 1(1) c] obtain e where e: "written [e] db db1" "entry_of_line (codes db) tid d l e"
      "le_accountId e = ac_id a" "le_lineNumber e = n" by blast
  from Cons.IH [OF 1(2)] p e 1(3) written_lines_Cons [OF e(1,2,4), of _ db' "map fst ls"] show ?case
    by (metis fst_conv length_map list.simps(9))
qed simp

end
