(* ===== verification/LedgerOps.thy ===== *)
theory LedgerOps imports LedgerBase
begin

section \<open>What posting and reversing do to the tables\<close>

text \<open>
  Both operations of the ledger append one transaction with its entries; a reversal also marks the
  original. The lemmas here reduce each operation to that, once, so that the invariants only look at
  the appended rows. The caches are covered separately: period balances play no role in any other
  table, and the cached account balances end up near the POSTED sums.
\<close>

subsection \<open>Cache refreshes\<close>

lemma rebuildSingle_simps [simp]:
  "ld_transactions (rebuildSingleAccountPeriod D c y m db) = ld_transactions db"
  "ld_entries (rebuildSingleAccountPeriod D c y m db) = ld_entries db"
  "ld_accounts (rebuildSingleAccountPeriod D c y m db) = ld_accounts db"
  "ld_periods (rebuildSingleAccountPeriod D c y m db) = ld_periods db"
  "ld_audit (rebuildSingleAccountPeriod D c y m db) = ld_audit db"
  "ld_seq (rebuildSingleAccountPeriod D c y m db) = ld_seq db"
  by (simp_all add: rebuildSingleAccountPeriod_def Let_def)

lemma rebuild_fold_simps:
  fixes D :: "'d decimal_lib" and ks :: "(string \<times> int \<times> int) list"
  defines "g \<equiv> fold (\<lambda>(c, y, m). rebuildSingleAccountPeriod D c y m) ks"
  shows "ld_transactions (g db) = ld_transactions db \<and> ld_entries (g db) = ld_entries db \<and> ld_accounts (g db) = ld_accounts db
    \<and> ld_periods (g db) = ld_periods db \<and> ld_audit (g db) = ld_audit db \<and> ld_seq (g db) = ld_seq db"
  unfolding g_def by (induction ks arbitrary: db) (auto simp: split_def)

lemma rebuild_all_simps [simp]:
  "ld_transactions (rebuild_all D ks db) = ld_transactions db"
  "ld_entries (rebuild_all D ks db) = ld_entries db"
  "ld_accounts (rebuild_all D ks db) = ld_accounts db"
  "ld_periods (rebuild_all D ks db) = ld_periods db"
  "ld_audit (rebuild_all D ks db) = ld_audit db"
  "ld_seq (rebuild_all D ks db) = ld_seq db"
  using rebuild_fold_simps [of D "js_set ks" db] by (simp_all add: rebuild_all_def)

lemma rebase_simps [simp]:
  "ld_transactions (rebaseAccountCachesFromPostedLedger cs db) = ld_transactions db"
  "ld_entries (rebaseAccountCachesFromPostedLedger cs db) = ld_entries db"
  "ld_periods (rebaseAccountCachesFromPostedLedger cs db) = ld_periods db"
  "ld_audit (rebaseAccountCachesFromPostedLedger cs db) = ld_audit db"
  "ld_seq (rebaseAccountCachesFromPostedLedger cs db) = ld_seq db"
  by (simp_all add: rebaseAccountCachesFromPostedLedger_def)

lemma after_simps [simp]:
  "ld_transactions (afterJournalEntryGovernance ls db) = ld_transactions db"
  "ld_entries (afterJournalEntryGovernance ls db) = ld_entries db"
  "ld_periods (afterJournalEntryGovernance ls db) = ld_periods db"
  "ld_audit (afterJournalEntryGovernance ls db) = ld_audit db"
  "ld_seq (afterJournalEntryGovernance ls db) = ld_seq db"
  by (simp_all add: afterJournalEntryGovernance_def Let_def)

lemma set_js_set [simp]: "set (js_set xs) = set xs"
  by (simp add: js_set_def)

lemma posted_balance_cong:
  assumes "account_key a = account_key b" "ld_transactions db' = ld_transactions db" "ld_entries db' = ld_entries db"
  shows "posted_balance db' a = posted_balance db b"
  using assms by (simp add: posted_balance_def account_key_def joined_cong [OF assms(2,3)])

text \<open>After the refresh every account with one of the codes is near the POSTED sum, the others are
  as before.\<close>

lemma after_accounts:
  fixes db :: LedgerDb and ls :: "(string \<times> string option \<times> string option) list"
  defines "db' \<equiv> afterJournalEntryGovernance ls db"
  assumes "a' \<in> set (ld_accounts db')"
  shows "\<exists>a \<in> set (ld_accounts db). account_key a' = account_key a
    \<and> (if ac_code a \<in> fst ` set ls - {[]} then \<bar>ac_currentBalance a' - posted_balance db' a'\<bar> \<le> 1 / 100 else a' = a)"
proof -
  let ?cs = "js_set (filter (\<lambda>c. c \<noteq> []) (map fst ls))"
  have cs: "c \<in> set ?cs \<longleftrightarrow> c \<in> fst ` set ls - {[]}" for c by auto
  have acc: "ld_accounts db' = map (\<lambda>a. let b = posted_balance db a in
          if ac_code a \<in> set ?cs \<and> 1 / 100 < \<bar>ac_currentBalance a - b\<bar> then a\<lparr>ac_currentBalance := b\<rparr> else a) (ld_accounts db)"
    by (simp only: db'_def afterJournalEntryGovernance_def Let_def rebaseAccountCachesFromPostedLedger_def LedgerDb.simps)
      (simp)
  with assms(2) obtain a where a: "a \<in> set (ld_accounts db)"
    "a' = (let b = posted_balance db a in
          if ac_code a \<in> set ?cs \<and> 1 / 100 < \<bar>ac_currentBalance a - b\<bar> then a\<lparr>ac_currentBalance := b\<rparr> else a)"
    unfolding acc set_map by (elim imageE) blast
  have k: "account_key a' = account_key a" using a(2) by (auto simp: Let_def)
  have p: "posted_balance db' a' = posted_balance db a"
    by (rule posted_balance_cong [OF k]) (simp_all add: db'_def)
  have "if ac_code a \<in> fst ` set ls - {[]} then \<bar>ac_currentBalance a' - posted_balance db' a'\<bar> \<le> 1 / 100 else a' = a"
    unfolding p using a(2) cs [of "ac_code a"] by (auto simp: Let_def split: if_splits)
  then show ?thesis using a(1) k by blast
qed

lemma after_same_accounts: "same_accounts db (afterJournalEntryGovernance ls db)"
  by (simp add: same_accounts_def afterJournalEntryGovernance_def rebaseAccountCachesFromPostedLedger_def Let_def
      comp_def if_distrib [of account_key])

subsection \<open>Appended transactions\<close>

definition accounts_ok :: "LedgerDb \<Rightarrow> bool" where
  "accounts_ok db \<longleftrightarrow> distinct (map ac_id (ld_accounts db)) \<and> distinct (map ac_code (ld_accounts db))
     \<and> [] \<notin> set (map ac_code (ld_accounts db))"

lemma accounts_ok_same: "same_accounts db db' \<Longrightarrow> accounts_ok db' = accounts_ok db"
  by (simp add: accounts_ok_def same_accounts_ids same_accounts_codes)

lemma accounts_ok_id: "accounts_ok db \<Longrightarrow> a \<in> set (ld_accounts db) \<Longrightarrow> b \<in> set (ld_accounts db) \<Longrightarrow> ac_id a = ac_id b \<Longrightarrow> a = b"
  by (simp add: accounts_ok_def distinct_map inj_on_def)

lemma accounts_ok_code: "accounts_ok db \<Longrightarrow> a \<in> set (ld_accounts db) \<Longrightarrow> b \<in> set (ld_accounts db) \<Longrightarrow> ac_code a = ac_code b \<Longrightarrow> a = b"
  by (simp add: accounts_ok_def distinct_map inj_on_def)

text \<open>The tables after \<open>t\<close> with entries \<open>es\<close> was appended and \<open>f\<close> applied to every transaction.\<close>

definition appended ::
  "(nat \<Rightarrow> string) \<Rightarrow> (LedgerTransaction \<Rightarrow> LedgerTransaction) \<Rightarrow> LedgerTransaction \<Rightarrow> LedgerEntry list
     \<Rightarrow> LedgerDb \<Rightarrow> LedgerDb \<Rightarrow> bool" where
  "appended gen f t es db db' \<longleftrightarrow>
     ld_transactions db' = map f (ld_transactions db @ [t]) \<and> ld_entries db' = ld_entries db @ es
     \<and> same_accounts db db' \<and> ld_periods db' = ld_periods db \<and> ld_seq db < ld_seq db' \<and> lt_id t = gen (ld_seq db)
     \<and> lt_number t \<notin> lt_number ` set (ld_transactions db)
     \<and> lt_idempotencyKey t \<notin> lt_idempotencyKey ` set (ld_transactions db) \<and> lt_idempotencyKey t \<noteq> None
     \<and> isPeriodOpen db (lt_date t)
     \<and> es \<noteq> [] \<and> (\<forall>e \<in> set es. le_transactionId e = lt_id t \<and> le_entryDate e = lt_date t \<and> le_amount e = le_debit e + le_credit e
          \<and> le_accountId e \<in> ac_id ` set (ld_accounts db))
     \<and> map le_lineNumber es = [1..<Suc (length es)]
     \<and> pg_round 2 (lt_totalDebit t) = pg_round 2 (sum_list (map le_debit es))
     \<and> pg_round 2 (lt_totalCredit t) = pg_round 2 (sum_list (map le_credit es))"

lemma appendedD:
  assumes "appended gen f t es db db'"
  shows appended_txns: "ld_transactions db' = map f (ld_transactions db) @ [f t]"
    and appended_entries: "ld_entries db' = ld_entries db @ es"
    and appended_accounts: "same_accounts db db'"
    and appended_periods: "ld_periods db' = ld_periods db"
    and appended_seq: "ld_seq db < ld_seq db'"
    and appended_id: "lt_id t = gen (ld_seq db)"
    and appended_number: "lt_number t \<notin> lt_number ` set (ld_transactions db)"
    and appended_key: "lt_idempotencyKey t \<notin> lt_idempotencyKey ` set (ld_transactions db)" "lt_idempotencyKey t \<noteq> None"
    and appended_open: "isPeriodOpen db (lt_date t)"
    and appended_own: "e \<in> set es \<Longrightarrow> le_transactionId e = lt_id t" "e \<in> set es \<Longrightarrow> le_amount e = le_debit e + le_credit e"
      "e \<in> set es \<Longrightarrow> le_accountId e \<in> ac_id ` set (ld_accounts db)"
  using assms by (simp_all add: appended_def del: upt.upt_Suc)

text \<open>Accounts of appended entries are near the POSTED sum, the others are untouched.\<close>

definition refreshed :: "LedgerEntry list \<Rightarrow> LedgerDb \<Rightarrow> LedgerDb \<Rightarrow> bool" where
  "refreshed es db db' \<longleftrightarrow> (\<forall>a' \<in> set (ld_accounts db').
      if ac_id a' \<in> le_accountId ` set es then \<bar>ac_currentBalance a' - posted_balance db' a'\<bar> \<le> 1 / 100
      else a' \<in> set (ld_accounts db))"

lemma refreshed_after:
  fixes C :: "(string \<times> string) set"
  assumes ok: "accounts_ok db"
    and w: "written es db db1" and c: "list_all2 (entry_of_line (codes db) tid d) ls es"
    and acc: "ld_accounts db2 = ld_accounts db1"
    and db': "db' = afterJournalEntryGovernance (line_entities ls) db2"
  shows "refreshed es db db'"
  unfolding refreshed_def
proof
  fix a' assume "a' \<in> set (ld_accounts db')"
  then obtain a where a: "a \<in> set (ld_accounts db2)" "account_key a' = account_key a"
    "if ac_code a \<in> fst ` set (line_entities ls) - {[]} then \<bar>ac_currentBalance a' - posted_balance db' a'\<bar> \<le> 1 / 100 else a' = a"
    unfolding db' using after_accounts by blast
  have a1: "a \<in> set (ld_accounts db1)" using a(1) acc by simp
  have sa: "same_accounts db db1" using w by (simp add: written_def)
  then have ok1: "accounts_ok db1" using ok accounts_ok_same by blast
  have id: "ac_id a' = ac_id a" "ac_code a' = ac_code a" using a(2) by (simp_all add: account_key_def)
  have cs: "fst ` set (line_entities ls) = jl_accountCode ` set ls" by (auto simp: line_entities_def image_image)
  have iff: "ac_id a \<in> le_accountId ` set es \<longleftrightarrow> ac_code a \<in> jl_accountCode ` set ls"
  proof
    assume "ac_id a \<in> le_accountId ` set es"
    then obtain k where k: "k < length es" "le_accountId (es ! k) = ac_id a" by (auto simp: in_set_conv_nth)
    then have lk: "k < length ls" "(ac_id a, jl_accountCode (ls ! k)) \<in> codes db1"
      using c sa by (auto simp: list_all2_conv_all_nth entry_of_line_def codes_same)
    then obtain b where "b \<in> set (ld_accounts db1)" "ac_id b = ac_id a" "ac_code b = jl_accountCode (ls ! k)"
      by (auto simp: codes_def)
    then have "ac_code a = jl_accountCode (ls ! k)" using accounts_ok_id [OF ok1] a1 by metis
    then show "ac_code a \<in> jl_accountCode ` set ls" using lk(1) by simp
  next
    assume "ac_code a \<in> jl_accountCode ` set ls"
    then obtain k where k: "k < length ls" "jl_accountCode (ls ! k) = ac_code a" by (metis imageE in_set_conv_nth)
    then have lk: "k < length es" "(le_accountId (es ! k), ac_code a) \<in> codes db1"
      using c sa by (auto simp: list_all2_conv_all_nth entry_of_line_def codes_same)
    then obtain b where "b \<in> set (ld_accounts db1)" "ac_id b = le_accountId (es ! k)" "ac_code b = ac_code a"
      by (auto simp: codes_def)
    then have "ac_id a = le_accountId (es ! k)" using accounts_ok_code [OF ok1] a1 by metis
    then show "ac_id a \<in> le_accountId ` set es" using lk(1) by simp
  qed
  have ne: "ac_code a \<noteq> []" using ok1 a1 by (metis accounts_ok_def image_eqI list.set_map)
  show "if ac_id a' \<in> le_accountId ` set es then \<bar>ac_currentBalance a' - posted_balance db' a'\<bar> \<le> 1 / 100
      else a' \<in> set (ld_accounts db)"
  proof (cases "ac_id a \<in> le_accountId ` set es")
    case True
    then show ?thesis using a(3) iff ne cs id by simp
  next
    case False
    then have "a' = a" using a(3) iff cs by simp
    moreover have "filter (\<lambda>b. ac_id b = ac_id a) (ld_accounts db1) = filter (\<lambda>b. ac_id b = ac_id a) (ld_accounts db)"
      using w False by (simp add: written_def)
    then have "a \<in> set (ld_accounts db)" using a1 by (metis (mono_tags, lifting) mem_Collect_eq set_filter)
    ultimately show ?thesis using False id by simp
  qed
qed


lemma assertWritten_entries:
  assumes "assertWrittenJournalMatchesHeader tid db = Inr u" "find_txn tid db = Some t"
    and "filter (\<lambda>e. le_transactionId e = tid) (ld_entries db) = es"
  shows "es \<noteq> []" "pg_round 2 (lt_totalDebit t) = pg_round 2 (sum_list (map le_debit es))"
    "pg_round 2 (lt_totalCredit t) = pg_round 2 (sum_list (map le_credit es))"
    "\<forall>e \<in> set es. le_amount e = le_debit e + le_credit e"
  using assms unfolding assertWrittenJournalMatchesHeader_def Let_def by simp_all

text \<open>Identifiers come from a generator that never repeats; rows carry identifiers it has given out.\<close>

definition ids_ok :: "(nat \<Rightarrow> string) \<Rightarrow> LedgerDb \<Rightarrow> bool" where
  "ids_ok gen db \<longleftrightarrow> distinct (map lt_id (ld_transactions db)) \<and> lt_id ` set (ld_transactions db) \<subseteq> gen ` {..<ld_seq db}
     \<and> le_transactionId ` set (ld_entries db) \<subseteq> lt_id ` set (ld_transactions db)
     \<and> le_accountId ` set (ld_entries db) \<subseteq> ac_id ` set (ld_accounts db)"

lemma ids_ok_fresh:
  assumes "inj gen" "ids_ok gen db"
  shows "gen (ld_seq db) \<notin> lt_id ` set (ld_transactions db)"
proof
  assume "gen (ld_seq db) \<in> lt_id ` set (ld_transactions db)"
  then obtain n where "n < ld_seq db" "gen (ld_seq db) = gen n" using assms(2) by (auto simp: ids_ok_def)
  then show False using assms(1) by (metis injD less_irrefl)
qed

lemma ids_ok_no_entries:
  assumes "inj gen" "ids_ok gen db"
  shows "filter (\<lambda>e. le_transactionId e = gen (ld_seq db)) (ld_entries db) = []"
  using ids_ok_fresh [OF assms] assms(2) unfolding ids_ok_def filter_empty_conv image_subset_iff by metis

lemma insert_transaction_Inr:
  "insert_transaction t db = Inr db' \<longleftrightarrow> db' = db\<lparr>ld_transactions := ld_transactions db @ [t]\<rparr>
     \<and> key_fits (lt_idempotencyKey t) \<and> lt_number t \<notin> lt_number ` set (ld_transactions db)
     \<and> (lt_idempotencyKey t \<noteq> None \<longrightarrow> lt_idempotencyKey t \<notin> lt_idempotencyKey ` set (ld_transactions db))"
  by (auto simp: insert_transaction_def image_iff) metis+

lemma entry_of_line_account: "entry_of_line (codes db) tid d l e \<Longrightarrow> le_accountId e \<in> ac_id ` set (ld_accounts db)"
  by (auto simp: entry_of_line_def codes_def)

lemma list_all2_entries:
  "list_all2 (entry_of_line C tid d) ls es \<Longrightarrow> e \<in> set es \<Longrightarrow> \<exists>l \<in> set ls. entry_of_line C tid d l e"
  by (auto simp: list_all2_conv_all_nth in_set_conv_nth) (metis nth_mem)

text \<open>The common part of both operations.\<close>

lemma written_appended:
  assumes gen: "inj gen" "ids_ok gen db"
    and t: "lt_id t = gen (ld_seq db)" "lt_idempotencyKey t \<noteq> None" "isPeriodOpen db (lt_date t)"
    and ins: "insert_transaction t (db\<lparr>ld_seq := Suc (ld_seq db)\<rparr>) = Inr db0"
    and w: "written es db0 db1" "list_all2 (entry_of_line (codes db0) (lt_id t) (lt_date t)) ls es"
    and n: "map le_lineNumber es = [1..<Suc (length es)]"
    and chk: "assertWrittenJournalMatchesHeader (lt_id t) db1 = Inr u"
    and db': "ld_transactions db' = map f (ld_transactions db1)" "ld_entries db' = ld_entries db1"
      "ld_periods db' = ld_periods db1" "ld_seq db' = ld_seq db1" "same_accounts db1 db'"
  shows "appended gen f t es db db'"
proof -
  have db0: "db0 = db\<lparr>ld_seq := Suc (ld_seq db), ld_transactions := ld_transactions db @ [t]\<rparr>"
    "lt_number t \<notin> lt_number ` set (ld_transactions db)"
    "lt_idempotencyKey t \<notin> lt_idempotencyKey ` set (ld_transactions db)"
    using ins t(2) by (simp_all add: insert_transaction_Inr)
  have c0: "codes db0 = codes db" by (simp add: db0 codes_def)
  have mem: "\<forall>e \<in> set es. le_transactionId e = lt_id t \<and> le_entryDate e = lt_date t \<and> le_accountId e \<in> ac_id ` set (ld_accounts db)"
  proof
    fix e assume "e \<in> set es"
    then obtain l where "entry_of_line (codes db) (lt_id t) (lt_date t) l e" using list_all2_entries [OF w(2)] c0 by auto
    then show "le_transactionId e = lt_id t \<and> le_entryDate e = lt_date t \<and> le_accountId e \<in> ac_id ` set (ld_accounts db)"
      using entry_of_line_account [of db "lt_id t" "lt_date t" l e] by (simp add: entry_of_line_def)
  qed
  have f: "find_txn (lt_id t) db1 = Some t"
  proof -
    have "find (\<lambda>x. lt_id x = lt_id t) (ld_transactions db) = None"
      unfolding t(1) find_None_iff using ids_ok_fresh [OF gen] by (auto intro: rev_image_eqI)
    then show ?thesis using w(1) by (simp add: written_def db0 find_txn_def find_append)
  qed
  have fe: "filter (\<lambda>e. le_transactionId e = lt_id t) (ld_entries db1) = es"
    using w(1) ids_ok_no_entries [OF gen] t(1) mem by (simp add: written_def db0)
  have sa: "same_accounts db db'"
    using w(1) db'(5) same_accounts_trans [of db0 db1 db'] by (simp add: written_def db0 same_accounts_def)
  have w1: "ld_entries db1 = ld_entries db @ es" "ld_transactions db1 = ld_transactions db @ [t]" "ld_periods db1 = ld_periods db"
      "ld_seq db < ld_seq db1"
    using w(1) by (simp_all add: written_def db0(1))
  note aw = assertWritten_entries [OF chk f fe]
  have m: "\<forall>e \<in> set es. le_transactionId e = lt_id t \<and> le_entryDate e = lt_date t \<and> le_amount e = le_debit e + le_credit e
       \<and> le_accountId e \<in> ac_id ` set (ld_accounts db)" using mem aw(4) by blast
  show ?thesis unfolding appended_def db'(1-4) w1(1-3)
    by (intro conjI refl sa w1(4) t db0(2,3) aw(1-3) m n)
qed

lemma post_journal_appended:
  assumes gen: "inj gen" "ids_ok gen db" and ok: "accounts_ok db"
    and post: "post_journal D gen tx rq db = Inr (r, db')"
  shows "\<exists>es debit credit. let t = new_transaction rq (gen (ld_seq db)) (txn_number (next_txn_number db)) debit credit in
     appended gen (\<lambda>x. x) t es db db' \<and> refreshed es db db'
   \<and> list_all2 (entry_of_line (codes db) (lt_id t) (lt_date t)) (je_lines rq) es
   \<and> num_column (de_totalDebits (validateDoubleEntry D (je_lines rq))) = Inr debit
   \<and> num_column (de_totalCredits (validateDoubleEntry D (je_lines rq))) = Inr credit
   \<and> r = \<lparr>jr_transactionId = lt_id t, jr_transactionNumber = lt_number t, jr_status = TX_POSTED,
          jr_totalDebits = de_totalDebits (validateDoubleEntry D (je_lines rq)),
          jr_totalCredits = de_totalCredits (validateDoubleEntry D (je_lines rq))\<rparr>"
proof -
  let ?v = "validateDoubleEntry D (je_lines rq)"
  let ?au = "\<lparr>la_action = ''CREATE'', la_entityId = gen (ld_seq db), la_userId = je_userId rq\<rparr>"
  let ?k = "\<lambda>ids. map (\<lambda>i. (i, fiscal_year (je_entryDate rq), fiscal_month (je_entryDate rq))) ids"
  from post obtain debit credit db0 x u where
    p: "isPeriodOpen db (je_entryDate rq)" "num_column (de_totalDebits ?v) = Inr debit" "num_column (de_totalCredits ?v) = Inr credit"
      "insert_transaction (new_transaction rq (gen (ld_seq db)) (txn_number (next_txn_number db)) debit credit)
         (db\<lparr>ld_seq := Suc (ld_seq db)\<rparr>) = Inr db0"
      "write_lines D gen tx rq (gen (ld_seq db)) 1 (je_lines rq) db0 = Inr x"
    and c: "assertWrittenJournalMatchesHeader (gen (ld_seq db)) (snd x) = Inr u"
    and r: "\<lparr>jr_transactionId = gen (ld_seq db), jr_transactionNumber = txn_number (next_txn_number db), jr_status = TX_POSTED,
               jr_totalDebits = de_totalDebits ?v, jr_totalCredits = de_totalCredits ?v\<rparr> = r"
    and db': "afterJournalEntryGovernance (line_entities (je_lines rq))
        (if tx then rebuild_all D (?k (fst x)) (snd x\<lparr>ld_audit := ld_audit (snd x) @ [?au]\<rparr>) else snd x\<lparr>ld_audit := ld_audit (snd x) @ [?au]\<rparr>) = db'"
    unfolding post_journal_def Let_def and_then_Inr_iff split_def throw_if_simps sum.inject prod.inject not_not
    by (elim exE conjE) (rule that; assumption)
  obtain ids db1 where x: "x = (ids, db1)" by (cases x)
  define t where "t = new_transaction rq (gen (ld_seq db)) (txn_number (next_txn_number db)) debit credit"
  have t: "lt_id t = gen (ld_seq db)" "lt_date t = je_entryDate rq" "lt_number t = txn_number (next_txn_number db)"
    "lt_idempotencyKey t = Some (je_idempotencyKey rq)" by (simp_all add: t_def new_transaction_def)
  from write_lines_written [OF p(5) [unfolded x]] obtain es where
    es: "written es db0 db1" "list_all2 (entry_of_line (codes db0) (gen (ld_seq db)) (je_entryDate rq)) (je_lines rq) es"
      "map le_lineNumber es = [1..<1 + length (je_lines rq)]" by blast
  have len: "length es = length (je_lines rq)" using es(2) by (simp add: list_all2_lengthD)
  have db0: "db0 = db\<lparr>ld_seq := Suc (ld_seq db), ld_transactions := ld_transactions db @ [t]\<rparr>"
    using p(4) by (simp add: insert_transaction_Inr t_def)
  have c0: "codes db0 = codes db" "accounts_ok db0" "\<And>x y. refreshed x db0 y = refreshed x db y"
    using ok by (simp_all add: db0 codes_def accounts_ok_def refreshed_def)
  define db2 where "db2 = (if tx then rebuild_all D (?k ids) (db1\<lparr>ld_audit := ld_audit db1 @ [?au]\<rparr>) else db1\<lparr>ld_audit := ld_audit db1 @ [?au]\<rparr>)"
  have db2: "ld_accounts db2 = ld_accounts db1" "ld_transactions db2 = ld_transactions db1" "ld_entries db2 = ld_entries db1"
    "ld_periods db2 = ld_periods db1" "ld_seq db2 = ld_seq db1" by (simp_all add: db2_def)
  have db'2: "db' = afterJournalEntryGovernance (line_entities (je_lines rq)) db2"
    unfolding db2_def by (rule db' [unfolded x fst_conv snd_conv, symmetric])
  have "same_accounts db1 db'" using after_same_accounts [of db2] db2(1) by (simp add: db'2 same_accounts_def)
  then have "appended gen (\<lambda>x. x) t es db db'"
    using written_appended [OF gen t(1) _ _ _ es(1), of "je_lines rq" u db' "\<lambda>x. x"] p(1,4) c x es(2,3) len t db2
    by (simp add: t_def [symmetric] db'2)
  moreover have "refreshed es db db'"
    using refreshed_after [OF c0(2) es(1,2) db2(1) db'2] c0(3) by simp
  ultimately show ?thesis using es(2) c0(1) p(2,3) r t unfolding t_def by (intro exI [of _ es] exI [of _ debit] exI [of _ credit]) (simp add: Let_def)
qed

subsection \<open>Reversal\<close>

definition marked :: "string \<Rightarrow> string \<Rightarrow> LedgerTransaction \<Rightarrow> LedgerTransaction" where
  "marked i r t = (if lt_id t = i then
     t\<lparr>lt_status := TX_REVERSED, lt_reversedById := Some r, lt_isReversed := True,
       lt_idempotencyKey := released_key r (lt_idempotencyKey t)\<rparr> else t)"

lemma marked_simps [simp]:
  "lt_id (marked i r t) = lt_id t" "lt_number (marked i r t) = lt_number t" "lt_date (marked i r t) = lt_date t"
  "lt_totalDebit (marked i r t) = lt_totalDebit t" "lt_totalCredit (marked i r t) = lt_totalCredit t"
  "lt_id t \<noteq> i \<Longrightarrow> marked i r t = t"
  "posted (marked i r t) \<longleftrightarrow> posted t \<and> lt_id t \<noteq> i"
  by (simp_all add: marked_def posted_def)

lemma mark_reversed_marked:
  "mark_reversed i r db = Inr db' \<longleftrightarrow> db' = db\<lparr>ld_transactions := map (marked i r) (ld_transactions db)\<rparr>
     \<and> (\<forall>t \<in> set (ld_transactions db). lt_id t = i \<longrightarrow> key_fits (released_key r (lt_idempotencyKey t)))"
proof -
  have k: "(\<exists>t \<in> set (map (marked i r) (ld_transactions db)). lt_id t = i \<and> \<not> key_fits (lt_idempotencyKey t))
      \<longleftrightarrow> (\<exists>t \<in> set (ld_transactions db). lt_id t = i \<and> \<not> key_fits (released_key r (lt_idempotencyKey t)))"
    unfolding set_map bex_simps(7) by (rule bex_cong [OF refl]) (auto simp: marked_def)
  have g: "and_then (throw_if b e) (\<lambda>_. Inr x) = Inr y \<longleftrightarrow> y = x \<and> \<not> b" for b and e :: LedgerError and x y :: LedgerDb
    by (auto simp: throw_if_def)
  have m: "(\<lambda>t. if lt_id t = i then t\<lparr>lt_status := TX_REVERSED, lt_reversedById := Some r, lt_isReversed := True,
      lt_idempotencyKey := released_key r (lt_idempotencyKey t)\<rparr> else t) = marked i r"
    by (rule ext) (simp add: marked_def)
  show ?thesis unfolding mark_reversed_def Let_def m k g by blast
qed

lemma reverse_posted_appended:
  assumes gen: "inj gen" "ids_ok gen db" and ok: "accounts_ok db"
    and open_period: "isPeriodOpen db (rv_reversalDate rq)"
    and rev: "reverse_posted D gen tx rq o' db = Inr (r, db')"
  shows "\<exists>es debit credit.
     let t = reversal_transaction rq o' (gen (ld_seq db)) (txn_number (next_txn_number db)) debit credit in
     appended gen (marked (lt_id o') (lt_id t)) t es db db' \<and> refreshed es db db'
   \<and> list_all2 (entry_of_line (codes db) (lt_id t) (lt_date t)) (map (reversed_line D db) (entries_of (lt_id o') db)) es
   \<and> r = \<lparr>jr_transactionId = lt_id t, jr_transactionNumber = lt_number t, jr_status = TX_POSTED,
          jr_totalDebits = de_totalDebits (validateDoubleEntry D (map (reversed_line D db) (entries_of (lt_id o') db))),
          jr_totalCredits = de_totalCredits (validateDoubleEntry D (map (reversed_line D db) (entries_of (lt_id o') db)))\<rparr>"
proof -
  let ?o = "entries_of (lt_id o') db"
  let ?ls = "map (reversed_line D db) ?o"
  let ?v = "validateDoubleEntry D ?ls"
  let ?d = "rv_reversalDate rq"
  let ?au = "\<lparr>la_action = ''VOID'', la_entityId = gen (ld_seq db), la_userId = rv_userId rq\<rparr>"
  let ?k = "\<lambda>ids. concat (map (\<lambda>i. [(i, fiscal_year ?d, fiscal_month ?d),
                   (i, fiscal_year (take 10 (lt_date o')), fiscal_month (take 10 (lt_date o')))]) ids)"
  let ?b = "\<lambda>x m. if tx then rebuild_all D (?k (fst x)) m else m"
  from rev obtain debit credit db0 x u m where
    p: "insert_transaction (reversal_transaction rq o' (gen (ld_seq db)) (txn_number (next_txn_number db)) debit credit)
         (db\<lparr>ld_seq := Suc (ld_seq db)\<rparr>) = Inr db0"
      "write_reversal_lines D gen (gen (ld_seq db)) ?d 1 (zip ?ls ?o) db0 = Inr x"
    and c: "assertWrittenJournalMatchesHeader (gen (ld_seq db)) (snd x) = Inr u"
    and m: "mark_reversed (lt_id o') (gen (ld_seq db)) (snd x) = Inr m"
    and r: "\<lparr>jr_transactionId = gen (ld_seq db), jr_transactionNumber = txn_number (next_txn_number db), jr_status = TX_POSTED,
               jr_totalDebits = de_totalDebits ?v, jr_totalCredits = de_totalCredits ?v\<rparr> = r"
    and db': "afterJournalEntryGovernance (line_entities ?ls) (?b x m\<lparr>ld_audit := ld_audit (?b x m) @ [?au]\<rparr>) = db'"
    unfolding reverse_posted_def Let_def and_then_Inr_iff split_def throw_if_simps sum.inject prod.inject not_not
    by (elim exE conjE) (rule that; assumption)
  obtain ids db1 where x: "x = (ids, db1)" by (cases x)
  define t where "t = reversal_transaction rq o' (gen (ld_seq db)) (txn_number (next_txn_number db)) debit credit"
  have t: "lt_id t = gen (ld_seq db)" "lt_date t = ?d" "lt_number t = txn_number (next_txn_number db)"
    "lt_idempotencyKey t = Some (rv_idempotencyKey rq)" by (simp_all add: t_def reversal_transaction_def)
  have zip: "map fst (zip ?ls ?o) = ?ls" "length (zip ?ls ?o) = length ?ls" by simp_all
  from write_reversal_lines_written [OF p(2) [unfolded x]] obtain es where
    es: "written es db0 db1" "list_all2 (entry_of_line (codes db0) (gen (ld_seq db)) ?d) ?ls es"
      "map le_lineNumber es = [1..<1 + length ?ls]" unfolding zip by blast
  have len: "length es = length ?ls" using es(2) by (metis list_all2_lengthD)
  have db0: "db0 = db\<lparr>ld_seq := Suc (ld_seq db), ld_transactions := ld_transactions db @ [t]\<rparr>"
    using p(1) by (simp add: insert_transaction_Inr t_def)
  have c0: "codes db0 = codes db" "accounts_ok db0" "\<And>x y. refreshed x db0 y = refreshed x db y"
    using ok by (simp_all add: db0 codes_def accounts_ok_def refreshed_def)
  have m2: "m = db1\<lparr>ld_transactions := map (marked (lt_id o') (gen (ld_seq db))) (ld_transactions db1)\<rparr>"
    using m by (simp add: mark_reversed_marked x)
  define db2 where "db2 = ?b x m\<lparr>ld_audit := ld_audit (?b x m) @ [?au]\<rparr>"
  have db2: "ld_accounts db2 = ld_accounts db1" "ld_transactions db2 = map (marked (lt_id o') (lt_id t)) (ld_transactions db1)"
    "ld_entries db2 = ld_entries db1" "ld_periods db2 = ld_periods db1" "ld_seq db2 = ld_seq db1"
    by (simp_all add: db2_def m2 x t(1))
  have db'2: "db' = afterJournalEntryGovernance (line_entities ?ls) db2"
    unfolding db2_def by (rule db' [symmetric])
  have "same_accounts db1 db'" using after_same_accounts [of db2] db2(1) by (simp add: db'2 same_accounts_def)
  then have "appended gen (marked (lt_id o') (lt_id t)) t es db db'"
    using written_appended [OF gen t(1) _ _ _ es(1), of ?ls u db' "marked (lt_id o') (lt_id t)"] open_period p(1) c x es(2,3) len t db2
    by (simp add: t_def [symmetric] db'2)
  moreover have "refreshed es db db'"
    using refreshed_after [OF c0(2) es(1,2) db2(1) db'2] c0(3) by simp
  ultimately show ?thesis using es(2) c0(1) r t unfolding t_def
    by (intro exI [of _ es] exI [of _ debit] exI [of _ credit]) (simp add: Let_def)
qed

subsection \<open>Outcomes\<close>

lemma createJournalEntry_outcome:
  assumes "inj gen" "ids_ok gen db" "accounts_ok db" "createJournalEntry D gen mode tx cdb rq db = Inr (r, db')"
  shows "db' = db \<or> checkIdempotencyKey db (je_idempotencyKey rq) = None
    \<and> de_isValid (validateDoubleEntry D (je_lines rq)) \<and> (\<forall>l \<in> set (je_lines rq). validateLineAmounts l)
    \<and> governance_check mode rq db = Inr () \<and> post_journal D gen tx rq db = Inr (r, db')"
proof -
  have "is_ok (each_ok (\<lambda>l. throw_if (\<not> validateLineAmounts l) INVALID_LINE_AMOUNTS) (je_lines rq))"
    using assms(4) unfolding createJournalEntry_def by (auto simp: and_then_Inr_iff is_ok_iff)
  then have "\<forall>l \<in> set (je_lines rq). validateLineAmounts l" by (simp add: each_ok_iff)
  then show ?thesis using assms(4) unfolding createJournalEntry_def
    by (auto simp: and_then_Inr_iff split: option.splits)
qed

lemma reverseTransaction_outcome:
  assumes "reverseTransaction D gen tx cdb rq db = Inr (r, db')"
  shows "db' = db \<or> (\<exists>o'. find_txn (rv_originalTransactionId rq) db = Some o' \<and> posted o'
     \<and> isPeriodOpen db (rv_reversalDate rq) \<and> reverse_posted D gen tx rq o' db = Inr (r, db'))"
  using assms unfolding reverseTransaction_def
  by (auto simp: and_then_Inr_iff posted_def split: option.splits) (metis TransactionStatus.exhaust)+

end
