(* ===== verification/LedgerInv.thy ===== *)
theory LedgerInv imports LedgerOps
begin

section \<open>Invariants of the ledger\<close>

text \<open>
  The ledger as a transition system, its well-formedness, the live postings it promises (the
  transactions that are neither reversed nor the mirror of a reversed one) and how the operations
  act on them, and the cached account balances.
\<close>

subsection \<open>Steps\<close>

text \<open>One request of the service; \<open>Q\<close> restricts the journals that clients send. The period rebuild is
  also run alone, by the worker that drains the outbox.\<close>

inductive ledger_step ::
  "'d decimal_lib \<Rightarrow> (nat \<Rightarrow> string) \<Rightarrow> ArGovernanceMode \<Rightarrow> (JournalEntryRequest \<Rightarrow> bool) \<Rightarrow> LedgerDb \<Rightarrow> LedgerDb \<Rightarrow> bool"
  for D gen mode Q where
  step_create: "createJournalEntry D gen mode tx cdb rq db = Inr (r, db') \<Longrightarrow> Q rq \<Longrightarrow> ledger_step D gen mode Q db db'"
| step_reverse: "reverseTransaction D gen tx cdb rv db = Inr (r, db') \<Longrightarrow> ledger_step D gen mode Q db db'"
| step_lock: "lockPeriod pid user db = Inr db' \<Longrightarrow> ledger_step D gen mode Q db db'"
| step_rebuild: "ledger_step D gen mode Q db (rebuild_all D ks db)"

subsection \<open>Well-formed tables\<close>

definition links_ok :: "LedgerDb \<Rightarrow> bool" where
  "links_ok db \<longleftrightarrow> (\<forall>t \<in> set (ld_transactions db).
       (lt_status t = TX_REVERSED \<longleftrightarrow> lt_reversedById t \<noteq> None) \<and> (lt_isReversed t \<longleftrightarrow> lt_status t = TX_REVERSED))
     \<and> set (reversal_ids db) \<subseteq> lt_id ` set (ld_transactions db)"

definition keys_ok :: "LedgerDb \<Rightarrow> bool" where
  "keys_ok db \<longleftrightarrow> distinct (map lt_number (ld_transactions db))
     \<and> (\<forall>k. length (filter (\<lambda>t. posted t \<and> lt_idempotencyKey t = Some k) (ld_transactions db)) \<le> 1)"

definition ledger_wf :: "(nat \<Rightarrow> string) \<Rightarrow> LedgerDb \<Rightarrow> bool" where
  "ledger_wf gen db \<longleftrightarrow> accounts_ok db \<and> ids_ok gen db \<and> links_ok db \<and> keys_ok db"

subsection \<open>Transactions after an append\<close>

lemma find_map_id: "(\<And>x. g (f x) = g x) \<Longrightarrow> find (\<lambda>x. g x = i) (map f xs) = map_option f (find (\<lambda>x. g x = i) xs)"
  by (induction xs) auto

lemma find_txn_appended:
  assumes "inj gen" "ids_ok gen db" "appended gen f t es db db'" "\<And>x. lt_id (f x) = lt_id x"
  shows "find_txn i db' = map_option f (if i = lt_id t then Some t else find_txn i db)"
proof -
  have n: "find_txn (lt_id t) db = None"
    using ids_ok_fresh [OF assms(1,2)] by (simp add: find_txn_None_iff appended_id [OF assms(3)])
  have "find_txn i db' = map_option f (find (\<lambda>x. lt_id x = i) (ld_transactions db @ [t]))"
    using find_map_id [of lt_id f i] assms(4) by (simp add: find_txn_def appended_txns [OF assms(3)] find_append split: option.split)
  also have "find (\<lambda>x. lt_id x = i) (ld_transactions db @ [t]) = (if i = lt_id t then Some t else find_txn i db)"
    using n by (auto simp: find_txn_def find_append split: option.splits)
  finally show ?thesis .
qed

lemma joined_appended:
  assumes "inj gen" "ids_ok gen db" "appended gen f t es db db'" "\<And>x. lt_id (f x) = lt_id x"
  shows "joined P db' = joined (P \<circ> f) db @ (if P (f t) then es else [])"
proof -
  have e: "ld_entries db' = ld_entries db @ es" "\<forall>e \<in> set es. le_transactionId e = lt_id t"
    using appended_entries [OF assms(3)] appended_own(1) [OF assms(3)] by blast+
  have old: "le_transactionId e \<noteq> lt_id t" if "e \<in> set (ld_entries db)" for e
    using ids_ok_fresh [OF assms(1,2)] assms(2) that unfolding ids_ok_def appended_id [OF assms(3)] by (metis image_subset_iff)
  have "filter (\<lambda>e. case find_txn (le_transactionId e) db' of None \<Rightarrow> False | Some x \<Rightarrow> P x) (ld_entries db) = joined (P \<circ> f) db"
    unfolding joined_def by (rule filter_cong) (auto simp: find_txn_appended [OF assms] old split: option.splits)
  moreover have "filter (\<lambda>e. case find_txn (le_transactionId e) db' of None \<Rightarrow> False | Some x \<Rightarrow> P x) es = (if P (f t) then es else [])"
    using e(2) by (auto simp: find_txn_appended [OF assms] filter_empty_conv intro!: filter_True)
  ultimately show ?thesis by (simp add: joined_def e(1))
qed

lemma ids_ok_appended:
  assumes "inj gen" "ids_ok gen db" "appended gen f t es db db'" "\<And>x. lt_id (f x) = lt_id x"
  shows "ids_ok gen db'"
proof -
  note a = appended_txns [OF assms(3)] appended_entries [OF assms(3)] appended_seq [OF assms(3)] appended_id [OF assms(3)]
  have m: "map lt_id (ld_transactions db') = map lt_id (ld_transactions db) @ [lt_id t]"
    using a(1) assms(4) by (simp add: comp_def)
  have s: "lt_id ` set (ld_transactions db') = insert (lt_id t) (lt_id ` set (ld_transactions db))"
    by (simp add: a(1) image_image assms(4))
  have ids: "ac_id ` set (ld_accounts db') = ac_id ` set (ld_accounts db)"
    using arg_cong [OF same_accounts_ids [OF appended_accounts [OF assms(3)]], of set] by simp
  have fresh: "lt_id t \<notin> lt_id ` set (ld_transactions db)" using ids_ok_fresh [OF assms(1,2)] a(4) by simp
  have i: "distinct (map lt_id (ld_transactions db))" "lt_id ` set (ld_transactions db) \<subseteq> gen ` {..<ld_seq db}"
    "le_transactionId ` set (ld_entries db) \<subseteq> lt_id ` set (ld_transactions db)"
    "le_accountId ` set (ld_entries db) \<subseteq> ac_id ` set (ld_accounts db)"
    using assms(2) by (simp_all add: ids_ok_def)
  show ?thesis unfolding ids_ok_def m s ids
  proof (intro conjI)
    show "distinct (map lt_id (ld_transactions db) @ [lt_id t])" using i(1) fresh by simp
    have "gen ` {..<ld_seq db} \<subseteq> gen ` {..<ld_seq db'}" using a(3) by (intro image_mono) auto
    then have "lt_id ` set (ld_transactions db) \<subseteq> gen ` {..<ld_seq db'}" by (rule order_trans [OF i(2)])
    moreover have "lt_id t \<in> gen ` {..<ld_seq db'}" unfolding a(4) using a(3) by simp
    ultimately show "insert (lt_id t) (lt_id ` set (ld_transactions db)) \<subseteq> gen ` {..<ld_seq db'}" by simp
    have "le_transactionId ` set es \<subseteq> {lt_id t}" using appended_own(1) [OF assms(3)] by blast
    then show "le_transactionId ` set (ld_entries db') \<subseteq> insert (lt_id t) (lt_id ` set (ld_transactions db))"
      unfolding a(2) set_append image_Un by (intro Un_least subset_insertI2 [OF i(3)]) (simp add: subset_iff)
    have "le_accountId ` set es \<subseteq> ac_id ` set (ld_accounts db)" using appended_own(3) [OF assms(3)] by blast
    then show "le_accountId ` set (ld_entries db') \<subseteq> ac_id ` set (ld_accounts db)"
      unfolding a(2) set_append image_Un by (rule Un_least [OF i(4)])
  qed
qed

subsection \<open>Live postings\<close>

text \<open>What the ledger promises to its readers: the list of postings in force.\<close>

definition live :: "LedgerDb \<Rightarrow> LedgerTransaction list" where
  "live db = filter (net_active db) (ld_transactions db)"

lemma reversal_ids_iff: "i \<in> set (reversal_ids db) \<longleftrightarrow> (\<exists>t \<in> set (ld_transactions db). lt_reversedById t = Some i)"
  by (force simp: reversal_ids_def image_iff)

lemma create_links:
  assumes "inj gen" "ids_ok gen db" "links_ok db" "appended gen (\<lambda>x. x) t es db db'"
    and t: "lt_status t = TX_POSTED" "lt_reversedById t = None" "\<not> lt_isReversed t"
  shows "links_ok db'" "live db' = live db @ [t]"
proof -
  have tx: "ld_transactions db' = ld_transactions db @ [t]" using appended_txns [OF assms(4)] by simp
  have r: "set (reversal_ids db') = set (reversal_ids db)" using t(2) by (auto simp: reversal_ids_iff tx)
  have n: "net_active db' x = net_active db x" for x by (simp add: net_active_def r)
  have "lt_id t \<notin> set (reversal_ids db)"
    using ids_ok_fresh [OF assms(1,2)] assms(3) appended_id [OF assms(4)] by (auto simp: links_ok_def)
  then show "live db' = live db @ [t]" using t by (simp add: live_def tx n [abs_def]) (simp add: net_active_def posted_def)
  show "links_ok db'" using assms(3) t by (auto simp: links_ok_def r tx)
qed

lemma reverse_links:
  assumes "inj gen" "ids_ok gen db" "links_ok db" "appended gen (marked (lt_id o') (lt_id t)) t es db db'"
    and t: "lt_status t = TX_POSTED" "lt_reversedById t = None" "\<not> lt_isReversed t"
    and o': "o' \<in> set (ld_transactions db)" "posted o'"
  shows "links_ok db'" "live db' = filter (\<lambda>x. lt_id x \<noteq> lt_id o') (live db)"
proof -
  have fresh: "lt_id t \<notin> lt_id ` set (ld_transactions db)" using ids_ok_fresh [OF assms(1,2)] appended_id [OF assms(4)] by simp
  have ot: "lt_id o' \<noteq> lt_id t" using fresh o'(1) by (metis image_eqI)
  have tx: "ld_transactions db' = map (marked (lt_id o') (lt_id t)) (ld_transactions db) @ [t]"
    using appended_txns [OF assms(4)] ot by simp
  have no: "lt_reversedById o' = None" using assms(3) o' by (auto simp: links_ok_def posted_def)
  have uniq: "x = o'" if "x \<in> set (ld_transactions db)" "lt_id x = lt_id o'" for x
    using assms(2) o'(1) that by (auto simp: ids_ok_def distinct_map inj_on_def)
  have mk: "marked (lt_id o') (lt_id t) x = (if x = o' then marked (lt_id o') (lt_id t) o' else x)" if "x \<in> set (ld_transactions db)" for x
    using uniq [OF that] by (metis marked_simps(6))
  have mo: "lt_reversedById (marked (lt_id o') (lt_id t) o') = Some (lt_id t)" "lt_status (marked (lt_id o') (lt_id t) o') = TX_REVERSED"
    "lt_isReversed (marked (lt_id o') (lt_id t) o')" by (simp_all add: marked_def)
  have r: "set (reversal_ids db') = insert (lt_id t) (set (reversal_ids db))"
  proof (intro set_eqI)
    fix i
    have "i \<in> set (reversal_ids db') \<longleftrightarrow> (\<exists>x \<in> set (ld_transactions db). lt_reversedById (marked (lt_id o') (lt_id t) x) = Some i)"
      using t(2) by (auto simp: reversal_ids_iff tx)
    also have "\<dots> \<longleftrightarrow> i = lt_id t \<or> (\<exists>x \<in> set (ld_transactions db). lt_reversedById x = Some i)"
      using o'(1) mo(1) no mk by (metis option.inject option.distinct(1))
    finally show "i \<in> set (reversal_ids db') \<longleftrightarrow> i \<in> insert (lt_id t) (set (reversal_ids db))" by (simp add: reversal_ids_iff)
  qed
  have sub: "set (reversal_ids db) \<subseteq> lt_id ` set (ld_transactions db)" using assms(3) by (simp add: links_ok_def)
  have n: "net_active db' (marked (lt_id o') (lt_id t) x) \<longleftrightarrow> net_active db x \<and> lt_id x \<noteq> lt_id o'" if "x \<in> set (ld_transactions db)" for x
  proof (cases "lt_id x = lt_id o'")
    case True
    then show ?thesis by (simp add: net_active_def)
  next
    case False
    then have "lt_id x \<noteq> lt_id t" using fresh that by (metis image_eqI)
    with False show ?thesis by (simp add: net_active_def r)
  qed
  have "filter (net_active db') (map (marked (lt_id o') (lt_id t)) xs) = filter (\<lambda>x. lt_id x \<noteq> lt_id o') (filter (net_active db) xs)"
    if "set xs \<subseteq> set (ld_transactions db)" for xs using that by (induction xs) (auto simp: n)
  moreover have "\<not> net_active db' t" by (simp add: net_active_def r)
  ultimately show "live db' = filter (\<lambda>x. lt_id x \<noteq> lt_id o') (live db)" by (simp add: live_def tx)
  have "lt_id ` set (ld_transactions db') = insert (lt_id t) (lt_id ` set (ld_transactions db))"
    by (auto simp: tx image_image)
  moreover have "(lt_status y = TX_REVERSED \<longleftrightarrow> lt_reversedById y \<noteq> None) \<and> (lt_isReversed y \<longleftrightarrow> lt_status y = TX_REVERSED)"
    if y: "y \<in> set (ld_transactions db')" for y
  proof (cases "y = t")
    case False
    with y obtain x where x: "x \<in> set (ld_transactions db)" "y = marked (lt_id o') (lt_id t) x" by (auto simp: tx)
    show ?thesis
    proof (cases "x = o'")
      case True
      then show ?thesis using x(2) mo by simp
    next
      case False
      then have "y = x" using mk [OF x(1)] x(2) by simp
      then show ?thesis using assms(3) x(1) by (simp add: links_ok_def)
    qed
  qed (simp add: t)
  ultimately show "links_ok db'" using sub by (auto simp: links_ok_def r)
qed

subsection \<open>Keys\<close>

lemma create_keys:
  assumes "keys_ok db" "appended gen (\<lambda>x. x) t es db db'"
  shows "keys_ok db'"
proof -
  note k = appended_key(1) [OF assms(2)] appended_number [OF assms(2)] appended_txns [OF assms(2)]
  have "filter (\<lambda>x. posted x \<and> lt_idempotencyKey x = Some key) (ld_transactions db) = []" if "lt_idempotencyKey t = Some key" for key
    using k(1) that by (metis (mono_tags, lifting) filter_False image_eqI)
  then show ?thesis using assms(1) k(2,3) by (auto simp: keys_ok_def)
qed

lemma reverse_keys:
  assumes "keys_ok db" "appended gen (marked i r) t es db db'"
  shows "keys_ok db'"
proof -
  note k = appended_key(1) [OF assms(2)] appended_number [OF assms(2)] appended_txns [OF assms(2)]
  have n: "map lt_number (ld_transactions db') = map lt_number (ld_transactions db) @ [lt_number t]"
    by (simp add: k(3) comp_def)
  have le: "length (filter (\<lambda>x. posted x \<and> lt_idempotencyKey x = Some key) (map (marked i r) xs))
      \<le> length (filter (\<lambda>x. posted x \<and> lt_idempotencyKey x = Some key) xs)" for key xs
    by (induction xs) auto
  have "length (filter (\<lambda>x. posted x \<and> lt_idempotencyKey x = Some key) (ld_transactions db')) \<le> 1" for key
  proof (cases "posted (marked i r t) \<and> lt_idempotencyKey (marked i r t) = Some key")
    case True
    then have "lt_idempotencyKey t = Some key" by auto
    then have "filter (\<lambda>x. posted x \<and> lt_idempotencyKey x = Some key) (ld_transactions db) = []"
      using k(1) by (metis (mono_tags, lifting) filter_False image_eqI)
    with le [of key "ld_transactions db"] show ?thesis by (simp add: k(3))
  next
    case False
    have "length (filter (\<lambda>x. posted x \<and> lt_idempotencyKey x = Some key) (ld_transactions db)) \<le> 1"
      using assms(1) by (simp add: keys_ok_def)
    with le [of key "ld_transactions db"] False show ?thesis by (auto simp: k(3))
  qed
  then show ?thesis using assms(1) k(2) n by (auto simp: keys_ok_def)
qed

subsection \<open>Every step in one of four forms\<close>

text \<open>What the proofs below know of a step.\<close>

definition created ::
  "'d decimal_lib \<Rightarrow> (nat \<Rightarrow> string) \<Rightarrow> JournalEntryRequest \<Rightarrow> LedgerTransaction \<Rightarrow> LedgerEntry list \<Rightarrow> LedgerDb \<Rightarrow> LedgerDb \<Rightarrow> bool" where
  "created D gen rq t es db db' \<longleftrightarrow> appended gen (\<lambda>x. x) t es db db' \<and> refreshed es db db'
     \<and> list_all2 (entry_of_line (codes db) (lt_id t) (lt_date t)) (je_lines rq) es
     \<and> de_isValid (validateDoubleEntry D (je_lines rq)) \<and> (\<forall>l \<in> set (je_lines rq). validateLineAmounts l)
     \<and> lt_date t = je_entryDate rq \<and> lt_status t = TX_POSTED \<and> lt_reversedById t = None \<and> \<not> lt_isReversed t"

definition reversed ::
  "'d decimal_lib \<Rightarrow> (nat \<Rightarrow> string) \<Rightarrow> LedgerTransaction \<Rightarrow> LedgerTransaction \<Rightarrow> LedgerEntry list \<Rightarrow> LedgerDb \<Rightarrow> LedgerDb \<Rightarrow> bool" where
  "reversed D gen o' t es db db' \<longleftrightarrow> appended gen (marked (lt_id o') (lt_id t)) t es db db' \<and> refreshed es db db'
     \<and> list_all2 (entry_of_line (codes db) (lt_id t) (lt_date t)) (map (reversed_line D db) (entries_of (lt_id o') db)) es
     \<and> o' \<in> set (ld_transactions db) \<and> posted o'
     \<and> lt_status t = TX_POSTED \<and> lt_reversedById t = None \<and> \<not> lt_isReversed t"

text \<open>Nothing but period states, period balances and the audit log moved.\<close>

definition same_books :: "LedgerDb \<Rightarrow> LedgerDb \<Rightarrow> bool" where
  "same_books db db' \<longleftrightarrow> ld_transactions db' = ld_transactions db \<and> ld_entries db' = ld_entries db
     \<and> ld_accounts db' = ld_accounts db \<and> ld_seq db' = ld_seq db
     \<and> map (\<lambda>p. (fp_id p, fp_year p, fp_month p, fp_start p, fp_end p)) (ld_periods db')
         = map (\<lambda>p. (fp_id p, fp_year p, fp_month p, fp_start p, fp_end p)) (ld_periods db)"

lemma createJournalEntry_created:
  assumes "inj gen" "ledger_wf gen db" "createJournalEntry D gen mode tx cdb rq db = Inr (r, db')"
  shows "db' = db \<or> (\<exists>t es. created D gen rq t es db db' \<and> jr_transactionId r = lt_id t
    \<and> lt_idempotencyKey t = Some (je_idempotencyKey rq) \<and> lt_referenceType t = je_referenceType rq
    \<and> lt_referenceId t = je_referenceId rq \<and> lt_referenceNumber t = je_referenceNumber rq)"
proof (cases "db' = db")
  case False
  have w: "ids_ok gen db" "accounts_ok db" using assms(2) by (simp_all add: ledger_wf_def)
  with createJournalEntry_outcome [OF assms(1) w assms(3)] False
  have p: "de_isValid (validateDoubleEntry D (je_lines rq)) \<and> (\<forall>l \<in> set (je_lines rq). validateLineAmounts l)" "post_journal D gen tx rq db = Inr (r, db')" by blast+
  from post_journal_appended [OF assms(1) w p(2)] p(1) show ?thesis
    by (fastforce simp: Let_def created_def new_transaction_def)
qed simp

lemma reverseTransaction_reversed:
  assumes "inj gen" "ledger_wf gen db" "reverseTransaction D gen tx cdb rq db = Inr (r, db')"
  shows "db' = db \<or> (\<exists>o' t es. find_txn (rv_originalTransactionId rq) db = Some o' \<and> reversed D gen o' t es db db'
     \<and> jr_transactionId r = lt_id t \<and> lt_date t = rv_reversalDate rq \<and> lt_idempotencyKey t = Some (rv_idempotencyKey rq))"
proof (cases "db' = db")
  case False
  have w: "ids_ok gen db" "accounts_ok db" using assms(2) by (simp_all add: ledger_wf_def)
  with reverseTransaction_outcome [OF assms(3)] False obtain o' where
    o': "find_txn (rv_originalTransactionId rq) db = Some o'" "posted o'"
      "isPeriodOpen db (rv_reversalDate rq)" "reverse_posted D gen tx rq o' db = Inr (r, db')" by blast
  have "o' \<in> set (ld_transactions db)" using find_txn_Some [OF o'(1)] by blast
  from reverse_posted_appended [OF assms(1) w o'(3,4)] obtain es debit credit t where
    t: "t = reversal_transaction rq o' (gen (ld_seq db)) (txn_number (next_txn_number db)) debit credit"
      "appended gen (marked (lt_id o') (lt_id t)) t es db db'" "refreshed es db db'"
      "list_all2 (entry_of_line (codes db) (lt_id t) (lt_date t)) (map (reversed_line D db) (entries_of (lt_id o') db)) es"
      "jr_transactionId r = lt_id t"
    by (fastforce simp: Let_def)
  then have "reversed D gen o' t es db db'" using o'(2) \<open>o' \<in> _\<close> by (simp add: reversed_def reversal_transaction_def)
  then show ?thesis using o'(1) t(1,5) by (fastforce simp: reversal_transaction_def)
qed simp

lemma ledger_step_forms:
  assumes "inj gen" "ledger_wf gen db" "ledger_step D gen mode Q db db'"
  shows "same_books db db' \<or> (\<exists>rq t es. Q rq \<and> created D gen rq t es db db') \<or> (\<exists>o' t es. reversed D gen o' t es db db')"
  using assms(3)
proof cases
  case (step_create tx cdb rq r)
  with createJournalEntry_created [OF assms(1,2) step_create(1)] show ?thesis by (auto simp: same_books_def)
next
  case (step_reverse tx cdb rv r)
  with reverseTransaction_reversed [OF assms(1,2) step_reverse] show ?thesis by (auto simp: same_books_def)
next
  case (step_lock pid user)
  then have "same_books db db'"
    by (auto simp: lockPeriod_def same_books_def comp_def if_distrib [of "\<lambda>p. (fp_id p, fp_year p, fp_month p, fp_start p, fp_end p)"]
        split: option.splits if_splits)
  then show ?thesis ..
next
  case (step_rebuild ks)
  then show ?thesis by (simp add: same_books_def)
qed

lemma ledger_wf_step:
  assumes "inj gen" "ledger_wf gen db" "ledger_step D gen mode Q db db'"
  shows "ledger_wf gen db'"
  using ledger_step_forms [OF assms]
proof (elim disjE exE conjE)
  assume "same_books db db'"
  then show ?thesis using assms(2)
    by (simp add: ledger_wf_def same_books_def accounts_ok_def ids_ok_def links_ok_def keys_ok_def reversal_ids_def)
next
  fix rq t es assume c: "created D gen rq t es db db'"
  then have a: "appended gen (\<lambda>x. x) t es db db'" by (simp add: created_def)
  then show ?thesis using assms(2) c ids_ok_appended [OF assms(1) _ a] create_links [OF assms(1) _ _ a] create_keys [OF _ a]
      accounts_ok_same [OF appended_accounts [OF a]]
    by (simp add: ledger_wf_def created_def)
next
  fix o' t es assume c: "reversed D gen o' t es db db'"
  then have a: "appended gen (marked (lt_id o') (lt_id t)) t es db db'" by (simp add: reversed_def)
  then show ?thesis using assms(2) c ids_ok_appended [OF assms(1) _ a] reverse_links(1) [OF assms(1) _ _ a] reverse_keys [OF _ a]
      accounts_ok_same [OF appended_accounts [OF a]]
    by (simp add: ledger_wf_def reversed_def)
qed

end
