(* ===== verification/LedgerBooks.thy ===== *)
theory LedgerBooks imports LedgerInv "HOL-Library.Multiset"
begin

section \<open>Sums of the ledger\<close>

text \<open>
  Amounts: journals in whole cents, their checks in exact cents, the balance of every transaction,
  the cached account balances and the balances that readers compute from the live postings.
\<close>

subsection \<open>Sums over joined entries\<close>

lemma sum_list_zero: "(\<And>x. x \<in> set xs \<Longrightarrow> f x = 0) \<Longrightarrow> sum_list (map f xs) = (0 :: 'a::comm_monoid_add)"
  by (induction xs) auto

lemma sum_list_single: "distinct (map g ts) \<Longrightarrow> x \<in> set ts \<Longrightarrow> sum_list (map (\<lambda>t. if g x = g t then f t else 0) ts) = (f x :: 'a::comm_monoid_add)"
proof (induction ts)
  case (Cons t ts)
  show ?case
  proof (cases "x = t")
    case True
    then have "sum_list (map (\<lambda>t. if g x = g t then f t else 0) ts) = 0"
      using Cons.prems by (intro sum_list_zero) (auto simp: image_iff)
    then show ?thesis by (simp add: True)
  next
    case False
    then have "x \<in> set ts" "g x \<noteq> g t" using Cons.prems by (auto simp: rev_image_eqI)
    then show ?thesis using Cons by simp
  qed
qed simp

text \<open>A sum over the entries of the transactions with \<open>P\<close>, transaction by transaction.\<close>

definition own_entries :: "string \<Rightarrow> LedgerDb \<Rightarrow> LedgerEntry list" where
  "own_entries i db = filter (\<lambda>e. le_transactionId e = i) (ld_entries db)"

lemma sum_filter_if: "sum_list (map f (filter P xs)) = sum_list (map (\<lambda>x. if P x then f x else 0) xs)" for f :: "'a \<Rightarrow> rat"
  by (induction xs) auto

lemma sum_joined:
  fixes f :: "LedgerEntry \<Rightarrow> rat"
  assumes "distinct (map lt_id (ld_transactions db))"
  shows "sum_list (map f (joined P db)) = sum_list (map (\<lambda>t. sum_list (map f (own_entries (lt_id t) db))) (filter P (ld_transactions db)))"
proof -
  let ?ts = "filter P (ld_transactions db)"
  have d: "distinct (map lt_id ?ts)" using assms by (rule distinct_map_filter)
  have one: "(if (case find_txn (le_transactionId e) db of None \<Rightarrow> False | Some t \<Rightarrow> P t) then f e else 0)
      = sum_list (map (\<lambda>t. if le_transactionId e = lt_id t then f e else 0) ?ts)" for e
  proof (cases "find_txn (le_transactionId e) db")
    case None
    then have "le_transactionId e \<notin> lt_id ` set (ld_transactions db)" by (simp add: find_txn_None_iff)
    then have "sum_list (map (\<lambda>t. if le_transactionId e = lt_id t then f e else 0) ?ts) = 0"
      by (intro sum_list_zero) (auto simp: image_iff)
    then show ?thesis using None by simp
  next
    case (Some x)
    then have x: "x \<in> set (ld_transactions db)" "lt_id x = le_transactionId e" using find_txn_Some by blast+
    show ?thesis
    proof (cases "P x")
      case True
      then have "sum_list (map (\<lambda>t. if lt_id x = lt_id t then f e else 0) ?ts) = f e"
        using x by (intro sum_list_single [OF d]) simp
      then show ?thesis using Some True x by simp
    next
      case False
      have "t = x" if "t \<in> set (ld_transactions db)" "lt_id t = lt_id x" for t
        using assms x that by (simp add: distinct_map inj_on_def)
      then have "sum_list (map (\<lambda>t. if lt_id x = lt_id t then f e else 0) ?ts) = 0"
        using False by (intro sum_list_zero) auto
      then show ?thesis using Some False x by simp
    qed
  qed
  have swap: "sum_list (map (\<lambda>e. sum_list (map (h e) ts)) es) = sum_list (map (\<lambda>t. sum_list (map (\<lambda>e. h e t) es)) ts)"
    for h :: "LedgerEntry \<Rightarrow> LedgerTransaction \<Rightarrow> rat" and ts es
    by (induction es) (simp_all add: sum_list_addf)
  have "sum_list (map f (joined P db)) = sum_list (map (\<lambda>e. sum_list (map (\<lambda>t. if le_transactionId e = lt_id t then f e else 0) ?ts)) (ld_entries db))"
    by (simp only: joined_def sum_filter_if one)
  also have "\<dots> = sum_list (map (\<lambda>t. sum_list (map (\<lambda>e. if le_transactionId e = lt_id t then f e else 0) (ld_entries db))) ?ts)"
    by (rule swap)
  finally show ?thesis by (simp only: own_entries_def sum_filter_if)
qed

subsection \<open>Cached account balances\<close>

definition cache_ok :: "LedgerDb \<Rightarrow> bool" where
  "cache_ok db \<longleftrightarrow> (\<forall>a \<in> set (ld_accounts db). \<bar>ac_currentBalance a - posted_balance db a\<bar> \<le> 1 / 100)"

lemma joined_filter: "filter Q (joined P db) = joined P (db\<lparr>ld_entries := filter Q (ld_entries db)\<rparr>)"
  by (simp add: joined_def find_txn_def conj_commute)

lemma posted_balance_appended:
  assumes "inj gen" "ids_ok gen db" "appended gen f t es db db'" "\<And>x. lt_id (f x) = lt_id x"
  shows "posted_balance db' a = signed (ac_normalBalance a) (filter (\<lambda>e. le_accountId e = ac_id a) (joined (posted \<circ> f) db))
    + (if posted (f t) then signed (ac_normalBalance a) (filter (\<lambda>e. le_accountId e = ac_id a) es) else 0)"
  by (simp add: posted_balance_def joined_appended [OF assms] signed_append)

lemma cache_ok_refreshed:
  assumes "inj gen" "ids_ok gen db" "appended gen f t es db db'" "\<And>x. lt_id (f x) = lt_id x"
    and "refreshed es db db'" "cache_ok db"
    and other: "\<And>e x. e \<in> set (ld_entries db) \<Longrightarrow> find_txn (le_transactionId e) db = Some x \<Longrightarrow>
       le_accountId e \<notin> le_accountId ` set es \<Longrightarrow> posted (f x) = posted x"
  shows "cache_ok db'"
  unfolding cache_ok_def
proof
  fix a assume a: "a \<in> set (ld_accounts db')"
  show "\<bar>ac_currentBalance a - posted_balance db' a\<bar> \<le> 1 / 100"
  proof (cases "ac_id a \<in> le_accountId ` set es")
    case True
    then show ?thesis using assms(5) [unfolded refreshed_def, rule_format, OF a] by simp
  next
    case False
    then have a0: "a \<in> set (ld_accounts db)" using assms(5) [unfolded refreshed_def, rule_format, OF a] by simp
    have "filter (\<lambda>e. le_accountId e = ac_id a) es = []" using False by (metis (mono_tags, lifting) filter_False image_eqI)
    moreover have "filter (\<lambda>e. le_accountId e = ac_id a) (joined (posted \<circ> f) db) = filter (\<lambda>e. le_accountId e = ac_id a) (joined posted db)"
      unfolding joined_def filter_filter by (rule filter_cong) (use other False in \<open>auto split: option.splits\<close>)
    ultimately have "posted_balance db' a = posted_balance db a"
      unfolding posted_balance_appended [OF assms(1-4)] by (simp add: posted_balance_def)
    then show ?thesis using assms(6) a0 by (simp add: cache_ok_def)
  qed
qed

lemma entries_of_own: "ids_ok gen db \<Longrightarrow> mset (entries_of i db) = mset (own_entries i db)"
proof -
  assume "ids_ok gen db"
  then have "le_accountId e \<in> ac_id ` set (ld_accounts db)" if "e \<in> set (ld_entries db)" for e
    using that by (auto simp: ids_ok_def)
  then have "filter (\<lambda>e. le_transactionId e = i \<and> le_accountId e \<in> ac_id ` set (ld_accounts db)) (ld_entries db) = own_entries i db"
    unfolding own_entries_def by (intro filter_cong) auto
  then show ?thesis by (simp add: entries_of_def)
qed

text \<open>The mirror's entries are on the accounts of the original's entries.\<close>

lemma reversed_entry:
  assumes "accounts_ok db" "entry_of_line (codes db) tid d (reversed_line D db o') e" "le_accountId o' \<in> ac_id ` set (ld_accounts db)"
  shows "le_accountId e = le_accountId o'"
proof -
  from assms(3) obtain b where b: "b \<in> set (ld_accounts db)" "ac_id b = le_accountId o'" by auto
  have "find (\<lambda>a. ac_id a = le_accountId o') (ld_accounts db) = Some b"
    using find_key_unique [of ac_id "ld_accounts db" b] b assms(1) by (simp add: accounts_ok_def)
  then have "(le_accountId e, ac_code b) \<in> codes db" using assms(2) by (simp add: entry_of_line_def reversed_line_def)
  then obtain c where c: "c \<in> set (ld_accounts db)" "ac_id c = le_accountId e" "ac_code c = ac_code b" by (auto simp: codes_def)
  then have "c = b" using accounts_ok_code [OF assms(1)] b(1) by blast
  then show ?thesis using b(2) c(2) by simp
qed

lemma reversed_accounts:
  assumes "reversed D gen o' t es db db'" "ledger_wf gen db"
  shows "map le_accountId es = map le_accountId (entries_of (lt_id o') db)"
proof (rule nth_equalityI)
  have l: "list_all2 (entry_of_line (codes db) (lt_id t) (lt_date t)) (map (reversed_line D db) (entries_of (lt_id o') db)) es"
    using assms(1) by (simp add: reversed_def)
  then show len: "length (map le_accountId es) = length (map le_accountId (entries_of (lt_id o') db))"
    by (simp add: list_all2_lengthD [OF l, symmetric])
  fix i assume i: "i < length (map le_accountId es)"
  let ?o = "entries_of (lt_id o') db ! i"
  have "entry_of_line (codes db) (lt_id t) (lt_date t) (reversed_line D db ?o) (es ! i)"
    using l i len by (auto simp: list_all2_conv_all_nth)
  moreover have "?o \<in> set (entries_of (lt_id o') db)" using i len by simp
  then have "le_accountId ?o \<in> ac_id ` set (ld_accounts db)" by (simp add: entries_of_def)
  ultimately show "map le_accountId es ! i = map le_accountId (entries_of (lt_id o') db) ! i"
    using reversed_entry [of db] assms(2) i len by (simp add: ledger_wf_def)
qed

lemma cache_ok_step:
  assumes "inj gen" "ledger_wf gen db" "cache_ok db" "ledger_step D gen mode Q db db'"
  shows "cache_ok db'"
  using ledger_step_forms [OF assms(1,2,4)]
proof (elim disjE exE conjE)
  assume s: "same_books db db'"
  then have "posted_balance db' a = posted_balance db a" for a
    by (intro posted_balance_cong) (simp_all add: same_books_def)
  then show ?thesis using s assms(3) by (simp add: cache_ok_def same_books_def)
next
  fix rq t es assume c: "created D gen rq t es db db'"
  then show ?thesis using cache_ok_refreshed [of gen db "\<lambda>x. x" t es db'] assms(1-3) by (simp add: created_def ledger_wf_def)
next
  fix o' t es assume c: "reversed D gen o' t es db db'"
  have w: "ids_ok gen db" using assms(2) by (simp add: ledger_wf_def)
  have "posted (marked (lt_id o') (lt_id t) x) = posted x"
    if e: "e \<in> set (ld_entries db)" "find_txn (le_transactionId e) db = Some x" "le_accountId e \<notin> le_accountId ` set es" for e x
  proof -
    have "le_transactionId e \<noteq> lt_id o'"
    proof
      assume "le_transactionId e = lt_id o'"
      then have "e \<in># mset (own_entries (lt_id o') db)" using e(1) by (simp add: own_entries_def)
      then have "e \<in> set (entries_of (lt_id o') db)" using entries_of_own [OF w] by (metis set_mset_mset)
      then show False using reversed_accounts [OF c assms(2)] e(3) by (metis image_eqI list.set_map)
    qed
    then show ?thesis using find_txn_Some [OF e(2)] by simp
  qed
  then show ?thesis using cache_ok_refreshed [of gen db "marked (lt_id o') (lt_id t)" t es db'] assms(1,3) w c
    by (simp add: reversed_def)
qed


subsection \<open>Amounts in cents\<close>

text \<open>The cents of a JavaScript number that holds an amount, and journals all of whose amounts do.\<close>

definition money_cents :: "jnum \<Rightarrow> int" where
  "money_cents x = (case x of Fin a \<Rightarrow> rne (100 * a) | _ \<Rightarrow> 0)"

definition in_cents :: "jnum \<Rightarrow> bool" where
  "in_cents x \<longleftrightarrow> x = Fin (cents (money_cents x))"

definition journal_in_cents :: "JournalLine list \<Rightarrow> bool" where
  "journal_in_cents ls \<longleftrightarrow> list_all (\<lambda>l. in_cents (jl_debitAmount l) \<and> in_cents (jl_creditAmount l)) ls
     \<and> sum_list (map (\<lambda>l. \<bar>money_cents (jl_debitAmount l)\<bar> + \<bar>money_cents (jl_creditAmount l)\<bar>) ls) \<le> 2 ^ 45"

lemma money_cents_cents [simp]: "\<bar>k\<bar> \<le> 2 ^ 47 \<Longrightarrow> money_cents (Fin (cents k)) = k"
proof -
  assume "\<bar>k\<bar> \<le> 2 ^ 47"
  then have "rne (100 * cents k) = k" using cents_err [of k] by (intro rne_near) linarith
  then show ?thesis by (simp add: money_cents_def)
qed

lemma in_cents_cents: "\<bar>k\<bar> \<le> 2 ^ 47 \<Longrightarrow> in_cents (Fin (cents k))"
  by (simp add: in_cents_def)

lemma numeric_18_6_cents: "\<bar>k\<bar> \<le> 2 ^ 46 \<Longrightarrow> numeric_18_6 (of_int k / 100) = Inr (of_int k / 100)"
proof -
  assume k: "\<bar>k\<bar> \<le> 2 ^ 46"
  then have "\<bar>of_int k\<bar> \<le> (2 ^ 46 :: rat)" by (metis of_int_abs of_int_le_iff of_int_numeral of_int_power)
  then show ?thesis using pg_round_cents [of 6 k] by (simp add: numeric_18_6_def Let_def)
qed

lemma num_column_cents: "\<bar>k\<bar> \<le> 2 ^ 46 \<Longrightarrow> num_column (Fin (cents k)) = Inr (of_int k / 100)"
  by (simp add: num_column_def numeric_18_6_cents)

lemma money_add_cents:
  assumes D: "decimal_exact D v" and "v t = of_int s / 100" "\<bar>s\<bar> \<le> 2 ^ 46" "\<bar>k\<bar> \<le> 2 ^ 46"
  shows "v (money_add D [MI_dec t, MI_num (Fin (cents k))]) = of_int (s + k) / 100"
proof -
  have z: "v (money_zero D) = 0" using dec_num [OF D] by (simp add: money_zero_def js_decimal_def)
  have "sig20 (of_int s / 100)" by (rule sig20_cents) (use assms(3) in simp)
  then have 1: "v (dl_plus D (money_zero D) t) = of_int s / 100"
    using dec_plus [OF D, of "money_zero D" t] unfolding z add_0 assms(2) by blast
  have 2: "v (dl_of_num D (Fin (cents k))) = of_int k / 100" unfolding dec_num [OF D] by (rule js_decimal_cents [OF assms(4)])
  have 3: "of_int s / 100 + of_int k / 100 = (of_int (s + k) / 100 :: rat)" by (simp add: add_divide_distrib)
  have "sig20 (of_int (s + k) / 100)" by (rule sig20_cents) (use assms(3,4) in simp)
  then have "v (dl_plus D (dl_plus D (money_zero D) t) (dl_of_num D (Fin (cents k)))) = of_int (s + k) / 100"
    using dec_plus [OF D, of "dl_plus D (money_zero D) t" "dl_of_num D (Fin (cents k))"] unfolding 1 2 3 by blast
  then show ?thesis by (simp add: money_add_def)
qed

lemma decimal_total:
  assumes D: "decimal_exact D v"
  shows "\<bar>s\<bar> + sum_list (map (\<lambda>l. \<bar>g l\<bar>) ls) \<le> 2 ^ 46 \<Longrightarrow> v t = of_int s / 100 \<Longrightarrow> (\<And>l. l \<in> set ls \<Longrightarrow> f l = Fin (cents (g l))) \<Longrightarrow>
    v (foldl (\<lambda>t l. money_add D [MI_dec t, MI_num (f l)]) t ls) = of_int (s + sum_list (map g ls)) / 100"
proof (induction ls arbitrary: s t)
  case (Cons l ls)
  have "0 \<le> sum_list (map (\<lambda>l. \<bar>g l\<bar>) ls)" by (rule sum_list_nonneg) auto
  with Cons.prems(1) have b: "\<bar>s\<bar> \<le> 2 ^ 46" "\<bar>g l\<bar> \<le> 2 ^ 46" "\<bar>s + g l\<bar> + sum_list (map (\<lambda>l. \<bar>g l\<bar>) ls) \<le> 2 ^ 46"
    by simp_all
  from Cons.IH [OF b(3) money_add_cents [OF D Cons.prems(2) b(1,2)]] Cons.prems(3) show ?case by (simp add: add.assoc)
qed simp

definition total_debit :: "JournalLine list \<Rightarrow> int" where
  "total_debit ls = sum_list (map (\<lambda>l. money_cents (jl_debitAmount l)) ls)"

definition total_credit :: "JournalLine list \<Rightarrow> int" where
  "total_credit ls = sum_list (map (\<lambda>l. money_cents (jl_creditAmount l)) ls)"

lemma abs_sum_list_le: "\<bar>sum_list (map g xs)\<bar> \<le> sum_list (map (\<lambda>x. \<bar>g x\<bar>) xs)" for g :: "'a \<Rightarrow> int"
  by (induction xs) auto

lemma journal_in_cents_bounds:
  assumes "journal_in_cents ls"
  shows "l \<in> set ls \<Longrightarrow> jl_debitAmount l = Fin (cents (money_cents (jl_debitAmount l))) \<and> \<bar>money_cents (jl_debitAmount l)\<bar> \<le> 2 ^ 45
      \<and> jl_creditAmount l = Fin (cents (money_cents (jl_creditAmount l))) \<and> \<bar>money_cents (jl_creditAmount l)\<bar> \<le> 2 ^ 45"
    and "sum_list (map (\<lambda>l. \<bar>money_cents (jl_debitAmount l)\<bar>) ls) \<le> 2 ^ 45"
    and "sum_list (map (\<lambda>l. \<bar>money_cents (jl_creditAmount l)\<bar>) ls) \<le> 2 ^ 45"
proof -
  let ?d = "\<lambda>l. money_cents (jl_debitAmount l)" and ?c = "\<lambda>l. money_cents (jl_creditAmount l)"
  have b: "sum_list (map (\<lambda>l. \<bar>?d l\<bar> + \<bar>?c l\<bar>) ls) \<le> 2 ^ 45" using assms by (simp add: journal_in_cents_def)
  have s: "sum_list (map (\<lambda>l. \<bar>?d l\<bar> + \<bar>?c l\<bar>) ls) = sum_list (map (\<lambda>l. \<bar>?d l\<bar>) ls) + sum_list (map (\<lambda>l. \<bar>?c l\<bar>) ls)"
    by (rule sum_list_addf)
  have n: "0 \<le> sum_list (map (\<lambda>l. \<bar>?d l\<bar>) ls)" "0 \<le> sum_list (map (\<lambda>l. \<bar>?c l\<bar>) ls)" by (rule sum_list_nonneg; auto)+
  show "sum_list (map (\<lambda>l. \<bar>?d l\<bar>) ls) \<le> 2 ^ 45" "sum_list (map (\<lambda>l. \<bar>?c l\<bar>) ls) \<le> 2 ^ 45" using b s n by linarith+
  assume l: "l \<in> set ls"
  have "\<bar>?d l\<bar> + \<bar>?c l\<bar> \<le> sum_list (map (\<lambda>l. \<bar>?d l\<bar> + \<bar>?c l\<bar>) ls)" by (rule member_le_sum_list) (use l in auto)
  then have "\<bar>?d l\<bar> \<le> 2 ^ 45 \<and> \<bar>?c l\<bar> \<le> 2 ^ 45" using b by linarith
  then show "jl_debitAmount l = Fin (cents (?d l)) \<and> \<bar>?d l\<bar> \<le> 2 ^ 45 \<and> jl_creditAmount l = Fin (cents (?c l)) \<and> \<bar>?c l\<bar> \<le> 2 ^ 45"
    using assms l by (simp add: journal_in_cents_def in_cents_def list_all_iff)
qed

lemma tenth_cent: "v (dl_of_num D (lit (1 / 1000))) = 1 / 1000" if "decimal_exact D v"
proof -
  have "lit (1 / 1000) = Fin (1152921504606847 / 1152921504606846976)" by code_simp
  moreover have "js_decimal (1152921504606847 / 1152921504606846976) = 1 / 1000" by code_simp
  ultimately show ?thesis by (simp only: dec_num [OF that])
qed

text \<open>The double entry check on a journal in cents is exact equality of the totals.\<close>

lemma validateDoubleEntry_cents:
  assumes D: "decimal_exact D v" and j: "journal_in_cents ls"
  shows "de_isValid (validateDoubleEntry D ls) \<longleftrightarrow> total_debit ls = total_credit ls"
    "de_totalDebits (validateDoubleEntry D ls) = Fin (cents (total_debit ls))"
    "de_totalCredits (validateDoubleEntry D ls) = Fin (cents (total_credit ls))"
    "\<bar>total_debit ls\<bar> \<le> 2 ^ 45" "\<bar>total_credit ls\<bar> \<le> 2 ^ 45"
proof -
  note b = journal_in_cents_bounds [OF j]
  have z: "v (money_zero D) = of_int 0 / 100" using dec_num [OF D] by (simp add: money_zero_def js_decimal_def)
  let ?d = "foldl (\<lambda>t l. money_add D [MI_dec t, MI_num (jl_debitAmount l)]) (money_zero D) ls"
  let ?c = "foldl (\<lambda>t l. money_add D [MI_dec t, MI_num (jl_creditAmount l)]) (money_zero D) ls"
  have vd: "v ?d = of_int (total_debit ls) / 100"
    using decimal_total [OF D, of 0 "\<lambda>l. money_cents (jl_debitAmount l)" ls "money_zero D" jl_debitAmount] b(1,2) z
    by (auto simp: total_debit_def)
  have vc: "v ?c = of_int (total_credit ls) / 100"
    using decimal_total [OF D, of 0 "\<lambda>l. money_cents (jl_creditAmount l)" ls "money_zero D" jl_creditAmount] b(1,3) z
    by (auto simp: total_credit_def)
  show bd: "\<bar>total_debit ls\<bar> \<le> 2 ^ 45" "\<bar>total_credit ls\<bar> \<le> 2 ^ 45"
    using abs_sum_list_le [of "\<lambda>l. money_cents (jl_debitAmount l)" ls] abs_sum_list_le [of "\<lambda>l. money_cents (jl_creditAmount l)" ls] b(2,3)
    unfolding total_debit_def total_credit_def by linarith+
  show "de_totalDebits (validateDoubleEntry D ls) = Fin (cents (total_debit ls))"
    "de_totalCredits (validateDoubleEntry D ls) = Fin (cents (total_credit ls))"
    using js_round_rat_cents [of "total_debit ls"] js_round_rat_cents [of "total_credit ls"] bd
    unfolding validateDoubleEntry_def Let_def DoubleEntryCheck.simps dec_toNumber [OF D] vd vc by simp_all
  have e: "of_int (total_debit ls) / 100 - of_int (total_credit ls) / 100 = (of_int (total_debit ls - total_credit ls) / 100 :: rat)"
    by (simp add: diff_divide_distrib)
  have "sig20 (of_int (total_debit ls - total_credit ls) / 100)" by (rule sig20_cents) (use bd in simp)
  then have "v (dl_minus D ?d ?c) = of_int (total_debit ls - total_credit ls) / 100"
    using dec_minus [OF D, of ?d ?c] unfolding vd vc e by blast
  then have diff: "v (money_abs D (MI_dec (money_subtract D (MI_dec ?d) [MI_dec ?c]))) = \<bar>of_int (total_debit ls - total_credit ls) / 100\<bar>"
    by (simp add: money_abs_def money_subtract_def dec_abs [OF D])
  have "de_isValid (validateDoubleEntry D ls) \<longleftrightarrow> \<bar>of_int (total_debit ls - total_credit ls) / 100\<bar> < (1 / 1000 :: rat)"
    unfolding validateDoubleEntry_def Let_def DoubleEntryCheck.simps dec_lt [OF D] diff tenth_cent [OF D] ..
  also have "\<dots> \<longleftrightarrow> total_debit ls = total_credit ls"
  proof
    assume "\<bar>of_int (total_debit ls - total_credit ls) / 100\<bar> < (1 / 1000 :: rat)"
    moreover have "\<bar>x / 100\<bar> < 1 / 1000 \<Longrightarrow> \<bar>x\<bar> < 1" for x :: rat by (simp add: abs_divide)
    ultimately have "\<bar>of_int (total_debit ls - total_credit ls)\<bar> < (1 :: rat)" by blast
    then show "total_debit ls = total_credit ls" by (metis of_int_abs of_int_less_1_iff zabs_less_one_iff eq_iff_diff_eq_0)
  qed simp
  finally show "de_isValid (validateDoubleEntry D ls) \<longleftrightarrow> total_debit ls = total_credit ls" .
qed


subsection \<open>Every transaction balances\<close>

text \<open>Amounts of the tables in cents.\<close>

definition rat_cents :: "rat \<Rightarrow> bool" where
  "rat_cents q \<longleftrightarrow> q = of_int \<lfloor>q * 100\<rfloor> / 100"

lemma rat_cents_iff: "rat_cents q \<longleftrightarrow> (\<exists>k. q = of_int k / 100)"
  by (auto simp: rat_cents_def)

definition entries_balanced :: "LedgerEntry list \<Rightarrow> bool" where
  "entries_balanced es \<longleftrightarrow> sum_list (map le_debit es) = sum_list (map le_credit es)
     \<and> (\<forall>e \<in> set es. rat_cents (le_debit e) \<and> rat_cents (le_credit e))
     \<and> sum_list (map (\<lambda>e. \<bar>le_debit e\<bar> + \<bar>le_credit e\<bar>) es) \<le> 2 ^ 45 / 100"

definition books_ok :: "LedgerDb \<Rightarrow> bool" where
  "books_ok db \<longleftrightarrow> (\<forall>t \<in> set (ld_transactions db). entries_balanced (own_entries (lt_id t) db))"

lemma entries_balanced_mset: "mset xs = mset ys \<Longrightarrow> entries_balanced xs = entries_balanced ys"
proof -
  assume m: "mset xs = mset ys"
  then have s: "sum_list (map f xs) = sum_list (map f ys)" for f :: "LedgerEntry \<Rightarrow> rat"
    by (metis mset_map sum_mset_sum_list)
  show ?thesis using s [of le_debit] s [of le_credit] s [of "\<lambda>e. \<bar>le_debit e\<bar> + \<bar>le_credit e\<bar>"] mset_eq_setD [OF m]
    by (simp add: entries_balanced_def)
qed

text \<open>The entries of a journal in cents hold exactly its cents.\<close>

lemma cents_entries:
  assumes "list_all2 (entry_of_line C tid d) ls es" "journal_in_cents ls"
  shows "map le_debit es = map (\<lambda>l. of_int (money_cents (jl_debitAmount l)) / 100) ls"
    "map le_credit es = map (\<lambda>l. of_int (money_cents (jl_creditAmount l)) / 100) ls"
proof -
  have e: "le_debit e = of_int (money_cents (jl_debitAmount l)) / 100 \<and> le_credit e = of_int (money_cents (jl_creditAmount l)) / 100"
    if "entry_of_line C tid d l e" "l \<in> set ls" for l e
  proof -
    have b: "jl_debitAmount l = Fin (cents (money_cents (jl_debitAmount l)))" "\<bar>money_cents (jl_debitAmount l)\<bar> \<le> 2 ^ 46"
      "jl_creditAmount l = Fin (cents (money_cents (jl_creditAmount l)))" "\<bar>money_cents (jl_creditAmount l)\<bar> \<le> 2 ^ 46"
      using journal_in_cents_bounds(1) [OF assms(2) that(2)] by simp_all
    have "num_column (jl_debitAmount l) = Inr (of_int (money_cents (jl_debitAmount l)) / 100)"
      by (subst b(1)) (rule num_column_cents [OF b(2)])
    moreover have "num_column (jl_creditAmount l) = Inr (of_int (money_cents (jl_creditAmount l)) / 100)"
      by (subst b(3)) (rule num_column_cents [OF b(4)])
    ultimately show ?thesis using that(1) by (simp add: entry_of_line_def)
  qed
  have len: "length es = length ls" using assms(1) by (metis list_all2_lengthD)
  have "\<forall>i < length ls. le_debit (es ! i) = of_int (money_cents (jl_debitAmount (ls ! i))) / 100
     \<and> le_credit (es ! i) = of_int (money_cents (jl_creditAmount (ls ! i))) / 100"
    using assms(1) e by (meson list_all2_nthD nth_mem)
  then show "map le_debit es = map (\<lambda>l. of_int (money_cents (jl_debitAmount l)) / 100) ls"
    "map le_credit es = map (\<lambda>l. of_int (money_cents (jl_creditAmount l)) / 100) ls"
    using len by (auto intro!: nth_equalityI)
qed

lemma sum_list_of_int: "sum_list (map (\<lambda>x. of_int (f x)) xs) = (of_int (sum_list (map f xs)) :: rat)"
  by (induction xs) auto

lemma sum_list_div: "sum_list (map (\<lambda>x. f x / c) xs) = sum_list (map f xs) / (c :: rat)"
  by (induction xs) (auto simp: add_divide_distrib)

lemma cents_entries_balanced:
  assumes "list_all2 (entry_of_line C tid d) ls es" "journal_in_cents ls" "total_debit ls = total_credit ls"
  shows "entries_balanced es"
proof -
  note m = cents_entries [OF assms(1,2)]
  have s: "sum_list (map le_debit es) = of_int (total_debit ls) / 100" "sum_list (map le_credit es) = of_int (total_credit ls) / 100"
    unfolding m total_debit_def total_credit_def by (simp_all only: sum_list_div sum_list_of_int)
  have c: "rat_cents (le_debit e) \<and> rat_cents (le_credit e)" if "e \<in> set es" for e
  proof -
    have "le_debit e \<in> set (map le_debit es)" "le_credit e \<in> set (map le_credit es)" using that by simp_all
    then show ?thesis unfolding m rat_cents_iff by auto
  qed
  have a: "map (\<lambda>e. \<bar>le_debit e\<bar>) es = map (\<lambda>l. of_int \<bar>money_cents (jl_debitAmount l)\<bar> / 100) ls"
      "map (\<lambda>e. \<bar>le_credit e\<bar>) es = map (\<lambda>l. of_int \<bar>money_cents (jl_creditAmount l)\<bar> / 100) ls"
    using arg_cong [OF m(1), of "map abs"] arg_cong [OF m(2), of "map abs"] by (simp_all add: comp_def)
  have "sum_list (map (\<lambda>e. \<bar>le_debit e\<bar> + \<bar>le_credit e\<bar>) es)
      = of_int (sum_list (map (\<lambda>l. \<bar>money_cents (jl_debitAmount l)\<bar>) ls)) / 100 + of_int (sum_list (map (\<lambda>l. \<bar>money_cents (jl_creditAmount l)\<bar>) ls)) / 100"
    unfolding sum_list_addf a by (simp only: sum_list_div sum_list_of_int)
  also have "\<dots> = of_int (sum_list (map (\<lambda>l. \<bar>money_cents (jl_debitAmount l)\<bar> + \<bar>money_cents (jl_creditAmount l)\<bar>) ls)) / 100"
    by (simp add: sum_list_addf add_divide_distrib)
  also have "\<dots> \<le> of_int (2 ^ 45) / 100"
  proof (rule divide_right_mono)
    show "rat_of_int (sum_list (map (\<lambda>l. \<bar>money_cents (jl_debitAmount l)\<bar> + \<bar>money_cents (jl_creditAmount l)\<bar>) ls)) \<le> of_int (2 ^ 45)"
      using assms(2) unfolding journal_in_cents_def of_int_le_iff by blast
  qed simp
  finally show ?thesis using s c assms(3) by (simp add: entries_balanced_def)
qed

text \<open>The reversed lines are the mirror of the entries.\<close>

lemma reversed_line_cents:
  assumes D: "decimal_exact D v" and "rat_cents (le_debit e)" "rat_cents (le_credit e)"
    and "\<bar>le_debit e\<bar> \<le> 2 ^ 45 / 100" "\<bar>le_credit e\<bar> \<le> 2 ^ 45 / 100"
  shows "in_cents (jl_debitAmount (reversed_line D db e))" "in_cents (jl_creditAmount (reversed_line D db e))"
    "of_int (money_cents (jl_debitAmount (reversed_line D db e))) / 100 = le_credit e"
    "of_int (money_cents (jl_creditAmount (reversed_line D db e))) / 100 = le_debit e"
proof -
  have n: "dl_toNumber D (money_parse D (MI_db (of_int k / 100))) = Fin (cents k)" if "\<bar>of_int k / 100\<bar> \<le> (2 ^ 45 / 100 :: rat)" for k
  proof -
    have "\<bar>of_int k\<bar> \<le> (of_int (2 ^ 45) :: rat)" using that by (simp add: abs_divide divide_le_cancel)
    then have "\<bar>k\<bar> \<le> 2 ^ 45" by (simp only: of_int_abs [symmetric] of_int_le_iff)
    then have "v (dl_of_db D (of_int k / 100)) = of_int k / 100" by (intro dec_db [OF D] sig20_cents) simp
    moreover have "js_round_rat (of_int k / 100) = Fin (cents k)" using \<open>\<bar>k\<bar> \<le> 2 ^ 45\<close> by (intro js_round_rat_cents) simp
    ultimately show ?thesis unfolding money_parse.simps dec_toNumber [OF D] by (simp only:)
  qed
  have le: "\<bar>of_int k / 100\<bar> \<le> (2 ^ 45 / 100 :: rat) \<Longrightarrow> \<bar>k\<bar> \<le> 2 ^ 47" for k
  proof -
    assume "\<bar>of_int k / 100\<bar> \<le> (2 ^ 45 / 100 :: rat)"
    then have "\<bar>of_int k\<bar> \<le> (of_int (2 ^ 45) :: rat)" by (simp add: abs_divide divide_le_cancel)
    then have "\<bar>k\<bar> \<le> 2 ^ 45" by (simp only: of_int_abs [symmetric] of_int_le_iff)
    then show ?thesis by simp
  qed
  obtain d where d: "le_debit e = of_int d / 100" using assms(2) by (auto simp: rat_cents_iff)
  obtain c where c: "le_credit e = of_int c / 100" using assms(3) by (auto simp: rat_cents_iff)
  note nd = n [OF assms(4) [unfolded d]] and nc = n [OF assms(5) [unfolded c]]
  show "in_cents (jl_debitAmount (reversed_line D db e))" "in_cents (jl_creditAmount (reversed_line D db e))"
    "of_int (money_cents (jl_debitAmount (reversed_line D db e))) / 100 = le_credit e"
    "of_int (money_cents (jl_creditAmount (reversed_line D db e))) / 100 = le_debit e"
    unfolding reversed_line_def JournalLine.simps d c nd nc
    using le [OF assms(4) [unfolded d]] le [OF assms(5) [unfolded c]] by (simp_all add: in_cents_cents)
qed


lemma member_le_abs_sum: "e \<in> set es \<Longrightarrow> \<bar>f e\<bar> + \<bar>g e\<bar> \<le> sum_list (map (\<lambda>e. \<bar>f e\<bar> + \<bar>g e\<bar>) es)" for f g :: "'a \<Rightarrow> rat"
proof (induction es)
  case (Cons x es)
  have "0 \<le> sum_list (map (\<lambda>e. \<bar>f e\<bar> + \<bar>g e\<bar>) es)" by (rule sum_list_nonneg) auto
  with Cons show ?case by auto
qed simp

lemma reversed_lines_cents:
  assumes D: "decimal_exact D v" and bal: "entries_balanced es"
  shows "journal_in_cents (map (reversed_line D db) es)"
    "total_debit (map (reversed_line D db) es) = total_credit (map (reversed_line D db) es)"
    "map (\<lambda>l. of_int (money_cents (jl_debitAmount l)) / 100) (map (reversed_line D db) es) = map le_credit es"
    "map (\<lambda>l. of_int (money_cents (jl_creditAmount l)) / 100) (map (reversed_line D db) es) = map le_debit es"
proof -
  let ?r = "reversed_line D db"
  have b: "rat_cents (le_debit e)" "rat_cents (le_credit e)" "\<bar>le_debit e\<bar> \<le> 2 ^ 45 / 100" "\<bar>le_credit e\<bar> \<le> 2 ^ 45 / 100" if "e \<in> set es" for e
    using bal that member_le_abs_sum [OF that, of le_debit le_credit] unfolding entries_balanced_def by (auto simp: abs_le_iff)
  note r = reversed_line_cents [OF D b]
  show m: "map (\<lambda>l. of_int (money_cents (jl_debitAmount l)) / 100) (map ?r es) = map le_credit es"
    "map (\<lambda>l. of_int (money_cents (jl_creditAmount l)) / 100) (map ?r es) = map le_debit es"
    using r(3,4) by simp_all
  have td: "of_int (total_debit (map ?r es)) / 100 = sum_list (map le_credit es)"
    unfolding m(1) [symmetric] total_debit_def by (simp only: sum_list_div sum_list_of_int)
  have tc: "of_int (total_credit (map ?r es)) / 100 = sum_list (map le_debit es)"
    unfolding m(2) [symmetric] total_credit_def by (simp only: sum_list_div sum_list_of_int)
  have "of_int (total_debit (map ?r es)) / 100 = (of_int (total_credit (map ?r es)) / 100 :: rat)"
    unfolding td tc using bal by (simp add: entries_balanced_def)
  then show "total_debit (map ?r es) = total_credit (map ?r es)" by simp
  have ab: "of_int \<bar>k\<bar> / 100 = \<bar>of_int k / 100 :: rat\<bar>" for k by (simp add: abs_divide)
  have "of_int (\<bar>money_cents (jl_debitAmount (?r e))\<bar> + \<bar>money_cents (jl_creditAmount (?r e))\<bar>) / 100 = \<bar>le_debit e\<bar> + \<bar>le_credit e\<bar>"
    if "e \<in> set es" for e
    unfolding of_int_add add_divide_distrib ab r(3) [OF that that that that] r(4) [OF that that that that] by (rule add.commute)
  then have "map (\<lambda>l. of_int (\<bar>money_cents (jl_debitAmount l)\<bar> + \<bar>money_cents (jl_creditAmount l)\<bar>) / 100) (map ?r es)
      = map (\<lambda>e. \<bar>le_debit e\<bar> + \<bar>le_credit e\<bar>) es" by simp
  then have "of_int (sum_list (map (\<lambda>l. \<bar>money_cents (jl_debitAmount l)\<bar> + \<bar>money_cents (jl_creditAmount l)\<bar>) (map ?r es))) / 100
      = sum_list (map (\<lambda>e. \<bar>le_debit e\<bar> + \<bar>le_credit e\<bar>) es)"
    by (simp only: sum_list_div [symmetric] sum_list_of_int [symmetric])
  also have "\<dots> \<le> of_int (2 ^ 45) / 100" using bal by (simp add: entries_balanced_def)
  finally have "sum_list (map (\<lambda>l. \<bar>money_cents (jl_debitAmount l)\<bar> + \<bar>money_cents (jl_creditAmount l)\<bar>) (map ?r es)) \<le> 2 ^ 45"
    by (simp only: divide_le_cancel of_int_le_iff)
  then show "journal_in_cents (map ?r es)" using r(1,2) unfolding journal_in_cents_def by (simp add: list_all_iff)
qed

lemma own_entries_appended:
  assumes "inj gen" "ids_ok gen db" "appended gen f t es db db'"
  shows "own_entries i db' = (if i = lt_id t then es else own_entries i db)"
proof -
  have "own_entries (lt_id t) db = []"
    using ids_ok_no_entries [OF assms(1,2)] appended_id [OF assms(3)] by (simp add: own_entries_def)
  then show ?thesis using appended_own(1) [OF assms(3)]
    by (auto simp: own_entries_def appended_entries [OF assms(3)] filter_id_conv filter_empty_conv)
qed

lemma books_ok_appended:
  assumes "inj gen" "ids_ok gen db" "appended gen f t es db db'" "\<And>x. lt_id (f x) = lt_id x" "books_ok db" "entries_balanced es"
  shows "books_ok db'"
  using assms(4-6) by (auto simp: books_ok_def own_entries_appended [OF assms(1-3)] appended_txns [OF assms(3)])

lemma books_ok_step:
  assumes D: "decimal_exact D v" and gen: "inj gen" and wf: "ledger_wf gen db" and ok: "books_ok db"
    and step: "ledger_step D gen mode (\<lambda>rq. journal_in_cents (je_lines rq)) db db'"
  shows "books_ok db'"
  using ledger_step_forms [OF gen wf step]
proof (elim disjE exE conjE)
  assume "same_books db db'"
  then show ?thesis using ok by (simp add: same_books_def books_ok_def own_entries_def)
next
  fix rq t es assume j: "journal_in_cents (je_lines rq)" and c: "created D gen rq t es db db'"
  then have "total_debit (je_lines rq) = total_credit (je_lines rq)"
    using validateDoubleEntry_cents(1) [OF D j] by (simp add: created_def)
  then have "entries_balanced es" using c cents_entries_balanced [OF _ j] by (auto simp: created_def)
  then show ?thesis using books_ok_appended [OF gen, of db "\<lambda>x. x" t es db'] wf ok c by (simp add: created_def ledger_wf_def)
next
  fix o' t es assume c: "reversed D gen o' t es db db'"
  have w: "ids_ok gen db" using wf by (simp add: ledger_wf_def)
  have "entries_balanced (entries_of (lt_id o') db)"
    using c ok entries_balanced_mset [OF entries_of_own [OF w]] by (auto simp: books_ok_def reversed_def)
  from reversed_lines_cents [OF D this] c have "entries_balanced es"
    using cents_entries_balanced unfolding reversed_def by blast
  then show ?thesis using books_ok_appended [OF gen w, of "marked (lt_id o') (lt_id t)" t es db'] ok c by (simp add: reversed_def)
qed

text \<open>Whatever set of transactions is summed, debits equal credits.\<close>

lemma books_balance:
  assumes "ids_ok gen db" "books_ok db"
  shows "sum_list (map le_debit (joined P db)) = sum_list (map le_credit (joined P db))"
proof -
  have d: "distinct (map lt_id (ld_transactions db))" using assms(1) by (simp add: ids_ok_def)
  have "map (\<lambda>t. sum_list (map le_debit (own_entries (lt_id t) db))) (filter P (ld_transactions db))
      = map (\<lambda>t. sum_list (map le_credit (own_entries (lt_id t) db))) (filter P (ld_transactions db))"
    using assms(2) by (simp add: books_ok_def entries_balanced_def)
  then show ?thesis by (simp only: sum_joined [OF d])
qed

subsection \<open>The abstract ledger\<close>

text \<open>A posting is an identifier, a date and amounts on accounts. The abstract ledger is the list of the
  postings in force; it is extended by posting and shrunk by voiding.\<close>

type_synonym posting = "string \<times> string \<times> (string \<times> rat \<times> rat) list"

definition amounts :: "LedgerEntry list \<Rightarrow> (string \<times> rat \<times> rat) list" where
  "amounts es = map (\<lambda>e. (le_accountId e, le_debit e, le_credit e)) es"

definition postings :: "LedgerDb \<Rightarrow> posting list" where
  "postings db = map (\<lambda>t. (lt_id t, take 10 (lt_date t), amounts (own_entries (lt_id t) db))) (live db)"

definition post :: "posting \<Rightarrow> posting list \<Rightarrow> posting list" where
  "post p L = L @ [p]"

definition void :: "string \<Rightarrow> posting list \<Rightarrow> posting list" where
  "void i L = filter (\<lambda>p. fst p \<noteq> i) L"

definition balanced_posting :: "posting \<Rightarrow> bool" where
  "balanced_posting p \<longleftrightarrow> sum_list (map (fst \<circ> snd) (snd (snd p))) = sum_list (map (snd \<circ> snd) (snd (snd p)))"

text \<open>Debits and credits of an account up to a date.\<close>

definition debit_total :: "string option \<Rightarrow> string \<Rightarrow> posting list \<Rightarrow> rat" where
  "debit_total asOf a L = sum_list (map (\<lambda>(i, d, xs). sum_list (map (fst \<circ> snd) (filter (\<lambda>x. fst x = a) xs)))
     (filter (\<lambda>(i, d, xs). case asOf of None \<Rightarrow> True | Some e \<Rightarrow> d \<le> e) L))"

definition credit_total :: "string option \<Rightarrow> string \<Rightarrow> posting list \<Rightarrow> rat" where
  "credit_total asOf a L = sum_list (map (\<lambda>(i, d, xs). sum_list (map (snd \<circ> snd) (filter (\<lambda>x. fst x = a) xs)))
     (filter (\<lambda>(i, d, xs). case asOf of None \<Rightarrow> True | Some e \<Rightarrow> d \<le> e) L))"

lemma live_not_fresh:
  assumes "inj gen" "ids_ok gen db" "appended gen f t es db db'" "x \<in> set (live db)"
  shows "lt_id x \<noteq> lt_id t"
proof -
  have "x \<in> set (ld_transactions db)" using assms(4) by (simp add: live_def)
  then show ?thesis using ids_ok_fresh [OF assms(1,2)] appended_id [OF assms(3)] by (metis image_eqI)
qed

lemma postings_created:
  assumes "inj gen" "ledger_wf gen db" "created D gen rq t es db db'"
  shows "postings db' = post (lt_id t, take 10 (lt_date t), amounts es) (postings db)"
proof -
  have a: "appended gen (\<lambda>x. x) t es db db'" and w: "ids_ok gen db" "links_ok db"
    using assms(2,3) by (simp_all add: created_def ledger_wf_def)
  have l: "live db' = live db @ [t]" using create_links(2) [OF assms(1) w a] assms(3) by (simp add: created_def)
  have "lt_id x \<noteq> lt_id t" if "x \<in> set (live db)" for x
    using that by (rule live_not_fresh [OF assms(1) w(1) a])
  then show ?thesis by (simp add: postings_def post_def l own_entries_appended [OF assms(1) w(1) a])
qed

lemma postings_reversed:
  assumes "inj gen" "ledger_wf gen db" "reversed D gen o' t es db db'"
  shows "postings db' = void (lt_id o') (postings db)"
proof -
  have a: "appended gen (marked (lt_id o') (lt_id t)) t es db db'" and w: "ids_ok gen db" "links_ok db"
    using assms(2,3) by (simp_all add: reversed_def ledger_wf_def)
  have l: "live db' = filter (\<lambda>x. lt_id x \<noteq> lt_id o') (live db)"
    using reverse_links(2) [OF assms(1) w a] assms(3) by (simp add: reversed_def)
  have "lt_id x \<noteq> lt_id t" if "x \<in> set (live db)" for x
    using that by (rule live_not_fresh [OF assms(1) w(1) a])
  then show ?thesis by (auto simp: postings_def void_def l own_entries_appended [OF assms(1) w(1) a] filter_map comp_def)
qed

text \<open>The readers see the abstract ledger.\<close>

lemma amounts_sums:
  "sum_list (map (fst \<circ> snd) (filter (\<lambda>x. fst x = a) (amounts es))) = sum_list (map le_debit (filter (\<lambda>e. le_accountId e = a) es))"
  "sum_list (map (snd \<circ> snd) (filter (\<lambda>x. fst x = a) (amounts es))) = sum_list (map le_credit (filter (\<lambda>e. le_accountId e = a) es))"
  by (simp_all add: amounts_def filter_map comp_def)

lemma posted_totals:
  assumes "ids_ok gen db"
  shows "sum_list (map le_debit (postedLedgerBalance asOf a db)) = debit_total asOf a (postings db)"
    "sum_list (map le_credit (postedLedgerBalance asOf a db)) = credit_total asOf a (postings db)"
proof -
  let ?P = "\<lambda>t. net_active db t \<and> (case asOf of None \<Rightarrow> True | Some d \<Rightarrow> take 10 (lt_date t) \<le> d)"
  have d: "distinct (map lt_id (ld_transactions db))" using assms by (simp add: ids_ok_def)
  have sum: "sum_list (map f (postedLedgerBalance asOf a db))
      = sum_list (map (\<lambda>t. sum_list (map f (filter (\<lambda>e. le_accountId e = a) (own_entries (lt_id t) db)))) (filter ?P (ld_transactions db)))"
    for f :: "LedgerEntry \<Rightarrow> rat"
    unfolding postedLedgerBalance_def sum_filter_if sum_joined [OF d] ..
  have l: "filter ?P (ld_transactions db) = filter (\<lambda>t. case asOf of None \<Rightarrow> True | Some d \<Rightarrow> take 10 (lt_date t) \<le> d) (live db)"
    by (simp add: live_def conj_commute)
  show "sum_list (map le_debit (postedLedgerBalance asOf a db)) = debit_total asOf a (postings db)"
    "sum_list (map le_credit (postedLedgerBalance asOf a db)) = credit_total asOf a (postings db)"
    unfolding sum l debit_total_def credit_total_def postings_def
    by (cases asOf; simp add: filter_map comp_def split_def amounts_sums [unfolded comp_def])+
qed

end
