(* ===== verification/LedgerSample.thy ===== *)
theory LedgerSample imports LedgerBooks
begin

section \<open>A ledger with one journal\<close>

text \<open>
  Concrete tables on which the ledger runs: a journal of 100.50 is posted and then reversed. The
  results are computed from the definitions; the theorems on the ledger are applied here.
\<close>

definition acct_sample_gen :: "nat \<Rightarrow> string" where
  "acct_sample_gen n = replicate n CHR ''i''"

definition acct_sample_account :: "string \<Rightarrow> string \<Rightarrow> NormalBalance \<Rightarrow> rat \<Rightarrow> Account" where
  "acct_sample_account i c nb b = \<lparr>ac_id = i, ac_code = c, ac_normalBalance = nb, ac_isActive = True, ac_allowManualPosting = None,
     ac_allowedSources = None, ac_systemAccountTag = None, ac_currentBalance = b\<rparr>"

definition acct_sample_periods :: "FinancialPeriod list" where
  "acct_sample_periods =
    [\<lparr>fp_id = ''p1'', fp_year = 2025, fp_month = 1, fp_start = ''2025-01-01'', fp_end = ''2025-01-31'', fp_status = PERIOD_CLOSED\<rparr>,
     \<lparr>fp_id = ''p2'', fp_year = 2025, fp_month = 2, fp_start = ''2025-02-01'', fp_end = ''2025-02-28'', fp_status = PERIOD_OPEN\<rparr>]"

definition acct_sample_db :: LedgerDb where
  "acct_sample_db = \<lparr>ld_accounts = [acct_sample_account ''a1'' ''6000'' NB_DEBIT 0, acct_sample_account ''a2'' ''3000'' NB_CREDIT 0],
     ld_transactions = [], ld_entries = [], ld_periods = acct_sample_periods,
     ld_periodBalances = [], ld_events = [], ld_audit = [], ld_supplierSyncs = [], ld_seq = 0\<rparr>"

definition acct_sample_line :: "string \<Rightarrow> int \<Rightarrow> int \<Rightarrow> JournalLine" where
  "acct_sample_line c d k = \<lparr>jl_accountCode = c, jl_description = ''line'', jl_debitAmount = Fin (cents d), jl_creditAmount = Fin (cents k),
     jl_entityType = None, jl_entityId = None\<rparr>"

definition acct_sample_rq :: JournalEntryRequest where
  "acct_sample_rq = \<lparr>je_entryDate = ''2025-02-10'', je_description = ''office'', je_referenceType = ''JOURNAL'', je_referenceId = ''j1'',
     je_referenceNumber = ''J-1'', je_lines = [acct_sample_line ''6000'' 10050 0, acct_sample_line ''3000'' 0 10050], je_userId = ''u'',
     je_idempotencyKey = ''k1'', je_source = None\<rparr>"

definition acct_sample_txn :: LedgerTransaction where
  "acct_sample_txn = \<lparr>lt_id = [], lt_number = ''TXN-000001'', lt_date = ''2025-02-10'', lt_referenceType = ''JOURNAL'', lt_referenceId = ''j1'',
     lt_referenceNumber = ''J-1'', lt_description = ''office'', lt_totalDebit = 201 / 2, lt_totalCredit = 201 / 2,
     lt_status = TX_POSTED, lt_reversesId = None, lt_reversedById = None, lt_isReversed = False, lt_idempotencyKey = Some ''k1'',
     lt_postingSource = Some PS_MANUAL_JOURNAL, lt_createdBy = ''u''\<rparr>"

definition acct_sample_entry :: "string \<Rightarrow> string \<Rightarrow> string \<Rightarrow> rat \<Rightarrow> rat \<Rightarrow> string \<Rightarrow> nat \<Rightarrow> string \<Rightarrow> LedgerEntry" where
  "acct_sample_entry i t a d c text n date = \<lparr>le_id = i, le_transactionId = t, le_accountId = a,
     le_entryType = (if 0 < d then ENTRY_DEBIT else ENTRY_CREDIT), le_amount = d + c, le_debit = d, le_credit = c,
     le_description = text, le_lineNumber = n, le_entityType = None, le_entityId = None, le_entryDate = date\<rparr>"

definition acct_sample_db1 :: LedgerDb where
  "acct_sample_db1 = \<lparr>ld_accounts = [acct_sample_account ''a1'' ''6000'' NB_DEBIT (201 / 2), acct_sample_account ''a2'' ''3000'' NB_CREDIT (201 / 2)],
     ld_transactions = [acct_sample_txn],
     ld_entries = [acct_sample_entry ''i'' [] ''a1'' (201 / 2) 0 ''line'' 1 ''2025-02-10'', acct_sample_entry ''ii'' [] ''a2'' 0 (201 / 2) ''line'' 2 ''2025-02-10''],
     ld_periods = acct_sample_periods, ld_periodBalances = [],
     ld_events = [\<lparr>pe_accountId = ''a1'', pe_year = 2025, pe_month = 2, pe_transactionId = [], pe_idempotencyKey = ''k1''\<rparr>,
                  \<lparr>pe_accountId = ''a2'', pe_year = 2025, pe_month = 2, pe_transactionId = [], pe_idempotencyKey = ''k1''\<rparr>],
     ld_audit = [\<lparr>la_action = ''CREATE'', la_entityId = [], la_userId = ''u''\<rparr>], ld_supplierSyncs = [], ld_seq = 3\<rparr>"

definition acct_sample_result :: "string \<Rightarrow> string \<Rightarrow> JournalEntryResult" where
  "acct_sample_result i n = \<lparr>jr_transactionId = i, jr_transactionNumber = n, jr_status = TX_POSTED,
     jr_totalDebits = Fin (201 / 2), jr_totalCredits = Fin (201 / 2)\<rparr>"

definition acct_sample_rv :: ReversalRequest where
  "acct_sample_rv = \<lparr>rv_originalTransactionId = [], rv_reversalDate = ''2025-02-11'', rv_reason = ''error'', rv_userId = ''u'', rv_idempotencyKey = ''k2''\<rparr>"

definition acct_sample_db2 :: LedgerDb where
  "acct_sample_db2 = \<lparr>ld_accounts = [acct_sample_account ''a1'' ''6000'' NB_DEBIT (- 201 / 2), acct_sample_account ''a2'' ''3000'' NB_CREDIT (- 201 / 2)],
     ld_transactions =
       [acct_sample_txn\<lparr>lt_status := TX_REVERSED, lt_reversedById := Some ''iii'', lt_isReversed := True, lt_idempotencyKey := Some ''k1::REVERSED::iii''\<rparr>,
        acct_sample_txn\<lparr>lt_id := ''iii'', lt_number := ''TXN-000002'', lt_date := ''2025-02-11'', lt_referenceType := ''REVERSAL'',
          lt_referenceNumber := ''REV-J-1'', lt_description := ''REVERSAL of TXN-000001: error'', lt_reversesId := Some [],
          lt_idempotencyKey := Some ''k2'', lt_postingSource := None\<rparr>],
     ld_entries = ld_entries acct_sample_db1 @
       [acct_sample_entry ''iiii'' ''iii'' ''a1'' 0 (201 / 2) ''REVERSAL: line'' 1 ''2025-02-11'',
        acct_sample_entry ''iiiii'' ''iii'' ''a2'' (201 / 2) 0 ''REVERSAL: line'' 2 ''2025-02-11''],
     ld_periods = acct_sample_periods, ld_periodBalances = [], ld_events = ld_events acct_sample_db1,
     ld_audit = ld_audit acct_sample_db1 @ [\<lparr>la_action = ''VOID'', la_entityId = ''iii'', la_userId = ''u''\<rparr>], ld_supplierSyncs = [], ld_seq = 6\<rparr>"

lemma acct_sample_create: "createJournalEntry rat_decimal acct_sample_gen AR_off False acct_sample_db acct_sample_rq acct_sample_db
    = Inr (acct_sample_result [] ''TXN-000001'', acct_sample_db1)"
  by code_simp

lemma acct_sample_reverse: "reverseTransaction rat_decimal acct_sample_gen False acct_sample_db1 acct_sample_rv acct_sample_db1
    = Inr (acct_sample_result ''iii'' ''TXN-000002'', acct_sample_db2)"
  by code_simp

lemma acct_sample_gen_inj: "inj acct_sample_gen"
  by (rule injI) (metis length_replicate acct_sample_gen_def)

lemma acct_sample_wf: "ledger_wf acct_sample_gen acct_sample_db" "books_ok acct_sample_db" "cache_ok acct_sample_db"
  by (simp_all add: ledger_wf_def accounts_ok_def ids_ok_def links_ok_def keys_ok_def reversal_ids_def books_ok_def cache_ok_def
      acct_sample_db_def acct_sample_account_def posted_balance_def joined_def)

lemma acct_sample_cents: "journal_in_cents (je_lines acct_sample_rq)"
  by code_simp

end
