(* ===== verification/LedgerTheorems.thy ===== *)
theory LedgerTheorems imports LedgerSample
begin

section \<open>Properties of the general ledger\<close>

text \<open>
  The claims on \<open>accountingCore.ts\<close>: balance of the books, refinement of a list of live postings,
  the cached balances and what a reversal does to them, and round trips.
\<close>

subsection \<open>Reachable ledgers\<close>

interpretation wf_books: step_invariant "ledger_step D gen mode (\<lambda>rq. journal_in_cents (je_lines rq))"
    "\<lambda>db. decimal_exact D v \<and> inj gen \<and> ledger_wf gen db \<and> books_ok db" for D gen mode v
  by unfold_locales (use ledger_wf_step books_ok_step in blast)

interpretation wf_cache: step_invariant "ledger_step D gen mode Q" "\<lambda>db. inj gen \<and> ledger_wf gen db \<and> cache_ok db" for D gen mode Q
  by unfold_locales (use ledger_wf_step cache_ok_step in blast)

lemma acct_sample_step: "ledger_step rat_decimal acct_sample_gen AR_off (\<lambda>rq. journal_in_cents (je_lines rq)) acct_sample_db acct_sample_db1"
  by (rule step_create [OF acct_sample_create]) (rule acct_sample_cents)

lemma acct_sample_step2: "ledger_step rat_decimal acct_sample_gen AR_off (\<lambda>rq. journal_in_cents (je_lines rq)) acct_sample_db1 acct_sample_db2"
  by (rule step_reverse [OF acct_sample_reverse])

lemma acct_sample_reach: "(ledger_step rat_decimal acct_sample_gen AR_off (\<lambda>rq. journal_in_cents (je_lines rq)))\<^sup>*\<^sup>* acct_sample_db acct_sample_db2"
  using acct_sample_step acct_sample_step2 by (meson converse_rtranclp_into_rtranclp rtranclp.rtrancl_refl)

lemma acct_sample_wf1: "ledger_wf acct_sample_gen acct_sample_db1" "books_ok acct_sample_db1" "cache_ok acct_sample_db1"
  using ledger_wf_step [OF acct_sample_gen_inj acct_sample_wf(1) acct_sample_step] books_ok_step [OF rat_decimal_exact acct_sample_gen_inj acct_sample_wf(1,2) acct_sample_step]
    cache_ok_step [OF acct_sample_gen_inj acct_sample_wf(1,3) acct_sample_step] by blast+

subsection \<open>Balance\<close>

text \<open>C1. Books kept in whole cents balance. (The code accepts a difference below a tenth of a cent; amounts finer than
  a cent are outside this claim.) Start from well-formed tables whose transactions balance, and let clients
  post journals in whole cents, reverse transactions, lock periods and let the worker rebuild period
  balances, in any order and inside or outside callers' transactions. Then every transaction has equal
  debits and credits, and the trial balance at every date is balanced, with difference 0 and not only
  within its tolerance of a tenth of a cent.\<close>

theorem ledger_books_balance:
  assumes "decimal_exact D v" "inj gen" "ledger_wf gen db0" "books_ok db0"
    and "(ledger_step D gen mode (\<lambda>rq. journal_in_cents (je_lines rq)))\<^sup>*\<^sup>* db0 db"
  shows "(\<forall>t \<in> set (ld_transactions db).
       sum_list (map le_debit (own_entries (lt_id t) db)) = sum_list (map le_credit (own_entries (lt_id t) db)))
   \<and> (\<forall>asOf. let tb = validateTrialBalance D asOf db in
       de_isValid tb \<and> de_difference tb = Fin 0 \<and> de_totalDebits tb = de_totalCredits tb)"
proof -
  have b: "ids_ok gen db" "books_ok db"
    using wf_books.reach_inv [OF assms(5)] assms(1-4) by (auto simp: ledger_wf_def)
  have "let tb = validateTrialBalance D asOf db in
       de_isValid tb \<and> de_difference tb = Fin 0 \<and> de_totalDebits tb = de_totalCredits tb" for asOf
  proof -
    have z: "v (dl_minus D x x) = 0" for x using dec_minus [OF assms(1), of x x] sig20_cents [of 0] by simp
    have "sig20 0" using sig20_cents [of 0] by simp
    then show ?thesis using z tenth_cent [OF assms(1)]
      by (simp add: validateTrialBalance_def Let_def books_balance [OF b] money_abs_def money_subtract_def dec_lt [OF assms(1)]
          dec_abs [OF assms(1)] dec_toNumber [OF assms(1)] js_round_rat_def)
  qed
  then show ?thesis using b(2) by (simp add: books_ok_def entries_balanced_def)
qed

theorem ledger_books_balance_witness:
  "map (\<lambda>t. sum_list (map le_debit (own_entries (lt_id t) acct_sample_db2))) (ld_transactions acct_sample_db2)
      = map (\<lambda>t. sum_list (map le_credit (own_entries (lt_id t) acct_sample_db2))) (ld_transactions acct_sample_db2)
   \<and> (\<forall>asOf. let tb = validateTrialBalance rat_decimal asOf acct_sample_db2 in
       de_isValid tb \<and> de_difference tb = Fin 0 \<and> de_totalDebits tb = de_totalCredits tb)"
  using ledger_books_balance [OF rat_decimal_exact acct_sample_gen_inj acct_sample_wf(1,2) acct_sample_reach]
  by (simp only: map_eq_conv) blast

subsection \<open>Refinement of a list of postings\<close>

text \<open>C2. The tables implement a list of postings. Every operation on well-formed tables acts on the list as
  it promises: posting either finds the journal already there and changes nothing, or adds one posting
  with the journal's date and one amount per line on the line's account; reversing either changes
  nothing or takes exactly the named posting out; locking and rebuilding change nothing. The balances
  the readers report are the totals of the list.\<close>

theorem ledger_refines_postings:
  assumes "inj gen" "ledger_wf gen db"
  shows "(createJournalEntry D gen mode tx cdb rq db = Inr (r, db') \<longrightarrow>
       db' = db \<or> (\<exists>xs. postings db' = post (jr_transactionId r, take 10 (je_entryDate rq), xs) (postings db)
         \<and> list_all2 (\<lambda>l (a, d, c). (a, jl_accountCode l) \<in> codes db \<and> num_column (jl_debitAmount l) = Inr d
             \<and> num_column (jl_creditAmount l) = Inr c) (je_lines rq) xs))
   \<and> (reverseTransaction D gen tx cdb rv db = Inr (r, db') \<longrightarrow>
       db' = db \<or> postings db' = void (rv_originalTransactionId rv) (postings db))
   \<and> (lockPeriod pid user db = Inr db' \<longrightarrow> postings db' = postings db)
   \<and> postings (rebuild_all D ks db) = postings db
   \<and> getAccountBalance D code asOf db = map_option (\<lambda>a.
        let date = (if truthy_str asOf then asOf else None);
            d = dl_toNumber D (dl_of_db D (debit_total date (ac_id a) (postings db)));
            c = dl_toNumber D (dl_of_db D (credit_total date (ac_id a) (postings db)))
        in \<lparr>ab_accountId = ac_id a, ab_accountCode = ac_code a, ab_normalBalance = ac_normalBalance a,
            ab_debitTotal = d, ab_creditTotal = c, ab_balance = availableFromPostedTotals d c (ac_normalBalance a)\<rparr>)
        (find (\<lambda>a. ac_code a = code) (ld_accounts db))"
proof (intro conjI impI)
  assume c: "createJournalEntry D gen mode tx cdb rq db = Inr (r, db')"
  show "db' = db \<or> (\<exists>xs. postings db' = post (jr_transactionId r, take 10 (je_entryDate rq), xs) (postings db)
         \<and> list_all2 (\<lambda>l (a, d, c). (a, jl_accountCode l) \<in> codes db \<and> num_column (jl_debitAmount l) = Inr d
             \<and> num_column (jl_creditAmount l) = Inr c) (je_lines rq) xs)"
  proof (cases "db' = db")
    case False
    with createJournalEntry_created [OF assms c] obtain t es
      where t: "created D gen rq t es db db'" "jr_transactionId r = lt_id t" by blast
    have "list_all2 (\<lambda>l (a, d, c). (a, jl_accountCode l) \<in> codes db \<and> num_column (jl_debitAmount l) = Inr d
             \<and> num_column (jl_creditAmount l) = Inr c) (je_lines rq) (amounts es)"
      using t(1) by (auto simp: created_def amounts_def list.rel_map entry_of_line_def elim!: list_all2_mono)
    moreover have "lt_date t = je_entryDate rq" using t(1) by (simp add: created_def)
    ultimately show ?thesis using postings_created [OF assms t(1)] t(2) by auto
  qed simp
next
  assume c: "reverseTransaction D gen tx cdb rv db = Inr (r, db')"
  show "db' = db \<or> postings db' = void (rv_originalTransactionId rv) (postings db)"
  proof (cases "db' = db")
    case False
    with reverseTransaction_reversed [OF assms c] obtain o' t es
      where t: "find_txn (rv_originalTransactionId rv) db = Some o'" "reversed D gen o' t es db db'" by blast
    then show ?thesis using postings_reversed [OF assms t(2)] find_txn_Some [OF t(1)] by simp
  qed simp
next
  have p: "postings x = postings db" if "same_books db x" for x
    using that by (simp add: postings_def live_def same_books_def net_active_def [abs_def] reversal_ids_def own_entries_def)
  have "same_books db (rebuild_all D ks db)" by (simp add: same_books_def)
  then show "postings (rebuild_all D ks db) = postings db" by (rule p)
  assume "lockPeriod pid user db = Inr db'"
  then have "ld_transactions db' = ld_transactions db \<and> ld_entries db' = ld_entries db"
    by (auto simp: lockPeriod_def split: option.splits if_splits)
  then show "postings db' = postings db"
    by (simp add: postings_def live_def net_active_def [abs_def] reversal_ids_def own_entries_def)
next
  have i: "ids_ok gen db" using assms(2) by (simp add: ledger_wf_def)
  show "getAccountBalance D code asOf db = map_option (\<lambda>a.
        let date = (if truthy_str asOf then asOf else None);
            d = dl_toNumber D (dl_of_db D (debit_total date (ac_id a) (postings db)));
            c = dl_toNumber D (dl_of_db D (credit_total date (ac_id a) (postings db)))
        in \<lparr>ab_accountId = ac_id a, ab_accountCode = ac_code a, ab_normalBalance = ac_normalBalance a,
            ab_debitTotal = d, ab_creditTotal = c, ab_balance = availableFromPostedTotals d c (ac_normalBalance a)\<rparr>)
        (find (\<lambda>a. ac_code a = code) (ld_accounts db))"
    by (simp only: getAccountBalance_def posted_totals [OF i] money_parse.simps Let_def)
qed

theorem ledger_refines_postings_witness:
  "\<exists>xs. postings acct_sample_db1 = post ([], ''2025-02-10'', xs) (postings acct_sample_db)"
proof -
  have "acct_sample_db1 \<noteq> acct_sample_db" by (simp add: acct_sample_db1_def acct_sample_db_def)
  moreover have "take 10 (je_entryDate acct_sample_rq) = ''2025-02-10''" "jr_transactionId (acct_sample_result [] ''TXN-000001'') = []"
    by (simp_all add: acct_sample_rq_def acct_sample_result_def)
  ultimately show ?thesis
    using ledger_refines_postings [OF acct_sample_gen_inj acct_sample_wf(1), of rat_decimal AR_off False acct_sample_db acct_sample_rq
        "acct_sample_result [] ''TXN-000001''" acct_sample_db1] acct_sample_create by metis
qed

subsection \<open>Posting and reversing\<close>

lemma map_option_key:
  "map_option k x = map_option k y \<Longrightarrow> (\<And>a b. k a = k b \<Longrightarrow> f a = g b) \<Longrightarrow> map_option f x = map_option g y"
  by (cases x; cases y) auto

text \<open>C30. Posting a journal and then reversing it leaves no trace in what the ledger reports: the list of
  postings in force is the one from before, and so is the balance of every account at every date.\<close>

theorem post_then_reverse:
  assumes "inj gen" "ledger_wf gen db"
    and "createJournalEntry D gen mode tx cdb rq db = Inr (r, db1)" "db1 \<noteq> db"
    and "reverseTransaction D gen tx' cdb' rv db1 = Inr (r', db2)" "db2 \<noteq> db1" "rv_originalTransactionId rv = jr_transactionId r"
  shows "postings db2 = postings db
    \<and> (\<forall>code asOf. getAccountBalance D code asOf db2 = getAccountBalance D code asOf db)"
proof -
  from createJournalEntry_created [OF assms(1-3)] assms(4) obtain t es where
    t: "created D gen rq t es db db1" "jr_transactionId r = lt_id t" by blast
  have wf1: "ledger_wf gen db1"
    by (rule ledger_wf_step [OF assms(1,2) step_create [where Q = "\<lambda>_. True", OF assms(3) TrueI]])
  from reverseTransaction_reversed [OF assms(1) wf1 assms(5)] assms(6) obtain o' t' es' where
    t': "find_txn (rv_originalTransactionId rv) db1 = Some o'" "reversed D gen o' t' es' db1 db2" by blast
  have i: "lt_id o' = lt_id t" using find_txn_Some [OF t'(1)] assms(7) t(2) by simp
  have a: "appended gen (\<lambda>x. x) t es db db1" and w: "ids_ok gen db" using t(1) assms(2) by (simp_all add: created_def ledger_wf_def)
  have a': "same_accounts db1 db2" using t'(2) appended_accounts by (auto simp: reversed_def)
  have "\<forall>p \<in> set (postings db). fst p \<noteq> lt_id t"
    using live_not_fresh [OF assms(1) w a] by (auto simp: postings_def)
  then have p: "postings db2 = postings db"
    using postings_created [OF assms(1,2) t(1)] postings_reversed [OF assms(1) wf1 t'(2)] i
    by (simp add: post_def void_def filter_id_conv)
  have wf2: "ledger_wf gen db2"
    by (rule ledger_wf_step [OF assms(1) wf1 step_reverse [where Q = "\<lambda>_. True" and mode = mode, OF assms(5)]])
  have sa: "same_accounts db db2" using appended_accounts [OF a] a' same_accounts_trans by blast
  have "getAccountBalance D code asOf db2 = getAccountBalance D code asOf db" for code asOf
  proof -
    have "map_option account_key (find (\<lambda>a. ac_code a = code) (ld_accounts db2)) = map_option account_key (find (\<lambda>a. ac_code a = code) (ld_accounts db))"
      using sa by (intro find_same_key) (auto simp: same_accounts_def account_key_def)
    then show ?thesis unfolding getAccountBalance_def
      using posted_totals [of gen db] posted_totals [of gen db2] w wf2 p
      by (elim map_option_key) (simp add: Let_def ledger_wf_def account_key_def)
  qed
  with p show ?thesis by blast
qed

theorem post_then_reverse_witness:
  "postings acct_sample_db2 = postings acct_sample_db
    \<and> (\<forall>code asOf. getAccountBalance rat_decimal code asOf acct_sample_db2 = getAccountBalance rat_decimal code asOf acct_sample_db)"
proof (rule post_then_reverse [OF acct_sample_gen_inj acct_sample_wf(1) acct_sample_create _ acct_sample_reverse])
  show "acct_sample_db1 \<noteq> acct_sample_db" "acct_sample_db2 \<noteq> acct_sample_db1" by (simp_all add: acct_sample_db1_def acct_sample_db_def acct_sample_db2_def)
qed (simp add: acct_sample_rv_def acct_sample_result_def)

subsection \<open>Cached balances\<close>

text \<open>The cached balance of an account follows the entries of its transactions in status POSTED: from
  tables where every cached balance is within a cent of that sum, it stays so under any sequence of
  operations, whatever the journals.\<close>

theorem cached_balance_follows_posted_entries:
  assumes "inj gen" "ledger_wf gen db0" "cache_ok db0" "(ledger_step D gen mode Q)\<^sup>*\<^sup>* db0 db" "a \<in> set (ld_accounts db)"
  shows "\<bar>ac_currentBalance a - posted_balance db a\<bar> \<le> 1 / 100"
  using wf_cache.reach_inv [OF assms(4)] assms(1-3,5) by (auto simp: cache_ok_def)

theorem cached_balance_follows_posted_entries_witness:
  "\<bar>ac_currentBalance (acct_sample_account ''a1'' ''6000'' NB_DEBIT (- 201 / 2))
     - posted_balance acct_sample_db2 (acct_sample_account ''a1'' ''6000'' NB_DEBIT (- 201 / 2))\<bar> \<le> 1 / 100"
  by (rule cached_balance_follows_posted_entries [OF acct_sample_gen_inj acct_sample_wf(1,3) acct_sample_reach]) (simp add: acct_sample_db2_def)

text \<open>The effect of a journal on an account, and the balance over the postings in force.\<close>

definition effect :: "string \<Rightarrow> LedgerDb \<Rightarrow> Account \<Rightarrow> rat" where
  "effect i db a = signed (ac_normalBalance a) (filter (\<lambda>e. le_accountId e = ac_id a) (own_entries i db))"

definition live_balance :: "LedgerDb \<Rightarrow> Account \<Rightarrow> rat" where
  "live_balance db a = signed (ac_normalBalance a) (postedLedgerBalance None (ac_id a) db)"

lemma signed_filter: "signed nb (filter Q es) = sum_list (map (\<lambda>e. if Q e then (case nb of NB_DEBIT \<Rightarrow> le_debit e - le_credit e
    | NB_CREDIT \<Rightarrow> le_credit e - le_debit e) else 0) es)"
  by (induction es) (auto simp: signed_def split: NormalBalance.splits)

lemma signed_mset: "mset xs = mset ys \<Longrightarrow> signed nb (filter Q xs) = signed nb (filter Q ys)"
proof -
  assume m: "mset xs = mset ys"
  have "sum_list (map f xs) = sum_list (map f ys)" for f :: "LedgerEntry \<Rightarrow> rat" using m by (metis mset_map sum_mset_sum_list)
  then show ?thesis by (simp only: signed_filter)
qed

text \<open>The mirror has the opposite effect on every account.\<close>

lemma mirror_effect:
  assumes D: "decimal_exact D v" and wf: "ledger_wf gen db" and bal: "entries_balanced (own_entries (lt_id o') db)"
    and r: "reversed D gen o' t es db db'"
  shows "signed nb (filter (\<lambda>e. le_accountId e = i) es) = - signed nb (filter (\<lambda>e. le_accountId e = i) (own_entries (lt_id o') db))"
proof -
  let ?o = "entries_of (lt_id o') db"
  have "ids_ok gen db" using wf by (simp add: ledger_wf_def)
  then have m: "mset ?o = mset (own_entries (lt_id o') db)" by (rule entries_of_own)
  then have "entries_balanced ?o" using bal entries_balanced_mset by blast
  note c = reversed_lines_cents [OF D this, of db]
  have l: "list_all2 (entry_of_line (codes db) (lt_id t) (lt_date t)) (map (reversed_line D db) ?o) es" using r by (simp add: reversed_def)
  have dc: "map le_debit es = map le_credit ?o" "map le_credit es = map le_debit ?o"
    using cents_entries [OF l c(1)] c(3,4) by simp_all
  have ac: "map le_accountId es = map le_accountId ?o" by (rule reversed_accounts [OF r wf])
  have len: "length es = length ?o" using ac by (metis length_map)
  have "(if le_accountId (es ! k) = i then (case nb of NB_DEBIT \<Rightarrow> le_debit (es ! k) - le_credit (es ! k)
         | NB_CREDIT \<Rightarrow> le_credit (es ! k) - le_debit (es ! k)) else 0)
      = - (if le_accountId (?o ! k) = i then (case nb of NB_DEBIT \<Rightarrow> le_debit (?o ! k) - le_credit (?o ! k)
         | NB_CREDIT \<Rightarrow> le_credit (?o ! k) - le_debit (?o ! k)) else 0)" if "k < length es" for k
  proof -
    have "le_debit (es ! k) = le_credit (?o ! k)" "le_credit (es ! k) = le_debit (?o ! k)" "le_accountId (es ! k) = le_accountId (?o ! k)"
      using dc ac len that by (metis nth_map)+
    then show ?thesis by (simp split: NormalBalance.split)
  qed
  then have "map (\<lambda>e. if le_accountId e = i then (case nb of NB_DEBIT \<Rightarrow> le_debit e - le_credit e | NB_CREDIT \<Rightarrow> le_credit e - le_debit e) else 0) es
      = map (\<lambda>e. - (if le_accountId e = i then (case nb of NB_DEBIT \<Rightarrow> le_debit e - le_credit e | NB_CREDIT \<Rightarrow> le_credit e - le_debit e) else 0)) ?o"
    using len by (intro nth_equalityI) simp_all
  then have "signed nb (filter (\<lambda>e. le_accountId e = i) es) = - signed nb (filter (\<lambda>e. le_accountId e = i) ?o)"
    by (simp add: signed_filter uminus_sum_list_map comp_def)
  then show ?thesis using signed_mset [OF m] by simp
qed

lemma posted_balance_sum:
  assumes "ids_ok gen db"
  shows "posted_balance db a = sum_list (map (\<lambda>t. effect (lt_id t) db a) (filter posted (ld_transactions db)))"
    "live_balance db a = sum_list (map (\<lambda>t. effect (lt_id t) db a) (live db))"
proof -
  have d: "distinct (map lt_id (ld_transactions db))" using assms by (simp add: ids_ok_def)
  show "posted_balance db a = sum_list (map (\<lambda>t. effect (lt_id t) db a) (filter posted (ld_transactions db)))"
    unfolding posted_balance_def effect_def signed_filter sum_joined [OF d] ..
  show "live_balance db a = sum_list (map (\<lambda>t. effect (lt_id t) db a) (live db))"
    unfolding live_balance_def postedLedgerBalance_def effect_def signed_filter sum_joined [OF d] live_def by simp
qed

lemma sum_list_remove: "distinct (map g xs) \<Longrightarrow> x \<in> set xs \<Longrightarrow>
    sum_list (map f (filter (\<lambda>y. g y \<noteq> g x) xs)) = sum_list (map f xs) - (f x :: rat)"
proof (induction xs)
  case (Cons y xs)
  then show ?case
  proof (cases "x = y")
    case True
    then have "filter (\<lambda>z. g z \<noteq> g x) xs = xs" using Cons.prems by (auto simp: filter_id_conv image_iff)
    then show ?thesis using True by simp
  next
    case False
    then have "x \<in> set xs" "g y \<noteq> g x" using Cons.prems by (auto simp: rev_image_eqI)
    then show ?thesis using Cons by simp
  qed
qed simp

text \<open>C3. A reversal is counted twice in the cached balances. When a posting in force is reversed, every
  balance over the postings in force loses its effect, as it should. The sum over status POSTED, which the
  refresh of the caches uses, loses the effect twice: the original leaves it and its mirror enters it. So
  on tables where the two agreed, the cached balance of every account of the journal ends up, within a
  cent, short of the true balance by the effect of the reversed journal.\<close>

theorem reversal_counts_twice_in_cache:
  assumes "decimal_exact D v" "inj gen" "ledger_wf gen db" "books_ok db"
    and "reverseTransaction D gen tx cdb rv db = Inr (r, db')" "db' \<noteq> db"
    and "find_txn (rv_originalTransactionId rv) db = Some o'" "net_active db o'"
  shows "(\<forall>a. live_balance db' a = live_balance db a - effect (lt_id o') db a)
    \<and> (\<forall>a. posted_balance db' a = posted_balance db a - 2 * effect (lt_id o') db a)
    \<and> (\<forall>a' \<in> set (ld_accounts db'). ac_id a' \<in> le_accountId ` set (own_entries (lt_id o') db)
         \<longrightarrow> live_balance db a' = posted_balance db a'
         \<longrightarrow> \<bar>ac_currentBalance a' - (live_balance db' a' - effect (lt_id o') db a')\<bar> \<le> 1 / 100)"
proof -
  from reverseTransaction_reversed [OF assms(2,3,5)] assms(6,7) obtain t es where r: "reversed D gen o' t es db db'" by auto
  have a: "appended gen (marked (lt_id o') (lt_id t)) t es db db'" and w: "ids_ok gen db" "links_ok db"
    and o': "o' \<in> set (ld_transactions db)" "posted o'" and tp: "lt_status t = TX_POSTED" "lt_reversedById t = None" "\<not> lt_isReversed t"
    using r assms(3) by (simp_all add: reversed_def ledger_wf_def)
  have w': "ids_ok gen db'" by (rule ids_ok_appended [OF assms(2) w(1) a]) simp
  have d: "distinct (map lt_id (ld_transactions db))" using w(1) by (simp add: ids_ok_def)
  have fresh: "lt_id x \<noteq> lt_id t" if "x \<in> set (ld_transactions db)" for x
    using ids_ok_fresh [OF assms(2) w(1)] appended_id [OF a] that by (metis image_eqI)
  have eff: "effect (lt_id x) db' b = effect (lt_id x) db b" if "x \<in> set (ld_transactions db)" for x b
    using fresh [OF that] by (simp add: effect_def own_entries_appended [OF assms(2) w(1) a])
  have bal: "entries_balanced (own_entries (lt_id o') db)" using assms(4) o'(1) by (simp add: books_ok_def)
  have mirror: "effect (lt_id t) db' b = - effect (lt_id o') db b" for b
    using mirror_effect [OF assms(1,3) bal r] by (simp add: effect_def own_entries_appended [OF assms(2) w(1) a])
  have live: "live_balance db' b = live_balance db b - effect (lt_id o') db b" for b
  proof -
    have l: "live db' = filter (\<lambda>x. lt_id x \<noteq> lt_id o') (live db)"
      by (rule reverse_links(2) [OF assms(2) w a tp o'])
    have "o' \<in> set (live db)" "distinct (map lt_id (live db))"
      using o'(1) assms(8) d by (simp_all add: live_def distinct_map_filter)
    then have "sum_list (map (\<lambda>x. effect (lt_id x) db b) (live db')) = live_balance db b - effect (lt_id o') db b"
      unfolding l posted_balance_sum(2) [OF w(1)] by (intro sum_list_remove)
    moreover have "map (\<lambda>x. effect (lt_id x) db' b) (live db') = map (\<lambda>x. effect (lt_id x) db b) (live db')"
      unfolding l by (rule map_cong) (auto simp: live_def eff)
    ultimately show ?thesis by (simp only: posted_balance_sum(2) [OF w'])
  qed
  have posted: "posted_balance db' b = posted_balance db b - 2 * effect (lt_id o') db b" for b
  proof -
    have f: "filter posted (map (marked (lt_id o') (lt_id t)) xs) = filter (\<lambda>x. lt_id x \<noteq> lt_id o') (filter posted xs)" for xs
      by (induction xs) auto
    have p: "filter posted (ld_transactions db') = filter (\<lambda>x. lt_id x \<noteq> lt_id o') (filter posted (ld_transactions db)) @ [t]"
      using fresh [OF o'(1)] tp(1) by (simp add: appended_txns [OF a] f) (simp add: posted_def)
    have "o' \<in> set (filter posted (ld_transactions db))" "distinct (map lt_id (filter posted (ld_transactions db)))"
      using o' d by (simp_all add: distinct_map_filter)
    then have "sum_list (map (\<lambda>x. effect (lt_id x) db b) (filter (\<lambda>x. lt_id x \<noteq> lt_id o') (filter posted (ld_transactions db))))
        = posted_balance db b - effect (lt_id o') db b"
      unfolding posted_balance_sum(1) [OF w(1)] by (intro sum_list_remove)
    moreover have "map (\<lambda>x. effect (lt_id x) db' b) (filter (\<lambda>x. lt_id x \<noteq> lt_id o') (filter posted (ld_transactions db)))
        = map (\<lambda>x. effect (lt_id x) db b) (filter (\<lambda>x. lt_id x \<noteq> lt_id o') (filter posted (ld_transactions db)))"
      by (rule map_cong) (auto simp: eff)
    moreover have "posted_balance db' b = sum_list (map (\<lambda>x. effect (lt_id x) db' b)
        (filter (\<lambda>x. lt_id x \<noteq> lt_id o') (filter posted (ld_transactions db)))) + effect (lt_id t) db' b"
      unfolding posted_balance_sum(1) [OF w'] p by simp
    ultimately have "posted_balance db' b = posted_balance db b - effect (lt_id o') db b + - effect (lt_id o') db b"
      by (simp only: mirror)
    then show ?thesis by simp
  qed
  have cache: "\<bar>ac_currentBalance a' - (live_balance db' a' - effect (lt_id o') db a')\<bar> \<le> 1 / 100"
    if a': "a' \<in> set (ld_accounts db')" "ac_id a' \<in> le_accountId ` set (own_entries (lt_id o') db)" "live_balance db a' = posted_balance db a'" for a'
  proof -
    have "set (own_entries (lt_id o') db) = set (entries_of (lt_id o') db)" by (rule mset_eq_setD) (simp add: entries_of_own [OF w(1)])
    then have "le_accountId ` set (own_entries (lt_id o') db) = le_accountId ` set es"
      using arg_cong [OF reversed_accounts [OF r assms(3)], of set] by simp
    then have "\<bar>ac_currentBalance a' - posted_balance db' a'\<bar> \<le> 1 / 100"
      using r a'(1,2) by (auto simp: reversed_def refreshed_def)
    moreover have "posted_balance db' a' = live_balance db' a' - effect (lt_id o') db a'" using live posted a'(3) by simp
    ultimately show ?thesis by (simp only:)
  qed
  show ?thesis using live posted cache by blast
qed

theorem reversal_counts_twice_in_cache_witness:
  "live_balance acct_sample_db2 (acct_sample_account ''a1'' ''6000'' NB_DEBIT (- 201 / 2)) = 0
   \<and> \<bar>ac_currentBalance (acct_sample_account ''a1'' ''6000'' NB_DEBIT (- 201 / 2)) - (0 - 201 / 2)\<bar> \<le> 1 / 100"
proof -
  let ?a = "acct_sample_account ''a1'' ''6000'' NB_DEBIT (- 201 / 2)"
  have f: "find_txn (rv_originalTransactionId acct_sample_rv) acct_sample_db1 = Some acct_sample_txn" "net_active acct_sample_db1 acct_sample_txn"
    "acct_sample_db2 \<noteq> acct_sample_db1"
    by (simp_all add: find_txn_def net_active_def posted_def reversal_ids_def acct_sample_rv_def acct_sample_db1_def acct_sample_db2_def acct_sample_txn_def)
  have e: "effect (lt_id acct_sample_txn) acct_sample_db1 ?a = 201 / 2" "live_balance acct_sample_db1 ?a = 201 / 2" "posted_balance acct_sample_db1 ?a = 201 / 2"
    "ac_id ?a \<in> le_accountId ` set (own_entries (lt_id acct_sample_txn) acct_sample_db1)" "?a \<in> set (ld_accounts acct_sample_db2)"
    by (simp_all add: effect_def live_balance_def posted_balance_def postedLedgerBalance_def own_entries_def joined_def signed_def find_txn_def
        net_active_def posted_def reversal_ids_def acct_sample_db1_def acct_sample_db2_def acct_sample_txn_def acct_sample_entry_def acct_sample_account_def)
  note r = reversal_counts_twice_in_cache [OF rat_decimal_exact acct_sample_gen_inj acct_sample_wf1(1,2) acct_sample_reverse f(3,1,2)]
  then have "live_balance acct_sample_db2 ?a = 0" using e(1,2) by simp
  moreover have "\<bar>ac_currentBalance ?a - (live_balance acct_sample_db2 ?a - effect (lt_id acct_sample_txn) acct_sample_db1 ?a)\<bar> \<le> 1 / 100"
    using r e(4,5) trans [OF e(2) e(3) [symmetric]] by blast
  ultimately show ?thesis by (simp only: e(1))
qed

subsection \<open>Repeated requests\<close>

lemma map_filter_key:
  assumes "map k xs = map k ys" "\<And>x y. k x = k y \<Longrightarrow> P x = P y \<and> g x = g y"
  shows "map g (filter P xs) = map g (filter P ys)"
  using assms(1)
proof (induction xs arbitrary: ys)
  case (Cons x xs)
  then obtain y ys' where y: "ys = y # ys'" "k x = k y" "map k xs = map k ys'" by (cases ys) auto
  then show ?case using Cons.IH [OF y(3)] assms(2) [OF y(2)] by simp
qed simp

lemma governance_check_same: "same_accounts db db' \<Longrightarrow> governance_check mode rq db' = governance_check mode rq db"
proof -
  assume "same_accounts db db'"
  then have "fetchGovernanceAccounts db' cs = fetchGovernanceAccounts db cs" for cs
    unfolding fetchGovernanceAccounts_def by (intro map_filter_key [of account_key]) (simp_all add: same_accounts_def account_key_def)
  then show ?thesis by (simp add: governance_check_def)
qed

lemma checkIdempotencyKey_append:
  "ld_transactions db' = ld_transactions db @ [t] \<Longrightarrow> checkIdempotencyKey db k = None \<Longrightarrow> lt_idempotencyKey t = Some k \<Longrightarrow>
     \<not> lt_isReversed t \<Longrightarrow> lt_status t = TX_POSTED \<Longrightarrow> checkIdempotencyKey db' k = Some (lt_id t)"
  by (simp add: checkIdempotencyKey_def find_append posted_def)

text \<open>A request that is sent again, after the first answer was committed, gets exactly the first answer
  back and posts nothing: same transaction, number, status and totals, whatever transaction it runs in.\<close>

theorem create_is_idempotent:
  assumes D: "decimal_exact D v" and gen: "inj gen" and wf: "ledger_wf gen db" and j: "journal_in_cents (je_lines rq)"
    and c: "createJournalEntry D gen mode False db rq db = Inr (r, db')"
  shows "createJournalEntry D gen mode tx db' rq db' = Inr (r, db')"
proof (cases "checkIdempotencyKey db (je_idempotencyKey rq) = None \<and> existing_posting D rq db db = None")
  case False
  have "db' = db"
    using c False unfolding createJournalEntry_def by (auto simp: and_then_Inr_iff split: option.splits)
  then show ?thesis using c False unfolding createJournalEntry_def by (auto simp: and_then_Inr_iff split: option.splits)
next
  case True
  have p: "de_isValid (validateDoubleEntry D (je_lines rq))" "each_ok (\<lambda>l. throw_if (\<not> validateLineAmounts l) INVALID_LINE_AMOUNTS) (je_lines rq) = Inr ()"
    "governance_check mode rq db = Inr ()" "post_journal D gen False rq db = Inr (r, db')"
    using c True unfolding createJournalEntry_def by (auto simp: and_then_Inr_iff)
  have w: "ids_ok gen db" "accounts_ok db" using wf by (simp_all add: ledger_wf_def)
  from post_journal_appended [OF gen w p(4)] obtain es debit credit t where
    t: "t = new_transaction rq (gen (ld_seq db)) (txn_number (next_txn_number db)) debit credit" and
    a: "appended gen (\<lambda>x. x) t es db db'" and
    n: "num_column (de_totalDebits (validateDoubleEntry D (je_lines rq))) = Inr debit"
       "num_column (de_totalCredits (validateDoubleEntry D (je_lines rq))) = Inr credit" and
    r: "r = \<lparr>jr_transactionId = lt_id t, jr_transactionNumber = lt_number t, jr_status = TX_POSTED,
          jr_totalDebits = de_totalDebits (validateDoubleEntry D (je_lines rq)),
          jr_totalCredits = de_totalCredits (validateDoubleEntry D (je_lines rq))\<rparr>"
    unfolding Let_def by blast
  have k: "checkIdempotencyKey db' (je_idempotencyKey rq) = Some (lt_id t)"
    by (rule checkIdempotencyKey_append [of db' db t]) (use appended_txns [OF a] True t in \<open>simp_all add: new_transaction_def\<close>)
  have g: "governance_check mode rq db' = Inr ()" using governance_check_same [OF appended_accounts [OF a]] p(3) by simp
  note v = validateDoubleEntry_cents [OF D j]
  have dc: "debit = of_int (total_debit (je_lines rq)) / 100" "credit = of_int (total_credit (je_lines rq)) / 100"
    using n num_column_cents [of "total_debit (je_lines rq)"] num_column_cents [of "total_credit (je_lines rq)"] v(4,5) by (simp_all add: v(2,3))
  have num: "dl_toNumber D (money_parse D (MI_db (of_int k / 100))) = Fin (cents k)" if "\<bar>k\<bar> \<le> 2 ^ 45" for k
  proof -
    have "v (dl_of_db D (of_int k / 100)) = of_int k / 100" using that by (intro dec_db [OF D] sig20_cents) simp
    then show ?thesis using js_round_rat_cents [of k] that by (simp only: money_parse.simps dec_toNumber [OF D]) simp
  qed
  have "find_txn (lt_id t) db' = Some t" using find_txn_appended [OF gen w(1) a] by simp
  then have "getTransaction D (lt_id t) db' = Some r"
    unfolding getTransaction_def r using num [OF v(4)] num [OF v(5)] dc v(2,3) t by (simp add: new_transaction_def)
  then show ?thesis unfolding createJournalEntry_def using p(1,2) g k by (simp add: throw_if_def)
qed

theorem create_is_idempotent_witness:
  "createJournalEntry rat_decimal acct_sample_gen AR_off True acct_sample_db1 acct_sample_rq acct_sample_db1 = Inr (acct_sample_result [] ''TXN-000001'', acct_sample_db1)"
  by (rule create_is_idempotent [OF rat_decimal_exact acct_sample_gen_inj acct_sample_wf(1) acct_sample_cents acct_sample_create])


subsection \<open>Closed periods\<close>

text \<open>The stored balances of a month.\<close>

definition month_balances :: "int \<Rightarrow> int \<Rightarrow> LedgerDb \<Rightarrow> PeriodBalance list" where
  "month_balances y m db = filter (\<lambda>b. pb_year b = y \<and> pb_month b = m) (ld_periodBalances db)"

lemma after_months: "month_balances y m (afterJournalEntryGovernance ls db) = month_balances y m db"
  by (simp add: month_balances_def afterJournalEntryGovernance_def rebaseAccountCachesFromPostedLedger_def Let_def)

lemma rebuild_frozen:
  "period_frozen db y m \<Longrightarrow> filter (\<lambda>b. pb_year b = y \<and> pb_month b = m) (ld_periodBalances (rebuildSingleAccountPeriod D a y' m' db))
     = filter (\<lambda>b. pb_year b = y \<and> pb_month b = m) (ld_periodBalances db)"
  by (auto simp: rebuildSingleAccountPeriod_def Let_def intro!: filter_cong)

lemma rebuild_all_frozen:
  assumes "period_frozen db y m"
  shows "filter (\<lambda>b. pb_year b = y \<and> pb_month b = m) (ld_periodBalances (rebuild_all D ks db))
     = filter (\<lambda>b. pb_year b = y \<and> pb_month b = m) (ld_periodBalances db)"
proof -
  have "filter (\<lambda>b. pb_year b = y \<and> pb_month b = m) (ld_periodBalances (fold (\<lambda>(a, y, m). rebuildSingleAccountPeriod D a y m) ks db))
     = filter (\<lambda>b. pb_year b = y \<and> pb_month b = m) (ld_periodBalances db)" for ks using assms
  proof (induction ks arbitrary: db)
    case (Cons k ks)
    obtain a y' m' where k: "k = (a, y', m')" by (cases k)
    have "period_frozen (rebuildSingleAccountPeriod D a y' m' db) y m" using Cons.prems by (simp add: period_frozen_def)
    from Cons.IH [OF this] show ?case using rebuild_frozen [OF Cons.prems] by (simp add: k)
  qed simp
  then show ?thesis by (simp add: rebuild_all_def)
qed

lemma written_frozen:
  "written es db0 db1 \<Longrightarrow> period_frozen db0 y m = period_frozen db1 y m \<and> month_balances y m db1 = month_balances y m db0"
  by (simp add: written_def period_frozen_def month_balances_def)

lemma posting_frozen:
  assumes "createJournalEntry D gen mode tx cdb rq db = Inr (r, db')" "period_frozen db y m"
  shows "month_balances y m db' = month_balances y m db"
proof (cases "db' = db")
  case False
  then have "post_journal D gen tx rq db = Inr (r, db')"
    using assms(1) unfolding createJournalEntry_def by (auto simp: and_then_Inr_iff split: option.splits)
  then obtain t db0 tid x d au ks where
    i: "insert_transaction t (db\<lparr>ld_seq := Suc (ld_seq db)\<rparr>) = Inr db0" and w: "write_lines D gen tx rq tid 1 (je_lines rq) db0 = Inr x"
    and d: "d = snd x\<lparr>ld_audit := ld_audit (snd x) @ [au]\<rparr>" and db': "afterJournalEntryGovernance (line_entities (je_lines rq)) (if tx then rebuild_all D ks d else d) = db'"
    unfolding post_journal_def Let_def and_then_Inr_iff split_def throw_if_simps sum.inject prod.inject not_not
    by (elim exE conjE) (rule that [OF _ _ refl]; assumption)
  obtain es where "written es db0 (snd x)" using write_lines_written [of D gen tx rq tid 1 "je_lines rq" db0 "fst x" "snd x"] w by auto
  then have "period_frozen d y m \<and> month_balances y m d = month_balances y m db"
    using assms(2) i written_frozen [of es db0 "snd x" y m] by (simp add: d insert_transaction_Inr period_frozen_def month_balances_def)
  then show ?thesis using rebuild_all_frozen [of d y m D ks] unfolding db' [symmetric] after_months by (simp add: month_balances_def)
qed simp

lemma reversal_frozen:
  assumes "reverseTransaction D gen tx cdb rv db = Inr (r, db')" "period_frozen db y m"
  shows "month_balances y m db' = month_balances y m db"
proof (cases "db' = db")
  case False
  with reverseTransaction_outcome [OF assms(1)] obtain o' where "reverse_posted D gen tx rv o' db = Inr (r, db')" by blast
  then obtain t db0 tid x c au ks ls d where
    i: "insert_transaction t (db\<lparr>ld_seq := Suc (ld_seq db)\<rparr>) = Inr db0" and w: "write_reversal_lines D gen tid d 1 ls db0 = Inr x"
    and c: "mark_reversed (lt_id o') tid (snd x) = Inr c"
    and db': "afterJournalEntryGovernance (line_entities (map (reversed_line D db) (entries_of (lt_id o') db)))
        ((if tx then rebuild_all D ks c else c)\<lparr>ld_audit := ld_audit (if tx then rebuild_all D ks c else c) @ [au]\<rparr>) = db'"
    unfolding reverse_posted_def Let_def and_then_Inr_iff split_def throw_if_simps sum.inject prod.inject not_not
    by (elim exE conjE) (rule that; assumption)
  obtain es where "written es db0 (snd x)" using write_reversal_lines_written [of D gen tid d 1 ls db0 "fst x" "snd x"] w by auto
  then have "period_frozen c y m \<and> month_balances y m c = month_balances y m db"
    using assms(2) i c written_frozen [of es db0 "snd x" y m] by (simp add: mark_reversed_marked insert_transaction_Inr period_frozen_def month_balances_def)
  then show ?thesis using rebuild_all_frozen [of c y m D ks] unfolding db' [symmetric] after_months by (simp add: month_balances_def)
qed simp

lemma lock_frozen: "lockPeriod i u db = Inr db' \<Longrightarrow> month_balances y m db' = month_balances y m db"
  by (auto simp: lockPeriod_def month_balances_def split: option.splits if_splits)

text \<open>C31. A closed or locked period receives no transaction: every transaction that an operation adds is dated
  in a period that was open (or in no period at all), so one dated in a closed period was there before.
  And no operation (posting, reversal, lock or rebuild) touches a stored period balance of a month that a closed
  or locked period covers.\<close>

theorem closed_period_is_frozen:
  assumes "inj gen" "ledger_wf gen db" "ledger_step D gen mode Q db db'"
  shows "(\<forall>t. t \<in> set (ld_transactions db') \<and> \<not> isPeriodOpen db (lt_date t) \<longrightarrow> lt_id t \<in> lt_id ` set (ld_transactions db))
    \<and> (\<forall>y m. period_frozen db y m \<longrightarrow> month_balances y m db' = month_balances y m db)"
proof (intro conjI allI impI)
  fix t assume assms': "t \<in> set (ld_transactions db') \<and> \<not> isPeriodOpen db (lt_date t)"
  have "t \<in> set (ld_transactions db) \<or> (\<exists>x i r. x \<in> set (ld_transactions db) \<and> t = marked i r x)"
    using ledger_step_forms [OF assms(1-3)]
  proof (elim disjE exE conjE)
    fix rq s es assume "created D gen rq s es db db'"
    then have a: "appended gen (\<lambda>x. x) s es db db'" by (simp add: created_def)
    show ?thesis using assms' appended_open [OF a] unfolding appended_txns [OF a] by auto
  next
    fix o' s es assume "reversed D gen o' s es db db'"
    then have a: "appended gen (marked (lt_id o') (lt_id s)) s es db db'" by (simp add: reversed_def)
    show ?thesis using assms' appended_open [OF a] unfolding appended_txns [OF a] by auto
  qed (use assms' in \<open>simp add: same_books_def\<close>)
  then show "lt_id t \<in> lt_id ` set (ld_transactions db)" by auto
next
  fix y m assume f: "period_frozen db y m"
  from assms(3) show "month_balances y m db' = month_balances y m db"
  proof cases
    case step_create
    then show ?thesis using posting_frozen f by blast
  next
    case step_reverse
    then show ?thesis using reversal_frozen f by blast
  next
    case step_lock
    then show ?thesis by (rule lock_frozen)
  next
    case step_rebuild
    then show ?thesis using rebuild_all_frozen [OF f] by (simp add: month_balances_def)
  qed
qed

definition acct_sample_locked :: LedgerDb where
  "acct_sample_locked = (case lockPeriod ''p2'' ''u'' acct_sample_db1 of Inr db \<Rightarrow> db | Inl _ \<Rightarrow> acct_sample_db1)"

lemma acct_sample_lock: "lockPeriod ''p2'' ''u'' acct_sample_db1 = Inr acct_sample_locked" "\<exists>db. lockPeriod ''p1'' ''u'' acct_sample_locked = Inr db"
  by (simp_all add: lockPeriod_def acct_sample_db1_def acct_sample_periods_def acct_sample_locked_def)

theorem closed_period_is_frozen_witness:
  "\<exists>db'. lockPeriod ''p1'' ''u'' acct_sample_locked = Inr db' \<and> \<not> isPeriodOpen acct_sample_locked (lt_date acct_sample_txn)
    \<and> lt_id acct_sample_txn \<in> lt_id ` set (ld_transactions acct_sample_locked)
    \<and> month_balances 2025 2 db' = month_balances 2025 2 acct_sample_locked"
proof -
  from acct_sample_lock(2) obtain db' where l: "lockPeriod ''p1'' ''u'' acct_sample_locked = Inr db'" by blast
  have wf: "ledger_wf acct_sample_gen acct_sample_locked"
    by (rule ledger_wf_step [OF acct_sample_gen_inj acct_sample_wf1(1) step_lock [where D = rat_decimal and mode = AR_off and Q = "\<lambda>_. True", OF acct_sample_lock(1)]])
  have c: "acct_sample_txn \<in> set (ld_transactions db')" "\<not> isPeriodOpen acct_sample_locked (lt_date acct_sample_txn)" "period_frozen acct_sample_locked 2025 2"
    using l by (auto simp: lockPeriod_def acct_sample_locked_def acct_sample_db1_def acct_sample_periods_def acct_sample_txn_def isPeriodOpen_def period_of_def
        period_frozen_def)
  note f = closed_period_is_frozen [OF acct_sample_gen_inj wf step_lock [where D = rat_decimal and mode = AR_off and Q = "\<lambda>_. True", OF l]]
  show ?thesis using f c l by blast
qed

end
