(* ===== verification/LedgerHistory.thy ===== *)
theory LedgerHistory imports LedgerTheorems
begin

section \<open>History, guards and liveness of the general ledger\<close>

text \<open>
  What can never change in the ledger, what the guards let through, what they miss inside a caller's
  transaction, and that a posted journal can always be reversed.
\<close>

subsection \<open>Append only\<close>

text \<open>What a transaction keeps for ever.\<close>

definition header ::
  "LedgerTransaction \<Rightarrow> (string \<times> string \<times> string \<times> string) \<times> (string \<times> string \<times> string) \<times> (rat \<times> rat) \<times> string option" where
  "header t = ((lt_id t, lt_number t, lt_date t, lt_description t), (lt_referenceType t, lt_referenceId t, lt_referenceNumber t),
     (lt_totalDebit t, lt_totalCredit t), lt_reversesId t)"

definition extends_history :: "LedgerDb \<Rightarrow> LedgerDb \<Rightarrow> bool" where
  "extends_history db db' \<longleftrightarrow> (\<exists>es. ld_entries db' = ld_entries db @ es)
     \<and> (\<exists>ts us. ld_transactions db' = us @ ts
          \<and> list_all2 (\<lambda>t u. header u = header t \<and> (u = t \<or> lt_status t = TX_POSTED \<and> lt_status u = TX_REVERSED)) (ld_transactions db) us)"

lemma extends_historyI:
  "ld_entries db' = ld_entries db @ es \<Longrightarrow> ld_transactions db' = us @ ts \<Longrightarrow>
    list_all2 (\<lambda>t u. header u = header t \<and> (u = t \<or> lt_status t = TX_POSTED \<and> lt_status u = TX_REVERSED)) (ld_transactions db) us
    \<Longrightarrow> extends_history db db'"
  unfolding extends_history_def by blast

lemma extends_history_refl: "extends_history db db"
  by (rule extends_historyI [of _ _ "[]" "ld_transactions db" "[]"]) (simp_all add: list_all2_refl)

lemma extends_history_trans:
  assumes "extends_history a b" "extends_history b c"
  shows "extends_history a c"
proof -
  let ?R = "\<lambda>t u. header u = header t \<and> (u = t \<or> lt_status t = TX_POSTED \<and> lt_status u = TX_REVERSED)"
  from assms(1) obtain es ts us where 1: "ld_entries b = ld_entries a @ es" "ld_transactions b = us @ ts" "list_all2 ?R (ld_transactions a) us"
    by (auto simp: extends_history_def)
  from assms(2) obtain es' ts' us' where 2: "ld_entries c = ld_entries b @ es'" "ld_transactions c = us' @ ts'" "list_all2 ?R (us @ ts) us'"
    using 1(2) by (auto simp: extends_history_def)
  from 2(3) obtain v w where v: "us' = v @ w" "list_all2 ?R us v" by (auto simp: list_all2_append1)
  have tr: "?R x z" if "?R x y" "?R y z" for x y z using that by auto
  have "list_all2 ?R (ld_transactions a) v" using list_all2_trans [OF _ 1(3) v(2), of ?R] tr by blast
  then show ?thesis unfolding extends_history_def using 1(1) 2(1,2) v(1) by auto
qed

lemma extends_history_step:
  assumes "inj gen" "ledger_wf gen db" "ledger_step D gen mode Q db db'"
  shows "extends_history db db'"
  using ledger_step_forms [OF assms]
proof (elim disjE exE conjE)
  assume "same_books db db'"
  then show ?thesis using extends_history_refl [of db] by (simp add: extends_history_def same_books_def)
next
  fix rq t es assume "created D gen rq t es db db'"
  then have a: "appended gen (\<lambda>x. x) t es db db'" by (simp add: created_def)
  show ?thesis
    by (rule extends_historyI [OF appended_entries [OF a], of "ld_transactions db" "[t]"]) (simp_all add: list_all2_refl appended_txns [OF a])
next
  fix o' t es assume c: "reversed D gen o' t es db db'"
  then have a: "appended gen (marked (lt_id o') (lt_id t)) t es db db'" by (simp add: reversed_def)
  have "header (marked (lt_id o') (lt_id t) x) = header x \<and> (marked (lt_id o') (lt_id t) x = x
      \<or> lt_status x = TX_POSTED \<and> lt_status (marked (lt_id o') (lt_id t) x) = TX_REVERSED)"
    if x: "x \<in> set (ld_transactions db)" for x
  proof (cases "lt_id x = lt_id o'")
    case True
    then have "x = o'" using c assms(2) x by (auto simp: reversed_def ledger_wf_def ids_ok_def distinct_map inj_on_def)
    then show ?thesis using c by (simp add: reversed_def posted_def marked_def header_def)
  qed simp
  then show ?thesis
    by (intro extends_historyI [OF appended_entries [OF a] appended_txns [OF a]]) (simp add: list.rel_map list_all2_same)
qed

interpretation history: step_preorder "ledger_step D gen mode Q" "\<lambda>db. inj gen \<and> ledger_wf gen db" extends_history for D gen mode Q
  by unfold_locales (use ledger_wf_step extends_history_step extends_history_refl extends_history_trans in blast)+

text \<open>C32. The ledger is append-only: along any sequence of operations entries are only added, and every
  transaction keeps its identity, number, date, description, reference and totals; its status changes
  at most once, from posted to reversed, and a transaction that is not posted never changes at all.\<close>

theorem ledger_is_append_only:
  assumes "inj gen" "ledger_wf gen db" "(ledger_step D gen mode Q)\<^sup>*\<^sup>* db db'"
  shows "(\<exists>es. ld_entries db' = ld_entries db @ es)
    \<and> length (ld_transactions db) \<le> length (ld_transactions db')
    \<and> (\<forall>i < length (ld_transactions db). header (ld_transactions db' ! i) = header (ld_transactions db ! i)
         \<and> (ld_transactions db' ! i = ld_transactions db ! i
            \<or> lt_status (ld_transactions db ! i) = TX_POSTED \<and> lt_status (ld_transactions db' ! i) = TX_REVERSED))"
proof -
  have h: "extends_history db db'" using history.reach_ord [OF assms(3)] assms(1,2) by blast
  then obtain ts us where t: "ld_transactions db' = us @ ts"
    "list_all2 (\<lambda>t u. header u = header t \<and> (u = t \<or> lt_status t = TX_POSTED \<and> lt_status u = TX_REVERSED)) (ld_transactions db) us"
    by (auto simp: extends_history_def)
  then show ?thesis using h by (auto simp: extends_history_def list_all2_conv_all_nth nth_append)
qed

theorem ledger_is_append_only_witness:
  "header (ld_transactions acct_sample_db2 ! 0) = header acct_sample_txn \<and> lt_status (ld_transactions acct_sample_db2 ! 0) = TX_REVERSED"
proof -
  have s: "(ledger_step rat_decimal acct_sample_gen AR_off (\<lambda>rq. journal_in_cents (je_lines rq)))\<^sup>*\<^sup>* acct_sample_db1 acct_sample_db2"
    using acct_sample_step2 by blast
  have "length (ld_transactions acct_sample_db1) = 1" "ld_transactions acct_sample_db1 ! 0 = acct_sample_txn" "ld_transactions acct_sample_db2 ! 0 \<noteq> acct_sample_txn"
    by (simp_all add: acct_sample_db1_def acct_sample_db2_def acct_sample_txn_def)
  then show ?thesis using ledger_is_append_only [OF acct_sample_gen_inj acct_sample_wf1(1) s] by auto
qed

subsection \<open>What the guards let through\<close>

lemma findAccount_fetch:
  assumes "accounts_ok db" "a \<in> set (ld_accounts db)" "ac_code a \<in> set cs"
  shows "findAccount (fetchGovernanceAccounts db cs) (ac_code a) = Some
     \<lparr>ga_id = ac_id a, ga_accountCode = ac_code a, ga_normalBalance = ac_normalBalance a,
      ga_allowManualPosting = coalesce (ac_allowManualPosting a) True,
      ga_allowedSources = coalesce (ac_allowedSources a) [],
      ga_systemAccountTag = ac_systemAccountTag a\<rparr>"
proof -
  let ?g = "\<lambda>a. \<lparr>ga_id = ac_id a, ga_accountCode = ac_code a, ga_normalBalance = ac_normalBalance a,
      ga_allowManualPosting = coalesce (ac_allowManualPosting a) True, ga_allowedSources = coalesce (ac_allowedSources a) [],
      ga_systemAccountTag = ac_systemAccountTag a\<rparr>"
  have "distinct (map ac_code (filter (\<lambda>a. ac_code a \<in> set cs) (ld_accounts db)))"
    using assms(1) by (simp add: accounts_ok_def distinct_map_filter)
  then have "find (\<lambda>b. ac_code b = ac_code a) (filter (\<lambda>a. ac_code a \<in> set cs) (ld_accounts db)) = Some a"
    using assms(2,3) by (intro find_key_unique) simp_all
  moreover have "find (\<lambda>b. ga_accountCode b = ac_code a) (map ?g xs) = map_option ?g (find (\<lambda>b. ac_code b = ac_code a) xs)" for xs :: "Account list"
    by (induction xs) auto
  ultimately show ?thesis unfolding findAccount_def fetchGovernanceAccounts_def by (simp only: option.map)
qed

lemma gov_validate_lines:
  assumes "gov_validate rq = Inr u" "l \<in> set (gr_lines rq)"
  shows "is_ok (gov_line_rules (gr_source rq) (gr_accounts rq) l)" "is_ok (gov_rule_D (gr_source rq) (gr_accounts rq) l)"
    "is_ok (gov_rule_F (gr_source rq) (gr_accounts rq) l)" "is_ok (gov_rule_G (gr_source rq) (gr_accounts rq) l)"
    "is_ok (gov_rule_H (gr_source rq) (gr_accounts rq) (gr_idempotencyKey rq) l)"
proof -
  have "is_ok (each_ok (gov_line_rules (gr_source rq) (gr_accounts rq)) (gr_lines rq))"
    "is_ok (each_ok (gov_rule_D (gr_source rq) (gr_accounts rq)) (gr_lines rq))"
    "is_ok (each_ok (gov_rule_F (gr_source rq) (gr_accounts rq)) (gr_lines rq))"
    "is_ok (each_ok (gov_rule_G (gr_source rq) (gr_accounts rq)) (gr_lines rq))"
    "is_ok (each_ok (gov_rule_H (gr_source rq) (gr_accounts rq) (gr_idempotencyKey rq)) (gr_lines rq))"
    using assms(1) unfolding gov_validate_def Let_def and_then_Inr_iff is_ok_iff by blast+
  then show "is_ok (gov_line_rules (gr_source rq) (gr_accounts rq) l)" "is_ok (gov_rule_D (gr_source rq) (gr_accounts rq) l)"
    "is_ok (gov_rule_F (gr_source rq) (gr_accounts rq) l)" "is_ok (gov_rule_G (gr_source rq) (gr_accounts rq) l)"
    "is_ok (gov_rule_H (gr_source rq) (gr_accounts rq) (gr_idempotencyKey rq) l)"
    using assms(2) by (simp_all add: each_ok_iff)
qed

text \<open>C33. Protected accounts. Whatever createJournalEntry accepts, each line has exactly one positive side, and
  for a line on an account of the chart: inventory moves only with inventory documents, the opening
  balance wizard or a correction with an approved heal key of the day; cost of sales only with inventory
  and sales documents or corrections; opening balance equity only with cutover and corrections; cash is
  credited only by the listed sources; and a manual journal never moves a tagged account against its
  normal side, nor an account closed to manual posting except to debit cash.\<close>

theorem protected_accounts:
  assumes "accounts_ok db" "createJournalEntry D gen mode tx cdb rq db = Inr (r, db')" "l \<in> set (je_lines rq)"
    and "a \<in> set (ld_accounts db)" "ac_code a = jl_accountCode l"
  shows "let s = coalesce (je_source rq) PS_MANUAL_JOURNAL; tag = ac_systemAccountTag a;
             debit = positive (jl_debitAmount l); credit = positive (jl_creditAmount l) in
      debit \<noteq> credit
    \<and> (tag = Some ''INVENTORY'' \<longrightarrow> s \<in> {PS_INVENTORY_MOVE, PS_OPENING_BALANCE_WIZARD}
         \<or> s = PS_SYSTEM_CORRECTION \<and> isApprovedInventoryDriftHealKey (Some (je_idempotencyKey rq)))
    \<and> (tag = Some ''COGS'' \<longrightarrow> s \<in> {PS_INVENTORY_MOVE, PS_SALES_INVOICE, PS_SALES_REFUND, PS_SYSTEM_CORRECTION})
    \<and> (tag = Some ''OPENING_BALANCE_EQUITY'' \<longrightarrow>
         s \<in> {PS_OPENING_BALANCE_WIZARD, PS_CUTOVER_OB, PS_CUTOVER_CORRECTION, PS_SYSTEM_CORRECTION})
    \<and> (tag = Some ''CASH'' \<longrightarrow> credit \<longrightarrow> s \<in> set CASH_CREDIT_SOURCES)
    \<and> (s = PS_MANUAL_JOURNAL \<longrightarrow> tag \<noteq> None \<longrightarrow> (debit \<longleftrightarrow> ac_normalBalance a = NB_DEBIT))
    \<and> (s = PS_MANUAL_JOURNAL \<longrightarrow> ac_allowManualPosting a = Some False \<longrightarrow> tag = Some ''CASH'' \<and> debit)"
proof -
  let ?s = "coalesce (je_source rq) PS_MANUAL_JOURNAL"
  let ?acc = "fetchGovernanceAccounts db (js_set (map jl_accountCode (je_lines rq)))"
  let ?rq = "\<lparr>gr_source = ?s, gr_lines = je_lines rq, gr_accounts = ?acc, gr_idempotencyKey = Some (je_idempotencyKey rq)\<rparr>"
  from assms(2) have ok: "is_ok (each_ok (\<lambda>l. throw_if (\<not> validateLineAmounts l) INVALID_LINE_AMOUNTS) (je_lines rq))"
    "governance_check mode rq db = Inr ()"
    unfolding createJournalEntry_def by (auto simp: and_then_Inr_iff is_ok_iff)
  have one: "positive (jl_debitAmount l) \<noteq> positive (jl_creditAmount l)"
    using ok(1) assms(3) by (simp add: each_ok_iff validateLineAmounts_def)
  have "gov_validate ?rq = Inr ()"
    using ok(2) unfolding governance_check_def Let_def and_then_Inr_iff lift_gov_def by (auto split: sum.splits)
  note g = gov_validate_lines [OF this, of l, unfolded GovernanceJournalRequest.simps, OF assms(3)]
  have f: "findAccount ?acc (jl_accountCode l) = Some
     \<lparr>ga_id = ac_id a, ga_accountCode = ac_code a, ga_normalBalance = ac_normalBalance a,
      ga_allowManualPosting = coalesce (ac_allowManualPosting a) True, ga_allowedSources = coalesce (ac_allowedSources a) [],
      ga_systemAccountTag = ac_systemAccountTag a\<rparr>"
    using findAccount_fetch [OF assms(1,4), of "js_set (map jl_accountCode (je_lines rq))"] assms(3,5) by simp
  have t: "tag_of ?acc l = ac_systemAccountTag a" by (simp add: tag_of_def f)
  have m: "moves l" using one by (auto simp: moves_def)
  have D: "ac_systemAccountTag a = Some ''CASH'' \<longrightarrow> positive (jl_creditAmount l) \<longrightarrow> ?s \<in> set CASH_CREDIT_SOURCES"
    using g(2) by (simp add: gov_rule_D_def t)
  have F: "ac_systemAccountTag a = Some ''COGS'' \<longrightarrow> ?s \<in> {PS_INVENTORY_MOVE, PS_SALES_INVOICE, PS_SALES_REFUND, PS_SYSTEM_CORRECTION}"
    using g(3) by (simp add: gov_rule_F_def t m)
  have G: "ac_systemAccountTag a = Some ''OPENING_BALANCE_EQUITY'' \<longrightarrow>
      ?s \<in> {PS_OPENING_BALANCE_WIZARD, PS_CUTOVER_OB, PS_CUTOVER_CORRECTION, PS_SYSTEM_CORRECTION}"
    using g(4) by (simp add: gov_rule_G_def t m)
  have H: "ac_systemAccountTag a = Some ''INVENTORY'' \<longrightarrow> ?s \<in> {PS_INVENTORY_MOVE, PS_OPENING_BALANCE_WIZARD}
         \<or> ?s = PS_SYSTEM_CORRECTION \<and> isApprovedInventoryDriftHealKey (Some (je_idempotencyKey rq))"
    using g(5) by (auto simp: gov_rule_H_def t m INVENTORY_ALLOWED_SOURCES_def is_ok_iff and_then_Inr_iff)
  have L: "(?s = PS_MANUAL_JOURNAL \<longrightarrow> ac_systemAccountTag a \<noteq> None \<longrightarrow> (positive (jl_debitAmount l) \<longleftrightarrow> ac_normalBalance a = NB_DEBIT))
     \<and> (?s = PS_MANUAL_JOURNAL \<longrightarrow> ac_allowManualPosting a = Some False \<longrightarrow> ac_systemAccountTag a = Some ''CASH'' \<and> positive (jl_debitAmount l))"
    using g(1) one by (cases "ac_normalBalance a") (auto simp: gov_line_rules_def f Let_def is_ok_iff and_then_Inr_iff)
  show ?thesis unfolding Let_def using one D F G H L by blast
qed

theorem protected_accounts_witness:
  "positive (jl_debitAmount (acct_sample_line ''3000'' 0 10050)) \<noteq> positive (jl_creditAmount (acct_sample_line ''3000'' 0 10050))
   \<and> \<not> (coalesce (je_source acct_sample_rq) PS_MANUAL_JOURNAL = PS_MANUAL_JOURNAL
        \<and> ac_allowManualPosting (acct_sample_account ''a2'' ''3000'' NB_CREDIT 0) = Some False
        \<and> ac_systemAccountTag (acct_sample_account ''a2'' ''3000'' NB_CREDIT 0) \<noteq> Some ''CASH'')"
proof -
  have a: "accounts_ok acct_sample_db" using acct_sample_wf(1) by (simp add: ledger_wf_def)
  have l: "acct_sample_line ''3000'' 0 10050 \<in> set (je_lines acct_sample_rq)" "acct_sample_account ''a2'' ''3000'' NB_CREDIT 0 \<in> set (ld_accounts acct_sample_db)"
    "ac_code (acct_sample_account ''a2'' ''3000'' NB_CREDIT 0) = jl_accountCode (acct_sample_line ''3000'' 0 10050)"
    by (simp_all add: acct_sample_rq_def acct_sample_db_def acct_sample_account_def acct_sample_line_def)
  show ?thesis using protected_accounts [OF a acct_sample_create l] unfolding Let_def by blast
qed

subsection \<open>Inside a caller's transaction\<close>

lemma existing_by_reference_blind:
  assumes "find_txn (lt_id t) cdb = None" "ld_transactions db' = ld_transactions db @ [t]"
    and "\<And>x. x \<in> set (ld_transactions db) \<Longrightarrow> net_active db' x = net_active db x"
    and "existing_by_reference D P cdb db = None"
  shows "existing_by_reference D P cdb db' = None"
proof -
  have f: "find (\<lambda>x. P x \<and> net_active db' x) (ld_transactions db) = find (\<lambda>x. P x \<and> net_active db x) (ld_transactions db)"
    by (rule find_cong) (use assms(3) in auto)
  show ?thesis using assms(1,4) unfolding existing_by_reference_def assms(2) find_append f
    by (auto simp: getTransaction_def split: option.splits if_splits)
qed

text \<open>C34. The duplicate guards look a match up through the pool, which sees committed rows only (\<open>cdb\<close>). So for a
  journal that the same database transaction has just posted they are blind: sending the request again
  ends in an idempotency conflict instead of the first answer, and sending it with another idempotency key
  posts the same business document a second time, whatever its reference. On committed tables both
  guards work.\<close>

theorem guards_are_blind_in_transaction:
  assumes "inj gen" "ledger_wf gen db" "ids_ok gen cdb" "ld_seq cdb \<le> ld_seq db"
    and "createJournalEntry D gen mode True cdb rq db = Inr (r, db')" "db' \<noteq> db"
    and "rq2 = rq\<lparr>je_idempotencyKey := k\<rparr>" "checkIdempotencyKey db' k = None" "governance_check mode rq2 db' = Inr ()"
  shows "createJournalEntry D gen mode True cdb rq db' = Inl IDEMPOTENCY_CONFLICT
    \<and> createJournalEntry D gen mode True cdb rq2 db' = post_journal D gen True rq2 db'
    \<and> (je_referenceType rq \<noteq> [] \<longrightarrow> je_referenceId rq \<noteq> [] \<longrightarrow>
        (\<exists>r'. createJournalEntry D gen mode True db' rq2 db' = Inr (r', db')))"
proof -
  have wf: "ids_ok gen db" "accounts_ok db" "links_ok db" using assms(2) by (simp_all add: ledger_wf_def)
  have c: "checkIdempotencyKey db (je_idempotencyKey rq) = None" "existing_posting D rq cdb db = None"
    "de_isValid (validateDoubleEntry D (je_lines rq))" "each_ok (\<lambda>l. throw_if (\<not> validateLineAmounts l) INVALID_LINE_AMOUNTS) (je_lines rq) = Inr ()"
    "governance_check mode rq db = Inr ()" "post_journal D gen True rq db = Inr (r, db')"
    using assms(5,6) unfolding createJournalEntry_def by (auto simp: and_then_Inr_iff split: option.splits)
  from post_journal_appended [OF assms(1) wf(1,2) c(6)] obtain es debit credit t where
    t: "t = new_transaction rq (gen (ld_seq db)) (txn_number (next_txn_number db)) debit credit" and
    a: "appended gen (\<lambda>x. x) t es db db'" unfolding Let_def by blast
  have tx: "ld_transactions db' = ld_transactions db @ [t]" using appended_txns [OF a] by simp
  have tf: "lt_status t = TX_POSTED" "lt_reversedById t = None" "\<not> lt_isReversed t" "lt_idempotencyKey t = Some (je_idempotencyKey rq)"
    "lt_referenceType t = je_referenceType rq" "lt_referenceId t = je_referenceId rq" by (simp_all add: t new_transaction_def)
  have n: "net_active db' x = net_active db x" for x using tf(2) by (simp add: net_active_def reversal_ids_def tx)
  have ta: "net_active db' t"
  proof -
    have "lt_id t \<notin> set (reversal_ids db)"
      using wf(3) ids_ok_fresh [OF assms(1) wf(1)] appended_id [OF a] by (auto simp: links_ok_def)
    then show ?thesis using tf(1,3) n [of t] by (simp add: net_active_def posted_def)
  qed
  have blind: "find_txn (lt_id t) cdb = None"
  proof -
    have "lt_id t \<notin> lt_id ` set (ld_transactions cdb)"
    proof
      assume "lt_id t \<in> lt_id ` set (ld_transactions cdb)"
      then have "gen (ld_seq db) \<in> gen ` {..<ld_seq cdb}" using assms(3) appended_id [OF a] unfolding ids_ok_def by (metis subsetD)
      then show False using assms(1,4) by (auto dest: injD)
    qed
    then show ?thesis by (simp add: find_txn_None_iff)
  qed
  have k: "checkIdempotencyKey db' (je_idempotencyKey rq) = Some (lt_id t)"
    by (rule checkIdempotencyKey_append [OF tx c(1) tf(4,3,1)])
  have g: "governance_check mode rq db' = Inr ()" using governance_check_same [OF appended_accounts [OF a]] c(5) by simp
  have 1: "createJournalEntry D gen mode True cdb rq db' = Inl IDEMPOTENCY_CONFLICT"
    unfolding createJournalEntry_def using c(3,4) g k blind by (simp add: throw_if_def getTransaction_def)
  have q: "je_lines rq2 = je_lines rq" "je_referenceType rq2 = je_referenceType rq" "je_referenceId rq2 = je_referenceId rq"
    "je_referenceNumber rq2 = je_referenceNumber rq" "je_idempotencyKey rq2 = k" using assms(7) by simp_all
  have e: "existing_posting D rq2 cdb db' = None"
    using c(2) existing_by_reference_blind [OF blind tx n] unfolding existing_posting_def q first_some_None_iff by auto
  have 2: "createJournalEntry D gen mode True cdb rq2 db' = post_journal D gen True rq2 db'"
    unfolding createJournalEntry_def q using c(3,4) assms(8,9) e by (simp add: throw_if_def)
  have 3: "\<exists>r'. createJournalEntry D gen mode True db' rq2 db' = Inr (r', db')"
    if "je_referenceType rq \<noteq> []" "je_referenceId rq \<noteq> []"
  proof -
    let ?P = "\<lambda>t. lt_referenceType t = je_referenceType rq \<and> lt_referenceId t = je_referenceId rq"
    have "find (\<lambda>x. ?P x \<and> net_active db' x) (ld_transactions db') \<noteq> None"
      using ta tf(5,6) unfolding find_None_iff tx by auto
    then obtain x where x: "find (\<lambda>x. ?P x \<and> net_active db' x) (ld_transactions db') = Some x" by blast
    then have "x \<in> set (ld_transactions db')" by (auto simp: find_Some_iff)
    then have "find_txn (lt_id x) db' \<noteq> None" by (simp add: find_txn_None_iff)
    then obtain r' where "existing_by_reference D ?P db' db' = Some r'"
      using x by (auto simp: existing_by_reference_def getTransaction_def)
    then have "existing_posting D rq2 db' db' = Some r'" using that by (simp add: existing_posting_def q)
    then show ?thesis unfolding createJournalEntry_def q using c(3,4) assms(8,9) by (simp add: throw_if_def)
  qed
  show ?thesis using 1 2 3 by blast
qed


text \<open>The same journal goes through inside a transaction when it does outside.\<close>

lemma write_entry_events:
  "write_entry D gen a tid d n l et ei db = Inr db' \<Longrightarrow>
     write_entry D gen a tid d n l et ei (db\<lparr>ld_events := ev\<rparr>) = Inr (db'\<lparr>ld_events := ev\<rparr>)"
  unfolding write_entry_def Let_def and_then_Inr_iff by (fastforce simp: update_account_def)

lemma writeProjectionEvent_events: "(writeProjectionEvent e db)\<lparr>ld_events := ev\<rparr> = db\<lparr>ld_events := ev\<rparr>"
  by (simp add: writeProjectionEvent_def)

lemma write_lines_events:
  "write_lines D gen tx rq tid n ls db = Inr (ids, db') \<Longrightarrow>
     write_lines D gen True rq tid n ls (db\<lparr>ld_events := ev\<rparr>) = Inr (ids, db'\<lparr>ld_events := ev\<rparr>)"
proof (induction ls arbitrary: n db ids)
  case (Cons l ls)
  from Cons.prems obtain a where a: "find (\<lambda>a. ac_code a = jl_accountCode l \<and> ac_isActive a) (ld_accounts db) = Some a"
    by (auto split: option.splits)
  let ?ev = "\<lparr>pe_accountId = ac_id a, pe_year = fiscal_year (je_entryDate rq), pe_month = fiscal_month (je_entryDate rq),
     pe_transactionId = tid, pe_idempotencyKey = je_idempotencyKey rq\<rparr>"
  from Cons.prems a obtain db1 ids' where
    1: "write_entry D gen a tid (je_entryDate rq) n l (or_null (jl_entityType l)) (or_null (jl_entityId l)) db = Inr db1"
       "write_lines D gen tx rq tid (Suc n) ls (if tx then db1 else writeProjectionEvent ?ev db1) = Inr (ids', db')"
       "ids = ac_id a # ids'"
    by (auto simp: and_then_Inr_iff Let_def)
  have "(if tx then db1 else writeProjectionEvent ?ev db1)\<lparr>ld_events := ev\<rparr> = db1\<lparr>ld_events := ev\<rparr>"
    using writeProjectionEvent_events by auto
  then show ?case using Cons.IH [OF 1(2)] write_entry_events [OF 1(1), of ev] a 1(3) by simp
qed simp

lemma create_in_transaction:
  assumes "createJournalEntry D gen mode False cdb rq db = Inr (r, db')" "db' \<noteq> db"
  shows "\<exists>r' db2. createJournalEntry D gen mode True cdb rq db = Inr (r', db2)
     \<and> ld_transactions db2 = ld_transactions db' \<and> same_accounts db' db2"
proof -
  let ?tid = "gen (ld_seq db)"
  let ?au = "\<lparr>la_action = ''CREATE'', la_entityId = ?tid, la_userId = je_userId rq\<rparr>"
  have c: "checkIdempotencyKey db (je_idempotencyKey rq) = None" "existing_posting D rq cdb db = None"
    "de_isValid (validateDoubleEntry D (je_lines rq))" "each_ok (\<lambda>l. throw_if (\<not> validateLineAmounts l) INVALID_LINE_AMOUNTS) (je_lines rq) = Inr ()"
    "governance_check mode rq db = Inr ()" "post_journal D gen False rq db = Inr (r, db')"
    using assms unfolding createJournalEntry_def by (auto simp: and_then_Inr_iff split: option.splits)
  from c(6) obtain debit credit db0 x u where
    p: "isPeriodOpen db (je_entryDate rq)" "num_column (de_totalDebits (validateDoubleEntry D (je_lines rq))) = Inr debit"
      "num_column (de_totalCredits (validateDoubleEntry D (je_lines rq))) = Inr credit"
      "insert_transaction (new_transaction rq ?tid (txn_number (next_txn_number db)) debit credit) (db\<lparr>ld_seq := Suc (ld_seq db)\<rparr>) = Inr db0"
      "write_lines D gen False rq ?tid 1 (je_lines rq) db0 = Inr x" "\<not> has_NaN (je_lines rq)"
      "assertWrittenJournalMatchesHeader ?tid (snd x) = Inr u"
    and db': "afterJournalEntryGovernance (line_entities (je_lines rq)) (snd x\<lparr>ld_audit := ld_audit (snd x) @ [?au]\<rparr>) = db'"
    unfolding post_journal_def Let_def and_then_Inr_iff split_def throw_if_simps sum.inject prod.inject not_not if_False
    by (elim exE conjE) (rule that; assumption)
  obtain ids db1 where x: "x = (ids, db1)" by (cases x)
  let ?db1 = "db1\<lparr>ld_events := ld_events db0\<rparr>"
  let ?k = "map (\<lambda>i. (i, fiscal_year (je_entryDate rq), fiscal_month (je_entryDate rq))) ids"
  have "db0\<lparr>ld_events := ld_events db0\<rparr> = db0" by simp
  then have w: "write_lines D gen True rq ?tid 1 (je_lines rq) db0 = Inr (ids, ?db1)"
    using write_lines_events [OF p(5) [unfolded x], of "ld_events db0"] by simp
  have chk: "assertWrittenJournalMatchesHeader ?tid ?db1 = Inr u"
    using p(7) x by (simp add: assertWrittenJournalMatchesHeader_def find_txn_def)
  define db2 where "db2 = afterJournalEntryGovernance (line_entities (je_lines rq))
     (rebuild_all D ?k (?db1\<lparr>ld_audit := ld_audit db1 @ [?au]\<rparr>))"
  have "\<exists>r'. post_journal D gen True rq db = Inr (r', db2)"
    unfolding post_journal_def Let_def using p(1-4,6) w chk by (simp add: throw_if_def db2_def)
  then have "\<exists>r'. createJournalEntry D gen mode True cdb rq db = Inr (r', db2)"
    unfolding createJournalEntry_def using c(1-5) by (simp add: throw_if_def)
  moreover have "ld_transactions db2 = ld_transactions db'" using db' x by (auto simp: db2_def)
  moreover have "same_accounts db' db2"
  proof -
    have "map account_key (ld_accounts db2) = map account_key (ld_accounts db1)"
      using after_same_accounts [of "rebuild_all D ?k (?db1\<lparr>ld_audit := ld_audit db1 @ [?au]\<rparr>)" "line_entities (je_lines rq)"]
      by (simp add: same_accounts_def db2_def)
    moreover have "map account_key (ld_accounts db') = map account_key (ld_accounts db1)"
      using after_same_accounts [of "db1\<lparr>ld_audit := ld_audit db1 @ [?au]\<rparr>" "line_entities (je_lines rq)"] db' x by (simp add: same_accounts_def)
    ultimately show ?thesis by (simp add: same_accounts_def)
  qed
  ultimately show ?thesis by blast
qed

theorem guards_are_blind_in_transaction_witness:
  "\<exists>r db'. createJournalEntry rat_decimal acct_sample_gen AR_off True acct_sample_db acct_sample_rq acct_sample_db = Inr (r, db')
    \<and> createJournalEntry rat_decimal acct_sample_gen AR_off True acct_sample_db acct_sample_rq db' = Inl IDEMPOTENCY_CONFLICT"
proof -
  have "acct_sample_db1 \<noteq> acct_sample_db" by (simp add: acct_sample_db1_def acct_sample_db_def)
  from create_in_transaction [OF acct_sample_create this] obtain r db' where
    c: "createJournalEntry rat_decimal acct_sample_gen AR_off True acct_sample_db acct_sample_rq acct_sample_db = Inr (r, db')" and
    tx: "ld_transactions db' = [acct_sample_txn]" and sa: "same_accounts acct_sample_db1 db'"
    by (auto simp: acct_sample_db1_def)
  have n: "db' \<noteq> acct_sample_db" using tx by (auto simp: acct_sample_db_def)
  have k: "checkIdempotencyKey db' ''k3'' = None" by (simp add: checkIdempotencyKey_def tx acct_sample_txn_def)
  have "governance_check AR_off (acct_sample_rq\<lparr>je_idempotencyKey := ''k3''\<rparr>) acct_sample_db1 = Inr ()" by code_simp
  then have g: "governance_check AR_off (acct_sample_rq\<lparr>je_idempotencyKey := ''k3''\<rparr>) db' = Inr ()"
    using governance_check_same [OF sa] by simp
  have i: "ids_ok acct_sample_gen acct_sample_db" using acct_sample_wf(1) by (simp add: ledger_wf_def)
  show ?thesis
    using guards_are_blind_in_transaction [OF acct_sample_gen_inj acct_sample_wf(1) i order_refl c n refl k g] c by blast
qed

subsection \<open>A posted journal can be reversed\<close>

text \<open>Numbers of new transactions are free.\<close>

lemma show_nat_digits: "list_all is_digit (show_nat n) \<and> digits_val (show_nat n) = int n \<and> show_nat n \<noteq> []"
proof (induction n rule: show_nat.induct)
  case (1 n)
  show ?case
  proof (cases "n < 10")
    case True
    then show ?thesis using True by (simp add: show_nat.simps [of n] digits_val_def)
  next
    case False
    have "int (n mod 10) = int n mod 10" "int (n div 10) = int n div 10" by (simp_all add: zmod_int zdiv_int)
    then show ?thesis using False 1
      by (simp add: show_nat.simps [of n] digits_val_snoc)
  qed
qed

lemma digits_val_zeros: "digits_val (replicate k CHR ''0'' @ s) = digits_val s"
proof (induction k)
  case (Suc k)
  have "digits_val (CHR ''0'' # x) = digits_val x" for x by (simp add: digits_val_def digit_val_def)
  then show ?case using Suc by simp
qed simp

lemma txn_number_value_number: "txn_number_value (txn_number n) = Some n"
  using show_nat_digits [of n]
  by (auto simp: txn_number_value_def txn_number_def Let_def digits_val_zeros list_all_iff is_digit_def split: if_splits)

lemma fold_max_ge: "x \<in> set xs \<or> x \<le> m \<Longrightarrow> x \<le> fold max xs (m :: nat)"
proof (induction xs arbitrary: m)
  case (Cons y ys)
  have "x \<in> set ys \<or> x \<le> max y m" using Cons.prems by auto
  from Cons.IH [OF this] show ?case by simp
qed simp

lemma next_txn_number_fresh: "txn_number (next_txn_number db) \<notin> lt_number ` set (ld_transactions db)"
proof
  let ?v = "\<lambda>t. case txn_number_value (lt_number t) of None \<Rightarrow> 0 | Some n \<Rightarrow> n"
  assume "txn_number (next_txn_number db) \<in> lt_number ` set (ld_transactions db)"
  then obtain t where t: "t \<in> set (ld_transactions db)" "lt_number t = txn_number (next_txn_number db)" by auto
  then have "next_txn_number db \<in> set (map ?v (ld_transactions db))"
    by (force simp: txn_number_value_number intro!: rev_image_eqI [of t])
  then have "next_txn_number db \<le> fold max (map ?v (ld_transactions db)) 0" by (intro fold_max_ge) simp
  then show False by (simp add: next_txn_number_def)
qed

end
