(* ===== verification/TreasuryRules.thy ===== *)
theory TreasuryRules imports PostingGovernance Money
begin

section \<open>Treasury documents: types and invariants\<close>

text \<open>
  \<open>shared/treasury/treasuryTypes.ts\<close> and \<open>shared/treasury/treasuryInvariants.ts\<close>: the document,
  status and line types, the liquidity accounts, the posting source of a document type and the
  checks TD-INV-1 and TD-INV-3 to TD-INV-7. A \<open>TreasuryInvariantError\<close> is kept as its code; the
  messages are left out. What the balance check decides on amounts in whole cents, where the
  tolerance 0.009 never lets a cent through, is in \<open>TreasuryBalance\<close>.
\<close>

subsection \<open>Types\<close>

datatype TreasuryDocumentType =
    DEPOSIT_WORKSHEET | TREASURY_TRANSFER | PETTY_CASH | CASH_WITHDRAWAL | CASH_DEPOSIT
  | CARD_SETTLEMENT | MOBILE_MONEY_SETTLEMENT | VAT_REMITTANCE | WHT_REMITTANCE | TREASURY_REVERSAL

datatype TreasuryDocumentStatus = TD_DRAFT | TD_PENDING_APPROVAL | TD_POSTED | TD_CANCELLED

datatype TreasuryLineType =
    RECEIPT_APPLICATION | ACCOUNT_MOVE | ADJUSTMENT | FEE | SHORTAGE | OVERAGE

datatype TdCode =
    TD_INV_1_NO_LINES | TD_INV_1_UNBALANCED | TD_INV_1_ZERO_TOTAL
  | TD_INV_3_IMMUTABLE | TD_INV_3_CANCELLED
  | TD_INV_4_ZERO | TD_INV_4_EXCEEDS | TD_INV_5_FULLY_SETTLED | TD_INV_5_BAD_STATUS
  | TD_INV_6_NO_ACCOUNTS | TD_INV_6_NON_LIQUIDITY
  | TD_INV_7_CREATED_BY | TD_INV_7_POSTED_AT | TD_INV_7_JOURNAL | TD_INV_7_APPROVER
  | TD_LINE_BOTH_SIDES | TD_LINE_NEGATIVE
  | TD_STATUS_NOT_DRAFT | TD_ALREADY_POSTED | TD_REQUIRES_APPROVAL | TD_BAD_STATUS

definition LIQUIDITY_ACCOUNT_TAGS :: "string list" where
  "LIQUIDITY_ACCOUNT_TAGS = [''CASH'', ''PETTY_CASH'', ''UNDEPOSITED_FUNDS'', ''BANK'', ''CARD_CLEARING'', ''MOBILE_MONEY'']"

definition LIQUIDITY_ACCOUNT_CODES :: "string list" where
  "LIQUIDITY_ACCOUNT_CODES = [''1010'', ''1012'', ''1015'', ''1020'', ''1030'', ''1040'']"

definition isLiquidityAccountCode :: "string \<Rightarrow> bool" where
  "isLiquidityAccountCode code \<longleftrightarrow> code \<in> set LIQUIDITY_ACCOUNT_CODES"

definition isLiquidityAccountTag :: "string option \<Rightarrow> bool" where
  "isLiquidityAccountTag tag = (case tag of None \<Rightarrow> False | Some t \<Rightarrow> t \<in> set LIQUIDITY_ACCOUNT_TAGS)"

record TreasuryDocumentLineInput =
  li_lineType :: "TreasuryLineType option"
  li_accountCode :: string
  li_description :: "string option"
  li_debitAmount :: "jnum option"
  li_creditAmount :: "jnum option"
  li_amount :: "jnum option"
  li_sourceReceiptId :: "string option"
  li_sourcePaymentId :: "string option"
  li_sourceSessionMovementId :: "string option"
  li_memo :: "string option"

fun postingSourceForDocumentType :: "TreasuryDocumentType \<Rightarrow> PostingSource" where
  "postingSourceForDocumentType DEPOSIT_WORKSHEET = PS_TREASURY_DEPOSIT"
| "postingSourceForDocumentType CARD_SETTLEMENT = PS_TREASURY_DEPOSIT"
| "postingSourceForDocumentType MOBILE_MONEY_SETTLEMENT = PS_TREASURY_DEPOSIT"
| "postingSourceForDocumentType PETTY_CASH = PS_TREASURY_PETTY_CASH"
| "postingSourceForDocumentType TREASURY_REVERSAL = PS_TREASURY_REVERSAL"
| "postingSourceForDocumentType WHT_REMITTANCE = PS_WHT_REMITTANCE"
| "postingSourceForDocumentType VAT_REMITTANCE = PS_VAT_REMITTANCE"
| "postingSourceForDocumentType _ = PS_TREASURY_TRANSFER"

subsection \<open>Invariants\<close>

text \<open>The tolerance of the comparisons.\<close>

definition td_epsilon :: jnum where
  "td_epsilon = lit (9 / 1000)"

text \<open>TD-INV-1, on the debit and credit amounts of the lines.\<close>

definition assertBalancedLines :: "(jnum option \<times> jnum option) list \<Rightarrow> (TdCode, jnum \<times> jnum) result" where
  "assertBalancedLines lines =
     (let totalDebits = foldl (\<lambda>t l. roundMoney (jadd t (coalesce (fst l) (Fin 0)))) (Fin 0) lines;
          totalCredits = foldl (\<lambda>t l. roundMoney (jadd t (coalesce (snd l) (Fin 0)))) (Fin 0) lines in
      and_then (throw_if (lines = []) TD_INV_1_NO_LINES) (\<lambda>_.
      and_then (throw_if (jlt td_epsilon (jabs (jsub totalDebits totalCredits))) TD_INV_1_UNBALANCED) (\<lambda>_.
      and_then (throw_if (jle totalDebits (Fin 0)) TD_INV_1_ZERO_TOTAL) (\<lambda>_.
      Inr (totalDebits, totalCredits)))))"

text \<open>TD-INV-3\<close>

definition assertMutableStatus :: "TreasuryDocumentStatus \<Rightarrow> (TdCode, unit) result" where
  "assertMutableStatus status =
     and_then (throw_if (status = TD_POSTED) TD_INV_3_IMMUTABLE) (\<lambda>_.
     throw_if (status = TD_CANCELLED) TD_INV_3_CANCELLED)"

text \<open>TD-INV-7: creator, time of posting, journal, whether approval was required, and approver.\<close>

definition assertPostedAuditFields ::
  "string option \<Rightarrow> string option \<Rightarrow> string option \<Rightarrow> bool \<Rightarrow> string option \<Rightarrow> (TdCode, unit) result" where
  "assertPostedAuditFields createdBy postedAt journalEntryId requiresApproval approvedBy =
     and_then (throw_if (\<not> truthy_str createdBy) TD_INV_7_CREATED_BY) (\<lambda>_.
     and_then (throw_if (\<not> truthy_str postedAt) TD_INV_7_POSTED_AT) (\<lambda>_.
     and_then (throw_if (\<not> truthy_str journalEntryId) TD_INV_7_JOURNAL) (\<lambda>_.
     throw_if (requiresApproval \<and> \<not> truthy_str approvedBy) TD_INV_7_APPROVER)))"

text \<open>TD-INV-4\<close>

definition assertSettlementCeiling :: "jnum \<Rightarrow> jnum \<Rightarrow> (TdCode, unit) result" where
  "assertSettlementCeiling applyAmount residualAmount =
     (let apply = roundMoney applyAmount; residual = roundMoney residualAmount in
      and_then (throw_if (jle apply (Fin 0)) TD_INV_4_ZERO) (\<lambda>_.
      throw_if (jlt td_epsilon (jsub apply residual)) TD_INV_4_EXCEEDS))"

text \<open>TD-INV-5, with the statuses of \<open>receiptSettlementRepository.ts\<close>.\<close>

datatype SettlementStatus = UNSETTLED | PARTIALLY_SETTLED | SETTLED

definition assertDepositConsumesUnsettled :: "SettlementStatus \<Rightarrow> jnum \<Rightarrow> (TdCode, unit) result" where
  "assertDepositConsumesUnsettled status residualAmount =
     and_then (throw_if (jle (roundMoney residualAmount) td_epsilon) TD_INV_5_FULLY_SETTLED) (\<lambda>_.
     throw_if (status \<noteq> UNSETTLED \<and> status \<noteq> PARTIALLY_SETTLED) TD_INV_5_BAD_STATUS)"

text \<open>TD-INV-6, on account codes with their tags.\<close>

definition assertLiquidityAccountsOnly :: "(string \<times> string option) list \<Rightarrow> (TdCode, unit) result" where
  "assertLiquidityAccountsOnly accounts =
     and_then (throw_if (accounts = []) TD_INV_6_NO_ACCOUNTS) (\<lambda>_.
     each_ok (\<lambda>(code, tag). throw_if (\<not> (isLiquidityAccountCode code \<or> isLiquidityAccountTag tag)) TD_INV_6_NON_LIQUIDITY) accounts)"

record LineAmounts =
  na_debitAmount :: jnum
  na_creditAmount :: jnum
  na_amount :: jnum

definition normalizeLineAmounts :: "TreasuryDocumentLineInput \<Rightarrow> (TdCode, LineAmounts) result" where
  "normalizeLineAmounts line =
     (let debit = roundMoney (coalesce (li_debitAmount line) (Fin 0));
          credit = roundMoney (coalesce (li_creditAmount line) (Fin 0)) in
      and_then (throw_if (jlt (Fin 0) debit \<and> jlt (Fin 0) credit) TD_LINE_BOTH_SIDES) (\<lambda>_.
      and_then (throw_if (jlt debit (Fin 0) \<or> jlt credit (Fin 0)) TD_LINE_NEGATIVE) (\<lambda>_.
      if jeq debit (Fin 0) \<and> jeq credit (Fin 0)
      then let amount = roundMoney (coalesce (li_amount line) (Fin 0)) in
           and_then (throw_if (jlt amount (Fin 0)) TD_LINE_NEGATIVE) (\<lambda>_.
           Inr \<lparr>na_debitAmount = amount, na_creditAmount = Fin 0, na_amount = amount\<rparr>)
      else Inr \<lparr>na_debitAmount = debit, na_creditAmount = credit,
                na_amount = (if jlt (Fin 0) debit then debit else credit)\<rparr>)))"

definition lineDebitCredit :: "jnum option \<Rightarrow> jnum option \<Rightarrow> jnum option \<Rightarrow> jnum \<times> jnum" where
  "lineDebitCredit debitAmount creditAmount amount =
     (let debit = roundMoney (coalesce debitAmount (Fin 0)); credit = roundMoney (coalesce creditAmount (Fin 0)) in
      if jlt (Fin 0) debit \<or> jlt (Fin 0) credit then (debit, credit)
      else let amount = roundMoney (coalesce amount (Fin 0)) in
           if jlt (Fin 0) amount then (amount, Fin 0) else (Fin 0, Fin 0))"

end
