(* ===== verification/Treasury.thy ===== *)
theory Treasury imports TreasuryRules Ledger
begin

section \<open>Treasury documents: tables and repositories\<close>

text \<open>
  The tables of \<open>shared/sql/541\<close> and \<open>542\<close> with their constraints, and the operations of
  \<open>modules/treasury/treasuryRepository.ts\<close> and \<open>receiptSettlementRepository.ts\<close> on them. The state
  holds the ledger beside the treasury tables, the bank register and the columns of payments and
  accounts that the module reads. An operation returns the new state or an error and then, run in a
  database transaction, leaves the state as it was.

  NUMERIC(18,2) columns are rationals. A number read from one is the double nearest to it. The
  amounts of a request are not NaN, which the route schemas refuse. Times are arguments. Identifiers
  come from \<open>gen\<close>; a repeated primary key is refused as the database does. Display columns
  (customer, method, details of audit events) are left out, and so are references to users.
\<close>

subsection \<open>Rows\<close>

text \<open>A document header, with the database's amounts (\<open>rat\<close>) or the program's (\<open>jnum\<close>).\<close>

record 'n DocumentHeader =
  td_id :: string
  td_documentNumber :: string
  td_documentType :: TreasuryDocumentType
  td_status :: TreasuryDocumentStatus
  td_currencyCode :: string
  td_transactionDate :: string
  td_postingDate :: "string option"
  td_memo :: "string option"
  td_totalAmount :: 'n
  td_overageAmount :: 'n
  td_shortageAmount :: 'n
  td_fromAccountCode :: "string option"
  td_toAccountCode :: "string option"
  td_bankAccountId :: "string option"
  td_depositReference :: "string option"
  td_requiresApproval :: bool
  td_createdBy :: string
  td_submittedAt :: "string option"
  td_approvedBy :: "string option"
  td_approvedAt :: "string option"
  td_postedAt :: "string option"
  td_journalEntryId :: "string option"
  td_reversesDocumentId :: "string option"
  td_reversedByDocumentId :: "string option"
  td_rowVersion :: nat

record 'n DocumentLine =
  tl_id :: string
  tl_documentId :: string
  tl_lineNumber :: nat
  tl_lineType :: TreasuryLineType
  tl_accountCode :: string
  tl_description :: "string option"
  tl_debitAmount :: 'n
  tl_creditAmount :: 'n
  tl_amount :: 'n
  tl_sourceReceiptId :: "string option"
  tl_sourcePaymentId :: "string option"
  tl_sourceSessionMovementId :: "string option"
  tl_memo :: "string option"

record TreasuryDocument =
  doc_header :: "jnum DocumentHeader"
  doc_lines :: "jnum DocumentLine list"

record TreasuryAudit =
  tau_documentId :: string
  tau_eventType :: string
  tau_actorUserId :: string

record ReceiptSettlement =
  rs_id :: string
  rs_sourceType :: string
  rs_sourceId :: string
  rs_sourceNumber :: "string option"
  rs_originating :: rat
  rs_settled :: rat
  rs_residual :: rat
  rs_clearingAccountCode :: string
  rs_status :: SettlementStatus
  rs_paymentDate :: "string option"
  rs_ledgerTransactionId :: "string option"

record SettlementApplication =
  ra_id :: string
  ra_settlementId :: string
  ra_documentId :: string
  ra_lineId :: "string option"
  ra_amount :: rat
  ra_reversed :: bool

text \<open>Rows of other modules.\<close>

record BankTransaction =
  bt_id :: string
  bt_glTransactionId :: "string option"
  bt_isReconciled :: bool
  bt_isReversed :: bool

record BankAccount =
  ba_id :: string
  ba_glAccountId :: string
  ba_isActive :: bool
  ba_isDefault :: bool
  ba_isMainCash :: bool

record AccountInfo =
  ai_accountType :: string
  ai_isPosting :: "bool option"

record ReceiptSource =
  sr_id :: string
  sr_number :: "string option"
  sr_amount :: rat
  sr_status :: "string option"
  sr_paymentDate :: "string option"

record TreasuryDb =
  tr_enabled :: bool
  tr_documents :: "rat DocumentHeader list"
  tr_lines :: "rat DocumentLine list"
  tr_audit :: "TreasuryAudit list"
  tr_settlements :: "ReceiptSettlement list"
  tr_applications :: "SettlementApplication list"
  tr_docSeq :: nat
  tr_seq :: nat
  tr_ledger :: LedgerDb
  tr_stamps :: "(string \<times> string) list"
  tr_bankTransactions :: "BankTransaction list"
  tr_bankAccounts :: "BankAccount list"
  tr_accountInfo :: "(string \<times> AccountInfo) list"
  tr_arPayments :: "ReceiptSource list"
  tr_customerDeposits :: "ReceiptSource list"
  tr_invoicePayments :: "ReceiptSource list"

datatype TreasuryError =
    TE_DISABLED | TE_NO_LINES | TE_LINE_WITHOUT_ACCOUNT | TE_DOCUMENT_NOT_FOUND | TE_DOCUMENT_MODIFIED
  | TE_VALIDATION TdCode | TE_INVARIANT TdCode | TE_LEDGER LedgerError
  | TE_NOT_PENDING | TE_REVERSAL_OF_REVERSAL | TE_NOT_POSTED | TE_ALREADY_REVERSED | TE_NO_JOURNAL
  | TE_RECONCILED | TE_NO_RECEIPT_LINES | TE_NO_SOURCE | TE_SETTLEMENT_NOT_FOUND | TE_RECEIPT_DEPOSITED
  | TE_NO_RECEIPTS | TE_SHORT_AND_OVER | TE_NO_BANK_ACCOUNT | TE_BANK_NOT_FOUND | TE_BANK_BLOCKED
  | TE_BANK_NOT_ASSET | TE_BANK_HEADER | TE_AMOUNT_NOT_POSITIVE | TE_SAME_ACCOUNT | TE_ACCOUNT_NOT_FOUND
  | TE_UNDEPOSITED | TE_INSUFFICIENT_FUNDS | TE_PETTY_SELF
  | TE_DB_UNIQUE | TE_DB_CHECK | TE_DB_NUMERIC

fun map_err :: "('e \<Rightarrow> 'f) \<Rightarrow> ('e, 'a) result \<Rightarrow> ('f, 'a) result" where
  "map_err g (Inl e) = Inl (g e)"
| "map_err g (Inr a) = Inr a"

subsection \<open>Columns\<close>

definition numeric_18_2 :: "rat \<Rightarrow> (TreasuryError, rat) result" where
  "numeric_18_2 q = (let r = pg_round 2 q in if 10 ^ 16 \<le> \<bar>r\<bar> then Inl TE_DB_NUMERIC else Inr r)"

definition money_column :: "jnum \<Rightarrow> (TreasuryError, rat) result" where
  "money_column x = (case x of Fin a \<Rightarrow> numeric_18_2 (js_decimal a) | _ \<Rightarrow> Inl TE_DB_NUMERIC)"

text \<open>\<open>num(v)\<close>: a NUMERIC column read as a number.\<close>

definition num_of :: "rat \<Rightarrow> jnum" where
  "num_of q = js_round_rat q"

subsection \<open>Documents\<close>

definition mapLine :: "rat DocumentLine \<Rightarrow> jnum DocumentLine" where
  "mapLine r = \<lparr>tl_id = tl_id r, tl_documentId = tl_documentId r, tl_lineNumber = tl_lineNumber r,
     tl_lineType = tl_lineType r, tl_accountCode = tl_accountCode r, tl_description = tl_description r,
     tl_debitAmount = num_of (tl_debitAmount r), tl_creditAmount = num_of (tl_creditAmount r),
     tl_amount = num_of (tl_amount r), tl_sourceReceiptId = tl_sourceReceiptId r,
     tl_sourcePaymentId = tl_sourcePaymentId r, tl_sourceSessionMovementId = tl_sourceSessionMovementId r,
     tl_memo = tl_memo r\<rparr>"

definition mapHeader :: "rat DocumentHeader \<Rightarrow> jnum DocumentHeader" where
  "mapHeader r = \<lparr>td_id = td_id r, td_documentNumber = td_documentNumber r, td_documentType = td_documentType r,
     td_status = td_status r, td_currencyCode = td_currencyCode r, td_transactionDate = take 10 (td_transactionDate r),
     td_postingDate = map_option (take 10) (td_postingDate r), td_memo = td_memo r,
     td_totalAmount = num_of (td_totalAmount r), td_overageAmount = num_of (td_overageAmount r),
     td_shortageAmount = num_of (td_shortageAmount r), td_fromAccountCode = td_fromAccountCode r,
     td_toAccountCode = td_toAccountCode r, td_bankAccountId = td_bankAccountId r,
     td_depositReference = td_depositReference r, td_requiresApproval = td_requiresApproval r,
     td_createdBy = td_createdBy r, td_submittedAt = td_submittedAt r, td_approvedBy = td_approvedBy r,
     td_approvedAt = td_approvedAt r, td_postedAt = td_postedAt r, td_journalEntryId = td_journalEntryId r,
     td_reversesDocumentId = td_reversesDocumentId r, td_reversedByDocumentId = td_reversedByDocumentId r,
     td_rowVersion = td_rowVersion r\<rparr>"

definition mapDocument :: "rat DocumentHeader \<Rightarrow> jnum DocumentLine list \<Rightarrow> TreasuryDocument" where
  "mapDocument r lines = \<lparr>doc_header = mapHeader r, doc_lines = lines\<rparr>"

definition insertAudit :: "string \<Rightarrow> string \<Rightarrow> string \<Rightarrow> TreasuryDb \<Rightarrow> TreasuryDb" where
  "insertAudit docId event actor db =
     db\<lparr>tr_audit := tr_audit db @ [\<lparr>tau_documentId = docId, tau_eventType = event, tau_actorUserId = actor\<rparr>]\<rparr>"

definition lines_of :: "string \<Rightarrow> TreasuryDb \<Rightarrow> rat DocumentLine list" where
  "lines_of docId db = sort_key tl_lineNumber (filter (\<lambda>l. tl_documentId l = docId) (tr_lines db))"

definition loadLines :: "string \<Rightarrow> TreasuryDb \<Rightarrow> jnum DocumentLine list" where
  "loadLines docId db = map mapLine (lines_of docId db)"

definition find_doc :: "string \<Rightarrow> TreasuryDb \<Rightarrow> rat DocumentHeader option" where
  "find_doc i db = find (\<lambda>r. td_id r = i) (tr_documents db)"

definition getById :: "string \<Rightarrow> TreasuryDb \<Rightarrow> TreasuryDocument option" where
  "getById i db = map_option (\<lambda>r. mapDocument r (loadLines i db)) (find_doc i db)"

text \<open>\<open>(await getById(conn, id))!\<close>\<close>

definition reload :: "string \<Rightarrow> TreasuryDb \<Rightarrow> (TreasuryError, TreasuryDocument \<times> TreasuryDb) result" where
  "reload i db = (case getById i db of None \<Rightarrow> Inl TE_DOCUMENT_NOT_FOUND | Some d \<Rightarrow> Inr (d, db))"

text \<open>Numbers \<open>TD-2025-00001\<close> from the sequence.\<close>

definition nextDocumentNumber :: "int \<Rightarrow> TreasuryDb \<Rightarrow> string \<times> TreasuryDb" where
  "nextDocumentNumber year db =
     (let n = show_nat (Suc (tr_docSeq db)) in
      (''TD-'' @ show_int year @ ''-'' @ replicate (5 - length n) CHR ''0'' @ n, db\<lparr>tr_docSeq := Suc (tr_docSeq db)\<rparr>))"

text \<open>\<open>chk_td_line_one_sided\<close>\<close>

definition line_check :: "rat \<Rightarrow> rat \<Rightarrow> rat \<Rightarrow> bool" where
  "line_check debit credit amount \<longleftrightarrow>
     0 < debit \<and> credit = 0 \<or> 0 < credit \<and> debit = 0 \<or> debit = 0 \<and> credit = 0 \<and> amount = 0"

definition new_line ::
  "(nat \<Rightarrow> string) \<Rightarrow> string \<Rightarrow> nat \<Rightarrow> TreasuryDocumentLineInput \<Rightarrow> LineAmounts \<Rightarrow> TreasuryDb
     \<Rightarrow> (TreasuryError, rat DocumentLine) result" where
  "new_line gen docId n raw a db =
     and_then (money_column (na_debitAmount a)) (\<lambda>debit.
     and_then (money_column (na_creditAmount a)) (\<lambda>credit.
     and_then (money_column (na_amount a)) (\<lambda>amount.
     and_then (throw_if (\<not> line_check debit credit amount) TE_DB_CHECK) (\<lambda>_.
     and_then (throw_if (gen (tr_seq db) \<in> set (map tl_id (tr_lines db))) TE_DB_UNIQUE) (\<lambda>_.
     Inr \<lparr>tl_id = gen (tr_seq db), tl_documentId = docId, tl_lineNumber = n,
          tl_lineType = coalesce (li_lineType raw) ACCOUNT_MOVE, tl_accountCode = li_accountCode raw,
          tl_description = li_description raw, tl_debitAmount = debit, tl_creditAmount = credit, tl_amount = amount,
          tl_sourceReceiptId = li_sourceReceiptId raw, tl_sourcePaymentId = li_sourcePaymentId raw,
          tl_sourceSessionMovementId = li_sourceSessionMovementId raw, tl_memo = li_memo raw\<rparr>)))))"

fun insert_lines ::
  "(nat \<Rightarrow> string) \<Rightarrow> string \<Rightarrow> nat \<Rightarrow> TreasuryDocumentLineInput list \<Rightarrow> jnum \<Rightarrow> TreasuryDb
     \<Rightarrow> (TreasuryError, jnum \<times> TreasuryDb) result" where
  "insert_lines gen docId n [] tot db = Inr (tot, db)"
| "insert_lines gen docId n (raw # rest) tot db =
     and_then (map_err TE_INVARIANT (normalizeLineAmounts raw)) (\<lambda>a.
     and_then (new_line gen docId n raw a db) (\<lambda>l.
     insert_lines gen docId (Suc n) rest (jadd tot (na_debitAmount a))
       (db\<lparr>tr_lines := tr_lines db @ [l], tr_seq := Suc (tr_seq db)\<rparr>)))"

definition replaceLines ::
  "(nat \<Rightarrow> string) \<Rightarrow> string \<Rightarrow> TreasuryDocumentLineInput list \<Rightarrow> TreasuryDb
     \<Rightarrow> (TreasuryError, jnum \<times> TreasuryDb) result" where
  "replaceLines gen docId lines db =
     and_then (insert_lines gen docId 1 lines (Fin 0)
        (db\<lparr>tr_lines := filter (\<lambda>l. tl_documentId l \<noteq> docId) (tr_lines db)\<rparr>)) (\<lambda>(total, db).
     Inr (roundMoney total, db))"

definition update_doc :: "string \<Rightarrow> (rat DocumentHeader \<Rightarrow> rat DocumentHeader) \<Rightarrow> TreasuryDb \<Rightarrow> TreasuryDb" where
  "update_doc i f db = db\<lparr>tr_documents := map (\<lambda>r. if td_id r = i then f r else r) (tr_documents db)\<rparr>"

record CreateDocumentInput =
  ci_documentType :: TreasuryDocumentType
  ci_transactionDate :: string
  ci_currencyCode :: "string option"
  ci_memo :: "string option"
  ci_fromAccountCode :: "string option"
  ci_toAccountCode :: "string option"
  ci_bankAccountId :: "string option"
  ci_depositReference :: "string option"
  ci_requiresApproval :: "bool option"
  ci_overageAmount :: "jnum option"
  ci_shortageAmount :: "jnum option"
  ci_lines :: "TreasuryDocumentLineInput list"
  ci_createdBy :: string
  ci_reversesDocumentId :: "string option"

definition document_year :: "string \<Rightarrow> string \<Rightarrow> int" where
  "document_year now date = (let y = digits_val (take 4 date) in if y = 0 then digits_val (take 4 now) else y)"

definition new_document ::
  "(nat \<Rightarrow> string) \<Rightarrow> string \<Rightarrow> CreateDocumentInput \<Rightarrow> TreasuryDb \<Rightarrow> (TreasuryError, rat DocumentHeader) result" where
  "new_document gen number inp db =
     and_then (money_column (coalesce (ci_overageAmount inp) (Fin 0))) (\<lambda>overage.
     and_then (money_column (coalesce (ci_shortageAmount inp) (Fin 0))) (\<lambda>shortage.
     and_then (throw_if (gen (tr_seq db) \<in> set (map td_id (tr_documents db))
         \<or> number \<in> set (map td_documentNumber (tr_documents db))) TE_DB_UNIQUE) (\<lambda>_.
     Inr \<lparr>td_id = gen (tr_seq db), td_documentNumber = number, td_documentType = ci_documentType inp, td_status = TD_DRAFT,
          td_currencyCode = coalesce (ci_currencyCode inp) ''UGX'', td_transactionDate = ci_transactionDate inp,
          td_postingDate = None, td_memo = ci_memo inp, td_totalAmount = 0, td_overageAmount = overage,
          td_shortageAmount = shortage, td_fromAccountCode = ci_fromAccountCode inp, td_toAccountCode = ci_toAccountCode inp,
          td_bankAccountId = ci_bankAccountId inp, td_depositReference = ci_depositReference inp,
          td_requiresApproval = coalesce (ci_requiresApproval inp) False, td_createdBy = ci_createdBy inp,
          td_submittedAt = None, td_approvedBy = None, td_approvedAt = None, td_postedAt = None, td_journalEntryId = None,
          td_reversesDocumentId = ci_reversesDocumentId inp, td_reversedByDocumentId = None, td_rowVersion = 1\<rparr>)))"

definition createDocument ::
  "(nat \<Rightarrow> string) \<Rightarrow> string \<Rightarrow> CreateDocumentInput \<Rightarrow> TreasuryDb \<Rightarrow> (TreasuryError, TreasuryDocument \<times> TreasuryDb) result" where
  "createDocument gen now inp db =
     (let (number, db) = nextDocumentNumber (document_year now (ci_transactionDate inp)) db in
      and_then (new_document gen number inp db) (\<lambda>r.
      let i = td_id r; db = db\<lparr>tr_documents := tr_documents db @ [r], tr_seq := Suc (tr_seq db)\<rparr> in
      and_then (replaceLines gen i (ci_lines inp) db) (\<lambda>(total, db).
      and_then (money_column total) (\<lambda>t.
      reload i (insertAudit i ''CREATED'' (ci_createdBy inp) (update_doc i (\<lambda>r. r\<lparr>td_totalAmount := t\<rparr>) db))))))"

text \<open>In an update \<open>None\<close> is \<open>undefined\<close>; the nullable fields may also be set to null.\<close>

record UpdateDocumentInput =
  ui_transactionDate :: "string option"
  ui_memo :: "string option option"
  ui_fromAccountCode :: "string option option"
  ui_toAccountCode :: "string option option"
  ui_bankAccountId :: "string option option"
  ui_depositReference :: "string option option"
  ui_requiresApproval :: "bool option"
  ui_overageAmount :: "jnum option"
  ui_shortageAmount :: "jnum option"
  ui_lines :: "TreasuryDocumentLineInput list option"
  ui_expectedRowVersion :: nat
  ui_actorUserId :: string

definition optional_column :: "jnum option \<Rightarrow> (TreasuryError, rat option) result" where
  "optional_column x = (case x of None \<Rightarrow> Inr None | Some a \<Rightarrow> and_then (money_column a) (\<lambda>q. Inr (Some q)))"

definition repo_updateDraft ::
  "(nat \<Rightarrow> string) \<Rightarrow> string \<Rightarrow> UpdateDocumentInput \<Rightarrow> TreasuryDb \<Rightarrow> (TreasuryError, TreasuryDocument \<times> TreasuryDb) result" where
  "repo_updateDraft gen i inp db =
     (case getById i db of
        None \<Rightarrow> Inl TE_DOCUMENT_NOT_FOUND
      | Some current \<Rightarrow>
          and_then (throw_if (td_rowVersion (doc_header current) \<noteq> ui_expectedRowVersion inp) TE_DOCUMENT_MODIFIED) (\<lambda>_.
          and_then (case ui_lines inp of
              None \<Rightarrow> Inr db
            | Some ls \<Rightarrow> and_then (replaceLines gen i ls db) (\<lambda>(total, db).
                and_then (money_column total) (\<lambda>t. Inr (update_doc i (\<lambda>r. r\<lparr>td_totalAmount := t\<rparr>) db)))) (\<lambda>db.
          and_then (optional_column (ui_overageAmount inp)) (\<lambda>overage.
          and_then (optional_column (ui_shortageAmount inp)) (\<lambda>shortage.
          reload i (insertAudit i ''UPDATED'' (ui_actorUserId inp) (update_doc i (\<lambda>r.
            r\<lparr>td_transactionDate := coalesce (ui_transactionDate inp) (td_transactionDate r),
              td_memo := coalesce (ui_memo inp) (td_memo r),
              td_fromAccountCode := coalesce (ui_fromAccountCode inp) (td_fromAccountCode r),
              td_toAccountCode := coalesce (ui_toAccountCode inp) (td_toAccountCode r),
              td_bankAccountId := coalesce (ui_bankAccountId inp) (td_bankAccountId r),
              td_depositReference := coalesce (ui_depositReference inp) (td_depositReference r),
              td_requiresApproval := coalesce (ui_requiresApproval inp) (td_requiresApproval r),
              td_overageAmount := coalesce overage (td_overageAmount r),
              td_shortageAmount := coalesce shortage (td_shortageAmount r),
              td_rowVersion := Suc (td_rowVersion r)\<rparr>) db)))))))"

record StatusPatch =
  sp_status :: TreasuryDocumentStatus
  sp_submittedAt :: "string option"
  sp_approvedBy :: "string option"
  sp_approvedAt :: "string option"
  sp_postedAt :: "string option"
  sp_postingDate :: "string option"
  sp_journalEntryId :: "string option"
  sp_reversedByDocumentId :: "string option"

definition patch_of :: "TreasuryDocumentStatus \<Rightarrow> StatusPatch" where
  "patch_of s = \<lparr>sp_status = s, sp_submittedAt = None, sp_approvedBy = None, sp_approvedAt = None, sp_postedAt = None,
     sp_postingDate = None, sp_journalEntryId = None, sp_reversedByDocumentId = None\<rparr>"

text \<open>\<open>COALESCE($n, column)\<close>\<close>

definition or_keep :: "'a option \<Rightarrow> 'a option \<Rightarrow> 'a option" where
  "or_keep x old = (case x of None \<Rightarrow> old | Some a \<Rightarrow> Some a)"

definition setStatus :: "string \<Rightarrow> StatusPatch \<Rightarrow> TreasuryDb \<Rightarrow> TreasuryDb" where
  "setStatus i p db = update_doc i (\<lambda>r.
     r\<lparr>td_status := sp_status p, td_submittedAt := or_keep (sp_submittedAt p) (td_submittedAt r),
       td_approvedBy := or_keep (sp_approvedBy p) (td_approvedBy r),
       td_approvedAt := or_keep (sp_approvedAt p) (td_approvedAt r),
       td_postedAt := or_keep (sp_postedAt p) (td_postedAt r),
       td_postingDate := or_keep (sp_postingDate p) (td_postingDate r),
       td_journalEntryId := or_keep (sp_journalEntryId p) (td_journalEntryId r),
       td_reversedByDocumentId := or_keep (sp_reversedByDocumentId p) (td_reversedByDocumentId r),
       td_rowVersion := Suc (td_rowVersion r)\<rparr>) db"

definition clearApprovalOnReject :: "string \<Rightarrow> TreasuryDb \<Rightarrow> TreasuryDb" where
  "clearApprovalOnReject i db = update_doc i (\<lambda>r.
     r\<lparr>td_status := TD_DRAFT, td_submittedAt := None, td_approvedBy := None, td_approvedAt := None,
       td_rowVersion := Suc (td_rowVersion r)\<rparr>) db"

text \<open>The column \<open>TreasuryDocumentId\<close> of \<open>ledger_transactions\<close>, kept beside the ledger's tables.\<close>

definition stampLedgerTreasuryDocument :: "string \<Rightarrow> string \<Rightarrow> TreasuryDb \<Rightarrow> TreasuryDb" where
  "stampLedgerTreasuryDocument tid docId db =
     db\<lparr>tr_stamps := (tid, docId) # filter (\<lambda>s. fst s \<noteq> tid) (tr_stamps db)\<rparr>"

record DocumentPage =
  pg_items :: "TreasuryDocument list"
  pg_total :: nat
  pg_page :: int
  pg_limit :: int

text \<open>Newest first; the rows are kept in the order of their creation.\<close>

definition listDocuments ::
  "int option \<Rightarrow> int option \<Rightarrow> TreasuryDocumentStatus option \<Rightarrow> TreasuryDocumentType option \<Rightarrow> TreasuryDb \<Rightarrow> DocumentPage" where
  "listDocuments page limit status type db =
     (let page = max 1 (coalesce page 1); limit = min 100 (max 1 (coalesce limit 20)); offset = (page - 1) * limit;
          rows = filter (\<lambda>r. (case status of None \<Rightarrow> True | Some s \<Rightarrow> td_status r = s)
                           \<and> (case type of None \<Rightarrow> True | Some t \<Rightarrow> td_documentType r = t)) (tr_documents db)
      in \<lparr>pg_items = map (\<lambda>r. mapDocument r (loadLines (td_id r) db)) (take (nat limit) (drop (nat offset) (rev rows))),
          pg_total = length rows, pg_page = page, pg_limit = limit\<rparr>)"

end
