(* ===== verification/Settlements.thy ===== *)
theory Settlements imports Treasury
begin

section \<open>Receipt settlements\<close>

text \<open>
  \<open>modules/treasury/receiptSettlementRepository.ts\<close>: what remains to be deposited of every receipt
  that went to Undeposited Funds (account 1015), how deposit worksheets apply to it and how an
  application is taken back. The CHECK and UNIQUE constraints of \<open>shared/sql/542\<close> are written out.
\<close>

subsection \<open>Constraints\<close>

definition settlement_check :: "ReceiptSettlement \<Rightarrow> bool" where
  "settlement_check s \<longleftrightarrow> 0 < rs_originating s \<and> 0 \<le> rs_settled s
     \<and> rs_sourceType s \<in> {''AR_CUSTOMER_PAYMENT'', ''INVOICE_PAYMENT'', ''CUSTOMER_DEPOSIT''}
     \<and> rs_residual s = rs_originating s - rs_settled s \<and> - 9 / 1000 \<le> rs_residual s"

definition source_key :: "ReceiptSettlement \<Rightarrow> string \<times> string" where
  "source_key s = (rs_sourceType s, rs_sourceId s)"

text \<open>One row of an \<open>INSERT ... ON CONFLICT (source_type, source_id) DO NOTHING\<close>.\<close>

definition insert_settlement ::
  "(nat \<Rightarrow> string) \<Rightarrow> string \<Rightarrow> string \<Rightarrow> string option \<Rightarrow> rat \<Rightarrow> string option \<Rightarrow> string option \<Rightarrow> TreasuryDb
     \<Rightarrow> (TreasuryError, TreasuryDb) result" where
  "insert_settlement gen type sid number amount date txn db =
     (let s = \<lparr>rs_id = gen (tr_seq db), rs_sourceType = type, rs_sourceId = sid, rs_sourceNumber = number,
               rs_originating = pg_round 2 amount, rs_settled = 0, rs_residual = pg_round 2 amount,
               rs_clearingAccountCode = ''1015'', rs_status = UNSETTLED, rs_paymentDate = date, rs_ledgerTransactionId = txn\<rparr> in
      if source_key s \<in> set (map source_key (tr_settlements db)) then Inr db
      else and_then (throw_if (\<not> settlement_check s) TE_DB_CHECK) (\<lambda>_.
           and_then (throw_if (rs_id s \<in> set (map rs_id (tr_settlements db))) TE_DB_UNIQUE) (\<lambda>_.
           Inr (db\<lparr>tr_settlements := tr_settlements db @ [s], tr_seq := Suc (tr_seq db)\<rparr>))))"

text \<open>A receipt to insert: its id, number, amount, payment date and ledger transaction.\<close>

type_synonym Candidate = "string \<times> string option \<times> rat \<times> string option \<times> string option"

fun insert_settlements ::
  "(nat \<Rightarrow> string) \<Rightarrow> string \<Rightarrow> Candidate list \<Rightarrow> TreasuryDb \<Rightarrow> (TreasuryError, TreasuryDb) result" where
  "insert_settlements gen type [] db = Inr db"
| "insert_settlements gen type ((sid, number, amount, date, txn) # rest) db =
     and_then (insert_settlement gen type sid number amount date txn db) (insert_settlements gen type rest)"

text \<open>Debits of a transaction on the clearing account, for the transactions of a reference.\<close>

definition clearing_debits :: "string \<Rightarrow> LedgerDb \<Rightarrow> rat list" where
  "clearing_debits tid l = map le_debit (filter (\<lambda>e. le_transactionId e = tid \<and> 0 < le_debit e
     \<and> (\<exists>a \<in> set (ld_accounts l). ac_id a = le_accountId e \<and> ac_code a = ''1015'')) (ld_entries l))"

definition clearing_txns :: "string \<Rightarrow> string \<Rightarrow> LedgerDb \<Rightarrow> (string \<times> rat) list" where
  "clearing_txns refType refId l = map (\<lambda>t. (lt_id t, sum_list (clearing_debits (lt_id t) l)))
     (filter (\<lambda>t. lt_referenceType t = refType \<and> lt_referenceId t = refId \<and> clearing_debits (lt_id t) l \<noteq> [])
        (ld_transactions l))"

subsection \<open>Synchronisation\<close>

definition ar_candidates :: "TreasuryDb \<Rightarrow> Candidate list" where
  "ar_candidates db = map (\<lambda>p. (sr_id p, sr_number p, sr_amount p, sr_paymentDate p, None))
     (filter (\<lambda>p. sr_status p \<noteq> Some ''REVERSED'' \<and> 0 < sr_amount p
        \<and> clearing_txns ''CUSTOMER_PAYMENT'' (sr_id p) (tr_ledger db) \<noteq> []) (tr_arPayments db))"

definition deposit_candidates :: "TreasuryDb \<Rightarrow> Candidate list" where
  "deposit_candidates db = map (\<lambda>d. (sr_id d, sr_number d, sr_amount d, sr_paymentDate d, None))
     (filter (\<lambda>d. 0 < sr_amount d \<and> sr_status d \<noteq> None
        \<and> sr_status d \<notin> {Some ''REFUNDED'', Some ''CANCELLED''}) (tr_customerDeposits db))"

definition invoice_candidates :: "TreasuryDb \<Rightarrow> Candidate list" where
  "invoice_candidates db = concat (map (\<lambda>p. map (\<lambda>(t, c). (sr_id p, Some (coalesce (sr_number p) (sr_id p)), c, sr_paymentDate p, Some t))
     (filter (\<lambda>(t, c). 9 / 1000 < c) (clearing_txns ''INVOICE_PAYMENT'' (sr_id p) (tr_ledger db)))) (tr_invoicePayments db))"

text \<open>Receipts that were reversed before any deposit leave the pool.\<close>

definition close_reversed :: "TreasuryDb \<Rightarrow> TreasuryDb" where
  "close_reversed db = db\<lparr>tr_settlements := map (\<lambda>s.
     if rs_sourceType s = ''AR_CUSTOMER_PAYMENT'' \<and> (\<exists>p \<in> set (tr_arPayments db). sr_id p = rs_sourceId s \<and> sr_status p = Some ''REVERSED'')
        \<and> 9 / 1000 < rs_residual s \<and> rs_settled s \<le> 9 / 1000
     then s\<lparr>rs_settled := rs_originating s, rs_residual := 0, rs_status := SETTLED\<rparr> else s) (tr_settlements db)\<rparr>"

text \<open>The cash leg of a payment whose withholding tax was split off.\<close>

definition align_settlement :: "LedgerDb \<Rightarrow> ReceiptSettlement \<Rightarrow> ReceiptSettlement" where
  "align_settlement l s =
     (if rs_sourceType s \<noteq> ''AR_CUSTOMER_PAYMENT'' \<or> \<not> rs_settled s \<le> 9 / 1000 then s
      else case find (\<lambda>(t, c). 0 < pg_round 2 c \<and> 9 / 1000 < \<bar>rs_originating s - pg_round 2 c\<bar>)
                  (clearing_txns ''CUSTOMER_PAYMENT'' (rs_sourceId s) l) of
             None \<Rightarrow> s
           | Some (t, c) \<Rightarrow> let cash = pg_round 2 c in
               s\<lparr>rs_originating := cash, rs_residual := pg_round 2 (cash - rs_settled s),
                 rs_ledgerTransactionId := Some (coalesce (rs_ledgerTransactionId s) t),
                 rs_status := (if cash - rs_settled s \<le> 9 / 1000 then SETTLED
                               else if 9 / 1000 < rs_settled s then PARTIALLY_SETTLED else UNSETTLED)\<rparr>)"

definition align_all :: "TreasuryDb \<Rightarrow> (TreasuryError, TreasuryDb) result" where
  "align_all db = (let f = align_settlement (tr_ledger db) in
     if \<forall>s \<in> set (tr_settlements db). f s = s \<or> settlement_check (f s)
     then Inr (db\<lparr>tr_settlements := map f (tr_settlements db)\<rparr>) else Inl TE_DB_CHECK)"

definition syncReceiptSettlements :: "(nat \<Rightarrow> string) \<Rightarrow> TreasuryDb \<Rightarrow> (TreasuryError, TreasuryDb) result" where
  "syncReceiptSettlements gen db =
     and_then (insert_settlements gen ''AR_CUSTOMER_PAYMENT'' (ar_candidates db) db) (\<lambda>db.
     and_then (insert_settlements gen ''CUSTOMER_DEPOSIT'' (deposit_candidates db) db) (\<lambda>db.
     and_then (insert_settlements gen ''INVOICE_PAYMENT'' (invoice_candidates db) db) (\<lambda>db.
     align_all (close_reversed db))))"

subsection \<open>Applications\<close>

definition find_settlement :: "string \<Rightarrow> string \<Rightarrow> TreasuryDb \<Rightarrow> ReceiptSettlement option" where
  "find_settlement type sid db = find (\<lambda>s. rs_sourceType s = type \<and> rs_sourceId s = sid) (tr_settlements db)"

definition lockSettlement ::
  "(nat \<Rightarrow> string) \<Rightarrow> string \<Rightarrow> string \<Rightarrow> TreasuryDb \<Rightarrow> (TreasuryError, ReceiptSettlement \<times> TreasuryDb) result" where
  "lockSettlement gen type sid db =
     (case find_settlement type sid db of
        Some s \<Rightarrow> Inr (s, db)
      | None \<Rightarrow> and_then (syncReceiptSettlements gen db) (\<lambda>db.
          case find_settlement type sid db of Some s \<Rightarrow> Inr (s, db) | None \<Rightarrow> Inl TE_SETTLEMENT_NOT_FOUND))"

definition statusFor :: "jnum \<Rightarrow> jnum \<Rightarrow> SettlementStatus" where
  "statusFor settled residual =
     (if jle residual td_epsilon then SETTLED else if jlt td_epsilon settled then PARTIALLY_SETTLED else UNSETTLED)"

definition update_settlement ::
  "string \<Rightarrow> (ReceiptSettlement \<Rightarrow> ReceiptSettlement) \<Rightarrow> TreasuryDb \<Rightarrow> (TreasuryError, TreasuryDb) result" where
  "update_settlement i f db = (let ss = map (\<lambda>s. if rs_id s = i then f s else s) (tr_settlements db) in
     if \<forall>s \<in> set ss. rs_id s = i \<longrightarrow> settlement_check s then Inr (db\<lparr>tr_settlements := ss\<rparr>) else Inl TE_DB_CHECK)"

definition insert_application ::
  "(nat \<Rightarrow> string) \<Rightarrow> string \<Rightarrow> string \<Rightarrow> string option \<Rightarrow> rat \<Rightarrow> TreasuryDb \<Rightarrow> (TreasuryError, TreasuryDb) result" where
  "insert_application gen sid docId lineId amount db =
     and_then (throw_if (\<not> 0 < amount) TE_DB_CHECK) (\<lambda>_.
     and_then (throw_if (\<exists>a \<in> set (tr_applications db). ra_documentId a = docId \<and> ra_settlementId a = sid) TE_DB_UNIQUE) (\<lambda>_.
     and_then (throw_if (gen (tr_seq db) \<in> set (map ra_id (tr_applications db))) TE_DB_UNIQUE) (\<lambda>_.
     Inr (db\<lparr>tr_applications := tr_applications db @ [\<lparr>ra_id = gen (tr_seq db), ra_settlementId = sid, ra_documentId = docId,
            ra_lineId = lineId, ra_amount = amount, ra_reversed = False\<rparr>], tr_seq := Suc (tr_seq db)\<rparr>))))"

definition applySettlement ::
  "(nat \<Rightarrow> string) \<Rightarrow> string \<Rightarrow> string \<Rightarrow> jnum \<Rightarrow> string \<Rightarrow> string option \<Rightarrow> TreasuryDb \<Rightarrow> (TreasuryError, TreasuryDb) result" where
  "applySettlement gen type sid amount docId lineId db =
     and_then (lockSettlement gen type sid db) (\<lambda>(s, db).
     and_then (map_err TE_INVARIANT (assertDepositConsumesUnsettled (rs_status s) (num_of (rs_residual s)))) (\<lambda>_.
     and_then (map_err TE_INVARIANT (assertSettlementCeiling amount (num_of (rs_residual s)))) (\<lambda>_.
     let amount = roundMoney amount; settled = roundMoney (jadd (num_of (rs_settled s)) amount);
         residual = roundMoney (jsub (num_of (rs_originating s)) settled) in
     and_then (money_column settled) (\<lambda>qs.
     and_then (money_column residual) (\<lambda>qr.
     and_then (money_column amount) (\<lambda>qa.
     and_then (update_settlement (rs_id s) (\<lambda>s. s\<lparr>rs_settled := qs, rs_residual := qr, rs_status := statusFor settled residual\<rparr>) db) (\<lambda>db.
     insert_application gen (rs_id s) docId lineId qa db)))))))"

text \<open>One application taken back.\<close>

definition release_settlement :: "rat \<Rightarrow> ReceiptSettlement \<Rightarrow> ReceiptSettlement" where
  "release_settlement q s =
     s\<lparr>rs_settled := pg_round 2 (rs_settled s - q), rs_residual := pg_round 2 (rs_residual s + q),
       rs_status := (if pg_round 2 (rs_settled s - q) \<le> 9 / 1000 then UNSETTLED
                     else if pg_round 2 (rs_residual s + q) \<le> 9 / 1000 then SETTLED else PARTIALLY_SETTLED)\<rparr>"

definition mark_application :: "string \<Rightarrow> TreasuryDb \<Rightarrow> TreasuryDb" where
  "mark_application i db = db\<lparr>tr_applications := map (\<lambda>a. if ra_id a = i then a\<lparr>ra_reversed := True\<rparr> else a) (tr_applications db)\<rparr>"

fun release_all :: "SettlementApplication list \<Rightarrow> TreasuryDb \<Rightarrow> (TreasuryError, TreasuryDb) result" where
  "release_all [] db = Inr db"
| "release_all (a # rest) db =
     and_then (money_column (roundMoney (num_of (ra_amount a)))) (\<lambda>q.
     and_then (update_settlement (ra_settlementId a) (release_settlement q) db) (\<lambda>db.
     release_all rest (mark_application (ra_id a) db)))"

definition reverseApplicationsForDocument :: "string \<Rightarrow> TreasuryDb \<Rightarrow> (TreasuryError, TreasuryDb) result" where
  "reverseApplicationsForDocument docId db =
     release_all (filter (\<lambda>a. ra_documentId a = docId \<and> \<not> ra_reversed a) (tr_applications db)) db"

text \<open>The receipt of a reversed payment leaves the pool, unless a deposit has used it.\<close>

definition live_applications :: "string \<Rightarrow> TreasuryDb \<Rightarrow> SettlementApplication list" where
  "live_applications sid db = filter (\<lambda>a. ra_settlementId a = sid \<and> \<not> ra_reversed a) (tr_applications db)"

definition voidSettlementForReversedArPayment :: "string \<Rightarrow> TreasuryDb \<Rightarrow> (TreasuryError, TreasuryDb) result" where
  "voidSettlementForReversedArPayment paymentId db =
     (let rows = filter (\<lambda>s. rs_sourceType s = ''AR_CUSTOMER_PAYMENT'' \<and> rs_sourceId s = paymentId) (tr_settlements db);
          apps = concat (map (\<lambda>s. live_applications (rs_id s) db) rows) in
      and_then (throw_if (apps \<noteq> [] \<or> jlt td_epsilon (num_of (sum_list (map ra_amount apps)))) TE_RECEIPT_DEPOSITED) (\<lambda>_.
      case rows of
        [] \<Rightarrow> Inr db
      | s # _ \<Rightarrow>
          and_then (throw_if (jlt td_epsilon (num_or (num_of (rs_settled s)) (Fin 0))) TE_RECEIPT_DEPOSITED) (\<lambda>_.
          update_settlement (rs_id s) (\<lambda>s. s\<lparr>rs_settled := rs_originating s, rs_residual := 0, rs_status := SETTLED\<rparr>) db)))"

subsection \<open>Reports\<close>

definition awaiting_deposit :: "TreasuryDb \<Rightarrow> string \<Rightarrow> ReceiptSettlement \<Rightarrow> bool" where
  "awaiting_deposit db code s \<longleftrightarrow> rs_clearingAccountCode s = code \<and> 9 / 1000 < rs_residual s
     \<and> (rs_sourceType s \<noteq> ''AR_CUSTOMER_PAYMENT'' \<or>
        \<not> (\<exists>p \<in> set (tr_arPayments db). sr_id p = rs_sourceId s \<and> sr_status p = Some ''REVERSED''))"

definition getClearingGlBalance :: "string \<Rightarrow> TreasuryDb \<Rightarrow> jnum" where
  "getClearingGlBalance code db = num_of (sum_list (map (\<lambda>e. le_debit e - le_credit e)
     (filter (\<lambda>e. \<exists>a \<in> set (ld_accounts (tr_ledger db)). ac_id a = le_accountId e \<and> ac_code a = code)
        (joined (net_active (tr_ledger db)) (tr_ledger db)))))"

definition sumUnsettledResidual :: "string \<Rightarrow> TreasuryDb \<Rightarrow> jnum" where
  "sumUnsettledResidual code db = num_of (sum_list (map rs_residual (filter (awaiting_deposit db code) (tr_settlements db))))"

text \<open>\<open>ORDER BY payment_date ASC NULLS LAST, created_at ASC\<close>\<close>

definition by_payment_date :: "ReceiptSettlement list \<Rightarrow> ReceiptSettlement list" where
  "by_payment_date ss = sort_key (\<lambda>s. coalesce (rs_paymentDate s) []) (filter (\<lambda>s. rs_paymentDate s \<noteq> None) ss)
     @ filter (\<lambda>s. rs_paymentDate s = None) ss"

definition listUnsettledReceipts ::
  "(nat \<Rightarrow> string) \<Rightarrow> string option \<Rightarrow> int option \<Rightarrow> TreasuryDb
     \<Rightarrow> (TreasuryError, ReceiptSettlement list \<times> TreasuryDb) result" where
  "listUnsettledReceipts gen code limit db =
     and_then (syncReceiptSettlements gen db) (\<lambda>db.
     let limit = min 500 (max 1 (coalesce limit 200)) in
     Inr (take (nat limit) (by_payment_date (filter (\<lambda>s. awaiting_deposit db (coalesce code ''1015'') s
            \<and> rs_status s \<in> {UNSETTLED, PARTIALLY_SETTLED}) (tr_settlements db))), db))"

end
