(* ===== verification/TreasuryService.thy ===== *)
theory TreasuryService imports Settlements
begin

section \<open>Treasury service\<close>

text \<open>
  \<open>modules/treasury/treasuryService.ts\<close>: the life of a treasury document from draft over approval
  to posting and reversal, and the settlement half of \<open>depositWorksheetService.ts\<close>. Each function
  runs in one database transaction that starts from the committed tables. \<open>rethrowInvariant\<close> turns
  the code of a failed invariant into a validation error; what escapes it stays \<open>TE_INVARIANT\<close>.
  \<open>D\<close> is the decimal library, \<open>gen\<close> the identifier generator, \<open>mode\<close> the AR governance mode and
  \<open>now\<close> the time as ISO text.
\<close>

type_synonym 'a outcome = "(TreasuryError, 'a \<times> TreasuryDb) result"

definition assertFeatureEnabled :: "TreasuryDb \<Rightarrow> (TreasuryError, unit) result" where
  "assertFeatureEnabled db = throw_if (\<not> tr_enabled db) TE_DISABLED"

fun rethrowInvariant :: "TreasuryError \<Rightarrow> TreasuryError" where
  "rethrowInvariant (TE_INVARIANT c) = TE_VALIDATION c"
| "rethrowInvariant e = e"

definition with_doc :: "string \<Rightarrow> TreasuryDb \<Rightarrow> (TreasuryDocument \<Rightarrow> (TreasuryError, 'a) result) \<Rightarrow> (TreasuryError, 'a) result" where
  "with_doc i db f = (case getById i db of None \<Rightarrow> Inl TE_DOCUMENT_NOT_FOUND | Some d \<Rightarrow> f d)"

definition line_sides :: "TreasuryDocument \<Rightarrow> (jnum option \<times> jnum option) list" where
  "line_sides d = map (\<lambda>l. (Some (tl_debitAmount l), Some (tl_creditAmount l))) (doc_lines d)"

subsection \<open>Drafts\<close>

definition createDraft :: "(nat \<Rightarrow> string) \<Rightarrow> string \<Rightarrow> CreateDocumentInput \<Rightarrow> TreasuryDb \<Rightarrow> TreasuryDocument outcome" where
  "createDraft gen now inp db =
     and_then (assertFeatureEnabled db) (\<lambda>_.
     and_then (throw_if (ci_lines inp = []) TE_NO_LINES) (\<lambda>_.
     and_then (each_ok (\<lambda>l. throw_if (li_accountCode l = []) TE_LINE_WITHOUT_ACCOUNT) (ci_lines inp)) (\<lambda>_.
     createDocument gen now inp db)))"

definition updateDraft :: "(nat \<Rightarrow> string) \<Rightarrow> string \<Rightarrow> UpdateDocumentInput \<Rightarrow> TreasuryDb \<Rightarrow> TreasuryDocument outcome" where
  "updateDraft gen i inp db =
     and_then (assertFeatureEnabled db) (\<lambda>_.
     with_doc i db (\<lambda>current. let status = td_status (doc_header current) in
     and_then (map_err TE_VALIDATION (assertMutableStatus status)) (\<lambda>_.
     and_then (throw_if (status \<noteq> TD_DRAFT) (TE_VALIDATION TD_STATUS_NOT_DRAFT)) (\<lambda>_.
     repo_updateDraft gen i inp db))))"

definition submit :: "string \<Rightarrow> string \<Rightarrow> string \<Rightarrow> TreasuryDb \<Rightarrow> TreasuryDocument outcome" where
  "submit now i actor db =
     and_then (assertFeatureEnabled db) (\<lambda>_.
     with_doc i db (\<lambda>doc. let status = td_status (doc_header doc) in
     and_then (map_err TE_VALIDATION (assertMutableStatus status)) (\<lambda>_.
     and_then (throw_if (status \<noteq> TD_DRAFT) (TE_VALIDATION TD_STATUS_NOT_DRAFT)) (\<lambda>_.
     and_then (map_err TE_VALIDATION (assertBalancedLines (line_sides doc))) (\<lambda>_.
     reload i (insertAudit i ''SUBMITTED'' actor
       (setStatus i ((patch_of TD_PENDING_APPROVAL)\<lparr>sp_submittedAt := Some now\<rparr>) db)))))))"

definition reject :: "string \<Rightarrow> string \<Rightarrow> TreasuryDb \<Rightarrow> TreasuryDocument outcome" where
  "reject i actor db =
     and_then (assertFeatureEnabled db) (\<lambda>_.
     with_doc i db (\<lambda>doc.
     and_then (throw_if (td_status (doc_header doc) \<noteq> TD_PENDING_APPROVAL) TE_NOT_PENDING) (\<lambda>_.
     reload i (insertAudit i ''REJECTED'' actor (clearApprovalOnReject i db)))))"

subsection \<open>Settlements of a deposit worksheet\<close>

text \<open>The memo \<open>AR_CUSTOMER_PAYMENT:<uuid>\<close> of a receipt line.\<close>

definition letter_or_underscore :: "char \<Rightarrow> bool" where
  "letter_or_underscore c \<longleftrightarrow> CHR ''A'' \<le> upper_char c \<and> upper_char c \<le> CHR ''Z'' \<or> c = CHR ''_''"

definition hex_or_dash :: "char \<Rightarrow> bool" where
  "hex_or_dash c \<longleftrightarrow> is_digit c \<or> CHR ''a'' \<le> lower_char c \<and> lower_char c \<le> CHR ''f'' \<or> c = CHR ''-''"

definition memo_source :: "string \<Rightarrow> (string \<times> string) option" where
  "memo_source m = (let t = takeWhile letter_or_underscore m; r = dropWhile letter_or_underscore m in
     if t \<noteq> [] \<and> take 1 r = '':'' \<and> length r = 37 \<and> list_all hex_or_dash (drop 1 r) then Some (t, drop 1 r) else None)"

definition line_source :: "jnum DocumentLine \<Rightarrow> (string \<times> string) option" where
  "line_source l =
     (case memo_source (coalesce (tl_memo l) []) of
        Some s \<Rightarrow> Some s
      | None \<Rightarrow> if truthy_str (tl_sourcePaymentId l) then Some (''AR_CUSTOMER_PAYMENT'', the (tl_sourcePaymentId l))
          else if truthy_str (tl_sourceReceiptId l) then Some (''CUSTOMER_DEPOSIT'', the (tl_sourceReceiptId l)) else None)"

fun apply_lines :: "(nat \<Rightarrow> string) \<Rightarrow> string \<Rightarrow> jnum DocumentLine list \<Rightarrow> TreasuryDb \<Rightarrow> (TreasuryError, TreasuryDb) result" where
  "apply_lines gen docId [] db = Inr db"
| "apply_lines gen docId (l # rest) db =
     (case line_source l of
        None \<Rightarrow> Inl TE_NO_SOURCE
      | Some (type, sid) \<Rightarrow>
          and_then (map_err rethrowInvariant (applySettlement gen type sid
              (roundMoney (num_or (tl_creditAmount l) (num_or (tl_amount l) (Fin 0)))) docId (Some (tl_id l)) db))
            (apply_lines gen docId rest))"

definition applySettlementsForDepositWorksheet ::
  "(nat \<Rightarrow> string) \<Rightarrow> TreasuryDocument \<Rightarrow> TreasuryDb \<Rightarrow> (TreasuryError, TreasuryDb) result" where
  "applySettlementsForDepositWorksheet gen doc db =
     (if td_documentType (doc_header doc) \<noteq> DEPOSIT_WORKSHEET then Inr db
      else let receiptLines = filter (\<lambda>l. tl_lineType l = RECEIPT_APPLICATION) (doc_lines doc) in
        and_then (throw_if (receiptLines = []) TE_NO_RECEIPT_LINES) (\<lambda>_.
        apply_lines gen (td_id (doc_header doc)) receiptLines db))"

definition releaseSettlementsForDepositWorksheet :: "TreasuryDocument \<Rightarrow> TreasuryDb \<Rightarrow> (TreasuryError, TreasuryDb) result" where
  "releaseSettlementsForDepositWorksheet doc db =
     (if td_documentType (doc_header doc) \<noteq> DEPOSIT_WORKSHEET then Inr db
      else reverseApplicationsForDocument (td_id (doc_header doc)) db)"

subsection \<open>Posting\<close>

fun document_type_name :: "TreasuryDocumentType \<Rightarrow> string" where
  "document_type_name DEPOSIT_WORKSHEET = ''DEPOSIT_WORKSHEET''"
| "document_type_name TREASURY_TRANSFER = ''TREASURY_TRANSFER''"
| "document_type_name PETTY_CASH = ''PETTY_CASH''"
| "document_type_name CASH_WITHDRAWAL = ''CASH_WITHDRAWAL''"
| "document_type_name CASH_DEPOSIT = ''CASH_DEPOSIT''"
| "document_type_name CARD_SETTLEMENT = ''CARD_SETTLEMENT''"
| "document_type_name MOBILE_MONEY_SETTLEMENT = ''MOBILE_MONEY_SETTLEMENT''"
| "document_type_name VAT_REMITTANCE = ''VAT_REMITTANCE''"
| "document_type_name WHT_REMITTANCE = ''WHT_REMITTANCE''"
| "document_type_name TREASURY_REVERSAL = ''TREASURY_REVERSAL''"

text \<open>The journal of a document; \<open>fallback\<close> describes it when it has no memo.\<close>

definition journal_request :: "TreasuryDocument \<Rightarrow> string \<Rightarrow> string \<Rightarrow> JournalEntryRequest" where
  "journal_request doc fallback actor = (let h = doc_header doc in
     \<lparr>je_entryDate = td_transactionDate h, je_description = str_or (td_memo h) fallback,
      je_referenceType = ''TREASURY_DOCUMENT'', je_referenceId = td_id h, je_referenceNumber = td_documentNumber h,
      je_lines = map (\<lambda>l. \<lparr>jl_accountCode = tl_accountCode l, jl_description = str_or (tl_description l) (td_documentNumber h),
          jl_debitAmount = tl_debitAmount l, jl_creditAmount = tl_creditAmount l,
          jl_entityType = None, jl_entityId = None\<rparr>) (doc_lines doc),
      je_userId = actor, je_idempotencyKey = ''TREASURY-POST-'' @ td_id h,
      je_source = Some (postingSourceForDocumentType (td_documentType h))\<rparr>)"

definition check_post :: "TreasuryDocument \<Rightarrow> bool \<Rightarrow> (TdCode, unit) result" where
  "check_post doc asApproval =
     (let status = td_status (doc_header doc); requires = td_requiresApproval (doc_header doc) in
      and_then (throw_if (status = TD_POSTED) TD_ALREADY_POSTED) (\<lambda>_.
      and_then (throw_if (requires \<and> status \<noteq> TD_PENDING_APPROVAL \<and> \<not> asApproval) TD_REQUIRES_APPROVAL) (\<lambda>_.
      and_then (throw_if (\<not> requires \<and> status \<noteq> TD_DRAFT \<and> status \<noteq> TD_PENDING_APPROVAL) TD_BAD_STATUS) (\<lambda>_.
      and_then (assertBalancedLines (line_sides doc)) (\<lambda>_. Inr ())))))"

definition posted_patch :: "TreasuryDocument \<Rightarrow> bool \<Rightarrow> string \<Rightarrow> string \<Rightarrow> string \<Rightarrow> StatusPatch" where
  "posted_patch doc asApproval now actor journal =
     (let h = doc_header doc; approves = asApproval \<or> td_requiresApproval h in
      (patch_of TD_POSTED)\<lparr>sp_postedAt := Some now, sp_postingDate := Some (td_transactionDate h),
        sp_journalEntryId := Some journal,
        sp_approvedBy := (if approves then Some actor else td_approvedBy h),
        sp_approvedAt := (if approves then Some now else td_approvedAt h)\<rparr>)"

definition audit_fields_ok :: "TreasuryDocument \<Rightarrow> (TdCode, unit) result" where
  "audit_fields_ok d = (let h = doc_header d in
     assertPostedAuditFields (Some (td_createdBy h)) (td_postedAt h) (td_journalEntryId h) (td_requiresApproval h) (td_approvedBy h))"

text \<open>The end of a posting: the journal is written and linked, the document stamped.\<close>

definition finish_post ::
  "TreasuryDocument \<Rightarrow> StatusPatch \<Rightarrow> string \<Rightarrow> string \<Rightarrow> JournalEntryResult \<Rightarrow> LedgerDb \<Rightarrow> TreasuryDb \<Rightarrow> TreasuryDocument outcome" where
  "finish_post doc patch event actor journal l db =
     (let i = td_id (doc_header doc);
          db = stampLedgerTreasuryDocument (jr_transactionId journal) i (db\<lparr>tr_ledger := l\<rparr>);
          db = insertAudit i event actor (setStatus i patch db) in
      and_then (reload i db) (\<lambda>(posted, db).
      and_then (map_err TE_VALIDATION (audit_fields_ok posted)) (\<lambda>_. Inr (posted, db))))"

text \<open>\<open>cl\<close> is the committed ledger, which the pool reads.\<close>

definition postInternal ::
  "'d decimal_lib \<Rightarrow> (nat \<Rightarrow> string) \<Rightarrow> ArGovernanceMode \<Rightarrow> LedgerDb \<Rightarrow> string \<Rightarrow> TreasuryDocument \<Rightarrow> string \<Rightarrow> bool
     \<Rightarrow> TreasuryDb \<Rightarrow> TreasuryDocument outcome" where
  "postInternal D gen mode cl now doc actor asApproval db =
     and_then (map_err TE_VALIDATION (check_post doc asApproval)) (\<lambda>_.
     and_then (applySettlementsForDepositWorksheet gen doc db) (\<lambda>db.
     and_then (map_err TE_LEDGER (createJournalEntry D gen mode True cl
         (journal_request doc (document_type_name (td_documentType (doc_header doc)) @ '' '' @ td_documentNumber (doc_header doc)) actor)
         (tr_ledger db))) (\<lambda>(journal, l).
     finish_post doc (posted_patch doc asApproval now actor (jr_transactionId journal))
       (if asApproval then ''APPROVED_AND_POSTED'' else ''POSTED'') actor journal l db)))"

definition post_document ::
  "'d decimal_lib \<Rightarrow> (nat \<Rightarrow> string) \<Rightarrow> ArGovernanceMode \<Rightarrow> string \<Rightarrow> string \<Rightarrow> string \<Rightarrow> TreasuryDb \<Rightarrow> TreasuryDocument outcome" where
  "post_document D gen mode now i actor db =
     and_then (assertFeatureEnabled db) (\<lambda>_.
     with_doc i db (\<lambda>doc. postInternal D gen mode (tr_ledger db) now doc actor False db))"

definition approve ::
  "'d decimal_lib \<Rightarrow> (nat \<Rightarrow> string) \<Rightarrow> ArGovernanceMode \<Rightarrow> string \<Rightarrow> string \<Rightarrow> string \<Rightarrow> TreasuryDb \<Rightarrow> TreasuryDocument outcome" where
  "approve D gen mode now i actor db =
     and_then (assertFeatureEnabled db) (\<lambda>_.
     with_doc i db (\<lambda>doc.
     and_then (throw_if (td_status (doc_header doc) \<noteq> TD_PENDING_APPROVAL) TE_NOT_PENDING) (\<lambda>_.
     postInternal D gen mode (tr_ledger db) now doc actor True db)))"

subsection \<open>Reversal\<close>

definition oppositeLines :: "TreasuryDocument \<Rightarrow> string option \<Rightarrow> TreasuryDocumentLineInput list" where
  "oppositeLines doc reason = map (\<lambda>l.
     \<lparr>li_lineType = Some (tl_lineType l), li_accountCode = tl_accountCode l,
      li_description = Some (''Reversal: '' @ str_or (tl_description l) (tl_accountCode l)),
      li_debitAmount = Some (tl_creditAmount l), li_creditAmount = Some (tl_debitAmount l), li_amount = None,
      li_sourceReceiptId = None, li_sourcePaymentId = None, li_sourceSessionMovementId = None, li_memo = reason\<rparr>) (doc_lines doc)"

definition reversal_input :: "string \<Rightarrow> TreasuryDocument \<Rightarrow> string \<Rightarrow> string option \<Rightarrow> CreateDocumentInput" where
  "reversal_input now doc actor reason = (let h = doc_header doc in
     \<lparr>ci_documentType = TREASURY_REVERSAL, ci_transactionDate = take 10 now, ci_currencyCode = Some (td_currencyCode h),
      ci_memo = Some (str_or reason (''Reversal of '' @ td_documentNumber h)), ci_fromAccountCode = None,
      ci_toAccountCode = None, ci_bankAccountId = None, ci_depositReference = None, ci_requiresApproval = Some False,
      ci_overageAmount = None, ci_shortageAmount = None, ci_lines = oppositeLines doc reason, ci_createdBy = actor,
      ci_reversesDocumentId = Some (td_id h)\<rparr>)"

definition linked_legs :: "string \<Rightarrow> TreasuryDb \<Rightarrow> BankTransaction list" where
  "linked_legs j db = filter (\<lambda>b. bt_glTransactionId b = Some j \<and> \<not> bt_isReversed b) (tr_bankTransactions db)"

definition reverse_legs :: "string \<Rightarrow> TreasuryDb \<Rightarrow> TreasuryDb" where
  "reverse_legs j db = db\<lparr>tr_bankTransactions := map (\<lambda>b. if bt_glTransactionId b = Some j \<and> \<not> bt_isReversed b
     then b\<lparr>bt_isReversed := True\<rparr> else b) (tr_bankTransactions db)\<rparr>"

definition check_reverse :: "TreasuryDocument \<Rightarrow> TreasuryDb \<Rightarrow> (TreasuryError, string) result" where
  "check_reverse doc db = (let h = doc_header doc in
     and_then (throw_if (td_documentType h = TREASURY_REVERSAL \<or> truthy_str (td_reversesDocumentId h)) TE_REVERSAL_OF_REVERSAL) (\<lambda>_.
     and_then (throw_if (td_status h \<noteq> TD_POSTED) TE_NOT_POSTED) (\<lambda>_.
     and_then (throw_if (truthy_str (td_reversedByDocumentId h)) TE_ALREADY_REVERSED) (\<lambda>_.
     and_then (throw_if (\<not> truthy_str (td_journalEntryId h)) TE_NO_JOURNAL) (\<lambda>_.
     let j = the (td_journalEntryId h) in
     and_then (throw_if (filter bt_isReconciled (linked_legs j db) \<noteq> []) TE_RECONCILED) (\<lambda>_. Inr j))))))"

definition reverse_document ::
  "'d decimal_lib \<Rightarrow> (nat \<Rightarrow> string) \<Rightarrow> ArGovernanceMode \<Rightarrow> string \<Rightarrow> string \<Rightarrow> string \<Rightarrow> string option \<Rightarrow> TreasuryDb
     \<Rightarrow> (TreasuryDocument \<times> TreasuryDocument) outcome" where
  "reverse_document D gen mode now i actor reason db =
     and_then (assertFeatureEnabled db) (\<lambda>_.
     let cl = tr_ledger db in
     with_doc i db (\<lambda>original.
     and_then (check_reverse original db) (\<lambda>j.
     and_then (releaseSettlementsForDepositWorksheet original db) (\<lambda>db.
     and_then (createDocument gen now (reversal_input now original actor reason) db) (\<lambda>(reversal, db).
     and_then (postInternal D gen mode cl now reversal actor False db) (\<lambda>(posted, db).
     and_then (reload i (reverse_legs j (insertAudit i ''REVERSED_BY'' actor
         (setStatus i ((patch_of TD_POSTED)\<lparr>sp_reversedByDocumentId := Some (td_id (doc_header posted))\<rparr>) db)))) (\<lambda>(original, db).
     Inr ((original, posted), db))))))))"

end
