(* ===== verification/TreasuryTransfers.thy ===== *)
theory TreasuryTransfers imports TreasuryService
begin

section \<open>Transfers, petty cash and deposit worksheets\<close>

text \<open>
  The creators of treasury documents: \<open>treasuryTransferService.ts\<close>, \<open>pettyCashService.ts\<close>,
  \<open>createDepositWorksheet\<close> of \<open>depositWorksheetService.ts\<close>, with the funds guard
  \<open>liquidityFundsGuard.ts\<close>, \<open>ensurePettyCashAccount.ts\<close>, \<open>ensureDepositLiquidityBook.ts\<close> and
  \<open>ensureBankGlLiquidityTag.ts\<close>. A creator that posts at once does so in a second transaction, so it
  can fail and leave a draft: such functions return their result together with the tables.
\<close>

subsection \<open>Available funds\<close>

definition funds_epsilon :: jnum where
  "funds_epsilon = lit (1 / 10000)"

definition find_account :: "string \<Rightarrow> LedgerDb \<Rightarrow> Account option" where
  "find_account code l = find (\<lambda>a. ac_code a = code) (ld_accounts l)"

definition active_account :: "string \<Rightarrow> LedgerDb \<Rightarrow> Account option" where
  "active_account code l = find (\<lambda>a. ac_code a = code \<and> ac_isActive a) (ld_accounts l)"

definition getLiquidityAvailable :: "string \<Rightarrow> string option \<Rightarrow> LedgerDb \<Rightarrow> (TreasuryError, jnum) result" where
  "getLiquidityAvailable code asOf l =
     (case active_account code l of
        None \<Rightarrow> Inl TE_ACCOUNT_NOT_FOUND
      | Some a \<Rightarrow> let es = postedLedgerBalance (if truthy_str asOf then asOf else None) (ac_id a) l in
          Inr (availableFromPostedTotals (num_of (sum_list (map le_debit es))) (num_of (sum_list (map le_credit es)))
                 (ac_normalBalance a)))"

definition assertSufficientLiquidityFunds :: "string \<Rightarrow> jnum \<Rightarrow> string option \<Rightarrow> LedgerDb \<Rightarrow> (TreasuryError, unit) result" where
  "assertSufficientLiquidityFunds code amount asOf l =
     (let need = roundMoney amount in
      if jle need (Fin 0) then Inr ()
      else and_then (getLiquidityAvailable code asOf l) (\<lambda>available.
           throw_if (jlt (jadd available funds_epsilon) need) TE_INSUFFICIENT_FUNDS))"

subsection \<open>Transfers\<close>

record TransferInput =
  ti_transactionDate :: string
  ti_fromAccountCode :: string
  ti_toAccountCode :: string
  ti_amount :: jnum
  ti_memo :: "string option"
  ti_depositReference :: "string option"
  ti_bankAccountId :: "string option"
  ti_documentType :: "TreasuryDocumentType option"
  ti_requiresApproval :: "bool option"
  ti_sourceSessionMovementId :: "string option"
  ti_createdBy :: string
  ti_postImmediately :: "bool option"

definition loadAccountMeta :: "string \<Rightarrow> LedgerDb \<Rightarrow> (TreasuryError, string \<times> string option) result" where
  "loadAccountMeta code l = (case active_account code l of
     None \<Rightarrow> Inl TE_ACCOUNT_NOT_FOUND | Some a \<Rightarrow> Inr (ac_code a, ac_systemAccountTag a))"

definition two_lines :: "string \<Rightarrow> string \<Rightarrow> string \<Rightarrow> string \<Rightarrow> jnum \<Rightarrow> string option \<Rightarrow> TreasuryDocumentLineInput list" where
  "two_lines debitCode debitText creditCode creditText amount movement =
     [\<lparr>li_lineType = Some ACCOUNT_MOVE, li_accountCode = debitCode, li_description = Some debitText,
       li_debitAmount = Some amount, li_creditAmount = Some (Fin 0), li_amount = None, li_sourceReceiptId = None,
       li_sourcePaymentId = None, li_sourceSessionMovementId = movement, li_memo = None\<rparr>,
      \<lparr>li_lineType = Some ACCOUNT_MOVE, li_accountCode = creditCode, li_description = Some creditText,
       li_debitAmount = Some (Fin 0), li_creditAmount = Some amount, li_amount = None, li_sourceReceiptId = None,
       li_sourcePaymentId = None, li_sourceSessionMovementId = movement, li_memo = None\<rparr>]"

definition input_sides :: "TreasuryDocumentLineInput list \<Rightarrow> (jnum option \<times> jnum option) list" where
  "input_sides ls = map (\<lambda>l. (li_debitAmount l, li_creditAmount l)) ls"

definition transfer_document :: "TransferInput \<Rightarrow> string \<Rightarrow> string \<Rightarrow> jnum \<Rightarrow> bool option \<Rightarrow> CreateDocumentInput" where
  "transfer_document inp fromCode toCode amount requires =
     \<lparr>ci_documentType = coalesce (ti_documentType inp) TREASURY_TRANSFER, ci_transactionDate = ti_transactionDate inp,
      ci_currencyCode = None,
      ci_memo = Some (str_or (ti_memo inp) (''Transfer '' @ fromCode @ '' -> '' @ toCode)),
      ci_fromAccountCode = Some fromCode, ci_toAccountCode = Some toCode, ci_bankAccountId = ti_bankAccountId inp,
      ci_depositReference = ti_depositReference inp, ci_requiresApproval = requires,
      ci_overageAmount = None, ci_shortageAmount = None,
      ci_lines = two_lines toCode (''Transfer from '' @ fromCode) fromCode (''Transfer to '' @ toCode) amount
                   (ti_sourceSessionMovementId inp),
      ci_createdBy = ti_createdBy inp, ci_reversesDocumentId = None\<rparr>"

definition is_undeposited :: "string \<times> string option \<Rightarrow> bool" where
  "is_undeposited acct \<longleftrightarrow> snd acct = Some ''UNDEPOSITED_FUNDS'' \<or> fst acct = ''1015''"

definition draft_transfer :: "(nat \<Rightarrow> string) \<Rightarrow> string \<Rightarrow> TransferInput \<Rightarrow> TreasuryDb \<Rightarrow> TreasuryDocument outcome" where
  "draft_transfer gen now inp db =
     (let amount = roundMoney (ti_amount inp) in
      and_then (assertFeatureEnabled db) (\<lambda>_.
      and_then (throw_if (jle amount (Fin 0)) TE_AMOUNT_NOT_POSITIVE) (\<lambda>_.
      and_then (throw_if (ti_fromAccountCode inp = ti_toAccountCode inp) TE_SAME_ACCOUNT) (\<lambda>_.
      and_then (loadAccountMeta (ti_fromAccountCode inp) (tr_ledger db)) (\<lambda>from.
      and_then (loadAccountMeta (ti_toAccountCode inp) (tr_ledger db)) (\<lambda>to.
      and_then (map_err TE_VALIDATION (assertLiquidityAccountsOnly [from, to])) (\<lambda>_.
      and_then (throw_if (is_undeposited from \<or> is_undeposited to) TE_UNDEPOSITED) (\<lambda>_.
      and_then (assertSufficientLiquidityFunds (fst from) amount (Some (ti_transactionDate inp)) (tr_ledger db)) (\<lambda>_.
      let doc = transfer_document inp (fst from) (fst to) amount (Some (coalesce (ti_requiresApproval inp) False)) in
      and_then (map_err TE_VALIDATION (assertBalancedLines (input_sides (ci_lines doc)))) (\<lambda>_.
      createDocument gen now doc db))))))))))"

text \<open>A draft, posted at once in a second transaction if asked for and if it needs no approval.\<close>

definition post_at_once ::
  "'d decimal_lib \<Rightarrow> (nat \<Rightarrow> string) \<Rightarrow> ArGovernanceMode \<Rightarrow> string \<Rightarrow> bool option \<Rightarrow> string
     \<Rightarrow> TreasuryDocument \<Rightarrow> TreasuryDb \<Rightarrow> (TreasuryError, TreasuryDocument) result \<times> TreasuryDb" where
  "post_at_once D gen mode now immediately actor doc db =
     (if immediately \<noteq> Some False \<and> \<not> td_requiresApproval (doc_header doc)
      then (case post_document D gen mode now (td_id (doc_header doc)) actor db of
              Inl e \<Rightarrow> (Inl e, db) | Inr (d, db) \<Rightarrow> (Inr d, db))
      else (Inr doc, db))"

definition createTreasuryTransfer ::
  "'d decimal_lib \<Rightarrow> (nat \<Rightarrow> string) \<Rightarrow> ArGovernanceMode \<Rightarrow> string \<Rightarrow> TransferInput \<Rightarrow> TreasuryDb
     \<Rightarrow> (TreasuryError, TreasuryDocument) result \<times> TreasuryDb" where
  "createTreasuryTransfer D gen mode now inp db =
     (case draft_transfer gen now inp db of
        Inl e \<Rightarrow> (Inl e, db)
      | Inr (doc, db) \<Rightarrow> post_at_once D gen mode now (ti_postImmediately inp) (ti_createdBy inp) doc db)"

text \<open>Inside a caller's transaction, with the committed ledger \<open>cl\<close>.\<close>

definition createAndPostTransferInTx ::
  "'d decimal_lib \<Rightarrow> (nat \<Rightarrow> string) \<Rightarrow> ArGovernanceMode \<Rightarrow> LedgerDb \<Rightarrow> string \<Rightarrow> TransferInput \<Rightarrow> TreasuryDb \<Rightarrow> TreasuryDocument outcome" where
  "createAndPostTransferInTx D gen mode cl now inp db =
     (let amount = roundMoney (ti_amount inp) in
      and_then (throw_if (jle amount (Fin 0)) TE_AMOUNT_NOT_POSITIVE) (\<lambda>_.
      and_then (throw_if (ti_fromAccountCode inp = ti_toAccountCode inp) TE_SAME_ACCOUNT) (\<lambda>_.
      and_then (loadAccountMeta (ti_fromAccountCode inp) (tr_ledger db)) (\<lambda>from.
      and_then (loadAccountMeta (ti_toAccountCode inp) (tr_ledger db)) (\<lambda>to.
      and_then (map_err TE_VALIDATION (assertLiquidityAccountsOnly [from, to])) (\<lambda>_.
      and_then (assertSufficientLiquidityFunds (fst from) amount (Some (ti_transactionDate inp)) (tr_ledger db)) (\<lambda>_.
      let inp_doc = transfer_document inp (fst from) (fst to) amount (Some False) in
      and_then (createDocument gen now inp_doc db) (\<lambda>(draft, db).
      and_then (map_err TE_LEDGER (createJournalEntry D gen mode True cl
          (journal_request draft (coalesce (ci_memo inp_doc) []) (ti_createdBy inp)) (tr_ledger db))) (\<lambda>(journal, l).
      finish_post draft ((patch_of TD_POSTED)\<lparr>sp_postedAt := Some now, sp_postingDate := Some (td_transactionDate (doc_header draft)),
          sp_journalEntryId := Some (jr_transactionId journal)\<rparr>) ''POSTED'' (ti_createdBy inp) journal l db)))))))))"

subsection \<open>Accounts that are made on demand\<close>

definition update_accounts :: "(Account \<Rightarrow> Account) \<Rightarrow> TreasuryDb \<Rightarrow> TreasuryDb" where
  "update_accounts f db = db\<lparr>tr_ledger := (tr_ledger db)\<lparr>ld_accounts := map f (ld_accounts (tr_ledger db))\<rparr>\<rparr>"

definition insert_account ::
  "(nat \<Rightarrow> string) \<Rightarrow> string \<Rightarrow> bool \<Rightarrow> string \<Rightarrow> TreasuryDb \<Rightarrow> (TreasuryError, string \<times> TreasuryDb) result" where
  "insert_account gen code manual tag db =
     (let i = gen (tr_seq db); l = tr_ledger db in
      and_then (throw_if (i \<in> set (map ac_id (ld_accounts l))) TE_DB_UNIQUE) (\<lambda>_.
      Inr (i, db\<lparr>tr_seq := Suc (tr_seq db),
        tr_accountInfo := (i, \<lparr>ai_accountType = ''ASSET'', ai_isPosting = Some True\<rparr>) # tr_accountInfo db,
        tr_ledger := l\<lparr>ld_accounts := ld_accounts l @ [\<lparr>ac_id = i, ac_code = code, ac_normalBalance = NB_DEBIT,
          ac_isActive = True, ac_allowManualPosting = Some manual, ac_allowedSources = None,
          ac_systemAccountTag = Some tag, ac_currentBalance = 0\<rparr>]\<rparr>\<rparr>)))"

definition set_info :: "string \<Rightarrow> (AccountInfo \<Rightarrow> AccountInfo) \<Rightarrow> TreasuryDb \<Rightarrow> TreasuryDb" where
  "set_info i f db = db\<lparr>tr_accountInfo := map (\<lambda>(k, x). (k, if k = i then f x else x)) (tr_accountInfo db)\<rparr>"

definition ensurePettyCashAccount :: "(nat \<Rightarrow> string) \<Rightarrow> TreasuryDb \<Rightarrow> (TreasuryError, string \<times> TreasuryDb) result" where
  "ensurePettyCashAccount gen db =
     (case find_account ''1012'' (tr_ledger db) of
        Some a \<Rightarrow> Inr (ac_id a, update_accounts (\<lambda>a. if ac_code a = ''1012''
            then a\<lparr>ac_systemAccountTag := Some ''PETTY_CASH'', ac_allowManualPosting := Some False, ac_isActive := True\<rparr> else a) db)
      | None \<Rightarrow> insert_account gen ''1012'' False ''PETTY_CASH'' db)"

datatype DepositDestinationKind = TO_CASH | TO_MOBILE_MONEY | TO_BANK

definition depositLiquidityGlCode :: "DepositDestinationKind \<Rightarrow> string" where
  "depositLiquidityGlCode kind = (if kind = TO_CASH then ''1010'' else ''1040'')"

definition liquidity_tag :: "DepositDestinationKind \<Rightarrow> string" where
  "liquidity_tag kind = (if kind = TO_CASH then ''CASH'' else ''MOBILE_MONEY'')"

definition ensureGlAccount :: "(nat \<Rightarrow> string) \<Rightarrow> DepositDestinationKind \<Rightarrow> TreasuryDb \<Rightarrow> (TreasuryError, string \<times> TreasuryDb) result" where
  "ensureGlAccount gen kind db = (let code = depositLiquidityGlCode kind in
     case find_account code (tr_ledger db) of
        Some a \<Rightarrow> Inr (ac_id a, set_info (ac_id a) (\<lambda>x. x\<lparr>ai_isPosting := Some True\<rparr>) (update_accounts (\<lambda>a. if ac_code a = code
            then a\<lparr>ac_systemAccountTag := Some (liquidity_tag kind), ac_isActive := True\<rparr> else a) db))
      | None \<Rightarrow> insert_account gen code True (liquidity_tag kind) db)"

text \<open>\<open>ORDER BY is_active DESC, is_default DESC, created_at ASC\<close>, the rows in the order of creation.\<close>

definition book_of :: "string \<Rightarrow> TreasuryDb \<Rightarrow> BankAccount option" where
  "book_of gl db = (let bs = filter (\<lambda>b. ba_glAccountId b = gl) (tr_bankAccounts db) in
     first_some [find (\<lambda>b. ba_isActive b \<and> ba_isDefault b) bs, find ba_isActive bs, find ba_isDefault bs, find (\<lambda>_. True) bs])"

definition ensureDepositLiquidityBook ::
  "(nat \<Rightarrow> string) \<Rightarrow> DepositDestinationKind \<Rightarrow> TreasuryDb \<Rightarrow> (TreasuryError, string \<times> TreasuryDb) result" where
  "ensureDepositLiquidityBook gen kind db =
     and_then (ensureGlAccount gen kind db) (\<lambda>(gl, db).
     case book_of gl db of
       Some b \<Rightarrow> Inr (ba_id b, if ba_isActive b then db
           else db\<lparr>tr_bankAccounts := map (\<lambda>x. if ba_id x = ba_id b
             then x\<lparr>ba_isActive := True, ba_isMainCash := kind = TO_CASH \<or> ba_isMainCash x\<rparr> else x) (tr_bankAccounts db)\<rparr>)
     | None \<Rightarrow> let i = gen (tr_seq db) in
         and_then (throw_if (i \<in> set (map ba_id (tr_bankAccounts db))) TE_DB_UNIQUE) (\<lambda>_.
         Inr (i, db\<lparr>tr_seq := Suc (tr_seq db), tr_bankAccounts := tr_bankAccounts db @
            [\<lparr>ba_id = i, ba_glAccountId = gl, ba_isActive = True, ba_isDefault = False, ba_isMainCash = kind = TO_CASH\<rparr>]\<rparr>)))"

subsection \<open>Bank books\<close>

definition BLOCKED_BANK_BOOK_TAGS :: "string list" where
  "BLOCKED_BANK_BOOK_TAGS = [''ACCOUNTS_RECEIVABLE'', ''ACCOUNTS_PAYABLE'', ''INVENTORY'', ''COGS'',
     ''OPENING_BALANCE_EQUITY'', ''BAD_DEBT_EXPENSE'', ''UNDEPOSITED_FUNDS'']"

definition BLOCKED_BANK_BOOK_CODES :: "string list" where
  "BLOCKED_BANK_BOOK_CODES = [''1000'', ''1015'', ''1200'', ''1250'', ''1300'', ''1500'', ''2100'', ''2200'', ''3050'']"

definition tag_text :: "string option \<Rightarrow> string" where
  "tag_text tag = (if truthy_str tag then js_upper (js_trim (the tag)) else [])"

text \<open>Codes of four digits and more that start with 12, 2, 3, 4, 5, 6 or 7 are not cash at bank.\<close>

definition blocked_range :: "string \<Rightarrow> bool" where
  "blocked_range c \<longleftrightarrow> 4 \<le> length c \<and> list_all is_digit (take 4 c)
     \<and> (take 2 c = ''12'' \<or> take 1 c \<in> {''2'', ''3'', ''4'', ''5'', ''6'', ''7''})"

definition isBlockedBankBookGl :: "string \<Rightarrow> string option \<Rightarrow> bool" where
  "isBlockedBankBookGl code tag = (let c = js_trim code; t = tag_text tag in
     c \<in> set BLOCKED_BANK_BOOK_CODES \<or> t \<noteq> [] \<and> t \<in> set BLOCKED_BANK_BOOK_TAGS \<or> blocked_range c)"

definition isEligibleBankBookLiquidity :: "string \<Rightarrow> string option \<Rightarrow> bool" where
  "isEligibleBankBookLiquidity code tag =
     (\<not> isBlockedBankBookGl code tag \<and>
      (isLiquidityAccountTag tag \<or> isLiquidityAccountCode code \<or> js_upper (str_or tag []) = ''BANK''))"

definition account_type :: "string \<Rightarrow> TreasuryDb \<Rightarrow> string" where
  "account_type i db = js_upper (case map_of (tr_accountInfo db) i of None \<Rightarrow> [] | Some x \<Rightarrow> ai_accountType x)"

definition is_header :: "string \<Rightarrow> TreasuryDb \<Rightarrow> bool" where
  "is_header i db = (case map_of (tr_accountInfo db) i of None \<Rightarrow> False | Some x \<Rightarrow> ai_isPosting x = Some False)"

definition ensureBankGlLiquidityTag :: "string \<Rightarrow> TreasuryDb \<Rightarrow> TreasuryDb" where
  "ensureBankGlLiquidityTag gl db =
     (case find (\<lambda>a. ac_id a = gl \<and> ac_isActive a) (ld_accounts (tr_ledger db)) of
        None \<Rightarrow> db
      | Some a \<Rightarrow>
          if account_type gl db \<noteq> ''ASSET'' \<or> is_header gl db \<or> tag_text (ac_systemAccountTag a) \<noteq> []
             \<or> isBlockedBankBookGl (ac_code a) None
          then db
          else update_accounts (\<lambda>x. if ac_id x = gl then x\<lparr>ac_systemAccountTag := Some ''BANK''\<rparr> else x) db)"

definition DEPOSIT_BLOCKED_TAGS :: "string list" where
  "DEPOSIT_BLOCKED_TAGS = [''ACCOUNTS_RECEIVABLE'', ''ACCOUNTS_PAYABLE'', ''UNDEPOSITED_FUNDS'', ''OPENING_BALANCE_EQUITY'', ''COGS'', ''INVENTORY'']"

definition resolveBankGlCode :: "string \<Rightarrow> TreasuryDb \<Rightarrow> (TreasuryError, string \<times> TreasuryDb) result" where
  "resolveBankGlCode bankId db =
     (case find (\<lambda>b. ba_id b = bankId \<and> ba_isActive b) (tr_bankAccounts db) of
        None \<Rightarrow> Inl TE_BANK_NOT_FOUND
      | Some b \<Rightarrow> case find (\<lambda>a. ac_id a = ba_glAccountId b) (ld_accounts (tr_ledger db)) of
          None \<Rightarrow> Inl TE_BANK_NOT_FOUND
        | Some a \<Rightarrow>
            and_then (throw_if (js_upper (str_or (ac_systemAccountTag a) []) \<in> set DEPOSIT_BLOCKED_TAGS
                \<or> ac_code a \<in> {''1200'', ''1015'', ''3050''}) TE_BANK_BLOCKED) (\<lambda>_.
            and_then (throw_if (account_type (ac_id a) db \<noteq> ''ASSET'') TE_BANK_NOT_ASSET) (\<lambda>_.
            and_then (throw_if (is_header (ac_id a) db) TE_BANK_HEADER) (\<lambda>_.
            Inr (ac_code a, ensureBankGlLiquidityTag (ac_id a) db)))))"


subsection \<open>Petty cash\<close>

datatype PettyCashOperation = FUND | REPLENISH | EXPENSE

record PettyCashInput =
  pi_transactionDate :: string
  pi_operation :: PettyCashOperation
  pi_amount :: jnum
  pi_contraAccountCode :: "string option"
  pi_memo :: "string option"
  pi_requiresApproval :: "bool option"
  pi_sourceSessionMovementId :: "string option"
  pi_createdBy :: string
  pi_postImmediately :: "bool option"

definition assertAccountExists :: "string \<Rightarrow> LedgerDb \<Rightarrow> (TreasuryError, unit) result" where
  "assertAccountExists code l = throw_if (active_account code l = None) TE_ACCOUNT_NOT_FOUND"

text \<open>The account credited, the account debited and the default text.\<close>

definition petty_accounts :: "PettyCashInput \<Rightarrow> LedgerDb \<Rightarrow> (TreasuryError, string \<times> string \<times> string) result" where
  "petty_accounts inp l = (let contra = map_option js_trim (pi_contraAccountCode inp) in
     if pi_operation inp = EXPENSE
     then let code = str_or contra ''6900'' in
       and_then (assertAccountExists code l) (\<lambda>_.
       and_then (assertAccountExists ''1012'' l) (\<lambda>_.
       Inr (''1012'', code, ''Petty cash expense -> '' @ code)))
     else let code = str_or contra ''1010'' in
       and_then (throw_if (code = ''1012'') TE_PETTY_SELF) (\<lambda>_.
       and_then (throw_if (code = ''1015'') TE_UNDEPOSITED) (\<lambda>_.
       and_then (assertAccountExists code l) (\<lambda>_.
       and_then (assertAccountExists ''1012'' l) (\<lambda>_.
       Inr (code, ''1012'', (if pi_operation inp = REPLENISH then ''Petty cash replenish from '' else ''Petty cash fund from '') @ code))))))"

definition draft_petty_cash :: "(nat \<Rightarrow> string) \<Rightarrow> string \<Rightarrow> PettyCashInput \<Rightarrow> TreasuryDb \<Rightarrow> TreasuryDocument outcome" where
  "draft_petty_cash gen now inp db =
     (let amount = roundMoney (pi_amount inp) in
      and_then (throw_if (jle amount (Fin 0)) TE_AMOUNT_NOT_POSITIVE) (\<lambda>_.
      and_then (petty_accounts inp (tr_ledger db)) (\<lambda>(fromCode, toCode, text).
      let memo = str_or (pi_memo inp) text;
          ls = two_lines toCode memo fromCode memo amount (pi_sourceSessionMovementId inp) in
      and_then (map_err TE_VALIDATION (assertBalancedLines (input_sides ls))) (\<lambda>_.
      and_then (assertSufficientLiquidityFunds fromCode amount (Some (pi_transactionDate inp)) (tr_ledger db)) (\<lambda>_.
      createDocument gen now
        \<lparr>ci_documentType = PETTY_CASH, ci_transactionDate = pi_transactionDate inp, ci_currencyCode = None,
         ci_memo = Some memo, ci_fromAccountCode = Some fromCode, ci_toAccountCode = Some toCode, ci_bankAccountId = None,
         ci_depositReference = None, ci_requiresApproval = Some (coalesce (pi_requiresApproval inp) False),
         ci_overageAmount = None, ci_shortageAmount = None, ci_lines = ls, ci_createdBy = pi_createdBy inp,
         ci_reversesDocumentId = None\<rparr> db)))))"

text \<open>The petty cash account is made first, in a statement of its own.\<close>

definition createPettyCashDocument ::
  "'d decimal_lib \<Rightarrow> (nat \<Rightarrow> string) \<Rightarrow> ArGovernanceMode \<Rightarrow> string \<Rightarrow> PettyCashInput \<Rightarrow> TreasuryDb
     \<Rightarrow> (TreasuryError, TreasuryDocument) result \<times> TreasuryDb" where
  "createPettyCashDocument D gen mode now inp db =
     (case and_then (assertFeatureEnabled db) (\<lambda>_. ensurePettyCashAccount gen db) of
        Inl e \<Rightarrow> (Inl e, db)
      | Inr (_, db) \<Rightarrow>
          (case draft_petty_cash gen now inp db of
             Inl e \<Rightarrow> (Inl e, db)
           | Inr (doc, db) \<Rightarrow> post_at_once D gen mode now (pi_postImmediately inp) (pi_createdBy inp) doc db))"

definition posted_available :: "string \<Rightarrow> LedgerDb \<Rightarrow> jnum" where
  "posted_available code l = (case getLiquidityAvailable code None l of Inl _ \<Rightarrow> Fin 0 | Inr x \<Rightarrow> x)"

text \<open>Petty cash, cash drawer and undeposited funds.\<close>

definition getPettyCashBalance :: "LedgerDb \<Rightarrow> jnum \<times> jnum \<times> jnum" where
  "getPettyCashBalance l = (posted_available ''1012'' l, posted_available ''1010'' l, posted_available ''1015'' l)"

subsection \<open>Deposit worksheets\<close>

record ReceiptApplicationInput =
  ri_sourceType :: string
  ri_sourceId :: string
  ri_amount :: jnum

record DepositWorksheetInput =
  wi_transactionDate :: string
  wi_bankAccountId :: "string option"
  wi_destinationKind :: "DepositDestinationKind option"
  wi_depositReference :: "string option"
  wi_memo :: "string option"
  wi_receipts :: "ReceiptApplicationInput list"
  wi_shortageAmount :: "jnum option"
  wi_overageAmount :: "jnum option"
  wi_requiresApproval :: "bool option"
  wi_createdBy :: string

definition resolveDepositBankAccountId ::
  "(nat \<Rightarrow> string) \<Rightarrow> DepositWorksheetInput \<Rightarrow> TreasuryDb \<Rightarrow> (TreasuryError, (string \<times> DepositDestinationKind) \<times> TreasuryDb) result" where
  "resolveDepositBankAccountId gen inp db = (let kind = coalesce (wi_destinationKind inp) TO_BANK in
     if kind = TO_CASH \<or> kind = TO_MOBILE_MONEY
     then and_then (ensureDepositLiquidityBook gen kind db) (\<lambda>(b, db). Inr ((b, kind), db))
     else and_then (throw_if (\<not> truthy_str (wi_bankAccountId inp)) TE_NO_BANK_ACCOUNT) (\<lambda>_.
          Inr ((the (wi_bankAccountId inp), TO_BANK), db)))"

definition depositLineDescription :: "DepositDestinationKind \<Rightarrow> string option \<Rightarrow> string" where
  "depositLineDescription kind ref =
     (let base = (case kind of TO_CASH \<Rightarrow> ''Cash deposit'' | TO_MOBILE_MONEY \<Rightarrow> ''Mobile money deposit'' | TO_BANK \<Rightarrow> ''Bank deposit'')
      in if truthy_str ref then base @ '' '' @ the ref else base)"

definition receipt_line :: "ReceiptApplicationInput \<Rightarrow> ReceiptSettlement \<Rightarrow> jnum \<Rightarrow> TreasuryDocumentLineInput" where
  "receipt_line r s amount =
     \<lparr>li_lineType = Some RECEIPT_APPLICATION, li_accountCode = ''1015'',
      li_description = Some (''Deposit '' @ coalesce (rs_sourceNumber s) (rs_sourceId s)),
      li_debitAmount = Some (Fin 0), li_creditAmount = Some amount, li_amount = None,
      li_sourceReceiptId = (if ri_sourceType r = ''CUSTOMER_DEPOSIT'' then Some (ri_sourceId r) else None),
      li_sourcePaymentId = (if ri_sourceType r \<in> {''AR_CUSTOMER_PAYMENT'', ''INVOICE_PAYMENT''} then Some (ri_sourceId r) else None),
      li_sourceSessionMovementId = None, li_memo = Some (ri_sourceType r @ '':'' @ ri_sourceId r)\<rparr>"

text \<open>The loop over the receipts: their lines, their sum.\<close>

fun receipt_lines ::
  "(nat \<Rightarrow> string) \<Rightarrow> ReceiptApplicationInput list \<Rightarrow> jnum \<Rightarrow> TreasuryDb
     \<Rightarrow> (TreasuryError, (TreasuryDocumentLineInput list \<times> jnum) \<times> TreasuryDb) result" where
  "receipt_lines gen [] receiptTotal db = Inr (([], receiptTotal), db)"
| "receipt_lines gen (r # rest) receiptTotal db =
     (let amount = roundMoney (ri_amount r) in
      and_then (throw_if (jle amount (Fin 0)) TE_AMOUNT_NOT_POSITIVE) (\<lambda>_.
      and_then (lockSettlement gen (ri_sourceType r) (ri_sourceId r) db) (\<lambda>(s, db).
      and_then (map_err TE_VALIDATION (assertDepositConsumesUnsettled (rs_status s) (num_of (rs_residual s)))) (\<lambda>_.
      and_then (map_err TE_VALIDATION (assertSettlementCeiling amount (num_of (rs_residual s)))) (\<lambda>_.
      and_then (receipt_lines gen rest (roundMoney (jadd receiptTotal amount)) db) (\<lambda>((ls, t), db).
      Inr ((receipt_line r s amount # ls, t), db)))))))"

definition plain_line :: "TreasuryLineType \<Rightarrow> string \<Rightarrow> string \<Rightarrow> jnum \<Rightarrow> jnum \<Rightarrow> TreasuryDocumentLineInput" where
  "plain_line type code text debit credit =
     \<lparr>li_lineType = Some type, li_accountCode = code, li_description = Some text, li_debitAmount = Some debit,
      li_creditAmount = Some credit, li_amount = None, li_sourceReceiptId = None, li_sourcePaymentId = None,
      li_sourceSessionMovementId = None, li_memo = None\<rparr>"

definition createDepositWorksheet ::
  "(nat \<Rightarrow> string) \<Rightarrow> string \<Rightarrow> DepositWorksheetInput \<Rightarrow> TreasuryDb \<Rightarrow> TreasuryDocument outcome" where
  "createDepositWorksheet gen now inp db =
     (let shortage = roundMoney (coalesce (wi_shortageAmount inp) (Fin 0));
          overage = roundMoney (coalesce (wi_overageAmount inp) (Fin 0)) in
      and_then (assertFeatureEnabled db) (\<lambda>_.
      and_then (throw_if (wi_receipts inp = []) TE_NO_RECEIPTS) (\<lambda>_.
      and_then (throw_if (jlt (Fin 0) shortage \<and> jlt (Fin 0) overage) TE_SHORT_AND_OVER) (\<lambda>_.
      and_then (resolveDepositBankAccountId gen inp db) (\<lambda>((bankId, kind), db).
      and_then (resolveBankGlCode bankId db) (\<lambda>(bankCode, db).
      and_then (receipt_lines gen (wi_receipts inp) (Fin 0) db) (\<lambda>((ls, receiptTotal), db).
      let bankDebit = roundMoney (jadd (jsub receiptTotal shortage) overage) in
      and_then (throw_if (jle bankDebit (Fin 0)) TE_AMOUNT_NOT_POSITIVE) (\<lambda>_.
      let ls = plain_line ACCOUNT_MOVE bankCode (depositLineDescription kind (wi_depositReference inp)) bankDebit (Fin 0) # ls
             @ (if jlt (Fin 0) shortage then [plain_line SHORTAGE ''6850'' ''Cash shortage on deposit'' shortage (Fin 0)] else [])
             @ (if jlt (Fin 0) overage then [plain_line OVERAGE ''4900'' ''Cash overage on deposit'' (Fin 0) overage] else []) in
      and_then (map_err TE_VALIDATION (assertBalancedLines (input_sides ls))) (\<lambda>_.
      createDocument gen now
        \<lparr>ci_documentType = DEPOSIT_WORKSHEET, ci_transactionDate = wi_transactionDate inp, ci_currencyCode = None,
         ci_memo = Some (coalesce (wi_memo inp) (''Deposit worksheet - '' @ show_nat (length (wi_receipts inp)) @ '' receipt(s)'')),
         ci_fromAccountCode = Some ''1015'', ci_toAccountCode = Some bankCode, ci_bankAccountId = Some bankId,
         ci_depositReference = wi_depositReference inp, ci_requiresApproval = Some (coalesce (wi_requiresApproval inp) False),
         ci_overageAmount = Some overage, ci_shortageAmount = Some shortage, ci_lines = ls, ci_createdBy = wi_createdBy inp,
         ci_reversesDocumentId = None\<rparr> db)))))))))"

definition getDepositReconciliation ::
  "(nat \<Rightarrow> string) \<Rightarrow> TreasuryDb \<Rightarrow> (TreasuryError, (jnum \<times> jnum \<times> jnum) \<times> TreasuryDb) result" where
  "getDepositReconciliation gen db =
     and_then (assertFeatureEnabled db) (\<lambda>_.
     and_then (syncReceiptSettlements gen db) (\<lambda>db.
     let gl = getClearingGlBalance ''1015'' db; unsettled = sumUnsettledResidual ''1015'' db in
     Inr ((roundMoney gl, roundMoney unsettled, roundMoney (jsub gl unsettled)), db)))"

end
