(* ===== verification/TreasuryChanges.thy ===== *)
theory TreasuryChanges imports TreasuryTransfers LedgerHistory
begin

section \<open>What happens to treasury documents\<close>

text \<open>
  The treasury module as a transition system, and an abstract machine of document changes: a draft
  appears, is edited, submitted, sent back, posted with its journal, marked as reversed; beside it
  accounts are made and the ledger moves. Every operation of the module is a sequence of such
  changes (\<open>treasury_step_changes\<close>), so what every change keeps, every run of the module keeps.
\<close>

subsection \<open>Requests\<close>

text \<open>Reference type and idempotency keys that only this module uses.\<close>

definition reserved_key :: "string \<Rightarrow> bool" where
  "reserved_key k \<longleftrightarrow> take 14 k = ''TREASURY-POST-''"

definition foreign_journal :: "JournalEntryRequest \<Rightarrow> bool" where
  "foreign_journal rq \<longleftrightarrow> je_referenceType rq \<noteq> ''TREASURY_DOCUMENT'' \<and> \<not> reserved_key (je_idempotencyKey rq)"

definition same_docs :: "TreasuryDb \<Rightarrow> TreasuryDb \<Rightarrow> bool" where
  "same_docs db db' \<longleftrightarrow> tr_documents db' = tr_documents db \<and> tr_lines db' = tr_lines db \<and> tr_audit db' = tr_audit db
     \<and> tr_stamps db' = tr_stamps db \<and> tr_ledger db' = tr_ledger db"

inductive foreign_ledger ::
  "'d decimal_lib \<Rightarrow> (nat \<Rightarrow> string) \<Rightarrow> ArGovernanceMode \<Rightarrow> LedgerDb \<Rightarrow> LedgerDb \<Rightarrow> bool" for D gen mode where
  fl_create: "createJournalEntry D gen mode tx cl rq l = Inr (r, l') \<Longrightarrow> foreign_journal rq \<Longrightarrow> foreign_ledger D gen mode l l'"
| fl_reverse: "reverseTransaction D gen tx cl rv l = Inr (r, l') \<Longrightarrow> \<not> reserved_key (rv_idempotencyKey rv)
     \<Longrightarrow> foreign_ledger D gen mode l l'"
| fl_lock: "lockPeriod pid user l = Inr l' \<Longrightarrow> foreign_ledger D gen mode l l'"
| fl_rebuild: "foreign_ledger D gen mode l (rebuild_all D ks l)"

text \<open>One request of the module, or what other modules do around it.\<close>

inductive treasury_step ::
  "'d decimal_lib \<Rightarrow> (nat \<Rightarrow> string) \<Rightarrow> ArGovernanceMode \<Rightarrow> TreasuryDb \<Rightarrow> TreasuryDb \<Rightarrow> bool" for D gen mode where
  ts_create: "createDraft gen now inp db = Inr (d, db') \<Longrightarrow> treasury_step D gen mode db db'"
| ts_update: "updateDraft gen i upd db = Inr (d, db') \<Longrightarrow> treasury_step D gen mode db db'"
| ts_submit: "submit now i actor db = Inr (d, db') \<Longrightarrow> treasury_step D gen mode db db'"
| ts_reject: "reject i actor db = Inr (d, db') \<Longrightarrow> treasury_step D gen mode db db'"
| ts_post: "post_document D gen mode now i actor db = Inr (d, db') \<Longrightarrow> treasury_step D gen mode db db'"
| ts_approve: "approve D gen mode now i actor db = Inr (d, db') \<Longrightarrow> treasury_step D gen mode db db'"
| ts_reverse: "reverse_document D gen mode now i actor reason db = Inr (ds, db') \<Longrightarrow> treasury_step D gen mode db db'"
| ts_transfer: "createTreasuryTransfer D gen mode now tin db = (r, db') \<Longrightarrow> treasury_step D gen mode db db'"
| ts_transfer_tx: "createAndPostTransferInTx D gen mode cl now tin db = Inr (d, db') \<Longrightarrow> treasury_step D gen mode db db'"
| ts_petty: "createPettyCashDocument D gen mode now pin db = (r, db') \<Longrightarrow> treasury_step D gen mode db db'"
| ts_worksheet: "createDepositWorksheet gen now win db = Inr (d, db') \<Longrightarrow> treasury_step D gen mode db db'"
| ts_receipts: "listUnsettledReceipts gen code limit db = Inr (rs, db') \<Longrightarrow> treasury_step D gen mode db db'"
| ts_void: "voidSettlementForReversedArPayment p db = Inr db' \<Longrightarrow> treasury_step D gen mode db db'"
| ts_ledger: "foreign_ledger D gen mode (tr_ledger db) l \<Longrightarrow> treasury_step D gen mode db (db\<lparr>tr_ledger := l\<rparr>)"
| ts_other: "same_docs db db' \<Longrightarrow> tr_settlements db' = tr_settlements db \<Longrightarrow> tr_applications db' = tr_applications db
     \<Longrightarrow> treasury_step D gen mode db db'"

subsection \<open>Document changes\<close>

text \<open>A line as it is stored for an input.\<close>

definition stored_line :: "string \<Rightarrow> TreasuryDocumentLineInput \<Rightarrow> rat DocumentLine \<Rightarrow> bool" where
  "stored_line i raw l \<longleftrightarrow> tl_documentId l = i \<and> tl_accountCode l = li_accountCode raw
     \<and> tl_lineType l = coalesce (li_lineType raw) ACCOUNT_MOVE \<and> tl_memo l = li_memo raw
     \<and> tl_sourcePaymentId l = li_sourcePaymentId raw \<and> tl_sourceReceiptId l = li_sourceReceiptId raw
     \<and> line_check (tl_debitAmount l) (tl_creditAmount l) (tl_amount l)
     \<and> (\<exists>a. normalizeLineAmounts raw = Inr a \<and> money_column (na_debitAmount a) = Inr (tl_debitAmount l)
          \<and> money_column (na_creditAmount a) = Inr (tl_creditAmount l) \<and> money_column (na_amount a) = Inr (tl_amount l))"

definition stored_lines :: "string \<Rightarrow> TreasuryDocumentLineInput list \<Rightarrow> rat DocumentLine list \<Rightarrow> bool" where
  "stored_lines i raws ls \<longleftrightarrow> list_all2 (stored_line i) raws ls \<and> map tl_lineNumber ls = [1..<Suc (length raws)]"

definition fresh_draft :: "rat DocumentHeader \<Rightarrow> bool" where
  "fresh_draft r \<longleftrightarrow> td_status r = TD_DRAFT \<and> td_postingDate r = None \<and> td_submittedAt r = None \<and> td_approvedBy r = None
     \<and> td_approvedAt r = None \<and> td_postedAt r = None \<and> td_journalEntryId r = None \<and> td_reversedByDocumentId r = None
     \<and> td_rowVersion r = 1"

text \<open>A header that was edited: identity, type, status and history stay.\<close>

definition edited :: "rat DocumentHeader \<Rightarrow> rat DocumentHeader \<Rightarrow> bool" where
  "edited r r' \<longleftrightarrow> r' = r\<lparr>td_transactionDate := td_transactionDate r', td_memo := td_memo r',
     td_totalAmount := td_totalAmount r', td_overageAmount := td_overageAmount r', td_shortageAmount := td_shortageAmount r',
     td_fromAccountCode := td_fromAccountCode r', td_toAccountCode := td_toAccountCode r',
     td_bankAccountId := td_bankAccountId r', td_depositReference := td_depositReference r',
     td_requiresApproval := td_requiresApproval r', td_rowVersion := Suc (td_rowVersion r)\<rparr>"

definition without_lines :: "string \<Rightarrow> TreasuryDb \<Rightarrow> rat DocumentLine list" where
  "without_lines i db = filter (\<lambda>l. tl_documentId l \<noteq> i) (tr_lines db)"

definition the_document :: "rat DocumentHeader \<Rightarrow> TreasuryDb \<Rightarrow> TreasuryDocument" where
  "the_document r db = mapDocument r (loadLines (td_id r) db)"

text \<open>The columns that posting fills in.\<close>

definition posting_patch :: "rat DocumentHeader \<Rightarrow> StatusPatch \<Rightarrow> string \<Rightarrow> bool" where
  "posting_patch r p j \<longleftrightarrow> sp_status p = TD_POSTED \<and> sp_journalEntryId p = Some j \<and> sp_submittedAt p = None
     \<and> sp_reversedByDocumentId p = None \<and> sp_postedAt p \<noteq> None \<and> sp_postingDate p = Some (take 10 (td_transactionDate r))"

definition accounts_grow :: "Account list \<Rightarrow> Account list \<Rightarrow> bool" where
  "accounts_grow as bs \<longleftrightarrow> (\<exists>f new. bs = map f as @ new
     \<and> (\<forall>a. ac_id (f a) = ac_id a \<and> ac_code (f a) = ac_code a \<and> ac_normalBalance (f a) = ac_normalBalance a
          \<and> ac_currentBalance (f a) = ac_currentBalance a)
     \<and> distinct (map ac_id new) \<and> distinct (map ac_code new) \<and> [] \<notin> set (map ac_code new)
     \<and> set (map ac_id new) \<inter> set (map ac_id as) = {} \<and> set (map ac_code new) \<inter> set (map ac_code as) = {})"

inductive doc_change ::
  "'d decimal_lib \<Rightarrow> (nat \<Rightarrow> string) \<Rightarrow> ArGovernanceMode \<Rightarrow> TreasuryDb \<Rightarrow> TreasuryDb \<Rightarrow> bool" for D gen mode where
  dc_same: "same_docs db db' \<Longrightarrow> doc_change D gen mode db db'"
| dc_draft: "fresh_draft r \<Longrightarrow> td_id r \<notin> td_id ` set (tr_documents db)
     \<Longrightarrow> td_documentNumber r \<notin> td_documentNumber ` set (tr_documents db) \<Longrightarrow> stored_lines (td_id r) raws ls
     \<Longrightarrow> tr_documents db' = tr_documents db @ [r] \<Longrightarrow> tr_lines db' = without_lines (td_id r) db @ ls
     \<Longrightarrow> tr_audit db' = tr_audit db @ [\<lparr>tau_documentId = td_id r, tau_eventType = ''CREATED'', tau_actorUserId = td_createdBy r\<rparr>]
     \<Longrightarrow> tr_stamps db' = tr_stamps db \<Longrightarrow> tr_ledger db' = tr_ledger db \<Longrightarrow> doc_change D gen mode db db'"
| dc_edit: "find_doc i db = Some r \<Longrightarrow> td_status r = TD_DRAFT \<Longrightarrow> \<forall>x. edited x (g x)
     \<Longrightarrow> tr_documents db' = map (\<lambda>x. if td_id x = i then g x else x) (tr_documents db)
     \<Longrightarrow> tr_lines db' = tr_lines db \<or> (stored_lines i raws ls \<and> tr_lines db' = without_lines i db @ ls)
     \<Longrightarrow> tr_audit db' = tr_audit db @ [\<lparr>tau_documentId = i, tau_eventType = ''UPDATED'', tau_actorUserId = actor\<rparr>]
     \<Longrightarrow> tr_stamps db' = tr_stamps db \<Longrightarrow> tr_ledger db' = tr_ledger db \<Longrightarrow> doc_change D gen mode db db'"
| dc_submit: "find_doc i db = Some r \<Longrightarrow> td_status r = TD_DRAFT \<Longrightarrow> assertBalancedLines (line_sides (the_document r db)) = Inr x
     \<Longrightarrow> doc_change D gen mode db (insertAudit i ''SUBMITTED'' actor (setStatus i ((patch_of TD_PENDING_APPROVAL)\<lparr>sp_submittedAt := Some now\<rparr>) db))"
| dc_reject: "find_doc i db = Some r \<Longrightarrow> td_status r = TD_PENDING_APPROVAL
     \<Longrightarrow> doc_change D gen mode db (insertAudit i ''REJECTED'' actor (clearApprovalOnReject i db))"
| dc_post: "find_doc i db = Some r \<Longrightarrow> td_status r \<in> {TD_DRAFT, TD_PENDING_APPROVAL}
     \<Longrightarrow> createJournalEntry D gen mode True cl (journal_request (the_document r db) text actor) (tr_ledger db) = Inr (j, l)
     \<Longrightarrow> posting_patch r p (jr_transactionId j) \<Longrightarrow> event \<in> {''POSTED'', ''APPROVED_AND_POSTED''}
     \<Longrightarrow> finish_post (the_document r db) p event actor j l db = Inr (d, db') \<Longrightarrow> doc_change D gen mode db db'"
| dc_mark: "find_doc i db = Some r \<Longrightarrow> td_status r = TD_POSTED \<Longrightarrow> td_documentType r \<noteq> TREASURY_REVERSAL
     \<Longrightarrow> \<not> truthy_str (td_reversedByDocumentId r) \<Longrightarrow> find_doc k db = Some q \<Longrightarrow> td_status q = TD_POSTED
     \<Longrightarrow> td_reversesDocumentId q = Some i \<Longrightarrow> td_documentType q = TREASURY_REVERSAL
     \<Longrightarrow> doc_change D gen mode db (insertAudit i ''REVERSED_BY'' actor
           (setStatus i ((patch_of TD_POSTED)\<lparr>sp_reversedByDocumentId := Some k\<rparr>) db))"
| dc_accounts: "accounts_grow (ld_accounts (tr_ledger db)) as \<Longrightarrow> tr_documents db' = tr_documents db
     \<Longrightarrow> tr_lines db' = tr_lines db \<Longrightarrow> tr_audit db' = tr_audit db \<Longrightarrow> tr_stamps db' = tr_stamps db
     \<Longrightarrow> tr_ledger db' = (tr_ledger db)\<lparr>ld_accounts := as\<rparr> \<Longrightarrow> doc_change D gen mode db db'"
| dc_ledger: "foreign_ledger D gen mode (tr_ledger db) l \<Longrightarrow> doc_change D gen mode db (db\<lparr>tr_ledger := l\<rparr>)"

subsection \<open>Settlements leave the documents alone\<close>

lemma same_docs_refl [simp]: "same_docs db db"
  by (simp add: same_docs_def)

lemma same_docs_trans: "same_docs a b \<Longrightarrow> same_docs b c \<Longrightarrow> same_docs a c"
  by (simp add: same_docs_def)

lemma same_docs_find: "same_docs a b \<Longrightarrow> find_doc i b = find_doc i a \<and> getById i b = getById i a"
  by (simp add: same_docs_def find_doc_def getById_def loadLines_def lines_of_def)

lemma same_docs_document: "same_docs a b \<Longrightarrow> the_document r b = the_document r a"
  by (simp add: same_docs_def the_document_def loadLines_def lines_of_def)

lemma insert_settlement_docs: "insert_settlement gen type sid number amount date txn db = Inr db' \<Longrightarrow> same_docs db db'"
  by (auto simp: insert_settlement_def Let_def and_then_Inr_iff same_docs_def split: if_splits)

lemma insert_settlements_docs: "insert_settlements gen type cs db = Inr db' \<Longrightarrow> same_docs db db'"
proof (induction gen type cs db rule: insert_settlements.induct)
  case (2 gen type sid number amount date txn rest db)
  then show ?case by (auto simp: and_then_Inr_iff) (meson same_docs_trans insert_settlement_docs)
qed simp

lemma sync_docs: "syncReceiptSettlements gen db = Inr db' \<Longrightarrow> same_docs db db'"
proof -
  have c: "same_docs x (close_reversed x)" for x by (simp add: close_reversed_def same_docs_def)
  have a: "align_all x = Inr y \<Longrightarrow> same_docs x y" for x y by (auto simp: align_all_def Let_def same_docs_def split: if_splits)
  show "syncReceiptSettlements gen db = Inr db' \<Longrightarrow> same_docs db db'"
    unfolding syncReceiptSettlements_def and_then_Inr_iff
    by (elim exE conjE) (meson same_docs_trans insert_settlements_docs a c)
qed

lemma lockSettlement_docs: "lockSettlement gen type sid db = Inr (s, db') \<Longrightarrow> same_docs db db'"
  by (auto simp: lockSettlement_def and_then_Inr_iff sync_docs split: option.splits)

lemma update_settlement_docs: "update_settlement i f db = Inr db' \<Longrightarrow> same_docs db db'"
  by (auto simp: update_settlement_def Let_def same_docs_def split: if_splits)

lemma insert_application_docs: "insert_application gen sid docId lineId amount db = Inr db' \<Longrightarrow> same_docs db db'"
  by (auto simp: insert_application_def and_then_Inr_iff same_docs_def)

lemma applySettlement_docs: "applySettlement gen type sid amount docId lineId db = Inr db' \<Longrightarrow> same_docs db db'"
  unfolding applySettlement_def Let_def and_then_Inr_iff
  by (elim exE conjE, case_tac a, simp only: prod.case and_then_Inr_iff, elim exE conjE)
    (meson same_docs_trans lockSettlement_docs update_settlement_docs insert_application_docs)

lemma map_err_Inr [simp]: "map_err g r = Inr a \<longleftrightarrow> r = Inr a"
  by (cases r) simp_all

lemma apply_lines_docs: "apply_lines gen docId ls db = Inr db' \<Longrightarrow> same_docs db db'"
proof (induction gen docId ls db rule: apply_lines.induct)
  case (2 gen docId l rest db)
  then show ?case by (auto simp: and_then_Inr_iff split: option.splits) (meson same_docs_trans applySettlement_docs)
qed simp

lemma apply_worksheet_docs: "applySettlementsForDepositWorksheet gen doc db = Inr db' \<Longrightarrow> same_docs db db'"
  by (auto simp: applySettlementsForDepositWorksheet_def Let_def and_then_Inr_iff apply_lines_docs split: if_splits)

lemma release_all_docs: "release_all as db = Inr db' \<Longrightarrow> same_docs db db'"
proof (induction as db rule: release_all.induct)
  case (2 a rest db)
  have m: "same_docs x (mark_application (ra_id a) x)" for x by (simp add: mark_application_def same_docs_def)
  from 2 show ?case by (auto simp: and_then_Inr_iff) (meson same_docs_trans update_settlement_docs m)
qed simp

lemma release_worksheet_docs: "releaseSettlementsForDepositWorksheet doc db = Inr db' \<Longrightarrow> same_docs db db'"
  by (auto simp: releaseSettlementsForDepositWorksheet_def reverseApplicationsForDocument_def release_all_docs split: if_splits)

lemma void_docs: "voidSettlementForReversedArPayment p db = Inr db' \<Longrightarrow> same_docs db db'"
  by (auto simp: voidSettlementForReversedArPayment_def Let_def and_then_Inr_iff update_settlement_docs split: list.splits)

lemma receipt_lines_docs: "receipt_lines gen rs t db = Inr (x, db') \<Longrightarrow> same_docs db db'"
proof (induction gen rs t db arbitrary: x rule: receipt_lines.induct)
  case (2 gen r rest t db)
  then show ?case by (auto simp: and_then_Inr_iff Let_def) (meson same_docs_trans lockSettlement_docs)
qed simp

subsection \<open>Documents that are made\<close>

lemma find_Some_member: "find P xs = Some x \<Longrightarrow> x \<in> set xs \<and> P x"
  by (auto simp: find_Some_iff)

lemma new_line_stored:
  assumes "normalizeLineAmounts raw = Inr a" "new_line gen i n raw a db = Inr l"
  shows "stored_line i raw l \<and> tl_lineNumber l = n \<and> tl_id l = gen (tr_seq db)"
  using assms by (auto simp: new_line_def and_then_Inr_iff stored_line_def)

lemma insert_lines_stored:
  assumes "insert_lines gen i n raws t db = Inr (t', db')"
  shows "\<exists>ls. db' = db\<lparr>tr_lines := tr_lines db @ ls, tr_seq := tr_seq db + length ls\<rparr> \<and> list_all2 (stored_line i) raws ls
    \<and> map tl_lineNumber ls = [n..<n + length raws]"
  using assms
proof (induction gen i n raws t db arbitrary: t' db' rule: insert_lines.induct)
  case (2 gen i n raw rest t db)
  from "2.prems" obtain a l where a: "normalizeLineAmounts raw = Inr a" "new_line gen i n raw a db = Inr l"
    and r: "insert_lines gen i (Suc n) rest (jadd t (na_debitAmount a)) (db\<lparr>tr_lines := tr_lines db @ [l], tr_seq := Suc (tr_seq db)\<rparr>) = Inr (t', db')"
    by (auto simp: and_then_Inr_iff)
  from "2.IH" [of a l t' db'] r a obtain ls where ls: "list_all2 (stored_line i) rest ls" "map tl_lineNumber ls = [Suc n..<Suc n + length rest]"
    "db' = db\<lparr>tr_lines := tr_lines db @ [l], tr_seq := Suc (tr_seq db)\<rparr>\<lparr>tr_lines := (tr_lines db @ [l]) @ ls, tr_seq := Suc (tr_seq db) + length ls\<rparr>"
    by auto
  with new_line_stored [OF a] show ?case by (intro exI [of _ "l # ls"]) (simp add: upt_conv_Cons del: upt_Suc)
qed simp

lemma replaceLines_stored:
  assumes "replaceLines gen i raws db = Inr (t, db')"
  shows "\<exists>ls. db' = db\<lparr>tr_lines := without_lines i db @ ls, tr_seq := tr_seq db + length ls\<rparr> \<and> stored_lines i raws ls"
  using assms insert_lines_stored [of gen i 1 raws "Fin 0" "db\<lparr>tr_lines := without_lines i db\<rparr>"]
  by (fastforce simp: replaceLines_def and_then_Inr_iff stored_lines_def without_lines_def)

lemma reload_Inr [simp]: "reload i db = Inr (d, db') \<longleftrightarrow> db' = db \<and> getById i db = Some d"
  by (auto simp: reload_def split: option.splits)

lemma createDocument_change:
  assumes "createDocument gen now inp db = Inr (d, db')"
  shows "doc_change D gen mode db db' \<and> tr_ledger db' = tr_ledger db
    \<and> (\<exists>r ls. fresh_draft r \<and> tr_documents db' = tr_documents db @ [r] \<and> find_doc (td_id r) db' = Some r \<and> d = the_document r db'
        \<and> td_id r \<notin> td_id ` set (tr_documents db) \<and> stored_lines (td_id r) (ci_lines inp) ls
        \<and> tr_lines db' = without_lines (td_id r) db @ ls
        \<and> td_documentType r = ci_documentType inp \<and> td_requiresApproval r = coalesce (ci_requiresApproval inp) False
        \<and> td_reversesDocumentId r = ci_reversesDocumentId inp \<and> td_transactionDate r = ci_transactionDate inp \<and> td_createdBy r = ci_createdBy inp)"
proof -
  obtain number db0 where n: "nextDocumentNumber (document_year now (ci_transactionDate inp)) db = (number, db0)" by fastforce
  then have db0: "same_docs db db0" by (auto simp: nextDocumentNumber_def Let_def same_docs_def)
  from assms obtain r0 t db1 q where r0: "new_document gen number inp db0 = Inr r0"
    and t: "replaceLines gen (td_id r0) (ci_lines inp) (db0\<lparr>tr_documents := tr_documents db0 @ [r0], tr_seq := Suc (tr_seq db0)\<rparr>) = Inr (t, db1)"
    and db': "db' = insertAudit (td_id r0) ''CREATED'' (ci_createdBy inp) (update_doc (td_id r0) (\<lambda>r. r\<lparr>td_totalAmount := q\<rparr>) db1)"
    and d: "getById (td_id r0) db' = Some d"
    by (auto simp: createDocument_def n and_then_Inr_iff Let_def)
  have r: "fresh_draft r0" "td_id r0 \<notin> td_id ` set (tr_documents db0)" "td_documentNumber r0 \<notin> td_documentNumber ` set (tr_documents db0)"
    "td_documentType r0 = ci_documentType inp" "td_requiresApproval r0 = coalesce (ci_requiresApproval inp) False"
    "td_reversesDocumentId r0 = ci_reversesDocumentId inp" "td_transactionDate r0 = ci_transactionDate inp" "td_createdBy r0 = ci_createdBy inp"
    using r0 by (auto simp: new_document_def and_then_Inr_iff fresh_draft_def)
  define r' where "r' = r0\<lparr>td_totalAmount := q\<rparr>"
  have r': "fresh_draft r'" "td_id r' = td_id r0" "td_documentNumber r' = td_documentNumber r0" "td_documentType r' = td_documentType r0"
    "td_requiresApproval r' = td_requiresApproval r0" "td_reversesDocumentId r' = td_reversesDocumentId r0"
    "td_transactionDate r' = td_transactionDate r0" "td_createdBy r' = td_createdBy r0"
    using r(1) by (simp_all add: r'_def fresh_draft_def)
  from replaceLines_stored [OF t] obtain ls n where ls: "stored_lines (td_id r0) (ci_lines inp) ls"
    "db1 = db0\<lparr>tr_documents := tr_documents db0 @ [r0], tr_lines := without_lines (td_id r0) db0 @ ls, tr_seq := n\<rparr>"
    by (auto simp: without_lines_def)
  have "map (\<lambda>x. if td_id x = td_id r0 then x\<lparr>td_totalAmount := q\<rparr> else x) (tr_documents db0) = tr_documents db0"
    using r(2) by (intro map_idI) (auto simp: image_iff)
  then have docs: "tr_documents db' = tr_documents db @ [r']"
    using db0 by (simp add: db' ls(2) update_doc_def insertAudit_def r'_def same_docs_def)
  have rest: "tr_lines db' = without_lines (td_id r') db @ ls" "tr_stamps db' = tr_stamps db" "tr_ledger db' = tr_ledger db"
    "tr_audit db' = tr_audit db @ [\<lparr>tau_documentId = td_id r', tau_eventType = ''CREATED'', tau_actorUserId = td_createdBy r'\<rparr>]"
    using db0 r(8) by (simp_all add: db' ls(2) update_doc_def insertAudit_def r' same_docs_def without_lines_def)
  have fresh: "td_id r' \<notin> td_id ` set (tr_documents db)" "td_documentNumber r' \<notin> td_documentNumber ` set (tr_documents db)"
    using r(2,3) db0 by (simp_all add: r' same_docs_def)
  have f: "find_doc (td_id r') db' = Some r'"
    using fresh(1) by (auto simp: find_doc_def docs find_append find_None_iff image_iff split: option.split dest!: find_Some_member)
  have s: "stored_lines (td_id r') (ci_lines inp) ls" using ls(1) by (simp add: r')
  have "doc_change D gen mode db db'"
    by (rule dc_draft [OF r'(1) fresh s docs rest(1,4,2,3)])
  moreover have "d = the_document r' db'" using d f by (simp add: getById_def the_document_def r')
  ultimately show ?thesis using docs f fresh(1) s rest(1,3) r(4-8) r'(1) unfolding r'(4-8) [symmetric]
    by (intro conjI exI [of _ r'] exI [of _ ls])
qed


subsection \<open>Posting\<close>

lemma find_doc_update: "find_doc j (update_doc i f db) = map_option (\<lambda>r. if td_id r = i then f r else r) (find_doc j db)"
  if "\<And>r. td_id (f r) = td_id r"
  using that by (simp add: find_doc_def update_doc_def find_map_id)

lemma find_doc_id: "find_doc i db = Some r \<Longrightarrow> td_id r = i \<and> r \<in> set (tr_documents db)"
  by (auto simp: find_doc_def dest: find_Some_member)

lemma getById_document: "getById i db = Some d \<longleftrightarrow> (\<exists>r. find_doc i db = Some r \<and> d = the_document r db)"
  by (auto simp: getById_def the_document_def dest: find_doc_id)

text \<open>A header read from the database keeps everything but the scale of its amounts.\<close>

lemma mapHeader_simps [simp]:
  "td_id (mapHeader r) = td_id r" "td_documentNumber (mapHeader r) = td_documentNumber r"
  "td_documentType (mapHeader r) = td_documentType r" "td_status (mapHeader r) = td_status r"
  "td_memo (mapHeader r) = td_memo r" "td_requiresApproval (mapHeader r) = td_requiresApproval r"
  "td_transactionDate (mapHeader r) = take 10 (td_transactionDate r)" "td_createdBy (mapHeader r) = td_createdBy r"
  "td_approvedBy (mapHeader r) = td_approvedBy r" "td_approvedAt (mapHeader r) = td_approvedAt r"
  "td_postedAt (mapHeader r) = td_postedAt r" "td_journalEntryId (mapHeader r) = td_journalEntryId r"
  "td_reversesDocumentId (mapHeader r) = td_reversesDocumentId r"
  "td_reversedByDocumentId (mapHeader r) = td_reversedByDocumentId r" "td_rowVersion (mapHeader r) = td_rowVersion r"
  "td_currencyCode (mapHeader r) = td_currencyCode r" "td_submittedAt (mapHeader r) = td_submittedAt r"
  by (simp_all add: mapHeader_def)

lemma the_document_simps [simp]:
  "doc_header (the_document r db) = mapHeader r" "doc_lines (the_document r db) = loadLines (td_id r) db"
  by (simp_all add: the_document_def mapDocument_def)

lemma check_post_Inr:
  "check_post d a = Inr u \<longleftrightarrow> td_status (doc_header d) \<noteq> TD_POSTED
     \<and> (td_requiresApproval (doc_header d) \<longrightarrow> td_status (doc_header d) = TD_PENDING_APPROVAL \<or> a)
     \<and> (td_requiresApproval (doc_header d) \<or> td_status (doc_header d) \<in> {TD_DRAFT, TD_PENDING_APPROVAL})
     \<and> (\<exists>x. assertBalancedLines (line_sides d) = Inr x)"
  by (auto simp: check_post_def and_then_Inr_iff Let_def)

lemma posting_patch_posted:
  "posting_patch r (posted_patch (the_document r db) a now actor j) j"
  by (simp add: posting_patch_def posted_patch_def patch_of_def Let_def)

text \<open>Posting a document read before its settlements were applied.\<close>

lemma postInternal_changes:
  assumes f: "find_doc i db = Some r" and s: "td_status r \<in> {TD_DRAFT, TD_PENDING_APPROVAL}"
    and p: "postInternal D gen mode cl now (the_document r db) actor a db = Inr (d, db')"
  shows "(doc_change D gen mode)\<^sup>*\<^sup>* db db'"
proof -
  let ?d = "the_document r db"
  from p obtain x j l where x: "applySettlementsForDepositWorksheet gen ?d db = Inr x"
    and j: "createJournalEntry D gen mode True cl (journal_request ?d
        (document_type_name (td_documentType r) @ '' '' @ td_documentNumber r) actor) (tr_ledger x) = Inr (j, l)"
    and fin: "finish_post ?d (posted_patch ?d a now actor (jr_transactionId j))
       (if a then ''APPROVED_AND_POSTED'' else ''POSTED'') actor j l x = Inr (d, db')"
    by (auto simp: postInternal_def and_then_Inr_iff)
  have sd: "same_docs db x" by (rule apply_worksheet_docs [OF x])
  then have d: "the_document r x = ?d" "find_doc i x = Some r" using f by (simp_all add: same_docs_document same_docs_find)
  have "doc_change D gen mode x db'"
    by (rule dc_post [OF d(2) s _ posting_patch_posted _ fin [folded d(1)]])
      (use j sd d(1) in \<open>simp_all add: same_docs_def\<close>)
  with dc_same [OF sd] show ?thesis by (meson converse_rtranclp_into_rtranclp rtranclp.rtrancl_refl)
qed

lemma finish_post_Inr:
  "finish_post d p event actor j l db = Inr (d', db') \<longleftrightarrow>
     (let i = td_id (doc_header d) in db' = insertAudit i event actor (setStatus i p
        (stampLedgerTreasuryDocument (jr_transactionId j) i (db\<lparr>tr_ledger := l\<rparr>)))
      \<and> getById i db' = Some d' \<and> audit_fields_ok d' = Inr ())"
  by (auto simp: finish_post_def Let_def and_then_Inr_iff)

lemma with_doc_Inr: "with_doc i db f = Inr x \<longleftrightarrow> (\<exists>d. getById i db = Some d \<and> f d = Inr x)"
  by (auto simp: with_doc_def split: option.splits)

lemma assertFeatureEnabled_Inr [simp]: "assertFeatureEnabled db = Inr u \<longleftrightarrow> tr_enabled db"
  by (simp add: assertFeatureEnabled_def)

lemma post_document_changes:
  assumes "post_document D gen mode now i actor db = Inr (d, db')"
  shows "(doc_change D gen mode)\<^sup>*\<^sup>* db db'"
proof -
  from assms obtain r where f: "find_doc i db = Some r"
    and p: "postInternal D gen mode (tr_ledger db) now (the_document r db) actor False db = Inr (d, db')"
    by (auto simp: post_document_def and_then_Inr_iff with_doc_Inr getById_document)
  have "td_status r \<in> {TD_DRAFT, TD_PENDING_APPROVAL}" using p by (auto simp: postInternal_def and_then_Inr_iff check_post_Inr)
  from postInternal_changes [OF f this p] show ?thesis .
qed

lemma approve_changes:
  assumes "approve D gen mode now i actor db = Inr (d, db')"
  shows "(doc_change D gen mode)\<^sup>*\<^sup>* db db'"
proof -
  from assms obtain r where f: "find_doc i db = Some r" "td_status r = TD_PENDING_APPROVAL"
    and p: "postInternal D gen mode (tr_ledger db) now (the_document r db) actor True db = Inr (d, db')"
    by (auto simp: approve_def and_then_Inr_iff with_doc_Inr getById_document)
  from postInternal_changes [OF f(1) _ p] f(2) show ?thesis by simp
qed

subsection \<open>Drafts\<close>

lemma createDraft_changes: "createDraft gen now inp db = Inr (d, db') \<Longrightarrow> doc_change D gen mode db db'"
  unfolding createDraft_def and_then_Inr_iff by (elim exE conjE) (drule createDocument_change, blast)

lemma submit_changes: "submit now i actor db = Inr (d, db') \<Longrightarrow> doc_change D gen mode db db'"
  by (auto simp: submit_def and_then_Inr_iff with_doc_Inr getById_document Let_def intro: dc_submit)

lemma reject_changes: "reject i actor db = Inr (d, db') \<Longrightarrow> doc_change D gen mode db db'"
  by (auto simp: reject_def and_then_Inr_iff with_doc_Inr getById_document Let_def intro: dc_reject)

lemma without_lines_cong: "tr_lines a = tr_lines b \<Longrightarrow> without_lines i a = without_lines i b"
  by (simp add: without_lines_def)

definition edit_header :: "UpdateDocumentInput \<Rightarrow> rat option \<Rightarrow> rat option \<Rightarrow> rat DocumentHeader \<Rightarrow> rat DocumentHeader" where
  "edit_header inp ov sh r = r\<lparr>td_transactionDate := coalesce (ui_transactionDate inp) (td_transactionDate r),
     td_memo := coalesce (ui_memo inp) (td_memo r),
     td_fromAccountCode := coalesce (ui_fromAccountCode inp) (td_fromAccountCode r),
     td_toAccountCode := coalesce (ui_toAccountCode inp) (td_toAccountCode r),
     td_bankAccountId := coalesce (ui_bankAccountId inp) (td_bankAccountId r),
     td_depositReference := coalesce (ui_depositReference inp) (td_depositReference r),
     td_requiresApproval := coalesce (ui_requiresApproval inp) (td_requiresApproval r),
     td_overageAmount := coalesce ov (td_overageAmount r),
     td_shortageAmount := coalesce sh (td_shortageAmount r),
     td_rowVersion := Suc (td_rowVersion r)\<rparr>"

text \<open>An accepted edit replaces the lines, if any are given, and the fields of the header.\<close>

lemma updateDraft_Inr:
  assumes "updateDraft gen i inp db = Inr (d, db')"
  shows "\<exists>r f ls raws. find_doc i db = Some r \<and> td_status r = TD_DRAFT \<and> td_rowVersion r = ui_expectedRowVersion inp
     \<and> (\<forall>x. edited x (f x)) \<and> tr_documents db' = map (\<lambda>x. if td_id x = i then f x else x) (tr_documents db)
     \<and> (tr_lines db' = tr_lines db \<or> stored_lines i raws ls \<and> tr_lines db' = without_lines i db @ ls)
     \<and> tr_audit db' = tr_audit db @ [\<lparr>tau_documentId = i, tau_eventType = ''UPDATED'', tau_actorUserId = ui_actorUserId inp\<rparr>]
     \<and> tr_stamps db' = tr_stamps db \<and> tr_ledger db' = tr_ledger db"
proof -
  from assms obtain r where f: "find_doc i db = Some r" "td_status r = TD_DRAFT"
    and u: "repo_updateDraft gen i inp db = Inr (d, db')"
    by (auto simp: updateDraft_def and_then_Inr_iff with_doc_Inr getById_document Let_def)
  from u f(1) obtain db1 ov sh where
    1: "(case ui_lines inp of None \<Rightarrow> Inr db
        | Some ls \<Rightarrow> and_then (replaceLines gen i ls db) (\<lambda>(total, db).
            and_then (money_column total) (\<lambda>t. Inr (update_doc i (\<lambda>r. r\<lparr>td_totalAmount := t\<rparr>) db)))) = Inr db1"
    and 2: "db' = insertAudit i ''UPDATED'' (ui_actorUserId inp) (update_doc i (edit_header inp ov sh) db1)"
    unfolding repo_updateDraft_def
    by (simp add: getById_def and_then_Inr_iff) (elim exE conjE, rule that, assumption, unfold edit_header_def [abs_def], assumption)
  have v: "td_rowVersion r = ui_expectedRowVersion inp"
    using u f(1) unfolding repo_updateDraft_def by (simp add: getById_def and_then_Inr_iff mapDocument_def)
  let ?g = "edit_header inp ov sh"
  have g: "edited x (?g x)" "edited x (?g (x\<lparr>td_totalAmount := t\<rparr>))" "td_id (?g x) = td_id x" for x t
    by (simp_all add: edited_def edit_header_def)
  show ?thesis
  proof (cases "ui_lines inp")
    case None
    then have "db1 = db" using 1 by simp
    then show ?thesis using f v g by (intro exI [of _ r] exI [of _ ?g]) (simp add: 2 insertAudit_def update_doc_def)
  next
    case (Some ls)
    with 1 obtain t q db0 where t: "replaceLines gen i ls db = Inr (t, db0)"
      and db1: "db1 = update_doc i (\<lambda>r. r\<lparr>td_totalAmount := q\<rparr>) db0"
      by (auto simp: and_then_Inr_iff)
    from replaceLines_stored [OF t] obtain ns n where ns: "stored_lines i ls ns"
      "db0 = db\<lparr>tr_lines := without_lines i db @ ns, tr_seq := n\<rparr>" by blast
    show ?thesis using f v ns(1) g
      by (intro exI [of _ r] exI [of _ "\<lambda>x. ?g (x\<lparr>td_totalAmount := q\<rparr>)"] exI [of _ ns] exI [of _ ls])
        (simp add: 2 db1 ns(2) insertAudit_def update_doc_def comp_def if_distrib cong: if_cong)
  qed
qed

lemma updateDraft_changes: "updateDraft gen i inp db = Inr (d, db') \<Longrightarrow> doc_change D gen mode db db'"
proof -
  assume "updateDraft gen i inp db = Inr (d, db')"
  from updateDraft_Inr [OF this] obtain r f ls raws where e: "find_doc i db = Some r" "td_status r = TD_DRAFT" "\<forall>x. edited x (f x)"
    "tr_documents db' = map (\<lambda>x. if td_id x = i then f x else x) (tr_documents db)"
    "tr_lines db' = tr_lines db \<or> stored_lines i raws ls \<and> tr_lines db' = without_lines i db @ ls"
    "tr_audit db' = tr_audit db @ [\<lparr>tau_documentId = i, tau_eventType = ''UPDATED'', tau_actorUserId = ui_actorUserId inp\<rparr>]"
    "tr_stamps db' = tr_stamps db" "tr_ledger db' = tr_ledger db" by blast
  show ?thesis by (rule dc_edit [OF e])
qed

subsection \<open>Transfers, petty cash and worksheets\<close>

lemma accounts_grow_map:
  assumes "\<And>a. ac_id (f a) = ac_id a \<and> ac_code (f a) = ac_code a \<and> ac_normalBalance (f a) = ac_normalBalance a
      \<and> ac_currentBalance (f a) = ac_currentBalance a"
  shows "accounts_grow as (map f as)"
  unfolding accounts_grow_def using assms by (intro exI [of _ f] exI [of _ "[]"]) simp

lemma update_accounts_change:
  assumes "\<And>a. ac_id (f a) = ac_id a \<and> ac_code (f a) = ac_code a \<and> ac_normalBalance (f a) = ac_normalBalance a
      \<and> ac_currentBalance (f a) = ac_currentBalance a"
  shows "doc_change D gen mode db (update_accounts f db)"
  by (rule dc_accounts [OF accounts_grow_map [OF assms]]) (simp_all add: update_accounts_def)

lemma insert_account_change:
  assumes "insert_account gen code m tag db = Inr (i, db')" "find_account code (tr_ledger db) = None" "code \<noteq> []"
  shows "doc_change D gen mode db db'"
proof (rule dc_accounts)
  show "accounts_grow (ld_accounts (tr_ledger db)) (ld_accounts (tr_ledger db'))"
    unfolding accounts_grow_def using assms
    by (intro exI [of _ "\<lambda>a. a"] exI [of _ "[\<lparr>ac_id = gen (tr_seq db), ac_code = code, ac_normalBalance = NB_DEBIT, ac_isActive = True,
        ac_allowManualPosting = Some m, ac_allowedSources = None, ac_systemAccountTag = Some tag, ac_currentBalance = 0\<rparr>]"])
      (auto simp: insert_account_def Let_def and_then_Inr_iff find_account_def find_None_iff)
qed (use assms in \<open>auto simp: insert_account_def Let_def and_then_Inr_iff\<close>)

lemma ensurePetty_change:
  assumes "ensurePettyCashAccount gen db = Inr (i, db')"
  shows "doc_change D gen mode db db'"
proof (cases "find_account ''1012'' (tr_ledger db)")
  case None
  then show ?thesis using assms by (intro insert_account_change [OF _ None]) (simp_all add: ensurePettyCashAccount_def)
next
  case (Some a)
  with assms have db': "db' = update_accounts (\<lambda>a. if ac_code a = ''1012''
      then a\<lparr>ac_systemAccountTag := Some ''PETTY_CASH'', ac_allowManualPosting := Some False, ac_isActive := True\<rparr> else a) db"
    by (simp add: ensurePettyCashAccount_def)
  show ?thesis unfolding db' by (rule update_accounts_change) simp
qed

lemma ensureGlAccount_change:
  assumes "ensureGlAccount gen kind db = Inr (i, db')"
  shows "doc_change D gen mode db db'"
proof (cases "find_account (depositLiquidityGlCode kind) (tr_ledger db)")
  case None
  then show ?thesis using assms
    by (intro insert_account_change [OF _ None]) (simp_all add: ensureGlAccount_def depositLiquidityGlCode_def)
next
  case (Some a)
  let ?f = "\<lambda>a. if ac_code a = depositLiquidityGlCode kind
      then a\<lparr>ac_systemAccountTag := Some (liquidity_tag kind), ac_isActive := True\<rparr> else a"
  from Some assms have db': "db' = set_info i (\<lambda>x. x\<lparr>ai_isPosting := Some True\<rparr>) (update_accounts ?f db)"
    by (auto simp: ensureGlAccount_def Let_def)
  show ?thesis
    by (rule dc_accounts [OF accounts_grow_map, where f1 = ?f]) (simp_all add: db' set_info_def update_accounts_def)
qed

lemma ensureBook_changes:
  assumes "ensureDepositLiquidityBook gen kind db = Inr (b, db')"
  shows "(doc_change D gen mode)\<^sup>*\<^sup>* db db'"
proof -
  from assms obtain gl db1 where 1: "ensureGlAccount gen kind db = Inr (gl, db1)" and 2: "same_docs db1 db'"
    by (auto simp: ensureDepositLiquidityBook_def and_then_Inr_iff Let_def same_docs_def split: option.splits if_splits)
  from ensureGlAccount_change [OF 1] dc_same [OF 2] show ?thesis by (meson converse_rtranclp_into_rtranclp rtranclp.rtrancl_refl)
qed

lemma resolveBank_changes:
  assumes "resolveDepositBankAccountId gen inp db = Inr (x, db1)" "resolveBankGlCode b db1 = Inr (code, db')"
  shows "(doc_change D gen mode)\<^sup>*\<^sup>* db db'"
proof -
  have 1: "(doc_change D gen mode)\<^sup>*\<^sup>* db db1"
    using assms(1) by (auto simp: resolveDepositBankAccountId_def Let_def and_then_Inr_iff split: if_splits intro: ensureBook_changes)
  from assms(2) obtain gl where db': "db' = ensureBankGlLiquidityTag gl db1"
    by (auto simp: resolveBankGlCode_def and_then_Inr_iff split: option.splits)
  have "db' = db1 \<or> db' = update_accounts (\<lambda>x. if ac_id x = gl then x\<lparr>ac_systemAccountTag := Some ''BANK''\<rparr> else x) db1"
    by (auto simp: db' ensureBankGlLiquidityTag_def split: option.splits)
  then have "(doc_change D gen mode)\<^sup>*\<^sup>* db1 db'"
    by (elim disjE) (simp, simp only:, intro r_into_rtranclp update_accounts_change, simp)
  with 1 show ?thesis by (rule rtranclp_trans)
qed

lemma createDocument_changes: "createDocument gen now inp db = Inr (d, db') \<Longrightarrow> (doc_change D gen mode)\<^sup>*\<^sup>* db db'"
  using createDocument_change by blast

lemma worksheet_changes:
  assumes "createDepositWorksheet gen now inp db = Inr (d, db')"
  shows "(doc_change D gen mode)\<^sup>*\<^sup>* db db'"
proof -
  from assms obtain b k db1 code db2 ls t db3 doc where
    1: "resolveDepositBankAccountId gen inp db = Inr ((b, k), db1)" and 2: "resolveBankGlCode b db1 = Inr (code, db2)"
    and 3: "receipt_lines gen (wi_receipts inp) (Fin 0) db2 = Inr ((ls, t), db3)" and 4: "createDocument gen now doc db3 = Inr (d, db')"
    unfolding createDepositWorksheet_def Let_def and_then_Inr_iff by (auto simp: and_then_Inr_iff)
  from resolveBank_changes [OF 1 2] dc_same [OF receipt_lines_docs [OF 3]] createDocument_changes [OF 4] show ?thesis
    by (meson rtranclp.rtrancl_into_rtrancl rtranclp_trans)
qed

lemma post_at_once_changes:
  assumes "post_at_once D gen mode now im actor d db = (r, db')"
  shows "(doc_change D gen mode)\<^sup>*\<^sup>* db db'"
  using assms by (auto simp: post_at_once_def split: if_splits sum.splits intro: post_document_changes)

lemma draft_transfer_changes: "draft_transfer gen now inp db = Inr (d, db') \<Longrightarrow> (doc_change D gen mode)\<^sup>*\<^sup>* db db'"
  by (auto simp: draft_transfer_def Let_def and_then_Inr_iff intro: createDocument_changes)

lemma transfer_changes:
  assumes "createTreasuryTransfer D gen mode now inp db = (r, db')"
  shows "(doc_change D gen mode)\<^sup>*\<^sup>* db db'"
  using assms by (auto simp: createTreasuryTransfer_def split: sum.splits
      intro: rtranclp_trans [OF draft_transfer_changes post_at_once_changes])

lemma draft_petty_changes: "draft_petty_cash gen now inp db = Inr (d, db') \<Longrightarrow> (doc_change D gen mode)\<^sup>*\<^sup>* db db'"
  by (auto simp: draft_petty_cash_def Let_def and_then_Inr_iff intro: createDocument_changes)

lemma petty_changes:
  assumes "createPettyCashDocument D gen mode now inp db = (r, db')"
  shows "(doc_change D gen mode)\<^sup>*\<^sup>* db db'"
proof (cases "and_then (assertFeatureEnabled db) (\<lambda>_. ensurePettyCashAccount gen db)")
  case (Inr x)
  then obtain i db1 where x: "x = (i, db1)" and 1: "ensurePettyCashAccount gen db = Inr (i, db1)"
    by (cases x) (auto simp: and_then_Inr_iff)
  have "(doc_change D gen mode)\<^sup>*\<^sup>* db1 db'"
    using assms Inr x by (auto simp: createPettyCashDocument_def split: sum.splits
        intro: rtranclp_trans [OF draft_petty_changes post_at_once_changes])
  with ensurePetty_change [OF 1] show ?thesis by (rule converse_rtranclp_into_rtranclp)
qed (use assms in \<open>simp add: createPettyCashDocument_def\<close>)

lemma transfer_in_tx_changes:
  assumes "createAndPostTransferInTx D gen mode cl now inp db = Inr (d, db')"
  shows "(doc_change D gen mode)\<^sup>*\<^sup>* db db'"
proof -
  from assms obtain fr to draft db1 j l desc where
    1: "createDocument gen now (transfer_document inp (fst fr) (fst to) (roundMoney (ti_amount inp)) (Some False)) db = Inr (draft, db1)"
    and 2: "createJournalEntry D gen mode True cl (journal_request draft desc (ti_createdBy inp)) (tr_ledger db1) = Inr (j, l)"
    and 3: "finish_post draft ((patch_of TD_POSTED)\<lparr>sp_postedAt := Some now, sp_postingDate := Some (td_transactionDate (doc_header draft)),
          sp_journalEntryId := Some (jr_transactionId j)\<rparr>) ''POSTED'' (ti_createdBy inp) j l db1 = Inr (d, db')"
    unfolding createAndPostTransferInTx_def Let_def and_then_Inr_iff by (auto simp: and_then_Inr_iff)
  from createDocument_change [OF 1, of D mode] obtain r where c: "doc_change D gen mode db db1"
    and r: "find_doc (td_id r) db1 = Some r" "draft = the_document r db1" "fresh_draft r" by blast
  have "doc_change D gen mode db1 db'"
    by (rule dc_post [OF r(1) _ 2 [unfolded r(2)] _ _ 3 [unfolded r(2)]])
      (use r(3) in \<open>simp_all add: fresh_draft_def posting_patch_def patch_of_def r(2)\<close>)
  with c show ?thesis by (meson converse_rtranclp_into_rtranclp rtranclp.rtrancl_refl)
qed


subsection \<open>Reversal\<close>

definition patch_row :: "StatusPatch \<Rightarrow> rat DocumentHeader \<Rightarrow> rat DocumentHeader" where
  "patch_row p r = r\<lparr>td_status := sp_status p, td_submittedAt := or_keep (sp_submittedAt p) (td_submittedAt r),
       td_approvedBy := or_keep (sp_approvedBy p) (td_approvedBy r), td_approvedAt := or_keep (sp_approvedAt p) (td_approvedAt r),
       td_postedAt := or_keep (sp_postedAt p) (td_postedAt r), td_postingDate := or_keep (sp_postingDate p) (td_postingDate r),
       td_journalEntryId := or_keep (sp_journalEntryId p) (td_journalEntryId r),
       td_reversedByDocumentId := or_keep (sp_reversedByDocumentId p) (td_reversedByDocumentId r), td_rowVersion := Suc (td_rowVersion r)\<rparr>"

lemma setStatus_patch: "setStatus i p db = update_doc i (patch_row p) db"
  by (simp add: setStatus_def patch_row_def [abs_def])

lemma patch_row_simps [simp]:
  "td_id (patch_row p r) = td_id r" "td_documentNumber (patch_row p r) = td_documentNumber r"
  "td_documentType (patch_row p r) = td_documentType r" "td_status (patch_row p r) = sp_status p"
  "td_reversesDocumentId (patch_row p r) = td_reversesDocumentId r" "td_requiresApproval (patch_row p r) = td_requiresApproval r"
  "td_createdBy (patch_row p r) = td_createdBy r" "td_transactionDate (patch_row p r) = td_transactionDate r"
  "td_rowVersion (patch_row p r) = Suc (td_rowVersion r)"
  by (simp_all add: patch_row_def)

lemma insertAudit_simps [simp]:
  "find_doc i (insertAudit j e a db) = find_doc i db" "tr_documents (insertAudit j e a db) = tr_documents db"
  "tr_lines (insertAudit j e a db) = tr_lines db" "tr_ledger (insertAudit j e a db) = tr_ledger db"
  "tr_stamps (insertAudit j e a db) = tr_stamps db"
  by (simp_all add: insertAudit_def find_doc_def)

lemma update_doc_simps [simp]:
  "tr_lines (update_doc i f db) = tr_lines db" "tr_ledger (update_doc i f db) = tr_ledger db"
  "tr_stamps (update_doc i f db) = tr_stamps db" "tr_audit (update_doc i f db) = tr_audit db"
  "tr_documents (update_doc i f db) = map (\<lambda>r. if td_id r = i then f r else r) (tr_documents db)"
  by (simp_all add: update_doc_def)

lemma find_doc_setStatus:
  "find_doc j (setStatus i p db) = map_option (\<lambda>r. if td_id r = i then patch_row p r else r) (find_doc j db)"
  unfolding setStatus_patch by (rule find_doc_update) simp

lemma stamp_simps [simp]:
  "find_doc j (stampLedgerTreasuryDocument t i db) = find_doc j db" "tr_lines (stampLedgerTreasuryDocument t i db) = tr_lines db"
  "tr_documents (stampLedgerTreasuryDocument t i db) = tr_documents db" "tr_ledger (stampLedgerTreasuryDocument t i db) = tr_ledger db"
  "find_doc j (db\<lparr>tr_ledger := l\<rparr>) = find_doc j db"
  by (simp_all add: stampLedgerTreasuryDocument_def find_doc_def)

lemma postInternal_find:
  assumes "postInternal D gen mode cl now (the_document r db) actor a db = Inr (d, db')" "find_doc i db = Some r"
  shows "find_doc j db' = map_option (\<lambda>x. if td_id x = i then patch_row (posted_patch (the_document r db) a now actor (the (td_journalEntryId (doc_header d)))) x else x)
      (find_doc j db) \<and> td_id (doc_header d) = i \<and> (\<exists>q. find_doc i db' = Some q \<and> d = the_document q db')"
proof -
  have id: "td_id r = i" using find_doc_id [OF assms(2)] by simp
  from assms(1) obtain x k l where x: "applySettlementsForDepositWorksheet gen (the_document r db) db = Inr x"
    and fin: "finish_post (the_document r db) (posted_patch (the_document r db) a now actor (jr_transactionId k))
       (if a then ''APPROVED_AND_POSTED'' else ''POSTED'') actor k l x = Inr (d, db')"
    by (auto simp: postInternal_def and_then_Inr_iff)
  have f: "find_doc j x = find_doc j db" for j using same_docs_find [OF apply_worksheet_docs [OF x]] by simp
  have g: "find_doc j db' = map_option (\<lambda>y. if td_id y = i then patch_row (posted_patch (the_document r db) a now actor (jr_transactionId k)) y else y)
      (find_doc j db)" for j
    using fin id by (simp add: finish_post_Inr Let_def find_doc_setStatus f)
  have "getById (td_id (doc_header (the_document r db))) db' = Some d" using fin unfolding finish_post_Inr Let_def by (elim conjE)
  then have d: "getById i db' = Some d" by (simp add: id)
  then obtain q where q: "find_doc i db' = Some q" "d = the_document q db'" by (auto simp: getById_document)
  moreover have "td_id (doc_header d) = i" using q find_doc_id [OF q(1)] by simp
  moreover have "td_journalEntryId (doc_header d) = Some (jr_transactionId k)"
    using q g [of i] assms(2) id by (auto simp: patch_row_def posted_patch_def patch_of_def or_keep_def Let_def)
  ultimately have "td_id (doc_header d) = i" "the (td_journalEntryId (doc_header d)) = jr_transactionId k" by simp_all
  then show ?thesis using g [of j] q by (intro conjI exI [of _ q]) (simp_all only:)
qed

lemma reverse_changes:
  assumes "reverse_document D gen mode now i actor reason db = Inr (ds, db')"
  shows "(doc_change D gen mode)\<^sup>*\<^sup>* db db'"
proof -
  from assms obtain original j db1 rv db2 d db3 where o1: "getById i db = Some original" and c: "check_reverse original db = Inr j"
    and rel: "releaseSettlementsForDepositWorksheet original db = Inr db1"
    and cr: "createDocument gen now (reversal_input now original actor reason) db1 = Inr (rv, db2)"
    and p: "postInternal D gen mode (tr_ledger db) now rv actor False db2 = Inr (d, db3)"
    and fin: "db' = reverse_legs j (insertAudit i ''REVERSED_BY'' actor
         (setStatus i ((patch_of TD_POSTED)\<lparr>sp_reversedByDocumentId := Some (td_id (doc_header d))\<rparr>) db3))"
    by (auto simp: reverse_document_def and_then_Inr_iff with_doc_Inr Let_def)
  from o1 obtain r where r: "find_doc i db = Some r" "original = the_document r db" by (auto simp: getById_document)
  have id: "td_id r = i" using find_doc_id [OF r(1)] by simp
  have ok: "td_status r = TD_POSTED" "td_documentType r \<noteq> TREASURY_REVERSAL" "\<not> truthy_str (td_reversedByDocumentId r)"
    using c r by (auto simp: check_reverse_def Let_def and_then_Inr_iff)
  note s1 = release_worksheet_docs [OF rel]
  from createDocument_change [OF cr, of D mode] obtain q where c2: "doc_change D gen mode db1 db2"
    and q: "fresh_draft q" "tr_documents db2 = tr_documents db1 @ [q]" "find_doc (td_id q) db2 = Some q" "rv = the_document q db2"
      "td_id q \<notin> td_id ` set (tr_documents db1)" "td_documentType q = TREASURY_REVERSAL" "td_reversesDocumentId q = Some i"
    by (auto simp: reversal_input_def Let_def r(2) id)
  have f2: "find_doc i db2 = Some r"
    using r(1) s1 q(2) by (simp add: find_doc_def same_docs_def find_append)
  have ne: "td_id q \<noteq> i" using q(5) s1 find_doc_id [OF r(1)] by (auto simp: same_docs_def image_iff)
  have "td_status q \<in> {TD_DRAFT, TD_PENDING_APPROVAL}" using q(1) by (simp add: fresh_draft_def)
  from postInternal_changes [OF q(3) this p [unfolded q(4)]] have c3: "(doc_change D gen mode)\<^sup>*\<^sup>* db2 db3" .
  note pf = postInternal_find [OF p [unfolded q(4)] q(3)]
  have f3: "find_doc i db3 = Some r" "\<exists>k. find_doc (td_id q) db3 = Some k \<and> td_status k = TD_POSTED
      \<and> td_reversesDocumentId k = Some i \<and> td_documentType k = TREASURY_REVERSAL" "td_id (doc_header d) = td_id q"
    using pf f2 id ne q(3,6,7) by (simp_all add: posted_patch_def patch_of_def Let_def)
  from f3(2) obtain k where k: "find_doc (td_id q) db3 = Some k" "td_status k = TD_POSTED"
      "td_reversesDocumentId k = Some i" "td_documentType k = TREASURY_REVERSAL" by blast
  have c4: "doc_change D gen mode db3 (insertAudit i ''REVERSED_BY'' actor
         (setStatus i ((patch_of TD_POSTED)\<lparr>sp_reversedByDocumentId := Some (td_id (doc_header d))\<rparr>) db3))"
    unfolding f3(3) by (rule dc_mark [OF f3(1) ok k])
  have "same_docs x (reverse_legs j x)" for x by (simp add: reverse_legs_def same_docs_def)
  then have "doc_change D gen mode x (reverse_legs j x)" for x by (rule dc_same)
  then show ?thesis unfolding fin
    using converse_rtranclp_into_rtranclp [OF dc_same [OF s1] converse_rtranclp_into_rtranclp [OF c2 c3]] c4
    by (meson rtranclp.rtrancl_into_rtrancl)
qed

subsection \<open>Every operation is a sequence of changes\<close>

lemma treasury_step_changes:
  assumes "treasury_step D gen mode db db'"
  shows "(doc_change D gen mode)\<^sup>*\<^sup>* db db'"
  using assms
proof cases
  case (ts_receipts code limit rs)
  then obtain x where "syncReceiptSettlements gen db = Inr x" "db' = x"
    by (auto simp: listUnsettledReceipts_def and_then_Inr_iff Let_def)
  then show ?thesis using dc_same [OF sync_docs] by blast
next
  case (ts_ledger l)
  then show ?thesis using dc_ledger by blast
next
  case ts_other
  then show ?thesis using dc_same by blast
next
  case (ts_void p)
  then show ?thesis using dc_same [OF void_docs] by blast
qed (blast intro: r_into_rtranclp createDraft_changes updateDraft_changes submit_changes reject_changes post_document_changes
    approve_changes reverse_changes transfer_changes transfer_in_tx_changes petty_changes worksheet_changes)+

end
