(* ===== verification/TreasuryInv.thy ===== *)
theory TreasuryInv imports TreasuryChanges LedgerLiveness
begin

section \<open>Invariants of the treasury\<close>

text \<open>
  What every document change keeps: keys and line numbers, the columns of a status, the type of a
  stored line, and the link of a posted document with its journal in the ledger.
\<close>

subsection \<open>Statuses\<close>

definition lifecycle_ok :: "rat DocumentHeader \<Rightarrow> bool" where
  "lifecycle_ok r \<longleftrightarrow> (case td_status r of
     TD_DRAFT \<Rightarrow> td_journalEntryId r = None \<and> td_postedAt r = None \<and> td_submittedAt r = None \<and> td_approvedBy r = None
        \<and> td_reversedByDocumentId r = None
   | TD_PENDING_APPROVAL \<Rightarrow> td_journalEntryId r = None \<and> td_postedAt r = None \<and> td_submittedAt r \<noteq> None \<and> td_approvedBy r = None
        \<and> td_reversedByDocumentId r = None
   | TD_POSTED \<Rightarrow> truthy_str (td_journalEntryId r) \<and> truthy_str (td_postedAt r) \<and> td_createdBy r \<noteq> []
        \<and> td_postingDate r = Some (take 10 (td_transactionDate r)) \<and> (td_requiresApproval r \<longrightarrow> truthy_str (td_approvedBy r))
   | TD_CANCELLED \<Rightarrow> False)"

subsection \<open>Lines\<close>

definition line_typed :: "rat DocumentLine \<Rightarrow> bool" where
  "line_typed l \<longleftrightarrow> line_check (tl_debitAmount l) (tl_creditAmount l) (tl_amount l)
     \<and> rat_cents (tl_debitAmount l) \<and> rat_cents (tl_creditAmount l) \<and> rat_cents (tl_amount l)
     \<and> tl_debitAmount l < 10 ^ 16 \<and> tl_creditAmount l < 10 ^ 16 \<and> tl_amount l = tl_debitAmount l + tl_creditAmount l"

definition own_lines :: "string \<Rightarrow> TreasuryDb \<Rightarrow> rat DocumentLine list" where
  "own_lines i db = filter (\<lambda>l. tl_documentId l = i) (tr_lines db)"

lemma pg_round_2_cents: "rat_cents (pg_round 2 q)"
proof -
  let ?k = "\<lfloor>\<bar>q\<bar> * 10 ^ 2 + 1 / 2\<rfloor>"
  have "pg_round 2 q = of_int (if q < 0 then - ?k else ?k) / 100" by (simp add: pg_round_def Let_def)
  then show ?thesis unfolding rat_cents_iff by blast
qed

lemma money_column_typed: "money_column x = Inr q \<Longrightarrow> rat_cents q \<and> \<bar>q\<bar> < 10 ^ 16"
  by (auto simp: money_column_def numeric_18_2_def Let_def pg_round_2_cents split: jnum.splits if_splits)

lemma money_column_0: "money_column (Fin 0) = Inr 0"
  using js_decimal_cents [of 0] pg_round_cents [of 2 0] by (simp add: money_column_def numeric_18_2_def)

lemma normalized_amount:
  assumes "normalizeLineAmounts raw = Inr a" "money_column (na_debitAmount a) = Inr d" "money_column (na_creditAmount a) = Inr c"
    "money_column (na_amount a) = Inr m"
  shows "m = d + c"
proof -
  have z: "x = Fin 0" if "\<not> jlt (Fin 0) x" "\<not> jlt x (Fin 0)" "money_column x = Inr q" for x q
    using that by (cases x) (auto simp: money_column_def)
  have "na_amount a = na_debitAmount a \<and> na_creditAmount a = Fin 0 \<or> na_amount a = na_creditAmount a \<and> na_debitAmount a = Fin 0"
    using assms(1-3) z unfolding normalizeLineAmounts_def by (auto simp: Let_def and_then_Inr_iff split: if_splits)
  then show ?thesis using assms(2-4) by (auto simp: money_column_0)
qed

lemma stored_line_typed: "stored_line i raw l \<Longrightarrow> line_typed l \<and> tl_documentId l = i"
proof -
  assume s: "stored_line i raw l"
  then have "tl_amount l = tl_debitAmount l + tl_creditAmount l" unfolding stored_line_def by (blast intro: normalized_amount)
  with s show ?thesis unfolding stored_line_def line_typed_def by (auto dest!: money_column_typed)
qed

lemma stored_lines_own:
  assumes "stored_lines i raws ls"
  shows "\<forall>l \<in> set ls. line_typed l \<and> tl_documentId l = i" "map tl_lineNumber ls = [1..<Suc (length ls)]"
proof -
  have l: "list_all2 (stored_line i) raws ls" using assms by (simp add: stored_lines_def)
  show "\<forall>l \<in> set ls. line_typed l \<and> tl_documentId l = i"
    using l stored_line_typed unfolding list_all2_conv_all_nth in_set_conv_nth by (metis in_set_conv_nth)
  show "map tl_lineNumber ls = [1..<Suc (length ls)]"
    using assms list_all2_lengthD [OF l] by (simp add: stored_lines_def del: upt_Suc)
qed

lemma own_lines_replaced:
  assumes "\<forall>l \<in> set ls. tl_documentId l = i" "tr_lines db' = without_lines i db @ ls"
  shows "own_lines j db' = (if j = i then ls else own_lines j db)"
proof -
  have "filter (\<lambda>l. tl_documentId l = j) ls = (if j = i then ls else [])"
    using assms(1) by (auto simp: filter_empty_conv intro!: filter_True)
  moreover have "filter (\<lambda>l. tl_documentId l = j) (without_lines i db) = (if j = i then [] else own_lines j db)"
    by (auto simp: without_lines_def own_lines_def filter_empty_conv intro: filter_cong)
  ultimately show ?thesis by (simp add: own_lines_def assms(2))
qed

lemma lines_of_sorted: "lines_of i db = sort_key tl_lineNumber (own_lines i db)"
  by (simp add: lines_of_def own_lines_def)

lemma sort_key_sorted: "sorted (map f xs) \<Longrightarrow> sort_key f xs = xs"
  by (induction xs) (simp_all add: insort_is_Cons)

lemma lines_of_own: "map tl_lineNumber (own_lines i db) = [1..<n] \<Longrightarrow> lines_of i db = own_lines i db"
  unfolding lines_of_sorted by (rule sort_key_sorted) (simp del: upt_Suc)

subsection \<open>Well-formed tables\<close>

definition docs_wf :: "TreasuryDb \<Rightarrow> bool" where
  "docs_wf db \<longleftrightarrow> distinct (map td_id (tr_documents db)) \<and> distinct (map td_documentNumber (tr_documents db))
     \<and> tl_documentId ` set (tr_lines db) \<subseteq> td_id ` set (tr_documents db)
     \<and> (\<forall>i. map tl_lineNumber (own_lines i db) = [1..<Suc (length (own_lines i db))])
     \<and> (\<forall>l \<in> set (tr_lines db). line_typed l) \<and> (\<forall>r \<in> set (tr_documents db). lifecycle_ok r)"

lemma docs_wf_same:
  assumes "tr_documents db' = tr_documents db" "tr_lines db' = tr_lines db" "docs_wf db"
  shows "docs_wf db'"
  using assms by (simp add: docs_wf_def own_lines_def)

lemma find_doc_unique: "docs_wf db \<Longrightarrow> r \<in> set (tr_documents db) \<Longrightarrow> find_doc (td_id r) db = Some r"
  unfolding find_doc_def docs_wf_def by (blast intro: find_key_unique)

lemma docs_wf_update:
  assumes "docs_wf db" "\<And>x. td_id (f x) = td_id x \<and> td_documentNumber (f x) = td_documentNumber x"
    and "\<And>x. x \<in> set (tr_documents db) \<Longrightarrow> td_id x = i \<Longrightarrow> lifecycle_ok (f x)"
    and "tr_documents db' = map (\<lambda>x. if td_id x = i then f x else x) (tr_documents db)"
    and "tr_lines db' = tr_lines db \<or> (\<exists>ls raws. stored_lines i raws ls \<and> tr_lines db' = without_lines i db @ ls)" "i \<in> td_id ` set (tr_documents db)"
  shows "docs_wf db'"
proof -
  have ids: "map td_id (tr_documents db') = map td_id (tr_documents db)" "map td_documentNumber (tr_documents db') = map td_documentNumber (tr_documents db)"
    using assms(2) by (auto simp: assms(4))
  have s: "td_id ` set (tr_documents db') = td_id ` set (tr_documents db)" using arg_cong [OF ids(1), of set] by simp
  have "tl_documentId ` set (tr_lines db') \<subseteq> td_id ` set (tr_documents db) \<and> (\<forall>l \<in> set (tr_lines db'). line_typed l)
      \<and> (\<forall>j. map tl_lineNumber (own_lines j db') = [1..<Suc (length (own_lines j db'))])"
    using assms(5)
  proof (elim disjE exE conjE)
    assume "tr_lines db' = tr_lines db"
    then show ?thesis using assms(1) by (simp add: docs_wf_def own_lines_def)
  next
    fix ls raws assume ls: "stored_lines i raws ls" "tr_lines db' = without_lines i db @ ls"
    note o = stored_lines_own [OF ls(1)]
    have "own_lines j db' = (if j = i then ls else own_lines j db)" for j using own_lines_replaced [OF _ ls(2)] o(1) by blast
    then show ?thesis using assms(1,6) o ls(2) by (auto simp: docs_wf_def without_lines_def simp del: upt_Suc)
  qed
  moreover have "\<forall>r \<in> set (tr_documents db'). lifecycle_ok r" using assms(1,3) by (auto simp: assms(4) docs_wf_def)
  ultimately show ?thesis using assms(1) unfolding docs_wf_def ids s by blast
qed

lemma edited_keeps: "edited r r' \<Longrightarrow> td_id r' = td_id r \<and> td_documentNumber r' = td_documentNumber r \<and> td_status r' = td_status r
    \<and> td_journalEntryId r' = td_journalEntryId r \<and> td_postedAt r' = td_postedAt r \<and> td_submittedAt r' = td_submittedAt r
    \<and> td_approvedBy r' = td_approvedBy r \<and> td_reversedByDocumentId r' = td_reversedByDocumentId r
    \<and> td_rowVersion r' = Suc (td_rowVersion r) \<and> td_createdBy r' = td_createdBy r"
  by (cases r; cases r') (simp add: edited_def)

lemma find_doc_in: "find_doc i db = Some r \<Longrightarrow> i \<in> td_id ` set (tr_documents db)"
  using find_doc_id by fastforce


lemma same_row: "docs_wf db \<Longrightarrow> find_doc i db = Some r \<Longrightarrow> x \<in> set (tr_documents db) \<Longrightarrow> td_id x = i \<Longrightarrow> x = r"
  by (metis find_doc_unique option.inject)

lemma setStatus_rows: "tr_documents (setStatus i p db) = map (\<lambda>x. if td_id x = i then patch_row p x else x) (tr_documents db)"
  "tr_lines (setStatus i p db) = tr_lines db" "tr_ledger (setStatus i p db) = tr_ledger db"
  "tr_stamps (setStatus i p db) = tr_stamps db" "tr_audit (setStatus i p db) = tr_audit db"
  by (simp_all add: setStatus_patch)

lemma finish_post_rows:
  assumes "finish_post (the_document r db) p event actor j l db = Inr (d, db')"
  shows "tr_documents db' = map (\<lambda>x. if td_id x = td_id r then patch_row p x else x) (tr_documents db)"
    "tr_lines db' = tr_lines db" "tr_ledger db' = l"
    "tr_stamps db' = (jr_transactionId j, td_id r) # filter (\<lambda>s. fst s \<noteq> jr_transactionId j) (tr_stamps db)"
    "tr_audit db' = tr_audit db @ [\<lparr>tau_documentId = td_id r, tau_eventType = event, tau_actorUserId = actor\<rparr>]"
    "getById (td_id r) db' = Some d" "audit_fields_ok d = Inr ()"
  using assms by (auto simp: finish_post_Inr Let_def setStatus_rows insertAudit_def stampLedgerTreasuryDocument_def)

lemma audit_fields_ok_iff:
  "audit_fields_ok (the_document q db) = Inr u \<longleftrightarrow> td_createdBy q \<noteq> [] \<and> truthy_str (td_postedAt q)
     \<and> truthy_str (td_journalEntryId q) \<and> (td_requiresApproval q \<longrightarrow> truthy_str (td_approvedBy q))"
  by (auto simp: audit_fields_ok_def assertPostedAuditFields_def and_then_Inr_iff Let_def truthy_str_def)

lemma posted_row:
  assumes "finish_post (the_document r db) p event actor j l db = Inr (d, db')" "find_doc i db = Some r" "posting_patch r p (jr_transactionId j)"
  shows "find_doc i db' = Some (patch_row p r)" "lifecycle_ok (patch_row p r)"
proof -
  have id: "td_id r = i" using find_doc_id [OF assms(2)] by simp
  note f = finish_post_rows [OF assms(1)]
  show q: "find_doc i db' = Some (patch_row p r)"
    using assms(2) id by (simp add: find_doc_def f(1) find_map_id)
  then have "d = the_document (patch_row p r) db'" using f(6) id by (auto simp: getById_document)
  with f(7) have "audit_fields_ok (the_document (patch_row p r) db') = Inr ()" by simp
  then show "lifecycle_ok (patch_row p r)" using assms(3)
    unfolding audit_fields_ok_iff by (simp add: lifecycle_ok_def posting_patch_def patch_row_def or_keep_def)
qed

lemma docs_wf_change:
  assumes "docs_wf db" "doc_change D gen mode db db'"
  shows "docs_wf db'"
  using assms(2)
proof cases
  case dc_same
  then show ?thesis using docs_wf_same assms(1) by (simp add: same_docs_def)
next
  case (dc_draft r raws ls)
  note o = stored_lines_own [OF dc_draft(4)]
  have "tl_documentId ` set (tr_lines db) \<subseteq> td_id ` set (tr_documents db)" using assms(1) by (simp add: docs_wf_def)
  then have n: "own_lines (td_id r) db = []" using dc_draft(2) unfolding own_lines_def filter_empty_conv by (metis image_subset_iff)
  have "own_lines j db' = (if j = td_id r then ls else own_lines j db)" for j
    using own_lines_replaced [OF _ dc_draft(6)] o(1) by blast
  then show ?thesis using assms(1) o dc_draft(1,2,3,5,6)
    by (auto simp: docs_wf_def without_lines_def fresh_draft_def lifecycle_ok_def simp del: upt_Suc)
next
  case (dc_edit i r g raws ls actor)
  show ?thesis
  proof (rule docs_wf_update [OF assms(1) _ _ dc_edit(4)])
    fix x assume x: "x \<in> set (tr_documents db)" "td_id x = i"
    then have "x = r" using same_row [OF assms(1) dc_edit(1)] by blast
    then show "lifecycle_ok (g x)" using assms(1) x(1) dc_edit(2) edited_keeps [OF dc_edit(3) [rule_format, of x]]
      by (auto simp: docs_wf_def lifecycle_ok_def dest: bspec [of _ _ r])
  qed (use dc_edit(3,5) edited_keeps find_doc_in [OF dc_edit(1)] in blast)+
next
  case (dc_submit i r x actor now)
  show ?thesis
  proof (rule docs_wf_update [OF assms(1), of "patch_row ((patch_of TD_PENDING_APPROVAL)\<lparr>sp_submittedAt := Some now\<rparr>)" i])
    fix y assume y: "y \<in> set (tr_documents db)" "td_id y = i"
    then have "y = r" using same_row [OF assms(1) dc_submit(2)] by blast
    then show "lifecycle_ok (patch_row ((patch_of TD_PENDING_APPROVAL)\<lparr>sp_submittedAt := Some now\<rparr>) y)"
      using assms(1) y(1) dc_submit(3) by (auto simp: docs_wf_def lifecycle_ok_def patch_row_def patch_of_def or_keep_def dest: bspec [of _ _ r])
  qed (use find_doc_in [OF dc_submit(2)] in \<open>simp_all add: dc_submit(1) setStatus_rows\<close>)
next
  case (dc_reject i r actor)
  let ?f = "\<lambda>r. r\<lparr>td_status := TD_DRAFT, td_submittedAt := None, td_approvedBy := None, td_approvedAt := None,
       td_rowVersion := Suc (td_rowVersion (r :: rat DocumentHeader))\<rparr>"
  show ?thesis
  proof (rule docs_wf_update [OF assms(1), of ?f i])
    fix y assume y: "y \<in> set (tr_documents db)" "td_id y = i"
    then have "y = r" using same_row [OF assms(1) dc_reject(2)] by blast
    then show "lifecycle_ok (?f y)"
      using assms(1) y(1) dc_reject(3) by (auto simp: docs_wf_def lifecycle_ok_def dest: bspec [of _ _ r])
  qed (use find_doc_in [OF dc_reject(2)] in \<open>simp_all add: dc_reject(1) clearApprovalOnReject_def\<close>)
next
  case (dc_post i r cl desc actor j l p event d)
  have id: "td_id r = i" using find_doc_id [OF dc_post(1)] by simp
  show ?thesis
  proof (rule docs_wf_update [OF assms(1), of "patch_row p" i])
    fix y assume y: "y \<in> set (tr_documents db)" "td_id y = i"
    then have "y = r" using same_row [OF assms(1) dc_post(1)] by blast
    then show "lifecycle_ok (patch_row p y)" using posted_row(2) [OF dc_post(6,1,4)] by simp
  qed (use find_doc_in [OF dc_post(1)] finish_post_rows(1,2) [OF dc_post(6)] in \<open>simp_all add: id\<close>)
next
  case (dc_mark i r k q actor)
  let ?p = "(patch_of TD_POSTED)\<lparr>sp_reversedByDocumentId := Some k\<rparr>"
  show ?thesis
  proof (rule docs_wf_update [OF assms(1), of "patch_row ?p" i])
    fix y assume y: "y \<in> set (tr_documents db)" "td_id y = i"
    then have "y = r" using same_row [OF assms(1) dc_mark(2)] by blast
    then show "lifecycle_ok (patch_row ?p y)"
      using assms(1) y(1) dc_mark(3) by (auto simp: docs_wf_def lifecycle_ok_def patch_row_def patch_of_def or_keep_def dest: bspec [of _ _ r])
  qed (use find_doc_in [OF dc_mark(2)] in \<open>simp_all add: dc_mark(1) setStatus_rows\<close>)
next
  case (dc_accounts as)
  then show ?thesis using docs_wf_same assms(1) by blast
next
  case (dc_ledger l)
  then show ?thesis using docs_wf_same [of db' db] assms(1) by simp
qed

end
