(* ===== verification/TreasuryLedger.thy ===== *)
theory TreasuryLedger imports TreasuryInv
begin

section \<open>Treasury documents and their journals\<close>

text \<open>
  The link between the treasury tables and the ledger: a document is posted exactly when the ledger
  holds its journal, with the lines of the document. The ledger is shared with the rest of the
  system, so the first part says what any other use of it leaves alone.
\<close>

subsection \<open>What the ledger keeps\<close>

text \<open>A transaction later on: the same but for its status and, once reversed, its key.\<close>

definition later :: "LedgerTransaction \<Rightarrow> LedgerTransaction \<Rightarrow> bool" where
  "later t u \<longleftrightarrow> header u = header t \<and> (posted u \<longrightarrow> posted t \<and> lt_idempotencyKey u = lt_idempotencyKey t)"

definition foreign_txn :: "LedgerTransaction \<Rightarrow> bool" where
  "foreign_txn t \<longleftrightarrow> lt_referenceType t \<noteq> ''TREASURY_DOCUMENT''
     \<and> (\<forall>k. posted t \<and> lt_idempotencyKey t = Some k \<longrightarrow> \<not> reserved_key k)"

definition ledger_keeps :: "LedgerDb \<Rightarrow> LedgerDb \<Rightarrow> bool" where
  "ledger_keeps l l' \<longleftrightarrow> (\<forall>t \<in> set (ld_transactions l). \<exists>u \<in> set (ld_transactions l'). later t u)
     \<and> (\<forall>u \<in> set (ld_transactions l'). foreign_txn u \<or> (\<exists>t \<in> set (ld_transactions l). later t u))
     \<and> (\<forall>i \<in> lt_id ` set (ld_transactions l). own_entries i l' = own_entries i l) \<and> codes l \<subseteq> codes l'"

lemma later_refl [simp]: "later t t"
  by (simp add: later_def)

lemma later_marked: "later t (marked i j t)"
  by (auto simp: later_def marked_def header_def posted_def)

lemma ledger_keeps_same:
  assumes "ld_transactions l' = ld_transactions l" "ld_entries l' = ld_entries l" "codes l \<subseteq> codes l'"
  shows "ledger_keeps l l'"
proof -
  have "\<exists>u \<in> set (ld_transactions l). later t u" if "t \<in> set (ld_transactions l)" for t
    using that by (intro bexI [of _ t]) simp
  moreover have "\<exists>t \<in> set (ld_transactions l). later t u" if "u \<in> set (ld_transactions l)" for u
    using that by (intro bexI [of _ u]) simp
  ultimately show ?thesis using assms by (simp add: ledger_keeps_def own_entries_def)
qed

lemma appended_keeps:
  assumes "inj gen" "ids_ok gen l" "appended gen f t es l l'" "\<And>x. later x (f x)"
  shows "(\<forall>x \<in> set (ld_transactions l). \<exists>u \<in> set (ld_transactions l'). later x u)"
    "u \<in> set (ld_transactions l') \<Longrightarrow> u = f t \<or> (\<exists>x \<in> set (ld_transactions l). later x u)"
    "(\<forall>i \<in> lt_id ` set (ld_transactions l). own_entries i l' = own_entries i l)" "codes l \<subseteq> codes l'"
proof -
  note tx = appended_txns [OF assms(3)]
  show "\<forall>x \<in> set (ld_transactions l). \<exists>u \<in> set (ld_transactions l'). later x u" using assms(4) by (auto simp: tx)
  show "u = f t \<or> (\<exists>x \<in> set (ld_transactions l). later x u)" if "u \<in> set (ld_transactions l')"
    using that assms(4) by (auto simp: tx)
  have "lt_id t \<notin> lt_id ` set (ld_transactions l)" using ids_ok_fresh [OF assms(1,2)] appended_id [OF assms(3)] by simp
  then show "\<forall>i \<in> lt_id ` set (ld_transactions l). own_entries i l' = own_entries i l"
    using own_entries_appended [OF assms(1-3)] by (metis (no_types))
  show "codes l \<subseteq> codes l'" using codes_same [OF appended_accounts [OF assms(3)]] by simp
qed

lemma foreign_ledger_step: "foreign_ledger D gen mode l l' \<Longrightarrow> ledger_step D gen mode (\<lambda>_. True) l l'"
  by (induction rule: foreign_ledger.cases) (auto intro: ledger_step.intros)

lemma reversal_not_document:
  assumes "inj gen" "ledger_wf gen l" "reverseTransaction D gen tx cl rv l = Inr (r, l')" "\<not> reserved_key (rv_idempotencyKey rv)"
  shows "l' = l \<or> (\<exists>(o' :: LedgerTransaction) t es. appended gen (marked (lt_id o') (lt_id t)) t es l l' \<and> foreign_txn t \<and> lt_id t \<noteq> lt_id o')"
proof (cases "l' = l")
  case False
  have w: "ids_ok gen l" "accounts_ok l" using assms(2) by (simp_all add: ledger_wf_def)
  with reverseTransaction_outcome [OF assms(3)] False obtain o' where
    o': "find_txn (rv_originalTransactionId rv) l = Some o'" "isPeriodOpen l (rv_reversalDate rv)"
      "reverse_posted D gen tx rv o' l = Inr (r, l')" by blast
  from reverse_posted_appended [OF assms(1) w o'(2,3)] obtain es debit credit t where
    t: "t = reversal_transaction rv o' (gen (ld_seq l)) (txn_number (next_txn_number l)) debit credit"
      "appended gen (marked (lt_id o') (lt_id t)) t es l l'"
    by (fastforce simp: Let_def)
  have "lt_id t \<noteq> lt_id o'"
    using ids_ok_fresh [OF assms(1) w(1)] appended_id [OF t(2)] find_txn_Some [OF o'(1)] by (metis image_eqI)
  moreover have "foreign_txn t" using assms(4) by (simp add: t(1) foreign_txn_def reversal_transaction_def)
  ultimately show ?thesis using t(2) by blast
qed simp

lemma foreign_ledger_keeps:
  assumes "inj gen" "ledger_wf gen l" "foreign_ledger D gen mode l l'"
  shows "ledger_keeps l l'"
  using assms(3)
proof cases
  case (fl_create tx cl rq r)
  have i: "ids_ok gen l" using assms(2) by (simp add: ledger_wf_def)
  from createJournalEntry_created [OF assms(1,2) fl_create(1)] show ?thesis
  proof (elim disjE exE conjE)
    fix t es assume t: "created D gen rq t es l l'" "lt_idempotencyKey t = Some (je_idempotencyKey rq)" "lt_referenceType t = je_referenceType rq"
    have a: "appended gen (\<lambda>x. x) t es l l'" using t(1) by (simp add: created_def)
    have "foreign_txn t" using fl_create(2) t(2,3) by (simp add: foreign_txn_def foreign_journal_def)
    then show ?thesis unfolding ledger_keeps_def using appended_keeps [OF assms(1) i a] by (metis later_refl)
  qed (simp add: ledger_keeps_same)
next
  case (fl_reverse tx cl rv r)
  have i: "ids_ok gen l" using assms(2) by (simp add: ledger_wf_def)
  from reversal_not_document [OF assms(1,2) fl_reverse] show ?thesis
  proof (elim disjE exE conjE)
    fix o' :: LedgerTransaction and t es assume t: "appended gen (marked (lt_id o') (lt_id t)) t es l l'" "foreign_txn t" "lt_id t \<noteq> lt_id o'"
    have "marked (lt_id o') (lt_id t) t = t" using t(3) by simp
    then show ?thesis unfolding ledger_keeps_def using appended_keeps [OF assms(1) i t(1) later_marked] t(2) by metis
  qed (simp add: ledger_keeps_same)
next
  case (fl_lock pid user)
  then show ?thesis by (intro ledger_keeps_same) (auto simp: lockPeriod_def codes_def split: option.splits if_splits)
next
  case (fl_rebuild ks)
  then show ?thesis by (intro ledger_keeps_same) (simp_all add: codes_def)
qed

subsection \<open>Accounts made on demand\<close>

lemma accounts_grow_wf:
  assumes "accounts_grow (ld_accounts l) as" "ledger_wf gen l"
  shows "ledger_wf gen (l\<lparr>ld_accounts := as\<rparr>)" "ledger_keeps l (l\<lparr>ld_accounts := as\<rparr>)"
proof -
  from assms(1) obtain f new where as: "as = map f (ld_accounts l) @ new"
    and f: "\<And>a. ac_id (f a) = ac_id a" "\<And>a. ac_code (f a) = ac_code a"
    and new: "distinct (map ac_id new)" "distinct (map ac_code new)" "[] \<notin> set (map ac_code new)"
      "set (map ac_id new) \<inter> set (map ac_id (ld_accounts l)) = {}" "set (map ac_code new) \<inter> set (map ac_code (ld_accounts l)) = {}"
    unfolding accounts_grow_def by blast
  have m: "map ac_id as = map ac_id (ld_accounts l) @ map ac_id new" "map ac_code as = map ac_code (ld_accounts l) @ map ac_code new"
    by (simp_all add: as f)
  have "ac_id ` set (ld_accounts l) \<subseteq> ac_id ` set as" using arg_cong [OF m(1), of set] by auto
  then have "ids_ok gen (l\<lparr>ld_accounts := as\<rparr>)" using assms(2) order_trans by (simp add: ledger_wf_def ids_ok_def) blast
  moreover have "accounts_ok (l\<lparr>ld_accounts := as\<rparr>)"
  proof -
    have ao: "distinct (map ac_id (ld_accounts l))" "distinct (map ac_code (ld_accounts l))" "[] \<notin> set (map ac_code (ld_accounts l))"
      using assms(2) by (simp_all add: ledger_wf_def accounts_ok_def)
    show ?thesis unfolding accounts_ok_def
      using ao new by (simp add: m) blast
  qed
  ultimately show "ledger_wf gen (l\<lparr>ld_accounts := as\<rparr>)"
    using assms(2) by (simp add: ledger_wf_def links_ok_def keys_ok_def reversal_ids_def)
  show "ledger_keeps l (l\<lparr>ld_accounts := as\<rparr>)"
  proof (rule ledger_keeps_same)
    show "codes l \<subseteq> codes (l\<lparr>ld_accounts := as\<rparr>)"
    proof
      fix x assume "x \<in> codes l"
      then obtain a where a: "a \<in> set (ld_accounts l)" "x = (ac_id a, ac_code a)" by (auto simp: codes_def)
      then have "f a \<in> set as" "x = (ac_id (f a), ac_code (f a))" by (simp_all add: as f)
      then show "x \<in> codes (l\<lparr>ld_accounts := as\<rparr>)" by (auto simp: codes_def)
    qed
  qed simp_all
qed

subsection \<open>Posted documents and their journals\<close>

text \<open>A line as the ledger sees it, and the entry it becomes.\<close>

definition amount_line :: "rat DocumentLine \<Rightarrow> JournalLine" where
  "amount_line l = \<lparr>jl_accountCode = tl_accountCode l, jl_description = [], jl_debitAmount = num_of (tl_debitAmount l),
     jl_creditAmount = num_of (tl_creditAmount l), jl_entityType = None, jl_entityId = None\<rparr>"

definition postable :: "'d decimal_lib \<Rightarrow> rat DocumentLine list \<Rightarrow> bool" where
  "postable D ls \<longleftrightarrow> de_isValid (validateDoubleEntry D (map amount_line ls)) \<and> (\<forall>l \<in> set ls. validateLineAmounts (amount_line l))"

definition line_entry :: "(string \<times> string) set \<Rightarrow> rat DocumentLine \<Rightarrow> LedgerEntry \<Rightarrow> bool" where
  "line_entry C l e \<longleftrightarrow> (le_accountId e, tl_accountCode l) \<in> C
     \<and> num_column (num_of (tl_debitAmount l)) = Inr (le_debit e) \<and> num_column (num_of (tl_creditAmount l)) = Inr (le_credit e)"

definition journal_of :: "TreasuryDb \<Rightarrow> rat DocumentHeader \<Rightarrow> LedgerTransaction \<Rightarrow> bool" where
  "journal_of db r t \<longleftrightarrow> td_journalEntryId r = Some (lt_id t) \<and> lt_referenceType t = ''TREASURY_DOCUMENT''
     \<and> lt_referenceId t = td_id r \<and> lt_referenceNumber t = td_documentNumber r \<and> lt_date t = take 10 (td_transactionDate r)
     \<and> list_all2 (line_entry (codes (tr_ledger db))) (own_lines (td_id r) db) (own_entries (lt_id t) (tr_ledger db))
     \<and> map_of (tr_stamps db) (lt_id t) = Some (td_id r)"

definition linked :: "'d decimal_lib \<Rightarrow> TreasuryDb \<Rightarrow> bool" where
  "linked D db \<longleftrightarrow>
     (\<forall>r \<in> set (tr_documents db). td_status r = TD_POSTED \<longrightarrow> postable D (own_lines (td_id r) db)
        \<and> (\<exists>t \<in> set (ld_transactions (tr_ledger db)). journal_of db r t))
   \<and> (\<forall>t \<in> set (ld_transactions (tr_ledger db)). foreign_txn t \<or>
        (lt_referenceType t = ''TREASURY_DOCUMENT'' \<and> (posted t \<longrightarrow> lt_idempotencyKey t = Some (''TREASURY-POST-'' @ lt_referenceId t))
          \<and> (\<exists>r \<in> set (tr_documents db). td_status r = TD_POSTED \<and> journal_of db r t)))"

definition link_fields :: "rat DocumentHeader \<Rightarrow> string \<times> string \<times> string \<times> string option" where
  "link_fields r = (td_id r, td_documentNumber r, td_transactionDate r, td_journalEntryId r)"

lemma line_entry_mono: "C \<subseteq> C' \<Longrightarrow> list_all2 (line_entry C) ls es \<Longrightarrow> list_all2 (line_entry C') ls es"
  by (erule list_all2_mono) (auto simp: line_entry_def)

lemma journal_of_keep:
  assumes "journal_of db r t" "later t u" "link_fields r' = link_fields r" "codes (tr_ledger db) \<subseteq> codes (tr_ledger db')"
    and "own_entries (lt_id t) (tr_ledger db') = own_entries (lt_id t) (tr_ledger db)" "own_lines (td_id r) db' = own_lines (td_id r) db"
    and "map_of (tr_stamps db') (lt_id t) = map_of (tr_stamps db) (lt_id t)"
  shows "journal_of db' r' u"
proof -
  have u: "lt_id u = lt_id t" "lt_referenceType u = lt_referenceType t" "lt_referenceId u = lt_referenceId t"
    "lt_referenceNumber u = lt_referenceNumber t" "lt_date u = lt_date t"
    using assms(2) by (simp_all add: later_def header_def)
  have r': "td_id r' = td_id r" "td_documentNumber r' = td_documentNumber r" "td_transactionDate r' = td_transactionDate r"
    "td_journalEntryId r' = td_journalEntryId r" using assms(3) by (simp_all add: link_fields_def)
  show ?thesis using assms(1) line_entry_mono [OF assms(4)] unfolding journal_of_def u r' assms(5-7) by blast
qed

lemma linked_keep:
  assumes "linked D db" "ledger_keeps (tr_ledger db) (tr_ledger db')" "tr_stamps db' = tr_stamps db"
    and fwd: "\<And>r. r \<in> set (tr_documents db) \<Longrightarrow> td_status r = TD_POSTED \<Longrightarrow>
        own_lines (td_id r) db' = own_lines (td_id r) db \<and> (\<exists>r' \<in> set (tr_documents db'). td_status r' = TD_POSTED \<and> link_fields r' = link_fields r)"
    and bwd: "\<And>r'. r' \<in> set (tr_documents db') \<Longrightarrow> td_status r' = TD_POSTED \<Longrightarrow>
        \<exists>r \<in> set (tr_documents db). td_status r = TD_POSTED \<and> link_fields r' = link_fields r"
  shows "linked D db'"
proof -
  have fwd_txn: "\<exists>u \<in> set (ld_transactions (tr_ledger db')). later t u" if "t \<in> set (ld_transactions (tr_ledger db))" for t
    using assms(2) that unfolding ledger_keeps_def by blast
  have keep: "journal_of db' r' u" if "journal_of db r t" "t \<in> set (ld_transactions (tr_ledger db))" "later t u"
      "link_fields r' = link_fields r" "r \<in> set (tr_documents db)" "td_status r = TD_POSTED" for r r' t u
    using journal_of_keep [OF that(1,3,4)] that(2) fwd [OF that(5,6)] assms(2,3) by (auto simp: ledger_keeps_def)
  show ?thesis unfolding linked_def
  proof (intro conjI ballI impI)
    fix r' assume r': "r' \<in> set (tr_documents db')" "td_status r' = TD_POSTED"
    from bwd [OF r'] obtain r where r: "r \<in> set (tr_documents db)" "td_status r = TD_POSTED" "link_fields r' = link_fields r" by blast
    then have id: "td_id r' = td_id r" by (simp add: link_fields_def)
    from assms(1) r(1,2) obtain t where t: "t \<in> set (ld_transactions (tr_ledger db))" "journal_of db r t" "postable D (own_lines (td_id r) db)"
      unfolding linked_def by blast
    show "postable D (own_lines (td_id r') db')" using t(3) fwd [OF r(1,2)] id by simp
    from fwd_txn [OF t(1)] obtain u where u: "u \<in> set (ld_transactions (tr_ledger db'))" "later t u" by blast
    show "\<exists>t \<in> set (ld_transactions (tr_ledger db')). journal_of db' r' t"
      by (rule bexI [OF _ u(1)]) (rule keep [OF t(2,1) u(2) r(3,1,2)])
  next
    fix u assume u: "u \<in> set (ld_transactions (tr_ledger db'))"
    then consider "foreign_txn u" | t where "t \<in> set (ld_transactions (tr_ledger db))" "later t u"
      using assms(2) unfolding ledger_keeps_def by blast
    then show "foreign_txn u \<or> (lt_referenceType u = ''TREASURY_DOCUMENT'' \<and> (posted u \<longrightarrow> lt_idempotencyKey u = Some (''TREASURY-POST-'' @ lt_referenceId u))
          \<and> (\<exists>r \<in> set (tr_documents db'). td_status r = TD_POSTED \<and> journal_of db' r u))"
    proof cases
      case (2 t)
      have h: "lt_referenceType u = lt_referenceType t" "lt_referenceId u = lt_referenceId t" "posted u \<Longrightarrow> posted t \<and> lt_idempotencyKey u = lt_idempotencyKey t"
        using 2(2) by (simp_all add: later_def header_def)
      from assms(1) 2(1) consider (foreign) "foreign_txn t" | (own) "lt_referenceType t = ''TREASURY_DOCUMENT''"
          "posted t \<longrightarrow> lt_idempotencyKey t = Some (''TREASURY-POST-'' @ lt_referenceId t)"
          "\<exists>r \<in> set (tr_documents db). td_status r = TD_POSTED \<and> journal_of db r t"
        unfolding linked_def by blast
      then show ?thesis
      proof cases
        case foreign
        then have "foreign_txn u" using h by (auto simp: foreign_txn_def)
        then show ?thesis ..
      next
        case own
        from own(3) obtain r where r: "r \<in> set (tr_documents db)" "td_status r = TD_POSTED" "journal_of db r t" by blast
        from fwd [OF r(1,2)] obtain r' where r': "r' \<in> set (tr_documents db')" "td_status r' = TD_POSTED" "link_fields r' = link_fields r" by blast
        have "journal_of db' r' u" by (rule keep [OF r(3) 2(1,2) r'(3) r(1,2)])
        then show ?thesis using own(1,2) h r'(1,2) by auto
      qed
    qed simp
  qed
qed

subsection \<open>Posting\<close>

lemma create_new:
  assumes gen: "inj gen" and wf: "ledger_wf gen l" and c: "createJournalEntry D gen mode tx cl rq l = Inr (j, l')"
    and key: "\<And>t. t \<in> set (ld_transactions l) \<Longrightarrow> posted t \<Longrightarrow> lt_idempotencyKey t \<noteq> Some (je_idempotencyKey rq)"
    and ref: "\<And>t. t \<in> set (ld_transactions l) \<Longrightarrow> lt_referenceType t = je_referenceType rq \<Longrightarrow>
        lt_referenceId t \<noteq> je_referenceId rq \<and> lt_referenceNumber t \<noteq> je_referenceNumber rq"
  shows "\<exists>t es. created D gen rq t es l l' \<and> jr_transactionId j = lt_id t
    \<and> lt_idempotencyKey t = Some (je_idempotencyKey rq) \<and> lt_referenceType t = je_referenceType rq
    \<and> lt_referenceId t = je_referenceId rq \<and> lt_referenceNumber t = je_referenceNumber rq"
proof -
  have k: "checkIdempotencyKey l (je_idempotencyKey rq) = None" unfolding checkIdempotencyKey_def using key by (auto simp: find_None_iff)
  have n: "find (\<lambda>t. (lt_referenceType t = je_referenceType rq \<and> lt_referenceId t = je_referenceId rq) \<and> net_active l t) (ld_transactions l) = None"
    "find (\<lambda>t. (lt_referenceType t = je_referenceType rq \<and> lt_referenceNumber t = je_referenceNumber rq) \<and> net_active l t) (ld_transactions l) = None"
    using ref unfolding find_None_iff by blast+
  have e: "existing_posting D rq cl l = None" unfolding existing_posting_def existing_by_reference_def n by simp
  have "post_journal D gen tx rq l = Inr (j, l')"
    using c k e unfolding createJournalEntry_def by (auto simp: and_then_Inr_iff)
  moreover have "ids_ok gen l" "accounts_ok l" using wf by (simp_all add: ledger_wf_def)
  ultimately obtain f t es where "appended gen f t es l l'" using post_journal_appended [OF gen] unfolding Let_def by blast
  then have "l' \<noteq> l" using appended_seq by blast
  with createJournalEntry_created [OF gen wf c] show ?thesis by blast
qed

lemma total_amounts_only:
  "foldl (\<lambda>t l. F t (jl_debitAmount l)) z (map (\<lambda>l. amount_line l) ls) = foldl (\<lambda>t l. F t (num_of (tl_debitAmount l))) z ls"
  "foldl (\<lambda>t l. F t (jl_creditAmount l)) z (map (\<lambda>l. amount_line l) ls) = foldl (\<lambda>t l. F t (num_of (tl_creditAmount l))) z ls"
  by (simp_all add: foldl_map amount_line_def)

lemma journal_request_lines:
  "de_isValid (validateDoubleEntry D (je_lines (journal_request (the_document r db) text actor)))
     = de_isValid (validateDoubleEntry D (map amount_line (lines_of (td_id r) db)))"
  "(\<forall>l \<in> set (je_lines (journal_request (the_document r db) text actor)). validateLineAmounts l)
     = (\<forall>l \<in> set (lines_of (td_id r) db). validateLineAmounts (amount_line l))"
  "list_all2 (entry_of_line C i d) (je_lines (journal_request (the_document r db) text actor)) es
     \<Longrightarrow> list_all2 (line_entry C) (lines_of (td_id r) db) es"
  by (auto simp: journal_request_def Let_def loadLines_def mapLine_def validateDoubleEntry_def foldl_map amount_line_def
      validateLineAmounts_def list_all2_conv_all_nth entry_of_line_def line_entry_def)

lemma lines_of_wf: "docs_wf db \<Longrightarrow> lines_of i db = own_lines i db"
  unfolding docs_wf_def by (blast intro: lines_of_own)

lemma map_of_other: "k \<noteq> i \<Longrightarrow> map_of (filter (\<lambda>s. fst s \<noteq> i) xs) k = map_of xs k"
  by (induction xs) auto

lemma post_keeps_linked:
  assumes gen: "inj gen" and wf: "ledger_wf gen (tr_ledger db)" and docs: "docs_wf db" and ok: "linked D db"
    and f: "find_doc i db = Some r" and s: "td_status r \<in> {TD_DRAFT, TD_PENDING_APPROVAL}"
    and c: "createJournalEntry D gen mode True cl (journal_request (the_document r db) text actor) (tr_ledger db) = Inr (j, l)"
    and p: "posting_patch r p (jr_transactionId j)"
    and fin: "finish_post (the_document r db) p event actor j l db = Inr (d, db')"
  shows "linked D db'"
proof -
  let ?rq = "journal_request (the_document r db) text actor" and ?l = "tr_ledger db"
  have id: "td_id r = i" "r \<in> set (tr_documents db)" using find_doc_id [OF f] by simp_all
  have rq: "je_idempotencyKey ?rq = ''TREASURY-POST-'' @ i" "je_referenceType ?rq = ''TREASURY_DOCUMENT''" "je_referenceId ?rq = i"
    "je_referenceNumber ?rq = td_documentNumber r" "je_entryDate ?rq = take 10 (td_transactionDate r)"
    by (simp_all add: journal_request_def Let_def id)
  note own = lines_of_wf [OF docs, of i]
  have num: "x = y" if "x \<in> set (tr_documents db)" "y \<in> set (tr_documents db)" "td_documentNumber x = td_documentNumber y" for x y
    using docs that by (auto simp: docs_wf_def distinct_map inj_on_def)
  have ref: "lt_referenceId t \<noteq> i \<and> lt_referenceNumber t \<noteq> td_documentNumber r"
    if t: "t \<in> set (ld_transactions ?l)" "lt_referenceType t = ''TREASURY_DOCUMENT''" for t
  proof -
    from ok t obtain x where x: "x \<in> set (tr_documents db)" "td_status x = TD_POSTED" "journal_of db x t"
      unfolding linked_def foreign_txn_def by blast
    have "x \<noteq> r" using x(2) s by auto
    then show ?thesis using x(1,3) num [OF x(1) id(2)] same_row [OF docs f x(1)] by (auto simp: journal_of_def)
  qed
  have key: "lt_idempotencyKey t \<noteq> Some (''TREASURY-POST-'' @ i)" if t: "t \<in> set (ld_transactions ?l)" "posted t" for t
  proof -
    have "reserved_key (''TREASURY-POST-'' @ i)" by (simp add: reserved_key_def)
    from ok t(1) consider "foreign_txn t" | "lt_referenceType t = ''TREASURY_DOCUMENT''" "lt_idempotencyKey t = Some (''TREASURY-POST-'' @ lt_referenceId t)"
      unfolding linked_def using t(2) by blast
    then show ?thesis using ref [OF t(1)] t(2) \<open>reserved_key _\<close> by cases (auto simp: foreign_txn_def)
  qed
  from create_new [OF gen wf c] key ref obtain t es where t: "created D gen ?rq t es ?l l" "jr_transactionId j = lt_id t"
    "lt_idempotencyKey t = Some (''TREASURY-POST-'' @ i)" "lt_referenceType t = ''TREASURY_DOCUMENT''" "lt_referenceId t = i"
    "lt_referenceNumber t = td_documentNumber r" unfolding rq by blast
  have a: "appended gen (\<lambda>x. x) t es ?l l" and cr: "list_all2 (entry_of_line (codes ?l) (lt_id t) (lt_date t)) (je_lines ?rq) es"
    and v: "de_isValid (validateDoubleEntry D (je_lines ?rq))" "\<forall>l \<in> set (je_lines ?rq). validateLineAmounts l"
    and tp: "lt_date t = je_entryDate ?rq" "lt_status t = TX_POSTED"
    using t(1) unfolding created_def by blast+
  have ids: "ids_ok gen ?l" using wf by (simp add: ledger_wf_def)
  note row = finish_post_rows [OF fin, unfolded id(1)]
  let ?f = "\<lambda>x. if td_id x = i then patch_row p x else x"
  have fx: "?f x = (if x = r then patch_row p r else x)" if "x \<in> set (tr_documents db)" for x
    using same_row [OF docs f that] id(1) by metis
  have lf: "link_fields (patch_row p r) = (i, td_documentNumber r, td_transactionDate r, Some (lt_id t))"
    using p t(2) id by (simp add: link_fields_def posting_patch_def patch_row_def or_keep_def)
  have fresh: "lt_id t \<notin> lt_id ` set (ld_transactions ?l)" using ids_ok_fresh [OF gen ids] appended_id [OF a] by simp
  have tx: "ld_transactions l = ld_transactions ?l @ [t]" using appended_txns [OF a] by simp
  have own': "own_lines k db' = own_lines k db" for k by (simp add: own_lines_def row(2))
  have post: "postable D (own_lines i db)" using v unfolding journal_request_lines postable_def id(1) own by blast
  have jt: "journal_of db' (patch_row p r) t"
  proof -
    have "list_all2 (line_entry (codes l)) (own_lines i db) es"
      using journal_request_lines(3) [OF cr] codes_same [OF appended_accounts [OF a]] by (simp add: id own)
    then show ?thesis using lf t tp(1)[unfolded rq] own_entries_appended [OF gen ids a, of "lt_id t"]
      by (simp add: journal_of_def link_fields_def own' row(3,4))
  qed
  have jo: "journal_of db' x u" if "journal_of db x u" "u \<in> set (ld_transactions ?l)" for x u
  proof (rule journal_of_keep [OF that(1) later_refl refl])
    have ne: "lt_id u \<noteq> lt_id t" using fresh that(2) by (metis image_eqI)
    then show "own_entries (lt_id u) (tr_ledger db') = own_entries (lt_id u) ?l" "map_of (tr_stamps db') (lt_id u) = map_of (tr_stamps db) (lt_id u)"
      using own_entries_appended [OF gen ids a] by (simp_all add: row(3,4) t(2) map_of_other [OF ne])
  qed (simp_all add: own' row(3) codes_same [OF appended_accounts [OF a]])
  have st: "td_status (patch_row p r) = TD_POSTED" using p by (simp add: posting_patch_def)
  have old: "?f x = x" if "x \<in> set (tr_documents db)" "td_status x = TD_POSTED" for x
  proof -
    have "x \<noteq> r" using that(2) s by auto
    then show ?thesis using fx [OF that(1)] by simp
  qed
  have mem: "patch_row p r \<in> set (tr_documents db')"
    unfolding row(1) set_map by (rule image_eqI [OF _ id(2)]) (simp add: id(1))
  show ?thesis unfolding linked_def
  proof (intro conjI ballI impI)
    fix x assume "x \<in> set (tr_documents db')" and x: "td_status x = TD_POSTED"
    then obtain y where y: "y \<in> set (tr_documents db)" "x = ?f y" unfolding row(1) by auto
    show "postable D (own_lines (td_id x) db')" "\<exists>t \<in> set (ld_transactions (tr_ledger db')). journal_of db' x t"
    proof (atomize (full), cases "y = r")
      case True
      then have "x = patch_row p r" using y fx [OF y(1)] by simp
      then show "postable D (own_lines (td_id x) db') \<and> (\<exists>t \<in> set (ld_transactions (tr_ledger db')). journal_of db' x t)"
        using post jt id by (auto simp: own' row(3) tx)
    next
      case False
      then have "x = y" using y fx [OF y(1)] by simp
      then obtain u where "u \<in> set (ld_transactions ?l)" "journal_of db x u" "postable D (own_lines (td_id x) db)"
        using ok x y(1) unfolding linked_def by blast
      then show "postable D (own_lines (td_id x) db') \<and> (\<exists>t \<in> set (ld_transactions (tr_ledger db')). journal_of db' x t)"
        using jo by (auto simp: own' row(3) tx)
    qed
  next
    fix u assume "u \<in> set (ld_transactions (tr_ledger db'))"
    then consider "u = t" | "u \<in> set (ld_transactions ?l)" by (auto simp: row(3) tx)
    then show "foreign_txn u \<or> (lt_referenceType u = ''TREASURY_DOCUMENT'' \<and> (posted u \<longrightarrow> lt_idempotencyKey u = Some (''TREASURY-POST-'' @ lt_referenceId u))
          \<and> (\<exists>r \<in> set (tr_documents db'). td_status r = TD_POSTED \<and> journal_of db' r u))"
    proof cases
      case 1
      then show ?thesis using t(3-5) st jt mem by auto
    next
      case 2
      with ok consider (foreign) "foreign_txn u" | (own) "lt_referenceType u = ''TREASURY_DOCUMENT''"
          "posted u \<longrightarrow> lt_idempotencyKey u = Some (''TREASURY-POST-'' @ lt_referenceId u)"
          "\<exists>r \<in> set (tr_documents db). td_status r = TD_POSTED \<and> journal_of db r u"
        unfolding linked_def by blast
      then show ?thesis
      proof cases
        case own
        then obtain x where x: "x \<in> set (tr_documents db)" "td_status x = TD_POSTED" "journal_of db x u" by blast
        have "x \<in> set (tr_documents db')" using imageI [OF x(1), of ?f] unfolding row(1) set_map old [OF x(1,2)] .
        then show ?thesis using own(1,2) x(2) jo [OF x(3) 2] by blast
      qed simp
    qed
  qed
qed

subsection \<open>Every change\<close>

lemma ledger_keeps_refl [simp]: "ledger_keeps l l"
  by (rule ledger_keeps_same) simp_all

lemma linked_update:
  assumes "linked D db" "docs_wf db" "find_doc i db = Some r"
    and f: "td_status r = TD_POSTED \<Longrightarrow> link_fields (f r) = link_fields r" "td_status (f r) = TD_POSTED \<longleftrightarrow> td_status r = TD_POSTED"
    and l: "tr_lines db' = tr_lines db \<or> td_status r \<noteq> TD_POSTED \<and> (\<exists>ls raws. stored_lines i raws ls \<and> tr_lines db' = without_lines i db @ ls)"
    and rest: "tr_documents db' = map (\<lambda>x. if td_id x = i then f x else x) (tr_documents db)"
      "tr_stamps db' = tr_stamps db" "tr_ledger db' = tr_ledger db"
  shows "linked D db'"
proof -
  let ?f = "\<lambda>x. if td_id x = i then f x else x"
  have fx: "?f x = (if x = r then f r else x)" if "x \<in> set (tr_documents db)" for x
    using same_row [OF assms(2,3) that] find_doc_id [OF assms(3)] by metis
  show ?thesis
  proof (rule linked_keep [OF assms(1) _ rest(2)])
    fix x assume x: "x \<in> set (tr_documents db)" "td_status x = TD_POSTED"
    have own: "own_lines (td_id x) db' = own_lines (td_id x) db" using l
    proof (elim disjE exE conjE)
      fix ls raws assume ls: "td_status r \<noteq> TD_POSTED" "stored_lines i raws ls" "tr_lines db' = without_lines i db @ ls"
      then have "x \<noteq> r" using x(2) by auto
      then have "td_id x \<noteq> i" using same_row [OF assms(2,3) x(1)] by blast
      moreover have "\<forall>l \<in> set ls. tl_documentId l = i" using stored_lines_own(1) [OF ls(2)] by blast
      ultimately show ?thesis using own_lines_replaced [OF _ ls(3), of "td_id x"] by simp
    qed (simp add: own_lines_def)
    have "?f x \<in> set (tr_documents db')" unfolding rest(1) set_map using x(1) by (rule imageI)
    moreover have "td_status (?f x) = TD_POSTED \<and> link_fields (?f x) = link_fields x" using fx [OF x(1)] f x(2) by auto
    ultimately show "own_lines (td_id x) db' = own_lines (td_id x) db
        \<and> (\<exists>r' \<in> set (tr_documents db'). td_status r' = TD_POSTED \<and> link_fields r' = link_fields x)" using own by blast
  next
    fix y assume "y \<in> set (tr_documents db')" and y: "td_status y = TD_POSTED"
    then obtain x where x: "x \<in> set (tr_documents db)" "y = ?f x" unfolding rest(1) by auto
    then have "td_status x = TD_POSTED \<and> link_fields y = link_fields x" using fx [OF x(1)] f y by (simp split: if_splits)
    then show "\<exists>r \<in> set (tr_documents db). td_status r = TD_POSTED \<and> link_fields y = link_fields r" using x(1) by blast
  qed (simp add: rest(3))
qed

definition treasury_ok :: "'d decimal_lib \<Rightarrow> (nat \<Rightarrow> string) \<Rightarrow> TreasuryDb \<Rightarrow> bool" where
  "treasury_ok D gen db \<longleftrightarrow> ledger_wf gen (tr_ledger db) \<and> docs_wf db \<and> linked D db"

lemma ledger_wf_change:
  assumes gen: "inj gen" and wf: "ledger_wf gen (tr_ledger db)" and c: "doc_change D gen mode db db'"
  shows "ledger_wf gen (tr_ledger db')"
  using c
proof cases
  case (dc_post i r cl desc actor j l p event d)
  have "ledger_step D gen mode (\<lambda>_. True) (tr_ledger db) l" using step_create [OF dc_post(3)] by simp
  then show ?thesis using ledger_wf_step [OF gen wf] finish_post_rows(3) [OF dc_post(6)] by simp
next
  case (dc_accounts as)
  then show ?thesis using accounts_grow_wf(1) [OF _ wf] by simp
next
  case (dc_ledger l)
  then show ?thesis using ledger_wf_step [OF gen wf foreign_ledger_step] by simp
qed (use wf in \<open>simp_all add: same_docs_def setStatus_rows clearApprovalOnReject_def\<close>)

lemma linked_same:
  assumes "linked D db" "tr_documents db' = tr_documents db" "tr_lines db' = tr_lines db" "tr_stamps db' = tr_stamps db"
    and "ledger_keeps (tr_ledger db) (tr_ledger db')"
  shows "linked D db'"
  by (rule linked_keep [OF assms(1,5,4)]) (auto simp: assms(2,3) own_lines_def)

lemma linked_change:
  assumes gen: "inj gen" and wf: "ledger_wf gen (tr_ledger db)" and docs: "docs_wf db" and ok: "linked D db"
    and c: "doc_change D gen mode db db'"
  shows "linked D db'"
  using c
proof cases
  case dc_same
  then show ?thesis by (intro linked_same [OF ok]) (simp_all add: same_docs_def)
next
  case (dc_draft r raws ls)
  have o: "own_lines j db' = own_lines j db" if "j \<noteq> td_id r" for j
    using own_lines_replaced [OF _ dc_draft(6)] stored_lines_own(1) [OF dc_draft(4)] that by auto
  show ?thesis
  proof (rule linked_keep [OF ok _ dc_draft(8)])
    fix x assume x: "x \<in> set (tr_documents db)" "td_status x = TD_POSTED"
    then have "td_id x \<noteq> td_id r" using dc_draft(2) by (metis image_eqI)
    then show "own_lines (td_id x) db' = own_lines (td_id x) db
        \<and> (\<exists>r' \<in> set (tr_documents db'). td_status r' = TD_POSTED \<and> link_fields r' = link_fields x)"
      using o x by (auto simp: dc_draft(5))
  next
    fix y assume "y \<in> set (tr_documents db')" "td_status y = TD_POSTED"
    then show "\<exists>r \<in> set (tr_documents db). td_status r = TD_POSTED \<and> link_fields y = link_fields r"
      using dc_draft(1) by (auto simp: dc_draft(5) fresh_draft_def)
  qed (simp add: dc_draft(9))
next
  case (dc_edit i r g raws ls actor)
  have "td_status (g r) = td_status r" using edited_keeps [OF dc_edit(3) [rule_format, of r]] by simp
  then show ?thesis
    by (intro linked_update [OF ok docs dc_edit(1) _ _ _ dc_edit(4,7,8)]) (use dc_edit(2,5) in auto)
next
  case (dc_submit i r x actor now)
  show ?thesis unfolding dc_submit(1)
    by (rule linked_update [OF ok docs dc_submit(2), where f = "patch_row ((patch_of TD_PENDING_APPROVAL)\<lparr>sp_submittedAt := Some now\<rparr>)"])
      (simp_all add: dc_submit(3) setStatus_rows patch_of_def)
next
  case (dc_reject i r actor)
  show ?thesis unfolding dc_reject(1)
    by (rule linked_update [OF ok docs dc_reject(2), where f = "\<lambda>r. r\<lparr>td_status := TD_DRAFT, td_submittedAt := None, td_approvedBy := None,
        td_approvedAt := None, td_rowVersion := Suc (td_rowVersion r)\<rparr>"])
      (simp_all add: dc_reject(3) clearApprovalOnReject_def)
next
  case (dc_post i r cl desc actor j l p event d)
  then show ?thesis using post_keeps_linked [OF gen wf docs ok] by blast
next
  case (dc_mark i r k q actor)
  show ?thesis unfolding dc_mark(1)
    by (rule linked_update [OF ok docs dc_mark(2), where f = "patch_row ((patch_of TD_POSTED)\<lparr>sp_reversedByDocumentId := Some k\<rparr>)"])
      (simp_all add: dc_mark(3) setStatus_rows patch_of_def link_fields_def patch_row_def or_keep_def)
next
  case (dc_accounts as)
  then show ?thesis using accounts_grow_wf(2) [OF _ wf] by (intro linked_same [OF ok]) simp_all
next
  case (dc_ledger l)
  then show ?thesis using foreign_ledger_keeps [OF gen wf] by (intro linked_same [OF ok]) simp_all
qed

lemma treasury_ok_change:
  assumes "inj gen" "treasury_ok D gen db" "doc_change D gen mode db db'"
  shows "treasury_ok D gen db'"
  using ledger_wf_change docs_wf_change linked_change assms unfolding treasury_ok_def by metis

end
