(* ===== verification/TreasuryTheorems.thy ===== *)
theory TreasuryTheorems imports TreasuryLedger
begin

section \<open>What the treasury promises\<close>

text \<open>
  The properties of treasury documents along any run of the module, beside any other use of the
  ledger: their life, the shape of their lines, what posting freezes, and the journal of a posted
  document. Then what single operations promise.
\<close>

interpretation documents: step_invariant "doc_change D gen mode" docs_wf for D gen mode
  by unfold_locales (rule docs_wf_change)

lemma steps_are_changes: "(treasury_step D gen mode)\<^sup>*\<^sup>* db db' \<Longrightarrow> (doc_change D gen mode)\<^sup>*\<^sup>* db db'"
  by (induction rule: rtranclp_induct) (auto intro: rtranclp_trans treasury_step_changes)

lemma docs_wf_steps: "docs_wf db \<Longrightarrow> (treasury_step D gen mode)\<^sup>*\<^sup>* db db' \<Longrightarrow> docs_wf db'"
  using documents.reach_inv steps_are_changes by blast

subsection \<open>Life of a document\<close>

text \<open>C9. A document is never cancelled. It has a journal exactly when it is posted; then it was created
  by someone, carries the time of posting, is dated on its transaction date and, if it needs approval, names
  an approver. A pending document has been submitted and carries no approval. Ids find documents.\<close>

theorem document_lifecycle:
  assumes "docs_wf db" "(treasury_step D gen mode)\<^sup>*\<^sup>* db db'" "r \<in> set (tr_documents db')"
  shows "find_doc (td_id r) db' = Some r \<and> td_status r \<noteq> TD_CANCELLED
    \<and> (td_journalEntryId r \<noteq> None \<longleftrightarrow> td_status r = TD_POSTED)
    \<and> (td_status r = TD_POSTED \<longrightarrow> truthy_str (td_postedAt r) \<and> td_createdBy r \<noteq> []
         \<and> td_postingDate r = Some (take 10 (td_transactionDate r)) \<and> (td_requiresApproval r \<longrightarrow> truthy_str (td_approvedBy r)))
    \<and> (td_status r = TD_PENDING_APPROVAL \<longrightarrow> td_submittedAt r \<noteq> None \<and> td_approvedBy r = None)
    \<and> (td_reversedByDocumentId r \<noteq> None \<longrightarrow> td_status r = TD_POSTED)"
proof -
  have wf: "docs_wf db'" by (rule docs_wf_steps [OF assms(1,2)])
  then have "lifecycle_ok r" using assms(3) by (simp add: docs_wf_def)
  then show ?thesis using find_doc_unique [OF wf assms(3)]
    by (auto simp: lifecycle_ok_def truthy_str_def split: TreasuryDocumentStatus.splits)
qed

subsection \<open>Lines\<close>

text \<open>C10. Every stored line is typed: one side is a positive amount of whole cents that fits the column, the
  other is zero, or both are zero, and the amount is their sum. The lines of a document are
  numbered from one in the order they were given, and no line is orphaned.\<close>

theorem stored_lines_typed:
  assumes "docs_wf db" "(treasury_step D gen mode)\<^sup>*\<^sup>* db db'"
  shows "(\<forall>l \<in> set (tr_lines db'). line_typed l \<and> tl_documentId l \<in> td_id ` set (tr_documents db'))
    \<and> (\<forall>i. map tl_lineNumber (lines_of i db') = [1..<Suc (length (lines_of i db'))]
         \<and> lines_of i db' = filter (\<lambda>l. tl_documentId l = i) (tr_lines db'))"
proof -
  have wf: "docs_wf db'" by (rule docs_wf_steps [OF assms])
  then show ?thesis using lines_of_wf [OF wf] by (auto simp: docs_wf_def own_lines_def image_subset_iff simp del: upt_Suc)
qed

subsection \<open>Posted documents are frozen\<close>

definition frozen :: "rat DocumentHeader \<Rightarrow> rat DocumentHeader \<Rightarrow> bool" where
  "frozen r r' \<longleftrightarrow> r' = r\<lparr>td_reversedByDocumentId := td_reversedByDocumentId r', td_rowVersion := td_rowVersion r'\<rparr>
     \<and> (truthy_str (td_reversedByDocumentId r) \<longrightarrow> r' = r)"

definition keeps_documents :: "TreasuryDb \<Rightarrow> TreasuryDb \<Rightarrow> bool" where
  "keeps_documents db db' \<longleftrightarrow> (\<exists>new. tr_audit db' = tr_audit db @ new)
     \<and> (\<forall>i r. find_doc i db = Some r \<longrightarrow> (\<exists>r'. find_doc i db' = Some r' \<and> td_documentNumber r' = td_documentNumber r
          \<and> td_documentType r' = td_documentType r \<and> td_createdBy r' = td_createdBy r \<and> td_rowVersion r \<le> td_rowVersion r'
          \<and> (td_status r = TD_POSTED \<longrightarrow> frozen r r' \<and> own_lines i db' = own_lines i db)))"

lemma frozen_refl [simp]: "frozen r r"
  by (simp add: frozen_def)

lemma frozen_trans: "frozen a b \<Longrightarrow> frozen b c \<Longrightarrow> frozen a c"
  by (cases a; cases b; cases c) (auto simp: frozen_def)

lemma frozen_status: "frozen a b \<Longrightarrow> td_status b = td_status a"
  by (cases a; cases b) (simp add: frozen_def)

lemma frozen_mark:
  assumes "td_status r = TD_POSTED" "\<not> truthy_str (td_reversedByDocumentId r)"
  shows "frozen r (patch_row ((patch_of TD_POSTED)\<lparr>sp_reversedByDocumentId := Some k\<rparr>) r)"
  using assms by (cases r) (simp add: frozen_def patch_row_def patch_of_def or_keep_def)

lemma keeps_documents_refl: "keeps_documents db db"
  by (simp add: keeps_documents_def)

lemma keeps_documents_trans:
  assumes "keeps_documents a b" "keeps_documents b c"
  shows "keeps_documents a c"
proof -
  have "\<exists>new. tr_audit c = tr_audit a @ new" using assms by (force simp: keeps_documents_def)
  moreover have "\<exists>z. find_doc i c = Some z \<and> td_documentNumber z = td_documentNumber x \<and> td_documentType z = td_documentType x
      \<and> td_createdBy z = td_createdBy x \<and> td_rowVersion x \<le> td_rowVersion z \<and> (td_status x = TD_POSTED \<longrightarrow> frozen x z \<and> own_lines i c = own_lines i a)"
    if "find_doc i a = Some x" for i x
  proof -
    from assms(1) that obtain y where y: "find_doc i b = Some y" "td_documentNumber y = td_documentNumber x"
      "td_documentType y = td_documentType x" "td_createdBy y = td_createdBy x" "td_rowVersion x \<le> td_rowVersion y"
      "td_status x = TD_POSTED \<longrightarrow> frozen x y \<and> own_lines i b = own_lines i a" unfolding keeps_documents_def by blast
    from assms(2) y(1) obtain z where z: "find_doc i c = Some z" "td_documentNumber z = td_documentNumber y"
      "td_documentType z = td_documentType y" "td_createdBy z = td_createdBy y" "td_rowVersion y \<le> td_rowVersion z"
      "td_status y = TD_POSTED \<longrightarrow> frozen y z \<and> own_lines i c = own_lines i b" unfolding keeps_documents_def by blast
    show ?thesis using y z frozen_trans frozen_status by (intro exI [of _ z]) auto
  qed
  ultimately show ?thesis unfolding keeps_documents_def by blast
qed

lemma keeps_update:
  assumes "docs_wf db" "find_doc i db = Some r" "\<And>x. td_id (f x) = td_id x"
    and "td_documentNumber (f r) = td_documentNumber r" "td_documentType (f r) = td_documentType r" "td_createdBy (f r) = td_createdBy r"
    and v: "td_rowVersion r \<le> td_rowVersion (f r)" and "td_status r = TD_POSTED \<Longrightarrow> frozen r (f r)"
    and "tr_documents db' = map (\<lambda>x. if td_id x = i then f x else x) (tr_documents db)" "tr_audit db' = tr_audit db @ new"
    and "tr_lines db' = tr_lines db \<or> td_status r \<noteq> TD_POSTED \<and> (\<exists>ls raws. stored_lines i raws ls \<and> tr_lines db' = without_lines i db @ ls)"
  shows "keeps_documents db db'"
  unfolding keeps_documents_def
proof (intro conjI allI impI)
  show "\<exists>new. tr_audit db' = tr_audit db @ new" using assms(10) by blast
  fix j x assume x: "find_doc j db = Some x"
  have f: "find_doc j db' = Some (if td_id x = i then f x else x)"
    using x assms(3) by (simp add: find_doc_def assms(9) find_map_id)
  have xr: "td_id x = i \<Longrightarrow> x = r" "td_id x = j" using same_row [OF assms(1,2)] find_doc_id [OF x] by blast+
  have "own_lines j db' = own_lines j db" if "td_status x = TD_POSTED" using assms(11)
  proof (elim disjE exE conjE)
    fix ls raws assume ls: "td_status r \<noteq> TD_POSTED" "stored_lines i raws ls" "tr_lines db' = without_lines i db @ ls"
    then have "j \<noteq> i" using xr that by auto
    moreover have "\<forall>l \<in> set ls. tl_documentId l = i" using stored_lines_own(1) [OF ls(2)] by blast
    ultimately show ?thesis using own_lines_replaced [OF _ ls(3), of j] by simp
  qed (simp add: own_lines_def)
  then show "\<exists>r'. find_doc j db' = Some r' \<and> td_documentNumber r' = td_documentNumber x \<and> td_documentType r' = td_documentType x
       \<and> td_createdBy r' = td_createdBy x \<and> td_rowVersion x \<le> td_rowVersion r' \<and> (td_status x = TD_POSTED \<longrightarrow> frozen x r' \<and> own_lines j db' = own_lines j db)"
    using f xr assms(4-6) v assms(8) by auto
qed

lemma keeps_same:
  assumes "tr_documents db' = tr_documents db" "tr_lines db' = tr_lines db" "tr_audit db' = tr_audit db"
  shows "keeps_documents db db'"
  using assms by (simp add: keeps_documents_def find_doc_def own_lines_def)

lemma keeps_documents_change:
  assumes "docs_wf db" "doc_change D gen mode db db'"
  shows "keeps_documents db db'"
  using assms(2)
proof cases
  case dc_same
  then show ?thesis by (intro keeps_same) (simp_all add: same_docs_def)
next
  case (dc_draft r raws ls)
  have o: "own_lines j db' = own_lines j db" if "j \<noteq> td_id r" for j
    using own_lines_replaced [OF _ dc_draft(6)] stored_lines_own(1) [OF dc_draft(4)] that by auto
  have n: "find_doc j db' = Some x \<and> j \<noteq> td_id r" if "find_doc j db = Some x" for j x
  proof
    show "find_doc j db' = Some x" using that by (simp add: find_doc_def dc_draft(5) find_append)
    show "j \<noteq> td_id r" using find_doc_in [OF that] dc_draft(2) by metis
  qed
  have "\<exists>new. tr_audit db' = tr_audit db @ new" using dc_draft(7) by blast
  moreover have "\<exists>r'. find_doc j db' = Some r' \<and> td_documentNumber r' = td_documentNumber x \<and> td_documentType r' = td_documentType x
       \<and> td_createdBy r' = td_createdBy x \<and> td_rowVersion x \<le> td_rowVersion r' \<and> (td_status x = TD_POSTED \<longrightarrow> frozen x r' \<and> own_lines j db' = own_lines j db)"
    if "find_doc j db = Some x" for j x using n [OF that] o by auto
  ultimately show ?thesis unfolding keeps_documents_def by blast
next
  case (dc_edit i r g raws ls actor)
  have g: "td_id (g x) = td_id x" for x using edited_keeps [OF dc_edit(3) [rule_format, of x]] by simp
  have "td_documentType (g r) = td_documentType r" using dc_edit(3) [rule_format, of r] by (cases r; cases "g r") (simp add: edited_def)
  then show ?thesis
    using edited_keeps [OF dc_edit(3) [rule_format, of r]]
    by (intro keeps_update [OF assms(1) dc_edit(1) g _ _ _ _ _ dc_edit(4,6)]) (use dc_edit(2,5) in auto)
next
  case (dc_submit i r x actor now)
  show ?thesis unfolding dc_submit(1)
    by (rule keeps_update [OF assms(1) dc_submit(2), where f = "patch_row ((patch_of TD_PENDING_APPROVAL)\<lparr>sp_submittedAt := Some now\<rparr>)"])
      (simp_all add: dc_submit(3) setStatus_rows insertAudit_def)
next
  case (dc_reject i r actor)
  show ?thesis unfolding dc_reject(1)
    by (rule keeps_update [OF assms(1) dc_reject(2), where f = "\<lambda>r. r\<lparr>td_status := TD_DRAFT, td_submittedAt := None, td_approvedBy := None,
        td_approvedAt := None, td_rowVersion := Suc (td_rowVersion r)\<rparr>"])
      (simp_all add: dc_reject(3) clearApprovalOnReject_def insertAudit_def)
next
  case (dc_post i r cl desc actor j l p event d)
  note f = finish_post_rows [OF dc_post(6)]
  have id: "td_id r = i" using find_doc_id [OF dc_post(1)] by simp
  show ?thesis
    by (rule keeps_update [OF assms(1) dc_post(1), where f = "patch_row p"]) (use dc_post(2) f(1,2,5) id in auto)
next
  case (dc_mark i r k q actor)
  show ?thesis unfolding dc_mark(1)
    by (rule keeps_update [OF assms(1) dc_mark(2), where f = "patch_row ((patch_of TD_POSTED)\<lparr>sp_reversedByDocumentId := Some k\<rparr>)"])
      (use frozen_mark [OF dc_mark(3,5)] in \<open>simp_all add: setStatus_rows insertAudit_def\<close>)
next
  case (dc_accounts as)
  then show ?thesis by (intro keeps_same) simp_all
next
  case (dc_ledger l)
  then show ?thesis by (intro keeps_same) simp_all
qed

interpretation records: step_preorder "doc_change D gen mode" docs_wf keeps_documents for D gen mode
  by unfold_locales (fact keeps_documents_refl, rule keeps_documents_trans, assumption+, rule keeps_documents_change)

text \<open>C7. No document is ever deleted or renumbered, and the audit log only grows. A posted document is frozen:
  its lines and its header stay for ever, but for the link to its reversal, which is set once and with
  which the row version moves a last time.\<close>

theorem posted_documents_are_frozen:
  assumes "docs_wf db" "(treasury_step D gen mode)\<^sup>*\<^sup>* db db'" "find_doc i db = Some r"
  shows "\<exists>r'. find_doc i db' = Some r' \<and> td_documentNumber r' = td_documentNumber r \<and> td_documentType r' = td_documentType r
    \<and> (td_status r = TD_POSTED \<longrightarrow> r' = r\<lparr>td_reversedByDocumentId := td_reversedByDocumentId r', td_rowVersion := td_rowVersion r'\<rparr>
         \<and> (truthy_str (td_reversedByDocumentId r) \<longrightarrow> r' = r) \<and> loadLines i db' = loadLines i db)
    \<and> (\<exists>new. tr_audit db' = tr_audit db @ new)"
proof -
  have k: "keeps_documents db db'" using records.reach_ord [OF steps_are_changes [OF assms(2)] assms(1)] .
  then obtain r' where r': "find_doc i db' = Some r'" "td_documentNumber r' = td_documentNumber r" "td_documentType r' = td_documentType r"
    "td_status r = TD_POSTED \<longrightarrow> frozen r r' \<and> own_lines i db' = own_lines i db" using assms(3) unfolding keeps_documents_def by blast
  have "lines_of i db' = own_lines i db'" "lines_of i db = own_lines i db"
    using lines_of_wf assms(1) docs_wf_steps [OF assms(1,2)] by blast+
  with r' k show ?thesis unfolding keeps_documents_def frozen_def loadLines_def by (intro exI [of _ r']) simp
qed

subsection \<open>The journal of a posted document\<close>

interpretation treasury: step_invariant "doc_change D gen mode" "\<lambda>db. inj gen \<and> treasury_ok D gen db" for D gen mode
  by unfold_locales (use treasury_ok_change in blast)

lemma treasury_ok_steps: "inj gen \<Longrightarrow> treasury_ok D gen db \<Longrightarrow> (treasury_step D gen mode)\<^sup>*\<^sup>* db db' \<Longrightarrow> treasury_ok D gen db'"
  using treasury.reach_inv steps_are_changes by blast

text \<open>The amounts of a document that the ledger takes over to the cent.\<close>

definition modest_lines :: "rat DocumentLine list \<Rightarrow> bool" where
  "modest_lines ls \<longleftrightarrow> sum_list (map (\<lambda>l. \<bar>tl_debitAmount l\<bar> + \<bar>tl_creditAmount l\<bar>) ls) \<le> 2 ^ 45 / 100"

lemma num_of_cents: "\<bar>k\<bar> \<le> 2 ^ 47 \<Longrightarrow> num_of (of_int k / 100) = Fin (cents k)"
  by (simp add: num_of_def js_round_rat_cents)

lemma sum_abs_cents: "(\<And>x. x \<in> set xs \<Longrightarrow> h x = of_int (g x) / 100) \<Longrightarrow> sum_list (map h xs) = of_int (sum_list (map g xs)) / (100 :: rat)"
proof (induction xs)
  case (Cons a xs)
  have "h a = of_int (g a) / 100" "sum_list (map h xs) = of_int (sum_list (map g xs)) / 100" using Cons by simp_all
  then show ?case unfolding list.map sum_list.Cons of_int_add add_divide_distrib by (simp only:)
qed simp

lemma num_column_num_of: "\<bar>k\<bar> \<le> 2 ^ 46 \<Longrightarrow> num_column (num_of (of_int k / 100)) = Inr (of_int k / 100)"
  using num_of_cents [of k] num_column_cents [of k] by simp

lemma num_column_exact: "q = of_int k / 100 \<Longrightarrow> \<bar>k\<bar> \<le> 2 ^ 46 \<Longrightarrow> num_column (num_of q) = Inr q"
  by (simp only: num_column_num_of)

lemma modest_line:
  assumes "modest_lines ls" "l \<in> set ls" "line_typed l"
  shows "\<exists>d c. tl_debitAmount l = of_int d / 100 \<and> tl_creditAmount l = of_int c / 100 \<and> \<bar>d\<bar> + \<bar>c\<bar> \<le> 2 ^ 45"
proof -
  from assms(3) obtain d c where dc: "tl_debitAmount l = of_int d / 100" "tl_creditAmount l = of_int c / 100"
    unfolding line_typed_def rat_cents_iff by blast
  have "\<bar>tl_debitAmount l\<bar> + \<bar>tl_creditAmount l\<bar> \<le> sum_list (map (\<lambda>l. \<bar>tl_debitAmount l\<bar> + \<bar>tl_creditAmount l\<bar>) ls)"
    using assms(2) by (intro member_le_sum_list) auto
  also have "\<dots> \<le> of_int (2 ^ 45) / 100" using assms(1) by (simp add: modest_lines_def)
  finally have "(of_int (\<bar>d\<bar> + \<bar>c\<bar>) :: rat) / 100 \<le> of_int (2 ^ 45) / 100" by (simp add: dc add_divide_distrib)
  then have "\<bar>d\<bar> + \<bar>c\<bar> \<le> 2 ^ 45" by (simp only: divide_le_cancel of_int_le_iff)
  with dc show ?thesis by blast
qed

lemma modest_amounts:
  assumes "modest_lines ls" "l \<in> set ls" "line_typed l"
  defines "d \<equiv> money_cents (num_of (tl_debitAmount l))" and "c \<equiv> money_cents (num_of (tl_creditAmount l))"
  shows "tl_debitAmount l = of_int d / 100" "tl_creditAmount l = of_int c / 100" "\<bar>d\<bar> + \<bar>c\<bar> \<le> 2 ^ 45"
    "num_of (tl_debitAmount l) = Fin (cents d)" "num_of (tl_creditAmount l) = Fin (cents c)"
proof -
  from modest_line [OF assms(1-3)] obtain a b where ab: "tl_debitAmount l = of_int a / 100" "tl_creditAmount l = of_int b / 100" "\<bar>a\<bar> + \<bar>b\<bar> \<le> 2 ^ 45"
    by blast
  have n: "num_of (tl_debitAmount l) = Fin (cents a)" "num_of (tl_creditAmount l) = Fin (cents b)"
    unfolding ab(1,2) by (rule num_of_cents, use ab(3) in simp)+
  then have "d = a" "c = b" using ab(3) by (simp_all add: d_def c_def)
  then show "tl_debitAmount l = of_int d / 100" "tl_creditAmount l = of_int c / 100" "\<bar>d\<bar> + \<bar>c\<bar> \<le> 2 ^ 45"
    "num_of (tl_debitAmount l) = Fin (cents d)" "num_of (tl_creditAmount l) = Fin (cents c)" using ab n by (simp_all only:)
qed

lemma abs_cents: "x = of_int k / 100 \<Longrightarrow> \<bar>x\<bar> = of_int \<bar>k\<bar> / (100 :: rat)"
  by simp

lemma modest_journal:
  assumes "modest_lines ls" "\<forall>l \<in> set ls. line_typed l"
  shows "journal_in_cents (map amount_line ls)"
proof -
  let ?d = "\<lambda>l. money_cents (num_of (tl_debitAmount l))" and ?c = "\<lambda>l. money_cents (num_of (tl_creditAmount l))"
  note m = modest_amounts [OF assms(1) _ assms(2) [rule_format]]
  have l: "in_cents (num_of (tl_debitAmount l)) \<and> in_cents (num_of (tl_creditAmount l))" if "l \<in> set ls" for l
    unfolding in_cents_def using m(4,5) [OF that that] by simp
  have a: "\<bar>tl_debitAmount l\<bar> + \<bar>tl_creditAmount l\<bar> = of_int (\<bar>?d l\<bar> + \<bar>?c l\<bar>) / 100" if "l \<in> set ls" for l
    using abs_cents [OF m(1) [OF that that]] abs_cents [OF m(2) [OF that that]] by (simp only: of_int_add add_divide_distrib)
  have "sum_list (map (\<lambda>l. \<bar>tl_debitAmount l\<bar> + \<bar>tl_creditAmount l\<bar>) ls)
      = of_int (sum_list (map (\<lambda>l. \<bar>money_cents (num_of (tl_debitAmount l))\<bar> + \<bar>money_cents (num_of (tl_creditAmount l))\<bar>) ls)) / 100"
    by (rule sum_abs_cents) (rule a)
  moreover have "sum_list (map (\<lambda>l. \<bar>tl_debitAmount l\<bar> + \<bar>tl_creditAmount l\<bar>) ls) \<le> of_int (2 ^ 45) / 100" using assms(1) by (simp add: modest_lines_def)
  ultimately have "(of_int (sum_list (map (\<lambda>l. \<bar>?d l\<bar> + \<bar>?c l\<bar>) ls)) :: rat) / 100 \<le> of_int (2 ^ 45) / 100" by (simp only:)
  then have "sum_list (map (\<lambda>l. \<bar>money_cents (num_of (tl_debitAmount l))\<bar> + \<bar>money_cents (num_of (tl_creditAmount l))\<bar>) ls) \<le> 2 ^ 45"
    by (simp only: divide_le_cancel of_int_le_iff)
  then show ?thesis using l by (simp add: journal_in_cents_def amount_line_def list_all_iff comp_def)
qed

lemma postable_balanced:
  assumes D: "decimal_exact D v" and p: "postable D ls" and m: "modest_lines ls" and t: "\<forall>l \<in> set ls. line_typed l"
  shows "sum_list (map tl_debitAmount ls) = sum_list (map tl_creditAmount ls)"
    "l \<in> set ls \<Longrightarrow> 0 < tl_debitAmount l \<and> tl_creditAmount l = 0 \<or> 0 < tl_creditAmount l \<and> tl_debitAmount l = 0"
proof -
  note a = modest_amounts [OF m _ t [rule_format]]
  have "total_debit (map amount_line ls) = total_credit (map amount_line ls)"
    using validateDoubleEntry_cents(1) [OF D modest_journal [OF m t]] p by (simp add: postable_def)
  then have "sum_list (map (\<lambda>l. money_cents (num_of (tl_debitAmount l))) ls) = sum_list (map (\<lambda>l. money_cents (num_of (tl_creditAmount l))) ls)"
    by (simp add: total_debit_def total_credit_def amount_line_def comp_def)
  then show "sum_list (map tl_debitAmount ls) = sum_list (map tl_creditAmount ls)"
    using sum_abs_cents [of ls tl_debitAmount] sum_abs_cents [of ls tl_creditAmount] a(1,2) by metis
  assume l: "l \<in> set ls"
  let ?d = "money_cents (num_of (tl_debitAmount l))" and ?c = "money_cents (num_of (tl_creditAmount l))"
  have lc: "line_check (tl_debitAmount l) (tl_creditAmount l) (tl_amount l)" using t l unfolding line_typed_def by blast
  have b: "\<bar>?d\<bar> \<le> 2 ^ 47" "\<bar>?c\<bar> \<le> 2 ^ 47" using a(3) [OF l l] by simp_all
  have "validateLineAmounts (amount_line l)" using p l by (simp add: postable_def)
  then have "positive (Fin (cents ?d)) \<noteq> positive (Fin (cents ?c))"
    unfolding validateLineAmounts_def using a(4,5) [OF l l] by (simp add: amount_line_def)
  then have "(0 < ?d) \<noteq> (0 < ?c)" using b by simp
  moreover have "0 < tl_debitAmount l \<longleftrightarrow> 0 < ?d" "0 < tl_creditAmount l \<longleftrightarrow> 0 < ?c"
    by (subst a(1) [OF l l], simp, subst a(2) [OF l l], simp)
  ultimately show "0 < tl_debitAmount l \<and> tl_creditAmount l = 0 \<or> 0 < tl_creditAmount l \<and> tl_debitAmount l = 0"
    using lc by (auto simp: line_check_def)
qed

lemma line_entry_exact:
  assumes m: "modest_lines ls" and t: "\<forall>l \<in> set ls. line_typed l" and e: "list_all2 (line_entry C) ls es"
  shows "list_all2 (\<lambda>l e. (le_accountId e, tl_accountCode l) \<in> C \<and> le_debit e = tl_debitAmount l \<and> le_credit e = tl_creditAmount l) ls es"
  unfolding list_all2_conv_all_nth
proof (intro conjI allI impI)
  show "length ls = length es" using e by (rule list_all2_lengthD)
  fix n assume n: "n < length ls"
  have le: "line_entry C (ls ! n) (es ! n)" using e n by (simp add: list_all2_conv_all_nth)
  have l: "ls ! n \<in> set ls" using n by simp
  note a = modest_amounts [OF m l t [rule_format, OF l]]
  have "num_column (num_of (tl_debitAmount (ls ! n))) = Inr (tl_debitAmount (ls ! n))"
    by (rule num_column_exact [OF a(1)]) (use a(3) in simp)
  moreover have "num_column (num_of (tl_creditAmount (ls ! n))) = Inr (tl_creditAmount (ls ! n))"
    by (rule num_column_exact [OF a(2)]) (use a(3) in simp)
  ultimately
  show "(le_accountId (es ! n), tl_accountCode (ls ! n)) \<in> C" "le_debit (es ! n) = tl_debitAmount (ls ! n)" "le_credit (es ! n) = tl_creditAmount (ls ! n)"
    using le by (simp_all add: line_entry_def)
qed

text \<open>C5. Beside any other use of the ledger a document is posted exactly when the ledger holds a
  transaction for it, and then exactly one, which is the one the document names, stamped with the
  document, under its number and on its date. When the sides of the lines add up to at most \<open>2 ^ 45\<close>
  cents, the entries of that transaction are the lines of the document, account by account and to the
  cent, each line has exactly one positive side, and debits equal credits.\<close>

theorem posted_document_has_one_journal:
  assumes "decimal_exact D v" "inj gen" "treasury_ok D gen db" "(treasury_step D gen mode)\<^sup>*\<^sup>* db db'" "find_doc i db' = Some r"
  shows "length (filter (\<lambda>t. lt_referenceType t = ''TREASURY_DOCUMENT'' \<and> lt_referenceId t = i) (ld_transactions (tr_ledger db')))
      = (if td_status r = TD_POSTED then 1 else 0)
    \<and> (td_status r = TD_POSTED \<longrightarrow> (\<exists>t \<in> set (ld_transactions (tr_ledger db')).
         td_journalEntryId r = Some (lt_id t) \<and> lt_referenceType t = ''TREASURY_DOCUMENT'' \<and> lt_referenceId t = i
         \<and> lt_referenceNumber t = td_documentNumber r \<and> lt_date t = take 10 (td_transactionDate r)
         \<and> map_of (tr_stamps db') (lt_id t) = Some i
         \<and> (modest_lines (lines_of i db') \<longrightarrow>
              list_all2 (\<lambda>l e. (le_accountId e, tl_accountCode l) \<in> codes (tr_ledger db') \<and> le_debit e = tl_debitAmount l
                 \<and> le_credit e = tl_creditAmount l) (lines_of i db') (own_entries (lt_id t) (tr_ledger db'))
            \<and> (\<forall>l \<in> set (lines_of i db'). (0 < tl_debitAmount l) \<noteq> (0 < tl_creditAmount l))
            \<and> sum_list (map tl_debitAmount (lines_of i db')) = sum_list (map tl_creditAmount (lines_of i db')))))"
proof -
  have ok: "ledger_wf gen (tr_ledger db')" "docs_wf db'" "linked D db'"
    using treasury_ok_steps [OF assms(2-4)] by (simp_all add: treasury_ok_def)
  let ?P = "\<lambda>t. lt_referenceType t = ''TREASURY_DOCUMENT'' \<and> lt_referenceId t = i"
  have id: "td_id r = i" "r \<in> set (tr_documents db')" using find_doc_id [OF assms(5)] by simp_all
  have own: "lines_of i db' = own_lines i db'" using lines_of_wf [OF ok(2)] .
  have typed: "\<forall>l \<in> set (own_lines i db'). line_typed l" using ok(2) by (auto simp: docs_wf_def own_lines_def)
  have dist: "distinct (map lt_id (ld_transactions (tr_ledger db')))" using ok(1) by (simp add: ledger_wf_def ids_ok_def)
  have of_r: "td_status r = TD_POSTED \<and> td_journalEntryId r = Some (lt_id t)"
    if t: "t \<in> set (ld_transactions (tr_ledger db'))" "?P t" for t
  proof -
    from ok(3) t obtain x where x: "x \<in> set (tr_documents db')" "td_status x = TD_POSTED" "journal_of db' x t"
      unfolding linked_def foreign_txn_def by blast
    then have "td_id x = i" using t(2) by (simp add: journal_of_def)
    then have "x = r" by (rule same_row [OF ok(2) assms(5) x(1)])
    with x show ?thesis by (simp add: journal_of_def)
  qed
  show ?thesis
  proof (cases "td_status r = TD_POSTED")
    case False
    then have "filter ?P (ld_transactions (tr_ledger db')) = []" using of_r by (auto simp: filter_empty_conv)
    then show ?thesis using False by simp
  next
    case True
    with ok(3) id obtain t where t: "t \<in> set (ld_transactions (tr_ledger db'))" "journal_of db' r t" "postable D (own_lines i db')"
      unfolding linked_def by blast
    then have P: "?P t" "td_journalEntryId r = Some (lt_id t)" using id by (simp_all add: journal_of_def)
    have one: "u = t" if "u \<in> set (ld_transactions (tr_ledger db'))" "?P u" for u
      using of_r [OF that] P(2) dist t(1) that(1) by (auto simp: distinct_map inj_on_def)
    have "filter ?P (ld_transactions (tr_ledger db')) = filter (\<lambda>x. x = t) (ld_transactions (tr_ledger db'))"
      by (rule filter_cong) (use one P in blast)+
    also have "length \<dots> = 1" using t(1) dist by (simp add: distinct_map distinct_length_filter Collect_conv_if)
    finally have len: "length (filter ?P (ld_transactions (tr_ledger db'))) = 1" .
    have "modest_lines (own_lines i db') \<Longrightarrow> list_all2 (\<lambda>l e. (le_accountId e, tl_accountCode l) \<in> codes (tr_ledger db') \<and> le_debit e = tl_debitAmount l
                 \<and> le_credit e = tl_creditAmount l) (own_lines i db') (own_entries (lt_id t) (tr_ledger db'))
            \<and> (\<forall>l \<in> set (own_lines i db'). (0 < tl_debitAmount l) \<noteq> (0 < tl_creditAmount l))
            \<and> sum_list (map tl_debitAmount (own_lines i db')) = sum_list (map tl_creditAmount (own_lines i db'))"
    proof (intro conjI ballI)
      assume m: "modest_lines (own_lines i db')"
      note b = postable_balanced [OF assms(1) t(3) m typed]
      show "sum_list (map tl_debitAmount (own_lines i db')) = sum_list (map tl_creditAmount (own_lines i db'))" by (rule b(1))
      show "(0 < tl_debitAmount l) \<noteq> (0 < tl_creditAmount l)" if "l \<in> set (own_lines i db')" for l using b(2) [OF that] by auto
      have "list_all2 (line_entry (codes (tr_ledger db'))) (own_lines i db') (own_entries (lt_id t) (tr_ledger db'))"
        using t(2) id by (simp add: journal_of_def)
      then show "list_all2 (\<lambda>l e. (le_accountId e, tl_accountCode l) \<in> codes (tr_ledger db') \<and> le_debit e = tl_debitAmount l
                 \<and> le_credit e = tl_creditAmount l) (own_lines i db') (own_entries (lt_id t) (tr_ledger db'))"
        by (rule line_entry_exact [OF m typed])
    qed
    then show ?thesis using len True t(1,2) P id unfolding own journal_of_def by (intro conjI impI bexI [of _ t]) (simp_all)
  qed
qed

end
