(* ===== verification/TreasuryOps.thy ===== *)
theory TreasuryOps imports TreasuryTheorems
begin

section \<open>What single treasury operations promise\<close>

text \<open>
  Optimistic locking of drafts, posting against approval, and reversal.
\<close>

subsection \<open>Row versions\<close>

lemma rowVersion_grows:
  assumes "docs_wf db" "(treasury_step D gen mode)\<^sup>*\<^sup>* db db'" "find_doc i db = Some r"
  shows "\<exists>r'. find_doc i db' = Some r' \<and> td_rowVersion r \<le> td_rowVersion r'"
  using records.reach_ord [OF steps_are_changes [OF assms(2)] assms(1)] assms(3) unfolding keeps_documents_def by blast

lemma updateDraft_row:
  assumes "updateDraft gen i u db = Inr (d, db')"
  shows "\<exists>r'. find_doc i db' = Some r' \<and> td_rowVersion r' = Suc (ui_expectedRowVersion u)"
proof -
  from updateDraft_Inr [OF assms] obtain r f where r: "find_doc i db = Some r" "td_rowVersion r = ui_expectedRowVersion u"
    and f: "\<forall>x. edited x (f x)" "tr_documents db' = map (\<lambda>x. if td_id x = i then f x else x) (tr_documents db)" by blast
  have "td_id (f x) = td_id x \<and> td_rowVersion (f x) = Suc (td_rowVersion x)" for x using edited_keeps [OF f(1) [rule_format]] by blast
  then show ?thesis using r find_doc_id [OF r(1)] by (simp add: find_doc_def f(2) find_map_id)
qed

text \<open>An update that was accepted cannot be overwritten unseen: whatever happens in between, an update that
  expects the same row version or an older one is refused, as a modified document while the document is
  still a draft.\<close>

theorem stale_update_refused:
  assumes "docs_wf db" "updateDraft gen i u db = Inr (d, db1)" "(treasury_step D gen mode)\<^sup>*\<^sup>* db1 db2"
    and "ui_expectedRowVersion u' \<le> ui_expectedRowVersion u"
  shows "\<exists>e. updateDraft gen i u' db2 = Inl e
    \<and> (\<forall>r. find_doc i db2 = Some r \<and> td_status r = TD_DRAFT \<and> tr_enabled db2 \<longrightarrow> e = TE_DOCUMENT_MODIFIED)"
proof -
  from updateDraft_row [OF assms(2)] obtain r1 where r1: "find_doc i db1 = Some r1" "td_rowVersion r1 = Suc (ui_expectedRowVersion u)" by auto
  have "docs_wf db1" using docs_wf_change [OF assms(1) updateDraft_changes [OF assms(2)]] .
  from rowVersion_grows [OF this assms(3) r1(1)] obtain r2 where r2: "find_doc i db2 = Some r2" "ui_expectedRowVersion u' < td_rowVersion r2"
    using r1(2) assms(4) by auto
  have g: "getById i db2 = Some (the_document r2 db2)" using r2(1) by (simp add: getById_document)
  have s: "repo_updateDraft gen i u' db2 = Inl TE_DOCUMENT_MODIFIED" using r2(2) g by (simp add: repo_updateDraft_def throw_if_def)
  show ?thesis unfolding updateDraft_def with_doc_def using g s r2(1)
    by (cases "tr_enabled db2"; cases "td_status r2")
      (simp_all add: assertFeatureEnabled_def Let_def assertMutableStatus_def throw_if_def)
qed

subsection \<open>Posting and approval\<close>

lemma map_sum_and_then: "map_sum id g (and_then r f) = and_then r (\<lambda>x. map_sum id g (f x))"
  by (cases r) simp_all

lemma and_then_cong: "r = s \<Longrightarrow> (\<And>a. s = Inr a \<Longrightarrow> f a = g a) \<Longrightarrow> and_then r f = and_then s g"
  by (cases s) simp_all

text \<open>C12. Posting a document that waits for approval does what approving it does, up to the name of the audit
  event: it needs no approver before, and enters the one who posts as the approver. Nothing asks that the
  approver is not the creator.\<close>

theorem posting_approves:
  assumes "find_doc i db = Some r" "td_status r = TD_PENDING_APPROVAL" "td_requiresApproval r"
  shows "post_document D gen mode now i actor db
    = (case approve D gen mode now i actor db of Inl e \<Rightarrow> Inl e
       | Inr (d, db') \<Rightarrow> Inr (d, db'\<lparr>tr_audit := tr_audit db @ [\<lparr>tau_documentId = i, tau_eventType = ''POSTED'', tau_actorUserId = actor\<rparr>]\<rparr>))
    \<and> (\<forall>d db'. approve D gen mode now i actor db = Inr (d, db') \<longrightarrow> td_approvedBy (doc_header d) = Some actor)"
proof -
  let ?d = "the_document r db" and ?cl = "tr_ledger db"
  have g: "getById i db = Some ?d" using assms(1) by (simp add: getById_document)
  have id: "td_id r = i" using find_doc_id [OF assms(1)] by simp
  have c: "check_post ?d False = check_post ?d True" using assms(2,3) by (simp add: check_post_def)
  have p: "posted_patch ?d False now actor = posted_patch ?d True now actor"
    using assms(3) by (simp add: posted_patch_def fun_eq_iff)
  define rename where "rename = (\<lambda>(d :: TreasuryDocument, y :: TreasuryDb). (d, y\<lparr>tr_audit := tr_audit db @ [\<lparr>tau_documentId = i, tau_eventType = ''POSTED'', tau_actorUserId = actor\<rparr>]\<rparr>))"
  have fin: "finish_post ?d q ''POSTED'' actor k l x = map_sum id rename (finish_post ?d q ''APPROVED_AND_POSTED'' actor k l x)"
    if "tr_audit x = tr_audit db" for q k l x
  proof -
    let ?y = "setStatus i q (stampLedgerTreasuryDocument (jr_transactionId k) i (x\<lparr>tr_ledger := l\<rparr>))"
    have e: "getById i (insertAudit i e actor ?y) = getById i ?y" for e
      by (simp add: getById_def loadLines_def lines_of_def)
    have a: "tr_audit ?y = tr_audit db" using that by (simp add: setStatus_rows stampLedgerTreasuryDocument_def)
    show ?thesis
      by (cases "getById i ?y") (simp_all add: finish_post_def Let_def id reload_def e rename_def, cases "audit_fields_ok (the (getById i ?y))",
         simp_all add: insertAudit_def a)
  qed
  have same: "tr_audit x = tr_audit db" if "applySettlementsForDepositWorksheet gen ?d db = Inr x" for x
    using apply_worksheet_docs [OF that] by (simp add: same_docs_def)
  have "postInternal D gen mode ?cl now ?d actor False db = map_sum id rename (postInternal D gen mode ?cl now ?d actor True db)"
    unfolding postInternal_def c p map_sum_and_then
    by (intro and_then_cong refl) (simp add: fin same split: prod.split)
  moreover have "post_document D gen mode now i actor db = and_then (assertFeatureEnabled db) (\<lambda>_. postInternal D gen mode ?cl now ?d actor False db)"
    "approve D gen mode now i actor db = and_then (assertFeatureEnabled db) (\<lambda>_. postInternal D gen mode ?cl now ?d actor True db)"
    using assms(2) by (simp_all add: post_document_def approve_def with_doc_def g throw_if_def)
  ultimately have "post_document D gen mode now i actor db = map_sum id rename (approve D gen mode now i actor db)"
    by (cases "assertFeatureEnabled db") simp_all
  moreover have "td_approvedBy (doc_header d) = Some actor" if "approve D gen mode now i actor db = Inr (d, db')" for d db'
  proof -
    from that have "postInternal D gen mode ?cl now ?d actor True db = Inr (d, db')"
      by (simp add: approve_def with_doc_def g and_then_Inr_iff)
    note f = postInternal_find [OF this assms(1), of i]
    then obtain q where q: "find_doc i db' = Some q" "d = the_document q db'" by blast
    let ?q = "patch_row (posted_patch ?d True now actor (the (td_journalEntryId (doc_header d)))) r"
    have "find_doc i db' = Some ?q" using f assms(1) id by simp
    moreover have "td_approvedBy ?q = Some actor" by (simp add: patch_row_def posted_patch_def patch_of_def or_keep_def Let_def)
    ultimately show ?thesis using q by simp
  qed
  ultimately show ?thesis by (auto simp: rename_def split: sum.split)
qed

subsection \<open>Reversal\<close>

lemma postInternal_lines:
  assumes "postInternal D gen mode cl now (the_document r db) actor a db = Inr (d, db')"
  shows "tr_lines db' = tr_lines db"
proof -
  from assms obtain x k l where x: "applySettlementsForDepositWorksheet gen (the_document r db) db = Inr x"
    and fin: "finish_post (the_document r db) (posted_patch (the_document r db) a now actor (jr_transactionId k))
       (if a then ''APPROVED_AND_POSTED'' else ''POSTED'') actor k l x = Inr (d, db')"
    by (auto simp: postInternal_def and_then_Inr_iff)
  have sd: "same_docs db x" by (rule apply_worksheet_docs [OF x])
  have d: "the_document r x = the_document r db" using same_docs_document [OF sd] .
  from finish_post_rows(2) [OF fin [folded d]] sd show ?thesis by (simp add: same_docs_def)
qed

text \<open>The stored form of the opposite of a stored line.\<close>

definition mirrors :: "rat DocumentLine \<Rightarrow> rat DocumentLine \<Rightarrow> bool" where
  "mirrors l m \<longleftrightarrow> tl_accountCode m = tl_accountCode l \<and> tl_debitAmount m = tl_creditAmount l \<and> tl_creditAmount m = tl_debitAmount l"

lemma money_column_cents: "\<bar>k\<bar> \<le> 2 ^ 46 \<Longrightarrow> money_column (Fin (cents k)) = Inr (of_int k / 100)"
proof -
  assume k: "\<bar>k\<bar> \<le> 2 ^ 46"
  then have "\<bar>of_int k :: rat\<bar> \<le> of_int (2 ^ 46)" by (simp only: of_int_abs [symmetric] of_int_le_iff)
  then have "\<bar>of_int k / 100 :: rat\<bar> < 10 ^ 16" by (simp add: abs_divide)
  then show ?thesis using k by (simp add: money_column_def numeric_18_2_def pg_round_cents)
qed

lemma stored_mirror:
  assumes m: "modest_lines ls" "l \<in> set ls" "line_typed l"
    and s: "stored_line i raw x" "li_accountCode raw = tl_accountCode l" "li_debitAmount raw = Some (num_of (tl_creditAmount l))"
      "li_creditAmount raw = Some (num_of (tl_debitAmount l))" "li_amount raw = None"
  shows "mirrors l x"
proof -
  let ?d = "money_cents (num_of (tl_debitAmount l))" and ?c = "money_cents (num_of (tl_creditAmount l))"
  note a = modest_amounts [OF m]
  have b: "\<bar>?d\<bar> \<le> 2 ^ 46" "\<bar>?c\<bar> \<le> 2 ^ 46" "\<bar>?d\<bar> \<le> 2 ^ 47" "\<bar>?c\<bar> \<le> 2 ^ 47" using a(3) by simp_all
  have r: "roundMoney (num_of (tl_creditAmount l)) = Fin (cents ?c)" "roundMoney (num_of (tl_debitAmount l)) = Fin (cents ?d)"
    using roundMoney_cents [OF b(3)] roundMoney_cents [OF b(4)] a(4,5) by simp_all
  have z: "roundMoney (Fin 0) = Fin 0" using roundMoney_cents [of 0] by simp
  from s(1) obtain n where n: "normalizeLineAmounts raw = Inr n" "money_column (na_debitAmount n) = Inr (tl_debitAmount x)"
    "money_column (na_creditAmount n) = Inr (tl_creditAmount x)" "tl_accountCode x = li_accountCode raw"
    unfolding stored_line_def by blast
  have "na_debitAmount n = Fin (cents ?c) \<and> na_creditAmount n = Fin (cents ?d)"
    using n(1) b unfolding normalizeLineAmounts_def s(3-5)
    by (auto simp: r z Let_def and_then_Inr_iff split: if_splits)
  then have "tl_debitAmount x = of_int ?c / 100" "tl_creditAmount x = of_int ?d / 100"
    using n(2,3) money_column_cents b(1,2) by simp_all
  then show ?thesis using a(1,2) n(4) s(2) by (simp only: mirrors_def)
qed

lemma mirrors_cancel:
  "list_all2 mirrors ls ms \<Longrightarrow> (\<Sum>l \<leftarrow> ls @ ms. if tl_accountCode l = code then tl_debitAmount l - tl_creditAmount l else 0) = 0"
  by (induction rule: list_all2_induct) (auto simp: mirrors_def)

lemma created_id: "createDocument gen now inp db = Inr (d, db') \<Longrightarrow> \<exists>n. td_id (doc_header d) = gen n"
proof -
  assume c: "createDocument gen now inp db = Inr (d, db')"
  obtain number db0 where n: "nextDocumentNumber (document_year now (ci_transactionDate inp)) db = (number, db0)" by fastforce
  from c obtain r where "new_document gen number inp db0 = Inr r" "getById (td_id r) db' = Some d"
    by (auto simp: createDocument_def n and_then_Inr_iff Let_def)
  moreover have "td_id (doc_header d) = td_id r"
    using \<open>getById _ _ = _\<close> by (auto simp: getById_document dest: find_doc_id)
  ultimately show ?thesis by (auto simp: new_document_def and_then_Inr_iff)
qed

text \<open>C8. Reversing a posted document posts a new document of type reversal, dated today, that names the original,
  and links the original to it. Its lines are those of the original with the sides exchanged, so together the
  two documents move nothing on any account. A second reversal is refused. The totals of the sides are again
  within \<open>2 ^ 45\<close> cents, and identifiers are not empty.\<close>

theorem reversal_mirrors_document:
  assumes "docs_wf db" "\<And>n. gen n \<noteq> []" "reverse_document D gen mode now i actor reason db = Inr (ds, db')"
    and "find_doc i db = Some r" "modest_lines (lines_of i db)"
  shows "\<exists>r' q. find_doc i db' = Some r' \<and> td_reversedByDocumentId r' = Some (td_id q) \<and> td_status r' = TD_POSTED
    \<and> q \<in> set (tr_documents db') - set (tr_documents db) \<and> td_status q = TD_POSTED \<and> td_documentType q = TREASURY_REVERSAL
    \<and> td_reversesDocumentId q = Some i \<and> td_transactionDate q = take 10 now \<and> td_createdBy q = actor
    \<and> list_all2 mirrors (lines_of i db) (lines_of (td_id q) db')
    \<and> (\<forall>code. (\<Sum>l \<leftarrow> lines_of i db' @ lines_of (td_id q) db'. if tl_accountCode l = code then tl_debitAmount l - tl_creditAmount l else 0) = 0)
    \<and> (tr_enabled db' \<longrightarrow> reverse_document D gen mode now i actor reason db' = Inl TE_ALREADY_REVERSED)"
proof -
  from assms(3,4) obtain j db1 rv db2 d db3 where c: "check_reverse (the_document r db) db = Inr j"
    and rel: "releaseSettlementsForDepositWorksheet (the_document r db) db = Inr db1"
    and cr: "createDocument gen now (reversal_input now (the_document r db) actor reason) db1 = Inr (rv, db2)"
    and p: "postInternal D gen mode (tr_ledger db) now rv actor False db2 = Inr (d, db3)"
    and fin: "db' = reverse_legs j (insertAudit i ''REVERSED_BY'' actor
         (setStatus i ((patch_of TD_POSTED)\<lparr>sp_reversedByDocumentId := Some (td_id (doc_header d))\<rparr>) db3))"
    by (auto simp: reverse_document_def and_then_Inr_iff with_doc_Inr Let_def getById_document)
  have id: "td_id r = i" using find_doc_id [OF assms(4)] by simp
  have ok: "td_status r = TD_POSTED" "td_documentType r \<noteq> TREASURY_REVERSAL" "\<not> truthy_str (td_reversesDocumentId r)" "truthy_str (td_journalEntryId r)"
    using c by (auto simp: check_reverse_def Let_def and_then_Inr_iff)
  have s1: "same_docs db db1" by (rule release_worksheet_docs [OF rel])
  from createDocument_change [OF cr, of D mode] obtain q ls where
    q: "fresh_draft q" "tr_documents db2 = tr_documents db1 @ [q]" "find_doc (td_id q) db2 = Some q" "rv = the_document q db2"
      "td_id q \<notin> td_id ` set (tr_documents db1)" "td_documentType q = TREASURY_REVERSAL" "td_reversesDocumentId q = Some i"
      "td_transactionDate q = take 10 now" "td_createdBy q = actor"
    and ls: "stored_lines (td_id q) (oppositeLines (the_document r db) reason) ls" "tr_lines db2 = without_lines (td_id q) db1 @ ls"
    by (auto simp: reversal_input_def Let_def id)
  have qid: "td_id q \<noteq> []" using created_id [OF cr] assms(2) by (metis q(4) the_document_simps(1) mapHeader_simps(1))
  have f2: "find_doc i db2 = Some r" using assms(4) s1 q(2) by (simp add: find_doc_def same_docs_def find_append)
  have ne: "td_id q \<noteq> i" using q(5) s1 find_doc_id [OF assms(4)] by (auto simp: same_docs_def image_iff)
  note pf = postInternal_find [OF p [unfolded q(4)] q(3)]
  let ?k = "patch_row (posted_patch (the_document q db2) False now actor (the (td_journalEntryId (doc_header d)))) q"
  let ?p = "(patch_of TD_POSTED)\<lparr>sp_reversedByDocumentId := Some (td_id q)\<rparr>"
  have f3: "find_doc i db3 = Some r" "find_doc (td_id q) db3 = Some ?k" "td_id (doc_header d) = td_id q"
    using pf f2 id ne q(3) by simp_all
  have db': "db' = reverse_legs j (insertAudit i ''REVERSED_BY'' actor (setStatus i ?p db3))" using fin f3(3) by simp
  have fd: "find_doc x db' = map_option (\<lambda>r. if td_id r = i then patch_row ?p r else r) (find_doc x db3)" for x
    unfolding db' by (simp add: reverse_legs_def find_doc_def) (simp add: find_doc_setStatus [unfolded find_doc_def])
  have f: "find_doc i db' = Some (patch_row ?p r)" "find_doc (td_id q) db' = Some ?k"
    using f3 id ne by (simp_all add: fd)
  have lines: "tr_lines db' = without_lines (td_id q) db1 @ ls"
    using postInternal_lines [OF p [unfolded q(4)]] ls(2) by (simp add: db' reverse_legs_def setStatus_rows)
  have wf: "docs_wf db'" using documents.reach_inv [OF reverse_changes [OF assms(3)] assms(1)] .
  have o: "own_lines x db' = (if x = td_id q then ls else own_lines x db)" for x
    using own_lines_replaced [OF _ lines] stored_lines_own(1) [OF ls(1)] s1 by (simp add: own_lines_def same_docs_def)
  have l: "lines_of i db' = own_lines i db" "lines_of (td_id q) db' = ls" "lines_of i db = own_lines i db"
    using lines_of_wf [OF wf] lines_of_wf [OF assms(1)] o ne by simp_all
  have typed: "\<forall>l \<in> set (own_lines i db). line_typed l" using assms(1) by (auto simp: docs_wf_def own_lines_def)
  have mir: "list_all2 mirrors (own_lines i db) ls"
    unfolding list_all2_conv_all_nth
  proof (intro conjI allI impI)
    have raw: "oppositeLines (the_document r db) reason = map (\<lambda>l. \<lparr>li_lineType = Some (tl_lineType l), li_accountCode = tl_accountCode l,
      li_description = Some (''Reversal: '' @ str_or (tl_description l) (tl_accountCode l)),
      li_debitAmount = Some (num_of (tl_creditAmount l)), li_creditAmount = Some (num_of (tl_debitAmount l)), li_amount = None,
      li_sourceReceiptId = None, li_sourcePaymentId = None, li_sourceSessionMovementId = None, li_memo = reason\<rparr>) (own_lines i db)" (is "_ = map ?g _")
      by (simp add: oppositeLines_def loadLines_def id l(3) mapLine_def)
    have a: "list_all2 (stored_line (td_id q)) (map ?g (own_lines i db)) ls" using ls(1) raw by (simp add: stored_lines_def)
    show len: "length (own_lines i db) = length ls" using list_all2_lengthD [OF a] by simp
    fix n assume n: "n < length (own_lines i db)"
    have "stored_line (td_id q) (?g (own_lines i db ! n)) (ls ! n)" using list_all2_nthD [OF a, of n] n by simp
    then show "mirrors (own_lines i db ! n) (ls ! n)"
      using n typed by (intro stored_mirror [OF assms(5) [unfolded l(3)], where raw = "?g (own_lines i db ! n)"]) simp_all
  qed
  have again: "reverse_document D gen mode now i actor reason db' = Inl TE_ALREADY_REVERSED" if "tr_enabled db'"
  proof -
    have "truthy_str (td_reversedByDocumentId (patch_row ?p r))" using qid by (simp add: patch_row_def patch_of_def or_keep_def truthy_str_def)
    then have "check_reverse (the_document (patch_row ?p r) db') db' = Inl TE_ALREADY_REVERSED"
      using ok by (simp add: check_reverse_def Let_def throw_if_def patch_of_def)
    moreover have "getById i db' = Some (the_document (patch_row ?p r) db')" using f(1) by (simp add: getById_document)
    ultimately show ?thesis using that by (simp add: reverse_document_def assertFeatureEnabled_def with_doc_def throw_if_def)
  qed
  have st: "td_reversedByDocumentId (patch_row ?p r) = Some (td_id q)" "td_status (patch_row ?p r) = TD_POSTED" "td_id ?k = td_id q"
    "td_status ?k = TD_POSTED" "td_documentType ?k = TREASURY_REVERSAL" "td_reversesDocumentId ?k = Some i" "td_transactionDate ?k = take 10 now" "td_createdBy ?k = actor"
    using q(6-9) by (simp_all add: patch_row_def patch_of_def or_keep_def posted_patch_def Let_def)
  have "?k \<in> set (tr_documents db') - set (tr_documents db)"
    using find_doc_id [OF f(2)] q(5) s1 st(3) by (metis Diff_iff image_eqI same_docs_def)
  then show ?thesis using f(1) st mir again mirrors_cancel [OF mir] unfolding l
    by (intro exI [of _ "patch_row ?p r"] exI [of _ ?k]) (simp add: l)
qed

end
