(* ===== verification/TreasuryBalance.thy ===== *)
theory TreasuryBalance imports TreasuryRules
begin

section \<open>The balance check on whole cents\<close>

text \<open>
  TD-INV-1 adds doubles, rounds after every line and compares within 0.009. On amounts in whole cents
  this is exact: the tolerance never lets a cent through and rounding never loses one.
\<close>

lemma td_epsilon_value: "\<exists>e. td_epsilon = Fin e \<and> 8 / 1000 < e \<and> e < 92 / 10000"
proof -
  have "lit (9 / 1000) = Fin (dbl (9 / 1000))" by (simp add: lit_def dbl_small)
  moreover have "8 / 1000 < dbl (9 / 1000) \<and> dbl (9 / 1000) < 92 / 10000" by code_simp
  ultimately show ?thesis by (auto simp: td_epsilon_def)
qed

definition cents_side :: "int \<times> int \<Rightarrow> jnum option \<times> jnum option" where
  "cents_side l = (Some (Fin (cents (fst l))), Some (Fin (cents (snd l))))"

lemma side_total:
  assumes "\<And>l. l \<in> set ls \<Longrightarrow> h (cents_side l) = Some (Fin (cents (g l))) \<and> 0 \<le> g l" "0 \<le> s" "s + sum_list (map g ls) \<le> 2 ^ 46"
  shows "foldl (\<lambda>t l. roundMoney (jadd t (coalesce (h l) (Fin 0)))) (Fin (cents s)) (map cents_side ls) = Fin (cents (s + sum_list (map g ls)))"
  using assms
proof (induction ls arbitrary: s)
  case (Cons l ls)
  have "0 \<le> sum_list (map g ls)" by (rule sum_list_nonneg) (use Cons.prems(1) in auto)
  moreover have "h (cents_side l) = Some (Fin (cents (g l)))" "0 \<le> g l" using Cons.prems(1) by simp_all
  ultimately have b: "\<bar>s\<bar> \<le> 2 ^ 46" "\<bar>g l\<bar> \<le> 2 ^ 46" "0 \<le> s + g l" "s + g l + sum_list (map g ls) \<le> 2 ^ 46"
    using Cons.prems(2,3) by simp_all
  have "roundMoney (jadd (Fin (cents s)) (Fin (cents (g l)))) = Fin (cents (s + g l))" by (rule cents_add [OF b(1,2)])
  then show ?case using Cons.IH [OF _ b(3,4)] Cons.prems(1) \<open>h _ = _\<close> by (simp add: add.assoc)
qed simp

text \<open>C11. On lines whose sides are whole cents, not negative, and add up to at most \<open>2 ^ 46\<close> cents each, the check of a
  treasury document accepts exactly the non-empty lists whose debits equal their credits and are
  positive, with the exact totals, and otherwise reports the first of the three faults.\<close>

theorem balance_check_is_exact:
  assumes "\<forall>l \<in> set ls. 0 \<le> fst l \<and> 0 \<le> snd l" "sum_list (map fst ls) \<le> 2 ^ 46" "sum_list (map snd ls) \<le> 2 ^ 46"
  shows "assertBalancedLines (map cents_side ls) =
    (if ls = [] then Inl TD_INV_1_NO_LINES
     else if sum_list (map fst ls) \<noteq> sum_list (map snd ls) then Inl TD_INV_1_UNBALANCED
     else if sum_list (map fst ls) = 0 then Inl TD_INV_1_ZERO_TOTAL
     else Inr (Fin (cents (sum_list (map fst ls))), Fin (cents (sum_list (map snd ls)))))"
proof -
  let ?d = "sum_list (map fst ls)" and ?c = "sum_list (map snd ls)"
  have n: "0 \<le> ?d" "0 \<le> ?c" by (rule sum_list_nonneg, use assms(1) in auto)+
  then have b: "\<bar>?d\<bar> \<le> 2 ^ 46" "\<bar>?c\<bar> \<le> 2 ^ 46" using assms(2,3) by simp_all
  have td: "foldl (\<lambda>t l. roundMoney (jadd t (coalesce (fst l) (Fin 0)))) (Fin 0) (map cents_side ls) = Fin (cents ?d)"
    using side_total [of ls fst fst 0] assms by (simp add: cents_side_def)
  have tc: "foldl (\<lambda>t l. roundMoney (jadd t (coalesce (snd l) (Fin 0)))) (Fin 0) (map cents_side ls) = Fin (cents ?c)"
    using side_total [of ls snd snd 0] assms by (simp add: cents_side_def)
  obtain e where e: "td_epsilon = Fin e" "8 / 1000 < e" "e < 92 / 10000" using td_epsilon_value by blast
  obtain x where x: "jsub (Fin (cents ?d)) (Fin (cents ?c)) = Fin x" "\<bar>100 * x - of_int (?d - ?c)\<bar> \<le> 1 / 15"
    using cents_sub_near [OF b] by blast
  have un: "e < \<bar>x\<bar> \<longleftrightarrow> ?d \<noteq> ?c"
  proof
    assume "e < \<bar>x\<bar>"
    then show "?d \<noteq> ?c" using x(2) e(2) by auto
  next
    assume "?d \<noteq> ?c"
    then have "1 \<le> \<bar>?d - ?c\<bar>" by simp
    then have "(1 :: rat) \<le> \<bar>of_int (?d - ?c)\<bar>" by (metis of_int_abs of_int_1_le_iff)
    then show "e < \<bar>x\<bar>" using x(2) e(3) by linarith
  qed
  have z: "cents ?d \<le> 0 \<longleftrightarrow> ?d = 0" using cents_le_iff [of ?d 0] b n by simp
  show ?thesis unfolding assertBalancedLines_def Let_def td tc
    using un z by (simp add: throw_if_def x(1) e(1))
qed

theorem balance_check_is_exact_witness:
  "assertBalancedLines (map cents_side [(30, 0), (0, 10), (0, 20)]) = Inr (Fin (cents 30), Fin (cents 30))
   \<and> assertBalancedLines (map cents_side [(30, 0), (0, 10), (0, 19)]) = Inl TD_INV_1_UNBALANCED"
  using balance_check_is_exact [of "[(30, 0), (0, 10), (0, 20)]"] balance_check_is_exact [of "[(30, 0), (0, 10), (0, 19)]"] by simp

end
