(* ===== verification/SettlementInv.thy ===== *)
theory SettlementInv imports TreasuryOps TreasuryBalance
begin

section \<open>Settlements of receipts\<close>

text \<open>
  What the receipt settlements promise: a receipt is deposited at most up to its amount. The
  settled amount of a settlement is the sum of its live applications, or the receipt was closed
  unused. The operations of \<open>receiptSettlementRepository.ts\<close> are the only ones that write the two
  tables. Amounts are whole cents up to \<open>2 ^ 45\<close>, where the program's numbers are exact.
\<close>

subsection \<open>The checks in cents\<close>

lemma consumes_cents:
  assumes "\<bar>r\<bar> \<le> 2 ^ 46"
  shows "assertDepositConsumesUnsettled st (Fin (cents r)) = Inr u \<longleftrightarrow> 1 \<le> r \<and> st \<noteq> SETTLED"
proof -
  obtain e where e: "td_epsilon = Fin e" "8 / 1000 < e" "e < 92 / 10000" using td_epsilon_value by blast
  have c: "\<bar>100 * cents r - of_int r\<bar> \<le> 1 / 60" using cents_err [of r] assms by simp
  have "cents r \<le> e \<longleftrightarrow> r < 1"
  proof
    assume "cents r \<le> e"
    then have "of_int r < (1 :: rat)" using c e(3) unfolding abs_le_iff by linarith
    then show "r < 1" by linarith
  next
    assume "r < 1"
    then have "of_int r \<le> (0 :: rat)" by simp
    then show "cents r \<le> e" using c e(2) unfolding abs_le_iff by linarith
  qed
  moreover have "roundMoney (Fin (cents r)) = Fin (cents r)" using assms by simp
  ultimately show ?thesis by (cases st) (auto simp: assertDepositConsumesUnsettled_def and_then_Inr_iff e(1))
qed

lemma ceiling_cents:
  assumes "\<bar>k\<bar> \<le> 2 ^ 46" "\<bar>r\<bar> \<le> 2 ^ 46"
  shows "assertSettlementCeiling (Fin (cents k)) (Fin (cents r)) = Inr u \<longleftrightarrow> 1 \<le> k \<and> k \<le> r"
proof -
  obtain e where e: "td_epsilon = Fin e" "8 / 1000 < e" "e < 92 / 10000" using td_epsilon_value by blast
  obtain x where x: "jsub (Fin (cents k)) (Fin (cents r)) = Fin x" "\<bar>100 * x - of_int (k - r)\<bar> \<le> 1 / 15"
    using cents_sub_near [OF assms] by blast
  have "e < x \<longleftrightarrow> r < k"
  proof
    assume "e < x"
    then have "of_int (k - r) > (0 :: rat)" using x(2) e(2) unfolding abs_le_iff by linarith
    then show "r < k" by simp
  next
    assume "r < k"
    then have "of_int (k - r) \<ge> (1 :: rat)" by simp
    then show "e < x" using x(2) e(3) unfolding abs_le_iff by linarith
  qed
  moreover have "cents k \<le> 0 \<longleftrightarrow> k \<le> 0" using cents_le_iff [of k 0] assms by simp
  ultimately show ?thesis using assms by (auto simp: assertSettlementCeiling_def Let_def and_then_Inr_iff e(1) x(1))
qed

subsection \<open>Well-formed settlements\<close>

definition live_of :: "SettlementApplication list \<Rightarrow> string \<Rightarrow> SettlementApplication list" where
  "live_of as sid = filter (\<lambda>a. ra_settlementId a = sid \<and> \<not> ra_reversed a) as"

definition status_of :: "ReceiptSettlement \<Rightarrow> SettlementStatus" where
  "status_of s = (if rs_residual s = 0 then SETTLED else if rs_settled s = 0 then UNSETTLED else PARTIALLY_SETTLED)"

text \<open>A settlement that agrees with its applications, or was closed unused.\<close>

definition settled_by :: "SettlementApplication list \<Rightarrow> ReceiptSettlement \<Rightarrow> bool" where
  "settled_by as s \<longleftrightarrow> settlement_check s \<and> rat_cents (rs_originating s) \<and> rat_cents (rs_settled s) \<and> rs_status s = status_of s
     \<and> (rs_settled s = sum_list (map ra_amount (live_of as (rs_id s))) \<or> live_of as (rs_id s) = [] \<and> rs_residual s = 0)"

definition applications_ok :: "TreasuryDb \<Rightarrow> bool" where
  "applications_ok db \<longleftrightarrow> distinct (map ra_id (tr_applications db))
     \<and> distinct (map (\<lambda>a. (ra_documentId a, ra_settlementId a)) (tr_applications db))
     \<and> (\<forall>a \<in> set (tr_applications db). 0 < ra_amount a \<and> rat_cents (ra_amount a) \<and> ra_settlementId a \<in> rs_id ` set (tr_settlements db))"

definition settlements_ok :: "TreasuryDb \<Rightarrow> bool" where
  "settlements_ok db \<longleftrightarrow> distinct (map rs_id (tr_settlements db)) \<and> distinct (map source_key (tr_settlements db))
     \<and> (\<forall>s \<in> set (tr_settlements db). settled_by (tr_applications db) s) \<and> applications_ok db"

definition modest_settlements :: "TreasuryDb \<Rightarrow> bool" where
  "modest_settlements db \<longleftrightarrow> (\<forall>s \<in> set (tr_settlements db). rs_originating s \<le> 2 ^ 45 / 100)"

text \<open>The amounts of a settlement in cents.\<close>

lemma cents_small: "rat_cents q \<Longrightarrow> q \<le> 9 / 1000 \<longleftrightarrow> q \<le> 0"
proof -
  assume "rat_cents q"
  then obtain k where k: "q = of_int k / 100" by (auto simp: rat_cents_iff)
  have "k \<le> 0" if "of_int k \<le> (9 / 10 :: rat)"
  proof -
    have "of_int k < (1 :: rat)" using that by linarith
    then show ?thesis by simp
  qed
  then show ?thesis unfolding k by auto
qed

lemma rat_cents_diff: "rat_cents a \<Longrightarrow> rat_cents b \<Longrightarrow> rat_cents (a - b)"
  unfolding rat_cents_iff by (metis diff_divide_distrib of_int_diff)

lemma rat_cents_add: "rat_cents a \<Longrightarrow> rat_cents b \<Longrightarrow> rat_cents (a + b)"
  unfolding rat_cents_iff by (metis add_divide_distrib of_int_add)

lemma pg_round_rat_cents: "rat_cents q \<Longrightarrow> pg_round 2 q = q"
  unfolding rat_cents_iff by (elim exE) (simp only: pg_round_cents order_refl)

lemma rat_cents_0 [simp]: "rat_cents 0"
  unfolding rat_cents_iff by (intro exI [of _ 0]) simp

lemma check_residual:
  assumes "settlement_check s" "rat_cents (rs_originating s)" "rat_cents (rs_settled s)"
  shows "rat_cents (rs_residual s)" "0 \<le> rs_residual s" "rs_settled s \<le> rs_originating s" "0 \<le> rs_settled s" "0 < rs_originating s"
    "rs_residual s = rs_originating s - rs_settled s"
proof -
  show r: "rs_residual s = rs_originating s - rs_settled s" "0 \<le> rs_settled s" "0 < rs_originating s" using assms(1) by (simp_all add: settlement_check_def)
  then show c: "rat_cents (rs_residual s)" using assms(2,3) by (simp add: rat_cents_diff)
  have "- rs_residual s \<le> 9 / 1000" using assms(1) by (simp add: settlement_check_def)
  moreover have "rat_cents (- rs_residual s)" using rat_cents_diff [OF rat_cents_0 c] by simp
  ultimately show "0 \<le> rs_residual s" using cents_small by fastforce
  then show "rs_settled s \<le> rs_originating s" using r by simp
qed

lemma settled_cents:
  assumes "settled_by as s" "rs_originating s \<le> 2 ^ 45 / 100"
  obtains o' t where "rs_originating s = of_int o' / 100" "rs_settled s = of_int t / 100" "rs_residual s = of_int (o' - t) / 100"
    "0 \<le> t" "t \<le> o'" "o' \<le> 2 ^ 45"
proof -
  have c: "settlement_check s" "rat_cents (rs_originating s)" "rat_cents (rs_settled s)" using assms(1) by (simp_all add: settled_by_def)
  note r = check_residual [OF c]
  from c(2,3) obtain o' t where e: "rs_originating s = of_int o' / 100" "rs_settled s = of_int t / 100" by (auto simp: rat_cents_iff)
  have "rs_residual s = of_int (o' - t) / 100" using r(6) e by (simp add: diff_divide_distrib)
  moreover have "0 \<le> t" using r(4) unfolding e by simp
  moreover have "t \<le> o'" using r(3) unfolding e by (simp add: divide_le_cancel)
  moreover have "of_int o' / 100 \<le> (of_int (2 ^ 45) / 100 :: rat)" using assms(2) unfolding e by simp
  then have "o' \<le> 2 ^ 45" by (simp only: divide_le_cancel of_int_le_iff)
  ultimately show ?thesis using that e by blast
qed

subsection \<open>Synchronisation\<close>

lemma insert_settlement_ok:
  assumes "settlements_ok db" "insert_settlement gen type sid number amount date txn db = Inr db'"
  shows "settlements_ok db' \<and> tr_applications db' = tr_applications db"
proof -
  let ?s = "\<lparr>rs_id = gen (tr_seq db), rs_sourceType = type, rs_sourceId = sid, rs_sourceNumber = number,
               rs_originating = pg_round 2 amount, rs_settled = 0, rs_residual = pg_round 2 amount,
               rs_clearingAccountCode = ''1015'', rs_status = UNSETTLED, rs_paymentDate = date, rs_ledgerTransactionId = txn\<rparr>"
  from assms(2) consider "db' = db" | "source_key ?s \<notin> set (map source_key (tr_settlements db))" "settlement_check ?s"
      "gen (tr_seq db) \<notin> rs_id ` set (tr_settlements db)" "db' = db\<lparr>tr_settlements := tr_settlements db @ [?s], tr_seq := Suc (tr_seq db)\<rparr>"
    by (auto simp: insert_settlement_def Let_def and_then_Inr_iff split: if_splits)
  then show ?thesis
  proof cases
    case 2
    have n: "live_of (tr_applications db) (gen (tr_seq db)) = []"
      using assms(1) 2(3) unfolding live_of_def filter_empty_conv settlements_ok_def applications_ok_def by metis
    have "settled_by (tr_applications db) ?s"
      using 2(2) n by (simp add: settled_by_def status_of_def settlement_check_def pg_round_2_cents)
    then show ?thesis using assms(1) 2 by (auto simp: settlements_ok_def applications_ok_def)
  qed (use assms(1) in simp)
qed

lemma insert_settlements_ok:
  "settlements_ok db \<Longrightarrow> insert_settlements gen type cs db = Inr db' \<Longrightarrow> settlements_ok db' \<and> tr_applications db' = tr_applications db"
proof (induction gen type cs db rule: insert_settlements.induct)
  case (2 gen type sid number amount date txn rest db)
  then show ?case using insert_settlement_ok by (auto simp: and_then_Inr_iff) (metis+)
qed simp

lemma settlements_ok_map:
  assumes "settlements_ok db" "tr_settlements db' = map f (tr_settlements db)" "tr_applications db' = tr_applications db"
    and f: "\<And>s. rs_id (f s) = rs_id s \<and> source_key (f s) = source_key s"
    and s: "\<And>s. s \<in> set (tr_settlements db) \<Longrightarrow> settled_by (tr_applications db) s \<Longrightarrow> settled_by (tr_applications db) (f s)"
  shows "settlements_ok db'"
proof -
  have "map rs_id (tr_settlements db') = map rs_id (tr_settlements db)" "map source_key (tr_settlements db') = map source_key (tr_settlements db)"
    using f by (simp_all add: assms(2))
  moreover from this have "rs_id ` set (tr_settlements db') = rs_id ` set (tr_settlements db)" by (metis list.set_map)
  ultimately show ?thesis using assms(1) s by (auto simp: settlements_ok_def applications_ok_def assms(3)) (auto simp: assms(2))
qed

text \<open>A settlement of which nothing is settled has no live application.\<close>

lemma unsettled_untouched:
  assumes "settled_by as s" "\<forall>a \<in> set as. 0 < ra_amount a" "rs_settled s \<le> 9 / 1000"
  shows "rs_settled s = 0" "live_of as (rs_id s) = []" "0 < rs_residual s"
proof -
  have c: "settlement_check s" "rat_cents (rs_originating s)" "rat_cents (rs_settled s)" using assms(1) by (simp_all add: settled_by_def)
  note r = check_residual [OF c]
  show z: "rs_settled s = 0" using assms(3) cents_small [OF c(3)] r(4) by simp
  then show "0 < rs_residual s" using r(5,6) by simp
  then have "sum_list (map ra_amount (live_of as (rs_id s))) = 0" using assms(1) z by (simp add: settled_by_def)
  moreover have "\<forall>x \<in> set (map ra_amount (live_of as (rs_id s))). 0 < x" using assms(2) by (auto simp: live_of_def)
  ultimately show "live_of as (rs_id s) = []"
    by (metis less_irrefl list.map_disc_iff list.set_intros(1) neq_Nil_conv sum_list_nonneg_eq_0_iff order_less_imp_le)
qed

lemma close_reversed_ok: "settlements_ok db \<Longrightarrow> settlements_ok (close_reversed db)"
proof (rule settlements_ok_map)
  fix s assume "settlements_ok db" and s: "settled_by (tr_applications db) s"
  then have p: "\<forall>a \<in> set (tr_applications db). 0 < ra_amount a" by (simp add: settlements_ok_def applications_ok_def)
  show "settled_by (tr_applications db) (if rs_sourceType s = ''AR_CUSTOMER_PAYMENT''
        \<and> (\<exists>p \<in> set (tr_arPayments db). sr_id p = rs_sourceId s \<and> sr_status p = Some ''REVERSED'')
        \<and> 9 / 1000 < rs_residual s \<and> rs_settled s \<le> 9 / 1000
     then s\<lparr>rs_settled := rs_originating s, rs_residual := 0, rs_status := SETTLED\<rparr> else s)"
    using s unsettled_untouched [OF s p] by (auto simp: settled_by_def settlement_check_def status_of_def)
qed (auto simp: close_reversed_def source_key_def)

lemma align_all_ok: "settlements_ok db \<Longrightarrow> align_all db = Inr db' \<Longrightarrow> settlements_ok db'"
proof -
  assume ok: "settlements_ok db" and a: "align_all db = Inr db'"
  let ?f = "align_settlement (tr_ledger db)"
  have db': "db' = db\<lparr>tr_settlements := map ?f (tr_settlements db)\<rparr>" and c: "\<forall>s \<in> set (tr_settlements db). ?f s = s \<or> settlement_check (?f s)"
    using a by (auto simp: align_all_def Let_def split: if_splits)
  show ?thesis
  proof (rule settlements_ok_map [OF ok, of _ ?f])
    show "rs_id (?f s) = rs_id s \<and> source_key (?f s) = source_key s" for s
      by (auto simp: align_settlement_def source_key_def Let_def split: option.split)
    fix s assume s: "s \<in> set (tr_settlements db)" "settled_by (tr_applications db) s"
    have p: "\<forall>a \<in> set (tr_applications db). 0 < ra_amount a" using ok by (simp add: settlements_ok_def applications_ok_def)
    show "settled_by (tr_applications db) (?f s)"
    proof (cases "?f s = s")
      case False
      then have le: "rs_settled s \<le> 9 / 1000" by (auto simp: align_settlement_def split: if_splits)
      note u = unsettled_untouched [OF s(2) p le]
      from False obtain t cash where f: "?f s = s\<lparr>rs_originating := pg_round 2 cash, rs_residual := pg_round 2 (pg_round 2 cash - rs_settled s),
                 rs_ledgerTransactionId := Some (coalesce (rs_ledgerTransactionId s) t),
                 rs_status := (if pg_round 2 cash - rs_settled s \<le> 9 / 1000 then SETTLED
                               else if 9 / 1000 < rs_settled s then PARTIALLY_SETTLED else UNSETTLED)\<rparr>"
        by (auto simp: align_settlement_def Let_def split: if_splits option.splits)
      have k: "settlement_check (?f s)" using c s(1) False by blast
      have "0 < pg_round 2 cash" using k by (simp add: f settlement_check_def)
      then have "\<not> pg_round 2 cash \<le> 9 / 1000" using cents_small [OF pg_round_2_cents] by simp
      then show ?thesis using k u(1,2) s(2)
        by (simp add: settled_by_def status_of_def f pg_round_2_cents pg_round_rat_cents)
    qed (use s(2) in simp)
  qed (simp_all add: db')
qed

lemma sync_ok: "settlements_ok db \<Longrightarrow> syncReceiptSettlements gen db = Inr db' \<Longrightarrow> settlements_ok db'"
  unfolding syncReceiptSettlements_def and_then_Inr_iff using insert_settlements_ok close_reversed_ok align_all_ok by blast

subsection \<open>Applying\<close>

lemma find_settlement_in: "find_settlement type sid db = Some s \<Longrightarrow> s \<in> set (tr_settlements db) \<and> rs_sourceType s = type \<and> rs_sourceId s = sid"
  by (auto simp: find_settlement_def dest: find_Some_member)

lemma lockSettlement_ok:
  assumes "settlements_ok db" "lockSettlement gen type sid db = Inr (s, db')"
  shows "settlements_ok db' \<and> find_settlement type sid db' = Some s"
  using assms sync_ok by (auto simp: lockSettlement_def and_then_Inr_iff split: option.splits)

lemma same_settlement: "settlements_ok db \<Longrightarrow> x \<in> set (tr_settlements db) \<Longrightarrow> y \<in> set (tr_settlements db) \<Longrightarrow> rs_id x = rs_id y \<Longrightarrow> x = y"
  by (auto simp: settlements_ok_def distinct_map inj_on_def)

lemma update_settlement_Inr:
  "update_settlement i f db = Inr db' \<longleftrightarrow> db' = db\<lparr>tr_settlements := map (\<lambda>s. if rs_id s = i then f s else s) (tr_settlements db)\<rparr>
     \<and> (\<forall>s \<in> set (map (\<lambda>s. if rs_id s = i then f s else s) (tr_settlements db)). rs_id s = i \<longrightarrow> settlement_check s)"
  unfolding update_settlement_def Let_def by (auto split: if_splits)

lemma div_eq_100: "x / 100 = y / 100 \<longleftrightarrow> x = (y :: rat)"
  by simp

text \<open>An application that went through: between one cent and what is left, and taken over exactly.\<close>

lemma applySettlement_Inr:
  assumes ok: "settlements_ok db" and k: "\<bar>k\<bar> \<le> 2 ^ 46" and m: "modest_settlements db'"
    and ap: "applySettlement gen type sid (Fin (cents k)) docId lineId db = Inr db'"
  shows "\<exists>s db1. lockSettlement gen type sid db = Inr (s, db1) \<and> settlements_ok db1 \<and> s \<in> set (tr_settlements db1) \<and> rs_sourceType s = type \<and> rs_sourceId s = sid
     \<and> 1 \<le> k \<and> of_int k / 100 \<le> rs_residual s
     \<and> tr_settlements db' = map (\<lambda>x. if rs_id x = rs_id s then x\<lparr>rs_settled := rs_settled s + of_int k / 100,
          rs_residual := rs_residual s - of_int k / 100, rs_status := (if rs_residual s = of_int k / 100 then SETTLED else PARTIALLY_SETTLED)\<rparr> else x) (tr_settlements db1)
     \<and> (\<exists>i. i \<notin> ra_id ` set (tr_applications db1) \<and> (docId, rs_id s) \<notin> (\<lambda>a. (ra_documentId a, ra_settlementId a)) ` set (tr_applications db1)
          \<and> tr_applications db' = tr_applications db1 @ [\<lparr>ra_id = i, ra_settlementId = rs_id s, ra_documentId = docId,
            ra_lineId = lineId, ra_amount = of_int k / 100, ra_reversed = False\<rparr>])"
proof -
  from ap obtain s db1 where lock: "lockSettlement gen type sid db = Inr (s, db1)" and
    1: "assertDepositConsumesUnsettled (rs_status s) (num_of (rs_residual s)) = Inr ()" and
    2: "assertSettlementCeiling (Fin (cents k)) (num_of (rs_residual s)) = Inr ()" and
    3: "(let amount = roundMoney (Fin (cents k)); settled = roundMoney (jadd (num_of (rs_settled s)) amount);
         residual = roundMoney (jsub (num_of (rs_originating s)) settled) in
     and_then (money_column settled) (\<lambda>qs.
     and_then (money_column residual) (\<lambda>qr.
     and_then (money_column amount) (\<lambda>qa.
     and_then (update_settlement (rs_id s) (\<lambda>s. s\<lparr>rs_settled := qs, rs_residual := qr, rs_status := statusFor settled residual\<rparr>) db1) (\<lambda>db.
     insert_application gen (rs_id s) docId lineId qa db))))) = Inr db'"
    unfolding applySettlement_def by (auto simp: and_then_Inr_iff)
  from lockSettlement_ok [OF ok lock] have ok1: "settlements_ok db1" and s: "s \<in> set (tr_settlements db1)" "rs_sourceType s = type" "rs_sourceId s = sid"
    using find_settlement_in by blast+
  have sb: "settled_by (tr_applications db1) s" using ok1 s(1) by (simp add: settlements_ok_def)
  define settled where "settled = roundMoney (jadd (num_of (rs_settled s)) (roundMoney (Fin (cents k))))"
  define residual where "residual = roundMoney (jsub (num_of (rs_originating s)) settled)"
  from 3 obtain qs qr qa db2 where c: "money_column settled = Inr qs" "money_column residual = Inr qr" "money_column (roundMoney (Fin (cents k))) = Inr qa"
    and u: "update_settlement (rs_id s) (\<lambda>s. s\<lparr>rs_settled := qs, rs_residual := qr, rs_status := statusFor settled residual\<rparr>) db1 = Inr db2"
    and ins: "insert_application gen (rs_id s) docId lineId qa db2 = Inr db'"
    unfolding Let_def settled_def [symmetric] residual_def [symmetric] and_then_Inr_iff by blast
  let ?f = "\<lambda>x. if rs_id x = rs_id s then x\<lparr>rs_settled := qs, rs_residual := qr, rs_status := statusFor settled residual\<rparr> else x"
  have db': "tr_settlements db' = map ?f (tr_settlements db1)" using u ins by (auto simp: update_settlement_Inr insert_application_def and_then_Inr_iff)
  have "?f s \<in> set (tr_settlements db')" unfolding db' set_map by (rule imageI [OF s(1)])
  then have "rs_originating (?f s) \<le> 2 ^ 45 / 100" using m unfolding modest_settlements_def by blast
  then have "rs_originating s \<le> 2 ^ 45 / 100" by simp
  from settled_cents [OF sb this] obtain o' t where e: "rs_originating s = of_int o' / 100" "rs_settled s = of_int t / 100"
    "rs_residual s = of_int (o' - t) / 100" and b: "0 \<le> t" "t \<le> o'" "o' \<le> 2 ^ 45" .
  have b2: "\<bar>o'\<bar> \<le> 2 ^ 46" "\<bar>t\<bar> \<le> 2 ^ 46" "\<bar>o' - t\<bar> \<le> 2 ^ 46" "\<bar>o' - t\<bar> \<le> 2 ^ 47" "\<bar>o'\<bar> \<le> 2 ^ 47" "\<bar>t\<bar> \<le> 2 ^ 47" using b by simp_all
  have n: "num_of (rs_originating s) = Fin (cents o')" "num_of (rs_settled s) = Fin (cents t)" "num_of (rs_residual s) = Fin (cents (o' - t))"
    unfolding e by (rule num_of_cents, rule b2)+
  have "rs_status s \<noteq> SETTLED" using 1 b2(3) unfolding n by (simp add: consumes_cents)
  have k': "1 \<le> k" "k \<le> o' - t" using 2 ceiling_cents [OF k b2(3)] unfolding n by blast+
  have tk: "\<bar>t + k\<bar> \<le> 2 ^ 46" "\<bar>o' - (t + k)\<bar> \<le> 2 ^ 46" using b k' by simp_all
  have rk: "roundMoney (Fin (cents k)) = Fin (cents k)" using k by simp
  have st: "settled = Fin (cents (t + k))" unfolding settled_def n rk by (rule cents_add [OF b2(2) k])
  have re: "residual = Fin (cents (o' - (t + k)))" unfolding residual_def st n by (rule cents_sub [OF b2(1) tk(1)])
  have q: "qs = of_int (t + k) / 100" "qr = of_int (o' - (t + k)) / 100" "qa = of_int k / 100"
    using c money_column_cents [OF tk(1)] money_column_cents [OF tk(2)] money_column_cents [OF k] unfolding st re rk by simp_all
  have q': "qs = rs_settled s + of_int k / 100" "qr = rs_residual s - of_int k / 100"
    unfolding q e by (simp_all add: add_divide_distrib diff_divide_distrib)
  have stat: "statusFor settled residual = (if rs_residual s = of_int k / 100 then SETTLED else PARTIALLY_SETTLED)"
  proof -
    obtain \<epsilon> where ep: "td_epsilon = Fin \<epsilon>" "8 / 1000 < \<epsilon>" "\<epsilon> < 92 / 10000" using td_epsilon_value by blast
    have cr: "\<bar>100 * cents (o' - (t + k)) - of_int (o' - (t + k))\<bar> \<le> 1 / 60" "\<bar>100 * cents (t + k) - of_int (t + k)\<bar> \<le> 1 / 60"
      using cents_err [of "o' - (t + k)"] cents_err [of "t + k"] tk by simp_all
    have "cents (o' - (t + k)) \<le> \<epsilon> \<longleftrightarrow> o' - (t + k) = 0"
    proof
      assume "cents (o' - (t + k)) \<le> \<epsilon>"
      then have "of_int (o' - (t + k)) < (1 :: rat)" using cr(1) ep(3) unfolding abs_le_iff by linarith
      then show "o' - (t + k) = 0" using k'(2) by simp
    next
      assume "o' - (t + k) = 0"
      then show "cents (o' - (t + k)) \<le> \<epsilon>" using ep(2) by simp
    qed
    moreover have "\<epsilon> < cents (t + k)"
    proof -
      have "of_int (t + k) \<ge> (1 :: rat)" using b(1) k'(1) by simp
      then show ?thesis using cr(2) ep(3) unfolding abs_le_iff by linarith
    qed
    moreover have "o' - (t + k) = 0 \<longleftrightarrow> rs_residual s = of_int k / 100"
    proof -
      have "rs_residual s = of_int k / 100 \<longleftrightarrow> (of_int (o' - t) :: rat) = of_int k" unfolding e by (rule div_eq_100)
      also have "\<dots> \<longleftrightarrow> o' - t = k" by (rule of_int_eq_iff)
      finally show ?thesis by auto
    qed
    ultimately show ?thesis by (simp add: statusFor_def st re ep(1))
  qed
  have le: "of_int k / 100 \<le> rs_residual s" unfolding e using k'(2) by (intro divide_right_mono) (simp_all only: of_int_le_iff zero_le_numeral)
  have "\<exists>i. i \<notin> ra_id ` set (tr_applications db1) \<and> (docId, rs_id s) \<notin> (\<lambda>a. (ra_documentId a, ra_settlementId a)) ` set (tr_applications db1)
          \<and> tr_applications db' = tr_applications db1 @ [\<lparr>ra_id = i, ra_settlementId = rs_id s, ra_documentId = docId,
            ra_lineId = lineId, ra_amount = qa, ra_reversed = False\<rparr>]"
  proof (intro exI conjI)
    have d2: "tr_applications db2 = tr_applications db1" "tr_seq db2 = tr_seq db1" using u by (simp_all add: update_settlement_Inr)
    show "gen (tr_seq db1) \<notin> ra_id ` set (tr_applications db1)" using ins d2 by (simp add: insert_application_def and_then_Inr_iff)
    show "(docId, rs_id s) \<notin> (\<lambda>a. (ra_documentId a, ra_settlementId a)) ` set (tr_applications db1)"
      using ins d2 unfolding insert_application_def and_then_Inr_iff by force
    show "tr_applications db' = tr_applications db1 @ [\<lparr>ra_id = gen (tr_seq db1), ra_settlementId = rs_id s, ra_documentId = docId,
            ra_lineId = lineId, ra_amount = qa, ra_reversed = False\<rparr>]"
      using ins d2 by (auto simp: insert_application_def and_then_Inr_iff)
  qed
  moreover have "tr_settlements db' = map (\<lambda>x. if rs_id x = rs_id s then x\<lparr>rs_settled := rs_settled s + of_int k / 100,
          rs_residual := rs_residual s - of_int k / 100, rs_status := (if rs_residual s = of_int k / 100 then SETTLED else PARTIALLY_SETTLED)\<rparr> else x) (tr_settlements db1)"
    unfolding db' q' stat ..
  ultimately show ?thesis using lock ok1 s k'(1) le unfolding q(3) by blast
qed

lemma sum_live_append:
  "live_of (as @ [a]) sid = live_of as sid @ (if ra_settlementId a = sid \<and> \<not> ra_reversed a then [a] else [])"
  by (simp add: live_of_def)

lemma applySettlement_ok:
  assumes ok: "settlements_ok db" and k: "\<bar>k\<bar> \<le> 2 ^ 46" and m: "modest_settlements db'"
    and ap: "applySettlement gen type sid (Fin (cents k)) docId lineId db = Inr db'"
  shows "settlements_ok db'"
proof -
  from applySettlement_Inr [OF assms] obtain s db1 i where ok1: "settlements_ok db1" and s: "s \<in> set (tr_settlements db1)"
    and k': "1 \<le> k" "of_int k / 100 \<le> rs_residual s"
    and ss: "tr_settlements db' = map (\<lambda>x. if rs_id x = rs_id s then x\<lparr>rs_settled := rs_settled s + of_int k / 100,
          rs_residual := rs_residual s - of_int k / 100, rs_status := (if rs_residual s = of_int k / 100 then SETTLED else PARTIALLY_SETTLED)\<rparr> else x) (tr_settlements db1)"
    and i: "i \<notin> ra_id ` set (tr_applications db1)" "(docId, rs_id s) \<notin> (\<lambda>a. (ra_documentId a, ra_settlementId a)) ` set (tr_applications db1)"
    and as: "tr_applications db' = tr_applications db1 @ [\<lparr>ra_id = i, ra_settlementId = rs_id s, ra_documentId = docId,
            ra_lineId = lineId, ra_amount = of_int k / 100, ra_reversed = False\<rparr>]" by blast
  let ?a = "\<lparr>ra_id = i, ra_settlementId = rs_id s, ra_documentId = docId, ra_lineId = lineId, ra_amount = of_int k / 100, ra_reversed = False\<rparr>"
  let ?f = "\<lambda>x. if rs_id x = rs_id s then x\<lparr>rs_settled := rs_settled s + of_int k / 100,
          rs_residual := rs_residual s - of_int k / 100, rs_status := (if rs_residual s = of_int k / 100 then SETTLED else PARTIALLY_SETTLED)\<rparr> else x"
  have sb: "settled_by (tr_applications db1) s" using ok1 s by (simp add: settlements_ok_def)
  then have c: "settlement_check s" "rat_cents (rs_originating s)" "rat_cents (rs_settled s)" by (simp_all add: settled_by_def)
  note cr = check_residual [OF c]
  have kc: "rat_cents (of_int k / 100)" "(0 :: rat) < of_int k / 100" using k'(1) unfolding rat_cents_iff by auto
  have ids: "map rs_id (tr_settlements db') = map rs_id (tr_settlements db1)" "map source_key (tr_settlements db') = map source_key (tr_settlements db1)"
    by (simp_all add: ss source_key_def)
  then have idset: "rs_id ` set (tr_settlements db') = rs_id ` set (tr_settlements db1)" by (metis list.set_map)
  have "settled_by (tr_applications db') (?f x)" if x: "x \<in> set (tr_settlements db1)" for x
  proof (cases "rs_id x = rs_id s")
    case True
    then have xs: "x = s" using same_settlement [OF ok1 x s] by simp
    have "rs_settled s = sum_list (map ra_amount (live_of (tr_applications db1) (rs_id s)))"
      using sb k'(2) kc(2) by (auto simp: settled_by_def)
    then show ?thesis using c cr k'(2) kc rat_cents_add [OF c(3) kc(1)]
      by (simp add: xs settled_by_def as sum_live_append settlement_check_def status_of_def)
  next
    case False
    have "settled_by (tr_applications db1) x" using ok1 x by (simp add: settlements_ok_def)
    then show ?thesis using False by (simp add: settled_by_def as sum_live_append)
  qed
  moreover have "applications_ok db'"
    using ok1 i kc s unfolding settlements_ok_def applications_ok_def idset as by auto
  ultimately have "\<forall>y \<in> set (tr_settlements db'). settled_by (tr_applications db') y" "applications_ok db'"
    unfolding ss set_map by blast+
  then show ?thesis using ok1 unfolding settlements_ok_def ids by blast
qed

subsection \<open>Taking back\<close>

lemma live_marked:
  assumes "distinct (map ra_id as)" "a \<in> set as" "\<not> ra_reversed a"
  shows "sum_list (map ra_amount (live_of (map (\<lambda>x. if ra_id x = ra_id a then x\<lparr>ra_reversed := True\<rparr> else x) as) sid))
    = sum_list (map ra_amount (live_of as sid)) - (if ra_settlementId a = sid then ra_amount a else 0)"
    "ra_settlementId a \<noteq> sid \<Longrightarrow> live_of (map (\<lambda>x. if ra_id x = ra_id a then x\<lparr>ra_reversed := True\<rparr> else x) as) sid = live_of as sid"
proof -
  have uniq: "x = a" if "x \<in> set as" "ra_id x = ra_id a" for x using assms(1,2) that by (auto simp: distinct_map inj_on_def)
  let ?m = "\<lambda>x. if ra_id x = ra_id a then x\<lparr>ra_reversed := True\<rparr> else x"
  have l: "live_of (map ?m as) sid = filter (\<lambda>x. ra_id x \<noteq> ra_id a) (live_of as sid)"
    unfolding live_of_def by (induction as) auto
  show "ra_settlementId a \<noteq> sid \<Longrightarrow> live_of (map ?m as) sid = live_of as sid"
    unfolding l by (rule filter_True) (use uniq in \<open>auto simp: live_of_def\<close>)
  moreover have "sum_list (map ra_amount (filter (\<lambda>x. ra_id x \<noteq> ra_id a) (live_of as sid))) = sum_list (map ra_amount (live_of as sid)) - ra_amount a"
    if "ra_settlementId a = sid"
  proof -
    have "a \<in> set (live_of as sid)" "distinct (map ra_id (live_of as sid))"
      using assms that by (simp_all add: live_of_def distinct_map_filter)
    then show ?thesis by (intro sum_list_remove)
  qed
  ultimately show "sum_list (map ra_amount (live_of (map ?m as) sid)) = sum_list (map ra_amount (live_of as sid)) - (if ra_settlementId a = sid then ra_amount a else 0)"
    unfolding l by auto
qed

lemma num_of_amount:
  assumes "rat_cents q" "0 < q" "q \<le> 2 ^ 45 / 100"
  shows "money_column (roundMoney (num_of q)) = Inr q"
proof -
  from assms(1) obtain k where k: "q = of_int k / 100" by (auto simp: rat_cents_iff)
  have "0 < k" "k \<le> 2 ^ 45"
  proof -
    show "0 < k" using assms(2) unfolding k by simp
    have "of_int k / 100 \<le> (of_int (2 ^ 45) / 100 :: rat)" using assms(3) unfolding k by simp
    then show "k \<le> 2 ^ 45" by (simp only: divide_le_cancel of_int_le_iff)
  qed
  then have b: "\<bar>k\<bar> \<le> 2 ^ 46" "\<bar>k\<bar> \<le> 2 ^ 47" by simp_all
  have "num_of q = Fin (cents k)" unfolding k by (rule num_of_cents [OF b(2)])
  then show ?thesis using roundMoney_cents [OF b(2)] money_column_cents [OF b(1)] by (simp only: k)
qed

lemma member_le_live:
  assumes "\<forall>a \<in> set as. 0 < ra_amount a" "a \<in> set (live_of as sid)"
  shows "ra_amount a \<le> sum_list (map ra_amount (live_of as sid))"
  by (rule member_le_sum_list [of "ra_amount a"]) (use assms in \<open>auto simp: live_of_def intro: order_less_imp_le\<close>)

lemma release_one:
  assumes ok: "settlements_ok db" and m: "modest_settlements db" and a: "a \<in> set (tr_applications db)" "\<not> ra_reversed a"
    and q: "money_column (roundMoney (num_of (ra_amount a))) = Inr q" and u: "update_settlement (ra_settlementId a) (release_settlement q) db = Inr db1"
  shows "settlements_ok (mark_application (ra_id a) db1)" "modest_settlements (mark_application (ra_id a) db1)"
    "tr_applications (mark_application (ra_id a) db1) = map (\<lambda>x. if ra_id x = ra_id a then x\<lparr>ra_reversed := True\<rparr> else x) (tr_applications db)"
    "map (\<lambda>s. (rs_id s, rs_originating s, source_key s)) (tr_settlements (mark_application (ra_id a) db1)) = map (\<lambda>s. (rs_id s, rs_originating s, source_key s)) (tr_settlements db)"
proof -
  let ?as = "tr_applications db" and ?db' = "mark_application (ra_id a) db1"
  let ?m = "\<lambda>x. if ra_id x = ra_id a then x\<lparr>ra_reversed := True\<rparr> else x"
  let ?f = "\<lambda>s. if rs_id s = ra_settlementId a then release_settlement q s else s"
  have aok: "applications_ok db" using ok by (simp add: settlements_ok_def)
  then have ap: "0 < ra_amount a" "rat_cents (ra_amount a)" "distinct (map ra_id ?as)" "\<forall>a \<in> set ?as. 0 < ra_amount a"
    using a(1) by (auto simp: applications_ok_def)
  have db1: "tr_settlements ?db' = map ?f (tr_settlements db)" "tr_applications db1 = ?as"
    and chk: "\<forall>s \<in> set (tr_settlements ?db'). rs_id s = ra_settlementId a \<longrightarrow> settlement_check s"
    using u by (auto simp: update_settlement_Inr mark_application_def)
  show as: "tr_applications ?db' = map ?m ?as" using db1(2) by (simp add: mark_application_def)
  obtain s where s: "s \<in> set (tr_settlements db)" "rs_id s = ra_settlementId a" using aok a(1) by (auto simp: applications_ok_def)
  have sb: "settled_by ?as s" using ok s(1) by (simp add: settlements_ok_def)
  have al: "a \<in> set (live_of ?as (rs_id s))" using a s(2) by (simp add: live_of_def)
  then have tot: "rs_settled s = sum_list (map ra_amount (live_of ?as (rs_id s)))" using sb by (auto simp: settled_by_def)
  have c: "settlement_check s" "rat_cents (rs_originating s)" "rat_cents (rs_settled s)" using sb by (simp_all add: settled_by_def)
  note cr = check_residual [OF c]
  have amt: "ra_amount a \<le> rs_settled s" using member_le_live [OF ap(4) al] tot by simp
  have "ra_amount a \<le> 2 ^ 45 / 100" using amt cr(3) m s(1) by (force simp: modest_settlements_def)
  then have qa: "q = ra_amount a" using num_of_amount [OF ap(2,1)] q by simp
  have rel: "release_settlement q s = s\<lparr>rs_settled := rs_settled s - ra_amount a, rs_residual := rs_residual s + ra_amount a,
     rs_status := (if rs_settled s - ra_amount a = 0 then UNSETTLED else PARTIALLY_SETTLED)\<rparr>"
  proof -
    have r: "rat_cents (rs_settled s - ra_amount a)" "rat_cents (rs_residual s + ra_amount a)"
      using rat_cents_diff [OF c(3) ap(2)] rat_cents_add [OF cr(1) ap(2)] by simp_all
    have "\<not> rs_residual s + ra_amount a \<le> 9 / 1000" using cents_small [OF r(2)] cr(2) ap(1) by simp
    moreover have "rs_settled s - ra_amount a \<le> 9 / 1000 \<longleftrightarrow> rs_settled s - ra_amount a = 0" using cents_small [OF r(1)] amt by auto
    ultimately show ?thesis by (simp add: release_settlement_def qa pg_round_rat_cents r)
  qed
  have "settled_by (tr_applications ?db') (?f x)" if x: "x \<in> set (tr_settlements db)" for x
  proof (cases "rs_id x = ra_settlementId a")
    case True
    then have xs: "x = s" using same_settlement [OF ok x s(1)] s(2) by simp
    have "?f s \<in> set (tr_settlements ?db')" unfolding db1(1) set_map by (rule imageI [OF s(1)])
    then have "settlement_check (release_settlement q s)" using chk s(2) rel by fastforce
    then show ?thesis using s(2) cr ap c rat_cents_diff [OF c(3) ap(2)] tot
      by (simp add: xs rel settled_by_def as live_marked(1) [OF ap(3) a] status_of_def)
  next
    case False
    have "settled_by ?as x" using ok x by (simp add: settlements_ok_def)
    then show ?thesis using False live_marked(2) [OF ap(3) a, of "rs_id x"] by (simp add: settled_by_def as)
  qed
  then have all: "\<forall>y \<in> set (tr_settlements ?db'). settled_by (tr_applications ?db') y" unfolding db1(1) set_map by blast
  show keys: "map (\<lambda>s. (rs_id s, rs_originating s, source_key s)) (tr_settlements ?db') = map (\<lambda>s. (rs_id s, rs_originating s, source_key s)) (tr_settlements db)"
    by (simp add: db1(1) release_settlement_def source_key_def)
  have ids: "map rs_id (tr_settlements ?db') = map rs_id (tr_settlements db)" "map source_key (tr_settlements ?db') = map source_key (tr_settlements db)"
    by (simp_all add: db1(1) release_settlement_def source_key_def)
  then have idset: "rs_id ` set (tr_settlements ?db') = rs_id ` set (tr_settlements db)" by (metis list.set_map)
  have "map ra_id (tr_applications ?db') = map ra_id ?as" "map (\<lambda>a. (ra_documentId a, ra_settlementId a)) (tr_applications ?db') = map (\<lambda>a. (ra_documentId a, ra_settlementId a)) ?as"
    by (simp_all add: as)
  moreover have "\<forall>x \<in> set (tr_applications ?db'). 0 < ra_amount x \<and> rat_cents (ra_amount x) \<and> ra_settlementId x \<in> rs_id ` set (tr_settlements db)"
    using aok by (auto simp: as applications_ok_def)
  ultimately have "applications_ok ?db'" using aok unfolding applications_ok_def idset by simp
  with all show "settlements_ok ?db'" using ok unfolding settlements_ok_def ids by blast
  show "modest_settlements ?db'" using m by (auto simp: modest_settlements_def db1(1) release_settlement_def)
qed

lemma release_all_ok:
  assumes "release_all as db = Inr db'" "settlements_ok db" "modest_settlements db" "\<forall>a \<in> set as. a \<in> set (tr_applications db) \<and> \<not> ra_reversed a"
    and "distinct (map ra_id as)"
  shows "settlements_ok db' \<and> modest_settlements db'
    \<and> tr_applications db' = map (\<lambda>x. if ra_id x \<in> ra_id ` set as then x\<lparr>ra_reversed := True\<rparr> else x) (tr_applications db)"
  using assms
proof (induction as arbitrary: db)
  case (Cons a as)
  from Cons.prems(1) obtain q db1 where q: "money_column (roundMoney (num_of (ra_amount a))) = Inr q"
    and u: "update_settlement (ra_settlementId a) (release_settlement q) db = Inr db1" and rest: "release_all as (mark_application (ra_id a) db1) = Inr db'"
    by (auto simp: and_then_Inr_iff)
  have a: "a \<in> set (tr_applications db)" "\<not> ra_reversed a" using Cons.prems(4) by simp_all
  note o = release_one [OF Cons.prems(2,3) a q u]
  have "\<forall>b \<in> set as. b \<in> set (tr_applications (mark_application (ra_id a) db1)) \<and> \<not> ra_reversed b"
  proof
    fix b assume b: "b \<in> set as"
    then have "ra_id b \<noteq> ra_id a" using Cons.prems(5) by (metis distinct.simps(2) image_eqI list.set_map list.simps(9))
    moreover have bm: "b \<in> set (tr_applications db)" "\<not> ra_reversed b" using b Cons.prems(4) by simp_all
    ultimately have e: "(if ra_id b = ra_id a then b\<lparr>ra_reversed := True\<rparr> else b) = b" by simp
    show "b \<in> set (tr_applications (mark_application (ra_id a) db1)) \<and> \<not> ra_reversed b"
      using imageI [OF bm(1), of "\<lambda>x. if ra_id x = ra_id a then x\<lparr>ra_reversed := True\<rparr> else x"] bm(2) unfolding o(3) set_map e by blast
  qed
  moreover have "distinct (map ra_id as)" using Cons.prems(5) by simp
  ultimately have ih: "settlements_ok db' \<and> modest_settlements db' \<and> tr_applications db' = map (\<lambda>x. if ra_id x \<in> ra_id ` set as then x\<lparr>ra_reversed := True\<rparr> else x)
      (tr_applications (mark_application (ra_id a) db1))"
    using Cons.IH [OF rest o(1,2)] by blast
  moreover have "map (\<lambda>x. if ra_id x \<in> ra_id ` set as then x\<lparr>ra_reversed := True\<rparr> else x) (tr_applications (mark_application (ra_id a) db1))
      = map (\<lambda>x. if ra_id x \<in> ra_id ` set (a # as) then x\<lparr>ra_reversed := True\<rparr> else x) (tr_applications db)"
    unfolding o(3) by auto
  ultimately show ?case by simp
qed simp

lemma release_ok:
  assumes "reverseApplicationsForDocument docId db = Inr db'" "settlements_ok db" "modest_settlements db"
  shows "settlements_ok db'" "\<forall>a \<in> set (tr_applications db'). ra_documentId a = docId \<longrightarrow> ra_reversed a"
proof -
  let ?as = "filter (\<lambda>a. ra_documentId a = docId \<and> \<not> ra_reversed a) (tr_applications db)"
  have d: "distinct (map ra_id ?as)" using assms(2) by (simp add: settlements_ok_def applications_ok_def distinct_map_filter)
  have "release_all ?as db = Inr db'" using assms(1) by (simp add: reverseApplicationsForDocument_def)
  from release_all_ok [OF this assms(2,3) _ d] have r: "settlements_ok db'"
    "tr_applications db' = map (\<lambda>x. if ra_id x \<in> ra_id ` set ?as then x\<lparr>ra_reversed := True\<rparr> else x) (tr_applications db)" by auto
  show "settlements_ok db'" by (rule r(1))
  show "\<forall>a \<in> set (tr_applications db'). ra_documentId a = docId \<longrightarrow> ra_reversed a" unfolding r(2) by auto
qed

lemma void_ok:
  assumes "voidSettlementForReversedArPayment p db = Inr db'" "settlements_ok db"
  shows "settlements_ok db'"
proof -
  let ?rows = "filter (\<lambda>s. rs_sourceType s = ''AR_CUSTOMER_PAYMENT'' \<and> rs_sourceId s = p) (tr_settlements db)"
  show ?thesis
  proof (cases ?rows)
    case Nil
    then show ?thesis using assms by (simp add: voidSettlementForReversedArPayment_def Let_def and_then_Inr_iff)
  next
    case (Cons s rest)
    let ?f = "\<lambda>s. s\<lparr>rs_settled := rs_originating s, rs_residual := 0, rs_status := SETTLED\<rparr>"
    from assms(1) Cons have n: "live_applications (rs_id s) db = []" and u: "update_settlement (rs_id s) ?f db = Inr db'"
      by (auto simp: voidSettlementForReversedArPayment_def Let_def and_then_Inr_iff)
    have "s \<in> set ?rows" unfolding Cons by simp
    then have s: "s \<in> set (tr_settlements db)" by simp
    show ?thesis
    proof (rule settlements_ok_map [OF assms(2), of _ "\<lambda>x. if rs_id x = rs_id s then ?f x else x"])
      fix x assume x: "x \<in> set (tr_settlements db)" "settled_by (tr_applications db) x"
      show "settled_by (tr_applications db) (if rs_id x = rs_id s then ?f x else x)"
      proof (cases "rs_id x = rs_id s")
        case True
        have "live_of (tr_applications db) (rs_id x) = []" using n True by (simp add: live_of_def live_applications_def)
        then show ?thesis using x(2) True by (simp add: settled_by_def settlement_check_def status_of_def)
      qed (use x in simp)
    qed (use u in \<open>auto simp: update_settlement_Inr source_key_def\<close>)
  qed
qed

subsection \<open>Conservation\<close>

text \<open>The operations of the repository, an amount to apply in cents, and whatever leaves the two tables alone. The
  receipts stay below \<open>2 ^ 45\<close> cents.\<close>

inductive settlement_step :: "(nat \<Rightarrow> string) \<Rightarrow> TreasuryDb \<Rightarrow> TreasuryDb \<Rightarrow> bool" for gen where
  ss_sync: "syncReceiptSettlements gen db = Inr db' \<Longrightarrow> modest_settlements db' \<Longrightarrow> settlement_step gen db db'"
| ss_apply: "applySettlement gen type sid (Fin (cents k)) docId lineId db = Inr db' \<Longrightarrow> \<bar>k\<bar> \<le> 2 ^ 46
     \<Longrightarrow> modest_settlements db' \<Longrightarrow> settlement_step gen db db'"
| ss_release: "reverseApplicationsForDocument docId db = Inr db' \<Longrightarrow> modest_settlements db' \<Longrightarrow> settlement_step gen db db'"
| ss_void: "voidSettlementForReversedArPayment p db = Inr db' \<Longrightarrow> modest_settlements db' \<Longrightarrow> settlement_step gen db db'"
| ss_other: "tr_settlements db' = tr_settlements db \<Longrightarrow> tr_applications db' = tr_applications db \<Longrightarrow> settlement_step gen db db'"

lemma settlement_step_ok:
  assumes "settlements_ok db \<and> modest_settlements db" "settlement_step gen db db'"
  shows "settlements_ok db' \<and> modest_settlements db'"
  using assms(2)
proof cases
  case ss_sync
  then show ?thesis using sync_ok assms(1) by blast
next
  case (ss_apply type sid k docId lineId)
  then show ?thesis using applySettlement_ok assms(1) by blast
next
  case (ss_release docId)
  then show ?thesis using release_ok(1) assms(1) by blast
next
  case (ss_void p)
  then show ?thesis using void_ok assms(1) by blast
next
  case ss_other
  then show ?thesis using assms(1) by (simp add: settlements_ok_def modest_settlements_def applications_ok_def)
qed

interpretation settlements: step_invariant "settlement_step gen" "\<lambda>db. settlements_ok db \<and> modest_settlements db" for gen
  by unfold_locales (rule settlement_step_ok)

text \<open>C6. Receipts are conserved (receipts of at most \<open>2 ^ 45\<close> cents at the start). Along any sequence of operations every
  settlement splits its receipt exactly into what is settled and what is left, neither below zero; its status says
  which; the deposits in force that name it never exceed the receipt, and they add up to what is settled, except for
  a receipt with nothing left that no deposit in force names (one closed because its payment was reversed counts as
  settled without a deposit).\<close>

theorem receipts_are_conserved:
  assumes "settlements_ok db" "modest_settlements db" "(settlement_step gen)\<^sup>*\<^sup>* db db'" "s \<in> set (tr_settlements db')"
  shows "rs_settled s + rs_residual s = rs_originating s \<and> 0 \<le> rs_settled s \<and> 0 \<le> rs_residual s
    \<and> rs_status s = (if rs_residual s = 0 then SETTLED else if rs_settled s = 0 then UNSETTLED else PARTIALLY_SETTLED)
    \<and> sum_list (map ra_amount (live_applications (rs_id s) db')) \<le> rs_originating s
    \<and> (live_applications (rs_id s) db' \<noteq> [] \<or> rs_residual s \<noteq> 0 \<longrightarrow> rs_settled s = sum_list (map ra_amount (live_applications (rs_id s) db')))"
proof -
  have "settlements_ok db'" using settlements.reach_inv [OF assms(3)] assms(1,2) by blast
  then have sb: "settled_by (tr_applications db') s" using assms(4) by (simp add: settlements_ok_def)
  then have c: "settlement_check s" "rat_cents (rs_originating s)" "rat_cents (rs_settled s)" by (simp_all add: settled_by_def)
  note r = check_residual [OF c]
  have l: "live_of (tr_applications db') (rs_id s) = live_applications (rs_id s) db'" by (simp add: live_of_def live_applications_def)
  show ?thesis using sb r unfolding settled_by_def l by (auto simp: status_of_def)
qed

subsection \<open>A receipt named twice\<close>

definition settlement_keys :: "TreasuryDb \<Rightarrow> (string \<times> string \<times> string) list" where
  "settlement_keys db = map (\<lambda>s. (rs_sourceType s, rs_sourceId s, rs_id s)) (tr_settlements db)"

definition application_keys :: "TreasuryDb \<Rightarrow> (string \<times> string) set" where
  "application_keys db = (\<lambda>a. (ra_documentId a, ra_settlementId a)) ` set (tr_applications db)"

text \<open>Settlements keep their place and identity, applications their document and settlement.\<close>

definition keys_grow :: "TreasuryDb \<Rightarrow> TreasuryDb \<Rightarrow> bool" where
  "keys_grow db db' \<longleftrightarrow> (\<exists>new. settlement_keys db' = settlement_keys db @ new) \<and> application_keys db \<subseteq> application_keys db'"

lemma keys_grow_refl: "keys_grow db db"
  by (simp add: keys_grow_def)

lemma keys_grow_trans: "keys_grow a b \<Longrightarrow> keys_grow b c \<Longrightarrow> keys_grow a c"
  by (auto simp: keys_grow_def)

lemma insert_settlements_grow: "insert_settlements gen type cs db = Inr db' \<Longrightarrow> keys_grow db db'"
proof (induction gen type cs db rule: insert_settlements.induct)
  case (2 gen type sid number amount date txn rest db)
  from "2.prems" obtain db1 where 1: "insert_settlement gen type sid number amount date txn db = Inr db1" "insert_settlements gen type rest db1 = Inr db'"
    by (auto simp: and_then_Inr_iff)
  have "keys_grow db db1" using 1(1)
    by (auto simp: insert_settlement_def Let_def and_then_Inr_iff keys_grow_def settlement_keys_def application_keys_def split: if_splits)
  moreover have "keys_grow db1 db'" by (rule "2.IH" [OF 1(2)])
  ultimately show ?case by (rule keys_grow_trans)
qed (simp add: keys_grow_refl)

lemma keys_grow_map:
  assumes "tr_settlements db' = map f (tr_settlements db)" "tr_applications db' = tr_applications db"
    and "\<And>s. rs_sourceType (f s) = rs_sourceType s \<and> rs_sourceId (f s) = rs_sourceId s \<and> rs_id (f s) = rs_id s"
  shows "keys_grow db db'"
  using assms by (simp add: keys_grow_def settlement_keys_def application_keys_def comp_def)

lemma sync_grow: "syncReceiptSettlements gen db = Inr db' \<Longrightarrow> keys_grow db db'"
proof -
  have c: "keys_grow x (close_reversed x)" for x
    by (rule keys_grow_map [where f = "\<lambda>s. if rs_sourceType s = ''AR_CUSTOMER_PAYMENT''
        \<and> (\<exists>p \<in> set (tr_arPayments x). sr_id p = rs_sourceId s \<and> sr_status p = Some ''REVERSED'')
        \<and> 9 / 1000 < rs_residual s \<and> rs_settled s \<le> 9 / 1000
       then s\<lparr>rs_settled := rs_originating s, rs_residual := 0, rs_status := SETTLED\<rparr> else s"])
      (simp_all add: close_reversed_def)
  have a: "align_all x = Inr y \<Longrightarrow> keys_grow x y" for x y
    by (rule keys_grow_map [where f = "align_settlement (tr_ledger x)"])
      (auto simp: align_all_def align_settlement_def Let_def split: if_splits option.splits)
  show "syncReceiptSettlements gen db = Inr db' \<Longrightarrow> keys_grow db db'"
    unfolding syncReceiptSettlements_def and_then_Inr_iff
    by (elim exE conjE) (meson keys_grow_trans insert_settlements_grow a c)
qed

lemma find_mapped: "find P (map g xs) = map_option g (find (\<lambda>x. P (g x)) xs)"
  by (induction xs) simp_all

lemma find_settlement_id:
  "map_option rs_id (find_settlement type sid db) = map_option (snd \<circ> snd) (find (\<lambda>k. fst k = type \<and> fst (snd k) = sid) (settlement_keys db))"
  by (simp add: find_settlement_def settlement_keys_def find_mapped option.map_comp comp_def)

text \<open>A document has used the settlement of a source.\<close>

definition uses :: "string \<Rightarrow> string \<times> string \<Rightarrow> TreasuryDb \<Rightarrow> bool" where
  "uses docId src db \<longleftrightarrow> (\<exists>i. map_option rs_id (find_settlement (fst src) (snd src) db) = Some i \<and> (docId, i) \<in> application_keys db)"

lemma uses_grow: "uses docId src db \<Longrightarrow> keys_grow db db' \<Longrightarrow> uses docId src db'"
  unfolding uses_def find_settlement_id by (auto simp: keys_grow_def find_append split: option.split)

lemma applySettlement_uses:
  assumes "applySettlement gen type sid amount docId lineId db = Inr db'"
  shows "\<not> uses docId (type, sid) db" "uses docId (type, sid) db'" "keys_grow db db'"
proof -
  from assms obtain s db1 qs qr st qa db2 where lock: "lockSettlement gen type sid db = Inr (s, db1)"
    and u: "update_settlement (rs_id s) (\<lambda>s. s\<lparr>rs_settled := qs, rs_residual := qr, rs_status := st\<rparr>) db1 = Inr db2"
    and ins: "insert_application gen (rs_id s) docId lineId qa db2 = Inr db'"
    unfolding applySettlement_def Let_def and_then_Inr_iff by (auto simp: and_then_Inr_iff)
  have g1: "keys_grow db db1" and f1: "find_settlement type sid db1 = Some s"
    using lock sync_grow by (auto simp: lockSettlement_def and_then_Inr_iff keys_grow_refl split: option.splits)
  have g2: "keys_grow db1 db2" using u
    by (intro keys_grow_map [where f = "\<lambda>x. if rs_id x = rs_id s then x\<lparr>rs_settled := qs, rs_residual := qr, rs_status := st\<rparr> else x"])
      (auto simp: update_settlement_Inr)
  have k2: "settlement_keys db2 = settlement_keys db1" "application_keys db2 = application_keys db1"
    using u by (auto simp: update_settlement_Inr settlement_keys_def application_keys_def)
  have n: "(docId, rs_id s) \<notin> application_keys db2" and k3: "settlement_keys db' = settlement_keys db2"
    "application_keys db' = insert (docId, rs_id s) (application_keys db2)"
    using ins unfolding insert_application_def and_then_Inr_iff by (auto simp: settlement_keys_def application_keys_def image_iff)
  have g3: "keys_grow db2 db'" using k3 by (auto simp: keys_grow_def)
  have f: "map_option rs_id (find_settlement type sid x) = Some (rs_id s)" if "settlement_keys x = settlement_keys db1" for x
    using f1 find_settlement_id [of type sid x] find_settlement_id [of type sid db1] that by simp
  show "uses docId (type, sid) db'" using f [of db'] k2 k3 by (auto simp: uses_def)
  show "keys_grow db db'" using g1 g2 g3 by (blast intro: keys_grow_trans)
  show "\<not> uses docId (type, sid) db"
  proof
    assume "uses docId (type, sid) db"
    then have "uses docId (type, sid) db1" using g1 by (rule uses_grow)
    then show False using f [of db1] n k2 by (auto simp: uses_def)
  qed
qed

lemma apply_lines_distinct:
  "apply_lines gen docId ls db = Inr db' \<Longrightarrow> distinct (map line_source ls) \<and> (\<forall>l \<in> set ls. \<exists>src. line_source l = Some src \<and> \<not> uses docId src db)"
proof (induction gen docId ls db rule: apply_lines.induct)
  case (2 gen docId l rest db)
  from "2.prems" obtain type sid x db1 where src: "line_source l = Some (type, sid)"
    and ap: "applySettlement gen type sid x docId (Some (tl_id l)) db = Inr db1" and rest: "apply_lines gen docId rest db1 = Inr db'"
    by (auto simp: and_then_Inr_iff split: option.splits)
  note u = applySettlement_uses [OF ap]
  have ih: "distinct (map line_source rest) \<and> (\<forall>l \<in> set rest. \<exists>src. line_source l = Some src \<and> \<not> uses docId src db1)"
    using "2.IH" src rest ap by (simp add: and_then_Inr_iff)
  moreover have "Some (type, sid) \<notin> line_source ` set rest" using ih u(2) by force
  moreover have "\<not> uses docId s db" if "\<not> uses docId s db1" for s using that u(3) uses_grow by blast
  ultimately show ?case using src u(1) by auto
qed simp

text \<open>C13. A deposit worksheet two of whose receipt lines name the same receipt can be drafted, updated and submitted, but
  neither posting nor approving it ever succeeds: the second application of the receipt is refused,
  even when the first left enough on it.\<close>

theorem receipt_named_twice_never_posts:
  assumes "find_doc i db = Some r" "td_documentType r = DEPOSIT_WORKSHEET"
    and "\<not> distinct (map line_source (filter (\<lambda>l. tl_lineType l = RECEIPT_APPLICATION) (loadLines i db)))"
  shows "(\<exists>e. post_document D gen mode now i actor db = Inl e) \<and> (\<exists>e. approve D gen mode now i actor db = Inl e)"
proof -
  have id: "td_id r = i" using find_doc_id [OF assms(1)] by simp
  have "applySettlementsForDepositWorksheet gen (the_document r db) db \<noteq> Inr x" for x
    using assms(2,3) apply_lines_distinct
    by (auto simp: and_then_Inr_iff applySettlementsForDepositWorksheet_def id Let_def)
  then have "\<not> is_ok (postInternal D gen mode cl now (the_document r db) actor a db)" for cl a
    unfolding is_ok_iff postInternal_def and_then_Inr_iff by blast
  then have "\<not> is_ok (post_document D gen mode now i actor db)" "\<not> is_ok (approve D gen mode now i actor db)"
    unfolding is_ok_iff using assms(1) by (auto simp: post_document_def approve_def and_then_Inr_iff with_doc_Inr getById_document)
  then show ?thesis by (auto simp: is_ok_def split: sum.splits)
qed

end
