(* ===== verification/TreasurySample.thy ===== *)
theory TreasurySample imports SettlementInv
begin

section \<open>A treasury with a few documents\<close>

text \<open>
  Concrete tables: a posted transfer of 100.50 with its journal, a transfer that waits for approval, a
  draft worksheet that names one receipt twice, and that receipt. The theorems on the treasury are
  applied here.
\<close>

definition td_sample_gen :: "nat \<Rightarrow> string" where
  "td_sample_gen n = CHR ''t'' # replicate n CHR ''i''"

definition td_sample_header :: "string \<Rightarrow> string \<Rightarrow> TreasuryDocumentType \<Rightarrow> TreasuryDocumentStatus \<Rightarrow> bool \<Rightarrow> rat \<Rightarrow> rat DocumentHeader" where
  "td_sample_header i n ty st req q = \<lparr>td_id = i, td_documentNumber = n, td_documentType = ty, td_status = st, td_currencyCode = ''UGX'',
     td_transactionDate = ''2025-02-10'', td_postingDate = None, td_memo = None, td_totalAmount = q, td_overageAmount = 0, td_shortageAmount = 0,
     td_fromAccountCode = Some ''1030'', td_toAccountCode = Some ''1010'', td_bankAccountId = None, td_depositReference = None,
     td_requiresApproval = req, td_createdBy = ''u'', td_submittedAt = None, td_approvedBy = None, td_approvedAt = None, td_postedAt = None,
     td_journalEntryId = None, td_reversesDocumentId = None, td_reversedByDocumentId = None, td_rowVersion = 1\<rparr>"

definition td_sample_line :: "string \<Rightarrow> string \<Rightarrow> nat \<Rightarrow> TreasuryLineType \<Rightarrow> string \<Rightarrow> rat \<Rightarrow> rat \<Rightarrow> string option \<Rightarrow> rat DocumentLine" where
  "td_sample_line i doc n ty code d c m = \<lparr>tl_id = i, tl_documentId = doc, tl_lineNumber = n, tl_lineType = ty, tl_accountCode = code,
     tl_description = None, tl_debitAmount = d, tl_creditAmount = c, tl_amount = d + c, tl_sourceReceiptId = None, tl_sourcePaymentId = None,
     tl_sourceSessionMovementId = None, tl_memo = m\<rparr>"

definition td_sample_memo :: string where
  "td_sample_memo = ''AR_CUSTOMER_PAYMENT:00000000-0000-0000-0000-000000000001''"

definition td_sample_docs :: "rat DocumentHeader list" where
  "td_sample_docs =
    [td_sample_header ''d1'' ''TD-2025-00001'' TREASURY_TRANSFER TD_POSTED False (201 / 2)
       \<lparr>td_postedAt := Some ''2025-02-10T08:00'', td_postingDate := Some ''2025-02-10'', td_journalEntryId := Some ''t'', td_rowVersion := 2\<rparr>,
     td_sample_header ''d2'' ''TD-2025-00002'' TREASURY_TRANSFER TD_PENDING_APPROVAL True 20
       \<lparr>td_submittedAt := Some ''2025-02-10T09:00'', td_rowVersion := 2\<rparr>,
     td_sample_header ''d3'' ''TD-2025-00003'' DEPOSIT_WORKSHEET TD_DRAFT False 60]"

definition td_sample_lines :: "rat DocumentLine list" where
  "td_sample_lines =
    [td_sample_line ''l1'' ''d1'' 1 ACCOUNT_MOVE ''1010'' (201 / 2) 0 None, td_sample_line ''l2'' ''d1'' 2 ACCOUNT_MOVE ''1030'' 0 (201 / 2) None,
     td_sample_line ''l3'' ''d2'' 1 ACCOUNT_MOVE ''1010'' 20 0 None, td_sample_line ''l4'' ''d2'' 2 ACCOUNT_MOVE ''1030'' 0 20 None,
     td_sample_line ''l5'' ''d3'' 1 RECEIPT_APPLICATION ''1015'' 0 30 (Some td_sample_memo),
     td_sample_line ''l6'' ''d3'' 2 RECEIPT_APPLICATION ''1015'' 0 30 (Some td_sample_memo),
     td_sample_line ''l7'' ''d3'' 3 ACCOUNT_MOVE ''1030'' 60 0 None]"

definition td_sample_ledger :: LedgerDb where
  "td_sample_ledger = \<lparr>ld_accounts = [acct_sample_account ''a1'' ''1010'' NB_DEBIT (201 / 2), acct_sample_account ''a2'' ''1030'' NB_DEBIT (- 201 / 2)],
     ld_transactions = [acct_sample_txn\<lparr>lt_id := ''t'', lt_referenceType := ''TREASURY_DOCUMENT'', lt_referenceId := ''d1'',
       lt_referenceNumber := ''TD-2025-00001'', lt_idempotencyKey := Some ''TREASURY-POST-d1'', lt_postingSource := Some PS_TREASURY_TRANSFER\<rparr>],
     ld_entries = [acct_sample_entry ''ti'' ''t'' ''a1'' (201 / 2) 0 ''line'' 1 ''2025-02-10'', acct_sample_entry ''tii'' ''t'' ''a2'' 0 (201 / 2) ''line'' 2 ''2025-02-10''],
     ld_periods = acct_sample_periods, ld_periodBalances = [], ld_events = [], ld_audit = [], ld_supplierSyncs = [], ld_seq = 3\<rparr>"

definition td_sample_settlement :: ReceiptSettlement where
  "td_sample_settlement = \<lparr>rs_id = ''s1'', rs_sourceType = ''AR_CUSTOMER_PAYMENT'', rs_sourceId = ''00000000-0000-0000-0000-000000000001'',
     rs_sourceNumber = None, rs_originating = 100, rs_settled = 0, rs_residual = 100, rs_clearingAccountCode = ''1015'',
     rs_status = UNSETTLED, rs_paymentDate = Some ''2025-02-01'', rs_ledgerTransactionId = None\<rparr>"

definition td_sample_db :: TreasuryDb where
  "td_sample_db = \<lparr>tr_enabled = True, tr_documents = td_sample_docs, tr_lines = td_sample_lines, tr_audit = [],
     tr_settlements = [td_sample_settlement], tr_applications = [], tr_docSeq = 3, tr_seq = 10, tr_ledger = td_sample_ledger,
     tr_stamps = [(''t'', ''d1'')], tr_bankTransactions = [], tr_bankAccounts = [], tr_accountInfo = [], tr_arPayments = [],
     tr_customerDeposits = [], tr_invoicePayments = []\<rparr>"

lemmas td_sample_defs = td_sample_db_def td_sample_docs_def td_sample_lines_def td_sample_header_def td_sample_line_def
  td_sample_ledger_def td_sample_settlement_def acct_sample_account_def acct_sample_txn_def acct_sample_entry_def

lemma td_sample_gen_inj: "inj td_sample_gen"
  by (rule injI) (metis length_replicate td_sample_gen_def list.inject)

lemma td_sample_ledger_wf: "ledger_wf td_sample_gen td_sample_ledger"
proof -
  have "''t'' = td_sample_gen 0" by (simp add: td_sample_gen_def)
  then show ?thesis by (auto simp: ledger_wf_def accounts_ok_def ids_ok_def links_ok_def keys_ok_def reversal_ids_def td_sample_defs)
qed

lemma td_sample_rat_cents: "rat_cents (201 / 2)" "rat_cents 20" "rat_cents 30" "rat_cents 60" "rat_cents 100"
  unfolding rat_cents_iff by (rule exI [of _ 10050], simp, rule exI [of _ 2000], simp, rule exI [of _ 3000], simp, rule exI [of _ 6000], simp, rule exI [of _ 10000], simp)

lemma td_sample_numbers: "num_of (201 / 2) = Fin (cents 10050)" "num_of 0 = Fin 0" "num_of 20 = Fin (cents 2000)"
  using num_of_cents [of 10050] num_of_cents [of 0] num_of_cents [of 2000] by simp_all

lemma td_sample_docs_wf: "docs_wf td_sample_db"
proof -
  have o: "own_lines i td_sample_db = (if i = ''d1'' then take 2 td_sample_lines else if i = ''d2'' then take 2 (drop 2 td_sample_lines)
      else if i = ''d3'' then drop 4 td_sample_lines else [])" for i
    by (auto simp: own_lines_def td_sample_defs)
  have "\<forall>l \<in> set td_sample_lines. line_typed l"
    by (simp add: td_sample_lines_def td_sample_line_def line_typed_def line_check_def td_sample_rat_cents)
  moreover have "\<forall>r \<in> set td_sample_docs. lifecycle_ok r"
    by (simp add: td_sample_docs_def td_sample_header_def lifecycle_ok_def truthy_str_def)
  moreover have "map tl_lineNumber (own_lines i td_sample_db) = [1..<Suc (length (own_lines i td_sample_db))]" for i
    unfolding o by (simp add: td_sample_lines_def td_sample_line_def numeral_2_eq_2 numeral_3_eq_3)
  ultimately show ?thesis unfolding docs_wf_def by (simp add: td_sample_db_def) (simp add: td_sample_defs)
qed

lemma td_sample_linked: "linked rat_decimal td_sample_db"
proof -
  have o: "own_lines ''d1'' td_sample_db = take 2 td_sample_lines" by (simp add: own_lines_def td_sample_defs)
  have e: "own_entries ''t'' td_sample_ledger = ld_entries td_sample_ledger" by (simp add: own_entries_def td_sample_defs)
  have m: "modest_lines (take 2 td_sample_lines)" "\<forall>l \<in> set (take 2 td_sample_lines). line_typed l"
    by (simp_all add: modest_lines_def td_sample_lines_def td_sample_line_def line_typed_def line_check_def td_sample_rat_cents)
  have "total_debit (map amount_line (take 2 td_sample_lines)) = total_credit (map amount_line (take 2 td_sample_lines))"
    by (simp add: total_debit_def total_credit_def amount_line_def td_sample_lines_def td_sample_line_def td_sample_numbers)
  then have p: "postable rat_decimal (take 2 td_sample_lines)"
    using validateDoubleEntry_cents(1) [OF rat_decimal_exact modest_journal [OF m]]
    by (simp add: postable_def validateLineAmounts_def amount_line_def td_sample_lines_def td_sample_line_def td_sample_numbers)
  have n: "num_column (num_of (201 / 2)) = Inr (201 / 2)" "num_column (num_of 0) = Inr 0"
    using num_column_cents [of 10050] num_column_cents [of 0] by (simp_all add: td_sample_numbers)
  have t: "set (ld_transactions td_sample_ledger) = {hd (ld_transactions td_sample_ledger)}" by (simp add: td_sample_ledger_def)
  have j: "journal_of td_sample_db (hd td_sample_docs) (hd (ld_transactions td_sample_ledger))"
  proof -
    have "list_all2 (line_entry (codes td_sample_ledger)) (take 2 td_sample_lines) (ld_entries td_sample_ledger)"
      by (simp add: td_sample_lines_def td_sample_line_def td_sample_ledger_def line_entry_def n codes_def acct_sample_entry_def acct_sample_account_def)
    then show ?thesis using o e by (simp add: journal_of_def td_sample_db_def td_sample_docs_def td_sample_header_def) (simp add: td_sample_ledger_def acct_sample_txn_def)
  qed
  have h: "td_status (hd td_sample_docs) = TD_POSTED" "td_id (hd td_sample_docs) = ''d1''" "hd td_sample_docs \<in> set td_sample_docs"
    "\<forall>r \<in> set td_sample_docs. td_status r = TD_POSTED \<longrightarrow> r = hd td_sample_docs"
    by (simp_all add: td_sample_docs_def td_sample_header_def)
  have k: "lt_referenceType (hd (ld_transactions td_sample_ledger)) = ''TREASURY_DOCUMENT''"
    "lt_idempotencyKey (hd (ld_transactions td_sample_ledger)) = Some (''TREASURY-POST-'' @ lt_referenceId (hd (ld_transactions td_sample_ledger)))"
    by (simp_all add: td_sample_ledger_def)
  have d: "tr_documents td_sample_db = td_sample_docs" "tr_ledger td_sample_db = td_sample_ledger" by (simp_all add: td_sample_db_def)
  have "\<forall>r \<in> set td_sample_docs. td_status r = TD_POSTED \<longrightarrow> postable rat_decimal (own_lines (td_id r) td_sample_db)
        \<and> journal_of td_sample_db r (hd (ld_transactions td_sample_ledger))"
    using h(4) j p unfolding o [symmetric] h(2) [symmetric] by blast
  then show ?thesis unfolding linked_def d t using h(1,3) j k by blast
qed

lemma td_sample_ok: "treasury_ok rat_decimal td_sample_gen td_sample_db"
proof -
  have "tr_ledger td_sample_db = td_sample_ledger" by (simp add: td_sample_db_def)
  then show ?thesis using td_sample_ledger_wf td_sample_docs_wf td_sample_linked by (simp add: treasury_ok_def)
qed

lemma td_sample_settlements: "settlements_ok td_sample_db" "modest_settlements td_sample_db"
  by (simp_all add: settlements_ok_def applications_ok_def modest_settlements_def td_sample_db_def td_sample_settlement_def settled_by_def settlement_check_def
      status_of_def live_of_def td_sample_rat_cents)

text \<open>One step: the pending transfer is sent back.\<close>

definition td_sample_db1 :: TreasuryDb where
  "td_sample_db1 = insertAudit ''d2'' ''REJECTED'' ''v'' (clearApprovalOnReject ''d2'' td_sample_db)"

lemma td_sample_reject: "\<exists>d. reject ''d2'' ''v'' td_sample_db = Inr (d, td_sample_db1)"
  by (simp add: reject_def assertFeatureEnabled_def with_doc_def getById_def find_doc_def throw_if_def reload_def mapDocument_def
      td_sample_db1_def insertAudit_def clearApprovalOnReject_def update_doc_def td_sample_db_def td_sample_docs_def td_sample_header_def mapHeader_def)

lemma td_sample_steps: "(treasury_step rat_decimal td_sample_gen AR_off)\<^sup>*\<^sup>* td_sample_db td_sample_db1"
  using td_sample_reject ts_reject by blast

lemma td_sample_find: "find_doc ''d1'' td_sample_db = Some (td_sample_docs ! 0)" "find_doc ''d1'' td_sample_db1 = Some (td_sample_docs ! 0)"
  "find_doc ''d2'' td_sample_db = Some (td_sample_docs ! 1)" "find_doc ''d3'' td_sample_db = Some (td_sample_docs ! 2)"
  by (simp_all add: find_doc_def td_sample_db1_def insertAudit_def clearApprovalOnReject_def update_doc_def td_sample_db_def td_sample_docs_def td_sample_header_def)

subsection \<open>Reversal\<close>

definition td_sample_rv :: "rat DocumentHeader" where
  "td_sample_rv = (td_sample_header ''tiiiiiiiiii'' ''TD-2025-00004'' TREASURY_REVERSAL TD_DRAFT False (201 / 2))
     \<lparr>td_transactionDate := ''2025-02-11'', td_memo := Some ''Reversal of TD-2025-00001'', td_fromAccountCode := None,
      td_toAccountCode := None, td_reversesDocumentId := Some ''d1''\<rparr>"

definition td_sample_rv_db :: TreasuryDb where
  "td_sample_rv_db = td_sample_db\<lparr>tr_documents := td_sample_docs @ [td_sample_rv], tr_lines := td_sample_lines @
     [(td_sample_line ''tiiiiiiiiiii'' ''tiiiiiiiiii'' 1 ACCOUNT_MOVE ''1010'' 0 (201 / 2) None)\<lparr>tl_description := Some ''Reversal: 1010''\<rparr>,
      (td_sample_line ''tiiiiiiiiiiii'' ''tiiiiiiiiii'' 2 ACCOUNT_MOVE ''1030'' (201 / 2) 0 None)\<lparr>tl_description := Some ''Reversal: 1030''\<rparr>],
     tr_audit := [\<lparr>tau_documentId = ''tiiiiiiiiii'', tau_eventType = ''CREATED'', tau_actorUserId = ''u''\<rparr>], tr_docSeq := 4, tr_seq := 13\<rparr>"

lemma td_sample_create:
  "createDocument td_sample_gen ''2025-02-11T10:00'' (reversal_input ''2025-02-11T10:00'' (the_document (td_sample_docs ! 0) td_sample_db) ''u'' None) td_sample_db
     = Inr (the_document td_sample_rv td_sample_rv_db, td_sample_rv_db)"
proof -
  have n: "show_nat 4 = ''4''" "document_year ''2025-02-11T10:00'' ''2025-02-11'' = 2025" "show_int 2025 = ''2025''"
    "td_sample_gen 10 = ''tiiiiiiiiii''" "td_sample_gen 11 = ''tiiiiiiiiiii''" "td_sample_gen 12 = ''tiiiiiiiiiiii''" by code_simp+
  have c: "roundMoney (Fin 0) = Fin 0" "money_column (Fin 0) = Inr 0" "money_column (Fin (cents 10050)) = Inr (201 / 2)"
    "roundMoney (Fin (cents 10050)) = Fin (cents 10050)"
    using roundMoney_cents [of 0] money_column_0 money_column_cents [of 10050] by simp_all
  have a: "roundMoney (jadd (js_round_rat 0) (Fin (cents 10050))) = Fin (cents 10050)" by code_simp
  have o: "oppositeLines (the_document (td_sample_docs ! 0) td_sample_db) None = map (\<lambda>(code, d, c).
     \<lparr>li_lineType = Some ACCOUNT_MOVE, li_accountCode = code, li_description = Some (''Reversal: '' @ code),
      li_debitAmount = Some d, li_creditAmount = Some c, li_amount = None, li_sourceReceiptId = None, li_sourcePaymentId = None,
      li_sourceSessionMovementId = None, li_memo = None\<rparr>) [(''1010'', Fin 0, Fin (cents 10050)), (''1030'', Fin (cents 10050), Fin 0)]"
    by (simp add: oppositeLines_def loadLines_def lines_of_def td_sample_db_def td_sample_docs_def td_sample_header_def td_sample_lines_def
        td_sample_line_def mapLine_def td_sample_numbers str_or_def)
  let ?li = "\<lambda>code text d c. \<lparr>li_lineType = Some ACCOUNT_MOVE, li_accountCode = code, li_description = Some text,
      li_debitAmount = Some d, li_creditAmount = Some c, li_amount = None, li_sourceReceiptId = None, li_sourcePaymentId = None,
      li_sourceSessionMovementId = None, li_memo = None\<rparr> :: TreasuryDocumentLineInput"
  have am: "normalizeLineAmounts (?li ''1010'' ''Reversal: 1010'' (Fin 0) (Fin (cents 10050))) = Inr \<lparr>na_debitAmount = Fin 0, na_creditAmount = Fin (cents 10050), na_amount = Fin (cents 10050)\<rparr>"
    "normalizeLineAmounts (?li ''1030'' ''Reversal: 1030'' (Fin (cents 10050)) (Fin 0)) = Inr \<lparr>na_debitAmount = Fin (cents 10050), na_creditAmount = Fin 0, na_amount = Fin (cents 10050)\<rparr>"
    by code_simp+
  define inp where "inp = reversal_input ''2025-02-11T10:00'' (the_document (td_sample_docs ! 0) td_sample_db) ''u'' None"
  have i: "ci_overageAmount inp = None" "ci_shortageAmount inp = None" "ci_documentType inp = TREASURY_REVERSAL" "ci_transactionDate inp = ''2025-02-11''"
    "ci_currencyCode inp = Some ''UGX''" "ci_memo inp = Some ''Reversal of TD-2025-00001''" "ci_fromAccountCode inp = None" "ci_toAccountCode inp = None"
    "ci_bankAccountId inp = None" "ci_depositReference inp = None" "ci_requiresApproval inp = Some False" "ci_createdBy inp = ''u''"
    "ci_reversesDocumentId inp = Some ''d1''" "ci_lines inp = [?li ''1010'' ''Reversal: 1010'' (Fin 0) (Fin (cents 10050)), ?li ''1030'' ''Reversal: 1030'' (Fin (cents 10050)) (Fin 0)]"
    unfolding inp_def reversal_input_def Let_def o
    by (simp_all add: td_sample_docs_def td_sample_header_def str_or_def mapHeader_def truthy_str_def)
  have w: "filter (\<lambda>l. tl_documentId l \<noteq> ''tiiiiiiiiii'') td_sample_lines = td_sample_lines" "''tiiiiiiiiiii'' \<notin> tl_id ` {x \<in> set td_sample_lines. tl_documentId x \<noteq> ''tiiiiiiiiii''}"
    "''tiiiiiiiiiiii'' \<notin> tl_id ` {x \<in> set td_sample_lines. tl_documentId x \<noteq> ''tiiiiiiiiii''}" "replicate 4 CHR ''0'' @ ''4'' = ''00004''"
    by (auto simp: td_sample_lines_def td_sample_line_def numeral_eq_Suc)
  show ?thesis unfolding inp_def [symmetric]
    by (simp add: w numeral_2_eq_2 the_document_def createDocument_def nextDocumentNumber_def new_document_def i n c a am replaceLines_def new_line_def line_check_def throw_if_def reload_def
        getById_def find_doc_def insertAudit_def update_doc_def td_sample_db_def Let_def
        td_sample_rv_db_def td_sample_rv_def td_sample_docs_def td_sample_line_def td_sample_header_def)
qed

lemma create_succeeds:
  assumes "de_isValid (validateDoubleEntry D (je_lines rq))" "\<forall>l \<in> set (je_lines rq). validateLineAmounts l" "governance_check mode rq db = Inr ()"
    "checkIdempotencyKey db (je_idempotencyKey rq) = None" "existing_posting D rq cdb db = None" "isPeriodOpen db (je_entryDate rq)"
    "num_column (de_totalDebits (validateDoubleEntry D (je_lines rq))) = Inr debit" "num_column (de_totalCredits (validateDoubleEntry D (je_lines rq))) = Inr credit"
    "insert_transaction (new_transaction rq (gen (ld_seq db)) (txn_number (next_txn_number db)) debit credit) (db\<lparr>ld_seq := Suc (ld_seq db)\<rparr>) = Inr db0"
    "write_lines D gen tx rq (gen (ld_seq db)) 1 (je_lines rq) db0 = Inr x" "\<not> has_NaN (je_lines rq)"
    "assertWrittenJournalMatchesHeader (gen (ld_seq db)) (snd x) = Inr ()"
  shows "\<exists>r l. createJournalEntry D gen mode tx cdb rq db = Inr (r, l) \<and> jr_transactionId r = gen (ld_seq db)"
proof -
  have e: "each_ok (\<lambda>l. throw_if (\<not> validateLineAmounts l) INVALID_LINE_AMOUNTS) (je_lines rq) = Inr ()"
    using assms(2) each_ok_iff [of "\<lambda>l. throw_if (\<not> validateLineAmounts l) INVALID_LINE_AMOUNTS" "je_lines rq"] by (auto simp: is_ok_iff)
  have "\<exists>r l. post_journal D gen tx rq db = Inr (r, l) \<and> jr_transactionId r = gen (ld_seq db)"
    unfolding post_journal_def Let_def using assms(6-12) by (cases x) (simp add: throw_if_def)
  then show ?thesis unfolding createJournalEntry_def using assms(1,3-5) e by (simp add: throw_if_def)
qed

definition td_sample_rq :: JournalEntryRequest where
  "td_sample_rq = \<lparr>je_entryDate = ''2025-02-11'', je_description = ''Reversal of TD-2025-00001'', je_referenceType = ''TREASURY_DOCUMENT'',
     je_referenceId = ''tiiiiiiiiii'', je_referenceNumber = ''TD-2025-00004'',
     je_lines = [(acct_sample_line ''1010'' 0 10050)\<lparr>jl_description := ''Reversal: 1010''\<rparr>, (acct_sample_line ''1030'' 10050 0)\<lparr>jl_description := ''Reversal: 1030''\<rparr>],
     je_userId = ''u'', je_idempotencyKey = ''TREASURY-POST-tiiiiiiiiii'', je_source = Some PS_TREASURY_REVERSAL\<rparr>"

lemma td_sample_request: "journal_request (the_document td_sample_rv td_sample_rv_db) text ''u'' = td_sample_rq"
  by code_simp

definition td_sample_ledger0 :: LedgerDb where
  "td_sample_ledger0 = td_sample_ledger\<lparr>ld_seq := 4, ld_transactions := ld_transactions td_sample_ledger @
     [new_transaction td_sample_rq ''tiii'' ''TXN-000002'' (201 / 2) (201 / 2)]\<rparr>"

definition td_sample_written :: "string list \<times> LedgerDb" where
  "td_sample_written = ([''a1'', ''a2''], td_sample_ledger0\<lparr>ld_seq := 6,
     ld_accounts := [acct_sample_account ''a1'' ''1010'' NB_DEBIT 0, acct_sample_account ''a2'' ''1030'' NB_DEBIT 0],
     ld_entries := ld_entries td_sample_ledger @
       [acct_sample_entry ''tiiii'' ''tiii'' ''a1'' 0 (201 / 2) ''Reversal: 1010'' 1 ''2025-02-11'',
        acct_sample_entry ''tiiiii'' ''tiii'' ''a2'' (201 / 2) 0 ''Reversal: 1030'' 2 ''2025-02-11'']\<rparr>)"

lemma td_sample_checks:
  "de_isValid (validateDoubleEntry rat_decimal (je_lines td_sample_rq))" "\<forall>l \<in> set (je_lines td_sample_rq). validateLineAmounts l"
  "governance_check AR_off td_sample_rq td_sample_ledger = Inr ()"
  "num_column (de_totalDebits (validateDoubleEntry rat_decimal (je_lines td_sample_rq))) = Inr (201 / 2)"
  "num_column (de_totalCredits (validateDoubleEntry rat_decimal (je_lines td_sample_rq))) = Inr (201 / 2)"
  "isPeriodOpen td_sample_ledger (je_entryDate td_sample_rq)" "\<not> has_NaN (je_lines td_sample_rq)"
  "txn_number (next_txn_number td_sample_ledger) = ''TXN-000002''"
  by code_simp+

lemma td_sample_write: "write_lines rat_decimal td_sample_gen True td_sample_rq ''tiii'' 1 (je_lines td_sample_rq) td_sample_ledger0 = Inr td_sample_written"
proof -
  have c: "num_column (Fin (cents 10050)) = Inr (201 / 2)" "num_column (Fin 0) = Inr 0"
    using num_column_cents [of 10050] num_column_cents [of 0] by simp_all
  have b: "balance_change rat_decimal NB_DEBIT ((acct_sample_line ''1010'' 0 10050)\<lparr>jl_description := ''Reversal: 1010''\<rparr>) = Fin (- cents 10050)"
    "balance_change rat_decimal NB_DEBIT ((acct_sample_line ''1030'' 10050 0)\<lparr>jl_description := ''Reversal: 1030''\<rparr>) = Fin (cents 10050)"
    by code_simp+
  have j: "js_decimal (cents 10050) = 201 / 2" "js_decimal (- cents 10050) = - 201 / 2" "numeric_18_6 0 = Inr 0"
    using js_decimal_cents [of 10050] js_decimal_cents [of "- 10050"] numeric_18_6_cents [of 0] by (simp_all add: cents_minus)
  have g: "td_sample_gen 4 = ''tiiii''" "td_sample_gen 5 = ''tiiiii''" by code_simp+
  show ?thesis
    by (simp add: td_sample_rq_def td_sample_ledger0_def td_sample_written_def td_sample_ledger_def write_entry_def acct_sample_account_def
        acct_sample_line_def update_account_def Let_def c b [unfolded acct_sample_line_def, simplified] j g acct_sample_entry_def or_null_def truthy_str_def)
qed

lemma td_sample_match: "assertWrittenJournalMatchesHeader ''tiii'' (snd td_sample_written) = Inr ()"
  by (simp add: assertWrittenJournalMatchesHeader_def find_txn_def td_sample_written_def td_sample_ledger0_def td_sample_ledger_def new_transaction_def
      acct_sample_entry_def acct_sample_txn_def throw_if_def)

lemma td_sample_none: "checkIdempotencyKey td_sample_ledger (je_idempotencyKey td_sample_rq) = None"
  "existing_posting rat_decimal td_sample_rq td_sample_ledger td_sample_ledger = None"
  by (simp_all add: checkIdempotencyKey_def existing_posting_def existing_by_reference_def td_sample_ledger_def td_sample_rq_def acct_sample_txn_def)

lemma td_sample_inserted:
  "insert_transaction (new_transaction td_sample_rq ''tiii'' ''TXN-000002'' (201 / 2) (201 / 2)) (td_sample_ledger\<lparr>ld_seq := 4\<rparr>) = Inr td_sample_ledger0"
  by (simp add: insert_transaction_def key_fits_def td_sample_ledger0_def td_sample_ledger_def new_transaction_def td_sample_rq_def acct_sample_txn_def or_null_def truthy_str_def)

lemma td_sample_journal:
  "\<exists>k l. createJournalEntry rat_decimal td_sample_gen AR_off True td_sample_ledger td_sample_rq td_sample_ledger = Inr (k, l) \<and> jr_transactionId k = ''tiii''"
proof -
  have g: "td_sample_gen (ld_seq td_sample_ledger) = ''tiii''" "Suc (ld_seq td_sample_ledger) = 4" by (simp_all add: td_sample_gen_def td_sample_ledger_def numeral_3_eq_3)
  have i: "insert_transaction (new_transaction td_sample_rq (td_sample_gen (ld_seq td_sample_ledger)) (txn_number (next_txn_number td_sample_ledger)) (201 / 2) (201 / 2))
      (td_sample_ledger\<lparr>ld_seq := Suc (ld_seq td_sample_ledger)\<rparr>) = Inr td_sample_ledger0"
    unfolding g td_sample_checks by (rule td_sample_inserted)
  have w: "write_lines rat_decimal td_sample_gen True td_sample_rq (td_sample_gen (ld_seq td_sample_ledger)) 1 (je_lines td_sample_rq) td_sample_ledger0 = Inr td_sample_written"
    "assertWrittenJournalMatchesHeader (td_sample_gen (ld_seq td_sample_ledger)) (snd td_sample_written) = Inr ()"
    unfolding g by (rule td_sample_write td_sample_match)+
  show ?thesis using create_succeeds [OF td_sample_checks(1-3) td_sample_none td_sample_checks(6,4,5) i w(1) td_sample_checks(7) w(2)] unfolding g .
qed

lemma finish_succeeds:
  assumes "find_doc i db = Some r" "td_createdBy r \<noteq> []" "\<not> td_requiresApproval r" "truthy_str (sp_postedAt p)" "truthy_str (sp_journalEntryId p)"
  shows "\<exists>d db'. finish_post (the_document r db) p event actor k l db = Inr (d, db') \<and> td_id (doc_header d) = i"
proof -
  have i: "td_id r = i" using find_doc_id [OF assms(1)] by simp
  let ?db = "insertAudit i event actor (setStatus i p (stampLedgerTreasuryDocument (jr_transactionId k) i (db\<lparr>tr_ledger := l\<rparr>)))"
  have f: "find_doc i ?db = Some (patch_row p r)" using assms(1) i by (simp add: find_doc_setStatus)
  then have g: "getById i ?db = Some (the_document (patch_row p r) ?db)" by (simp add: getById_document)
  have "or_keep (sp_postedAt p) x = sp_postedAt p" "or_keep (sp_journalEntryId p) x = sp_journalEntryId p" for x
    using assms(4,5) by (auto simp: or_keep_def truthy_str_def split: option.splits)
  then have "audit_fields_ok (the_document (patch_row p r) ?db) = Inr ()"
    using assms(2-5) by (simp add: audit_fields_ok_def assertPostedAuditFields_def Let_def patch_row_def throw_if_def truthy_str_def)
  then show ?thesis using g i f find_doc_id [OF f] unfolding finish_post_Inr by (simp add: Let_def)
qed

lemma td_sample_reversal:
  "\<exists>ds db'. reverse_document rat_decimal td_sample_gen AR_off ''2025-02-11T10:00'' ''d1'' ''u'' None td_sample_db = Inr (ds, db')"
proof -
  let ?now = "''2025-02-11T10:00''" and ?o = "the_document (td_sample_docs ! 0) td_sample_db" and ?rv = "the_document td_sample_rv td_sample_rv_db"
  have g: "getById ''d1'' td_sample_db = Some ?o" using td_sample_find(1) by (simp add: getById_document)
  have c: "check_reverse ?o td_sample_db = Inr ''t''" "releaseSettlementsForDepositWorksheet ?o td_sample_db = Inr td_sample_db"
    by (simp_all add: check_reverse_def releaseSettlementsForDepositWorksheet_def Let_def throw_if_def td_sample_docs_def td_sample_header_def
        truthy_str_def linked_legs_def td_sample_db_def)
  have rv: "td_documentType td_sample_rv = TREASURY_REVERSAL" "td_status td_sample_rv = TD_DRAFT" "\<not> td_requiresApproval td_sample_rv"
    "td_createdBy td_sample_rv \<noteq> []" "td_id td_sample_rv = ''tiiiiiiiiii''" by (simp_all add: td_sample_rv_def td_sample_header_def)
  have f: "find_doc ''tiiiiiiiiii'' td_sample_rv_db = Some td_sample_rv" "find_doc ''d1'' td_sample_rv_db = Some (td_sample_docs ! 0)"
    by (simp_all add: find_doc_def td_sample_rv_db_def td_sample_docs_def td_sample_rv_def td_sample_header_def)
  have b: "check_post ?rv False = Inr ()" by code_simp
  have l: "tr_ledger td_sample_db = td_sample_ledger" "tr_ledger td_sample_rv_db = td_sample_ledger" "tr_enabled td_sample_db"
    by (simp_all add: td_sample_db_def td_sample_rv_db_def)
  from td_sample_journal obtain k l' where k: "createJournalEntry rat_decimal td_sample_gen AR_off True td_sample_ledger td_sample_rq td_sample_ledger = Inr (k, l')"
    "jr_transactionId k = ''tiii''" by blast
  let ?p = "posted_patch ?rv False ?now ''u'' (jr_transactionId k)"
  have "truthy_str (sp_postedAt ?p)" "truthy_str (sp_journalEntryId ?p)" using k(2) by (simp_all add: posted_patch_def Let_def truthy_str_def)
  from finish_succeeds [OF f(1) rv(4,3) this] obtain d db3 where fin: "finish_post ?rv ?p ''POSTED'' ''u'' k l' td_sample_rv_db = Inr (d, db3)"
    "td_id (doc_header d) = ''tiiiiiiiiii''" by blast
  have p: "postInternal rat_decimal td_sample_gen AR_off td_sample_ledger ?now ?rv ''u'' False td_sample_rv_db = Inr (d, db3)"
    using b rv k(1) fin(1) l by (simp add: postInternal_def applySettlementsForDepositWorksheet_def td_sample_request)
  from postInternal_find [OF p f(1), of "''d1''"] f(2) have f3: "find_doc ''d1'' db3 = Some (td_sample_docs ! 0)"
    by (simp add: rv td_sample_docs_def td_sample_header_def)
  let ?db = "insertAudit ''d1'' ''REVERSED_BY'' ''u'' (setStatus ''d1'' ((patch_of TD_POSTED)\<lparr>sp_reversedByDocumentId := Some (td_id (doc_header d))\<rparr>) db3)"
  have "\<exists>x. find_doc ''d1'' (reverse_legs ''t'' ?db) = Some x" using f3
    by (simp add: reverse_legs_def find_doc_def) (simp add: find_doc_setStatus [unfolded find_doc_def])
  then obtain q where "getById ''d1'' (reverse_legs ''t'' ?db) = Some q" by (auto simp: getById_document)
  then show ?thesis using g c p l td_sample_create
    by (simp add: reverse_document_def assertFeatureEnabled_def throw_if_def with_doc_def reload_def)
qed

lemma td_sample_modest: "modest_lines (lines_of ''d1'' td_sample_db)"
proof -
  have "own_lines ''d1'' td_sample_db = take 2 td_sample_lines" by (simp add: own_lines_def td_sample_defs)
  then show ?thesis using lines_of_wf [OF td_sample_docs_wf, of "''d1''"] by (simp add: modest_lines_def td_sample_lines_def td_sample_line_def td_sample_rat_cents)
qed

subsection \<open>The theorems at work\<close>

theorem document_lifecycle_witness:
  "td_journalEntryId (td_sample_docs ! 0) = Some ''t'' \<and> td_postingDate (td_sample_docs ! 0) = Some (take 10 (td_transactionDate (td_sample_docs ! 0)))"
proof -
  have r: "td_sample_docs ! 0 \<in> set (tr_documents td_sample_db1)" using find_doc_id [OF td_sample_find(2)] by simp
  have "td_status (td_sample_docs ! 0) = TD_POSTED" "td_journalEntryId (td_sample_docs ! 0) = Some ''t''" by (simp_all add: td_sample_docs_def td_sample_header_def)
  then show ?thesis using document_lifecycle [OF td_sample_docs_wf td_sample_steps r] by blast
qed

theorem stored_lines_typed_witness: "map tl_lineNumber (lines_of ''d3'' td_sample_db1) = [1, 2, 3]"
proof -
  have l: "length (lines_of ''d3'' td_sample_db1) = 3"
    by (simp add: lines_of_def td_sample_db1_def insertAudit_def clearApprovalOnReject_def update_doc_def td_sample_db_def td_sample_lines_def td_sample_line_def)
  have "map tl_lineNumber (lines_of ''d3'' td_sample_db1) = [1..<Suc (length (lines_of ''d3'' td_sample_db1))]"
    using stored_lines_typed [OF td_sample_docs_wf td_sample_steps] by blast
  then show ?thesis unfolding l by (simp add: numeral_3_eq_3 numeral_2_eq_2)
qed

theorem posted_documents_are_frozen_witness: "loadLines ''d1'' td_sample_db1 = loadLines ''d1'' td_sample_db"
proof -
  have "td_status (td_sample_docs ! 0) = TD_POSTED" by (simp add: td_sample_docs_def td_sample_header_def)
  then show ?thesis using posted_documents_are_frozen [OF td_sample_docs_wf td_sample_steps td_sample_find(1)] by blast
qed

theorem posted_document_has_one_journal_witness:
  "length (filter (\<lambda>t. lt_referenceType t = ''TREASURY_DOCUMENT'' \<and> lt_referenceId t = ''d1'') (ld_transactions (tr_ledger td_sample_db1))) = 1"
proof -
  have "td_status (td_sample_docs ! 0) = TD_POSTED" by (simp add: td_sample_docs_def td_sample_header_def)
  then show ?thesis using posted_document_has_one_journal [OF rat_decimal_exact td_sample_gen_inj td_sample_ok td_sample_steps td_sample_find(2)] by simp
qed

definition td_sample_update :: UpdateDocumentInput where
  "td_sample_update = \<lparr>ui_transactionDate = None, ui_memo = Some (Some ''count again''), ui_fromAccountCode = None, ui_toAccountCode = None, ui_bankAccountId = None,
     ui_depositReference = None, ui_requiresApproval = None, ui_overageAmount = None, ui_shortageAmount = None, ui_lines = None,
     ui_expectedRowVersion = 1, ui_actorUserId = ''u''\<rparr>"

lemma td_sample_updated: "\<exists>d db. updateDraft td_sample_gen ''d3'' td_sample_update td_sample_db = Inr (d, db) \<and> find_doc ''d3'' db \<noteq> None
   \<and> td_status (the (find_doc ''d3'' db)) = TD_DRAFT \<and> tr_enabled db"
  using td_sample_find(4)
  by (simp add: updateDraft_def assertFeatureEnabled_def with_doc_def throw_if_def assertMutableStatus_def repo_updateDraft_def td_sample_update_def optional_column_def
      getById_def reload_def insertAudit_def update_doc_def td_sample_docs_def td_sample_header_def find_doc_def td_sample_db_def mapDocument_def mapHeader_def)

theorem stale_update_refused_witness:
  "\<exists>d db. updateDraft td_sample_gen ''d3'' td_sample_update td_sample_db = Inr (d, db) \<and> updateDraft td_sample_gen ''d3'' td_sample_update db = Inl TE_DOCUMENT_MODIFIED"
proof -
  from td_sample_updated obtain d db q where u: "updateDraft td_sample_gen ''d3'' td_sample_update td_sample_db = Inr (d, db)"
    "find_doc ''d3'' db = Some q" "td_status q = TD_DRAFT" "tr_enabled db" by force
  then show ?thesis using stale_update_refused [where D = rat_decimal and mode = AR_off, OF td_sample_docs_wf u(1) rtranclp.rtrancl_refl order_refl] by blast
qed

theorem posting_approves_witness:
  "post_document rat_decimal td_sample_gen AR_off ''2025-02-11T10:00'' ''d2'' ''u'' td_sample_db
     = (case approve rat_decimal td_sample_gen AR_off ''2025-02-11T10:00'' ''d2'' ''u'' td_sample_db of Inl e \<Rightarrow> Inl e
        | Inr (d, db') \<Rightarrow> Inr (d, db'\<lparr>tr_audit := [\<lparr>tau_documentId = ''d2'', tau_eventType = ''POSTED'', tau_actorUserId = ''u''\<rparr>]\<rparr>))"
proof -
  have s: "td_status (td_sample_docs ! 1) = TD_PENDING_APPROVAL" "td_requiresApproval (td_sample_docs ! 1)" "tr_audit td_sample_db = []"
    by (simp_all add: td_sample_docs_def td_sample_header_def td_sample_db_def)
  show ?thesis using posting_approves [OF td_sample_find(3) s(1,2), of rat_decimal td_sample_gen AR_off "''2025-02-11T10:00''" "''u''"] unfolding s(3) append_Nil by (rule conjunct1)
qed

theorem reversal_mirrors_document_witness:
  "\<exists>ds db' q. reverse_document rat_decimal td_sample_gen AR_off ''2025-02-11T10:00'' ''d1'' ''u'' None td_sample_db = Inr (ds, db')
     \<and> q \<in> set (tr_documents db') \<and> td_reversesDocumentId q = Some ''d1'' \<and> td_transactionDate q = ''2025-02-11'' \<and> td_status q = TD_POSTED"
proof -
  from td_sample_reversal obtain ds db' where r: "reverse_document rat_decimal td_sample_gen AR_off ''2025-02-11T10:00'' ''d1'' ''u'' None td_sample_db = Inr (ds, db')" by blast
  have g: "td_sample_gen n \<noteq> []" for n by (simp add: td_sample_gen_def)
  have "take 10 ''2025-02-11T10:00'' = ''2025-02-11''" by simp
  then show ?thesis using reversal_mirrors_document [OF td_sample_docs_wf g r td_sample_find(1) td_sample_modest] r by (metis DiffD1)
qed

lemma td_sample_applied: "\<exists>db. applySettlement td_sample_gen ''AR_CUSTOMER_PAYMENT'' (rs_sourceId td_sample_settlement) (Fin (cents 3000)) ''d3'' None td_sample_db = Inr db
   \<and> tr_settlements db = [td_sample_settlement\<lparr>rs_settled := 30, rs_residual := 70, rs_status := PARTIALLY_SETTLED\<rparr>]"
proof -
  let ?s = td_sample_settlement
  have c: "assertDepositConsumesUnsettled (rs_status ?s) (num_of (rs_residual ?s)) = Inr ()" "assertSettlementCeiling (Fin (cents 3000)) (num_of (rs_residual ?s)) = Inr ()"
    "roundMoney (Fin (cents 3000)) = Fin (cents 3000)" "roundMoney (jadd (num_of (rs_settled ?s)) (Fin (cents 3000))) = Fin (cents 3000)"
    "roundMoney (jsub (num_of (rs_originating ?s)) (Fin (cents 3000))) = Fin (cents 7000)" "statusFor (Fin (cents 3000)) (Fin (cents 7000)) = PARTIALLY_SETTLED"
    by code_simp+
  have m: "money_column (Fin (cents 3000)) = Inr 30" "money_column (Fin (cents 7000)) = Inr 70"
    using money_column_cents [of 3000] money_column_cents [of 7000] by simp_all
  have "lockSettlement td_sample_gen ''AR_CUSTOMER_PAYMENT'' (rs_sourceId ?s) td_sample_db = Inr (?s, td_sample_db)"
    by (simp add: lockSettlement_def find_settlement_def td_sample_db_def td_sample_settlement_def)
  then show ?thesis using c m
    by (simp add: applySettlement_def Let_def update_settlement_def insert_application_def throw_if_def td_sample_db_def settlement_check_def)
       (simp add: td_sample_settlement_def)
qed

theorem receipts_are_conserved_witness:
  "\<exists>db. (settlement_step td_sample_gen)\<^sup>*\<^sup>* td_sample_db db \<and> (\<exists>s \<in> set (tr_settlements db).
     rs_settled s = 30 \<and> sum_list (map ra_amount (live_applications (rs_id s) db)) = 30)"
proof -
  from td_sample_applied obtain db where a: "applySettlement td_sample_gen ''AR_CUSTOMER_PAYMENT'' (rs_sourceId td_sample_settlement) (Fin (cents 3000)) ''d3'' None td_sample_db = Inr db"
    "tr_settlements db = [td_sample_settlement\<lparr>rs_settled := 30, rs_residual := 70, rs_status := PARTIALLY_SETTLED\<rparr>]" by blast
  have "modest_settlements db" using td_sample_settlements(2) by (simp add: modest_settlements_def a(2) td_sample_db_def td_sample_settlement_def)
  then have st: "(settlement_step td_sample_gen)\<^sup>*\<^sup>* td_sample_db db" using ss_apply [OF a(1)] by simp
  have "td_sample_settlement\<lparr>rs_settled := 30, rs_residual := 70, rs_status := PARTIALLY_SETTLED\<rparr> \<in> set (tr_settlements db)" using a(2) by simp
  from receipts_are_conserved [OF td_sample_settlements st this] show ?thesis using st a(2) by auto
qed

lemma td_sample_sources: "map line_source (filter (\<lambda>l. tl_lineType l = RECEIPT_APPLICATION) (loadLines ''d3'' td_sample_db))
   = [Some (''AR_CUSTOMER_PAYMENT'', drop 20 td_sample_memo), Some (''AR_CUSTOMER_PAYMENT'', drop 20 td_sample_memo)]"
proof -
  have "memo_source td_sample_memo = Some (''AR_CUSTOMER_PAYMENT'', drop 20 td_sample_memo)" by code_simp
  then show ?thesis by (simp add: loadLines_def lines_of_def td_sample_db_def td_sample_lines_def td_sample_line_def mapLine_def line_source_def)
qed

theorem receipt_named_twice_never_posts_witness:
  "\<exists>e. post_document rat_decimal td_sample_gen AR_off ''2025-02-11T10:00'' ''d3'' ''u'' td_sample_db = Inl e"
proof -
  have t: "td_documentType (td_sample_docs ! 2) = DEPOSIT_WORKSHEET" by (simp add: td_sample_docs_def td_sample_header_def)
  show ?thesis using receipt_named_twice_never_posts [OF td_sample_find(4) t, of rat_decimal td_sample_gen AR_off "''2025-02-11T10:00''" "''u''"]
    unfolding td_sample_sources by simp
qed

end
