(* ===== verification/UomGraph.thy ===== *)
theory UomGraph imports Decimals
begin

section \<open>Units of measure: the conversion graph\<close>

text \<open>
  \<open>modules/products/uomGraphService.ts\<close>. The units of an item form a graph with one edge per
  conversion, from the larger to the smaller unit; it is canonical when every unit has one way to the
  base unit. A JavaScript \<open>Map\<close> is an association list. A factor is a number or a text, the text of a
  NUMERIC column being given by its value; \<open>dl_of_str\<close> gives \<open>None\<close> for a text that is not a finite number, where the code throws either way. The loop
  that resolves a factor is a partial function: that it ends is a theorem.
\<close>

subsection \<open>Names\<close>

definition CANONICAL_UOM_ALIASES :: "(string \<times> string) list" where
  "CANONICAL_UOM_ALIASES = [(''TAB'', ''TABLET''), (''TABS'', ''TABLET''), (''TABLETS'', ''TABLET''), (''PK'', ''PACK''),
     (''PKT'', ''PACKET''), (''PACKS'', ''PACK''), (''PACKETS'', ''PACKET''), (''PCS'', ''EACH''), (''PC'', ''EACH''),
     (''PIECE'', ''EACH''), (''PIECES'', ''EACH''), (''EA'', ''EACH''), (''EACHES'', ''EACH''), (''UNIT'', ''EACH''), (''UNITS'', ''EACH'')]"

definition upper_or_digit :: "char \<Rightarrow> bool" where
  "upper_or_digit c \<longleftrightarrow> CHR ''A'' \<le> c \<and> c \<le> CHR ''Z'' \<or> is_digit c"

definition canonicalizeUomName :: "string \<Rightarrow> string" where
  "canonicalizeUomName name = (let n = filter upper_or_digit (js_upper (js_trim name)) in
     coalesce (map_of CANONICAL_UOM_ALIASES n) n)"

subsection \<open>Validation\<close>

datatype UomFactor = UF_num jnum | UF_str string | UF_db rat

record ItemUomConversion =
  uc_itemId :: string
  uc_fromUomId :: string
  uc_toUomId :: string
  uc_factor :: UomFactor
  uc_isCanonical :: "bool option"

datatype UomIssue =
    UI_SELF string | UI_FACTOR | UI_BASE_SOURCE string | UI_PAIR string | UI_PARALLEL string string
  | UI_LOOP string | UI_UNRESOLVED string string

datatype UomError =
    UE_FACTOR | UE_INVALID_GRAPH "UomIssue list" | UE_LOOP | UE_NO_PATH

definition parseFactor :: "'d decimal_lib \<Rightarrow> UomFactor \<Rightarrow> (UomError, 'd) result" where
  "parseFactor D f =
     (case (case f of UF_num x \<Rightarrow> if is_finite x then Some (dl_of_num D x) else None | UF_str s \<Rightarrow> dl_of_str D s | UF_db q \<Rightarrow> Some (dl_of_db D q)) of
        None \<Rightarrow> Inl UE_FACTOR
      | Some d \<Rightarrow> if dl_lt D d (dl_of_num D (Fin 1)) then Inl UE_FACTOR else Inr d)"

text \<open>\<open>[from, to].sort().join('::')\<close>\<close>

definition pair_key :: "string \<Rightarrow> string \<Rightarrow> string" where
  "pair_key a b = (if a \<le> b then a @ ''::'' @ b else b @ ''::'' @ a)"

type_synonym edge_map = "(string \<times> ItemUomConversion) list"

fun check_edges ::
  "'d decimal_lib \<Rightarrow> string \<Rightarrow> ItemUomConversion list \<Rightarrow> UomIssue list \<Rightarrow> edge_map \<Rightarrow> string list \<Rightarrow> UomIssue list \<times> edge_map" where
  "check_edges D base [] issues out pairs = (issues, out)"
| "check_edges D base (c # cs) issues out pairs =
     (if uc_fromUomId c = uc_toUomId c then check_edges D base cs (issues @ [UI_SELF (uc_fromUomId c)]) out pairs
      else let issues = (case parseFactor D (uc_factor c) of Inl _ \<Rightarrow> issues @ [UI_FACTOR] | Inr _ \<Rightarrow> issues);
        issues = (if uc_fromUomId c = base then issues @ [UI_BASE_SOURCE base] else issues);
        key = pair_key (uc_fromUomId c) (uc_toUomId c);
        issues = (if key \<in> set pairs then issues @ [UI_PAIR key] else issues);
        pairs = (if key \<in> set pairs then pairs else pairs @ [key])
      in (case map_of out (uc_fromUomId c) of
            Some e \<Rightarrow> check_edges D base cs (issues @ [UI_PARALLEL (uc_fromUomId c) (uc_toUomId e)]) out pairs
          | None \<Rightarrow> check_edges D base cs issues (out @ [(uc_fromUomId c, c)]) pairs))"

lemma unseen_decreases:
  assumes "x \<notin> set seen" "x \<in> set xs"
  shows "card (set xs - set (x # seen)) < card (set xs - set seen)"
  using assms by (intro psubset_card_mono) auto

text \<open>The walk from a node; \<open>seen\<close> is the set of the nodes passed.\<close>

function walk_to_base :: "string \<Rightarrow> edge_map \<Rightarrow> string \<Rightarrow> string list \<Rightarrow> string \<Rightarrow> UomIssue option" where
  "walk_to_base base out node seen current =
     (if current \<in> set seen then Some (UI_LOOP current)
      else case map_of out current of
          None \<Rightarrow> Some (UI_UNRESOLVED node base)
        | Some e \<Rightarrow> if uc_toUomId e = base then None
            else walk_to_base base out node (current # seen) (uc_toUomId e))"
  by pat_completeness auto

termination
proof (relation "measure (\<lambda>(base, out, node, seen, current). card (set (map fst out) - set seen))", goal_cases)
  case (2 base out node seen current e)
  from 2 have "current \<in> set (map fst out)" by (force dest: map_of_SomeD)
  from unseen_decreases [OF 2(1) this] show ?case by simp
qed simp

declare walk_to_base.simps [simp del]

text \<open>A \<open>Set\<close> keeps the first occurrence.\<close>

definition in_order :: "'a list \<Rightarrow> 'a list" where
  "in_order xs = rev (remdups (rev xs))"

definition uom_nodes :: "string \<Rightarrow> ItemUomConversion list \<Rightarrow> string list" where
  "uom_nodes base cs = in_order (base # concat (map (\<lambda>c. [uc_fromUomId c, uc_toUomId c]) cs))"

definition validateCanonicalUomGraph :: "'d decimal_lib \<Rightarrow> string \<Rightarrow> ItemUomConversion list \<Rightarrow> UomIssue list" where
  "validateCanonicalUomGraph D base cs =
     (let (issues, out) = check_edges D base cs [] [] [] in
      issues @ List.map_filter (\<lambda>node. if node = base then None else walk_to_base base out node [] node) (uom_nodes base cs))"

definition assertCanonicalUomGraph :: "'d decimal_lib \<Rightarrow> string \<Rightarrow> ItemUomConversion list \<Rightarrow> (UomError, unit) result" where
  "assertCanonicalUomGraph D base cs = (let issues = validateCanonicalUomGraph D base cs in
     throw_if (issues \<noteq> []) (UE_INVALID_GRAPH issues))"

subsection \<open>Resolution\<close>

record 'd ResolvedUom =
  ru_baseUomId :: string
  ru_factorToBase :: 'd
  ru_path :: "string list"

partial_function (option) resolve_loop ::
  "'d decimal_lib \<Rightarrow> string \<Rightarrow> edge_map \<Rightarrow> string list \<Rightarrow> string list \<Rightarrow> 'd \<Rightarrow> string \<Rightarrow> (UomError, 'd ResolvedUom) result option" where
  "resolve_loop D base out seen path factor current =
     (if current = base then Some (Inr \<lparr>ru_baseUomId = base, ru_factorToBase = factor, ru_path = path\<rparr>)
      else if current \<in> set seen then Some (Inl UE_LOOP)
      else case map_of out current of
          None \<Rightarrow> Some (Inl UE_NO_PATH)
        | Some e \<Rightarrow> (case parseFactor D (uc_factor e) of
              Inl err \<Rightarrow> Some (Inl err)
            | Inr f \<Rightarrow> resolve_loop D base out (current # seen) (path @ [uc_toUomId e]) (dl_times D factor f) (uc_toUomId e)))"

declare resolve_loop.simps [code]

definition edge_map_of :: "ItemUomConversion list \<Rightarrow> edge_map" where
  "edge_map_of cs = rev (map (\<lambda>c. (uc_fromUomId c, c)) cs)"

definition resolveFactorToBase ::
  "'d decimal_lib \<Rightarrow> string \<Rightarrow> string option \<Rightarrow> ItemUomConversion list \<Rightarrow> (UomError, 'd ResolvedUom) result option" where
  "resolveFactorToBase D base source cs =
     (if \<not> truthy_str source \<or> the source = base
      then Some (Inr \<lparr>ru_baseUomId = base, ru_factorToBase = dl_of_num D (Fin 1), ru_path = [base]\<rparr>)
      else case assertCanonicalUomGraph D base cs of
          Inl e \<Rightarrow> Some (Inl e)
        | Inr _ \<Rightarrow> resolve_loop D base (edge_map_of cs) [] [the source] (dl_of_num D (Fin 1)) (the source))"

definition convertQuantityToBase :: "'d decimal_lib \<Rightarrow> jnum \<Rightarrow> 'd \<Rightarrow> 'd" where
  "convertQuantityToBase D quantity factor = dl_times D (dl_of_num D quantity) factor"

definition normalizeEnteredUnitPriceToBase :: "'d decimal_lib \<Rightarrow> jnum \<Rightarrow> 'd \<Rightarrow> (UomError, 'd) result" where
  "normalizeEnteredUnitPriceToBase D price factor =
     (if dl_lt D factor (dl_of_num D (Fin 1)) then Inl UE_FACTOR else Inr (dl_div D (dl_of_num D price) factor))"

definition denormalizeBaseUnitPrice :: "'d decimal_lib \<Rightarrow> jnum \<Rightarrow> 'd \<Rightarrow> 'd" where
  "denormalizeBaseUnitPrice D price factor = dl_times D (dl_of_num D price) factor"

subsection \<open>The loops end\<close>

lemma resolve_loop_returns:
  "\<exists>r. resolve_loop D base out seen path factor current = Some r
     \<and> (\<forall>u. r = Inr u \<longrightarrow> length (ru_path u) \<le> length path + card (set (map fst out) - set seen))"
proof (induction "card (set (map fst out) - set seen)" arbitrary: seen path factor current rule: less_induct)
  case less
  consider "current = base \<or> current \<in> set seen \<or> map_of out current = None"
    | e err where "current \<noteq> base" "current \<notin> set seen" "map_of out current = Some e" "parseFactor D (uc_factor e) = Inl err"
    | e f where "current \<noteq> base" "current \<notin> set seen" "map_of out current = Some e" "parseFactor D (uc_factor e) = Inr f"
    by (metis not_None_eq old.sum.exhaust)
  then show ?case
  proof cases
    case 1
    then show ?thesis by (auto simp: resolve_loop.simps [of D base out seen])
  next
    case 2
    then show ?thesis by (simp add: resolve_loop.simps [of D base out seen])
  next
    case (3 e f)
    have "current \<in> set (map fst out)" using 3(3) by (force dest: map_of_SomeD)
    note d = unseen_decreases [OF 3(2) this]
    from less [OF d, of "path @ [uc_toUomId e]" "dl_times D factor f" "uc_toUomId e"]
    obtain r where r: "resolve_loop D base out (current # seen) (path @ [uc_toUomId e]) (dl_times D factor f) (uc_toUomId e) = Some r"
      "\<forall>u. r = Inr u \<longrightarrow> length (ru_path u) \<le> length (path @ [uc_toUomId e]) + card (set (map fst out) - set (current # seen))" by blast
    have "length (ru_path u) \<le> length path + card (set (map fst out) - set seen)" if "r = Inr u" for u
      using r(2) that d by fastforce
    then show ?thesis using 3 r(1) by (simp add: resolve_loop.simps [of D base out seen])
  qed
qed

text \<open>C29. Resolving a unit always returns, whatever the conversions are, cycles included, after at most one
  step per conversion.\<close>

theorem resolution_returns:
  "\<exists>r. resolveFactorToBase D base source cs = Some r \<and> (\<forall>u. r = Inr u \<longrightarrow> length (ru_path u) \<le> Suc (length cs))"
proof (cases "\<not> truthy_str source \<or> the source = base \<or> \<not> is_ok (assertCanonicalUomGraph D base cs)")
  case True
  then show ?thesis by (cases "assertCanonicalUomGraph D base cs") (auto simp: resolveFactorToBase_def)
next
  case False
  let ?out = "edge_map_of cs"
  have "card (set (map fst ?out) - set []) \<le> length cs" using card_length [of "map fst ?out"] by (simp add: edge_map_of_def del: set_map)
  moreover from resolve_loop_returns [of D base ?out "[]" "[the source]" "dl_of_num D (Fin 1)" "the source"]
  obtain r where "resolve_loop D base ?out [] [the source] (dl_of_num D (Fin 1)) (the source) = Some r"
    "\<forall>u. r = Inr u \<longrightarrow> length (ru_path u) \<le> length [the source] + card (set (map fst ?out) - set [])" by blast
  ultimately show ?thesis using False by (force simp: resolveFactorToBase_def is_ok_iff)
qed

end
