(* ===== verification/UomStore.thy ===== *)
theory UomStore imports UomGraph
begin

section \<open>Units of measure: tables and repository\<close>

text \<open>
  \<open>modules/products/uomRepository.ts\<close> on the tables of \<open>shared/sql/010_multi_uom.sql\<close> and
  \<open>515_canonical_item_uom_conversions.sql\<close>, with their UNIQUE, CHECK and REFERENCES constraints where a
  statement can violate them. A row of \<open>products\<close> carries the columns the units need and the stock its
  guard reads; of the document tables only the column \<open>base_uom_id\<close> is kept. Names are ordered by code
  unit. Numbers are finite, as the request schemas require. A conversion row's own id is never read
  and left out, and so are the timestamps.
\<close>

subsection \<open>Tables\<close>

record DbUom =
  um_id :: string
  um_name :: string
  um_symbol :: "string option"
  um_type :: string

record ProductUom =
  pu_id :: string
  pu_productId :: string
  pu_uomId :: string
  pu_factor :: rat
  pu_barcode :: "string option"
  pu_isDefault :: bool
  pu_priceOverride :: "rat option"
  pu_costOverride :: "rat option"

record DbItemUomConversion =
  iv_itemId :: string
  iv_fromUomId :: string
  iv_toUomId :: string
  iv_factor :: rat
  iv_isCanonical :: bool

record UomProduct =
  up_id :: string
  up_name :: string
  up_sku :: "string option"
  up_isActive :: bool
  up_baseUomId :: "string option"
  up_purchaseUomId :: "string option"
  up_costPrice :: rat
  up_sellingPrice :: rat
  up_quantityOnHand :: "rat option"
  up_batches :: "rat list"

record UomDb =
  ub_uoms :: "DbUom list"
  ub_productUoms :: "ProductUom list"
  ub_conversions :: "DbItemUomConversion list"
  ub_products :: "UomProduct list"
  ub_saleItems :: "string list"
  ub_poItems :: "string list"
  ub_grItems :: "string list"
  ub_movements :: "string list"
  ub_seq :: nat

datatype UomServiceError =
    US_GRAPH UomError | US_NO_SUCH_UOM | US_DUPLICATE_UOM | US_REBASE | US_NO_BASE | US_FACTOR | US_STOCK_ON_HAND
  | US_NO_UOMS | US_NOT_CONFIGURED | US_BASE_ROW | US_IS_PURCHASE_UOM | US_PURCHASE_NOT_CONFIGURED | US_PURCHASE_NO_PATH
  | US_REPAIR_FACTOR | US_NAME_TAKEN | US_IN_DOCUMENTS | US_IS_BASE
  | US_DB_UNIQUE | US_DB_CHECK | US_DB_NUMERIC | US_DB_REFERENCE

definition factor_column :: "jnum \<Rightarrow> (UomServiceError, rat) result" where
  "factor_column x = (case x of
     Fin a \<Rightarrow> (let r = pg_round 6 (js_decimal a) in if 10 ^ 12 \<le> \<bar>r\<bar> then Inl US_DB_NUMERIC else Inr r)
   | _ \<Rightarrow> Inl US_DB_NUMERIC)"

fun numeric_opt :: "jnum option \<Rightarrow> (UomServiceError, rat option) result" where
  "numeric_opt None = Inr None"
| "numeric_opt (Some x) = and_then (factor_column x) (\<lambda>r. Inr (Some r))"

definition product_uoms_ok :: "ProductUom list \<Rightarrow> bool" where
  "product_uoms_ok rs \<longleftrightarrow> distinct (map (\<lambda>r. (pu_productId r, pu_uomId r)) rs)
     \<and> distinct (map pu_productId (filter pu_isDefault rs))"

subsection \<open>Master units\<close>

definition listUoms :: "UomDb \<Rightarrow> DbUom list" where
  "listUoms db = sort_key um_name (ub_uoms db)"

definition getUomById :: "string \<Rightarrow> UomDb \<Rightarrow> DbUom option" where
  "getUomById i db = find (\<lambda>u. um_id u = i) (ub_uoms db)"

definition createUom :: "(nat \<Rightarrow> string) \<Rightarrow> string \<Rightarrow> string option \<Rightarrow> string option \<Rightarrow> UomDb \<Rightarrow> (UomServiceError, DbUom \<times> UomDb) result" where
  "createUom gen name symbol type db =
     (let u = \<lparr>um_id = gen (ub_seq db), um_name = name, um_symbol = symbol, um_type = coalesce type ''QUANTITY''\<rparr> in
      and_then (throw_if (name \<in> set (map um_name (ub_uoms db)) \<or> um_id u \<in> set (map um_id (ub_uoms db))) US_DB_UNIQUE) (\<lambda>_.
      Inr (u, db\<lparr>ub_uoms := ub_uoms db @ [u], ub_seq := Suc (ub_seq db)\<rparr>)))"

record UomPatch =
  xm_name :: "string option"
  xm_symbol :: "string option option"
  xm_type :: "string option"

definition updateUom :: "string \<Rightarrow> UomPatch \<Rightarrow> UomDb \<Rightarrow> (UomServiceError, DbUom option \<times> UomDb) result" where
  "updateUom i x db =
     (let f = (\<lambda>u. if um_id u = i then u\<lparr>um_name := coalesce (xm_name x) (um_name u), um_symbol := coalesce (xm_symbol x) (um_symbol u),
                     um_type := coalesce (xm_type x) (um_type u)\<rparr> else u);
          us = map f (ub_uoms db) in
      and_then (throw_if (\<not> distinct (map um_name us)) US_DB_UNIQUE) (\<lambda>_.
      Inr (find (\<lambda>u. um_id u = i) us, db\<lparr>ub_uoms := us\<rparr>)))"

text \<open>A unit that a mapping, a conversion or a product's base refers to cannot be deleted; a product's
  purchase unit becomes null.\<close>

definition deleteUom :: "string \<Rightarrow> UomDb \<Rightarrow> (UomServiceError, bool \<times> UomDb) result" where
  "deleteUom i db =
     (let hit = (i \<in> set (map um_id (ub_uoms db))) in
      and_then (throw_if (hit \<and> (i \<in> set (map pu_uomId (ub_productUoms db))
          \<or> i \<in> set (map iv_fromUomId (ub_conversions db)) \<or> i \<in> set (map iv_toUomId (ub_conversions db))
          \<or> Some i \<in> set (map up_baseUomId (ub_products db)))) US_DB_REFERENCE) (\<lambda>_.
      Inr (hit, db\<lparr>ub_uoms := filter (\<lambda>u. um_id u \<noteq> i) (ub_uoms db),
        ub_products := map (\<lambda>p. if up_purchaseUomId p = Some i then p\<lparr>up_purchaseUomId := None\<rparr> else p) (ub_products db)\<rparr>)))"

definition deleteProductUomsByUomId :: "string \<Rightarrow> UomDb \<Rightarrow> UomDb" where
  "deleteProductUomsByUomId i db = db\<lparr>ub_productUoms := filter (\<lambda>r. pu_uomId r \<noteq> i) (ub_productUoms db)\<rparr>"

record UomUsage =
  uu_productBase :: nat
  uu_productUoms :: nat
  uu_saleItems :: nat
  uu_poItems :: nat
  uu_grItems :: nat
  uu_stockMovements :: nat

definition getUomUsageCounts :: "string \<Rightarrow> UomDb \<Rightarrow> UomUsage" where
  "getUomUsageCounts i db = \<lparr>
     uu_productBase = length (filter (\<lambda>p. up_baseUomId p = Some i) (ub_products db)),
     uu_productUoms = length (filter (\<lambda>r. pu_uomId r = i) (ub_productUoms db)),
     uu_saleItems = length (filter (\<lambda>u. u = i) (ub_saleItems db)), uu_poItems = length (filter (\<lambda>u. u = i) (ub_poItems db)),
     uu_grItems = length (filter (\<lambda>u. u = i) (ub_grItems db)), uu_stockMovements = length (filter (\<lambda>u. u = i) (ub_movements db))\<rparr>"

subsection \<open>Products\<close>

definition product_of :: "string \<Rightarrow> UomDb \<Rightarrow> UomProduct option" where
  "product_of p db = find (\<lambda>q. up_id q = p) (ub_products db)"

definition getProductBaseUomId :: "string \<Rightarrow> UomDb \<Rightarrow> string option" where
  "getProductBaseUomId p db =
     (case product_of p db of
        None \<Rightarrow> None
      | Some q \<Rightarrow> (case up_baseUomId q of
            Some b \<Rightarrow> Some b
          | None \<Rightarrow> map_option pu_uomId (find (\<lambda>r. pu_productId r = p \<and> pu_isDefault r) (ub_productUoms db))))"

text \<open>\<open>getProductPurchaseUomContext\<close>: purchase unit and stored base unit.\<close>

definition getProductPurchaseUomContext :: "string \<Rightarrow> UomDb \<Rightarrow> (string option \<times> string option) option" where
  "getProductPurchaseUomContext p db = map_option (\<lambda>q. (up_purchaseUomId q, up_baseUomId q)) (product_of p db)"

definition getProductLegacyUnitOfMeasure :: "string \<Rightarrow> UomDb \<Rightarrow> string option" where
  "getProductLegacyUnitOfMeasure p db =
     Option.bind (product_of p db) (\<lambda>q. Option.bind (up_baseUomId q) (\<lambda>b. map_option um_name (getUomById b db)))"

definition update_product :: "string \<Rightarrow> (UomProduct \<Rightarrow> UomProduct) \<Rightarrow> UomDb \<Rightarrow> UomDb" where
  "update_product p f db = db\<lparr>ub_products := map (\<lambda>q. if up_id q = p then f q else q) (ub_products db)\<rparr>"

definition setProductBaseUomId :: "string \<Rightarrow> string \<Rightarrow> UomDb \<Rightarrow> UomDb" where
  "setProductBaseUomId p u db = update_product p (\<lambda>q. q\<lparr>up_baseUomId := Some u\<rparr>) db"

definition setProductPurchaseUomId :: "string \<Rightarrow> string option \<Rightarrow> UomDb \<Rightarrow> UomDb" where
  "setProductPurchaseUomId p u db = update_product p (\<lambda>q. q\<lparr>up_purchaseUomId := u\<rparr>) db"

definition getProductOnHandBase :: "string \<Rightarrow> UomDb \<Rightarrow> jnum" where
  "getProductOnHandBase p db =
     (case product_of p db of
        None \<Rightarrow> Fin 0
      | Some q \<Rightarrow> js_round_rat (max \<bar>coalesce (up_quantityOnHand q) 0\<bar> \<bar>\<Sum>b \<leftarrow> up_batches q. b\<bar>))"

subsection \<open>Conversions\<close>

definition listItemUomConversions :: "string \<Rightarrow> UomDb \<Rightarrow> DbItemUomConversion list" where
  "listItemUomConversions p db = sort_key iv_fromUomId (filter (\<lambda>c. iv_itemId c = p) (ub_conversions db))"

definition conversions_ok :: "DbItemUomConversion list \<Rightarrow> bool" where
  "conversions_ok cs \<longleftrightarrow> distinct (map (\<lambda>c. (iv_itemId c, iv_fromUomId c)) cs)
     \<and> distinct (map (\<lambda>c. (iv_itemId c, min (iv_fromUomId c) (iv_toUomId c), max (iv_fromUomId c) (iv_toUomId c))) cs)"

definition upsertItemUomConversion :: "string \<Rightarrow> string \<Rightarrow> string \<Rightarrow> jnum \<Rightarrow> bool \<Rightarrow> UomDb \<Rightarrow> (UomServiceError, UomDb) result" where
  "upsertItemUomConversion p a b factor canonical db =
     and_then (factor_column factor) (\<lambda>f.
     let row = \<lparr>iv_itemId = p, iv_fromUomId = a, iv_toUomId = b, iv_factor = f, iv_isCanonical = canonical\<rparr>;
         cs = (if \<exists>c \<in> set (ub_conversions db). iv_itemId c = p \<and> iv_fromUomId c = a
               then map (\<lambda>c. if iv_itemId c = p \<and> iv_fromUomId c = a then row else c) (ub_conversions db)
               else ub_conversions db @ [row]) in
     and_then (throw_if (f < 1 \<or> a = b) US_DB_CHECK) (\<lambda>_.
     and_then (throw_if (a \<notin> set (map um_id (ub_uoms db)) \<or> b \<notin> set (map um_id (ub_uoms db)) \<or> p \<notin> set (map up_id (ub_products db))) US_DB_REFERENCE) (\<lambda>_.
     and_then (throw_if (\<not> conversions_ok cs) US_DB_UNIQUE) (\<lambda>_.
     Inr (db\<lparr>ub_conversions := cs\<rparr>)))))"

definition deleteItemUomConversionBySource :: "string \<Rightarrow> string \<Rightarrow> UomDb \<Rightarrow> UomDb" where
  "deleteItemUomConversionBySource p a db =
     db\<lparr>ub_conversions := filter (\<lambda>c. \<not> (iv_itemId c = p \<and> iv_fromUomId c = a)) (ub_conversions db)\<rparr>"

definition deleteAllItemUomConversionsForProduct :: "string \<Rightarrow> UomDb \<Rightarrow> UomDb" where
  "deleteAllItemUomConversionsForProduct p db = db\<lparr>ub_conversions := filter (\<lambda>c. iv_itemId c \<noteq> p) (ub_conversions db)\<rparr>"

subsection \<open>Units of a product\<close>

record DbProductUom =
  dp_row :: ProductUom
  dp_name :: string
  dp_symbol :: "string option"

definition with_unit :: "UomDb \<Rightarrow> ProductUom \<Rightarrow> DbProductUom option" where
  "with_unit db r = map_option (\<lambda>u. \<lparr>dp_row = r, dp_name = um_name u, dp_symbol = um_symbol u\<rparr>) (getUomById (pu_uomId r) db)"

definition listProductUoms :: "string \<Rightarrow> UomDb \<Rightarrow> DbProductUom list" where
  "listProductUoms p db =
     sort_key (\<lambda>d. if pu_isDefault (dp_row d) then 0 else 1 :: nat)
       (sort_key dp_name (List.map_filter (with_unit db) (filter (\<lambda>r. pu_productId r = p) (ub_productUoms db))))"

definition getProductUomById :: "string \<Rightarrow> UomDb \<Rightarrow> DbProductUom option" where
  "getProductUomById i db = Option.bind (find (\<lambda>r. pu_id r = i) (ub_productUoms db)) (with_unit db)"

record CreateProductUom =
  ca_productId :: string
  ca_uomId :: string
  ca_factor :: jnum
  ca_barcode :: "string option"
  ca_isDefault :: bool
  ca_priceOverride :: "jnum option"
  ca_costOverride :: "jnum option"

definition createProductUom :: "(nat \<Rightarrow> string) \<Rightarrow> CreateProductUom \<Rightarrow> UomDb \<Rightarrow> (UomServiceError, DbProductUom option \<times> UomDb) result" where
  "createProductUom gen x db =
     and_then (factor_column (ca_factor x)) (\<lambda>f.
     and_then (numeric_opt (ca_priceOverride x)) (\<lambda>price.
     and_then (numeric_opt (ca_costOverride x)) (\<lambda>cost.
     let r = \<lparr>pu_id = gen (ub_seq db), pu_productId = ca_productId x, pu_uomId = ca_uomId x, pu_factor = f, pu_barcode = ca_barcode x,
              pu_isDefault = ca_isDefault x, pu_priceOverride = price, pu_costOverride = cost\<rparr>;
         rs = ub_productUoms db @ [r] in
     and_then (throw_if (f \<le> 0) US_DB_CHECK) (\<lambda>_.
     and_then (throw_if (\<not> product_uoms_ok rs \<or> \<not> distinct (map pu_id rs)) US_DB_UNIQUE) (\<lambda>_.
     and_then (throw_if (ca_uomId x \<notin> set (map um_id (ub_uoms db)) \<or> ca_productId x \<notin> set (map up_id (ub_products db))) US_DB_REFERENCE) (\<lambda>_.
     Inr (with_unit db r, db\<lparr>ub_productUoms := rs, ub_seq := Suc (ub_seq db)\<rparr>)))))))"

definition update_product_uoms :: "(ProductUom \<Rightarrow> ProductUom) \<Rightarrow> UomDb \<Rightarrow> UomDb" where
  "update_product_uoms f db = db\<lparr>ub_productUoms := map f (ub_productUoms db)\<rparr>"

definition unsetDefaultForProduct :: "string \<Rightarrow> UomDb \<Rightarrow> UomDb" where
  "unsetDefaultForProduct p db =
     update_product_uoms (\<lambda>r. if pu_productId r = p \<and> pu_isDefault r then r\<lparr>pu_isDefault := False\<rparr> else r) db"

definition setProductUomAsBase :: "string \<Rightarrow> string \<Rightarrow> string \<Rightarrow> UomDb \<Rightarrow> UomDb" where
  "setProductUomAsBase p i u db =
     setProductBaseUomId p u (update_product_uoms
       (\<lambda>r. if pu_id r = i \<and> pu_productId r = p then r\<lparr>pu_isDefault := True, pu_factor := 1\<rparr> else r) (unsetDefaultForProduct p db))"

record ProductUomPatch =
  xu_uomId :: "string option"
  xu_factor :: "jnum option"
  xu_barcode :: "string option option"
  xu_isDefault :: "bool option"
  xu_priceOverride :: "jnum option option"
  xu_costOverride :: "jnum option option"

fun numeric_patch :: "jnum option option \<Rightarrow> (UomServiceError, rat option option) result" where
  "numeric_patch None = Inr None"
| "numeric_patch (Some x) = and_then (numeric_opt x) (\<lambda>r. Inr (Some r))"

text \<open>\<open>UPDATE product_uoms SET \<dots>\<close> of the given fields, then the row is read back.\<close>

definition repo_updateProductUom :: "string \<Rightarrow> ProductUomPatch \<Rightarrow> UomDb \<Rightarrow> (UomServiceError, DbProductUom option \<times> UomDb) result" where
  "repo_updateProductUom i x db =
     and_then (numeric_opt (xu_factor x)) (\<lambda>f.
     and_then (numeric_patch (xu_priceOverride x)) (\<lambda>price.
     and_then (numeric_patch (xu_costOverride x)) (\<lambda>cost.
     let db' = update_product_uoms (\<lambda>r. if pu_id r = i
           then r\<lparr>pu_uomId := coalesce (xu_uomId x) (pu_uomId r), pu_factor := coalesce f (pu_factor r),
                  pu_barcode := coalesce (xu_barcode x) (pu_barcode r), pu_isDefault := coalesce (xu_isDefault x) (pu_isDefault r),
                  pu_priceOverride := coalesce price (pu_priceOverride r), pu_costOverride := coalesce cost (pu_costOverride r)\<rparr>
           else r) db in
     and_then (throw_if (\<exists>r \<in> set (ub_productUoms db'). pu_factor r \<le> 0) US_DB_CHECK) (\<lambda>_.
     and_then (throw_if (\<not> product_uoms_ok (ub_productUoms db')) US_DB_UNIQUE) (\<lambda>_.
     and_then (throw_if (\<exists>r \<in> set (ub_productUoms db'). pu_uomId r \<notin> set (map um_id (ub_uoms db))) US_DB_REFERENCE) (\<lambda>_.
     Inr (getProductUomById i db', db')))))))"

definition deleteProductUom :: "string \<Rightarrow> UomDb \<Rightarrow> bool \<times> UomDb" where
  "deleteProductUom i db =
     (i \<in> set (map pu_id (ub_productUoms db)), db\<lparr>ub_productUoms := filter (\<lambda>r. pu_id r \<noteq> i) (ub_productUoms db)\<rparr>)"

subsection \<open>Orphaned purchase units\<close>

record OrphanedPurchaseUomRow =
  op_productId :: string
  op_sku :: "string option"
  op_productName :: string
  op_purchaseUomId :: string
  op_baseUomId :: string
  op_missingProductUomsRow :: bool
  op_missingConversionPath :: bool
  op_existingConversionFactor :: "jnum option"

definition orphan_row :: "UomDb \<Rightarrow> UomProduct \<Rightarrow> OrphanedPurchaseUomRow option" where
  "orphan_row db p =
     (case (up_baseUomId p, up_purchaseUomId p) of
        (Some b, Some u) \<Rightarrow>
          (let mapped = find (\<lambda>r. pu_productId r = up_id p \<and> pu_uomId r = u) (ub_productUoms db);
               path = (\<exists>c \<in> set (ub_conversions db). iv_itemId c = up_id p \<and> iv_fromUomId c = u \<and> iv_toUomId c = b)
           in if up_isActive p \<and> u \<noteq> b \<and> getUomById b db \<noteq> None \<and> getUomById u db \<noteq> None \<and> (mapped = None \<or> \<not> path)
              then Some \<lparr>op_productId = up_id p, op_sku = up_sku p, op_productName = up_name p, op_purchaseUomId = u, op_baseUomId = b,
                     op_missingProductUomsRow = (mapped = None), op_missingConversionPath = (\<not> path),
                     op_existingConversionFactor = map_option (\<lambda>r. js_round_rat (pu_factor r)) mapped\<rparr>
              else None)
      | _ \<Rightarrow> None)"

definition listOrphanedPurchaseUomProducts :: "UomDb \<Rightarrow> OrphanedPurchaseUomRow list" where
  "listOrphanedPurchaseUomProducts db = List.map_filter (orphan_row db) (sort_key up_name (ub_products db))"

end
