(* ===== verification/UomService.thy ===== *)
theory UomService imports UomStore
begin

section \<open>Units of measure: service\<close>

text \<open>
  \<open>modules/products/uomService.ts\<close> and \<open>shared/domain/muomLifecycleSsot.ts\<close>. A call that runs in one
  transaction returns the new tables or an error. The text of a NUMERIC column that the code turns
  into a number is the nearest double. Labels and messages, log output and the audit entry of a price
  override are left out.
\<close>

subsection \<open>Lifecycle guards\<close>

definition MUOM_STOCK_QTY_EPS :: jnum where
  "MUOM_STOCK_QTY_EPS = lit (1 / 10000)"

definition MUOM_FACTOR_EPS :: jnum where
  "MUOM_FACTOR_EPS = lit (1 / 10000)"

definition hasMaterialStockOnHand :: "jnum \<Rightarrow> bool" where
  "hasMaterialStockOnHand onHandBase \<longleftrightarrow> jlt MUOM_STOCK_QTY_EPS (jabs (num_or onHandBase (Fin 0)))"

definition isMeaningfulFactorChange :: "jnum \<Rightarrow> jnum \<Rightarrow> bool" where
  "isMeaningfulFactorChange previous new \<longleftrightarrow>
     (if \<not> is_finite previous \<or> \<not> is_finite new then True else jlt MUOM_FACTOR_EPS (jabs (jsub previous new)))"

definition canChangeConversionFactor :: "jnum \<Rightarrow> bool" where
  "canChangeConversionFactor onHandBase \<longleftrightarrow> \<not> hasMaterialStockOnHand onHandBase"

definition isBaseUomIdentityChange :: "bool \<Rightarrow> bool \<Rightarrow> string \<Rightarrow> string option \<Rightarrow> bool" where
  "isBaseUomIdentityChange uomIdChanging isDefaultRow rowUomId baseUomId \<longleftrightarrow>
     (if \<not> uomIdChanging then False else if isDefaultRow then True else truthy_str baseUomId \<and> the baseUomId = rowUomId)"

subsection \<open>Canonical conversions\<close>

definition parseConversionFactor :: "jnum \<Rightarrow> jnum" where
  "parseConversionFactor x = (if \<not> is_finite x \<or> jlt x (Fin 1) then Fin 1 else x)"

definition graph_result :: "(UomError, 'a) result \<Rightarrow> (UomServiceError, 'a) result" where
  "graph_result r = map_sum US_GRAPH id r"

definition stored_conversion :: "DbItemUomConversion \<Rightarrow> ItemUomConversion" where
  "stored_conversion c = \<lparr>uc_itemId = iv_itemId c, uc_fromUomId = iv_fromUomId c, uc_toUomId = iv_toUomId c,
     uc_factor = UF_db (iv_factor c), uc_isCanonical = Some (iv_isCanonical c)\<rparr>"

definition number_conversion :: "string \<Rightarrow> string \<Rightarrow> string \<Rightarrow> jnum \<Rightarrow> bool \<Rightarrow> ItemUomConversion" where
  "number_conversion p a b f canonical =
     \<lparr>uc_itemId = p, uc_fromUomId = a, uc_toUomId = b, uc_factor = UF_num f, uc_isCanonical = Some canonical\<rparr>"

definition syncCanonicalConversion ::
  "'d decimal_lib \<Rightarrow> string \<Rightarrow> string \<Rightarrow> jnum \<Rightarrow> bool \<Rightarrow> UomDb \<Rightarrow> (UomServiceError, UomDb) result" where
  "syncCanonicalConversion D p uomId conversionFactor isDefault db =
     (let current = getProductBaseUomId p db in
      if isDefault then
        and_then (throw_if (truthy_str current \<and> the current \<noteq> uomId) US_REBASE) (\<lambda>_.
        let db = (if truthy_str current then db else setProductBaseUomId p uomId db) in
        Inr (deleteItemUomConversionBySource p uomId db))
      else
        and_then (throw_if (\<not> truthy_str current) US_NO_BASE) (\<lambda>_.
        let base = the current;
            cs = map stored_conversion (filter (\<lambda>c. iv_fromUomId c \<noteq> uomId \<and> iv_toUomId c = base) (listItemUomConversions p db))
                 @ [number_conversion p uomId base conversionFactor True] in
        and_then (graph_result (assertCanonicalUomGraph D base cs)) (\<lambda>_.
        upsertItemUomConversion p uomId base conversionFactor True db)))"

text \<open>\<open>Map.prototype.set\<close>: a key keeps the place of its first insertion.\<close>

fun map_set :: "'k \<Rightarrow> 'v \<Rightarrow> ('k \<times> 'v) list \<Rightarrow> ('k \<times> 'v) list" where
  "map_set k v [] = [(k, v)]"
| "map_set k v ((k', v') # m) = (if k' = k then (k', v) # m else (k', v') # map_set k v m)"

definition buildMergedCanonicalConversions :: "string \<Rightarrow> string \<Rightarrow> UomDb \<Rightarrow> ItemUomConversion list" where
  "buildMergedCanonicalConversions p base db =
     (let byFrom = fold (\<lambda>c m.
            if iv_toUomId c \<noteq> base \<or> iv_fromUomId c = base then m
            else map_set (iv_fromUomId c) (number_conversion p (iv_fromUomId c) base (parseConversionFactor (js_round_rat (iv_factor c))) (iv_isCanonical c)) m)
          (listItemUomConversions p db) [];
        byFrom = fold (\<lambda>d m. let r = dp_row d in
            if pu_isDefault r \<or> pu_uomId r = base then m
            else map_set (pu_uomId r) (number_conversion p (pu_uomId r) base (parseConversionFactor (js_round_rat (pu_factor r))) True) m)
          (listProductUoms p db) byFrom
      in map snd byFrom)"

definition normalizeSelectedMasterUomId :: "string \<Rightarrow> string option \<Rightarrow> UomDb \<Rightarrow> string option" where
  "normalizeSelectedMasterUomId p selected db =
     (if \<not> truthy_str selected then selected
      else let rows = map dp_row (listProductUoms p db) in
        if \<exists>r \<in> set rows. pu_uomId r = the selected then selected
        else case find (\<lambda>r. pu_id r = the selected) rows of Some r \<Rightarrow> Some (pu_uomId r) | None \<Rightarrow> selected)"

subsection \<open>Duplicates\<close>

definition findCanonicalDuplicateProductUom ::
  "string \<Rightarrow> string \<Rightarrow> string option \<Rightarrow> UomDb \<Rightarrow> (UomServiceError, DbProductUom option) result" where
  "findCanonicalDuplicateProductUom p uomId currentId db =
     (case getUomById uomId db of
        None \<Rightarrow> Inl US_NO_SUCH_UOM
      | Some target \<Rightarrow> Inr (find (\<lambda>d. (if truthy_str currentId \<and> pu_id (dp_row d) = the currentId then False
            else canonicalizeUomName (dp_name d) = canonicalizeUomName (um_name target))) (listProductUoms p db)))"

definition assertNoCanonicalDuplicateMeaning :: "string \<Rightarrow> string \<Rightarrow> string option \<Rightarrow> UomDb \<Rightarrow> (UomServiceError, unit) result" where
  "assertNoCanonicalDuplicateMeaning p uomId currentId db =
     and_then (findCanonicalDuplicateProductUom p uomId currentId db) (\<lambda>d. throw_if (d \<noteq> None) US_DUPLICATE_UOM)"

subsection \<open>Base unit\<close>

definition base_candidate :: "DbUom list \<Rightarrow> string \<Rightarrow> DbUom option" where
  "base_candidate us name =
     (let named = (\<lambda>n. find (\<lambda>u. canonicalizeUomName (um_name u) = n) us) in
      case named (canonicalizeUomName name) of Some u \<Rightarrow> Some u
      | None \<Rightarrow> (case named ''EACH'' of Some u \<Rightarrow> Some u
      | None \<Rightarrow> (case named ''PIECE'' of Some u \<Rightarrow> Some u
      | None \<Rightarrow> (case us of [] \<Rightarrow> None | u # _ \<Rightarrow> Some u))))"

definition bootstrap_purchase_unit ::
  "'d decimal_lib \<Rightarrow> (nat \<Rightarrow> string) \<Rightarrow> string \<Rightarrow> string \<Rightarrow> jnum \<Rightarrow> UomDb \<Rightarrow> (UomServiceError, UomDb) result" where
  "bootstrap_purchase_unit D gen p u factor db =
     (if getUomById u db = None then Inr db
      else and_then (assertNoCanonicalDuplicateMeaning p u None db) (\<lambda>_.
        and_then (createProductUom gen \<lparr>ca_productId = p, ca_uomId = u, ca_factor = factor, ca_barcode = None, ca_isDefault = False,
          ca_priceOverride = None, ca_costOverride = None\<rparr> db) (\<lambda>(_, db).
        syncCanonicalConversion D p u factor False db)))"

definition units_or_seed :: "(nat \<Rightarrow> string) \<Rightarrow> UomDb \<Rightarrow> (UomServiceError, DbUom list \<times> UomDb) result" where
  "units_or_seed gen db =
     (if listUoms db = [] then and_then (createUom gen ''EACH'' (Some ''ea'') (Some ''QUANTITY'') db) (\<lambda>(u, db). Inr ([u], db))
      else Inr (listUoms db, db))"

definition bootstrap_base_unit ::
  "'d decimal_lib \<Rightarrow> (nat \<Rightarrow> string) \<Rightarrow> string \<Rightarrow> string \<Rightarrow> UomDb \<Rightarrow> (UomServiceError, UomDb) result" where
  "bootstrap_base_unit D gen p u db =
     and_then (createProductUom gen \<lparr>ca_productId = p, ca_uomId = u, ca_factor = Fin 1, ca_barcode = None, ca_isDefault = True,
       ca_priceOverride = None, ca_costOverride = None\<rparr> db) (\<lambda>(_, db).
     syncCanonicalConversion D p u (Fin 1) True (setProductBaseUomId p u db))"

definition bootstrapProductUomsFromCreateInput ::
  "'d decimal_lib \<Rightarrow> (nat \<Rightarrow> string) \<Rightarrow> string \<Rightarrow> string option \<Rightarrow> jnum option \<Rightarrow> string option \<Rightarrow> UomDb \<Rightarrow> (UomServiceError, UomDb) result" where
  "bootstrapProductUomsFromCreateInput D gen p unitOfMeasure conversionFactor purchaseUomId db =
     (if listProductUoms p db \<noteq> [] then Inr db
      else and_then (units_or_seed gen db) (\<lambda>(us, db).
        case base_candidate us (str_or unitOfMeasure ''EACH'') of
          None \<Rightarrow> Inl US_NO_UOMS
        | Some base \<Rightarrow>
            and_then (bootstrap_base_unit D gen p (um_id base) db) (\<lambda>db.
            case purchaseUomId of
              None \<Rightarrow> Inr db
            | Some u \<Rightarrow> if js_trim u = [] \<or> u = um_id base then Inr db
                else bootstrap_purchase_unit D gen p u (parseConversionFactor (coalesce conversionFactor (Fin 1))) db)))"

definition bootstrapLegacyProductUomFromProductRow ::
  "'d decimal_lib \<Rightarrow> (nat \<Rightarrow> string) \<Rightarrow> string \<Rightarrow> UomDb \<Rightarrow> (UomServiceError, UomDb) result" where
  "bootstrapLegacyProductUomFromProductRow D gen p db =
     (if listProductUoms p db \<noteq> [] then Inr db
      else bootstrapProductUomsFromCreateInput D gen p
             (Some (str_or (map_option js_trim (getProductLegacyUnitOfMeasure p db)) ''EACH'')) (Some (Fin 1)) None db)"

text \<open>Returns the base unit the code goes on with and the tables.\<close>

definition ensureProductBaseUomContext ::
  "'d decimal_lib \<Rightarrow> (nat \<Rightarrow> string) \<Rightarrow> string \<Rightarrow> UomDb \<Rightarrow> (UomServiceError, string option \<times> UomDb) result" where
  "ensureProductBaseUomContext D gen p db =
     and_then (if \<not> truthy_str (getProductBaseUomId p db) \<and> listProductUoms p db = []
               then bootstrapLegacyProductUomFromProductRow D gen p db else Inr db) (\<lambda>db.
     if truthy_str (getProductBaseUomId p db) then Inr (getProductBaseUomId p db, db)
     else case listProductUoms p db of
         [] \<Rightarrow> Inr (getProductBaseUomId p db, db)
       | d # ds \<Rightarrow> (let c = dp_row (coalesce (find (\<lambda>d. pu_isDefault (dp_row d)) (d # ds)) d) in
           Inr (Some (pu_uomId c), setProductUomAsBase p (pu_id c) (pu_uomId c) db)))"

definition effective_row :: "string option \<Rightarrow> bool \<Rightarrow> jnum \<Rightarrow> bool \<times> jnum" where
  "effective_row base isDefault factor =
     (if \<not> truthy_str base then (True, Fin 1) else if isDefault then (True, Fin 1) else (False, factor))"

subsection \<open>Purchase unit\<close>

record ProductPurchaseUomIntegrityCheck =
  pc_baseUomId :: "string option"
  pc_purchaseUomId :: "string option"
  pc_valid :: bool
  pc_missingBaseUom :: bool
  pc_missingProductUomsRow :: bool
  pc_missingConversionPath :: bool
  pc_effectivePoUomId :: "string option"

text \<open>\<open>resolveFactorToBase\<close> always returns (\<open>resolution_returns\<close>).\<close>

definition resolve_factor :: "'d decimal_lib \<Rightarrow> string \<Rightarrow> string option \<Rightarrow> ItemUomConversion list \<Rightarrow> (UomError, 'd ResolvedUom) result" where
  "resolve_factor D base selected cs = (case resolveFactorToBase D base selected cs of Some r \<Rightarrow> r | None \<Rightarrow> Inl UE_LOOP)"

definition checkProductPurchaseUomIntegrity :: "'d decimal_lib \<Rightarrow> string \<Rightarrow> UomDb \<Rightarrow> ProductPurchaseUomIntegrityCheck" where
  "checkProductPurchaseUomIntegrity D p db =
     (let base = getProductBaseUomId p db;
          purchase = (case getProductPurchaseUomContext p db of Some (u, _) \<Rightarrow> u | None \<Rightarrow> None);
          purchase = (if truthy_str purchase \<and> purchase \<noteq> base then purchase else None);
          chk = \<lparr>pc_baseUomId = base, pc_purchaseUomId = purchase, pc_valid = True, pc_missingBaseUom = False,
                 pc_missingProductUomsRow = False, pc_missingConversionPath = False, pc_effectivePoUomId = None\<rparr> in
      if \<not> truthy_str base then chk\<lparr>pc_valid := False, pc_missingBaseUom := True\<rparr>
      else case purchase of
          None \<Rightarrow> chk
        | Some u \<Rightarrow>
            if \<not> (\<exists>d \<in> set (listProductUoms p db). pu_uomId (dp_row d) = u)
            then chk\<lparr>pc_valid := False, pc_missingProductUomsRow := True, pc_missingConversionPath := True\<rparr>
            else (case resolve_factor D (the base) (Some u) (buildMergedCanonicalConversions p (the base) db) of
                Inr _ \<Rightarrow> chk\<lparr>pc_effectivePoUomId := Some u\<rparr>
              | Inl _ \<Rightarrow> chk\<lparr>pc_valid := False, pc_missingConversionPath := True\<rparr>))"

definition validateProductPurchaseUomIntegrity ::
  "'d decimal_lib \<Rightarrow> string \<Rightarrow> UomDb \<Rightarrow> (UomServiceError, ProductPurchaseUomIntegrityCheck) result" where
  "validateProductPurchaseUomIntegrity D p db =
     (let chk = checkProductPurchaseUomIntegrity D p db in
      if pc_valid chk then Inr chk
      else if pc_missingBaseUom chk then Inl US_NO_BASE
      else if pc_missingProductUomsRow chk then Inl US_PURCHASE_NOT_CONFIGURED
      else if pc_missingConversionPath chk then Inl US_PURCHASE_NO_PATH
      else Inr chk)"

definition assertPurchaseUomConfiguredInProductUoms :: "string \<Rightarrow> string \<Rightarrow> UomDb \<Rightarrow> (UomServiceError, unit) result" where
  "assertPurchaseUomConfiguredInProductUoms p purchaseUomId db =
     (let base = getProductBaseUomId p db in
      if \<not> truthy_str base \<or> purchaseUomId = the base then Inr ()
      else if \<exists>d \<in> set (listProductUoms p db). pu_uomId (dp_row d) = purchaseUomId then Inr ()
      else Inl US_PURCHASE_NOT_CONFIGURED)"

text \<open>The check at the end of a write.\<close>

definition validate_purchase :: "'d decimal_lib \<Rightarrow> string \<Rightarrow> UomDb \<Rightarrow> (UomServiceError, unit) result" where
  "validate_purchase D p db =
     (case getProductPurchaseUomContext p db of
        Some (u, base) \<Rightarrow> if truthy_str u \<and> u \<noteq> base
          then and_then (validateProductPurchaseUomIntegrity D p db) (\<lambda>_. Inr ()) else Inr ()
      | None \<Rightarrow> Inr ())"

subsection \<open>Repair\<close>

fun repair_rows :: "string \<Rightarrow> string \<Rightarrow> ProductUom list \<Rightarrow> UomDb \<Rightarrow> (UomServiceError, UomDb) result" where
  "repair_rows p base [] db = Inr db"
| "repair_rows p base (r # rs) db =
     (if pu_isDefault r \<or> pu_uomId r = base then repair_rows p base rs (deleteItemUomConversionBySource p (pu_uomId r) db)
      else and_then (upsertItemUomConversion p (pu_uomId r) base (parseConversionFactor (js_round_rat (pu_factor r))) True db)
             (repair_rows p base rs))"

definition repairCanonicalConversionsFromProductUoms ::
  "'d decimal_lib \<Rightarrow> (nat \<Rightarrow> string) \<Rightarrow> string \<Rightarrow> UomDb \<Rightarrow> (UomServiceError, UomDb) result" where
  "repairCanonicalConversionsFromProductUoms D gen p db =
     and_then (ensureProductBaseUomContext D gen p db) (\<lambda>(_, db).
     let base = getProductBaseUomId p db in
     if \<not> truthy_str base then Inr db
     else and_then (repair_rows p (the base) (map dp_row (listProductUoms p db)) db) (\<lambda>db.
       Inr (fold (\<lambda>c db. if iv_toUomId c \<noteq> the base then deleteItemUomConversionBySource p (iv_fromUomId c) db else db)
              (listItemUomConversions p db) db)))"

definition repairOrphanedPurchaseUom ::
  "'d decimal_lib \<Rightarrow> (nat \<Rightarrow> string) \<Rightarrow> string \<Rightarrow> jnum option \<Rightarrow> UomDb \<Rightarrow> (UomServiceError, bool \<times> UomDb) result" where
  "repairOrphanedPurchaseUom D gen p given db =
     (case find (\<lambda>o'. op_productId o' = p) (listOrphanedPurchaseUomProducts db) of
        None \<Rightarrow> Inr (False, db)
      | Some row \<Rightarrow>
          (let factor = (case given of Some f \<Rightarrow> Some f | None \<Rightarrow> op_existingConversionFactor row) in
           and_then (throw_if (case factor of None \<Rightarrow> True | Some f \<Rightarrow> \<not> is_finite f \<or> jle f (Fin 0)) US_REPAIR_FACTOR) (\<lambda>_.
           and_then (if op_missingProductUomsRow row
                     then createProductUom gen \<lparr>ca_productId = p, ca_uomId = op_purchaseUomId row, ca_factor = the factor, ca_barcode = None,
                            ca_isDefault = False, ca_priceOverride = None, ca_costOverride = None\<rparr> db
                     else Inr (None, db)) (\<lambda>(_, db).
           and_then (syncCanonicalConversion D p (op_purchaseUomId row) (the factor) False db) (\<lambda>db.
           and_then (validateProductPurchaseUomIntegrity D p db) (\<lambda>_.
           Inr (True, db)))))))"

text \<open>One transaction per product: an error ends the batch and keeps what was repaired before.\<close>

fun repair_orphans ::
  "'d decimal_lib \<Rightarrow> (nat \<Rightarrow> string) \<Rightarrow> (string \<Rightarrow> jnum option) \<Rightarrow> jnum option \<Rightarrow> OrphanedPurchaseUomRow list \<Rightarrow> UomDb
   \<Rightarrow> (UomServiceError, string list) result \<times> UomDb" where
  "repair_orphans D gen given otherwise' [] db = (Inr [], db)"
| "repair_orphans D gen given otherwise' (row # rows) db =
     (let factor = (case given (op_productId row) of Some f \<Rightarrow> Some f
        | None \<Rightarrow> (case op_existingConversionFactor row of Some f \<Rightarrow> Some f | None \<Rightarrow> otherwise')) in
      case repairOrphanedPurchaseUom D gen (op_productId row) factor db of
          Inl e \<Rightarrow> (Inl e, db)
        | Inr (done, db) \<Rightarrow> (case repair_orphans D gen given otherwise' rows db of
              (Inl e, db) \<Rightarrow> (Inl e, db)
            | (Inr ps, db) \<Rightarrow> (Inr (if done then op_productId row # ps else ps), db)))"

definition repairAllOrphanedPurchaseUoms ::
  "'d decimal_lib \<Rightarrow> (nat \<Rightarrow> string) \<Rightarrow> (string \<Rightarrow> jnum option) \<Rightarrow> jnum option \<Rightarrow> bool \<Rightarrow> UomDb
   \<Rightarrow> (UomServiceError, string list) result \<times> UomDb" where
  "repairAllOrphanedPurchaseUoms D gen given otherwise' dryRun db =
     (let orphans = listOrphanedPurchaseUomProducts db in
      if dryRun \<or> orphans = [] then (Inr [], db) else repair_orphans D gen given otherwise' orphans db)"

subsection \<open>Units of a sale line\<close>

definition resolveCanonicalProductUom ::
  "'d decimal_lib \<Rightarrow> (nat \<Rightarrow> string) \<Rightarrow> string \<Rightarrow> string option \<Rightarrow> UomDb \<Rightarrow> (UomServiceError, (string option \<times> jnum) \<times> UomDb) result" where
  "resolveCanonicalProductUom D gen p selectedUomId db =
     and_then (ensureProductBaseUomContext D gen p db) (\<lambda>(_, db).
     let base = getProductBaseUomId p db in
     if \<not> truthy_str base then Inr ((None, Fin 1), db)
     else let selected = normalizeSelectedMasterUomId p selectedUomId db in
       if \<not> truthy_str selected \<or> selected = base then Inr ((base, Fin 1), db)
       else (case resolve_factor D (the base) selected (buildMergedCanonicalConversions p (the base) db) of
           Inr u \<Rightarrow> Inr ((base, dl_toNumber D (ru_factorToBase u)), db)
         | Inl UE_NO_PATH \<Rightarrow> Inl US_NOT_CONFIGURED
         | Inl e \<Rightarrow> Inl (US_GRAPH e)))"

record SaleLineUomInput =
  sl_quantity :: jnum
  sl_uomId :: "string option"
  sl_uom :: "string option"

record SaleItemUomSnapshot =
  sn_baseUomId :: string
  sn_sellingUomId :: "string option"
  sn_conversionFactor :: jnum
  sn_baseQuantity :: jnum

text \<open>Whether a label names the product's base unit: that of its default row, or of its first.\<close>

definition names_base :: "string \<Rightarrow> DbProductUom list \<Rightarrow> bool" where
  "names_base label ds =
     (let dflt = (case find (\<lambda>d. pu_isDefault (dp_row d)) ds of Some d \<Rightarrow> Some d | None \<Rightarrow> (case ds of [] \<Rightarrow> None | d # _ \<Rightarrow> Some d));
          base = canonicalizeUomName (case dflt of None \<Rightarrow> [] | Some d \<Rightarrow> str_or (dp_symbol d) (dp_name d))
      in base \<noteq> [] \<and> canonicalizeUomName label = base)"

definition resolveSaleLineSelectedMasterUomId :: "string \<Rightarrow> SaleLineUomInput \<Rightarrow> UomDb \<Rightarrow> string option" where
  "resolveSaleLineSelectedMasterUomId p input db =
     (if truthy_str (sl_uomId input) then normalizeSelectedMasterUomId p (sl_uomId input) db
      else let label = js_trim (str_or (sl_uom input) []); ds = listProductUoms p db; want = canonicalizeUomName label in
        if label = [] \<or> names_base label ds then None
        else map_option (\<lambda>d. pu_uomId (dp_row d)) (find (\<lambda>d. let symbol = (if truthy_str (dp_symbol d) then canonicalizeUomName (the (dp_symbol d)) else [])
               in canonicalizeUomName (dp_name d) = want \<or> symbol \<noteq> [] \<and> symbol = want) ds))"

definition isCountableBaseUomPlaceholder :: "string \<Rightarrow> bool" where
  "isCountableBaseUomPlaceholder label \<longleftrightarrow> canonicalizeUomName label = ''EACH''"

definition assertResolvableSaleLineUom :: "string \<Rightarrow> SaleLineUomInput \<Rightarrow> string option \<Rightarrow> UomDb \<Rightarrow> (UomServiceError, unit) result" where
  "assertResolvableSaleLineUom p input selected db =
     (if truthy_str (sl_uomId input) then Inr ()
      else let label = js_trim (str_or (sl_uom input) []); ds = listProductUoms p db in
        if label = [] \<or> names_base label ds then Inr ()
        else if truthy_str selected then Inr ()
        else if isCountableBaseUomPlaceholder label \<and> ds \<noteq> [] then Inr ()
        else Inl US_NOT_CONFIGURED)"

definition resolveSaleItemUom ::
  "'d decimal_lib \<Rightarrow> (nat \<Rightarrow> string) \<Rightarrow> string \<Rightarrow> SaleLineUomInput \<Rightarrow> UomDb \<Rightarrow> (UomServiceError, SaleItemUomSnapshot \<times> UomDb) result" where
  "resolveSaleItemUom D gen p input db =
     and_then (ensureProductBaseUomContext D gen p db) (\<lambda>(_, db).
     let selected = resolveSaleLineSelectedMasterUomId p input db in
     and_then (assertResolvableSaleLineUom p input selected db) (\<lambda>_.
     and_then (resolveCanonicalProductUom D gen p selected db) (\<lambda>((base, conversionFactor), db).
     and_then (throw_if (\<not> truthy_str base) US_NO_BASE) (\<lambda>_.
     let factor = dl_of_num D conversionFactor in
     Inr (\<lparr>sn_baseUomId = the base, sn_sellingUomId = (case selected of Some u \<Rightarrow> Some u | None \<Rightarrow> base),
           sn_conversionFactor = dl_toNumber D factor, sn_baseQuantity = dl_toNumber D (dl_times D (dl_of_num D (sl_quantity input)) factor)\<rparr>, db)))))"

definition requireProductBaseUom ::
  "'d decimal_lib \<Rightarrow> (nat \<Rightarrow> string) \<Rightarrow> string \<Rightarrow> UomDb \<Rightarrow> (UomServiceError, (string \<times> jnum) \<times> UomDb) result" where
  "requireProductBaseUom D gen p db =
     and_then (resolveSaleItemUom D gen p \<lparr>sl_quantity = Fin 1, sl_uomId = None, sl_uom = None\<rparr> db) (\<lambda>(s, db).
     Inr ((sn_baseUomId s, sn_conversionFactor s), db))"

subsection \<open>Master units\<close>

definition createMasterUom :: "(nat \<Rightarrow> string) \<Rightarrow> string \<Rightarrow> string option \<Rightarrow> string \<Rightarrow> UomDb \<Rightarrow> (UomServiceError, DbUom \<times> UomDb) result" where
  "createMasterUom gen name symbol type db =
     (let canonical = canonicalizeUomName name in
      and_then (throw_if (\<exists>u \<in> set (listUoms db). canonicalizeUomName (um_name u) = canonical) US_NAME_TAKEN) (\<lambda>_.
      createUom gen canonical symbol (Some type) db))"

definition updateMasterUom :: "string \<Rightarrow> UomPatch \<Rightarrow> UomDb \<Rightarrow> (UomServiceError, DbUom option \<times> UomDb) result" where
  "updateMasterUom i x db =
     (let name = (if truthy_str (xm_name x) then Some (canonicalizeUomName (the (xm_name x))) else None) in
      and_then (throw_if (truthy_str name \<and> (\<exists>u \<in> set (listUoms db). um_id u \<noteq> i \<and> canonicalizeUomName (um_name u) = the name)) US_NAME_TAKEN) (\<lambda>_.
      updateUom i (x\<lparr>xm_name := name\<rparr>) db))"

definition deleteMasterUom :: "string \<Rightarrow> UomDb \<Rightarrow> (UomServiceError, bool \<times> UomDb) result" where
  "deleteMasterUom i db =
     (let usage = getUomUsageCounts i db in
      and_then (throw_if (0 < uu_saleItems usage + uu_poItems usage + uu_grItems usage + uu_stockMovements usage) US_IN_DOCUMENTS) (\<lambda>_.
      and_then (throw_if (0 < uu_productBase usage) US_IS_BASE) (\<lambda>_.
      deleteUom i (if 0 < uu_productUoms usage then deleteProductUomsByUomId i db else db))))"

subsection \<open>Units of a product\<close>

definition clearRedundantOverrides ::
  "'d decimal_lib \<Rightarrow> string \<Rightarrow> jnum \<Rightarrow> jnum option \<Rightarrow> jnum option \<Rightarrow> UomDb \<Rightarrow> jnum option \<times> jnum option" where
  "clearRedundantOverrides D p factor costOverride priceOverride db =
     (if jle factor (Fin 1) \<or> costOverride = None \<and> priceOverride = None then (costOverride, priceOverride)
      else case product_of p db of
          None \<Rightarrow> (costOverride, priceOverride)
        | Some q \<Rightarrow>
            (let near = (\<lambda>a b. jlt (jabs (jsub a b)) (lit (1 / 100)));
                 computed = (\<lambda>x. dl_toNumber D (dl_times D (dl_of_num D x) (dl_of_num D factor)));
                 baseCost = js_round_rat (up_costPrice q); basePrice = js_round_rat (up_sellingPrice q);
                 clear = (\<lambda>base x. case x of None \<Rightarrow> None | Some y \<Rightarrow> if near y base \<or> near y (computed base) then None else Some y)
             in (clear baseCost costOverride, clear basePrice priceOverride)))"

definition check_factor_change :: "DbProductUom \<Rightarrow> jnum option \<Rightarrow> UomDb \<Rightarrow> (UomServiceError, unit) result" where
  "check_factor_change existing factor db =
     (case factor of
        None \<Rightarrow> Inr ()
      | Some new \<Rightarrow>
          and_then (throw_if (\<not> is_finite new \<or> jlt new (Fin 1)) US_FACTOR) (\<lambda>_.
          throw_if (isMeaningfulFactorChange (js_round_rat (pu_factor (dp_row existing))) new
            \<and> \<not> canChangeConversionFactor (getProductOnHandBase (pu_productId (dp_row existing)) db)) US_STOCK_ON_HAND))"

definition rename_unit :: "DbProductUom \<Rightarrow> string \<Rightarrow> UomDb \<Rightarrow> UomDb" where
  "rename_unit existing uomId db =
     (let r = dp_row existing; p = pu_productId r;
          db = (case getProductPurchaseUomContext p db of
                  Some (Some u, _) \<Rightarrow> if u = pu_uomId r then setProductPurchaseUomId p (Some uomId) db else db
                | _ \<Rightarrow> db)
      in deleteItemUomConversionBySource p (pu_uomId r) db)"

definition cleared_patch :: "'d decimal_lib \<Rightarrow> DbProductUom \<Rightarrow> ProductUomPatch \<Rightarrow> UomDb \<Rightarrow> ProductUomPatch" where
  "cleared_patch D existing x db =
     (let r = dp_row existing in
      if xu_costOverride x = None \<and> xu_priceOverride x = None then x
      else let (cost, price) = clearRedundantOverrides D (pu_productId r) (coalesce (xu_factor x) (js_round_rat (pu_factor r)))
                 (coalesce (xu_costOverride x) None) (coalesce (xu_priceOverride x) None) db
           in x\<lparr>xu_costOverride := Some cost, xu_priceOverride := Some price\<rparr>)"

definition prepare_write :: "DbProductUom \<Rightarrow> ProductUomPatch \<Rightarrow> UomDb \<Rightarrow> UomDb" where
  "prepare_write existing x db =
     (let r = dp_row existing;
          db = (if xu_uomId x \<noteq> None \<and> xu_uomId x \<noteq> Some (pu_uomId r)
                then rename_unit existing (coalesce (xu_uomId x) (pu_uomId r)) db else db)
      in if xu_isDefault x = Some True then unsetDefaultForProduct (pu_productId r) db else db)"

definition finish_write :: "'d decimal_lib \<Rightarrow> ProductUomPatch \<Rightarrow> ProductUom \<Rightarrow> UomDb \<Rightarrow> (UomServiceError, UomDb) result" where
  "finish_write D x r db =
     and_then (syncCanonicalConversion D (pu_productId r) (pu_uomId r) (coalesce (xu_factor x) (js_round_rat (pu_factor r)))
       (coalesce (xu_isDefault x) (pu_isDefault r)) db) (\<lambda>db.
     and_then (validate_purchase D (pu_productId r) db) (\<lambda>_. Inr db))"

definition write_product_uom ::
  "'d decimal_lib \<Rightarrow> DbProductUom \<Rightarrow> ProductUomPatch \<Rightarrow> UomDb \<Rightarrow> (UomServiceError, DbProductUom option \<times> UomDb) result" where
  "write_product_uom D existing x db =
     and_then (repo_updateProductUom (pu_id (dp_row existing)) (cleared_patch D existing x db) (prepare_write existing x db)) (\<lambda>(result, db).
     case result of
       None \<Rightarrow> Inr (None, db)
     | Some d \<Rightarrow> and_then (finish_write D x (dp_row d) db) (\<lambda>db. Inr (Some d, db)))"

definition updateProductUom ::
  "'d decimal_lib \<Rightarrow> (nat \<Rightarrow> string) \<Rightarrow> string \<Rightarrow> ProductUomPatch \<Rightarrow> UomDb \<Rightarrow> (UomServiceError, DbProductUom option \<times> UomDb) result" where
  "updateProductUom D gen i x db =
     (case getProductUomById i db of
        None \<Rightarrow> Inr (None, db)
      | Some existing \<Rightarrow>
          (let r = dp_row existing; p = pu_productId r in
           and_then (ensureProductBaseUomContext D gen p db) (\<lambda>(_, db).
           and_then (throw_if (isBaseUomIdentityChange (xu_uomId x \<noteq> None \<and> xu_uomId x \<noteq> Some (pu_uomId r)) (pu_isDefault r) (pu_uomId r)
             (getProductBaseUomId p db)) US_REBASE) (\<lambda>_.
           and_then (check_factor_change existing (xu_factor x) db) (\<lambda>_.
           and_then (assertNoCanonicalDuplicateMeaning p (coalesce (xu_uomId x) (pu_uomId r)) (Some i) db) (\<lambda>_.
           write_product_uom D existing x db))))))"

record AddProductUom =
  ap_productId :: string
  ap_uomId :: string
  ap_factor :: jnum
  ap_barcode :: "string option option"
  ap_isDefault :: bool
  ap_priceOverride :: "jnum option option"
  ap_costOverride :: "jnum option option"

definition insert_product_unit ::
  "'d decimal_lib \<Rightarrow> (nat \<Rightarrow> string) \<Rightarrow> AddProductUom \<Rightarrow> bool \<Rightarrow> jnum \<Rightarrow> UomDb \<Rightarrow> (UomServiceError, DbProductUom option \<times> UomDb) result" where
  "insert_product_unit D gen a isDefault factor db =
     (let p = ap_productId a; db = (if isDefault then unsetDefaultForProduct p db else db);
          overrides = clearRedundantOverrides D p factor (coalesce (ap_costOverride a) None) (coalesce (ap_priceOverride a) None) db in
      and_then (createProductUom gen \<lparr>ca_productId = p, ca_uomId = ap_uomId a, ca_factor = factor, ca_barcode = coalesce (ap_barcode a) None,
        ca_isDefault = isDefault, ca_priceOverride = snd overrides, ca_costOverride = fst overrides\<rparr> db) (\<lambda>(result, db).
      and_then (syncCanonicalConversion D p (ap_uomId a) factor isDefault db) (\<lambda>db.
      and_then (validate_purchase D p db) (\<lambda>_.
      Inr (result, db)))))"

definition addProductUom ::
  "'d decimal_lib \<Rightarrow> (nat \<Rightarrow> string) \<Rightarrow> AddProductUom \<Rightarrow> UomDb \<Rightarrow> (UomServiceError, DbProductUom option \<times> UomDb) result" where
  "addProductUom D gen a db =
     and_then (ensureProductBaseUomContext D gen (ap_productId a) db) (\<lambda>(base, db).
     let effective = effective_row base (ap_isDefault a) (ap_factor a); isDefault = fst effective; factor = snd effective in
     and_then (findCanonicalDuplicateProductUom (ap_productId a) (ap_uomId a) None db) (\<lambda>dup.
     case dup of
       Some d \<Rightarrow> updateProductUom D gen (pu_id (dp_row d)) \<lparr>xu_uomId = Some (ap_uomId a), xu_factor = Some factor, xu_barcode = ap_barcode a,
           xu_isDefault = Some isDefault, xu_priceOverride = ap_priceOverride a, xu_costOverride = ap_costOverride a\<rparr> db
     | None \<Rightarrow> insert_product_unit D gen a isDefault factor db))"

text \<open>Two statements on the pool.\<close>

definition removeProductUom :: "string \<Rightarrow> UomDb \<Rightarrow> (UomServiceError, bool \<times> UomDb) result" where
  "removeProductUom i db =
     (case getProductUomById i db of
        None \<Rightarrow> Inr (False, db)
      | Some existing \<Rightarrow>
          (let r = dp_row existing; p = pu_productId r in
           and_then (throw_if (pu_isDefault r \<or> getProductBaseUomId p db = Some (pu_uomId r)) US_BASE_ROW) (\<lambda>_.
           and_then (throw_if (case getProductPurchaseUomContext p db of Some (u, _) \<Rightarrow> u = Some (pu_uomId r) | None \<Rightarrow> False) US_IS_PURCHASE_UOM) (\<lambda>_.
           Inr (deleteProductUom i (deleteItemUomConversionBySource p (pu_uomId r) db))))))"

end
