(* ===== verification/DecimalProducts.thy ===== *)
theory DecimalProducts imports Decimals
begin

section \<open>Exact decimals\<close>

text \<open>What the code relies on of the products and quotients of Decimal.js, and which numbers have at most 20 digits:
  those with \<open>s\<close> decimals below \<open>10^(20-s)\<close>. A NUMERIC column of scale \<open>s\<close> keeps a number with \<open>s\<close>
  decimals and moves any other by at most half a unit of its last place.\<close>

text \<open>Documented behaviour: a product of at most 20 significant digits is exact.\<close>

definition times_exact :: "'d decimal_lib \<Rightarrow> ('d \<Rightarrow> rat) \<Rightarrow> bool" where
  "times_exact D v \<longleftrightarrow> (\<forall>a b. sig20 (v a * v b) \<longrightarrow> v (dl_times D a b) = v a * v b)"

lemma rat_times_exact: "times_exact rat_decimal (\<lambda>a. a)"
  by (simp add: times_exact_def rat_decimal_def)

text \<open>Documented behaviour: a quotient is rounded correctly, so it stays between numbers of at most
  20 digits that bound the exact one.\<close>

definition div_between :: "'d decimal_lib \<Rightarrow> ('d \<Rightarrow> rat) \<Rightarrow> bool" where
  "div_between D v \<longleftrightarrow> (\<forall>a b lo hi. 0 < v b \<and> sig20 lo \<and> sig20 hi \<and> lo * v b \<le> v a \<and> v a \<le> hi * v b
     \<longrightarrow> lo \<le> v (dl_div D a b) \<and> v (dl_div D a b) \<le> hi)"

lemma rat_div_between: "div_between rat_decimal (\<lambda>a. a)"
  by (simp add: div_between_def rat_decimal_def pos_le_divide_eq pos_divide_le_eq)

lemma sig20_int: "\<bar>n\<bar> < 10 ^ 20 \<Longrightarrow> sig20 (of_int n)"
  unfolding sig20_def by (intro exI [of _ n] exI [of _ 0]) simp

lemma prod_ge_one: "\<forall>x \<in> set xs. 1 \<le> g x \<Longrightarrow> 1 \<le> (\<Prod>x \<leftarrow> xs. g x :: rat)"
proof (induction xs)
  case (Cons x xs)
  then show ?case using mult_mono [of 1 "g x" 1 "\<Prod>x \<leftarrow> xs. g x"] by simp
qed simp

definition scaled :: "nat \<Rightarrow> rat \<Rightarrow> bool" where
  "scaled s q \<longleftrightarrow> (\<exists>k. q = of_int k / 10 ^ s)"

lemma scaled_0 [simp, intro]: "scaled s 0"
  unfolding scaled_def by (intro exI [of _ 0]) simp

lemma scaled_plus [intro]: "scaled s a \<Longrightarrow> scaled s b \<Longrightarrow> scaled s (a + b)"
  unfolding scaled_def by (metis add_divide_distrib of_int_add)

lemma scaled_minus [intro]: "scaled s a \<Longrightarrow> scaled s b \<Longrightarrow> scaled s (a - b)"
  unfolding scaled_def by (metis diff_divide_distrib of_int_diff)

lemma scaled_times: "scaled s a \<Longrightarrow> scaled t b \<Longrightarrow> scaled (s + t) (a * b)"
  unfolding scaled_def power_add by (metis of_int_mult times_divide_times_eq)

lemma scaled_min [intro]: "scaled s a \<Longrightarrow> scaled s b \<Longrightarrow> scaled s (min a b)"
  by (simp add: min_def)

lemma scaled_sum_list: "\<forall>x \<in> set xs. scaled s (f x) \<Longrightarrow> scaled s (\<Sum>x \<leftarrow> xs. f x)"
  by (induction xs) auto

lemma scaled_pg_round [simp, intro]: "scaled s (pg_round s q)"
proof -
  have "pg_round s q = of_int (if q < 0 then - \<lfloor>\<bar>q\<bar> * 10 ^ s + 1 / 2\<rfloor> else \<lfloor>\<bar>q\<bar> * 10 ^ s + 1 / 2\<rfloor>) / 10 ^ s"
    by (simp add: pg_round_def Let_def)
  then show ?thesis unfolding scaled_def by blast
qed

lemma pg_round_scaled [simp]: "scaled s q \<Longrightarrow> pg_round s q = q"
  unfolding scaled_def using pg_round_exact [of q s] by force

lemma scaled_sig20: "scaled s q \<Longrightarrow> \<bar>q\<bar> * 10 ^ s < 10 ^ 20 \<Longrightarrow> sig20 q"
proof -
  assume "scaled s q" and b: "\<bar>q\<bar> * 10 ^ s < 10 ^ 20"
  then obtain k where k: "q = of_int k / 10 ^ s" unfolding scaled_def by blast
  have "of_int \<bar>k\<bar> < (of_int (10 ^ 20) :: rat)" using b by (simp add: k)
  then have "\<bar>k\<bar> < 10 ^ 20" by (simp only: of_int_less_iff)
  then show ?thesis unfolding sig20_def using k by blast
qed

lemma pg_round_near: "\<bar>pg_round s q - q\<bar> \<le> 1 / (2 * 10 ^ s)"
proof -
  let ?k = "of_int \<lfloor>\<bar>q\<bar> * 10 ^ s + 1 / 2\<rfloor> :: rat"
  have "\<bar>?k - \<bar>q\<bar> * 10 ^ s\<bar> \<le> 1 / 2" by linarith
  then have "\<bar>?k - \<bar>q\<bar> * 10 ^ s\<bar> / 10 ^ s \<le> 1 / 2 / 10 ^ s" by (intro divide_right_mono) simp_all
  moreover have "?k / 10 ^ s - \<bar>q\<bar> = (?k - \<bar>q\<bar> * 10 ^ s) / 10 ^ s" by (simp add: diff_divide_distrib)
  ultimately have "\<bar>?k / 10 ^ s - \<bar>q\<bar>\<bar> \<le> 1 / (2 * 10 ^ s)" by (simp add: abs_divide)
  then show ?thesis by (auto simp: pg_round_def Let_def)
qed

lemma pg_round_nonneg: "0 \<le> q \<Longrightarrow> 0 \<le> pg_round s q"
  by (simp add: pg_round_def Let_def)

lemma pg_round_mono: "0 \<le> a \<Longrightarrow> a \<le> b \<Longrightarrow> pg_round s a \<le> pg_round s b"
  by (simp add: pg_round_def Let_def divide_right_mono floor_mono mult_right_mono)

end
