(* ===== verification/UomTrees.thy ===== *)
theory UomTrees imports UomGraph DecimalProducts
begin

section \<open>What the conversion graph guarantees\<close>

text \<open>
  The validation accepts exactly the graphs in which every unit has one way to the base unit, and on
  such a graph the resolved factor is the product of the factors along that way.
\<close>

definition leads :: "edge_map \<Rightarrow> (string \<times> string) set" where
  "leads out = {(x, y). \<exists>e. map_of out x = Some e \<and> uc_toUomId e = y}"

lemma leads_unique: "(x, y) \<in> leads out \<Longrightarrow> (x, z) \<in> leads out \<Longrightarrow> y = z"
  by (auto simp: leads_def)

text \<open>From a node on a cycle there is no way off it.\<close>

lemma cycle_returns:
  assumes "(x, x) \<in> (leads out)\<^sup>+" "(x, y) \<in> (leads out)\<^sup>+"
  shows "(y, x) \<in> (leads out)\<^sup>+"
  using assms(2)
proof (induction rule: trancl_induct)
  case (base y)
  from assms(1) obtain z where z: "(x, z) \<in> leads out" "(z, x) \<in> (leads out)\<^sup>*" by (meson tranclD)
  then have "z = y" using base leads_unique by blast
  with z assms(1) show ?case by (meson rtrancl_trancl_trancl)
next
  case (step y w)
  from step.IH obtain z where z: "(y, z) \<in> leads out" "(z, x) \<in> (leads out)\<^sup>*" by (meson tranclD)
  then have "z = w" using step(2) leads_unique by blast
  with z assms(1) show ?case by (meson rtrancl_trancl_trancl)
qed

lemma cycle_misses_base:
  assumes "map_of out base = None" "(x, x) \<in> (leads out)\<^sup>+"
  shows "(x, base) \<notin> (leads out)\<^sup>+"
proof
  assume "(x, base) \<in> (leads out)\<^sup>+"
  from cycle_returns [OF assms(2) this] obtain z where "(base, z) \<in> leads out" by (meson tranclD)
  then show False using assms(1) by (simp add: leads_def)
qed

lemma walk_sound: "walk_to_base base out node seen current = None \<Longrightarrow> (current, base) \<in> (leads out)\<^sup>+"
proof (induction base out node seen current rule: walk_to_base.induct)
  case (1 base out node seen current)
  from "1.prems" obtain e where e: "current \<notin> set seen" "map_of out current = Some e"
    by (auto simp: walk_to_base.simps [of base out node seen] split: if_splits option.splits)
  then have l: "(current, uc_toUomId e) \<in> leads out" by (auto simp: leads_def)
  show ?case
  proof (cases "uc_toUomId e = base")
    case False
    with "1.prems" e have "walk_to_base base out node (current # seen) (uc_toUomId e) = None"
      by (simp add: walk_to_base.simps [of base out node seen])
    from "1.IH" [OF e False this] l show ?thesis by (meson trancl_into_trancl2)
  qed (use l in blast)
qed

lemma walk_complete:
  assumes "map_of out base = None"
  shows "(current, base) \<in> (leads out)\<^sup>+ \<Longrightarrow> \<forall>s \<in> set seen. (s, current) \<in> (leads out)\<^sup>+
    \<Longrightarrow> walk_to_base base out node seen current = None"
  using assms
proof (induction base out node seen current rule: walk_to_base.induct)
  case (1 base out node seen current)
  have n: "current \<notin> set seen" using cycle_misses_base [OF "1.prems"(3)] "1.prems"(1,2) by blast
  from "1.prems"(1) obtain y where y: "(current, y) \<in> leads out" "(y, base) \<in> (leads out)\<^sup>*" by (meson tranclD)
  then obtain e where e: "map_of out current = Some e" "uc_toUomId e = y" by (auto simp: leads_def)
  show ?case
  proof (cases "y = base")
    case False
    then have "(y, base) \<in> (leads out)\<^sup>+" using y(2) by (meson rtranclD)
    moreover have "\<forall>s \<in> set (current # seen). (s, y) \<in> (leads out)\<^sup>+"
      using "1.prems"(2) y(1) by (auto intro: trancl_into_trancl)
    ultimately have "walk_to_base base out node (current # seen) (uc_toUomId e) = None"
      using "1.IH" [OF n e(1)] False e(2) "1.prems"(3) by simp
    then show ?thesis using n e False by (simp add: walk_to_base.simps [of base out node seen])
  qed (use n e in \<open>simp add: walk_to_base.simps [of base out node seen]\<close>)
qed

lemma walk_iff: "map_of out base = None \<Longrightarrow> walk_to_base base out node [] current = None \<longleftrightarrow> (current, base) \<in> (leads out)\<^sup>+"
  using walk_sound [of base out node "[]" current] walk_complete [of out base current "[]" node] by auto

subsection \<open>Edges\<close>

definition conv_key :: "ItemUomConversion \<Rightarrow> string" where
  "conv_key c = pair_key (uc_fromUomId c) (uc_toUomId c)"

definition edge_ok :: "'d decimal_lib \<Rightarrow> string \<Rightarrow> ItemUomConversion \<Rightarrow> bool" where
  "edge_ok D base c \<longleftrightarrow> uc_fromUomId c \<noteq> uc_toUomId c \<and> is_ok (parseFactor D (uc_factor c)) \<and> uc_fromUomId c \<noteq> base"

lemma check_edges_issues: "\<exists>more. fst (check_edges D base cs issues out pairs) = issues @ more"
proof (induction cs arbitrary: issues out pairs)
  case (Cons c cs)
  have "\<exists>more. fst (check_edges D base cs (issues @ xs) out pairs) = issues @ more" for xs out pairs
    using Cons.IH [of "issues @ xs"] by (metis append.assoc)
  from this [of "[]"] this show ?case
    by (auto simp: Let_def split: sum.splits option.splits)
qed simp

lemma check_edges_started: "issues \<noteq> [] \<Longrightarrow> fst (check_edges D base cs issues out pairs) \<noteq> []"
  using check_edges_issues [of D base cs issues out pairs] by auto

lemma check_edges_ok:
  "fst (check_edges D base cs [] out pairs) = [] \<longleftrightarrow>
     (\<forall>c \<in> set cs. edge_ok D base c) \<and> distinct (map uc_fromUomId cs) \<and> distinct (map conv_key cs)
     \<and> uc_fromUomId ` set cs \<inter> fst ` set out = {} \<and> conv_key ` set cs \<inter> set pairs = {}"
proof (induction cs arbitrary: out pairs)
  case (Cons c cs)
  let ?f = "uc_fromUomId c"
  show ?case
  proof (cases "edge_ok D base c \<and> conv_key c \<notin> set pairs \<and> map_of out ?f = None")
    case True
    then have "check_edges D base (c # cs) [] out pairs = check_edges D base cs [] (out @ [(?f, c)]) (pairs @ [conv_key c])"
      by (auto simp: edge_ok_def is_ok_iff Let_def conv_key_def)
    then show ?thesis using True Cons.IH [of "out @ [(?f, c)]" "pairs @ [conv_key c]"]
      by (auto simp: map_of_eq_None_iff image_iff)
  next
    case False
    then have "fst (check_edges D base (c # cs) [] out pairs) \<noteq> []"
      by (auto simp: edge_ok_def is_ok_iff Let_def conv_key_def check_edges_started split: sum.splits option.splits)
    then show ?thesis using False by (auto simp: map_of_eq_None_iff)
  qed
qed simp

lemma check_edges_map:
  "fst (check_edges D base cs [] out pairs) = [] \<Longrightarrow>
     snd (check_edges D base cs [] out pairs) = out @ map (\<lambda>c. (uc_fromUomId c, c)) cs"
proof (induction cs arbitrary: out pairs)
  case (Cons c cs)
  let ?f = "uc_fromUomId c"
  have ok: "edge_ok D base c \<and> conv_key c \<notin> set pairs \<and> map_of out ?f = None"
    using Cons.prems by (auto simp: edge_ok_def is_ok_iff Let_def conv_key_def check_edges_started split: sum.splits option.splits if_splits)
  then have "check_edges D base (c # cs) [] out pairs = check_edges D base cs [] (out @ [(?f, c)]) (pairs @ [conv_key c])"
    by (auto simp: edge_ok_def is_ok_iff Let_def conv_key_def)
  then show ?case
    using Cons.IH [of "out @ [(?f, c)]" "pairs @ [conv_key c]"] Cons.prems by simp
qed simp

text \<open>Identifiers without a colon make the keys of two edges equal only if the edges join the same units.\<close>

lemma joined_inj:
  assumes "CHR '':'' \<notin> set a" "CHR '':'' \<notin> set a'" "a @ ''::'' @ b = a' @ ''::'' @ b'"
  shows "a = a' \<and> b = b'"
proof -
  have t: "takeWhile (\<lambda>c. c \<noteq> CHR '':'') (x @ ''::'' @ y) = x" if "CHR '':'' \<notin> set x" for x y
    using that by (induction x) auto
  have "a = a'" using t [OF assms(1), of b] t [OF assms(2), of b'] assms(3) by simp
  then show ?thesis using assms(3) by simp
qed

definition colon_free :: "ItemUomConversion \<Rightarrow> bool" where
  "colon_free c \<longleftrightarrow> CHR '':'' \<notin> set (uc_fromUomId c) \<and> CHR '':'' \<notin> set (uc_toUomId c)"

lemma conv_key_inj:
  assumes "colon_free c" "colon_free d" "conv_key c = conv_key d"
  shows "uc_fromUomId c = uc_fromUomId d \<or> uc_fromUomId c = uc_toUomId d \<and> uc_toUomId c = uc_fromUomId d"
  using assms joined_inj unfolding colon_free_def conv_key_def pair_key_def by (metis (full_types))

definition edges :: "ItemUomConversion list \<Rightarrow> (string \<times> string) set" where
  "edges cs = (\<lambda>c. (uc_fromUomId c, uc_toUomId c)) ` set cs"

lemma map_of_sources: "distinct (map uc_fromUomId cs) \<Longrightarrow>
    map_of (map (\<lambda>c. (uc_fromUomId c, c)) cs) x = Some c \<longleftrightarrow> c \<in> set cs \<and> uc_fromUomId c = x"
  by (induction cs) (auto simp: image_iff)

lemma map_of_edge_map: "distinct (map uc_fromUomId cs) \<Longrightarrow> map_of (edge_map_of cs) = map_of (map (\<lambda>c. (uc_fromUomId c, c)) cs)"
proof (rule ext)
  fix x assume d: "distinct (map uc_fromUomId cs)"
  have "map_of (edge_map_of cs) x = Some c \<longleftrightarrow> map_of (map (\<lambda>c. (uc_fromUomId c, c)) cs) x = Some c" for c
    using map_of_sources [of "rev cs" x c] map_of_sources [OF d, of x c] d by (simp add: edge_map_of_def rev_map [symmetric])
  then show "map_of (edge_map_of cs) x = map_of (map (\<lambda>c. (uc_fromUomId c, c)) cs) x" by (metis not_None_eq)
qed

lemma leads_edges: "distinct (map uc_fromUomId cs) \<Longrightarrow> leads (map (\<lambda>c. (uc_fromUomId c, c)) cs) = edges cs"
  by (auto simp: leads_def edges_def map_of_sources image_iff)

lemma base_no_source: "\<forall>c \<in> set cs. uc_fromUomId c \<noteq> base \<Longrightarrow> map_of (map (\<lambda>c. (uc_fromUomId c, c)) cs) base = None"
  by (auto simp: map_of_eq_None_iff)

text \<open>Canonical: usable factors, one conversion per unit, none of the base, and every unit leads to the base.\<close>

definition canonical :: "'d decimal_lib \<Rightarrow> string \<Rightarrow> ItemUomConversion list \<Rightarrow> bool" where
  "canonical D base cs \<longleftrightarrow> (\<forall>c \<in> set cs. is_ok (parseFactor D (uc_factor c)) \<and> uc_fromUomId c \<noteq> base)
     \<and> distinct (map uc_fromUomId cs) \<and> (\<forall>c \<in> set cs. (uc_fromUomId c, base) \<in> (edges cs)\<^sup>+)"

lemma walks_iff:
  assumes "\<forall>c \<in> set cs. uc_fromUomId c \<noteq> base" "distinct (map uc_fromUomId cs)"
  shows "List.map_filter (\<lambda>node. if node = base then None else walk_to_base base (map (\<lambda>c. (uc_fromUomId c, c)) cs) node [] node) (uom_nodes base cs) = []
    \<longleftrightarrow> (\<forall>c \<in> set cs. (uc_fromUomId c, base) \<in> (edges cs)\<^sup>+)"
proof -
  let ?out = "map (\<lambda>c. (uc_fromUomId c, c)) cs"
  have w: "walk_to_base base ?out node [] x = None \<longleftrightarrow> (x, base) \<in> (edges cs)\<^sup>+" for node x
    unfolding walk_iff [OF base_no_source [OF assms(1)]] leads_edges [OF assms(2)] ..
  have n: "set (uom_nodes base cs) = {base} \<union> uc_fromUomId ` set cs \<union> uc_toUomId ` set cs"
    by (auto simp: uom_nodes_def in_order_def)
  have "(uc_toUomId c, base) \<in> (edges cs)\<^sup>+" if "c \<in> set cs" "(uc_fromUomId c, base) \<in> (edges cs)\<^sup>+" "uc_toUomId c \<noteq> base" for c
  proof -
    from that(2) obtain y where y: "(uc_fromUomId c, y) \<in> edges cs" "(y, base) \<in> (edges cs)\<^sup>*" by (meson tranclD)
    have "(uc_fromUomId c, uc_toUomId c) \<in> edges cs" using that(1) by (simp add: edges_def)
    then have "y = uc_toUomId c" using leads_unique y(1) unfolding leads_edges [OF assms(2), symmetric] by blast
    then show ?thesis using y(2) that(3) by (meson rtranclD)
  qed
  then have "(\<forall>x \<in> set (uom_nodes base cs). x = base \<or> (x, base) \<in> (edges cs)\<^sup>+) \<longleftrightarrow> (\<forall>c \<in> set cs. (uc_fromUomId c, base) \<in> (edges cs)\<^sup>+)"
    unfolding n using assms(1) by blast
  then show ?thesis by (auto simp: List.map_filter_def filter_empty_conv w)
qed

lemma valid_canonical: "validateCanonicalUomGraph D base cs = [] \<Longrightarrow> canonical D base cs"
proof -
  assume a: "validateCanonicalUomGraph D base cs = []"
  obtain issues out where e: "check_edges D base cs [] [] [] = (issues, out)" by fastforce
  have "issues = []" "List.map_filter (\<lambda>node. if node = base then None else walk_to_base base out node [] node) (uom_nodes base cs) = []"
    using a by (simp_all add: validateCanonicalUomGraph_def e)
  moreover from this(1) have "(\<forall>c \<in> set cs. edge_ok D base c) \<and> distinct (map uc_fromUomId cs)" "out = map (\<lambda>c. (uc_fromUomId c, c)) cs"
    using check_edges_ok [of D base cs "[]" "[]"] check_edges_map [of D base cs "[]" "[]"] by (simp_all add: e)
  ultimately show ?thesis using walks_iff [of cs base] by (auto simp: canonical_def edge_ok_def)
qed

lemma canonical_valid:
  assumes "\<forall>c \<in> set cs. colon_free c" and c: "canonical D base cs"
  shows "validateCanonicalUomGraph D base cs = []"
proof -
  obtain issues out where e: "check_edges D base cs [] [] [] = (issues, out)" by fastforce
  have i: "issues = [] \<longleftrightarrow> (\<forall>c \<in> set cs. edge_ok D base c) \<and> distinct (map uc_fromUomId cs) \<and> distinct (map conv_key cs)"
    using check_edges_ok [of D base cs "[]" "[]"] by (simp add: e)
  have o: "issues = [] \<Longrightarrow> out = map (\<lambda>c. (uc_fromUomId c, c)) cs" using check_edges_map [of D base cs "[]" "[]"] by (simp add: e)
  have d: "\<forall>c \<in> set cs. uc_fromUomId c \<noteq> base" "distinct (map uc_fromUomId cs)" using c by (auto simp: canonical_def)
  have nc: "(x, x) \<notin> (edges cs)\<^sup>+" if "(x, base) \<in> (edges cs)\<^sup>+" for x
    using cycle_misses_base [OF base_no_source [OF d(1)]] that unfolding leads_edges [OF d(2)] by blast
  have "uc_fromUomId x \<noteq> uc_toUomId x" if "x \<in> set cs" for x
    using nc [of "uc_fromUomId x"] that c by (force simp: canonical_def edges_def intro: r_into_trancl)
  then have ok: "\<forall>c \<in> set cs. edge_ok D base c" using c by (auto simp: canonical_def edge_ok_def)
  have "inj_on conv_key (set cs)"
  proof (rule inj_onI)
    fix x y assume xy: "x \<in> set cs" "y \<in> set cs" "conv_key x = conv_key y"
    have f: "uc_fromUomId x = uc_fromUomId y \<Longrightarrow> x = y" using d(2) xy by (auto simp: distinct_map dest: inj_onD)
    have "\<not> (uc_fromUomId x = uc_toUomId y \<and> uc_toUomId x = uc_fromUomId y)"
    proof
      assume a: "uc_fromUomId x = uc_toUomId y \<and> uc_toUomId x = uc_fromUomId y"
      have "(uc_fromUomId x, uc_toUomId x) \<in> edges cs" "(uc_fromUomId y, uc_toUomId y) \<in> edges cs" using xy by (auto simp: edges_def)
      then have "(uc_fromUomId x, uc_fromUomId x) \<in> (edges cs)\<^sup>+" using a by (metis trancl.r_into_trancl trancl.trancl_into_trancl)
      then show False using nc [of "uc_fromUomId x"] c xy(1) by (auto simp: canonical_def)
    qed
    then show "x = y" using conv_key_inj [OF _ _ xy(3)] assms xy(1,2) f by blast
  qed
  moreover have "distinct cs" using d(2) by (simp add: distinct_map)
  ultimately have n: "issues = []" using ok d(2) i by (simp add: distinct_map)
  have "\<forall>c \<in> set cs. (uc_fromUomId c, base) \<in> (edges cs)\<^sup>+" using c by (simp add: canonical_def)
  then show ?thesis using n o [OF n] walks_iff [OF d] by (simp add: validateCanonicalUomGraph_def e)
qed

text \<open>C27. The validation reports nothing exactly for the canonical graphs: the checks for reversed and duplicate
  pairs and for units that convert to themselves add nothing to the walks. Identifiers have no colon.\<close>

theorem valid_graph_iff_canonical:
  assumes "\<forall>c \<in> set cs. colon_free c"
  shows "validateCanonicalUomGraph D base cs = [] \<longleftrightarrow> canonical D base cs"
  using valid_canonical [of D base cs] canonical_valid [OF assms] by blast

subsection \<open>The factor\<close>

fun route :: "string \<Rightarrow> string \<Rightarrow> ItemUomConversion list \<Rightarrow> bool" where
  "route base x [] \<longleftrightarrow> x = base"
| "route base x (c # cs) \<longleftrightarrow> x \<noteq> base \<and> uc_fromUomId c = x \<and> route base (uc_toUomId c) cs"

lemma route_unique:
  "distinct (map uc_fromUomId cs) \<Longrightarrow> set as \<subseteq> set cs \<Longrightarrow> set bs \<subseteq> set cs \<Longrightarrow> route base x as \<Longrightarrow> route base x bs \<Longrightarrow> as = bs"
proof (induction as arbitrary: x bs)
  case Nil
  then show ?case by (cases bs) auto
next
  case (Cons a as)
  from Cons.prems(4,5) obtain b bs' where b: "bs = b # bs'" by (cases bs) auto
  then have "uc_fromUomId a = uc_fromUomId b" "a \<in> set cs" "b \<in> set cs" using Cons.prems by auto
  then have "a = b" using Cons.prems(1) by (auto simp: distinct_map dest: inj_onD)
  then show ?case using Cons b by auto
qed

definition the_factor :: "'d decimal_lib \<Rightarrow> ItemUomConversion \<Rightarrow> 'd" where
  "the_factor D c = (case parseFactor D (uc_factor c) of Inr f \<Rightarrow> f | Inl _ \<Rightarrow> dl_of_num D (Fin 1))"

lemma resolve_loop_route:
  assumes "canonical D base cs" "(x, base) \<in> (edges cs)\<^sup>*"
  shows "\<forall>s \<in> set seen. (s, x) \<in> (edges cs)\<^sup>+ \<Longrightarrow> \<exists>es. set es \<subseteq> set cs \<and> route base x es \<and>
     resolve_loop D base (edge_map_of cs) seen path factor x
       = Some (Inr \<lparr>ru_baseUomId = base, ru_factorToBase = foldl (\<lambda>d c. dl_times D d (the_factor D c)) factor es, ru_path = path @ map uc_toUomId es\<rparr>)"
  using assms(2)
proof (induction arbitrary: seen path factor rule: converse_rtrancl_induct)
  case base
  then show ?case by (intro exI [of _ "[]"]) (simp add: resolve_loop.simps [of D base "edge_map_of cs" seen])
next
  case (step x y)
  have d: "\<forall>c \<in> set cs. uc_fromUomId c \<noteq> base" "distinct (map uc_fromUomId cs)" using assms(1) by (auto simp: canonical_def)
  from step(1) obtain c where c: "c \<in> set cs" "uc_fromUomId c = x" "uc_toUomId c = y" by (auto simp: edges_def)
  have m: "map_of (edge_map_of cs) x = Some c" unfolding map_of_edge_map [OF d(2)] map_of_sources [OF d(2)] using c by simp
  have xb: "(x, base) \<in> (edges cs)\<^sup>+" using c assms(1) by (auto simp: canonical_def)
  have n: "x \<noteq> base" "x \<notin> set seen"
    using d(1) c step.prems cycle_misses_base [OF base_no_source [OF d(1)], of x] xb unfolding leads_edges [OF d(2)] by auto
  obtain f where f: "parseFactor D (uc_factor c) = Inr f" using assms(1) c(1) by (auto simp: canonical_def is_ok_iff)
  have "\<forall>s \<in> set (x # seen). (s, y) \<in> (edges cs)\<^sup>+" using step.prems step(1) by (auto intro: trancl_into_trancl)
  from step.IH [OF this, of "path @ [y]" "dl_times D factor f"] obtain es where es: "set es \<subseteq> set cs" "route base y es"
    "resolve_loop D base (edge_map_of cs) (x # seen) (path @ [y]) (dl_times D factor f) y
       = Some (Inr \<lparr>ru_baseUomId = base, ru_factorToBase = foldl (\<lambda>d c. dl_times D d (the_factor D c)) (dl_times D factor f) es, ru_path = (path @ [y]) @ map uc_toUomId es\<rparr>)"
    by blast
  then show ?case using c n f m
    by (intro exI [of _ "c # es"]) (simp add: resolve_loop.simps [of D base "edge_map_of cs" seen] the_factor_def)
qed

lemma product_exact:
  assumes "times_exact D v"
  shows "\<forall>f \<in> set fs. v f \<in> \<int> \<and> 1 \<le> v f \<Longrightarrow> v a \<in> \<int> \<Longrightarrow> 1 \<le> v a \<Longrightarrow> v a * prod_list (map v fs) < 10 ^ 20
    \<Longrightarrow> v (foldl (dl_times D) a fs) = v a * prod_list (map v fs)"
proof (induction fs arbitrary: a)
  case (Cons f fs)
  have p: "1 \<le> prod_list (map v fs)" using prod_ge_one [of fs v] Cons.prems(1) by simp
  have f: "v f \<in> \<int>" "1 \<le> v f" using Cons.prems(1) by auto
  have af: "v a * v f \<in> \<int>" "1 \<le> v a * v f" using f Cons.prems(2,3) mult_mono [of 1 "v a" 1 "v f"] by auto
  have "v a * v f * 1 \<le> v a * v f * prod_list (map v fs)" using p af(2) by (intro mult_left_mono) auto
  then have b: "v a * v f < 10 ^ 20" using Cons.prems(4) by (simp add: mult.assoc)
  from af(1) obtain n where n: "v a * v f = of_int n" by (auto elim: Ints_cases)
  have "\<bar>n\<bar> < 10 ^ 20"
  proof -
    have "of_int \<bar>n\<bar> < (of_int (10 ^ 20) :: rat)" using af(2) b n by simp
    then show ?thesis by (simp only: of_int_less_iff)
  qed
  then have t: "v (dl_times D a f) = v a * v f" using assms sig20_int [of n] n unfolding times_exact_def by metis
  then show ?case using Cons.IH [of "dl_times D a f"] Cons.prems af by (simp add: mult.assoc)
qed simp

text \<open>C28. On a valid graph a unit with a conversion resolves along the only way to the base; the factor is the
  product of the factors on it when they are whole and it has at most 20 digits. A unit without one has no
  path, and the check for loops never fires.\<close>

theorem resolution_is_the_product:
  assumes "decimal_exact D v" "times_exact D v" "validateCanonicalUomGraph D base cs = []" "source \<noteq> []" "source \<noteq> base"
  shows "source \<notin> uc_fromUomId ` set cs \<and> resolveFactorToBase D base (Some source) cs = Some (Inl UE_NO_PATH)
    \<or> (\<exists>!es. set es \<subseteq> set cs \<and> route base source es) \<and>
      (\<exists>es f. set es \<subseteq> set cs \<and> route base source es
         \<and> resolveFactorToBase D base (Some source) cs = Some (Inr \<lparr>ru_baseUomId = base, ru_factorToBase = f, ru_path = source # map uc_toUomId es\<rparr>)
         \<and> ((\<forall>c \<in> set es. v (the_factor D c) \<in> \<int>) \<and> (\<Prod>c \<leftarrow> es. v (the_factor D c)) < 10 ^ 20
              \<longrightarrow> v f = (\<Prod>c \<leftarrow> es. v (the_factor D c)) \<and> 1 \<le> v f))"
proof -
  note can = valid_canonical [OF assms(3)]
  have d: "distinct (map uc_fromUomId cs)" using can by (simp add: canonical_def)
  have one: "v (dl_of_num D (Fin 1)) = 1"
    using dec_num [OF assms(1), of 1] js_decimal_cents [of 100] cents_eq_iff [of 100 100] by (simp add: cents_def dbl_id is_dbl_int [of 1, simplified])
  have r: "resolveFactorToBase D base (Some source) cs = resolve_loop D base (edge_map_of cs) [] [source] (dl_of_num D (Fin 1)) source"
    using assms(3-5) by (simp add: resolveFactorToBase_def assertCanonicalUomGraph_def throw_if_def)
  show ?thesis
  proof (cases "source \<in> uc_fromUomId ` set cs")
    case False
    then have "map_of (edge_map_of cs) source = None" by (auto simp: edge_map_of_def map_of_eq_None_iff)
    then show ?thesis using False assms(5) by (simp add: r resolve_loop.simps [of D base "edge_map_of cs" "[]"])
  next
    case True
    then have "(source, base) \<in> (edges cs)\<^sup>*" using can by (auto simp: canonical_def intro: trancl_into_rtrancl)
    from resolve_loop_route [OF can this, of "[]" "[source]" "dl_of_num D (Fin 1)"] obtain es where es: "set es \<subseteq> set cs" "route base source es"
      "resolve_loop D base (edge_map_of cs) [] [source] (dl_of_num D (Fin 1)) source = Some (Inr \<lparr>ru_baseUomId = base,
         ru_factorToBase = foldl (\<lambda>d c. dl_times D d (the_factor D c)) (dl_of_num D (Fin 1)) es, ru_path = source # map uc_toUomId es\<rparr>)" by auto
    let ?f = "foldl (\<lambda>d c. dl_times D d (the_factor D c)) (dl_of_num D (Fin 1)) es"
    have f: "?f = foldl (dl_times D) (dl_of_num D (Fin 1)) (map (the_factor D) es)" by (simp add: foldl_map)
    have ge: "1 \<le> v (the_factor D c)" if "c \<in> set es" for c
      using that es(1) can dec_lt [OF assms(1)] one by (force simp: canonical_def is_ok_iff the_factor_def parseFactor_def split: option.splits if_splits)
    have "v ?f = (\<Prod>c \<leftarrow> es. v (the_factor D c)) \<and> 1 \<le> v ?f"
      if "\<forall>c \<in> set es. v (the_factor D c) \<in> \<int>" "(\<Prod>c \<leftarrow> es. v (the_factor D c)) < 10 ^ 20"
    proof -
      have "v ?f = (\<Prod>c \<leftarrow> es. v (the_factor D c))"
        unfolding f using product_exact [OF assms(2), of "map (the_factor D) es" "dl_of_num D (Fin 1)"] that ge one by (simp add: comp_def)
      moreover have "1 \<le> (\<Prod>c \<leftarrow> es. v (the_factor D c))" using prod_ge_one [of es "\<lambda>c. v (the_factor D c)"] ge by blast
      ultimately show ?thesis by simp
    qed
    then show ?thesis using es route_unique [OF d] unfolding r by blast
  qed
qed

subsection \<open>Examples\<close>

definition uom_edge :: "string \<Rightarrow> string \<Rightarrow> int \<Rightarrow> ItemUomConversion" where
  "uom_edge a b n = \<lparr>uc_itemId = ''item'', uc_fromUomId = a, uc_toUomId = b, uc_factor = UF_num (Fin (of_int n)), uc_isCanonical = Some True\<rparr>"

definition uom_sample :: "ItemUomConversion list" where
  "uom_sample = [uom_edge ''carton'' ''box'' 12, uom_edge ''box'' ''each'' 10]"

theorem resolution_returns_witness:
  "\<exists>u. resolveFactorToBase rat_decimal ''each'' (Some ''carton'') uom_sample = Some (Inr u) \<and> length (ru_path u) \<le> 3"
proof -
  have "case resolveFactorToBase rat_decimal ''each'' (Some ''carton'') uom_sample of Some (Inr u) \<Rightarrow> True | _ \<Rightarrow> False" by code_simp
  then have "\<exists>u. resolveFactorToBase rat_decimal ''each'' (Some ''carton'') uom_sample = Some (Inr u)" by (auto split: option.splits sum.splits)
  moreover have "length uom_sample = 2" by (simp add: uom_sample_def)
  ultimately show ?thesis using resolution_returns [of rat_decimal "''each''" "Some ''carton''" uom_sample] by auto
qed

theorem valid_graph_iff_canonical_witness:
  "canonical rat_decimal ''each'' uom_sample \<and> \<not> canonical rat_decimal ''each'' [uom_edge ''box'' ''pack'' 2, uom_edge ''pack'' ''box'' 2]"
proof -
  have c: "\<forall>c \<in> set uom_sample. colon_free c" "\<forall>c \<in> set [uom_edge ''box'' ''pack'' 2, uom_edge ''pack'' ''box'' 2]. colon_free c"
    by (simp_all add: uom_sample_def uom_edge_def colon_free_def)
  have "validateCanonicalUomGraph rat_decimal ''each'' uom_sample = []"
    "validateCanonicalUomGraph rat_decimal ''each'' [uom_edge ''box'' ''pack'' 2, uom_edge ''pack'' ''box'' 2] \<noteq> []" by code_simp+
  then show ?thesis using valid_graph_iff_canonical [OF c(1), of rat_decimal "''each''"] valid_graph_iff_canonical [OF c(2), of rat_decimal "''each''"] by blast
qed

theorem resolution_is_the_product_witness:
  "\<exists>u. resolveFactorToBase rat_decimal ''each'' (Some ''carton'') uom_sample = Some (Inr u) \<and> ru_path u = [''carton'', ''box'', ''each'']"
proof -
  have v: "validateCanonicalUomGraph rat_decimal ''each'' uom_sample = []" by code_simp
  have "''carton'' \<in> uc_fromUomId ` set uom_sample" by (simp add: uom_sample_def uom_edge_def)
  then obtain es f where es: "set es \<subseteq> set uom_sample" "route ''each'' ''carton'' es"
    "resolveFactorToBase rat_decimal ''each'' (Some ''carton'') uom_sample
       = Some (Inr \<lparr>ru_baseUomId = ''each'', ru_factorToBase = f, ru_path = ''carton'' # map uc_toUomId es\<rparr>)"
    "\<exists>!es. set es \<subseteq> set uom_sample \<and> route ''each'' ''carton'' es"
    using resolution_is_the_product [OF rat_decimal_exact rat_times_exact v, of "''carton''"] by auto
  moreover have "route ''each'' ''carton'' uom_sample" by (simp add: uom_sample_def uom_edge_def)
  ultimately have "es = uom_sample" by blast
  then show ?thesis using es(3) by (simp add: uom_sample_def uom_edge_def)
qed

end
