(* ===== verification/UomBase.thy ===== *)
theory UomBase imports UomService UomTrees
begin

section \<open>The base unit of a product\<close>

text \<open>
  Once a product has a stored base unit, every operation of the service leaves it in place, the steps
  that would set it being reached only without one.
\<close>

subsection \<open>The stored base unit\<close>

definition stored_base :: "string \<Rightarrow> string \<Rightarrow> UomDb \<Rightarrow> bool" where
  "stored_base p b db \<longleftrightarrow> b \<noteq> [] \<and> (case product_of p db of Some q \<Rightarrow> up_baseUomId q = Some b | None \<Rightarrow> False)"

lemma product_of_update:
  assumes "\<And>q. up_id (f q) = up_id q"
  shows "product_of x (update_product p f db) = map_option (\<lambda>q. if x = p then f q else q) (product_of x db)"
proof -
  have "find (\<lambda>q. up_id q = x) (map (\<lambda>q. if up_id q = p then f q else q) qs)
      = map_option (\<lambda>q. if x = p then f q else q) (find (\<lambda>q. up_id q = x) qs)" for qs
    using assms by (induction qs) auto
  then show ?thesis by (simp add: product_of_def update_product_def)
qed

lemma stored_base_products: "ub_products db' = ub_products db \<Longrightarrow> stored_base x b db' = stored_base x b db"
  by (simp add: stored_base_def product_of_def)

lemma stored_base_set [simp]: "(x = p \<Longrightarrow> u = b) \<Longrightarrow> stored_base x b db \<Longrightarrow> stored_base x b (setProductBaseUomId p u db)"
  by (auto simp: stored_base_def setProductBaseUomId_def product_of_update split: option.splits)

lemma stored_base_purchase [simp]: "stored_base x b (setProductPurchaseUomId p u db) = stored_base x b db"
  by (auto simp: stored_base_def setProductPurchaseUomId_def product_of_update split: option.splits)

lemma stored_base_is_base: "stored_base p b db \<Longrightarrow> getProductBaseUomId p db = Some b \<and> b \<noteq> []"
  by (auto simp: stored_base_def getProductBaseUomId_def split: option.splits)

lemma products_kept [simp]:
  "ub_products (unsetDefaultForProduct p db) = ub_products db"
  "ub_products (update_product_uoms f db) = ub_products db"
  "ub_products (deleteItemUomConversionBySource p a db) = ub_products db"
  "ub_products (snd (deleteProductUom i db)) = ub_products db"
  "ub_products (deleteProductUomsByUomId i db) = ub_products db"
  by (simp_all add: unsetDefaultForProduct_def update_product_uoms_def deleteItemUomConversionBySource_def deleteProductUom_def
      deleteProductUomsByUomId_def)

lemma upsert_products: "upsertItemUomConversion p a c f k db = Inr db' \<Longrightarrow> ub_products db' = ub_products db"
  by (auto simp: upsertItemUomConversion_def and_then_Inr_iff Let_def)

lemma create_products: "createProductUom gen x db = Inr (d, db') \<Longrightarrow> ub_products db' = ub_products db"
  by (auto simp: createProductUom_def and_then_Inr_iff Let_def)

lemma createUom_products: "createUom gen n s t db = Inr (u, db') \<Longrightarrow> ub_products db' = ub_products db"
  by (auto simp: createUom_def and_then_Inr_iff Let_def)

lemma repo_update_products: "repo_updateProductUom i x db = Inr (d, db') \<Longrightarrow> ub_products db' = ub_products db"
  by (auto simp: repo_updateProductUom_def and_then_Inr_iff Let_def)

lemma stored_base_fields [simp]:
  "stored_base x b (unsetDefaultForProduct p db) = stored_base x b db"
  "stored_base x b (update_product_uoms f db) = stored_base x b db"
  "stored_base x b (deleteItemUomConversionBySource p a db) = stored_base x b db"
  "stored_base x b (deleteProductUomsByUomId i db) = stored_base x b db"
  by (rule stored_base_products, simp)+

lemma sync_keeps_base:
  assumes "syncCanonicalConversion D p u f d db = Inr db'" "stored_base x b db"
  shows "stored_base x b db'"
proof (cases d)
  case True
  have "truthy_str (getProductBaseUomId p db) \<or> x \<noteq> p" using stored_base_is_base [OF assms(2)] by auto
  then show ?thesis using assms True by (auto simp: syncCanonicalConversion_def and_then_Inr_iff Let_def split: if_splits)
next
  case False
  then obtain base where "upsertItemUomConversion p u base f True db = Inr db'"
    using assms(1) by (auto simp: syncCanonicalConversion_def and_then_Inr_iff Let_def)
  then show ?thesis using assms(2) upsert_products stored_base_products by metis
qed

lemma seed_keeps_base: "units_or_seed gen db = Inr (us, db') \<Longrightarrow> stored_base x b db \<Longrightarrow> stored_base x b db'"
  using stored_base_products [OF createUom_products] by (fastforce simp: units_or_seed_def and_then_Inr_iff split: if_splits)

lemma create_keeps_base: "createProductUom gen a db = Inr (d, db') \<Longrightarrow> stored_base x b db \<Longrightarrow> stored_base x b db'"
  using stored_base_products [OF create_products] by blast

lemma bootstrap_base_keeps:
  "bootstrap_base_unit D gen p u db = Inr db' \<Longrightarrow> stored_base x b db \<Longrightarrow> x \<noteq> p \<Longrightarrow> stored_base x b db'"
  unfolding bootstrap_base_unit_def by (auto simp: and_then_Inr_iff dest!: create_keeps_base elim!: sync_keeps_base)

lemma bootstrap_purchase_keeps: "bootstrap_purchase_unit D gen p u f db = Inr db' \<Longrightarrow> stored_base x b db \<Longrightarrow> stored_base x b db'"
  unfolding bootstrap_purchase_unit_def
  by (auto simp: and_then_Inr_iff split: if_splits intro: sync_keeps_base create_keeps_base)

lemma bootstrap_keeps_base:
  assumes "bootstrapProductUomsFromCreateInput D gen p um cf pu db = Inr db'" "stored_base x b db" "x \<noteq> p"
  shows "stored_base x b db'"
  using assms unfolding bootstrapProductUomsFromCreateInput_def
  by (auto simp: and_then_Inr_iff split: if_splits option.splits
      dest!: seed_keeps_base bootstrap_base_keeps intro: bootstrap_purchase_keeps)

lemma ensure_keeps_base:
  assumes "ensureProductBaseUomContext D gen p db = Inr (c, db')" "stored_base x b db"
  shows "stored_base x b db'"
proof (cases "truthy_str (getProductBaseUomId p db)")
  case True
  then show ?thesis using assms by (simp add: ensureProductBaseUomContext_def)
next
  case False
  then have xp: "x \<noteq> p" using assms(2) stored_base_is_base [of x b db] by auto
  obtain db1 where 1: "(if listProductUoms p db = [] then bootstrapLegacyProductUomFromProductRow D gen p db else Inr db) = Inr db1"
    "(if truthy_str (getProductBaseUomId p db1) then Inr (getProductBaseUomId p db1, db1)
     else case listProductUoms p db1 of
         [] \<Rightarrow> Inr (getProductBaseUomId p db1, db1)
       | d # ds \<Rightarrow> (let c = dp_row (coalesce (find (\<lambda>d. pu_isDefault (dp_row d)) (d # ds)) d) in
           Inr (Some (pu_uomId c), setProductUomAsBase p (pu_id c) (pu_uomId c) db1))) = (Inr (c, db') :: (UomServiceError, string option \<times> UomDb) result)"
    using assms(1) False unfolding ensureProductBaseUomContext_def and_then_Inr_iff by auto
  have "stored_base x b db1" using 1(1) assms(2) xp bootstrap_keeps_base
    by (auto simp: bootstrapLegacyProductUomFromProductRow_def split: if_splits)
  then show ?thesis using 1(2) xp by (auto simp: setProductUomAsBase_def Let_def split: if_splits list.splits)
qed

lemma ensure_read_only:
  assumes "stored_base p b db"
  shows "ensureProductBaseUomContext D gen p db = Inr (Some b, db)"
  using stored_base_is_base [OF assms] by (simp add: ensureProductBaseUomContext_def)

lemma rename_keeps_base [simp]: "stored_base x b (rename_unit e u db) = stored_base x b db"
  by (auto simp: rename_unit_def Let_def split: option.splits)

lemma prepare_keeps_base [simp]: "stored_base x b (prepare_write e y db) = stored_base x b db"
  by (simp add: prepare_write_def Let_def)

lemma repo_update_keeps_base: "repo_updateProductUom i y db = Inr (d, db') \<Longrightarrow> stored_base x b db \<Longrightarrow> stored_base x b db'"
  using stored_base_products [OF repo_update_products] by blast

lemma finish_keeps_base: "finish_write D y r db = Inr db' \<Longrightarrow> stored_base x b db \<Longrightarrow> stored_base x b db'"
  by (auto simp: finish_write_def and_then_Inr_iff dest: sync_keeps_base)

lemma write_keeps_base:
  assumes "write_product_uom D e y db = Inr (d, db')" "stored_base x b db"
  shows "stored_base x b db'"
proof -
  obtain res db2 where 1: "repo_updateProductUom (pu_id (dp_row e)) (cleared_patch D e y db) (prepare_write e y db) = Inr (res, db2)"
    "(case res of None \<Rightarrow> Inr (None, db2) | Some d \<Rightarrow> and_then (finish_write D y (dp_row d) db2) (\<lambda>db. Inr (Some d, db))) = Inr (d, db')"
    using assms(1) by (auto simp: write_product_uom_def and_then_Inr_iff)
  have "stored_base x b db2" using repo_update_keeps_base [OF 1(1)] assms(2) by simp
  then show ?thesis using 1(2) by (auto simp: and_then_Inr_iff split: option.splits dest: finish_keeps_base)
qed

lemma update_keeps_base:
  assumes "updateProductUom D gen i x db = Inr (d, db')" "stored_base p b db"
  shows "stored_base p b db'"
  using assms unfolding updateProductUom_def
  by (auto simp: and_then_Inr_iff Let_def split: option.splits elim!: write_keeps_base ensure_keeps_base)

lemma insert_keeps_base:
  assumes "insert_product_unit D gen a k f db = Inr (d, db')" "stored_base x b db"
  shows "stored_base x b db'"
proof -
  have "stored_base x b (if k then unsetDefaultForProduct (ap_productId a) db else db)" using assms(2) by simp
  then show ?thesis using assms(1) by (auto simp: insert_product_unit_def and_then_Inr_iff Let_def dest!: create_keeps_base sync_keeps_base)
qed

lemma add_keeps_base:
  assumes "addProductUom D gen a db = Inr (d, db')" "stored_base x b db"
  shows "stored_base x b db'"
  using assms by (auto simp: addProductUom_def and_then_Inr_iff Let_def split: option.splits
      dest!: ensure_keeps_base dest: update_keeps_base insert_keeps_base)

lemma upsert_keeps_base: "upsertItemUomConversion p a c f k db = Inr db' \<Longrightarrow> stored_base x b db \<Longrightarrow> stored_base x b db'"
  using stored_base_products [OF upsert_products] by blast

lemma repair_rows_keeps: "repair_rows p base rs db = Inr db' \<Longrightarrow> stored_base x b db \<Longrightarrow> stored_base x b db'"
proof (induction rs arbitrary: db)
  case (Cons r rs)
  then show ?case by (auto simp: and_then_Inr_iff split: if_splits dest: upsert_keeps_base)
qed simp

lemma repair_keeps_base:
  assumes "repairCanonicalConversionsFromProductUoms D gen p db = Inr db'" "stored_base x b db"
  shows "stored_base x b db'"
proof -
  have f: "stored_base x b db \<Longrightarrow>
      stored_base x b (fold (\<lambda>c db. if iv_toUomId c \<noteq> base then deleteItemUomConversionBySource p (iv_fromUomId c) db else db) cs db)"
    for cs base db by (induction cs arbitrary: db) auto
  show ?thesis using assms unfolding repairCanonicalConversionsFromProductUoms_def
    by (auto simp: and_then_Inr_iff Let_def split: if_splits dest!: ensure_keeps_base repair_rows_keeps intro: f)
qed

lemma repair_orphan_keeps: "repairOrphanedPurchaseUom D gen p f db = Inr (k, db') \<Longrightarrow> stored_base x b db \<Longrightarrow> stored_base x b db'"
  unfolding repairOrphanedPurchaseUom_def
  by (auto simp: and_then_Inr_iff Let_def split: option.splits if_splits dest!: sync_keeps_base create_keeps_base)

lemma repair_orphans_keep: "repair_orphans D gen f g rows db = (r, db') \<Longrightarrow> stored_base x b db \<Longrightarrow> stored_base x b db'"
proof (induction rows arbitrary: db r)
  case (Cons row rows)
  then show ?case by (auto simp: Let_def split: sum.splits prod.splits dest!: repair_orphan_keeps)
qed simp

lemma resolve_canonical_keeps: "resolveCanonicalProductUom D gen p u db = Inr (r, db') \<Longrightarrow> stored_base x b db \<Longrightarrow> stored_base x b db'"
  unfolding resolveCanonicalProductUom_def
  by (auto simp: and_then_Inr_iff Let_def split: if_splits sum.splits UomError.splits dest!: ensure_keeps_base)

lemma resolve_keeps_base: "resolveSaleItemUom D gen p i db = Inr (r, db') \<Longrightarrow> stored_base x b db \<Longrightarrow> stored_base x b db'"
  unfolding resolveSaleItemUom_def
  by (auto simp: and_then_Inr_iff Let_def dest!: ensure_keeps_base resolve_canonical_keeps)

lemma createUom_keeps_base: "createUom gen n s t db = Inr (u, db') \<Longrightarrow> stored_base x b db \<Longrightarrow> stored_base x b db'"
  using stored_base_products [OF createUom_products] by blast

lemma updateUom_keeps_base: "updateUom i y db = Inr (u, db') \<Longrightarrow> stored_base x b db \<Longrightarrow> stored_base x b db'"
  by (auto simp: updateUom_def and_then_Inr_iff Let_def stored_base_def product_of_def)

lemma find_product_map:
  "(\<And>q. up_id (f q) = up_id q) \<Longrightarrow> find (\<lambda>q. up_id q = x) (map f qs) = map_option f (find (\<lambda>q. up_id q = x) qs)"
  by (induction qs) auto

lemma deleteUom_keeps_base:
  assumes "deleteUom i db = Inr (k, db')" "stored_base x b db"
  shows "stored_base x b db'"
proof -
  let ?f = "\<lambda>p. if up_purchaseUomId p = Some i then p\<lparr>up_purchaseUomId := None\<rparr> else p"
  have "ub_products db' = map ?f (ub_products db)" using assms(1) by (auto simp: deleteUom_def and_then_Inr_iff Let_def)
  then have "product_of x db' = map_option ?f (product_of x db)"
    unfolding product_of_def by (simp only:) (rule find_product_map, simp)
  then show ?thesis using assms(2) by (auto simp: stored_base_def split: option.splits)
qed

inductive unit_operation :: "'d decimal_lib \<Rightarrow> (nat \<Rightarrow> string) \<Rightarrow> UomDb \<Rightarrow> UomDb \<Rightarrow> bool" for D gen where
  add: "addProductUom D gen a db = Inr (d, db') \<Longrightarrow> unit_operation D gen db db'"
| update: "updateProductUom D gen i x db = Inr (d, db') \<Longrightarrow> unit_operation D gen db db'"
| remove: "removeProductUom i db = Inr (k, db') \<Longrightarrow> unit_operation D gen db db'"
| sale_line: "resolveSaleItemUom D gen p s db = Inr (r, db') \<Longrightarrow> unit_operation D gen db db'"
| repair: "repairCanonicalConversionsFromProductUoms D gen p db = Inr db' \<Longrightarrow> unit_operation D gen db db'"
| repair_all: "repairAllOrphanedPurchaseUoms D gen f g dry db = (r', db') \<Longrightarrow> unit_operation D gen db db'"
| new_product: "bootstrapProductUomsFromCreateInput D gen p um cf pu db = Inr db' \<Longrightarrow> getProductBaseUomId p db = None
    \<Longrightarrow> unit_operation D gen db db'"
| create_unit: "createMasterUom gen n sy ty db = Inr (u, db') \<Longrightarrow> unit_operation D gen db db'"
| update_unit: "updateMasterUom i y db = Inr (u', db') \<Longrightarrow> unit_operation D gen db db'"
| delete_unit: "deleteMasterUom i db = Inr (k, db') \<Longrightarrow> unit_operation D gen db db'"

lemma unit_operation_keeps_base:
  assumes "unit_operation D gen db db'" "stored_base x b db"
  shows "stored_base x b db'"
  using assms
proof (cases rule: unit_operation.cases)
  case (remove i k)
  then show ?thesis using assms(2)
    by (auto simp: removeProductUom_def and_then_Inr_iff Let_def deleteProductUom_def stored_base_def product_of_def
        deleteItemUomConversionBySource_def split: option.splits)
next
  case (repair_all f g dry r')
  then show ?thesis using assms(2) repair_orphans_keep by (fastforce simp: repairAllOrphanedPurchaseUoms_def Let_def split: if_splits)
next
  case (new_product p um cf pu)
  then have "x \<noteq> p" using stored_base_is_base [OF assms(2)] by auto
  then show ?thesis using bootstrap_keeps_base [OF new_product(1) assms(2)] by blast
next
  case (create_unit n sy ty u)
  then show ?thesis using assms(2) by (auto simp: createMasterUom_def and_then_Inr_iff Let_def dest!: createUom_keeps_base)
next
  case (update_unit i y u')
  then show ?thesis using assms(2) by (auto simp: updateMasterUom_def and_then_Inr_iff Let_def dest!: updateUom_keeps_base)
next
  case (delete_unit i k)
  then show ?thesis using assms(2) by (auto simp: deleteMasterUom_def and_then_Inr_iff Let_def split: if_splits dest!: deleteUom_keeps_base)
qed (auto dest: add_keeps_base update_keeps_base resolve_keeps_base repair_keeps_base)

end
