(* ===== verification/UomGuards.thy ===== *)
theory UomGuards imports UomBase
begin

section \<open>Unit factors and stock\<close>

text \<open>
  A row of \<open>product_uoms\<close> that an operation leaves in place keeps its identity and its product, and while
  the product has stock on hand its factor, up to the tolerance of the guard.
\<close>

subsection \<open>Rows kept\<close>

definition row_ids :: "UomDb \<Rightarrow> string list" where
  "row_ids db = map pu_id (ub_productUoms db)"

definition rows_kept :: "string \<Rightarrow> UomDb \<Rightarrow> UomDb \<Rightarrow> bool" where
  "rows_kept p db db' \<longleftrightarrow> (distinct (row_ids db) \<longrightarrow> distinct (row_ids db') \<and> set (row_ids db) \<subseteq> set (row_ids db')
     \<and> (\<forall>r \<in> set (ub_productUoms db). \<forall>r' \<in> set (ub_productUoms db'). pu_id r' = pu_id r \<longrightarrow>
          pu_productId r' = pu_productId r \<and> (pu_productId r = p \<longrightarrow> pu_factor r' = pu_factor r)))"

lemma same_id_same_row: "distinct (row_ids db) \<Longrightarrow> r \<in> set (ub_productUoms db) \<Longrightarrow> r' \<in> set (ub_productUoms db) \<Longrightarrow> pu_id r' = pu_id r \<Longrightarrow> r' = r"
  unfolding row_ids_def distinct_map by (auto dest: inj_onD)

lemma rows_kept_same: "ub_productUoms db' = ub_productUoms db \<Longrightarrow> rows_kept p db db'"
  using same_id_same_row [of db] by (fastforce simp: rows_kept_def row_ids_def)

lemma rows_kept_update:
  assumes "\<And>r. pu_id (f r) = pu_id r \<and> pu_productId (f r) = pu_productId r \<and> (pu_productId r = p \<longrightarrow> pu_factor (f r) = pu_factor r)"
  shows "rows_kept p db (update_product_uoms f db)"
proof -
  have "row_ids (update_product_uoms f db) = row_ids db" using assms by (simp add: row_ids_def update_product_uoms_def)
  then show ?thesis using assms same_id_same_row [of db] unfolding rows_kept_def
    by (fastforce simp: update_product_uoms_def)
qed

lemma rows_kept_append:
  assumes "ub_productUoms db' = ub_productUoms db @ [r]" "distinct (row_ids db')"
  shows "rows_kept p db db'"
  using assms same_id_same_row [of db] by (fastforce simp: rows_kept_def row_ids_def)

lemma rows_kept_trans [trans]:
  assumes "rows_kept p db1 db2" "rows_kept p db2 db3"
  shows "rows_kept p db1 db3"
  unfolding rows_kept_def
proof (intro impI)
  assume d: "distinct (row_ids db1)"
  then have 1: "distinct (row_ids db2)" "set (row_ids db1) \<subseteq> set (row_ids db2)"
    "\<And>r r'. r \<in> set (ub_productUoms db1) \<Longrightarrow> r' \<in> set (ub_productUoms db2) \<Longrightarrow> pu_id r' = pu_id r \<Longrightarrow>
      pu_productId r' = pu_productId r \<and> (pu_productId r = p \<longrightarrow> pu_factor r' = pu_factor r)"
    using assms(1) unfolding rows_kept_def by blast+
  then have 2: "distinct (row_ids db3)" "set (row_ids db2) \<subseteq> set (row_ids db3)"
    "\<And>r r'. r \<in> set (ub_productUoms db2) \<Longrightarrow> r' \<in> set (ub_productUoms db3) \<Longrightarrow> pu_id r' = pu_id r \<Longrightarrow>
      pu_productId r' = pu_productId r \<and> (pu_productId r = p \<longrightarrow> pu_factor r' = pu_factor r)"
    using assms(2) unfolding rows_kept_def by blast+
  have "pu_productId r3 = pu_productId r1 \<and> (pu_productId r1 = p \<longrightarrow> pu_factor r3 = pu_factor r1)"
    if r: "r1 \<in> set (ub_productUoms db1)" "r3 \<in> set (ub_productUoms db3)" "pu_id r3 = pu_id r1" for r1 r3
  proof -
    have "pu_id r1 \<in> set (row_ids db2)" using r(1) 1(2) by (auto simp: row_ids_def)
    then obtain r2 where "r2 \<in> set (ub_productUoms db2)" "pu_id r2 = pu_id r1" by (auto simp: row_ids_def)
    then show ?thesis using 1(3) [OF r(1), of r2] 2(3) [of r2 r3] r by auto
  qed
  then show "distinct (row_ids db3) \<and> set (row_ids db1) \<subseteq> set (row_ids db3) \<and> (\<forall>r \<in> set (ub_productUoms db1). \<forall>r' \<in> set (ub_productUoms db3).
      pu_id r' = pu_id r \<longrightarrow> pu_productId r' = pu_productId r \<and> (pu_productId r = p \<longrightarrow> pu_factor r' = pu_factor r))"
    using 1(2) 2(1,2) by blast
qed

lemma rows_same [simp]:
  "ub_productUoms (setProductBaseUomId q u db) = ub_productUoms db"
  "ub_productUoms (setProductPurchaseUomId q w db) = ub_productUoms db"
  "ub_productUoms (deleteItemUomConversionBySource q u db) = ub_productUoms db"
  by (simp_all add: setProductBaseUomId_def setProductPurchaseUomId_def update_product_def deleteItemUomConversionBySource_def)

lemma upsert_rows: "upsertItemUomConversion q a c f k db = Inr db' \<Longrightarrow> ub_productUoms db' = ub_productUoms db"
  by (auto simp: upsertItemUomConversion_def and_then_Inr_iff Let_def)

lemma sync_rows: "syncCanonicalConversion D q u f d db = Inr db' \<Longrightarrow> ub_productUoms db' = ub_productUoms db"
  by (auto simp: syncCanonicalConversion_def and_then_Inr_iff Let_def split: if_splits dest!: upsert_rows)

lemma createUom_rows: "createUom gen n s t db = Inr (u, db') \<Longrightarrow> ub_productUoms db' = ub_productUoms db"
  by (auto simp: createUom_def and_then_Inr_iff Let_def)

lemma seed_rows: "units_or_seed gen db = Inr (us, db') \<Longrightarrow> ub_productUoms db' = ub_productUoms db"
  by (auto simp: units_or_seed_def and_then_Inr_iff split: if_splits dest: createUom_rows)

lemma unset_kept: "rows_kept p db (unsetDefaultForProduct q db)"
  unfolding unsetDefaultForProduct_def by (rule rows_kept_update) simp

lemma as_base_kept:
  assumes "q \<noteq> p"
  shows "rows_kept p db (setProductUomAsBase q i u db)"
proof -
  note unset_kept [of p db q]
  also have "rows_kept p (unsetDefaultForProduct q db) (setProductUomAsBase q i u db)"
    unfolding setProductUomAsBase_def
    by (rule rows_kept_trans [OF rows_kept_update rows_kept_same]) (use assms in auto)
  finally show ?thesis .
qed

lemma create_kept: "createProductUom gen x db = Inr (d, db') \<Longrightarrow> rows_kept p db db'"
  by (auto simp: createProductUom_def and_then_Inr_iff Let_def throw_if_def row_ids_def split: if_splits intro!: rows_kept_append)

lemma bootstrap_base_kept: "bootstrap_base_unit D gen q u db = Inr db' \<Longrightarrow> rows_kept p db db'"
  unfolding bootstrap_base_unit_def
  by (auto simp: and_then_Inr_iff dest!: sync_rows intro: rows_kept_trans [OF create_kept rows_kept_same])

lemma bootstrap_purchase_kept: "bootstrap_purchase_unit D gen q u f db = Inr db' \<Longrightarrow> rows_kept p db db'"
  unfolding bootstrap_purchase_unit_def
  by (auto simp: and_then_Inr_iff split: if_splits dest!: sync_rows intro: rows_kept_same rows_kept_trans [OF create_kept rows_kept_same])

lemma bootstrap_kept:
  assumes "bootstrapProductUomsFromCreateInput D gen q um cf pu db = Inr db'"
  shows "rows_kept p db db'"
  using assms unfolding bootstrapProductUomsFromCreateInput_def
  by (auto simp: and_then_Inr_iff split: if_splits option.splits dest!: seed_rows
      intro: rows_kept_same rows_kept_trans [OF rows_kept_same bootstrap_base_kept]
        rows_kept_trans [OF rows_kept_trans [OF rows_kept_same bootstrap_base_kept] bootstrap_purchase_kept])

lemma ensure_kept:
  assumes "ensureProductBaseUomContext D gen q db = Inr (c, db')" "stored_base p b db"
  shows "rows_kept p db db'"
proof (cases "q = p")
  case True
  then show ?thesis using assms by (simp add: ensure_read_only rows_kept_same)
next
  case False
  obtain db1 where 1: "(if \<not> truthy_str (getProductBaseUomId q db) \<and> listProductUoms q db = []
      then bootstrapLegacyProductUomFromProductRow D gen q db else Inr db) = Inr db1"
    "db' = db1 \<or> (\<exists>i u. db' = setProductUomAsBase q i u db1)"
    using assms(1) by (auto simp: ensureProductBaseUomContext_def and_then_Inr_iff Let_def split: if_splits list.splits)
  have "rows_kept p db db1"
    using 1(1) by (auto simp: bootstrapLegacyProductUomFromProductRow_def split: if_splits intro: bootstrap_kept rows_kept_same)
  then show ?thesis using 1(2) as_base_kept [OF False] rows_kept_trans by blast
qed


subsection \<open>The guard on factors\<close>

definition factor_stands :: "rat \<Rightarrow> rat \<Rightarrow> bool" where
  "factor_stands old new \<longleftrightarrow> new = old \<or>
     (\<exists>f. new = pg_round 6 (js_decimal f) \<and> \<not> isMeaningfulFactorChange (js_round_rat old) (Fin f))"

definition factors_frozen :: "string \<Rightarrow> UomDb \<Rightarrow> UomDb \<Rightarrow> bool" where
  "factors_frozen p db db' \<longleftrightarrow> distinct (row_ids db') \<and>
     (\<forall>r \<in> set (ub_productUoms db). \<forall>r' \<in> set (ub_productUoms db'). pu_productId r = p \<and> pu_id r' = pu_id r \<longrightarrow>
       pu_productId r' = p \<and> factor_stands (pu_factor r) (pu_factor r'))"

lemma kept_frozen: "distinct (row_ids db) \<Longrightarrow> rows_kept p db db' \<Longrightarrow> factors_frozen p db db'"
  unfolding rows_kept_def factors_frozen_def factor_stands_def by blast

lemma kept_then_frozen:
  assumes "distinct (row_ids db)" "rows_kept p db db1" "factors_frozen p db1 db'"
  shows "factors_frozen p db db'"
proof -
  have "pu_productId r' = p \<and> factor_stands (pu_factor r) (pu_factor r')"
    if r: "r \<in> set (ub_productUoms db)" "r' \<in> set (ub_productUoms db')" "pu_productId r = p" "pu_id r' = pu_id r" for r r'
  proof -
    have "pu_id r \<in> set (row_ids db1)" using assms(1,2) r(1) by (auto simp: rows_kept_def row_ids_def)
    then obtain r1 where 1: "r1 \<in> set (ub_productUoms db1)" "pu_id r1 = pu_id r" by (auto simp: row_ids_def)
    then have "pu_productId r1 = p \<and> pu_factor r1 = pu_factor r" using assms(1,2) r(1,3) unfolding rows_kept_def by blast
    then show ?thesis using assms(3) r(2,4) 1 unfolding factors_frozen_def by metis
  qed
  then show ?thesis using assms(3) unfolding factors_frozen_def by blast
qed

lemma repo_update_rows:
  assumes "repo_updateProductUom i y db = Inr (d, db')"
  shows "\<exists>f g. numeric_opt (xu_factor y) = Inr f \<and> ub_productUoms db' = map g (ub_productUoms db)
    \<and> (\<forall>r. pu_id (g r) = pu_id r \<and> pu_productId (g r) = pu_productId r \<and> (if pu_id r = i then pu_factor (g r) = coalesce f (pu_factor r) \<and> pu_uomId (g r) = coalesce (xu_uomId y) (pu_uomId r) else g r = r))"
proof -
  obtain f price cost where 1: "numeric_opt (xu_factor y) = Inr f" and 2: "db' = update_product_uoms (\<lambda>r. if pu_id r = i
           then r\<lparr>pu_uomId := coalesce (xu_uomId y) (pu_uomId r), pu_factor := coalesce f (pu_factor r),
                  pu_barcode := coalesce (xu_barcode y) (pu_barcode r), pu_isDefault := coalesce (xu_isDefault y) (pu_isDefault r),
                  pu_priceOverride := coalesce price (pu_priceOverride r), pu_costOverride := coalesce cost (pu_costOverride r)\<rparr>
           else r) db"
    using assms by (auto simp: repo_updateProductUom_def and_then_Inr_iff Let_def)
  obtain g where g: "db' = update_product_uoms g db" "\<And>r. pu_id (g r) = pu_id r" "\<And>r. pu_productId (g r) = pu_productId r"
    "\<And>r. pu_id r = i \<Longrightarrow> pu_factor (g r) = coalesce f (pu_factor r) \<and> pu_uomId (g r) = coalesce (xu_uomId y) (pu_uomId r)" "\<And>r. pu_id r \<noteq> i \<Longrightarrow> g r = r"
    by (rule that [OF 2]) auto
  show ?thesis by (rule exI [of _ f], rule exI [of _ g]) (simp add: g(2-5) 1 g(1) update_product_uoms_def)
qed

lemma cleared_factor [simp]: "xu_factor (cleared_patch D e y db) = xu_factor y"
  by (simp add: cleared_patch_def Let_def split: prod.splits)

lemma rename_rows [simp]: "ub_productUoms (rename_unit e u db) = ub_productUoms db"
  by (auto simp: rename_unit_def Let_def split: option.splits)

lemma prepared_kept: "rows_kept p db (prepare_write e y db)"
  unfolding prepare_write_def Let_def
  by (auto intro: rows_kept_same unset_kept rows_kept_trans [OF rows_kept_same unset_kept])

lemma finish_rows: "finish_write D y r db = Inr db' \<Longrightarrow> ub_productUoms db' = ub_productUoms db"
  by (auto simp: finish_write_def and_then_Inr_iff dest!: sync_rows)

lemma write_frozen:
  assumes "write_product_uom D e y db = Inr (d, db')" "distinct (row_ids db)"
    and "\<And>r. r \<in> set (ub_productUoms db) \<Longrightarrow> pu_id r = pu_id (dp_row e) \<Longrightarrow> pu_productId r = p \<Longrightarrow>
      r = dp_row e \<and> check_factor_change e (xu_factor y) db = Inr () \<and> hasMaterialStockOnHand (getProductOnHandBase p db)"
  shows "factors_frozen p db db'"
proof -
  let ?i = "pu_id (dp_row e)"
  obtain res db2 where 1: "repo_updateProductUom ?i (cleared_patch D e y db) (prepare_write e y db) = Inr (res, db2)"
    "(case res of None \<Rightarrow> Inr (None, db2) | Some d \<Rightarrow> and_then (finish_write D y (dp_row d) db2) (\<lambda>db. Inr (Some d, db))) = Inr (d, db')"
    using assms(1) by (auto simp: write_product_uom_def and_then_Inr_iff)
  have rows: "ub_productUoms db' = ub_productUoms db2"
    using 1(2) by (auto simp: and_then_Inr_iff split: option.splits dest!: finish_rows)
  from repo_update_rows [OF 1(1)] obtain f g where g: "numeric_opt (xu_factor y) = Inr f"
    "ub_productUoms db2 = map g (ub_productUoms (prepare_write e y db))"
    "\<forall>r. pu_id (g r) = pu_id r \<and> pu_productId (g r) = pu_productId r \<and> (if pu_id r = ?i then pu_factor (g r) = coalesce f (pu_factor r) else g r = r)"
    by (fastforce split: if_splits)
  have k: "distinct (row_ids (prepare_write e y db))" "rows_kept p db (prepare_write e y db)"
    using prepared_kept [of p db e y] assms(2) by (simp_all add: rows_kept_def)
  have "pu_id \<circ> g = pu_id" using g(3) by auto
  then have ids: "row_ids db' = row_ids (prepare_write e y db)" by (simp add: row_ids_def rows g(2))
  have "pu_productId r' = p \<and> factor_stands (pu_factor r) (pu_factor r')"
    if r: "r \<in> set (ub_productUoms db)" "r' \<in> set (ub_productUoms db')" "pu_productId r = p" "pu_id r' = pu_id r" for r r'
  proof -
    obtain r1 where 2: "r1 \<in> set (ub_productUoms (prepare_write e y db))" "r' = g r1" using r(2) by (auto simp: rows g(2))
    then have 3: "pu_productId r1 = p" "pu_factor r1 = pu_factor r" "pu_id r1 = pu_id r"
      using k(2) assms(2) r g(3) unfolding rows_kept_def by metis+
    show ?thesis
    proof (cases "pu_id r = ?i \<and> f \<noteq> None")
      case True
      then have e: "dp_row e = r" "check_factor_change e (xu_factor y) db = Inr ()" "hasMaterialStockOnHand (getProductOnHandBase p db)"
        using assms(3) [OF r(1) _ r(3)] by auto
      obtain n where n: "f = Some n" using True by auto
      then obtain a where a: "xu_factor y = Some (Fin a)" "n = pg_round 6 (js_decimal a)"
        using g(1) by (cases "xu_factor y") (auto simp: and_then_Inr_iff factor_column_def Let_def split: jnum.splits if_splits)
      then have "\<not> isMeaningfulFactorChange (js_round_rat (pu_factor r)) (Fin a)"
        using e by (auto simp: r(3) check_factor_change_def and_then_Inr_iff throw_if_def canChangeConversionFactor_def split: if_splits)
      then show ?thesis using g(3) 2(2) 3 True n a(2) unfolding factor_stands_def by auto
    next
      case False
      then show ?thesis using g(3) 2(2) 3 unfolding factor_stands_def by (cases f) (auto split: if_splits dest: spec [of _ r1])
    qed
  qed
  then show ?thesis using k(1) ids by (auto simp: factors_frozen_def)
qed

lemma stored_row: "getProductUomById i db = Some e \<Longrightarrow> dp_row e \<in> set (ub_productUoms db) \<and> pu_id (dp_row e) = i"
  by (auto simp: getProductUomById_def with_unit_def bind_eq_Some_conv find_Some_iff)

lemma update_frozen:
  assumes "updateProductUom D gen i x db = Inr (d, db')" "stored_base p b db" "distinct (row_ids db)"
    and "\<And>e. getProductUomById i db = Some e \<Longrightarrow> pu_productId (dp_row e) = p \<Longrightarrow> hasMaterialStockOnHand (getProductOnHandBase p db)"
  shows "factors_frozen p db db'"
proof (cases "getProductUomById i db")
  case None
  then show ?thesis using assms(1,3) by (auto simp: updateProductUom_def intro: kept_frozen rows_kept_same)
next
  case (Some e)
  let ?q = "pu_productId (dp_row e)"
  obtain c db1 where 1: "ensureProductBaseUomContext D gen ?q db = Inr (c, db1)" "check_factor_change e (xu_factor x) db1 = Inr ()"
    "write_product_uom D e x db1 = Inr (d, db')"
    using assms(1) Some by (auto simp: updateProductUom_def and_then_Inr_iff Let_def)
  note k = ensure_kept [OF 1(1) assms(2)]
  have d1: "distinct (row_ids db1)" using k assms(3) by (simp add: rows_kept_def)
  show ?thesis
  proof (cases "?q = p")
    case True
    then have "db1 = db" using 1(1) assms(2) by (simp add: ensure_read_only)
    then show ?thesis using write_frozen [OF 1(3) d1, of p] 1(2) same_id_same_row [OF assms(3) _ _] stored_row [OF Some] assms(4) [OF Some True]
      by metis
  next
    case False
    then have "r \<in> set (ub_productUoms db1) \<Longrightarrow> pu_id r = pu_id (dp_row e) \<Longrightarrow> pu_productId r \<noteq> p" for r
      using k assms(3) stored_row [OF Some] unfolding rows_kept_def by metis
    then show ?thesis using write_frozen [OF 1(3) d1, of p] k kept_then_frozen [OF assms(3)] by blast
  qed
qed

lemma insert_kept:
  assumes "insert_product_unit D gen a k f db = Inr (d, db')"
  shows "rows_kept p db db'"
proof -
  let ?db0 = "if k then unsetDefaultForProduct (ap_productId a) db else db"
  have 0: "rows_kept p db ?db0" by (auto intro: unset_kept rows_kept_same)
  obtain x db1 where 1: "createProductUom gen x ?db0 = Inr (d, db1)" "ub_productUoms db' = ub_productUoms db1"
    using assms by (auto simp: insert_product_unit_def and_then_Inr_iff Let_def dest!: sync_rows)
  show ?thesis by (rule rows_kept_trans [OF 0 rows_kept_trans [OF create_kept [OF 1(1)] rows_kept_same [OF 1(2)]]])
qed

lemma listed: "d \<in> set (listProductUoms q db) \<Longrightarrow> dp_row d \<in> set (ub_productUoms db) \<and> pu_productId (dp_row d) = q"
  by (auto simp: listProductUoms_def List.map_filter_def with_unit_def)

lemma duplicate_row:
  assumes "findCanonicalDuplicateProductUom q u c db = Inr (Some d)"
  shows "dp_row d \<in> set (ub_productUoms db) \<and> pu_productId (dp_row d) = q"
proof -
  have "d \<in> set (listProductUoms q db)"
    using assms by (auto simp: findCanonicalDuplicateProductUom_def find_Some_iff split: option.splits)
  then show ?thesis by (rule listed)
qed

lemma add_steps:
  assumes "addProductUom D gen a db = Inr (d, db')"
  shows "\<exists>c db1 dup. ensureProductBaseUomContext D gen (ap_productId a) db = Inr (c, db1)
    \<and> findCanonicalDuplicateProductUom (ap_productId a) (ap_uomId a) None db1 = Inr dup
    \<and> (case dup of Some e \<Rightarrow> \<exists>x. xu_uomId x = Some (ap_uomId a) \<and> xu_isDefault x = Some (fst (effective_row c (ap_isDefault a) (ap_factor a)))
            \<and> updateProductUom D gen (pu_id (dp_row e)) x db1 = Inr (d, db')
        | None \<Rightarrow> insert_product_unit D gen a (fst (effective_row c (ap_isDefault a) (ap_factor a)))
            (snd (effective_row c (ap_isDefault a) (ap_factor a))) db1 = Inr (d, db'))"
proof -
  let ?q = "ap_productId a"
  obtain c db1 where e: "ensureProductBaseUomContext D gen ?q db = Inr (c, db1)"
    using assms by (cases "ensureProductBaseUomContext D gen ?q db") (auto simp: addProductUom_def)
  obtain dup where f: "findCanonicalDuplicateProductUom ?q (ap_uomId a) None db1 = Inr dup"
    using assms e by (cases "findCanonicalDuplicateProductUom ?q (ap_uomId a) None db1") (auto simp: addProductUom_def Let_def)
  show ?thesis using assms e f by (cases dup) (simp_all add: addProductUom_def Let_def, metis ProductUomPatch.select_convs(1,4))
qed

lemma add_frozen:
  assumes "addProductUom D gen a db = Inr (d, db')" "stored_base p b db" "distinct (row_ids db)"
    and "hasMaterialStockOnHand (getProductOnHandBase p db)"
  shows "factors_frozen p db db'"
proof -
  let ?q = "ap_productId a"
  obtain c db1 dup where 1: "ensureProductBaseUomContext D gen ?q db = Inr (c, db1)"
    "findCanonicalDuplicateProductUom ?q (ap_uomId a) None db1 = Inr dup"
    "case dup of Some e \<Rightarrow> \<exists>x. updateProductUom D gen (pu_id (dp_row e)) x db1 = Inr (d, db')
      | None \<Rightarrow> \<exists>k f. insert_product_unit D gen a k f db1 = Inr (d, db')"
    using add_steps [OF assms(1)] by (fastforce split: option.splits)
  note k = ensure_kept [OF 1(1) assms(2)]
  have d1: "distinct (row_ids db1)" using k assms(3) by (simp add: rows_kept_def)
  have same: "?q = p \<Longrightarrow> db1 = db" using 1(1) assms(2) by (simp add: ensure_read_only)
  have "factors_frozen p db1 db'"
  proof (cases dup)
    case None
    then show ?thesis using 1(3) by (auto intro: insert_kept kept_frozen [OF d1])
  next
    case (Some e)
    then obtain x where x: "updateProductUom D gen (pu_id (dp_row e)) x db1 = Inr (d, db')" using 1(3) by auto
    have row: "dp_row e \<in> set (ub_productUoms db1)" "pu_productId (dp_row e) = ?q" using duplicate_row 1(2) Some by auto
    have "hasMaterialStockOnHand (getProductOnHandBase p db1)"
      if "getProductUomById (pu_id (dp_row e)) db1 = Some e'" "pu_productId (dp_row e') = p" for e'
    proof -
      have "dp_row e' = dp_row e" using stored_row [OF that(1)] row same_id_same_row [OF d1] by auto
      then show ?thesis using that(2) row same assms(4) by auto
    qed
    then show ?thesis using update_frozen [OF x ensure_keeps_base [OF 1(1) assms(2)] d1] by blast
  qed
  then show ?thesis by (rule kept_then_frozen [OF assms(3) k])
qed

lemma fewer_rows_frozen:
  assumes "distinct (row_ids db)" "ub_productUoms db' = filter P (ub_productUoms db)"
  shows "factors_frozen p db db'"
  using assms same_id_same_row [OF assms(1)] by (auto simp: factors_frozen_def row_ids_def factor_stands_def distinct_map_filter)

lemma repair_rows_same: "repair_rows q base rs db = Inr db' \<Longrightarrow> ub_productUoms db' = ub_productUoms db"
  by (induction rs arbitrary: db) (auto simp: and_then_Inr_iff split: if_splits dest!: upsert_rows)

lemma repair_kept:
  assumes "repairCanonicalConversionsFromProductUoms D gen q db = Inr db'" "stored_base p b db"
  shows "rows_kept p db db'"
proof -
  have f: "ub_productUoms (fold (\<lambda>c db. if iv_toUomId c \<noteq> base then deleteItemUomConversionBySource q (iv_fromUomId c) db else db) cs db)
      = ub_productUoms db" for cs base db by (induction cs arbitrary: db) auto
  obtain c db1 where 1: "ensureProductBaseUomContext D gen q db = Inr (c, db1)" "ub_productUoms db' = ub_productUoms db1"
    using assms(1) unfolding repairCanonicalConversionsFromProductUoms_def
    by (auto simp: and_then_Inr_iff Let_def f split: if_splits dest!: repair_rows_same)
  show ?thesis by (rule rows_kept_trans [OF ensure_kept [OF 1(1) assms(2)] rows_kept_same [OF 1(2)]])
qed

lemma repair_orphan_kept: "repairOrphanedPurchaseUom D gen q f db = Inr (k, db') \<Longrightarrow> rows_kept p db db'"
  unfolding repairOrphanedPurchaseUom_def
  by (auto simp: and_then_Inr_iff Let_def split: option.splits if_splits dest!: sync_rows
      intro: rows_kept_same rows_kept_trans [OF create_kept rows_kept_same])

lemma repair_orphans_kept: "repair_orphans D gen f g rows db = (r, db') \<Longrightarrow> rows_kept p db db'"
proof (induction rows arbitrary: db r)
  case Nil
  then show ?case by (simp add: rows_kept_same)
next
  case (Cons row rows)
  then show ?case by (auto simp: Let_def split: sum.splits prod.splits intro: rows_kept_same rows_kept_trans [OF repair_orphan_kept])
qed

lemma resolve_kept:
  assumes "resolveSaleItemUom D gen q i db = Inr (s, db')" "stored_base p b db"
  shows "rows_kept p db db'"
proof -
  obtain c1 db1 c2 where 1: "ensureProductBaseUomContext D gen q db = Inr (c1, db1)" "ensureProductBaseUomContext D gen q db1 = Inr (c2, db')"
    using assms(1) unfolding resolveSaleItemUom_def resolveCanonicalProductUom_def
    by (auto simp: and_then_Inr_iff Let_def split: if_splits sum.splits UomError.splits)
  show ?thesis by (rule rows_kept_trans [OF ensure_kept [OF 1(1) assms(2)] ensure_kept [OF 1(2) ensure_keeps_base [OF 1(1) assms(2)]]])
qed

lemma operation_frozen:
  assumes "unit_operation D gen db db'" "stored_base p b db" "distinct (row_ids db)" "hasMaterialStockOnHand (getProductOnHandBase p db)"
  shows "factors_frozen p db db'"
  using assms(1)
proof (cases rule: unit_operation.cases)
  case (add a d)
  then show ?thesis using add_frozen assms(2-4) by blast
next
  case (update i x d)
  then show ?thesis using update_frozen [OF _ assms(2,3)] assms(4) by blast
next
  case (remove i k)
  have "\<exists>P. ub_productUoms db' = filter P (ub_productUoms db)"
    using remove by (auto simp: removeProductUom_def and_then_Inr_iff Let_def deleteProductUom_def split: option.splits
        intro: exI [of _ "\<lambda>_. True"])
  then show ?thesis using fewer_rows_frozen [OF assms(3)] by blast
next
  case (delete_unit i k)
  have "\<exists>P. ub_productUoms db' = filter P (ub_productUoms db)"
    using delete_unit by (auto simp: deleteMasterUom_def deleteUom_def deleteProductUomsByUomId_def and_then_Inr_iff Let_def split: if_splits
        intro: exI [of _ "\<lambda>_. True"])
  then show ?thesis using fewer_rows_frozen [OF assms(3)] by blast
next
  case (create_unit n sy ty u)
  then show ?thesis by (auto simp: createMasterUom_def and_then_Inr_iff Let_def dest!: createUom_rows intro: kept_frozen assms(3) rows_kept_same)
next
  case (update_unit i y u')
  then show ?thesis by (auto simp: updateMasterUom_def updateUom_def and_then_Inr_iff Let_def intro!: kept_frozen assms(3) rows_kept_same)
next
  case (repair_all f g dry r')
  have "rows_kept p db db'"
    using repair_all repair_orphans_kept [of D gen f g "listOrphanedPurchaseUomProducts db" db r' db' p] rows_kept_same
    by (auto simp: repairAllOrphanedPurchaseUoms_def Let_def split: if_splits)
  then show ?thesis by (rule kept_frozen [OF assms(3)])
qed (use assms(2) in \<open>auto intro!: kept_frozen assms(3) dest: resolve_kept repair_kept bootstrap_kept\<close>)

subsection \<open>Units in use\<close>

lemma upsert_adds:
  assumes "upsertItemUomConversion q u base f k db = Inr db'"
  shows "u \<in> set (map iv_fromUomId (ub_conversions db')) \<and> u \<in> set (map um_id (ub_uoms db'))"
proof -
  obtain r where r: "factor_column f = Inr r" using assms by (auto simp: upsertItemUomConversion_def and_then_Inr_iff)
  let ?row = "\<lparr>iv_itemId = q, iv_fromUomId = u, iv_toUomId = base, iv_factor = r, iv_isCanonical = k\<rparr>"
  let ?cs = "if \<exists>c \<in> set (ub_conversions db). iv_itemId c = q \<and> iv_fromUomId c = u
    then map (\<lambda>c. if iv_itemId c = q \<and> iv_fromUomId c = u then ?row else c) (ub_conversions db) else ub_conversions db @ [?row]"
  have "?row \<in> set ?cs" by (auto simp: image_iff)
  then have "iv_fromUomId ?row \<in> set (map iv_fromUomId ?cs)" unfolding set_map by (rule imageI)
  then have "u \<in> set (map iv_fromUomId ?cs)" by (simp only: DbItemUomConversion.select_convs)
  moreover have "db' = db\<lparr>ub_conversions := ?cs\<rparr>" "u \<in> set (map um_id (ub_uoms db))"
    using assms r by (simp_all add: upsertItemUomConversion_def and_then_Inr_iff Let_def throw_if_def split: if_splits)
  ultimately show ?thesis by simp
qed

lemma sync_adds: "syncCanonicalConversion D q u f False db = Inr db' \<Longrightarrow>
    u \<in> set (map iv_fromUomId (ub_conversions db')) \<and> u \<in> set (map um_id (ub_uoms db'))"
  by (auto simp: syncCanonicalConversion_def and_then_Inr_iff Let_def simp del: set_map dest!: upsert_adds)

lemma insert_adds: "insert_product_unit D gen a False f db = Inr (d, db') \<Longrightarrow>
    ap_uomId a \<in> set (map iv_fromUomId (ub_conversions db')) \<and> ap_uomId a \<in> set (map um_id (ub_uoms db'))"
  by (auto simp: insert_product_unit_def and_then_Inr_iff Let_def simp del: set_map dest!: sync_adds)

lemma updated_row:
  assumes "repo_updateProductUom i y db = Inr (Some d, db')" "xu_uomId y = Some u"
  shows "pu_uomId (dp_row d) = u"
proof -
  have "dp_row d \<in> set (ub_productUoms db') \<and> pu_id (dp_row d) = i"
    using assms(1) by (intro stored_row) (auto simp: repo_updateProductUom_def and_then_Inr_iff Let_def)
  moreover obtain f g where g: "ub_productUoms db' = map g (ub_productUoms db)"
    "\<forall>r. pu_id (g r) = pu_id r \<and> pu_productId (g r) = pu_productId r \<and> (if pu_id r = i
      then pu_factor (g r) = coalesce f (pu_factor r) \<and> pu_uomId (g r) = coalesce (xu_uomId y) (pu_uomId r) else g r = r)"
    using repo_update_rows [OF assms(1)] by (elim exE conjE) (rule that)
  ultimately obtain r where "dp_row d = g r" "pu_id r = i" by auto
  then show ?thesis using spec [OF g(2), of r] assms(2) by simp
qed

lemma cleared_uom [simp]: "xu_uomId (cleared_patch D e y db) = xu_uomId y"
  by (simp add: cleared_patch_def Let_def split: prod.splits)

lemma update_adds:
  assumes "updateProductUom D gen i x db = Inr (Some d, db')" "xu_uomId x = Some u" "xu_isDefault x = Some False"
  shows "u \<in> set (map iv_fromUomId (ub_conversions db')) \<and> u \<in> set (map um_id (ub_uoms db'))"
proof -
  obtain e where e: "getProductUomById i db = Some e" using assms(1) by (cases "getProductUomById i db") (auto simp: updateProductUom_def)
  obtain db1 where 1: "write_product_uom D e x db1 = Inr (Some d, db')"
    using assms(1) unfolding updateProductUom_def by (auto simp: e and_then_Inr_iff Let_def)
  obtain res db3 where 3: "repo_updateProductUom (pu_id (dp_row e)) (cleared_patch D e x db1) (prepare_write e x db1) = Inr (res, db3)"
    "(case res of None \<Rightarrow> Inr (None, db3) | Some d \<Rightarrow> and_then (finish_write D x (dp_row d) db3) (\<lambda>db. Inr (Some d, db))) = Inr (Some d, db')"
    using 1 by (auto simp: write_product_uom_def and_then_Inr_iff)
  then have 2: "repo_updateProductUom (pu_id (dp_row e)) (cleared_patch D e x db1) (prepare_write e x db1) = Inr (Some d, db3)"
    "finish_write D x (dp_row d) db3 = Inr db'"
    by (auto simp: and_then_Inr_iff split: option.splits)
  have "pu_uomId (dp_row d) = u" using updated_row [OF 2(1)] assms(2) by simp
  then show ?thesis using 2(2) assms(3) by (auto simp: finish_write_def and_then_Inr_iff simp del: set_map dest!: sync_adds)
qed

lemma add_adds:
  assumes "addProductUom D gen a db = Inr (Some d, db')" "\<not> ap_isDefault a" "stored_base (ap_productId a) b db"
  shows "ap_uomId a \<in> set (map iv_fromUomId (ub_conversions db')) \<and> ap_uomId a \<in> set (map um_id (ub_uoms db'))"
proof -
  have eff: "effective_row (Some b) (ap_isDefault a) (ap_factor a) = (False, ap_factor a)"
    using assms(2) stored_base_is_base [OF assms(3)] by (simp add: effective_row_def)
  obtain c db1 dup where 1: "ensureProductBaseUomContext D gen (ap_productId a) db = Inr (c, db1)"
    and 2: "case (dup :: DbProductUom option) of Some e \<Rightarrow> \<exists>x. xu_uomId x = Some (ap_uomId a) \<and> xu_isDefault x = Some (fst (effective_row c (ap_isDefault a) (ap_factor a)))
            \<and> updateProductUom D gen (pu_id (dp_row e)) x db1 = Inr (Some d, db')
        | None \<Rightarrow> insert_product_unit D gen a (fst (effective_row c (ap_isDefault a) (ap_factor a)))
            (snd (effective_row c (ap_isDefault a) (ap_factor a))) db1 = Inr (Some d, db')"
    using add_steps [OF assms(1)] by (elim exE conjE) (rule that)
  have "c = Some b" "db1 = db" using 1 ensure_read_only [OF assms(3), of D gen] by simp_all
  then show ?thesis using 2 eff by (cases dup) (auto simp del: set_map dest: insert_adds update_adds)
qed

lemma used_unit_not_deleted:
  assumes "u \<in> set (map iv_fromUomId (ub_conversions db))" "u \<in> set (map um_id (ub_uoms db))"
  shows "deleteMasterUom u db = Inl (let n = getUomUsageCounts u db in
    if 0 < uu_saleItems n + uu_poItems n + uu_grItems n + uu_stockMovements n then US_IN_DOCUMENTS
    else if 0 < uu_productBase n then US_IS_BASE else US_DB_REFERENCE)"
  using assms by (simp add: deleteMasterUom_def deleteUom_def deleteProductUomsByUomId_def throw_if_def Let_def)

end
