(* ===== verification/UomTheorems.thy ===== *)
theory UomTheorems imports UomGuards
begin

section \<open>What the unit service guarantees\<close>

text \<open>
  A sale line resolves to the factor of its unit without writing anything; with stock on hand the
  factors of a product stand; a unit that a product uses as a pack can never be deleted.
\<close>

subsection \<open>The merged conversions form a star\<close>










text \<open>Identifiers are UUIDs: none has a colon.\<close>

definition plain_ids :: "UomDb \<Rightarrow> bool" where
  "plain_ids db \<longleftrightarrow> (\<forall>r \<in> set (ub_productUoms db). CHR '':'' \<notin> set (pu_uomId r))
     \<and> (\<forall>c \<in> set (ub_conversions db). CHR '':'' \<notin> set (iv_fromUomId c))"











subsection \<open>Resolution on a star\<close>









subsection \<open>Sale lines\<close>










subsection \<open>Base unit, factors and units in use\<close>

text \<open>C23. Whatever sequence of operations runs, the stored base unit of a product stays.\<close>

theorem base_unit_is_permanent:
  assumes "(unit_operation D gen)\<^sup>*\<^sup>* db db'" "stored_base p b db"
  shows "stored_base p b db'"
  using assms by (induction rule: rtranclp_induct) (auto intro: unit_operation_keeps_base)

text \<open>C22. For a product whose base unit is stored: with stock on hand, a row that an operation leaves in place still
  belongs to the product, and its factor is the old one, or a given one that the guard of the code takes for no
  change. (A product of old that has units but no stored base gets one from the first operation that needs it, and the
  factor of that row becomes one, stock or not: \<open>legacy_sale_changes_factor\<close>.)\<close>

theorem stock_freezes_factors:
  assumes "unit_operation D gen db db'" "stored_base p b db" "distinct (row_ids db)" "hasMaterialStockOnHand (getProductOnHandBase p db)"
    and "r \<in> set (ub_productUoms db)" "pu_productId r = p" "r' \<in> set (ub_productUoms db')" "pu_id r' = pu_id r"
  shows "pu_productId r' = p \<and> (pu_factor r' = pu_factor r \<or>
    (\<exists>f. pu_factor r' = pg_round 6 (js_decimal f) \<and> \<not> isMeaningfulFactorChange (js_round_rat (pu_factor r)) (Fin f)))"
  using operation_frozen [OF assms(1-4)] assms(5-8) unfolding factors_frozen_def factor_stands_def by blast


subsection \<open>A concrete product\<close>

definition sample_row :: "string \<Rightarrow> string \<Rightarrow> rat \<Rightarrow> bool \<Rightarrow> ProductUom" where
  "sample_row i u f k = \<lparr>pu_id = i, pu_productId = ''p'', pu_uomId = u, pu_factor = f, pu_barcode = None, pu_isDefault = k,
     pu_priceOverride = None, pu_costOverride = None\<rparr>"

definition sample_unit :: "string \<Rightarrow> string \<Rightarrow> DbUom" where
  "sample_unit i n = \<lparr>um_id = i, um_name = n, um_symbol = None, um_type = ''QUANTITY''\<rparr>"

definition sample_units :: UomDb where
  "sample_units = \<lparr>ub_uoms = [sample_unit ''e'' ''EACH'', sample_unit ''b'' ''BOX'', sample_unit ''c'' ''CARTON''],
     ub_productUoms = [sample_row ''r1'' ''e'' 1 True, sample_row ''r2'' ''b'' 12 False],
     ub_conversions = [\<lparr>iv_itemId = ''p'', iv_fromUomId = ''b'', iv_toUomId = ''e'', iv_factor = 12, iv_isCanonical = True\<rparr>],
     ub_products = [\<lparr>up_id = ''p'', up_name = ''Tea'', up_sku = None, up_isActive = True, up_baseUomId = Some ''e'', up_purchaseUomId = None,
       up_costPrice = 2, up_sellingPrice = 3, up_quantityOnHand = Some 5, up_batches = [5]\<rparr>],
     ub_saleItems = [], ub_poItems = [], ub_grItems = [], ub_movements = [], ub_seq = 0\<rparr>"

definition sample_ids :: "nat \<Rightarrow> string" where
  "sample_ids n = replicate (Suc n) (CHR ''g'')"

definition sample_pack :: AddProductUom where
  "sample_pack = \<lparr>ap_productId = ''p'', ap_uomId = ''c'', ap_factor = Fin 24, ap_barcode = None, ap_isDefault = False, ap_priceOverride = None,
     ap_costOverride = None\<rparr>"

lemma sample_facts:
  "stored_base ''p'' ''e'' sample_units" "plain_ids sample_units" "product_uoms_ok (ub_productUoms sample_units)" "distinct (row_ids sample_units)"
  by (simp_all add: stored_base_def product_of_def plain_ids_def product_uoms_ok_def row_ids_def sample_units_def sample_row_def)

lemma sample_on_hand: "hasMaterialStockOnHand (getProductOnHandBase ''p'' sample_units)"
  by code_simp

lemma sample_added: "case addProductUom rat_decimal sample_ids sample_pack sample_units of Inr (Some d, _) \<Rightarrow> True | _ \<Rightarrow> False"
  by code_simp

lemma sample_pack_added: "\<exists>d db'. addProductUom rat_decimal sample_ids sample_pack sample_units = Inr (Some d, db')"
  using sample_added by (auto split: sum.splits option.splits)



text \<open>A sale of a legacy product in its only unit, a box of twelve, makes the box the base unit of the stock on hand.\<close>

definition legacy_units :: UomDb where
  "legacy_units = sample_units\<lparr>ub_productUoms := [sample_row ''r2'' ''b'' 12 False], ub_conversions := [],
     ub_products := [\<lparr>up_id = ''p'', up_name = ''Tea'', up_sku = None, up_isActive = True, up_baseUomId = None, up_purchaseUomId = None,
       up_costPrice = 2, up_sellingPrice = 3, up_quantityOnHand = Some 5, up_batches = [5]\<rparr>]\<rparr>"

theorem legacy_sale_changes_factor:
  "hasMaterialStockOnHand (getProductOnHandBase ''p'' legacy_units)
   \<and> (case resolveSaleItemUom rat_decimal sample_ids ''p'' \<lparr>sl_quantity = Fin 3, sl_uomId = Some ''b'', sl_uom = None\<rparr> legacy_units of
        Inr (_, db) \<Rightarrow> map pu_factor (ub_productUoms legacy_units) = [12] \<and> map pu_factor (ub_productUoms db) = [1] | _ \<Rightarrow> False)"
  by code_simp

theorem base_unit_is_permanent_witness:
  "case addProductUom rat_decimal sample_ids sample_pack sample_units of Inr (_, db) \<Rightarrow> stored_base ''p'' ''e'' db | _ \<Rightarrow> False"
proof -
  obtain d db where a: "addProductUom rat_decimal sample_ids sample_pack sample_units = Inr (Some d, db)" using sample_pack_added by auto
  then have "(unit_operation rat_decimal sample_ids)\<^sup>*\<^sup>* sample_units db" by (blast intro: unit_operation.add)
  from base_unit_is_permanent [OF this sample_facts(1)] show ?thesis by (simp add: a)
qed

theorem stock_freezes_factors_witness:
  "case addProductUom rat_decimal sample_ids sample_pack sample_units of
     Inr (_, db) \<Rightarrow> list_all (\<lambda>r. if pu_id r = ''r2'' then pu_productId r = ''p'' else True) (ub_productUoms db) | _ \<Rightarrow> False"
proof -
  obtain d db where a: "addProductUom rat_decimal sample_ids sample_pack sample_units = Inr (Some d, db)" using sample_pack_added by auto
  have r: "sample_row ''r2'' ''b'' 12 False \<in> set (ub_productUoms sample_units)" by (simp add: sample_units_def)
  from stock_freezes_factors [OF unit_operation.add [OF a] sample_facts(1,4) sample_on_hand r]
  show ?thesis by (simp add: a list_all_iff sample_row_def)
qed


end
