(* ===== verification/CostLayers.thy ===== *)
theory CostLayers imports DecimalProducts "HOL-Library.Product_Lexorder"
begin

section \<open>Cost layers\<close>

text \<open>
  \<open>services/costLayerService.ts\<close>: every receipt of stock makes a layer with its unit cost, FIFO sales
  consume the oldest layers first, and the average cost of a product follows its layers. The columns
  and CHECK constraints of \<open>shared/sql/001_create_cost_layers.sql\<close> are written out. The layers are taken
  by received date and then by \<open>created_at\<close>, which is the start of the transaction that made them
  (\<open>NOW()\<close>): the layers of one goods receipt are equal in both, and then their order is that in which
  the database happens to return the rows. That order is a parameter of the tables (\<open>co_scan\<close>), of
  which nothing is known but that it returns each row once; \<open>co_now\<close> is the start of the current
  transaction. Received dates are texts of one format. A quantity is a finite number, as the schemas of the requests require. A deduction on the
  caller's transaction returns its result and the tables as it leaves them, since the caller may go on
  after an error (\<open>sales/salesService.ts\<close> does); an error of the database aborts the transaction.
  \<open>consumeCostLayersFIFO\<close> of \<open>inventory/stockMovementHandler.ts\<close> is the deduction of stock adjustments.
\<close>

subsection \<open>Tables\<close>

record CostLayer =
  cl_id :: string
  cl_productId :: string
  cl_quantity :: rat
  cl_remaining :: rat
  cl_unitCost :: rat
  cl_receivedDate :: string
  cl_goodsReceiptId :: "string option"
  cl_batchNumber :: "string option"
  cl_isActive :: bool
  cl_createdAt :: nat

record Valuation =
  pv_productId :: string
  pv_averageCost :: rat
  pv_lastCost :: "rat option"

record CostDb =
  co_products :: "string list"
  co_layers :: "CostLayer list"
  co_valuations :: "Valuation list"
  co_seq :: nat
  co_now :: nat
  co_scan :: "CostLayer list \<Rightarrow> CostLayer list"

datatype CostError =
    CL_QUANTITY | CL_UNIT_COST | CL_NO_LAYERS | CL_INSUFFICIENT | CL_METHOD | CL_PRODUCT_NOT_FOUND
  | CL_DB_NUMERIC | CL_DB_CHECK | CL_DB_REFERENCE | CL_DB_UNIQUE

definition numeric_15 :: "nat \<Rightarrow> rat \<Rightarrow> (CostError, rat) result" where
  "numeric_15 s q = (let r = pg_round s q in if 10 ^ (15 - s) \<le> \<bar>r\<bar> then Inl CL_DB_NUMERIC else Inr r)"

definition layer_check :: "CostLayer \<Rightarrow> bool" where
  "layer_check l \<longleftrightarrow> 0 < cl_quantity l \<and> 0 \<le> cl_remaining l \<and> 0 \<le> cl_unitCost l \<and> cl_remaining l \<le> cl_quantity l"

text \<open>The layers that a query on a product selects, in the order in which the database returns them, and by
  \<open>ORDER BY received_date ASC, created_at ASC\<close>.\<close>

definition stock_rows :: "string \<Rightarrow> CostDb \<Rightarrow> CostLayer list" where
  "stock_rows p db = filter (\<lambda>l. cl_productId l = p \<and> cl_isActive l \<and> 0 < cl_remaining l) (co_scan db (co_layers db))"

definition layer_age :: "CostLayer \<Rightarrow> string \<times> nat" where
  "layer_age l = (cl_receivedDate l, cl_createdAt l)"

definition fifo_layers :: "string \<Rightarrow> CostDb \<Rightarrow> CostLayer list" where
  "fifo_layers p db = sort_key layer_age (stock_rows p db)"

subsection \<open>Decimals\<close>

definition dec_zero :: "'d decimal_lib \<Rightarrow> 'd" where
  "dec_zero D = dl_of_num D (Fin 0)"

definition dec_lte0 :: "'d decimal_lib \<Rightarrow> 'd \<Rightarrow> bool" where
  "dec_lte0 D x \<longleftrightarrow> dl_lt D x (dec_zero D) \<or> dl_isZero D x"

definition dec_gt0 :: "'d decimal_lib \<Rightarrow> 'd \<Rightarrow> bool" where
  "dec_gt0 D x \<longleftrightarrow> dl_lt D (dec_zero D) x"

definition dec_min :: "'d decimal_lib \<Rightarrow> 'd \<Rightarrow> 'd \<Rightarrow> 'd" where
  "dec_min D a b = (if dl_lt D b a then b else a)"

subsection \<open>Average cost\<close>

definition layer_totals :: "'d decimal_lib \<Rightarrow> string \<Rightarrow> CostDb \<Rightarrow> 'd \<times> 'd" where
  "layer_totals D p db = (let ls = stock_rows p db in
     if ls = [] then (dec_zero D, dec_zero D)
     else (dl_of_db D (\<Sum>l \<leftarrow> ls. cl_remaining l), dl_of_db D (\<Sum>l \<leftarrow> ls. cl_remaining l * cl_unitCost l)))"

definition update_valuation :: "string \<Rightarrow> (Valuation \<Rightarrow> Valuation) \<Rightarrow> CostDb \<Rightarrow> CostDb" where
  "update_valuation p f db = db\<lparr>co_valuations := map (\<lambda>r. if pv_productId r = p then f r else r) (co_valuations db)\<rparr>"

definition updateAverageCost :: "'d decimal_lib \<Rightarrow> string \<Rightarrow> CostDb \<Rightarrow> CostDb" where
  "updateAverageCost D p db =
     (let (quantity, total) = layer_totals D p db;
          average = (if dec_gt0 D quantity then dl_div D total quantity else dec_zero D)
      in update_valuation p (\<lambda>r. r\<lparr>pv_averageCost := dl_toFixed D 2 average\<rparr>) db)"

subsection \<open>Receipts\<close>

record CreateCostLayer =
  cc_productId :: string
  cc_quantity :: jnum
  cc_unitCost :: jnum
  cc_receivedDate :: "string option"
  cc_goodsReceiptId :: "string option"
  cc_batchNumber :: "string option"

definition some_text :: "string option \<Rightarrow> string option" where
  "some_text x = (if truthy_str x then x else None)"

definition insert_layer :: "(nat \<Rightarrow> string) \<Rightarrow> CreateCostLayer \<Rightarrow> rat \<Rightarrow> rat \<Rightarrow> string \<Rightarrow> CostDb \<Rightarrow> (CostError, CostDb) result" where
  "insert_layer gen data quantity unitCost date db =
     and_then (numeric_15 4 quantity) (\<lambda>q.
     and_then (numeric_15 2 unitCost) (\<lambda>c.
     let l = \<lparr>cl_id = gen (co_seq db), cl_productId = cc_productId data, cl_quantity = q, cl_remaining = q, cl_unitCost = c,
              cl_receivedDate = date, cl_goodsReceiptId = some_text (cc_goodsReceiptId data),
              cl_batchNumber = some_text (cc_batchNumber data), cl_isActive = True, cl_createdAt = co_now db\<rparr> in
     and_then (throw_if (\<not> layer_check l) CL_DB_CHECK) (\<lambda>_.
     and_then (throw_if (cl_productId l \<notin> set (co_products db)) CL_DB_REFERENCE) (\<lambda>_.
     and_then (throw_if (cl_id l \<in> set (map cl_id (co_layers db))) CL_DB_UNIQUE) (\<lambda>_.
     Inr (db\<lparr>co_layers := co_layers db @ [l], co_seq := Suc (co_seq db)\<rparr>))))))"

definition createCostLayer ::
  "'d decimal_lib \<Rightarrow> (nat \<Rightarrow> string) \<Rightarrow> string \<Rightarrow> CreateCostLayer \<Rightarrow> CostDb \<Rightarrow> (CostError, CostDb) result" where
  "createCostLayer D gen today data db =
     (let quantity = dl_of_num D (cc_quantity data); unitCost = dl_of_num D (cc_unitCost data);
          date = str_or (cc_receivedDate data) today in
      and_then (throw_if (dec_lte0 D quantity) CL_QUANTITY) (\<lambda>_.
      and_then (throw_if (dl_lt D unitCost (dec_zero D)) CL_UNIT_COST) (\<lambda>_.
      and_then (insert_layer gen data (dl_toFixed D 4 quantity) (dl_toFixed D 2 unitCost) date db) (\<lambda>db.
      Inr (updateAverageCost D (cc_productId data)
        (update_valuation (cc_productId data) (\<lambda>r. r\<lparr>pv_lastCost := Some (dl_toFixed D 2 unitCost)\<rparr>) db))))))"

subsection \<open>Cost of a sale\<close>

record 'd LayerCost =
  al_costLayerId :: string
  al_quantityConsumed :: 'd
  al_unitCost :: 'd
  al_totalCost :: 'd

record 'd ActualCostResult =
  cr_totalCost :: 'd
  cr_averageCost :: 'd
  cr_layers :: "'d LayerCost list"

fun fifo_allocate ::
  "'d decimal_lib \<Rightarrow> CostLayer list \<Rightarrow> 'd \<Rightarrow> 'd \<Rightarrow> 'd LayerCost list \<Rightarrow> 'd \<times> 'd \<times> 'd LayerCost list" where
  "fifo_allocate D [] remaining tot allocs = (remaining, tot, allocs)"
| "fifo_allocate D (l # ls) remaining tot allocs =
     (if dec_lte0 D remaining then (remaining, tot, allocs)
      else let unitCost = dl_of_db D (cl_unitCost l);
               consume = dec_min D remaining (dl_of_db D (cl_remaining l));
               cost = dl_times D consume unitCost
           in fifo_allocate D ls (dl_minus D remaining consume) (dl_plus D tot cost)
                (allocs @ [\<lparr>al_costLayerId = cl_id l, al_quantityConsumed = consume, al_unitCost = unitCost, al_totalCost = cost\<rparr>]))"

definition calculateFIFOCost :: "'d decimal_lib \<Rightarrow> string \<Rightarrow> jnum \<Rightarrow> CostDb \<Rightarrow> (CostError, 'd ActualCostResult) result" where
  "calculateFIFOCost D p quantity db =
     (let requested = dl_of_num D quantity; ls = fifo_layers p db in
      and_then (throw_if (dec_lte0 D requested) CL_QUANTITY) (\<lambda>_.
      and_then (throw_if (ls = []) CL_NO_LAYERS) (\<lambda>_.
      let (remaining, tot, allocs) = fifo_allocate D ls requested (dec_zero D) [] in
      and_then (throw_if (dec_gt0 D remaining) CL_INSUFFICIENT) (\<lambda>_.
      Inr \<lparr>cr_totalCost = tot, cr_averageCost = dl_div D tot requested, cr_layers = allocs\<rparr>))))"

definition calculateAVCOCost :: "'d decimal_lib \<Rightarrow> string \<Rightarrow> jnum \<Rightarrow> CostDb \<Rightarrow> (CostError, 'd ActualCostResult) result" where
  "calculateAVCOCost D p quantity db =
     (let requested = dl_of_num D quantity; (available, total) = layer_totals D p db in
      and_then (throw_if (dec_lte0 D requested) CL_QUANTITY) (\<lambda>_.
      and_then (throw_if (dec_lte0 D available) CL_NO_LAYERS) (\<lambda>_.
      and_then (throw_if (dl_lt D available requested) CL_INSUFFICIENT) (\<lambda>_.
      let average = dl_div D total available in
      Inr \<lparr>cr_totalCost = dl_times D average requested, cr_averageCost = average, cr_layers = []\<rparr>))))"

definition calculateActualCost ::
  "'d decimal_lib \<Rightarrow> string \<Rightarrow> jnum \<Rightarrow> string \<Rightarrow> CostDb \<Rightarrow> (CostError, 'd ActualCostResult) result" where
  "calculateActualCost D p quantity costingMethod db =
     (if costingMethod = ''FIFO'' then calculateFIFOCost D p quantity db
      else if costingMethod = ''AVCO'' then calculateAVCOCost D p quantity db
      else if costingMethod = ''STANDARD''
      then (case find (\<lambda>r. pv_productId r = p) (co_valuations db) of
              None \<Rightarrow> Inl CL_PRODUCT_NOT_FOUND
            | Some r \<Rightarrow> let average = dl_of_db D (pv_averageCost r) in
                Inr \<lparr>cr_totalCost = dl_times D average (dl_of_num D quantity), cr_averageCost = average, cr_layers = []\<rparr>)
      else Inl CL_METHOD)"

subsection \<open>Deduction\<close>

definition update_layer :: "string \<Rightarrow> rat \<Rightarrow> bool \<Rightarrow> CostDb \<Rightarrow> (CostError, CostDb) result" where
  "update_layer i remaining active db =
     and_then (numeric_15 4 remaining) (\<lambda>r.
     let ls = map (\<lambda>l. if cl_id l = i then l\<lparr>cl_remaining := r, cl_isActive := active\<rparr> else l) (co_layers db) in
     and_then (throw_if (\<exists>l \<in> set ls. cl_id l = i \<and> \<not> layer_check l) CL_DB_CHECK) (\<lambda>_.
     Inr (db\<lparr>co_layers := ls\<rparr>)))"

fun deduct_layers :: "'d decimal_lib \<Rightarrow> CostLayer list \<Rightarrow> 'd \<Rightarrow> CostDb \<Rightarrow> (CostError, 'd \<times> CostDb) result" where
  "deduct_layers D [] remaining db = Inr (remaining, db)"
| "deduct_layers D (l # ls) remaining db =
     (if dec_lte0 D remaining then Inr (remaining, db)
      else let available = dl_of_db D (cl_remaining l);
               deducted = dec_min D remaining available;
               left = dl_minus D available deducted
           in and_then (update_layer (cl_id l) (dl_toFixed D 4 left) (dec_gt0 D left) db)
                (deduct_layers D ls (dl_minus D remaining deducted)))"

text \<open>\<open>_deductFromCostLayersOnClient\<close>: the layers are updated before the shortage is found.\<close>

definition deduct_on_client :: "'d decimal_lib \<Rightarrow> string \<Rightarrow> jnum \<Rightarrow> CostDb \<Rightarrow> (CostError, unit) result \<times> CostDb" where
  "deduct_on_client D p quantity db =
     (case deduct_layers D (fifo_layers p db) (dl_of_num D quantity) db of
        Inl e \<Rightarrow> (Inl e, db)
      | Inr (remaining, db) \<Rightarrow>
          if dec_gt0 D remaining then (Inl CL_INSUFFICIENT, db) else (Inr (), updateAverageCost D p db))"

text \<open>\<open>deductFromCostLayers\<close> on the caller's transaction, and in a transaction of its own, which an
  error rolls back.\<close>

definition deductFromCostLayers ::
  "'d decimal_lib \<Rightarrow> string \<Rightarrow> jnum \<Rightarrow> string \<Rightarrow> CostDb \<Rightarrow> (CostError, unit) result \<times> CostDb" where
  "deductFromCostLayers D p quantity costingMethod db =
     (if costingMethod \<noteq> ''FIFO'' then (Inr (), db) else deduct_on_client D p quantity db)"

definition deduct_own_transaction ::
  "'d decimal_lib \<Rightarrow> string \<Rightarrow> jnum \<Rightarrow> string \<Rightarrow> CostDb \<Rightarrow> (CostError, CostDb) result" where
  "deduct_own_transaction D p quantity costingMethod db =
     (case deductFromCostLayers D p quantity costingMethod db of
        (Inl e, _) \<Rightarrow> Inl e
      | (Inr _, db) \<Rightarrow> Inr db)"

text \<open>The step of a sale that deducts its layers catches a shortage and goes on; an error of the
  database leaves the transaction aborted.\<close>

record CostLayerDeduction =
  cd_productId :: string
  cd_quantity :: jnum
  cd_costingMethod :: string

fun deduct_sale_layers :: "'d decimal_lib \<Rightarrow> CostLayerDeduction list \<Rightarrow> CostDb \<Rightarrow> (CostError, CostDb) result" where
  "deduct_sale_layers D [] db = Inr db"
| "deduct_sale_layers D (x # xs) db =
     (case deductFromCostLayers D (cd_productId x) (cd_quantity x) (cd_costingMethod x) db of
        (Inr _, db) \<Rightarrow> deduct_sale_layers D xs db
      | (Inl CL_INSUFFICIENT, db) \<Rightarrow> deduct_sale_layers D xs db
      | (Inl e, _) \<Rightarrow> Inl e)"

text \<open>Stock adjustments consume what there is.\<close>

definition consume_layer :: "string \<Rightarrow> rat \<Rightarrow> CostDb \<Rightarrow> (CostError, CostDb) result" where
  "consume_layer i remaining db =
     and_then (numeric_15 4 remaining) (\<lambda>r.
     let ls = map (\<lambda>l. if cl_id l = i
                       then l\<lparr>cl_remaining := r, cl_isActive := (if remaining \<le> 0 then False else cl_isActive l)\<rparr> else l) (co_layers db) in
     and_then (throw_if (\<exists>l \<in> set ls. cl_id l = i \<and> \<not> layer_check l) CL_DB_CHECK) (\<lambda>_.
     Inr (db\<lparr>co_layers := ls\<rparr>)))"

fun consume_layers ::
  "'d decimal_lib \<Rightarrow> CostLayer list \<Rightarrow> 'd \<Rightarrow> 'd \<Rightarrow> CostDb \<Rightarrow> (CostError, 'd \<times> 'd \<times> CostDb) result" where
  "consume_layers D [] remaining consumedValue db = Inr (remaining, consumedValue, db)"
| "consume_layers D (l # ls) remaining consumedValue db =
     (if dec_lte0 D remaining then Inr (remaining, consumedValue, db)
      else let available = dl_of_db D (cl_remaining l);
               consume = dec_min D remaining available;
               newQty = dl_minus D available consume
           in and_then (consume_layer (cl_id l) (dl_toFixed D 4 newQty) db)
                (consume_layers D ls (dl_minus D remaining consume)
                   (dl_plus D consumedValue (dl_times D consume (dl_of_db D (cl_unitCost l))))))"

definition consumeCostLayersFIFO :: "'d decimal_lib \<Rightarrow> string \<Rightarrow> jnum \<Rightarrow> CostDb \<Rightarrow> (CostError, 'd \<times> CostDb) result" where
  "consumeCostLayersFIFO D p quantity db =
     and_then (consume_layers D (fifo_layers p db) (dl_of_num D quantity) (dec_zero D) db) (\<lambda>(_, consumedValue, db).
     Inr (consumedValue, updateAverageCost D p db))"

subsection \<open>Summary\<close>

record 'd LayerSummary =
  ls_id :: string
  ls_quantity :: 'd
  ls_remaining :: 'd
  ls_unitCost :: 'd
  ls_value :: 'd
  ls_receivedDate :: string
  ls_batchNumber :: "string option"

record 'd CostLayerSummary =
  su_layers :: "'d LayerSummary list"
  su_totalQuantity :: 'd
  su_totalValue :: 'd
  su_averageCost :: 'd
  su_activeLayerCount :: nat

definition summary_layer :: "'d decimal_lib \<Rightarrow> CostLayer \<Rightarrow> 'd LayerSummary" where
  "summary_layer D l = (let r = dl_of_db D (cl_remaining l); c = dl_of_db D (cl_unitCost l) in
     \<lparr>ls_id = cl_id l, ls_quantity = dl_of_db D (cl_quantity l), ls_remaining = r, ls_unitCost = c, ls_value = dl_times D r c,
      ls_receivedDate = cl_receivedDate l, ls_batchNumber = cl_batchNumber l\<rparr>)"

definition getCostLayerSummary :: "'d decimal_lib \<Rightarrow> string \<Rightarrow> CostDb \<Rightarrow> 'd CostLayerSummary" where
  "getCostLayerSummary D p db =
     (let ls = map (summary_layer D) (sort_key cl_receivedDate (stock_rows p db));
          quantity = foldl (\<lambda>t l. dl_plus D t (ls_remaining l)) (dec_zero D) ls;
          total = foldl (\<lambda>t l. dl_plus D t (ls_value l)) (dec_zero D) ls
      in \<lparr>su_layers = ls, su_totalQuantity = quantity, su_totalValue = total,
          su_averageCost = (if dec_gt0 D quantity then dl_div D total quantity else dec_zero D),
          su_activeLayerCount = length ls\<rparr>)"

end
