(* ===== verification/FifoStock.thy ===== *)
theory FifoStock imports Prelude "HOL-Library.Multiset"
begin

section \<open>A stock issued first in, first out\<close>

text \<open>
  What the cost layers of a product promise: a queue of quantities with their unit costs, oldest
  first, from whose front an issue takes. The locale is the contract of a routine that issues stock
  of one item out of several; any such routine issues a list of requests as one request of their sum.
\<close>

type_synonym fifo_stock = "(rat \<times> rat) list"

definition stock_quantity :: "fifo_stock \<Rightarrow> rat" where
  "stock_quantity xs = (\<Sum>x \<leftarrow> xs. fst x)"

definition stock_value :: "fifo_stock \<Rightarrow> rat" where
  "stock_value xs = (\<Sum>x \<leftarrow> xs. fst x * snd x)"

fun issue_front :: "rat \<Rightarrow> fifo_stock \<Rightarrow> fifo_stock" where
  "issue_front q [] = []"
| "issue_front q ((r, c) # xs) =
     (if q \<le> 0 then (r, c) # xs else if r \<le> q then issue_front (q - r) xs else (r - q, c) # xs)"

lemma stock_quantity_simps [simp]: "stock_quantity [] = 0" "stock_quantity (x # xs) = fst x + stock_quantity xs"
  by (simp_all add: stock_quantity_def)

lemma stock_value_simps [simp]: "stock_value [] = 0" "stock_value (x # xs) = fst x * snd x + stock_value xs"
  by (simp_all add: stock_value_def)

lemma issue_nothing [simp]: "q \<le> 0 \<Longrightarrow> issue_front q xs = xs"
  by (cases xs) auto

lemma stock_quantity_nonneg: "\<forall>x \<in> set xs. 0 < fst x \<Longrightarrow> 0 \<le> stock_quantity xs"
  by (induction xs) auto

lemma issue_all: "\<forall>x \<in> set xs. 0 < fst x \<Longrightarrow> stock_quantity xs \<le> q \<Longrightarrow> issue_front q xs = []"
proof (induction q xs rule: issue_front.induct)
  case (2 q r c xs)
  then show ?case using stock_quantity_nonneg [of xs] by auto
qed simp

lemma issue_positive: "\<forall>x \<in> set xs. 0 < fst x \<Longrightarrow> \<forall>x \<in> set (issue_front q xs). 0 < fst x"
  by (induction q xs rule: issue_front.induct) auto

lemma issue_nonneg: "\<forall>x \<in> set xs. 0 < fst x \<and> 0 \<le> snd x \<Longrightarrow> \<forall>x \<in> set (issue_front q xs). 0 < fst x \<and> 0 \<le> snd x"
  by (induction q xs rule: issue_front.induct) auto

lemma issue_twice:
  "0 \<le> a \<Longrightarrow> 0 \<le> b \<Longrightarrow> issue_front b (issue_front a xs) = issue_front (a + b) xs"
proof (induction a xs rule: issue_front.induct)
  case (2 a r c xs)
  consider "a \<le> 0" | "0 < a" "r \<le> a" | "0 < a" "a < r" by linarith
  then show ?case
  proof cases
    case 1
    then show ?thesis using 2 by simp
  next
    case issued: 2
    then show ?thesis using 2 by (simp add: diff_add_eq)
  next
    case 3
    then show ?thesis using 2 by (auto simp: algebra_simps)
  qed
qed simp

lemma issue_quantity:
  "\<forall>x \<in> set xs. 0 < fst x \<Longrightarrow> 0 \<le> q \<Longrightarrow> stock_quantity (issue_front q xs) = max 0 (stock_quantity xs - q)"
proof (induction q xs rule: issue_front.induct)
  case (2 q r c xs)
  then show ?case using stock_quantity_nonneg [of xs] by (auto simp: max_def)
qed simp

lemma issue_value: "\<forall>x \<in> set xs. 0 < fst x \<and> 0 \<le> snd x \<Longrightarrow> stock_value (issue_front q xs) \<le> stock_value xs"
proof (induction q xs rule: issue_front.induct)
  case (2 q r c xs)
  then have "0 \<le> r * c" "\<And>k. 0 < k \<Longrightarrow> (r - k) * c \<le> r * c" by (auto intro: mult_right_mono)
  then show ?case using 2 by (auto simp: add_increasing)
qed simp

lemma stock_value_nonneg: "\<forall>x \<in> set xs. 0 < fst x \<and> 0 \<le> snd x \<Longrightarrow> 0 \<le> stock_value xs"
  by (induction xs) auto

locale issuing =
  fixes valid :: "'s \<Rightarrow> bool"
    and contents :: "'s \<Rightarrow> string \<Rightarrow> fifo_stock"
    and proper :: "'r \<Rightarrow> bool"
    and item :: "'r \<Rightarrow> string"
    and amount :: "'r \<Rightarrow> rat"
    and issue :: "'r \<Rightarrow> 's \<Rightarrow> 's"
  assumes issue_valid: "valid s \<Longrightarrow> proper r \<Longrightarrow> valid (issue r s)"
    and issue_contents: "valid s \<Longrightarrow> proper r \<Longrightarrow> contents (issue r s) p
          = (if p = item r then issue_front (amount r) (contents s p) else contents s p)"
    and amount_nonneg: "proper r \<Longrightarrow> 0 \<le> amount r"
begin

definition requested :: "string \<Rightarrow> 'r list \<Rightarrow> rat" where
  "requested p rs = (\<Sum>r \<leftarrow> filter (\<lambda>r. item r = p) rs. amount r)"

lemma requested_nonneg: "\<forall>r \<in> set rs. proper r \<Longrightarrow> 0 \<le> requested p rs"
  unfolding requested_def by (induction rs) (auto simp: amount_nonneg)

lemma issues_as_one:
  "valid s \<Longrightarrow> \<forall>r \<in> set rs. proper r \<Longrightarrow>
   valid (fold issue rs s) \<and> contents (fold issue rs s) p = issue_front (requested p rs) (contents s p)"
proof (induction rs arbitrary: s)
  case (Cons r rs)
  then have "valid (issue r s)" by (simp add: issue_valid)
  moreover have "0 \<le> requested p rs" "0 \<le> amount r" using Cons.prems by (simp_all add: requested_nonneg amount_nonneg)
  ultimately show ?case using Cons by (cases "p = item r") (simp_all add: issue_contents issue_twice requested_def)
qed (simp add: requested_def)

lemma order_of_issues:
  assumes "valid s" "\<forall>r \<in> set rs. proper r" "mset rs' = mset rs"
  shows "contents (fold issue rs' s) p = contents (fold issue rs s) p"
proof -
  have "mset (map amount (filter (\<lambda>r. item r = p) rs')) = mset (map amount (filter (\<lambda>r. item r = p) rs))"
    using assms(3) by simp
  then have "requested p rs' = requested p rs" unfolding requested_def sum_mset_sum_list [symmetric] by simp
  moreover have "\<forall>r \<in> set rs'. proper r" using assms(2,3) by (metis set_mset_mset)
  ultimately show ?thesis using issues_as_one [OF assms(1)] assms(2) by simp
qed

end

end
