(* ===== verification/CostStock.thy ===== *)
theory CostStock imports CostLayers FifoStock
begin

section \<open>Cost layers as a first-in first-out stock\<close>

text \<open>
  The layers of a product, oldest first, are a stock in the sense of \<open>FifoStock\<close>. This theory holds
  the invariant of the tables and the one description of what a deduction writes (\<open>fifo_plan\<close>), from
  which the deduction of sales and the consumption of stock adjustments both follow.
\<close>

subsection \<open>Invariant\<close>

definition layer_ok :: "CostLayer \<Rightarrow> bool" where
  "layer_ok l \<longleftrightarrow> layer_check l \<and> cl_quantity l < 10 ^ 11 \<and> cl_unitCost l < 10 ^ 13
     \<and> scaled 4 (cl_remaining l) \<and> scaled 2 (cl_unitCost l) \<and> (0 < cl_remaining l \<longrightarrow> cl_isActive l)"

definition scan_ok :: "CostDb \<Rightarrow> bool" where
  "scan_ok db \<longleftrightarrow> (\<forall>ls. mset (co_scan db ls) = mset ls)"

definition costs_ok :: "CostDb \<Rightarrow> bool" where
  "costs_ok db \<longleftrightarrow> distinct (map cl_id (co_layers db)) \<and> (\<forall>l \<in> set (co_layers db). layer_ok l) \<and> scan_ok db"

definition in_stock :: "CostLayer \<Rightarrow> bool" where
  "in_stock l \<longleftrightarrow> cl_isActive l \<and> 0 < cl_remaining l"

definition product_layers :: "string \<Rightarrow> CostDb \<Rightarrow> CostLayer list" where
  "product_layers p db = filter (\<lambda>l. cl_productId l = p \<and> in_stock l) (co_layers db)"

text \<open>No two layers in stock have one received date and one time of creation, so that \<open>ORDER BY\<close> leaves
  the database no choice.\<close>

definition untied :: "string \<Rightarrow> CostDb \<Rightarrow> bool" where
  "untied p db \<longleftrightarrow> distinct (map layer_age (product_layers p db))"

definition layer_stock :: "CostDb \<Rightarrow> string \<Rightarrow> fifo_stock" where
  "layer_stock db p = map (\<lambda>l. (cl_remaining l, cl_unitCost l)) (fifo_layers p db)"

lemma layer_values:
  "layer_ok l \<Longrightarrow> 0 \<le> cl_remaining l" "layer_ok l \<Longrightarrow> 0 \<le> cl_unitCost l"
  by (simp_all add: layer_ok_def layer_check_def)

text \<open>A quantity the Decimal library handles exactly: below \<open>10^11\<close>, with at most nine decimals.\<close>

definition proper_quantity :: "rat \<Rightarrow> bool" where
  "proper_quantity q \<longleftrightarrow> scaled 9 q \<and> \<bar>q\<bar> < 10 ^ 11"

lemma scaled_4_9: "scaled 4 q \<Longrightarrow> scaled 9 q"
proof -
  assume "scaled 4 q"
  then obtain k where "q = of_int k / 10 ^ 4" unfolding scaled_def by blast
  then have "q = of_int (k * 10 ^ 5) / 10 ^ 9" by simp
  then show ?thesis unfolding scaled_def by blast
qed

lemma proper_sig20: "scaled 9 q \<Longrightarrow> \<bar>q\<bar> < 10 ^ 11 \<Longrightarrow> sig20 q"
  by (rule scaled_sig20 [of 9]) simp_all

lemma stock_rows_mset: "scan_ok db \<Longrightarrow> mset (stock_rows p db) = mset (product_layers p db)"
  by (simp add: scan_ok_def stock_rows_def product_layers_def in_stock_def)

lemma fifo_layers_mset: "scan_ok db \<Longrightarrow> mset (fifo_layers p db) = mset (product_layers p db)"
  by (simp add: fifo_layers_def stock_rows_mset)

lemma fifo_layers_sorted: "sorted (map layer_age (fifo_layers p db))"
  by (simp add: fifo_layers_def)

lemma fifo_layers_untied:
  assumes "scan_ok db" "untied p db"
  shows "fifo_layers p db = sort_key layer_age (product_layers p db)"
  unfolding fifo_layers_def
  by (rule sort_key_eq_sort_key [OF stock_rows_mset [OF assms(1)]])
    (use assms(2) mset_eq_setD [OF stock_rows_mset [OF assms(1)]] in \<open>simp add: untied_def distinct_map\<close>)

lemma fifo_layers_in: "costs_ok db \<Longrightarrow> set (fifo_layers p db) = set (product_layers p db)"
  unfolding costs_ok_def by (rule mset_eq_setD [OF fifo_layers_mset]) blast

lemma fifo_layers_member: "costs_ok db \<Longrightarrow> l \<in> set (fifo_layers p db) \<longleftrightarrow>
  l \<in> set (co_layers db) \<and> cl_productId l = p \<and> cl_isActive l \<and> 0 < cl_remaining l"
  by (simp add: fifo_layers_in product_layers_def in_stock_def)

lemma fifo_layers_distinct:
  assumes "costs_ok db"
  shows "distinct (map cl_id (fifo_layers p db))"
proof -
  have "distinct (map cl_id (product_layers p db))" using assms by (simp add: costs_ok_def product_layers_def distinct_map_filter)
  moreover have "mset (map cl_id (fifo_layers p db)) = mset (map cl_id (product_layers p db))" using assms by (simp add: fifo_layers_mset costs_ok_def)
  ultimately show ?thesis using mset_eq_imp_distinct_iff by blast
qed

subsection \<open>What a deduction writes\<close>

fun fifo_plan :: "rat \<Rightarrow> CostLayer list \<Rightarrow> (string \<times> rat) list" where
  "fifo_plan q [] = []"
| "fifo_plan q (l # ls) =
     (if q \<le> 0 then []
      else (cl_id l, cl_remaining l - min q (cl_remaining l)) # fifo_plan (q - min q (cl_remaining l)) ls)"

definition settle :: "(string \<times> rat) list \<Rightarrow> CostLayer \<Rightarrow> CostLayer" where
  "settle pl l = (case map_of pl (cl_id l) of
     None \<Rightarrow> l
   | Some r \<Rightarrow> l\<lparr>cl_remaining := pg_round 4 r, cl_isActive := 0 < r\<rparr>)"

definition settle_all :: "(string \<times> rat) list \<Rightarrow> CostDb \<Rightarrow> CostDb" where
  "settle_all pl db = db\<lparr>co_layers := map (settle pl) (co_layers db)\<rparr>"

lemma settle_fields [simp]: "cl_id (settle pl l) = cl_id l" "cl_productId (settle pl l) = cl_productId l"
  "cl_receivedDate (settle pl l) = cl_receivedDate l" "cl_unitCost (settle pl l) = cl_unitCost l"
  "cl_quantity (settle pl l) = cl_quantity l" "layer_age (settle pl l) = layer_age l"
  by (simp_all add: settle_def layer_age_def split: option.split)

lemma settle_all_fields [simp]: "co_products (settle_all pl db) = co_products db"
  "co_valuations (settle_all pl db) = co_valuations db" "co_seq (settle_all pl db) = co_seq db"
  "co_now (settle_all pl db) = co_now db" "co_scan (settle_all pl db) = co_scan db"
  "co_layers (settle_all pl db) = map (settle pl) (co_layers db)" "scan_ok (settle_all pl db) = scan_ok db"
  by (simp_all add: settle_all_def scan_ok_def)

lemma settle_Nil [simp]: "settle [] l = l" "settle_all [] db = db"
proof -
  show a: "settle [] l = l" for l by (simp add: settle_def)
  then show "settle_all [] db = db" by (simp add: settle_all_def a cong: map_cong)
qed

lemma settle_Cons:
  assumes "i \<notin> fst ` set pl"
  shows "settle ((i, r) # pl) l = settle pl (settle [(i, r)] l)"
proof -
  have "map_of pl i = None" using assms by (simp add: map_of_eq_None_iff)
  then show ?thesis by (cases "cl_id l = i") (simp_all add: settle_def)
qed

lemma settle_all_Cons:
  assumes "i \<notin> fst ` set pl"
  shows "settle_all ((i, r) # pl) db = settle_all pl (settle_all [(i, r)] db)"
  unfolding settle_all_def using settle_Cons [OF assms, of r] by simp

lemma plan_ids: "fst ` set (fifo_plan q ls) \<subseteq> cl_id ` set ls"
proof (induction q ls rule: fifo_plan.induct)
  case (2 q l ls)
  then show ?case by (cases "q \<le> 0") auto
qed simp

lemma settle_ok:
  assumes "layer_ok l" "0 \<le> r" "r \<le> cl_remaining l"
  shows "layer_ok (settle [(i, r)] l)"
proof -
  have "pg_round 4 r \<le> cl_remaining l" using pg_round_mono [OF assms(2,3), of 4] assms(1) by (simp add: layer_ok_def)
  moreover have "0 \<le> pg_round 4 r" using assms(2) by (rule pg_round_nonneg)
  moreover have "r = 0 \<Longrightarrow> pg_round 4 r = 0" by simp
  ultimately show ?thesis using assms by (cases "r = 0") (auto simp: settle_def layer_ok_def layer_check_def)
qed

lemma layer_of_id: "costs_ok db \<Longrightarrow> l \<in> set (co_layers db) \<Longrightarrow> l' \<in> set (co_layers db) \<Longrightarrow> cl_id l = cl_id l' \<Longrightarrow> l = l'"
  unfolding costs_ok_def distinct_map by (auto dest: inj_onD)

lemma settle_one_ok:
  assumes "costs_ok db" "l \<in> set (co_layers db)" "0 \<le> r" "r \<le> cl_remaining l"
  shows "costs_ok (settle_all [(cl_id l, r)] db)"
proof -
  have "layer_ok (settle [(cl_id l, r)] l')" if l': "l' \<in> set (co_layers db)" for l'
  proof (cases "cl_id l' = cl_id l")
    case True
    then have "l' = l" using layer_of_id [OF assms(1) l' assms(2)] by simp
    then show ?thesis using settle_ok [of l r "cl_id l"] assms by (simp add: costs_ok_def)
  next
    case False
    then show ?thesis using assms(1) l' by (simp add: settle_def costs_ok_def)
  qed
  then show ?thesis using assms(1) by (simp add: costs_ok_def comp_def)
qed

lemma numeric_layer: "layer_ok l \<Longrightarrow> 0 \<le> r \<Longrightarrow> r \<le> cl_remaining l \<Longrightarrow> numeric_15 4 (pg_round 4 r) = Inr (pg_round 4 r)"
  using pg_round_nonneg [of r 4] pg_round_mono [of r "cl_remaining l" 4] by (simp add: numeric_15_def layer_ok_def layer_check_def)

lemma update_layer_settles:
  assumes "costs_ok db" "l \<in> set (co_layers db)" "0 \<le> r" "r \<le> cl_remaining l"
  shows "update_layer (cl_id l) (pg_round 4 r) (0 < r) db = Inr (settle_all [(cl_id l, r)] db)"
proof -
  have l: "layer_ok l" using assms(1,2) by (simp add: costs_ok_def)
  have s: "(\<lambda>l'. if cl_id l' = cl_id l then l'\<lparr>cl_remaining := pg_round 4 r, cl_isActive := 0 < r\<rparr> else l') = settle [(cl_id l, r)]"
    by (auto simp: settle_def)
  have n: "numeric_15 4 (pg_round 4 r) = Inr (pg_round 4 r)" using numeric_layer [OF l assms(3,4)] .
  have "\<forall>l' \<in> set (co_layers (settle_all [(cl_id l, r)] db)). layer_check l'"
    using settle_one_ok [OF assms] by (auto simp: costs_ok_def layer_ok_def)
  then have c: "\<not> (\<exists>l' \<in> set (map (settle [(cl_id l, r)]) (co_layers db)). cl_id l' = cl_id l \<and> \<not> layer_check l')" by simp
  show ?thesis unfolding update_layer_def n using c
    by (simp add: s Let_def throw_if_def settle_all_def del: set_map)
qed

lemma consume_layer_settles:
  assumes "costs_ok db" "l \<in> set (co_layers db)" "cl_isActive l" "0 \<le> r" "r \<le> cl_remaining l" "scaled 4 r"
  shows "consume_layer (cl_id l) (pg_round 4 r) db = Inr (settle_all [(cl_id l, r)] db)"
proof -
  have same: "(if cl_id l' = cl_id l
               then l'\<lparr>cl_remaining := r, cl_isActive := (if r \<le> 0 then False else cl_isActive l')\<rparr> else l')
             = (if cl_id l' = cl_id l then l'\<lparr>cl_remaining := r, cl_isActive := 0 < r\<rparr> else l')"
    if "l' \<in> set (co_layers db)" for l'
    using layer_of_id [OF assms(1) that assms(2)] assms(3) by (cases "cl_id l' = cl_id l") auto
  have "map (\<lambda>l'. if cl_id l' = cl_id l
               then l'\<lparr>cl_remaining := r, cl_isActive := (if r \<le> 0 then False else cl_isActive l')\<rparr> else l') (co_layers db)
      = map (\<lambda>l'. if cl_id l' = cl_id l then l'\<lparr>cl_remaining := r, cl_isActive := 0 < r\<rparr> else l') (co_layers db)"
    by (rule map_cong [OF refl same])
  moreover have "numeric_15 4 r = Inr r"
    using numeric_layer [of l r] assms(1,2,4,5,6) by (simp add: costs_ok_def)
  ultimately have "consume_layer (cl_id l) r db = update_layer (cl_id l) r (0 < r) db"
    by (simp only: consume_layer_def update_layer_def and_then.simps Let_def)
  then have "consume_layer (cl_id l) (pg_round 4 r) db = update_layer (cl_id l) (pg_round 4 r) (0 < r) db"
    using assms(6) by simp
  then show ?thesis using update_layer_settles [OF assms(1,2,4,5)] by simp
qed

fun plan_left :: "rat \<Rightarrow> CostLayer list \<Rightarrow> rat" where
  "plan_left q [] = q"
| "plan_left q (l # ls) = (if q \<le> 0 then q else plan_left (q - min q (cl_remaining l)) ls)"

lemma plan_left_eq: "\<forall>l \<in> set ls. 0 < cl_remaining l \<Longrightarrow> 0 < q \<Longrightarrow> plan_left q ls = max 0 (q - (\<Sum>l \<leftarrow> ls. cl_remaining l))"
proof (induction ls arbitrary: q)
  case (Cons l ls)
  have "0 \<le> (\<Sum>l \<leftarrow> ls. cl_remaining l)" using Cons.prems(1) by (intro sum_list_nonneg) auto
  then show ?case using Cons by (cases "q \<le> cl_remaining l"; cases ls) (auto simp: max_def min_def)
qed simp

lemma dec_zero_value: "decimal_exact D v \<Longrightarrow> v (dec_zero D) = 0"
  by (simp add: dec_zero_def dec_num js_decimal_def)

lemma dec_tests:
  assumes "decimal_exact D v"
  shows "dec_lte0 D x \<longleftrightarrow> v x \<le> 0" "dec_gt0 D x \<longleftrightarrow> 0 < v x" "v (dec_min D x y) = min (v x) (v y)"
  using assms by (auto simp: dec_lte0_def dec_gt0_def dec_min_def dec_lt dec_isZero dec_zero_value min_def)

lemma layer_remaining:
  assumes "decimal_exact D v" "layer_ok l"
  shows "v (dl_of_db D (cl_remaining l)) = cl_remaining l" "v (dl_of_db D (cl_unitCost l)) = cl_unitCost l"
    "scaled 9 (cl_remaining l)" "cl_remaining l < 10 ^ 11"
proof -
  have b: "0 \<le> cl_remaining l" "cl_remaining l < 10 ^ 11" "0 \<le> cl_unitCost l" "cl_unitCost l < 10 ^ 13"
    using assms(2) by (auto simp: layer_ok_def layer_check_def)
  show "scaled 9 (cl_remaining l)" "cl_remaining l < 10 ^ 11" using assms(2) b by (auto simp: layer_ok_def intro: scaled_4_9)
  then have "sig20 (cl_remaining l)" using b by (intro proper_sig20) simp_all
  then show "v (dl_of_db D (cl_remaining l)) = cl_remaining l" using assms(1) by (simp add: dec_db)
  have "sig20 (cl_unitCost l)" using assms(2) b by (intro scaled_sig20 [of 2]) (simp_all add: layer_ok_def)
  then show "v (dl_of_db D (cl_unitCost l)) = cl_unitCost l" using assms(1) by (simp add: dec_db)
qed

lemma snapshot_stays:
  assumes "set (l # ls) \<subseteq> set (co_layers db)" "distinct (map cl_id (l # ls))"
  shows "set ls \<subseteq> set (co_layers (settle_all [(cl_id l, r)] db))"
proof
  fix l' assume l': "l' \<in> set ls"
  then have "cl_id l' \<noteq> cl_id l" using assms(2) by (metis distinct.simps(2) image_eqI list.set_map list.simps(9))
  then have "l' = settle [(cl_id l, r)] l'" by (simp add: settle_def)
  moreover have "l' \<in> set (co_layers db)" using assms(1) l' by auto
  ultimately show "l' \<in> set (co_layers (settle_all [(cl_id l, r)] db))" unfolding settle_all_fields set_map by (rule image_eqI)
qed

lemma fifo_step:
  assumes D: "decimal_exact D v" and l: "layer_ok l" "0 < cl_remaining l" and q: "proper_quantity (v q)" "\<not> v q \<le> 0"
    and d: "d = dec_min D q (dl_of_db D (cl_remaining l))"
  shows "v d = min (v q) (cl_remaining l)"
    "v (dl_minus D (dl_of_db D (cl_remaining l)) d) = cl_remaining l - min (v q) (cl_remaining l)"
    "v (dl_minus D q d) = v q - min (v q) (cl_remaining l)" "proper_quantity (v q - min (v q) (cl_remaining l))"
    "0 \<le> cl_remaining l - min (v q) (cl_remaining l)" "cl_remaining l - min (v q) (cl_remaining l) \<le> cl_remaining l"
proof -
  note lr = layer_remaining [OF D l(1)]
  show d: "v d = min (v q) (cl_remaining l)" using dec_tests(3) [OF D] lr(1) by (simp add: d)
  show r: "0 \<le> cl_remaining l - min (v q) (cl_remaining l)" "cl_remaining l - min (v q) (cl_remaining l) \<le> cl_remaining l"
    using l(2) q(2) by auto
  have "scaled 9 (cl_remaining l - min (v q) (cl_remaining l))" using lr(3) q(1) by (auto simp: proper_quantity_def)
  moreover have "\<bar>cl_remaining l - min (v q) (cl_remaining l)\<bar> < 10 ^ 11" using r lr(4) by linarith
  ultimately have "sig20 (v (dl_of_db D (cl_remaining l)) - v d)" unfolding d lr(1) by (rule proper_sig20)
  then show "v (dl_minus D (dl_of_db D (cl_remaining l)) d) = cl_remaining l - min (v q) (cl_remaining l)"
    using dec_minus [OF D] d lr(1) by simp
  show p: "proper_quantity (v q - min (v q) (cl_remaining l))" using lr(3) q l(2) by (auto simp: proper_quantity_def)
  then have "sig20 (v q - v d)" unfolding d proper_quantity_def by (blast intro: proper_sig20)
  then show "v (dl_minus D q d) = v q - min (v q) (cl_remaining l)" using dec_minus [OF D] d by simp
qed

lemma plan_step:
  assumes "distinct (map cl_id (l # ls))" "\<not> q \<le> 0"
  shows "settle_all (fifo_plan q (l # ls)) db
    = settle_all (fifo_plan (q - min q (cl_remaining l)) ls) (settle_all [(cl_id l, cl_remaining l - min q (cl_remaining l))] db)"
proof -
  have "cl_id l \<notin> fst ` set (fifo_plan (q - min q (cl_remaining l)) ls)"
    using plan_ids [of "q - min q (cl_remaining l)" ls] assms(1) by auto
  from settle_all_Cons [OF this] show ?thesis using assms(2) by (simp only: fifo_plan.simps if_False)
qed

lemma deduct_layers_plan:
  assumes D: "decimal_exact D v"
  shows "costs_ok db \<Longrightarrow> distinct (map cl_id ls) \<Longrightarrow> set ls \<subseteq> set (co_layers db) \<Longrightarrow> \<forall>l \<in> set ls. 0 < cl_remaining l
    \<Longrightarrow> proper_quantity (v q)
    \<Longrightarrow> \<exists>q'. deduct_layers D ls q db = Inr (q', settle_all (fifo_plan (v q) ls) db) \<and> v q' = plan_left (v q) ls
          \<and> costs_ok (settle_all (fifo_plan (v q) ls) db)"
proof (induction ls arbitrary: q db)
  case (Cons l ls)
  show ?case
  proof (cases "v q \<le> 0")
    case True
    then show ?thesis using Cons.prems(1) by (simp add: dec_tests [OF D])
  next
    case False
    let ?d = "dec_min D q (dl_of_db D (cl_remaining l))"
    let ?r = "cl_remaining l - min (v q) (cl_remaining l)"
    have l: "l \<in> set (co_layers db)" "layer_ok l" "0 < cl_remaining l" using Cons.prems(1,3,4) by (auto simp: costs_ok_def)
    note st = fifo_step [OF D l(2,3) Cons.prems(5) False refl]
    have u: "update_layer (cl_id l) (dl_toFixed D 4 (dl_minus D (dl_of_db D (cl_remaining l)) ?d))
        (dec_gt0 D (dl_minus D (dl_of_db D (cl_remaining l)) ?d)) db = Inr (settle_all [(cl_id l, ?r)] db)"
      using update_layer_settles [OF Cons.prems(1) l(1) st(5,6)] dec_toFixed [OF D] dec_tests(2) [OF D] st(2) by simp
    note ps = plan_step [OF Cons.prems(2) False]
    from Cons.IH [OF settle_one_ok [OF Cons.prems(1) l(1) st(5,6)] _ snapshot_stays [OF Cons.prems(3,2)], of "dl_minus D q ?d"] Cons.prems(2,4) st(4)
    obtain q' where ih: "deduct_layers D ls (dl_minus D q ?d) (settle_all [(cl_id l, ?r)] db) = Inr (q', settle_all (fifo_plan (v q) (l # ls)) db)"
      "v q' = plan_left (v q - min (v q) (cl_remaining l)) ls" "costs_ok (settle_all (fifo_plan (v q) (l # ls)) db)"
      unfolding st(3) ps by auto
    have "deduct_layers D (l # ls) q db = Inr (q', settle_all (fifo_plan (v q) (l # ls)) db)"
      using False u ih(1) by (simp only: deduct_layers.simps dec_tests(1) [OF D] Let_def if_False and_then.simps)
    then show ?thesis using ih(2,3) False by (intro exI [of _ q']) (simp only: plan_left.simps if_False)
  qed
qed simp

fun plan_cost :: "rat \<Rightarrow> CostLayer list \<Rightarrow> rat" where
  "plan_cost q [] = 0"
| "plan_cost q (l # ls) =
     (if q \<le> 0 then 0 else min q (cl_remaining l) * cl_unitCost l + plan_cost (q - min q (cl_remaining l)) ls)"

lemma plan_cost_nonneg: "\<forall>l \<in> set ls. layer_ok l \<Longrightarrow> 0 \<le> plan_cost q ls"
  by (induction q ls rule: plan_cost.induct) (auto simp: layer_values)

lemma plan_cost_stock:
  "\<forall>l \<in> set ls. 0 < cl_remaining l \<Longrightarrow>
   plan_cost q ls = stock_value (map (\<lambda>l. (cl_remaining l, cl_unitCost l)) ls)
     - stock_value (issue_front q (map (\<lambda>l. (cl_remaining l, cl_unitCost l)) ls))"
proof (induction q ls rule: plan_cost.induct)
  case (2 q l ls)
  then show ?case by (cases "cl_remaining l \<le> q") (auto simp: min_def algebra_simps)
qed simp

text \<open>The value accumulated along the layers is exact while it stays below \<open>10^14\<close>.\<close>

lemma sig20_part: "scaled 6 a \<Longrightarrow> 0 \<le> a \<Longrightarrow> 0 \<le> t \<Longrightarrow> t + a < 10 ^ 14 \<Longrightarrow> sig20 a"
  by (rule scaled_sig20 [of 6]) simp_all

lemma cost_step:
  assumes D: "decimal_exact D v" "times_exact D v" and l: "layer_ok l" "0 < cl_remaining l"
    and q: "scaled 4 (v q)" "\<not> v q \<le> 0" and d: "v d = min (v q) (cl_remaining l)"
    and tot: "scaled 6 (v tot)" "0 \<le> v tot" "v tot + plan_cost (v q) (l # ls) < 10 ^ 14" "\<forall>l \<in> set ls. layer_ok l"
  shows "v (dl_times D d (dl_of_db D (cl_unitCost l))) = min (v q) (cl_remaining l) * cl_unitCost l"
    "v (dl_plus D tot (dl_times D d (dl_of_db D (cl_unitCost l)))) = v tot + min (v q) (cl_remaining l) * cl_unitCost l"
    "scaled 6 (v tot + min (v q) (cl_remaining l) * cl_unitCost l)" "0 \<le> v tot + min (v q) (cl_remaining l) * cl_unitCost l"
proof -
  let ?c = "min (v q) (cl_remaining l) * cl_unitCost l"
  have c0: "0 \<le> ?c" using q(2) l layer_values(2) [OF l(1)] by simp
  have "scaled 4 (min (v q) (cl_remaining l))" "scaled 2 (cl_unitCost l)" using q(1) l(1) by (auto simp: layer_ok_def)
  from scaled_times [OF this] have c6: "scaled 6 ?c" by simp
  have "0 \<le> plan_cost (v q - min (v q) (cl_remaining l)) ls" using plan_cost_nonneg [OF tot(4)] .
  then have b: "v tot + ?c < 10 ^ 14" using tot(3) q(2) by simp
  have "sig20 ?c" by (rule sig20_part [OF c6 c0 tot(2) b])
  then show t: "v (dl_times D d (dl_of_db D (cl_unitCost l))) = ?c"
    using D(2) layer_remaining(2) [OF D(1) l(1)] d unfolding times_exact_def by metis
  show s: "scaled 6 (v tot + ?c)" "0 \<le> v tot + ?c" using tot(1,2) c6 c0 by auto
  have "sig20 (v tot + ?c)" using sig20_part [OF s order.refl] b by (simp only: add_0)
  then show "v (dl_plus D tot (dl_times D d (dl_of_db D (cl_unitCost l)))) = v tot + ?c" using dec_plus [OF D(1)] t by simp
qed

lemma consume_layers_plan:
  assumes D: "decimal_exact D v"
  shows "costs_ok db \<Longrightarrow> distinct (map cl_id ls) \<Longrightarrow> set ls \<subseteq> set (co_layers db) \<Longrightarrow> \<forall>l \<in> set ls. in_stock l
    \<Longrightarrow> proper_quantity (v q) \<Longrightarrow> scaled 4 (v q)
    \<Longrightarrow> \<exists>q' tot'. consume_layers D ls q tot db = Inr (q', tot', settle_all (fifo_plan (v q) ls) db)
          \<and> (times_exact D v \<and> scaled 6 (v tot) \<and> 0 \<le> v tot \<and> v tot + plan_cost (v q) ls < 10 ^ 14 \<longrightarrow> v tot' = v tot + plan_cost (v q) ls)"
proof (induction ls arbitrary: q tot db)
  case (Cons l ls)
  show ?case
  proof (cases "v q \<le> 0")
    case True
    then show ?thesis using Cons.prems(1) by (simp add: dec_tests [OF D])
  next
    case False
    let ?d = "dec_min D q (dl_of_db D (cl_remaining l))"
    let ?r = "cl_remaining l - min (v q) (cl_remaining l)"
    let ?tot = "dl_plus D tot (dl_times D ?d (dl_of_db D (cl_unitCost l)))"
    have l: "l \<in> set (co_layers db)" "layer_ok l" "0 < cl_remaining l" "cl_isActive l"
      using Cons.prems(1,3,4) by (auto simp: costs_ok_def in_stock_def)
    have ok: "\<forall>l \<in> set ls. layer_ok l" using Cons.prems(1,3) by (auto simp: costs_ok_def)
    note st = fifo_step [OF D l(2,3) Cons.prems(5) False refl]
    have r4: "scaled 4 ?r" "scaled 4 (v q - min (v q) (cl_remaining l))" using Cons.prems(6) l(2) by (auto simp: layer_ok_def)
    have u: "consume_layer (cl_id l) (dl_toFixed D 4 (dl_minus D (dl_of_db D (cl_remaining l)) ?d)) db = Inr (settle_all [(cl_id l, ?r)] db)"
      using consume_layer_settles [OF Cons.prems(1) l(1,4) st(5,6) r4(1)] dec_toFixed [OF D] st(2) by simp
    note ps = plan_step [OF Cons.prems(2) False]
    have pc: "plan_cost (v q) (l # ls) = min (v q) (cl_remaining l) * cl_unitCost l + plan_cost (v q - min (v q) (cl_remaining l)) ls"
      using False by simp
    from Cons.IH [OF settle_one_ok [OF Cons.prems(1) l(1) st(5,6)] _ snapshot_stays [OF Cons.prems(3,2)], of "dl_minus D q ?d" ?tot]
      Cons.prems(2,4) st(4) r4(2)
    obtain q' tot' where ih: "consume_layers D ls (dl_minus D q ?d) ?tot (settle_all [(cl_id l, ?r)] db)
        = Inr (q', tot', settle_all (fifo_plan (v q) (l # ls)) db)"
      "times_exact D v \<and> scaled 6 (v ?tot) \<and> 0 \<le> v ?tot \<and> v ?tot + plan_cost (v q - min (v q) (cl_remaining l)) ls < 10 ^ 14
        \<longrightarrow> v tot' = v ?tot + plan_cost (v q - min (v q) (cl_remaining l)) ls"
      unfolding st(3) ps by auto
    have s: "consume_layers D (l # ls) q tot db = Inr (q', tot', settle_all (fifo_plan (v q) (l # ls)) db)"
      using False u ih(1) by (simp only: consume_layers.simps dec_tests(1) [OF D] Let_def if_False and_then.simps)
    have "v tot' = v tot + plan_cost (v q) (l # ls)"
      if tot: "times_exact D v" "scaled 6 (v tot)" "0 \<le> v tot" "v tot + plan_cost (v q) (l # ls) < 10 ^ 14"
    proof -
      note ct = cost_step [OF D tot(1) l(2,3) Cons.prems(6) False st(1) tot(2-4) ok]
      show ?thesis using ih(2) ct tot unfolding pc by (simp add: add.assoc)
    qed
    then show ?thesis using s by blast
  qed
qed simp

lemma allocate_plan:
  assumes D: "decimal_exact D v" "times_exact D v"
  shows "\<forall>l \<in> set ls. layer_ok l \<and> 0 < cl_remaining l \<Longrightarrow> proper_quantity (v q) \<Longrightarrow> scaled 4 (v q)
    \<Longrightarrow> scaled 6 (v tot) \<Longrightarrow> 0 \<le> v tot \<Longrightarrow> v tot + plan_cost (v q) ls < 10 ^ 14
    \<Longrightarrow> \<exists>q' tot' as. fifo_allocate D ls q tot as0 = (q', tot', as0 @ as) \<and> v q' = plan_left (v q) ls
          \<and> v tot' = v tot + plan_cost (v q) ls"
proof (induction ls arbitrary: q tot as0)
  case (Cons l ls)
  show ?case
  proof (cases "v q \<le> 0")
    case True
    then show ?thesis by (simp add: dec_tests [OF D(1)])
  next
    case False
    let ?d = "dec_min D q (dl_of_db D (cl_remaining l))"
    let ?tot = "dl_plus D tot (dl_times D ?d (dl_of_db D (cl_unitCost l)))"
    let ?a = "\<lparr>al_costLayerId = cl_id l, al_quantityConsumed = ?d, al_unitCost = dl_of_db D (cl_unitCost l),
               al_totalCost = dl_times D ?d (dl_of_db D (cl_unitCost l))\<rparr>"
    have l: "layer_ok l" "0 < cl_remaining l" and ok: "\<forall>l \<in> set ls. layer_ok l" using Cons.prems(1) by auto
    note st = fifo_step [OF D(1) l Cons.prems(2) False refl]
    note ct = cost_step [OF D l Cons.prems(3) False st(1) Cons.prems(4-6) ok]
    have r4: "scaled 4 (v q - min (v q) (cl_remaining l))" using Cons.prems(3) l(1) by (auto simp: layer_ok_def)
    have pc: "plan_cost (v q) (l # ls) = min (v q) (cl_remaining l) * cl_unitCost l + plan_cost (v q - min (v q) (cl_remaining l)) ls"
      "plan_left (v q) (l # ls) = plan_left (v q - min (v q) (cl_remaining l)) ls" using False by simp_all
    from Cons.IH [of "dl_minus D q ?d" ?tot "as0 @ [?a]"] Cons.prems(1,6) st(4) r4 ct(3,4)
    obtain q' tot' as where ih: "fifo_allocate D ls (dl_minus D q ?d) ?tot (as0 @ [?a]) = (q', tot', (as0 @ [?a]) @ as)"
      "v q' = plan_left (v q) (l # ls)" "v tot' = v tot + plan_cost (v q) (l # ls)"
      unfolding st(3) pc ct(2) by (auto simp: add.assoc)
    have "fifo_allocate D (l # ls) q tot as0 = (q', tot', as0 @ (?a # as))"
      using False ih(1) by (simp only: fifo_allocate.simps dec_tests(1) [OF D(1)] Let_def if_False append_assoc append.simps)
    then show ?thesis using ih(2,3) by blast
  qed
qed simp

subsection \<open>The stock after a deduction\<close>

lemma in_stock_update: "in_stock (l\<lparr>cl_remaining := x, cl_isActive := 0 < x\<rparr>) \<longleftrightarrow> 0 < x"
  "in_stock (l\<lparr>cl_remaining := x, cl_isActive := True\<rparr>) \<longleftrightarrow> 0 < x"
  "\<not> in_stock (l\<lparr>cl_remaining := x, cl_isActive := False\<rparr>)"
  by (simp_all add: in_stock_def)

lemma settle_other: "cl_id l \<notin> fst ` set pl \<Longrightarrow> settle pl l = l"
  by (simp add: settle_def map_of_eq_None_iff [THEN iffD2])

lemma settle_tail: "cl_id l' \<noteq> cl_id l \<Longrightarrow> settle ((cl_id l, r) # pl) l' = settle pl l'"
  by (simp add: settle_def)

text \<open>What an issue leaves when the remaining quantity of the layer it ends in is rounded to four decimals.\<close>

fun issue_rounded :: "rat \<Rightarrow> fifo_stock \<Rightarrow> fifo_stock" where
  "issue_rounded q [] = []"
| "issue_rounded q ((r, c) # xs) =
     (if q \<le> 0 then (r, c) # xs else if r \<le> q then issue_rounded (q - r) xs
      else if 0 < pg_round 4 (r - q) then (pg_round 4 (r - q), c) # xs else xs)"

lemma issue_rounded_exact:
  "scaled 4 q \<Longrightarrow> \<forall>x \<in> set xs. scaled 4 (fst x) \<Longrightarrow> issue_rounded q xs = issue_front q xs"
  by (induction q xs rule: issue_rounded.induct) (auto simp: scaled_minus)

lemma settled_stock:
  "distinct (map cl_id ls) \<Longrightarrow> \<forall>l \<in> set ls. in_stock l \<and> scaled 4 (cl_remaining l) \<Longrightarrow>
   map (\<lambda>l. (cl_remaining l, cl_unitCost l)) (filter in_stock (map (settle (fifo_plan q ls)) ls))
     = issue_rounded q (map (\<lambda>l. (cl_remaining l, cl_unitCost l)) ls)"
proof (induction ls arbitrary: q)
  case (Cons l ls)
  have stay: "filter in_stock ls = ls" using Cons.prems(2) by simp
  show ?case
  proof (cases "q \<le> 0")
    case True
    then show ?thesis using Cons.prems(2) stay by (simp add: settle_Nil(1))
  next
    case False
    let ?m = "min q (cl_remaining l)"
    have others: "settle (fifo_plan q (l # ls)) l' = settle (fifo_plan (q - ?m) ls) l'" if "l' \<in> set ls" for l'
    proof -
      have "cl_id l' \<noteq> cl_id l" using Cons.prems(1) that by (metis distinct.simps(2) image_eqI list.set_map list.simps(9))
      then show ?thesis using False by (simp add: settle_tail)
    qed
    then have tl: "map (settle (fifo_plan q (l # ls))) ls = map (settle (fifo_plan (q - ?m) ls)) ls" by simp
    have hd: "settle (fifo_plan q (l # ls)) l = l\<lparr>cl_remaining := pg_round 4 (cl_remaining l - ?m), cl_isActive := 0 < cl_remaining l - ?m\<rparr>"
      using False by (simp add: settle_def)
    have ih: "map (\<lambda>l. (cl_remaining l, cl_unitCost l)) (filter in_stock (map (settle (fifo_plan (q - ?m) ls)) ls))
      = issue_rounded (q - ?m) (map (\<lambda>l. (cl_remaining l, cl_unitCost l)) ls)"
      using Cons.IH Cons.prems(1,2) by simp
    show ?thesis
    proof (cases "cl_remaining l \<le> q")
      case True
      then show ?thesis using False ih unfolding list.map(2) [of "settle _"] hd tl by (simp add: in_stock_update)
    next
      case partial: False
      have "issue_rounded 0 xs = xs" for xs by (cases xs) auto
      then show ?thesis using False partial ih unfolding list.map(2) [of "settle _"] hd tl by (simp add: in_stock_update)
    qed
  qed
qed simp

lemma sort_key_map_same: "(\<And>x. f (g x) = f x) \<Longrightarrow> sort_key f (map g xs) = map g (sort_key f xs)"
proof (induction xs)
  case (Cons x xs)
  have "insort_key f (g x) (map g ys) = map g (insort_key f x ys)" for ys
    using Cons.prems by (induction ys) auto
  then show ?case using Cons by simp
qed simp

lemma settled_touches:
  assumes "costs_ok db" "l \<in> set (co_layers db)" "settle (fifo_plan q (fifo_layers p db)) l \<noteq> l"
  shows "cl_productId l = p \<and> in_stock l"
proof -
  have "cl_id l \<in> fst ` set (fifo_plan q (fifo_layers p db))" using assms(3) settle_other by blast
  then obtain l' where "l' \<in> set (fifo_layers p db)" "cl_id l' = cl_id l" using plan_ids [of q "fifo_layers p db"] by auto
  then show ?thesis using layer_of_id [OF assms(1,2), of l'] by (auto simp: fifo_layers_member [OF assms(1)] in_stock_def)
qed

lemma product_layers_settled:
  assumes "costs_ok db" "pl = fifo_plan q (fifo_layers p db)"
  shows "product_layers p' (settle_all pl db) = filter in_stock (map (settle pl) (product_layers p' db))"
    and "p' \<noteq> p \<Longrightarrow> product_layers p' (settle_all pl db) = product_layers p' db"
proof -
  have touched: "settle pl l \<noteq> l \<Longrightarrow> cl_productId l = p \<and> in_stock l" if "l \<in> set (co_layers db)" for l
    using settled_touches [OF assms(1) that, of q p] unfolding assms(2) .
  then have "in_stock (settle pl l) \<longrightarrow> in_stock l" if "l \<in> set (co_layers db)" for l
    using that by (cases "settle pl l = l") (simp_all only: simp_thms)
  then have "filter (\<lambda>l. cl_productId l = p' \<and> in_stock (settle pl l)) (co_layers db)
      = filter (\<lambda>l. in_stock (settle pl l)) (product_layers p' db)"
    by (auto simp: product_layers_def filter_filter intro: filter_cong)
  then show eq: "product_layers p' (settle_all pl db) = filter in_stock (map (settle pl) (product_layers p' db))"
    by (simp add: product_layers_def filter_map comp_def)
  assume p': "p' \<noteq> p"
  have "settle pl l = l" if "l \<in> set (product_layers p' db)" for l
    using touched [of l] that p' by (auto simp: product_layers_def)
  then have "map (settle pl) (product_layers p' db) = product_layers p' db" by (simp add: map_idI)
  then show "product_layers p' (settle_all pl db) = product_layers p' db"
    unfolding eq by (simp add: product_layers_def)
qed

lemma fifo_settled_mset:
  assumes "costs_ok db" "pl = fifo_plan q (fifo_layers p db)"
  shows "mset (fifo_layers p (settle_all pl db)) = mset (filter in_stock (map (settle pl) (fifo_layers p db)))"
proof -
  have s: "scan_ok db" "scan_ok (settle_all pl db)" using assms(1) by (simp_all add: costs_ok_def)
  show ?thesis unfolding fifo_layers_mset [OF s(2)] product_layers_settled(1) [OF assms] mset_filter mset_map fifo_layers_mset [OF s(1)] ..
qed

lemma untied_settled:
  assumes "costs_ok db" "pl = fifo_plan q (fifo_layers p db)" "untied p' db"
  shows "untied p' (settle_all pl db)"
proof -
  have "map layer_age (filter in_stock (map (settle pl) xs)) = map layer_age (filter (\<lambda>l. in_stock (settle pl l)) xs)" for xs
    by (induction xs) simp_all
  then show ?thesis using assms(3) unfolding untied_def product_layers_settled(1) [OF assms(1,2)] by (simp only: distinct_map_filter)
qed

lemma fifo_layers_settled:
  assumes "costs_ok db" "pl = fifo_plan q (fifo_layers p db)" "untied p' db"
  shows "fifo_layers p' (settle_all pl db) = (if p' = p then filter in_stock (map (settle pl) (fifo_layers p db)) else fifo_layers p' db)"
proof -
  have s: "scan_ok db" "scan_ok (settle_all pl db)" using assms(1) by (simp_all add: costs_ok_def)
  note u = fifo_layers_untied [OF s(1) assms(3)] fifo_layers_untied [OF s(2) untied_settled [OF assms]]
  have "sort_key layer_age (filter in_stock (map (settle pl) xs)) = filter in_stock (map (settle pl) (sort_key layer_age xs))" for xs
    unfolding filter_sort [symmetric] by (simp add: sort_key_map_same)
  then show ?thesis using product_layers_settled [OF assms(1,2), of p'] u by (cases "p' = p") simp_all
qed

lemma layer_stock_scaled: "costs_ok db \<Longrightarrow> \<forall>x \<in> set (layer_stock db p). scaled 4 (fst x)"
  by (auto simp: layer_stock_def fifo_layers_member costs_ok_def layer_ok_def)

lemma fifo_layers_settle:
  assumes "costs_ok db"
  shows "map (\<lambda>l. (cl_remaining l, cl_unitCost l)) (filter in_stock (map (settle (fifo_plan q (fifo_layers p db))) (fifo_layers p db)))
    = issue_rounded q (layer_stock db p)"
proof -
  have "\<forall>l \<in> set (fifo_layers p db). in_stock l \<and> scaled 4 (cl_remaining l)"
    using assms by (auto simp: fifo_layers_member in_stock_def costs_ok_def layer_ok_def)
  from settled_stock [OF fifo_layers_distinct [OF assms] this] show ?thesis by (simp add: layer_stock_def)
qed

lemma layer_stock_settled_mset:
  assumes "costs_ok db"
  shows "mset (layer_stock (settle_all (fifo_plan q (fifo_layers p db)) db) p) = mset (issue_rounded q (layer_stock db p))"
  unfolding fifo_layers_settle [OF assms, symmetric] unfolding layer_stock_def mset_map [of "\<lambda>l. (cl_remaining l, cl_unitCost l)"]
  by (simp only: fifo_settled_mset [OF assms refl])

lemma layer_stock_settled:
  assumes "costs_ok db" "scaled 4 q" "untied p' db"
  shows "layer_stock (settle_all (fifo_plan q (fifo_layers p db)) db) p'
    = (if p' = p then issue_front q (layer_stock db p) else layer_stock db p')"
proof -
  have "issue_front q (layer_stock db p) = issue_rounded q (layer_stock db p)"
    using issue_rounded_exact [OF assms(2) layer_stock_scaled [OF assms(1)]] by simp
  then show ?thesis using fifo_layers_settle [OF assms(1), of q p] fifo_layers_settled [OF assms(1) refl assms(3), of q p]
    by (cases "p' = p") (simp_all add: layer_stock_def)
qed

lemma stock_sums_mset: "mset xs = mset ys \<Longrightarrow> stock_value xs = stock_value ys \<and> stock_quantity xs = stock_quantity ys"
  unfolding stock_value_def stock_quantity_def sum_mset_sum_list [symmetric] mset_map by simp

lemma stock_value_settled:
  assumes "costs_ok db" "scaled 4 q"
  shows "stock_value (layer_stock (settle_all (fifo_plan q (fifo_layers p db)) db) p) = stock_value (issue_front q (layer_stock db p))"
  using stock_sums_mset [OF layer_stock_settled_mset [OF assms(1), of q p]] issue_rounded_exact [OF assms(2) layer_stock_scaled [OF assms(1)]] by simp

subsection \<open>Both deductions\<close>

lemma stock_positive: "costs_ok db \<Longrightarrow> \<forall>x \<in> set (layer_stock db p). 0 < fst x \<and> 0 \<le> snd x"
  by (auto simp: layer_stock_def fifo_layers_member costs_ok_def layer_values)

lemma stock_quantity_layers: "stock_quantity (layer_stock db p) = (\<Sum>l \<leftarrow> fifo_layers p db. cl_remaining l)"
  by (simp add: stock_quantity_def layer_stock_def comp_def)

lemma stock_value_layers: "stock_value (layer_stock db p) = (\<Sum>l \<leftarrow> fifo_layers p db. cl_remaining l * cl_unitCost l)"
  by (simp add: stock_value_def layer_stock_def comp_def)

lemma average_layers [simp]: "co_layers (updateAverageCost D p db) = co_layers db"
  by (simp add: updateAverageCost_def update_valuation_def split: prod.split)

lemma average_scan [simp]: "co_scan (updateAverageCost D p db) = co_scan db" "co_products (updateAverageCost D p db) = co_products db"
  "co_seq (updateAverageCost D p db) = co_seq db" "co_now (updateAverageCost D p db) = co_now db"
  by (simp_all add: updateAverageCost_def update_valuation_def split: prod.split)

lemma average_keeps [simp]: "fifo_layers p' (updateAverageCost D p db) = fifo_layers p' db"
  "layer_stock (updateAverageCost D p db) p' = layer_stock db p'" "costs_ok (updateAverageCost D p db) = costs_ok db"
  "product_layers p' (updateAverageCost D p db) = product_layers p' db" "untied p' (updateAverageCost D p db) = untied p' db"
  by (simp_all add: fifo_layers_def stock_rows_def layer_stock_def costs_ok_def scan_ok_def product_layers_def untied_def)

lemma rows_sum: "(\<Sum>l \<leftarrow> stock_rows p db. f l) = (\<Sum>l \<leftarrow> fifo_layers p db. (f l :: rat))"
  unfolding sum_mset_sum_list [symmetric] mset_map fifo_layers_def by simp

lemma no_rows [simp]: "stock_rows p db = [] \<longleftrightarrow> fifo_layers p db = []"
  by (metis fifo_layers_def mset_sort mset_zero_iff)

lemma plan_from_stock:
  assumes "costs_ok db" "0 < q"
  shows "plan_left q (fifo_layers p db) = max 0 (q - stock_quantity (layer_stock db p))"
  using plan_left_eq [of "fifo_layers p db" q] assms by (simp add: fifo_layers_member stock_quantity_layers)

lemma deduct_on_client_eq:
  fixes p :: string
  assumes "decimal_exact D v" "costs_ok db" "proper_quantity (js_decimal x)"
  defines "db' \<equiv> settle_all (fifo_plan (js_decimal x) (fifo_layers p db)) db"
  shows "deduct_on_client D p (Fin x) db =
      (if max 0 (js_decimal x) \<le> stock_quantity (layer_stock db p) then (Inr (), updateAverageCost D p db')
       else (Inl CL_INSUFFICIENT, db'))" and "costs_ok db'"
proof -
  let ?q = "js_decimal x"
  have "\<forall>l \<in> set (fifo_layers p db). 0 < cl_remaining l" "set (fifo_layers p db) \<subseteq> set (co_layers db)"
    using assms(2) by (auto simp: fifo_layers_member)
  from deduct_layers_plan [OF assms(1,2) fifo_layers_distinct [OF assms(2)] this(2,1), of "dl_of_num D (Fin x)"] assms(1,3)
  obtain q' where q': "deduct_layers D (fifo_layers p db) (dl_of_num D (Fin x)) db = Inr (q', db')"
    "v q' = plan_left ?q (fifo_layers p db)" "costs_ok db'" unfolding db'_def dec_num [OF assms(1)] by blast
  show "costs_ok db'" by fact
  have s: "0 \<le> stock_quantity (layer_stock db p)" using stock_positive [OF assms(2)] by (intro stock_quantity_nonneg) blast
  have "0 < plan_left ?q (fifo_layers p db) \<longleftrightarrow> stock_quantity (layer_stock db p) < max 0 ?q"
  proof (cases "0 < ?q")
    case True
    then show ?thesis using plan_from_stock [OF assms(2) True] by (auto simp: max_def)
  next
    case False
    then have "plan_left ?q (fifo_layers p db) = ?q" by (cases "fifo_layers p db") simp_all
    then show ?thesis using False s by (simp add: max_def)
  qed
  then have "dec_gt0 D q' \<longleftrightarrow> \<not> max 0 ?q \<le> stock_quantity (layer_stock db p)" using q'(2) dec_tests(2) [OF assms(1)] by (simp only: not_le)
  then show "deduct_on_client D p (Fin x) db =
      (if max 0 ?q \<le> stock_quantity (layer_stock db p) then (Inr (), updateAverageCost D p db') else (Inl CL_INSUFFICIENT, db'))"
    unfolding deduct_on_client_def q'(1) by (simp only: sum.case prod.case if_not_P if_P split: if_split) simp
qed

lemma consume_tables:
  fixes p :: string
  assumes D: "decimal_exact D v" and db: "costs_ok db" and x: "proper_quantity (js_decimal x)" "scaled 4 (js_decimal x)"
  defines "db' \<equiv> settle_all (fifo_plan (js_decimal x) (fifo_layers p db)) db"
  shows "\<exists>val. consumeCostLayersFIFO D p (Fin x) db = Inr (val, updateAverageCost D p db')
    \<and> (times_exact D v \<and> plan_cost (js_decimal x) (fifo_layers p db) < 10 ^ 14 \<longrightarrow> v val = plan_cost (js_decimal x) (fifo_layers p db))"
proof -
  have m: "\<forall>l \<in> set (fifo_layers p db). in_stock l" "set (fifo_layers p db) \<subseteq> set (co_layers db)"
    using db by (auto simp: fifo_layers_member in_stock_def)
  have q: "v (dl_of_num D (Fin x)) = js_decimal x" "v (dec_zero D) = 0" using D by (simp_all add: dec_num dec_zero_value)
  from consume_layers_plan [OF D db fifo_layers_distinct [OF db] m(2,1), of "dl_of_num D (Fin x)" "dec_zero D"] x
  obtain q' val where "consume_layers D (fifo_layers p db) (dl_of_num D (Fin x)) (dec_zero D) db = Inr (q', val, db')"
    "times_exact D v \<and> plan_cost (js_decimal x) (fifo_layers p db) < 10 ^ 14 \<longrightarrow> v val = plan_cost (js_decimal x) (fifo_layers p db)"
    unfolding db'_def q by auto
  then show ?thesis by (simp add: consumeCostLayersFIFO_def)
qed

lemma consume_eq:
  fixes p :: string
  assumes D: "decimal_exact D v" "times_exact D v" and db: "costs_ok db"
    and x: "proper_quantity (js_decimal x)" "scaled 4 (js_decimal x)" and b: "stock_value (layer_stock db p) < 10 ^ 14"
  defines "db' \<equiv> settle_all (fifo_plan (js_decimal x) (fifo_layers p db)) db"
  shows "\<exists>val. consumeCostLayersFIFO D p (Fin x) db = Inr (val, updateAverageCost D p db')
      \<and> v val = stock_value (layer_stock db p) - stock_value (layer_stock db' p)"
    and "\<exists>r. fifo_allocate D (fifo_layers p db) (dl_of_num D (Fin x)) (dec_zero D) [] = r
      \<and> v (fst r) = plan_left (js_decimal x) (fifo_layers p db)
      \<and> v (fst (snd r)) = stock_value (layer_stock db p) - stock_value (layer_stock db' p)"
proof -
  let ?q = "js_decimal x"
  have m: "\<forall>l \<in> set (fifo_layers p db). in_stock l" "set (fifo_layers p db) \<subseteq> set (co_layers db)"
    "\<forall>l \<in> set (fifo_layers p db). layer_ok l \<and> 0 < cl_remaining l" "\<forall>l \<in> set (fifo_layers p db). 0 < cl_remaining l"
    using db by (auto simp: fifo_layers_member in_stock_def costs_ok_def)
  have c: "plan_cost ?q (fifo_layers p db) = stock_value (layer_stock db p) - stock_value (layer_stock db' p)"
    using plan_cost_stock [OF m(4)] unfolding db'_def stock_value_settled [OF db x(2)] by (simp add: layer_stock_def)
  have "0 \<le> stock_value (layer_stock db' p)"
    unfolding db'_def stock_value_settled [OF db x(2)]
    using stock_value_nonneg [of "issue_front ?q (layer_stock db p)"] issue_nonneg [OF stock_positive [OF db], of ?q p] by simp
  then have b': "plan_cost ?q (fifo_layers p db) < 10 ^ 14" using b c by simp
  have q: "v (dl_of_num D (Fin x)) = ?q" "v (dec_zero D) = 0" using D(1) by (simp_all add: dec_num dec_zero_value)
  show "\<exists>val. consumeCostLayersFIFO D p (Fin x) db = Inr (val, updateAverageCost D p db')
      \<and> v val = stock_value (layer_stock db p) - stock_value (layer_stock db' p)"
    using consume_tables [OF D(1) db x, of p] D(2) b' unfolding db'_def [symmetric] c by blast
  from allocate_plan [OF D m(3), of "dl_of_num D (Fin x)" "dec_zero D" "[]"] x b' q
  show "\<exists>r. fifo_allocate D (fifo_layers p db) (dl_of_num D (Fin x)) (dec_zero D) [] = r
      \<and> v (fst r) = plan_left ?q (fifo_layers p db)
      \<and> v (fst (snd r)) = stock_value (layer_stock db p) - stock_value (layer_stock db' p)"
    using c by auto
qed

subsection \<open>Receipts\<close>

lemma insort_before: "f x \<le> f y \<Longrightarrow> insort_key f x (xs @ y # ys) = insort_key f x xs @ y # ys"
  by (induction xs) auto

lemma insort_after: "\<forall>a \<in> set xs. f a < f x \<Longrightarrow> insort_key f x (xs @ ys) = xs @ insort_key f x ys"
  by (induction xs) auto

lemma sort_key_append_one:
  fixes f :: "'a \<Rightarrow> 'b :: linorder"
  shows "\<exists>older newer. sort_key f xs = older @ newer \<and> sort_key f (xs @ [y]) = older @ y # newer
     \<and> (\<forall>a \<in> set older. f a \<le> f y) \<and> (\<forall>a \<in> set newer. f y < f a)"
proof (induction xs)
  case (Cons x xs)
  then obtain older newer where o: "sort_key f xs = older @ newer" "sort_key f (xs @ [y]) = older @ y # newer"
    "\<forall>a \<in> set older. f a \<le> f y" "\<forall>a \<in> set newer. f y < f a" by blast
  show ?case
  proof (cases "f x \<le> f y")
    case True
    have "insort_key f x (older @ newer) = insort_key f x older @ newer"
      using True o(4) insort_before [of f x _ older] by (cases newer) (auto intro: less_imp_le order.trans)
    then show ?thesis using True o insort_before [of f x y older newer]
      by (intro exI [of _ "insort_key f x older"] exI [of _ newer]) (simp add: set_insort_key)
  next
    case False
    then have "\<forall>a \<in> set older. f a < f x" using o(3) by fastforce
    then show ?thesis using False o insort_after [of older f x newer] insort_after [of "older @ [y]" f x newer]
      by (intro exI [of _ older] exI [of _ "insort_key f x newer"]) (auto simp: set_insort_key)
  qed
qed (intro exI [of _ "[]"], simp)

lemma numeric_15_ok: "numeric_15 s q = Inr r \<longleftrightarrow> r = pg_round s q \<and> \<bar>r\<bar> < 10 ^ (15 - s)"
  by (auto simp: numeric_15_def Let_def)

lemma valuation_keeps [simp]: "co_layers (update_valuation p f db) = co_layers db" "co_products (update_valuation p f db) = co_products db"
  "co_seq (update_valuation p f db) = co_seq db" "co_scan (update_valuation p f db) = co_scan db" "co_now (update_valuation p f db) = co_now db"
  by (simp_all add: update_valuation_def)

lemma createCostLayer_layers:
  assumes D: "decimal_exact D v" and db: "costs_ok db" and data: "cc_quantity data = Fin x" "cc_unitCost data = Fin c"
    and ok: "createCostLayer D gen today data db = Inr db'"
  shows "0 < js_decimal x" "scan_ok db'" "\<exists>l. co_layers db' = co_layers db @ [l] \<and> layer_ok l \<and> in_stock l
    \<and> cl_id l \<notin> set (map cl_id (co_layers db)) \<and> cl_productId l = cc_productId data
    \<and> layer_age l = (str_or (cc_receivedDate data) today, co_now db)
    \<and> cl_remaining l = pg_round 4 (js_decimal x) \<and> cl_quantity l = cl_remaining l \<and> cl_unitCost l = pg_round 2 (js_decimal c)"
proof -
  have v: "v (dl_of_num D (Fin x)) = js_decimal x" "v (dl_of_num D (Fin c)) = js_decimal c" "v (dec_zero D) = 0"
    using D by (simp_all add: dec_num dec_zero_value)
  have fx: "dl_toFixed D n (dl_of_num D (Fin a)) = pg_round n (js_decimal a)" for n a using D by (simp add: dec_toFixed dec_num)
  note t = ok [unfolded createCostLayer_def data Let_def and_then_Inr_iff insert_layer_def fx numeric_15_ok]
  then show "0 < js_decimal x" by (auto simp: dec_tests [OF D] v)
  from t show "scan_ok db'" using db by (auto simp: costs_ok_def scan_ok_def)
  from t show "\<exists>l. co_layers db' = co_layers db @ [l] \<and> layer_ok l \<and> in_stock l
    \<and> cl_id l \<notin> set (map cl_id (co_layers db)) \<and> cl_productId l = cc_productId data
    \<and> layer_age l = (str_or (cc_receivedDate data) today, co_now db)
    \<and> cl_remaining l = pg_round 4 (js_decimal x) \<and> cl_quantity l = cl_remaining l \<and> cl_unitCost l = pg_round 2 (js_decimal c)"
    by (auto simp: layer_ok_def layer_check_def in_stock_def layer_age_def)
qed

lemma receipt_order:
  assumes db: "scan_ok db" "scan_ok db'" and l: "co_layers db' = co_layers db @ [l]" "cl_productId l = p" "in_stock l" and u: "untied p db'"
  shows "fifo_layers p db' = filter (\<lambda>a. layer_age a < layer_age l) (fifo_layers p db) @ l # filter (\<lambda>a. layer_age l < layer_age a) (fifo_layers p db)"
proof -
  let ?rows = "product_layers p db"
  have rows: "product_layers p db' = ?rows @ [l]" using l by (simp add: product_layers_def)
  then have u': "untied p db" "\<forall>a \<in> set ?rows. layer_age a \<noteq> layer_age l" using u by (auto simp: untied_def) (metis image_eqI)
  obtain older newer where o: "sort_key layer_age ?rows = older @ newer" "sort_key layer_age (?rows @ [l]) = older @ l # newer"
    "\<forall>a \<in> set older. layer_age a \<le> layer_age l" "\<forall>a \<in> set newer. layer_age l < layer_age a"
    using sort_key_append_one [of layer_age ?rows l] by blast
  have "set older \<subseteq> set ?rows" using arg_cong [OF o(1), of set] by auto
  then have "\<forall>a \<in> set older. layer_age a < layer_age l" using o(3) u'(2) by (metis order.not_eq_order_implies_strict subsetD)
  then have "filter (\<lambda>a. layer_age a < layer_age l) (older @ newer) = older" "filter (\<lambda>a. layer_age l < layer_age a) (older @ newer) = newer"
    using o(4) by (auto simp: filter_id_conv filter_empty_conv dest: less_asym)
  then show ?thesis unfolding fifo_layers_untied [OF db(1) u'(1)] fifo_layers_untied [OF db(2) u] rows o(1,2) by simp
qed

lemma createCostLayer_stock:
  assumes "decimal_exact D v" "costs_ok db" "cc_quantity data = Fin x" "cc_unitCost data = Fin c"
    and "createCostLayer D gen today data db = Inr db'"
  shows "costs_ok db'"
    and "mset (layer_stock db' (cc_productId data)) = add_mset (pg_round 4 (js_decimal x), pg_round 2 (js_decimal c)) (mset (layer_stock db (cc_productId data)))"
proof -
  obtain l where l: "co_layers db' = co_layers db @ [l]" "layer_ok l" "in_stock l" "cl_id l \<notin> set (map cl_id (co_layers db))"
    "cl_productId l = cc_productId data" "cl_remaining l = pg_round 4 (js_decimal x)" "cl_unitCost l = pg_round 2 (js_decimal c)"
    using createCostLayer_layers(3) [OF assms] by blast
  have s: "scan_ok db" "scan_ok db'" using assms(2) createCostLayer_layers(2) [OF assms] by (simp_all add: costs_ok_def)
  show "costs_ok db'" using assms(2) l s(2) by (simp add: costs_ok_def)
  show "mset (layer_stock db' (cc_productId data)) = add_mset (pg_round 4 (js_decimal x), pg_round 2 (js_decimal c)) (mset (layer_stock db (cc_productId data)))"
    using l by (simp add: layer_stock_def fifo_layers_mset [OF s(1)] fifo_layers_mset [OF s(2)] product_layers_def)
qed

subsection \<open>Average cost\<close>

lemma stock_value_bounds:
  "\<forall>x \<in> set xs. 0 < fst x \<and> lo \<le> snd x \<and> snd x \<le> hi \<Longrightarrow> lo * stock_quantity xs \<le> stock_value xs \<and> stock_value xs \<le> hi * stock_quantity xs"
proof (induction xs)
  case (Cons x xs)
  then have "lo * fst x \<le> fst x * snd x" "fst x * snd x \<le> hi * fst x" by (simp_all add: mult.commute mult_right_mono)
  moreover have "lo * stock_quantity xs \<le> stock_value xs" "stock_value xs \<le> hi * stock_quantity xs" using Cons by simp_all
  ultimately show ?case by (simp add: distrib_left add_mono)
qed simp

lemma set_average:
  assumes "r \<in> set (co_valuations (update_valuation p (\<lambda>r. r\<lparr>pv_averageCost := a\<rparr>) db))" "pv_productId r = p"
  shows "pv_averageCost r = a"
proof -
  have eq: "co_valuations (update_valuation p (\<lambda>r. r\<lparr>pv_averageCost := a\<rparr>) db)
      = map (\<lambda>r. if pv_productId r = p then r\<lparr>pv_averageCost := a\<rparr> else r) (co_valuations db)"
    by (simp add: update_valuation_def)
  from assms(1) [unfolded eq set_map] obtain x where "r = (if pv_productId x = p then x\<lparr>pv_averageCost := a\<rparr> else x)"
    by (rule imageE)
  then show ?thesis using assms(2) by (cases "pv_productId x = p") simp_all
qed

lemma average_in:
  assumes D: "decimal_exact D v" "div_between D v" and db: "costs_ok db" and ne: "layer_stock db p \<noteq> []"
    and b: "stock_quantity (layer_stock db p) < 10 ^ 16" "stock_value (layer_stock db p) < 10 ^ 14"
    and c: "\<forall>x \<in> set (layer_stock db p). lo \<le> snd x \<and> snd x \<le> hi" and lh: "scaled 2 lo" "scaled 2 hi" "0 \<le> lo" "hi < 10 ^ 13"
    and r: "r \<in> set (co_valuations (updateAverageCost D p db))" "pv_productId r = p"
  shows "lo \<le> pv_averageCost r \<and> pv_averageCost r \<le> hi"
proof -
  let ?Q = "stock_quantity (layer_stock db p)" and ?V = "stock_value (layer_stock db p)"
  let ?a = "dl_div D (dl_of_db D ?V) (dl_of_db D ?Q)"
  have pos: "\<forall>x \<in> set (layer_stock db p). 0 < fst x \<and> 0 \<le> snd x" using stock_positive [OF db] .
  obtain x0 xs0 where x0: "layer_stock db p = x0 # xs0" using ne by (cases "layer_stock db p") auto
  have q0: "0 < ?Q" using pos x0 stock_quantity_nonneg [of xs0] by simp
  have v0: "0 \<le> ?V" using stock_value_nonneg [OF pos] .
  have lohi: "lo \<le> hi" using c x0 by auto
  have ok: "layer_ok l" if "l \<in> set (fifo_layers p db)" for l using that db by (auto simp: fifo_layers_member costs_ok_def)
  have "scaled 4 ?Q" unfolding stock_quantity_layers using ok by (intro scaled_sum_list) (auto simp: layer_ok_def)
  then have sq: "sig20 ?Q" using q0 b(1) by (intro scaled_sig20 [of 4]) simp_all
  have "scaled 6 (cl_remaining l * cl_unitCost l)" if "l \<in> set (fifo_layers p db)" for l
    using scaled_times [of 4 "cl_remaining l" 2 "cl_unitCost l"] ok [OF that] by (simp add: layer_ok_def)
  then have "scaled 6 ?V" unfolding stock_value_layers by (intro scaled_sum_list) blast
  then have sv: "sig20 ?V" using v0 b(2) by (intro scaled_sig20 [of 6]) simp_all
  have "sig20 lo" "sig20 hi" using lh lohi by (auto intro!: scaled_sig20 [of 2])
  moreover have "lo * ?Q \<le> ?V \<and> ?V \<le> hi * ?Q" using stock_value_bounds [of "layer_stock db p" lo hi] pos c by blast
  ultimately have a: "lo \<le> v ?a" "v ?a \<le> hi"
    using D(2) q0 dec_db [OF D(1) sq] dec_db [OF D(1) sv] unfolding div_between_def by metis+
  have fixed: "lo \<le> dl_toFixed D 2 ?a" "dl_toFixed D 2 ?a \<le> hi"
    using pg_round_mono [OF lh(3) a(1), of 2] pg_round_mono [OF order.trans [OF lh(3) a(1)] a(2), of 2] lh(1,2)
    by (simp_all add: dec_toFixed [OF D(1)])
  have "fifo_layers p db \<noteq> []" using ne by (simp add: layer_stock_def)
  then have "layer_totals D p db = (dl_of_db D ?Q, dl_of_db D ?V)"
    by (simp add: layer_totals_def stock_quantity_layers stock_value_layers Let_def rows_sum)
  moreover have "dec_gt0 D (dl_of_db D ?Q)" using dec_tests(2) [OF D(1)] dec_db [OF D(1) sq] q0 by simp
  ultimately have "updateAverageCost D p db = update_valuation p (\<lambda>r. r\<lparr>pv_averageCost := dl_toFixed D 2 ?a\<rparr>) db"
    by (simp add: updateAverageCost_def)
  then have "pv_averageCost r = dl_toFixed D 2 ?a" using set_average [OF _ r(2)] r(1) by (simp only:)
  then show ?thesis using fixed by simp
qed

lemma average_of_nothing:
  assumes "decimal_exact D v" "layer_stock db p = []" "r \<in> set (co_valuations (updateAverageCost D p db))" "pv_productId r = p"
  shows "pv_averageCost r = 0"
proof -
  have "layer_totals D p db = (dec_zero D, dec_zero D)" using assms(2) by (simp add: layer_totals_def layer_stock_def)
  then have "updateAverageCost D p db = update_valuation p (\<lambda>r. r\<lparr>pv_averageCost := dl_toFixed D 2 (dec_zero D)\<rparr>) db"
    using dec_tests(2) [OF assms(1)] dec_zero_value [OF assms(1)] by (simp add: updateAverageCost_def)
  moreover have "dl_toFixed D 2 (dec_zero D) = 0" using dec_toFixed [OF assms(1)] dec_zero_value [OF assms(1)] by simp
  ultimately show ?thesis using set_average [OF _ assms(4)] assms(3) by (simp only:)
qed

end
