(* ===== verification/CostTheorems.thy ===== *)
theory CostTheorems imports CostStock
begin

section \<open>What the cost layers guarantee\<close>

text \<open>
  Deductions and adjustments issue from the layers first in, first out; receipts extend them; every
  operation keeps the invariant of the tables; the average cost lies among the costs of the layers,
  until a shortage that a sale passes over leaves it behind.
\<close>

subsection \<open>Deductions\<close>

definition proper_deduction :: "CostLayerDeduction \<Rightarrow> bool" where
  "proper_deduction x = (case cd_quantity x of Fin a \<Rightarrow> scaled 4 (js_decimal a) \<and> \<bar>js_decimal a\<bar> < 10 ^ 11 | _ \<Rightarrow> False)"

definition fifo_amount :: "CostLayerDeduction \<Rightarrow> rat" where
  "fifo_amount x = (if cd_costingMethod x = ''FIFO'' then (case cd_quantity x of Fin a \<Rightarrow> max 0 (js_decimal a) | _ \<Rightarrow> 0) else 0)"

definition sale_issue :: "'d decimal_lib \<Rightarrow> CostLayerDeduction \<Rightarrow> CostDb \<Rightarrow> CostDb" where
  "sale_issue D x db = snd (deductFromCostLayers D (cd_productId x) (cd_quantity x) (cd_costingMethod x) db)"

lemma proper_of_scaled: "scaled 4 q \<Longrightarrow> \<bar>q\<bar> < 10 ^ 11 \<Longrightarrow> proper_quantity q"
  by (simp add: proper_quantity_def scaled_4_9)

lemma issue_max [simp]: "issue_front (max 0 q) xs = issue_front q xs"
  by (simp add: max_def)

text \<open>Nothing but the quantity left and the activity of a product's layers, and its average cost, is written.\<close>

definition touches_only :: "string \<Rightarrow> CostDb \<Rightarrow> CostDb \<Rightarrow> bool" where
  "touches_only p db db' \<longleftrightarrow>
     list_all2 (\<lambda>l l'. l' = l \<or> cl_productId l = p \<and> l' = l\<lparr>cl_remaining := cl_remaining l', cl_isActive := cl_isActive l'\<rparr>)
       (co_layers db) (co_layers db')
   \<and> list_all2 (\<lambda>r r'. r' = r \<or> pv_productId r = p \<and> r' = r\<lparr>pv_averageCost := pv_averageCost r'\<rparr>)
       (co_valuations db) (co_valuations db')
   \<and> db' = db\<lparr>co_layers := co_layers db', co_valuations := co_valuations db'\<rparr>"

lemma settle_touches_only:
  assumes "costs_ok db"
  shows "touches_only p db (settle_all (fifo_plan q (fifo_layers p db)) db)"
proof -
  let ?pl = "fifo_plan q (fifo_layers p db)"
  have s: "settle ?pl l = l\<lparr>cl_remaining := cl_remaining (settle ?pl l), cl_isActive := cl_isActive (settle ?pl l)\<rparr>" for l
    by (simp add: settle_def split: option.split)
  have "list_all2 (\<lambda>l l'. l' = l \<or> cl_productId l = p \<and> l' = l\<lparr>cl_remaining := cl_remaining l', cl_isActive := cl_isActive l'\<rparr>)
      (co_layers db) (map (settle ?pl) (co_layers db))"
    unfolding list_all2_map2 using settled_touches [OF assms] s by (blast intro: list_all2_same [THEN iffD2])
  then show ?thesis by (simp add: touches_only_def settle_all_def list_all2_same)
qed

lemma average_touches_only:
  assumes "touches_only p db db'" "co_valuations db' = co_valuations db"
  shows "touches_only p db (updateAverageCost D p db')"
proof -
  have v: "\<exists>a. updateAverageCost D p db' = db'\<lparr>co_valuations := map (\<lambda>r. if pv_productId r = p then r\<lparr>pv_averageCost := a\<rparr> else r) (co_valuations db')\<rparr>"
    by (auto simp: updateAverageCost_def update_valuation_def split: prod.split)
  show ?thesis using v assms by (auto simp: touches_only_def list_all2_map2 intro!: list.rel_refl_strong)
qed

lemma deduct_keeps:
  fixes p :: string
  assumes "decimal_exact D v" "costs_ok db" "proper_quantity (js_decimal x)"
  defines "db' \<equiv> snd (deductFromCostLayers D p (Fin x) ''FIFO'' db)"
  shows "costs_ok db'" "touches_only p db db'" "mset (layer_stock db' p) = mset (issue_rounded (js_decimal x) (layer_stock db p))"
    "untied p db \<Longrightarrow> layer_stock db' p = issue_rounded (js_decimal x) (layer_stock db p)"
    "untied p' db \<Longrightarrow> untied p' db'"
    "fst (deductFromCostLayers D p (Fin x) ''FIFO'' db)
       = (if max 0 (js_decimal x) \<le> stock_quantity (layer_stock db p) then Inr () else Inl CL_INSUFFICIENT)"
proof -
  let ?db = "settle_all (fifo_plan (js_decimal x) (fifo_layers p db)) db"
  note e = deduct_on_client_eq [OF assms(1-3), of p]
  have db': "db' = updateAverageCost D p ?db \<or> db' = ?db"
    unfolding db'_def deductFromCostLayers_def e(1) by simp
  show "costs_ok db'" using db' e(2) by auto
  show "touches_only p db db'"
    using db' settle_touches_only [OF assms(2), of p "js_decimal x"] average_touches_only [of p db ?db D] by auto
  show "mset (layer_stock db' p) = mset (issue_rounded (js_decimal x) (layer_stock db p))"
    using db' layer_stock_settled_mset [OF assms(2), of "js_decimal x" p] by auto
  show "layer_stock db' p = issue_rounded (js_decimal x) (layer_stock db p)" if "untied p db"
    using db' fifo_layers_settled [OF assms(2) refl that, of "js_decimal x" p] fifo_layers_settle [OF assms(2), of "js_decimal x" p]
    by (auto simp: layer_stock_def)
  show "untied p' db'" if "untied p' db"
    using db' untied_settled [OF assms(2) refl that, of "js_decimal x" p] by auto
  show "fst (deductFromCostLayers D p (Fin x) ''FIFO'' db)
       = (if max 0 (js_decimal x) \<le> stock_quantity (layer_stock db p) then Inr () else Inl CL_INSUFFICIENT)"
    unfolding deductFromCostLayers_def e(1) by simp
qed

lemma deduct_stock:
  fixes p :: string
  assumes "decimal_exact D v" "costs_ok db" "scaled 4 (js_decimal x)" "\<bar>js_decimal x\<bar> < 10 ^ 11" "untied p' db"
  shows "layer_stock (snd (deductFromCostLayers D p (Fin x) ''FIFO'' db)) p'
    = (if p' = p then issue_front (js_decimal x) (layer_stock db p) else layer_stock db p')"
  using layer_stock_settled [OF assms(2,3,5), of p]
  unfolding deductFromCostLayers_def deduct_on_client_eq(1) [OF assms(1,2) proper_of_scaled [OF assms(3,4)]]
  by (cases "p' = p") simp_all

lemma deduct_value:
  fixes p :: string
  assumes "decimal_exact D v" "costs_ok db" "scaled 4 (js_decimal x)" "\<bar>js_decimal x\<bar> < 10 ^ 11"
  shows "stock_value (layer_stock (snd (deductFromCostLayers D p (Fin x) ''FIFO'' db)) p)
    = stock_value (layer_stock (settle_all (fifo_plan (js_decimal x) (fifo_layers p db)) db) p)"
  unfolding deductFromCostLayers_def deduct_on_client_eq(1) [OF assms(1,2) proper_of_scaled [OF assms(3,4)]] by simp

lemma proper_amount:
  assumes "proper_deduction x"
  obtains a where "cd_quantity x = Fin a" "scaled 4 (js_decimal a)" "\<bar>js_decimal a\<bar> < 10 ^ 11" "proper_quantity (js_decimal a)"
  using assms proper_of_scaled by (auto simp: proper_deduction_def split: jnum.splits)

lemma sale_issue_ok: "decimal_exact D v \<Longrightarrow> costs_ok db \<Longrightarrow> proper_deduction x \<Longrightarrow> costs_ok (sale_issue D x db)"
  by (erule proper_amount) (simp add: sale_issue_def deduct_keeps(1) deductFromCostLayers_def [of _ _ _ "cd_costingMethod x"]
      deduct_keeps(1) [unfolded deductFromCostLayers_def, simplified])

interpretation sale: issuing "\<lambda>db. decimal_exact D v \<and> costs_ok db \<and> (\<forall>p. untied p db)" layer_stock proper_deduction cd_productId
  fifo_amount "sale_issue D"
  for D :: "'d decimal_lib" and v
proof (unfold_locales, goal_cases)
  case (1 db x)
  then obtain a where a: "cd_quantity x = Fin a" "proper_quantity (js_decimal a)" by (auto elim: proper_amount)
  show ?case using 1 sale_issue_ok [of D v db x] deduct_keeps(5) [of D v db a _ "cd_productId x"] a
    by (cases "cd_costingMethod x = ''FIFO''") (simp_all add: sale_issue_def deductFromCostLayers_def)
next
  case (2 db x p)
  then obtain a where a: "cd_quantity x = Fin a" "scaled 4 (js_decimal a)" "\<bar>js_decimal a\<bar> < 10 ^ 11" by (auto elim: proper_amount)
  show ?case using 2 deduct_stock [of D v db a p "cd_productId x"] a
    by (cases "cd_costingMethod x = ''FIFO''") (simp_all add: sale_issue_def fifo_amount_def deductFromCostLayers_def)
next
  case (3 x)
  show ?case by (auto simp: fifo_amount_def split: jnum.split)
qed

lemma sale_step:
  assumes "decimal_exact D v" "costs_ok db" "proper_deduction x"
  shows "deduct_sale_layers D (x # xs) db = deduct_sale_layers D xs (sale_issue D x db)"
proof -
  obtain a where a: "cd_quantity x = Fin a" "proper_quantity (js_decimal a)" using assms(3) by (auto elim: proper_amount)
  have "fst (deductFromCostLayers D (cd_productId x) (cd_quantity x) (cd_costingMethod x) db) \<in> {Inr (), Inl CL_INSUFFICIENT}"
    using deduct_keeps(6) [OF assms(1,2) a(2), of "cd_productId x"] a(1)
    by (cases "cd_costingMethod x = ''FIFO''") (simp_all add: deductFromCostLayers_def)
  then show ?thesis
    by (cases "deductFromCostLayers D (cd_productId x) (cd_quantity x) (cd_costingMethod x) db") (auto simp: sale_issue_def)
qed

lemma sale_is_fold:
  "decimal_exact D v \<Longrightarrow> costs_ok db \<Longrightarrow> \<forall>x \<in> set xs. proper_deduction x \<Longrightarrow>
   deduct_sale_layers D xs db = Inr (fold (sale_issue D) xs db) \<and> costs_ok (fold (sale_issue D) xs db)"
proof (induction xs arbitrary: db)
  case (Cons x xs)
  then show ?case using sale_step [of D v db x xs] sale_issue_ok [of D v db x] by simp
qed simp

subsection \<open>Adjustments\<close>




subsection \<open>Histories\<close>

text \<open>A layer afterwards is the same receipt with no more left of it.\<close>

definition consumed :: "CostLayer \<Rightarrow> CostLayer \<Rightarrow> bool" where
  "consumed l l' \<longleftrightarrow> cl_id l' = cl_id l \<and> cl_productId l' = cl_productId l \<and> cl_quantity l' = cl_quantity l
     \<and> cl_unitCost l' = cl_unitCost l \<and> layer_age l' = layer_age l \<and> cl_remaining l' \<le> cl_remaining l"

definition layers_follow :: "CostDb \<Rightarrow> CostDb \<Rightarrow> bool" where
  "layers_follow db db' \<longleftrightarrow> (\<forall>l \<in> set (co_layers db). \<exists>l' \<in> set (co_layers db'). consumed l l')"

lemma layers_follow_refl [simp]: "layers_follow db db"
  by (auto simp: layers_follow_def consumed_def)





lemma average_follow [simp]: "layers_follow db (updateAverageCost D p db') \<longleftrightarrow> layers_follow db db'"
  by (simp add: layers_follow_def)





subsection \<open>Properties\<close>

text \<open>C14. A FIFO deduction of a quantity of up to nine decimals takes it from the layers of the product in stock, in the
  order of their received date and then of the time they were made (layers equal in both in the order in which the
  database returns them): it uses up each layer before it takes from the next, and rounds what is left of the one it ends in to four
  decimals, which changes nothing when the quantity has no more decimals than that. It reports a shortage exactly when
  the layers hold less. It writes nothing but the quantity left and the activity of that product's layers, and its
  average cost; the tables keep their invariant, the shortage included, and no error of the database can occur.\<close>

theorem deduction_is_fifo:
  assumes "decimal_exact D v" "costs_ok db" "proper_quantity (js_decimal x)"
  shows "sorted (map layer_age (fifo_layers p db)) \<and> mset (fifo_layers p db) = mset (product_layers p db)
    \<and> (scaled 4 (js_decimal x) \<longrightarrow> issue_rounded (js_decimal x) (layer_stock db p) = issue_front (js_decimal x) (layer_stock db p))
    \<and> (case deductFromCostLayers D p (Fin x) ''FIFO'' db of (r, db') \<Rightarrow>
        r = (if max 0 (js_decimal x) \<le> stock_quantity (layer_stock db p) then Inr () else Inl CL_INSUFFICIENT)
      \<and> costs_ok db' \<and> touches_only p db db'
      \<and> mset (layer_stock db' p) = mset (issue_rounded (js_decimal x) (layer_stock db p))
      \<and> (untied p db \<longrightarrow> layer_stock db' p = issue_rounded (js_decimal x) (layer_stock db p)))"
  using deduct_keeps [OF assms, of p] fifo_layers_sorted fifo_layers_mset issue_rounded_exact [OF _ layer_stock_scaled [OF assms(2)]] assms(2)
  by (simp add: case_prod_unfold costs_ok_def)

text \<open>C16. Where no two layers in stock of one product are equal in received date and time of creation, the deductions of
  a sale, of quantities of at most four decimals (to which the remaining quantity of a layer is rounded at each of
  them), never fail, and together they leave the layers as one deduction per product of the sum of its FIFO lines
  would, whatever the order of the lines.\<close>

theorem sale_lines_are_one_issue:
  assumes "decimal_exact D v" "costs_ok db" "\<forall>p. untied p db" "\<forall>x \<in> set xs. proper_deduction x" "mset ys = mset xs"
  shows "case (deduct_sale_layers D xs db, deduct_sale_layers D ys db) of
      (Inr db1, Inr db2) \<Rightarrow> costs_ok db1 \<and> (\<forall>p. layer_stock db2 p = layer_stock db1 p
        \<and> layer_stock db1 p = issue_front (\<Sum>x \<leftarrow> filter (\<lambda>x. cd_productId x = p) xs. fifo_amount x) (layer_stock db p))
    | _ \<Rightarrow> False"
proof -
  have v: "decimal_exact D v \<and> costs_ok db \<and> (\<forall>p. untied p db)" and ys: "\<forall>x \<in> set ys. proper_deduction x"
    using assms by (auto dest: mset_eq_setD)
  note one = sale.issues_as_one [OF v assms(4), unfolded sale.requested_def]
  show ?thesis using one sale.order_of_issues [OF v assms(4,5)]
    by (simp add: sale_is_fold [OF assms(1,2,4)] sale_is_fold [OF assms(1,2) ys])
qed

text \<open>C15. When the layers of a product hold less than a sale takes, a deduction of its own transaction is refused,
  but the sale goes on: all layers of the product are emptied and its average cost stays what it was. A stock
  adjustment of the same quantity empties the layers too and sets the average to zero.\<close>

theorem shortage_empties_layers_and_keeps_average:
  assumes "decimal_exact D v" "costs_ok db" "scaled 4 (js_decimal x)" "\<bar>js_decimal x\<bar> < 10 ^ 11"
    and "stock_quantity (layer_stock db p) < js_decimal x"
  shows "deduct_own_transaction D p (Fin x) ''FIFO'' db = Inl CL_INSUFFICIENT
    \<and> (case deduct_sale_layers D [\<lparr>cd_productId = p, cd_quantity = Fin x, cd_costingMethod = ''FIFO''\<rparr>] db of
         Inr db1 \<Rightarrow> layer_stock db1 p = [] \<and> co_valuations db1 = co_valuations db
       | Inl _ \<Rightarrow> False)
    \<and> (case consumeCostLayersFIFO D p (Fin x) db of
         Inr (_, db2) \<Rightarrow> layer_stock db2 p = [] \<and> \<not> (\<exists>r \<in> set (co_valuations db2). pv_productId r = p \<and> pv_averageCost r \<noteq> 0)
       | Inl _ \<Rightarrow> False)"
proof -
  let ?db = "settle_all (fifo_plan (js_decimal x) (fifo_layers p db)) db"
  note pr = proper_of_scaled [OF assms(3,4)]
  have pos: "\<forall>x \<in> set (layer_stock db p). 0 < fst x" using stock_positive [OF assms(2)] by blast
  have none: "layer_stock ?db p = []"
    using layer_stock_settled_mset [OF assms(2), of "js_decimal x" p] issue_all [OF pos] assms(5)
      issue_rounded_exact [OF assms(3) layer_stock_scaled [OF assms(2)]] by simp
  have d: "deductFromCostLayers D p (Fin x) ''FIFO'' db = (Inl CL_INSUFFICIENT, ?db)"
    using deduct_on_client_eq(1) [OF assms(1,2) pr, of p] assms(5) stock_quantity_nonneg [OF pos]
    by (simp add: deductFromCostLayers_def)
  obtain val where c: "consumeCostLayersFIFO D p (Fin x) db = Inr (val, updateAverageCost D p ?db)"
    using consume_tables [OF assms(1,2) pr assms(3)] by blast
  show ?thesis using d c none average_of_nothing [OF assms(1) none] by (auto simp: deduct_own_transaction_def)
qed

text \<open>C17. Stock adjustments and sales deduct a quantity of at most four decimals alike: where the layers suffice, the two
  routines leave the same tables, and the adjustment reports the value that left the layers. (What is left of a layer
  is stored with four decimals; a finer quantity may leave one with nothing, active after the sale and inactive after
  the adjustment.) The value of the product's layers is below \<open>10 ^ 14\<close>.\<close>

theorem adjustments_deduct_like_sales:
  assumes "decimal_exact D v" "times_exact D v" "costs_ok db" "scaled 4 (js_decimal x)" "\<bar>js_decimal x\<bar> < 10 ^ 11"
    and "max 0 (js_decimal x) \<le> stock_quantity (layer_stock db p)" "stock_value (layer_stock db p) < 10 ^ 14"
  shows "case (consumeCostLayersFIFO D p (Fin x) db, deductFromCostLayers D p (Fin x) ''FIFO'' db) of
      (Inr (val, db1), (Inr _, db2)) \<Rightarrow> db1 = db2 \<and> v val = stock_value (layer_stock db p) - stock_value (layer_stock db1 p)
    | _ \<Rightarrow> False"
proof -
  note pr = proper_of_scaled [OF assms(4,5)]
  obtain val where "consumeCostLayersFIFO D p (Fin x) db = Inr (val, updateAverageCost D p (settle_all (fifo_plan (js_decimal x) (fifo_layers p db)) db))"
    "v val = stock_value (layer_stock db p) - stock_value (layer_stock (settle_all (fifo_plan (js_decimal x) (fifo_layers p db)) db) p)"
    using consume_eq(1) [OF assms(1-3) pr assms(4,7)] by blast
  then show ?thesis using deduct_on_client_eq(1) [OF assms(1,3) pr, of p] assms(6) by (simp add: deductFromCostLayers_def)
qed

text \<open>C19. The FIFO cost of a quantity of at most four decimals: refused when it is not positive, when there are no layers
  and when they hold less; otherwise the value that the deduction of that quantity takes from the layers. The value of
  the product's layers is below \<open>10 ^ 14\<close>.\<close>

theorem fifo_cost_is_the_value_issued:
  assumes "decimal_exact D v" "times_exact D v" "costs_ok db" "scaled 4 (js_decimal x)" "\<bar>js_decimal x\<bar> < 10 ^ 11"
    and "stock_value (layer_stock db p) < 10 ^ 14"
  shows "case calculateActualCost D p (Fin x) ''FIFO'' db of
      Inl e \<Rightarrow> e = (if js_decimal x \<le> 0 then CL_QUANTITY else if layer_stock db p = [] then CL_NO_LAYERS else CL_INSUFFICIENT)
        \<and> (if 0 < js_decimal x then stock_quantity (layer_stock db p) < js_decimal x else True)
    | Inr r \<Rightarrow> 0 < js_decimal x \<and> js_decimal x \<le> stock_quantity (layer_stock db p)
        \<and> v (cr_totalCost r) = stock_value (layer_stock db p)
            - stock_value (layer_stock (snd (deductFromCostLayers D p (Fin x) ''FIFO'' db)) p)"
proof -
  let ?q = "js_decimal x"
  note pr = proper_of_scaled [OF assms(4,5)]
  have q: "dec_lte0 D (dl_of_num D (Fin x)) \<longleftrightarrow> ?q \<le> 0" using dec_tests(1) [OF assms(1)] assms(1) by (simp add: dec_num)
  have ne: "fifo_layers p db = [] \<longleftrightarrow> layer_stock db p = []" by (simp add: layer_stock_def)
  obtain rem tot as where r: "fifo_allocate D (fifo_layers p db) (dl_of_num D (Fin x)) (dec_zero D) [] = (rem, tot, as)"
    "v rem = plan_left ?q (fifo_layers p db)"
    "v tot = stock_value (layer_stock db p) - stock_value (layer_stock (settle_all (fifo_plan ?q (fifo_layers p db)) db) p)"
    using consume_eq(2) [OF assms(1-3) pr assms(4,6)] by (metis prod.exhaust_sel)
  note s = deduct_value [OF assms(1,3-5), of p]
  have g: "dec_gt0 D rem \<longleftrightarrow> stock_quantity (layer_stock db p) < ?q" if "0 < ?q"
    using dec_tests(2) [OF assms(1)] r(2) plan_from_stock [OF assms(3) that] by auto
  consider "?q \<le> 0" | "0 < ?q" "layer_stock db p = []" | "0 < ?q" "layer_stock db p \<noteq> []" by linarith
  then show ?thesis
  proof cases
    case 1
    then show ?thesis by (simp add: calculateActualCost_def calculateFIFOCost_def q throw_if_def)
  next
    case 2
    then show ?thesis by (simp add: calculateActualCost_def calculateFIFOCost_def q ne throw_if_def)
  next
    case 3
    then show ?thesis using g r(1,3) s by (simp add: calculateActualCost_def calculateFIFOCost_def q ne throw_if_def not_le)
  qed
qed

text \<open>C21. A receipt adds one layer to the table, with its quantity rounded to four decimals and its unit cost rounded to
  whole cents, so the value of the stock grows by the exact value to within half a cent per unit. Where no two layers
  in stock of the product are equal in received date and time of creation, the layer stands behind those that
  are earlier in these and before those that are later, a receipt of an earlier date included; layers of one
  transaction and date stand in no order.\<close>

theorem receipt_extends_stock:
  assumes "decimal_exact D v" "costs_ok db" "cc_quantity data = Fin x" "cc_unitCost data = Fin c"
    and "createCostLayer D gen today data db = Inr db'"
  shows "let p = cc_productId data; age = (str_or (cc_receivedDate data) today, co_now db);
      q = pg_round 4 (js_decimal x); c' = pg_round 2 (js_decimal c) in
    costs_ok db' \<and> 0 < js_decimal x
    \<and> (\<exists>l. co_layers db' = co_layers db @ [l] \<and> cl_productId l = p \<and> layer_age l = age \<and> cl_isActive l
        \<and> cl_quantity l = q \<and> cl_remaining l = q \<and> cl_unitCost l = c')
    \<and> (untied p db' \<longrightarrow> layer_stock db' p =
         map (\<lambda>l. (cl_remaining l, cl_unitCost l)) (filter (\<lambda>l. layer_age l < age) (fifo_layers p db))
         @ (q, c') # map (\<lambda>l. (cl_remaining l, cl_unitCost l)) (filter (\<lambda>l. age < layer_age l) (fifo_layers p db)))
    \<and> \<bar>stock_value (layer_stock db' p) - stock_value (layer_stock db p) - q * js_decimal c\<bar> \<le> q / 200"
proof -
  let ?p = "cc_productId data" and ?age = "(str_or (cc_receivedDate data) today, co_now db)"
  note s = createCostLayer_stock [OF assms(1-5)]
  note q = createCostLayer_layers(1) [OF assms(1-5)]
  let ?q = "pg_round 4 (js_decimal x)" and ?c = "pg_round 2 (js_decimal c)"
  obtain l where l: "co_layers db' = co_layers db @ [l]" "in_stock l" "cl_productId l = ?p" "layer_age l = ?age"
    "cl_remaining l = ?q" "cl_quantity l = cl_remaining l" "cl_unitCost l = ?c"
    using createCostLayer_layers(3) [OF assms(1-5)] by blast
  have o: "layer_stock db' ?p = map (\<lambda>l. (cl_remaining l, cl_unitCost l)) (filter (\<lambda>l. layer_age l < ?age) (fifo_layers ?p db)) @ (?q, ?c)
      # map (\<lambda>l. (cl_remaining l, cl_unitCost l)) (filter (\<lambda>l. ?age < layer_age l) (fifo_layers ?p db))" if "untied ?p db'"
  proof -
    have "scan_ok db" "scan_ok db'" using assms(2) s(1) by (simp_all only: costs_ok_def)
    note r = receipt_order [OF this l(1,3,2) that]
    show ?thesis unfolding layer_stock_def r l(4) map_append list.map l(5,7) ..
  qed
  have "stock_value (layer_stock db' ?p) = stock_value ((?q, ?c) # layer_stock db ?p)" using stock_sums_mset [of "layer_stock db' ?p" "(?q, ?c) # layer_stock db ?p"] s(2) by simp
  then have e: "stock_value (layer_stock db' ?p) - stock_value (layer_stock db ?p) - ?q * js_decimal c = ?q * (?c - js_decimal c)"
    by (simp add: algebra_simps)
  have "0 \<le> ?q" using q by (simp add: pg_round_nonneg)
  then have "?q * \<bar>?c - js_decimal c\<bar> \<le> ?q * (1 / 200)" using pg_round_near [of 2 "js_decimal c"] by (intro mult_left_mono) simp_all
  then have "\<bar>?q * (?c - js_decimal c)\<bar> \<le> ?q / 200" using \<open>0 \<le> ?q\<close> by (simp add: abs_mult)
  then have "\<bar>stock_value (layer_stock db' ?p) - stock_value (layer_stock db ?p) - ?q * js_decimal c\<bar> \<le> ?q / 200" unfolding e .
  moreover have "\<exists>l. co_layers db' = co_layers db @ [l] \<and> cl_productId l = ?p \<and> layer_age l = ?age \<and> cl_isActive l
      \<and> cl_quantity l = ?q \<and> cl_remaining l = ?q \<and> cl_unitCost l = ?c"
    using l by (intro exI [of _ l]) (simp only: in_stock_def simp_thms)
  ultimately show ?thesis unfolding Let_def using s(1) q o by blast
qed


text \<open>C20. The average cost that a receipt, a deduction or an adjustment records is, to the cent, no lower than the
  cheapest and no higher than the dearest of the product's layers, and zero when there are none.\<close>

theorem average_among_layer_costs:
  assumes "decimal_exact D v" "div_between D v" "costs_ok db"
    and "stock_quantity (layer_stock db p) < 10 ^ 16" "stock_value (layer_stock db p) < 10 ^ 14"
    and "r \<in> set (co_valuations (updateAverageCost D p db))" "pv_productId r = p"
  shows "if layer_stock db p = [] then pv_averageCost r = 0
    else Min (snd ` set (layer_stock db p)) \<le> pv_averageCost r \<and> pv_averageCost r \<le> Max (snd ` set (layer_stock db p))"
proof (cases "layer_stock db p = []")
  case True
  then show ?thesis using average_of_nothing [OF assms(1) _ assms(6,7)] by simp
next
  case False
  let ?C = "snd ` set (layer_stock db p)"
  have fin: "finite ?C" "?C \<noteq> {}" using False by simp_all
  have ok: "scaled 2 c \<and> 0 \<le> c \<and> c < 10 ^ 13" if "c \<in> ?C" for c
    using that assms(3) by (auto simp: layer_stock_def fifo_layers_member costs_ok_def layer_ok_def layer_check_def)
  have "Min ?C \<in> ?C" "Max ?C \<in> ?C" using fin by simp_all
  then have "Min ?C \<le> pv_averageCost r \<and> pv_averageCost r \<le> Max ?C"
    using fin ok by (intro average_in [OF assms(1-3) False assms(4,5) _ _ _ _ _ assms(6,7)]) auto
  then show ?thesis using False by simp
qed

subsection \<open>A concrete stock\<close>

definition sample_layer :: "string \<Rightarrow> rat \<Rightarrow> rat \<Rightarrow> rat \<Rightarrow> string \<Rightarrow> CostLayer" where
  "sample_layer i q r c date = \<lparr>cl_id = i, cl_productId = ''p1'', cl_quantity = q, cl_remaining = r, cl_unitCost = c,
     cl_receivedDate = date, cl_goodsReceiptId = None, cl_batchNumber = None, cl_isActive = (0 < r), cl_createdAt = 0\<rparr>"

definition sample_costs :: CostDb where
  "sample_costs = \<lparr>co_products = [''p1'', ''p2''],
     co_layers = [sample_layer ''l2'' 20 20 6 ''2026-02-01'', sample_layer ''l1'' 10 8 5 ''2026-01-01''],
     co_valuations = [\<lparr>pv_productId = ''p1'', pv_averageCost = 5, pv_lastCost = Some 6\<rparr>], co_seq = 2, co_now = 1, co_scan = rev\<rparr>"

lemma scaled_numeral [simp]: "scaled s (numeral n)" "scaled s 1"
proof -
  have "(numeral n :: rat) = of_int (numeral n * 10 ^ s) / 10 ^ s" "(1 :: rat) = of_int (10 ^ s) / 10 ^ s" by simp_all
  then show "scaled s (numeral n)" "scaled s 1" unfolding scaled_def by blast+
qed

lemma sample_costs_ok: "costs_ok sample_costs"
  by (simp add: costs_ok_def scan_ok_def sample_costs_def sample_layer_def layer_ok_def layer_check_def)

lemma sample_untied: "untied p sample_costs"
  by (simp add: untied_def product_layers_def in_stock_def layer_age_def sample_costs_def sample_layer_def)

lemma sample_stock: "layer_stock sample_costs ''p1'' = [(8, 5), (20, 6)]"
  by (simp add: layer_stock_def fifo_layers_def stock_rows_def layer_age_def sample_costs_def sample_layer_def)

lemma js_decimal_ten: "js_decimal 10 = 10" "js_decimal 30 = 30" "js_decimal 5 = 5" "js_decimal 0 = 0"
  by code_simp+

lemma no_third: "x \<noteq> Inr () \<Longrightarrow> \<forall>y. x \<noteq> Inl y \<Longrightarrow> False"
  by (cases x) auto

theorem deduction_is_fifo_witness:
  "layer_stock (snd (deductFromCostLayers rat_decimal ''p1'' (Fin 10) ''FIFO'' sample_costs)) ''p1'' = [(18, 6)]"
  using deduction_is_fifo [OF rat_decimal_exact sample_costs_ok, of 10 "''p1''"] sample_untied [of "''p1''"]
  by (simp add: js_decimal_ten sample_stock case_prod_unfold proper_of_scaled)

definition sample_deduction :: "rat \<Rightarrow> CostLayerDeduction" where
  "sample_deduction x = \<lparr>cd_productId = ''p1'', cd_quantity = Fin x, cd_costingMethod = ''FIFO''\<rparr>"

lemma sample_proper: "x \<in> {10, 30, 5} \<Longrightarrow> proper_deduction (sample_deduction x)"
  by (auto simp: proper_deduction_def sample_deduction_def js_decimal_ten)

theorem sale_lines_are_one_issue_witness:
  "case deduct_sale_layers rat_decimal [sample_deduction 10, sample_deduction 5] sample_costs of
     Inr db \<Rightarrow> layer_stock db ''p1'' = [(13, 6)] | _ \<Rightarrow> False"
proof -
  have "\<forall>x \<in> set [sample_deduction 10, sample_deduction 5]. proper_deduction x" by (simp add: sample_proper)
  from sale_lines_are_one_issue [OF rat_decimal_exact sample_costs_ok _ this refl] sample_untied
  show ?thesis
    by (auto split: sum.splits simp: sample_stock fifo_amount_def sample_deduction_def js_decimal_ten)
qed

theorem shortage_empties_layers_and_keeps_average_witness:
  "case deduct_sale_layers rat_decimal [sample_deduction 30] sample_costs of
     Inr db \<Rightarrow> layer_stock db ''p1'' = [] \<and> map pv_averageCost (co_valuations db) = [5] | _ \<Rightarrow> False"
proof -
  have "stock_quantity (layer_stock sample_costs ''p1'') < js_decimal 30" by (simp add: sample_stock js_decimal_ten)
  from shortage_empties_layers_and_keeps_average [OF rat_decimal_exact sample_costs_ok _ _ this]
  have "case deduct_sale_layers rat_decimal [sample_deduction 30] sample_costs of
     Inr db \<Rightarrow> layer_stock db ''p1'' = [] \<and> co_valuations db = co_valuations sample_costs | _ \<Rightarrow> False"
    by (simp add: js_decimal_ten sample_deduction_def)
  then show ?thesis by (auto split: sum.splits simp: sample_costs_def)
qed

theorem adjustments_deduct_like_sales_witness:
  "case consumeCostLayersFIFO rat_decimal ''p1'' (Fin 10) sample_costs of
     Inr (val, db) \<Rightarrow> val = 52 \<and> layer_stock db ''p1'' = [(18, 6)] | _ \<Rightarrow> False"
proof -
  have "max 0 (js_decimal 10) \<le> stock_quantity (layer_stock sample_costs ''p1'')" "stock_value (layer_stock sample_costs ''p1'') < 10 ^ 14"
    by (simp_all add: sample_stock js_decimal_ten)
  from adjustments_deduct_like_sales [OF rat_decimal_exact rat_times_exact sample_costs_ok _ _ this]
    deduct_stock [OF rat_decimal_exact sample_costs_ok _ _ sample_untied, where x = 10 and p = "''p1''" and p' = "''p1''"]
  show ?thesis by (auto split: sum.splits prod.splits simp: js_decimal_ten sample_stock dest: no_third)
qed

theorem fifo_cost_is_the_value_issued_witness:
  "case calculateActualCost rat_decimal ''p1'' (Fin 10) ''FIFO'' sample_costs of Inr r \<Rightarrow> cr_totalCost r = 52 | _ \<Rightarrow> False"
proof -
  have "stock_value (layer_stock sample_costs ''p1'') < 10 ^ 14" by (simp add: sample_stock)
  from fifo_cost_is_the_value_issued [OF rat_decimal_exact rat_times_exact sample_costs_ok _ _ this, of 10]
    deduct_stock [OF rat_decimal_exact sample_costs_ok _ _ sample_untied, where x = 10 and p = "''p1''" and p' = "''p1''"]
  show ?thesis by (auto split: sum.splits simp: js_decimal_ten sample_stock)
qed

definition sample_receipt :: CreateCostLayer where
  "sample_receipt = \<lparr>cc_productId = ''p1'', cc_quantity = Fin 10, cc_unitCost = Fin 5, cc_receivedDate = Some ''2026-01-15'',
     cc_goodsReceiptId = None, cc_batchNumber = None\<rparr>"

theorem receipt_extends_stock_witness:
  "case createCostLayer rat_decimal (\<lambda>n. ''g'') ''2026-03-01'' sample_receipt sample_costs of
     Inr db \<Rightarrow> layer_stock db ''p1'' = [(8, 5), (10, 5), (20, 6)] \<and> costs_ok db | _ \<Rightarrow> False"
proof -
  obtain db where db: "createCostLayer rat_decimal (\<lambda>n. ''g'') ''2026-03-01'' sample_receipt sample_costs = Inr db"
    by (simp add: createCostLayer_def insert_layer_def sample_receipt_def sample_costs_def sample_layer_def rat_decimal_def js_decimal_ten
        dec_lte0_def dec_zero_def numeric_15_def layer_check_def throw_if_def Let_def)
  have d: "cc_quantity sample_receipt = Fin 10" "cc_unitCost sample_receipt = Fin 5" "cc_productId sample_receipt = ''p1''"
    by (simp_all add: sample_receipt_def)
  note r = receipt_extends_stock [OF rat_decimal_exact sample_costs_ok d(1,2) db, unfolded d(3) Let_def]
  have k: "(str_or (cc_receivedDate sample_receipt) ''2026-03-01'', co_now sample_costs) = (''2026-01-15'', 1)"
    by (simp add: sample_receipt_def sample_costs_def)
  obtain l where l: "co_layers db = co_layers sample_costs @ [l]" "layer_age l = (''2026-01-15'', 1)" using r unfolding k by blast
  have u: "untied ''p1'' db" unfolding untied_def product_layers_def l(1)
    using l(2) by (simp add: in_stock_def sample_costs_def sample_layer_def) (simp add: layer_age_def)
  have f: "fifo_layers ''p1'' sample_costs = [sample_layer ''l1'' 10 8 5 ''2026-01-01'', sample_layer ''l2'' 20 20 6 ''2026-02-01'']"
    by (simp add: fifo_layers_def stock_rows_def layer_age_def sample_costs_def sample_layer_def)
  have "layer_stock db ''p1'' = [(8, 5), (10, 5), (20, 6)]"
    using r u unfolding k f by (simp add: js_decimal_ten layer_age_def sample_layer_def)
  then show ?thesis using r unfolding db by simp
qed


theorem average_among_layer_costs_witness:
  "list_all (\<lambda>r. 5 \<le> pv_averageCost r \<and> pv_averageCost r \<le> 6) (co_valuations (updateAverageCost rat_decimal ''p1'' sample_costs))"
proof -
  have b: "stock_quantity (layer_stock sample_costs ''p1'') < 10 ^ 16" "stock_value (layer_stock sample_costs ''p1'') < 10 ^ 14"
    by (simp_all add: sample_stock)
  have "pv_productId r = ''p1''" if "r \<in> set (co_valuations (updateAverageCost rat_decimal ''p1'' sample_costs))" for r
    using that by (auto simp: updateAverageCost_def update_valuation_def sample_costs_def split: prod.splits)
  then show ?thesis using average_among_layer_costs [OF rat_decimal_exact rat_div_between sample_costs_ok b]
    by (simp add: list_all_iff sample_stock)
qed

end
