(* ===== verification/TaxCompute.thy ===== *)
theory TaxCompute imports DecimalProducts
begin

section \<open>Tax arithmetic\<close>

text \<open>
  \<open>shared/utils/taxCompute.ts\<close>, which client and server share, and the sum of a document in
  \<open>services/taxEngine.ts\<close>. Amounts come as numbers. Inclusive taxes are taken out of the amount first,
  then exclusive taxes are added to what is left.
\<close>

subsection \<open>Data\<close>

datatype TaxType = PERCENTAGE | FIXED

record TaxDefinition =
  tx_id :: string
  tx_code :: string
  tx_name :: string
  tx_type :: TaxType
  tx_rate :: jnum
  tx_isInclusive :: bool
  tx_isCompound :: bool
  tx_sequence :: jnum
  tx_scope :: "string option"
  tx_payableAccount :: "string option"
  tx_receivableAccount :: "string option"
  tx_isActive :: bool

record TaxLine =
  tn_taxId :: string
  tn_taxCode :: string
  tn_taxName :: string
  tn_baseAmount :: jnum
  tn_taxAmount :: jnum
  tn_accountCode :: string
  tn_isInclusive :: bool

record TaxComputation =
  tc_untaxedAmount :: jnum
  tc_totalTax :: jnum
  tc_totalAmount :: jnum
  tc_taxLines :: "TaxLine list"

subsection \<open>One amount\<close>

definition tax_round :: "'d decimal_lib \<Rightarrow> 'd \<Rightarrow> 'd" where
  "tax_round D x = dl_toDP D 2 ROUND_HALF_UP x"

definition tax_account :: "bool \<Rightarrow> TaxDefinition \<Rightarrow> string" where
  "tax_account isSale t = str_or (if isSale then tx_payableAccount t else tx_receivableAccount t) ''2300''"

definition tax_line :: "'d decimal_lib \<Rightarrow> bool \<Rightarrow> bool \<Rightarrow> TaxDefinition \<Rightarrow> 'd \<Rightarrow> 'd \<Rightarrow> TaxLine" where
  "tax_line D isSale inclusive t base amount =
     \<lparr>tn_taxId = tx_id t, tn_taxCode = tx_code t, tn_taxName = tx_name t, tn_baseAmount = dl_toNumber D base,
      tn_taxAmount = dl_toNumber D amount, tn_accountCode = tax_account isSale t, tn_isInclusive = inclusive\<rparr>"

definition seq_compare :: "TaxDefinition \<Rightarrow> TaxDefinition \<Rightarrow> int" where
  "seq_compare a b = (let d = jsub (tx_sequence a) (tx_sequence b) in if jlt d (Fin 0) then -1 else if jlt (Fin 0) d then 1 else 0)"

definition tax_fraction :: "'d decimal_lib \<Rightarrow> TaxDefinition \<Rightarrow> 'd" where
  "tax_fraction D t = dl_div D (dl_of_num D (tx_rate t)) (dl_of_num D (Fin 100))"

definition fixed_tax :: "'d decimal_lib \<Rightarrow> jnum \<Rightarrow> TaxDefinition \<Rightarrow> 'd" where
  "fixed_tax D quantity t = dl_times D (dl_of_num D (tx_rate t)) (dl_of_num D quantity)"

text \<open>The loop over the inclusive taxes: the amount left, the combined rate, the lines of fixed taxes.\<close>

fun inclusive_loop ::
  "'d decimal_lib \<Rightarrow> jnum \<Rightarrow> bool \<Rightarrow> TaxDefinition list \<Rightarrow> 'd \<Rightarrow> 'd \<Rightarrow> 'd \<times> 'd \<times> TaxLine list" where
  "inclusive_loop D quantity isSale [] untaxed combined = (untaxed, combined, [])"
| "inclusive_loop D quantity isSale (t # ts) untaxed combined =
     (case tx_type t of
        FIXED \<Rightarrow>
          (let fixedTotal = fixed_tax D quantity t; left = dl_minus D untaxed fixedTotal;
               (u, c, ls) = inclusive_loop D quantity isSale ts left combined
           in (u, c, tax_line D isSale True t left fixedTotal # ls))
      | PERCENTAGE \<Rightarrow>
          (let rate = tax_fraction D t in
           inclusive_loop D quantity isSale ts untaxed
             (if tx_isCompound t then dl_plus D (dl_plus D combined rate) (dl_times D combined rate) else dl_plus D combined rate)))"

text \<open>The tax taken out, shared among the percentages; the last one gets what the others leave.\<close>

fun distribute_tax :: "'d decimal_lib \<Rightarrow> bool \<Rightarrow> 'd \<Rightarrow> 'd \<Rightarrow> TaxDefinition list \<Rightarrow> 'd \<Rightarrow> TaxLine list" where
  "distribute_tax D isSale base whole [] distributed = []"
| "distribute_tax D isSale base whole (t # ts) distributed =
     (let amount = (if ts = [] then dl_minus D whole distributed else tax_round D (dl_times D base (tax_fraction D t)))
      in tax_line D isSale True t base amount # distribute_tax D isSale base whole ts (dl_plus D distributed amount))"

definition extract_inclusive ::
  "'d decimal_lib \<Rightarrow> jnum \<Rightarrow> bool \<Rightarrow> TaxDefinition list \<Rightarrow> 'd \<Rightarrow> 'd \<times> TaxLine list" where
  "extract_inclusive D quantity isSale ts amount =
     (let (untaxed, combined, ls) = inclusive_loop D quantity isSale ts amount (dl_of_num D (Fin 0)) in
      if dl_lt D (dl_of_num D (Fin 0)) combined
      then let base = tax_round D (dl_div D untaxed (dl_plus D combined (dl_of_num D (Fin 1)))) in
        (base, ls @ distribute_tax D isSale base (dl_minus D untaxed base) (filter (\<lambda>t. tx_type t = PERCENTAGE) ts) (dl_of_num D (Fin 0)))
      else (untaxed, ls))"

fun exclusive_loop :: "'d decimal_lib \<Rightarrow> jnum \<Rightarrow> bool \<Rightarrow> 'd \<Rightarrow> TaxDefinition list \<Rightarrow> 'd \<Rightarrow> TaxLine list" where
  "exclusive_loop D quantity isSale untaxed [] running = []"
| "exclusive_loop D quantity isSale untaxed (t # ts) running =
     (let base = (if tx_isCompound t then running else untaxed);
          amount = tax_round D (case tx_type t of FIXED \<Rightarrow> fixed_tax D quantity t | PERCENTAGE \<Rightarrow> dl_times D base (tax_fraction D t))
      in tax_line D isSale False t base amount # exclusive_loop D quantity isSale untaxed ts (dl_plus D running amount))"

definition sum_numbers :: "'d decimal_lib \<Rightarrow> jnum list \<Rightarrow> 'd" where
  "sum_numbers D xs = foldl (\<lambda>s x. dl_plus D s (dl_of_num D x)) (dl_of_num D (Fin 0)) xs"

definition active_taxes :: "TaxDefinition list \<Rightarrow> TaxDefinition list" where
  "active_taxes taxes = js_sort seq_compare (filter tx_isActive taxes)"

definition computeTaxes :: "'d decimal_lib \<Rightarrow> jnum \<Rightarrow> TaxDefinition list \<Rightarrow> jnum \<Rightarrow> bool \<Rightarrow> TaxComputation" where
  "computeTaxes D amount taxes quantity isSale =
     (let original = dl_of_num D (num_or amount (Fin 0)) in
      if taxes = [] then
        \<lparr>tc_untaxedAmount = dl_toNumber D original, tc_totalTax = Fin 0, tc_totalAmount = dl_toNumber D original, tc_taxLines = []\<rparr>
      else if dl_isZero D original \<and> \<not> (\<exists>t \<in> set taxes. tx_isActive t \<and> tx_type t = FIXED) then
        \<lparr>tc_untaxedAmount = Fin 0, tc_totalTax = Fin 0, tc_totalAmount = Fin 0, tc_taxLines = []\<rparr>
      else
        let inclusive = filter tx_isInclusive (active_taxes taxes);
            exclusive = filter (\<lambda>t. \<not> tx_isInclusive t) (active_taxes taxes);
            (untaxed, ls) = extract_inclusive D quantity isSale inclusive original;
            lines = ls @ exclusive_loop D quantity isSale untaxed exclusive untaxed;
            totalTax = sum_numbers D (map tn_taxAmount lines)
        in \<lparr>tc_untaxedAmount = dl_toNumber D untaxed, tc_totalTax = dl_toNumber D totalTax,
            tc_totalAmount = dl_toNumber D (if exclusive = [] then original else dl_plus D untaxed totalTax), tc_taxLines = lines\<rparr>)"

subsection \<open>A document\<close>

text \<open>Lines with the id of a tax seen before are added to its first line.\<close>

fun merge_tax_line :: "(jnum \<Rightarrow> jnum \<Rightarrow> jnum) \<Rightarrow> TaxLine \<Rightarrow> TaxLine list \<Rightarrow> TaxLine list" where
  "merge_tax_line add l [] = [l]"
| "merge_tax_line add l (m # ms) =
     (if tn_taxId m = tn_taxId l
      then m\<lparr>tn_baseAmount := add (tn_baseAmount m) (tn_baseAmount l), tn_taxAmount := add (tn_taxAmount m) (tn_taxAmount l)\<rparr> # ms
      else m # merge_tax_line add l ms)"

definition decimal_sum :: "'d decimal_lib \<Rightarrow> jnum \<Rightarrow> jnum \<Rightarrow> jnum" where
  "decimal_sum D a b = dl_toNumber D (dl_plus D (dl_of_num D a) (dl_of_num D b))"

definition computeDocumentTaxes ::
  "'d decimal_lib \<Rightarrow> (jnum \<times> jnum) list \<Rightarrow> TaxDefinition list \<Rightarrow> bool \<Rightarrow> TaxComputation list \<times> TaxComputation" where
  "computeDocumentTaxes D lines taxes isSale =
     (let results = map (\<lambda>(amount, quantity). computeTaxes D amount taxes quantity isSale) lines;
          untaxed = sum_numbers D (map tc_untaxedAmount results);
          tax = sum_numbers D (map tc_totalTax results)
      in (results, \<lparr>tc_untaxedAmount = dl_toNumber D untaxed, tc_totalTax = dl_toNumber D tax,
            tc_totalAmount = dl_toNumber D (dl_plus D untaxed tax),
            tc_taxLines = fold (merge_tax_line (decimal_sum D)) (concat (map tc_taxLines results)) []\<rparr>))"

end
