(* ===== verification/TaxPreview.thy ===== *)
theory TaxPreview imports TaxCompute
begin

section \<open>Tax determination\<close>

text \<open>
  \<open>shared/utils/documentTaxPreview.ts\<close>: which taxes a line bears, and the tax of a document as the client
  shows it. Dates are ISO strings; \<open>today\<close> is the clock's. The mappings of the context are a function.
\<close>

subsection \<open>Text of a number\<close>

text \<open>\<open>String(x)\<close> of a number: the digits of its shortest decimal, in positional notation between
  \<open>10^-6\<close> and \<open>10^21\<close>, with an exponent otherwise.\<close>

fun decimal_places :: "nat \<Rightarrow> rat \<Rightarrow> nat" where
  "decimal_places 0 r = 0"
| "decimal_places (Suc n) r = (if r = of_int \<lfloor>r\<rfloor> then 0 else Suc (decimal_places n (10 * r)))"

definition drop_zeros :: "string \<Rightarrow> string" where
  "drop_zeros s = rev (dropWhile (\<lambda>c. c = CHR ''0'') (rev s))"

definition positive_text :: "rat \<Rightarrow> string" where
  "positive_text r =
     (let p = decimal_places 1400 r; m = \<lfloor>r * 10 ^ p\<rfloor>; ds = show_nat (nat m); e = int (length ds) - int p - 1 in
      if 10 ^ 21 \<le> r \<or> r < 1 / 10 ^ 6 then
        (case drop_zeros ds of [] \<Rightarrow> [] | c # cs \<Rightarrow>
           c # (if cs = [] then [] else CHR ''.'' # cs) @ ''e'' @ (if 0 \<le> e then ''+'' else []) @ show_int e)
      else show_int \<lfloor>r\<rfloor> @ (if p = 0 then [] else CHR ''.'' # pad_digits p (m mod 10 ^ p)))"

fun number_text :: "jnum \<Rightarrow> string" where
  "number_text NaN = ''NaN''"
| "number_text (Fin a) = (if a = 0 then ''0'' else if a < 0 then CHR ''-'' # positive_text (js_decimal (- a)) else positive_text (js_decimal a))"
| "number_text x = (if jlt x (Fin 0) then ''-Infinity'' else ''Infinity'')"

subsection \<open>Context\<close>

datatype TaxDetermination = EXEMPT | MAPPING | BRIDGE | TENANT_DEFAULT | NONE | DISABLED | OVERRIDE

datatype TaxOverride = FORCE_EXEMPT | FORCE_RATE "jnum option"

record TaxDocumentLine =
  tq_productId :: "string option"
  tq_lineNetAmount :: jnum
  tq_quantity :: "jnum option"
  tq_isTaxable :: "bool option"
  tq_taxRate :: "jnum option"

record CustomerTaxProfile =
  tz_vatRegistered :: "bool option"
  tz_taxExempt :: "bool option"
  tz_taxProfile :: "string option"
  tz_defaultVatRate :: "jnum option"
  tz_taxEffectiveFrom :: "string option"
  tz_vatRegistrationDate :: "string option"

record TaxContext =
  tk_customerExempt :: bool
  tk_customerProfile :: "CustomerTaxProfile option"
  tk_vatOutputRequiresRegisteredCustomer :: bool
  tk_documentDate :: "string option"
  tk_productMappings :: "string \<Rightarrow> TaxDefinition list option"
  tk_taxCatalog :: "TaxDefinition list"
  tk_applyTenantDefault :: bool
  tk_preferLine :: bool
  tk_taxEnabled :: "bool option"
  tk_taxInclusive :: bool
  tk_defaultTaxRate :: "jnum option"
  tk_scopeIsSale :: "bool option"
  tk_customerDefaultVatRate :: "jnum option"
  tk_taxOverride :: "TaxOverride option"

record TaxLineResult =
  tw_determination :: TaxDetermination
  tw_taxes :: "TaxDefinition list"
  tw_computation :: TaxComputation

record TaxPreviewResult =
  tv_lineResults :: "TaxLineResult list"
  tv_totalTax :: jnum
  tv_untaxedAmount :: jnum
  tv_totalAmount :: jnum
  tv_customerExempt :: bool

subsection \<open>Rules\<close>

text \<open>\<open>Number(x)\<close> of a number that may be missing, and \<open>x > 0\<close> on it.\<close>

definition rate_of :: "jnum option \<Rightarrow> jnum" where
  "rate_of x = coalesce x NaN"

definition positive_rate :: "jnum option \<Rightarrow> bool" where
  "positive_rate x \<longleftrightarrow> jlt (Fin 0) (rate_of x)"

definition is_hex :: "char \<Rightarrow> bool" where
  "is_hex c \<longleftrightarrow> hex_val c \<noteq> None"

definition uuid_like :: "string \<Rightarrow> bool" where
  "uuid_like s \<longleftrightarrow> length s = 36 \<and> list_all (\<lambda>(i, c). if i \<in> {8, 13, 18, 23} then c = CHR ''-'' else is_hex c) (zip [0..<36] s)"

definition isUuidProductId :: "string option \<Rightarrow> bool" where
  "isUuidProductId pid \<longleftrightarrow>
     (if \<not> truthy_str pid then False else if js_starts_with (the pid) ''custom_'' then False else uuid_like (the pid))"

definition bridgeTaxDefinition :: "jnum \<Rightarrow> TaxDefinition list \<Rightarrow> TaxDefinition" where
  "bridgeTaxDefinition rate catalog =
     (case find (\<lambda>t. tx_type t = PERCENTAGE \<and> \<not> tx_isInclusive t \<and> \<not> tx_isCompound t \<and> jeq (tx_rate t) rate
         \<and> tx_code t \<noteq> ''EXEMPT'' \<and> tx_isActive t) catalog of
        Some t \<Rightarrow> t
      | None \<Rightarrow> \<lparr>tx_id = ''bridge:rate:'' @ number_text rate, tx_code = ''BRIDGE_'' @ number_text rate,
          tx_name = ''VAT '' @ number_text rate @ ''%'', tx_type = PERCENTAGE, tx_rate = rate, tx_isInclusive = False, tx_isCompound = False,
          tx_sequence = Fin 10, tx_scope = Some ''SALE'', tx_payableAccount = Some ''2300'', tx_receivableAccount = Some ''2300'', tx_isActive = True\<rparr>)"

definition profileIsVatRegisteredActive :: "string \<Rightarrow> CustomerTaxProfile option \<Rightarrow> string option \<Rightarrow> bool" where
  "profileIsVatRegisteredActive today profile documentDate =
     (case profile of
        None \<Rightarrow> False
      | Some c \<Rightarrow>
          if \<not> (tz_vatRegistered c = Some True \<or> tz_taxProfile c = Some ''VAT_REGISTERED'') then False
          else let asOf = str_or documentDate today;
                   effective = (if truthy_str (tz_taxEffectiveFrom c) then tz_taxEffectiveFrom c else tz_vatRegistrationDate c)
               in \<not> (truthy_str effective \<and> asOf < the effective))"

definition resolveCustomerTaxGate :: "string \<Rightarrow> TaxContext \<Rightarrow> TaxDetermination option" where
  "resolveCustomerTaxGate today ctx =
     (let profile = tk_customerProfile ctx; has = (\<lambda>P. case profile of None \<Rightarrow> False | Some c \<Rightarrow> P c) in
      if tk_customerExempt ctx \<or> has (\<lambda>c. tz_taxExempt c = Some True) \<or> has (\<lambda>c. tz_taxProfile c = Some ''EXEMPT'') then Some EXEMPT
      else if has (\<lambda>c. tz_taxProfile c = Some ''ZERO_RATED'') then Some NONE
      else if tk_vatOutputRequiresRegisteredCustomer ctx \<and> \<not> profileIsVatRegisteredActive today profile (tk_documentDate ctx) then Some NONE
      else None)"

definition resolvePreferLineTaxes ::
  "TaxDocumentLine \<Rightarrow> TaxDefinition list \<Rightarrow> (TaxDefinition list \<times> TaxDetermination) option" where
  "resolvePreferLineTaxes line catalog =
     (case tq_isTaxable line of
        None \<Rightarrow> None
      | Some False \<Rightarrow> Some ([], NONE)
      | Some True \<Rightarrow> if positive_rate (tq_taxRate line) then Some ([bridgeTaxDefinition (rate_of (tq_taxRate line)) catalog], BRIDGE) else None)"

definition taxesForPriceMode :: "TaxDefinition list \<Rightarrow> bool \<Rightarrow> TaxDefinition list" where
  "taxesForPriceMode taxes taxInclusive =
     (if \<not> taxInclusive \<or> taxes = [] then taxes
      else map (\<lambda>t. if tx_type t = PERCENTAGE \<and> \<not> tx_isInclusive t then t\<lparr>tx_isInclusive := True\<rparr> else t) taxes)"

definition customer_rate :: "TaxContext \<Rightarrow> jnum option" where
  "customer_rate ctx =
     (case tk_customerDefaultVatRate ctx of
        Some r \<Rightarrow> Some r
      | None \<Rightarrow> (case tk_customerProfile ctx of None \<Rightarrow> None | Some c \<Rightarrow> tz_defaultVatRate c))"

definition resolvePreviewLineTaxes :: "string \<Rightarrow> TaxDocumentLine \<Rightarrow> TaxContext \<Rightarrow> TaxDefinition list \<times> TaxDetermination" where
  "resolvePreviewLineTaxes today line ctx =
     (let catalog = tk_taxCatalog ctx; mode = (\<lambda>ts. taxesForPriceMode ts (tk_taxInclusive ctx));
          preferred = (if tk_preferLine ctx then resolvePreferLineTaxes line catalog else None);
          mapped = (if isUuidProductId (tq_productId line) then tk_productMappings ctx (the (tq_productId line)) else None);
          customerRate = customer_rate ctx in
      if tk_applyTenantDefault ctx \<and> tk_taxEnabled ctx = Some False then ([], DISABLED)
      else case resolveCustomerTaxGate today ctx of
        Some g \<Rightarrow> ([], g)
      | None \<Rightarrow>
          if tk_customerExempt ctx then ([], EXEMPT)
          else if preferred \<noteq> None then (mode (fst (the preferred)), snd (the preferred))
          else if tq_isTaxable line = Some False then ([], NONE)
          else if mapped \<noteq> None \<and> mapped \<noteq> Some [] then (mode (the mapped), MAPPING)
          else if tq_isTaxable line = Some True \<and> positive_rate (tq_taxRate line)
            then (mode [bridgeTaxDefinition (rate_of (tq_taxRate line)) catalog], BRIDGE)
          else if positive_rate customerRate \<and> profileIsVatRegisteredActive today (tk_customerProfile ctx) (tk_documentDate ctx)
            then (mode [bridgeTaxDefinition (rate_of customerRate) catalog], BRIDGE)
          else if tk_applyTenantDefault ctx \<and> positive_rate (tk_defaultTaxRate ctx)
            then (mode [bridgeTaxDefinition (rate_of (tk_defaultTaxRate ctx)) catalog], TENANT_DEFAULT)
          else ([], NONE))"

subsection \<open>Document\<close>

definition line_quantity :: "TaxDocumentLine \<Rightarrow> jnum" where
  "line_quantity line = num_or (rate_of (tq_quantity line)) (Fin 1)"

definition line_result :: "'d decimal_lib \<Rightarrow> bool \<Rightarrow> TaxDocumentLine \<Rightarrow> TaxDefinition list \<times> TaxDetermination \<Rightarrow> TaxLineResult" where
  "line_result D isSale line r =
     \<lparr>tw_determination = snd r, tw_taxes = fst r, tw_computation = computeTaxes D (tq_lineNetAmount line) (fst r) (line_quantity line) isSale\<rparr>"

definition aggregate_preview :: "'d decimal_lib \<Rightarrow> TaxLineResult list \<Rightarrow> bool \<Rightarrow> TaxPreviewResult" where
  "aggregate_preview D rs customerExempt =
     (let untaxed = sum_numbers D (map (\<lambda>r. tc_untaxedAmount (tw_computation r)) rs);
          tax = sum_numbers D (map (\<lambda>r. tc_totalTax (tw_computation r)) rs);
          totalTax = dl_toNumber D (tax_round D tax)
      in \<lparr>tv_lineResults = rs, tv_totalTax = totalTax, tv_untaxedAmount = dl_toNumber D untaxed,
          tv_totalAmount = dl_toNumber D (dl_plus D untaxed (dl_of_num D totalTax)), tv_customerExempt = customerExempt\<rparr>)"

definition override_taxes :: "TaxOverride \<Rightarrow> TaxDefinition list \<Rightarrow> bool \<Rightarrow> TaxDefinition list" where
  "override_taxes ov catalog taxInclusive =
     (case ov of
        FORCE_EXEMPT \<Rightarrow> []
      | FORCE_RATE r \<Rightarrow>
          (let rate = coalesce r (Fin 0) in taxesForPriceMode (if jlt (Fin 0) rate then [bridgeTaxDefinition rate catalog] else []) taxInclusive))"

definition applyDocumentTaxOverride :: "'d decimal_lib \<Rightarrow> TaxDocumentLine list \<Rightarrow> TaxOverride \<Rightarrow> TaxContext \<Rightarrow> TaxPreviewResult" where
  "applyDocumentTaxOverride D lines ov ctx =
     aggregate_preview D (map (\<lambda>l. line_result D (tk_scopeIsSale ctx \<noteq> Some False) l
       (override_taxes ov (tk_taxCatalog ctx) (tk_taxInclusive ctx), OVERRIDE)) lines) False"

definition previewDocumentTax :: "'d decimal_lib \<Rightarrow> string \<Rightarrow> TaxDocumentLine list \<Rightarrow> TaxContext \<Rightarrow> TaxPreviewResult" where
  "previewDocumentTax D today lines ctx =
     (let sale = (tk_scopeIsSale ctx \<noteq> Some False); untaxed = (\<lambda>g. map (\<lambda>l. line_result D sale l ([], g)) lines);
          gate = resolveCustomerTaxGate today ctx in
      case tk_taxOverride ctx of
        Some ov \<Rightarrow> applyDocumentTaxOverride D lines ov ctx
      | None \<Rightarrow>
          if tk_applyTenantDefault ctx \<and> tk_taxEnabled ctx = Some False then aggregate_preview D (untaxed DISABLED) False
          else if gate = Some EXEMPT \<or> tk_customerExempt ctx then aggregate_preview D (untaxed EXEMPT) True
          else if gate = Some NONE then aggregate_preview D (untaxed NONE) False
          else aggregate_preview D (map (\<lambda>l. line_result D sale l (resolvePreviewLineTaxes today l ctx)) lines) False)"

record PosCartItem =
  ci_productId :: "string option"
  ci_subtotal :: jnum
  ci_quantity :: "jnum option"
  ci_isTaxable :: "bool option"
  ci_taxRate :: "jnum option"

definition previewPosCartTax :: "'d decimal_lib \<Rightarrow> string \<Rightarrow> PosCartItem list \<Rightarrow> TaxContext \<Rightarrow> jnum" where
  "previewPosCartTax D today items ctx =
     tv_totalTax (previewDocumentTax D today
       (map (\<lambda>i. \<lparr>tq_productId = ci_productId i, tq_lineNetAmount = ci_subtotal i, tq_quantity = Some (coalesce (ci_quantity i) (Fin 1)),
          tq_isTaxable = ci_isTaxable i, tq_taxRate = ci_taxRate i\<rparr>) items)
       (ctx\<lparr>tk_preferLine := False, tk_applyTenantDefault := False\<rparr>))"

subsection \<open>Charge\<close>

definition saleChargeTotal :: "'d decimal_lib \<Rightarrow> jnum \<Rightarrow> jnum \<Rightarrow> bool \<Rightarrow> jnum" where
  "saleChargeTotal D subtotalAfterDiscount totalTax taxInclusive =
     (let after = dl_of_num D (num_or subtotalAfterDiscount (Fin 0)) in
      dl_toNumber D (tax_round D (if taxInclusive then after else dl_plus D after (dl_of_num D (num_or totalTax (Fin 0))))))"

datatype PriceModeMatch = MODE_EXCLUSIVE | MODE_INCLUSIVE | MODE_AMBIGUOUS | MODE_MISMATCH

record HeaderCheck =
  hc_ok :: bool
  hc_exclusiveTotal :: jnum
  hc_inclusiveTotal :: jnum
  hc_mode :: PriceModeMatch

definition isSaleHeaderTotalConsistent ::
  "'d decimal_lib \<Rightarrow> jnum \<Rightarrow> jnum option \<Rightarrow> jnum \<Rightarrow> jnum \<Rightarrow> jnum option \<Rightarrow> HeaderCheck" where
  "isSaleHeaderTotalConsistent D subtotal discountAmount taxAmount totalAmount tolerance =
     (let tol = coalesce tolerance (lit (2 / 100));
          after = dl_minus D (dl_of_num D (num_or subtotal (Fin 0))) (dl_of_num D (num_or (rate_of discountAmount) (Fin 0)));
          exclusiveTotal = dl_toNumber D (tax_round D (dl_plus D after (dl_of_num D (num_or taxAmount (Fin 0)))));
          inclusiveTotal = dl_toNumber D (tax_round D after);
          near = (\<lambda>x. \<not> dl_lt D (dl_of_num D tol) (dl_abs D (dl_minus D (dl_of_num D (num_or totalAmount (Fin 0))) (dl_of_num D x))));
          mode = (if near exclusiveTotal \<and> near inclusiveTotal then MODE_AMBIGUOUS else if near inclusiveTotal then MODE_INCLUSIVE
            else if near exclusiveTotal then MODE_EXCLUSIVE else MODE_MISMATCH)
      in \<lparr>hc_ok = (mode \<noteq> MODE_MISMATCH), hc_exclusiveTotal = exclusiveTotal, hc_inclusiveTotal = inclusiveTotal, hc_mode = mode\<rparr>)"

end
