(* ===== verification/TaxService.thy ===== *)
theory TaxService imports TaxPreview
begin

section \<open>Taxes of documents on the server\<close>

text \<open>
  \<open>services/documentTaxService.ts\<close> and \<open>services/documentTaxRepository.ts\<close> on the tables of
  \<open>20260615_enterprise_accounting_tables.sql\<close> and \<open>582_customer_tax_profile.sql\<close>. A UUID column is returned as
  lower-case text and compares without case. Rates are read as the nearest double of the column. Log
  output is left out; a row of \<open>product_tax_mappings\<close> is the pair of its columns. Definitions are ordered by their
  sequence; in which order the database returns those of one sequence is a parameter of the tables (\<open>tb_scan\<close>),
  of which the claims need at most that it returns each row once. One date stands for the business date and the dates
  of the clock and of the database.
\<close>

subsection \<open>Tables\<close>

record TaxDefinitionRow =
  dr_id :: string
  dr_code :: string
  dr_name :: string
  dr_type :: TaxType
  dr_rate :: rat
  dr_isInclusive :: bool
  dr_isCompound :: bool
  dr_sequence :: int
  dr_scope :: string
  dr_payableAccount :: string
  dr_receivableAccount :: string
  dr_isActive :: bool

record TaxExemptionRow =
  ex_customerId :: string
  ex_isActive :: bool
  ex_validFrom :: "string option"
  ex_validUntil :: "string option"

record CustomerTaxProfileRow =
  cu_customerId :: string
  cu_isActive :: bool
  cu_vatRegistered :: bool
  cu_tin :: "string option"
  cu_taxProfile :: string
  cu_defaultVatRate :: "rat option"
  cu_vatRegistrationDate :: "string option"
  cu_taxEffectiveFrom :: "string option"
  cu_taxExempt :: bool
  cu_allowTaxOverride :: bool

record ProductTaxRow =
  px_id :: string
  px_isTaxable :: "bool option"
  px_taxRate :: "rat option"

record TaxSettings =
  ts_taxEnabled :: bool
  ts_taxInclusive :: bool
  ts_defaultTaxRate :: rat
  ts_vatOutputRequiresRegisteredCustomer :: bool

record TaxDb =
  tb_settings :: "TaxSettings option"
  tb_definitions :: "TaxDefinitionRow list"
  tb_mappings :: "(string \<times> string) list"
  tb_exemptions :: "TaxExemptionRow list"
  tb_customers :: "CustomerTaxProfileRow list"
  tb_products :: "ProductTaxRow list"
  tb_scan :: "TaxDefinitionRow list \<Rightarrow> TaxDefinitionRow list"

datatype TaxRepoError = INVALID_TAX_DEFINITION | PRODUCT_NOT_FOUND

subsection \<open>Repository\<close>

definition mapTaxDefinitionRow :: "TaxDefinitionRow \<Rightarrow> TaxDefinition" where
  "mapTaxDefinitionRow r =
     \<lparr>tx_id = dr_id r, tx_code = dr_code r, tx_name = dr_name r, tx_type = dr_type r, tx_rate = js_round_rat (dr_rate r),
      tx_isInclusive = dr_isInclusive r, tx_isCompound = dr_isCompound r, tx_sequence = js_round_rat (of_int (dr_sequence r)),
      tx_scope = Some (dr_scope r), tx_payableAccount = Some (str_or (Some (dr_payableAccount r)) ''2300''),
      tx_receivableAccount = Some (str_or (Some (dr_receivableAccount r)) ''2300''), tx_isActive = dr_isActive r\<rparr>"

definition in_scope :: "string \<Rightarrow> TaxDefinitionRow \<Rightarrow> bool" where
  "in_scope scope r \<longleftrightarrow> dr_isActive r \<and> (dr_scope r = scope \<or> dr_scope r = ''BOTH'')"

text \<open>\<open>ORDER BY sequence\<close>.\<close>

definition by_sequence :: "TaxDb \<Rightarrow> TaxDefinitionRow list \<Rightarrow> TaxDefinitionRow list" where
  "by_sequence db rows = sort_key dr_sequence (tb_scan db rows)"

definition loadActiveTaxDefinitions :: "string \<Rightarrow> TaxDb \<Rightarrow> TaxDefinition list" where
  "loadActiveTaxDefinitions scope db = map mapTaxDefinitionRow (by_sequence db (filter (in_scope scope) (tb_definitions db)))"

definition isCustomerTaxExempt :: "string \<Rightarrow> string \<Rightarrow> TaxDb \<Rightarrow> bool" where
  "isCustomerTaxExempt customerId asOfDate db \<longleftrightarrow>
     (\<exists>e \<in> set (tb_exemptions db). ex_customerId e = js_lower customerId \<and> ex_isActive e
       \<and> (case ex_validFrom e of None \<Rightarrow> True | Some d \<Rightarrow> d \<le> asOfDate) \<and> (case ex_validUntil e of None \<Rightarrow> True | Some d \<Rightarrow> asOfDate \<le> d))"

definition mapped_rows :: "string \<Rightarrow> TaxDb \<Rightarrow> TaxDefinitionRow list" where
  "mapped_rows p db = List.map_filter (\<lambda>m. if fst m = p then find (\<lambda>r. dr_id r = snd m) (tb_definitions db) else None) (tb_mappings db)"

definition loadProductTaxMappings :: "string list \<Rightarrow> string \<Rightarrow> TaxDb \<Rightarrow> string \<Rightarrow> TaxDefinition list option" where
  "loadProductTaxMappings ids scope db = (\<lambda>p.
     (let rows = by_sequence db (filter (in_scope scope) (mapped_rows p db)) in
      if p \<in> js_lower ` set ids \<and> rows \<noteq> [] then Some (map mapTaxDefinitionRow rows) else None))"

definition listProductTaxMappings :: "string \<Rightarrow> TaxDb \<Rightarrow> TaxDefinition list" where
  "listProductTaxMappings p db = map mapTaxDefinitionRow (by_sequence db (filter dr_isActive (mapped_rows (js_lower p) db)))"

definition replaceProductTaxMappings :: "string \<Rightarrow> string list \<Rightarrow> TaxDb \<Rightarrow> (TaxRepoError, TaxDefinition list \<times> TaxDb) result" where
  "replaceProductTaxMappings p taxIds db =
     (let uniqueIds = rev (remdups (rev (filter (\<lambda>i. i \<noteq> []) taxIds)));
          found = filter (\<lambda>r. dr_id r \<in> js_lower ` set uniqueIds \<and> dr_isActive r) (tb_definitions db) in
      and_then (throw_if (uniqueIds \<noteq> [] \<and> length found \<noteq> length uniqueIds) INVALID_TAX_DEFINITION) (\<lambda>_.
      and_then (throw_if (js_lower p \<notin> set (map px_id (tb_products db))) PRODUCT_NOT_FOUND) (\<lambda>_.
      let kept = filter (\<lambda>m. fst m \<noteq> js_lower p) (tb_mappings db);
          db = db\<lparr>tb_mappings := kept @ map (\<lambda>i. (js_lower p, js_lower i)) uniqueIds\<rparr>
      in Inr (listProductTaxMappings p db, db))))"

definition loadCustomerTaxProfile :: "string \<Rightarrow> TaxDb \<Rightarrow> CustomerTaxProfileRow option" where
  "loadCustomerTaxProfile customerId db = find (\<lambda>c. cu_customerId c = js_lower customerId) (tb_customers db)"

text \<open>\<open>loadProductTaxBridge\<close>: taxable flag and rate of a product.\<close>

definition loadProductTaxBridge :: "string list \<Rightarrow> TaxDb \<Rightarrow> string \<Rightarrow> (bool \<times> jnum) option" where
  "loadProductTaxBridge ids db = (\<lambda>p. if p \<in> js_lower ` set ids
     then map_option (\<lambda>r. (coalesce (px_isTaxable r) False, js_round_rat (coalesce (px_taxRate r) 0))) (find (\<lambda>r. px_id r = p) (tb_products db))
     else None)"

record TaxPreviewSnapshot =
  sp_definitions :: "TaxDefinition list"
  sp_productMappings :: "(string \<times> TaxDefinition list) list"
  sp_exemptCustomerIds :: "string list"
  sp_customerProfiles :: "(string \<times> CustomerTaxProfile) list"
  sp_taxEnabled :: bool
  sp_taxInclusive :: bool
  sp_defaultTaxRate :: jnum
  sp_vatOutputRequiresRegisteredCustomer :: bool

definition profile_of_row :: "CustomerTaxProfileRow \<Rightarrow> CustomerTaxProfile" where
  "profile_of_row c =
     \<lparr>tz_vatRegistered = Some (cu_vatRegistered c), tz_taxExempt = Some (cu_taxExempt c), tz_taxProfile = Some (str_or (Some (cu_taxProfile c)) ''STANDARD''),
      tz_defaultVatRate = map_option js_round_rat (cu_defaultVatRate c), tz_taxEffectiveFrom = cu_taxEffectiveFrom c,
      tz_vatRegistrationDate = cu_vatRegistrationDate c\<rparr>"

definition loadTaxPreviewSnapshot :: "string \<Rightarrow> string \<Rightarrow> TaxDb \<Rightarrow> TaxPreviewSnapshot" where
  "loadTaxPreviewSnapshot today scope db =
     (let pids = sort (remdups (map fst (tb_mappings db)));
          profiles = filter (\<lambda>c. cu_isActive c \<and> (cu_vatRegistered c \<or> cu_taxExempt c \<or> cu_taxProfile c \<noteq> ''STANDARD'' \<or> cu_allowTaxOverride c)) (tb_customers db)
      in \<lparr>sp_definitions = loadActiveTaxDefinitions scope db,
          sp_productMappings = List.map_filter (\<lambda>p. map_option (Pair p) (loadProductTaxMappings pids scope db p)) pids,
          sp_exemptCustomerIds = remdups (map ex_customerId (filter (\<lambda>e. isCustomerTaxExempt (ex_customerId e) today db) (tb_exemptions db))
            @ map cu_customerId (filter cu_taxExempt profiles)),
          sp_customerProfiles = map (\<lambda>c. (cu_customerId c, (profile_of_row c)\<lparr>tz_taxEffectiveFrom := None, tz_vatRegistrationDate := None\<rparr>)) profiles,
          sp_taxEnabled = (case tb_settings db of None \<Rightarrow> False | Some s \<Rightarrow> ts_taxEnabled s),
          sp_taxInclusive = (case tb_settings db of None \<Rightarrow> False | Some s \<Rightarrow> ts_taxInclusive s),
          sp_defaultTaxRate = (case tb_settings db of None \<Rightarrow> Fin 0 | Some s \<Rightarrow> js_round_rat (ts_defaultTaxRate s)),
          sp_vatOutputRequiresRegisteredCustomer = (case tb_settings db of None \<Rightarrow> False | Some s \<Rightarrow> ts_vatOutputRequiresRegisteredCustomer s)\<rparr>)"

subsection \<open>Determination\<close>

record DocumentTaxInput =
  di_customerId :: "string option"
  di_documentDate :: "string option"
  di_scope :: "string option"
  di_lines :: "TaxDocumentLine list"
  di_applyTenantDefault :: bool
  di_preferLine :: bool
  di_taxOverride :: "TaxOverride option"

record DocumentTaxResult =
  dx_lineResults :: "TaxLineResult list"
  dx_documentTotals :: TaxComputation
  dx_customerExempt :: bool
  dx_taxEnabled :: bool
  dx_taxInclusive :: bool
  dx_taxOverrideApplied :: bool

text \<open>The context the server passes to the shared rules for one line.\<close>

definition server_context ::
  "TaxDefinition list \<Rightarrow> (string \<Rightarrow> TaxDefinition list option) \<Rightarrow> jnum \<Rightarrow> bool \<Rightarrow> bool \<Rightarrow> CustomerTaxProfileRow option \<Rightarrow> string \<Rightarrow> bool \<Rightarrow> TaxContext" where
  "server_context catalog mappings defaultTaxRate applyTenantDefault preferLine profile documentDate taxInclusive =
     \<lparr>tk_customerExempt = False, tk_customerProfile = map_option profile_of_row profile, tk_vatOutputRequiresRegisteredCustomer = False,
      tk_documentDate = Some documentDate, tk_productMappings = mappings, tk_taxCatalog = catalog, tk_applyTenantDefault = applyTenantDefault,
      tk_preferLine = preferLine, tk_taxEnabled = Some True, tk_taxInclusive = taxInclusive, tk_defaultTaxRate = Some defaultTaxRate,
      tk_scopeIsSale = None, tk_customerDefaultVatRate = Option.bind profile (\<lambda>c. map_option js_round_rat (cu_defaultVatRate c)), tk_taxOverride = None\<rparr>"

text \<open>The fields of a line after the product row has replaced them.\<close>

definition enriched_line :: "(string \<Rightarrow> (bool \<times> jnum) option) \<Rightarrow> bool \<Rightarrow> TaxDocumentLine \<Rightarrow> TaxDocumentLine" where
  "enriched_line bridges preferLine line =
     (case if isUuidProductId (tq_productId line) \<and> \<not> preferLine then bridges (the (tq_productId line)) else None of
        None \<Rightarrow> line
      | Some (isTaxable, taxRate) \<Rightarrow> line\<lparr>tq_isTaxable := Some isTaxable, tq_taxRate := Some taxRate\<rparr>)"

definition resolveLineTaxes ::
  "string \<Rightarrow> TaxContext \<Rightarrow> (string \<Rightarrow> (bool \<times> jnum) option) \<Rightarrow> TaxDocumentLine \<Rightarrow> TaxDefinition list \<times> TaxDetermination" where
  "resolveLineTaxes today ctx bridges line =
     (let enriched = enriched_line bridges (tk_preferLine ctx) line in
      if tq_isTaxable enriched = Some False then ([], NONE) else resolvePreviewLineTaxes today enriched ctx)"

definition merge_document_lines :: "'d decimal_lib \<Rightarrow> TaxLine list \<Rightarrow> TaxLine list" where
  "merge_document_lines D ls = fold (merge_tax_line (\<lambda>a b. dl_toNumber D (money_add D [MI_num a, MI_num b]))) ls []"

definition money_total :: "'d decimal_lib \<Rightarrow> jnum list \<Rightarrow> 'd" where
  "money_total D xs = foldl (\<lambda>s x. money_add D [MI_dec s, MI_num x]) (money_zero D) xs"

definition aggregateDocument :: "'d decimal_lib \<Rightarrow> TaxLineResult list \<Rightarrow> TaxComputation" where
  "aggregateDocument D rs =
     (let untaxed = money_total D (map (\<lambda>r. tc_untaxedAmount (tw_computation r)) rs);
          tax = money_total D (map (\<lambda>r. tc_totalTax (tw_computation r)) rs)
      in \<lparr>tc_untaxedAmount = dl_toNumber D untaxed, tc_totalTax = dl_toNumber D (money_round D (MI_dec tax) 2),
          tc_totalAmount = dl_toNumber D (money_add D [MI_dec untaxed, MI_dec tax]),
          tc_taxLines = merge_document_lines D (concat (map (\<lambda>r. tc_taxLines (tw_computation r)) rs))\<rparr>)"

definition untaxed_line :: "'d decimal_lib \<Rightarrow> TaxDetermination \<Rightarrow> TaxDocumentLine \<Rightarrow> TaxLineResult" where
  "untaxed_line D g line = \<lparr>tw_determination = g, tw_taxes = [], tw_computation = computeTaxes D (tq_lineNetAmount line) [] (Fin 1) True\<rparr>"

definition customer_gate :: "string \<Rightarrow> bool \<Rightarrow> CustomerTaxProfileRow option \<Rightarrow> bool \<Rightarrow> string \<Rightarrow> TaxDetermination option" where
  "customer_gate today exempt profile requiresRegistered asOf =
     resolveCustomerTaxGate today ((server_context [] (\<lambda>_. None) (Fin 0) False False profile asOf False)
       \<lparr>tk_customerExempt := exempt, tk_vatOutputRequiresRegisteredCustomer := requiresRegistered\<rparr>)"

definition document_line_results :: "'d decimal_lib \<Rightarrow> string \<Rightarrow> DocumentTaxInput \<Rightarrow> TaxDb \<Rightarrow> TaxLineResult list \<times> bool" where
  "document_line_results D today input db =
     (let scope = coalesce (di_scope input) ''SALE''; asOf = str_or (di_documentDate input) today;
          enabled = (case tb_settings db of None \<Rightarrow> False | Some s \<Rightarrow> ts_taxEnabled s);
          inclusive = (case tb_settings db of None \<Rightarrow> False | Some s \<Rightarrow> ts_taxInclusive s);
          defaultRate = (case tb_settings db of None \<Rightarrow> Fin 0 | Some s \<Rightarrow> js_round_rat (ts_defaultTaxRate s));
          requiresRegistered = (case tb_settings db of None \<Rightarrow> False | Some s \<Rightarrow> ts_vatOutputRequiresRegisteredCustomer s);
          exempt = (truthy_str (di_customerId input) \<and> isCustomerTaxExempt (the (di_customerId input)) asOf db);
          profile = (if truthy_str (di_customerId input) then loadCustomerTaxProfile (the (di_customerId input)) db else None);
          gate = customer_gate today exempt profile requiresRegistered asOf;
          ids = List.map_filter (\<lambda>l. if isUuidProductId (tq_productId l) then tq_productId l else None) (di_lines input);
          catalog = loadActiveTaxDefinitions scope db
      in case di_taxOverride input of
        Some FORCE_EXEMPT \<Rightarrow> (map (untaxed_line D OVERRIDE) (di_lines input), False)
      | Some ov \<Rightarrow> (map (\<lambda>l. line_result D (scope \<noteq> ''PURCHASE'') l (override_taxes ov catalog inclusive, OVERRIDE)) (di_lines input), False)
      | None \<Rightarrow>
          if di_applyTenantDefault input \<and> \<not> enabled then (map (untaxed_line D DISABLED) (di_lines input), False)
          else if gate = Some EXEMPT \<or> exempt then (map (untaxed_line D EXEMPT) (di_lines input), True)
          else if gate = Some NONE then (map (untaxed_line D NONE) (di_lines input), False)
          else (map (\<lambda>l. line_result D (scope \<noteq> ''PURCHASE'') l
                 (resolveLineTaxes today (server_context catalog (loadProductTaxMappings ids scope db) defaultRate (di_applyTenantDefault input)
                    (di_preferLine input) profile asOf inclusive) (loadProductTaxBridge ids db) l)) (di_lines input), False))"

definition computeForLines :: "'d decimal_lib \<Rightarrow> string \<Rightarrow> DocumentTaxInput \<Rightarrow> TaxDb \<Rightarrow> DocumentTaxResult" where
  "computeForLines D today input db =
     (let (rs, exempt) = document_line_results D today input db
      in \<lparr>dx_lineResults = rs, dx_documentTotals = aggregateDocument D rs, dx_customerExempt = exempt,
          dx_taxEnabled = (case tb_settings db of None \<Rightarrow> False | Some s \<Rightarrow> ts_taxEnabled s),
          dx_taxInclusive = (case tb_settings db of None \<Rightarrow> False | Some s \<Rightarrow> ts_taxInclusive s),
          dx_taxOverrideApplied = (di_taxOverride input \<noteq> None)\<rparr>)"

definition determineApplicableTaxes ::
  "'d decimal_lib \<Rightarrow> string \<Rightarrow> string option \<Rightarrow> string option \<Rightarrow> string \<Rightarrow> string option \<Rightarrow> bool option \<Rightarrow> jnum option \<Rightarrow> bool \<Rightarrow> TaxDb \<Rightarrow> TaxDefinition list" where
  "determineApplicableTaxes D today productId customerId scope documentDate isTaxable taxRate applyTenantDefault db =
     (case dx_lineResults (computeForLines D today \<lparr>di_customerId = customerId, di_documentDate = documentDate, di_scope = Some scope,
        di_lines = [\<lparr>tq_productId = productId, tq_lineNetAmount = Fin 100, tq_quantity = Some (Fin 1), tq_isTaxable = isTaxable, tq_taxRate = taxRate\<rparr>],
        di_applyTenantDefault = applyTenantDefault, di_preferLine = False, di_taxOverride = None\<rparr> db) of
        [] \<Rightarrow> [] | r # _ \<Rightarrow> tw_taxes r)"

subsection \<open>Priced lines\<close>

record PricedLine =
  pl_productId :: "string option"
  pl_quantity :: jnum
  pl_unitPrice :: jnum
  pl_discountAmount :: "jnum option"
  pl_isTaxable :: "bool option"
  pl_taxRate :: "jnum option"

record PricedLineTax =
  pt_lineNetAmount :: jnum
  pt_taxAmount :: jnum
  pt_lineTotal :: jnum
  pt_isTaxable :: bool
  pt_taxRate :: jnum
  pt_determination :: TaxDetermination

record PricedDocument =
  pd_subtotal :: jnum
  pd_taxAmount :: jnum
  pd_totalAmount :: jnum
  pd_lines :: "PricedLineTax list"

definition effectiveTaxRate :: "TaxLineResult \<Rightarrow> jnum option \<Rightarrow> jnum" where
  "effectiveTaxRate r fallbackRate =
     (case find (\<lambda>t. tx_type t = PERCENTAGE \<and> jlt (Fin 0) (tx_rate t)) (tw_taxes r) of
        Some t \<Rightarrow> tx_rate t
      | None \<Rightarrow> num_or (rate_of fallbackRate) (Fin 0))"

definition line_net :: "'d decimal_lib \<Rightarrow> PricedLine \<Rightarrow> jnum" where
  "line_net D l = dl_toNumber D (money_round D (MI_dec (dl_minus D (dl_times D (dl_of_num D (pl_quantity l)) (dl_of_num D (pl_unitPrice l)))
     (dl_of_num D (num_or (rate_of (pl_discountAmount l)) (Fin 0))))) 2)"

definition plus_rounded :: "'d decimal_lib \<Rightarrow> jnum \<Rightarrow> jnum \<Rightarrow> jnum" where
  "plus_rounded D a b = dl_toNumber D (money_round D (MI_dec (dl_plus D (dl_of_num D a) (dl_of_num D b))) 2)"

definition priced_line :: "'d decimal_lib \<Rightarrow> bool \<Rightarrow> PricedLine \<Rightarrow> TaxLineResult \<Rightarrow> PricedLineTax" where
  "priced_line D inclusive l r =
     (let net = line_net D l; tax = tc_totalTax (tw_computation r); rate = effectiveTaxRate r (pl_taxRate l)
      in \<lparr>pt_lineNetAmount = net, pt_taxAmount = tax, pt_lineTotal = (if inclusive then net else plus_rounded D net tax),
          pt_isTaxable = (jlt (Fin 0) tax \<or> pl_isTaxable l = Some True \<and> jlt (Fin 0) rate), pt_taxRate = rate, pt_determination = tw_determination r\<rparr>)"

definition tax_document_line :: "'d decimal_lib \<Rightarrow> PricedLine \<Rightarrow> TaxDocumentLine" where
  "tax_document_line D l = \<lparr>tq_productId = pl_productId l, tq_lineNetAmount = line_net D l, tq_quantity = Some (pl_quantity l),
     tq_isTaxable = pl_isTaxable l, tq_taxRate = pl_taxRate l\<rparr>"

text \<open>The lines of the input are those of \<open>lines\<close>.\<close>

definition priceDocumentLines :: "'d decimal_lib \<Rightarrow> string \<Rightarrow> PricedLine list \<Rightarrow> DocumentTaxInput \<Rightarrow> TaxDb \<Rightarrow> PricedDocument \<times> DocumentTaxResult" where
  "priceDocumentLines D today lines input db =
     (let raw = computeForLines D today (input\<lparr>di_lines := map (tax_document_line D) lines, di_taxOverride := None\<rparr>) db;
          subtotal = dl_toNumber D (money_round D (MI_dec (money_total D (map (line_net D) lines))) 2);
          tax = tc_totalTax (dx_documentTotals raw)
      in (\<lparr>pd_subtotal = subtotal, pd_taxAmount = tax,
           pd_totalAmount = (if dx_taxInclusive raw then subtotal else plus_rounded D subtotal tax),
           pd_lines = map (\<lambda>(l, r). priced_line D (dx_taxInclusive raw) l r) (zip lines (dx_lineResults raw))\<rparr>, raw))"

end
