(* ===== verification/TaxClient.thy ===== *)
theory TaxClient imports TaxService
begin

section \<open>Taxes on the client\<close>

text \<open>
  The tax snapshot the point of sale keeps (\<open>offlineCatalogService.ts\<close>), the preview of its cart
  (\<open>pages/pos/POSPage.tsx\<close>) and the totals of the quotation screens (\<open>shared/utils/quotationCalculations.ts\<close>).
  The cache is the value of its key in local storage, without the time it was written; an answer of the
  server is its snapshot, and a failed request is \<open>None\<close>.
\<close>

subsection \<open>Snapshot\<close>

definition syncTaxSnapshot :: "TaxPreviewSnapshot option \<Rightarrow> TaxPreviewSnapshot option \<Rightarrow> TaxPreviewSnapshot option" where
  "syncTaxSnapshot response cache = (case response of None \<Rightarrow> cache | Some data \<Rightarrow> Some data)"

definition getTaxCatalogForPreview :: "TaxPreviewSnapshot option \<Rightarrow> TaxDefinition list" where
  "getTaxCatalogForPreview cache = (case cache of None \<Rightarrow> [] | Some snap \<Rightarrow> sp_definitions snap)"

definition getProductTaxMappingsForPreview :: "TaxPreviewSnapshot option \<Rightarrow> string \<Rightarrow> TaxDefinition list option" where
  "getProductTaxMappingsForPreview cache =
     (case cache of None \<Rightarrow> Map.empty | Some snap \<Rightarrow> foldl (\<lambda>m row. m(fst row \<mapsto> snd row)) Map.empty (sp_productMappings snap))"

definition getCachedCustomerTaxProfile :: "TaxPreviewSnapshot option \<Rightarrow> string option \<Rightarrow> CustomerTaxProfile option" where
  "getCachedCustomerTaxProfile cache customerId =
     (if \<not> truthy_str customerId then None
      else Option.bind cache (\<lambda>snap. map_option snd (find (\<lambda>p. fst p = the customerId) (sp_customerProfiles snap))))"

definition isCustomerTaxExemptCached :: "TaxPreviewSnapshot option \<Rightarrow> string option \<Rightarrow> bool" where
  "isCustomerTaxExemptCached cache customerId =
     (if \<not> truthy_str customerId then False
      else case cache of
        None \<Rightarrow> False
      | Some snap \<Rightarrow> the customerId \<in> set (sp_exemptCustomerIds snap) \<or>
          (case getCachedCustomerTaxProfile cache customerId of
             None \<Rightarrow> False | Some p \<Rightarrow> tz_taxExempt p = Some True \<or> tz_taxProfile p = Some ''EXEMPT''))"

subsection \<open>Cart\<close>

text \<open>The selected customer and its tax profile as the customer API returns them.\<close>

record PosCustomer =
  pc_id :: string
  pc_profile :: CustomerTaxProfile

definition pos_customer_profile :: "TaxPreviewSnapshot option \<Rightarrow> PosCustomer option \<Rightarrow> CustomerTaxProfile" where
  "pos_customer_profile cache selected =
     (let cac = getCachedCustomerTaxProfile cache (map_option pc_id selected); sel = map_option pc_profile selected
      in \<lparr>tz_vatRegistered = Some (Option.bind sel tz_vatRegistered = Some True \<or> Option.bind cac tz_vatRegistered = Some True),
          tz_taxExempt = Some (Option.bind sel tz_taxExempt = Some True \<or> Option.bind cac tz_taxExempt = Some True),
          tz_taxProfile = (if truthy_str (Option.bind sel tz_taxProfile) then Option.bind sel tz_taxProfile else Option.bind cac tz_taxProfile),
          tz_defaultVatRate = (case Option.bind sel tz_defaultVatRate of Some r \<Rightarrow> Some r | None \<Rightarrow> Option.bind cac tz_defaultVatRate),
          tz_taxEffectiveFrom = Option.bind sel tz_taxEffectiveFrom, tz_vatRegistrationDate = Option.bind sel tz_vatRegistrationDate\<rparr>)"

definition pos_tax_context :: "TaxPreviewSnapshot option \<Rightarrow> bool option \<Rightarrow> PosCustomer option \<Rightarrow> TaxOverride option \<Rightarrow> TaxContext" where
  "pos_tax_context cache tenantTaxInclusive selected taxOverride =
     (let profile = pos_customer_profile cache selected
      in \<lparr>tk_customerExempt = (isCustomerTaxExemptCached cache (map_option pc_id selected) \<or> tz_taxExempt profile = Some True),
          tk_customerProfile = Some profile,
          tk_vatOutputRequiresRegisteredCustomer = (case cache of None \<Rightarrow> False | Some s \<Rightarrow> sp_vatOutputRequiresRegisteredCustomer s),
          tk_documentDate = None, tk_productMappings = getProductTaxMappingsForPreview cache, tk_taxCatalog = getTaxCatalogForPreview cache,
          tk_applyTenantDefault = False, tk_preferLine = False, tk_taxEnabled = map_option sp_taxEnabled cache,
          tk_taxInclusive = (case tenantTaxInclusive of Some b \<Rightarrow> b | None \<Rightarrow> (case cache of None \<Rightarrow> False | Some s \<Rightarrow> sp_taxInclusive s)),
          tk_defaultTaxRate = map_option sp_defaultTaxRate cache, tk_scopeIsSale = None,
          tk_customerDefaultVatRate = tz_defaultVatRate profile, tk_taxOverride = taxOverride\<rparr>)"

definition pos_tax_preview ::
  "'d decimal_lib \<Rightarrow> string \<Rightarrow> TaxDocumentLine list \<Rightarrow> TaxPreviewSnapshot option \<Rightarrow> bool option \<Rightarrow> PosCustomer option \<Rightarrow> TaxOverride option \<Rightarrow> TaxPreviewResult" where
  "pos_tax_preview D today lines cache tenantTaxInclusive selected taxOverride =
     previewDocumentTax D today lines (pos_tax_context cache tenantTaxInclusive selected taxOverride)"

text \<open>What the customer pays: \<open>saleChargeTotal\<close> on the preview.\<close>

definition pos_grand_total :: "'d decimal_lib \<Rightarrow> jnum list \<Rightarrow> jnum \<Rightarrow> TaxPreviewResult \<Rightarrow> TaxContext \<Rightarrow> jnum" where
  "pos_grand_total D subtotals cartDiscount preview ctx =
     (let subtotal = foldl (decimal_sum D) (Fin 0) subtotals;
          after = dl_toNumber D (dl_minus D (dl_of_num D subtotal) (dl_of_num D cartDiscount))
      in saleChargeTotal D after (tv_totalTax preview) (tk_taxInclusive ctx))"

subsection \<open>Quotation screens\<close>

record QuotationLineCalc =
  qc_quantity :: jnum
  qc_unitPrice :: jnum
  qc_discountAmount :: "jnum option"
  qc_isTaxable :: bool
  qc_taxRate :: jnum
  qc_productId :: "string option"

definition quotation_context :: TaxContext where
  "quotation_context =
     \<lparr>tk_customerExempt = False, tk_customerProfile = None, tk_vatOutputRequiresRegisteredCustomer = False, tk_documentDate = None,
      tk_productMappings = Map.empty, tk_taxCatalog = [], tk_applyTenantDefault = False, tk_preferLine = True, tk_taxEnabled = None,
      tk_taxInclusive = False, tk_defaultTaxRate = None, tk_scopeIsSale = None, tk_customerDefaultVatRate = None, tk_taxOverride = None\<rparr>"

definition item_subtotal :: "'d decimal_lib \<Rightarrow> QuotationLineCalc \<Rightarrow> 'd" where
  "item_subtotal D q = dl_times D (dl_of_num D (qc_quantity q)) (dl_of_num D (qc_unitPrice q))"

definition item_discount :: "'d decimal_lib \<Rightarrow> QuotationLineCalc \<Rightarrow> 'd" where
  "item_discount D q = dl_of_num D (num_or (rate_of (qc_discountAmount q)) (Fin 0))"

definition quotation_line :: "'d decimal_lib \<Rightarrow> QuotationLineCalc \<Rightarrow> TaxDocumentLine" where
  "quotation_line D q =
     \<lparr>tq_productId = qc_productId q, tq_lineNetAmount = dl_toNumber D (dl_minus D (item_subtotal D q) (item_discount D q)),
      tq_quantity = Some (qc_quantity q), tq_isTaxable = Some (qc_isTaxable q), tq_taxRate = Some (qc_taxRate q)\<rparr>"

definition calculateLineTotal :: "'d decimal_lib \<Rightarrow> string \<Rightarrow> QuotationLineCalc \<Rightarrow> jnum" where
  "calculateLineTotal D today q =
     (let preview = previewDocumentTax D today [quotation_line D q] quotation_context
      in dl_toNumber D (dl_plus D (dl_minus D (item_subtotal D q) (item_discount D q)) (dl_of_num D (tv_totalTax preview))))"

record QuotationTotals =
  qt_subtotal :: jnum
  qt_totalDiscount :: jnum
  qt_totalTax :: jnum
  qt_total :: jnum

definition calculateQuotationTotals :: "'d decimal_lib \<Rightarrow> string \<Rightarrow> QuotationLineCalc list \<Rightarrow> QuotationTotals" where
  "calculateQuotationTotals D today items =
     (let subtotal = foldl (\<lambda>s q. dl_plus D s (item_subtotal D q)) (dl_of_num D (Fin 0)) items;
          totalDiscount = foldl (\<lambda>s q. dl_plus D s (item_discount D q)) (dl_of_num D (Fin 0)) items;
          preview = previewDocumentTax D today (map (quotation_line D) items) quotation_context
      in \<lparr>qt_subtotal = dl_toNumber D subtotal, qt_totalDiscount = dl_toNumber D totalDiscount, qt_totalTax = tv_totalTax preview,
          qt_total = dl_toNumber D (dl_plus D (dl_minus D subtotal totalDiscount) (dl_of_num D (tv_totalTax preview)))\<rparr>)"

definition hasTaxableQuotationLines :: "QuotationLineCalc list \<Rightarrow> bool" where
  "hasTaxableQuotationLines items \<longleftrightarrow> (\<exists>q \<in> set items. qc_isTaxable q \<and> jlt (Fin 0) (num_or (qc_taxRate q) (Fin 0)))"

definition hasQuotationLineDiscounts :: "QuotationLineCalc list \<Rightarrow> bool" where
  "hasQuotationLineDiscounts items \<longleftrightarrow> (\<exists>q \<in> set items. jlt (Fin 0) (coalesce (qc_discountAmount q) (Fin 0)))"

definition adjustQuotationQuantity :: "'d decimal_lib \<Rightarrow> jnum \<Rightarrow> jnum \<Rightarrow> jnum" where
  "adjustQuotationQuantity D current delta =
     (let n = decimal_sum D (num_or current (Fin 0)) delta in if jlt (Fin 0) n then n else if n = NaN then NaN else Fin 0)"

end
