(* ===== verification/TaxExact.thy ===== *)
theory TaxExact imports TaxCompute
begin

section \<open>Taxes in exact cents\<close>

text \<open>
  On amounts in cents, with rates in hundredths of a percent and fixed taxes of whole cents, every
  number the tax loops produce is a whole number of cents, and the taxes neither add nor lose one.
\<close>

subsection \<open>Rounding\<close>

lemma pg_round_minus: "pg_round s (- q) = - pg_round s q"
  using pg_round_scaled [of s 0] by (cases "q = 0") (auto simp: pg_round_def Let_def)

lemma pg_round_abs_le: "scaled s b \<Longrightarrow> \<bar>q\<bar> \<le> b \<Longrightarrow> \<bar>pg_round s q\<bar> \<le> b"
proof -
  assume b: "scaled s b" "\<bar>q\<bar> \<le> b"
  have "\<bar>pg_round s q\<bar> = pg_round s \<bar>q\<bar>" using pg_round_nonneg [of q s] pg_round_nonneg [of "- q" s] pg_round_minus [of s q]
    by (cases "0 \<le> q") simp_all
  also have "\<dots> \<le> pg_round s b" using b(2) by (intro pg_round_mono) simp_all
  finally show ?thesis using b(1) by simp
qed

lemma pg_round_cents_int: "\<exists>c. pg_round 2 q = of_int c / 100"
  using scaled_pg_round [of 2 q] by (simp add: scaled_def)

lemma sig20_scaled: "scaled s q \<Longrightarrow> \<bar>q\<bar> \<le> 2 ^ 40 \<Longrightarrow> s \<le> 7 \<Longrightarrow> sig20 q"
proof (rule scaled_sig20, assumption)
  assume a: "\<bar>q\<bar> \<le> 2 ^ 40" "s \<le> 7"
  have "(10 :: rat) ^ s \<le> 10 ^ 7" using a(2) by (intro power_increasing) simp_all
  then have "\<bar>q\<bar> * 10 ^ s \<le> 2 ^ 40 * 10 ^ 7" using a(1) by (intro mult_mono) simp_all
  then show "\<bar>q\<bar> * 10 ^ s < 10 ^ 20" by simp
qed

lemma of_int_le_pow: "\<bar>k\<bar> \<le> 2 ^ n \<Longrightarrow> \<bar>of_int k\<bar> \<le> (2 ^ n :: rat)"
  by (metis of_int_abs of_int_le_iff of_int_numeral of_int_power)

subsection \<open>Taxes in cents\<close>

definition fixed_cents :: "rat \<Rightarrow> TaxDefinition \<Rightarrow> int \<Rightarrow> bool" where
  "fixed_cents q t f \<longleftrightarrow> (\<exists>j. tx_rate t = Fin (cents j) \<and> \<bar>j\<bar> \<le> 2 ^ 46 \<and> of_int j / 100 * q = of_int f / 100) \<and> 0 \<le> f \<and> f \<le> 2 ^ 39"

definition percent_cents :: "TaxDefinition \<Rightarrow> int \<Rightarrow> bool" where
  "percent_cents t j \<longleftrightarrow> tx_rate t = Fin (cents j) \<and> 0 \<le> j \<and> j \<le> 10000"

definition tax_in_cents :: "rat \<Rightarrow> TaxDefinition \<Rightarrow> bool" where
  "tax_in_cents q t \<longleftrightarrow> (case tx_type t of FIXED \<Rightarrow> \<exists>f. fixed_cents q t f | PERCENTAGE \<Rightarrow> \<exists>j. percent_cents t j)"

definition exact_lib :: "'d decimal_lib \<Rightarrow> ('d \<Rightarrow> rat) \<Rightarrow> bool" where
  "exact_lib D v \<longleftrightarrow> decimal_exact D v \<and> times_exact D v \<and> div_between D v"

lemma exact_libD:
  assumes "exact_lib D v"
  shows "decimal_exact D v" "sig20 (v a * v b) \<Longrightarrow> v (dl_times D a b) = v a * v b"
    "0 < v b \<Longrightarrow> sig20 lo \<Longrightarrow> sig20 hi \<Longrightarrow> lo * v b \<le> v a \<Longrightarrow> v a \<le> hi * v b \<Longrightarrow> lo \<le> v (dl_div D a b) \<and> v (dl_div D a b) \<le> hi"
  using assms unfolding exact_lib_def times_exact_def div_between_def by blast+

lemma js_decimal_hundred: "js_decimal 100 = 100"
  by code_simp

lemma js_decimal_0 [simp]: "js_decimal 0 = 0"
  by (simp add: js_decimal_def)

lemma js_decimal_unit_one [simp]: "js_decimal 1 = 1"
  by code_simp

lemma fraction_value:
  assumes "exact_lib D v" "percent_cents t j"
  shows "v (tax_fraction D t) = of_int j / 10000"
proof -
  have j: "tx_rate t = Fin (cents j)" "\<bar>j\<bar> \<le> 2 ^ 46" "0 \<le> j" "j \<le> 10000" using assms(2) by (simp_all add: percent_cents_def)
  have s: "sig20 (of_int j / 10000)" using j(3,4) unfolding sig20_def by (intro exI [of _ j] exI [of _ 4]) simp
  note num = dec_num [OF exact_libD(1) [OF assms(1)]]
  have "v (dl_of_num D (tx_rate t)) = of_int j / 100" by (simp add: j(1) num js_decimal_cents [OF j(2)])
  moreover have "v (dl_of_num D (Fin 100)) = 100" by (simp add: num js_decimal_hundred)
  ultimately show ?thesis unfolding tax_fraction_def
    using exact_libD(3) [OF assms(1) _ s s, of "dl_of_num D (Fin 100)" "dl_of_num D (tx_rate t)"] by simp
qed

lemma fixed_value:
  assumes "exact_lib D v" "js_decimal x = q" "fixed_cents q t f"
  shows "v (fixed_tax D (Fin x) t) = of_int f / 100"
proof -
  obtain j where j: "tx_rate t = Fin (cents j)" "\<bar>j\<bar> \<le> 2 ^ 46" "of_int j / 100 * q = of_int f / 100" and f: "0 \<le> f" "f \<le> 2 ^ 39"
    using assms(3) by (auto simp: fixed_cents_def)
  note num = dec_num [OF exact_libD(1) [OF assms(1)]]
  have p: "v (dl_of_num D (tx_rate t)) * v (dl_of_num D (Fin x)) = of_int f / 100"
    by (simp only: j(1) num js_decimal_cents [OF j(2)] assms(2) j(3))
  have "sig20 (of_int f / 100)" using f by (intro sig20_cents) simp
  then show ?thesis unfolding fixed_tax_def using exact_libD(2) [OF assms(1), of "dl_of_num D (tx_rate t)" "dl_of_num D (Fin x)"] by (simp only: p)
qed

lemma line_amount:
  assumes "decimal_exact D v" "v a = of_int c / 100" "\<bar>c\<bar> \<le> 2 ^ 47"
  shows "tn_taxAmount (tax_line D s i t b a) = Fin (cents c)"
  using js_round_rat_cents [OF assms(3)] by (simp add: tax_line_def dec_toNumber [OF assms(1)] assms(2))

subsection \<open>Combined rate\<close>

definition combined_ok :: "nat \<Rightarrow> rat \<Rightarrow> bool" where
  "combined_ok n c \<longleftrightarrow> n \<le> 4 \<and> 0 \<le> c \<and> c + 1 \<le> 2 ^ n \<and> scaled (4 * n) c"

lemma scaled_up: "scaled s q \<Longrightarrow> s \<le> t \<Longrightarrow> scaled t q"
proof -
  assume "scaled s q" "s \<le> t"
  then obtain k d where "q = of_int k / 10 ^ s" "t = s + d" unfolding scaled_def by (metis le_Suc_ex)
  then have "q = of_int (k * 10 ^ d) / 10 ^ t" by (simp add: power_add)
  then show ?thesis unfolding scaled_def by blast
qed

lemma combined_sig20: "n \<le> 4 \<Longrightarrow> 0 \<le> q \<Longrightarrow> q \<le> 2 ^ n \<Longrightarrow> scaled (4 * n) q \<Longrightarrow> sig20 q"
proof (rule scaled_sig20, assumption)
  assume a: "n \<le> 4" "0 \<le> q" "q \<le> 2 ^ n"
  have "(2 :: rat) ^ n \<le> 2 ^ 4" using a(1) by (intro power_increasing) simp_all
  then have "q * 10 ^ (4 * n) \<le> 2 ^ 4 * 10 ^ (4 * 4)" using a by (intro mult_mono power_increasing) simp_all
  then show "\<bar>q\<bar> * 10 ^ (4 * n) < 10 ^ 20" using a(2) by simp
qed

lemma scaled_one [simp]: "scaled s 1"
  unfolding scaled_def by (intro exI [of _ "10 ^ s"]) simp

lemma combined_step:
  assumes "combined_ok n c" "Suc n \<le> 4" "0 \<le> r" "r \<le> 1" "scaled 4 r"
  shows "combined_ok (Suc n) (c + r)" "combined_ok (Suc n) (c + r + c * r)" "sig20 (c + r)" "sig20 (c * r)" "sig20 (c + r + c * r)"
proof -
  have c: "0 \<le> c" "c + 1 \<le> 2 ^ n" "scaled (4 * n) c" using assms(1) by (simp_all add: combined_ok_def)
  have sr: "scaled (4 * Suc n) r" "scaled (4 * Suc n) c" using scaled_up [OF assms(5)] scaled_up [OF c(3)] by simp_all
  have sp: "scaled (4 * Suc n) (c * r)" using scaled_times [OF c(3) assms(5)] by (simp add: add.commute)
  have cr: "0 \<le> c * r" "c * r \<le> c" using c(1) assms(3,4) by (simp_all add: mult_left_le)
  define P :: rat where "P = 2 ^ Suc n"
  have "2 * (c + 1) \<le> P" using c(2) by (simp add: P_def)
  moreover have "c + r \<le> P \<and> w \<le> P \<and> c + r + w + 1 \<le> P \<and> c + r + 1 \<le> P" if "2 * (c + 1) \<le> P" "0 \<le> w" "w \<le> c" for w
    using that assms(3,4) c(1) by simp
  ultimately have "c + r \<le> P" "c * r \<le> P" "c + r + c * r + 1 \<le> P" "c + r + 1 \<le> P"
    using cr by blast+
  then have le: "c + r \<le> 2 ^ Suc n" "c * r \<le> 2 ^ Suc n" "c + r + c * r + 1 \<le> 2 ^ Suc n" "c + r + 1 \<le> 2 ^ Suc n"
    by (simp_all only: P_def)
  show "combined_ok (Suc n) (c + r)" using le(4) assms(2,3) c(1) sr by (auto simp: combined_ok_def)
  show "combined_ok (Suc n) (c + r + c * r)" using le(3) assms(2,3) c(1) cr sr sp by (auto simp: combined_ok_def)
  show "sig20 (c + r)" "sig20 (c * r)" "sig20 (c + r + c * r)"
    using assms(2,3) c(1) cr le sr sp by (auto intro!: combined_sig20 [OF assms(2)] simp del: power_Suc mult_Suc_right)
qed

lemma dec_zero_one:
  assumes "exact_lib D v"
  shows "v (dl_of_num D (Fin 0)) = 0" "v (dl_of_num D (Fin 1)) = 1"
  by (simp_all add: dec_num [OF exact_libD(1) [OF assms]])

lemma combined_plus:
  assumes "exact_lib D v" "combined_ok n (v c)" "Suc n \<le> 4" "percent_cents t j"
  shows "combined_ok (Suc n) (v (if tx_isCompound t then dl_plus D (dl_plus D c (tax_fraction D t)) (dl_times D c (tax_fraction D t))
    else dl_plus D c (tax_fraction D t)))"
proof -
  let ?r = "of_int j / 10000 :: rat"
  have j: "0 \<le> j" "j \<le> 10000" using assms(4) by (simp_all add: percent_cents_def)
  then have r: "0 \<le> ?r" "?r \<le> 1" "scaled 4 ?r" by (auto simp: scaled_def)
  note st = combined_step [OF assms(2,3) r]
  note f = fraction_value [OF assms(1,4)]
  have p: "v (dl_plus D c (tax_fraction D t)) = v c + ?r" using dec_plus [OF exact_libD(1) [OF assms(1)], of c "tax_fraction D t"] st(3) f by simp
  have m: "v (dl_times D c (tax_fraction D t)) = v c * ?r" using exact_libD(2) [OF assms(1), of c "tax_fraction D t"] st(4) f by simp
  have q: "v (dl_plus D (dl_plus D c (tax_fraction D t)) (dl_times D c (tax_fraction D t))) = v c + ?r + v c * ?r"
    using dec_plus [OF exact_libD(1) [OF assms(1)], of "dl_plus D c (tax_fraction D t)" "dl_times D c (tax_fraction D t)"] st(5) p m by simp
  show ?thesis using st(1,2) p q by simp
qed

subsection \<open>Inclusive taxes\<close>

definition percent_count :: "TaxDefinition list \<Rightarrow> nat" where
  "percent_count ts = length (filter (\<lambda>t. tx_type t = PERCENTAGE) ts)"

lemma minus_cents:
  assumes "decimal_exact D v" "v a = of_int x / 100" "v b = of_int y / 100" "\<bar>x\<bar> \<le> 2 ^ 60" "\<bar>y\<bar> \<le> 2 ^ 60"
  shows "v (dl_minus D a b) = of_int (x - y) / 100"
proof -
  have "v a - v b = of_int (x - y) / 100" by (simp add: assms(2,3) diff_divide_distrib)
  moreover have "sig20 (of_int (x - y) / 100)" using assms(4,5) by (intro sig20_cents) simp
  ultimately show ?thesis using dec_minus [OF assms(1)] by metis
qed

lemma plus_cents:
  assumes "decimal_exact D v" "v a = of_int x / 100" "v b = of_int y / 100" "\<bar>x\<bar> \<le> 2 ^ 60" "\<bar>y\<bar> \<le> 2 ^ 60"
  shows "v (dl_plus D a b) = of_int (x + y) / 100"
proof -
  have "v a + v b = of_int (x + y) / 100" by (simp add: assms(2,3) add_divide_distrib)
  moreover have "sig20 (of_int (x + y) / 100)" using assms(4,5) by (intro sig20_cents) simp
  ultimately show ?thesis using dec_plus [OF assms(1)] by metis
qed

text \<open>The amounts of tax lines, as cents of bounded size.\<close>

definition line_cents :: "TaxLine list \<Rightarrow> int list \<Rightarrow> bool" where
  "line_cents ls as \<longleftrightarrow> map tn_taxAmount ls = map (\<lambda>a. Fin (cents a)) as \<and> (\<forall>a \<in> set as. \<bar>a\<bar> \<le> 2 ^ 46)"

lemma line_cents_simps [simp]:
  "line_cents [] as \<longleftrightarrow> as = []"
  "line_cents (l # ls) (a # as) \<longleftrightarrow> tn_taxAmount l = Fin (cents a) \<and> \<bar>a\<bar> \<le> 2 ^ 46 \<and> line_cents ls as"
  by (auto simp: line_cents_def)

lemma line_cents_append: "line_cents ls as \<Longrightarrow> line_cents ms bs \<Longrightarrow> line_cents (ls @ ms) (as @ bs)"
  by (auto simp: line_cents_def)

lemma inclusive_cents:
  assumes "exact_lib D v" "js_decimal x = q"
  shows "(\<forall>t \<in> set ts. tax_in_cents q t) \<Longrightarrow> n + length ts \<le> 4 \<Longrightarrow> combined_ok n (v c) \<Longrightarrow> v a = of_int k / 100
    \<Longrightarrow> \<bar>k\<bar> \<le> 2 ^ 39 + 2 ^ 39 * int m \<Longrightarrow> m + length ts \<le> 4 \<Longrightarrow>
    \<exists>u c' ls as. inclusive_loop D (Fin x) s ts a c = (u, c', ls) \<and> v u = of_int (k - sum_list as) / 100
      \<and> \<bar>k - sum_list as\<bar> \<le> 2 ^ 39 + 2 ^ 39 * int (m + length ts) \<and> combined_ok (n + percent_count ts) (v c') \<and> line_cents ls as
      \<and> (percent_count ts = 0 \<longrightarrow> c' = c)"
proof (induction ts arbitrary: n c a k m)
  case Nil
  then show ?case by (auto simp: percent_count_def intro!: exI [of _ "[]"])
next
  case (Cons t ts)
  note D = exact_libD(1) [OF assms(1)]
  show ?case
  proof (cases "tx_type t")
    case PERCENTAGE
    then obtain j where "percent_cents t j" using Cons.prems(1) by (auto simp: tax_in_cents_def)
    from combined_plus [OF assms(1) Cons.prems(3) _ this] Cons.prems(2)
    have c: "combined_ok (Suc n) (v (if tx_isCompound t then dl_plus D (dl_plus D c (tax_fraction D t)) (dl_times D c (tax_fraction D t))
      else dl_plus D c (tax_fraction D t)))" by simp
    have "\<bar>k\<bar> \<le> 2 ^ 39 + 2 ^ 39 * int (Suc m)" using Cons.prems(5) by simp
    from Cons.IH [OF _ _ c Cons.prems(4) this] Cons.prems(1,2,6) show ?thesis
      by (fastforce simp: PERCENTAGE percent_count_def Let_def)
  next
    case FIXED
    then obtain f where f: "fixed_cents q t f" using Cons.prems(1) by (auto simp: tax_in_cents_def)
    then have fb: "0 \<le> f" "f \<le> 2 ^ 39" by (simp_all add: fixed_cents_def)
    note fv = fixed_value [OF assms f]
    have mb: "int m \<le> 3" using Cons.prems(6) by simp
    then have kb: "\<bar>k\<bar> \<le> 2 ^ 60" using Cons.prems(5) by simp
    have left: "v (dl_minus D a (fixed_tax D (Fin x) t)) = of_int (k - f) / 100"
      using minus_cents [OF D Cons.prems(4) fv kb] fb by simp
    have b: "\<bar>k - f\<bar> \<le> 2 ^ 39 + 2 ^ 39 * int (Suc m)" using Cons.prems(5) fb by simp
    obtain u c' ls as where ih: "inclusive_loop D (Fin x) s ts (dl_minus D a (fixed_tax D (Fin x) t)) c = (u, c', ls)"
      "v u = of_int (k - f - sum_list as) / 100" "\<bar>k - f - sum_list as\<bar> \<le> 2 ^ 39 + 2 ^ 39 * int (Suc m + length ts)"
      "combined_ok (n + percent_count ts) (v c')" "line_cents ls as" "percent_count ts = 0 \<longrightarrow> c' = c"
      using Cons.IH [OF _ _ Cons.prems(3) left b] Cons.prems(1,2,6) by auto
    have amt: "tn_taxAmount (tax_line D s True t (dl_minus D a (fixed_tax D (Fin x) t)) (fixed_tax D (Fin x) t)) = Fin (cents f)"
      using fb by (intro line_amount [OF D fv]) simp
    show ?thesis using ih amt fb
      by (intro exI [of _ u] exI [of _ c'] exI [of _ "tax_line D s True t (dl_minus D a (fixed_tax D (Fin x) t)) (fixed_tax D (Fin x) t) # ls"]
          exI [of _ "f # as"]) (simp add: FIXED percent_count_def Let_def algebra_simps)
  qed
qed

text \<open>The amount without its tax is between zero and the amount.\<close>

lemma extracted_base:
  assumes "exact_lib D v" "0 < v c" "combined_ok n (v c)" "v u = of_int k / 100" "\<bar>k\<bar> \<le> 2 ^ 42"
  shows "\<exists>b. v (tax_round D (dl_div D u (dl_plus D c (dl_of_num D (Fin 1))))) = of_int b / 100 \<and> \<bar>b\<bar> \<le> \<bar>k\<bar>"
proof -
  note D = exact_libD(1) [OF assms(1)]
  have c: "v c + 1 \<le> 2 ^ n" "n \<le> 4" "scaled (4 * n) (v c + 1)" using assms(3) by (auto simp: combined_ok_def)
  then have "sig20 (v c + v (dl_of_num D (Fin 1)))" using assms(2) dec_zero_one [OF assms(1)] by (auto intro: combined_sig20)
  then have d: "v (dl_plus D c (dl_of_num D (Fin 1))) = v c + 1" using dec_plus [OF D] dec_zero_one [OF assms(1)] by simp
  let ?w = "v (dl_div D u (dl_plus D c (dl_of_num D (Fin 1))))"
  have s: "sig20 (of_int k / 100)" "sig20 0" using sig20_cents [of k] sig20_int [of 0] assms(5) by simp_all
  have "\<bar>?w\<bar> \<le> \<bar>of_int k / 100\<bar>"
  proof (cases "0 \<le> k")
    case True
    have "of_int k / 100 \<le> of_int k / 100 * (v c + 1)" using assms(2) True mult_left_mono [of 1 "v c + 1" "of_int k / 100"] by simp
    then show ?thesis using exact_libD(3) [OF assms(1) _ s(2,1), of "dl_plus D c (dl_of_num D (Fin 1))" u] d assms(2,4) True by simp
  next
    case False
    have "of_int k / 100 * (v c + 1) \<le> of_int k / 100" using assms(2) False mult_left_mono_neg [of 1 "v c + 1" "of_int k / 100"] by simp
    then show ?thesis using exact_libD(3) [OF assms(1) _ s, of "dl_plus D c (dl_of_num D (Fin 1))" u] d assms(2,4) False by simp
  qed
  then have "\<bar>pg_round 2 ?w\<bar> \<le> \<bar>of_int k / 100\<bar>" by (intro pg_round_abs_le) (auto simp: scaled_def abs_if intro: exI [of _ "- k"])
  moreover obtain b where "pg_round 2 ?w = of_int b / 100" using pg_round_cents_int by blast
  ultimately show ?thesis using of_int_le_iff [of "\<bar>b\<bar>" "\<bar>k\<bar>"] by (auto simp: tax_round_def dec_toDP [OF D])
qed

lemma percent_of_cents:
  assumes "exact_lib D v" "v a = of_int b / 100" "\<bar>b\<bar> \<le> 2 ^ 46" "percent_cents t j"
  shows "\<exists>c. v (tax_round D (dl_times D a (tax_fraction D t))) = of_int c / 100 \<and> \<bar>c\<bar> \<le> \<bar>b\<bar>"
    "v (dl_times D a (tax_fraction D t)) = of_int (b * j) / 1000000"
proof -
  note D = exact_libD(1) [OF assms(1)]
  have j: "0 \<le> j" "j \<le> 10000" using assms(4) by (simp_all add: percent_cents_def)
  have p: "v a * v (tax_fraction D t) = of_int (b * j) / 1000000" by (simp add: assms(2) fraction_value [OF assms(1,4)])
  have "\<bar>b\<bar> * j \<le> 2 ^ 46 * 10000" using assms(3) j by (intro mult_mono) simp_all
  then have "\<bar>b * j\<bar> < 10 ^ 20" using j by (simp add: abs_mult)
  then have "sig20 (of_int (b * j) / 1000000)" unfolding sig20_def by (intro exI [of _ "b * j"] exI [of _ 6]) simp
  then show m: "v (dl_times D a (tax_fraction D t)) = of_int (b * j) / 1000000" using exact_libD(2) [OF assms(1), of a "tax_fraction D t"] p by simp
  have "\<bar>b\<bar> * j \<le> \<bar>b\<bar> * 10000" using j by (intro mult_left_mono) simp_all
  then have "of_int \<bar>b * j\<bar> \<le> (of_int (\<bar>b\<bar> * 10000) :: rat)" using j by (simp only: of_int_le_iff abs_mult abs_of_nonneg)
  then have "\<bar>of_int (b * j) / 1000000\<bar> \<le> (\<bar>of_int b / 100\<bar> :: rat)" by simp
  then have "\<bar>pg_round 2 (of_int (b * j) / 1000000)\<bar> \<le> (\<bar>of_int b / 100\<bar> :: rat)"
    by (intro pg_round_abs_le) (auto simp: scaled_def abs_if intro: exI [of _ "- b"])
  moreover obtain c where "pg_round 2 (of_int (b * j) / 1000000) = (of_int c / 100 :: rat)" using pg_round_cents_int by blast
  ultimately show "\<exists>c. v (tax_round D (dl_times D a (tax_fraction D t))) = of_int c / 100 \<and> \<bar>c\<bar> \<le> \<bar>b\<bar>"
    using of_int_le_iff [of "\<bar>c\<bar>" "\<bar>b\<bar>", where 'a = rat] by (auto simp: tax_round_def dec_toDP [OF D] m)
qed

lemma distribute_cents:
  assumes "exact_lib D v" "v base = of_int b / 100" "\<bar>b\<bar> \<le> 2 ^ 42" "v whole = of_int w / 100" "\<bar>w\<bar> \<le> 2 ^ 43"
  shows "(\<forall>t \<in> set ts. \<exists>j. percent_cents t j) \<Longrightarrow> v share = of_int e / 100 \<Longrightarrow> \<bar>e\<bar> \<le> 2 ^ 42 * int m \<Longrightarrow> m + length ts \<le> 4 \<Longrightarrow> ts \<noteq> [] \<Longrightarrow>
    \<exists>as. line_cents (distribute_tax D s base whole ts share) as \<and> sum_list as = w - e"
proof (induction ts arbitrary: share e m)
  case (Cons t ts)
  note D = exact_libD(1) [OF assms(1)]
  have mb: "int m \<le> 3" using Cons.prems(4) by simp
  then have eb: "\<bar>e\<bar> \<le> 2 ^ 44" using Cons.prems(3) by simp
  show ?case
  proof (cases "ts = []")
    case True
    have l: "v (dl_minus D whole share) = of_int (w - e) / 100" using minus_cents [OF D assms(4) Cons.prems(2)] eb assms(5) by simp
    show ?thesis using line_amount [OF D l, of s True t base] eb assms(5) True
      by (intro exI [of _ "[w - e]"]) simp
  next
    case False
    obtain j where j: "percent_cents t j" using Cons.prems(1) by auto
    obtain c where c: "v (tax_round D (dl_times D base (tax_fraction D t))) = of_int c / 100" "\<bar>c\<bar> \<le> \<bar>b\<bar>"
      using percent_of_cents(1) [OF assms(1,2) _ j] assms(3) by auto
    let ?a = "tax_round D (dl_times D base (tax_fraction D t))"
    have p: "v (dl_plus D share ?a) = of_int (e + c) / 100" using plus_cents [OF D Cons.prems(2) c(1)] eb c(2) assms(3) by simp
    have "\<bar>e + c\<bar> \<le> 2 ^ 42 * int (Suc m)" using Cons.prems(3) c(2) assms(3) by (simp add: algebra_simps)
    from Cons.IH [OF _ p this _ False] Cons.prems(1,4)
    obtain as where "line_cents (distribute_tax D s base whole ts (dl_plus D share ?a)) as" "sum_list as = w - (e + c)" by auto
    then show ?thesis using line_amount [OF D c(1), of s True t base] c(2) assms(3) False
      by (intro exI [of _ "c # as"]) (simp add: Let_def)
  qed
qed simp

lemma extract_cents:
  assumes "exact_lib D v" "js_decimal x = q" "\<forall>t \<in> set ts. tax_in_cents q t" "length ts \<le> 4" "v a = of_int k / 100" "\<bar>k\<bar> \<le> 2 ^ 39"
  shows "\<exists>u ls as. extract_inclusive D (Fin x) s ts a = (u, ls) \<and> v u = of_int (k - sum_list as) / 100 \<and> \<bar>k - sum_list as\<bar> \<le> 2 ^ 42
    \<and> line_cents ls as \<and> (ts = [] \<longrightarrow> as = [])"
proof -
  note D = exact_libD(1) [OF assms(1)]
  have "combined_ok 0 (v (dl_of_num D (Fin 0)))" using dec_zero_one [OF assms(1)] by (simp add: combined_ok_def)
  from inclusive_cents [OF assms(1-3) _ this assms(5), of 0 s] assms(4,6)
  obtain u c ls as where il: "inclusive_loop D (Fin x) s ts a (dl_of_num D (Fin 0)) = (u, c, ls)" "v u = of_int (k - sum_list as) / 100"
    "\<bar>k - sum_list as\<bar> \<le> 2 ^ 39 + 2 ^ 39 * int (length ts)" "combined_ok (percent_count ts) (v c)" "line_cents ls as"
    "percent_count ts = 0 \<longrightarrow> c = dl_of_num D (Fin 0)" by auto
  have ub: "\<bar>k - sum_list as\<bar> \<le> 2 ^ 42" using il(3) assms(4) by simp
  show ?thesis
  proof (cases "dl_lt D (dl_of_num D (Fin 0)) c")
    case False
    then have "ts = [] \<longrightarrow> as = []" using il(1,5) by auto
    then show ?thesis using il(1,2,5) ub False by (simp add: extract_inclusive_def) blast
  next
    case True
    then have c0: "0 < v c" using dec_lt [OF D] dec_zero_one [OF assms(1)] by simp
    then have pc: "percent_count ts \<noteq> 0" using il(6) dec_zero_one [OF assms(1)] by auto
    let ?b = "tax_round D (dl_div D u (dl_plus D c (dl_of_num D (Fin 1))))"
    obtain b where b: "v ?b = of_int b / 100" "\<bar>b\<bar> \<le> \<bar>k - sum_list as\<bar>" using extracted_base [OF assms(1) c0 il(4,2) ub] by blast
    have t: "v (dl_minus D u ?b) = of_int (k - sum_list as - b) / 100" using minus_cents [OF D il(2) b(1)] b(2) ub by simp
    let ?ps = "filter (\<lambda>t. tx_type t = PERCENTAGE) ts"
    have p: "\<forall>t \<in> set ?ps. \<exists>j. percent_cents t j" using assms(3) by (auto simp: tax_in_cents_def)
    have z: "v (dl_of_num D (Fin 0)) = of_int 0 / 100" using dec_zero_one [OF assms(1)] by simp
    have n: "0 + length ?ps \<le> 4" using order.trans [OF length_filter_le assms(4)] by simp
    have ne: "?ps \<noteq> []" using pc by (simp add: percent_count_def)
    have bb: "\<bar>b\<bar> \<le> 2 ^ 42" "\<bar>k - sum_list as - b\<bar> \<le> 2 ^ 43" using b(2) ub by simp_all
    obtain bs where bs: "line_cents (distribute_tax D s ?b (dl_minus D u ?b) ?ps (dl_of_num D (Fin 0))) bs"
      "sum_list bs = k - sum_list as - b"
      using distribute_cents [OF assms(1) b(1) bb(1) t bb(2) p z _ n ne, of s] by auto
    have "extract_inclusive D (Fin x) s ts a = (?b, ls @ distribute_tax D s ?b (dl_minus D u ?b) ?ps (dl_of_num D (Fin 0)))"
      using il(1) True by (simp add: extract_inclusive_def Let_def)
    then show ?thesis using b ub bs line_cents_append [OF il(5) bs(1)] pc
      by (intro exI [of _ ?b] exI [of _ "ls @ distribute_tax D s ?b (dl_minus D u ?b) ?ps (dl_of_num D (Fin 0))"] exI [of _ "as @ bs"])
        (auto simp: percent_count_def)
  qed
qed

subsection \<open>Exclusive taxes\<close>

lemma tax_round_cents:
  assumes "exact_lib D v" "v a = of_int c / 100"
  shows "v (tax_round D a) = of_int c / 100"
  using pg_round_cents [of 2 c] by (simp add: tax_round_def dec_toDP [OF exact_libD(1) [OF assms(1)]] assms(2))

lemma exclusive_cents:
  assumes "exact_lib D v" "js_decimal x = q" "v un = of_int u / 100" "\<bar>u\<bar> \<le> 2 ^ 42"
  shows "(\<forall>t \<in> set ts. tax_in_cents q t) \<Longrightarrow> n + length ts \<le> 4 \<Longrightarrow> v running = of_int r / 100 \<Longrightarrow> \<bar>r\<bar> \<le> 2 ^ 42 * 2 ^ n \<Longrightarrow>
    \<exists>as. line_cents (exclusive_loop D (Fin x) s un ts running) as \<and> \<bar>r + sum_list as\<bar> \<le> 2 ^ 46"
proof (induction ts arbitrary: n running r)
  case Nil
  have "(2 :: int) ^ n \<le> 2 ^ 4" using Nil(2) by (intro power_increasing) simp_all
  then show ?case using Nil(4) by (intro exI [of _ "[]"]) simp
next
  case (Cons t ts)
  note D = exact_libD(1) [OF assms(1)]
  let ?base = "if tx_isCompound t then running else un" and ?bc = "if tx_isCompound t then r else u"
  let ?M = "2 ^ 42 * 2 ^ n :: int"
  have n: "(1 :: int) \<le> 2 ^ n" "(2 :: int) ^ n \<le> 2 ^ 3" using Cons.prems(2) by (simp_all add: power_increasing [of n 3 2, simplified])
  have M: "2 ^ 42 \<le> ?M" "?M \<le> 2 ^ 45" using n by simp_all
  have uM: "\<bar>u\<bar> \<le> ?M" using assms(4) M(1) by linarith
  have bc: "v ?base = of_int ?bc / 100" "\<bar>?bc\<bar> \<le> ?M" using assms(3) Cons.prems(3,4) uM by simp_all
  have "(2 :: int) ^ 45 \<le> 2 ^ 46" by simp
  then have bb: "\<bar>?bc\<bar> \<le> 2 ^ 46" using order.trans [OF bc(2) M(2)] order.trans by blast
  let ?a = "tax_round D (case tx_type t of FIXED \<Rightarrow> fixed_tax D (Fin x) t | PERCENTAGE \<Rightarrow> dl_times D ?base (tax_fraction D t))"
  have "\<exists>c. v ?a = of_int c / 100 \<and> \<bar>c\<bar> \<le> ?M"
  proof (cases "tx_type t")
    case PERCENTAGE
    then obtain j where "percent_cents t j" using Cons.prems(1) by (auto simp: tax_in_cents_def)
    from percent_of_cents(1) [OF assms(1) bc(1) bb this] obtain c
      where c: "v (tax_round D (dl_times D ?base (tax_fraction D t))) = of_int c / 100" "\<bar>c\<bar> \<le> \<bar>?bc\<bar>" by blast
    have "\<bar>c\<bar> \<le> ?M" using c(2) bc(2) by linarith
    then show ?thesis using c(1) unfolding PERCENTAGE TaxType.case by blast
  next
    case FIXED
    then obtain f where f: "fixed_cents q t f" using Cons.prems(1) by (auto simp: tax_in_cents_def)
    have "0 \<le> f" "f \<le> 2 ^ 39" using f by (simp_all add: fixed_cents_def)
    then have "\<bar>f\<bar> \<le> 2 ^ 42" by simp
    then have "\<bar>f\<bar> \<le> ?M" using M(1) order.trans by blast
    then show ?thesis using tax_round_cents [OF assms(1) fixed_value [OF assms(1,2) f]] unfolding FIXED TaxType.case by blast
  qed
  then obtain c where c: "v ?a = of_int c / 100" "\<bar>c\<bar> \<le> ?M" by blast
  have rc: "\<bar>r + c\<bar> \<le> 2 ^ 42 * 2 ^ Suc n" using Cons.prems(4) c(2) by simp
  have le: "x \<le> 2 ^ 46" "x \<le> 2 ^ 47" "x \<le> 2 ^ 60" if "x \<le> ?M" for x :: int using order.trans [OF that M(2)] by simp_all
  have "\<bar>r\<bar> \<le> 2 ^ 60" "\<bar>c\<bar> \<le> 2 ^ 60" using le(3) Cons.prems(4) c(2) by blast+
  then have p: "v (dl_plus D running ?a) = of_int (r + c) / 100" using plus_cents [OF D Cons.prems(3) c(1)] by blast
  from Cons.IH [OF _ _ p rc] Cons.prems(1,2) obtain as
    where as: "line_cents (exclusive_loop D (Fin x) s un ts (dl_plus D running ?a)) as" "\<bar>r + c + sum_list as\<bar> \<le> 2 ^ 46" by auto
  have c46: "\<bar>c\<bar> \<le> 2 ^ 46" "\<bar>c\<bar> \<le> 2 ^ 47" using le(1,2) c(2) by blast+
  have "line_cents (exclusive_loop D (Fin x) s un (t # ts) running) (c # as)"
    unfolding exclusive_loop.simps Let_def line_cents_simps using line_amount [OF D c(1) c46(2)] c46(1) as(1) by blast
  then show ?case using as(2) by (intro exI [of _ "c # as"]) (simp add: add.assoc)
qed

subsection \<open>Sums\<close>

lemma fold_cents:
  assumes "\<And>z e a. v z = of_int e / 100 \<Longrightarrow> \<bar>e\<bar> \<le> 2 ^ 60 \<Longrightarrow> \<bar>a\<bar> \<le> 2 ^ 46 \<Longrightarrow> v (f z (Fin (cents a))) = of_int (e + a) / 100"
    "v z = 0" "\<forall>a \<in> set as. \<bar>a\<bar> \<le> 2 ^ 46" "length as \<le> 2 ^ 10"
  shows "v (foldl f z (map (\<lambda>a. Fin (cents a)) as)) = of_int (sum_list as) / (100 :: rat)"
proof -
  have "v (foldl f z (map (\<lambda>a. Fin (cents a)) as)) = of_int (e + sum_list as) / 100"
    if "v z = of_int e / 100" "\<bar>e\<bar> \<le> 2 ^ 46 * int m" "m + length as \<le> 2 ^ 10" "\<forall>a \<in> set as. \<bar>a\<bar> \<le> 2 ^ 46" for z e m as
    using that
  proof (induction as arbitrary: z e m)
    case (Cons a as)
    have "int m \<le> 2 ^ 10" using Cons.prems(3) by simp
    then have e: "\<bar>e\<bar> \<le> 2 ^ 60" using Cons.prems(2) by simp
    have "\<bar>a\<bar> \<le> 2 ^ 46" using Cons.prems(4) by simp
    then have "v (f z (Fin (cents a))) = of_int (e + a) / 100" "\<bar>e + a\<bar> \<le> 2 ^ 46 * int (Suc m)"
      using assms(1) [OF Cons.prems(1) e] Cons.prems(2) by (simp_all add: algebra_simps)
    from Cons.IH [OF this] Cons.prems(3,4) show ?case by (simp add: add.assoc)
  qed simp
  from this [of z 0 0 as] show ?thesis using assms(2-4) by simp
qed

lemma sum_numbers_cents:
  assumes "exact_lib D v" "\<forall>a \<in> set as. \<bar>a\<bar> \<le> 2 ^ 46" "length as \<le> 2 ^ 10"
  shows "v (sum_numbers D (map (\<lambda>a. Fin (cents a)) as)) = of_int (sum_list as) / 100"
proof -
  note D = exact_libD(1) [OF assms(1)]
  have "v (dl_plus D z (dl_of_num D (Fin (cents a)))) = of_int (e + a) / 100" if "v z = of_int e / 100" "\<bar>e\<bar> \<le> 2 ^ 60" "\<bar>a\<bar> \<le> 2 ^ 46" for z e a
    using plus_cents [OF D that(1) _ that(2)] that(3) by (simp add: dec_num [OF D])
  then show ?thesis unfolding sum_numbers_def using assms(2,3) dec_zero_one [OF assms(1)]
    by (intro fold_cents [of v "\<lambda>s x. dl_plus D s (dl_of_num D x)"]) simp_all
qed

subsection \<open>The whole computation\<close>

lemma seq_sort_set [simp]: "set (js_sort seq_compare xs) = set xs" "length (js_sort seq_compare xs) = length xs"
proof -
  have "set (js_insert c x ys) = insert x (set ys)" "length (js_insert c x ys) = Suc (length ys)" for c :: "TaxDefinition \<Rightarrow> TaxDefinition \<Rightarrow> int" and x ys
    by (induction ys) auto
  then show "set (js_sort seq_compare xs) = set xs" "length (js_sort seq_compare xs) = length xs"
    by (induction xs) (simp_all add: js_sort_def)
qed

lemma lines_length:
  "length (exclusive_loop D y s un ts running) = length ts"
  "length (distribute_tax D s base whole ts share) = length ts"
  "inclusive_loop D y s ts a c = (u, c', ls) \<Longrightarrow> length ls \<le> length ts"
proof -
  show "length (exclusive_loop D y s un ts running) = length ts" by (induction ts arbitrary: running) (simp_all add: Let_def)
  show "length (distribute_tax D s base whole ts share) = length ts" by (induction ts arbitrary: share) (simp_all add: Let_def)
  show "inclusive_loop D y s ts a c = (u, c', ls) \<Longrightarrow> length ls \<le> length ts"
    by (induction ts arbitrary: a c ls) (force simp: Let_def split: TaxType.splits prod.splits)+
qed

lemma extract_length:
  assumes "extract_inclusive D y s ts a = (u, ls)"
  shows "length ls \<le> 2 * length ts"
proof -
  obtain w c ms where m: "inclusive_loop D y s ts a (dl_of_num D (Fin 0)) = (w, c, ms)" by (metis prod_cases3)
  have "length (filter (\<lambda>t. tx_type t = PERCENTAGE) ts) \<le> length ts" by (rule length_filter_le)
  moreover have "length ls = length ms \<or> length ls = length ms + length (filter (\<lambda>t. tx_type t = PERCENTAGE) ts)"
    using assms m by (auto simp: extract_inclusive_def Let_def lines_length split: if_splits)
  ultimately show ?thesis using lines_length(3) [OF m] by linarith
qed

text \<open>Which lines are inclusive.\<close>

lemma line_kind [simp]: "tn_isInclusive (tax_line D s i t b a) = i"
  by (simp add: tax_line_def)

lemma lines_kind:
  "\<forall>l \<in> set (exclusive_loop D y s un ts running). \<not> tn_isInclusive l"
  "\<forall>l \<in> set (distribute_tax D s base whole ts share). tn_isInclusive l"
  "inclusive_loop D y s ts a c = (u, c', ls) \<Longrightarrow> \<forall>l \<in> set ls. tn_isInclusive l"
proof -
  show "\<forall>l \<in> set (exclusive_loop D y s un ts running). \<not> tn_isInclusive l" by (induction ts arbitrary: running) (simp_all add: Let_def)
  show "\<forall>l \<in> set (distribute_tax D s base whole ts share). tn_isInclusive l" by (induction ts arbitrary: share) (simp_all add: Let_def)
  show "inclusive_loop D y s ts a c = (u, c', ls) \<Longrightarrow> \<forall>l \<in> set ls. tn_isInclusive l"
    by (induction ts arbitrary: a c ls) (force simp: Let_def split: TaxType.splits prod.splits)+
qed

lemma extract_kind: "extract_inclusive D y s ts a = (u, ls) \<Longrightarrow> \<forall>l \<in> set ls. tn_isInclusive l"
proof -
  assume e: "extract_inclusive D y s ts a = (u, ls)"
  obtain w c ms where m: "inclusive_loop D y s ts a (dl_of_num D (Fin 0)) = (w, c, ms)" by (metis prod_cases3)
  then show ?thesis using e lines_kind(3) [OF m]
    by (auto simp: extract_inclusive_def Let_def split: if_splits dest: bspec [OF lines_kind(2)])
qed

lemma num_or_zero [simp]: "num_or (Fin a) (Fin 0) = Fin a"
  by (simp add: num_or_def truthy_num_def)

definition taxes_in_cents :: "rat \<Rightarrow> TaxDefinition list \<Rightarrow> bool" where
  "taxes_in_cents q taxes \<longleftrightarrow> length (filter tx_isActive taxes) \<le> 4 \<and> (\<forall>t \<in> set taxes. tx_isActive t \<longrightarrow> tax_in_cents q t)"

text \<open>What is computed, in cents: the amount without tax, the inclusive and the exclusive taxes.\<close>

definition computed_cents :: "TaxComputation \<Rightarrow> int \<Rightarrow> int list \<Rightarrow> int list \<Rightarrow> bool" where
  "computed_cents r u as bs \<longleftrightarrow> tc_untaxedAmount r = Fin (cents u) \<and> tc_totalTax r = Fin (cents (sum_list as + sum_list bs))
     \<and> tc_totalAmount r = Fin (cents (u + sum_list as + sum_list bs))
     \<and> map tn_taxAmount (filter tn_isInclusive (tc_taxLines r)) = map (\<lambda>a. Fin (cents a)) as
     \<and> map tn_taxAmount (filter (\<lambda>l. \<not> tn_isInclusive l) (tc_taxLines r)) = map (\<lambda>a. Fin (cents a)) bs
     \<and> (\<forall>a \<in> set as \<union> set bs. \<bar>a\<bar> \<le> 2 ^ 46)"

lemma computed_taxes:
  assumes "exact_lib D v" "js_decimal x = q" "taxes_in_cents q taxes" "\<bar>k\<bar> \<le> 2 ^ 39"
  shows "\<exists>u as bs. computed_cents (computeTaxes D (Fin (cents k)) taxes (Fin x) s) u as bs \<and> u + sum_list as = k"
proof -
  note D = exact_libD(1) [OF assms(1)]
  let ?o = "dl_of_num D (Fin (cents k))"
  have o: "v ?o = of_int k / 100" using assms(4) by (simp add: dec_num [OF D])
  have k47: "\<bar>k\<bar> \<le> 2 ^ 47" "\<bar>k\<bar> \<le> 2 ^ 42" using assms(4) by simp_all
  have on: "dl_toNumber D ?o = Fin (cents k)" using js_round_rat_cents [OF k47(1)] by (simp only: dec_toNumber [OF D] o)
  have c0: "cents 0 = 0" by (simp add: cents_def)
  consider "taxes = []" | "taxes \<noteq> []" "dl_isZero D ?o \<and> \<not> (\<exists>t \<in> set taxes. tx_isActive t \<and> tx_type t = FIXED)"
    | "taxes \<noteq> []" "\<not> (dl_isZero D ?o \<and> \<not> (\<exists>t \<in> set taxes. tx_isActive t \<and> tx_type t = FIXED))" by blast
  then show ?thesis
  proof cases
    case 1
    then show ?thesis using on c0 k47 by (intro exI [of _ k] exI [of _ "[]"]) (simp add: computeTaxes_def computed_cents_def)
  next
    case 2
    then have "k = 0" using dec_isZero [OF D] o by simp
    then show ?thesis using 2 c0 by (intro exI [of _ 0] exI [of _ "[]"]) (simp add: computeTaxes_def computed_cents_def)
  next
    case 3
    let ?in = "filter tx_isInclusive (active_taxes taxes)" and ?ex = "filter (\<lambda>t. \<not> tx_isInclusive t) (active_taxes taxes)"
    have at: "set (active_taxes taxes) = {t \<in> set taxes. tx_isActive t}" "length (active_taxes taxes) \<le> 4"
      using assms(3) by (auto simp: active_taxes_def taxes_in_cents_def)
    have it: "\<forall>t \<in> set ?in. tax_in_cents q t" "\<forall>t \<in> set ?ex. tax_in_cents q t" using assms(3) at(1) by (auto simp: taxes_in_cents_def)
    have il: "length ?in \<le> 4" "0 + length ?ex \<le> 4" using order.trans [OF length_filter_le at(2)] by simp_all
    obtain u ls as where ext: "extract_inclusive D (Fin x) s ?in ?o = (u, ls)" "v u = of_int (k - sum_list as) / 100"
      "\<bar>k - sum_list as\<bar> \<le> 2 ^ 42" "line_cents ls as" "?in = [] \<longrightarrow> as = []"
      using extract_cents [OF assms(1,2) it(1) il(1) o assms(4)] by blast
    let ?U = "k - sum_list as"
    obtain bs where exc: "line_cents (exclusive_loop D (Fin x) s u ?ex u) bs" "\<bar>?U + sum_list bs\<bar> \<le> 2 ^ 46"
      using exclusive_cents [OF assms(1,2) ext(2,3) it(2) il(2) ext(2), of s] ext(3) by auto
    let ?lines = "ls @ exclusive_loop D (Fin x) s u ?ex u"
    have lc: "line_cents ?lines (as @ bs)" using line_cents_append [OF ext(4) exc(1)] .
    then have lm: "map tn_taxAmount ?lines = map (\<lambda>a. Fin (cents a)) (as @ bs)" "\<forall>a \<in> set (as @ bs). \<bar>a\<bar> \<le> 2 ^ 46"
      unfolding line_cents_def by blast+
    have "length (as @ bs) = length ?lines" using arg_cong [OF lm(1), of length] by simp
    then have len: "length (as @ bs) \<le> 2 ^ 10" using extract_length [OF ext(1)] il lines_length(1) [of D "Fin x" s u ?ex u] by simp
    have tt: "v (sum_numbers D (map tn_taxAmount ?lines)) = of_int (sum_list (as @ bs)) / 100"
      unfolding lm(1) by (rule sum_numbers_cents [OF assms(1) lm(2) len])
    let ?T = "sum_list (as @ bs)"
    have sb: "\<bar>sum_list bs\<bar> \<le> 2 ^ 46 + 2 ^ 42" using ext(3) exc(2) by linarith
    have tb: "\<bar>?T\<bar> \<le> 2 ^ 47" "\<bar>?U + ?T\<bar> \<le> 2 ^ 47" "\<bar>?U\<bar> \<le> 2 ^ 47" using sb ext(3) assms(4) by simp_all
    have U: "dl_toNumber D u = Fin (cents ?U)" using js_round_rat_cents [OF tb(3)] by (simp only: dec_toNumber [OF D] ext(2))
    have T: "dl_toNumber D (sum_numbers D (map tn_taxAmount ?lines)) = Fin (cents ?T)"
      using js_round_rat_cents [OF tb(1)] by (simp only: dec_toNumber [OF D] tt)
    have "v (dl_plus D u (sum_numbers D (map tn_taxAmount ?lines))) = of_int (?U + ?T) / 100"
      using plus_cents [OF D ext(2) tt] tb by simp
    then have A: "dl_toNumber D (dl_plus D u (sum_numbers D (map tn_taxAmount ?lines))) = Fin (cents (?U + ?T))"
      using js_round_rat_cents [OF tb(2)] by (simp only: dec_toNumber [OF D])
    have nb: "?ex = [] \<Longrightarrow> bs = []" using exc(1) by (auto simp: line_cents_def)
    let ?r = "computeTaxes D (Fin (cents k)) taxes (Fin x) s"
    have R: "?r = \<lparr>tc_untaxedAmount = dl_toNumber D u, tc_totalTax = dl_toNumber D (sum_numbers D (map tn_taxAmount ?lines)),
        tc_totalAmount = dl_toNumber D (if ?ex = [] then ?o else dl_plus D u (sum_numbers D (map tn_taxAmount ?lines))), tc_taxLines = ?lines\<rparr>"
      using 3 unfolding computeTaxes_def Let_def num_or_zero ext(1) case_prod_conv by (simp only: if_False)
    have lk: "filter tn_isInclusive ?lines = ls" "filter (\<lambda>l. \<not> tn_isInclusive l) ?lines = exclusive_loop D (Fin x) s u ?ex u"
      using extract_kind [OF ext(1)] lines_kind(1) [of D "Fin x" s u ?ex u] by (simp_all add: filter_True filter_False)
    have parts: "map tn_taxAmount ls = map (\<lambda>a. Fin (cents a)) as"
      "map tn_taxAmount (exclusive_loop D (Fin x) s u ?ex u) = map (\<lambda>a. Fin (cents a)) bs" using ext(4) exc(1) by (simp_all add: line_cents_def)
    have "computed_cents ?r ?U as bs"
      unfolding R computed_cents_def using U T A lk parts lm(2) nb on by (cases "?ex = []") (simp_all add: Un_def)
    then show ?thesis by fastforce
  qed
qed

end
