(* ===== verification/TaxAgreement.thy ===== *)
theory TaxAgreement imports TaxClient TaxExact "HOL-Library.Multiset"
begin

section \<open>Client and server agree on taxes\<close>

text \<open>
  With the snapshot of the same tables, the customer as the API returns it and the product fields of the
  catalog, the preview of the point of sale gives every line the taxes and amounts the server gives it.
\<close>

definition pos_customer :: "CustomerTaxProfileRow \<Rightarrow> PosCustomer" where
  "pos_customer c = \<lparr>pc_id = cu_customerId c, pc_profile = profile_of_row c\<rparr>"

text \<open>Ids are the lower-case text of UUIDs, and the id of a customer is its primary key.\<close>

definition tax_keys_ok :: "TaxDb \<Rightarrow> bool" where
  "tax_keys_ok db \<longleftrightarrow> distinct (map cu_customerId (tb_customers db))
     \<and> (\<forall>c \<in> set (tb_customers db). cu_customerId c \<noteq> [] \<and> js_lower (cu_customerId c) = cu_customerId c)
     \<and> (\<forall>m \<in> set (tb_mappings db). js_lower (fst m) = fst m) \<and> (\<forall>rows. mset (tb_scan db rows) = mset rows)"

definition customer_known :: "TaxDb \<Rightarrow> PosCustomer option \<Rightarrow> bool" where
  "customer_known db selected \<longleftrightarrow> (case selected of None \<Rightarrow> True | Some p \<Rightarrow> p \<in> pos_customer ` set (tb_customers db))"

definition line_ids :: "TaxDocumentLine list \<Rightarrow> string list" where
  "line_ids lines = List.map_filter (\<lambda>l. if isUuidProductId (tq_productId l) then tq_productId l else None) lines"

definition catalog_lines :: "TaxDb \<Rightarrow> TaxDocumentLine list \<Rightarrow> bool" where
  "catalog_lines db lines \<longleftrightarrow> (\<forall>l \<in> set lines. enriched_line (loadProductTaxBridge (line_ids lines) db) False l = l)"

definition sale_input :: "TaxDocumentLine list \<Rightarrow> PosCustomer option \<Rightarrow> TaxOverride option \<Rightarrow> DocumentTaxInput" where
  "sale_input lines selected taxOverride =
     \<lparr>di_customerId = map_option pc_id selected, di_documentDate = None, di_scope = Some ''SALE'', di_lines = lines,
      di_applyTenantDefault = False, di_preferLine = False, di_taxOverride = taxOverride\<rparr>"

subsection \<open>Mappings\<close>

lemma map_filter_pair_lookup:
  "distinct ps \<Longrightarrow> map_of (List.map_filter (\<lambda>p. map_option (Pair p) (f p)) ps) q = (if q \<in> set ps then f q else None)"
  by (induction ps) (auto simp: map_filter_simps split: option.splits)

lemma fold_map_updates: "foldl (\<lambda>m row. m(fst row \<mapsto> snd row)) m xs = m ++ map_of (rev xs)"
  by (induction xs arbitrary: m) (auto simp: map_add_def fun_eq_iff split: option.splits)

lemma distinct_map_filter_pair: "distinct ps \<Longrightarrow> distinct (map fst (List.map_filter (\<lambda>p. map_option (Pair p) (f p)) ps))"
  by (induction ps) (auto simp: map_filter_simps map_filter_def split: option.splits)

lemma map_of_rev_distinct: "distinct (map fst xs) \<Longrightarrow> map_of (rev xs) = map_of xs"
  by (intro map_of_inject_set [THEN iffD2]) (simp_all add: rev_map [symmetric])

lemma mapped_rows_none: "p \<notin> fst ` set (tb_mappings db) \<Longrightarrow> mapped_rows p db = []"
  unfolding mapped_rows_def by (induction "tb_mappings db") (auto simp: map_filter_def filter_empty_conv)

lemma snapshot_mappings:
  assumes "tax_keys_ok db" "p \<in> set ids"
  shows "getProductTaxMappingsForPreview (Some (loadTaxPreviewSnapshot today scope db)) p = loadProductTaxMappings ids scope db p"
proof -
  let ?pids = "sort (remdups (map fst (tb_mappings db)))"
  have d: "distinct ?pids" by simp
  have low: "q \<in> fst ` set (tb_mappings db) \<Longrightarrow> js_lower q = q" for q using assms(1) by (auto simp: tax_keys_ok_def)
  let ?rows = "List.map_filter (\<lambda>p. map_option (Pair p) (loadProductTaxMappings ?pids scope db p)) ?pids"
  have "map_of (rev ?rows) = map_of ?rows" by (rule map_of_rev_distinct [OF distinct_map_filter_pair [OF d]])
  then have "getProductTaxMappingsForPreview (Some (loadTaxPreviewSnapshot today scope db)) p = map_of ?rows p"
    by (simp add: getProductTaxMappingsForPreview_def loadTaxPreviewSnapshot_def Let_def fold_map_updates)
  also have "\<dots> = (if p \<in> set ?pids then loadProductTaxMappings ?pids scope db p else None)" by (rule map_filter_pair_lookup [OF d])
  also have "\<dots> = loadProductTaxMappings ids scope db p"
  proof (cases "p \<in> fst ` set (tb_mappings db)")
    case True
    then have m: "p \<in> set ?pids" by simp
    have "p \<in> js_lower ` set ?pids" "p \<in> js_lower ` set ids"
      using image_eqI [of p js_lower p, OF low [OF True, symmetric] m] image_eqI [of p js_lower p, OF low [OF True, symmetric] assms(2)] by simp_all
    then show ?thesis using True by (simp add: loadProductTaxMappings_def)
  next
    case False
    have "tb_scan db [] = []" using assms(1) by (simp add: tax_keys_ok_def) (metis mset_zero_iff)
    then show ?thesis using mapped_rows_none [OF False] by (simp add: loadProductTaxMappings_def by_sequence_def)
  qed
  finally show ?thesis .
qed

subsection \<open>Customer\<close>

lemma find_hit: "find P xs = Some x \<Longrightarrow> x \<in> set xs \<and> P x"
  by (auto simp: find_Some_iff)

lemma find_unique: "distinct (map f xs) \<Longrightarrow> x \<in> set xs \<Longrightarrow> find (\<lambda>y. f y = f x) xs = Some x"
  by (induction xs) auto

lemma known_row: "tax_keys_ok db \<Longrightarrow> c \<in> set (tb_customers db) \<Longrightarrow> loadCustomerTaxProfile (cu_customerId c) db = Some c"
  using find_unique [of cu_customerId "tb_customers db" c] by (auto simp: loadCustomerTaxProfile_def tax_keys_ok_def)

text \<open>A cached profile is the row of the customer, less its dates.\<close>

lemma cached_profile:
  assumes "tax_keys_ok db" "c \<in> set (tb_customers db)"
    "getCachedCustomerTaxProfile (Some (loadTaxPreviewSnapshot today scope db)) (Some (cu_customerId c)) = Some p"
  shows "p = (profile_of_row c)\<lparr>tz_taxEffectiveFrom := None, tz_vatRegistrationDate := None\<rparr>"
proof -
  have "(cu_customerId c, p) \<in> set (sp_customerProfiles (loadTaxPreviewSnapshot today scope db))"
    using assms(3) by (auto simp: getCachedCustomerTaxProfile_def dest!: find_hit split: if_splits)
  then obtain d where d: "d \<in> set (tb_customers db)" "cu_customerId d = cu_customerId c"
      "p = (profile_of_row d)\<lparr>tz_taxEffectiveFrom := None, tz_vatRegistrationDate := None\<rparr>"
    by (auto simp: loadTaxPreviewSnapshot_def Let_def)
  have "d = c" using assms(1,2) d(1,2) by (auto simp: tax_keys_ok_def distinct_map inj_on_def)
  then show ?thesis using d(3) by simp
qed

lemma cached_profile_cases:
  assumes "tax_keys_ok db" "c \<in> set (tb_customers db)"
  shows "getCachedCustomerTaxProfile (Some (loadTaxPreviewSnapshot today scope db)) (Some (cu_customerId c))
    \<in> {None, Some ((profile_of_row c)\<lparr>tz_taxEffectiveFrom := None, tz_vatRegistrationDate := None\<rparr>)}"
  using cached_profile [OF assms] by (cases "getCachedCustomerTaxProfile (Some (loadTaxPreviewSnapshot today scope db)) (Some (cu_customerId c))") auto

lemma known_profile:
  assumes "tax_keys_ok db" "c \<in> set (tb_customers db)"
  shows "pos_customer_profile (Some (loadTaxPreviewSnapshot today scope db)) (Some (pos_customer c)) = profile_of_row c"
  using cached_profile_cases [OF assms, of today scope]
  by (auto simp: pos_customer_profile_def pos_customer_def profile_of_row_def Let_def str_or_def truthy_str_def split: option.splits)

lemma exempt_cached:
  assumes "tax_keys_ok db" "c \<in> set (tb_customers db)"
  shows "isCustomerTaxExemptCached (Some (loadTaxPreviewSnapshot today scope db)) (Some (cu_customerId c)) \<or> cu_taxExempt c \<or> cu_taxProfile c = ''EXEMPT''
    \<longleftrightarrow> isCustomerTaxExempt (cu_customerId c) today db \<or> cu_taxExempt c \<or> cu_taxProfile c = ''EXEMPT''"
proof -
  have k: "cu_customerId c \<noteq> []" "js_lower (cu_customerId c) = cu_customerId c" using assms by (auto simp: tax_keys_ok_def)
  have own: "d = c" if "d \<in> set (tb_customers db)" "cu_customerId d = cu_customerId c" for d
    using assms that by (auto simp: tax_keys_ok_def distinct_map inj_on_def)
  let ?s = "loadTaxPreviewSnapshot today scope db"
  have "cu_customerId c \<in> set (sp_exemptCustomerIds ?s) \<Longrightarrow> isCustomerTaxExempt (cu_customerId c) today db \<or> cu_taxExempt c"
    using own by (auto simp: loadTaxPreviewSnapshot_def Let_def)
  moreover have "cu_customerId c \<in> set (sp_exemptCustomerIds ?s)" if x: "isCustomerTaxExempt (cu_customerId c) today db"
  proof -
    obtain e where "e \<in> set (tb_exemptions db)" "ex_customerId e = cu_customerId c" using x k(2) by (auto simp: isCustomerTaxExempt_def)
    then have "cu_customerId c \<in> ex_customerId ` {e \<in> set (tb_exemptions db). isCustomerTaxExempt (ex_customerId e) today db}"
      using x by (intro image_eqI [of _ _ e]) simp_all
    then show ?thesis by (simp add: loadTaxPreviewSnapshot_def Let_def)
  qed
  ultimately show ?thesis
    using cached_profile_cases [OF assms, of today scope] k(1)
    by (auto simp: isCustomerTaxExemptCached_def truthy_str_def profile_of_row_def str_or_def split: if_splits)
qed

subsection \<open>Lines\<close>

lemma untaxed_line_result: "line_result D sale l ([], g) = untaxed_line D g l"
  by (simp add: line_result_def untaxed_line_def computeTaxes_def Let_def)

text \<open>Two contexts in which no customer rule ends the search give a line the same taxes when they agree on what it reads.\<close>

lemma resolve_same:
  assumes "tk_taxCatalog a = tk_taxCatalog b" "tk_taxInclusive a = tk_taxInclusive b" "\<not> tk_preferLine a" "\<not> tk_preferLine b"
    "\<not> tk_applyTenantDefault a" "\<not> tk_applyTenantDefault b" "resolveCustomerTaxGate today a = None" "resolveCustomerTaxGate today b = None"
    "\<not> tk_customerExempt a" "\<not> tk_customerExempt b" "customer_rate a = customer_rate b"
    "profileIsVatRegisteredActive today (tk_customerProfile a) (tk_documentDate a) = profileIsVatRegisteredActive today (tk_customerProfile b) (tk_documentDate b)"
    "isUuidProductId (tq_productId line) \<Longrightarrow> tk_productMappings a (the (tq_productId line)) = tk_productMappings b (the (tq_productId line))"
  shows "resolvePreviewLineTaxes today line a = resolvePreviewLineTaxes today line b"
  using assms(13) by (simp add: resolvePreviewLineTaxes_def Let_def assms(1-12))

lemma active_today: "profileIsVatRegisteredActive today p (Some today) = profileIsVatRegisteredActive today p None"
  by (cases p) (simp_all add: profileIsVatRegisteredActive_def str_or_def Let_def)

definition server_profile :: "PosCustomer option \<Rightarrow> TaxDb \<Rightarrow> CustomerTaxProfileRow option" where
  "server_profile selected db = Option.bind selected (\<lambda>p. loadCustomerTaxProfile (pc_id p) db)"

lemma known_cases:
  assumes "tax_keys_ok db" "customer_known db selected"
  obtains "selected = None" | c where "selected = Some (pos_customer c)" "c \<in> set (tb_customers db)"
    "loadCustomerTaxProfile (cu_customerId c) db = Some c" "cu_customerId c \<noteq> []"
  using assms known_row [OF assms(1)] by (cases selected) (auto simp: customer_known_def tax_keys_ok_def)

definition sale_exempt :: "string \<Rightarrow> PosCustomer option \<Rightarrow> TaxDb \<Rightarrow> bool" where
  "sale_exempt today selected db \<longleftrightarrow> (case selected of None \<Rightarrow> False | Some p \<Rightarrow> isCustomerTaxExempt (pc_id p) today db)"

abbreviation sale_context :: "string \<Rightarrow> TaxDb \<Rightarrow> bool option \<Rightarrow> PosCustomer option \<Rightarrow> TaxOverride option \<Rightarrow> TaxContext" where
  "sale_context today db \<equiv> pos_tax_context (Some (loadTaxPreviewSnapshot today ''SALE'' db))"

lemma blank_profile:
  "pos_customer_profile cache None = \<lparr>tz_vatRegistered = Some False, tz_taxExempt = Some False, tz_taxProfile = None, tz_defaultVatRate = None,
     tz_taxEffectiveFrom = None, tz_vatRegistrationDate = None\<rparr>"
  by (simp add: pos_customer_profile_def getCachedCustomerTaxProfile_def Let_def)

text \<open>The customer rules end the search alike on both sides.\<close>

lemma gates_agree:
  fixes today :: string and tenant :: "bool option" and ov :: "TaxOverride option"
  assumes "tax_keys_ok db" "customer_known db selected"
  defines "a \<equiv> sale_context today db tenant selected ov"
    and "g \<equiv> customer_gate today (sale_exempt today selected db) (server_profile selected db)
      (case tb_settings db of None \<Rightarrow> False | Some s \<Rightarrow> ts_vatOutputRequiresRegisteredCustomer s) today"
  shows "resolveCustomerTaxGate today a = g" "tk_customerExempt a \<Longrightarrow> g = Some EXEMPT" "sale_exempt today selected db \<Longrightarrow> g = Some EXEMPT"
proof -
  have "resolveCustomerTaxGate today a = g \<and> (tk_customerExempt a \<longrightarrow> g = Some EXEMPT) \<and> (sale_exempt today selected db \<longrightarrow> g = Some EXEMPT)"
  proof (rule known_cases [OF assms(1,2)])
    assume n: "selected = None"
    have "tk_customerExempt a = False" "tk_customerProfile a = Some (pos_customer_profile None None)" "server_profile selected db = None"
        "sale_exempt today selected db = False" "tk_documentDate a = None"
        "tk_vatOutputRequiresRegisteredCustomer a = (case tb_settings db of None \<Rightarrow> False | Some s \<Rightarrow> ts_vatOutputRequiresRegisteredCustomer s)"
      by (auto simp: a_def n pos_tax_context_def blank_profile isCustomerTaxExemptCached_def server_profile_def sale_exempt_def Let_def loadTaxPreviewSnapshot_def)
    then show ?thesis
      by (simp add: g_def customer_gate_def server_context_def resolveCustomerTaxGate_def Let_def blank_profile profileIsVatRegisteredActive_def)
  next
    fix c assume c: "selected = Some (pos_customer c)" "c \<in> set (tb_customers db)" "loadCustomerTaxProfile (cu_customerId c) db = Some c"
    let ?E = "isCustomerTaxExemptCached (Some (loadTaxPreviewSnapshot today ''SALE'' db)) (Some (cu_customerId c))"
    have x: "?E \<or> cu_taxExempt c \<or> cu_taxProfile c = ''EXEMPT'' \<longleftrightarrow> isCustomerTaxExempt (cu_customerId c) today db \<or> cu_taxExempt c \<or> cu_taxProfile c = ''EXEMPT''"
      by (rule exempt_cached [OF assms(1) c(2)])
    have "tk_customerExempt a = (?E \<or> cu_taxExempt c)" "tk_customerProfile a = Some (profile_of_row c)" "server_profile selected db = Some c"
        "sale_exempt today selected db = isCustomerTaxExempt (cu_customerId c) today db" "tk_documentDate a = None"
        "tk_vatOutputRequiresRegisteredCustomer a = (case tb_settings db of None \<Rightarrow> False | Some s \<Rightarrow> ts_vatOutputRequiresRegisteredCustomer s)"
      using c(3) known_profile [OF assms(1) c(2), of today "''SALE''"]
      by (simp_all add: a_def c(1) pos_tax_context_def server_profile_def sale_exempt_def Let_def loadTaxPreviewSnapshot_def) (simp_all add: pos_customer_def profile_of_row_def)
    then show ?thesis using x
      by (auto simp: g_def customer_gate_def server_context_def resolveCustomerTaxGate_def Let_def active_today profile_of_row_def str_or_def split: if_splits)
  qed
  then show "resolveCustomerTaxGate today a = g" "tk_customerExempt a \<Longrightarrow> g = Some EXEMPT" "sale_exempt today selected db \<Longrightarrow> g = Some EXEMPT" by auto
qed

lemma profiles_agree:
  fixes tenant :: "bool option" and ov :: "TaxOverride option" and today :: string and inclusive :: bool and r :: jnum
    and mappings :: "string \<Rightarrow> TaxDefinition list option" and catalog :: "TaxDefinition list"
  assumes "tax_keys_ok db" "customer_known db selected"
  defines "a \<equiv> sale_context today db tenant selected ov"
    and "b \<equiv> server_context catalog mappings r False False (server_profile selected db) today inclusive"
  shows "customer_rate a = customer_rate b"
    "profileIsVatRegisteredActive today (tk_customerProfile a) (tk_documentDate a) = profileIsVatRegisteredActive today (tk_customerProfile b) (tk_documentDate b)"
proof -
  have "customer_rate a = customer_rate b \<and> profileIsVatRegisteredActive today (tk_customerProfile a) (tk_documentDate a)
      = profileIsVatRegisteredActive today (tk_customerProfile b) (tk_documentDate b)"
  proof (rule known_cases [OF assms(1,2)])
    assume "selected = None"
    then show ?thesis
      by (simp add: a_def b_def pos_tax_context_def server_context_def server_profile_def customer_rate_def blank_profile profileIsVatRegisteredActive_def Let_def)
  next
    fix c assume c: "selected = Some (pos_customer c)" "c \<in> set (tb_customers db)" "loadCustomerTaxProfile (cu_customerId c) db = Some c"
    then have "tk_customerProfile a = Some (profile_of_row c)" "tk_customerDefaultVatRate a = tz_defaultVatRate (profile_of_row c)" "tk_documentDate a = None"
        "server_profile selected db = Some c"
      using known_profile [OF assms(1) c(2), of today "''SALE''"]
      by (simp_all add: a_def c(1) pos_tax_context_def server_profile_def Let_def) (simp add: pos_customer_def)
    then show ?thesis by (simp add: b_def server_context_def customer_rate_def active_today profile_of_row_def split: option.split)
  qed
  then show "customer_rate a = customer_rate b" "profileIsVatRegisteredActive today (tk_customerProfile a) (tk_documentDate a)
      = profileIsVatRegisteredActive today (tk_customerProfile b) (tk_documentDate b)" by auto
qed

lemma gate_of_line:
  "customer_gate today exempt profile requires today = None \<Longrightarrow>
   resolveCustomerTaxGate today (server_context catalog mappings r t p profile today inclusive) = None"
  by (auto simp: customer_gate_def resolveCustomerTaxGate_def server_context_def Let_def split: if_splits)

abbreviation tenant_inclusive :: "TaxDb \<Rightarrow> bool" where
  "tenant_inclusive db \<equiv> (case tb_settings db of None \<Rightarrow> False | Some s \<Rightarrow> ts_taxInclusive s)"

lemma line_id_in: "l \<in> set lines \<Longrightarrow> isUuidProductId (tq_productId l) \<Longrightarrow> the (tq_productId l) \<in> set (line_ids lines)"
  by (force simp: line_ids_def List.map_filter_def isUuidProductId_def truthy_str_def split: if_splits)

lemma lines_agree:
  assumes "tax_keys_ok db" "customer_known db selected" "catalog_lines db lines" "tenant \<in> {None, Some (tenant_inclusive db)}" "l \<in> set lines"
    "customer_gate today (sale_exempt today selected db) (server_profile selected db) requires today = None"
    "resolveCustomerTaxGate today (sale_context today db tenant selected ov) = None" "\<not> tk_customerExempt (sale_context today db tenant selected ov)"
  shows "resolvePreviewLineTaxes today l (sale_context today db tenant selected ov)
    = resolveLineTaxes today (server_context (loadActiveTaxDefinitions ''SALE'' db) (loadProductTaxMappings (line_ids lines) ''SALE'' db) r False False
        (server_profile selected db) today (tenant_inclusive db)) (loadProductTaxBridge (line_ids lines) db) l"
proof -
  let ?a = "sale_context today db tenant selected ov"
  let ?b = "server_context (loadActiveTaxDefinitions ''SALE'' db) (loadProductTaxMappings (line_ids lines) ''SALE'' db) r False False
    (server_profile selected db) today (tenant_inclusive db)"
  have e: "enriched_line (loadProductTaxBridge (line_ids lines) db) False l = l" using assms(3,5) by (simp add: catalog_lines_def)
  have b: "\<not> tk_preferLine ?b" "\<not> tk_applyTenantDefault ?b" "\<not> tk_customerExempt ?b" by (simp_all add: server_context_def)
  have a: "\<not> tk_preferLine ?a" "\<not> tk_applyTenantDefault ?a" by (simp_all add: pos_tax_context_def Let_def)
  have m: "tk_productMappings ?a (the (tq_productId l)) = tk_productMappings ?b (the (tq_productId l))" if "isUuidProductId (tq_productId l)"
    using snapshot_mappings [OF assms(1) line_id_in [OF assms(5) that], of today "''SALE''"] by (simp add: pos_tax_context_def server_context_def Let_def)
  have c: "tk_taxCatalog ?a = tk_taxCatalog ?b" "tk_taxInclusive ?a = tk_taxInclusive ?b"
    using assms(4) by (auto simp: pos_tax_context_def server_context_def getTaxCatalogForPreview_def loadTaxPreviewSnapshot_def Let_def)
  have "resolvePreviewLineTaxes today l ?a = resolvePreviewLineTaxes today l ?b"
    by (rule resolve_same [OF c a(1) b(1) a(2) b(2) assms(7) gate_of_line [OF assms(6)] assms(8) b(3) profiles_agree [OF assms(1,2)] m])
  also have "\<dots> = resolveLineTaxes today ?b (loadProductTaxBridge (line_ids lines) db) l"
  proof (cases "tq_isTaxable l = Some False")
    case True
    then show ?thesis using gate_of_line [OF assms(6)] b
      by (simp add: resolveLineTaxes_def e resolvePreviewLineTaxes_def Let_def)
  qed (use b(1) in \<open>simp add: resolveLineTaxes_def e Let_def\<close>)
  finally show ?thesis .
qed

lemma sale_lines_agree:
  assumes "tax_keys_ok db" "customer_known db selected" "catalog_lines db lines" "tenant \<in> {None, Some (tenant_inclusive db)}"
  shows "tv_lineResults (pos_tax_preview D today lines (Some (loadTaxPreviewSnapshot today ''SALE'' db)) tenant selected ov)
      = dx_lineResults (computeForLines D today (sale_input lines selected ov) db)
    \<and> tv_customerExempt (pos_tax_preview D today lines (Some (loadTaxPreviewSnapshot today ''SALE'' db)) tenant selected ov)
      = dx_customerExempt (computeForLines D today (sale_input lines selected ov) db)"
proof -
  let ?a = "sale_context today db tenant selected ov" and ?i = "sale_input lines selected ov"
  let ?g = "customer_gate today (sale_exempt today selected db) (server_profile selected db)
      (case tb_settings db of None \<Rightarrow> False | Some s \<Rightarrow> ts_vatOutputRequiresRegisteredCustomer s) today"
  have id: "truthy_str (map_option pc_id selected) = (selected \<noteq> None)"
    using known_cases [OF assms(1,2), of ?thesis] by (cases selected) (auto simp: pos_customer_def truthy_str_def customer_known_def assms tax_keys_ok_def
      dest!: assms(1) [unfolded tax_keys_ok_def, THEN conjunct2, THEN conjunct1, rule_format])
  have ex: "(truthy_str (di_customerId ?i) \<and> isCustomerTaxExempt (the (di_customerId ?i)) today db) = sale_exempt today selected db"
    using id by (cases selected) (simp_all add: sale_input_def sale_exempt_def)
  have pr: "(if truthy_str (di_customerId ?i) then loadCustomerTaxProfile (the (di_customerId ?i)) db else None) = server_profile selected db"
    using id by (cases selected) (simp_all add: sale_input_def server_profile_def)
  have G: "resolveCustomerTaxGate today ?a = ?g" "tk_customerExempt ?a \<Longrightarrow> ?g = Some EXEMPT" "sale_exempt today selected db \<Longrightarrow> ?g = Some EXEMPT"
    using gates_agree [OF assms(1,2)] by blast+
  have at: "tk_taxOverride ?a = ov" "\<not> tk_applyTenantDefault ?a" "tk_scopeIsSale ?a = None" "tk_taxCatalog ?a = loadActiveTaxDefinitions ''SALE'' db"
      "tk_taxInclusive ?a = tenant_inclusive db"
    using assms(4) by (auto simp: pos_tax_context_def getTaxCatalogForPreview_def loadTaxPreviewSnapshot_def Let_def)
  have it: "di_scope ?i = Some ''SALE''" "di_documentDate ?i = None" "di_lines ?i = lines" "\<not> di_applyTenantDefault ?i" "\<not> di_preferLine ?i" "di_taxOverride ?i = ov"
    by (simp_all add: sale_input_def)
  have ln: "resolvePreviewLineTaxes today l ?a
    = resolveLineTaxes today (server_context (loadActiveTaxDefinitions ''SALE'' db) (loadProductTaxMappings (line_ids lines) ''SALE'' db) r False False
        (server_profile selected db) today (tenant_inclusive db)) (loadProductTaxBridge (line_ids lines) db) l"
    if "l \<in> set lines" "?g = None" for l r
    using lines_agree [OF assms that] G that(2) by auto
  show ?thesis
  proof (cases ov)
    case None
    let ?r = "case tb_settings db of None \<Rightarrow> Fin 0 | Some s \<Rightarrow> js_round_rat (ts_defaultTaxRate s)"
    let ?own = "\<lambda>l. resolveLineTaxes today (server_context (loadActiveTaxDefinitions ''SALE'' db) (loadProductTaxMappings (line_ids lines) ''SALE'' db) ?r False False
        (server_profile selected db) today (tenant_inclusive db)) (loadProductTaxBridge (line_ids lines) db) l"
    have ov: "tk_taxOverride ?a = None" "di_taxOverride ?i = None" using at(1) it(6) None by simp_all
    have ce: "(?g = Some EXEMPT \<or> tk_customerExempt ?a) = (?g = Some EXEMPT)" "(?g = Some EXEMPT \<or> sale_exempt today selected db) = (?g = Some EXEMPT)"
      using G(2,3) by blast+
    have L: "pos_tax_preview D today lines (Some (loadTaxPreviewSnapshot today ''SALE'' db)) tenant selected ov
      = (if ?g = Some EXEMPT then aggregate_preview D (map (untaxed_line D EXEMPT) lines) True
         else if ?g = Some NONE then aggregate_preview D (map (untaxed_line D NONE) lines) False
         else aggregate_preview D (map (\<lambda>l. line_result D True l (resolvePreviewLineTaxes today l ?a)) lines) False)"
      by (simp only: pos_tax_preview_def previewDocumentTax_def Let_def G(1) ce ov at(2,3) untaxed_line_result option.case option.distinct simp_thms if_False)
    have S: "(''SALE'' \<noteq> ''PURCHASE'') = True" "coalesce (Some ''SALE'') ''SALE'' = ''SALE''" "str_or None today = today" by (simp_all add: str_or_def)
    have R: "document_line_results D today ?i db
      = (if ?g = Some EXEMPT then (map (untaxed_line D EXEMPT) lines, True)
         else if ?g = Some NONE then (map (untaxed_line D NONE) lines, False)
         else (map (\<lambda>l. line_result D True l (?own l)) lines, False))"
      unfolding document_line_results_def Let_def it(1-3) ov(2) S ex pr ce line_ids_def [symmetric] using it(4,5) by simp
    have m: "map (\<lambda>l. line_result D True l (resolvePreviewLineTaxes today l ?a)) lines = map (\<lambda>l. line_result D True l (?own l)) lines" if "?g = None"
      using ln [OF _ that] by simp
    have g: "?g = Some EXEMPT \<or> ?g = Some NONE \<or> ?g = None"
      by (auto simp: customer_gate_def resolveCustomerTaxGate_def Let_def)
    show ?thesis using g m unfolding L computeForLines_def R by (elim disjE) (simp_all add: aggregate_preview_def Let_def)
  next
    case (Some w)
    then show ?thesis using at it
      by (cases w) (simp_all add: pos_tax_preview_def previewDocumentTax_def applyDocumentTaxOverride_def computeForLines_def document_line_results_def Let_def
          untaxed_line_result aggregate_preview_def override_taxes_def split: prod.splits)
  qed
qed

lemma money_total_cents:
  assumes "exact_lib D v" "\<forall>a \<in> set as. \<bar>a\<bar> \<le> 2 ^ 46" "length as \<le> 2 ^ 10"
  shows "v (money_total D (map (\<lambda>a. Fin (cents a)) as)) = of_int (sum_list as) / 100"
proof -
  note D = exact_libD(1) [OF assms(1)]
  have "v (money_add D [MI_dec z, MI_num (Fin (cents a))]) = of_int (e + a) / 100" if "v z = of_int e / 100" "\<bar>e\<bar> \<le> 2 ^ 60" "\<bar>a\<bar> \<le> 2 ^ 46" for z e a
  proof -
    have "v (dl_plus D (dl_of_num D (Fin 0)) z) = of_int (0 + e) / 100" using plus_cents [OF D _ that(1) _ that(2), of _ 0] dec_zero_one [OF assms(1)] by simp
    from plus_cents [OF D this, of _ a] that(2,3) show ?thesis by (simp add: money_add_def money_zero_def dec_num [OF D])
  qed
  then show ?thesis unfolding money_total_def money_zero_def using assms(2,3) dec_zero_one [OF assms(1)]
    by (intro fold_cents [of v "\<lambda>s x. money_add D [MI_dec s, MI_num x]"]) simp_all
qed

end
