(* ===== verification/TaxTheorems.thy ===== *)
theory TaxTheorems imports TaxAgreement
begin

section \<open>What the tax rules guarantee\<close>

text \<open>
  The computation neither adds nor loses a cent; one rate is exact; client and server agree on the
  taxes of a document; and two places where the rules do not do what their header says.
\<close>

subsection \<open>One amount\<close>

text \<open>C40. For an amount of at most \<open>2 ^ 39\<close> cents and at most four active taxes, whose percentages are hundredths of a percent up to
  100 and whose fixed taxes come to whole cents: the amount is the untaxed amount and the inclusive taxes, the total is
  the amount and the exclusive taxes, to the cent, and the total tax is the sum of the lines.\<close>

theorem taxes_are_conserved:
  assumes "exact_lib D v" "taxes_in_cents (js_decimal x) taxes" "\<bar>k\<bar> \<le> 2 ^ 39"
  shows "\<exists>u as bs. tc_untaxedAmount (computeTaxes D (Fin (cents k)) taxes (Fin x) s) = Fin (cents u)
    \<and> tc_totalTax (computeTaxes D (Fin (cents k)) taxes (Fin x) s) = Fin (cents (sum_list as + sum_list bs))
    \<and> tc_totalAmount (computeTaxes D (Fin (cents k)) taxes (Fin x) s) = Fin (cents (k + sum_list bs)) \<and> k = u + sum_list as
    \<and> map tn_taxAmount (filter tn_isInclusive (tc_taxLines (computeTaxes D (Fin (cents k)) taxes (Fin x) s))) = map (\<lambda>a. Fin (cents a)) as
    \<and> map tn_taxAmount (filter (\<lambda>l. \<not> tn_isInclusive l) (tc_taxLines (computeTaxes D (Fin (cents k)) taxes (Fin x) s)))
        = map (\<lambda>a. Fin (cents a)) bs"
  using computed_taxes [OF assms(1) refl assms(2,3), of s] unfolding computed_cents_def by auto

lemma pg_round_2_div:
  assumes "0 \<le> n" "0 < d"
  shows "pg_round 2 (of_int n / of_int d) = of_int ((200 * n + d) div (2 * d)) / 100"
proof -
  have q: "0 \<le> (of_int n / of_int d :: rat)" using assms by simp
  have e: "of_int n / of_int d * 10 ^ 2 + 1 / 2 = (of_int (200 * n + d) / of_int (2 * d) :: rat)" using assms by (simp add: field_simps)
  have f: "\<lfloor>of_int n / of_int d * 10 ^ 2 + 1 / 2 :: rat\<rfloor> = (200 * n + d) div (2 * d)" unfolding e floor_divide_of_int_eq ..
  have "\<not> (of_int n / of_int d :: rat) < 0" using q by linarith
  then show ?thesis unfolding pg_round_def Let_def abs_of_nonneg [OF q] f by simp
qed

lemma exact_quotient:
  assumes "exact_lib D v" "v u = of_int k / 100" "0 \<le> k" "k \<le> 2 ^ 39" "v b = 1 + of_int j / 10000" "0 \<le> j" "j \<le> 10000"
  shows "v (tax_round D (dl_div D u b)) = of_int ((20000 * k + 10000 + j) div (2 * (10000 + j))) / 100"
proof -
  define d m where "d = 10000 + j" and "m = (20000 * k + d) mod (2 * d)"
  define c where "c = (20000 * k + d) div (2 * d)"
  have d: "0 < d" "d \<le> 20000" using assms(6,7) by (simp_all add: d_def)
  have m: "2 * d * c + m = 20000 * k + d" "0 \<le> m" "m < 2 * d" using d(1) by (simp_all add: c_def m_def)
  have dk: "2 * (d * c) + m = 20000 * k + d" using m(1) by (simp add: mult.assoc)
  have c0: "0 \<le> c" using assms(3) d(1) by (simp add: c_def pos_imp_zdiv_nonneg_iff)
  have "10000 * c \<le> d * c" using c0 assms(6) by (intro mult_right_mono) (simp_all add: d_def)
  then have cb: "c \<le> 2 ^ 40" using dk m(2) assms(4) d(2) by simp
  let ?w = "v (dl_div D u b)" and ?D = "of_int d :: rat" and ?C = "of_int c :: rat" and ?K = "of_int k :: rat" and ?M = "of_int m :: rat"
  have vb: "v b = ?D / 10000" "0 < v b" using assms(5,6) d(1) by (simp_all add: d_def add_divide_distrib)
  have rk: "2 * (?D * ?C) + ?M = 20000 * ?K + ?D" using arg_cong [OF dk, of "of_int :: int \<Rightarrow> rat"] by simp
  have rm: "0 \<le> ?M" "?M + 1 \<le> 2 * ?D" "?D \<le> 20000"
    using m(2,3) d(2) of_int_le_iff [of 0 m, where 'a = rat] of_int_le_iff [of "m + 1" "2 * d", where 'a = rat] of_int_le_iff [of d 20000, where 'a = rat] by simp_all
  let ?lo = "(2 * ?C - 1) / 200" and ?hi = "(2 * ?C + 1) / 200 - 1 / 10000000"
  have lo: "?lo * v b \<le> v u" using rk rm(1) by (simp add: vb(1) assms(2) algebra_simps)
  have hi: "v u \<le> ?hi * v b" using rk rm(2,3) by (simp add: vb(1) assms(2) algebra_simps)
  have sl: "sig20 ?lo" unfolding sig20_def using c0 cb by (intro exI [of _ "10 * c - 5"] exI [of _ 3]) simp
  have sh: "sig20 ?hi" unfolding sig20_def using c0 cb by (intro exI [of _ "100000 * c + 49999"] exI [of _ 7]) simp
  have w: "?lo \<le> ?w" "?w \<le> ?hi" using exact_libD(3) [OF assms(1) vb(2) sl sh lo hi] by simp_all
  have "0 * v b \<le> v u" "sig20 0" using assms(2,3) sig20_int [of 0] by simp_all
  then have w0: "0 \<le> ?w" using exact_libD(3) [OF assms(1) vb(2) _ sh _ hi, of 0] by simp
  have "?C \<le> ?w * 100 + 1 / 2" using w(1) by simp
  moreover have "?w * 100 + 1 / 2 < ?C + 1" using w(2) by (simp add: field_simps)
  ultimately have "\<lfloor>?w * 10 ^ 2 + 1 / 2\<rfloor> = c" by (simp add: floor_eq_iff)
  then have "pg_round 2 ?w = ?C / 100" using w0 by (simp add: pg_round_def)
  then show ?thesis by (simp add: tax_round_def dec_toDP [OF exact_libD(1) [OF assms(1)]] c_def d_def add.assoc)
qed

lemma single_rate:
  assumes "exact_lib D v" "tx_isActive t" "tx_type t = PERCENTAGE" "tx_rate t = Fin (cents j)" "0 < j" "j \<le> 10000" "0 \<le> k" "k \<le> 2 ^ 39"
  shows "tc_untaxedAmount (computeTaxes D (Fin (cents k)) [t] (Fin x) s)
      = Fin (cents (if tx_isInclusive t then (20000 * k + 10000 + j) div (2 * (10000 + j)) else k))
    \<and> tc_totalTax (computeTaxes D (Fin (cents k)) [t] (Fin x) s)
      = Fin (cents (if tx_isInclusive t then k - (20000 * k + 10000 + j) div (2 * (10000 + j)) else (k * j + 5000) div 10000))"
proof -
  note D = exact_libD(1) [OF assms(1)]
  have pc: "percent_cents t j" using assms(4-6) by (simp add: percent_cents_def)
  have "taxes_in_cents (js_decimal x) [t]" using pc assms(2,3) by (auto simp: taxes_in_cents_def tax_in_cents_def)
  then obtain u as bs where cc: "computed_cents (computeTaxes D (Fin (cents k)) [t] (Fin x) s) u as bs" "u + sum_list as = k"
    using computed_taxes [OF assms(1) refl, of x "[t]" k s] assms(7,8) by auto
  let ?r = "computeTaxes D (Fin (cents k)) [t] (Fin x) s" and ?o = "dl_of_num D (Fin (cents k))"
  have vo: "v ?o = of_int k / 100" using assms(7,8) by (simp add: dec_num [OF D])
  have c0: "cents 0 = 0" by (simp add: cents_def)
  have act: "active_taxes [t] = [t]" using assms(2) by (simp add: active_taxes_def js_sort_def)
  show ?thesis
  proof (cases "k = 0")
    case True
    then have "?r = \<lparr>tc_untaxedAmount = Fin 0, tc_totalTax = Fin 0, tc_totalAmount = Fin 0, tc_taxLines = []\<rparr>"
      using vo assms(3) by (simp add: computeTaxes_def dec_isZero [OF D])
    moreover have "(10000 + j) div (2 * (10000 + j)) = 0" using assms(5) by (intro div_pos_pos_trivial) simp_all
    ultimately show ?thesis using True c0 by simp
  next
    case False
    then have nz: "\<not> dl_isZero D ?o" using vo by (simp add: dec_isZero [OF D])
    let ?z = "dl_of_num D (Fin 0)" and ?f = "tax_fraction D t"
    have zv: "v ?z = 0" and ov: "v (dl_of_num D (Fin 1)) = 1" using dec_zero_one [OF assms(1)] by simp_all
    have zz: "\<not> dl_lt D ?z ?z" by (simp add: dec_lt [OF D])
    have fv: "v ?f = of_int j / 10000" by (rule fraction_value [OF assms(1) pc])
    have "scaled 4 (of_int j / 10000)" by (auto simp: scaled_def)
    then have sj: "sig20 (of_int j / 10000)" "sig20 0" "sig20 (of_int j / 10000 + 1)"
      using assms(5,6) sig20_int [of 0] by (auto intro!: sig20_scaled [of 4] scaled_plus)
    show ?thesis
    proof (cases "tx_isInclusive t")
      case True
      let ?c = "if tx_isCompound t then dl_plus D (dl_plus D ?z ?f) (dl_times D ?z ?f) else dl_plus D ?z ?f"
      have p: "v (dl_plus D ?z ?f) = of_int j / 10000" "v (dl_times D ?z ?f) = 0"
        using dec_plus [OF D, of ?z ?f] exact_libD(2) [OF assms(1), of ?z ?f] sj zv fv by simp_all
      have "v (dl_plus D (dl_plus D ?z ?f) (dl_times D ?z ?f)) = of_int j / 10000"
        using dec_plus [OF D, of "dl_plus D ?z ?f" "dl_times D ?z ?f", unfolded p add_0_right] sj(1) by (rule mp [OF impI])
      then have cv: "v ?c = of_int j / 10000" using p(1) by (simp only: split: if_split) simp
      let ?b = "tax_round D (dl_div D ?o (dl_plus D ?c (dl_of_num D (Fin 1))))"
      let ?m = "dl_minus D (dl_minus D ?o ?b) ?z"
      have "v (dl_plus D ?c (dl_of_num D (Fin 1))) = 1 + of_int j / 10000" using dec_plus [OF D, of ?c "dl_of_num D (Fin 1)"] cv ov sj by simp
      from exact_quotient [OF assms(1) vo assms(7,8) this _ assms(6)] assms(5)
      have bv: "v ?b = of_int ((20000 * k + 10000 + j) div (2 * (10000 + j))) / 100" by simp
      have lt: "dl_lt D ?z ?c" using cv zv assms(5) by (simp add: dec_lt [OF D])
      have R: "tc_untaxedAmount ?r = dl_toNumber D ?b" "tc_taxLines ?r = [tax_line D s True t ?b ?m]"
        using nz True act assms(3) lt by (auto simp: computeTaxes_def extract_inclusive_def Let_def)
      let ?B = "(20000 * k + 10000 + j) div (2 * (10000 + j))"
      have "?B \<le> (20000 * k + 10000 + j) div 20000" using assms(5,7) by (intro zdiv_mono2) simp_all
      also have "\<dots> \<le> (k * 20000 + 19999 + 20000) div 20000" using assms(6) by (intro zdiv_mono1) simp_all
      also have "\<dots> \<le> k + 1" by simp
      finally have "?B \<le> k + 1" .
      moreover have "0 \<le> ?B" using assms(5,7) by (simp add: pos_imp_zdiv_nonneg_iff)
      ultimately have B: "\<bar>?B\<bar> \<le> 2 ^ 47" "\<bar>?B\<bar> \<le> 2 ^ 60" "\<bar>k\<bar> \<le> 2 ^ 60" "\<bar>k - ?B\<bar> \<le> 2 ^ 47" using assms(7,8) by simp_all
      have U: "tc_untaxedAmount ?r = Fin (cents ?B)" using js_round_rat_cents [OF B(1)] by (simp only: R(1) dec_toNumber [OF D] bv)
      have "v (dl_minus D ?o ?b) = of_int (k - ?B) / 100" by (rule minus_cents [OF D vo bv B(3,2)])
      from minus_cents [OF D this, of ?z 0] have mv: "v ?m = of_int (k - ?B) / 100" using zv B(4) by simp
      obtain a where a: "as = [a]" "bs = []" "tn_taxAmount (tax_line D s True t ?b ?m) = Fin (cents a)"
        using cc(1) unfolding computed_cents_def R(2) by (auto simp: map_eq_Cons_conv)
      have "Fin (cents a) = Fin (cents (k - ?B))" using line_amount [OF D mv B(4)] a(3) by metis
      then show ?thesis using U True cc(1) a(1,2) unfolding computed_cents_def by simp
    next
      case False
      have lines: "tc_taxLines ?r = [tax_line D s False t ?o (tax_round D (dl_times D ?o ?f))]"
        using nz False act assms(3) zz by (simp add: computeTaxes_def extract_inclusive_def Let_def)
      obtain b where b: "bs = [b]" "as = []" "tn_taxAmount (tax_line D s False t ?o (tax_round D (dl_times D ?o ?f))) = Fin (cents b)"
        using cc(1) unfolding computed_cents_def lines by (auto simp: map_eq_Cons_conv)
      have kb: "\<bar>k\<bar> \<le> 2 ^ 46" using assms(7,8) by simp
      have m: "v (dl_times D ?o ?f) = of_int (k * j) / of_int 1000000" using percent_of_cents(2) [OF assms(1) vo kb pc] by simp
      have "0 \<le> k * j" using assms(5,7) by simp
      from pg_round_2_div [OF this, of 1000000] div_mult_mult1 [of 200 "k * j + 5000" 10000]
      have "v (tax_round D (dl_times D ?o ?f)) = of_int ((k * j + 5000) div 10000) / 100"
        by (simp add: tax_round_def dec_toDP [OF D] m algebra_simps)
      moreover have "\<bar>(k * j + 5000) div 10000\<bar> \<le> 2 ^ 47"
      proof -
        have "k * j \<le> k * 10000" using assms(6,7) by (intro mult_left_mono) simp_all
        then have "(k * j + 5000) div 10000 \<le> (k * 10000 + 5000) div 10000" by (intro zdiv_mono1) simp_all
        also have "\<dots> = k" by simp
        finally show ?thesis using \<open>0 \<le> k * j\<close> assms(8) by (simp add: pos_imp_zdiv_nonneg_iff)
      qed
      ultimately have "Fin (cents b) = Fin (cents ((k * j + 5000) div 10000))" using line_amount [OF D] b(3) by metis
      then show ?thesis using cc b False unfolding computed_cents_def by simp
    qed
  qed
qed

text \<open>One percentage, of \<open>j\<close> hundredths of a percent: added to a price it is the exact tax rounded half up to the cent;
  taken out of a price, the untaxed amount is the exact quotient rounded half up and the tax is the rest.\<close>

theorem single_rate_is_exact:
  assumes "exact_lib D v" "tx_isActive t" "tx_type t = PERCENTAGE" "tx_rate t = Fin (cents j)" "0 < j" "j \<le> 10000" "0 \<le> k" "k \<le> 2 ^ 39"
  shows "tc_untaxedAmount (computeTaxes D (Fin (cents k)) [t] (Fin x) s)
      = Fin (cents (if tx_isInclusive t then (20000 * k + 10000 + j) div (2 * (10000 + j)) else k))
    \<and> tc_totalTax (computeTaxes D (Fin (cents k)) [t] (Fin x) s)
      = Fin (cents (if tx_isInclusive t then k - (20000 * k + 10000 + j) div (2 * (10000 + j)) else (k * j + 5000) div 10000))"
  using single_rate [OF assms] .

subsection \<open>Documents\<close>

lemma fold_money_eq:
  assumes "exact_lib D v" "\<forall>r \<in> set rs. \<exists>n. tc_totalTax (tw_computation r) = Fin (cents n) \<and> \<bar>n\<bar> \<le> 2 ^ 46" "length rs \<le> 2 ^ 10"
  shows "tc_totalTax (aggregateDocument D rs) = tv_totalTax (aggregate_preview D rs b)"
proof -
  have "\<exists>ns. map (\<lambda>r. tc_totalTax (tw_computation r)) rs = map (\<lambda>a. Fin (cents a)) ns \<and> (\<forall>a \<in> set ns. \<bar>a\<bar> \<le> 2 ^ 46)"
    using assms(2)
  proof (induction rs)
    case (Cons r rs)
    then obtain n ns where "tc_totalTax (tw_computation r) = Fin (cents n)" "\<bar>n\<bar> \<le> 2 ^ 46"
      "map (\<lambda>r. tc_totalTax (tw_computation r)) rs = map (\<lambda>a. Fin (cents a)) ns" "\<forall>a \<in> set ns. \<bar>a\<bar> \<le> 2 ^ 46" by auto
    then show ?case by (intro exI [of _ "n # ns"]) simp
  qed simp
  then obtain ns where n: "map (\<lambda>r. tc_totalTax (tw_computation r)) rs = map (\<lambda>a. Fin (cents a)) ns" "\<forall>a \<in> set ns. \<bar>a\<bar> \<le> 2 ^ 46" by blast
  have l: "length ns \<le> 2 ^ 10" using arg_cong [OF n(1), of length] assms(3) by simp
  note D = exact_libD(1) [OF assms(1)]
  show ?thesis
    by (simp add: aggregateDocument_def aggregate_preview_def Let_def n(1) dec_toNumber [OF D] money_round_def tax_round_def dec_toDP [OF D]
        money_total_cents [OF assms(1) n(2) l] sum_numbers_cents [OF assms(1) n(2) l])
qed

text \<open>The preview of the point of sale is what the server computes for the sale: every line has the same taxes, the same
  determination and the same amounts, and the tax of the document is the same.\<close>

theorem pos_preview_is_authoritative:
  assumes "exact_lib D v" "tax_keys_ok db" "customer_known db selected" "catalog_lines db lines" "tenant \<in> {None, Some (tenant_inclusive db)}"
    "\<forall>r \<in> set (dx_lineResults (computeForLines D today (sale_input lines selected ov) db)).
       \<exists>n. tc_totalTax (tw_computation r) = Fin (cents n) \<and> \<bar>n\<bar> \<le> 2 ^ 46" "length lines \<le> 2 ^ 10"
  shows "tv_lineResults (pos_tax_preview D today lines (syncTaxSnapshot (Some (loadTaxPreviewSnapshot today ''SALE'' db)) old) tenant selected ov)
      = dx_lineResults (computeForLines D today (sale_input lines selected ov) db)
    \<and> tv_customerExempt (pos_tax_preview D today lines (syncTaxSnapshot (Some (loadTaxPreviewSnapshot today ''SALE'' db)) old) tenant selected ov)
      = dx_customerExempt (computeForLines D today (sale_input lines selected ov) db)
    \<and> tv_totalTax (pos_tax_preview D today lines (syncTaxSnapshot (Some (loadTaxPreviewSnapshot today ''SALE'' db)) old) tenant selected ov)
      = tc_totalTax (dx_documentTotals (computeForLines D today (sale_input lines selected ov) db))"
proof -
  let ?p = "pos_tax_preview D today lines (Some (loadTaxPreviewSnapshot today ''SALE'' db)) tenant selected ov"
  let ?s = "computeForLines D today (sale_input lines selected ov) db"
  have a: "tv_lineResults ?p = dx_lineResults ?s" "tv_customerExempt ?p = dx_customerExempt ?s" using sale_lines_agree [OF assms(2-5)] by blast+
  have "\<exists>rs b. ?p = aggregate_preview D rs b \<and> length rs = length lines"
    unfolding pos_tax_preview_def previewDocumentTax_def applyDocumentTaxOverride_def Let_def by (auto split: option.split)
  then obtain rs b where p: "?p = aggregate_preview D rs b" "length rs = length lines" by blast
  have r: "rs = dx_lineResults ?s" using a(1) p(1) by (simp add: aggregate_preview_def Let_def)
  have d: "dx_documentTotals ?s = aggregateDocument D (dx_lineResults ?s)" by (simp add: computeForLines_def split: prod.split)
  have "tv_totalTax ?p = tc_totalTax (dx_documentTotals ?s)"
    unfolding p(1) d r using fold_money_eq [OF assms(1,6)] p(2) assms(7) by (simp add: r)
  then show ?thesis using a by (simp add: syncTaxSnapshot_def)
qed

lemma no_taxes_computed: "tc_totalTax (computeTaxes D a [] y sale) = Fin 0"
  "tc_totalAmount (computeTaxes D a [] y sale) = tc_untaxedAmount (computeTaxes D a [] y sale)"
  by (simp_all add: computeTaxes_def Let_def)

lemma untaxed_line_fields [simp]: "tw_taxes (untaxed_line D g l) = []" "tw_computation (untaxed_line D g l) = computeTaxes D (tq_lineNetAmount l) [] (Fin 1) True"
  by (simp_all add: untaxed_line_def)

lemma products_unread:
  "loadActiveTaxDefinitions scope (db\<lparr>tb_products := ps\<rparr>) = loadActiveTaxDefinitions scope db"
  "loadProductTaxMappings ids scope (db\<lparr>tb_products := ps\<rparr>) = loadProductTaxMappings ids scope db"
  "isCustomerTaxExempt cid d (db\<lparr>tb_products := ps\<rparr>) = isCustomerTaxExempt cid d db"
  "loadCustomerTaxProfile cid (db\<lparr>tb_products := ps\<rparr>) = loadCustomerTaxProfile cid db"
  by (simp_all add: loadActiveTaxDefinitions_def loadProductTaxMappings_def by_sequence_def mapped_rows_def isCustomerTaxExempt_def loadCustomerTaxProfile_def Let_def fun_eq_iff cong: if_cong)

lemma preferred_resolution: "tk_preferLine ctx \<Longrightarrow> resolveLineTaxes today ctx bridges = resolveLineTaxes today ctx bridges'"
  by (simp add: resolveLineTaxes_def enriched_line_def fun_eq_iff)

lemma prefer_line_documents: "document_line_results D today (input\<lparr>di_preferLine := True\<rparr>) (db\<lparr>tb_products := ps\<rparr>)
    = document_line_results D today (input\<lparr>di_preferLine := True\<rparr>) db"
proof -
  have r: "resolveLineTaxes today (server_context cat m r t True prof d inc) (loadProductTaxBridge ids (db\<lparr>tb_products := ps\<rparr>))
      = resolveLineTaxes today (server_context cat m r t True prof d inc) (loadProductTaxBridge ids db)" for cat m r t prof d inc ids
    by (rule preferred_resolution) (simp add: server_context_def)
  show ?thesis by (simp add: document_line_results_def Let_def products_unread r cong: if_cong option.case_cong TaxOverride.case_cong)
qed

lemma untaxed_enriched:
  assumes "find (\<lambda>r. px_id r = p) (tb_products db) = Some row" "px_isTaxable row \<noteq> Some True" "p \<in> js_lower ` set ids" "isUuidProductId (Some p)" "tq_productId l = Some p"
  shows "tq_isTaxable (enriched_line (loadProductTaxBridge ids db) False l) = Some False"
  using assms by (cases "px_isTaxable row") (auto simp: enriched_line_def loadProductTaxBridge_def)

text \<open>A product that is not marked taxable bears no tax on a document that lets the product decide, whatever the line, the mappings
  and the customer say. On a document that prefers its lines the product's row is not read.\<close>

theorem untaxed_product_bears_no_tax:
  assumes "find (\<lambda>r. px_id r = p) (tb_products db) = Some row" "px_isTaxable row \<noteq> Some True" "i < length (di_lines input)"
    "tq_productId (di_lines input ! i) = Some p" "isUuidProductId (Some p)" "js_lower p = p" "di_taxOverride input = None"
  shows "(let r = dx_lineResults (computeForLines D today (input\<lparr>di_preferLine := False\<rparr>) db) ! i
      in tw_taxes r = [] \<and> tc_totalTax (tw_computation r) = Fin 0 \<and> tc_totalAmount (tw_computation r) = tc_untaxedAmount (tw_computation r))
    \<and> computeForLines D today (input\<lparr>di_preferLine := True\<rparr>) (db\<lparr>tb_products := ps\<rparr>) = computeForLines D today (input\<lparr>di_preferLine := True\<rparr>) db"
proof -
  let ?ids = "line_ids (di_lines input)" and ?r = "fst (document_line_results D today (input\<lparr>di_preferLine := False\<rparr>) db)"
  have "p \<in> set ?ids" using line_id_in [OF nth_mem [OF assms(3)]] assms(4,5) by simp
  then have "p \<in> js_lower ` set ?ids" using assms(6) by (metis image_eqI)
  from untaxed_enriched [OF assms(1,2) this assms(5,4)]
  have e: "resolveLineTaxes today (server_context cat m r t False prof d inc) (loadProductTaxBridge ?ids db) (di_lines input ! i) = ([], NONE)" for cat m r t prof d inc
    by (simp add: resolveLineTaxes_def server_context_def)
  have "tw_taxes (?r ! i) = [] \<and> (\<exists>a y s. tw_computation (?r ! i) = computeTaxes D a [] y s)"
    using assms(3,7) by (auto simp: document_line_results_def Let_def line_ids_def [symmetric] e line_result_def)
  moreover have "dx_lineResults (computeForLines D today (input\<lparr>di_preferLine := False\<rparr>) db) = ?r" by (simp add: computeForLines_def split: prod.split)
  moreover have "computeForLines D today (input\<lparr>di_preferLine := True\<rparr>) (db\<lparr>tb_products := ps\<rparr>) = computeForLines D today (input\<lparr>di_preferLine := True\<rparr>) db"
    by (simp add: computeForLines_def prefer_line_documents)
  ultimately show ?thesis using no_taxes_computed by (auto simp: Let_def)
qed

subsection \<open>Quotations\<close>

text \<open>A quotation of one item at a price in cents with a rate in hundredths of a percent, as the screen and as the server see it.\<close>

definition quoted_item :: "string option \<Rightarrow> int \<Rightarrow> int \<Rightarrow> QuotationLineCalc" where
  "quoted_item pid k j = \<lparr>qc_quantity = Fin 1, qc_unitPrice = Fin (cents k), qc_discountAmount = None, qc_isTaxable = True, qc_taxRate = Fin (cents j),
     qc_productId = pid\<rparr>"

definition quoted_line :: "string option \<Rightarrow> int \<Rightarrow> int \<Rightarrow> PricedLine" where
  "quoted_line pid k j = \<lparr>pl_productId = pid, pl_quantity = Fin 1, pl_unitPrice = Fin (cents k), pl_discountAmount = Some (Fin 0),
     pl_isTaxable = Some True, pl_taxRate = Some (Fin (cents j))\<rparr>"

definition quotation_input :: DocumentTaxInput where
  "quotation_input = \<lparr>di_customerId = None, di_documentDate = None, di_scope = Some ''SALE'', di_lines = [], di_applyTenantDefault = False,
     di_preferLine = True, di_taxOverride = None\<rparr>"

lemma bridge_fields:
  "tx_isActive (bridgeTaxDefinition (Fin x) cat) \<and> tx_type (bridgeTaxDefinition (Fin x) cat) = PERCENTAGE \<and> tx_rate (bridgeTaxDefinition (Fin x) cat) = Fin x
    \<and> \<not> tx_isInclusive (bridgeTaxDefinition (Fin x) cat)"
proof (cases "find (\<lambda>t. tx_type t = PERCENTAGE \<and> \<not> tx_isInclusive t \<and> \<not> tx_isCompound t \<and> jeq (tx_rate t) (Fin x) \<and> tx_code t \<noteq> ''EXEMPT'' \<and> tx_isActive t) cat")
  case (Some t)
  have "jeq (tx_rate t) (Fin x) \<Longrightarrow> tx_rate t = Fin x" by (cases "tx_rate t") simp_all
  then show ?thesis using find_hit [OF Some] Some by (simp add: bridgeTaxDefinition_def)
qed (simp add: bridgeTaxDefinition_def)

lemma num_or_nan [simp]: "num_or NaN d = d" "num_or (Fin 1) d = Fin 1"
  by (simp_all add: num_or_def truthy_num_def)

lemma one_item_net:
  assumes "exact_lib D v" "\<bar>k\<bar> \<le> 2 ^ 39"
  shows "v (dl_times D (dl_of_num D (Fin 1)) (dl_of_num D (Fin (cents k)))) = of_int k / 100"
    "v (dl_minus D (dl_times D (dl_of_num D (Fin 1)) (dl_of_num D (Fin (cents k)))) (dl_of_num D (Fin 0))) = of_int k / 100"
proof -
  note D = exact_libD(1) [OF assms(1)]
  have k: "\<bar>k\<bar> \<le> 2 ^ 46" "\<bar>k\<bar> \<le> 2 ^ 60" "\<bar>k\<bar> \<le> 2 ^ 62" using assms(2) by simp_all
  have p: "v (dl_of_num D (Fin (cents k))) = of_int k / 100" using k(1) by (simp add: dec_num [OF D])
  have "sig20 (v (dl_of_num D (Fin 1)) * v (dl_of_num D (Fin (cents k))))" unfolding p dec_zero_one [OF assms(1)] using sig20_cents [OF k(3)] by simp
  from exact_libD(2) [OF assms(1) this] show t: "v (dl_times D (dl_of_num D (Fin 1)) (dl_of_num D (Fin (cents k)))) = of_int k / 100"
    unfolding p dec_zero_one [OF assms(1)] by simp
  from minus_cents [OF D t, of _ 0] k(2) dec_zero_one [OF assms(1)]
  show "v (dl_minus D (dl_times D (dl_of_num D (Fin 1)) (dl_of_num D (Fin (cents k)))) (dl_of_num D (Fin 0))) = of_int k / 100" by simp
qed

abbreviation added_tax :: "int \<Rightarrow> int \<Rightarrow> int" where
  "added_tax k j \<equiv> (k * j + 5000) div 10000"

lemma added_tax_le:
  assumes "0 \<le> k" "0 < j" "j \<le> (10000 :: int)"
  shows "0 \<le> added_tax k j \<and> added_tax k j \<le> k"
proof -
  have "k * j \<le> k * 10000" using assms by (intro mult_left_mono) simp_all
  then have "(k * j + 5000) div 10000 \<le> (k * 10000 + 5000) div 10000" by (intro zdiv_mono1) simp_all
  moreover have "0 \<le> k * j" using assms by simp
  ultimately show ?thesis by (simp add: pos_imp_zdiv_nonneg_iff)
qed

lemma one_total:
  assumes "exact_lib D v" "\<bar>n\<bar> \<le> 2 ^ 46"
  shows "v (sum_numbers D [Fin (cents n)]) = of_int n / 100" "v (money_total D [Fin (cents n)]) = of_int n / 100"
  using sum_numbers_cents [OF assms(1), of "[n]"] money_total_cents [OF assms(1), of "[n]"] assms(2) by simp_all

text \<open>What the screen shows: the price and the tax on top of it.\<close>

lemma screen_total:
  assumes "exact_lib D v" "0 < j" "j \<le> 10000" "0 \<le> k" "k \<le> 2 ^ 39"
  shows "qt_total (calculateQuotationTotals D today [quoted_item pid k j]) = Fin (cents (k + added_tax k j))"
proof -
  note D = exact_libD(1) [OF assms(1)]
  have k: "\<bar>k\<bar> \<le> 2 ^ 39" "\<bar>k\<bar> \<le> 2 ^ 46" "\<bar>k\<bar> \<le> 2 ^ 47" "\<bar>k\<bar> \<le> 2 ^ 60" using assms(4,5) by simp_all
  have T: "\<bar>added_tax k j\<bar> \<le> 2 ^ 46" "\<bar>added_tax k j\<bar> \<le> 2 ^ 47" "\<bar>added_tax k j\<bar> \<le> 2 ^ 60" "\<bar>k + added_tax k j\<bar> \<le> 2 ^ 47"
    using added_tax_le [OF assms(4,2,3)] k by simp_all
  let ?q = "quoted_item pid k j" and ?t = "bridgeTaxDefinition (Fin (cents j)) []"
  note n = one_item_net [OF assms(1) k(1)]
  have it: "item_subtotal D ?q = dl_times D (dl_of_num D (Fin 1)) (dl_of_num D (Fin (cents k)))" "item_discount D ?q = dl_of_num D (Fin 0)"
    by (simp_all add: item_subtotal_def item_discount_def quoted_item_def rate_of_def)
  have "dl_toNumber D (dl_minus D (item_subtotal D ?q) (item_discount D ?q)) = Fin (cents k)"
    by (simp only: it dec_toNumber [OF D] n(2) js_round_rat_cents [OF k(3)])
  then have net: "tq_lineNetAmount (quotation_line D ?q) = Fin (cents k)" by (simp add: quotation_line_def)
  have j0: "0 < cents j" using assms(2,3) by simp
  have res: "resolvePreviewLineTaxes today (quotation_line D ?q) quotation_context = ([?t], BRIDGE)"
    using j0 by (simp add: resolvePreviewLineTaxes_def quotation_context_def resolveCustomerTaxGate_def resolvePreferLineTaxes_def quotation_line_def quoted_item_def
        positive_rate_def rate_of_def taxesForPriceMode_def Let_def)
  have lr: "tc_totalTax (tw_computation (line_result D True (quotation_line D ?q) ([?t], BRIDGE))) = Fin (cents (added_tax k j))"
    using single_rate [OF assms(1), of ?t j k "1" True] bridge_fields [of "cents j" "[]"] assms(2-5)
    by (simp add: line_result_def net) (simp add: line_quantity_def quotation_line_def quoted_item_def rate_of_def)
  have "tv_totalTax (previewDocumentTax D today [quotation_line D ?q] quotation_context) = dl_toNumber D (tax_round D (sum_numbers D [Fin (cents (added_tax k j))]))"
    using lr res by (simp add: previewDocumentTax_def quotation_context_def resolveCustomerTaxGate_def aggregate_preview_def Let_def)
  then have tv: "tv_totalTax (previewDocumentTax D today [quotation_line D ?q] quotation_context) = Fin (cents (added_tax k j))"
    using one_total(1) [OF assms(1) T(1)] js_round_rat_cents [OF T(2)] by (simp add: dec_toNumber [OF D] tax_round_def dec_toDP [OF D] pg_round_cents)
  let ?z = "dl_of_num D (Fin 0)"
  have z: "v ?z = of_int 0 / 100" using dec_zero_one [OF assms(1)] by simp
  have s: "v (dl_plus D ?z (item_subtotal D ?q)) = of_int k / 100"
    using plus_cents [OF D z, of "item_subtotal D ?q" k] n(1) k(4) by (simp only: it) simp
  have d: "v (dl_plus D ?z (item_discount D ?q)) = of_int 0 / 100"
    unfolding it using plus_cents [OF D z z] by simp
  have m: "v (dl_minus D (dl_plus D ?z (item_subtotal D ?q)) (dl_plus D ?z (item_discount D ?q))) = of_int k / 100"
    using minus_cents [OF D s d k(4)] by simp
  have "v (dl_of_num D (Fin (cents (added_tax k j)))) = of_int (added_tax k j) / 100" using T(1) by (simp add: dec_num [OF D])
  from plus_cents [OF D m this k(4) T(3)]
  have "dl_toNumber D (dl_plus D (dl_minus D (dl_plus D ?z (item_subtotal D ?q)) (dl_plus D ?z (item_discount D ?q))) (dl_of_num D (Fin (cents (added_tax k j)))))
      = Fin (cents (k + added_tax k j))" by (simp only: dec_toNumber [OF D] js_round_rat_cents [OF T(4)])
  then show ?thesis by (simp add: calculateQuotationTotals_def Let_def tv)
qed

text \<open>What the server stores: the price where prices include taxes, the price and the tax elsewhere.\<close>

lemma stored_total:
  assumes "exact_lib D v" "0 < j" "j \<le> 10000" "0 \<le> k" "k \<le> 2 ^ 39" "tb_settings db = Some st" "\<not> ts_vatOutputRequiresRegisteredCustomer st"
  shows "pd_totalAmount (fst (priceDocumentLines D today [quoted_line pid k j] quotation_input db))
    = Fin (cents (if ts_taxInclusive st then k else k + added_tax k j))"
proof -
  note D = exact_libD(1) [OF assms(1)]
  have k: "\<bar>k\<bar> \<le> 2 ^ 39" "\<bar>k\<bar> \<le> 2 ^ 46" "\<bar>k\<bar> \<le> 2 ^ 47" "\<bar>k\<bar> \<le> 2 ^ 60" using assms(4,5) by simp_all
  have T: "\<bar>added_tax k j\<bar> \<le> 2 ^ 46" "\<bar>added_tax k j\<bar> \<le> 2 ^ 47" "\<bar>added_tax k j\<bar> \<le> 2 ^ 60" "\<bar>k + added_tax k j\<bar> \<le> 2 ^ 47"
    using added_tax_le [OF assms(4,2,3)] k by simp_all
  let ?l = "quoted_line pid k j" and ?t = "bridgeTaxDefinition (Fin (cents j)) (loadActiveTaxDefinitions ''SALE'' db)"
  have "dl_toNumber D (dl_toDP D 2 ROUND_HALF_UP (dl_minus D (dl_times D (dl_of_num D (Fin 1)) (dl_of_num D (Fin (cents k)))) (dl_of_num D (Fin 0)))) = Fin (cents k)"
    by (simp only: dec_toNumber [OF D] dec_toDP [OF D] one_item_net(2) [OF assms(1) k(1)] pg_round_cents order_refl js_round_rat_cents [OF k(3)])
  then have net: "line_net D ?l = Fin (cents k)" by (simp add: line_net_def quoted_line_def rate_of_def money_round_def)
  have sub: "dl_toNumber D (money_round D (MI_dec (money_total D [Fin (cents k)])) 2) = Fin (cents k)"
    by (simp add: money_round_def dec_toNumber [OF D] dec_toDP [OF D] one_total(2) [OF assms(1) k(2)] pg_round_cents js_round_rat_cents [OF k(3)])
  let ?i = "quotation_input\<lparr>di_lines := [tax_document_line D ?l], di_taxOverride := None\<rparr>"
  let ?r = "line_result D True (tax_document_line D ?l) (taxesForPriceMode [?t] (ts_taxInclusive st), BRIDGE)"
  have j0: "0 < cents j" using assms(2,3) by simp
  have rs: "document_line_results D today ?i db = ([?r], False)"
    using j0 assms(6,7)
    by (simp add: document_line_results_def quotation_input_def customer_gate_def resolveCustomerTaxGate_def server_context_def resolveLineTaxes_def enriched_line_def
        resolvePreviewLineTaxes_def resolvePreferLineTaxes_def tax_document_line_def quoted_line_def positive_rate_def rate_of_def Let_def)
  have inc: "dx_taxInclusive (computeForLines D today ?i db) = ts_taxInclusive st" using assms(6) by (simp add: computeForLines_def split: prod.split)
  have tot: "dx_documentTotals (computeForLines D today ?i db) = aggregateDocument D [?r]" by (simp add: computeForLines_def rs)
  show ?thesis
  proof (cases "ts_taxInclusive st")
    case True
    then show ?thesis by (simp add: priceDocumentLines_def Let_def inc net sub)
  next
    case False
    have lr: "tc_totalTax (tw_computation ?r) = Fin (cents (added_tax k j))"
      using single_rate [OF assms(1), of ?t j k "1" True] bridge_fields [of "cents j" "loadActiveTaxDefinitions ''SALE'' db"] assms(2-5) False
      by (simp add: line_result_def tax_document_line_def net taxesForPriceMode_def) (simp add: line_quantity_def quoted_line_def rate_of_def)
    have tx: "tc_totalTax (aggregateDocument D [?r]) = Fin (cents (added_tax k j))"
      by (simp add: aggregateDocument_def Let_def lr money_round_def)
        (simp only: dec_toNumber [OF D] dec_toDP [OF D] one_total(2) [OF assms(1) T(1)] pg_round_cents order_refl js_round_rat_cents [OF T(2)])
    have "v (dl_of_num D (Fin (cents k))) = of_int k / 100" "v (dl_of_num D (Fin (cents (added_tax k j)))) = of_int (added_tax k j) / 100"
      using k(2) T(1) by (simp_all add: dec_num [OF D])
    from plus_cents [OF D this k(4) T(3)] have "plus_rounded D (Fin (cents k)) (Fin (cents (added_tax k j))) = Fin (cents (k + added_tax k j))"
      using js_round_rat_cents [OF T(4)] by (simp only: plus_rounded_def money_round_def money_parse.simps dec_toNumber [OF D] dec_toDP [OF D] pg_round_cents order_refl)
    then show ?thesis using False tx by (simp add: priceDocumentLines_def Let_def inc net sub tot)
  qed
qed

text \<open>C39. A taxable item at a price in cents with a rate in hundredths of a percent, quoted without a customer by a tenant that does
  not bind output tax to registered customers: the screen of the quotation adds the tax to the price. The server does the same
  only where prices do not include taxes; where they do, it stores the price, so screen and stored quotation differ by the tax.\<close>

theorem quotation_screen_ignores_price_mode:
  assumes "exact_lib D v" "0 < j" "j \<le> 10000" "0 \<le> k" "k \<le> 2 ^ 39" "tb_settings db = Some st" "\<not> ts_vatOutputRequiresRegisteredCustomer st"
  shows "qt_total (calculateQuotationTotals D today [quoted_item pid k j]) = Fin (cents (k + (k * j + 5000) div 10000))
    \<and> pd_totalAmount (fst (priceDocumentLines D today [quoted_line pid k j] quotation_input db))
      = Fin (cents (if ts_taxInclusive st then k else k + (k * j + 5000) div 10000))"
  using screen_total [OF assms(1-5)] stored_total [OF assms] by blast

subsection \<open>Concrete taxes\<close>

definition sample_tax :: "string \<Rightarrow> int \<Rightarrow> bool \<Rightarrow> TaxDefinition" where
  "sample_tax i j inclusive = \<lparr>tx_id = i, tx_code = i, tx_name = i, tx_type = PERCENTAGE, tx_rate = Fin (cents j), tx_isInclusive = inclusive,
     tx_isCompound = False, tx_sequence = Fin 10, tx_scope = Some ''SALE'', tx_payableAccount = Some ''2300'',
     tx_receivableAccount = Some ''1250'', tx_isActive = True\<rparr>"

lemma sample_tax_in_cents: "0 \<le> j \<Longrightarrow> j \<le> 10000 \<Longrightarrow> tax_in_cents q (sample_tax i j b)"
proof -
  assume "0 \<le> j" "j \<le> 10000"
  then have "percent_cents (sample_tax i j b) j" by (simp add: percent_cents_def sample_tax_def)
  moreover have "tx_type (sample_tax i j b) = PERCENTAGE" by (simp add: sample_tax_def)
  ultimately show ?thesis unfolding tax_in_cents_def by auto
qed

lemma rat_exact_lib: "exact_lib rat_decimal (\<lambda>a. a)"
  unfolding exact_lib_def by (intro conjI rat_decimal_exact rat_times_exact rat_div_between)

theorem taxes_are_conserved_witness:
  "\<exists>u as bs. tc_untaxedAmount (computeTaxes rat_decimal (Fin (cents 11800)) [sample_tax ''VAT18'' 1800 True, sample_tax ''LEVY'' 200 False] (Fin 1) True)
      = Fin (cents u)
    \<and> tc_totalAmount (computeTaxes rat_decimal (Fin (cents 11800)) [sample_tax ''VAT18'' 1800 True, sample_tax ''LEVY'' 200 False] (Fin 1) True)
      = Fin (cents (11800 + sum_list bs)) \<and> 11800 = u + sum_list as"
proof -
  have "taxes_in_cents (js_decimal 1) [sample_tax ''VAT18'' 1800 True, sample_tax ''LEVY'' 200 False]"
    by (simp add: taxes_in_cents_def sample_tax_in_cents)
  from taxes_are_conserved [OF rat_exact_lib this, of 11800 True] show ?thesis by auto
qed

definition sample_taxes :: TaxDb where
  "sample_taxes = \<lparr>tb_settings = Some \<lparr>ts_taxEnabled = True, ts_taxInclusive = True, ts_defaultTaxRate = 18, ts_vatOutputRequiresRegisteredCustomer = False\<rparr>,
     tb_definitions = [\<lparr>dr_id = ''d1'', dr_code = ''VAT18'', dr_name = ''VAT 18%'', dr_type = PERCENTAGE, dr_rate = 18, dr_isInclusive = False,
       dr_isCompound = False, dr_sequence = 10, dr_scope = ''BOTH'', dr_payableAccount = ''2300'', dr_receivableAccount = ''1250'', dr_isActive = True\<rparr>],
     tb_mappings = [], tb_exemptions = [], tb_customers = [], tb_products = [], tb_scan = (\<lambda>rows. rows)\<rparr>"

text \<open>An item of 10.00 at 18 percent: 11.80 on the screen, 10.00 in the database.\<close>

theorem quotation_screen_ignores_price_mode_witness:
  "qt_total (calculateQuotationTotals rat_decimal ''2026-01-01'' [quoted_item None 1000 1800]) = Fin (cents 1180)
   \<and> pd_totalAmount (fst (priceDocumentLines rat_decimal ''2026-01-01'' [quoted_line None 1000 1800] quotation_input sample_taxes)) = Fin (cents 1000)"
  using quotation_screen_ignores_price_mode [OF rat_exact_lib, where j = 1800 and k = 1000 and db = sample_taxes]
  by (simp add: sample_taxes_def)

end
