(* ===== verification/TaxMappings.thy ===== *)
theory TaxMappings imports TaxService "HOL-Library.Multiset"
begin

section \<open>Tax mappings of a product\<close>

text \<open>
  What \<open>replaceProductTaxMappings\<close> accepts and what the mappings of a product are afterwards.
\<close>

abbreviation wanted :: "string list \<Rightarrow> string set" where
  "wanted taxIds \<equiv> {i \<in> set taxIds. i \<noteq> []}"

abbreviation unique_ids :: "string list \<Rightarrow> string list" where
  "unique_ids taxIds \<equiv> rev (remdups (rev (filter (\<lambda>i. i \<noteq> []) taxIds)))"

lemma unique_ids_props: "set (unique_ids taxIds) = wanted taxIds" "length (unique_ids taxIds) = card (wanted taxIds)"
proof -
  show s: "set (unique_ids taxIds) = wanted taxIds" by auto
  show "length (unique_ids taxIds) = card (wanted taxIds)" using s distinct_card [of "unique_ids taxIds"] by (simp add: Int_def)
qed

definition active_ids :: "TaxDb \<Rightarrow> string set" where
  "active_ids db = dr_id ` {r \<in> set (tb_definitions db). dr_isActive r}"

lemma found_ids: "set (map dr_id (filter (\<lambda>r. dr_id r \<in> A \<and> dr_isActive r) (tb_definitions db))) = A \<inter> active_ids db"
  by (auto simp: active_ids_def)

text \<open>As many active definitions as ids: each id names one, and no two ids differ only in case.\<close>

lemma all_found:
  assumes "distinct (map dr_id (tb_definitions db))"
  shows "length (filter (\<lambda>r. dr_id r \<in> js_lower ` wanted taxIds \<and> dr_isActive r) (tb_definitions db)) = card (wanted taxIds)
    \<longleftrightarrow> js_lower ` wanted taxIds \<subseteq> active_ids db \<and> inj_on js_lower (wanted taxIds)"
proof -
  let ?f = "filter (\<lambda>r. dr_id r \<in> js_lower ` wanted taxIds \<and> dr_isActive r) (tb_definitions db)" and ?W = "wanted taxIds"
  have d: "distinct (map dr_id ?f)" using assms by (rule distinct_map_filter)
  have "set (map dr_id ?f) = js_lower ` ?W \<inter> active_ids db" by (rule found_ids)
  then have l: "length ?f = card (js_lower ` ?W \<inter> active_ids db)" using distinct_card [OF d] by simp
  have fin: "finite ?W" by simp
  have a: "card (js_lower ` ?W \<inter> active_ids db) \<le> card (js_lower ` ?W)" "card (js_lower ` ?W) \<le> card ?W"
    by (intro card_mono card_image_le; simp)+
  show ?thesis
  proof
    assume "length ?f = card ?W"
    then have e: "card (js_lower ` ?W \<inter> active_ids db) = card (js_lower ` ?W)" "card (js_lower ` ?W) = card ?W" using a l by linarith+
    have "js_lower ` ?W \<inter> active_ids db = js_lower ` ?W" using card_subset_eq [OF _ _ e(1)] by simp
    then show "js_lower ` ?W \<subseteq> active_ids db \<and> inj_on js_lower ?W" using eq_card_imp_inj_on [OF fin e(2)] by blast
  next
    assume h: "js_lower ` ?W \<subseteq> active_ids db \<and> inj_on js_lower ?W"
    then have "js_lower ` ?W \<inter> active_ids db = js_lower ` ?W" by blast
    then show "length ?f = card ?W" using h l card_image [of js_lower ?W] by simp
  qed
qed

lemma find_by_id: "distinct (map dr_id rs) \<Longrightarrow> r \<in> set rs \<Longrightarrow> find (\<lambda>x. dr_id x = dr_id r) rs = Some r"
  by (induction rs) auto

definition inserted :: "TaxDb \<Rightarrow> string \<Rightarrow> string list \<Rightarrow> TaxDefinitionRow list" where
  "inserted db q ids =
     List.map_filter (\<lambda>m. if fst m = q then find (\<lambda>r. dr_id r = snd m) (tb_definitions db) else None) (map (\<lambda>i. (q, js_lower i)) ids)"

lemma inserted_rows:
  assumes "distinct (map dr_id (tb_definitions db))" "js_lower ` set ids \<subseteq> active_ids db"
  shows "map dr_id (inserted db q ids) = map js_lower ids \<and> (\<forall>r \<in> set (inserted db q ids). dr_isActive r)"
  using assms(2)
proof (induction ids)
  case Nil
  show ?case by (simp add: inserted_def map_filter_simps)
next
  case (Cons i ids)
  then have "js_lower i \<in> active_ids db" by simp
  then obtain r where r: "r \<in> set (tb_definitions db)" "dr_isActive r" "dr_id r = js_lower i" unfolding active_ids_def by auto
  then have "find (\<lambda>x. dr_id x = js_lower i) (tb_definitions db) = Some r" using find_by_id [OF assms(1) r(1)] by simp
  then have "inserted db q (i # ids) = r # inserted db q ids" by (simp add: inserted_def map_filter_simps)
  then show ?case using Cons.IH Cons.prems r(2,3) by simp
qed

lemma map_filter_append: "List.map_filter f (xs @ ys) = List.map_filter f xs @ List.map_filter f ys"
  by (simp add: List.map_filter_def)

lemma kept_rows:
  "List.map_filter (\<lambda>m. if fst m = q then g m else None) (filter (\<lambda>m. fst m \<noteq> p) ms)
    = (if q = p then [] else List.map_filter (\<lambda>m. if fst m = q then g m else None) ms)"
  by (induction ms) (auto simp: map_filter_simps split: option.splits)

lemma other_inserted: "q \<noteq> p \<Longrightarrow> List.map_filter (\<lambda>m. if fst m = q then g m else None) (map (\<lambda>i. (p, f i)) ids) = []"
  by (induction ids) (auto simp: map_filter_simps)

lemma replaced_rows:
  assumes "distinct (map dr_id (tb_definitions db))" "js_lower ` wanted taxIds \<subseteq> active_ids db"
    "db' = db\<lparr>tb_mappings := filter (\<lambda>m. fst m \<noteq> p) (tb_mappings db) @ map (\<lambda>i. (p, js_lower i)) (unique_ids taxIds)\<rparr>"
  shows "map dr_id (mapped_rows p db') = map js_lower (unique_ids taxIds)" "\<forall>r \<in> set (mapped_rows p db'). dr_isActive r"
    "q \<noteq> p \<Longrightarrow> mapped_rows q db' = mapped_rows q db"
proof -
  have i: "js_lower ` set (unique_ids taxIds) \<subseteq> active_ids db" using assms(2) by (simp only: unique_ids_props(1))
  have o: "mapped_rows x db' = (if x = p then [] else mapped_rows x db)
      @ List.map_filter (\<lambda>m. if fst m = x then find (\<lambda>r. dr_id r = snd m) (tb_definitions db) else None) (map (\<lambda>i. (p, js_lower i)) (unique_ids taxIds))" for x
    unfolding mapped_rows_def assms(3) by (simp add: map_filter_append kept_rows cong: if_cong)
  show "map dr_id (mapped_rows p db') = map js_lower (unique_ids taxIds)" "\<forall>r \<in> set (mapped_rows p db'). dr_isActive r"
    using inserted_rows [OF assms(1) i, of p] o [of p] by (simp_all add: inserted_def)
  show "q \<noteq> p \<Longrightarrow> mapped_rows q db' = mapped_rows q db" using o [of q] other_inserted [of q p] by auto
qed

text \<open>Replacing succeeds exactly for a known product and ids of active definitions, no two alike but for case. Afterwards the listed
  taxes are the definitions of the ids, once each, and other products and tables are as before.\<close>

theorem replaced_mappings_are_listed:
  assumes "distinct (map dr_id (tb_definitions db))" "\<forall>rows. mset (tb_scan db rows) = mset rows"
  shows "(\<exists>r. replaceProductTaxMappings p taxIds db = Inr r) =
      (js_lower p \<in> set (map px_id (tb_products db)) \<and> js_lower ` wanted taxIds \<subseteq> active_ids db \<and> inj_on js_lower (wanted taxIds))
    \<and> (case replaceProductTaxMappings p taxIds db of
        Inl e \<Rightarrow> e = (if js_lower ` wanted taxIds \<subseteq> active_ids db \<and> inj_on js_lower (wanted taxIds) then PRODUCT_NOT_FOUND else INVALID_TAX_DEFINITION)
      | Inr (ts, db') \<Rightarrow> ts = listProductTaxMappings p db' \<and> set (map tx_id ts) = js_lower ` wanted taxIds \<and> distinct (map tx_id ts)
          \<and> (\<forall>q. q = js_lower p \<or> mapped_rows q db' = mapped_rows q db) \<and> db'\<lparr>tb_mappings := tb_mappings db\<rparr> = db)"
proof -
  let ?ok = "js_lower ` wanted taxIds \<subseteq> active_ids db \<and> inj_on js_lower (wanted taxIds)"
  let ?db = "db\<lparr>tb_mappings := filter (\<lambda>m. fst m \<noteq> js_lower p) (tb_mappings db) @ map (\<lambda>i. (js_lower p, js_lower i)) (unique_ids taxIds)\<rparr>"
  have c: "(unique_ids taxIds \<noteq> [] \<and> length (filter (\<lambda>r. dr_id r \<in> js_lower ` set (unique_ids taxIds) \<and> dr_isActive r) (tb_definitions db)) \<noteq> length (unique_ids taxIds))
      = (\<not> ?ok)"
  proof (cases "unique_ids taxIds = []")
    case True
    then have w: "wanted taxIds = {}" using unique_ids_props(1) [of taxIds] by (simp del: set_rev set_remdups set_filter)
    show ?thesis unfolding w True by simp
  next
    case False
    then show ?thesis unfolding unique_ids_props using all_found [OF assms(1), of taxIds] by simp
  qed
  have r: "replaceProductTaxMappings p taxIds db = (if \<not> ?ok then Inl INVALID_TAX_DEFINITION
      else if js_lower p \<notin> set (map px_id (tb_products db)) then Inl PRODUCT_NOT_FOUND else Inr (listProductTaxMappings p ?db, ?db))"
    unfolding replaceProductTaxMappings_def Let_def c by (simp add: throw_if_def)
  have l: "set (map tx_id (listProductTaxMappings p ?db)) = js_lower ` wanted taxIds \<and> distinct (map tx_id (listProductTaxMappings p ?db))" if k: ?ok
  proof -
    note m = replaced_rows [OF assms(1) conjunct1 [OF k] refl, where p = "js_lower p"]
    have f: "filter dr_isActive (mapped_rows (js_lower p) ?db) = mapped_rows (js_lower p) ?db" using m(2) by (simp add: filter_id_conv)
    have "distinct (map js_lower (unique_ids taxIds))" using k by (simp add: distinct_map unique_ids_props(1))
    then have "distinct (map dr_id (mapped_rows (js_lower p) ?db))" by (simp only: m(1))
    moreover have s: "mset (by_sequence ?db (mapped_rows (js_lower p) ?db)) = mset (mapped_rows (js_lower p) ?db)"
      using assms(2) by (simp add: by_sequence_def)
    then have "mset (map dr_id (by_sequence ?db (mapped_rows (js_lower p) ?db))) = mset (map dr_id (mapped_rows (js_lower p) ?db))"
      by (simp only: mset_map)
    ultimately have d: "distinct (map dr_id (by_sequence ?db (mapped_rows (js_lower p) ?db)))" using mset_eq_imp_distinct_iff by blast
    have t: "map tx_id (listProductTaxMappings p ?db) = map dr_id (by_sequence ?db (mapped_rows (js_lower p) ?db))"
      unfolding listProductTaxMappings_def f by (simp add: mapTaxDefinitionRow_def)
    have "set (map dr_id (mapped_rows (js_lower p) ?db)) = js_lower ` set (unique_ids taxIds)" by (simp only: m(1) set_map)
    then show ?thesis using d mset_eq_setD [OF s] unfolding t unique_ids_props(1) by simp
  qed
  have q: "\<forall>q. q = js_lower p \<or> mapped_rows q ?db = mapped_rows q db" if k: ?ok using replaced_rows(3) [OF assms(1) conjunct1 [OF k] refl] by blast
  show ?thesis unfolding r using l q by simp
qed

end
