(* ===== verification/Spec2Isabelle.thy ===== *)
theory Spec2Isabelle imports LotSelection RbacAccess RbacSeed JournalAccuracy LedgerLiveness TreasurySample UomTheorems CostTheorems TaxTheorems TaxMappings
begin

text \<open>
  \<^bold>\<open>A verification library of the SMART ERP POS server\<close>

  The repository is a point-of-sale and ERP system: a Node server
  (\<open>SamplePOS.Server\<close>) over PostgreSQL, a React client (\<open>samplepos.client\<close>) and pure rule modules
  that both share (\<open>shared\<close>). The development models the rules that decide about stock, money and
  access: lot eligibility and selection, authorization with its role tables, the general ledger with
  the governance of its journals, the treasury documents that move money through it, the units of
  measure of an item, the cost layers of its stock and the taxes of a document.

  \<^bold>\<open>Parts and theories.\<close>
  \<^item> \<open>Prelude\<close>: thrown errors as sums, loops that throw, stable sorting by a comparator (locale
    \<open>comparator\<close>), transition systems with invariants and preorders (locales \<open>step_invariant\<close> and
    \<open>step_preorder\<close>).
  \<^item> \<open>JsNumber\<close>, \<open>JsString\<close>, \<open>JsDate\<close>: the JavaScript values the code computes with. A number is an
    exact IEEE double (a rational on the grid of doubles, or an infinity or NaN; the two zeros are
    identified), \<open>+\<close>, \<open>-\<close>, \<open>*\<close>, \<open>/\<close> round to nearest even. Strings are ASCII. Dates are
    ISO strings, ordered lexicographically, and day numbers.
  \<^item> \<open>Money\<close>, \<open>Decimals\<close>: amounts in cents as doubles, the rounding \<open>roundMoney\<close>, the shortest decimal
    text of a number, NUMERIC columns, and the Decimal library as a record of operations with its
    documented behaviour \<open>decimal_exact\<close>; \<open>utils/money.ts\<close> on top of it.
  \<^item> \<open>LotRules\<close>, \<open>LotSelection\<close>: \<open>shared/inventory-lot\<close>. Types, status and expiry rules, and the FEFO
    and FIFO engines as filter, sort and allocation loop.
  \<^item> \<open>Authorization\<close>: \<open>shared/authorization\<close>. Legacy roles, permission evaluation, policies.
  \<^item> \<open>RbacCatalog\<close>, \<open>RbacStore\<close>, \<open>RbacService\<close>, \<open>RbacAccess\<close>, \<open>RbacSeed\<close>: \<open>SamplePOS.Server/src/rbac\<close> and
    \<open>src/authorization\<close>. The permission catalog, the tables with the constraints of their schema,
    the queries of the repository, the service operations with transaction, audit and cache, the
    request guards, and the seed.
  \<^item> \<open>JournalAccuracy\<close>: \<open>shared/financial-accuracy/journalAccuracy.ts\<close>.
  \<^item> \<open>PostingGovernance\<close>: \<open>services/postingGovernanceService.ts\<close> and \<open>modules/accounting-governance\<close>.
  \<^item> \<open>Ledger\<close>: \<open>services/accountingCore.ts\<close> on the tables it writes, with
    \<open>glPeriodRebuildService.ts\<close>, the outbox of \<open>periodBalanceWorker.ts\<close> and the cache refresh of
    \<open>apBalanceGovernance.ts\<close>. \<open>LedgerBase\<close> and \<open>LedgerOps\<close> reduce every operation to the rows it
    appends, \<open>LedgerInv\<close> and \<open>LedgerBooks\<close> hold the transition system, its invariants and the
    abstract ledger, \<open>LedgerSample\<close> a concrete run, \<open>LedgerTheorems\<close>, \<open>LedgerHistory\<close> and
    \<open>LedgerLiveness\<close> the claims.
  \<^item> \<open>TreasuryRules\<close>, \<open>Treasury\<close>, \<open>Settlements\<close>, \<open>TreasuryService\<close>, \<open>TreasuryTransfers\<close>:
    \<open>shared/treasury\<close> and \<open>modules/treasury\<close>. The invariants TD-INV-1 to TD-INV-7, the tables of
    documents, lines, audit and receipt settlements, the life of a document from draft to reversal,
    and the services that create documents (transfers, petty cash, deposit worksheets).
    \<open>TreasuryChanges\<close> reduces every operation to one of nine changes of the rows, \<open>TreasuryInv\<close> and
    \<open>TreasuryLedger\<close> hold the invariants of the documents and of their journals,
    \<open>TreasuryTheorems\<close>, \<open>TreasuryOps\<close>, \<open>TreasuryBalance\<close> and \<open>SettlementInv\<close> the claims,
    \<open>TreasurySample\<close> a concrete treasury.
  \<^item> \<open>UomGraph\<close>, \<open>UomTrees\<close>: \<open>modules/products/uomGraphService.ts\<close>. The conversion graph of an item, its
    validation and the resolution of a unit; what the validation means.
  \<^item> \<open>UomStore\<close>, \<open>UomService\<close>: \<open>modules/products/uomRepository.ts\<close>, \<open>uomService.ts\<close> and the guards of
    \<open>shared/domain/muomLifecycleSsot.ts\<close>. Master units, the units, base and purchase unit of a product
    with the stored conversions, and the units of sale lines. \<open>UomBase\<close> and \<open>UomGuards\<close> follow a base unit and
    the rows of a product through every operation, \<open>UomTheorems\<close> holds the claims.
  \<^item> \<open>CostLayers\<close>: \<open>services/costLayerService.ts\<close>, the step of \<open>sales/salesService.ts\<close> that deducts
    layers and \<open>consumeCostLayersFIFO\<close> of \<open>inventory/stockMovementHandler.ts\<close>. \<open>DecimalProducts\<close> has the
    exactness of products, \<open>FifoStock\<close> the abstract stock and the contract of a routine that issues
    from it (locale \<open>issuing\<close>, interpreted on sales and on adjustments), \<open>CostStock\<close> the invariant and
    the one description of what a deduction writes, \<open>CostTheorems\<close> the claims.
  \<^item> \<open>TaxCompute\<close>, \<open>TaxPreview\<close>: \<open>shared/utils/taxCompute.ts\<close> with the document sum of \<open>services/taxEngine.ts\<close>, and
    \<open>shared/utils/documentTaxPreview.ts\<close>. The taxes of an amount, inclusive and exclusive, and which taxes a line bears.
    \<open>TaxService\<close>: \<open>services/documentTaxService.ts\<close> and \<open>documentTaxRepository.ts\<close> on their tables. \<open>TaxClient\<close>: the tax
    snapshot of \<open>offlineCatalogService.ts\<close>, the preview of the cart in \<open>POSPage.tsx\<close> and \<open>shared/utils/quotationCalculations.ts\<close>.
    \<open>TaxExact\<close> has the taxes in exact cents, \<open>TaxAgreement\<close> relates client and server, \<open>TaxMappings\<close> treats the
    mappings of a product, \<open>TaxTheorems\<close> holds the claims.

  \<^bold>\<open>How they interact.\<close> The service layer calls the repository on the tables and the shared
  policies on the permissions it read; the guards and the authorization service both end in the same
  query. A journal passes the governance rules on the accounts of its lines, then the idempotency and
  reference guards, then is written line by line with the cached balances, checked against its header
  and followed by the cache refresh. A treasury document posts its lines through this operation in the
  transaction that consumes the receipts it deposits and stamps the document. Sales, purchasing and
  the other modules post through it too; for the treasury they are arbitrary journals with keys and
  references of their own. A sale deducts its lines from the cost layers one by one inside its own
  transaction and goes on after a shortage; receipts and stock adjustments write the same tables. A sale line resolves
  its unit on a graph merged from the product's rows and the stored conversions; every write of a unit
  is validated as a graph before it is stored, and the purchase unit after it. Client and server share the computation of taxes:
  the client reads a snapshot of the tables, the server the tables, and both end in the same function of a line's taxes.

  \<^bold>\<open>State and effects.\<close> A table is a list of rows in insertion order, and a query without a complete ORDER BY reads it in
  that order, except for cost layers and tax definitions, where the order of rows that tie is a parameter of the
  tables (\<open>co_scan\<close>, \<open>tb_scan\<close>); UNIQUE, NOT NULL and column
  ranges are written out where a statement can violate them. A method that runs in one database
  transaction returns the new tables or an error and then leaves the old ones. Where the code reads
  through the connection pool inside a caller's transaction, the committed tables are a second
  argument. Identifiers come from an injective generator, the collation of \<open>localeCompare\<close> and the
  Decimal library are parameters, each with a named hypothesis and an instance in the witnesses.

  \<^bold>\<open>What the lemmas show.\<close>
  \<^item> Lots: a selection serves the request from the eligible lots in expiry order, each once, and for whole
    quantities up to \<open>2 ^ 53\<close> allocates exactly the smaller of request and stock; it never takes an
    expired lot; the display status agrees with the sale rule.
  \<^item> Access: the role tables stay well formed along every sequence of operations, revocation is
    immediate, guard and service agree on the catalog.
  \<^item> Ledger: books kept in whole cents balance exactly; the tables refine a list of postings in force; posting and
    reversing is a round trip, repeated requests are idempotent, history is append-only, closed periods
    receive nothing and their stored balances are not touched; a posted journal in whole cents can be reversed
    where the period of the reversal is open, the keys fit their column and the balances have room; governance
    protects the tagged accounts. Two defects are stated as theorems: a reversal counts twice in the cached
    balances, and inside a caller's transaction the duplicate guards are blind.
  \<^item> Treasury: in every reachable state a posted document has exactly one journal, whose entries are
    its lines; posted documents are frozen, a reversal mirrors its original and happens once, stale
    updates are refused, receipts are conserved (what is settled is what the deposits in force take, closed receipts apart). Two defects are stated as theorems: posting a
    document that waits for approval approves it, and a worksheet that names a receipt twice can be
    drafted but never posted.
  \<^item> Units: the validation accepts exactly the graphs with one way from every unit to the base, the
    resolution is the product along it and always returns. No history of operations replaces a stored
    base unit, factors of a product with a stored base unit stand while there is stock, a sale line gets the factor of its
    unit or is refused, but for a line that has no unit identifier and a label of single pieces, which counts as in the
    base unit. Two defects are stated as theorems: the unit of a pack can never be deleted, and the first sale of a product
    without a stored base unit resets the factor of a unit while there is stock.
  \<^item> Cost layers: a deduction issues from the front of the queue of layers, which is ordered by received date and time of
    creation (layers of one transaction tie in both, and the database may return them in any order), and rounds what
    is left of the last one to four decimals. On quantities of four decimals the lines of a sale add up, adjustments
    and sales deduct alike and the FIFO cost is the value issued. The average cost stays among
    the costs of the layers, layers are only consumed. One defect is stated as a theorem: a shortage
    that the sale passes over empties the layers and leaves the average cost stale.
  \<^item> Taxes: in whole cents, untaxed amount and taxes add up to the amount and the total; one percentage is the exact
    tax rounded half up; the preview of the point of sale is what the server computes; an untaxed product bears no
    tax; replaced mappings are the ones listed. One defect is stated as a theorem: the quotation screen adds the tax to
    the price where prices include it.

  \<^bold>\<open>Bounds and fuel.\<close> Amounts in cents are exact up to \<open>2 ^ 46\<close> cents (7e11), a journal may total
  \<open>2 ^ 45\<close> cents; the search for the shortest decimal text tries 1400 precisions, more than any double
  has decimals. Quantities of cost layers are below \<open>10 ^ 11\<close> and the value of a product's layers below
  \<open>10 ^ 14\<close>, within the twenty digits of the Decimal library. The loops of the modelled code are
  structural except the two walks of a conversion graph: the validation terminates by the units it
  has not seen, the resolution is a partial function that is proved to return.

  \<^bold>\<open>Not modelled.\<close> The user interface, reports and exports (rendering and SQL reads), the request
  validation schemas, sales, purchasing, banking, HR and restaurant services beyond their use of the
  modelled rules, migrations and scripts, device agents; see the component list of the manifest.
  Of the modelled parts: log output, notifications, the switches for legacy period writes and shadow
  verification, the table definitions of the role seed (one of them is not valid PostgreSQL; their outcome is a
  parameter of the seed), concurrency inside one operation (each runs serializably, as the advisory lock and
  the database transaction provide for numbers and rows).
\<close>

end
